(* ===== verification/Prelude.thy ===== *)
theory Prelude
  imports Main "HOL-Library.Word" "HOL-Library.List_Lexorder" "HOL-Library.Char_ord"
begin

text \<open>
  Shared vocabulary of the development: the machine types of the Rust code, the parts of the
  Rust standard library the modelled functions use (string prefixes, splitting and joining,
  decimal printing, little-endian byte encodings), and the generic lemmas about them that the
  component theories rely on. The collection \<open>wire_simps\<close> gathers the equations that evaluate
  string functions on literals; \<open>inj_rules\<close> gathers injectivity facts of encoders.

  A Rust \<^verbatim>\<open>String\<close> is its UTF-8 byte sequence, one \<^typ>\<open>char\<close> per byte. Splitting,
  searching and replacing at ASCII characters is the same on bytes and on code points.
\<close>

named_theorems wire_simps "evaluation of string functions on literals"
named_theorems inj_rules "injectivity of encoders"

subsection \<open>Machine types\<close>

type_synonym u8 = "8 word"
type_synonym u16 = "16 word"
type_synonym u32 = "32 word"
type_synonym u64 = "64 word"

text \<open>
  \<^verbatim>\<open>chrono::DateTime<Utc>\<close> is a number of nanoseconds relative to the Unix epoch;
  \<^verbatim>\<open>std::time::Instant\<close> and \<^verbatim>\<open>Duration\<close> are nanoseconds on a monotonic clock.
\<close>

type_synonym datetime = int
type_synonym instant = nat

definition nanos_per_sec :: nat where
  "nanos_per_sec = 1000000000"

text \<open>\<^verbatim>\<open>Duration::from_secs\<close> and \<^verbatim>\<open>Duration::as_secs\<close>.\<close>

definition from_secs :: "nat \<Rightarrow> nat" where
  "from_secs s = s * nanos_per_sec"

definition as_secs :: "nat \<Rightarrow> nat" where
  "as_secs d = d div nanos_per_sec"

text \<open>
  \<^verbatim>\<open>chrono::TimeDelta::num_seconds\<close>: whole seconds, truncated towards zero.
\<close>

definition num_seconds :: "int \<Rightarrow> int" where
  "num_seconds d = sgn d * (\<bar>d\<bar> div int nanos_per_sec)"

lemma as_secs_from_secs [simp]: "as_secs (from_secs s) = s"
  by (simp add: as_secs_def from_secs_def nanos_per_sec_def)

lemma as_secs_mono: "a \<le> b \<Longrightarrow> as_secs a \<le> as_secs b"
  by (simp add: as_secs_def div_le_mono)

lemma from_secs_le_iff: "from_secs s \<le> d \<longleftrightarrow> s \<le> as_secs d"
  unfolding from_secs_def as_secs_def nanos_per_sec_def by (simp add: less_eq_div_iff_mult_less_eq)

lemma num_seconds_nonneg: "0 \<le> d \<Longrightarrow> num_seconds d = d div int nanos_per_sec"
  by (cases "d = 0") (simp_all add: num_seconds_def sgn_if)

subsection \<open>Results\<close>

text \<open>\<^verbatim>\<open>Result<T, E>\<close> is the sum type with the error on the left.\<close>

fun is_ok :: "'e + 'a \<Rightarrow> bool" where
  "is_ok (Inl _) = False"
| "is_ok (Inr _) = True"

lemma is_ok_iff: "is_ok r \<longleftrightarrow> (\<exists>x. r = Inr x)"
  by (cases r) auto

text \<open>\<^verbatim>\<open>Option::or\<close>.\<close>

definition or_else :: "'a option \<Rightarrow> 'a option \<Rightarrow> 'a option" where
  "or_else a b = (case a of Some x \<Rightarrow> Some x | None \<Rightarrow> b)"

lemma or_else_simps [simp]: "or_else (Some x) b = Some x" "or_else None b = b"
  by (simp_all add: or_else_def)

subsection \<open>Strings\<close>

text \<open>\<^verbatim>\<open>str::starts_with\<close>, \<^verbatim>\<open>str::strip_prefix\<close> and \<^verbatim>\<open>str::contains(char)\<close>.\<close>

fun starts_with :: "string \<Rightarrow> string \<Rightarrow> bool" where
  "starts_with s [] = True"
| "starts_with [] (p # ps) = False"
| "starts_with (c # cs) (p # ps) = (c = p \<and> starts_with cs ps)"

fun strip_prefix :: "string \<Rightarrow> string \<Rightarrow> string option" where
  "strip_prefix s [] = Some s"
| "strip_prefix [] (p # ps) = None"
| "strip_prefix (c # cs) (p # ps) = (if c = p then strip_prefix cs ps else None)"

lemma starts_with_append [simp]: "starts_with (p @ s) p"
  by (induction p) auto

lemma strip_prefix_append [simp]: "strip_prefix (p @ s) p = Some s"
  by (induction p) auto

lemma strip_prefix_Some: "strip_prefix s p = Some r \<longleftrightarrow> s = p @ r"
  by (induction s p rule: strip_prefix.induct) auto

lemma starts_with_iff: "starts_with s p \<longleftrightarrow> (\<exists>r. s = p @ r)"
  by (induction s p rule: starts_with.induct) auto

lemma strip_prefix_None: "strip_prefix s p = None \<longleftrightarrow> \<not> starts_with s p"
  by (induction s p rule: strip_prefix.induct) auto

text \<open>\<^verbatim>\<open>str::split(char)\<close> (never empty) and \<^verbatim>\<open>[_]::join\<close>.\<close>

fun split_char :: "char \<Rightarrow> string \<Rightarrow> string list" where
  "split_char d [] = [[]]"
| "split_char d (c # cs) =
     (if c = d then [] # split_char d cs
      else (case split_char d cs of [] \<Rightarrow> [[c]] | s # ss \<Rightarrow> (c # s) # ss))"

fun join :: "string \<Rightarrow> string list \<Rightarrow> string" where
  "join sep [] = []"
| "join sep [s] = s"
| "join sep (s # t # ss) = s @ sep @ join sep (t # ss)"

lemma split_char_nonempty [simp]: "split_char d s \<noteq> []"
  by (induction s) (auto split: list.splits)

lemma join_Cons: "ss \<noteq> [] \<Longrightarrow> join sep (s # ss) = s @ sep @ join sep ss"
  by (cases ss) auto

lemma join_Cons_append: "join sep ((s @ t) # ss) = s @ join sep (t # ss)"
  by (cases ss) auto

lemma join_split_char: "join [d] (split_char d s) = s"
proof (induction s)
  case Nil
  show ?case by simp
next
  case (Cons c s)
  show ?case
  proof (cases "split_char d s")
    case Nil
    then show ?thesis by simp
  next
    case (Cons t ts)
    with \<open>join [d] (split_char d s) = s\<close> show ?thesis
      using join_Cons_append [of "[d]" "[c]" t ts] by (auto simp: join_Cons)
  qed
qed

lemma split_char_no_sep: "t \<in> set (split_char d s) \<Longrightarrow> d \<notin> set t"
  by (induction s arbitrary: t) (auto split: if_splits list.splits)

lemma split_char_id: "d \<notin> set s \<Longrightarrow> split_char d s = [s]"
  by (induction s) auto

lemma split_char_append:
  "d \<notin> set s \<Longrightarrow> split_char d (s @ d # t) = s # split_char d t"
  by (induction s) auto

lemma split_char_join:
  assumes "ss \<noteq> []" and "\<forall>s \<in> set ss. d \<notin> set s"
  shows "split_char d (join [d] ss) = ss"
  using assms
proof (induction ss rule: induct_list012)
  case (3 s t ss)
  then show ?case by (simp add: split_char_append)
qed (auto simp: split_char_id)

text \<open>\<^verbatim>\<open>str::replace\<close> of one character by a string.\<close>

definition replace_char :: "char \<Rightarrow> string \<Rightarrow> string \<Rightarrow> string" where
  "replace_char c t s = concat (map (\<lambda>x. if x = c then t else [x]) s)"

lemma replace_char_simps [simp]:
  "replace_char c t [] = []"
  "replace_char c t (x # s) = (if x = c then t else [x]) @ replace_char c t s"
  by (simp_all add: replace_char_def)

lemma replace_char_append [simp]:
  "replace_char c t (s @ u) = replace_char c t s @ replace_char c t u"
  by (simp add: replace_char_def)

text \<open>
  \<^verbatim>\<open>str::find\<close> for a substring (byte offset of the first occurrence) and
  \<^verbatim>\<open>str::contains\<close>; \<^verbatim>\<open>&s[..i]\<close> and \<^verbatim>\<open>&s[i..]\<close> are \<^const>\<open>take\<close> and
  \<^const>\<open>drop\<close>.
\<close>

fun find_str :: "string \<Rightarrow> string \<Rightarrow> nat option" where
  "find_str [] p = (if p = [] then Some 0 else None)"
| "find_str (c # cs) p =
     (if starts_with (c # cs) p then Some 0 else map_option Suc (find_str cs p))"

definition contains_str :: "string \<Rightarrow> string \<Rightarrow> bool" where
  "contains_str s p \<longleftrightarrow> find_str s p \<noteq> None"

lemma find_str_Some:
  "find_str s p = Some i \<Longrightarrow> i + length p \<le> length s \<and> (\<exists>r. drop i s = p @ r)"
proof (induction s arbitrary: i)
  case (Cons c s)
  show ?case
  proof (cases "starts_with (c # s) p")
    case True
    with Cons.prems have "i = 0" by simp
    moreover from True obtain r where "c # s = p @ r"
      by (auto simp: starts_with_iff)
    moreover from this have "length (c # s) = length (p @ r)" by (rule arg_cong)
    ultimately show ?thesis by auto
  next
    case False
    with Cons show ?thesis by auto
  qed
qed (auto split: if_splits)

lemma find_str_char_notin: "d \<notin> set s \<Longrightarrow> find_str s [d] = None"
  by (induction s) auto

lemma find_str_char_append: "d \<notin> set s \<Longrightarrow> find_str (s @ d # t) [d] = Some (length s)"
  by (induction s) auto

lemma contains_str_append: "contains_str (s @ p @ t) p"
proof (induction s)
  case Nil
  have "starts_with (p @ t) p" by simp
  then show ?case by (cases "p @ t"; cases p) (auto simp: contains_str_def)
next
  case (Cons c s)
  then show ?case by (auto simp: contains_str_def)
qed

text \<open>\<^verbatim>\<open>str::to_uppercase\<close> on ASCII text.\<close>

definition ascii_upper :: "char \<Rightarrow> char" where
  "ascii_upper c = (if 97 \<le> (of_char c :: nat) \<and> (of_char c :: nat) \<le> 122
     then char_of ((of_char c :: nat) - 32) else c)"

definition to_uppercase :: "string \<Rightarrow> string" where
  "to_uppercase s = map ascii_upper s"

text \<open>
  \<^verbatim>\<open>str::to_lowercase\<close>. On ASCII text the lower case is written out; on other text it depends
  on the Unicode tables and is the argument \<open>uni\<close>.
\<close>

definition is_ascii :: "char \<Rightarrow> bool" where
  "is_ascii c \<longleftrightarrow> (of_char c :: nat) < 128"

definition to_ascii_lowercase :: "char \<Rightarrow> char" where
  "to_ascii_lowercase c =
     (if 65 \<le> (of_char c :: nat) \<and> (of_char c :: nat) \<le> 90 then char_of ((of_char c :: nat) + 32) else c)"

definition to_lowercase :: "(string \<Rightarrow> string) \<Rightarrow> string \<Rightarrow> string" where
  "to_lowercase uni s = (if list_all is_ascii s then map to_ascii_lowercase s else uni s)"

text \<open>Decimal printing of an unsigned integer (\<^verbatim>\<open>Display\<close>).\<close>

definition digit_char :: "nat \<Rightarrow> char" where
  "digit_char n = char_of (48 + n)"

fun show_nat :: "nat \<Rightarrow> string" where
  "show_nat n = (if n < 10 then [digit_char n] else show_nat (n div 10) @ [digit_char (n mod 10)])"

declare show_nat.simps [simp del]

text \<open>Printing of a signed integer.\<close>

definition show_i64 :: "int \<Rightarrow> string" where
  "show_i64 i = (if i < 0 then ''-'' @ show_nat (nat (- i)) else show_nat (nat i))"

definition is_ascii_digit :: "char \<Rightarrow> bool" where
  "is_ascii_digit c \<longleftrightarrow> 48 \<le> (of_char c :: nat) \<and> (of_char c :: nat) \<le> 57"

lemma of_char_digit_char: "n < 10 \<Longrightarrow> (of_char (digit_char n) :: nat) = 48 + n"
  by (simp add: digit_char_def)

lemma show_nat_digits: "list_all is_ascii_digit (show_nat n)"
proof (induction n rule: show_nat.induct)
  case (1 n)
  then show ?case
    by (subst show_nat.simps) (auto simp: is_ascii_digit_def [of "digit_char _"] of_char_digit_char)
qed

lemma show_nat_nonempty [simp]: "show_nat n \<noteq> []"
  by (subst show_nat.simps) simp

text \<open>The value of a digit string; \<^const>\<open>show_nat\<close> is inverted by it, hence injective.\<close>

definition digits_val :: "string \<Rightarrow> nat" where
  "digits_val s = foldl (\<lambda>a c. 10 * a + (of_char c - 48)) 0 s"

lemma digits_val_snoc: "digits_val (s @ [c]) = 10 * digits_val s + (of_char c - 48)"
  by (simp add: digits_val_def)

lemma digits_val_show_nat [simp]: "digits_val (show_nat n) = n"
proof (induction n rule: show_nat.induct)
  case (1 n)
  show ?case
  proof (cases "n < 10")
    case True
    then show ?thesis
      by (subst show_nat.simps) (simp add: digits_val_def of_char_digit_char)
  next
    case False
    with "1.IH" show ?thesis
      by (subst show_nat.simps) (simp add: digits_val_snoc of_char_digit_char)
  qed
qed

lemma show_nat_inj [inj_rules]: "show_nat a = show_nat b \<longleftrightarrow> a = b"
  by (metis digits_val_show_nat)

subsection \<open>Bytes\<close>

text \<open>\<^verbatim>\<open>str::as_bytes\<close>.\<close>

definition as_bytes :: "string \<Rightarrow> u8 list" where
  "as_bytes s = map of_char s"

lemma of_char_u8_inj: "(of_char a :: u8) = of_char b \<longleftrightarrow> a = b"
proof
  assume "(of_char a :: u8) = of_char b"
  then have "unat (of_nat (of_char a) :: u8) = unat (of_nat (of_char b) :: u8)"
    by (simp only: of_nat_of_char)
  then have "(of_char a :: nat) = of_char b"
    by (simp only: unat_of_nat) simp
  then show "a = b" by simp
qed simp

lemma length_as_bytes [simp]: "length (as_bytes s) = length s"
  by (simp add: as_bytes_def)

lemma as_bytes_inj [inj_rules]: "as_bytes a = as_bytes b \<longleftrightarrow> a = b"
proof
  assume "as_bytes a = as_bytes b"
  then show "a = b"
    unfolding as_bytes_def by (rule map_injective) (auto intro: injI simp: of_char_u8_inj)
qed simp

text \<open>\<^verbatim>\<open>to_le_bytes\<close>: the \<open>n\<close> low bytes of a word, least significant first.\<close>

definition le_bytes :: "nat \<Rightarrow> 'a::len word \<Rightarrow> u8 list" where
  "le_bytes n w = map (\<lambda>i. ucast (drop_bit (8 * i) w)) [0..<n]"

lemma length_le_bytes [simp]: "length (le_bytes n w) = n"
  by (simp add: le_bytes_def)

lemma le_bytes_inj:
  fixes v w :: "'a::len word"
  assumes eq: "le_bytes n v = le_bytes n w" and len: "LENGTH('a) \<le> 8 * n"
  shows "v = w"
proof (rule bit_eqI)
  fix k
  assume "possible_bit TYPE('a word) k"
  then have k: "k < LENGTH('a)" by simp
  define i where "i = k div 8"
  from k len have i: "i < n" by (simp add: i_def)
  with eq have "(ucast (drop_bit (8 * i) v) :: u8) = ucast (drop_bit (8 * i) w)"
    by (auto simp: le_bytes_def)
  then have "bit (ucast (drop_bit (8 * i) v) :: u8) (k mod 8) =
      bit (ucast (drop_bit (8 * i) w) :: u8) (k mod 8)"
    by simp
  then show "bit v k = bit w k"
    by (simp add: bit_ucast_iff bit_drop_bit_eq i_def)
qed

lemma le_bytes_u64_inj [inj_rules]: "le_bytes 8 (v :: u64) = le_bytes 8 w \<longleftrightarrow> v = w"
  using le_bytes_inj [of 8 v w] by auto

lemma le_bytes_u16_inj [inj_rules]: "le_bytes 2 (v :: u16) = le_bytes 2 w \<longleftrightarrow> v = w"
  using le_bytes_inj [of 2 v w] by auto

subsection \<open>Lists and maps\<close>

lemma map_of_map_snd: "map_of (map (\<lambda>(k, v). (k, f v)) xs) k = map_option f (map_of xs k)"
  by (induction xs) auto

lemma map_of_some_key: "k \<in> fst ` set xs \<Longrightarrow> \<exists>v. map_of xs k = Some v"
  by (metis map_of_eq_None_iff not_None_eq)

lemma sorted_list_unique_keys:
  fixes xs ys :: "'k::linorder list"
  assumes "distinct xs" and "distinct ys" and "set xs = set ys"
  shows "sort xs = sort ys"
  using assms by (metis sorted_list_of_set_sort_remdups distinct_remdups_id)

text \<open>Two lists strictly sorted by the same key with the same elements are equal.\<close>

lemma strict_sorted_key_unique:
  fixes f :: "'a \<Rightarrow> 'k::linorder"
  assumes "sorted_wrt (<) (map f xs)" and "sorted_wrt (<) (map f ys)" and "set xs = set ys"
  shows "xs = ys"
proof -
  have "map f xs = map f ys"
    using assms by (intro sorted_distinct_set_unique) (auto simp: strict_sorted_iff)
  moreover have "inj_on f (set xs \<union> set ys)"
    using assms by (auto simp: strict_sorted_iff distinct_map)
  ultimately show ?thesis by (simp add: inj_on_map_eq_map)
qed

text \<open>A 64-bit word below \<open>2 ^ 63\<close> reads the same signed and unsigned.\<close>

lemma uint_less_iff_unat: "uint (w :: u64) < 2 ^ 63 \<longleftrightarrow> unat w < 2 ^ 63"
  using of_nat_less_iff [of "unat w" "2 ^ 63", where 'a = int] by simp

lemma sint_small:
  assumes "unat (w :: u64) < 2 ^ 63"
  shows "sint w = int (unat w)"
proof -
  have "uint w < 2 ^ 63" using assms by (simp only: uint_less_iff_unat)
  then show ?thesis
    using signed_take_bit_int_eq_self [of 63 "uint w"]
    by (simp add: sint_uint order_trans [OF _ uint_ge_0])
qed

lemma sint_nonneg_small: "0 \<le> sint (w :: u64) \<Longrightarrow> unat w < 2 ^ 63"
proof (rule ccontr)
  assume a: "0 \<le> sint w" and "\<not> unat w < 2 ^ 63"
  then have "\<not> uint w < 2 ^ 63" by (simp only: uint_less_iff_unat not_False_eq_True)
  moreover have "uint w < 2 ^ 64" using uint_lt2p [of w] by simp
  ultimately have "uint w div 2 ^ 63 = 1"
    by (simp add: div_pos_geq)
  then have "bit (uint w) 63" by (simp add: bit_iff_odd)
  with a show False by (simp add: sint_uint)
qed
text \<open>A delimiter that does not occur before it splits a list in one way.\<close>

text \<open>
  \<^verbatim>\<open>str::trim_start\<close> and \<^verbatim>\<open>str::trim\<close>: the characters with the Unicode property
  \<^verbatim>\<open>White_Space\<close>, as UTF-8.
\<close>

definition whitespace_chars :: "string list" where
  "whitespace_chars =
     [[CHR 0x09], [CHR 0x0A], [CHR 0x0B], [CHR 0x0C], [CHR 0x0D], [CHR 0x20],
      [CHR 0xC2, CHR 0x85], [CHR 0xC2, CHR 0xA0], [CHR 0xE1, CHR 0x9A, CHR 0x80],
      [CHR 0xE2, CHR 0x80, CHR 0x80], [CHR 0xE2, CHR 0x80, CHR 0x81], [CHR 0xE2, CHR 0x80, CHR 0x82],
      [CHR 0xE2, CHR 0x80, CHR 0x83], [CHR 0xE2, CHR 0x80, CHR 0x84], [CHR 0xE2, CHR 0x80, CHR 0x85],
      [CHR 0xE2, CHR 0x80, CHR 0x86], [CHR 0xE2, CHR 0x80, CHR 0x87], [CHR 0xE2, CHR 0x80, CHR 0x88],
      [CHR 0xE2, CHR 0x80, CHR 0x89], [CHR 0xE2, CHR 0x80, CHR 0x8A], [CHR 0xE2, CHR 0x80, CHR 0xA8],
      [CHR 0xE2, CHR 0x80, CHR 0xA9], [CHR 0xE2, CHR 0x80, CHR 0xAF], [CHR 0xE2, CHR 0x81, CHR 0x9F],
      [CHR 0xE3, CHR 0x80, CHR 0x80]]"

fun strip_leading :: "string list \<Rightarrow> string \<Rightarrow> string" where
  "strip_leading ws s =
     (case filter (starts_with s) ws of
        [] \<Rightarrow> s
      | w # _ \<Rightarrow> if 0 < length w \<and> 0 < length s then strip_leading ws (drop (length w) s) else s)"

declare strip_leading.simps [simp del]

definition trim_start :: "string \<Rightarrow> string" where
  "trim_start s = strip_leading whitespace_chars s"

definition trim :: "string \<Rightarrow> string" where
  "trim s = rev (strip_leading (map rev whitespace_chars) (rev (trim_start s)))"

lemma find_split:
  "find P xs = Some x \<Longrightarrow> \<exists>ys zs. xs = ys @ x # zs \<and> (\<forall>y \<in> set ys. \<not> P y) \<and> P x"
proof (induction xs)
  case (Cons a xs)
  show ?case
  proof (cases "P a")
    case True
    with Cons.prems show ?thesis by (intro exI [of _ "[]"] exI [of _ xs]) auto
  next
    case False
    with Cons obtain ys zs where "xs = ys @ x # zs" "\<forall>y \<in> set ys. \<not> P y" "P x" by auto
    with False show ?thesis by (intro exI [of _ "a # ys"] exI [of _ zs]) auto
  qed
qed simp

lemma find_sort_key_best:
  assumes "find P (sort_key f xs) = Some x"
  shows "x \<in> set xs \<and> P x \<and> (\<forall>y \<in> set xs. P y \<longrightarrow> f x \<le> f y)"
proof -
  obtain ys zs where split: "sort_key f xs = ys @ x # zs" and "\<forall>y \<in> set ys. \<not> P y" and "P x"
    using find_split [OF assms] by blast
  moreover have "sorted (map f (ys @ x # zs))" unfolding split [symmetric] by simp
  moreover have "set xs = set (ys @ x # zs)" unfolding split [symmetric] by simp
  ultimately show ?thesis by (auto simp: sorted_append)
qed

lemma delimiter_unique:
  assumes "c \<notin> set xs" and "c \<notin> set ys" and "xs @ c # r = ys @ c # s"
  shows "xs = ys \<and> r = s"
  using assms
proof (induction xs arbitrary: ys)
  case Nil
  then show ?case by (cases ys) auto
next
  case (Cons x xs)
  then show ?case by (cases ys) auto
qed

end
