(* ===== verification/Errors.thy ===== *)
theory Errors
  imports Prelude
begin

text \<open>
  The framework's error type, its structured database errors and the mapping of every error to
  an HTTP response (\<^verbatim>\<open>src/acton-service/src/error.rs\<close>), with all cargo features enabled.
  Errors of third-party crates (figment, redis, jsonwebtoken, http, io, clickhouse, libsql,
  surrealdb) are carried by their display text, which is all the code ever uses of them.
\<close>

subsection \<open>Structured database errors\<close>

datatype database_operation =
  Connect | Query | Insert | Update | Delete | Transaction | Sync | Migration | PoolAcquire

fun database_operation_display :: "database_operation \<Rightarrow> string" where
  "database_operation_display Connect = ''connect''"
| "database_operation_display Query = ''query''"
| "database_operation_display Insert = ''insert''"
| "database_operation_display Update = ''update''"
| "database_operation_display Delete = ''delete''"
| "database_operation_display Transaction = ''transaction''"
| "database_operation_display Sync = ''sync''"
| "database_operation_display Migration = ''migration''"
| "database_operation_display PoolAcquire = ''pool_acquire''"

datatype database_error_kind =
  ConnectionFailed | KindNotFound | ConstraintViolation | QueryFailed | TransactionFailed
| TypeConversion | SyncFailed | Configuration | Timeout | PermissionDenied | PoolExhausted
| KindOther

fun database_error_kind_display :: "database_error_kind \<Rightarrow> string" where
  "database_error_kind_display ConnectionFailed = ''connection_failed''"
| "database_error_kind_display KindNotFound = ''not_found''"
| "database_error_kind_display ConstraintViolation = ''constraint_violation''"
| "database_error_kind_display QueryFailed = ''query_failed''"
| "database_error_kind_display TransactionFailed = ''transaction_failed''"
| "database_error_kind_display TypeConversion = ''type_conversion''"
| "database_error_kind_display SyncFailed = ''sync_failed''"
| "database_error_kind_display Configuration = ''configuration''"
| "database_error_kind_display Timeout = ''timeout''"
| "database_error_kind_display PermissionDenied = ''permission_denied''"
| "database_error_kind_display PoolExhausted = ''pool_exhausted''"
| "database_error_kind_display KindOther = ''other''"

record database_error =
  de_operation :: database_operation
  de_kind :: database_error_kind
  de_message :: string
  de_context :: "string option"

definition database_error_new ::
  "database_operation \<Rightarrow> database_error_kind \<Rightarrow> string \<Rightarrow> database_error" where
  "database_error_new operation kind message =
     \<lparr>de_operation = operation, de_kind = kind, de_message = message, de_context = None\<rparr>"

definition database_error_with_context ::
  "database_operation \<Rightarrow> database_error_kind \<Rightarrow> string \<Rightarrow> string \<Rightarrow> database_error" where
  "database_error_with_context operation kind message context' =
     \<lparr>de_operation = operation, de_kind = kind, de_message = message,
      de_context = Some context'\<rparr>"

definition not_found :: "database_operation \<Rightarrow> string \<Rightarrow> database_error" where
  "not_found operation message = database_error_new operation KindNotFound message"

definition connection_failed :: "string \<Rightarrow> database_error" where
  "connection_failed message = database_error_new Connect ConnectionFailed message"

definition constraint_violation :: "database_operation \<Rightarrow> string \<Rightarrow> database_error" where
  "constraint_violation operation message =
     database_error_new operation ConstraintViolation message"

definition query_failed :: "string \<Rightarrow> database_error" where
  "query_failed message = database_error_new Query QueryFailed message"

definition timeout :: "database_operation \<Rightarrow> string \<Rightarrow> database_error" where
  "timeout operation message = database_error_new operation Timeout message"

definition pool_exhausted :: "string \<Rightarrow> database_error" where
  "pool_exhausted message = database_error_new PoolAcquire PoolExhausted message"

definition transaction_failed :: "string \<Rightarrow> database_error" where
  "transaction_failed message = database_error_new Transaction TransactionFailed message"

definition sync_failed :: "string \<Rightarrow> database_error" where
  "sync_failed message = database_error_new Sync SyncFailed message"

definition is_retriable :: "database_error \<Rightarrow> bool" where
  "is_retriable e = (case de_kind e of
       ConnectionFailed \<Rightarrow> True
     | Timeout \<Rightarrow> True
     | PoolExhausted \<Rightarrow> True
     | SyncFailed \<Rightarrow> True
     | _ \<Rightarrow> False)"

definition add_context :: "database_error \<Rightarrow> string \<Rightarrow> database_error" where
  "add_context e context' = e\<lparr>de_context := Some context'\<rparr>"

definition database_error_display :: "database_error \<Rightarrow> string" where
  "database_error_display e =
     ''Database '' @ database_error_kind_display (de_kind e) @ '' error during '' @
     database_operation_display (de_operation e) @ '': '' @ de_message e @
     (case de_context e of
        None \<Rightarrow> []
      | Some ctx \<Rightarrow> '' [context: '' @ ctx @ '']'')"

text \<open>Removal of credentials from a connection URL before it is logged.\<close>

definition sanitize_url :: "string \<Rightarrow> string" where
  "sanitize_url url =
     (let tail =
        (if contains_str url ''authToken='' \<or> contains_str url ''auth_token=''
         then hd (split_char (CHR ''?'') url) @ ''?<credentials redacted>''
         else url)
      in case find_str url ''@'' of
           Some at_pos \<Rightarrow>
             (case find_str url ''://'' of
                Some scheme_end \<Rightarrow>
                  take (scheme_end + 3) url @ ''<redacted>@'' @ drop (at_pos + 1) url
              | None \<Rightarrow> tail)
         | None \<Rightarrow> tail)"

subsection \<open>The error type and its HTTP response\<close>

datatype error =
  Config string
| Database database_error
| Redis string
| Nats string
| ClickHouse string
| Paseto string
| Auth string
| Jwt string
| Http string
| Io string
| Unauthorized string
| Forbidden string
| NotFound string
| BadRequest string
| RateLimitExceeded
| Conflict string
| ValidationError string
| NotSupported string
| External string
| Internal string
| Tls string
| Other string
| Session string
| AuditError string
| AccountLocked string u64

text \<open>The status codes the mapping uses.\<close>

abbreviation BAD_REQUEST :: u16 where "BAD_REQUEST \<equiv> 400"
abbreviation UNAUTHORIZED :: u16 where "UNAUTHORIZED \<equiv> 401"
abbreviation FORBIDDEN :: u16 where "FORBIDDEN \<equiv> 403"
abbreviation NOT_FOUND :: u16 where "NOT_FOUND \<equiv> 404"
abbreviation CONFLICT :: u16 where "CONFLICT \<equiv> 409"
abbreviation UNPROCESSABLE_ENTITY :: u16 where "UNPROCESSABLE_ENTITY \<equiv> 422"
abbreviation LOCKED :: u16 where "LOCKED \<equiv> 423"
abbreviation TOO_MANY_REQUESTS :: u16 where "TOO_MANY_REQUESTS \<equiv> 429"
abbreviation INTERNAL_SERVER_ERROR :: u16 where "INTERNAL_SERVER_ERROR \<equiv> 500"
abbreviation NOT_IMPLEMENTED :: u16 where "NOT_IMPLEMENTED \<equiv> 501"
abbreviation BAD_GATEWAY :: u16 where "BAD_GATEWAY \<equiv> 502"
abbreviation GATEWAY_TIMEOUT :: u16 where "GATEWAY_TIMEOUT \<equiv> 504"

record error_response =
  er_error :: string
  er_code :: "string option"
  er_status :: u16

definition error_response_new :: "u16 \<Rightarrow> string \<Rightarrow> error_response" where
  "error_response_new status err = \<lparr>er_error = err, er_code = None, er_status = status\<rparr>"

definition error_response_with_code :: "u16 \<Rightarrow> string \<Rightarrow> string \<Rightarrow> error_response" where
  "error_response_with_code status code err =
     \<lparr>er_error = err, er_code = Some code, er_status = status\<rparr>"

text \<open>An axum response: its status line, its JSON body and its \<^verbatim>\<open>Retry-After\<close> header.\<close>

record http_response =
  rs_status :: u16
  rs_body :: error_response
  rs_retry_after :: "string option"

definition coded :: "u16 \<Rightarrow> string \<Rightarrow> string \<Rightarrow> http_response" where
  "coded status code msg =
     \<lparr>rs_status = status, rs_body = error_response_with_code status code msg,
      rs_retry_after = None\<rparr>"

fun database_status :: "database_error_kind \<Rightarrow> u16" where
  "database_status KindNotFound = NOT_FOUND"
| "database_status ConstraintViolation = CONFLICT"
| "database_status Timeout = GATEWAY_TIMEOUT"
| "database_status PermissionDenied = FORBIDDEN"
| "database_status _ = INTERNAL_SERVER_ERROR"

fun database_user_message :: "database_error_kind \<Rightarrow> string" where
  "database_user_message KindNotFound = ''Resource not found''"
| "database_user_message ConstraintViolation = ''Operation conflicts with existing data''"
| "database_user_message Timeout = ''Database operation timed out''"
| "database_user_message PermissionDenied = ''Database permission denied''"
| "database_user_message _ = ''Database operation failed''"

text \<open>
  \<^verbatim>\<open>IntoResponse for Error\<close>. The parameter \<open>hv\<close> is \<^verbatim>\<open>HeaderValue::from_str\<close> of the http
  crate.
\<close>

fun into_response :: "(string \<Rightarrow> string option) \<Rightarrow> error \<Rightarrow> http_response" where
  "into_response hv (Config e) = coded INTERNAL_SERVER_ERROR ''CONFIG_ERROR'' e"
| "into_response hv (Database e) =
     coded (database_status (de_kind e))
       (''DATABASE_'' @ to_uppercase (database_error_kind_display (de_kind e)))
       (database_user_message (de_kind e))"
| "into_response hv (Redis e) =
     coded INTERNAL_SERVER_ERROR ''CACHE_ERROR'' ''Cache operation failed''"
| "into_response hv (Nats e) =
     coded INTERNAL_SERVER_ERROR ''NATS_ERROR'' ''Event system error''"
| "into_response hv (ClickHouse e) =
     coded INTERNAL_SERVER_ERROR ''ANALYTICS_ERROR'' ''Analytics operation failed''"
| "into_response hv (Paseto msg) = coded UNAUTHORIZED ''INVALID_TOKEN'' msg"
| "into_response hv (Auth msg) = coded UNAUTHORIZED ''AUTH_ERROR'' msg"
| "into_response hv (Jwt e) = coded UNAUTHORIZED ''INVALID_TOKEN'' e"
| "into_response hv (Http e) = coded BAD_REQUEST ''HTTP_ERROR'' e"
| "into_response hv (Io e) =
     coded INTERNAL_SERVER_ERROR ''IO_ERROR'' ''I/O operation failed''"
| "into_response hv (Unauthorized msg) = coded UNAUTHORIZED ''UNAUTHORIZED'' msg"
| "into_response hv (Forbidden msg) = coded FORBIDDEN ''FORBIDDEN'' msg"
| "into_response hv (NotFound msg) = coded NOT_FOUND ''NOT_FOUND'' msg"
| "into_response hv (BadRequest msg) = coded BAD_REQUEST ''BAD_REQUEST'' msg"
| "into_response hv RateLimitExceeded =
     coded TOO_MANY_REQUESTS ''RATE_LIMIT_EXCEEDED'' ''Too many requests''"
| "into_response hv (Conflict msg) = coded CONFLICT ''CONFLICT'' msg"
| "into_response hv (ValidationError msg) =
     coded UNPROCESSABLE_ENTITY ''VALIDATION_ERROR'' msg"
| "into_response hv (NotSupported msg) = coded NOT_IMPLEMENTED ''NOT_SUPPORTED'' msg"
| "into_response hv (External msg) =
     coded BAD_GATEWAY ''EXTERNAL_ERROR'' ''External service unavailable''"
| "into_response hv (Internal msg) =
     coded INTERNAL_SERVER_ERROR ''INTERNAL_ERROR'' ''Internal server error''"
| "into_response hv (Tls msg) =
     coded INTERNAL_SERVER_ERROR ''INTERNAL_ERROR'' ''Internal server error''"
| "into_response hv (Other msg) =
     \<lparr>rs_status = INTERNAL_SERVER_ERROR,
      rs_body = error_response_new INTERNAL_SERVER_ERROR ''An unexpected error occurred'',
      rs_retry_after = None\<rparr>"
| "into_response hv (Session msg) =
     coded INTERNAL_SERVER_ERROR ''SESSION_ERROR'' ''Session operation failed''"
| "into_response hv (AuditError msg) =
     coded INTERNAL_SERVER_ERROR ''AUDIT_ERROR'' ''Audit operation failed''"
| "into_response hv (AccountLocked message retry_after_secs) =
     (let response = coded LOCKED ''ACCOUNT_LOCKED'' message
      in case hv (show_nat (unat retry_after_secs)) of
           Some value \<Rightarrow> response\<lparr>rs_retry_after := Some value\<rparr>
         | None \<Rightarrow> response)"

text \<open>The \<^verbatim>\<open>Display\<close> text of an error, from its \<^verbatim>\<open>#[error(..)]\<close> attributes.\<close>

fun error_display :: "error \<Rightarrow> string" where
  "error_display (Config e) = ''Configuration error: '' @ e"
| "error_display (Database e) = database_error_display e"
| "error_display (Redis e) = ''Redis error: '' @ e"
| "error_display (Nats m) = ''NATS error: '' @ m"
| "error_display (ClickHouse m) = ''ClickHouse error: '' @ m"
| "error_display (Paseto m) = ''PASETO error: '' @ m"
| "error_display (Auth m) = ''Auth error: '' @ m"
| "error_display (Jwt e) = ''JWT error: '' @ e"
| "error_display (Http e) = ''HTTP error: '' @ e"
| "error_display (Io e) = ''I/O error: '' @ e"
| "error_display (Unauthorized m) = ''Authentication failed: '' @ m"
| "error_display (Forbidden m) = ''Forbidden: '' @ m"
| "error_display (NotFound m) = ''Not found: '' @ m"
| "error_display (BadRequest m) = ''Bad request: '' @ m"
| "error_display RateLimitExceeded = ''Rate limit exceeded''"
| "error_display (Conflict m) = ''Conflict: '' @ m"
| "error_display (ValidationError m) = ''Validation error: '' @ m"
| "error_display (NotSupported m) = ''Not supported: '' @ m"
| "error_display (External m) = ''External service error: '' @ m"
| "error_display (Internal m) = ''Internal server error: '' @ m"
| "error_display (Tls m) = ''TLS configuration error: '' @ m"
| "error_display (Other m) = m"
| "error_display (Session m) = ''Session error: '' @ m"
| "error_display (AuditError m) = ''Audit error: '' @ m"
| "error_display (AccountLocked m r) = ''Account locked: '' @ m"

subsection \<open>Conversions from driver errors\<close>

text \<open>
  The variants of \<^verbatim>\<open>sqlx::Error\<close> the conversion distinguishes; wrapped errors are their
  display text, a server error also carries its three violation flags, and every variant the
  match does not name is the last one.
\<close>

datatype sqlx_error =
  E_RowNotFound
| E_PoolTimedOut
| E_PoolClosed
| E_Protocol string
| E_Configuration string
| E_Io string
| E_Tls string
| E_TypeNotFound string
| E_ColumnNotFound string
| E_ColumnIndexOutOfBounds nat nat
| E_ColumnDecode string string
| E_Decode string
| E_AnyDriverError string
| E_Migrate string
| E_Database bool bool bool string
| E_WorkerCrashed
| E_unnamed string

fun database_error_from_sqlx :: "sqlx_error \<Rightarrow> database_error" where
  "database_error_from_sqlx E_RowNotFound = not_found Query ''Row not found''"
| "database_error_from_sqlx E_PoolTimedOut = pool_exhausted ''Connection pool timed out''"
| "database_error_from_sqlx E_PoolClosed = connection_failed ''Connection pool is closed''"
| "database_error_from_sqlx (E_Protocol msg) = database_error_new Query QueryFailed msg"
| "database_error_from_sqlx (E_Configuration e) = database_error_new Connect Configuration e"
| "database_error_from_sqlx (E_Io e) = database_error_new Connect ConnectionFailed e"
| "database_error_from_sqlx (E_Tls e) =
     database_error_new Connect ConnectionFailed (''TLS error: '' @ e)"
| "database_error_from_sqlx (E_TypeNotFound type_name) =
     database_error_new Query TypeConversion (''Type not found: '' @ type_name)"
| "database_error_from_sqlx (E_ColumnNotFound col) =
     database_error_new Query QueryFailed (''Column not found: '' @ col)"
| "database_error_from_sqlx (E_ColumnIndexOutOfBounds index len) =
     database_error_new Query QueryFailed
       (''Column index '' @ show_nat index @ '' out of bounds (len: '' @ show_nat len @ '')'')"
| "database_error_from_sqlx (E_ColumnDecode index source) =
     database_error_new Query TypeConversion
       (''Failed to decode column '' @ index @ '': '' @ source)"
| "database_error_from_sqlx (E_Decode e) = database_error_new Query TypeConversion e"
| "database_error_from_sqlx (E_AnyDriverError e) = database_error_new Query QueryFailed e"
| "database_error_from_sqlx (E_Migrate e) = database_error_new Migration QueryFailed e"
| "database_error_from_sqlx (E_Database uniq fkey chk msg) =
     database_error_new Query
       (if uniq \<or> fkey \<or> chk then ConstraintViolation else QueryFailed) msg"
| "database_error_from_sqlx E_WorkerCrashed = connection_failed ''Database worker crashed''"
| "database_error_from_sqlx (E_unnamed msg) = database_error_new Query KindOther msg"

definition database_error_from_libsql :: "string \<Rightarrow> database_error" where
  "database_error_from_libsql msg =
     (let has = contains_str msg;
          (kind, operation) =
            (if has ''UNIQUE constraint failed'' \<or> has ''FOREIGN KEY constraint failed''
                \<or> has ''NOT NULL constraint failed'' \<or> has ''CHECK constraint failed''
             then (ConstraintViolation, Insert)
             else if has ''no such table'' \<or> has ''no such column'' then (QueryFailed, Query)
             else if has ''timeout'' \<or> has ''timed out'' then (Timeout, Query)
             else if has ''connection'' \<or> has ''Connection'' then (ConnectionFailed, Connect)
             else if has ''permission denied'' \<or> has ''Permission denied''
             then (PermissionDenied, Query)
             else if has ''sync'' \<or> has ''Sync'' then (SyncFailed, Sync)
             else (KindOther, Query))
      in database_error_new operation kind msg)"

definition database_error_from_surrealdb :: "string \<Rightarrow> database_error" where
  "database_error_from_surrealdb msg =
     (let has = contains_str msg;
          (kind, operation) =
            (if has ''already exists'' \<or> has ''unique'' \<or> has ''duplicate''
             then (ConstraintViolation, Insert)
             else if has ''not found'' \<or> has ''no record'' then (KindNotFound, Query)
             else if has ''timeout'' \<or> has ''timed out'' then (Timeout, Query)
             else if has ''connect'' \<or> has ''Connection'' then (ConnectionFailed, Connect)
             else if has ''permission'' \<or> has ''not allowed'' \<or> has ''denied''
             then (PermissionDenied, Query)
             else if has ''auth'' \<or> has ''signin'' \<or> has ''credentials''
             then (ConnectionFailed, Connect)
             else if has ''parse'' \<or> has ''syntax'' then (QueryFailed, Query)
             else (KindOther, Query))
      in database_error_new operation kind msg)"

subsection \<open>Properties\<close>

lemmas database_error_defs =
  database_error_new_def database_error_with_context_def not_found_def connection_failed_def
  constraint_violation_def query_failed_def timeout_def pool_exhausted_def
  transaction_failed_def sync_failed_def add_context_def

lemma coded_simps [simp]:
  "rs_status (coded status code msg) = status"
  "er_status (rs_body (coded status code msg)) = status"
  "er_code (rs_body (coded status code msg)) = Some code"
  "er_error (rs_body (coded status code msg)) = msg"
  "rs_retry_after (coded status code msg) = None"
  by (simp_all add: coded_def error_response_with_code_def)

lemma account_locked_status [simp]:
  "rs_status (into_response hv (AccountLocked m r)) = LOCKED"
  "er_status (rs_body (into_response hv (AccountLocked m r))) = LOCKED"
  by (simp_all add: Let_def split: option.splits)

text \<open>
  Every error response carries in its JSON body the status of its status line.
\<close>

theorem into_response_status_agrees:
  "er_status (rs_body (into_response hv e)) = rs_status (into_response hv e)"
  by (cases e) (simp_all add: error_response_new_def Let_def split: option.splits)

text \<open>
  The class of an error: its variant, and for database errors the error kind. Everything else
  an error carries is operator-facing detail.
\<close>

fun error_class :: "error \<Rightarrow> nat \<times> database_error_kind option" where
  "error_class (Config _) = (0, None)"
| "error_class (Database d) = (1, Some (de_kind d))"
| "error_class (Redis _) = (2, None)"
| "error_class (Nats _) = (3, None)"
| "error_class (ClickHouse _) = (4, None)"
| "error_class (Paseto _) = (5, None)"
| "error_class (Auth _) = (6, None)"
| "error_class (Jwt _) = (7, None)"
| "error_class (Http _) = (8, None)"
| "error_class (Io _) = (9, None)"
| "error_class (Unauthorized _) = (10, None)"
| "error_class (Forbidden _) = (11, None)"
| "error_class (NotFound _) = (12, None)"
| "error_class (BadRequest _) = (13, None)"
| "error_class RateLimitExceeded = (14, None)"
| "error_class (Conflict _) = (15, None)"
| "error_class (ValidationError _) = (16, None)"
| "error_class (NotSupported _) = (17, None)"
| "error_class (External _) = (18, None)"
| "error_class (Internal _) = (19, None)"
| "error_class (Tls _) = (20, None)"
| "error_class (Other _) = (21, None)"
| "error_class (Session _) = (22, None)"
| "error_class (AuditError _) = (23, None)"
| "error_class (AccountLocked _ _) = (24, None)"

text \<open>The response of the classes whose detail stays in the log, as a function of the class.\<close>

definition class_response :: "nat \<times> database_error_kind option \<Rightarrow> http_response" where
  "class_response c = (case snd c of
     Some k \<Rightarrow> coded (database_status k) (''DATABASE_'' @ to_uppercase (database_error_kind_display k))
         (database_user_message k)
   | None \<Rightarrow>
      if fst c = 2 then coded INTERNAL_SERVER_ERROR ''CACHE_ERROR'' ''Cache operation failed''
      else if fst c = 3 then coded INTERNAL_SERVER_ERROR ''NATS_ERROR'' ''Event system error''
      else if fst c = 4
      then coded INTERNAL_SERVER_ERROR ''ANALYTICS_ERROR'' ''Analytics operation failed''
      else if fst c = 9 then coded INTERNAL_SERVER_ERROR ''IO_ERROR'' ''I/O operation failed''
      else if fst c = 18 then coded BAD_GATEWAY ''EXTERNAL_ERROR'' ''External service unavailable''
      else if fst c = 21
      then \<lparr>rs_status = INTERNAL_SERVER_ERROR,
         rs_body = error_response_new INTERNAL_SERVER_ERROR ''An unexpected error occurred'',
         rs_retry_after = None\<rparr>
      else if fst c = 22
      then coded INTERNAL_SERVER_ERROR ''SESSION_ERROR'' ''Session operation failed''
      else if fst c = 23 then coded INTERNAL_SERVER_ERROR ''AUDIT_ERROR'' ''Audit operation failed''
      else coded INTERNAL_SERVER_ERROR ''INTERNAL_ERROR'' ''Internal server error'')"

definition masked_class :: "nat \<times> database_error_kind option \<Rightarrow> bool" where
  "masked_class c \<longleftrightarrow> fst c \<in> {1, 2, 3, 4, 9, 18, 19, 20, 21, 22, 23}"

lemma masked_class_response:
  "masked_class (error_class e) \<Longrightarrow> into_response hv e = class_response (error_class e)"
  by (cases e) (simp_all add: masked_class_def class_response_def)

lemma server_error_masked:
  assumes "500 \<le> rs_status (into_response hv e)"
    and "\<And>c. e \<noteq> Config c" and "\<And>m. e \<noteq> NotSupported m"
  shows "masked_class (error_class e)"
proof (cases "\<exists>m r. e = AccountLocked m r")
  case True
  with assms(1) show ?thesis by (auto simp del: into_response.simps)
next
  case False
  with assms show ?thesis by (cases e) (auto simp: masked_class_def)
qed

text \<open>
  No internal detail reaches the client. For every server-side failure (status 500 and
  above), configuration errors and unsupported operations excepted, the response is determined
  by the class of the error: neither the message nor the context of the error can be observed.
\<close>

theorem into_response_hides_detail:
  assumes "error_class e = error_class f"
    and "500 \<le> rs_status (into_response hv e)"
    and "\<And>c. e \<noteq> Config c" and "\<And>m. e \<noteq> NotSupported m"
  shows "into_response hv e = into_response hv f"
  using masked_class_response [of e hv] masked_class_response [of f hv]
    server_error_masked [OF assms(2-4)] assms(1) by simp

theorem into_response_hides_detail_witness:
  "into_response Some (Internal ''db password is hunter2'') = into_response Some (Internal ''x'')"
  by (rule into_response_hides_detail) simp_all

lemma find_scheme:
  assumes "CHR '':'' \<notin> set scheme"
  shows "find_str (scheme @ ''://'' @ t) ''://'' = Some (length scheme)"
  using assms by (induction scheme) auto

text \<open>
  \<^verbatim>\<open>sanitize_url\<close> replaces the part of a connection URL between the scheme and the
  first at-sign by a fixed marker and keeps everything after that at-sign, so the result does
  not depend on the user information before it (but an at-sign inside a password ends the
  redacted part).
\<close>

theorem sanitize_url_redacts:
  assumes "CHR '':'' \<notin> set scheme" and "CHR ''@'' \<notin> set scheme" and "CHR ''@'' \<notin> set userinfo"
  shows "sanitize_url (scheme @ ''://'' @ userinfo @ ''@'' @ rest) =
    scheme @ ''://<redacted>@'' @ rest"
proof -
  let ?url = "scheme @ ''://'' @ userinfo @ ''@'' @ rest"
  let ?pre = "scheme @ ''://'' @ userinfo"
  from assms have "CHR ''@'' \<notin> set ?pre" by simp
  from find_str_char_append [OF this, of rest]
  have at: "find_str ?url ''@'' = Some (length ?pre)" by simp
  have sch: "find_str ?url ''://'' = Some (length scheme)"
    using find_scheme [OF assms(1), of "userinfo @ ''@'' @ rest"] by simp
  have "take (length scheme + 3) ?url = scheme @ ''://''" by simp
  moreover have "drop (length (?pre @ ''@'')) ((?pre @ ''@'') @ rest) = rest"
    by (simp only: append_eq_conv_conj [THEN iffD1, OF refl, THEN conjunct2, symmetric])
  then have "drop (length ?pre + 1) ?url = rest"
    by (simp only: append_assoc length_append) simp
  ultimately show ?thesis
    unfolding sanitize_url_def at sch by (simp del: append.simps add: append.simps)
qed

theorem sanitize_url_redacts_witness:
  "sanitize_url ''postgres://u:p@ss@h/db'' = ''postgres://<redacted>@ss@h/db''"
  using sanitize_url_redacts [of "''postgres''" "''u:p''" "''ss@h/db''"] by simp

end
