(* ===== verification/Repository_Errors.thy ===== *)
theory Repository_Errors
  imports Errors
begin

text \<open>
  The error types of the repository and handler layers
  (\<^verbatim>\<open>src/acton-service/src/repository/error.rs\<close>, \<^verbatim>\<open>src/acton-service/src/handlers/error.rs\<close>)
  and the conversions that carry a database failure through them to an HTTP response:
  driver error, \<^verbatim>\<open>DatabaseError\<close>, \<^verbatim>\<open>RepositoryError\<close>, \<^verbatim>\<open>ApiError\<close>.
\<close>

subsection \<open>Repository errors\<close>

datatype repository_operation =
  FindById | FindAll | Count | Exists | RCreate | RUpdate | RDelete | RSoftDelete | RRestore
| BatchLoad

fun repository_operation_display :: "repository_operation \<Rightarrow> string" where
  "repository_operation_display FindById = ''find_by_id''"
| "repository_operation_display FindAll = ''find_all''"
| "repository_operation_display Count = ''count''"
| "repository_operation_display Exists = ''exists''"
| "repository_operation_display RCreate = ''create''"
| "repository_operation_display RUpdate = ''update''"
| "repository_operation_display RDelete = ''delete''"
| "repository_operation_display RSoftDelete = ''soft_delete''"
| "repository_operation_display RRestore = ''restore''"
| "repository_operation_display BatchLoad = ''batch_load''"

datatype repository_error_kind =
  RNotFound | RAlreadyExists | RConstraintViolation | RValidationFailed | RConnectionFailed
| RTimeout | RDatabaseError | RSerializationError | ROther

fun repository_error_kind_display :: "repository_error_kind \<Rightarrow> string" where
  "repository_error_kind_display RNotFound = ''not_found''"
| "repository_error_kind_display RAlreadyExists = ''already_exists''"
| "repository_error_kind_display RConstraintViolation = ''constraint_violation''"
| "repository_error_kind_display RValidationFailed = ''validation_failed''"
| "repository_error_kind_display RConnectionFailed = ''connection_failed''"
| "repository_error_kind_display RTimeout = ''timeout''"
| "repository_error_kind_display RDatabaseError = ''database_error''"
| "repository_error_kind_display RSerializationError = ''serialization_error''"
| "repository_error_kind_display ROther = ''other''"

record repository_error =
  re_operation :: repository_operation
  re_kind :: repository_error_kind
  re_message :: string
  re_entity_type :: "string option"
  re_entity_id :: "string option"

definition repository_error_new ::
  "repository_operation \<Rightarrow> repository_error_kind \<Rightarrow> string \<Rightarrow> repository_error" where
  "repository_error_new operation kind message =
     \<lparr>re_operation = operation, re_kind = kind, re_message = message,
      re_entity_type = None, re_entity_id = None\<rparr>"

definition repo_not_found :: "string \<Rightarrow> string \<Rightarrow> repository_error" where
  "repo_not_found entity_type entity_id =
     \<lparr>re_operation = FindById, re_kind = RNotFound, re_message = ''Entity not found'',
      re_entity_type = Some entity_type, re_entity_id = Some entity_id\<rparr>"

definition repo_already_exists :: "string \<Rightarrow> string \<Rightarrow> repository_error" where
  "repo_already_exists entity_type identifier =
     \<lparr>re_operation = RCreate, re_kind = RAlreadyExists, re_message = ''Entity already exists'',
      re_entity_type = Some entity_type, re_entity_id = Some identifier\<rparr>"

definition repo_validation_failed :: "string \<Rightarrow> repository_error" where
  "repo_validation_failed message = repository_error_new RCreate RValidationFailed message"

definition repo_constraint_violation :: "repository_operation \<Rightarrow> string \<Rightarrow> repository_error" where
  "repo_constraint_violation operation message =
     repository_error_new operation RConstraintViolation message"

definition repo_connection_failed :: "string \<Rightarrow> repository_error" where
  "repo_connection_failed message = repository_error_new FindById RConnectionFailed message"

definition repo_timeout :: "repository_operation \<Rightarrow> string \<Rightarrow> repository_error" where
  "repo_timeout operation message = repository_error_new operation RTimeout message"

definition repo_database_error :: "repository_operation \<Rightarrow> string \<Rightarrow> repository_error" where
  "repo_database_error operation message = repository_error_new operation RDatabaseError message"

definition repo_serialization_error :: "repository_operation \<Rightarrow> string \<Rightarrow> repository_error" where
  "repo_serialization_error operation message =
     repository_error_new operation RSerializationError message"

definition repo_with_entity :: "repository_error \<Rightarrow> string \<Rightarrow> string \<Rightarrow> repository_error" where
  "repo_with_entity e entity_type entity_id =
     e\<lparr>re_entity_type := Some entity_type, re_entity_id := Some entity_id\<rparr>"

definition repo_with_operation :: "repository_error \<Rightarrow> repository_operation \<Rightarrow> repository_error" where
  "repo_with_operation e operation = e\<lparr>re_operation := operation\<rparr>"

definition repo_is_retriable :: "repository_error \<Rightarrow> bool" where
  "repo_is_retriable e = (case re_kind e of
       RConnectionFailed \<Rightarrow> True
     | RTimeout \<Rightarrow> True
     | _ \<Rightarrow> False)"

definition repository_error_display :: "repository_error \<Rightarrow> string" where
  "repository_error_display e =
     ''Repository '' @ repository_error_kind_display (re_kind e) @ '' error during '' @
     repository_operation_display (re_operation e) @ '': '' @ re_message e @
     (case (re_entity_type e, re_entity_id e) of
        (Some entity_type, Some entity_id) \<Rightarrow> '' ['' @ entity_type @ '': '' @ entity_id @ '']''
      | _ \<Rightarrow> [])"

text \<open>\<^verbatim>\<open>From<DatabaseError> for RepositoryError\<close> (\<^verbatim>\<open>src/acton-service/src/error.rs\<close>).\<close>

definition repository_error_from_database :: "database_error \<Rightarrow> repository_error" where
  "repository_error_from_database err =
     (let kind = (case de_kind err of
            KindNotFound \<Rightarrow> RNotFound
          | ConstraintViolation \<Rightarrow> RConstraintViolation
          | ConnectionFailed \<Rightarrow> RConnectionFailed
          | Timeout \<Rightarrow> RTimeout
          | PoolExhausted \<Rightarrow> RConnectionFailed
          | _ \<Rightarrow> RDatabaseError);
          operation = (case de_operation err of
            Query \<Rightarrow> FindAll
          | Insert \<Rightarrow> RCreate
          | Update \<Rightarrow> RUpdate
          | Delete \<Rightarrow> RDelete
          | _ \<Rightarrow> FindById)
      in \<lparr>re_operation = operation, re_kind = kind, re_message = de_message err,
          re_entity_type = None, re_entity_id = None\<rparr>)"

subsection \<open>API errors\<close>

datatype api_operation =
  List | Get | Create | AUpdate | ADelete | SoftDelete | Restore | ListWithDeleted

fun api_operation_display :: "api_operation \<Rightarrow> string" where
  "api_operation_display List = ''list''"
| "api_operation_display Get = ''get''"
| "api_operation_display Create = ''create''"
| "api_operation_display AUpdate = ''update''"
| "api_operation_display ADelete = ''delete''"
| "api_operation_display SoftDelete = ''soft_delete''"
| "api_operation_display Restore = ''restore''"
| "api_operation_display ListWithDeleted = ''list_with_deleted''"

datatype api_error_kind =
  ANotFound | AAlreadyExists | AValidationFailed | AUnauthorized | AForbidden | ABadRequest
| AConflict | InternalError | ServiceUnavailable

fun api_error_kind_display :: "api_error_kind \<Rightarrow> string" where
  "api_error_kind_display ANotFound = ''not_found''"
| "api_error_kind_display AAlreadyExists = ''already_exists''"
| "api_error_kind_display AValidationFailed = ''validation_failed''"
| "api_error_kind_display AUnauthorized = ''unauthorized''"
| "api_error_kind_display AForbidden = ''forbidden''"
| "api_error_kind_display ABadRequest = ''bad_request''"
| "api_error_kind_display AConflict = ''conflict''"
| "api_error_kind_display InternalError = ''internal_error''"
| "api_error_kind_display ServiceUnavailable = ''service_unavailable''"

abbreviation SERVICE_UNAVAILABLE :: u16 where "SERVICE_UNAVAILABLE \<equiv> 503"

fun status_code :: "api_error_kind \<Rightarrow> u16" where
  "status_code ANotFound = NOT_FOUND"
| "status_code AAlreadyExists = CONFLICT"
| "status_code AConflict = CONFLICT"
| "status_code AValidationFailed = UNPROCESSABLE_ENTITY"
| "status_code AUnauthorized = UNAUTHORIZED"
| "status_code AForbidden = FORBIDDEN"
| "status_code ABadRequest = BAD_REQUEST"
| "status_code InternalError = INTERNAL_SERVER_ERROR"
| "status_code ServiceUnavailable = SERVICE_UNAVAILABLE"

definition error_code :: "api_error_kind \<Rightarrow> string" where
  "error_code k = to_uppercase (api_error_kind_display k)"

record api_error =
  ae_operation :: api_operation
  ae_kind :: api_error_kind
  ae_message :: string
  ae_entity_type :: "string option"
  ae_entity_id :: "string option"

definition api_error_new :: "api_operation \<Rightarrow> api_error_kind \<Rightarrow> string \<Rightarrow> api_error" where
  "api_error_new operation kind message =
     \<lparr>ae_operation = operation, ae_kind = kind, ae_message = message,
      ae_entity_type = None, ae_entity_id = None\<rparr>"

definition api_not_found :: "string \<Rightarrow> string \<Rightarrow> api_error" where
  "api_not_found entity_type entity_id =
     \<lparr>ae_operation = Get, ae_kind = ANotFound, ae_message = ''Entity not found'',
      ae_entity_type = Some entity_type, ae_entity_id = Some entity_id\<rparr>"

definition api_already_exists :: "string \<Rightarrow> string \<Rightarrow> api_error" where
  "api_already_exists entity_type identifier =
     \<lparr>ae_operation = Create, ae_kind = AAlreadyExists, ae_message = ''Entity already exists'',
      ae_entity_type = Some entity_type, ae_entity_id = Some identifier\<rparr>"

definition api_validation_failed :: "string \<Rightarrow> api_error" where
  "api_validation_failed message = api_error_new Create AValidationFailed message"

definition api_bad_request :: "string \<Rightarrow> api_error" where
  "api_bad_request message = api_error_new List ABadRequest message"

definition api_unauthorized :: "string \<Rightarrow> api_error" where
  "api_unauthorized message = api_error_new Get AUnauthorized message"

definition api_forbidden :: "string \<Rightarrow> api_error" where
  "api_forbidden message = api_error_new Get AForbidden message"

definition api_conflict :: "api_operation \<Rightarrow> string \<Rightarrow> api_error" where
  "api_conflict operation message = api_error_new operation AConflict message"

definition api_internal :: "string \<Rightarrow> api_error" where
  "api_internal message = api_error_new Get InternalError message"

definition api_service_unavailable :: "string \<Rightarrow> api_error" where
  "api_service_unavailable message = api_error_new Get ServiceUnavailable message"

definition api_with_entity :: "api_error \<Rightarrow> string \<Rightarrow> string \<Rightarrow> api_error" where
  "api_with_entity e entity_type entity_id =
     e\<lparr>ae_entity_type := Some entity_type, ae_entity_id := Some entity_id\<rparr>"

definition api_with_operation :: "api_error \<Rightarrow> api_operation \<Rightarrow> api_error" where
  "api_with_operation e operation = e\<lparr>ae_operation := operation\<rparr>"

definition api_is_retriable :: "api_error \<Rightarrow> bool" where
  "api_is_retriable e = (case ae_kind e of ServiceUnavailable \<Rightarrow> True | _ \<Rightarrow> False)"

definition api_error_display :: "api_error \<Rightarrow> string" where
  "api_error_display e =
     ''API '' @ api_error_kind_display (ae_kind e) @ '' error during '' @
     api_operation_display (ae_operation e) @ '': '' @ ae_message e @
     (case (ae_entity_type e, ae_entity_id e) of
        (Some entity_type, Some entity_id) \<Rightarrow> '' ['' @ entity_type @ '': '' @ entity_id @ '']''
      | _ \<Rightarrow> [])"

record api_error_response =
  ar_error :: string
  ar_code :: string
  ar_status :: u16
  ar_operation :: "string option"
  ar_entity_type :: "string option"
  ar_entity_id :: "string option"

text \<open>\<^verbatim>\<open>IntoResponse for ApiError\<close>: the status line and the JSON body.\<close>

definition api_into_response :: "api_error \<Rightarrow> u16 \<times> api_error_response" where
  "api_into_response e =
     (let status = status_code (ae_kind e); code = error_code (ae_kind e)
      in (status,
          \<lparr>ar_error = ae_message e, ar_code = code, ar_status = status,
           ar_operation = Some (api_operation_display (ae_operation e)),
           ar_entity_type = ae_entity_type e, ar_entity_id = ae_entity_id e\<rparr>))"

fun repository_operation_to_api_operation :: "repository_operation \<Rightarrow> api_operation" where
  "repository_operation_to_api_operation FindById = Get"
| "repository_operation_to_api_operation FindAll = List"
| "repository_operation_to_api_operation Count = List"
| "repository_operation_to_api_operation Exists = Get"
| "repository_operation_to_api_operation RCreate = Create"
| "repository_operation_to_api_operation RUpdate = AUpdate"
| "repository_operation_to_api_operation RDelete = ADelete"
| "repository_operation_to_api_operation RSoftDelete = SoftDelete"
| "repository_operation_to_api_operation RRestore = Restore"
| "repository_operation_to_api_operation BatchLoad = List"

definition api_error_from_repository :: "repository_error \<Rightarrow> api_error" where
  "api_error_from_repository err =
     (let operation = repository_operation_to_api_operation (re_operation err);
          kind = (case re_kind err of
            RNotFound \<Rightarrow> ANotFound
          | RAlreadyExists \<Rightarrow> AAlreadyExists
          | RConstraintViolation \<Rightarrow> AConflict
          | RValidationFailed \<Rightarrow> AValidationFailed
          | RConnectionFailed \<Rightarrow> ServiceUnavailable
          | RTimeout \<Rightarrow> ServiceUnavailable
          | RDatabaseError \<Rightarrow> InternalError
          | RSerializationError \<Rightarrow> InternalError
          | ROther \<Rightarrow> InternalError);
          message = (case kind of
            InternalError \<Rightarrow> ''An internal error occurred''
          | ServiceUnavailable \<Rightarrow> ''Service temporarily unavailable''
          | _ \<Rightarrow> re_message err)
      in \<lparr>ae_operation = operation, ae_kind = kind, ae_message = message,
          ae_entity_type = re_entity_type err, ae_entity_id = re_entity_id err\<rparr>)"

subsection \<open>Properties\<close>

lemma repo_retriable_iff: "repo_is_retriable e \<longleftrightarrow> re_kind e \<in> {RConnectionFailed, RTimeout}"
  by (cases "re_kind e") (simp_all add: repo_is_retriable_def)

lemma api_retriable_iff: "api_is_retriable e \<longleftrightarrow> ae_kind e = ServiceUnavailable"
  by (cases "ae_kind e") (simp_all add: api_is_retriable_def)

lemma api_from_repository_retriable:
  "api_is_retriable (api_error_from_repository e) \<longleftrightarrow> repo_is_retriable e"
  by (cases "re_kind e")
    (simp_all add: api_retriable_iff repo_retriable_iff api_error_from_repository_def)

lemma repository_from_database_retriable:
  "repo_is_retriable (repository_error_from_database e) \<longleftrightarrow>
     is_retriable e \<and> de_kind e \<noteq> SyncFailed"
  by (cases "de_kind e")
    (simp_all add: is_retriable_def repo_retriable_iff repository_error_from_database_def)

text \<open>
  Retriability survives the layers. A database error shows up at the API as retriable
  (503) exactly when the database layer calls it retriable, replica synchronisation failures
  excepted: those are retriable at the database layer and become a plain internal error.
\<close>

theorem error_layers_retriable:
  "api_is_retriable (api_error_from_repository (repository_error_from_database e)) \<longleftrightarrow>
     is_retriable e \<and> de_kind e \<noteq> SyncFailed"
  by (simp add: api_from_repository_retriable repository_from_database_retriable)

text \<open>
  Whatever a repository error with a 5xx mapping says, its message cannot be observed in the
  HTTP response: replacing the message leaves status line and body unchanged.
\<close>

theorem api_response_hides_message:
  assumes "500 \<le> fst (api_into_response (api_error_from_repository e))"
  shows "api_into_response (api_error_from_repository (e\<lparr>re_message := m\<rparr>)) =
    api_into_response (api_error_from_repository e)"
  using assms
  by (cases "re_kind e")
    (simp_all add: api_into_response_def api_error_from_repository_def Let_def)

theorem api_response_hides_message_witness:
  "api_into_response (api_error_from_repository
     ((repo_timeout FindAll ''secret host'')\<lparr>re_message := ''x''\<rparr>)) =
   api_into_response (api_error_from_repository (repo_timeout FindAll ''secret host''))"
  by (rule api_response_hides_message)
    (simp add: repo_timeout_def repository_error_new_def api_into_response_def
      api_error_from_repository_def Let_def)

text \<open>
  What the API reports for a database error is the status the database layer itself would
  report, except that a lost connection and a timeout are reported as 503 and a denied permission
  as an internal error.
\<close>

theorem error_layers_status:
  "fst (api_into_response (api_error_from_repository (repository_error_from_database e))) =
     (if de_kind e \<in> {ConnectionFailed, Timeout, PoolExhausted} then SERVICE_UNAVAILABLE
      else if de_kind e = PermissionDenied then INTERNAL_SERVER_ERROR
      else rs_status (into_response hv (Database e)))"
  by (cases "de_kind e")
    (simp_all add: api_into_response_def api_error_from_repository_def
      repository_error_from_database_def Let_def)

end
