(* ===== verification/Redis_Store.thy ===== *)
theory Redis_Store
  imports Errors
begin

text \<open>
  The Redis commands the framework sends (lockout, tokens, API keys). Redis is not part of the
  sources, so its commands are a record of functions over an abstract server state, and what the
  callers rely on is the locale \<open>redis_laws\<close>: the documented effect of each command on keys with
  expiry, for calls that succeed. Nothing is assumed about a command that fails. Times are in
  milliseconds. \<open>mem_redis\<close> is a server that follows the documentation and never fails; it
  shows that the laws can hold.
\<close>

type_synonym entry = "string \<times> nat option"
type_synonym keyspace = "string \<Rightarrow> entry option"

definition live :: "nat \<Rightarrow> keyspace \<Rightarrow> string \<Rightarrow> entry option" where
  "live now d k =
     (case d k of
        Some (v, Some t) \<Rightarrow> if now < t then Some (v, Some t) else None
      | r \<Rightarrow> r)"

record 'r redis =
  rd_connect :: "'r \<Rightarrow> string option"
  rd_ttl :: "string \<Rightarrow> nat \<Rightarrow> 'r \<Rightarrow> string + int"
  rd_get :: "string \<Rightarrow> nat \<Rightarrow> 'r \<Rightarrow> string + string option"
  rd_exists :: "string \<Rightarrow> nat \<Rightarrow> 'r \<Rightarrow> string + bool"
  rd_incr :: "string \<Rightarrow> nat \<Rightarrow> 'r \<Rightarrow> (string + int) \<times> 'r"
  rd_expire :: "string \<Rightarrow> int \<Rightarrow> nat \<Rightarrow> 'r \<Rightarrow> (string + unit) \<times> 'r"
  rd_set_ex :: "string \<Rightarrow> string \<Rightarrow> int \<Rightarrow> nat \<Rightarrow> 'r \<Rightarrow> (string + unit) \<times> 'r"
  rd_del :: "string list \<Rightarrow> nat \<Rightarrow> 'r \<Rightarrow> (string + unit) \<times> 'r"

text \<open>
  TTL gives whole seconds, \<open>-1\<close> for a key without expiry and \<open>-2\<close> for no key; INCR keeps the
  expiry of an existing key; EXPIRE and SET EX set it.
\<close>

locale redis_laws =
  fixes R :: "'r redis" and view :: "'r \<Rightarrow> keyspace"
  assumes ttl_ok: "rd_ttl R k now s = Inr n \<Longrightarrow>
      (case live now (view s) k of
         None \<Rightarrow> n = -2
       | Some (v, None) \<Rightarrow> n = -1
       | Some (v, Some t) \<Rightarrow> 0 \<le> n \<and> \<bar>1000 * n - int (t - now)\<bar> < 1000)"
    and get_ok: "rd_get R k now s = Inr r \<Longrightarrow> r = map_option fst (live now (view s) k)"
    and exists_ok: "rd_exists R k now s = Inr b \<Longrightarrow> b = (live now (view s) k \<noteq> None)"
    and incr_ok: "rd_incr R k now s = (Inr n, s') \<Longrightarrow>
      (case live now (view s) k of
         None \<Rightarrow> n = 1 \<and> view s' = (view s)(k \<mapsto> (show_nat 1, None))
       | Some (v, ex) \<Rightarrow>
           \<forall>m. v = show_nat m \<longrightarrow>
             n = int m + 1 \<and> view s' = (view s)(k \<mapsto> (show_nat (m + 1), ex)))"
    and incr_other: "\<lbrakk>rd_incr R k now s = (Inr n, s'); k' \<noteq> k\<rbrakk> \<Longrightarrow> view s' k' = view s k'"
    and expire_ok: "\<lbrakk>rd_expire R k secs now s = (Inr u, s'); 0 < secs\<rbrakk> \<Longrightarrow>
      view s' = (case live now (view s) k of
         None \<Rightarrow> view s
       | Some (v, ex) \<Rightarrow> (view s)(k \<mapsto> (v, Some (now + nat secs * 1000))))"
    and set_ex_ok: "\<lbrakk>rd_set_ex R k v secs now s = (Inr u, s'); 0 < secs\<rbrakk> \<Longrightarrow>
      view s' = (view s)(k \<mapsto> (v, Some (now + nat secs * 1000)))"
    and del_ok: "rd_del R ks now s = (Inr u, s') \<Longrightarrow>
      view s' = (\<lambda>k. if k \<in> set ks then None else view s k)"

definition mem_redis :: "keyspace redis" where
  "mem_redis =
     \<lparr>rd_connect = (\<lambda>s. None),
      rd_ttl = (\<lambda>k now s. Inr (case live now s k of
         None \<Rightarrow> -2
       | Some (v, None) \<Rightarrow> -1
       | Some (v, Some t) \<Rightarrow> int ((t - now + 500) div 1000))),
      rd_get = (\<lambda>k now s. Inr (map_option fst (live now s k))),
      rd_exists = (\<lambda>k now s. Inr (live now s k \<noteq> None)),
      rd_incr = (\<lambda>k now s.
        case live now s k of
          None \<Rightarrow> (Inr 1, s(k \<mapsto> (show_nat 1, None)))
        | Some (v, ex) \<Rightarrow>
            (Inr (int (digits_val v) + 1), s(k \<mapsto> (show_nat (digits_val v + 1), ex)))),
      rd_expire = (\<lambda>k secs now s.
        (Inr (), case live now s k of
           None \<Rightarrow> s
         | Some (v, ex) \<Rightarrow> s(k \<mapsto> (v, Some (now + nat secs * 1000))))),
      rd_set_ex = (\<lambda>k v secs now s. (Inr (), s(k \<mapsto> (v, Some (now + nat secs * 1000))))),
      rd_del = (\<lambda>ks now s. (Inr (), \<lambda>k. if k \<in> set ks then None else s k))\<rparr>"

interpretation mem: redis_laws mem_redis "\<lambda>s. s"
proof
  fix k now s n
  assume "rd_ttl mem_redis k now s = Inr n"
  moreover have "\<bar>1000 * int ((d + 500) div 1000) - int d\<bar> < 1000" for d :: nat
    by linarith
  ultimately show "case live now s k of None \<Rightarrow> n = -2 | Some (v, None) \<Rightarrow> n = -1
      | Some (v, Some t) \<Rightarrow> 0 \<le> n \<and> \<bar>1000 * n - int (t - now)\<bar> < 1000"
    by (auto simp: mem_redis_def split: option.splits)
qed (auto simp: mem_redis_def split: option.splits prod.splits)

text \<open>A server whose commands all succeed.\<close>

definition redis_up :: "'r redis \<Rightarrow> bool" where
  "redis_up R \<longleftrightarrow>
     (\<forall>s. rd_connect R s = None) \<and> (\<forall>k now s. is_ok (rd_ttl R k now s))
     \<and> (\<forall>k now s. is_ok (fst (rd_incr R k now s)))
     \<and> (\<forall>k secs now s. is_ok (fst (rd_expire R k secs now s)))
     \<and> (\<forall>k v secs now s. is_ok (fst (rd_set_ex R k v secs now s)))"

lemma mem_redis_up: "redis_up mem_redis"
  by (auto simp: redis_up_def mem_redis_def split: option.splits)

subsection \<open>Sets\<close>

text \<open>
  The set commands, on keys that hold sets: their members and their expiry. SET EX on such a key
  replaces the set; EXPIRE works on both kinds of keys.
\<close>

type_synonym set_entry = "string set \<times> nat option"
type_synonym setspace = "string \<Rightarrow> set_entry option"

definition slive :: "nat \<Rightarrow> setspace \<Rightarrow> string \<Rightarrow> set_entry option" where
  "slive now d k =
     (case d k of
        Some (M, Some t) \<Rightarrow> if now < t then Some (M, Some t) else None
      | r \<Rightarrow> r)"

record 'r redis_sets =
  rd_sadd :: "string \<Rightarrow> string \<Rightarrow> nat \<Rightarrow> 'r \<Rightarrow> (string + unit) \<times> 'r"
  rd_smembers :: "string \<Rightarrow> nat \<Rightarrow> 'r \<Rightarrow> string + string list"

locale redis_set_laws = redis_laws R view
  for R :: "'r redis" and view :: "'r \<Rightarrow> keyspace" +
  fixes S :: "'r redis_sets" and sview :: "'r \<Rightarrow> setspace"
  assumes sadd_ok: "rd_sadd S k m now s = (Inr u, s') \<Longrightarrow> view s' = view s \<and>
      sview s' = (sview s)(k \<mapsto> (case slive now (sview s) k of None \<Rightarrow> ({m}, None) | Some (M, ex) \<Rightarrow> (insert m M, ex)))"
    and smembers_ok: "rd_smembers S k now s = Inr ms \<Longrightarrow>
      set ms = (case slive now (sview s) k of None \<Rightarrow> {} | Some (M, ex) \<Rightarrow> M)"
    and set_ex_sets: "rd_set_ex R k v secs now s = (Inr u, s') \<Longrightarrow> sview s' = (sview s)(k := None)"
    and expire_sets: "\<lbrakk>rd_expire R k secs now s = (Inr u, s'); 0 < secs\<rbrakk> \<Longrightarrow>
      sview s' = (case slive now (sview s) k of
         None \<Rightarrow> sview s
       | Some (M, ex) \<Rightarrow> (sview s)(k \<mapsto> (M, Some (now + nat secs * 1000))))"

text \<open>The sample server with sets next to it; its sets are lists without repetition.\<close>

type_synonym mem_state = "keyspace \<times> (string \<Rightarrow> (string list \<times> nat option) option)"

definition mem_set_view :: "mem_state \<Rightarrow> setspace" where
  "mem_set_view s k = map_option (\<lambda>(ms, ex). (set ms, ex)) (snd s k)"

definition mem_live_list :: "nat \<Rightarrow> mem_state \<Rightarrow> string \<Rightarrow> (string list \<times> nat option) option" where
  "mem_live_list now s k = (case snd s k of
     Some (ms, Some t) \<Rightarrow> if now < t then Some (ms, Some t) else None | r \<Rightarrow> r)"

definition mem2_redis :: "mem_state redis" where
  "mem2_redis =
     \<lparr>rd_connect = (\<lambda>s. None),
      rd_ttl = (\<lambda>k now s. rd_ttl mem_redis k now (fst s)),
      rd_get = (\<lambda>k now s. rd_get mem_redis k now (fst s)),
      rd_exists = (\<lambda>k now s. rd_exists mem_redis k now (fst s)),
      rd_incr = (\<lambda>k now s. case rd_incr mem_redis k now (fst s) of (r, d) \<Rightarrow> (r, (d, snd s))),
      rd_expire = (\<lambda>k secs now s. case rd_expire mem_redis k secs now (fst s) of (r, d) \<Rightarrow>
        (r, (d, case mem_live_list now s k of
           None \<Rightarrow> snd s | Some (ms, ex) \<Rightarrow> (snd s)(k \<mapsto> (ms, Some (now + nat secs * 1000)))))),
      rd_set_ex = (\<lambda>k v secs now s. case rd_set_ex mem_redis k v secs now (fst s) of (r, d) \<Rightarrow> (r, (d, (snd s)(k := None)))),
      rd_del = (\<lambda>ks now s. case rd_del mem_redis ks now (fst s) of (r, d) \<Rightarrow> (r, (d, \<lambda>k. if k \<in> set ks then None else snd s k)))\<rparr>"

definition mem2_sets :: "mem_state redis_sets" where
  "mem2_sets =
     \<lparr>rd_sadd = (\<lambda>k m now s. (Inr (), (fst s, (snd s)(k \<mapsto> (case mem_live_list now s k of
        None \<Rightarrow> ([m], None) | Some (ms, ex) \<Rightarrow> (List.insert m ms, ex)))))),
      rd_smembers = (\<lambda>k now s. Inr (case mem_live_list now s k of None \<Rightarrow> [] | Some (ms, ex) \<Rightarrow> ms))\<rparr>"

lemma mem_live_view: "slive now (mem_set_view s) k = map_option (\<lambda>(ms, ex). (set ms, ex)) (mem_live_list now s k)"
  by (auto simp: slive_def mem_set_view_def mem_live_list_def split: option.splits)

interpretation mem2: redis_laws mem2_redis fst
proof
  fix k now and s :: mem_state and n
  assume "rd_ttl mem2_redis k now s = Inr n"
  then have "rd_ttl mem_redis k now (fst s) = Inr n" by (simp add: mem2_redis_def)
  from mem.ttl_ok [OF this] show "case live now (fst s) k of None \<Rightarrow> n = -2 | Some (v, None) \<Rightarrow> n = -1
      | Some (v, Some t) \<Rightarrow> 0 \<le> n \<and> \<bar>1000 * n - int (t - now)\<bar> < 1000" .
qed (auto simp: mem2_redis_def mem_redis_def split: option.splits prod.splits)

interpretation mem2s: redis_set_laws mem2_redis fst mem2_sets mem_set_view
  by unfold_locales
    (auto simp: mem2_redis_def mem2_sets_def mem_live_view mem_redis_def fun_eq_iff mem_set_view_def
      split: option.splits prod.splits)

lemma mem2_redis_up: "redis_up mem2_redis"
  by (auto simp: redis_up_def mem2_redis_def mem_redis_def split: option.splits prod.splits)

subsection \<open>Plain SET and SREM\<close>

record 'r redis_kv =
  rd_set :: "string \<Rightarrow> string \<Rightarrow> nat \<Rightarrow> 'r \<Rightarrow> (string + unit) \<times> 'r"
  rd_srem :: "string \<Rightarrow> string \<Rightarrow> nat \<Rightarrow> 'r \<Rightarrow> (string + unit) \<times> 'r"

locale redis_kv_laws = redis_set_laws R view S sview
  for R :: "'r redis" and view :: "'r \<Rightarrow> keyspace" and S :: "'r redis_sets" and sview :: "'r \<Rightarrow> setspace" +
  fixes K :: "'r redis_kv"
  assumes set_ok: "rd_set K k v now s = (Inr u, s') \<Longrightarrow> view s' = (view s)(k \<mapsto> (v, None)) \<and> sview s' = (sview s)(k := None)"
    and srem_ok: "rd_srem K k m now s = (Inr u, s') \<Longrightarrow> view s' = view s \<and>
      sview s' = (case slive now (sview s) k of
         None \<Rightarrow> sview s
       | Some (M, ex) \<Rightarrow> (sview s)(k := if M \<subseteq> {m} then None else Some (M - {m}, ex)))"
    and del_sets: "rd_del R ks now s = (Inr u, s') \<Longrightarrow> sview s' = (\<lambda>k. if k \<in> set ks then None else sview s k)"

definition mem2_kv :: "mem_state redis_kv" where
  "mem2_kv =
     \<lparr>rd_set = (\<lambda>k v now s. (Inr (), ((fst s)(k \<mapsto> (v, None)), (snd s)(k := None)))),
      rd_srem = (\<lambda>k m now s. (Inr (), (fst s, case mem_live_list now s k of
        None \<Rightarrow> snd s
      | Some (ms, ex) \<Rightarrow> (snd s)(k := if set ms \<subseteq> {m} then None else Some (filter (\<lambda>x. x \<noteq> m) ms, ex)))))\<rparr>"

interpretation mem2k: redis_kv_laws mem2_redis fst mem2_sets mem_set_view mem2_kv
proof
  fix k m :: string and now u and s s' :: mem_state
  have "set (filter (\<lambda>x. x \<noteq> m) ms) = set ms - {m}" for ms by auto
  then show "rd_srem mem2_kv k m now s = (Inr u, s') \<Longrightarrow> fst s' = fst s \<and>
      mem_set_view s' = (case slive now (mem_set_view s) k of None \<Rightarrow> mem_set_view s
       | Some (M, ex) \<Rightarrow> (mem_set_view s)(k := if M \<subseteq> {m} then None else Some (M - {m}, ex)))"
    unfolding mem2_kv_def mem_live_view
    by (auto simp: fun_eq_iff mem_set_view_def split: option.splits prod.splits)
qed (auto simp: mem2_kv_def mem2_redis_def mem_redis_def fun_eq_iff mem_set_view_def)

end
