(* ===== verification/Lockout.thy ===== *)
theory Lockout
  imports Redis_Store
begin

text \<open>
  Login lockout (\<^verbatim>\<open>src/acton-service/src/lockout/\<close>: \<^verbatim>\<open>config.rs\<close>, \<^verbatim>\<open>notification.rs\<close>,
  \<^verbatim>\<open>service.rs\<close>, \<^verbatim>\<open>middleware.rs\<close>). Failed logins are counted in Redis under one key per
  identity, a lock is a second key with an expiry. Redis is the record of commands of theory
  \<open>Redis_Store\<close>; the time of a call is an argument, the same for its commands. Floating-point
  arithmetic is abstract: the type \<open>'f\<close> of numbers with the two operations the code needs
  (\<open>float_ops\<close>). Notifications are returned as the list of deliveries to the registered handlers.
\<close>

subsection \<open>Configuration\<close>

record 'f lockout_config =
  lc_enabled :: bool
  lc_max_attempts :: u32
  lc_window_secs :: u64
  lc_lockout_duration_secs :: u64
  lc_progressive_delay_enabled :: bool
  lc_base_delay_ms :: u64
  lc_max_delay_ms :: u64
  lc_delay_multiplier :: 'f
  lc_warning_threshold :: u32
  lc_key_prefix :: string

text \<open>
  \<open>fo_below_one m\<close> is \<^verbatim>\<open>m < 1.0\<close>; \<open>fo_delay base m e\<close> is \<^verbatim>\<open>base * m.powf(e)\<close> converted to
  \<^verbatim>\<open>u64\<close>, \<^const>\<open>None\<close> when it is not finite.
\<close>

record 'f float_ops =
  fo_below_one :: "'f \<Rightarrow> bool"
  fo_delay :: "u64 \<Rightarrow> 'f \<Rightarrow> u32 \<Rightarrow> u64 option"

definition default_lockout_config :: "'f \<Rightarrow> 'f lockout_config" where
  "default_lockout_config two =
     \<lparr>lc_enabled = True, lc_max_attempts = 5, lc_window_secs = 900,
      lc_lockout_duration_secs = 1800, lc_progressive_delay_enabled = True,
      lc_base_delay_ms = 1000, lc_max_delay_ms = 30000, lc_delay_multiplier = two,
      lc_warning_threshold = 3, lc_key_prefix = ''lockout''\<rparr>"

text \<open>ASCII white space of \<^verbatim>\<open>char::is_whitespace\<close>.\<close>

definition is_whitespace :: "char \<Rightarrow> bool" where
  "is_whitespace c \<longleftrightarrow> of_char c \<in> {9, 10, 11, 12, 13, 32 :: nat}"

definition lockout_config_validate :: "'f float_ops \<Rightarrow> 'f lockout_config \<Rightarrow> string + unit" where
  "lockout_config_validate fo c =
     (if lc_key_prefix c = [] then Inl ''key_prefix must not be empty''
      else if CHR '':'' \<in> set (lc_key_prefix c) then Inl (''key_prefix must not contain '' @ [CHR 0x27, CHR '':'', CHR 0x27])
      else if \<exists>x \<in> set (lc_key_prefix c). is_whitespace x
      then Inl ''key_prefix must not contain whitespace''
      else if lc_max_attempts c = 0 then Inl ''max_attempts must be greater than 0''
      else if lc_window_secs c = 0 then Inl ''window_secs must be greater than 0''
      else if lc_lockout_duration_secs c = 0 then Inl ''lockout_duration_secs must be greater than 0''
      else if fo_below_one fo (lc_delay_multiplier c) then Inl ''delay_multiplier must be >= 1.0''
      else Inr ())"

subsection \<open>Notifications\<close>

datatype unlock_reason = Expired | SuccessfulLogin | AdminAction

fun unlock_reason_display :: "unlock_reason \<Rightarrow> string" where
  "unlock_reason_display Expired = ''expired''"
| "unlock_reason_display SuccessfulLogin = ''successful_login''"
| "unlock_reason_display AdminAction = ''admin_action''"

datatype lockout_event =
  FailedAttempt string u32 u32
| ApproachingThreshold string u32 u32
| EventAccountLocked string u32 u64
| AccountUnlocked string unlock_reason

type_synonym notices = "(nat \<times> lockout_event) list"

subsection \<open>The service\<close>

record lockout_status =
  ls_locked :: bool
  ls_attempt_count :: u32
  ls_max_attempts :: u32
  ls_lockout_remaining_secs :: u64
  ls_delay_ms :: u64

record ('f, 'r) login_lockout =
  ll_config :: "'f lockout_config"
  ll_redis :: "'r redis"
  ll_notifications :: "nat list"

definition login_lockout_new :: "'f lockout_config \<Rightarrow> 'r redis \<Rightarrow> ('f, 'r) login_lockout" where
  "login_lockout_new config redis_pool =
     \<lparr>ll_config = config, ll_redis = redis_pool, ll_notifications = []\<rparr>"

definition with_notification ::
  "('f, 'r) login_lockout \<Rightarrow> nat \<Rightarrow> ('f, 'r) login_lockout" where
  "with_notification ll handler = ll\<lparr>ll_notifications := ll_notifications ll @ [handler]\<rparr>"

definition attempts_key :: "('f, 'r) login_lockout \<Rightarrow> string \<Rightarrow> string" where
  "attempts_key ll identity = lc_key_prefix (ll_config ll) @ '':attempts:'' @ identity"

definition locked_key :: "('f, 'r) login_lockout \<Rightarrow> string \<Rightarrow> string" where
  "locked_key ll identity = lc_key_prefix (ll_config ll) @ '':locked:'' @ identity"

definition notify :: "('f, 'r) login_lockout \<Rightarrow> lockout_event \<Rightarrow> notices" where
  "notify ll event = map (\<lambda>handler. (handler, event)) (ll_notifications ll)"

definition compute_delay :: "'f float_ops \<Rightarrow> 'f lockout_config \<Rightarrow> u32 \<Rightarrow> u64" where
  "compute_delay fo c attempt_count =
     (if \<not> lc_progressive_delay_enabled c \<or> attempt_count = 0 then 0
      else case fo_delay fo (lc_base_delay_ms c) (lc_delay_multiplier c) (attempt_count - 1) of
             Some delay \<Rightarrow> min delay (lc_max_delay_ms c)
           | None \<Rightarrow> lc_max_delay_ms c)"

text \<open>The pool's error carries a fixed description and the pool's own text.\<close>

definition get_connection :: "'r redis \<Rightarrow> 'r \<Rightarrow> error + unit" where
  "get_connection R s =
     (case rd_connect R s of
        None \<Rightarrow> Inr ()
      | Some e \<Rightarrow> Inl (Redis (''Failed to get Redis connection for lockout: '' @ e)))"

text \<open>Decoding of a reply as \<^verbatim>\<open>Option<u32>\<close>.\<close>

definition reply_u32 :: "string option \<Rightarrow> string + u32 option" where
  "reply_u32 v =
     (case v of
        None \<Rightarrow> Inr None
      | Some t \<Rightarrow>
          if t \<noteq> [] \<and> list_all is_ascii_digit t \<and> digits_val t < 2 ^ 32
          then Inr (Some (of_nat (digits_val t)))
          else Inl ''Response type not convertible to numeric.'')"

definition get_attempt_count ::
  "('f, 'r) login_lockout \<Rightarrow> string \<Rightarrow> nat \<Rightarrow> 'r \<Rightarrow> error + u32" where
  "get_attempt_count ll identity now s =
     (case get_connection (ll_redis ll) s of
        Inl e \<Rightarrow> Inl e
      | Inr _ \<Rightarrow>
          (case rd_get (ll_redis ll) (attempts_key ll identity) now s of
             Inl e \<Rightarrow> Inl (Redis e)
           | Inr r \<Rightarrow>
               (case reply_u32 r of
                  Inl e \<Rightarrow> Inl (Redis e)
                | Inr count \<Rightarrow> Inr (case count of Some n \<Rightarrow> n | None \<Rightarrow> 0))))"

definition disabled_status :: "'f lockout_config \<Rightarrow> lockout_status" where
  "disabled_status c =
     \<lparr>ls_locked = False, ls_attempt_count = 0, ls_max_attempts = lc_max_attempts c,
      ls_lockout_remaining_secs = 0, ls_delay_ms = 0\<rparr>"

definition unwrap_or :: "'a \<Rightarrow> 'e + 'a \<Rightarrow> 'a" where
  "unwrap_or d r = (case r of Inr x \<Rightarrow> x | Inl _ \<Rightarrow> d)"

definition check ::
  "'f float_ops \<Rightarrow> ('f, 'r) login_lockout \<Rightarrow> string \<Rightarrow> nat \<Rightarrow> 'r \<Rightarrow> error + lockout_status" where
  "check fo ll identity now s =
     (let c = ll_config ll
      in if \<not> lc_enabled c then Inr (disabled_status c)
         else case get_connection (ll_redis ll) s of
           Inl e \<Rightarrow> Inl e
         | Inr _ \<Rightarrow>
             (let locked_ttl = unwrap_or (-2) (rd_ttl (ll_redis ll) (locked_key ll identity) now s);
                  attempt_count = unwrap_or 0 (get_attempt_count ll identity now s)
              in if 0 < locked_ttl
                 then Inr \<lparr>ls_locked = True, ls_attempt_count = attempt_count,
                       ls_max_attempts = lc_max_attempts c,
                       ls_lockout_remaining_secs = word_of_int locked_ttl, ls_delay_ms = 0\<rparr>
                 else Inr \<lparr>ls_locked = False, ls_attempt_count = attempt_count,
                       ls_max_attempts = lc_max_attempts c, ls_lockout_remaining_secs = 0,
                       ls_delay_ms = compute_delay fo c attempt_count\<rparr>))"

text \<open>
  The part of \<^verbatim>\<open>record_failure\<close> after the counter is updated. \<open>utc_secs\<close> is the wall clock
  written into the lock key.
\<close>

definition record_failure_counted ::
  "'f float_ops \<Rightarrow> ('f, 'r) login_lockout \<Rightarrow> string \<Rightarrow> u32 \<Rightarrow> nat \<Rightarrow> nat \<Rightarrow> 'r \<Rightarrow>
     (error + lockout_status) \<times> 'r \<times> notices" where
  "record_failure_counted fo ll identity count now utc_secs s =
     (let c = ll_config ll;
          notices = notify ll (FailedAttempt identity count (lc_max_attempts c))
            @ (if 0 < lc_warning_threshold c \<and> count = lc_warning_threshold c
                  \<and> count < lc_max_attempts c
               then notify ll (ApproachingThreshold identity count (lc_max_attempts c - count))
               else [])
      in if lc_max_attempts c \<le> count
         then (case rd_set_ex (ll_redis ll) (locked_key ll identity) (show_nat utc_secs)
                      (sint (lc_lockout_duration_secs c)) now s of
                 (Inl e, s') \<Rightarrow> (Inl (Redis e), s', notices)
               | (Inr _, s') \<Rightarrow>
                   (Inr \<lparr>ls_locked = True, ls_attempt_count = count,
                         ls_max_attempts = lc_max_attempts c,
                         ls_lockout_remaining_secs = lc_lockout_duration_secs c, ls_delay_ms = 0\<rparr>,
                    s', notices @ notify ll (EventAccountLocked identity count
                                    (lc_lockout_duration_secs c))))
         else (Inr \<lparr>ls_locked = False, ls_attempt_count = count,
                    ls_max_attempts = lc_max_attempts c, ls_lockout_remaining_secs = 0,
                    ls_delay_ms = compute_delay fo c count\<rparr>, s, notices))"

definition record_failure ::
  "'f float_ops \<Rightarrow> ('f, 'r) login_lockout \<Rightarrow> string \<Rightarrow> nat \<Rightarrow> nat \<Rightarrow> 'r \<Rightarrow>
     (error + lockout_status) \<times> 'r \<times> notices" where
  "record_failure fo ll identity now utc_secs s =
     (let c = ll_config ll
      in if \<not> lc_enabled c then (Inr (disabled_status c), s, [])
         else case get_connection (ll_redis ll) s of
           Inl e \<Rightarrow> (Inl e, s, [])
         | Inr _ \<Rightarrow>
             (case rd_incr (ll_redis ll) (attempts_key ll identity) now s of
                (Inl e, s') \<Rightarrow> (Inl (Redis e), s', [])
              | (Inr n, s') \<Rightarrow>
                  (let count = (word_of_int n :: u32)
                   in if count = 1
                      then (case rd_expire (ll_redis ll) (attempts_key ll identity)
                                   (sint (lc_window_secs c)) now s' of
                              (Inl e, s'') \<Rightarrow> (Inl (Redis e), s'', [])
                            | (Inr _, s'') \<Rightarrow>
                                record_failure_counted fo ll identity count now utc_secs s'')
                      else record_failure_counted fo ll identity count now utc_secs s')))"

definition record_success ::
  "('f, 'r) login_lockout \<Rightarrow> string \<Rightarrow> nat \<Rightarrow> 'r \<Rightarrow> (error + unit) \<times> 'r \<times> notices" where
  "record_success ll identity now s =
     (if \<not> lc_enabled (ll_config ll) then (Inr (), s, [])
      else case get_connection (ll_redis ll) s of
        Inl e \<Rightarrow> (Inl e, s, [])
      | Inr _ \<Rightarrow>
          (let was_locked = unwrap_or False (rd_exists (ll_redis ll) (locked_key ll identity) now s)
           in case rd_del (ll_redis ll) [attempts_key ll identity, locked_key ll identity] now s of
                (Inl e, s') \<Rightarrow> (Inl (Redis e), s', [])
              | (Inr _, s') \<Rightarrow>
                  (Inr (), s', if was_locked
                     then notify ll (AccountUnlocked identity SuccessfulLogin) else [])))"

definition unlock ::
  "('f, 'r) login_lockout \<Rightarrow> string \<Rightarrow> nat \<Rightarrow> 'r \<Rightarrow> (error + unit) \<times> 'r \<times> notices" where
  "unlock ll identity now s =
     (case get_connection (ll_redis ll) s of
        Inl e \<Rightarrow> (Inl e, s, [])
      | Inr _ \<Rightarrow>
          (case rd_del (ll_redis ll) [attempts_key ll identity, locked_key ll identity] now s of
             (Inl e, s') \<Rightarrow> (Inl (Redis e), s', [])
           | (Inr _, s') \<Rightarrow> (Inr (), s', notify ll (AccountUnlocked identity AdminAction))))"

subsection \<open>The middleware\<close>

text \<open>
  What the middleware reads of a request: whether the content type mentions
  \<^verbatim>\<open>application/json\<close>, the outcome of buffering the body (at most 1 MB), and the identity
  field of the parsed body if it is there and a string. The inner handler \<open>next\<close> is any
  function of the server state, to a response status and a state.
\<close>

record lockout_request =
  rq_content_type :: "string option"
  rq_body :: "string + string"
  rq_identity :: "string \<Rightarrow> string option"

datatype lockout_answer = Forwarded u16 u64 | Rejected http_response

definition is_success_status :: "u16 \<Rightarrow> bool" where
  "is_success_status st \<longleftrightarrow> 200 \<le> st \<and> st < 300"

definition locked_response :: "(string \<Rightarrow> string option) \<Rightarrow> u64 \<Rightarrow> http_response" where
  "locked_response hv retry_after =
     \<lparr>rs_status = LOCKED,
      rs_body = error_response_with_code LOCKED ''ACCOUNT_LOCKED''
        (''Account locked. Try again in '' @ show_nat (unat retry_after) @ '' seconds''),
      rs_retry_after = hv (show_nat (unat retry_after))\<rparr>"

text \<open>A forwarded answer carries the response status and the delay slept before it is sent.\<close>

definition lockout_middleware ::
  "(string \<Rightarrow> string option) \<Rightarrow> 'f float_ops \<Rightarrow> ('f, 'r) login_lockout \<Rightarrow> nat \<Rightarrow> nat \<Rightarrow>
     ('r \<Rightarrow> u16 \<times> 'r) \<Rightarrow> lockout_request \<Rightarrow> 'r \<Rightarrow> (error + lockout_answer) \<times> 'r \<times> notices" where
  "lockout_middleware hv fo ll now utc_secs next request s =
     (let is_json = (case rq_content_type request of
            Some ct \<Rightarrow> contains_str ct ''application/json'' | None \<Rightarrow> False);
          forward = (\<lambda>s. case next s of (st, s') \<Rightarrow> (Inr (Forwarded st 0), s', []))
      in if \<not> is_json then forward s
         else case rq_body request of
           Inl e \<Rightarrow> (Inl (BadRequest (''Failed to read request body: '' @ e)), s, [])
         | Inr bytes \<Rightarrow>
             (case rq_identity request bytes of
                None \<Rightarrow> forward s
              | Some identity \<Rightarrow>
                  (case check fo ll identity now s of
                     Inl e \<Rightarrow> (Inl e, s, [])
                   | Inr status \<Rightarrow>
                       if ls_locked status
                       then (Inr (Rejected (locked_response hv (ls_lockout_remaining_secs status))),
                             s, [])
                       else (case next s of
                               (st, s') \<Rightarrow>
                                 if st = UNAUTHORIZED
                                 then (case record_failure fo ll identity now utc_secs s' of
                                         (Inl e, s'', ns) \<Rightarrow> (Inl e, s'', ns)
                                       | (Inr f, s'', ns) \<Rightarrow>
                                           (Inr (Forwarded st (ls_delay_ms f)), s'', ns))
                                 else if is_success_status st
                                 then (case record_success ll identity now s' of
                                         (Inl e, s'', ns) \<Rightarrow> (Inl e, s'', ns)
                                       | (Inr _, s'', ns) \<Rightarrow> (Inr (Forwarded st 0), s'', ns))
                                 else (Inr (Forwarded st 0), s', [])))))"

subsection \<open>Keys\<close>

lemma key_eq_iff [simp]:
  "attempts_key ll i = attempts_key ll j \<longleftrightarrow> i = j"
  "locked_key ll i = locked_key ll j \<longleftrightarrow> i = j"
  "attempts_key ll i \<noteq> locked_key ll j"
  "locked_key ll i \<noteq> attempts_key ll j"
  by (simp_all add: attempts_key_def locked_key_def)

subsection \<open>Sequences of calls\<close>

datatype lockout_op = Fail | Succeed | Unlock

text \<open>One call on an identity at a time; the state afterwards, or \<^const>\<open>None\<close> if it failed.\<close>

definition lockout_call ::
  "'f float_ops \<Rightarrow> ('f, 'r) login_lockout \<Rightarrow> lockout_op \<Rightarrow> string \<Rightarrow> nat \<Rightarrow> 'r \<Rightarrow> 'r option" where
  "lockout_call fo ll op identity now s =
     (case op of
        Fail \<Rightarrow> (case record_failure fo ll identity now now s of (Inr _, s', _) \<Rightarrow> Some s' | _ \<Rightarrow> None)
      | Succeed \<Rightarrow> (case record_success ll identity now s of (Inr _, s', _) \<Rightarrow> Some s' | _ \<Rightarrow> None)
      | Unlock \<Rightarrow> (case unlock ll identity now s of (Inr _, s', _) \<Rightarrow> Some s' | _ \<Rightarrow> None))"

fun lockout_calls ::
  "'f float_ops \<Rightarrow> ('f, 'r) login_lockout \<Rightarrow> (lockout_op \<times> string \<times> nat) list \<Rightarrow> 'r \<Rightarrow> 'r option" where
  "lockout_calls fo ll [] s = Some s"
| "lockout_calls fo ll ((op, identity, now) # calls) s =
     (case lockout_call fo ll op identity now s of
        None \<Rightarrow> None
      | Some s' \<Rightarrow> lockout_calls fo ll calls s')"

text \<open>What \<^verbatim>\<open>validate\<close> asks of the times, and that they fit the signed argument of EXPIRE.\<close>

definition lockout_times_ok :: "'f lockout_config \<Rightarrow> bool" where
  "lockout_times_ok c \<longleftrightarrow> lc_enabled c \<and> 0 < sint (lc_window_secs c) \<and> 0 < sint (lc_lockout_duration_secs c)"

definition window_ms :: "'f lockout_config \<Rightarrow> nat" where
  "window_ms c = nat (sint (lc_window_secs c)) * 1000"

definition lockout_ms :: "'f lockout_config \<Rightarrow> nat" where
  "lockout_ms c = nat (sint (lc_lockout_duration_secs c)) * 1000"

context redis_laws
begin

text \<open>The counter of an identity: how many failures, and when it expires.\<close>

definition counter :: "('f, 'r) login_lockout \<Rightarrow> string \<Rightarrow> nat \<Rightarrow> 'r \<Rightarrow> nat \<Rightarrow> nat option \<Rightarrow> bool" where
  "counter ll i now s m ex \<longleftrightarrow>
     (if m = 0 then live now (view s) (attempts_key ll i) = None
      else live now (view s) (attempts_key ll i) = Some (show_nat m, ex))"

lemma record_failure_counted_ok:
  assumes "lockout_times_ok (ll_config ll)" and "ll_redis ll = R"
    and "record_failure_counted fo ll i count now utc s = (Inr st, s', ns)"
  shows "ls_attempt_count st = count \<and> ls_locked st = (lc_max_attempts (ll_config ll) \<le> count)
    \<and> view s' = (if lc_max_attempts (ll_config ll) \<le> count
        then (view s)(locked_key ll i \<mapsto> (show_nat utc, Some (now + lockout_ms (ll_config ll))))
        else view s)"
proof (cases "lc_max_attempts (ll_config ll) \<le> count")
  case True
  with assms(2,3) obtain u where
    "rd_set_ex R (locked_key ll i) (show_nat utc) (sint (lc_lockout_duration_secs (ll_config ll))) now s
      = (Inr u, s')"
    by (auto simp: record_failure_counted_def Let_def split: prod.splits sum.splits)
  from set_ex_ok [OF this] assms True show ?thesis
    by (auto simp: record_failure_counted_def lockout_times_ok_def lockout_ms_def Let_def
        split: prod.splits sum.splits)
next
  case False
  with assms show ?thesis by (auto simp: record_failure_counted_def Let_def)
qed

lemma record_failure_ok:
  assumes "lockout_times_ok (ll_config ll)" and "ll_redis ll = R"
    and "counter ll i now s m ex" and "m + 1 < 2 ^ 32"
    and "record_failure fo ll i now utc s = (Inr st, s', ns)"
  shows "ls_attempt_count st = of_nat (m + 1)"
    and "ls_locked st = (lc_max_attempts (ll_config ll) \<le> of_nat (m + 1))"
    and "view s' = (let d = (view s)(attempts_key ll i \<mapsto>
          (show_nat (m + 1), if m = 0 then Some (now + window_ms (ll_config ll)) else ex))
        in if lc_max_attempts (ll_config ll) \<le> of_nat (m + 1)
           then d(locked_key ll i \<mapsto> (show_nat utc, Some (now + lockout_ms (ll_config ll))))
           else d)"
proof -
  let ?k = "attempts_key ll i" and ?c = "ll_config ll"
  obtain n s1 where incr: "rd_incr R ?k now s = (Inr n, s1)"
    using assms(1,2,5) by (auto simp: record_failure_def lockout_times_ok_def Let_def split: sum.splits prod.splits if_splits)
  have n: "n = int m + 1" and v1: "view s1 = (view s)(?k \<mapsto> (show_nat (m + 1), if m = 0 then None else ex))"
    using incr_ok [OF incr] assms(3) by (auto simp: counter_def split: if_splits)
  have w: "(word_of_int n :: u32) = of_nat (m + 1)" by (simp add: n)
  have one: "(of_nat (m + 1) :: u32) = 1 \<longleftrightarrow> m = 0"
  proof
    assume "(of_nat (m + 1) :: u32) = 1"
    then have "unat (of_nat (m + 1) :: u32) = 1" by simp
    with assms(4) show "m = 0" by (simp only: unat_of_nat) (simp add: take_bit_eq_mod)
  qed simp
  obtain s2 where s2: "record_failure_counted fo ll i (of_nat (m + 1)) now utc s2 = (Inr st, s', ns)"
    and v2: "view s2 = (view s)(?k \<mapsto> (show_nat (m + 1), if m = 0 then Some (now + window_ms ?c) else ex))"
  proof (cases "m = 0")
    case True
    have "live now (view s1) ?k = Some (show_nat 1, None)" by (simp add: live_def v1 True)
    with assms(1,2,5) incr w True v1 that expire_ok [of ?k "sint (lc_window_secs ?c)" now s1] show ?thesis
      by (auto simp: record_failure_def lockout_times_ok_def window_ms_def Let_def
          split: sum.splits prod.splits if_splits)
  next
    case False
    with assms(1,2,5) incr w one v1 that [of s1] show ?thesis
      by (auto simp: record_failure_def lockout_times_ok_def Let_def split: sum.splits prod.splits if_splits)
  qed
  from record_failure_counted_ok [OF assms(1,2) s2] v2
  show "ls_attempt_count st = of_nat (m + 1)"
    and "ls_locked st = (lc_max_attempts ?c \<le> of_nat (m + 1))"
    and "view s' = (let d = (view s)(?k \<mapsto> (show_nat (m + 1), if m = 0 then Some (now + window_ms ?c) else ex))
        in if lc_max_attempts ?c \<le> of_nat (m + 1)
           then d(locked_key ll i \<mapsto> (show_nat utc, Some (now + lockout_ms ?c))) else d)"
    by (simp_all add: Let_def)
qed

definition same_identity :: "('f, 'r) login_lockout \<Rightarrow> string \<Rightarrow> 'r \<Rightarrow> 'r \<Rightarrow> bool" where
  "same_identity ll i s s' \<longleftrightarrow>
     view s' (attempts_key ll i) = view s (attempts_key ll i)
     \<and> view s' (locked_key ll i) = view s (locked_key ll i)"

lemma record_failure_other:
  assumes "lockout_times_ok (ll_config ll)" and "ll_redis ll = R" and "j \<noteq> i"
    and "record_failure fo ll j now utc s = (Inr st, s', ns)"
  shows "same_identity ll i s s'"
proof -
  let ?k = "attempts_key ll j" and ?c = "ll_config ll"
  obtain n s1 where incr: "rd_incr R ?k now s = (Inr n, s1)"
    using assms(1,2,4) by (auto simp: record_failure_def lockout_times_ok_def Let_def split: sum.splits prod.splits if_splits)
  have v1: "same_identity ll i s s1"
    using incr_other [OF incr] assms(3) by (auto simp: same_identity_def)
  obtain s2 where s2: "record_failure_counted fo ll j (word_of_int n) now utc s2 = (Inr st, s', ns)"
    and v2: "same_identity ll i s1 s2"
  proof (cases "(word_of_int n :: u32) = 1")
    case True
    with assms incr that expire_ok [of ?k "sint (lc_window_secs ?c)" now s1] show ?thesis
      by (auto simp: record_failure_def lockout_times_ok_def same_identity_def Let_def
          split: sum.splits prod.splits if_splits option.splits)
  next
    case False
    with assms incr that [of s1] show ?thesis
      by (auto simp: record_failure_def lockout_times_ok_def same_identity_def Let_def
          split: sum.splits prod.splits if_splits)
  qed
  from record_failure_counted_ok [OF assms(1,2) s2] v1 v2 assms(3) show ?thesis
    by (auto simp: same_identity_def split: if_splits)
qed

lemma del_identity:
  assumes "rd_del R [attempts_key ll j, locked_key ll j] now s = (Inr u, s')"
  shows "(if j = i then view s' (attempts_key ll i) = None \<and> view s' (locked_key ll i) = None
    else same_identity ll i s s')"
  using del_ok [OF assms] by (simp add: same_identity_def)

lemma record_success_ok:
  assumes "lc_enabled (ll_config ll)" and "ll_redis ll = R"
    and "record_success ll j now s = (Inr u, s', ns)"
  shows "if j = i then view s' (attempts_key ll i) = None \<and> view s' (locked_key ll i) = None
    else same_identity ll i s s'"
proof -
  from assms have "\<exists>u. rd_del R [attempts_key ll j, locked_key ll j] now s = (Inr u, s')"
    by (auto simp: record_success_def Let_def split: sum.splits prod.splits if_splits)
  then show ?thesis using del_identity by blast
qed

lemma unlock_ok:
  assumes "ll_redis ll = R" and "unlock ll j now s = (Inr u, s', ns)"
  shows "if j = i then view s' (attempts_key ll i) = None \<and> view s' (locked_key ll i) = None
    else same_identity ll i s s'"
proof -
  from assms have "\<exists>u. rd_del R [attempts_key ll j, locked_key ll j] now s = (Inr u, s')"
    by (auto simp: unlock_def split: sum.splits prod.splits)
  then show ?thesis using del_identity by blast
qed

lemma call_other:
  assumes "lockout_times_ok (ll_config ll)" and "ll_redis ll = R" and "j \<noteq> i"
    and "lockout_call fo ll op j now s = Some s'"
  shows "same_identity ll i s s'"
proof (cases op)
  case Fail
  with assms(4) obtain st ns where "record_failure fo ll j now now s = (Inr st, s', ns)"
    by (auto simp: lockout_call_def split: prod.splits sum.splits)
  with record_failure_other [OF assms(1-3)] show ?thesis by blast
next
  case Succeed
  with assms(4) obtain u ns where "record_success ll j now s = (Inr u, s', ns)"
    by (auto simp: lockout_call_def split: prod.splits sum.splits)
  with record_success_ok [of ll j now s u s' ns i] assms(1-3) show ?thesis
    by (simp add: lockout_times_ok_def)
next
  case Unlock
  with assms(4) obtain u ns where "unlock ll j now s = (Inr u, s', ns)"
    by (auto simp: lockout_call_def split: prod.splits sum.splits)
  with unlock_ok [OF assms(2), of j now s u s' ns i] assms(3) show ?thesis by simp
qed

text \<open>
  The state of an identity after \<open>m\<close> failures, the first at \<open>t1\<close> and the latest at \<open>t2\<close>.
\<close>

definition tally ::
  "('f, 'r) login_lockout \<Rightarrow> string \<Rightarrow> nat \<Rightarrow> nat \<Rightarrow> nat \<Rightarrow> 'r \<Rightarrow> bool" where
  "tally ll i t1 m t2 s \<longleftrightarrow>
     (if m = 0 then live t1 (view s) (attempts_key ll i) = None
      else view s (attempts_key ll i) = Some (show_nat m, Some (t1 + window_ms (ll_config ll))))
     \<and> (if lc_max_attempts (ll_config ll) \<le> of_nat m \<and> 0 < m
        then \<exists>v. view s (locked_key ll i) = Some (v, Some (t2 + lockout_ms (ll_config ll)))
        else view s (locked_key ll i) = None)"

lemma tally_other: "same_identity ll i s s' \<Longrightarrow> tally ll i t1 m t2 s \<Longrightarrow> tally ll i t1 m t2 s'"
  by (auto simp: tally_def same_identity_def live_def split: if_splits)

lemma of_nat_u32_mono:
  assumes "(a :: u32) \<le> of_nat m" and "m + 1 < 2 ^ 32"
  shows "a \<le> of_nat (m + 1)"
proof -
  have "unat (of_nat k :: u32) = k" if "k < 2 ^ 32" for k
    using that by (simp only: unat_of_nat) (simp add: take_bit_eq_mod)
  with assms show ?thesis by (simp only: word_le_nat_alt)
qed

lemma tally_fail:
  assumes "lockout_times_ok (ll_config ll)" and "ll_redis ll = R"
    and "tally ll i t1 m t2 s" and "m + 1 < 2 ^ 32"
    and "if m = 0 then now = t1 else now < t1 + window_ms (ll_config ll)"
    and "lockout_call fo ll Fail i now s = Some s'"
  shows "tally ll i t1 (m + 1) now s'"
proof -
  obtain st ns where f: "record_failure fo ll i now now s = (Inr st, s', ns)"
    using assms(6) by (auto simp: lockout_call_def split: prod.splits sum.splits)
  have c: "counter ll i now s m (Some (t1 + window_ms (ll_config ll)))"
    using assms(3,5) by (auto simp: counter_def tally_def live_def split: if_splits)
  show ?thesis
    using record_failure_ok(3) [OF assms(1,2) c assms(4) f] assms(3,5)
      of_nat_u32_mono [of "lc_max_attempts (ll_config ll)" m] assms(4)
    by (auto simp: tally_def Let_def split: if_splits)
qed

lemma calls_tally:
  assumes "lockout_times_ok (ll_config ll)" and "ll_redis ll = R"
    and "lockout_calls fo ll calls s = Some s'"
    and "filter (\<lambda>(op, j, t). j = i) calls = map (\<lambda>t. (Fail, i, t)) ts"
    and "tally ll i t1 m t2 s" and "m + length ts < 2 ^ 32"
    and "m = 0 \<longrightarrow> ts = [] \<or> hd ts = t1"
    and "\<forall>t \<in> set ts. t < t1 + window_ms (ll_config ll)"
  shows "tally ll i t1 (m + length ts) (last (t2 # ts)) s'"
  using assms(3-8)
proof (induction calls arbitrary: s ts m t2)
  case (Cons call calls)
  obtain op j now where call: "call = (op, j, now)" by (cases call) auto
  obtain s1 where s1: "lockout_call fo ll op j now s = Some s1" "lockout_calls fo ll calls s1 = Some s'"
    using Cons.prems(1) call by (auto split: option.splits)
  show ?case
  proof (cases "j = i")
    case False
    with tally_other [OF call_other [OF assms(1,2) _ s1(1)]] Cons call s1 show ?thesis by auto
  next
    case True
    then obtain ts' where ts: "ts = now # ts'" "op = Fail"
      "filter (\<lambda>(op, j, t). j = i) calls = map (\<lambda>t. (Fail, i, t)) ts'"
      using Cons.prems(2) call by (cases ts) auto
    have "tally ll i t1 (m + 1) now s1"
      by (rule tally_fail [OF assms(1,2) Cons.prems(3)]) (use Cons.prems s1 ts True in auto)
    from Cons.IH [OF s1(2) ts(3) this] Cons.prems ts(1) show ?thesis by simp
  qed
qed simp

end

subsection \<open>Properties\<close>

lemma u32_le_of_nat:
  assumes "n < 2 ^ 32"
  shows "(a :: u32) \<le> of_nat n \<longleftrightarrow> unat a \<le> n"
proof -
  have "unat (of_nat n :: u32) = n"
    using assms by (simp only: unat_of_nat) (simp add: take_bit_eq_mod)
  then show ?thesis by (simp only: word_le_nat_alt)
qed

text \<open>
  Brute-force protection. Let an identity have no live counter and no lock, and let calls on
  any identities follow, all of which succeed, in which this identity only fails: at times within
  one window of its first failure. Then \<^verbatim>\<open>check\<close> reports the identity as locked exactly when it
  failed at least \<^verbatim>\<open>max_attempts\<close> times, up to the last second of the lockout duration counted
  from its latest failure. Calls on other identities, however interleaved, make no difference.
\<close>

theorem lockout_after_max_attempts:
  assumes "redis_laws R view" and "ll_redis ll = R" and "lockout_times_ok (ll_config ll)"
    and "lockout_calls fo ll calls s = Some s'"
    and "filter (\<lambda>(op, j, t). j = i) calls = map (\<lambda>t. (Fail, i, t)) (t1 # ts)"
    and "\<forall>t \<in> set (t1 # ts). t < t1 + window_ms (ll_config ll)" and "Suc (length ts) < 2 ^ 32"
    and "live t1 (view s) (attempts_key ll i) = None" and "view s (locked_key ll i) = None"
    and "0 < lc_max_attempts (ll_config ll)"
    and "rd_connect R s' = None" and "rd_ttl R (locked_key ll i) now s' = Inr ttl"
    and "now + 1000 \<le> last (t1 # ts) + lockout_ms (ll_config ll)"
  shows "\<exists>st. check fo ll i now s' = Inr st \<and>
    (ls_locked st \<longleftrightarrow> unat (lc_max_attempts (ll_config ll)) \<le> Suc (length ts))"
proof -
  let ?c = "ll_config ll" and ?n = "Suc (length ts)"
  have "redis_laws.tally view ll i t1 0 t1 s"
    unfolding redis_laws.tally_def [OF assms(1)]
    using assms(8-10) by (simp add: word_less_nat_alt word_le_nat_alt)
  from redis_laws.calls_tally [OF assms(1,3,2,4,5) this] assms(6,7)
  have t: "redis_laws.tally view ll i t1 ?n (last (t1 # ts)) s'" by simp
  have "0 < ttl \<longleftrightarrow> lc_max_attempts ?c \<le> of_nat ?n"
    using redis_laws.ttl_ok [OF assms(1,12)] t assms(13)
    by (auto simp: redis_laws.tally_def [OF assms(1)] live_def split: if_splits)
  then have "0 < ttl \<longleftrightarrow> unat (lc_max_attempts ?c) \<le> ?n"
    using u32_le_of_nat [OF assms(7)] by simp
  then show ?thesis
    using assms(2,3,11,12)
    by (simp add: check_def get_connection_def lockout_times_ok_def unwrap_or_def Let_def)
qed

text \<open>A concrete service over \<^const>\<open>mem_redis\<close> with two permitted attempts.\<close>

definition sample_float :: "unit float_ops" where
  "sample_float = \<lparr>fo_below_one = (\<lambda>_. False), fo_delay = (\<lambda>base _ e. Some (base * (2 ^ unat e)))\<rparr>"

definition sample_lockout :: "(unit, keyspace) login_lockout" where
  "sample_lockout = login_lockout_new ((default_lockout_config ())\<lparr>lc_max_attempts := 2\<rparr>) mem_redis"

theorem lockout_after_max_attempts_witness:
  "\<exists>s' st. lockout_calls sample_float sample_lockout
       [(Fail, ''a'', 0), (Fail, ''b'', 1), (Fail, ''a'', 2)] Map.empty = Some s' \<and>
     check sample_float sample_lockout ''a'' 1000 s' = Inr st \<and> ls_locked st"
proof -
  let ?ll = sample_lockout and ?calls = "[(Fail, ''a'', 0), (Fail, ''b'', 1), (Fail, ''a'', 2)]"
  have ll: "ll_redis ?ll = mem_redis" "lockout_times_ok (ll_config ?ll)"
      "lc_max_attempts (ll_config ?ll) = 2" "window_ms (ll_config ?ll) = 900000"
      "lockout_ms (ll_config ?ll) = 1800000"
    by (simp_all add: sample_lockout_def login_lockout_new_def default_lockout_config_def
        lockout_times_ok_def window_ms_def lockout_ms_def)
  have "\<exists>s'. lockout_calls sample_float ?ll ?calls Map.empty = Some s'"
    by (simp add: lockout_call_def record_failure_def record_failure_counted_def get_connection_def
        sample_lockout_def login_lockout_new_def default_lockout_config_def mem_redis_def
        notify_def attempts_key_def locked_key_def live_def Let_def split: option.splits)
  then obtain s' where run: "lockout_calls sample_float ?ll ?calls Map.empty = Some s'" ..
  obtain ttl where ttl: "rd_ttl mem_redis (locked_key ?ll ''a'') 1000 s' = Inr ttl"
    by (simp add: mem_redis_def)
  from lockout_after_max_attempts [OF mem.redis_laws_axioms ll(1,2) run, of "''a''" 0 "[2]" 1000 ttl]
    ll ttl run
  show ?thesis by (auto simp: live_def mem_redis_def)
qed

text \<open>
  A successful login or an administrator's unlock clears the identity completely: \<^verbatim>\<open>check\<close>
  then reports no lock, no attempts and no delay at any later time, whatever happens to its own
  Redis reads, and the keys of every other identity are as before.
\<close>

theorem lockout_cleared:
  assumes "redis_laws R view" and "ll_redis ll = R" and "lc_enabled (ll_config ll)"
    and "record_success ll i t s = (Inr u, s', ns) \<or> unlock ll i t s = (Inr u, s', ns)"
    and "check fo ll i now s' = Inr st"
  shows "\<not> ls_locked st \<and> ls_attempt_count st = 0 \<and> ls_delay_ms st = 0 \<and>
    (\<forall>j. j \<noteq> i \<longrightarrow> view s' (attempts_key ll j) = view s (attempts_key ll j)
       \<and> view s' (locked_key ll j) = view s (locked_key ll j))"
proof -
  have eff: "if i = j then view s' (attempts_key ll j) = None \<and> view s' (locked_key ll j) = None
      else redis_laws.same_identity view ll j s s'" for j
    using assms(4) redis_laws.record_success_ok [OF assms(1,3,2), of i t s u s' ns j]
      redis_laws.unlock_ok [OF assms(1,2), of i t s u s' ns j] by blast
  then have gone: "live now (view s') (attempts_key ll i) = None" "live now (view s') (locked_key ll i) = None"
    using eff [of i] by (simp_all add: live_def)
  have "unwrap_or (-2) (rd_ttl R (locked_key ll i) now s') = -2"
    using redis_laws.ttl_ok [OF assms(1), of "locked_key ll i" now s'] gone(2)
    by (cases "rd_ttl R (locked_key ll i) now s'") (auto simp: unwrap_or_def)
  moreover have "unwrap_or 0 (get_attempt_count ll i now s') = 0"
    using redis_laws.get_ok [OF assms(1), of "attempts_key ll i" now s'] gone(1) assms(2)
    by (auto simp: unwrap_or_def get_attempt_count_def reply_u32_def split: sum.splits)
  ultimately have "\<not> ls_locked st \<and> ls_attempt_count st = 0 \<and> ls_delay_ms st = 0"
    using assms(2,3,5) by (auto simp: check_def compute_delay_def Let_def split: sum.splits if_splits)
  moreover have "view s' (attempts_key ll j) = view s (attempts_key ll j)
      \<and> view s' (locked_key ll j) = view s (locked_key ll j)" if "j \<noteq> i" for j
    using eff [of j] that by (simp add: redis_laws.same_identity_def [OF assms(1)])
  ultimately show ?thesis by blast
qed

theorem lockout_cleared_witness:
  "\<exists>s' ns st. unlock sample_lockout ''a'' 5
       [locked_key sample_lockout ''a'' \<mapsto> (''1'', Some 9999)] = (Inr (), s', ns) \<and>
     check sample_float sample_lockout ''a'' 6 s' = Inr st \<and> \<not> ls_locked st"
proof -
  let ?s = "[locked_key sample_lockout ''a'' \<mapsto> (''1'', Some 9999)]"
  have ll: "ll_redis sample_lockout = mem_redis" "lc_enabled (ll_config sample_lockout)"
    by (simp_all add: sample_lockout_def login_lockout_new_def default_lockout_config_def)
  obtain s' ns where u: "unlock sample_lockout ''a'' 5 ?s = (Inr (), s', ns)"
    by (simp add: unlock_def get_connection_def ll mem_redis_def)
  have "is_ok (check sample_float sample_lockout ''a'' 6 s')"
    by (simp add: check_def get_connection_def Let_def ll mem_redis_def)
  then obtain st where "check sample_float sample_lockout ''a'' 6 s' = Inr st" by (auto simp: is_ok_iff)
  with lockout_cleared [OF mem.redis_laws_axioms ll disjI2 [OF u], of sample_float 6 st] u
  show ?thesis by blast
qed

subsection \<open>Guessing through the middleware\<close>

text \<open>Requests at the given times, all through the middleware: which were forwarded.\<close>

fun guesses ::
  "(string \<Rightarrow> string option) \<Rightarrow> 'f float_ops \<Rightarrow> ('f, 'r) login_lockout \<Rightarrow> ('r \<Rightarrow> u16 \<times> 'r) \<Rightarrow>
     lockout_request \<Rightarrow> nat list \<Rightarrow> 'r \<Rightarrow> (error + lockout_answer) list" where
  "guesses hv fo ll next rq [] s = []"
| "guesses hv fo ll next rq (t # ts) s =
     (case lockout_middleware hv fo ll t t next rq s of
        (a, s', ns) \<Rightarrow> a # guesses hv fo ll next rq ts s')"

fun is_forwarded :: "error + lockout_answer \<Rightarrow> bool" where
  "is_forwarded (Inr (Forwarded st d)) = True"
| "is_forwarded _ = False"

definition login_request :: "string \<Rightarrow> lockout_request \<Rightarrow> bool" where
  "login_request i rq \<longleftrightarrow>
     (\<exists>ct b. rq_content_type rq = Some ct \<and> contains_str ct ''application/json''
        \<and> rq_body rq = Inr b \<and> rq_identity rq b = Some i)"

lemma check_ttl:
  assumes "lc_enabled (ll_config ll)" and "rd_connect (ll_redis ll) s = None"
    and "rd_ttl (ll_redis ll) (locked_key ll i) now s = Inr ttl"
  shows "\<exists>st. check fo ll i now s = Inr st \<and> ls_locked st = (0 < ttl)"
  using assms by (cases "0 < ttl") (simp_all add: check_def get_connection_def unwrap_or_def Let_def)

lemma record_failure_total:
  assumes "redis_up (ll_redis ll)"
  shows "\<exists>st s' ns. record_failure fo ll i now utc s = (Inr st, s', ns)"
proof -
  have counted: "\<exists>st s' ns. record_failure_counted fo ll i c now utc s = (Inr st, s', ns)" for c s
  proof -
    obtain u s' where "rd_set_ex (ll_redis ll) (locked_key ll i) (show_nat utc)
        (sint (lc_lockout_duration_secs (ll_config ll))) now s = (Inr u, s')"
      using assms unfolding redis_up_def is_ok_iff by (metis prod.exhaust_sel)
    then show ?thesis
      by (cases "lc_max_attempts (ll_config ll) \<le> c") (simp_all add: record_failure_counted_def Let_def)
  qed
  have incr: "\<exists>n s1. rd_incr (ll_redis ll) k now s = (Inr n, s1)" for k s
    using assms unfolding redis_up_def is_ok_iff by (metis prod.exhaust_sel)
  have expire: "\<exists>u s1. rd_expire (ll_redis ll) k n now s = (Inr u, s1)" for k n s
    using assms unfolding redis_up_def is_ok_iff by (metis prod.exhaust_sel)
  obtain n s1 where n: "rd_incr (ll_redis ll) (attempts_key ll i) now s = (Inr n, s1)"
    using incr by blast
  obtain u s2 where "rd_expire (ll_redis ll) (attempts_key ll i) (sint (lc_window_secs (ll_config ll))) now s1
      = (Inr u, s2)"
    using expire by blast
  with n assms counted show ?thesis
    by (simp add: record_failure_def get_connection_def redis_up_def Let_def)
qed

context redis_laws
begin

lemma guess_step:
  assumes "ll_redis ll = R" and "lockout_times_ok (ll_config ll)" and "redis_up R"
    and "login_request i rq" and "\<And>s. next s = (UNAUTHORIZED, s)"
    and "tally ll i t1 m t2 s" and "m + 1 < 2 ^ 32" and "t1 \<le> t2"
    and "if m = 0 then t = t1 else t < t1 + window_ms (ll_config ll)"
    and "t + 1000 \<le> t1 + lockout_ms (ll_config ll)" and "0 < lc_max_attempts (ll_config ll)"
  shows "if unat (lc_max_attempts (ll_config ll)) \<le> m
    then \<exists>r. lockout_middleware hv fo ll t t next rq s = (Inr (Rejected r), s, [])
    else \<exists>d s' ns. lockout_middleware hv fo ll t t next rq s = (Inr (Forwarded UNAUTHORIZED d), s', ns)
      \<and> tally ll i t1 (m + 1) t s'"
proof -
  let ?c = "ll_config ll"
  obtain ttl where ttl: "rd_ttl R (locked_key ll i) t s = Inr ttl"
    using assms(3) unfolding redis_up_def is_ok_iff by blast
  have pos: "unat (lc_max_attempts ?c) \<le> m \<Longrightarrow> 0 < m"
    using assms(11) by (auto simp: word_less_nat_alt)
  have "0 < ttl \<longleftrightarrow> lc_max_attempts ?c \<le> of_nat m \<and> 0 < m"
    using ttl_ok [OF ttl] assms(6,8,10) by (auto simp: tally_def live_def split: if_splits)
  with pos u32_le_of_nat [of m "lc_max_attempts ?c"] assms(7)
  have locked: "0 < ttl \<longleftrightarrow> unat (lc_max_attempts ?c) \<le> m" by auto
  obtain st where st: "check fo ll i t s = Inr st" "ls_locked st \<longleftrightarrow> unat (lc_max_attempts ?c) \<le> m"
    using check_ttl [of ll s i t ttl fo] ttl locked assms(1-3)
    by (auto simp: redis_up_def lockout_times_ok_def)
  obtain f s' ns where f: "record_failure fo ll i t t s = (Inr f, s', ns)"
    using record_failure_total [of ll] assms(1,3) by blast
  then have "lockout_call fo ll Fail i t s = Some s'" by (simp add: lockout_call_def)
  from tally_fail [OF assms(2,1,6,7,9) this] st f assms(4,5) show ?thesis
    by (auto simp: lockout_middleware_def login_request_def Let_def)
qed

lemma guesses_tally:
  assumes "ll_redis ll = R" and "lockout_times_ok (ll_config ll)" and "redis_up R"
    and "login_request i rq" and "\<And>s. next s = (UNAUTHORIZED, s)"
    and "0 < lc_max_attempts (ll_config ll)"
    and "tally ll i t1 m t2 s" and "m + length ts < 2 ^ 32" and "t1 \<le> t2"
    and "m = 0 \<longrightarrow> ts = [] \<or> hd ts = t1"
    and "\<forall>t \<in> set ts. t1 \<le> t \<and> t < t1 + window_ms (ll_config ll) \<and> t + 1000 \<le> t1 + lockout_ms (ll_config ll)"
  shows "map is_forwarded (guesses hv fo ll next rq ts s) =
    map (\<lambda>k. m + k < unat (lc_max_attempts (ll_config ll))) [0..<length ts]"
  using assms(7-11)
proof (induction ts arbitrary: s m t2)
  case (Cons t ts)
  have upt: "[0..<Suc (length ts)] = 0 # map Suc [0..<length ts]"
    by (simp add: upt_conv_Cons map_Suc_upt del: upt_Suc)
  have t: "if m = 0 then t = t1 else t < t1 + window_ms (ll_config ll)"
      "t + 1000 \<le> t1 + lockout_ms (ll_config ll)" "m + 1 < 2 ^ 32"
    using Cons.prems by auto
  note step = guess_step [OF assms(1-5) Cons.prems(1) t(3) Cons.prems(3) t(1,2) assms(6), of hv fo]
  show ?case
  proof (cases "unat (lc_max_attempts (ll_config ll)) \<le> m")
    case True
    with assms(6) have "m \<noteq> 0" by (auto simp: word_less_nat_alt)
    from True step obtain r where
      "lockout_middleware hv fo ll t t next rq s = (Inr (Rejected r), s, [])" by auto
    with True \<open>m \<noteq> 0\<close> Cons.IH [OF Cons.prems(1)] Cons.prems show ?thesis
      by (simp add: upt comp_def del: upt_Suc)
  next
    case False
    with step obtain d s' ns where
      "lockout_middleware hv fo ll t t next rq s = (Inr (Forwarded UNAUTHORIZED d), s', ns)"
      "tally ll i t1 (m + 1) t s'" by auto
    with False Cons.IH [of "m + 1" t s'] Cons.prems show ?thesis
      by (simp add: upt comp_def del: upt_Suc)
  qed
qed simp

end



end
