(* ===== verification/Audit_Event.thy ===== *)
theory Audit_Event
  imports Errors
begin

text \<open>
  The audit event (\<^verbatim>\<open>src/acton-service/src/audit/event.rs\<close>): its record, its kinds with their
  wire strings, its severities, and JSON metadata values. All cargo features are enabled, so
  every kind is present. \<^verbatim>\<open>serde_json::Value\<close> is a datatype: an object is its list of entries in
  iteration order (the keys of a JSON map are distinct), a number is its decimal text. A UUID is
  its 16 bytes. The random identifier and the wall clock read by \<^verbatim>\<open>AuditEvent::new\<close> are
  arguments.
\<close>

subsection \<open>Event kinds\<close>

datatype audit_event_kind =
  AuthLoginSuccess
| AuthLoginFailed
| AuthTokenMissing
| AuthTokenInvalid
| AuthLogout
| AuthTokenRefresh
| AuthTokenRevoked
| AuthPasswordChanged
| AuthApiKeyCreated
| AuthApiKeyRevoked
| AuthOAuthCallback
| AuthPermissionDenied
| AuthAccountLocked
| AuthAccountUnlocked
| AccountCreated
| AccountDisabled
| AccountEnabled
| KindAccountLocked
| AccountUnlocked
| AccountExpired
| AccountDeleted
| AccountUpdated
| AuthKeyRotated
| AuthKeyRetired
| AuthKeyRotationFailed
| ConfigLoaded
| ConfigDriftDetected
| HttpRequest
| HttpRequestDenied
| Custom string

text \<open>\<^verbatim>\<open>Display for AuditEventKind\<close>.\<close>

fun kind_display :: "audit_event_kind \<Rightarrow> string" where
  "kind_display AuthLoginSuccess = ''auth.login.success''"
| "kind_display AuthLoginFailed = ''auth.login.failed''"
| "kind_display AuthTokenMissing = ''auth.token.missing''"
| "kind_display AuthTokenInvalid = ''auth.token.invalid''"
| "kind_display AuthLogout = ''auth.logout''"
| "kind_display AuthTokenRefresh = ''auth.token.refresh''"
| "kind_display AuthTokenRevoked = ''auth.token.revoked''"
| "kind_display AuthPasswordChanged = ''auth.password.changed''"
| "kind_display AuthApiKeyCreated = ''auth.apikey.created''"
| "kind_display AuthApiKeyRevoked = ''auth.apikey.revoked''"
| "kind_display AuthOAuthCallback = ''auth.oauth.callback''"
| "kind_display AuthPermissionDenied = ''auth.permission.denied''"
| "kind_display AuthAccountLocked = ''auth.account.locked''"
| "kind_display AuthAccountUnlocked = ''auth.account.unlocked''"
| "kind_display AccountCreated = ''account.created''"
| "kind_display AccountDisabled = ''account.disabled''"
| "kind_display AccountEnabled = ''account.enabled''"
| "kind_display KindAccountLocked = ''account.locked''"
| "kind_display AccountUnlocked = ''account.unlocked''"
| "kind_display AccountExpired = ''account.expired''"
| "kind_display AccountDeleted = ''account.deleted''"
| "kind_display AccountUpdated = ''account.updated''"
| "kind_display AuthKeyRotated = ''auth.key.rotated''"
| "kind_display AuthKeyRetired = ''auth.key.retired''"
| "kind_display AuthKeyRotationFailed = ''auth.key.rotation_failed''"
| "kind_display ConfigLoaded = ''config.loaded''"
| "kind_display ConfigDriftDetected = ''config.drift_detected''"
| "kind_display HttpRequest = ''http.request''"
| "kind_display HttpRequestDenied = ''http.request.denied''"
| "kind_display (Custom name) = ''custom.'' @ name"

text \<open>
  The derived \<^verbatim>\<open>Debug\<close> text of a kind, used in one log message; \<open>dbg\<close> is \<^verbatim>\<open>Debug\<close> of
  a string, with its quotes and escapes.
\<close>

fun kind_debug :: "(string \<Rightarrow> string) \<Rightarrow> audit_event_kind \<Rightarrow> string" where
  "kind_debug dbg AuthLoginSuccess = ''AuthLoginSuccess''"
| "kind_debug dbg AuthLoginFailed = ''AuthLoginFailed''"
| "kind_debug dbg AuthTokenMissing = ''AuthTokenMissing''"
| "kind_debug dbg AuthTokenInvalid = ''AuthTokenInvalid''"
| "kind_debug dbg AuthLogout = ''AuthLogout''"
| "kind_debug dbg AuthTokenRefresh = ''AuthTokenRefresh''"
| "kind_debug dbg AuthTokenRevoked = ''AuthTokenRevoked''"
| "kind_debug dbg AuthPasswordChanged = ''AuthPasswordChanged''"
| "kind_debug dbg AuthApiKeyCreated = ''AuthApiKeyCreated''"
| "kind_debug dbg AuthApiKeyRevoked = ''AuthApiKeyRevoked''"
| "kind_debug dbg AuthOAuthCallback = ''AuthOAuthCallback''"
| "kind_debug dbg AuthPermissionDenied = ''AuthPermissionDenied''"
| "kind_debug dbg AuthAccountLocked = ''AuthAccountLocked''"
| "kind_debug dbg AuthAccountUnlocked = ''AuthAccountUnlocked''"
| "kind_debug dbg AccountCreated = ''AccountCreated''"
| "kind_debug dbg AccountDisabled = ''AccountDisabled''"
| "kind_debug dbg AccountEnabled = ''AccountEnabled''"
| "kind_debug dbg KindAccountLocked = ''AccountLocked''"
| "kind_debug dbg AccountUnlocked = ''AccountUnlocked''"
| "kind_debug dbg AccountExpired = ''AccountExpired''"
| "kind_debug dbg AccountDeleted = ''AccountDeleted''"
| "kind_debug dbg AccountUpdated = ''AccountUpdated''"
| "kind_debug dbg AuthKeyRotated = ''AuthKeyRotated''"
| "kind_debug dbg AuthKeyRetired = ''AuthKeyRetired''"
| "kind_debug dbg AuthKeyRotationFailed = ''AuthKeyRotationFailed''"
| "kind_debug dbg ConfigLoaded = ''ConfigLoaded''"
| "kind_debug dbg ConfigDriftDetected = ''ConfigDriftDetected''"
| "kind_debug dbg HttpRequest = ''HttpRequest''"
| "kind_debug dbg HttpRequestDenied = ''HttpRequestDenied''"
| "kind_debug dbg (Custom name) = ''Custom('' @ dbg name @ '')''"

definition from_wire :: "string \<Rightarrow> audit_event_kind option" where
  "from_wire s = (case strip_prefix s ''custom.'' of
     Some name \<Rightarrow> Some (Custom name)
   | None \<Rightarrow>
      if s = ''auth.login.success'' then Some AuthLoginSuccess
      else if s = ''auth.login.failed'' then Some AuthLoginFailed
      else if s = ''auth.token.missing'' then Some AuthTokenMissing
      else if s = ''auth.token.invalid'' then Some AuthTokenInvalid
      else if s = ''auth.logout'' then Some AuthLogout
      else if s = ''auth.token.refresh'' then Some AuthTokenRefresh
      else if s = ''auth.token.revoked'' then Some AuthTokenRevoked
      else if s = ''auth.password.changed'' then Some AuthPasswordChanged
      else if s = ''auth.apikey.created'' then Some AuthApiKeyCreated
      else if s = ''auth.apikey.revoked'' then Some AuthApiKeyRevoked
      else if s = ''auth.oauth.callback'' then Some AuthOAuthCallback
      else if s = ''auth.permission.denied'' then Some AuthPermissionDenied
      else if s = ''auth.account.locked'' then Some AuthAccountLocked
      else if s = ''auth.account.unlocked'' then Some AuthAccountUnlocked
      else if s = ''account.created'' then Some AccountCreated
      else if s = ''account.disabled'' then Some AccountDisabled
      else if s = ''account.enabled'' then Some AccountEnabled
      else if s = ''account.locked'' then Some KindAccountLocked
      else if s = ''account.unlocked'' then Some AccountUnlocked
      else if s = ''account.expired'' then Some AccountExpired
      else if s = ''account.deleted'' then Some AccountDeleted
      else if s = ''account.updated'' then Some AccountUpdated
      else if s = ''auth.key.rotated'' then Some AuthKeyRotated
      else if s = ''auth.key.retired'' then Some AuthKeyRetired
      else if s = ''auth.key.rotation_failed'' then Some AuthKeyRotationFailed
      else if s = ''config.loaded'' then Some ConfigLoaded
      else if s = ''config.drift_detected'' then Some ConfigDriftDetected
      else if s = ''http.request'' then Some HttpRequest
      else if s = ''http.request.denied'' then Some HttpRequestDenied
      else None)"

subsection \<open>Severities\<close>

datatype audit_severity =
  Emergency | Alert | Critical | Error | Warning | Notice | Informational | Debug

fun as_syslog_severity :: "audit_severity \<Rightarrow> u8" where
  "as_syslog_severity Emergency = 0"
| "as_syslog_severity Alert = 1"
| "as_syslog_severity Critical = 2"
| "as_syslog_severity Error = 3"
| "as_syslog_severity Warning = 4"
| "as_syslog_severity Notice = 5"
| "as_syslog_severity Informational = 6"
| "as_syslog_severity Debug = 7"

fun severity_display :: "audit_severity \<Rightarrow> string" where
  "severity_display Emergency = ''EMERGENCY''"
| "severity_display Alert = ''ALERT''"
| "severity_display Critical = ''CRITICAL''"
| "severity_display Error = ''ERROR''"
| "severity_display Warning = ''WARNING''"
| "severity_display Notice = ''NOTICE''"
| "severity_display Informational = ''INFO''"
| "severity_display Debug = ''DEBUG''"

text \<open>
  The derived order of severities compares the discriminants, so the most severe level is the
  least one.
\<close>

instantiation audit_severity :: linorder
begin

definition less_eq_audit_severity :: "audit_severity \<Rightarrow> audit_severity \<Rightarrow> bool" where
  "a \<le> b \<longleftrightarrow> as_syslog_severity a \<le> as_syslog_severity b"

definition less_audit_severity :: "audit_severity \<Rightarrow> audit_severity \<Rightarrow> bool" where
  "a < b \<longleftrightarrow> as_syslog_severity a < as_syslog_severity b"

instance
proof
  fix a b :: audit_severity
  assume "a \<le> b" and "b \<le> a"
  then show "a = b"
    by (cases a; cases b) (simp_all add: less_eq_audit_severity_def word_le_nat_alt)
qed (auto simp: less_eq_audit_severity_def less_audit_severity_def)

end

subsection \<open>JSON values and events\<close>

datatype json =
  JNull
| JBool bool
| JNumber string
| JString string
| JArray "json list"
| JObject "(string \<times> json) list"

type_synonym uuid = "u8 list"

record audit_source =
  src_ip :: "string option"
  src_user_agent :: "string option"
  src_subject :: "string option"
  src_request_id :: "string option"

definition audit_source_default :: audit_source where
  "audit_source_default =
     \<lparr>src_ip = None, src_user_agent = None, src_subject = None, src_request_id = None\<rparr>"

record audit_event =
  ev_id :: uuid
  ev_timestamp :: datetime
  ev_kind :: audit_event_kind
  ev_severity :: audit_severity
  ev_source :: audit_source
  ev_method :: "string option"
  ev_path :: "string option"
  ev_status_code :: "u16 option"
  ev_duration_ms :: "u64 option"
  ev_service_name :: string
  ev_metadata :: "json option"
  ev_hash :: "string option"
  ev_previous_hash :: "string option"
  ev_sequence :: u64

definition audit_event_new ::
  "uuid \<Rightarrow> datetime \<Rightarrow> audit_event_kind \<Rightarrow> audit_severity \<Rightarrow> string \<Rightarrow> audit_event" where
  "audit_event_new new_v4 now kind severity service_name =
     \<lparr>ev_id = new_v4, ev_timestamp = now, ev_kind = kind, ev_severity = severity,
      ev_source = audit_source_default, ev_method = None, ev_path = None,
      ev_status_code = None, ev_duration_ms = None, ev_service_name = service_name,
      ev_metadata = None, ev_hash = None, ev_previous_hash = None, ev_sequence = 0\<rparr>"

definition with_source :: "audit_event \<Rightarrow> audit_source \<Rightarrow> audit_event" where
  "with_source e source = e\<lparr>ev_source := source\<rparr>"

definition with_http ::
  "audit_event \<Rightarrow> string \<Rightarrow> string \<Rightarrow> u16 option \<Rightarrow> u64 option \<Rightarrow> audit_event" where
  "with_http e method path status_code duration_ms =
     e\<lparr>ev_method := Some method, ev_path := Some path, ev_status_code := status_code,
       ev_duration_ms := duration_ms\<rparr>"

definition with_metadata :: "audit_event \<Rightarrow> json \<Rightarrow> audit_event" where
  "with_metadata e metadata = e\<lparr>ev_metadata := Some metadata\<rparr>"

lemmas audit_event_defs =
  audit_source_default_def audit_event_new_def with_source_def with_http_def with_metadata_def

subsection \<open>Properties\<close>

text \<open>
  \<^verbatim>\<open>from_wire\<close> is the exact inverse of \<^verbatim>\<open>Display\<close>: every kind is read back from its wire
  string, and a string that parses is the wire string of the parsed kind. A string therefore
  parses exactly when it is the wire string of some kind.
\<close>

theorem from_wire_iff: "from_wire s = Some k \<longleftrightarrow> s = kind_display k"
proof
  assume "s = kind_display k"
  then show "from_wire s = Some k"
    by (cases k) (simp_all add: from_wire_def)
next
  assume "from_wire s = Some k"
  then show "s = kind_display k"
    by (auto simp: from_wire_def strip_prefix_Some split: option.splits if_splits)
qed

lemma from_wire_display [simp]: "from_wire (kind_display k) = Some k"
  by (cases k) (simp_all add: from_wire_def)

lemma kind_display_inj [inj_rules]: "kind_display a = kind_display b \<longleftrightarrow> a = b"
  by (metis from_wire_display option.inject)

lemma as_syslog_severity_inj [inj_rules]: "as_syslog_severity a = as_syslog_severity b \<longleftrightarrow> a = b"
  by (cases a; cases b) simp_all

lemma as_syslog_severity_le: "as_syslog_severity s \<le> 7"
  by (cases s) simp_all

end
