(* ===== verification/Password.thy ===== *)
theory Password
  imports Errors
begin

text \<open>
  Password hashing (\<^verbatim>\<open>src/acton-service/src/auth/password.rs\<close>): the length check, hashing,
  verification and the test for outdated cost parameters. Argon2 is a third-party crate: its
  parameter check, hash, verifier and PHC string parser are the record \<open>argon2_env\<close>, and the random
  salt is an argument.
\<close>

record password_config =
  pc_memory_cost_kib :: u32
  pc_time_cost :: u32
  pc_parallelism :: u32
  pc_min_password_length :: nat

definition default_password_config :: password_config where
  "default_password_config =
     \<lparr>pc_memory_cost_kib = 65536, pc_time_cost = 3, pc_parallelism = 4, pc_min_password_length = 8\<rparr>"

record argon2_params =
  m_cost :: u32
  t_cost :: u32
  p_cost :: u32

text \<open>
  A parsed PHC string. A parameter is its name and what \<^verbatim>\<open>decimal()\<close> gives for its value.
\<close>

record phc_hash =
  phc_algorithm :: string
  phc_version :: "u32 option"
  phc_params :: "(string \<times> u32 option) list"
  phc_text :: string

datatype verify_outcome = VerifyOk | VerifyPassword | VerifyError string

record argon2_env =
  ar2_params_ok :: "argon2_params \<Rightarrow> bool"
  ar2_hash_password :: "argon2_params \<Rightarrow> string \<Rightarrow> string \<Rightarrow> string + string"
  ar2_parse :: "string \<Rightarrow> string + phc_hash"
  ar2_verify_password :: "string \<Rightarrow> phc_hash \<Rightarrow> verify_outcome"
  ar2_argon2id :: string

record password_hasher =
  ph_params :: argon2_params
  ph_min_password_length :: nat

text \<open>\<^verbatim>\<open>PasswordHasher::new\<close> panics on parameters Argon2 rejects.\<close>

definition password_hasher_new :: "argon2_env \<Rightarrow> password_config \<Rightarrow> password_hasher option" where
  "password_hasher_new ar config =
     (let params = \<lparr>m_cost = pc_memory_cost_kib config, t_cost = pc_time_cost config,
                    p_cost = pc_parallelism config\<rparr>
      in if ar2_params_ok ar params
         then Some \<lparr>ph_params = params, ph_min_password_length = pc_min_password_length config\<rparr>
         else None)"

definition password_hash :: "argon2_env \<Rightarrow> string \<Rightarrow> password_hasher \<Rightarrow> string \<Rightarrow> error + string" where
  "password_hash ar salt h password =
     (if length password < ph_min_password_length h
      then Inl (ValidationError (''Password must be at least '' @ show_nat (ph_min_password_length h)
             @ '' characters''))
      else case ar2_hash_password ar (ph_params h) password salt of
             Inl e \<Rightarrow> Inl (Auth (''Failed to hash password: '' @ e))
           | Inr hash \<Rightarrow> Inr hash)"

definition password_verify :: "argon2_env \<Rightarrow> string \<Rightarrow> string \<Rightarrow> error + bool" where
  "password_verify ar password hash =
     (case ar2_parse ar hash of
        Inl e \<Rightarrow> Inl (Auth (''Invalid password hash format: '' @ e))
      | Inr parsed_hash \<Rightarrow>
          (case ar2_verify_password ar password parsed_hash of
             VerifyOk \<Rightarrow> Inr True
           | VerifyPassword \<Rightarrow> Inr False
           | VerifyError e \<Rightarrow> Inl (Auth (''Password verification failed: '' @ e))))"

definition find_param :: "string \<Rightarrow> (string \<times> u32 option) list \<Rightarrow> u32 option" where
  "find_param name params =
     (case find (\<lambda>(k, _). k = name) params of Some (_, v) \<Rightarrow> v | None \<Rightarrow> None)"

definition needs_rehash :: "argon2_env \<Rightarrow> password_hasher \<Rightarrow> string \<Rightarrow> bool" where
  "needs_rehash ar h hash =
     (case ar2_parse ar hash of
        Inl _ \<Rightarrow> True
      | Inr parsed_hash \<Rightarrow>
          if phc_algorithm parsed_hash \<noteq> ar2_argon2id ar then True
          else (case phc_version parsed_hash of
                  None \<Rightarrow> True
                | Some version \<Rightarrow>
                    if version \<noteq> 19 then True
                    else if find_param ''m'' (phc_params parsed_hash) \<noteq> Some (m_cost (ph_params h)) then True
                    else if find_param ''t'' (phc_params parsed_hash) \<noteq> Some (t_cost (ph_params h)) then True
                    else if find_param ''p'' (phc_params parsed_hash) \<noteq> Some (p_cost (ph_params h)) then True
                    else False))"

subsection \<open>Documented behaviour of Argon2\<close>

text \<open>
  A PHC string made by Argon2id version 19 parses to its algorithm, version and cost parameters,
  and verifies the password it was made from.
\<close>

definition argon2_phc :: "argon2_env \<Rightarrow> bool" where
  "argon2_phc ar \<longleftrightarrow>
     (\<forall>ps pw salt hash. ar2_hash_password ar ps pw salt = Inr hash \<longrightarrow>
        (\<exists>d. ar2_parse ar hash = Inr d \<and> phc_algorithm d = ar2_argon2id ar \<and> phc_version d = Some 19
           \<and> phc_params d = [(''m'', Some (m_cost ps)), (''t'', Some (t_cost ps)), (''p'', Some (p_cost ps))]
           \<and> ar2_verify_password ar pw d = VerifyOk))"

lemma password_hash_Inr:
  "password_hash ar salt h pw = Inr hash \<longleftrightarrow>
     ph_min_password_length h \<le> length pw \<and> ar2_hash_password ar (ph_params h) pw salt = Inr hash"
  by (auto simp: password_hash_def split: sum.splits)

lemma password_hash_verifies:
  assumes "argon2_phc ar" and "password_hash ar salt h pw = Inr hash"
  shows "password_verify ar pw hash = Inr True"
proof -
  obtain d where "ar2_parse ar hash = Inr d" "ar2_verify_password ar pw d = VerifyOk"
    using assms by (fastforce simp: argon2_phc_def password_hash_Inr)
  then show ?thesis by (simp add: password_verify_def)
qed

text \<open>
  A stored hash is reported for rehashing exactly when it was made with other cost
  parameters than the configured ones.
\<close>

theorem rehash_iff_parameters_changed:
  assumes "argon2_phc ar" and "password_hash ar salt h pw = Inr hash"
  shows "needs_rehash ar h' hash \<longleftrightarrow> ph_params h' \<noteq> ph_params h"
proof -
  obtain d where d: "ar2_parse ar hash = Inr d" "phc_algorithm d = ar2_argon2id ar"
      "phc_version d = Some 19" "phc_params d = [(''m'', Some (m_cost (ph_params h))),
        (''t'', Some (t_cost (ph_params h))), (''p'', Some (p_cost (ph_params h)))]"
    using assms unfolding argon2_phc_def password_hash_Inr by blast
  have "a = b \<longleftrightarrow> m_cost a = m_cost b \<and> t_cost a = t_cost b \<and> p_cost a = p_cost b"
    for a b :: argon2_params by (cases a; cases b) simp
  with d show ?thesis by (auto simp: needs_rehash_def find_param_def)
qed

text \<open>A concrete stand-in for Argon2: the hash is the text of the parameters and the password.\<close>

definition sample_argon2 :: argon2_env where
  "sample_argon2 =
     \<lparr>ar2_params_ok = (\<lambda>_. True),
      ar2_hash_password = (\<lambda>ps pw salt. Inr
        (show_nat (unat (m_cost ps)) @ ''$'' @ show_nat (unat (t_cost ps)) @ ''$''
         @ show_nat (unat (p_cost ps)) @ ''$'' @ pw)),
      ar2_parse = (\<lambda>s. case split_char CHR ''$'' s of
          m # t # p # pw \<Rightarrow> Inr \<lparr>phc_algorithm = ''argon2id'', phc_version = Some 19,
            phc_params = [(''m'', Some (of_nat (digits_val m))), (''t'', Some (of_nat (digits_val t))),
              (''p'', Some (of_nat (digits_val p)))], phc_text = join ''$'' pw\<rparr>
        | _ \<Rightarrow> Inl ''format''),
      ar2_verify_password = (\<lambda>pw d. if phc_text d = pw then VerifyOk else VerifyPassword),
      ar2_argon2id = ''argon2id''\<rparr>"

lemma show_nat_no_dollar: "CHR ''$'' \<notin> set (show_nat n)"
  using show_nat_digits [of n] by (auto simp: list_all_iff is_ascii_digit_def)

lemma sample_argon2_phc: "argon2_phc sample_argon2"
  by (auto simp: argon2_phc_def sample_argon2_def split_char_append show_nat_no_dollar
      digits_val_show_nat join_split_char)

definition sample_hasher :: password_hasher where
  "sample_hasher = \<lparr>ph_params = \<lparr>m_cost = 64, t_cost = 3, p_cost = 4\<rparr>, ph_min_password_length = 8\<rparr>"

theorem rehash_iff_parameters_changed_witness:
  "\<exists>hash. password_hash sample_argon2 ''salt'' sample_hasher ''password1'' = Inr hash \<and>
     needs_rehash sample_argon2 (sample_hasher\<lparr>ph_params := \<lparr>m_cost = 128, t_cost = 3, p_cost = 4\<rparr>\<rparr>) hash \<and>
     \<not> needs_rehash sample_argon2 sample_hasher hash"
proof -
  obtain hash where h: "password_hash sample_argon2 ''salt'' sample_hasher ''password1'' = Inr hash"
    by (simp add: password_hash_def sample_argon2_def sample_hasher_def)
  with rehash_iff_parameters_changed [OF sample_argon2_phc h] show ?thesis
    by (simp add: sample_hasher_def)
qed

end
