(* ===== verification/Accounts.thy ===== *)
theory Accounts
  imports Audit_Event Password "HOL-Library.Multiset"
begin

text \<open>
  Accounts (\<^verbatim>\<open>src/acton-service/src/accounts/\<close>): statuses and entities (\<^verbatim>\<open>types.rs\<close>), errors
  (\<^verbatim>\<open>error.rs\<close>), configuration (\<^verbatim>\<open>config.rs\<close>), notifications (\<^verbatim>\<open>notification.rs\<close>), the PostgreSQL
  table (\<^verbatim>\<open>storage/pg.rs\<close>), the service (\<^verbatim>\<open>mod.rs\<close>) and its HTTP handlers (\<^verbatim>\<open>handlers.rs\<close>).

  The service works over \<^verbatim>\<open>dyn AccountStorage\<close>, the record \<open>account_ops\<close>; what it relies on is the
  locale \<open>account_store\<close>. An operation of the service returns its result, the state of the storage
  and the events it notifies, in order; every registered handler is given each of them. A service
  call is one step: calls of other tasks between its storage statements are not modelled.
  An account identifier is its text; the TypeID parser, new identifiers, clocks and server faults
  are arguments.
\<close>

subsection \<open>Identifiers, statuses and entities\<close>

datatype account_id_error = Parse string | InvalidPrefix string string

text \<open>\<open>mti\<close> is \<^verbatim>\<open>MagicTypeId::from_str\<close>: the prefix and the text of the identifier.\<close>

definition account_id_from_str ::
  "(string \<Rightarrow> string + string \<times> string) \<Rightarrow> string \<Rightarrow> account_id_error + string" where
  "account_id_from_str mti s =
     (case mti s of
        Inl e \<Rightarrow> Inl (Parse e)
      | Inr (prefix, text) \<Rightarrow>
          if prefix \<noteq> ''acct'' then Inl (InvalidPrefix ''acct'' prefix) else Inr text)"

datatype account_event =
  Created string string
| Activated string
| EvDisabled string string
| EvLocked string string
| Unlocked string
| EvSuspended string string
| EvExpired string
| Deleted string
| EmailVerified string
| PasswordChanged string
| RolesUpdated string "string list"
| ProfileUpdated string

datatype account_status = PendingVerification | Active | Disabled | Locked | Expired | Suspended

fun can_transition_to :: "account_status \<Rightarrow> account_status \<Rightarrow> bool" where
  "can_transition_to PendingVerification Active = True"
| "can_transition_to PendingVerification Disabled = True"
| "can_transition_to PendingVerification Expired = True"
| "can_transition_to Active Disabled = True"
| "can_transition_to Active Locked = True"
| "can_transition_to Active Expired = True"
| "can_transition_to Active Suspended = True"
| "can_transition_to Disabled Active = True"
| "can_transition_to Locked Active = True"
| "can_transition_to Locked Disabled = True"
| "can_transition_to Expired Active = True"
| "can_transition_to Expired Disabled = True"
| "can_transition_to Suspended Active = True"
| "can_transition_to Suspended Disabled = True"
| "can_transition_to _ _ = False"

fun account_status_display :: "account_status \<Rightarrow> string" where
  "account_status_display PendingVerification = ''pending_verification''"
| "account_status_display Active = ''active''"
| "account_status_display Disabled = ''disabled''"
| "account_status_display Locked = ''locked''"
| "account_status_display Expired = ''expired''"
| "account_status_display Suspended = ''suspended''"

definition account_status_from_str :: "string \<Rightarrow> string + account_status" where
  "account_status_from_str s =
     (if s = ''pending_verification'' then Inr PendingVerification
      else if s = ''active'' then Inr Active
      else if s = ''disabled'' then Inr Disabled
      else if s = ''locked'' then Inr Locked
      else if s = ''expired'' then Inr Expired
      else if s = ''suspended'' then Inr Suspended
      else Inl (''unknown account status: '' @ s))"

record account =
  acc_id :: string
  acc_email :: string
  acc_username :: "string option"
  acc_password_hash :: "string option"
  acc_status :: account_status
  acc_roles :: "string list"
  acc_email_verified :: bool
  acc_email_verified_at :: "datetime option"
  acc_last_login_at :: "datetime option"
  acc_locked_at :: "datetime option"
  acc_locked_reason :: "string option"
  acc_disabled_at :: "datetime option"
  acc_disabled_reason :: "string option"
  acc_expires_at :: "datetime option"
  acc_password_changed_at :: "datetime option"
  acc_failed_login_count :: u32
  acc_metadata :: "json option"
  acc_created_at :: datetime
  acc_updated_at :: datetime

record create_account_data =
  cd_email :: string
  cd_username :: "string option"
  cd_password :: "string option"
  cd_roles :: "string list"
  cd_expires_at :: "datetime option"
  cd_metadata :: "json option"
  cd_require_email_verification :: "bool option"

record update_account_data =
  ud_email :: "string option"
  ud_username :: "string option"
  ud_roles :: "string list option"
  ud_expires_at :: "datetime option option"
  ud_metadata :: "json option"

record accounts_config =
  acf_default_status :: account_status
  acf_require_email_verification :: bool
  acf_inactivity_expiry_days :: u64
  acf_unique_usernames :: bool
  acf_audit_events :: bool

definition default_accounts_config :: accounts_config where
  "default_accounts_config =
     \<lparr>acf_default_status = PendingVerification, acf_require_email_verification = True,
      acf_inactivity_expiry_days = 0, acf_unique_usernames = False, acf_audit_events = True\<rparr>"

datatype account_error =
  AccNotFound string
| AlreadyExists string
| InvalidTransition account_status account_status
| InvalidCredentials
| AccountInactive account_status string
| Validation string
| Storage string
| InvalidId string

fun account_error_display :: "account_error \<Rightarrow> string" where
  "account_error_display (AccNotFound s) = ''account not found: '' @ s"
| "account_error_display (AlreadyExists s) = ''account already exists with email: '' @ s"
| "account_error_display (InvalidTransition from to) =
     ''invalid status transition from '' @ account_status_display from @ '' to ''
     @ account_status_display to"
| "account_error_display InvalidCredentials = ''invalid credentials''"
| "account_error_display (AccountInactive status reason) =
     ''account is '' @ account_status_display status @ '': '' @ reason"
| "account_error_display (Validation s) = ''validation error: '' @ s"
| "account_error_display (Storage s) = ''storage error: '' @ s"
| "account_error_display (InvalidId s) = ''invalid account ID: '' @ s"

definition error_from_account_error :: "account_error \<Rightarrow> error" where
  "error_from_account_error err =
     (case err of
        AccNotFound _ \<Rightarrow> NotFound (account_error_display err)
      | AlreadyExists _ \<Rightarrow> Conflict (account_error_display err)
      | InvalidTransition _ _ \<Rightarrow> ValidationError (account_error_display err)
      | InvalidCredentials \<Rightarrow> Unauthorized (account_error_display err)
      | AccountInactive _ _ \<Rightarrow> Forbidden (account_error_display err)
      | Validation _ \<Rightarrow> BadRequest (account_error_display err)
      | Storage _ \<Rightarrow> Internal (account_error_display err)
      | InvalidId _ \<Rightarrow> BadRequest (account_error_display err))"

subsection \<open>The table of accounts\<close>

text \<open>The INTEGER column of the login counter holds the bits of the \<^verbatim>\<open>u32\<close>, read as \<^verbatim>\<open>i32\<close>.\<close>

record account_row =
  aw_id :: string
  aw_email :: string
  aw_username :: "string option"
  aw_password_hash :: "string option"
  aw_status :: string
  aw_roles :: json
  aw_email_verified :: bool
  aw_email_verified_at :: "datetime option"
  aw_last_login_at :: "datetime option"
  aw_locked_at :: "datetime option"
  aw_locked_reason :: "string option"
  aw_disabled_at :: "datetime option"
  aw_disabled_reason :: "string option"
  aw_expires_at :: "datetime option"
  aw_password_changed_at :: "datetime option"
  aw_failed_login_count :: u32
  aw_metadata :: "json option"
  aw_created_at :: datetime
  aw_updated_at :: datetime

type_synonym account_table = "account_row list"

datatype account_statement =
  SCreate | SById | SByEmail | SByUsername | SUpdate | SUpdateStatus | SList | SCount | SDelete
| SRecordLogin | SFindExpired | SFindInactive

text \<open>
  The server and the process around the storage code: faults per statement, the text of a
  constraint or range error, the clock, what TIMESTAMPTZ and JSONB columns keep, the order in which
  rows are scanned, the TypeID parser and the identifiers it falls back to.
\<close>

record account_env =
  ae_fault :: "account_statement \<Rightarrow> string option"
  ae_violation :: string
  ae_now :: datetime
  ae_timestamptz :: "datetime \<Rightarrow> datetime"
  ae_jsonb :: "json \<Rightarrow> json"
  ae_scan :: "account_table \<Rightarrow> account_table"
  ae_mti :: "string \<Rightarrow> string + string \<times> string"
  ae_new_id :: "string \<Rightarrow> string"

text \<open>\<^verbatim>\<open>serde_json::to_value\<close> and \<^verbatim>\<open>from_value\<close> for \<^verbatim>\<open>Vec<String>\<close>.\<close>

definition roles_to_json :: "string list \<Rightarrow> json" where
  "roles_to_json roles = JArray (map JString roles)"

fun json_string :: "json \<Rightarrow> string option" where
  "json_string (JString s) = Some s"
| "json_string _ = None"

fun roles_from_json :: "json \<Rightarrow> string list option" where
  "roles_from_json (JArray js) =
     (if list_all (\<lambda>j. json_string j \<noteq> None) js then Some (map (the \<circ> json_string) js) else None)"
| "roles_from_json _ = None"

definition account_of_row :: "account_env \<Rightarrow> account_row \<Rightarrow> account" where
  "account_of_row env row =
     \<lparr>acc_id = (case account_id_from_str (ae_mti env) (aw_id row) of
         Inr i \<Rightarrow> i | Inl _ \<Rightarrow> ae_new_id env (aw_id row)),
      acc_email = aw_email row, acc_username = aw_username row,
      acc_password_hash = aw_password_hash row,
      acc_status = (case account_status_from_str (aw_status row) of
         Inr s \<Rightarrow> s | Inl _ \<Rightarrow> PendingVerification),
      acc_roles = (case roles_from_json (aw_roles row) of Some rs \<Rightarrow> rs | None \<Rightarrow> []),
      acc_email_verified = aw_email_verified row, acc_email_verified_at = aw_email_verified_at row,
      acc_last_login_at = aw_last_login_at row, acc_locked_at = aw_locked_at row,
      acc_locked_reason = aw_locked_reason row, acc_disabled_at = aw_disabled_at row,
      acc_disabled_reason = aw_disabled_reason row, acc_expires_at = aw_expires_at row,
      acc_password_changed_at = aw_password_changed_at row,
      acc_failed_login_count = aw_failed_login_count row, acc_metadata = aw_metadata row,
      acc_created_at = aw_created_at row, acc_updated_at = aw_updated_at row\<rparr>"

text \<open>The values \<^verbatim>\<open>create\<close> binds, as the columns keep them.\<close>

definition row_of_account :: "account_env \<Rightarrow> account \<Rightarrow> account_row" where
  "row_of_account env a =
     (let ts = ae_timestamptz env in
     \<lparr>aw_id = acc_id a, aw_email = acc_email a, aw_username = acc_username a,
      aw_password_hash = acc_password_hash a, aw_status = account_status_display (acc_status a),
      aw_roles = ae_jsonb env (roles_to_json (acc_roles a)),
      aw_email_verified = acc_email_verified a,
      aw_email_verified_at = map_option ts (acc_email_verified_at a),
      aw_last_login_at = map_option ts (acc_last_login_at a),
      aw_locked_at = map_option ts (acc_locked_at a), aw_locked_reason = acc_locked_reason a,
      aw_disabled_at = map_option ts (acc_disabled_at a),
      aw_disabled_reason = acc_disabled_reason a,
      aw_expires_at = map_option ts (acc_expires_at a),
      aw_password_changed_at = map_option ts (acc_password_changed_at a),
      aw_failed_login_count = acc_failed_login_count a,
      aw_metadata = map_option (ae_jsonb env) (acc_metadata a),
      aw_created_at = ts (acc_created_at a), aw_updated_at = ts (acc_updated_at a)\<rparr>)"

definition pg_create :: "account_env \<Rightarrow> account \<Rightarrow> account_table \<Rightarrow> (error + unit) \<times> account_table" where
  "pg_create env a t =
     (case ae_fault env SCreate of
        Some e \<Rightarrow> (Inl (Internal (''Failed to create account: '' @ e)), t)
      | None \<Rightarrow>
          if acc_id a \<in> set (map aw_id t) \<or> acc_email a \<in> set (map aw_email t)
          then (Inl (Internal (''Failed to create account: '' @ ae_violation env)), t)
          else (Inr (), t @ [row_of_account env a]))"

definition pg_get_by_id :: "account_env \<Rightarrow> string \<Rightarrow> account_table \<Rightarrow> error + account option" where
  "pg_get_by_id env aid t =
     (case ae_fault env SById of
        Some e \<Rightarrow> Inl (Internal (''Failed to get account by id: '' @ e))
      | None \<Rightarrow> Inr (map_option (account_of_row env) (find (\<lambda>r. aw_id r = aid) (ae_scan env t))))"

definition pg_get_by_email :: "account_env \<Rightarrow> string \<Rightarrow> account_table \<Rightarrow> error + account option" where
  "pg_get_by_email env email t =
     (case ae_fault env SByEmail of
        Some e \<Rightarrow> Inl (Internal (''Failed to get account by email: '' @ e))
      | None \<Rightarrow> Inr (map_option (account_of_row env) (find (\<lambda>r. aw_email r = email) (ae_scan env t))))"

definition pg_get_by_username :: "account_env \<Rightarrow> string \<Rightarrow> account_table \<Rightarrow> error + account option" where
  "pg_get_by_username env username t =
     (case ae_fault env SByUsername of
        Some e \<Rightarrow> Inl (Internal (''Failed to get account by username: '' @ e))
      | None \<Rightarrow>
          Inr (map_option (account_of_row env) (find (\<lambda>r. aw_username r = Some username) (ae_scan env t))))"

text \<open>
  \<^verbatim>\<open>update\<close> sets every column but the identifier and \<^verbatim>\<open>created_at\<close>; \<^verbatim>\<open>updated_at\<close> is the clock of
  the storage code. A new address that another row has violates the UNIQUE constraint.
\<close>

definition pg_update :: "account_env \<Rightarrow> account \<Rightarrow> account_table \<Rightarrow> (error + unit) \<times> account_table" where
  "pg_update env a t =
     (case ae_fault env SUpdate of
        Some e \<Rightarrow> (Inl (Internal (''Failed to update account: '' @ e)), t)
      | None \<Rightarrow>
          if acc_id a \<in> set (map aw_id t) \<and>
             acc_email a \<in> set (map aw_email (filter (\<lambda>r. aw_id r \<noteq> acc_id a) t))
          then (Inl (Internal (''Failed to update account: '' @ ae_violation env)), t)
          else (Inr (), map (\<lambda>r. if aw_id r = acc_id a
                  then (row_of_account env a)\<lparr>aw_created_at := aw_created_at r,
                         aw_updated_at := ae_timestamptz env (ae_now env)\<rparr>
                  else r) t))"

definition set_row_status ::
  "datetime \<Rightarrow> account_status \<Rightarrow> string option \<Rightarrow> account_row \<Rightarrow> account_row" where
  "set_row_status now status reason r =
     (case status of
        Disabled \<Rightarrow> r\<lparr>aw_status := account_status_display status, aw_disabled_at := Some now,
            aw_disabled_reason := reason, aw_updated_at := now\<rparr>
      | Locked \<Rightarrow> r\<lparr>aw_status := account_status_display status, aw_locked_at := Some now,
            aw_locked_reason := reason, aw_updated_at := now\<rparr>
      | Active \<Rightarrow> r\<lparr>aw_status := account_status_display status, aw_locked_at := None,
            aw_locked_reason := None, aw_disabled_at := None, aw_disabled_reason := None,
            aw_updated_at := now\<rparr>
      | _ \<Rightarrow> r\<lparr>aw_status := account_status_display status, aw_updated_at := now\<rparr>)"

definition pg_update_status ::
  "account_env \<Rightarrow> string \<Rightarrow> account_status \<Rightarrow> string option \<Rightarrow> account_table \<Rightarrow>
     (error + unit) \<times> account_table" where
  "pg_update_status env aid status reason t =
     (case ae_fault env SUpdateStatus of
        Some e \<Rightarrow> (Inl (Internal (''Failed to update status: '' @ e)), t)
      | None \<Rightarrow>
          (Inr (), map (\<lambda>r. if aw_id r = aid
             then set_row_status (ae_timestamptz env (ae_now env)) status reason r else r) t))"

definition row_matches :: "account_status option \<Rightarrow> account_row \<Rightarrow> bool" where
  "row_matches status_filter r =
     (case status_filter of Some s \<Rightarrow> aw_status r = account_status_display s | None \<Rightarrow> True)"

text \<open>LIMIT and OFFSET are bound as \<^verbatim>\<open>i64\<close>; the server refuses negative ones.\<close>

definition pg_list ::
  "account_env \<Rightarrow> account_status option \<Rightarrow> u64 \<Rightarrow> u64 \<Rightarrow> account_table \<Rightarrow> error + account list" where
  "pg_list env status_filter limit offset t =
     (case ae_fault env SList of
        Some e \<Rightarrow> Inl (Internal (''Failed to list accounts: '' @ e))
      | None \<Rightarrow>
          if sint limit < 0 \<or> sint offset < 0
          then Inl (Internal (''Failed to list accounts: '' @ ae_violation env))
          else Inr (map (account_of_row env) (take (unat limit) (drop (unat offset)
                 (sort_key (\<lambda>r. - aw_created_at r) (filter (row_matches status_filter) (ae_scan env t)))))))"

definition pg_count :: "account_env \<Rightarrow> account_status option \<Rightarrow> account_table \<Rightarrow> error + u64" where
  "pg_count env status_filter t =
     (case ae_fault env SCount of
        Some e \<Rightarrow> Inl (Internal (''Failed to count accounts: '' @ e))
      | None \<Rightarrow> Inr (of_nat (length (filter (row_matches status_filter) t))))"

definition pg_delete :: "account_env \<Rightarrow> string \<Rightarrow> account_table \<Rightarrow> (error + bool) \<times> account_table" where
  "pg_delete env aid t =
     (case ae_fault env SDelete of
        Some e \<Rightarrow> (Inl (Internal (''Failed to delete account: '' @ e)), t)
      | None \<Rightarrow>
          (Inr (0 < length (filter (\<lambda>r. aw_id r = aid) t)), filter (\<lambda>r. aw_id r \<noteq> aid) t))"

definition pg_record_login :: "account_env \<Rightarrow> string \<Rightarrow> account_table \<Rightarrow> (error + unit) \<times> account_table" where
  "pg_record_login env aid t =
     (case ae_fault env SRecordLogin of
        Some e \<Rightarrow> (Inl (Internal (''Failed to record login: '' @ e)), t)
      | None \<Rightarrow>
          (let now = ae_timestamptz env (ae_now env) in
           (Inr (), map (\<lambda>r. if aw_id r = aid
              then r\<lparr>aw_last_login_at := Some now, aw_failed_login_count := 0, aw_updated_at := now\<rparr>
              else r) t)))"

definition pg_find_expired :: "account_env \<Rightarrow> u64 \<Rightarrow> account_table \<Rightarrow> error + account list" where
  "pg_find_expired env limit t =
     (case ae_fault env SFindExpired of
        Some e \<Rightarrow> Inl (Internal (''Failed to find expired accounts: '' @ e))
      | None \<Rightarrow>
          if sint limit < 0 then Inl (Internal (''Failed to find expired accounts: '' @ ae_violation env))
          else Inr (map (account_of_row env) (take (unat limit) (sort_key (the \<circ> aw_expires_at)
            (filter (\<lambda>r. (case aw_expires_at r of Some x \<Rightarrow> x < ae_timestamptz env (ae_now env) | None \<Rightarrow> False)
               \<and> aw_status r \<noteq> ''expired'') (ae_scan env t))))))"

text \<open>NULLS FIRST: rows without a login come before all others.\<close>

definition pg_find_inactive :: "account_env \<Rightarrow> datetime \<Rightarrow> u64 \<Rightarrow> account_table \<Rightarrow> error + account list" where
  "pg_find_inactive env cutoff limit t =
     (case ae_fault env SFindInactive of
        Some e \<Rightarrow> Inl (Internal (''Failed to find inactive accounts: '' @ e))
      | None \<Rightarrow>
          if sint limit < 0 then Inl (Internal (''Failed to find inactive accounts: '' @ ae_violation env))
          else (let rows = filter (\<lambda>r. aw_status r = ''active'' \<and> (case aw_last_login_at r of
                      None \<Rightarrow> True | Some x \<Rightarrow> x < ae_timestamptz env cutoff)) (ae_scan env t)
                in Inr (map (account_of_row env) (take (unat limit)
                     (filter (\<lambda>r. aw_last_login_at r = None) rows
                      @ sort_key (the \<circ> aw_last_login_at) (filter (\<lambda>r. aw_last_login_at r \<noteq> None) rows))))))"

record 's account_ops =
  ao_create :: "account \<Rightarrow> 's \<Rightarrow> (error + unit) \<times> 's"
  ao_get_by_id :: "string \<Rightarrow> 's \<Rightarrow> error + account option"
  ao_get_by_email :: "string \<Rightarrow> 's \<Rightarrow> error + account option"
  ao_get_by_username :: "string \<Rightarrow> 's \<Rightarrow> error + account option"
  ao_update :: "account \<Rightarrow> 's \<Rightarrow> (error + unit) \<times> 's"
  ao_update_status :: "string \<Rightarrow> account_status \<Rightarrow> string option \<Rightarrow> 's \<Rightarrow> (error + unit) \<times> 's"
  ao_list :: "account_status option \<Rightarrow> u64 \<Rightarrow> u64 \<Rightarrow> 's \<Rightarrow> error + account list"
  ao_count :: "account_status option \<Rightarrow> 's \<Rightarrow> error + u64"
  ao_delete :: "string \<Rightarrow> 's \<Rightarrow> (error + bool) \<times> 's"
  ao_record_login :: "string \<Rightarrow> 's \<Rightarrow> (error + unit) \<times> 's"

definition pg_account_ops :: "account_env \<Rightarrow> account_table account_ops" where
  "pg_account_ops env =
     \<lparr>ao_create = pg_create env, ao_get_by_id = pg_get_by_id env,
      ao_get_by_email = pg_get_by_email env, ao_get_by_username = pg_get_by_username env,
      ao_update = pg_update env, ao_update_status = pg_update_status env, ao_list = pg_list env,
      ao_count = pg_count env, ao_delete = pg_delete env, ao_record_login = pg_record_login env\<rparr>"

subsection \<open>The service\<close>

text \<open>
  \<^verbatim>\<open>trim().to_lowercase()\<close>; \<open>uni\<close> is the lower case of text that is not ASCII.
\<close>

definition trim_lowercase :: "(string \<Rightarrow> string) \<Rightarrow> string \<Rightarrow> string" where
  "trim_lowercase uni s = to_lowercase uni (trim s)"

definition is_valid_email :: "string \<Rightarrow> bool" where
  "is_valid_email email =
     (case split_char CHR ''@'' email of
        [local, domain] \<Rightarrow> local \<noteq> [] \<and> domain \<noteq> [] \<and> CHR ''.'' \<in> set domain
      | _ \<Rightarrow> False)"

record account_service =
  as_hasher :: password_hasher
  as_config :: accounts_config
  as_argon2 :: argon2_env
  as_unicode :: "string \<Rightarrow> string"

type_synonym ('a, 's) account_call = "(account_error + 'a) \<times> 's \<times> account_event list"

definition storage_error :: "error \<Rightarrow> account_error" where
  "storage_error e = Storage (error_display e)"

definition require_account :: "'s account_ops \<Rightarrow> string \<Rightarrow> 's \<Rightarrow> account_error + account" where
  "require_account ops aid s =
     (case ao_get_by_id ops aid s of
        Inl e \<Rightarrow> Inl (storage_error e)
      | Inr None \<Rightarrow> Inl (AccNotFound aid)
      | Inr (Some a) \<Rightarrow> Inr a)"

definition validate_transition :: "account \<Rightarrow> account_status \<Rightarrow> account_error + unit" where
  "validate_transition a target =
     (if \<not> can_transition_to (acc_status a) target then Inl (InvalidTransition (acc_status a) target)
      else Inr ())"

text \<open>The checks of \<^verbatim>\<open>create_account\<close> that read the table.\<close>

definition check_duplicates ::
  "account_service \<Rightarrow> 's account_ops \<Rightarrow> string \<Rightarrow> string option \<Rightarrow> 's \<Rightarrow> account_error + unit" where
  "check_duplicates svc ops email username s =
     (case ao_get_by_email ops email s of
        Inl e \<Rightarrow> Inl (storage_error e)
      | Inr (Some _) \<Rightarrow> Inl (AlreadyExists email)
      | Inr None \<Rightarrow>
          if acf_unique_usernames (as_config svc)
          then (case username of
                  None \<Rightarrow> Inr ()
                | Some name \<Rightarrow>
                    (case ao_get_by_username ops name s of
                       Inl e \<Rightarrow> Inl (storage_error e)
                     | Inr (Some _) \<Rightarrow> Inl (AlreadyExists (''username: '' @ name))
                     | Inr None \<Rightarrow> Inr ()))
          else Inr ())"

definition hash_optional ::
  "account_service \<Rightarrow> string \<Rightarrow> string option \<Rightarrow> account_error + string option" where
  "hash_optional svc salt password =
     (case password of
        None \<Rightarrow> Inr None
      | Some pw \<Rightarrow>
          (case password_hash (as_argon2 svc) salt (as_hasher svc) pw of
             Inl e \<Rightarrow> Inl (Validation (error_display e))
           | Inr h \<Rightarrow> Inr (Some h)))"

definition new_account ::
  "account_service \<Rightarrow> string \<Rightarrow> datetime \<Rightarrow> create_account_data \<Rightarrow> string \<Rightarrow> string option \<Rightarrow> account" where
  "new_account svc new_id now data email hash =
     (let require_verification = (case cd_require_email_verification data of
            Some b \<Rightarrow> b | None \<Rightarrow> acf_require_email_verification (as_config svc))
      in \<lparr>acc_id = new_id, acc_email = email, acc_username = cd_username data,
          acc_password_hash = hash,
          acc_status = (if require_verification then PendingVerification else Active),
          acc_roles = cd_roles data, acc_email_verified = (\<not> require_verification),
          acc_email_verified_at = (if \<not> require_verification then Some now else None),
          acc_last_login_at = None, acc_locked_at = None, acc_locked_reason = None,
          acc_disabled_at = None, acc_disabled_reason = None, acc_expires_at = cd_expires_at data,
          acc_password_changed_at = (if cd_password data \<noteq> None then Some now else None),
          acc_failed_login_count = 0, acc_metadata = cd_metadata data,
          acc_created_at = now, acc_updated_at = now\<rparr>)"

definition create_account ::
  "account_service \<Rightarrow> 's account_ops \<Rightarrow> string \<Rightarrow> string \<Rightarrow> datetime \<Rightarrow> create_account_data \<Rightarrow> 's \<Rightarrow>
     (account, 's) account_call" where
  "create_account svc ops salt new_id now data s =
     (let email = trim_lowercase (as_unicode svc) (cd_email data)
      in if \<not> is_valid_email email then (Inl (Validation (''invalid email format: '' @ email)), s, [])
         else case check_duplicates svc ops email (cd_username data) s of
                Inl e \<Rightarrow> (Inl e, s, [])
              | Inr _ \<Rightarrow>
         (case hash_optional svc salt (cd_password data) of
            Inl e \<Rightarrow> (Inl e, s, [])
          | Inr hash \<Rightarrow>
              (let account = new_account svc new_id now data email hash
               in case ao_create ops account s of
                    (Inl e, s') \<Rightarrow> (Inl (storage_error e), s', [])
                  | (Inr _, s') \<Rightarrow> (Inr account, s', [Created (acc_id account) (acc_email account)]))))"

definition get_account ::
  "'s account_ops \<Rightarrow> datetime \<Rightarrow> string \<Rightarrow> 's \<Rightarrow> (account option, 's) account_call" where
  "get_account ops now aid s =
     (case ao_get_by_id ops aid s of
        Inl e \<Rightarrow> (Inl (storage_error e), s, [])
      | Inr None \<Rightarrow> (Inr None, s, [])
      | Inr (Some acct) \<Rightarrow>
          if acc_status acct \<noteq> Expired
          then (case acc_expires_at acct of
                  Some expires_at \<Rightarrow>
                    if expires_at < now
                    then (Inr (Some (acct\<lparr>acc_status := Expired\<rparr>)),
                          snd (ao_update_status ops aid Expired None s), [EvExpired aid])
                    else (Inr (Some acct), s, [])
                | None \<Rightarrow> (Inr (Some acct), s, []))
          else (Inr (Some acct), s, []))"

definition get_account_by_email :: "'s account_ops \<Rightarrow> string \<Rightarrow> 's \<Rightarrow> account_error + account option" where
  "get_account_by_email ops email s =
     (case ao_get_by_email ops email s of Inl e \<Rightarrow> Inl (storage_error e) | Inr r \<Rightarrow> Inr r)"

text \<open>The change of the address in \<^verbatim>\<open>update_account\<close>.\<close>

definition update_email ::
  "account_service \<Rightarrow> 's account_ops \<Rightarrow> string option \<Rightarrow> account \<Rightarrow> 's \<Rightarrow> account_error + account" where
  "update_email svc ops new_email account s =
     (case new_email of
        None \<Rightarrow> Inr account
      | Some raw \<Rightarrow>
          (let email = trim_lowercase (as_unicode svc) raw
           in if \<not> is_valid_email email then Inl (Validation (''invalid email format: '' @ email))
              else case ao_get_by_email ops email s of
                     Inl e \<Rightarrow> Inl (storage_error e)
                   | Inr (Some existing) \<Rightarrow>
                       if acc_id existing \<noteq> acc_id account then Inl (AlreadyExists email)
                       else Inr (account\<lparr>acc_email := email\<rparr>)
                   | Inr None \<Rightarrow> Inr (account\<lparr>acc_email := email\<rparr>)))"

definition update_account ::
  "account_service \<Rightarrow> 's account_ops \<Rightarrow> datetime \<Rightarrow> string \<Rightarrow> update_account_data \<Rightarrow> 's \<Rightarrow>
     (account, 's) account_call" where
  "update_account svc ops now aid data s =
     (case ao_get_by_id ops aid s of
        Inl e \<Rightarrow> (Inl (storage_error e), s, [])
      | Inr None \<Rightarrow> (Inl (AccNotFound aid), s, [])
      | Inr (Some found) \<Rightarrow>
     (case update_email svc ops (ud_email data) found s of
        Inl e \<Rightarrow> (Inl e, s, [])
      | Inr account \<Rightarrow>
          (let account = (case ud_username data of
                 Some username \<Rightarrow> account\<lparr>acc_username := Some username\<rparr> | None \<Rightarrow> account);
               (account, events) = (case ud_roles data of
                 Some roles \<Rightarrow> (account\<lparr>acc_roles := roles\<rparr>,
                   if acc_roles account \<noteq> roles then [RolesUpdated aid roles] else [])
               | None \<Rightarrow> (account, []));
               account = (case ud_expires_at data of
                 Some expires_at \<Rightarrow> account\<lparr>acc_expires_at := expires_at\<rparr> | None \<Rightarrow> account);
               account = (case ud_metadata data of
                 Some metadata \<Rightarrow> account\<lparr>acc_metadata := Some metadata\<rparr> | None \<Rightarrow> account);
               account = account\<lparr>acc_updated_at := now\<rparr>
           in case ao_update ops account s of
                (Inl e, s') \<Rightarrow> (Inl (storage_error e), s', events)
              | (Inr _, s') \<Rightarrow> (Inr account, s', events @ [ProfileUpdated aid]))))"

text \<open>The common part of the status operations.\<close>

definition change_status ::
  "'s account_ops \<Rightarrow> string \<Rightarrow> account_status \<Rightarrow> string option \<Rightarrow> account_event \<Rightarrow> 's \<Rightarrow> (unit, 's) account_call" where
  "change_status ops aid target reason event s =
     (case require_account ops aid s of
        Inl e \<Rightarrow> (Inl e, s, [])
      | Inr account \<Rightarrow>
     (case validate_transition account target of
        Inl e \<Rightarrow> (Inl e, s, [])
      | Inr _ \<Rightarrow>
          (case ao_update_status ops aid target reason s of
             (Inl e, s') \<Rightarrow> (Inl (storage_error e), s', [])
           | (Inr _, s') \<Rightarrow> (Inr (), s', [event]))))"

definition disable_account :: "'s account_ops \<Rightarrow> string \<Rightarrow> string \<Rightarrow> 's \<Rightarrow> (unit, 's) account_call" where
  "disable_account ops aid reason s = change_status ops aid Disabled (Some reason) (EvDisabled aid reason) s"

definition enable_account :: "'s account_ops \<Rightarrow> string \<Rightarrow> 's \<Rightarrow> (unit, 's) account_call" where
  "enable_account ops aid s = change_status ops aid Active None (Activated aid) s"

definition lock_account :: "'s account_ops \<Rightarrow> string \<Rightarrow> string \<Rightarrow> 's \<Rightarrow> (unit, 's) account_call" where
  "lock_account ops aid reason s = change_status ops aid Locked (Some reason) (EvLocked aid reason) s"

definition unlock_account :: "'s account_ops \<Rightarrow> string \<Rightarrow> 's \<Rightarrow> (unit, 's) account_call" where
  "unlock_account ops aid s = change_status ops aid Active None (Unlocked aid) s"

definition suspend_account :: "'s account_ops \<Rightarrow> string \<Rightarrow> string \<Rightarrow> 's \<Rightarrow> (unit, 's) account_call" where
  "suspend_account ops aid reason s = change_status ops aid Suspended (Some reason) (EvSuspended aid reason) s"

text \<open>\<open>now\<close> and \<open>now'\<close> are the two readings of the clock in the following operations.\<close>

definition verify_email ::
  "'s account_ops \<Rightarrow> datetime \<Rightarrow> datetime \<Rightarrow> string \<Rightarrow> 's \<Rightarrow> (unit, 's) account_call" where
  "verify_email ops now now' aid s =
     (case require_account ops aid s of
        Inl e \<Rightarrow> (Inl e, s, [])
      | Inr account \<Rightarrow>
          if acc_email_verified account then (Inr (), s, [])
          else (let account = account\<lparr>acc_email_verified := True, acc_email_verified_at := Some now,
                      acc_updated_at := now'\<rparr>;
                    account = (if acc_status account = PendingVerification
                      then account\<lparr>acc_status := Active\<rparr> else account)
                in case ao_update ops account s of
                     (Inl e, s') \<Rightarrow> (Inl (storage_error e), s', [])
                   | (Inr _, s') \<Rightarrow>
                       (Inr (), s', EmailVerified aid #
                          (if acc_status account = Active then [Activated aid] else []))))"

definition change_password ::
  "account_service \<Rightarrow> 's account_ops \<Rightarrow> string \<Rightarrow> datetime \<Rightarrow> datetime \<Rightarrow> string \<Rightarrow> string \<Rightarrow> 's \<Rightarrow>
     (unit, 's) account_call" where
  "change_password svc ops salt now now' aid new_password s =
     (case require_account ops aid s of
        Inl e \<Rightarrow> (Inl e, s, [])
      | Inr account \<Rightarrow>
     (case password_hash (as_argon2 svc) salt (as_hasher svc) new_password of
        Inl e \<Rightarrow> (Inl (Validation (error_display e)), s, [])
      | Inr hash \<Rightarrow>
          (case ao_update ops (account\<lparr>acc_password_hash := Some hash,
                  acc_password_changed_at := Some now, acc_updated_at := now'\<rparr>) s of
             (Inl e, s') \<Rightarrow> (Inl (storage_error e), s', [])
           | (Inr _, s') \<Rightarrow> (Inr (), s', [PasswordChanged aid]))))"

definition delete_account :: "'s account_ops \<Rightarrow> string \<Rightarrow> 's \<Rightarrow> (unit, 's) account_call" where
  "delete_account ops aid s =
     (case ao_delete ops aid s of
        (Inl e, s') \<Rightarrow> (Inl (storage_error e), s', [])
      | (Inr deleted, s') \<Rightarrow>
          if \<not> deleted then (Inl (AccNotFound aid), s', []) else (Inr (), s', [Deleted aid]))"

definition list_accounts ::
  "'s account_ops \<Rightarrow> account_status option \<Rightarrow> u64 \<Rightarrow> u64 \<Rightarrow> 's \<Rightarrow> account_error + account list" where
  "list_accounts ops status limit offset s =
     (case ao_list ops status limit offset s of Inl e \<Rightarrow> Inl (storage_error e) | Inr r \<Rightarrow> Inr r)"

definition count_accounts :: "'s account_ops \<Rightarrow> account_status option \<Rightarrow> 's \<Rightarrow> account_error + u64" where
  "count_accounts ops status s =
     (case ao_count ops status s of Inl e \<Rightarrow> Inl (storage_error e) | Inr r \<Rightarrow> Inr r)"

definition inactive_reason :: "account \<Rightarrow> string" where
  "inactive_reason account =
     (case acc_status account of
        PendingVerification \<Rightarrow> ''email not verified''
      | Disabled \<Rightarrow> (case acc_disabled_reason account of
          Some r \<Rightarrow> r | None \<Rightarrow> ''administratively disabled'')
      | Locked \<Rightarrow> (case acc_locked_reason account of Some r \<Rightarrow> r | None \<Rightarrow> ''account locked'')
      | Expired \<Rightarrow> ''account expired''
      | Suspended \<Rightarrow> ''account suspended''
      | _ \<Rightarrow> ''account not active'')"

definition authenticate ::
  "account_service \<Rightarrow> 's account_ops \<Rightarrow> string \<Rightarrow> string \<Rightarrow> 's \<Rightarrow> (account_error + account) \<times> 's" where
  "authenticate svc ops email password s =
     (let email = trim_lowercase (as_unicode svc) email
      in case ao_get_by_email ops email s of
           Inl e \<Rightarrow> (Inl (storage_error e), s)
         | Inr None \<Rightarrow> (Inl (AccNotFound email), s)
         | Inr (Some account) \<Rightarrow>
             if acc_status account \<noteq> Active
             then (Inl (AccountInactive (acc_status account) (inactive_reason account)), s)
             else (case acc_password_hash account of
                     None \<Rightarrow> (Inl InvalidCredentials, s)
                   | Some hash \<Rightarrow>
                       (case password_verify (as_argon2 svc) password hash of
                          Inl e \<Rightarrow> (Inl (storage_error e), s)
                        | Inr valid \<Rightarrow>
                            if \<not> valid then (Inl InvalidCredentials, s)
                            else (Inr account, snd (ao_record_login ops (acc_id account) s)))))"

subsection \<open>The audit bridge\<close>

definition json_id :: "string \<Rightarrow> string \<times> json" where
  "json_id account_id = (''account_id'', JString account_id)"

fun audit_of_event :: "account_event \<Rightarrow> audit_event_kind \<times> audit_severity \<times> json" where
  "audit_of_event (Created i email) =
     (AccountCreated, Informational, JObject [json_id i, (''email'', JString email)])"
| "audit_of_event (Activated i) = (AccountEnabled, Informational, JObject [json_id i])"
| "audit_of_event (EvDisabled i reason) =
     (AccountDisabled, Warning, JObject [json_id i, (''reason'', JString reason)])"
| "audit_of_event (EvLocked i reason) =
     (KindAccountLocked, Warning, JObject [json_id i, (''reason'', JString reason)])"
| "audit_of_event (Unlocked i) = (AccountUnlocked, Notice, JObject [json_id i])"
| "audit_of_event (EvSuspended i reason) =
     (AccountDisabled, Warning,
      JObject [json_id i, (''reason'', JString reason), (''action'', JString ''suspended'')])"
| "audit_of_event (EvExpired i) = (AccountExpired, Warning, JObject [json_id i])"
| "audit_of_event (Deleted i) = (AccountDeleted, Warning, JObject [json_id i])"
| "audit_of_event (EmailVerified i) =
     (AccountUpdated, Informational, JObject [json_id i, (''action'', JString ''email_verified'')])"
| "audit_of_event (PasswordChanged i) = (AuthPasswordChanged, Notice, JObject [json_id i])"
| "audit_of_event (RolesUpdated i roles) =
     (AccountUpdated, Notice,
      JObject [json_id i, (''action'', JString ''roles_updated''), (''roles'', roles_to_json roles)])"
| "audit_of_event (ProfileUpdated i) =
     (AccountUpdated, Informational, JObject [json_id i, (''action'', JString ''profile_updated'')])"

subsection \<open>HTTP handlers\<close>

text \<open>A handler returns the error or the status code and the body.\<close>

definition respond :: "u16 \<Rightarrow> account_error + 'a \<Rightarrow> error + u16 \<times> 'a" where
  "respond status r =
     (case r of Inl e \<Rightarrow> Inl (error_from_account_error e) | Inr x \<Rightarrow> Inr (status, x))"

definition handle_create_account ::
  "account_service \<Rightarrow> 's account_ops \<Rightarrow> string \<Rightarrow> string \<Rightarrow> datetime \<Rightarrow> create_account_data \<Rightarrow> 's \<Rightarrow>
     (error + u16 \<times> account) \<times> 's \<times> account_event list" where
  "handle_create_account svc ops salt new_id now data s =
     (case create_account svc ops salt new_id now data s of (r, s', evs) \<Rightarrow> (respond 201 r, s', evs))"

definition handle_get_account ::
  "'s account_ops \<Rightarrow> datetime \<Rightarrow> string \<Rightarrow> 's \<Rightarrow> (error + u16 \<times> account) \<times> 's \<times> account_event list" where
  "handle_get_account ops now aid s =
     (case get_account ops now aid s of
        (Inl e, s', evs) \<Rightarrow> (Inl (error_from_account_error e), s', evs)
      | (Inr None, s', evs) \<Rightarrow> (Inl (error_from_account_error (AccNotFound aid)), s', evs)
      | (Inr (Some a), s', evs) \<Rightarrow> (Inr (200, a), s', evs))"

definition handle_update_account ::
  "account_service \<Rightarrow> 's account_ops \<Rightarrow> datetime \<Rightarrow> string \<Rightarrow> update_account_data \<Rightarrow> 's \<Rightarrow>
     (error + u16 \<times> account) \<times> 's \<times> account_event list" where
  "handle_update_account svc ops now aid data s =
     (case update_account svc ops now aid data s of (r, s', evs) \<Rightarrow> (respond 200 r, s', evs))"

definition no_content :: "(unit, 's) account_call \<Rightarrow> (error + u16 \<times> unit) \<times> 's \<times> account_event list" where
  "no_content c = (case c of (r, s', evs) \<Rightarrow> (respond 204 r, s', evs))"

definition handle_delete_account where
  "handle_delete_account ops aid s = no_content (delete_account ops aid s)"

definition handle_disable_account where
  "handle_disable_account ops aid reason s = no_content (disable_account ops aid reason s)"

definition handle_enable_account where
  "handle_enable_account ops aid s = no_content (enable_account ops aid s)"

definition handle_lock_account where
  "handle_lock_account ops aid reason s = no_content (lock_account ops aid reason s)"

definition handle_unlock_account where
  "handle_unlock_account ops aid s = no_content (unlock_account ops aid s)"

definition handle_verify_email where
  "handle_verify_email ops now now' aid s = no_content (verify_email ops now now' aid s)"

definition handle_change_password where
  "handle_change_password svc ops salt now now' aid pw s =
     no_content (change_password svc ops salt now now' aid pw s)"

record account_list_response =
  al_accounts :: "account list"
  al_total :: u64
  al_limit :: u64
  al_offset :: u64

text \<open>A status that does not parse is dropped, and the list is then not filtered.\<close>

definition handle_list_accounts ::
  "'s account_ops \<Rightarrow> string option \<Rightarrow> u64 option \<Rightarrow> u64 option \<Rightarrow> 's \<Rightarrow> error + u16 \<times> account_list_response" where
  "handle_list_accounts ops q_status q_limit q_offset s =
     (let limit = min (case q_limit of Some n \<Rightarrow> n | None \<Rightarrow> 50) 200;
          offset = (case q_offset of Some n \<Rightarrow> n | None \<Rightarrow> 0);
          status_filter = (case q_status of
              None \<Rightarrow> None
            | Some t \<Rightarrow> (case account_status_from_str t of Inr st \<Rightarrow> Some st | Inl _ \<Rightarrow> None))
      in case list_accounts ops status_filter limit offset s of
           Inl e \<Rightarrow> Inl (error_from_account_error e)
         | Inr accounts \<Rightarrow>
             (case count_accounts ops status_filter s of
                Inl e \<Rightarrow> Inl (error_from_account_error e)
              | Inr n \<Rightarrow>
                  Inr (200, \<lparr>al_accounts = accounts, al_total = n, al_limit = limit,
                             al_offset = offset\<rparr>)))"

subsection \<open>Operations on the list of accounts\<close>

definition account_column ::
  "(datetime \<Rightarrow> datetime) \<Rightarrow> (json \<Rightarrow> json) \<Rightarrow> account \<Rightarrow> account" where
  "account_column ts js a =
     a\<lparr>acc_email_verified_at := map_option ts (acc_email_verified_at a),
       acc_last_login_at := map_option ts (acc_last_login_at a),
       acc_locked_at := map_option ts (acc_locked_at a),
       acc_disabled_at := map_option ts (acc_disabled_at a),
       acc_expires_at := map_option ts (acc_expires_at a),
       acc_password_changed_at := map_option ts (acc_password_changed_at a),
       acc_metadata := map_option js (acc_metadata a),
       acc_created_at := ts (acc_created_at a), acc_updated_at := ts (acc_updated_at a)\<rparr>"

lemma account_column_fields [simp]:
  "acc_id (account_column ts js a) = acc_id a" "acc_email (account_column ts js a) = acc_email a"
  "acc_username (account_column ts js a) = acc_username a"
  "acc_password_hash (account_column ts js a) = acc_password_hash a"
  "acc_status (account_column ts js a) = acc_status a" "acc_roles (account_column ts js a) = acc_roles a"
  "acc_expires_at (account_column ts js a) = map_option ts (acc_expires_at a)"
  by (simp_all add: account_column_def)

definition set_status :: "datetime \<Rightarrow> account_status \<Rightarrow> string option \<Rightarrow> account \<Rightarrow> account" where
  "set_status now status reason a =
     (case status of
        Disabled \<Rightarrow> a\<lparr>acc_status := status, acc_disabled_at := Some now, acc_disabled_reason := reason,
            acc_updated_at := now\<rparr>
      | Locked \<Rightarrow> a\<lparr>acc_status := status, acc_locked_at := Some now, acc_locked_reason := reason,
            acc_updated_at := now\<rparr>
      | Active \<Rightarrow> a\<lparr>acc_status := status, acc_locked_at := None, acc_locked_reason := None,
            acc_disabled_at := None, acc_disabled_reason := None, acc_updated_at := now\<rparr>
      | _ \<Rightarrow> a\<lparr>acc_status := status, acc_updated_at := now\<rparr>)"

lemma set_status_fields [simp]:
  "acc_id (set_status now st reason a) = acc_id a" "acc_email (set_status now st reason a) = acc_email a"
  "acc_status (set_status now st reason a) = st"
  "acc_password_hash (set_status now st reason a) = acc_password_hash a"
  "acc_expires_at (set_status now st reason a) = acc_expires_at a"
  by (cases st; simp add: set_status_def)+

definition logged_in :: "datetime \<Rightarrow> account \<Rightarrow> account" where
  "logged_in now a = a\<lparr>acc_last_login_at := Some now, acc_failed_login_count := 0, acc_updated_at := now\<rparr>"

definition on_account :: "string \<Rightarrow> (account \<Rightarrow> account) \<Rightarrow> account list \<Rightarrow> account list" where
  "on_account aid f as = map (\<lambda>x. if acc_id x = aid then f x else x) as"

definition by_key :: "(account \<Rightarrow> 'k) \<Rightarrow> 'k \<Rightarrow> account list \<Rightarrow> account option" where
  "by_key f k as = find (\<lambda>a. f a = k) as"

lemma by_key_Some: "by_key f k as = Some a \<Longrightarrow> a \<in> set as \<and> f a = k"
  by (auto simp: by_key_def find_Some_iff)

lemma by_key_None: "by_key f k as = None \<longleftrightarrow> k \<notin> f ` set as"
  by (auto simp: by_key_def find_None_iff)

lemma by_key_unique: "distinct (map f as) \<Longrightarrow> a \<in> set as \<Longrightarrow> by_key f (f a) as = Some a"
  unfolding by_key_def by (induction as) (auto simp: image_iff)

subsection \<open>Requests and what they may do\<close>

datatype account_request =
  ReqCreate string string datetime create_account_data
| ReqGet datetime string
| ReqUpdate datetime string update_account_data
| ReqDisable string string
| ReqEnable string
| ReqLock string string
| ReqUnlock string
| ReqSuspend string string
| ReqVerifyEmail datetime datetime string
| ReqChangePassword string datetime datetime string string
| ReqDelete string
| ReqLogin string string

fun serve :: "account_service \<Rightarrow> 's account_ops \<Rightarrow> account_request \<Rightarrow> 's \<Rightarrow> 's" where
  "serve svc ops (ReqCreate salt new_id now data) s = fst (snd (create_account svc ops salt new_id now data s))"
| "serve svc ops (ReqGet now i) s = fst (snd (get_account ops now i s))"
| "serve svc ops (ReqUpdate now i data) s = fst (snd (update_account svc ops now i data s))"
| "serve svc ops (ReqDisable i reason) s = fst (snd (disable_account ops i reason s))"
| "serve svc ops (ReqEnable i) s = fst (snd (enable_account ops i s))"
| "serve svc ops (ReqLock i reason) s = fst (snd (lock_account ops i reason s))"
| "serve svc ops (ReqUnlock i) s = fst (snd (unlock_account ops i s))"
| "serve svc ops (ReqSuspend i reason) s = fst (snd (suspend_account ops i reason s))"
| "serve svc ops (ReqVerifyEmail now now' i) s = fst (snd (verify_email ops now now' i s))"
| "serve svc ops (ReqChangePassword salt now now' i pw) s =
     fst (snd (change_password svc ops salt now now' i pw s))"
| "serve svc ops (ReqDelete i) s = fst (snd (delete_account ops i s))"
| "serve svc ops (ReqLogin email pw) s = snd (authenticate svc ops email pw s)"

fun status_request :: "account_request \<Rightarrow> (string \<times> account_status \<times> string option) option" where
  "status_request (ReqDisable i reason) = Some (i, Disabled, Some reason)"
| "status_request (ReqEnable i) = Some (i, Active, None)"
| "status_request (ReqLock i reason) = Some (i, Locked, Some reason)"
| "status_request (ReqUnlock i) = Some (i, Active, None)"
| "status_request (ReqSuspend i reason) = Some (i, Suspended, Some reason)"
| "status_request _ = None"

text \<open>
  The abstract machine of the service: what a request may do to the list of accounts. Times that
  the storage writes are left open.
\<close>

inductive account_evolves :: "account_request \<Rightarrow> account list \<Rightarrow> account list \<Rightarrow> bool" where
  ev_unchanged: "account_evolves req as as"
| ev_created: "\<lbrakk>acc_status b = PendingVerification \<or> acc_status b = Active; is_valid_email (acc_email b);
     acc_id b \<notin> acc_id ` set as; acc_email b \<notin> acc_email ` set as\<rbrakk> \<Longrightarrow>
     account_evolves (ReqCreate salt (acc_id b) now data) as (as @ [b])"
| ev_expired: "\<lbrakk>a \<in> set as; acc_expires_at a = Some e; e < now\<rbrakk> \<Longrightarrow>
     account_evolves (ReqGet now (acc_id a)) as (on_account (acc_id a) (set_status t Expired None) as)"
| ev_status: "\<lbrakk>a \<in> set as; status_request req = Some (acc_id a, st, reason);
     can_transition_to (acc_status a) st\<rbrakk> \<Longrightarrow>
     account_evolves req as (on_account (acc_id a) (set_status t st reason) as)"
| ev_updated: "\<lbrakk>a \<in> set as; acc_id b = acc_id a; acc_status b = acc_status a;
     acc_password_hash b = acc_password_hash a;
     acc_email b = acc_email a \<or> is_valid_email (acc_email b) \<and> acc_email b \<notin> acc_email ` (set as - {a})\<rbrakk> \<Longrightarrow>
     account_evolves (ReqUpdate now (acc_id a) data) as (on_account (acc_id a) (\<lambda>_. b) as)"
| ev_verified: "\<lbrakk>a \<in> set as; acc_id b = acc_id a; acc_email b = acc_email a;
     acc_password_hash b = acc_password_hash a; \<not> acc_email_verified a; acc_email_verified b;
     acc_status b = (if acc_status a = PendingVerification then Active else acc_status a)\<rbrakk> \<Longrightarrow>
     account_evolves (ReqVerifyEmail now now' (acc_id a)) as (on_account (acc_id a) (\<lambda>_. b) as)"
| ev_password: "\<lbrakk>a \<in> set as; acc_id b = acc_id a; acc_email b = acc_email a; acc_status b = acc_status a\<rbrakk> \<Longrightarrow>
     account_evolves (ReqChangePassword salt now now' (acc_id a) pw) as (on_account (acc_id a) (\<lambda>_. b) as)"
| ev_removed: "account_evolves (ReqDelete i) as (filter (\<lambda>a. acc_id a \<noteq> i) as)"
| ev_login: "\<lbrakk>a \<in> set as; acc_status a = Active\<rbrakk> \<Longrightarrow>
     account_evolves (ReqLogin email pw) as (on_account (acc_id a) (logged_in t) as)"

subsection \<open>The storage interface\<close>

locale account_store =
  fixes ops :: "'s account_ops" and accounts :: "'s \<Rightarrow> account list" and invar :: "'s \<Rightarrow> bool"
    and valid_id :: "string \<Rightarrow> bool" and ts :: "datetime \<Rightarrow> datetime" and js :: "json \<Rightarrow> json"
  assumes create_ok: "\<lbrakk>invar s; valid_id (acc_id a); ao_create ops a s = (Inr u, s')\<rbrakk> \<Longrightarrow>
      invar s' \<and> accounts s' = accounts s @ [account_column ts js a]"
    and create_err: "ao_create ops a s = (Inl e, s') \<Longrightarrow> s' = s"
    and by_id: "\<lbrakk>invar s; ao_get_by_id ops i s = Inr r\<rbrakk> \<Longrightarrow> r = by_key acc_id i (accounts s)"
    and by_email: "\<lbrakk>invar s; ao_get_by_email ops m s = Inr r\<rbrakk> \<Longrightarrow> r = by_key acc_email m (accounts s)"
    and by_username: "\<lbrakk>invar s; ao_get_by_username ops n s = Inr r\<rbrakk> \<Longrightarrow>
      (case r of None \<Rightarrow> Some n \<notin> acc_username ` set (accounts s)
       | Some a \<Rightarrow> a \<in> set (accounts s) \<and> acc_username a = Some n)"
    and update_ok: "\<lbrakk>invar s; valid_id (acc_id a); ao_update ops a s = (Inr u, s')\<rbrakk> \<Longrightarrow>
      invar s' \<and> (\<exists>now. accounts s' = on_account (acc_id a) (\<lambda>x. (account_column ts js a)
        \<lparr>acc_created_at := acc_created_at x, acc_updated_at := now\<rparr>) (accounts s))"
    and update_err: "ao_update ops a s = (Inl e, s') \<Longrightarrow> s' = s"
    and update_status_ok: "\<lbrakk>invar s; ao_update_status ops i st reason s = (Inr u, s')\<rbrakk> \<Longrightarrow>
      invar s' \<and> (\<exists>now. accounts s' = on_account i (set_status now st reason) (accounts s))"
    and update_status_err: "ao_update_status ops i st reason s = (Inl e, s') \<Longrightarrow> s' = s"
    and delete_ok: "\<lbrakk>invar s; ao_delete ops i s = (Inr b, s')\<rbrakk> \<Longrightarrow>
      invar s' \<and> b = (i \<in> acc_id ` set (accounts s)) \<and>
      accounts s' = filter (\<lambda>a. acc_id a \<noteq> i) (accounts s)"
    and delete_err: "ao_delete ops i s = (Inl e, s') \<Longrightarrow> s' = s"
    and login_ok: "\<lbrakk>invar s; ao_record_login ops i s = (Inr u, s')\<rbrakk> \<Longrightarrow>
      invar s' \<and> (\<exists>now. accounts s' = on_account i (logged_in now) (accounts s))"
    and login_err: "ao_record_login ops i s = (Inl e, s') \<Longrightarrow> s' = s"
    and count_ok: "\<lbrakk>invar s; ao_count ops f s = Inr cnt\<rbrakk> \<Longrightarrow>
      cnt = of_nat (length (filter (\<lambda>a. f = None \<or> f = Some (acc_status a)) (accounts s)))"
    and unique: "invar s \<Longrightarrow> distinct (map acc_id (accounts s)) \<and> distinct (map acc_email (accounts s))"
    and ids_valid: "\<lbrakk>invar s; a \<in> set (accounts s)\<rbrakk> \<Longrightarrow> valid_id (acc_id a)"
begin

lemma found:
  assumes "invar s" and "require_account ops i s = Inr a"
  shows "a \<in> set (accounts s) \<and> acc_id a = i \<and> valid_id i"
proof -
  from assms have "ao_get_by_id ops i s = Inr (Some a)"
    by (auto simp: require_account_def split: sum.splits option.splits)
  then have "by_key acc_id i (accounts s) = Some a" using by_id [OF assms(1)] by metis
  then show ?thesis using by_key_Some ids_valid [OF assms(1)] by metis
qed

lemma update_effect:
  assumes "invar s" and "a \<in> set (accounts s)" and "acc_id b = acc_id a"
    and "ao_update ops b s = (r, s')"
  shows "invar s' \<and> (s' = s \<or> (\<exists>t. accounts s' = on_account (acc_id a)
    (\<lambda>_. (account_column ts js b)\<lparr>acc_created_at := acc_created_at a, acc_updated_at := t\<rparr>) (accounts s)))"
proof (cases r)
  case (Inl e)
  then show ?thesis using assms(1,4) update_err by blast
next
  case (Inr u)
  have same: "x = a" if "x \<in> set (accounts s)" "acc_id x = acc_id a" for x
    using unique [OF assms(1)] assms(2) that by (auto simp: distinct_map dest: inj_onD)
  have "valid_id (acc_id b)" using ids_valid [OF assms(1,2)] assms(3) by simp
  then have "invar s' \<and> (\<exists>t. accounts s' = on_account (acc_id b) (\<lambda>x. (account_column ts js b)
      \<lparr>acc_created_at := acc_created_at x, acc_updated_at := t\<rparr>) (accounts s))"
    using update_ok [OF assms(1)] assms(4) Inr by blast
  moreover have "on_account (acc_id a) (\<lambda>x. c\<lparr>acc_created_at := acc_created_at x, acc_updated_at := t\<rparr>) (accounts s) =
      on_account (acc_id a) (\<lambda>_. c\<lparr>acc_created_at := acc_created_at a, acc_updated_at := t\<rparr>) (accounts s)" for c t
    using same by (auto simp: on_account_def)
  ultimately show ?thesis using assms(3) by metis
qed

lemma refines_change_status:
  assumes "invar s" and "status_request req = Some (i, st, reason)"
    and "change_status ops i st reason ev s = (r, s', evs)"
  shows "invar s' \<and> account_evolves req (accounts s) (accounts s')"
proof (cases "s' = s")
  case True
  then show ?thesis using assms(1) ev_unchanged by simp
next
  case False
  then obtain a u where a: "require_account ops i s = Inr a" "can_transition_to (acc_status a) st"
      and upd: "ao_update_status ops i st reason s = (Inr u, s')"
    using assms(3) update_status_err [of i st reason s]
    by (auto simp: change_status_def validate_transition_def split: sum.splits prod.splits if_splits)
  from found [OF assms(1) a(1)] have mem: "a \<in> set (accounts s)" and i: "i = acc_id a" by auto
  from update_status_ok [OF assms(1) upd] obtain t where
    "invar s'" "accounts s' = on_account i (set_status t st reason) (accounts s)" by blast
  with ev_status [OF mem _ a(2), of req reason t] assms(2) i show ?thesis by simp
qed

lemma refines_create:
  assumes "invar s" and "valid_id new_id"
    and "create_account svc ops salt new_id now data s = (r, s', evs)"
  shows "invar s' \<and> account_evolves (ReqCreate salt new_id now data) (accounts s) (accounts s')"
proof (cases "s' = s")
  case True
  then show ?thesis using assms(1) ev_unchanged by simp
next
  case False
  define m where "m = trim_lowercase (as_unicode svc) (cd_email data)"
  from False obtain h u where valid: "is_valid_email m"
      and cr: "ao_create ops (new_account svc new_id now data m h) s = (Inr u, s')"
    using assms(3) create_err [of _ s]
    by (auto simp: create_account_def m_def Let_def split: sum.splits prod.splits if_splits)
  let ?b = "account_column ts js (new_account svc new_id now data m h)"
  have fields: "acc_id ?b = new_id" "acc_email ?b = m"
      "acc_status ?b = PendingVerification \<or> acc_status ?b = Active"
    by (simp_all add: new_account_def Let_def)
  from create_ok [OF assms(1) _ cr] assms(2) fields(1)
  have inv: "invar s'" and acc: "accounts s' = accounts s @ [?b]" by simp_all
  have "acc_id ?b \<notin> acc_id ` set (accounts s)" "acc_email ?b \<notin> acc_email ` set (accounts s)"
    using unique [OF inv] by (simp_all add: acc)
  with ev_created [of ?b "accounts s" salt now data] fields valid inv acc show ?thesis by simp
qed

lemma refines_get:
  assumes "invar s" and "get_account ops now i s = (r, s', evs)"
  shows "invar s' \<and> account_evolves (ReqGet now i) (accounts s) (accounts s')"
proof (cases "s' = s")
  case True
  then show ?thesis using assms(1) ev_unchanged by simp
next
  case False
  then obtain a e r' where a: "ao_get_by_id ops i s = Inr (Some a)" "acc_expires_at a = Some e" "e < now"
      and upd: "ao_update_status ops i Expired None s = (r', s')"
    using assms(2) by (auto simp: get_account_def split: sum.splits option.splits if_splits)
      (metis prod.collapse)
  from found [OF assms(1), of i a] a(1) have mem: "a \<in> set (accounts s)" and i: "i = acc_id a"
    by (auto simp: require_account_def)
  obtain u where "r' = Inr u" using update_status_err upd False by (cases r') auto
  with update_status_ok [OF assms(1)] upd obtain t where
    "invar s'" "accounts s' = on_account i (set_status t Expired None) (accounts s)" by blast
  with ev_expired [OF mem a(2,3), of t] i show ?thesis by simp
qed

lemma refines_delete:
  assumes "invar s" and "delete_account ops i s = (r, s', evs)"
  shows "invar s' \<and> account_evolves (ReqDelete i) (accounts s) (accounts s')"
proof -
  obtain d where d: "ao_delete ops i s = (d, s')"
    using assms(2) by (auto simp: delete_account_def split: sum.splits prod.splits if_splits)
  show ?thesis
  proof (cases d)
    case (Inl e)
    with d delete_err assms(1) ev_unchanged show ?thesis by blast
  next
    case (Inr b)
    with d delete_ok [OF assms(1)] ev_removed [of i "accounts s"] show ?thesis by metis
  qed
qed

lemma refines_login:
  assumes "invar s" and "authenticate svc ops m pw s = (r, s')"
  shows "invar s' \<and> account_evolves (ReqLogin m pw) (accounts s) (accounts s')"
proof (cases "s' = s")
  case True
  then show ?thesis using assms(1) ev_unchanged by simp
next
  case False
  then obtain a r' m' where a: "ao_get_by_email ops m' s = Inr (Some a)" "acc_status a = Active"
      and upd: "ao_record_login ops (acc_id a) s = (r', s')"
    using assms(2) by (auto simp: authenticate_def Let_def split: sum.splits option.splits if_splits)
      (metis prod.collapse)
  have mem: "a \<in> set (accounts s)" using by_email [OF assms(1) a(1)] by_key_Some by metis
  obtain u where "r' = Inr u" using login_err upd False by (cases r') auto
  with login_ok [OF assms(1)] upd obtain t where
    "invar s'" "accounts s' = on_account (acc_id a) (logged_in t) (accounts s)" by blast
  with ev_login [OF mem a(2)] show ?thesis by simp
qed

lemma refines_verify:
  assumes "invar s" and "verify_email ops now now' i s = (r, s', evs)"
  shows "invar s' \<and> account_evolves (ReqVerifyEmail now now' i) (accounts s) (accounts s')"
proof (cases "s' = s")
  case True
  then show ?thesis using assms(1) ev_unchanged by simp
next
  case False
  then obtain a b r' where a: "require_account ops i s = Inr a" "\<not> acc_email_verified a"
      and b: "b = (if acc_status a = PendingVerification then a\<lparr>acc_email_verified := True,
          acc_email_verified_at := Some now, acc_updated_at := now', acc_status := Active\<rparr>
        else a\<lparr>acc_email_verified := True, acc_email_verified_at := Some now, acc_updated_at := now'\<rparr>)"
      and upd: "ao_update ops b s = (r', s')"
    using assms(2) by (auto simp: verify_email_def Let_def split: sum.splits prod.splits if_splits)
  from found [OF assms(1) a(1)] have mem: "a \<in> set (accounts s)" and i: "i = acc_id a" by auto
  have bf: "acc_id b = acc_id a" "acc_email b = acc_email a" "acc_password_hash b = acc_password_hash a"
      "acc_email_verified b" "acc_status b = (if acc_status a = PendingVerification then Active else acc_status a)"
    by (simp_all add: b)
  from update_effect [OF assms(1) mem bf(1) upd] False obtain t where "invar s'" and
    "accounts s' = on_account (acc_id a) (\<lambda>_. (account_column ts js b)
       \<lparr>acc_created_at := acc_created_at a, acc_updated_at := t\<rparr>) (accounts s)" by blast
  with ev_verified [OF mem, of "(account_column ts js b)\<lparr>acc_created_at := acc_created_at a, acc_updated_at := t\<rparr>"]
    bf a(2) i show ?thesis by (simp add: account_column_def)
qed

lemma refines_password:
  assumes "invar s" and "change_password svc ops salt now now' i pw s = (r, s', evs)"
  shows "invar s' \<and> account_evolves (ReqChangePassword salt now now' i pw) (accounts s) (accounts s')"
proof (cases "s' = s")
  case True
  then show ?thesis using assms(1) ev_unchanged by simp
next
  case False
  then obtain a h r' where a: "require_account ops i s = Inr a"
      and upd: "ao_update ops (a\<lparr>acc_password_hash := Some h, acc_password_changed_at := Some now,
        acc_updated_at := now'\<rparr>) s = (r', s')" (is "ao_update ops ?b s = _")
    using assms(2) by (auto simp: change_password_def split: sum.splits prod.splits)
  from found [OF assms(1) a] have mem: "a \<in> set (accounts s)" and i: "i = acc_id a" by auto
  from update_effect [OF assms(1) mem _ upd] False obtain t where "invar s'" and
    "accounts s' = on_account (acc_id a) (\<lambda>_. (account_column ts js ?b)
       \<lparr>acc_created_at := acc_created_at a, acc_updated_at := t\<rparr>) (accounts s)" by auto
  with ev_password [OF mem, of "(account_column ts js ?b)\<lparr>acc_created_at := acc_created_at a, acc_updated_at := t\<rparr>"] i
  show ?thesis by simp
qed

lemma update_email_ok:
  assumes "invar s" and "a \<in> set (accounts s)" and "update_email svc ops new a s = Inr b"
  shows "\<exists>m. b = a\<lparr>acc_email := m\<rparr> \<and>
    (m = acc_email a \<or> is_valid_email m \<and> m \<notin> acc_email ` (set (accounts s) - {a}))"
proof (cases new)
  case None
  with assms(3) show ?thesis by (intro exI [of _ "acc_email a"]) (simp add: update_email_def)
next
  case (Some raw)
  define m where "m = trim_lowercase (as_unicode svc) raw"
  from Some assms(3) obtain x where x: "ao_get_by_email ops m s = Inr x" and
    xa: "\<And>c. x = Some c \<Longrightarrow> acc_id c = acc_id a" and "is_valid_email m" and b: "b = a\<lparr>acc_email := m\<rparr>"
    by (auto simp: update_email_def m_def Let_def split: sum.splits option.splits if_splits)
  moreover have "m \<notin> acc_email ` (set (accounts s) - {a})"
  proof
    assume "m \<in> acc_email ` (set (accounts s) - {a})"
    then obtain c where c: "c \<in> set (accounts s)" "c \<noteq> a" "acc_email c = m" by auto
    then have "x = Some c"
      using by_email [OF assms(1) x] by_key_unique [of acc_email "accounts s" c] unique [OF assms(1)] by simp
    with xa c assms(2) unique [OF assms(1)] show False by (auto simp: distinct_map dest: inj_onD)
  qed
  ultimately show ?thesis by blast
qed

lemma refines_update:
  assumes "invar s" and "update_account svc ops now i data s = (r, s', evs)"
  shows "invar s' \<and> account_evolves (ReqUpdate now i data) (accounts s) (accounts s')"
proof (cases "s' = s")
  case True
  then show ?thesis using assms(1) ev_unchanged by simp
next
  case False
  then obtain a where get: "ao_get_by_id ops i s = Inr (Some a)"
    using assms(2) by (auto simp: update_account_def split: sum.splits option.splits)
  then have mem: "a \<in> set (accounts s)" and i: "i = acc_id a"
    using found [OF assms(1), of i a] by (auto simp: require_account_def)
  from get False assms(2) obtain c where c: "update_email svc ops (ud_email data) a s = Inr c"
    by (auto simp: update_account_def split: sum.splits)
  from update_email_ok [OF assms(1) mem c] obtain m where m: "c = a\<lparr>acc_email := m\<rparr>"
    "m = acc_email a \<or> is_valid_email m \<and> m \<notin> acc_email ` (set (accounts s) - {a})" by blast
  from get c assms(2) obtain b r' where upd: "ao_update ops b s = (r', s')"
    and b: "acc_id b = acc_id a" "acc_status b = acc_status a" "acc_password_hash b = acc_password_hash a"
      "acc_email b = m"
    unfolding m(1) by (auto simp: update_account_def Let_def split: sum.splits prod.splits option.splits)
  from update_effect [OF assms(1) mem b(1) upd] False obtain t where "invar s'" and
    "accounts s' = on_account (acc_id a) (\<lambda>_. (account_column ts js b)
       \<lparr>acc_created_at := acc_created_at a, acc_updated_at := t\<rparr>) (accounts s)" by blast
  with ev_updated [OF mem, of "(account_column ts js b)\<lparr>acc_created_at := acc_created_at a, acc_updated_at := t\<rparr>"]
    b m(2) i show ?thesis by simp
qed

theorem serve_refines:
  assumes "invar s" and "\<And>salt n now data. req = ReqCreate salt n now data \<Longrightarrow> valid_id n"
  shows "invar (serve svc ops req s) \<and> account_evolves req (accounts s) (accounts (serve svc ops req s))"
proof -
  have triple: "c = (fst c, fst (snd c), snd (snd c))" for c :: "'a \<times> 'b \<times> 'c" by simp
  show ?thesis
    using assms
      refines_create [OF assms(1) _ triple] refines_get [OF assms(1) triple]
      refines_update [OF assms(1) triple] refines_verify [OF assms(1) triple]
      refines_password [OF assms(1) triple] refines_delete [OF assms(1) triple]
      refines_login [OF assms(1) prod.collapse [symmetric]]
      refines_change_status [OF assms(1) _ triple, of req]
    by (cases req) (simp_all add: disable_account_def enable_account_def lock_account_def
        unlock_account_def suspend_account_def)
qed

end

subsection \<open>The PostgreSQL table implements the interface\<close>

definition valid_account_id :: "(string \<Rightarrow> string + string \<times> string) \<Rightarrow> string \<Rightarrow> bool" where
  "valid_account_id mti i \<longleftrightarrow> account_id_from_str mti i = Inr i"

text \<open>
  The server scans the rows in some order, and JSONB gives back an array of strings unchanged.
\<close>

definition server_ok :: "(string \<Rightarrow> string + string \<times> string) \<Rightarrow> account_env \<Rightarrow> bool" where
  "server_ok mti env \<longleftrightarrow> ae_mti env = mti \<and> (\<forall>t. mset (ae_scan env t) = mset t) \<and>
     (\<forall>rs. ae_jsonb env (roles_to_json rs) = roles_to_json rs)"

definition row_ok :: "(string \<Rightarrow> string + string \<times> string) \<Rightarrow> account_row \<Rightarrow> bool" where
  "row_ok mti r \<longleftrightarrow> valid_account_id mti (aw_id r) \<and> is_ok (account_status_from_str (aw_status r))"

definition account_table_inv :: "(string \<Rightarrow> string + string \<times> string) \<Rightarrow> account_table \<Rightarrow> bool" where
  "account_table_inv mti t \<longleftrightarrow>
     distinct (map aw_id t) \<and> distinct (map aw_email t) \<and> list_all (row_ok mti) t"

text \<open>The account in a row whose identifier is a valid one.\<close>

definition row_account :: "account_row \<Rightarrow> account" where
  "row_account = account_of_row \<lparr>ae_fault = (\<lambda>_. None), ae_violation = [], ae_now = 0,
     ae_timestamptz = (\<lambda>t. t), ae_jsonb = (\<lambda>j. j), ae_scan = (\<lambda>t. t),
     ae_mti = (\<lambda>s. Inr (''acct'', s)), ae_new_id = (\<lambda>s. s)\<rparr>"

definition pg_accounts :: "account_table \<Rightarrow> account list" where
  "pg_accounts t = map row_account t"

lemma row_account_fields [simp]:
  "acc_id (row_account r) = aw_id r" "acc_email (row_account r) = aw_email r"
  "acc_username (row_account r) = aw_username r"
  by (simp_all add: row_account_def account_of_row_def account_id_from_str_def)

lemma account_of_row_valid: "valid_account_id (ae_mti env) (aw_id r) \<Longrightarrow> account_of_row env r = row_account r"
  by (simp add: row_account_def account_of_row_def valid_account_id_def account_id_from_str_def)

lemma status_roundtrip [simp]: "account_status_from_str (account_status_display st) = Inr st"
  by (cases st) (simp_all add: account_status_from_str_def)

lemma status_from_str_Inr: "account_status_from_str s = Inr st \<longleftrightarrow> s = account_status_display st"
  by (cases st; simp add: account_status_from_str_def)

lemma roles_roundtrip [simp]: "roles_from_json (roles_to_json rs) = Some rs"
  by (auto simp: roles_to_json_def list_all_iff map_idI)

lemma row_account_of_account:
  "server_ok mti env \<Longrightarrow> row_account (row_of_account env a) = account_column (ae_timestamptz env) (ae_jsonb env) a"
  by (simp add: row_account_def account_of_row_def row_of_account_def account_column_def Let_def
      account_id_from_str_def server_ok_def)

lemma row_of_account_keys [simp]:
  "aw_id (row_of_account env a) = acc_id a" "aw_email (row_of_account env a) = acc_email a"
  "aw_status (row_of_account env a) = account_status_display (acc_status a)"
  by (simp_all add: row_of_account_def Let_def)

lemma row_account_updates:
  "row_account (r\<lparr>aw_created_at := x, aw_updated_at := y\<rparr>) =
     (row_account r)\<lparr>acc_created_at := x, acc_updated_at := y\<rparr>"
  "row_account (r\<lparr>aw_last_login_at := x', aw_failed_login_count := c, aw_updated_at := y\<rparr>) =
     (row_account r)\<lparr>acc_last_login_at := x', acc_failed_login_count := c, acc_updated_at := y\<rparr>"
  "row_account (set_row_status now st reason r) = set_status now st reason (row_account r)"
  by (cases st; simp add: row_account_def account_of_row_def set_row_status_def set_status_def
      account_id_from_str_def account_status_from_str_def)+

lemma set_row_status_keys [simp]:
  "aw_id (set_row_status now st reason r) = aw_id r" "aw_email (set_row_status now st reason r) = aw_email r"
  "aw_status (set_row_status now st reason r) = account_status_display st"
  by (cases st; simp add: set_row_status_def)+

lemma pg_accounts_map:
  "(\<And>r. row_account (f r) = g (row_account r)) \<Longrightarrow>
     pg_accounts (map (\<lambda>r. if aw_id r = i then f r else r) t) = on_account i g (pg_accounts t)"
  by (auto simp: pg_accounts_def on_account_def)

lemma account_table_inv_map:
  assumes "account_table_inv mti t" and "\<And>r. aw_id (f r) = aw_id r" and "\<And>r. aw_email (f r) = aw_email r"
    and "\<And>r. row_ok mti r \<Longrightarrow> row_ok mti (f r)"
  shows "account_table_inv mti (map (\<lambda>r. if aw_id r = i then f r else r) t)"
proof -
  have "map aw_id (map (\<lambda>r. if aw_id r = i then f r else r) t) = map aw_id t"
    "map aw_email (map (\<lambda>r. if aw_id r = i then f r else r) t) = map aw_email t"
    using assms(2,3) by auto
  with assms(1,4) show ?thesis
    unfolding account_table_inv_def by (auto simp: list_all_iff simp del: map_map)
qed

lemma find_unique_row:
  fixes f :: "account_row \<Rightarrow> 'k" and g :: "account \<Rightarrow> 'k"
  assumes "mset ys = mset t" and "distinct (map f t)" and "\<And>r. g (row_account r) = f r"
  shows "map_option row_account (find (\<lambda>r. f r = k) ys) = by_key g k (pg_accounts t)"
proof (cases "k \<in> f ` set t")
  case False
  with assms(1) have "find (\<lambda>r. f r = k) ys = None" by (auto simp: find_None_iff dest: mset_eq_setD)
  moreover have "by_key g k (pg_accounts t) = None"
    using False assms(3) by (auto simp: by_key_None pg_accounts_def)
  ultimately show ?thesis by simp
next
  case True
  then obtain r where r: "r \<in> set t" "f r = k" by auto
  have ys: "set ys = set t" using assms(1) by (rule mset_eq_setD)
  then have "find (\<lambda>r. f r = k) ys \<noteq> None" using r by (auto simp: find_None_iff)
  then obtain r' where r': "find (\<lambda>r. f r = k) ys = Some r'" by blast
  then have "r' \<in> set t" "f r' = k"
    using ys by (auto simp: find_Some_iff)
  then have "r' = r" using r assms(2) by (auto simp: distinct_map dest: inj_onD)
  moreover have "by_key g (g (row_account r)) (pg_accounts t) = Some (row_account r)"
    using assms(2,3) r by (intro by_key_unique) (simp_all add: pg_accounts_def comp_def)
  ultimately show ?thesis using r r' assms(3) by simp
qed

lemma pg_create_ok:
  assumes "server_ok mti env" and "account_table_inv mti t" and "valid_account_id mti (acc_id a)"
    and "pg_create env a t = (Inr u, t')"
  shows "account_table_inv mti t' \<and>
    pg_accounts t' = pg_accounts t @ [account_column (ae_timestamptz env) (ae_jsonb env) a]"
  using assms row_account_of_account [OF assms(1), of a]
  by (auto simp: pg_create_def account_table_inv_def pg_accounts_def row_ok_def split: option.splits if_splits)

lemma pg_update_inv:
  assumes "account_table_inv mti t" and "valid_account_id mti (acc_id a)"
    and "acc_email a \<notin> aw_email ` {r \<in> set t. aw_id r \<noteq> acc_id a}"
  shows "account_table_inv mti (map (\<lambda>r. if aw_id r = acc_id a
    then (row_of_account env a)\<lparr>aw_created_at := aw_created_at r, aw_updated_at := y\<rparr> else r) t)"
proof -
  let ?f = "\<lambda>r. if aw_id r = acc_id a
    then (row_of_account env a)\<lparr>aw_created_at := aw_created_at r, aw_updated_at := y\<rparr> else r"
  have ids: "map aw_id (map ?f t) = map aw_id t" by simp
  have "inj_on (\<lambda>r. aw_email (?f r)) (set t)"
  proof (rule inj_onI)
    fix r r' assume r: "r \<in> set t" "r' \<in> set t" and eq: "aw_email (?f r) = aw_email (?f r')"
    have "aw_id r = aw_id r' \<Longrightarrow> r = r'" "aw_email r = aw_email r' \<Longrightarrow> r = r'"
      using assms(1) r by (auto simp: account_table_inv_def distinct_map dest: inj_onD)
    moreover have "aw_email x \<noteq> acc_email a" if "x \<in> set t" "aw_id x \<noteq> acc_id a" for x
      using assms(3) that by (metis (mono_tags, lifting) image_eqI mem_Collect_eq)
    ultimately show "r = r'" using eq r by (auto split: if_splits)
  qed
  then have "distinct (map aw_email (map ?f t))"
    using assms(1) by (simp add: account_table_inv_def distinct_map comp_def)
  moreover have "list_all (row_ok mti) (map ?f t)"
    using assms(1,2) by (auto simp: account_table_inv_def list_all_iff row_ok_def)
  ultimately show ?thesis
    using assms(1) ids unfolding account_table_inv_def by metis
qed

lemma pg_update_ok:
  assumes "server_ok mti env" and "account_table_inv mti t" and "valid_account_id mti (acc_id a)"
    and "pg_update env a t = (Inr u, t')"
  shows "account_table_inv mti t' \<and> (\<exists>now. pg_accounts t' = on_account (acc_id a)
    (\<lambda>x. (account_column (ae_timestamptz env) (ae_jsonb env) a)\<lparr>acc_created_at := acc_created_at x,
       acc_updated_at := now\<rparr>) (pg_accounts t))"
proof -
  let ?now = "ae_timestamptz env (ae_now env)"
  have t': "t' = map (\<lambda>r. if aw_id r = acc_id a then (row_of_account env a)
      \<lparr>aw_created_at := aw_created_at r, aw_updated_at := ?now\<rparr> else r) t"
    and guard: "acc_id a \<in> aw_id ` set t \<Longrightarrow> acc_email a \<notin> aw_email ` {r \<in> set t. aw_id r \<noteq> acc_id a}"
    using assms(4) by (auto simp: pg_update_def split: option.splits if_splits)
  have created: "acc_created_at (row_account r) = aw_created_at r" for r
    by (simp add: row_account_def account_of_row_def)
  have "account_table_inv mti t'"
  proof (cases "acc_id a \<in> aw_id ` set t")
    case True
    show ?thesis unfolding t' by (rule pg_update_inv [OF assms(2,3) guard [OF True]])
  next
    case False
    then have "\<forall>r \<in> set t. aw_id r \<noteq> acc_id a" by (metis image_eqI)
    then have "t' = t" unfolding t' by (simp add: map_idI)
    then show ?thesis using assms(2) by simp
  qed
  moreover have "pg_accounts t' = on_account (acc_id a) (\<lambda>x. (account_column (ae_timestamptz env) (ae_jsonb env) a)
      \<lparr>acc_created_at := acc_created_at x, acc_updated_at := ?now\<rparr>) (pg_accounts t)"
    unfolding t' by (rule pg_accounts_map)
      (simp add: row_account_updates(1) row_account_of_account [OF assms(1)] created)
  ultimately show ?thesis by blast
qed

lemma row_matches_status:
  "row_ok mti r \<Longrightarrow> row_matches f r \<longleftrightarrow> f = None \<or> f = Some (acc_status (row_account r))"
  by (auto simp: row_ok_def is_ok_iff row_matches_def row_account_def account_of_row_def status_from_str_Inr
      split: option.splits) (metis status_roundtrip sum.inject(2))

lemma pg_count_ok:
  assumes "account_table_inv mti t" and "pg_count env f t = Inr n"
  shows "n = of_nat (length (filter (\<lambda>a. f = None \<or> f = Some (acc_status a)) (pg_accounts t)))"
proof -
  have "filter (row_matches f) t = filter (\<lambda>r. f = None \<or> f = Some (acc_status (row_account r))) t"
    using assms(1) row_matches_status by (intro filter_cong) (auto simp: account_table_inv_def list_all_iff)
  with assms(2) show ?thesis
    by (auto simp: pg_count_def pg_accounts_def filter_map comp_def split: option.splits)
qed

lemma pg_lookup:
  assumes "server_ok mti env" and "account_table_inv mti t"
  shows "map_option (account_of_row env) (find P (ae_scan env t)) = map_option row_account (find P (ae_scan env t))"
proof -
  have "set (ae_scan env t) = set t" using assms(1) by (metis server_ok_def mset_eq_setD)
  then have "r \<in> set t" if "find P (ae_scan env t) = Some r" for r
    using that by (auto simp: find_Some_iff)
  then show ?thesis
    using assms by (cases "find P (ae_scan env t)")
      (auto simp: account_table_inv_def list_all_iff row_ok_def server_ok_def account_of_row_valid)
qed

lemma pg_account_store:
  assumes ok: "server_ok mti env"
  shows "account_store (pg_account_ops env) pg_accounts (account_table_inv mti) (valid_account_id mti)
    (ae_timestamptz env) (ae_jsonb env)"
proof (unfold_locales, goal_cases)
  case (1 s a u s')
  then show ?case using pg_create_ok [OF ok] by (simp add: pg_account_ops_def)
next
  case (3 s i r)
  then show ?case
    using find_unique_row [of "ae_scan env s" s aw_id acc_id i] pg_lookup [OF ok] ok
    by (auto simp: pg_account_ops_def pg_get_by_id_def server_ok_def account_table_inv_def split: option.splits)
next
  case (4 s m r)
  then show ?case
    using find_unique_row [of "ae_scan env s" s aw_email acc_email m] pg_lookup [OF ok] ok
    by (auto simp: pg_account_ops_def pg_get_by_email_def server_ok_def account_table_inv_def split: option.splits)
next
  case (5 s n r)
  have "set (ae_scan env s) = set s" using ok by (metis server_ok_def mset_eq_setD)
  moreover have "r \<in> set xs \<and> P r" if "find P xs = Some r" for P r and xs :: account_table
    using that by (auto simp: find_Some_iff)
  ultimately show ?case using 5 pg_lookup [OF ok 5(1)]
    by (fastforce simp: pg_account_ops_def pg_get_by_username_def pg_accounts_def find_None_iff
        split: option.splits)
next
  case (6 s a u s')
  then show ?case using pg_update_ok [OF ok] by (simp add: pg_account_ops_def)
next
  case (8 s i st reason u s')
  let ?now = "ae_timestamptz env (ae_now env)"
  have "s' = map (\<lambda>r. if aw_id r = i then set_row_status ?now st reason r else r) s"
    using 8 by (auto simp: pg_account_ops_def pg_update_status_def split: option.splits)
  with 8 account_table_inv_map [of mti s "set_row_status ?now st reason" i]
    pg_accounts_map [of "set_row_status ?now st reason" "set_status ?now st reason" i s] show ?case
    by (auto simp: row_ok_def row_account_updates(3))
next
  case (10 s i b s')
  then show ?case
    by (auto simp: pg_account_ops_def pg_delete_def account_table_inv_def pg_accounts_def list_all_iff filter_map
        comp_def distinct_map length_greater_0_conv filter_empty_conv image_image intro: inj_on_subset split: option.splits)
next
  case (12 s i u s')
  let ?now = "ae_timestamptz env (ae_now env)"
  let ?f = "\<lambda>r. r\<lparr>aw_last_login_at := Some ?now, aw_failed_login_count := 0, aw_updated_at := ?now\<rparr>"
  have "s' = map (\<lambda>r. if aw_id r = i then ?f r else r) s"
    using 12 by (auto simp: pg_account_ops_def pg_record_login_def Let_def split: option.splits)
  with 12 account_table_inv_map [of mti s ?f i] pg_accounts_map [of ?f "logged_in ?now" i s] show ?case
    by (auto simp: row_ok_def row_account_updates(2) logged_in_def)
next
  case (14 s f cnt)
  then show ?case using pg_count_ok by (simp add: pg_account_ops_def)
next
  case (15 s)
  then show ?case by (simp add: account_table_inv_def pg_accounts_def comp_def)
next
  case (16 s a)
  then show ?case by (auto simp: account_table_inv_def pg_accounts_def list_all_iff row_ok_def)
qed (auto simp: pg_account_ops_def pg_create_def pg_update_def pg_update_status_def pg_delete_def
    pg_record_login_def Let_def split: option.splits if_splits)

interpretation pg_acc: account_store
  "pg_account_ops (env\<lparr>ae_mti := mti, ae_scan := \<lambda>t. t, ae_jsonb := \<lambda>j. j\<rparr>)" pg_accounts
  "account_table_inv mti" "valid_account_id mti" "ae_timestamptz env" "\<lambda>j. j" for env mti
  using pg_account_store [of mti "env\<lparr>ae_mti := mti, ae_scan := \<lambda>t. t, ae_jsonb := \<lambda>j. j\<rparr>"]
  by (simp add: server_ok_def)

subsection \<open>Properties\<close>

definition fresh_id_ok :: "(string \<Rightarrow> string + string \<times> string) \<Rightarrow> account_request \<Rightarrow> bool" where
  "fresh_id_ok mti req = (case req of ReqCreate _ n _ _ \<Rightarrow> valid_account_id mti n | _ \<Rightarrow> True)"

lemma serve_refines_pg:
  assumes "server_ok mti env" and "account_table_inv mti t" and "fresh_id_ok mti req"
  shows "account_table_inv mti (serve svc (pg_account_ops env) req t) \<and>
    account_evolves req (pg_accounts t) (pg_accounts (serve svc (pg_account_ops env) req t))"
  using assms(3)
  by (intro account_store.serve_refines [OF pg_account_store [OF assms(1)] assms(2)])
    (auto simp: fresh_id_ok_def)


definition sample_account_env :: account_env where
  "sample_account_env = \<lparr>ae_fault = (\<lambda>_. None), ae_violation = ''violation'', ae_now = 9,
     ae_timestamptz = (\<lambda>t. t), ae_jsonb = (\<lambda>j. j), ae_scan = rev,
     ae_mti = (\<lambda>s. Inr (''acct'', s)), ae_new_id = (\<lambda>s. s)\<rparr>"

definition sample_mti :: "string \<Rightarrow> string + string \<times> string" where
  "sample_mti = (\<lambda>s. Inr (''acct'', s))"

definition sample_service :: account_service where
  "sample_service = \<lparr>as_hasher = sample_hasher, as_config = default_accounts_config,
     as_argon2 = sample_argon2, as_unicode = (\<lambda>s. s)\<rparr>"

definition sample_data :: "bool \<Rightarrow> create_account_data" where
  "sample_data verify = \<lparr>cd_email = '' Ann@X.org'', cd_username = None, cd_password = Some ''password1'',
     cd_roles = [''user''], cd_expires_at = Some 5, cd_metadata = None,
     cd_require_email_verification = Some verify\<rparr>"

lemma sample_server_ok: "server_ok sample_mti sample_account_env"
  by (simp add: server_ok_def sample_mti_def sample_account_env_def)

lemma sample_id_ok: "valid_account_id sample_mti i"
  by (simp add: valid_account_id_def sample_mti_def account_id_from_str_def)


text \<open>The tables the service can reach from the empty one, with a new server state per request.\<close>

inductive account_run :: "account_service \<Rightarrow> (string \<Rightarrow> string + string \<times> string) \<Rightarrow> account_table \<Rightarrow> bool"
  for svc mti where
  run_start: "account_run svc mti []"
| run_step: "\<lbrakk>account_run svc mti t; server_ok mti env; fresh_id_ok mti req\<rbrakk> \<Longrightarrow>
     account_run svc mti (serve svc (pg_account_ops env) req t)"

lemma account_evolves_emails:
  assumes "account_evolves req as as'" and "list_all (\<lambda>a. is_valid_email (acc_email a)) as"
  shows "list_all (\<lambda>a. is_valid_email (acc_email a)) as'"
  using assms by induction (auto simp: list_all_iff on_account_def logged_in_def)

lemma account_evolves_status:
  assumes "account_evolves req as as'" and "distinct (map acc_id as)"
    and "a \<in> set as" and "a' \<in> set as'" and "acc_id a' = acc_id a"
  shows "acc_status a' = acc_status a \<or> can_transition_to (acc_status a) (acc_status a') \<or>
    acc_status a' = Expired \<and>
      (\<exists>now e. req = ReqGet now (acc_id a) \<and> acc_expires_at a = Some e \<and> e < now)"
proof -
  have same: "x = y" if "x \<in> set as" "y \<in> set as" "acc_id x = acc_id y" for x y
    using assms(2) that by (auto simp: distinct_map dest: inj_onD)
  have on: "a' = a \<or> a = c \<and> a' = f c"
    if "c \<in> set as" "a' \<in> set (on_account (acc_id c) f as)" "acc_id (f c) = acc_id c" for c f
  proof -
    from that(2) obtain x where "x \<in> set as" "a' = (if acc_id x = acc_id c then f x else x)"
      by (auto simp: on_account_def)
    with that same assms(3,5) show ?thesis by (metis (full_types))
  qed
  show ?thesis
    using assms(1)
  proof cases
    case (ev_created b salt now data)
    with assms(3-5) same show ?thesis by auto
  next
    case (ev_expired c e now t)
    with on [of c "set_status t Expired None"] assms(4) show ?thesis by auto
  next
    case (ev_status c st reason t)
    with on [of c "set_status t st reason"] assms(4) show ?thesis by auto
  next
    case (ev_login c m pw t)
    with on [of c "logged_in t"] assms(4) show ?thesis by (auto simp: logged_in_def)
  next
    case (ev_verified c b now now')
    with on [of c "\<lambda>_. b"] assms(4) show ?thesis by auto
  next
    case (ev_updated c b now data)
    with on [of c "\<lambda>_. b"] assms(4) show ?thesis by auto
  next
    case (ev_password c b salt now now' pw)
    with on [of c "\<lambda>_. b"] assms(4) show ?thesis by auto
  qed (use assms(3-5) same in auto)
qed

lemma account_run_inv:
  assumes "account_run svc mti t"
  shows "account_table_inv mti t \<and> list_all (\<lambda>a. is_valid_email (acc_email a)) (pg_accounts t)"
  using assms
proof induction
  case run_start
  show ?case by (simp add: account_table_inv_def pg_accounts_def)
next
  case (run_step t env req)
  with serve_refines_pg [of mti env t req svc] account_evolves_emails show ?case by blast
qed

text \<open>
  C12: the life cycle of accounts (the AC-2 state machine). In every table that requests can reach,
  under any server faults, identifiers and addresses are unique and every address passes the format
  check. A further request keeps the status of an account or moves it along an edge of
  \<^verbatim>\<open>can_transition_to\<close>; the only exception is the automatic expiry in \<^verbatim>\<open>get_account\<close>, which expires
  an account past its date from any status.
\<close>

theorem account_lifecycle:
  assumes "account_run svc mti t" and "server_ok mti env" and "fresh_id_ok mti req"
    and "a \<in> set (pg_accounts t)" and "a' \<in> set (pg_accounts (serve svc (pg_account_ops env) req t))"
    and "acc_id a' = acc_id a"
  shows "distinct (map acc_id (pg_accounts t)) \<and> distinct (map acc_email (pg_accounts t)) \<and>
    list_all (\<lambda>a. is_valid_email (acc_email a)) (pg_accounts t) \<and>
    (acc_status a' = acc_status a \<or> can_transition_to (acc_status a) (acc_status a') \<or>
     acc_status a' = Expired \<and>
       (\<exists>now e. req = ReqGet now (acc_id a) \<and> acc_expires_at a = Some e \<and> e < now))"
proof -
  from account_run_inv [OF assms(1)] have inv: "account_table_inv mti t"
    and emails: "list_all (\<lambda>a. is_valid_email (acc_email a)) (pg_accounts t)" by auto
  have keys: "distinct (map acc_id (pg_accounts t)) \<and> distinct (map acc_email (pg_accounts t))"
    using inv by (simp add: account_table_inv_def pg_accounts_def comp_def)
  with emails account_evolves_status [OF _ _ assms(4-6), of req]
    serve_refines_pg [OF assms(2) inv assms(3), of svc] show ?thesis by blast
qed

lemma pg_by_email:
  assumes "server_ok mti env" and "account_table_inv mti t" and "ae_fault env SByEmail = None"
  shows "ao_get_by_email (pg_account_ops env) m t = Inr (by_key acc_email m (pg_accounts t))"
proof -
  obtain r where "ao_get_by_email (pg_account_ops env) m t = Inr r"
    using assms(3) by (simp add: pg_account_ops_def pg_get_by_email_def)
  with account_store.by_email [OF pg_account_store [OF assms(1)] assms(2)] show ?thesis by simp
qed

text \<open>
  C14: who can log in. When the server answers, \<^verbatim>\<open>authenticate\<close> returns an account exactly when that
  account has the given address up to case and surrounding blanks, is active, and has a password
  hash that the given password matches. The expiry date of the account is not looked at.
\<close>

theorem authenticate_iff:
  assumes "server_ok mti env" and "account_table_inv mti t" and "ae_fault env SByEmail = None"
  shows "fst (authenticate svc (pg_account_ops env) m pw t) = Inr a \<longleftrightarrow>
    a \<in> set (pg_accounts t) \<and> acc_email a = trim_lowercase (as_unicode svc) m \<and> acc_status a = Active \<and>
    (\<exists>h. acc_password_hash a = Some h \<and> password_verify (as_argon2 svc) pw h = Inr True)"
proof -
  let ?m = "trim_lowercase (as_unicode svc) m"
  have dist: "distinct (map acc_email (pg_accounts t))"
    using assms(2) by (simp add: account_table_inv_def pg_accounts_def comp_def)
  have "by_key acc_email ?m (pg_accounts t) = Some a \<longleftrightarrow> a \<in> set (pg_accounts t) \<and> acc_email a = ?m"
    using by_key_unique [OF dist, of a] by_key_Some [of acc_email ?m "pg_accounts t" a] by auto
  with pg_by_email [OF assms] show ?thesis
    by (auto simp: authenticate_def Let_def split: option.splits sum.splits)
qed

definition sample_accounts :: account_table where
  "sample_accounts = serve sample_service (pg_account_ops sample_account_env)
     (ReqCreate ''salt'' ''acct_1'' 3 (sample_data False)) []"

definition sample_ann :: account where
  "sample_ann = hd (pg_accounts sample_accounts)"

lemma sample_ann_value:
  "pg_accounts sample_accounts = [sample_ann] \<and> acc_status sample_ann = Active \<and>
   acc_email sample_ann = ''ann@x.org'' \<and> acc_id sample_ann = ''acct_1'' \<and> acc_expires_at sample_ann = Some 5 \<and>
   (case acc_password_hash sample_ann of Some h \<Rightarrow> password_verify sample_argon2 ''password1'' h = Inr True
    | None \<Rightarrow> False)"
  by code_simp

lemma sample_accounts_run: "account_run sample_service sample_mti sample_accounts"
  unfolding sample_accounts_def
  by (intro run_step run_start sample_server_ok) (simp add: fresh_id_ok_def sample_id_ok)

theorem account_lifecycle_witness:
  "\<exists>a'. pg_accounts (serve sample_service (pg_account_ops sample_account_env) (ReqLock ''acct_1'' ''r'')
       sample_accounts) = [a'] \<and> acc_status a' = Locked \<and>
     (acc_status a' = acc_status sample_ann \<or> can_transition_to (acc_status sample_ann) (acc_status a'))"
proof -
  let ?t' = "serve sample_service (pg_account_ops sample_account_env) (ReqLock ''acct_1'' ''r'') sample_accounts"
  have t': "map acc_status (pg_accounts ?t') = [Locked] \<and> map acc_id (pg_accounts ?t') = [''acct_1'']"
    by code_simp
  then obtain a' where a': "pg_accounts ?t' = [a']" "acc_status a' = Locked" "acc_id a' = acc_id sample_ann"
    using sample_ann_value by auto
  with account_lifecycle [OF sample_accounts_run sample_server_ok, of "ReqLock ''acct_1'' ''r''" sample_ann a']
    sample_ann_value show ?thesis by (simp add: fresh_id_ok_def)
qed

theorem authenticate_iff_witness:
  "fst (authenticate sample_service (pg_account_ops sample_account_env) ''ANN@x.org '' ''password1''
     sample_accounts) = Inr sample_ann"
proof -
  have "account_table_inv sample_mti sample_accounts"
    using account_run_inv [OF sample_accounts_run] by simp
  moreover have "trim_lowercase (\<lambda>s. s) ''ANN@x.org '' = ''ann@x.org''" by code_simp
  ultimately show ?thesis
    using authenticate_iff [OF sample_server_ok, of sample_accounts sample_service "''ANN@x.org ''"
        "''password1''" sample_ann] sample_ann_value
    by (auto simp: sample_account_env_def sample_service_def split: option.splits)
qed

text \<open>
  Expiry takes effect only when the account is read by its identifier. An active account past
  its date still logs in with its password, however long ago it expired; after one successful
  \<^verbatim>\<open>get_account\<close> at a later time the login is refused as expired.
\<close>

theorem expiry_needs_get_account:
  assumes "server_ok mti env" and "account_table_inv mti t" and "\<forall>st. ae_fault env st = None"
    and "a \<in> set (pg_accounts t)" and "acc_status a = Active" and "acc_expires_at a = Some e" and "e < now"
    and "acc_password_hash a = Some h" and "password_verify (as_argon2 svc) pw h = Inr True"
    and "trim_lowercase (as_unicode svc) m = acc_email a"
  shows "fst (authenticate svc (pg_account_ops env) m pw t) = Inr a \<and>
    fst (authenticate svc (pg_account_ops env) m pw (serve svc (pg_account_ops env) (ReqGet now (acc_id a)) t)) =
      Inl (AccountInactive Expired ''account expired'')"
proof
  have dist: "distinct (map acc_email (pg_accounts t))" "distinct (map acc_id (pg_accounts t))"
    using assms(2) by (simp_all add: account_table_inv_def pg_accounts_def comp_def)
  have nofault: "ae_fault env SByEmail = None" using assms(3) by simp
  show "fst (authenticate svc (pg_account_ops env) m pw t) = Inr a"
    using pg_by_email [OF assms(1,2) nofault] by_key_unique [OF dist(1) assms(4)] assms
    by (simp add: authenticate_def)
  let ?t = "serve svc (pg_account_ops env) (ReqGet now (acc_id a)) t"
  note store = pg_account_store [OF assms(1)]
  obtain r where "ao_get_by_id (pg_account_ops env) (acc_id a) t = Inr r"
    using assms(3) by (simp add: pg_account_ops_def pg_get_by_id_def)
  then have get: "ao_get_by_id (pg_account_ops env) (acc_id a) t = Inr (Some a)"
    using account_store.by_id [OF store assms(2)] by_key_unique [OF dist(2) assms(4)] by simp
  obtain u t' where upd: "ao_update_status (pg_account_ops env) (acc_id a) Expired None t = (Inr u, t')"
    using assms(3) by (simp add: pg_account_ops_def pg_update_status_def)
  from account_store.update_status_ok [OF store assms(2) upd] obtain x where inv: "account_table_inv mti t'"
    and acc: "pg_accounts t' = on_account (acc_id a) (set_status x Expired None) (pg_accounts t)" by blast
  have "?t = t'" using get upd assms(5-7) by (simp add: get_account_def)
  have dist': "distinct (map acc_email (pg_accounts t'))"
    using inv by (simp add: account_table_inv_def pg_accounts_def comp_def)
  have "set_status x Expired None a \<in> set (pg_accounts t')" using assms(4) by (auto simp: acc on_account_def)
  from by_key_unique [OF dist' this] pg_by_email [OF assms(1) inv nofault, of "acc_email a"] assms(10)
  show "fst (authenticate svc (pg_account_ops env) m pw ?t) = Inl (AccountInactive Expired ''account expired'')"
    unfolding \<open>?t = t'\<close> by (simp add: authenticate_def inactive_reason_def)
qed

theorem expiry_needs_get_account_witness:
  "fst (authenticate sample_service (pg_account_ops sample_account_env) ''ANN@x.org '' ''password1''
     sample_accounts) = Inr sample_ann \<and>
   fst (authenticate sample_service (pg_account_ops sample_account_env) ''ANN@x.org '' ''password1''
     (serve sample_service (pg_account_ops sample_account_env) (ReqGet 6 ''acct_1'') sample_accounts)) =
     Inl (AccountInactive Expired ''account expired'')"
proof -
  have inv: "account_table_inv sample_mti sample_accounts"
    using account_run_inv [OF sample_accounts_run] by simp
  have m: "trim_lowercase (\<lambda>s. s) ''ANN@x.org '' = ''ann@x.org''" by code_simp
  obtain h where "acc_password_hash sample_ann = Some h"
    "password_verify sample_argon2 ''password1'' h = Inr True"
    using sample_ann_value by (auto split: option.splits)
  with expiry_needs_get_account [OF sample_server_ok inv, of sample_ann 5 6 h sample_service "''password1''"
      "''ANN@x.org ''"] sample_ann_value m show ?thesis
    by (simp add: sample_account_env_def sample_service_def)
qed

text \<open>
  A created account can log in. After a successful \<^verbatim>\<open>create_account\<close> with a password, a login
  with that password and any spelling of the address that normalises to the same text returns the
  stored account when no verification was required, and is refused as not verified otherwise.
\<close>

theorem create_then_login:
  assumes "server_ok mti env" and "server_ok mti env'" and "account_table_inv mti t"
    and "valid_account_id mti new_id" and "argon2_phc (as_argon2 svc)"
    and "create_account svc (pg_account_ops env) salt new_id now data t = (Inr a, t', evs)"
    and "cd_password data = Some pw" and "ae_fault env' SByEmail = None"
    and "trim_lowercase (as_unicode svc) m = trim_lowercase (as_unicode svc) (cd_email data)"
  shows "fst (authenticate svc (pg_account_ops env') m pw t') =
    (if acc_status a = Active then Inr (account_column (ae_timestamptz env) (ae_jsonb env) a)
     else Inl (AccountInactive PendingVerification ''email not verified''))"
proof -
  let ?m = "trim_lowercase (as_unicode svc) (cd_email data)" and ?a = "account_column (ae_timestamptz env) (ae_jsonb env) a"
  from assms(6,7) obtain h u where a: "a = new_account svc new_id now data ?m (Some h)"
    and h: "password_hash (as_argon2 svc) salt (as_hasher svc) pw = Inr h"
    and cr: "ao_create (pg_account_ops env) a t = (Inr u, t')"
    by (auto simp: create_account_def hash_optional_def Let_def split: if_splits sum.splits prod.splits)
  have fields: "acc_id a = new_id" "acc_email a = ?m" "acc_password_hash a = Some h"
      "acc_status a = PendingVerification \<or> acc_status a = Active"
    by (simp_all add: a new_account_def Let_def)
  from account_store.create_ok [OF pg_account_store [OF assms(1)] assms(3) _ cr] assms(4) fields(1)
  have inv: "account_table_inv mti t'" and acc: "pg_accounts t' = pg_accounts t @ [?a]" by simp_all
  have "distinct (map acc_email (pg_accounts t'))"
    using inv by (simp add: account_table_inv_def pg_accounts_def comp_def)
  then have "by_key acc_email ?m (pg_accounts t') = Some ?a"
    using by_key_unique [of acc_email "pg_accounts t'" ?a] fields(2) by (simp add: acc)
  with pg_by_email [OF assms(2) inv assms(8)] password_hash_verifies [OF assms(5) h] fields assms(9)
  show ?thesis by (auto simp: authenticate_def inactive_reason_def)
qed

theorem create_then_login_witness:
  "\<exists>a t' evs. create_account sample_service (pg_account_ops sample_account_env) ''salt'' ''acct_1'' 3
      (sample_data True) [] = (Inr a, t', evs) \<and> acc_status a = PendingVerification \<and>
    fst (authenticate sample_service (pg_account_ops sample_account_env) ''ann@X.ORG'' ''password1'' t') =
      Inl (AccountInactive PendingVerification ''email not verified'')"
proof -
  have ok: "case create_account sample_service (pg_account_ops sample_account_env) ''salt'' ''acct_1'' 3
      (sample_data True) [] of (Inr a, t', evs) \<Rightarrow> acc_status a = PendingVerification | _ \<Rightarrow> False"
    by code_simp
  then obtain a t' evs where c: "create_account sample_service (pg_account_ops sample_account_env) ''salt''
      ''acct_1'' 3 (sample_data True) [] = (Inr a, t', evs)" "acc_status a = PendingVerification"
    by (cases "create_account sample_service (pg_account_ops sample_account_env) ''salt'' ''acct_1'' 3
          (sample_data True) []") (auto split: sum.splits)
  have m: "trim_lowercase (as_unicode sample_service) ''ann@X.ORG'' =
      trim_lowercase (as_unicode sample_service) (cd_email (sample_data True))" by code_simp
  have "argon2_phc (as_argon2 sample_service)" by (simp add: sample_service_def sample_argon2_phc)
  from create_then_login [OF sample_server_ok sample_server_ok _ sample_id_ok this c(1) _ _ m, of "''password1''"] c
  show ?thesis by (simp add: account_table_inv_def sample_data_def sample_account_env_def)
qed

end
