(* ===== verification/Audit_Chain.thy ===== *)
theory Audit_Chain
  imports Audit_Event
begin

text \<open>
  The hash chain over audit events (\<^verbatim>\<open>src/acton-service/src/audit/chain.rs\<close>): canonical JSON,
  the framed v2 hash and the legacy v1 hash, sealing, and verification. Three third-party
  functions are parameters, collected in the record \<open>chain_env\<close>: BLAKE3 with hexadecimal
  output (incremental updates hash the concatenation of their inputs), chrono's RFC 3339
  printer, and serde_json's printer of scalars and strings.
\<close>

record chain_env =
  ce_blake3 :: "u8 list \<Rightarrow> string"
  ce_rfc3339 :: "datetime \<Rightarrow> string"
  ce_json_scalar :: "json \<Rightarrow> string"

subsection \<open>Canonical JSON\<close>

fun canonical_json :: "chain_env \<Rightarrow> json \<Rightarrow> string" where
  "canonical_json env (JObject m) =
     (let vals = map (\<lambda>(k, v). (k, canonical_json env v)) m;
          keys = sort (map fst m)
      in ''{'' @
         join '','' (map (\<lambda>key. ce_json_scalar env (JString key) @ '':'' @ the (map_of vals key)) keys)
         @ ''}'')"
| "canonical_json env (JArray items) =
     ''['' @ join '','' (map (canonical_json env) items) @ '']''"
| "canonical_json env scalar = ce_json_scalar env scalar"

subsection \<open>Hashing\<close>

definition HASH_V2_PREFIX :: string where
  "HASH_V2_PREFIX = ''v2:''"

text \<open>One framed field: presence tag, little-endian length, bytes.\<close>

fun frame :: "u8 list option \<Rightarrow> u8 list" where
  "frame (Some bytes) = [1] @ le_bytes 8 (of_nat (length bytes) :: u64) @ bytes"
| "frame None = [0]"

text \<open>The fields of an event in the order in which they are framed.\<close>

definition v2_fields :: "chain_env \<Rightarrow> audit_event \<Rightarrow> u8 list option list" where
  "v2_fields env e =
     [Some (le_bytes 8 (ev_sequence e)),
      map_option as_bytes (ev_previous_hash e),
      Some (ev_id e),
      Some (as_bytes (ce_rfc3339 env (ev_timestamp e))),
      Some (as_bytes (kind_display (ev_kind e))),
      Some [as_syslog_severity (ev_severity e)],
      Some (as_bytes (ev_service_name e)),
      map_option as_bytes (ev_method e),
      map_option as_bytes (ev_path e),
      map_option (le_bytes 2) (ev_status_code e),
      map_option as_bytes (src_subject (ev_source e)),
      map_option as_bytes (src_ip (ev_source e)),
      map_option as_bytes (src_user_agent (ev_source e)),
      map_option as_bytes (src_request_id (ev_source e)),
      map_option (le_bytes 8) (ev_duration_ms e),
      map_option (as_bytes \<circ> canonical_json env) (ev_metadata e)]"

definition v2_preimage :: "chain_env \<Rightarrow> audit_event \<Rightarrow> u8 list" where
  "v2_preimage env e = concat (map frame (v2_fields env e))"

definition compute_hash_v2 :: "chain_env \<Rightarrow> audit_event \<Rightarrow> string" where
  "compute_hash_v2 env e = HASH_V2_PREFIX @ ce_blake3 env (v2_preimage env e)"

text \<open>The legacy hash: an unframed concatenation of some of the fields.\<close>

definition opt_bytes :: "('a \<Rightarrow> u8 list) \<Rightarrow> 'a option \<Rightarrow> u8 list" where
  "opt_bytes f x = (case x of Some v \<Rightarrow> f v | None \<Rightarrow> [])"

definition compute_hash_v1 :: "chain_env \<Rightarrow> audit_event \<Rightarrow> string" where
  "compute_hash_v1 env e = ce_blake3 env
     (le_bytes 8 (ev_sequence e) @
      opt_bytes as_bytes (ev_previous_hash e) @
      ev_id e @
      as_bytes (ce_rfc3339 env (ev_timestamp e)) @
      as_bytes (kind_display (ev_kind e)) @
      [as_syslog_severity (ev_severity e)] @
      as_bytes (ev_service_name e) @
      opt_bytes as_bytes (ev_method e) @
      opt_bytes as_bytes (ev_path e) @
      opt_bytes (le_bytes 2) (ev_status_code e) @
      opt_bytes as_bytes (src_subject (ev_source e)))"

definition recompute_hash :: "chain_env \<Rightarrow> audit_event \<Rightarrow> string" where
  "recompute_hash env e = (case ev_hash e of
       Some hash \<Rightarrow> if starts_with hash HASH_V2_PREFIX then compute_hash_v2 env e
                   else compute_hash_v1 env e
     | None \<Rightarrow> compute_hash_v2 env e)"

subsection \<open>The chain\<close>

record audit_chain =
  ch_previous_hash :: "string option"
  ch_sequence :: u64
  ch_service_name :: string

definition chain_new :: "string \<Rightarrow> audit_chain" where
  "chain_new service_name =
     \<lparr>ch_previous_hash = None, ch_sequence = 0, ch_service_name = service_name\<rparr>"

definition chain_resume :: "string \<Rightarrow> string \<Rightarrow> u64 \<Rightarrow> audit_chain" where
  "chain_resume service_name previous_hash sequence =
     \<lparr>ch_previous_hash = Some previous_hash, ch_sequence = sequence,
      ch_service_name = service_name\<rparr>"

text \<open>
  \<^verbatim>\<open>AuditChain::seal\<close>: the sealed event and the advanced chain. The counter is a \<^verbatim>\<open>u64\<close>; its
  increment wraps, as it does in a release build.
\<close>

definition seal :: "chain_env \<Rightarrow> audit_chain \<Rightarrow> audit_event \<Rightarrow> audit_event \<times> audit_chain" where
  "seal env chain event =
     (let seq = ch_sequence chain + 1;
          event = event\<lparr>ev_sequence := seq, ev_previous_hash := ch_previous_hash chain,
                        ev_service_name := ch_service_name chain\<rparr>;
          hash = compute_hash_v2 env event
      in (event\<lparr>ev_hash := Some hash\<rparr>,
          chain\<lparr>ch_sequence := seq, ch_previous_hash := Some hash\<rparr>))"

text \<open>Sealing a sequence of events in order.\<close>

fun seal_all :: "chain_env \<Rightarrow> audit_chain \<Rightarrow> audit_event list \<Rightarrow> audit_event list \<times> audit_chain" where
  "seal_all env chain [] = ([], chain)"
| "seal_all env chain (e # es) =
     (let (s, chain') = seal env chain e; (ss, chain'') = seal_all env chain' es
      in (s # ss, chain''))"

subsection \<open>Verification\<close>

record chain_verification_error =
  cv_sequence :: u64
  cv_expected_previous_hash :: "string option"
  cv_actual_previous_hash :: "string option"

definition chain_error :: "string option \<Rightarrow> audit_event \<Rightarrow> chain_verification_error" where
  "chain_error expected_prev event =
     \<lparr>cv_sequence = ev_sequence event, cv_expected_previous_hash = expected_prev,
      cv_actual_previous_hash = ev_previous_hash event\<rparr>"

fun verify_from ::
  "chain_env \<Rightarrow> string option \<Rightarrow> audit_event list \<Rightarrow> chain_verification_error + unit" where
  "verify_from env expected_prev [] = Inr ()"
| "verify_from env expected_prev (event # events) =
     (if ev_previous_hash event \<noteq> expected_prev then Inl (chain_error expected_prev event)
      else if ev_hash event \<noteq> Some (recompute_hash env event)
      then Inl (chain_error expected_prev event)
      else verify_from env (ev_hash event) events)"

definition verify_chain :: "chain_env \<Rightarrow> audit_event list \<Rightarrow> chain_verification_error + unit" where
  "verify_chain env events = verify_from env None events"

subsection \<open>Canonical JSON does not depend on key order\<close>

text \<open>
  The same JSON value up to the order of object entries at any depth. JSON maps have distinct
  keys.
\<close>

inductive json_sim :: "json \<Rightarrow> json \<Rightarrow> bool" where
  sim_refl: "json_sim v v"
| sim_array: "list_all2 json_sim xs ys \<Longrightarrow> json_sim (JArray xs) (JArray ys)"
| sim_object:
    "\<lbrakk>distinct (map fst m); distinct (map fst n); fst ` set m = fst ` set n;
      \<And>k v w. map_of m k = Some v \<Longrightarrow> map_of n k = Some w \<Longrightarrow> json_sim v w\<rbrakk>
     \<Longrightarrow> json_sim (JObject m) (JObject n)"

lemma canonical_json_obj:
  "canonical_json env (JObject m) = ''{'' @
     join '','' (map (\<lambda>key. ce_json_scalar env (JString key) @ '':'' @
       the (map_option (canonical_json env) (map_of m key))) (sort (map fst m))) @ ''}''"
  by (simp add: map_of_map_snd)

declare canonical_json.simps(1) [simp del]

text \<open>
  The canonical form that is hashed and exported is the same for every order in which a JSON
  store returns the entries of the metadata object, at every nesting level.
\<close>

theorem canonical_json_sim: "json_sim v w \<Longrightarrow> canonical_json env v = canonical_json env w"
proof (induction rule: json_sim.induct)
  case (sim_array xs ys)
  then have "map (canonical_json env) xs = map (canonical_json env) ys"
    by (induction rule: list_all2_induct) auto
  then show ?case by simp
next
  case (sim_object m n)
  have keys: "sort (map fst m) = sort (map fst n)"
    using sim_object(1-3) by (intro sorted_list_unique_keys) auto
  have "map_option (canonical_json env) (map_of m k) = map_option (canonical_json env) (map_of n k)"
    if "k \<in> set (map fst m)" for k
  proof -
    from that sim_object(3) obtain v w where "map_of m k = Some v" "map_of n k = Some w"
      using map_of_some_key [of k m] map_of_some_key [of k n] by auto
    with sim_object(5) show ?thesis by simp
  qed
  then show ?case
    unfolding canonical_json_obj keys [symmetric]
    by (intro arg_cong2 [where f = "(@)"] arg_cong [where f = "join _"] map_cong) auto
qed simp

text \<open>A concrete instance of the parameters, used where a statement is evaluated.\<close>

definition sample_rfc3339 :: "datetime \<Rightarrow> string" where
  "sample_rfc3339 t = (if t < 0 then ''-'' @ show_nat (nat (- t)) else show_nat (nat t))"

definition sample_env :: chain_env where
  "sample_env = \<lparr>ce_blake3 = (\<lambda>bs. [char_of (unat (sum_list bs))]), ce_rfc3339 = sample_rfc3339,
     ce_json_scalar = (\<lambda>v. case v of JString s \<Rightarrow> ''\"'' @ s @ ''\"'' | JNumber n \<Rightarrow> n | _ \<Rightarrow> ''null'')\<rparr>"

theorem canonical_json_sim_witness:
  "canonical_json sample_env (JObject [(''b'', JNumber ''2''), (''a'', JNumber ''1'')]) =
   canonical_json sample_env (JObject [(''a'', JNumber ''1''), (''b'', JNumber ''2'')])"
  by (rule canonical_json_sim, rule sim_object) (auto intro: sim_refl split: if_splits)

subsection \<open>Sealed chains verify\<close>

lemma v2_fields_hash [simp]: "v2_fields env (e\<lparr>ev_hash := h\<rparr>) = v2_fields env e"
  by (simp add: v2_fields_def)

lemma compute_hash_v2_hash [simp]: "compute_hash_v2 env (e\<lparr>ev_hash := h\<rparr>) = compute_hash_v2 env e"
  by (simp add: compute_hash_v2_def v2_preimage_def)

lemma starts_with_v2 [simp]: "starts_with (compute_hash_v2 env e) HASH_V2_PREFIX"
  by (simp add: compute_hash_v2_def)

lemma seal_fields:
  assumes "seal env chain e = (s, chain')"
  shows "ev_previous_hash s = ch_previous_hash chain"
    and "ev_sequence s = ch_sequence chain + 1"
    and "ev_service_name s = ch_service_name chain"
    and "ev_hash s = Some (recompute_hash env s)"
    and "ch_previous_hash chain' = ev_hash s"
    and "ch_sequence chain' = ev_sequence s"
    and "ch_service_name chain' = ch_service_name chain"
    and "starts_with (the (ev_hash s)) HASH_V2_PREFIX"
    and "s\<lparr>ev_hash := ev_hash e, ev_previous_hash := ev_previous_hash e,
           ev_sequence := ev_sequence e, ev_service_name := ev_service_name e\<rparr> = e"
  using assms by (auto simp: seal_def Let_def recompute_hash_def)

text \<open>Link by link: what verification checks, as a predicate.\<close>

definition link_ok :: "chain_env \<Rightarrow> string option \<Rightarrow> audit_event \<Rightarrow> bool" where
  "link_ok env prev e \<longleftrightarrow> ev_previous_hash e = prev \<and> ev_hash e = Some (recompute_hash env e)"

fun linked :: "chain_env \<Rightarrow> string option \<Rightarrow> audit_event list \<Rightarrow> bool" where
  "linked env prev [] = True"
| "linked env prev (e # es) = (link_ok env prev e \<and> linked env (ev_hash e) es)"

definition tip :: "string option \<Rightarrow> audit_event list \<Rightarrow> string option" where
  "tip prev es = (if es = [] then prev else ev_hash (last es))"

lemma tip_simps [simp]: "tip prev [] = prev" "tip prev (es @ [e]) = ev_hash e"
  "tip prev (e # es) = tip (ev_hash e) es"
  by (simp_all add: tip_def)

lemma verify_from_linked: "verify_from env prev es = Inr () \<longleftrightarrow> linked env prev es"
  by (induction es arbitrary: prev) (auto simp: link_ok_def)

lemma linked_append:
  "linked env prev (xs @ ys) \<longleftrightarrow> linked env prev xs \<and> linked env (tip prev xs) ys"
  by (induction xs arbitrary: prev) auto

lemma seal_link_ok:
  "seal env chain e = (s, chain') \<Longrightarrow> link_ok env (ch_previous_hash chain) s"
  by (simp add: link_ok_def seal_fields)

lemma seal_all_props:
  assumes "seal_all env chain es = (ss, chain')"
  shows "linked env (ch_previous_hash chain) ss
    \<and> ch_previous_hash chain' = tip (ch_previous_hash chain) ss
    \<and> ch_service_name chain' = ch_service_name chain
    \<and> length ss = length es
    \<and> ch_sequence chain' = ch_sequence chain + of_nat (length es)"
  using assms
proof (induction es arbitrary: chain ss)
  case (Cons e es)
  obtain s c where s: "seal env chain e = (s, c)" by fastforce
  obtain ss' where ss': "seal_all env c es = (ss', chain')"
    using Cons.prems s by (auto split: prod.splits)
  with Cons.prems s have "ss = s # ss'" by simp
  with Cons.IH [OF ss'] seal_link_ok [OF s] seal_fields [OF s] show ?case by simp
qed auto

lemma linked_seal_all: "linked env None (fst (seal_all env (chain_new service) es))"
  using seal_all_props [of env "chain_new service" es]
  by (cases "seal_all env (chain_new service) es") (simp add: chain_new_def)

text \<open>
  A chain that was sealed from its genesis verifies, whatever the events were.
\<close>

theorem sealed_chain_verifies:
  "verify_chain env (fst (seal_all env (chain_new service) es)) = Inr ()"
  by (simp add: verify_chain_def verify_from_linked linked_seal_all)

lemma seal_all_append:
  "seal_all env c (xs @ ys) =
     (let (ss, c') = seal_all env c xs; (ts, c'') = seal_all env c' ys in (ss @ ts, c''))"
  by (induction xs arbitrary: c) (auto split: prod.splits)

lemma seal_all_last:
  assumes "seal_all env c (xs @ [x]) = (ss, c')"
  shows "ss \<noteq> [] \<and> ch_sequence c' = ev_sequence (last ss) \<and> ch_previous_hash c' = ev_hash (last ss)
    \<and> ev_hash (last ss) \<noteq> None \<and> ch_service_name c' = ch_service_name c"
proof -
  obtain ts d where ts: "seal_all env c xs = (ts, d)" by fastforce
  obtain s e where s: "seal env d x = (s, e)" by fastforce
  from assms ts s have "ss = ts @ [s]" and "c' = e"
    by (auto simp: seal_all_append)
  with seal_fields [OF s] seal_all_props [OF ts] show ?thesis by simp
qed

text \<open>
  Restarting does not break the chain. Resuming from the hash and the sequence number of the
  last stored event continues exactly as the running chain would have: the events sealed before
  and after the restart are those of one uninterrupted run.
\<close>

theorem resume_continues_chain:
  assumes "xs \<noteq> []"
    and "seal_all env (chain_new service) xs = (stored, c)"
  shows "fst (seal_all env (chain_new service) (xs @ ys)) =
    stored @ fst (seal_all env
      (chain_resume service (the (ev_hash (last stored))) (ev_sequence (last stored))) ys)"
proof -
  obtain zs z where "xs = zs @ [z]" using assms(1) by (metis append_butlast_last_id)
  with assms(2) have "seal_all env (chain_new service) (zs @ [z]) = (stored, c)" by simp
  from seal_all_last [OF this]
  have "chain_resume service (the (ev_hash (last stored))) (ev_sequence (last stored)) = c"
    by (auto simp: chain_resume_def chain_new_def)
  with assms(2) show ?thesis by (auto simp: seal_all_append split: prod.splits)
qed

theorem resume_continues_chain_witness:
  "let e = audit_event_new [] 0 HttpRequest Notice ''a'';
       stored = fst (seal_all sample_env (chain_new ''s'') [e])
   in fst (seal_all sample_env (chain_new ''s'') ([e] @ [e])) =
     stored @ fst (seal_all sample_env
       (chain_resume ''s'' (the (ev_hash (last stored))) (ev_sequence (last stored))) [e])"
  unfolding Let_def by (rule resume_continues_chain) (simp_all add: prod_eq_iff)

lemma seal_all_sequences:
  assumes "seal_all env chain es = (ss, chain')"
  shows "map ev_sequence ss = map (\<lambda>i. ch_sequence chain + of_nat (Suc i)) [0..<length es]"
  using assms
proof (induction es arbitrary: chain ss)
  case (Cons e es)
  obtain s c where s: "seal env chain e = (s, c)" by fastforce
  obtain ss' where ss': "seal_all env c es = (ss', chain')"
    using Cons.prems s by (auto split: prod.splits)
  with Cons.prems s have "ss = s # ss'" by simp
  moreover have "map (\<lambda>i. ch_sequence chain + of_nat (Suc i)) [0..<length (e # es)] =
      (ch_sequence chain + 1) # map (\<lambda>i. ch_sequence c + of_nat (Suc i)) [0..<length es]"
    using seal_fields [OF s] by (subst upt_conv_Cons) (auto simp: map_Suc_upt [symmetric] algebra_simps simp del: map_Suc_upt upt_Suc)
  ultimately show ?case using Cons.IH [OF ss'] seal_fields [OF s] by simp
qed auto

text \<open>
  Sequence numbers of a sealed run count up by one from the chain's counter, and they are
  pairwise different and below the 64-bit limit as long as the counter does not reach it.
\<close>

theorem sealed_sequences_contiguous:
  assumes "unat (ch_sequence chain) + length es < 2 ^ 64"
  shows "map (unat \<circ> ev_sequence) (fst (seal_all env chain es)) =
    [unat (ch_sequence chain) + 1 ..< unat (ch_sequence chain) + 1 + length es]"
proof -
  obtain ss c where ss: "seal_all env chain es = (ss, c)" by fastforce
  have "unat (ch_sequence chain + of_nat (Suc i)) = unat (ch_sequence chain) + Suc i"
    if "i < length es" for i
  proof -
    from that assms have "unat (of_nat (Suc i) :: u64) = Suc i"
      by (simp only: unat_of_nat) (simp add: take_bit_eq_mod)
    with that assms show ?thesis by (simp only: unat_word_ariths) simp
  qed
  then have "map (unat \<circ> ev_sequence) ss = map (\<lambda>i. unat (ch_sequence chain) + Suc i) [0..<length es]"
    unfolding map_map [symmetric] seal_all_sequences [OF ss]
    by (simp only: map_map) (rule map_cong, simp_all del: of_nat_Suc)
  also have "\<dots> = [unat (ch_sequence chain) + 1 ..< unat (ch_sequence chain) + 1 + length es]"
    by (rule nth_equalityI) (simp_all del: upt_Suc)
  finally show ?thesis using ss by simp
qed

theorem sealed_sequences_contiguous_witness:
  "map (unat \<circ> ev_sequence)
     (fst (seal_all sample_env (chain_new ''s'')
       (replicate 3 (audit_event_new [] 0 HttpRequest Notice ''a'')))) = [1, 2, 3]"
proof -
  have "unat (ch_sequence (chain_new ''s''))
      + length (replicate 3 (audit_event_new [] 0 HttpRequest Notice ''a'')) < 2 ^ 64"
    by (simp add: chain_new_def)
  from sealed_sequences_contiguous [OF this, of sample_env] show ?thesis
    by (simp add: chain_new_def upt_rec)
qed

subsection \<open>Tampering\<close>

text \<open>A framed field fits its 64-bit length prefix, as every Rust buffer does.\<close>

definition frame_sized :: "u8 list option \<Rightarrow> bool" where
  "frame_sized x = (case x of None \<Rightarrow> True | Some bytes \<Rightarrow> length bytes < 2 ^ 64)"

lemma frame_prefix_free:
  assumes "frame_sized a" and "frame_sized b" and "frame a @ x = frame b @ y"
  shows "a = b \<and> x = y"
proof (cases a)
  case None
  with assms(3) show ?thesis by (cases b) auto
next
  case (Some as)
  with assms(3) obtain bs where b: "b = Some bs" by (cases b) auto
  let ?l = "\<lambda>xs. le_bytes 8 (of_nat (length xs) :: u64)"
  from assms(3) Some b have "?l as @ (as @ x) = ?l bs @ (bs @ y)" by simp
  then have "?l as = ?l bs" and rest: "as @ x = bs @ y"
    by (simp_all add: append_eq_append_conv)
  then have "(of_nat (length as) :: u64) = of_nat (length bs)" by (simp add: inj_rules)
  then have "unat (of_nat (length as) :: u64) = unat (of_nat (length bs) :: u64)" by simp
  with assms(1,2) Some b have "length as = length bs"
    by (simp only: unat_of_nat) (simp add: frame_sized_def take_bit_eq_mod)
  with rest Some b show ?thesis by (simp add: append_eq_append_conv)
qed

lemma concat_frame_inj:
  assumes "concat (map frame xs) = concat (map frame ys)" and "length xs = length ys"
    and "list_all frame_sized xs" and "list_all frame_sized ys"
  shows "xs = ys"
  using assms(2,1,3,4)
proof (induction xs ys rule: list_induct2)
  case (Cons x xs y ys)
  with frame_prefix_free [of x y] show ?case by simp
qed simp

definition event_sized :: "chain_env \<Rightarrow> audit_event \<Rightarrow> bool" where
  "event_sized env e \<longleftrightarrow> list_all frame_sized (v2_fields env e)"

text \<open>
  Two events agree in everything but the order of metadata entries: all fields are equal, and the
  metadata has the same canonical form.
\<close>

definition same_content :: "chain_env \<Rightarrow> audit_event \<Rightarrow> audit_event \<Rightarrow> bool" where
  "same_content env e f \<longleftrightarrow>
     e\<lparr>ev_metadata := None\<rparr> = f\<lparr>ev_metadata := None\<rparr> \<and>
     map_option (canonical_json env) (ev_metadata e) =
       map_option (canonical_json env) (ev_metadata f)"

lemma map_option_inj_iff: "(\<And>a b. f a = f b \<longleftrightarrow> a = b) \<Longrightarrow> map_option f x = map_option f y \<longleftrightarrow> x = y"
  by (cases x; cases y) auto

lemma map_option_comp_inj:
  "(\<And>a b. f a = f b \<longleftrightarrow> a = b) \<Longrightarrow>
     map_option (f \<circ> g) x = map_option (f \<circ> g) y \<longleftrightarrow> map_option g x = map_option g y"
  by (cases x; cases y) auto

lemma v2_preimage_same_content:
  assumes "v2_preimage env e = v2_preimage env f"
    and "event_sized env e" and "event_sized env f"
    and "inj (ce_rfc3339 env)" and "ev_hash e = ev_hash f"
  shows "same_content env e f"
proof -
  have "v2_fields env e = v2_fields env f"
    using assms(1-3) unfolding v2_preimage_def event_sized_def
    by (intro concat_frame_inj) (auto simp: v2_fields_def)
  moreover have "ce_rfc3339 env a = ce_rfc3339 env b \<longleftrightarrow> a = b" for a b
    using assms(4) by (auto simp: inj_eq)
  ultimately show ?thesis
    using assms(5)
    by (auto simp: v2_fields_def same_content_def inj_rules map_option_inj_iff
        map_option_comp_inj intro!: audit_event.equality audit_source.equality)
qed

definition is_v2 :: "audit_event \<Rightarrow> bool" where
  "is_v2 e \<longleftrightarrow> (case ev_hash e of Some h \<Rightarrow> starts_with h HASH_V2_PREFIX | None \<Rightarrow> False)"

text \<open>A concrete BLAKE3 collision between an event of one list and an event of another.\<close>

definition hash_collision :: "chain_env \<Rightarrow> audit_event list \<Rightarrow> audit_event list \<Rightarrow> bool" where
  "hash_collision env es fs \<longleftrightarrow>
     (\<exists>e \<in> set es. \<exists>f \<in> set fs. v2_preimage env e \<noteq> v2_preimage env f \<and>
        ce_blake3 env (v2_preimage env e) = ce_blake3 env (v2_preimage env f))"

lemma link_ok_v2:
  assumes "link_ok env p e" and "is_v2 e"
  shows "ev_hash e = Some (HASH_V2_PREFIX @ ce_blake3 env (v2_preimage env e))"
  using assms by (auto simp: link_ok_def is_v2_def recompute_hash_def compute_hash_v2_def
      split: option.splits)

lemma linked_same_tip:
  assumes "linked env None es" and "linked env None fs" and "tip None es = tip None fs"
    and "list_all is_v2 es" and "list_all (event_sized env) (es @ fs)" and "inj (ce_rfc3339 env)"
  shows "list_all2 (same_content env) es fs \<or> hash_collision env es fs"
  using assms(1-5)
proof (induction es arbitrary: fs rule: rev_induct)
  case Nil
  then have "fs = []" by (cases fs rule: rev_cases) (auto simp: linked_append link_ok_def)
  then show ?case by simp
next
  case (snoc e es)
  then obtain f gs where fs: "fs = gs @ [f]"
    by (cases fs rule: rev_cases) (auto simp: linked_append link_ok_def)
  with snoc.prems have le: "link_ok env (tip None es) e" and lf: "link_ok env (tip None gs) f"
    and heq: "ev_hash e = ev_hash f" and v2: "is_v2 e" and sz: "event_sized env e" "event_sized env f"
    by (auto simp: linked_append)
  from v2 heq have "is_v2 f" by (simp add: is_v2_def)
  with link_ok_v2 [OF le v2] link_ok_v2 [OF lf] heq
  have b3: "ce_blake3 env (v2_preimage env e) = ce_blake3 env (v2_preimage env f)" by simp
  show ?case
  proof (cases "v2_preimage env e = v2_preimage env f")
    case True
    from v2_preimage_same_content [OF this sz assms(6) heq] have same: "same_content env e f" .
    then have "ev_previous_hash e = ev_previous_hash f"
      unfolding same_content_def by (metis audit_event.select_convs audit_event.surjective audit_event.update_convs(11))
    with le lf have "tip None es = tip None gs" by (simp add: link_ok_def)
    with snoc fs have "list_all2 (same_content env) es gs \<or> hash_collision env es gs"
      by (intro snoc.IH) (auto simp: linked_append)
    with same fs show ?thesis by (auto simp: list_all2_appendI hash_collision_def)
  next
    case False
    with b3 fs show ?thesis by (auto simp: hash_collision_def)
  qed
qed


lemma inj_sample_rfc3339: "inj sample_rfc3339"
proof (rule injI)
  fix a b assume eq: "sample_rfc3339 a = sample_rfc3339 b"
  have minus: "CHR ''-'' \<notin> set (show_nat n)" for n
    using show_nat_digits [of n] by (auto simp: list_all_iff is_ascii_digit_def)
  show "a = b"
  proof (cases "a < 0"; cases "b < 0")
    assume "a < 0" and "\<not> b < 0"
    with eq minus [of "nat b"] show ?thesis
      by (simp add: sample_rfc3339_def) (metis list.set_intros(1))
  next
    assume "\<not> a < 0" and "b < 0"
    with eq minus [of "nat a"] show ?thesis
      by (simp add: sample_rfc3339_def)
  qed (use eq in \<open>simp_all add: sample_rfc3339_def show_nat_inj\<close>)
qed


subsection \<open>What a verification error means\<close>

lemma verify_from_append:
  "linked env prev pre \<Longrightarrow> verify_from env prev (pre @ es) = verify_from env (tip prev pre) es"
  by (induction pre arbitrary: prev) (auto simp: link_ok_def)

lemma verify_from_broken:
  "\<not> link_ok env prev e \<Longrightarrow> verify_from env prev (e # es) = Inl (chain_error prev e)"
  by (simp add: link_ok_def)

lemma verify_from_errorD:
  "verify_from env prev es = Inl err \<Longrightarrow>
     \<exists>pre e post. es = pre @ e # post \<and> linked env prev pre \<and> \<not> link_ok env (tip prev pre) e
        \<and> err = chain_error (tip prev pre) e"
proof (induction es arbitrary: prev)
  case (Cons x xs)
  show ?case
  proof (cases "link_ok env prev x")
    case True
    with Cons.prems have "verify_from env (ev_hash x) xs = Inl err" by (simp add: link_ok_def)
    from Cons.IH [OF this] obtain pre e post where
      *: "xs = pre @ e # post" "linked env (ev_hash x) pre" "\<not> link_ok env (tip (ev_hash x) pre) e"
        "err = chain_error (tip (ev_hash x) pre) e"
      by blast
    with True show ?thesis by (intro exI [of _ "x # pre"]) auto
  next
    case False
    with Cons.prems have "err = chain_error prev x"
      using verify_from_broken [OF False, of xs] by (simp only: sum.inject)
    with False show ?thesis by (intro exI [of _ "[]"]) auto
  qed
qed simp

lemma verify_from_error:
  "verify_from env prev es = Inl err \<longleftrightarrow>
     (\<exists>pre e post. es = pre @ e # post \<and> linked env prev pre \<and> \<not> link_ok env (tip prev pre) e
        \<and> err = chain_error (tip prev pre) e)"
  using verify_from_errorD [of env prev es err]
  by (auto simp: verify_from_append verify_from_broken simp del: verify_from.simps)

text \<open>
  An error names the first broken link. Verification fails exactly when some event is not
  correctly linked while all events before it are, and the error carries that event's sequence
  number, the hash it should have pointed to and the one it does.
\<close>

theorem verify_chain_first_broken:
  "verify_chain env es = Inl err \<longleftrightarrow>
     (\<exists>pre e post. es = pre @ e # post \<and> verify_chain env pre = Inr ()
        \<and> \<not> link_ok env (tip None pre) e \<and> err = chain_error (tip None pre) e)"
  by (simp add: verify_chain_def verify_from_error verify_from_linked)

lemma verify_suffix_broken:
  assumes "linked env None (xs @ e # ys)" and "xs \<noteq> []"
  shows "verify_chain env (e # ys) = Inl (chain_error None e)"
proof -
  from assms(2) obtain zs z where "xs = zs @ [z]" by (metis append_butlast_last_id)
  with assms(1) have "ev_previous_hash e \<noteq> None" by (auto simp: linked_append link_ok_def)
  then show ?thesis by (simp add: verify_chain_def)
qed

end
