(* ===== verification/Audit_Storage.thy ===== *)
theory Audit_Storage
  imports Audit_Chain
begin

text \<open>
  The storage interface of the audit trail (\<^verbatim>\<open>src/acton-service/src/audit/storage/mod.rs\<close>) and
  its PostgreSQL implementation (\<^verbatim>\<open>src/acton-service/src/audit/storage/pg.rs\<close>).

  The interface is the locale \<open>audit_store\<close>: what each operation returns, in terms of the list of
  stored events in sequence order. The PostgreSQL backend is the table \<^verbatim>\<open>audit_events\<close> as a list
  of rows with the two immutability rules; each SQL statement of the source is read with its
  standard meaning on that table. What the server decides is a parameter, the record
  \<open>pg_env\<close>: whether the \<open>i\<close>-th statement of a call fails and with which text, the text of a
  constraint violation, and how TIMESTAMPTZ and JSONB columns give back a value.
\<close>

subsection \<open>The interface\<close>

text \<open>
  \<open>events\<close> lists what is stored, in sequence order; \<open>stored\<close> is what the backend gives back
  for an event it was given, and \<open>column\<close> what it makes of a time (a column may keep fewer digits
  than \<^verbatim>\<open>DateTime<Utc>\<close>).
\<close>

locale audit_store =
  fixes append :: "audit_event \<Rightarrow> 's \<Rightarrow> (error + unit) \<times> 's"
    and latest :: "'s \<Rightarrow> error + audit_event option"
    and query_before :: "datetime \<Rightarrow> nat \<Rightarrow> 's \<Rightarrow> error + audit_event list"
    and purge_before :: "datetime \<Rightarrow> 's \<Rightarrow> (error + nat) \<times> 's"
    and events :: "'s \<Rightarrow> audit_event list"
    and stored :: "audit_event \<Rightarrow> audit_event"
    and invar :: "'s \<Rightarrow> bool"
    and column :: "datetime \<Rightarrow> datetime"
  assumes append_ok:
      "\<lbrakk>invar s; append e s = (Inr u, s')\<rbrakk> \<Longrightarrow>
         invar s' \<and> set (events s') = insert (stored e) (set (events s))"
    and append_err: "append e s = (Inl x, s') \<Longrightarrow> s' = s"
    and ordered: "invar s \<Longrightarrow> sorted_wrt (<) (map (\<lambda>e. sint (ev_sequence e)) (events s))"
    and stored_links:
      "ev_sequence (stored e) = ev_sequence e \<and> ev_hash (stored e) = ev_hash e
       \<and> ev_previous_hash (stored e) = ev_previous_hash e"
    and latest_none: "latest s = Inr None \<Longrightarrow> events s = []"
    and latest_some: "latest s = Inr (Some e) \<Longrightarrow> events s \<noteq> [] \<and> e = last (events s)"
    and query_before_ok:
      "\<lbrakk>invar s; query_before cutoff n s = Inr es\<rbrakk> \<Longrightarrow>
         es = take n (filter (\<lambda>e. ev_timestamp e < column cutoff) (events s))"
    and purge_ok:
      "\<lbrakk>invar s; purge_before cutoff s = (Inr k, s')\<rbrakk> \<Longrightarrow>
         invar s' \<and> events s' = filter (\<lambda>e. column cutoff \<le> ev_timestamp e) (events s)"
    and purge_err: "purge_before cutoff s = (Inl x, s') \<Longrightarrow> events s' = events s"
begin

lemma purge_then_query_empty:
  assumes "invar s" and "purge_before cutoff s = (Inr k, s')" and "query_before cutoff n s' = Inr es"
  shows "es = []"
proof -
  have inv: "invar s'" and "events s' = filter (\<lambda>e. column cutoff \<le> ev_timestamp e) (events s)"
    using purge_ok [OF assms(1,2)] by simp_all
  then have "filter (\<lambda>e. ev_timestamp e < column cutoff) (events s') = []"
    by (auto simp: filter_empty_conv)
  then show ?thesis using query_before_ok [OF inv assms(3)] by simp
qed

lemma append_grows:
  assumes "invar s" and "append e s = (r, s')"
  shows "set (events s) \<subseteq> set (events s')"
  using assms append_ok [of s e] append_err [of e s] by (cases r) auto

text \<open>An event with a sequence number above all stored ones becomes the last one.\<close>

lemma append_last:
  assumes "invar s" and "append e s = (Inr u, s')"
    and "\<forall>f \<in> set (events s). sint (ev_sequence f) < sint (ev_sequence e)"
  shows "events s' = events s @ [stored e]"
proof (rule strict_sorted_key_unique)
  show "sorted_wrt (<) (map (\<lambda>e. sint (ev_sequence e)) (events s'))"
    using append_ok [OF assms(1,2)] by (intro ordered) simp
  show "sorted_wrt (<) (map (\<lambda>e. sint (ev_sequence e)) (events s @ [stored e]))"
    using ordered [OF assms(1)] assms(3) stored_links [of e] by (auto simp: sorted_wrt_append)
  show "set (events s') = set (events s @ [stored e])"
    using append_ok [OF assms(1,2)] by simp
qed

end

subsection \<open>Kinds read back from storage\<close>

definition looks_like_framework_kind :: "string \<Rightarrow> bool" where
  "looks_like_framework_kind s \<longleftrightarrow>
     starts_with s ''auth.'' \<or> starts_with s ''http.'' \<or> starts_with s ''account.''
     \<or> starts_with s ''config.''"

text \<open>
  \<^verbatim>\<open>parse_custom_kind\<close> only logs a warning for a framework-like kind; the result is the string
  without its \<^verbatim>\<open>custom.\<close> prefix.
\<close>

definition parse_custom_kind :: "string \<Rightarrow> string" where
  "parse_custom_kind s = (case strip_prefix s ''custom.'' of Some r \<Rightarrow> r | None \<Rightarrow> s)"

definition row_kind :: "string \<Rightarrow> audit_event_kind" where
  "row_kind s = (
      if s = ''auth.login.success'' then AuthLoginSuccess
      else if s = ''auth.login.failed'' then AuthLoginFailed
      else if s = ''auth.token.missing'' then AuthTokenMissing
      else if s = ''auth.token.invalid'' then AuthTokenInvalid
      else if s = ''auth.logout'' then AuthLogout
      else if s = ''auth.token.refresh'' then AuthTokenRefresh
      else if s = ''auth.token.revoked'' then AuthTokenRevoked
      else if s = ''auth.password.changed'' then AuthPasswordChanged
      else if s = ''auth.apikey.created'' then AuthApiKeyCreated
      else if s = ''auth.apikey.revoked'' then AuthApiKeyRevoked
      else if s = ''auth.oauth.callback'' then AuthOAuthCallback
      else if s = ''auth.permission.denied'' then AuthPermissionDenied
      else if s = ''auth.key.rotated'' then AuthKeyRotated
      else if s = ''auth.key.retired'' then AuthKeyRetired
      else if s = ''auth.key.rotation_failed'' then AuthKeyRotationFailed
      else if s = ''auth.account.locked'' then AuthAccountLocked
      else if s = ''auth.account.unlocked'' then AuthAccountUnlocked
      else if s = ''account.created'' then AccountCreated
      else if s = ''account.disabled'' then AccountDisabled
      else if s = ''account.enabled'' then AccountEnabled
      else if s = ''account.locked'' then KindAccountLocked
      else if s = ''account.unlocked'' then AccountUnlocked
      else if s = ''account.expired'' then AccountExpired
      else if s = ''account.deleted'' then AccountDeleted
      else if s = ''account.updated'' then AccountUpdated
      else if s = ''config.loaded'' then ConfigLoaded
      else if s = ''config.drift_detected'' then ConfigDriftDetected
      else if s = ''http.request'' then HttpRequest
      else if s = ''http.request.denied'' then HttpRequestDenied
      else Custom (parse_custom_kind s))"

definition row_severity_of :: "int \<Rightarrow> audit_severity" where
  "row_severity_of n =
     (if n = 0 then Emergency
      else if n = 1 then Alert
      else if n = 2 then Critical
      else if n = 3 then Error
      else if n = 4 then Warning
      else if n = 5 then Notice
      else if n = 7 then Debug
      else Informational)"

subsection \<open>The table\<close>

record audit_event_row =
  row_id :: uuid
  row_timestamp :: datetime
  row_kind_col :: string
  row_severity :: int
  row_source_ip :: "string option"
  row_source_user_agent :: "string option"
  row_source_subject :: "string option"
  row_source_request_id :: "string option"
  row_method :: "string option"
  row_path :: "string option"
  row_status_code :: "int option"
  row_duration_ms :: "int option"
  row_service_name :: string
  row_metadata :: "json option"
  row_hash :: "string option"
  row_previous_hash :: "string option"
  row_sequence :: int

record pg_audit =
  pg_rows :: "audit_event_row list"
  pg_no_update :: bool
  pg_no_delete :: bool

record pg_env =
  db_fault :: "nat \<Rightarrow> string option"
  db_violation :: string
  db_timestamptz :: "datetime \<Rightarrow> datetime"
  db_jsonb :: "json \<Rightarrow> json"

text \<open>The values bound by the INSERT, as the columns give them back.\<close>

definition row_of_event :: "pg_env \<Rightarrow> audit_event \<Rightarrow> audit_event_row" where
  "row_of_event db e =
     \<lparr>row_id = ev_id e,
      row_timestamp = db_timestamptz db (ev_timestamp e),
      row_kind_col = kind_display (ev_kind e),
      row_severity = uint (as_syslog_severity (ev_severity e)),
      row_source_ip = src_ip (ev_source e),
      row_source_user_agent = src_user_agent (ev_source e),
      row_source_subject = src_subject (ev_source e),
      row_source_request_id = src_request_id (ev_source e),
      row_method = ev_method e,
      row_path = ev_path e,
      row_status_code = map_option sint (ev_status_code e),
      row_duration_ms = map_option sint (ev_duration_ms e),
      row_service_name = ev_service_name e,
      row_metadata = map_option (db_jsonb db) (ev_metadata e),
      row_hash = ev_hash e,
      row_previous_hash = ev_previous_hash e,
      row_sequence = sint (ev_sequence e)\<rparr>"

text \<open>\<^verbatim>\<open>From<AuditEventRow> for AuditEvent\<close>.\<close>

definition event_of_row :: "audit_event_row \<Rightarrow> audit_event" where
  "event_of_row row =
     \<lparr>ev_id = row_id row,
      ev_timestamp = row_timestamp row,
      ev_kind = row_kind (row_kind_col row),
      ev_severity = row_severity_of (row_severity row),
      ev_source = \<lparr>src_ip = row_source_ip row, src_user_agent = row_source_user_agent row,
                   src_subject = row_source_subject row, src_request_id = row_source_request_id row\<rparr>,
      ev_method = row_method row,
      ev_path = row_path row,
      ev_status_code = map_option word_of_int (row_status_code row),
      ev_duration_ms = map_option word_of_int (row_duration_ms row),
      ev_service_name = row_service_name row,
      ev_metadata = row_metadata row,
      ev_hash = row_hash row,
      ev_previous_hash = row_previous_hash row,
      ev_sequence = word_of_int (row_sequence row)\<rparr>"

subsection \<open>The operations\<close>

definition pg_initialize :: "pg_env \<Rightarrow> pg_audit \<Rightarrow> (error + unit) \<times> pg_audit" where
  "pg_initialize db s =
     (case db_fault db 0 of
        Some m \<Rightarrow> (Inl (Internal (''Failed to create audit_events table: '' @ m)), s)
      | None \<Rightarrow>
     (case db_fault db 1 of
        Some m \<Rightarrow> (Inl (Internal (''Failed to create audit index: '' @ m)), s)
      | None \<Rightarrow>
     (case db_fault db 2 of
        Some m \<Rightarrow> (Inl (Internal (''Failed to create audit timestamp index: '' @ m)), s)
      | None \<Rightarrow>
     (case db_fault db 3 of
        Some m \<Rightarrow> (Inl (Internal (''Failed to create audit immutability rules: '' @ m)), s)
      | None \<Rightarrow> (Inr (), s\<lparr>pg_no_update := True, pg_no_delete := True\<rparr>)))))"

text \<open>The constraints of the table: primary key, unique sequence, hash not null.\<close>

definition row_admissible :: "audit_event_row list \<Rightarrow> audit_event_row \<Rightarrow> bool" where
  "row_admissible rows r \<longleftrightarrow>
     row_id r \<notin> set (map row_id rows) \<and> row_sequence r \<notin> set (map row_sequence rows)
     \<and> row_hash r \<noteq> None"

definition pg_append :: "pg_env \<Rightarrow> audit_event \<Rightarrow> pg_audit \<Rightarrow> (error + unit) \<times> pg_audit" where
  "pg_append db event s =
     (let r = row_of_event db event
      in case db_fault db 0 of
           Some m \<Rightarrow> (Inl (Internal (''Failed to append audit event: '' @ m)), s)
         | None \<Rightarrow>
             if row_admissible (pg_rows s) r then (Inr (), s\<lparr>pg_rows := pg_rows s @ [r]\<rparr>)
             else (Inl (Internal (''Failed to append audit event: '' @ db_violation db)), s))"

definition rows_by_sequence :: "pg_audit \<Rightarrow> audit_event_row list" where
  "rows_by_sequence s = sort_key row_sequence (pg_rows s)"

definition pg_events :: "pg_audit \<Rightarrow> audit_event list" where
  "pg_events s = map event_of_row (rows_by_sequence s)"

definition pg_latest :: "pg_env \<Rightarrow> pg_audit \<Rightarrow> error + audit_event option" where
  "pg_latest db s =
     (case db_fault db 0 of
        Some m \<Rightarrow> Inl (Internal (''Failed to fetch latest audit event: '' @ m))
      | None \<Rightarrow>
          (case rev (rows_by_sequence s) of
             [] \<Rightarrow> Inr None
           | row # _ \<Rightarrow> Inr (Some (event_of_row row))))"

definition pg_query_range ::
  "pg_env \<Rightarrow> datetime \<Rightarrow> datetime \<Rightarrow> nat \<Rightarrow> pg_audit \<Rightarrow> error + audit_event list" where
  "pg_query_range db from to limit s =
     (case db_fault db 0 of
        Some m \<Rightarrow> Inl (Internal (''Failed to query audit events: '' @ m))
      | None \<Rightarrow>
          Inr (map event_of_row (take limit
            (filter (\<lambda>r. db_timestamptz db from \<le> row_timestamp r \<and> row_timestamp r \<le> db_timestamptz db to)
               (rows_by_sequence s)))))"

definition pg_query_before ::
  "pg_env \<Rightarrow> datetime \<Rightarrow> nat \<Rightarrow> pg_audit \<Rightarrow> error + audit_event list" where
  "pg_query_before db cutoff limit s =
     (case db_fault db 0 of
        Some m \<Rightarrow> Inl (Internal (''Failed to query audit events before cutoff: '' @ m))
      | None \<Rightarrow>
          Inr (map event_of_row (take limit
            (filter (\<lambda>r. row_timestamp r < db_timestamptz db cutoff) (rows_by_sequence s)))))"

text \<open>
  A DELETE does nothing while the rule \<^verbatim>\<open>audit_no_delete\<close> exists; it returns the number of rows
  it removed.
\<close>

definition delete_before :: "datetime \<Rightarrow> pg_audit \<Rightarrow> nat \<times> pg_audit" where
  "delete_before cutoff s =
     (if pg_no_delete s then (0, s)
      else (length (filter (\<lambda>r. row_timestamp r < cutoff) (pg_rows s)),
            s\<lparr>pg_rows := filter (\<lambda>r. \<not> row_timestamp r < cutoff) (pg_rows s)\<rparr>))"

definition pg_purge_before :: "pg_env \<Rightarrow> datetime \<Rightarrow> pg_audit \<Rightarrow> (error + nat) \<times> pg_audit" where
  "pg_purge_before db cutoff s =
     (case db_fault db 0 of
        Some m \<Rightarrow> (Inl (Internal (''Failed to drop audit_no_delete rule: '' @ m)), s)
      | None \<Rightarrow>
          (let s = s\<lparr>pg_no_delete := False\<rparr>;
               (result, s) = (case db_fault db 1 of
                   Some m \<Rightarrow> (Inl m, s)
                 | None \<Rightarrow> (case delete_before (db_timestamptz db cutoff) s of (n, s) \<Rightarrow> (Inr n, s)));
               s = (case db_fault db 2 of Some m \<Rightarrow> s | None \<Rightarrow> s\<lparr>pg_no_delete := True\<rparr>)
           in case result of
                Inl m \<Rightarrow> (Inl (Internal (''Failed to purge audit events: '' @ m)), s)
              | Inr n \<Rightarrow> (Inr n, s)))"

definition pg_verify_chain ::
  "pg_env \<Rightarrow> chain_env \<Rightarrow> u64 \<Rightarrow> pg_audit \<Rightarrow> error + u64 option" where
  "pg_verify_chain db env from_sequence s =
     (case db_fault db 0 of
        Some m \<Rightarrow> Inl (Internal (''Failed to fetch audit events for verification: '' @ m))
      | None \<Rightarrow>
          (case verify_chain env (map event_of_row
              (filter (\<lambda>r. sint from_sequence \<le> row_sequence r) (rows_by_sequence s))) of
             Inr _ \<Rightarrow> Inr None
           | Inl e \<Rightarrow> Inr (Some (cv_sequence e))))"

subsection \<open>Rows and events\<close>

lemma row_kind_display [simp]: "row_kind (kind_display k) = k"
  by (cases k) (simp_all add: row_kind_def parse_custom_kind_def)

lemma row_severity_as_syslog [simp]: "row_severity_of (uint (as_syslog_severity v)) = v"
  by (cases v) (simp_all add: row_severity_of_def)

definition pg_stored :: "pg_env \<Rightarrow> audit_event \<Rightarrow> audit_event" where
  "pg_stored db e = e\<lparr>ev_timestamp := db_timestamptz db (ev_timestamp e),
      ev_metadata := map_option (db_jsonb db) (ev_metadata e)\<rparr>"

lemma map_option_word_sint [simp]: "map_option (word_of_int \<circ> sint) x = x"
  by (cases x) simp_all

lemma event_of_row_of_event: "event_of_row (row_of_event db e) = pg_stored db e"
  by (auto simp: event_of_row_def row_of_event_def pg_stored_def option.map_comp)

lemma event_of_row_timestamp [simp]: "ev_timestamp (event_of_row r) = row_timestamp r"
  by (simp add: event_of_row_def)

subsection \<open>The PostgreSQL backend implements the interface\<close>

definition row_ranged :: "audit_event_row \<Rightarrow> bool" where
  "row_ranged r \<longleftrightarrow> sint (word_of_int (row_sequence r) :: u64) = row_sequence r"

definition pg_inv :: "pg_audit \<Rightarrow> bool" where
  "pg_inv s \<longleftrightarrow> distinct (map row_sequence (pg_rows s)) \<and> list_all row_ranged (pg_rows s)"

lemma rows_by_sequence_strict:
  assumes "pg_inv s"
  shows "sorted_wrt (<) (map row_sequence (rows_by_sequence s))"
proof -
  have "sorted (map row_sequence (rows_by_sequence s))"
    by (simp add: rows_by_sequence_def)
  moreover have "distinct (map row_sequence (rows_by_sequence s))"
    using assms unfolding pg_inv_def rows_by_sequence_def
    by (simp add: distinct_map)
  ultimately show ?thesis by (simp add: strict_sorted_iff)
qed

lemma pg_events_ordered:
  assumes "pg_inv s"
  shows "sorted_wrt (<) (map (\<lambda>e. sint (ev_sequence e)) (pg_events s))"
proof -
  have "map (\<lambda>e. sint (ev_sequence e)) (pg_events s) = map row_sequence (rows_by_sequence s)"
    using assms by (auto simp: pg_events_def pg_inv_def rows_by_sequence_def list_all_iff
        row_ranged_def event_of_row_def)
  with rows_by_sequence_strict [OF assms] show ?thesis by simp
qed

lemma pg_append_ok:
  assumes "pg_inv s" and "pg_append db e s = (Inr u, s')"
  shows "pg_inv s' \<and> set (pg_events s') = insert (pg_stored db e) (set (pg_events s))"
proof -
  have s': "s' = s\<lparr>pg_rows := pg_rows s @ [row_of_event db e]\<rparr>"
    and adm: "row_admissible (pg_rows s) (row_of_event db e)"
    using assms(2) by (auto simp: pg_append_def Let_def split: option.splits if_splits)
  have "row_ranged (row_of_event db e)" by (simp add: row_ranged_def row_of_event_def)
  with assms(1) adm s' have "pg_inv s'" by (simp add: pg_inv_def row_admissible_def)
  with s' show ?thesis
    by (simp add: pg_events_def rows_by_sequence_def event_of_row_of_event)
qed

lemma pg_append_err: "pg_append db e s = (Inl x, s') \<Longrightarrow> s' = s"
  by (auto simp: pg_append_def Let_def split: option.splits if_splits)

lemma pg_purge_ok:
  assumes "pg_inv s" and "pg_purge_before db cutoff s = (Inr k, s')"
  shows "pg_inv s' \<and> pg_events s' = filter (\<lambda>e. db_timestamptz db cutoff \<le> ev_timestamp e) (pg_events s)
    \<and> k = length (filter (\<lambda>e. ev_timestamp e < db_timestamptz db cutoff) (pg_events s))"
proof -
  have rows: "pg_rows s' = filter (\<lambda>r. \<not> row_timestamp r < db_timestamptz db cutoff) (pg_rows s)"
    and k: "k = length (filter (\<lambda>r. row_timestamp r < db_timestamptz db cutoff) (pg_rows s))"
    using assms(2) by (auto simp: pg_purge_before_def delete_before_def Let_def
        split: option.splits if_splits)
  have "pg_events s' = filter (\<lambda>e. db_timestamptz db cutoff \<le> ev_timestamp e) (pg_events s)"
    by (simp add: pg_events_def rows_by_sequence_def rows filter_sort [symmetric] filter_map
        comp_def not_less)
  moreover have "k = length (filter (\<lambda>e. ev_timestamp e < db_timestamptz db cutoff) (pg_events s))"
    by (simp add: k pg_events_def rows_by_sequence_def filter_map comp_def filter_sort)
  ultimately show ?thesis
    using assms(1) by (auto simp: pg_inv_def rows list_all_iff distinct_map intro: inj_on_subset)
qed

lemma pg_purge_err: "pg_purge_before db cutoff s = (Inl x, s') \<Longrightarrow> pg_rows s' = pg_rows s"
  by (auto simp: pg_purge_before_def Let_def split: option.splits prod.splits)

lemma pg_latest_last:
  "pg_latest db s = Inr r \<Longrightarrow> r = (if pg_events s = [] then None else Some (last (pg_events s)))"
  by (cases "rows_by_sequence s" rule: rev_cases)
    (auto simp: pg_latest_def pg_events_def split: option.splits)

lemma pg_query_before_ok:
  "pg_query_before db cutoff n s = Inr es \<Longrightarrow>
     es = take n (filter (\<lambda>e. ev_timestamp e < db_timestamptz db cutoff) (pg_events s))"
  by (auto simp: pg_query_before_def pg_events_def filter_map comp_def take_map
      split: option.splits)

text \<open>One server; each statement may meet other faults.\<close>

interpretation pg: audit_store "pg_append db" "pg_latest db\<^sub>1" "pg_query_before (db\<lparr>db_fault := f\<rparr>)"
  "pg_purge_before (db\<lparr>db_fault := g\<rparr>)" pg_events "pg_stored db" pg_inv "db_timestamptz db" for db db\<^sub>1 f g
proof unfold_locales
  show "pg_inv s' \<and> set (pg_events s') = insert (pg_stored db e) (set (pg_events s))"
    if "pg_inv s" and "pg_append db e s = (Inr u, s')" for s s' e u
    using pg_append_ok [OF that] .
  show "s' = s" if "pg_append db e s = (Inl x, s')" for e s x s'
    using pg_append_err [OF that] .
  show "sorted_wrt (<) (map (\<lambda>e. sint (ev_sequence e)) (pg_events s))" if "pg_inv s" for s
    using pg_events_ordered [OF that] .
  show "ev_sequence (pg_stored db e) = ev_sequence e \<and> ev_hash (pg_stored db e) = ev_hash e
      \<and> ev_previous_hash (pg_stored db e) = ev_previous_hash e" for e
    by (simp add: pg_stored_def)
  show "pg_events s = []" if "pg_latest db\<^sub>1 s = Inr None" for s
    using pg_latest_last [OF that] by (simp split: if_splits)
  show "pg_events s \<noteq> [] \<and> e = last (pg_events s)" if "pg_latest db\<^sub>1 s = Inr (Some e)" for s e
    using pg_latest_last [OF that] by (simp split: if_splits)
  show "es = take n (filter (\<lambda>e. ev_timestamp e < db_timestamptz db cutoff) (pg_events s))"
    if "pg_inv s" and "pg_query_before (db\<lparr>db_fault := f\<rparr>) cutoff n s = Inr es" for cutoff n s es
    using pg_query_before_ok [OF that(2)] by simp
  show "pg_inv s' \<and> pg_events s' = filter (\<lambda>e. db_timestamptz db cutoff \<le> ev_timestamp e) (pg_events s)"
    if "pg_inv s" and "pg_purge_before (db\<lparr>db_fault := g\<rparr>) cutoff s = (Inr k, s')" for s cutoff k s'
    using pg_purge_ok [OF that] by simp
  show "pg_events s' = pg_events s" if "pg_purge_before (db\<lparr>db_fault := g\<rparr>) cutoff s = (Inl x, s')" for cutoff s x s'
    using pg_purge_err [OF that] by (simp add: pg_events_def rows_by_sequence_def)
qed

lemma sorted_split:
  fixes f :: "'a \<Rightarrow> 'k::linorder"
  assumes "sorted (map f zs)"
  shows "zs = filter (\<lambda>x. \<not> c \<le> f x) zs @ filter (\<lambda>x. c \<le> f x) zs"
  using assms
proof (induction zs)
  case (Cons z zs)
  show ?case
  proof (cases "c \<le> f z")
    case True
    with Cons.prems have "\<forall>x \<in> set zs. c \<le> f x" by auto
    then have "filter (\<lambda>x. \<not> c \<le> f x) zs = []" by (simp add: filter_empty_conv)
    with True Cons show ?thesis by simp
  qed (use Cons in simp)
qed simp

subsection \<open>Properties\<close>

text \<open>
  Every field of an event survives the table: the row written for an event reads back as the
  event itself, with its kind, severity, status code, duration and 64-bit sequence number, except
  that the timestamp and the metadata are what a TIMESTAMPTZ and a JSONB column give back.
\<close>

theorem pg_event_roundtrip:
  "event_of_row (row_of_event db e) =
     e\<lparr>ev_timestamp := db_timestamptz db (ev_timestamp e),
       ev_metadata := map_option (db_jsonb db) (ev_metadata e)\<rparr>"
  by (simp add: event_of_row_of_event pg_stored_def)

lemma pg_events_from:
  assumes "pg_inv s"
  shows "map event_of_row (filter (\<lambda>r. n \<le> row_sequence r) (rows_by_sequence s)) =
    filter (\<lambda>e. n \<le> sint (ev_sequence e)) (pg_events s)"
proof -
  have "\<forall>r \<in> set (rows_by_sequence s). sint (ev_sequence (event_of_row r)) = row_sequence r"
    using assms by (auto simp: pg_inv_def rows_by_sequence_def list_all_iff row_ranged_def
        event_of_row_def)
  then show ?thesis
    unfolding pg_events_def filter_map by (intro arg_cong [of _ _ "map event_of_row"] filter_cong) auto
qed

lemma pg_verify_chain_events:
  assumes "pg_inv s" and "db_fault db 0 = None"
  shows "pg_verify_chain db env from s =
    (case verify_chain env (filter (\<lambda>e. sint from \<le> sint (ev_sequence e)) (pg_events s)) of
       Inr _ \<Rightarrow> Inr None | Inl err \<Rightarrow> Inr (Some (cv_sequence err)))"
  using assms by (simp add: pg_verify_chain_def pg_events_from)

text \<open>
  Verification of the stored table needs the genesis event. On a table whose events form an
  intact chain, \<^verbatim>\<open>verify_chain(from)\<close> reports no break exactly when \<open>from\<close> is at most the first
  stored sequence number or above the last one; from any other starting point it reports the
  first event it reads as broken although nothing was tampered with.
\<close>

theorem pg_verify_chain_from:
  assumes "pg_inv s" and "db_fault db 0 = None"
    and "verify_chain env (pg_events s) = Inr ()"
    and "pg_events s = xs @ e # ys"
    and "\<forall>x \<in> set xs. sint (ev_sequence x) < sint from" and "sint from \<le> sint (ev_sequence e)"
  shows "pg_verify_chain db env from s = Inr (if xs = [] then None else Some (ev_sequence e))"
proof -
  let ?q = "\<lambda>e. sint from \<le> sint (ev_sequence e)"
  have "sorted_wrt (<) (map (\<lambda>e. sint (ev_sequence e)) (xs @ e # ys))"
    using pg_events_ordered [OF assms(1)] assms(4) by simp
  then have "\<forall>y \<in> set ys. ?q y" using assms(6) by (auto simp: sorted_wrt_append)
  moreover have "filter ?q xs = []" using assms(5) by (auto simp: filter_empty_conv)
  ultimately have "filter ?q (pg_events s) = e # ys" using assms(4,6) by simp
  moreover have "linked env None (xs @ e # ys)"
    using assms(3,4) by (simp add: verify_chain_def verify_from_linked)
  ultimately have "verify_chain env (filter ?q (pg_events s)) =
      (if xs = [] then Inr () else Inl (chain_error None e))"
    using assms(3,4) verify_suffix_broken [of env xs e ys] by auto
  then show ?thesis
    by (simp add: pg_verify_chain_events [OF assms(1,2)] chain_error_def)
qed

text \<open>A server without faults that stores timestamps and metadata as they are.\<close>

definition sample_db :: pg_env where
  "sample_db = \<lparr>db_fault = (\<lambda>_. None), db_violation = ''duplicate key'',
     db_timestamptz = (\<lambda>t. t), db_jsonb = (\<lambda>j. j)\<rparr>"

definition sample_stored :: "audit_event list" where
  "sample_stored = fst (seal_all sample_env (chain_new ''s'')
     [audit_event_new [1] 5 HttpRequest Notice ''a'', audit_event_new [2] 6 AuthLogout Notice ''a''])"

definition sample_table :: pg_audit where
  "sample_table = \<lparr>pg_rows = map (row_of_event sample_db) sample_stored, pg_no_update = True,
     pg_no_delete = True\<rparr>"

lemma sample_stored_sequences: "map ev_sequence sample_stored = [1, 2]"
  by (simp add: sample_stored_def seal_def Let_def chain_new_def)

lemma sample_table_inv: "pg_inv sample_table"
proof -
  have "map row_sequence (pg_rows sample_table) = map sint (map ev_sequence sample_stored)"
    by (simp add: sample_table_def row_of_event_def)
  then have "distinct (map row_sequence (pg_rows sample_table))"
    by (simp add: sample_stored_sequences)
  then show ?thesis
    by (simp add: pg_inv_def sample_table_def list_all_iff row_ranged_def row_of_event_def)
qed

lemma sample_table_events: "pg_events sample_table = sample_stored"
proof -
  have "sorted (map row_sequence (pg_rows sample_table))"
    by (simp add: sample_table_def row_of_event_def sample_stored_def seal_def Let_def chain_new_def)
  then have "rows_by_sequence sample_table = pg_rows sample_table"
    by (simp add: rows_by_sequence_def sort_key_id_if_sorted)
  then show ?thesis
    by (simp add: pg_events_def sample_table_def event_of_row_of_event comp_def pg_stored_def sample_db_def
        option.map_ident)
qed

theorem pg_verify_chain_from_witness:
  "pg_verify_chain sample_db sample_env 2 sample_table = Inr (Some 2)"
proof -
  obtain a b where ab: "sample_stored = [a, b]" "ev_sequence a = 1" "ev_sequence b = 2"
    using sample_stored_sequences by (cases sample_stored; cases "tl sample_stored") auto
  have "verify_chain sample_env (pg_events sample_table) = Inr ()"
    by (simp only: sample_table_events sample_stored_def verify_chain_def verify_from_linked linked_seal_all)
  then show ?thesis
    using pg_verify_chain_from [OF sample_table_inv, of sample_db sample_env "[a]" b "[]" 2] ab
    by (simp add: sample_db_def sample_table_events)
qed

text \<open>
  Retention breaks verification. When a purge of an intact chain whose timestamps follow the
  sequence removes some but not all events, verification of what is left reports the oldest
  surviving event as broken, from every starting point that reads it.
\<close>

theorem pg_purge_breaks_verification:
  assumes "pg_inv s" and "db_fault db 0 = None"
    and "verify_chain env (pg_events s) = Inr ()"
    and "sorted (map ev_timestamp (pg_events s))"
    and "pg_purge_before db' cutoff s = (Inr k, s')" and "0 < k" and "pg_events s' = e # es"
    and "sint from \<le> sint (ev_sequence e)"
  shows "pg_verify_chain db env from s' = Inr (Some (ev_sequence e))"
proof -
  let ?new = "\<lambda>e. db_timestamptz db' cutoff \<le> ev_timestamp e"
  have inv': "pg_inv s'" and ev': "pg_events s' = filter ?new (pg_events s)"
    and k: "k = length (filter (\<lambda>e. ev_timestamp e < db_timestamptz db' cutoff) (pg_events s))"
    using pg_purge_ok [OF assms(1,5)] by auto
  define xs where "xs = filter (\<lambda>e. \<not> ?new e) (pg_events s)"
  have split: "pg_events s = xs @ e # es"
    using sorted_split [OF assms(4), of "db_timestamptz db' cutoff"] ev' assms(7) unfolding xs_def by simp
  have "length xs = k" by (simp add: xs_def k not_le)
  with assms(6) have "xs \<noteq> []" by auto
  moreover have "linked env None (xs @ e # es)"
    using assms(3) split by (simp add: verify_chain_def verify_from_linked)
  ultimately have broken: "verify_chain env (e # es) = Inl (chain_error None e)"
    by (intro verify_suffix_broken)
  have "sorted_wrt (<) (map (\<lambda>e. sint (ev_sequence e)) (e # es))"
    using pg_events_ordered [OF inv'] assms(7) by simp
  then have "filter (\<lambda>e. sint from \<le> sint (ev_sequence e)) (pg_events s') = e # es"
    using assms(7,8) by (auto intro!: filter_True)
  with broken show ?thesis
    by (simp add: pg_verify_chain_events [OF inv' assms(2)] chain_error_def)
qed

theorem pg_purge_breaks_verification_witness:
  "pg_verify_chain sample_db sample_env 0 (snd (pg_purge_before sample_db 6 sample_table)) =
     Inr (Some 2)"
proof -
  obtain a b where ab: "sample_stored = [a, b]" "ev_sequence a = 1" "ev_sequence b = 2"
    using sample_stored_sequences by (cases sample_stored; cases "tl sample_stored") auto
  have "map ev_timestamp sample_stored = [5, 6]"
    by (simp add: sample_stored_def seal_def Let_def audit_event_defs)
  then have ts: "ev_timestamp a = 5" "ev_timestamp b = 6" by (simp_all add: ab(1))
  obtain k s' where p: "pg_purge_before sample_db 6 sample_table = (Inr k, s')"
    by (simp add: pg_purge_before_def delete_before_def sample_db_def sample_table_def Let_def)
  have "verify_chain sample_env (pg_events sample_table) = Inr ()"
    by (simp only: sample_table_events sample_stored_def verify_chain_def verify_from_linked linked_seal_all)
  moreover have "k = 1" and "pg_events s' = [b]"
    using pg_purge_ok [OF sample_table_inv p] ts by (simp_all add: sample_table_events sample_db_def ab(1))
  ultimately show ?thesis
    using pg_purge_breaks_verification [OF sample_table_inv _ _ _ p, of sample_db sample_env b "[]" 0]
      ts ab(2,3) p by (simp add: sample_table_events sample_db_def ab(1))
qed

text \<open>
  The table is locked again after a purge. Whatever happens to the DELETE, the rule that
  forbids deletion is in force after \<^verbatim>\<open>purge_before\<close> provided it was before and its
  reinstating statement succeeds; and while the rule is in force a DELETE removes nothing.
\<close>

theorem pg_purge_relocks:
  assumes "pg_no_delete s" and "db_fault db 2 = None"
  shows "pg_no_delete (snd (pg_purge_before db cutoff s)) \<and>
    delete_before c (snd (pg_purge_before db cutoff s)) = (0, snd (pg_purge_before db cutoff s))"
  using assms by (simp add: pg_purge_before_def delete_before_def Let_def split: option.splits prod.splits)

theorem pg_purge_relocks_witness:
  "pg_no_delete (snd (pg_purge_before sample_db 6 sample_table)) \<and>
    delete_before 9 (snd (pg_purge_before sample_db 6 sample_table)) =
      (0, snd (pg_purge_before sample_db 6 sample_table))"
  by (rule pg_purge_relocks) (simp_all add: sample_db_def sample_table_def)

end
