(* ===== verification/Audit_Failure_Tracker.thy ===== *)
theory Audit_Failure_Tracker
  imports Errors
begin

text \<open>
  The tracker of audit storage failures (\<^verbatim>\<open>src/acton-service/src/audit/failure_tracker.rs\<close>, with
  the alert events of \<^verbatim>\<open>src/acton-service/src/audit/alert.rs\<close>). The state behind the mutex is a
  record; every critical section is one function from state to state, since the lock is never held
  across an await. A panic (an \<^verbatim>\<open>unwrap\<close> of \<^verbatim>\<open>None\<close>) is \<^const>\<open>None\<close>. The clocks are
  arguments. Dispatch hands the event to every hook; the result lists the deliveries.
\<close>

datatype audit_alert_event =
  StorageUnreachable datetime u64 nat string string
    \<comment> \<open>first failure, consecutive failures, seconds unreachable, last error, service\<close>
| StorageRecovered datetime datetime nat u64 string
    \<comment> \<open>outage start, recovery, outage seconds, events affected, service\<close>

record tracker_state =
  first_failure_at :: "instant option"
  first_failure_wall :: "datetime option"
  consecutive_failures :: u64
  last_error :: string
  last_alert_at :: "instant option"
  alert_active :: bool
  events_affected_during_outage :: u64

record failure_tracker =
  ft_hooks :: "nat list"
  ft_threshold :: nat
  ft_cooldown :: nat
  ft_notify_recovery :: bool
  ft_service_name :: string

type_synonym deliveries = "(nat \<times> audit_alert_event) list"

definition tracker_state_new :: tracker_state where
  "tracker_state_new =
     \<lparr>first_failure_at = None, first_failure_wall = None, consecutive_failures = 0,
      last_error = [], last_alert_at = None, alert_active = False,
      events_affected_during_outage = 0\<rparr>"

definition failure_tracker_new ::
  "nat list \<Rightarrow> nat \<Rightarrow> nat \<Rightarrow> bool \<Rightarrow> string \<Rightarrow> failure_tracker \<times> tracker_state" where
  "failure_tracker_new hooks threshold_secs cooldown_secs notify_recovery service_name =
     (\<lparr>ft_hooks = hooks, ft_threshold = from_secs threshold_secs,
       ft_cooldown = from_secs cooldown_secs, ft_notify_recovery = notify_recovery,
       ft_service_name = service_name\<rparr>, tracker_state_new)"

definition dispatch :: "failure_tracker \<Rightarrow> audit_alert_event \<Rightarrow> deliveries" where
  "dispatch ft event = map (\<lambda>hook. (hook, event)) (ft_hooks ft)"

text \<open>
  \<^verbatim>\<open>record_failure\<close>. \<^verbatim>\<open>Instant::duration_since\<close> saturates at zero, as subtraction on
  \<^typ>\<open>nat\<close> does.
\<close>

definition record_failure ::
  "failure_tracker \<Rightarrow> instant \<Rightarrow> datetime \<Rightarrow> string \<Rightarrow> tracker_state \<Rightarrow>
     (tracker_state \<times> audit_alert_event option) option" where
  "record_failure ft now utc_now error state =
     (let state = (if first_failure_at state = None
                   then state\<lparr>first_failure_at := Some now, first_failure_wall := Some utc_now\<rparr>
                   else state);
          state = state\<lparr>consecutive_failures := consecutive_failures state + 1,
                        events_affected_during_outage := events_affected_during_outage state + 1,
                        last_error := error\<rparr>
      in case first_failure_at state of
           None \<Rightarrow> None
         | Some first \<Rightarrow>
             (let elapsed = now - first
              in if ft_threshold ft \<le> elapsed
                 then (let cooldown_ok = (case last_alert_at state of
                             Some last_at \<Rightarrow> ft_cooldown ft \<le> now - last_at
                           | None \<Rightarrow> True)
                       in if cooldown_ok
                          then (case first_failure_wall state of
                                  None \<Rightarrow> None
                                | Some wall \<Rightarrow>
                                    Some (state\<lparr>last_alert_at := Some now, alert_active := True\<rparr>,
                                          Some (StorageUnreachable wall (consecutive_failures state)
                                            (as_secs elapsed) (last_error state) (ft_service_name ft))))
                          else Some (state, None))
                 else Some (state, None)))"

definition record_success ::
  "failure_tracker \<Rightarrow> datetime \<Rightarrow> tracker_state \<Rightarrow>
     (tracker_state \<times> audit_alert_event option) option" where
  "record_success ft utc_now state =
     (let reset = state\<lparr>first_failure_at := None, first_failure_wall := None,
                        consecutive_failures := 0, last_error := [], alert_active := False,
                        events_affected_during_outage := 0\<rparr>
      in if alert_active state \<and> ft_notify_recovery ft
         then (case first_failure_wall state of
                 None \<Rightarrow> None
               | Some outage_started \<Rightarrow>
                   Some (reset, Some (StorageRecovered outage_started utc_now
                     (nat (max 0 (num_seconds (utc_now - outage_started))))
                     (events_affected_during_outage state) (ft_service_name ft))))
         else Some (reset, None))"

fun consecutive_failures_count :: "audit_alert_event \<Rightarrow> u64" where
  "consecutive_failures_count (StorageUnreachable _ n _ _ _) = n"
| "consecutive_failures_count _ = 0"

subsection \<open>Runs\<close>

text \<open>A call of the tracker, with the clock values it reads, and a run of calls.\<close>

datatype tracker_call = Failure instant datetime string | Success datetime

fun tracker_step ::
  "failure_tracker \<Rightarrow> tracker_state \<Rightarrow> tracker_call \<Rightarrow>
     (tracker_state \<times> audit_alert_event option) option" where
  "tracker_step ft st (Failure now utc err) = record_failure ft now utc err st"
| "tracker_step ft st (Success utc) = record_success ft utc st"

text \<open>The alerts of a run, each with the call that raised it.\<close>

fun tracker_run ::
  "failure_tracker \<Rightarrow> tracker_state \<Rightarrow> tracker_call list \<Rightarrow>
     (tracker_state \<times> (tracker_call \<times> audit_alert_event) list) option" where
  "tracker_run ft st [] = Some (st, [])"
| "tracker_run ft st (c # cs) =
     (case tracker_step ft st c of
        None \<Rightarrow> None
      | Some (st', ev) \<Rightarrow>
          (case tracker_run ft st' cs of
             None \<Rightarrow> None
           | Some (st'', evs) \<Rightarrow>
               Some (st'', (case ev of None \<Rightarrow> [] | Some a \<Rightarrow> [(c, a)]) @ evs)))"

subsection \<open>Invariant and properties\<close>

definition tracker_inv :: "tracker_state \<Rightarrow> bool" where
  "tracker_inv st \<longleftrightarrow>
     (first_failure_at st = None \<longleftrightarrow> first_failure_wall st = None) \<and>
     (alert_active st \<longrightarrow> first_failure_at st \<noteq> None \<and> last_alert_at st \<noteq> None) \<and>
     (first_failure_at st = None \<longrightarrow>
        consecutive_failures st = 0 \<and> events_affected_during_outage st = 0)"

lemma tracker_inv_new [simp]: "tracker_inv tracker_state_new"
  by (simp add: tracker_inv_def tracker_state_new_def)

lemma tracker_failure_ok:
  assumes "tracker_inv st"
  shows "\<exists>st' ev. record_failure ft now utc err st = Some (st', ev) \<and> tracker_inv st'"
  using assms
  by (cases "first_failure_at st"; cases "first_failure_wall st"; cases "last_alert_at st")
    (simp_all add: record_failure_def tracker_inv_def Let_def)

lemma tracker_success_ok:
  assumes "tracker_inv st"
  shows "\<exists>st' ev. record_success ft utc st = Some (st', ev) \<and> tracker_inv st'"
  using assms
  by (cases "first_failure_at st"; cases "first_failure_wall st")
    (simp_all add: record_success_def tracker_inv_def Let_def)

lemma tracker_step_ok:
  assumes "tracker_inv st"
  shows "\<exists>st' ev. tracker_step ft st c = Some (st', ev) \<and> tracker_inv st'"
  using tracker_failure_ok [OF assms] tracker_success_ok [OF assms] by (cases c) auto

lemma tracker_step_inv:
  "tracker_inv st \<Longrightarrow> tracker_step ft st c = Some (st', ev) \<Longrightarrow> tracker_inv st'"
  using tracker_step_ok [of st ft c] by auto

lemma tracker_run_ok:
  "tracker_inv st \<Longrightarrow> \<exists>st' evs. tracker_run ft st cs = Some (st', evs) \<and> tracker_inv st'"
proof (induction cs arbitrary: st)
  case (Cons c cs)
  obtain st1 ev where "tracker_step ft st c = Some (st1, ev)" "tracker_inv st1"
    using tracker_step_ok [OF Cons.prems] by blast
  with Cons.IH [of st1] show ?case by auto
qed simp

text \<open>
  The tracker never panics. Whatever sequence of failures and successes is recorded, with
  whatever clock readings, no \<^verbatim>\<open>unwrap\<close> of the code meets \<^verbatim>\<open>None\<close>.
\<close>

theorem tracker_never_panics: "\<exists>r. tracker_run ft tracker_state_new cs = Some r"
  using tracker_run_ok [of tracker_state_new ft cs] by auto

lemma record_failure_effect:
  assumes "record_failure ft now utc err st = Some (st', ev)"
  shows "consecutive_failures st' = consecutive_failures st + 1"
    and "events_affected_during_outage st' = events_affected_during_outage st + 1"
    and "last_alert_at st' = (if ev = None then last_alert_at st else Some now)"
    and "ev \<noteq> None \<Longrightarrow> last_alert_at st = Some t \<Longrightarrow> ft_cooldown ft \<le> now - t"
    and "ev \<noteq> None \<Longrightarrow> alert_active st'"
    and "ev = None \<Longrightarrow> alert_active st' = alert_active st"
    and "ev \<noteq> None \<Longrightarrow> \<exists>w s l v. ev = Some (StorageUnreachable w (consecutive_failures st') s l v)"
  using assms
  by (auto simp: record_failure_def Let_def split: option.splits if_splits)

lemma record_success_effect:
  assumes "record_success ft utc st = Some (st', ev)"
  shows "consecutive_failures st' = 0"
    and "events_affected_during_outage st' = 0"
    and "last_alert_at st' = last_alert_at st"
    and "\<not> alert_active st'"
    and "ev \<noteq> None \<longleftrightarrow> alert_active st \<and> ft_notify_recovery ft"
    and "ev \<noteq> None \<Longrightarrow>
      \<exists>o' r s v. ev = Some (StorageRecovered o' r s (events_affected_during_outage st) v)"
  using assms
  by (auto simp: record_success_def Let_def split: option.splits if_splits)

text \<open>The instants at which the calls of a run read the monotonic clock, and the alert instants.\<close>

fun failure_instants :: "tracker_call list \<Rightarrow> instant list" where
  "failure_instants [] = []"
| "failure_instants (Failure now _ _ # cs) = now # failure_instants cs"
| "failure_instants (Success _ # cs) = failure_instants cs"

definition alert_instants :: "(tracker_call \<times> audit_alert_event) list \<Rightarrow> instant list" where
  "alert_instants evs = failure_instants (map fst evs)"

lemma alert_instants_simps [simp]:
  "alert_instants [] = []"
  "alert_instants ((Failure now u e, a) # evs) = now # alert_instants evs"
  "alert_instants ((Success u, a) # evs) = alert_instants evs"
  by (simp_all add: alert_instants_def)

lemma tracker_run_Cons:
  assumes "tracker_run ft st (c # cs) = Some (st', evs)"
  obtains st1 ev evs' where "tracker_step ft st c = Some (st1, ev)"
    and "tracker_run ft st1 cs = Some (st', evs')"
    and "evs = (case ev of None \<Rightarrow> [] | Some a \<Rightarrow> [(c, a)]) @ evs'"
  using assms by (auto split: option.splits)

lemma alert_instants_spaced:
  assumes "tracker_run ft st cs = Some (st', evs)" and "sorted (failure_instants cs)"
    and "\<And>t n. last_alert_at st = Some t \<Longrightarrow> n \<in> set (failure_instants cs) \<Longrightarrow> t \<le> n"
  shows "sorted_wrt (\<lambda>a b. a + ft_cooldown ft \<le> b) (alert_instants evs)
    \<and> set (alert_instants evs) \<subseteq> set (failure_instants cs)
    \<and> (\<forall>t a. last_alert_at st = Some t \<longrightarrow> a \<in> set (alert_instants evs) \<longrightarrow> t + ft_cooldown ft \<le> a)"
  using assms
proof (induction cs arbitrary: st evs)
  case (Cons c cs)
  from Cons.prems(1) obtain st1 ev evs' where step: "tracker_step ft st c = Some (st1, ev)"
    and run: "tracker_run ft st1 cs = Some (st', evs')"
    and evs: "evs = (case ev of None \<Rightarrow> [] | Some a \<Rightarrow> [(c, a)]) @ evs'"
    by (rule tracker_run_Cons)
  show ?case
  proof (cases c)
    case (Success utc)
    with step have "last_alert_at st1 = last_alert_at st"
      by (simp add: record_success_effect)
    with Cons.IH [OF run] Cons.prems(2,3) Success evs show ?thesis
      by (auto split: option.splits)
  next
    case (Failure now utc err)
    with step have rf: "record_failure ft now utc err st = Some (st1, ev)" by simp
    have mono: "t \<le> n" if "last_alert_at st1 = Some t" "n \<in> set (failure_instants cs)" for t n
      using that Cons.prems(2,3) Failure record_failure_effect(3) [OF rf] by (auto split: if_splits)
    note IH = Cons.IH [OF run _ mono]
    show ?thesis
    proof (cases ev)
      case None
      with IH Cons.prems(2,3) Failure evs record_failure_effect(3) [OF rf] show ?thesis by auto
    next
      case (Some a)
      have now: "t + ft_cooldown ft \<le> now" if "last_alert_at st = Some t" for t
        using record_failure_effect(4) [OF rf, of t] that Some Failure Cons.prems(3) [OF that, of now]
        by simp
      from Some record_failure_effect(3) [OF rf] have "last_alert_at st1 = Some now" by simp
      with IH Cons.prems(2) Failure
      have "\<forall>b \<in> set (alert_instants evs'). now + ft_cooldown ft \<le> b"
        and "sorted_wrt (\<lambda>a b. a + ft_cooldown ft \<le> b) (alert_instants evs')"
        and "set (alert_instants evs') \<subseteq> set (failure_instants cs)"
        by auto
      with Some evs Failure now show ?thesis by fastforce
    qed
  qed
qed simp

text \<open>
  Alert cooldown. In every run in which the monotonic clock does not go backwards, any two
  \<^verbatim>\<open>StorageUnreachable\<close> alerts are at least the cooldown apart, across recoveries too.
\<close>

theorem alert_cooldown:
  assumes "tracker_run ft tracker_state_new cs = Some (st', evs)"
    and "sorted (failure_instants cs)"
  shows "sorted_wrt (\<lambda>a b. a + ft_cooldown ft \<le> b) (alert_instants evs)"
  using alert_instants_spaced [OF assms] by (simp add: tracker_state_new_def)

definition sample_tracker :: failure_tracker where
  "sample_tracker = fst (failure_tracker_new [7] 0 1 True ''svc'')"

definition sample_calls :: "tracker_call list" where
  "sample_calls = [Failure 0 0 ''e'', Failure 5 5 ''e'', Success 6, Failure 1000000007 9 ''f'']"

lemma sample_calls_run:
  "map_option (alert_instants \<circ> snd) (tracker_run sample_tracker tracker_state_new sample_calls) =
     Some [0, 1000000007]"
  by (simp add: sample_calls_def sample_tracker_def failure_tracker_new_def record_failure_def
      record_success_def tracker_state_new_def Let_def from_secs_def nanos_per_sec_def)

theorem alert_cooldown_witness:
  "sorted_wrt (\<lambda>a b. a + ft_cooldown sample_tracker \<le> b) [0, 1000000007]"
proof -
  from sample_calls_run obtain st evs where
    run: "tracker_run sample_tracker tracker_state_new sample_calls = Some (st, evs)"
    and evs: "alert_instants evs = [0, 1000000007]"
    by auto
  have "sorted (failure_instants sample_calls)" by (simp add: sample_calls_def)
  from alert_cooldown [OF run this] evs show ?thesis by simp
qed

text \<open>The failures recorded since the last success.\<close>

fun is_failure :: "tracker_call \<Rightarrow> bool" where
  "is_failure (Failure _ _ _) = True"
| "is_failure (Success _) = False"

definition failures_since_success :: "tracker_call list \<Rightarrow> nat" where
  "failures_since_success cs = length (takeWhile is_failure (rev cs))"

lemma failures_since_success_simps [simp]:
  "failures_since_success [] = 0"
  "failures_since_success (cs @ [Failure n u e]) = Suc (failures_since_success cs)"
  "failures_since_success (cs @ [Success u]) = 0"
  by (simp_all add: failures_since_success_def)

lemma tracker_run_append:
  assumes "tracker_run ft st cs = Some (st1, evs1)"
  shows "tracker_run ft st (cs @ ds) =
    map_option (\<lambda>(st2, evs2). (st2, evs1 @ evs2)) (tracker_run ft st1 ds)"
  using assms
proof (induction cs arbitrary: st evs1)
  case (Cons c cs)
  then show ?case by (fastforce split: option.splits simp: option.map_comp comp_def)
qed (simp add: option.map_id)

lemma tracker_counts:
  assumes "tracker_run ft tracker_state_new cs = Some (st, evs)"
  shows "consecutive_failures st = of_nat (failures_since_success cs)
    \<and> events_affected_during_outage st = of_nat (failures_since_success cs)"
  using assms
proof (induction cs arbitrary: st evs rule: rev_induct)
  case Nil
  then show ?case by (auto simp: tracker_state_new_def)
next
  case (snoc c cs)
  obtain st1 evs1 where run: "tracker_run ft tracker_state_new cs = Some (st1, evs1)"
    using tracker_never_panics [of ft cs] by auto
  with snoc.prems obtain ev where "tracker_step ft st1 c = Some (st, ev)"
    by (auto simp: tracker_run_append split: option.splits)
  with snoc.IH [OF run] show ?case
    by (cases c) (simp_all add: record_failure_effect record_success_effect)
qed

text \<open>
  The recovery notice counts the outage exactly. When a success ends a run of failures and a
  recovery event is raised, the event reports as affected exactly the number of failures recorded
  since the previous success (modulo the 64-bit counter), and it is raised only when recovery
  notices are on.
\<close>

theorem recovery_counts_failures:
  assumes "tracker_run ft tracker_state_new cs = Some (st, evs)"
    and "record_success ft utc st = Some (st', Some ev)"
  shows "ft_notify_recovery ft \<and>
    (\<exists>outage secs svc. ev = StorageRecovered outage utc secs (of_nat (failures_since_success cs)) svc)"
  using tracker_counts [OF assms(1)] assms(2)
  by (auto simp: record_success_def Let_def split: if_splits option.splits)

theorem recovery_counts_failures_witness:
  "case tracker_run sample_tracker tracker_state_new [Failure 0 0 ''e'', Failure 1 0 ''e''] of
     None \<Rightarrow> False
   | Some (st, _) \<Rightarrow>
       (case record_success sample_tracker 3 st of
          Some (_, Some ev) \<Rightarrow> \<exists>outage secs svc. ev = StorageRecovered outage 3 secs 2 svc
        | _ \<Rightarrow> False)"
proof -
  let ?cs = "[Failure 0 0 ''e'', Failure 1 0 ''e'']"
  obtain st evs where run: "tracker_run sample_tracker tracker_state_new ?cs = Some (st, evs)"
    using tracker_never_panics by fastforce
  moreover from this have "alert_active st" and "first_failure_wall st = Some 0"
    by (auto simp: sample_tracker_def failure_tracker_new_def record_failure_def
        tracker_state_new_def Let_def from_secs_def nanos_per_sec_def)
  then obtain st' ev where suc: "record_success sample_tracker 3 st = Some (st', Some ev)"
    by (simp add: record_success_def sample_tracker_def failure_tracker_new_def Let_def)
  moreover have "failures_since_success ?cs = 2"
    by (simp add: failures_since_success_def)
  ultimately show ?thesis using recovery_counts_failures [OF run suc] by simp
qed

end
