(* ===== verification/Audit_Syslog.thy ===== *)
theory Audit_Syslog
  imports Audit_Chain
begin

text \<open>
  The syslog export of audit events (\<^verbatim>\<open>src/acton-service/src/audit/syslog.rs\<close>): construction of
  the sender, the RFC 5424 line of an event, and its escaping. The printers of the uuid and chrono
  crates are parameters (\<open>syslog_env\<close>). A reference parser of structured data states what a
  receiver can read back.
\<close>

record syslog_env =
  sy_chain :: chain_env
  sy_uuid :: "uuid \<Rightarrow> string"
  sy_timestamp :: "datetime \<Rightarrow> string"
  sy_socket_addr :: "string \<Rightarrow> string + string"

record syslog_config =
  sc_transport :: string
  sc_address :: string
  sc_facility :: u8
  sc_app_name :: "string option"

datatype syslog_transport = Udp | Tcp

record syslog_sender =
  ss_address :: string
  ss_facility :: u8
  ss_app_name :: string
  ss_transport :: syslog_transport

definition syslog_sender_new :: "syslog_env \<Rightarrow> syslog_config \<Rightarrow> string + syslog_sender" where
  "syslog_sender_new env config =
     (case sy_socket_addr env (sc_address config) of
        Inl e \<Rightarrow> Inl e
      | Inr address \<Rightarrow>
          Inr \<lparr>ss_address = address, ss_facility = sc_facility config,
               ss_app_name = (case sc_app_name config of Some n \<Rightarrow> n | None \<Rightarrow> ''acton''),
               ss_transport = (if sc_transport config = ''tcp'' then Tcp else Udp)\<rparr>)"

definition escape_sd_value :: "string \<Rightarrow> string" where
  "escape_sd_value s =
     replace_char (CHR '']'') (CHR 0x5C # '']'')
       (replace_char (CHR 0x22) [CHR 0x5C, CHR 0x22]
         (replace_char (CHR 0x5C) [CHR 0x5C, CHR 0x5C] s))"

text \<open>The structured-data parameters in order, names with unescaped values.\<close>

definition sd_opt :: "string \<Rightarrow> string option \<Rightarrow> (string \<times> string) list" where
  "sd_opt k v = (case v of Some x \<Rightarrow> [(k, x)] | None \<Rightarrow> [])"

definition sd_values :: "syslog_env \<Rightarrow> audit_event \<Rightarrow> (string \<times> string) list" where
  "sd_values env event =
     [(''event_id'', sy_uuid env (ev_id event)),
      (''ts'', ce_rfc3339 (sy_chain env) (ev_timestamp event)),
      (''kind'', kind_display (ev_kind event)),
      (''severity'', show_nat (unat (as_syslog_severity (ev_severity event)))),
      (''service'', ev_service_name event)]
      @ sd_opt ''src_ip'' (src_ip (ev_source event))
      @ sd_opt ''ua'' (src_user_agent (ev_source event))
      @ sd_opt ''subject'' (src_subject (ev_source event))
      @ sd_opt ''request_id'' (src_request_id (ev_source event))
      @ sd_opt ''method'' (ev_method event)
      @ sd_opt ''path'' (ev_path event)
      @ sd_opt ''status'' (map_option (show_nat \<circ> unat) (ev_status_code event))
      @ sd_opt ''duration_ms'' (map_option (show_nat \<circ> unat) (ev_duration_ms event))
      @ sd_opt ''metadata'' (map_option (canonical_json (sy_chain env)) (ev_metadata event))
      @ sd_opt ''prev_hash'' (ev_previous_hash event)
      @ sd_opt ''hash'' (ev_hash event)
      @ [(''seq'', show_nat (unat (ev_sequence event)))]"

text \<open>
  The source escapes every value except the printed identifier and numbers, which have no
  character to escape.
\<close>

definition unescaped_keys :: "string list" where
  "unescaped_keys = [''event_id'', ''severity'', ''status'', ''duration_ms'', ''seq'']"

definition sd_param :: "string \<times> string \<Rightarrow> string" where
  "sd_param kv =
     fst kv @ ''='' @ [CHR 0x22]
     @ (if fst kv \<in> set unescaped_keys then snd kv else escape_sd_value (snd kv)) @ [CHR 0x22]"

definition sd_header :: string where
  "sd_header = ''[audit@49610 ''"

definition format_rfc5424 :: "syslog_env \<Rightarrow> syslog_sender \<Rightarrow> audit_event \<Rightarrow> string" where
  "format_rfc5424 env sender event =
     (let pri = (ucast (ss_facility sender) :: u16) * 8 + ucast (as_syslog_severity (ev_severity event));
          sd_params = map sd_param (sd_values env event);
          structured_data = (if sd_params = [] then ''-'' else sd_header @ join '' '' sd_params @ '']'');
          msg = kind_display (ev_kind event) @ '' seq='' @ show_nat (unat (ev_sequence event))
      in ''<'' @ show_nat (unat pri) @ ''>'' @ show_nat 1 @ '' ''
         @ sy_timestamp env (ev_timestamp event) @ '' '' @ ev_service_name event @ '' ''
         @ ss_app_name sender @ '' - '' @ kind_display (ev_kind event) @ '' '' @ structured_data
         @ '' '' @ msg)"

text \<open>The bytes \<^verbatim>\<open>send\<close> puts on the wire: newline framing on TCP.\<close>

definition syslog_frame :: "syslog_env \<Rightarrow> syslog_sender \<Rightarrow> audit_event \<Rightarrow> string" where
  "syslog_frame env sender event =
     (case ss_transport sender of
        Udp \<Rightarrow> format_rfc5424 env sender event
      | Tcp \<Rightarrow> format_rfc5424 env sender event @ [CHR 0x0A])"

subsection \<open>Reading a line back\<close>

text \<open>A quoted value up to its closing quote, escapes resolved, and what follows.\<close>

fun read_value :: "string \<Rightarrow> (string \<times> string) option" where
  "read_value [] = None"
| "read_value (c # cs) =
     (if c = CHR 0x22 then Some ([], cs)
      else if c = CHR 0x5C
      then (case cs of
              [] \<Rightarrow> None
            | d # ds \<Rightarrow> map_option (\<lambda>(v, r). (d # v, r)) (read_value ds))
      else map_option (\<lambda>(v, r). (c # v, r)) (read_value cs))"

lemma read_value_length: "read_value s = Some (v, r) \<Longrightarrow> length r < length s"
  by (induction s arbitrary: v r rule: read_value.induct)
    (fastforce split: if_splits list.splits)+

text \<open>Parameters up to the closing bracket.\<close>

function read_params :: "string \<Rightarrow> (string \<times> string) list option" where
  "read_params s =
     (case s of
        [] \<Rightarrow> None
      | c # cs \<Rightarrow>
          if c = CHR '']'' then Some []
          else if c = CHR '' '' then read_params cs
          else
            (case dropWhile (\<lambda>d. d \<noteq> CHR ''='') s of
               [] \<Rightarrow> None
             | [_] \<Rightarrow> None
             | _ # q # rest \<Rightarrow>
                 if q \<noteq> CHR 0x22 then None
                 else (case read_value rest of
                         None \<Rightarrow> None
                       | Some (v, r) \<Rightarrow>
                           map_option ((#) (takeWhile (\<lambda>d. d \<noteq> CHR ''='') s, v)) (read_params r))))"
  by pat_completeness auto
termination
proof (relation "measure length", goal_cases)
  case (3 s c cs d ds q rest p v r)
  have "length (d # ds) \<le> length s"
    using length_dropWhile_le [of "\<lambda>d. d \<noteq> CHR ''=''" s] 3 by simp
  with 3 read_value_length [of rest v r] show ?case by simp
qed auto

declare read_params.simps [simp del]

subsection \<open>Escaping\<close>

definition special :: "char set" where
  "special = {CHR 0x5C, CHR 0x22, CHR '']''}"

lemma escape_sd_value_simps [simp]:
  "escape_sd_value [] = []"
  "escape_sd_value (c # cs) = (if c \<in> special then [CHR 0x5C, c] else [c]) @ escape_sd_value cs"
  by (auto simp: escape_sd_value_def special_def)

lemma escape_plain: "set v \<inter> special = {} \<Longrightarrow> escape_sd_value v = v"
  by (induction v) auto

lemma read_value_escape [simp]:
  "read_value (escape_sd_value v @ CHR 0x22 # r) = Some (v, r)"
  by (induction v) (auto simp: special_def)

lemma read_value_plain: "set v \<inter> special = {} \<Longrightarrow> read_value (v @ CHR 0x22 # r) = Some (v, r)"
  using read_value_escape [of v r] by (simp add: escape_plain)

lemma digits_not_special: "list_all is_ascii_digit s \<Longrightarrow> set s \<inter> special = {}"
  by (auto simp: list_all_iff special_def is_ascii_digit_def)

text \<open>A parameter name: not empty, no equals sign, and it starts neither a space nor a bracket.\<close>

definition sd_key :: "string \<Rightarrow> bool" where
  "sd_key k \<longleftrightarrow> k \<noteq> [] \<and> CHR ''='' \<notin> set k \<and> hd k \<noteq> CHR '' '' \<and> hd k \<noteq> CHR '']''"

definition sd_pair :: "string \<times> string \<Rightarrow> bool" where
  "sd_pair kv \<longleftrightarrow> sd_key (fst kv) \<and> (fst kv \<in> set unescaped_keys \<longrightarrow> set (snd kv) \<inter> special = {})"

lemma read_params_step:
  assumes "sd_pair kv"
  shows "read_params (sd_param kv @ r) = map_option ((#) kv) (read_params r)"
proof -
  obtain k v where kv: "kv = (k, v)" by fastforce
  with assms have k: "sd_key k" by (simp add: sd_pair_def)
  then obtain c cs where c: "k = c # cs" "c \<noteq> CHR '' ''" "c \<noteq> CHR '']''"
    by (cases k) (auto simp: sd_key_def)
  have no_eq: "\<forall>x \<in> set k. x \<noteq> CHR ''=''" using k by (auto simp: sd_key_def)
  let ?v = "if k \<in> set unescaped_keys then v else escape_sd_value v"
  let ?s = "k @ CHR ''='' # CHR 0x22 # ?v @ CHR 0x22 # r"
  have drop: "dropWhile (\<lambda>d. d \<noteq> CHR ''='') ?s = CHR ''='' # CHR 0x22 # ?v @ CHR 0x22 # r"
    and take: "takeWhile (\<lambda>d. d \<noteq> CHR ''='') ?s = k"
    using no_eq by (simp_all add: dropWhile_append2 takeWhile_append2)
  have read: "read_value (?v @ CHR 0x22 # r) = Some (v, r)"
    using assms kv by (auto simp: sd_pair_def read_value_plain)
  have "read_params ?s = map_option ((#) (k, v)) (read_params r)"
    by (subst read_params.simps) (use c drop take read in simp)
  then show ?thesis by (cases "k \<in> set unescaped_keys") (simp_all add: kv sd_param_def)
qed

lemma read_params_join:
  assumes "list_all sd_pair kvs" and "kvs \<noteq> []"
  shows "read_params (join '' '' (map sd_param kvs) @ '']'' @ post) = Some kvs"
  using assms
proof (induction kvs)
  case (Cons kv kvs)
  have close: "read_params (CHR '']'' # post) = Some []" by (subst read_params.simps) simp
  have space: "read_params (CHR '' '' # s) = read_params s" for s by (subst read_params.simps) simp
  show ?case
  proof (cases "kvs = []")
    case True
    with Cons.prems close read_params_step [of kv "CHR '']'' # post"] show ?thesis by simp
  next
    case False
    with Cons space
      read_params_step [of kv "CHR '' '' # join '' '' (map sd_param kvs) @ '']'' @ post"]
    show ?thesis by (simp add: join_Cons)
  qed
qed simp

subsection \<open>Properties\<close>

text \<open>
  A receiver reads every exported field back. In the line of an event, the structured-data
  element parses to exactly the event's parameters, whatever quotes, backslashes and brackets
  its strings contain; the printed UUID is assumed free of these three characters.
\<close>

theorem syslog_line_parses:
  assumes "\<forall>u. set (sy_uuid env u) \<inter> special = {}"
  shows "\<exists>pre body. format_rfc5424 env sender event = pre @ sd_header @ body
    \<and> read_params body = Some (sd_values env event)"
proof -
  have digits: "set (show_nat n) \<inter> special = {}" for n
    using show_nat_digits by (rule digits_not_special)
  have opt: "list_all sd_pair (sd_opt k v)"
    if "sd_key k" and "k \<in> set unescaped_keys \<longrightarrow> (\<forall>x. v = Some x \<longrightarrow> set x \<inter> special = {})" for k v
    using that by (auto simp: sd_opt_def sd_pair_def split: option.splits)
  have "list_all sd_pair (sd_values env event)"
    unfolding sd_values_def list_all_append
    by (intro conjI opt) (use assms digits in \<open>auto simp: sd_pair_def sd_key_def unescaped_keys_def\<close>)
  moreover have "sd_values env event \<noteq> []" by (simp add: sd_values_def)
  ultimately have "read_params (join '' '' (map sd_param (sd_values env event)) @ '']'' @ post) =
      Some (sd_values env event)" for post
    by (rule read_params_join)
  note parse = this
  let ?pri = "(ucast (ss_facility sender) :: u16) * 8 + ucast (as_syslog_severity (ev_severity event))"
  let ?pre = "''<'' @ show_nat (unat ?pri) @ ''>'' @ show_nat 1 @ '' ''
      @ sy_timestamp env (ev_timestamp event) @ '' '' @ ev_service_name event @ '' ''
      @ ss_app_name sender @ '' - '' @ kind_display (ev_kind event) @ '' ''"
  let ?msg = "'' '' @ kind_display (ev_kind event) @ '' seq='' @ show_nat (unat (ev_sequence event))"
  have "format_rfc5424 env sender event =
      ?pre @ sd_header @ (join '' '' (map sd_param (sd_values env event)) @ '']'' @ ?msg)"
    using \<open>sd_values env event \<noteq> []\<close> by (simp add: format_rfc5424_def Let_def)
  with parse [of ?msg] show ?thesis by blast
qed

lemma map_of_sd_opt [simp]:
  "map_of (sd_opt k v @ xs) k' = (if k = k' \<and> v \<noteq> None then v else map_of xs k')"
  by (cases v) (simp_all add: sd_opt_def)

lemma map_of_sd_values:
  "map_of (sd_values env e) ''src_ip'' = src_ip (ev_source e)"
  "map_of (sd_values env e) ''ua'' = src_user_agent (ev_source e)"
  "map_of (sd_values env e) ''subject'' = src_subject (ev_source e)"
  "map_of (sd_values env e) ''request_id'' = src_request_id (ev_source e)"
  "map_of (sd_values env e) ''method'' = ev_method e"
  "map_of (sd_values env e) ''path'' = ev_path e"
  "map_of (sd_values env e) ''status'' = map_option (show_nat \<circ> unat) (ev_status_code e)"
  "map_of (sd_values env e) ''duration_ms'' = map_option (show_nat \<circ> unat) (ev_duration_ms e)"
  "map_of (sd_values env e) ''metadata'' = map_option (canonical_json (sy_chain env)) (ev_metadata e)"
  "map_of (sd_values env e) ''prev_hash'' = ev_previous_hash e"
  "map_of (sd_values env e) ''hash'' = ev_hash e"
  "map_of (sd_values env e) ''seq'' = Some (show_nat (unat (ev_sequence e)))"
  "map_of (sd_values env e) ''event_id'' = Some (sy_uuid env (ev_id e))"
  "map_of (sd_values env e) ''ts'' = Some (ce_rfc3339 (sy_chain env) (ev_timestamp e))"
  "map_of (sd_values env e) ''kind'' = Some (kind_display (ev_kind e))"
  "map_of (sd_values env e) ''severity'' = Some (show_nat (unat (as_syslog_severity (ev_severity e))))"
  "map_of (sd_values env e) ''service'' = Some (ev_service_name e)"
  by (simp_all add: sd_values_def del: map_of_append)

text \<open>
  The exported line carries every input of the chain hash. Two events have the same
  structured data exactly when they have the same framed hash fields (sequence, previous hash,
  identifier, timestamp text, kind, severity, service, request and source fields, canonical
  metadata) and the same hash; identifiers are assumed to print injectively. A receiver that has
  only the syslog stream can therefore recompute and verify the chain.
\<close>

theorem syslog_export_complete:
  assumes "inj (sy_uuid env)"
  shows "sd_values env e = sd_values env f \<longleftrightarrow>
    v2_fields (sy_chain env) e = v2_fields (sy_chain env) f \<and> ev_hash e = ev_hash f"
proof
  assume eq: "sd_values env e = sd_values env f"
  have m: "map_of (sd_values env e) k = map_of (sd_values env f) k" for k by (simp add: eq)
  note fields = m [of "''src_ip''"] m [of "''ua''"] m [of "''subject''"] m [of "''request_id''"]
    m [of "''method''"] m [of "''path''"] m [of "''status''"] m [of "''duration_ms''"]
    m [of "''metadata''"] m [of "''prev_hash''"] m [of "''hash''"] m [of "''seq''"]
    m [of "''event_id''"] m [of "''ts''"] m [of "''kind''"] m [of "''severity''"] m [of "''service''"]
  have unat: "map_option (show_nat \<circ> unat) (a :: 'a::len word option) = map_option (show_nat \<circ> unat) b
      \<longleftrightarrow> a = b" for a b :: "'a::len word option"
    by (rule map_option_inj_iff) (simp add: inj_rules word_unat_eq_iff)
  show "v2_fields (sy_chain env) e = v2_fields (sy_chain env) f \<and> ev_hash e = ev_hash f"
    using fields assms unfolding map_of_sd_values
    by (simp add: v2_fields_def unat inj_rules inj_eq map_option_inj_iff map_option_comp_inj
        word_unat_eq_iff [symmetric])
next
  assume "v2_fields (sy_chain env) e = v2_fields (sy_chain env) f \<and> ev_hash e = ev_hash f"
  then show "sd_values env e = sd_values env f"
    by (simp add: v2_fields_def sd_values_def inj_rules map_option_inj_iff map_option_comp_inj)
qed

text \<open>A concrete instance of the parameters.\<close>

definition sample_uuid :: "uuid \<Rightarrow> string" where
  "sample_uuid u = concat (map (\<lambda>b. show_nat (unat b) @ ''-'') u)"

definition sample_syslog :: syslog_env where
  "sample_syslog = \<lparr>sy_chain = sample_env, sy_uuid = sample_uuid, sy_timestamp = sample_rfc3339,
     sy_socket_addr = Inr\<rparr>"

lemma show_nat_no_dash: "CHR ''-'' \<notin> set (show_nat n)"
  using show_nat_digits [of n] by (auto simp: list_all_iff is_ascii_digit_def)

lemma inj_sample_uuid: "inj sample_uuid"
proof (rule injI)
  fix u v assume "sample_uuid u = sample_uuid v"
  then show "u = v"
  proof (induction u arbitrary: v)
    case Nil
    then show ?case by (cases v) (simp_all add: sample_uuid_def)
  next
    case (Cons a u)
    then obtain b w where v: "v = b # w" by (cases v) (simp_all add: sample_uuid_def)
    with Cons.prems have "show_nat (unat a) @ CHR ''-'' # sample_uuid u =
        show_nat (unat b) @ CHR ''-'' # sample_uuid w"
      by (simp add: sample_uuid_def)
    from delimiter_unique [OF show_nat_no_dash show_nat_no_dash this]
    have "show_nat (unat a) = show_nat (unat b)" and "sample_uuid u = sample_uuid w" by simp_all
    with Cons.IH v show ?case by (simp add: inj_rules word_unat_eq_iff)
  qed
qed

lemma sample_uuid_plain: "set (sample_uuid u) \<inter> special = {}"
  using digits_not_special [OF show_nat_digits] by (auto simp: sample_uuid_def special_def)

theorem syslog_line_parses_witness:
  "\<exists>pre body. format_rfc5424 sample_syslog
       \<lparr>ss_address = ''h'', ss_facility = 13, ss_app_name = ''app'', ss_transport = Tcp\<rparr>
       (audit_event_new [7] 5 (Custom [CHR 0x22, CHR '']'', CHR 0x5C]) Notice ''svc'') = pre @ sd_header @ body
    \<and> map_option (map fst) (read_params body) =
        Some [''event_id'', ''ts'', ''kind'', ''severity'', ''service'', ''seq'']"
proof -
  let ?e = "audit_event_new [7] 5 (Custom [CHR 0x22, CHR '']'', CHR 0x5C]) Notice ''svc''"
  have "map fst (sd_values sample_syslog ?e) =
      [''event_id'', ''ts'', ''kind'', ''severity'', ''service'', ''seq'']"
    by (simp add: sd_values_def sd_opt_def audit_event_defs)
  moreover have "\<forall>u. set (sy_uuid sample_syslog u) \<inter> special = {}"
    by (simp add: sample_syslog_def sample_uuid_plain)
  from syslog_line_parses [OF this] obtain pre body where
    "format_rfc5424 sample_syslog
       \<lparr>ss_address = ''h'', ss_facility = 13, ss_app_name = ''app'', ss_transport = Tcp\<rparr> ?e = pre @ sd_header @ body"
    "read_params body = Some (sd_values sample_syslog ?e)"
    by blast
  ultimately show ?thesis by (metis option.simps(9))
qed

theorem syslog_export_complete_witness:
  "sd_values sample_syslog (audit_event_new [7] 5 HttpRequest Notice ''svc'') \<noteq>
   sd_values sample_syslog (audit_event_new [7] 6 HttpRequest Notice ''svc'')"
proof -
  have "inj (sy_uuid sample_syslog)" by (simp add: sample_syslog_def inj_sample_uuid)
  from syslog_export_complete [OF this] inj_sample_rfc3339 show ?thesis
    by (simp add: v2_fields_def audit_event_defs inj_rules sample_syslog_def sample_env_def inj_eq)
qed

end
