(* ===== verification/Audit_Agent.thy ===== *)
theory Audit_Agent
  imports Audit_Storage Audit_Failure_Tracker Audit_Syslog
begin

text \<open>
  The audit agent (\<^verbatim>\<open>src/acton-service/src/audit/agent.rs\<close>) and the archive it writes before a
  purge (\<^verbatim>\<open>src/acton-service/src/audit/archive.rs\<close>).

  The agent is an actor: its handlers run one at a time on its state. Beside it run the writer
  task, which takes sealed events from an unbounded channel, and the start-up task, which reads
  the stored chain and posts \<^verbatim>\<open>ChainLoaded\<close>. The record \<open>audit_system\<close> is the state they
  share, and the relation \<open>audit_step\<close> is their interleaving. A panic is \<^const>\<open>None\<close>.

  The storage backend is behind \<^verbatim>\<open>dyn AuditStorage\<close>, so its operations are arguments; what they
  promise is the locale \<open>audit_store\<close>. Each call may use another instance of an operation, so
  that a backend can fail at one call and work at the next. Clock readings are arguments of the
  step that reads them.
\<close>

subsection \<open>State\<close>

definition MAX_PENDING_EVENTS :: nat where
  "MAX_PENDING_EVENTS = 1024"

definition CLEANUP_BATCH_SIZE :: nat where
  "CLEANUP_BATCH_SIZE = 10000"

record webhook_alert_config =
  wh_url :: string
  wh_timeout_secs :: u64
  wh_headers :: "(string \<times> string) list"

record alert_config =
  al_enabled :: bool
  al_threshold_secs :: u64
  al_cooldown_secs :: u64
  al_notify_recovery :: bool
  al_webhooks :: "webhook_alert_config list"

record audit_config =
  ac_enabled :: bool
  ac_audit_all_requests :: bool
  ac_audit_auth_events :: bool
  ac_audit_config_events :: bool
  ac_drift_endpoint_enabled :: bool
  ac_syslog :: syslog_config
  ac_otlp_logs_enabled :: bool
  ac_audited_routes :: "string list"
  ac_excluded_routes :: "string list"
  ac_retention_days :: "u32 option"
  ac_archive_path :: "string option"
  ac_cleanup_interval_hours :: u32
  ac_alerts :: "alert_config option"

record chain_loaded =
  cl_previous_hash :: "string option"
  cl_sequence :: u64
  cl_service_name :: string

text \<open>
  The channel to the writer task is the queue of events it has not taken yet and whether the
  task is alive; \<open>sys_sent\<close> lists the events handed to the syslog sender, \<open>sys_alerts\<close> the
  deliveries to alert hooks.
\<close>

record writer_channel =
  wr_alive :: bool
  wr_queue :: "audit_event list"

record 's audit_system =
  sys_chain :: "audit_chain option"
  sys_pending :: "audit_event list"
  sys_writer :: "writer_channel option"
  sys_store :: "'s option"
  sys_syslog :: "syslog_sender option"
  sys_tracker :: "(failure_tracker \<times> tracker_state) option"
  sys_loaded :: "chain_loaded option"
  sys_sent :: "audit_event list"
  sys_alerts :: deliveries

type_synonym clock = "instant \<times> datetime"

text \<open>
  \<^verbatim>\<open>AuditAgent::spawn\<close> up to the start of the actor. Alert hooks are numbered in the order of
  the configured webhooks.
\<close>

definition agent_tracker ::
  "audit_config \<Rightarrow> string \<Rightarrow> (failure_tracker \<times> tracker_state) option" where
  "agent_tracker config service_name =
     (case ac_alerts config of
        Some a \<Rightarrow>
          if al_enabled a
          then Some (failure_tracker_new [0..<length (al_webhooks a)]
                 (unat (al_threshold_secs a)) (unat (al_cooldown_secs a)) (al_notify_recovery a)
                 service_name)
          else None
      | None \<Rightarrow> None)"

definition agent_spawn ::
  "syslog_env \<Rightarrow> audit_config \<Rightarrow> 's option \<Rightarrow> string \<Rightarrow> 's audit_system" where
  "agent_spawn senv config storage service_name =
     \<lparr>sys_chain = None, sys_pending = [],
      sys_writer = Some \<lparr>wr_alive = True, wr_queue = []\<rparr>,
      sys_store = storage,
      sys_syslog =
        (if sc_transport (ac_syslog config) \<noteq> ''none''
         then (case syslog_sender_new senv (ac_syslog config) of
                 Inr sender \<Rightarrow> Some sender
               | Inl e \<Rightarrow> None)
         else None),
      sys_tracker = agent_tracker config service_name,
      sys_loaded = None, sys_sent = [], sys_alerts = []\<rparr>"

subsection \<open>Failure reports\<close>

text \<open>A call of the tracker from the agent or the writer, with its dispatched alert.\<close>

definition tracker_call_with ::
  "(failure_tracker \<Rightarrow> tracker_state \<Rightarrow> (tracker_state \<times> audit_alert_event option) option) \<Rightarrow>
     's audit_system \<Rightarrow> 's audit_system option" where
  "tracker_call_with f s =
     (case sys_tracker s of
        None \<Rightarrow> Some s
      | Some (ft, st) \<Rightarrow>
          (case f ft st of
             None \<Rightarrow> None
           | Some (st', alert) \<Rightarrow>
               Some (s\<lparr>sys_tracker := Some (ft, st'),
                       sys_alerts := sys_alerts s @
                         (case alert of None \<Rightarrow> [] | Some a \<Rightarrow> dispatch ft a)\<rparr>)))"

definition note_failure :: "clock \<Rightarrow> string \<Rightarrow> 's audit_system \<Rightarrow> 's audit_system option" where
  "note_failure clk reason =
     tracker_call_with (\<lambda>ft st. record_failure ft (fst clk) (snd clk) reason st)"

definition note_success :: "clock \<Rightarrow> 's audit_system \<Rightarrow> 's audit_system option" where
  "note_success clk = tracker_call_with (\<lambda>ft st. record_success ft (snd clk) st)"

subsection \<open>Handlers of the agent\<close>

text \<open>\<open>dbg\<close> is the \<^verbatim>\<open>Debug\<close> text of a string, see \<^const>\<open>kind_debug\<close>.\<close>

definition buffer_pending_event ::
  "(string \<Rightarrow> string) \<Rightarrow> clock \<Rightarrow> audit_event \<Rightarrow> 's audit_system \<Rightarrow> 's audit_system option" where
  "buffer_pending_event dbg clk event s =
     (if MAX_PENDING_EVENTS \<le> length (sys_pending s)
      then note_failure clk
             (''audit chain not initialized and pending buffer is full (''
              @ show_nat MAX_PENDING_EVENTS @ '' events); dropped event ''
              @ kind_debug dbg (ev_kind event)) s
      else Some (s\<lparr>sys_pending := sys_pending s @ [event]\<rparr>))"

definition seal_and_dispatch ::
  "chain_env \<Rightarrow> (string \<Rightarrow> string) \<Rightarrow> clock \<Rightarrow> audit_event \<Rightarrow> 's audit_system \<Rightarrow>
     's audit_system option" where
  "seal_and_dispatch env dbg clk event s =
     (case sys_chain s of
        None \<Rightarrow> buffer_pending_event dbg clk event s
      | Some chain \<Rightarrow>
          (let (sealed, chain') = seal env chain event;
               s = s\<lparr>sys_chain := Some chain'\<rparr>
           in case sys_writer s of
                None \<Rightarrow> Some s
              | Some w \<Rightarrow>
                  if wr_alive w
                  then Some (s\<lparr>sys_writer := Some (w\<lparr>wr_queue := wr_queue w @ [sealed]\<rparr>)\<rparr>)
                  else note_failure clk ''audit writer task terminated; event not persisted'' s))"

fun seal_pending ::
  "chain_env \<Rightarrow> (string \<Rightarrow> string) \<Rightarrow> clock list \<Rightarrow> audit_event list \<Rightarrow> 's audit_system \<Rightarrow>
     's audit_system option" where
  "seal_pending env dbg clks [] s = Some s"
| "seal_pending env dbg clks (event # pending) s =
     (let clk = (case clks of [] \<Rightarrow> (0, 0) | c # _ \<Rightarrow> c)
      in case seal_and_dispatch env dbg clk event s of
           None \<Rightarrow> None
         | Some s' \<Rightarrow> seal_pending env dbg (tl clks) pending s')"

definition on_chain_loaded ::
  "chain_env \<Rightarrow> (string \<Rightarrow> string) \<Rightarrow> clock list \<Rightarrow> chain_loaded \<Rightarrow> 's audit_system \<Rightarrow>
     's audit_system option" where
  "on_chain_loaded env dbg clks msg s =
     (let chain = (case cl_previous_hash msg of
                     Some hash \<Rightarrow> chain_resume (cl_service_name msg) hash (cl_sequence msg)
                   | None \<Rightarrow> chain_new (cl_service_name msg));
          pending = sys_pending s
      in seal_pending env dbg clks pending (s\<lparr>sys_chain := Some chain, sys_pending := []\<rparr>))"

definition on_audit_event ::
  "chain_env \<Rightarrow> (string \<Rightarrow> string) \<Rightarrow> clock \<Rightarrow> audit_event \<Rightarrow> 's audit_system \<Rightarrow>
     's audit_system option" where
  "on_audit_event env dbg clk event s =
     (if sys_chain s = None then buffer_pending_event dbg clk event s
      else seal_and_dispatch env dbg clk event s)"

subsection \<open>The writer task\<close>

text \<open>One turn of the loop of \<^verbatim>\<open>spawn_writer_task\<close>; it waits while the queue is empty.\<close>

definition persist ::
  "(audit_event \<Rightarrow> 's \<Rightarrow> (error + unit) \<times> 's) \<Rightarrow> clock \<Rightarrow> audit_event \<Rightarrow> 's audit_system \<Rightarrow>
     's audit_system option" where
  "persist append_op clk event s =
     (case sys_store s of
        None \<Rightarrow> Some s
      | Some store \<Rightarrow>
          (case append_op event store of
             (Inr _, store') \<Rightarrow> note_success clk (s\<lparr>sys_store := Some store'\<rparr>)
           | (Inl e, store') \<Rightarrow> note_failure clk (error_display e) (s\<lparr>sys_store := Some store'\<rparr>)))"

definition writer_turn ::
  "(audit_event \<Rightarrow> 's \<Rightarrow> (error + unit) \<times> 's) \<Rightarrow> clock \<Rightarrow> 's audit_system \<Rightarrow>
     's audit_system option" where
  "writer_turn append_op clk s =
     (case sys_writer s of
        None \<Rightarrow> Some s
      | Some w \<Rightarrow>
          (case wr_queue w of
             [] \<Rightarrow> Some s
           | sealed_event # rest \<Rightarrow>
               (case persist append_op clk sealed_event
                       (s\<lparr>sys_writer := Some (w\<lparr>wr_queue := rest\<rparr>)\<rparr>) of
                  None \<Rightarrow> None
                | Some s' \<Rightarrow>
                    Some (if sys_syslog s' \<noteq> None then s'\<lparr>sys_sent := sys_sent s' @ [sealed_event]\<rparr>
                          else s'))))"

subsection \<open>Start-up\<close>

definition STORAGE_READY_TIMEOUT :: nat where
  "STORAGE_READY_TIMEOUT = from_secs 30"

definition STORAGE_READY_POLL_INTERVAL :: nat where
  "STORAGE_READY_POLL_INTERVAL = 250000000"

text \<open>
  \<^verbatim>\<open>wait_for_storage\<close>: \<open>ready i\<close> is the answer of the \<open>i\<close>-th readiness poll and \<open>now i\<close> the
  clock read after it. The result is the number of failed polls and whether storage became
  ready; a wait that never ends is \<^const>\<open>None\<close>.
\<close>

partial_function (option) wait_from ::
  "(nat \<Rightarrow> error + unit) \<Rightarrow> (nat \<Rightarrow> instant) \<Rightarrow> instant \<Rightarrow> nat \<Rightarrow> (nat \<times> bool) option" where
  [code]: "wait_from ready now deadline i =
     (case ready i of
        Inr _ \<Rightarrow> Some (i, True)
      | Inl e \<Rightarrow>
          if deadline \<le> now i then Some (Suc i, False)
          else wait_from ready now deadline (Suc i))"

definition wait_for_storage ::
  "(nat \<Rightarrow> error + unit) \<Rightarrow> instant \<Rightarrow> (nat \<Rightarrow> instant) \<Rightarrow> (nat \<times> bool) option" where
  "wait_for_storage ready start now =
     wait_from ready now (start + STORAGE_READY_TIMEOUT) 0"

text \<open>What the start-up task sends after the wait.\<close>

definition load_chain ::
  "('s \<Rightarrow> error + audit_event option) \<Rightarrow> string \<Rightarrow> 's option \<Rightarrow> chain_loaded" where
  "load_chain latest service_name store =
     (let (previous_hash, sequence) = (case store of
            Some st \<Rightarrow>
              (case latest st of
                 Inr (Some event) \<Rightarrow> (ev_hash event, ev_sequence event)
               | Inr None \<Rightarrow> (None, 0)
               | Inl e \<Rightarrow> (None, 0))
          | None \<Rightarrow> (None, 0))
      in \<lparr>cl_previous_hash = previous_hash, cl_sequence = sequence, cl_service_name = service_name\<rparr>)"

subsection \<open>Retention cleanup\<close>

text \<open>
  The file system as the archive uses it: file contents by path, the outcome of creating the
  directory and of writing a file, and \<^verbatim>\<open>serde_json::to_string\<close> of an event.
\<close>

record archive_env =
  ar_mkdir_error :: "string option"
  ar_write_error :: "string option"
  ar_to_string :: "audit_event \<Rightarrow> string + string"
  ar_timestamp :: string

type_synonym files = "string \<Rightarrow> string option"

fun archive_lines ::
  "(audit_event \<Rightarrow> string + string) \<Rightarrow> audit_event list \<Rightarrow> string \<Rightarrow> error + string" where
  "archive_lines to_string [] lines = Inr lines"
| "archive_lines to_string (event # events) lines =
     (case to_string event of
        Inl e \<Rightarrow> Inl (Internal (''Failed to serialize audit event for archive: '' @ e))
      | Inr line \<Rightarrow> archive_lines to_string events (lines @ line @ [CHR 0x0A]))"

text \<open>\<^verbatim>\<open>Path::join\<close> with a file name.\<close>

definition path_join :: "string \<Rightarrow> string \<Rightarrow> string" where
  "path_join dir file =
     (if dir = [] then file
      else if last dir = CHR ''/'' then dir @ file
      else dir @ ''/'' @ file)"

definition archive_events ::
  "archive_env \<Rightarrow> audit_event list \<Rightarrow> string \<Rightarrow> files \<Rightarrow> (error + string) \<times> files" where
  "archive_events env events archive_dir fs =
     (if events = [] then (Inl (Internal ''No events to archive''), fs)
      else case ar_mkdir_error env of
        Some e \<Rightarrow>
          (Inl (Internal (''Failed to create archive directory '' @ archive_dir @ '': '' @ e)), fs)
      | None \<Rightarrow>
          (let filepath = path_join archive_dir (''audit_archive_'' @ ar_timestamp env @ ''.jsonl'')
           in case archive_lines (ar_to_string env) events [] of
                Inl e \<Rightarrow> (Inl e, fs)
              | Inr lines \<Rightarrow>
                  (case ar_write_error env of
                     Some e \<Rightarrow>
                       (Inl (Internal (''Failed to write archive file '' @ filepath @ '': '' @ e)), fs)
                   | None \<Rightarrow> (Inr filepath, fs(filepath \<mapsto> lines)))))"

record 's cleanup_ops =
  co_query_before :: "datetime \<Rightarrow> nat \<Rightarrow> 's \<Rightarrow> error + audit_event list"
  co_purge_before :: "datetime \<Rightarrow> 's \<Rightarrow> (error + nat) \<times> 's"
  co_archive :: archive_env

text \<open>
  The loop of \<^verbatim>\<open>run_cleanup\<close>; \<open>ops i\<close> are the operations as they behave in its \<open>i\<close>-th turn.
\<close>

partial_function (option) cleanup_loop ::
  "(nat \<Rightarrow> 's cleanup_ops) \<Rightarrow> datetime \<Rightarrow> string option \<Rightarrow> nat \<Rightarrow> nat \<Rightarrow> 's \<Rightarrow> files \<Rightarrow>
     ((error + nat) \<times> 's \<times> files) option" where
  [code]: "cleanup_loop ops cutoff archive_dir i total_purged st fs =
     (case co_query_before (ops i) cutoff CLEANUP_BATCH_SIZE st of
        Inl e \<Rightarrow> Some (Inl e, st, fs)
      | Inr events \<Rightarrow>
          if events = [] then Some (Inr total_purged, st, fs)
          else
            (case (case archive_dir of
                     Some dir \<Rightarrow> archive_events (co_archive (ops i)) events dir fs
                   | None \<Rightarrow> (Inr [], fs)) of
               (Inl e, fs') \<Rightarrow> Some (Inl e, st, fs')
             | (Inr _, fs') \<Rightarrow>
                 (case co_purge_before (ops i) cutoff st of
                    (Inl e, st') \<Rightarrow> Some (Inl e, st', fs')
                  | (Inr purged, st') \<Rightarrow>
                      if length events < CLEANUP_BATCH_SIZE
                      then Some (Inr (total_purged + purged), st', fs')
                      else cleanup_loop ops cutoff archive_dir (Suc i) (total_purged + purged) st' fs')))"

definition nanos_per_day :: int where
  "nanos_per_day = 86400 * int nanos_per_sec"

definition run_cleanup ::
  "(nat \<Rightarrow> 's cleanup_ops) \<Rightarrow> audit_config \<Rightarrow> datetime \<Rightarrow> 's \<Rightarrow> files \<Rightarrow>
     ((error + nat) \<times> 's \<times> files) option" where
  "run_cleanup ops config utc_now st fs =
     (case ac_retention_days config of
        None \<Rightarrow> Some (Inr 0, st, fs)
      | Some retention_days \<Rightarrow>
          (let cutoff = utc_now - uint retention_days * nanos_per_day
           in cleanup_loop ops cutoff (ac_archive_path config) 0 0 st fs))"

text \<open>The \<^verbatim>\<open>CleanupTrigger\<close> handler; an error of the cycle is only logged.\<close>

definition on_cleanup_trigger ::
  "(nat \<Rightarrow> 's cleanup_ops) \<Rightarrow> audit_config option \<Rightarrow> datetime \<Rightarrow> 's audit_system \<Rightarrow> files \<Rightarrow>
     ('s audit_system \<times> files) option" where
  "on_cleanup_trigger ops config utc_now s fs =
     (case (config, sys_store s) of
        (Some config, Some st) \<Rightarrow>
          (case run_cleanup ops config utc_now st fs of
             None \<Rightarrow> None
           | Some (r, st', fs') \<Rightarrow> Some (s\<lparr>sys_store := Some st'\<rparr>, fs'))
      | _ \<Rightarrow> Some (s, fs))"

subsection \<open>Runs\<close>

text \<open>
  The interleavings of agent, start-up task and writer. \<open>appends\<close> and \<open>latests\<close> are the
  storage operations as they may behave at some call. Three ghost lists record what happened: the
  events the agent accepted, the sealed events the writer took, and those of them whose append
  failed. The start-up read succeeds in these runs (\<open>Load\<close>).
\<close>

definition queue_of :: "'s audit_system \<Rightarrow> audit_event list" where
  "queue_of s = (case sys_writer s of None \<Rightarrow> [] | Some w \<Rightarrow> wr_queue w)"

definition has_room :: "'s audit_system \<Rightarrow> bool" where
  "has_room s \<longleftrightarrow> sys_chain s \<noteq> None \<or> length (sys_pending s) < MAX_PENDING_EVENTS"

inductive audit_run ::
  "chain_env \<Rightarrow> (string \<Rightarrow> string) \<Rightarrow> string \<Rightarrow> (audit_event \<Rightarrow> 's \<Rightarrow> (error + unit) \<times> 's) set \<Rightarrow>
     ('s \<Rightarrow> error + audit_event option) set \<Rightarrow> 's audit_system \<Rightarrow>
     audit_event list \<Rightarrow> audit_event list \<Rightarrow> audit_event list \<Rightarrow> 's audit_system \<Rightarrow> bool"
  for env dbg service appends latests s0 where
  Start: "audit_run env dbg service appends latests s0 [] [] [] s0"
| Emit: "\<lbrakk>audit_run env dbg service appends latests s0 arrived taken lost s; has_room s;
     on_audit_event env dbg clk e s = Some s'\<rbrakk> \<Longrightarrow>
     audit_run env dbg service appends latests s0 (arrived @ [e]) taken lost s'"
| Drop: "\<lbrakk>audit_run env dbg service appends latests s0 arrived taken lost s; \<not> has_room s;
     on_audit_event env dbg clk e s = Some s'\<rbrakk> \<Longrightarrow>
     audit_run env dbg service appends latests s0 arrived taken lost s'"
| Load: "\<lbrakk>audit_run env dbg service appends latests s0 arrived taken lost s;
     sys_chain s = None; sys_loaded s = None; sys_store s = Some st; latest \<in> latests;
     latest st = Inr r\<rbrakk> \<Longrightarrow>
     audit_run env dbg service appends latests s0 arrived taken lost
       (s\<lparr>sys_loaded := Some (load_chain latest service (sys_store s))\<rparr>)"
| Loaded: "\<lbrakk>audit_run env dbg service appends latests s0 arrived taken lost s;
     sys_chain s = None; sys_loaded s = Some msg; on_chain_loaded env dbg clks msg s = Some s'\<rbrakk> \<Longrightarrow>
     audit_run env dbg service appends latests s0 arrived taken lost s'"
| Written: "\<lbrakk>audit_run env dbg service appends latests s0 arrived taken lost s;
     queue_of s = e # rest; sys_store s = Some st; append_op \<in> appends; append_op e st = (Inr u, st');
     writer_turn append_op clk s = Some s'\<rbrakk> \<Longrightarrow>
     audit_run env dbg service appends latests s0 arrived (taken @ [e]) lost s'"
| Lost: "\<lbrakk>audit_run env dbg service appends latests s0 arrived taken lost s;
     queue_of s = e # rest; sys_store s = Some st; append_op \<in> appends; append_op e st = (Inl x, st');
     writer_turn append_op clk s = Some s'\<rbrakk> \<Longrightarrow>
     audit_run env dbg service appends latests s0 arrived (taken @ [e]) (lost @ [e]) s'"

subsection \<open>What each step changes\<close>

text \<open>The part of the state the trail depends on; reports to the tracker do not touch it.\<close>

definition trail_of where
  "trail_of s = (sys_chain s, sys_pending s, sys_writer s, sys_store s, sys_loaded s)"

lemma tracker_call_with_frame:
  "tracker_call_with f s = Some s' \<Longrightarrow> trail_of s' = trail_of s \<and> sys_syslog s' = sys_syslog s"
  by (auto simp: tracker_call_with_def trail_of_def split: option.splits prod.splits)

lemma note_frame:
  "note_failure clk r s = Some s' \<Longrightarrow> trail_of s' = trail_of s"
  "note_success clk s = Some s' \<Longrightarrow> trail_of s' = trail_of s"
  by (simp_all add: note_failure_def note_success_def tracker_call_with_frame)

definition writer_with :: "audit_event list \<Rightarrow> writer_channel option" where
  "writer_with q = Some \<lparr>wr_alive = True, wr_queue = q\<rparr>"

lemma queue_of_writer_with: "sys_writer s = writer_with q \<Longrightarrow> queue_of s = q"
  by (simp add: queue_of_def writer_with_def)

lemma buffer_trail:
  assumes "buffer_pending_event dbg clk e s = Some s'"
  shows "trail_of s' = (sys_chain s,
    sys_pending s @ (if length (sys_pending s) < MAX_PENDING_EVENTS then [e] else []),
    sys_writer s, sys_store s, sys_loaded s)"
  using assms by (auto simp: buffer_pending_event_def trail_of_def dest!: note_frame split: if_splits)

lemma seal_and_dispatch_trail:
  assumes "seal_and_dispatch env dbg clk e s = Some s'" and "sys_chain s = Some c"
    and "sys_writer s = writer_with q"
  shows "trail_of s' = (Some (snd (seal env c e)), sys_pending s,
    writer_with (q @ [fst (seal env c e)]), sys_store s, sys_loaded s)"
  using assms by (auto simp: seal_and_dispatch_def trail_of_def writer_with_def Let_def
      split: prod.splits)

lemma seal_pending_trail:
  assumes "seal_pending env dbg clks es s = Some s'" and "sys_chain s = Some c"
    and "sys_writer s = writer_with q"
  shows "trail_of s' = (Some (snd (seal_all env c es)), sys_pending s,
    writer_with (q @ fst (seal_all env c es)), sys_store s, sys_loaded s)"
  using assms
proof (induction es arbitrary: clks s c q)
  case Nil
  then show ?case by (simp add: trail_of_def)
next
  case (Cons e es)
  obtain clk s1 where s1: "seal_and_dispatch env dbg clk e s = Some s1"
      "seal_pending env dbg (tl clks) es s1 = Some s'"
    using Cons.prems(1) by (auto simp: Let_def split: option.splits)
  note t = seal_and_dispatch_trail [OF s1(1) Cons.prems(2,3)]
  with Cons.IH [OF s1(2), of "snd (seal env c e)" "q @ [fst (seal env c e)]"]
  show ?case by (simp add: trail_of_def split: prod.splits)
qed

lemma writer_turn_trail:
  assumes "writer_turn append_op clk s = Some s'" and "sys_writer s = writer_with (e # rest)"
    and "sys_store s = Some st" and "append_op e st = (r, st')"
  shows "trail_of s' = (sys_chain s, sys_pending s, writer_with rest, Some st', sys_loaded s)"
proof -
  obtain s1 where "persist append_op clk e (s\<lparr>sys_writer := writer_with rest\<rparr>) = Some s1"
      and "trail_of s' = trail_of s1"
    using assms(1,2) by (auto simp: writer_turn_def writer_with_def trail_of_def split: option.splits)
  with assms(3,4) show ?thesis
    by (cases r) (auto simp: persist_def trail_of_def dest!: note_frame)
qed

subsection \<open>The trail over any storage backend\<close>

text \<open>The chain a run continues: a new one, or the one that ends with the last stored event.\<close>

definition base_chain :: "string \<Rightarrow> audit_event list \<Rightarrow> audit_chain" where
  "base_chain service base =
     (if base = [] then chain_new service
      else chain_resume service (the (ev_hash (last base))) (ev_sequence (last base)))"

definition base_message :: "string \<Rightarrow> audit_event list \<Rightarrow> chain_loaded" where
  "base_message service base =
     (if base = [] then \<lparr>cl_previous_hash = None, cl_sequence = 0, cl_service_name = service\<rparr>
      else \<lparr>cl_previous_hash = ev_hash (last base), cl_sequence = ev_sequence (last base),
            cl_service_name = service\<rparr>)"

definition last_sequence :: "audit_event list \<Rightarrow> nat" where
  "last_sequence base = (if base = [] then 0 else unat (ev_sequence (last base)))"

text \<open>The sequence numbers of the run fit the BIGINT column of the backends.\<close>

definition in_bounds :: "audit_event list \<Rightarrow> audit_event list \<Rightarrow> bool" where
  "in_bounds base arrived \<longleftrightarrow> last_sequence base + length arrived < 2 ^ 63"

lemma base_chain_sequence: "unat (ch_sequence (base_chain service base)) = last_sequence base"
  by (simp add: base_chain_def chain_new_def chain_resume_def last_sequence_def)

lemma sealed_run_sequences:
  assumes "in_bounds base arrived" and "seal_all env (base_chain service base) arrived = (ss, c)"
  shows "map (\<lambda>e. sint (ev_sequence e)) ss =
    map (\<lambda>i. int (last_sequence base) + 1 + int i) [0..<length arrived]"
proof -
  have "sint (ch_sequence (base_chain service base) + of_nat (Suc i)) =
      int (last_sequence base) + 1 + int i" if "i < length arrived" for i
  proof -
    let ?w = "ch_sequence (base_chain service base)"
    have b: "last_sequence base + Suc i < 2 ^ 63"
      using that assms(1) by (simp add: in_bounds_def)
    then have "unat (of_nat (Suc i) :: u64) = Suc i"
      by (simp only: unat_of_nat) (simp add: take_bit_eq_mod)
    with b have "unat (?w + of_nat (Suc i)) = last_sequence base + Suc i"
      by (simp only: unat_word_ariths base_chain_sequence) simp
    with b show ?thesis by (simp add: sint_small)
  qed
  then have "map sint (map ev_sequence ss) =
      map (\<lambda>i. int (last_sequence base) + 1 + int i) [0..<length arrived]"
    unfolding seal_all_sequences [OF assms(2)] by simp
  then show ?thesis by (simp add: comp_def)
qed

lemma sealed_run_ordered:
  assumes "in_bounds base arrived" and "seal_all env (base_chain service base) arrived = (xs @ e # ys, c)"
  shows "\<forall>x \<in> set xs. sint (ev_sequence x) < sint (ev_sequence e)"
    and "int (last_sequence base) < sint (ev_sequence e)"
proof -
  let ?ss = "xs @ e # ys"
  have eq: "map (\<lambda>e. sint (ev_sequence e)) ?ss =
      map (\<lambda>i. int (last_sequence base) + 1 + int i) [0..<length arrived]"
    using sealed_run_sequences [OF assms] .
  have "sorted_wrt (<) (map (\<lambda>e. sint (ev_sequence e)) ?ss)"
    unfolding eq by (simp add: sorted_wrt_map sorted_wrt_upt)
  then show "\<forall>x \<in> set xs. sint (ev_sequence x) < sint (ev_sequence e)"
    by (auto simp: sorted_wrt_append)
  have "sint (ev_sequence e) \<in> set (map (\<lambda>e. sint (ev_sequence e)) ?ss)" by simp
  then show "int (last_sequence base) < sint (ev_sequence e)"
    unfolding eq by auto
qed

locale audit_trail =
  fixes appends :: "(audit_event \<Rightarrow> 's \<Rightarrow> (error + unit) \<times> 's) set"
    and latests :: "('s \<Rightarrow> error + audit_event option) set"
    and events :: "'s \<Rightarrow> audit_event list"
    and stored :: "audit_event \<Rightarrow> audit_event"
    and invar :: "'s \<Rightarrow> bool"
  assumes backend:
    "\<lbrakk>a \<in> appends; l \<in> latests\<rbrakk> \<Longrightarrow> \<exists>q p c. audit_store a l q p events stored invar c"
    and some_append: "appends \<noteq> {}" and some_latest: "latests \<noteq> {}"
begin

lemma backend_append:
  assumes "a \<in> appends"
  obtains l q p c where "audit_store a l q p events stored invar c"
  using backend [OF assms] some_latest by blast

lemma backend_any:
  obtains a l q p c where "audit_store a l q p events stored invar c"
  using backend some_append some_latest by blast

lemma append_err:
  assumes "a \<in> appends" and "a e st = (Inl x, st')"
  shows "st' = st"
  using backend_append [OF assms(1)] audit_store.append_err assms(2) by metis

lemma ordered: "invar st \<Longrightarrow> sorted_wrt (<) (map (\<lambda>e. sint (ev_sequence e)) (events st))"
  using backend_any audit_store.ordered by metis

lemma stored_sequence: "ev_sequence (stored e) = ev_sequence e"
  using backend_any audit_store.stored_links by metis

lemma append_last:
  assumes "a \<in> appends" and "invar st" and "a e st = (Inr u, st')"
    and "\<forall>f \<in> set (events st). sint (ev_sequence f) < sint (ev_sequence e)"
  shows "invar st' \<and> events st' = events st @ [stored e]"
proof -
  obtain l q p c where st: "audit_store a l q p events stored invar c"
    using backend_append [OF assms(1)] .
  show ?thesis
    using audit_store.append_last [OF st assms(2-4)] audit_store.append_ok [OF st assms(2,3)]
    by simp
qed

lemma latest_message:
  assumes "l \<in> latests" and "l st = Inr r"
  shows "load_chain l service (Some st) = base_message service (events st)"
proof -
  obtain a q p c where st: "audit_store a l q p events stored invar c"
    using backend assms(1) some_append by blast
  show ?thesis
  proof (cases r)
    case None
    with assms(2) audit_store.latest_none [OF st, of st] show ?thesis
      by (simp add: load_chain_def base_message_def)
  next
    case (Some e)
    with assms(2) audit_store.latest_some [OF st, of st e] show ?thesis
      by (simp add: load_chain_def base_message_def)
  qed
qed

text \<open>
  The invariant of a run that started on a store holding \<open>base\<close>: the stored events are
  \<open>base\<close> followed by what the writer took, without the lost events.
\<close>

definition store_ok where
  "store_ok base taken lost st \<longleftrightarrow>
     invar st \<and> events st = base @ map stored (filter (\<lambda>e. e \<notin> set lost) taken)"

definition run_inv where
  "run_inv env service base arrived taken lost s \<longleftrightarrow>
     (\<exists>q st. sys_writer s = writer_with q \<and> sys_store s = Some st \<and> store_ok base taken lost st
        \<and> (case sys_chain s of
              None \<Rightarrow> q = [] \<and> taken = [] \<and> lost = [] \<and> sys_pending s = arrived
                \<and> (sys_loaded s = None \<or> sys_loaded s = Some (base_message service base))
            | Some c \<Rightarrow> seal_all env (base_chain service base) arrived = (taken @ q, c)
                \<and> sys_pending s = [] \<and> set lost \<subseteq> set taken))"

lemma store_written:
  assumes "store_ok base taken lost st" and "a \<in> appends" and "a e st = (Inr u, st')"
    and "seal_all env (base_chain service base) arrived = (taken @ e # q, c)"
    and "in_bounds base arrived" and "set lost \<subseteq> set taken"
  shows "store_ok base (taken @ [e]) lost st'"
proof -
  note ord = sealed_run_ordered [OF assms(5,4)]
  have base: "sint (ev_sequence f) < sint (ev_sequence e)" if fb: "f \<in> set base" for f
  proof -
    have "invar st" using assms(1) by (simp add: store_ok_def)
    from ordered [OF this] have srt: "sorted_wrt (<) (map (\<lambda>e. sint (ev_sequence e)) base)"
      using assms(1) by (simp add: store_ok_def sorted_wrt_append)
    obtain bs b where bs: "base = bs @ [b]" using fb by (cases base rule: rev_cases) auto
    have "sint (ev_sequence f) \<le> sint (ev_sequence b)"
      using srt fb bs by (auto simp: sorted_wrt_append less_imp_le)
    also have "\<dots> = int (last_sequence base)"
      using assms(5) bs sint_small [of "ev_sequence b"] by (simp add: last_sequence_def in_bounds_def)
    finally show ?thesis using ord(2) by simp
  qed
  have "e \<notin> set lost" using ord(1) assms(6) by auto
  moreover have "\<forall>f \<in> set (events st). sint (ev_sequence f) < sint (ev_sequence e)"
    using assms(1) base ord(1) by (auto simp: store_ok_def stored_sequence)
  ultimately show ?thesis
    using append_last [OF assms(2) _ assms(3)] assms(1) by (auto simp: store_ok_def)
qed

lemma store_lost:
  assumes "store_ok base taken lost st" and "a \<in> appends" and "a e st = (Inl x, st')"
    and "seal_all env (base_chain service base) arrived = (taken @ e # q, c)"
    and "in_bounds base arrived"
  shows "store_ok base (taken @ [e]) (lost @ [e]) st'"
proof -
  have "e \<notin> set taken" using sealed_run_ordered(1) [OF assms(5,4)] by auto
  then have "filter (\<lambda>f. f \<notin> set (lost @ [e])) (taken @ [e]) = filter (\<lambda>f. f \<notin> set lost) taken"
    by (auto intro: filter_cong)
  with assms(1) append_err [OF assms(2,3)] show ?thesis by (simp add: store_ok_def)
qed

lemma run_inv_pair:
  "run_inv env service base arrived taken lost s \<longleftrightarrow>
     (\<exists>ch p q st ld. trail_of s = (ch, p, writer_with q, Some st, ld) \<and> store_ok base taken lost st
        \<and> (case ch of
              None \<Rightarrow> q = [] \<and> taken = [] \<and> lost = [] \<and> p = arrived
                \<and> (ld = None \<or> ld = Some (base_message service base))
            | Some c \<Rightarrow> seal_all env (base_chain service base) arrived = (taken @ q, c)
                \<and> p = [] \<and> set lost \<subseteq> set taken))"
  by (auto simp: run_inv_def trail_of_def)

lemma emit_inv:
  assumes "run_inv env service base arrived taken lost s"
    and "on_audit_event env dbg clk e s = Some s'"
  shows "run_inv env service base (if has_room s then arrived @ [e] else arrived) taken lost s'"
proof (cases "sys_chain s")
  case None
  then have "buffer_pending_event dbg clk e s = Some s'"
    using assms(2) by (simp add: on_audit_event_def)
  from buffer_trail [OF this] assms(1) None show ?thesis
    by (auto simp: run_inv_pair trail_of_def has_room_def)
next
  case (Some c)
  then have sd: "seal_and_dispatch env dbg clk e s = Some s'"
    using assms(2) by (simp add: on_audit_event_def)
  obtain q st where q: "sys_writer s = writer_with q" "sys_store s = Some st"
      "store_ok base taken lost st" "seal_all env (base_chain service base) arrived = (taken @ q, c)"
      "sys_pending s = []" "set lost \<subseteq> set taken"
    using assms(1) Some by (auto simp: run_inv_def)
  have "seal_all env (base_chain service base) (arrived @ [e]) =
      (taken @ (q @ [fst (seal env c e)]), snd (seal env c e))"
    using q(4) by (simp add: seal_all_append Let_def split: prod.splits)
  with seal_and_dispatch_trail [OF sd Some q(1)] q Some show ?thesis
    by (auto simp: run_inv_pair has_room_def)
qed

lemma loaded_chain:
  assumes "linked env None base"
  shows "(case cl_previous_hash (base_message service base) of
      Some hash \<Rightarrow> chain_resume (cl_service_name (base_message service base)) hash
        (cl_sequence (base_message service base))
    | None \<Rightarrow> chain_new (cl_service_name (base_message service base))) = base_chain service base"
proof (cases base rule: rev_cases)
  case (snoc bs b)
  with assms have "ev_hash b \<noteq> None" by (auto simp: linked_append link_ok_def)
  with snoc show ?thesis by (auto simp: base_message_def base_chain_def)
qed (simp add: base_message_def base_chain_def)

lemma loaded_inv:
  assumes "run_inv env service base arrived taken lost s" and "linked env None base"
    and "sys_chain s = None" and "sys_loaded s = Some msg"
    and "on_chain_loaded env dbg clks msg s = Some s'"
  shows "run_inv env service base arrived taken lost s'"
proof -
  let ?s = "s\<lparr>sys_chain := Some (base_chain service base), sys_pending := []\<rparr>"
  obtain st where st: "sys_writer s = writer_with []" "sys_store s = Some st"
      "store_ok base [] [] st" "taken = []" "lost = []" "sys_pending s = arrived"
      "msg = base_message service base"
    using assms(1,3,4) by (auto simp: run_inv_def)
  have "seal_pending env dbg clks arrived ?s = Some s'"
    using assms(5) st loaded_chain [OF assms(2), of service]
    by (simp add: on_chain_loaded_def Let_def)
  from seal_pending_trail [OF this, of "base_chain service base" "[]"] st show ?thesis
    by (auto simp: run_inv_pair intro!: exI [of _ "fst (seal_all env (base_chain service base) arrived)"])
qed

lemma run_invariant:
  assumes "audit_run env dbg service appends latests s0 arrived taken lost s"
    and "run_inv env service base [] [] [] s0" and "linked env None base"
    and "in_bounds base arrived"
  shows "run_inv env service base arrived taken lost s"
  using assms(1,4)
proof (induction rule: audit_run.induct)
  case Start
  show ?case by (rule assms(2))
next
  case (Emit arrived taken lost s clk e s')
  then have "run_inv env service base arrived taken lost s" by (simp add: in_bounds_def)
  from emit_inv [OF this Emit.hyps(3)] Emit.hyps(2) show ?case by simp
next
  case (Drop arrived taken lost s clk e s')
  from emit_inv [OF Drop.IH [OF Drop.prems] Drop.hyps(3)] Drop.hyps(2) show ?case by simp
next
  case (Load arrived taken lost s st latest r)
  from Load.IH [OF Load.prems] Load.hyps(2,4) have "events st = base"
    by (auto simp: run_inv_def store_ok_def)
  with Load.IH [OF Load.prems] Load.hyps latest_message [OF Load.hyps(5,6), of service]
  show ?case by (auto simp: run_inv_def)
next
  case (Loaded arrived taken lost s msg clks s')
  show ?case
    using loaded_inv [OF Loaded.IH [OF Loaded.prems] assms(3) Loaded.hyps(2-4)] .
next
  case (Written arrived taken lost s e rest st append_op u st' clk s')
  obtain c where c: "sys_writer s = writer_with (e # rest)" "store_ok base taken lost st"
      "sys_chain s = Some c" "seal_all env (base_chain service base) arrived = (taken @ e # rest, c)"
      "sys_pending s = []" "set lost \<subseteq> set taken"
    using Written.IH [OF Written.prems] Written.hyps(2,3)
    by (auto simp: run_inv_def queue_of_def writer_with_def split: option.splits)
  have "store_ok base (taken @ [e]) lost st'"
    using store_written [OF c(2) Written.hyps(4,5) c(4) Written.prems c(6)] .
  with writer_turn_trail [OF Written.hyps(6) c(1) Written.hyps(3,5)] c show ?case
    by (auto simp: run_inv_pair)
next
  case (Lost arrived taken lost s e rest st append_op x st' clk s')
  obtain c where c: "sys_writer s = writer_with (e # rest)" "store_ok base taken lost st"
      "sys_chain s = Some c" "seal_all env (base_chain service base) arrived = (taken @ e # rest, c)"
      "sys_pending s = []" "set lost \<subseteq> set taken"
    using Lost.IH [OF Lost.prems] Lost.hyps(2,3)
    by (auto simp: run_inv_def queue_of_def writer_with_def split: option.splits)
  have "store_ok base (taken @ [e]) (lost @ [e]) st'"
    using store_lost [OF c(2) Lost.hyps(4,5) c(4) Lost.prems] .
  with writer_turn_trail [OF Lost.hyps(6) c(1) Lost.hyps(3,5)] c show ?case
    by (auto simp: run_inv_pair)
qed

end

subsection \<open>The trail over PostgreSQL\<close>

text \<open>What the columns of the table give back for an event.\<close>

definition column_form :: "(datetime \<Rightarrow> datetime) \<Rightarrow> (json \<Rightarrow> json) \<Rightarrow> audit_event \<Rightarrow> audit_event" where
  "column_form ts js e = e\<lparr>ev_timestamp := ts (ev_timestamp e), ev_metadata := map_option js (ev_metadata e)\<rparr>"

text \<open>
  \<^verbatim>\<open>PgAuditStorage::append\<close> on servers with given column types; each call may meet other faults.
\<close>

definition pg_appends ::
  "(datetime \<Rightarrow> datetime) \<Rightarrow> (json \<Rightarrow> json) \<Rightarrow> (audit_event \<Rightarrow> pg_audit \<Rightarrow> (error + unit) \<times> pg_audit) set" where
  "pg_appends ts js = {pg_append db | db. db_timestamptz db = ts \<and> db_jsonb db = js}"

lemma pg_appendsI: "pg_append db \<in> pg_appends (db_timestamptz db) (db_jsonb db)"
  by (auto simp: pg_appends_def)

lemma pg_stored_column: "pg_stored db = column_form (db_timestamptz db) (db_jsonb db)"
  by (simp add: fun_eq_iff pg_stored_def column_form_def)

interpretation pg_trail: audit_trail "pg_appends ts js" "range pg_latest" pg_events
  "column_form ts js" pg_inv for ts js
proof
  fix a l assume a: "a \<in> pg_appends ts js" and "l \<in> range pg_latest"
  then obtain db db1 where "a = pg_append db" "l = pg_latest db1" "pg_stored db = column_form ts js"
    by (auto simp: pg_appends_def pg_stored_column)
  then show "\<exists>q p c. audit_store a l q p pg_events (column_form ts js) pg_inv c"
    using pg.audit_store_axioms [of db db1] by metis
next
  show "pg_appends ts js \<noteq> {}"
    using pg_appendsI [of "\<lparr>db_fault = (\<lambda>_. None), db_violation = [], db_timestamptz = ts, db_jsonb = js\<rparr>"]
    by auto
qed simp

lemma spawn_inv:
  assumes "pg_inv st"
  shows "pg_trail.run_inv ts js env service (pg_events st) [] [] []
    (agent_spawn senv config (Some st) service)"
  using assms
  by (auto simp: pg_trail.run_inv_def pg_trail.store_ok_def agent_spawn_def writer_with_def)


lemma column_form_link:
  assumes "link_ok env p e" and "is_v2 e"
    and "\<And>t. ce_rfc3339 env (ts t) = ce_rfc3339 env t"
    and "\<And>m. canonical_json env (js m) = canonical_json env m"
  shows "link_ok env p (column_form ts js e)"
proof -
  have "v2_fields env (column_form ts js e) = v2_fields env e"
    using assms(3,4) by (simp add: v2_fields_def column_form_def option.map_comp comp_def)
  with assms(1,2) show ?thesis
    by (auto simp: link_ok_def is_v2_def recompute_hash_def compute_hash_v2_def v2_preimage_def
        column_form_def split: option.splits)
qed

lemma column_form_linked:
  assumes "linked env p es" and "list_all is_v2 es"
    and "\<And>t. ce_rfc3339 env (ts t) = ce_rfc3339 env t"
    and "\<And>m. canonical_json env (js m) = canonical_json env m"
  shows "linked env p (map (column_form ts js) es)"
  using assms(1,2)
  by (induction es arbitrary: p) (simp_all add: column_form_link assms(3,4), simp add: column_form_def)

lemma seal_all_v2: "list_all is_v2 (fst (seal_all env c es))"
proof (induction es arbitrary: c)
  case (Cons e es)
  have "is_v2 (fst (seal env c e))" by (simp add: is_v2_def seal_def Let_def)
  with Cons.IH [of "snd (seal env c e)"] show ?case by (auto simp: split_beta Let_def)
qed simp


text \<open>A run on an empty table: one event arrives before the chain is loaded and is written.\<close>

definition sample_config :: audit_config where
  "sample_config =
     \<lparr>ac_enabled = True, ac_audit_all_requests = False, ac_audit_auth_events = True,
      ac_audit_config_events = True, ac_drift_endpoint_enabled = False,
      ac_syslog = \<lparr>sc_transport = ''none'', sc_address = ''127.0.0.1:514'', sc_facility = 13,
        sc_app_name = None\<rparr>,
      ac_otlp_logs_enabled = False, ac_audited_routes = [], ac_excluded_routes = [],
      ac_retention_days = Some 90, ac_archive_path = Some ''/a'', ac_cleanup_interval_hours = 24,
      ac_alerts = None\<rparr>"

definition empty_table :: pg_audit where
  "empty_table = \<lparr>pg_rows = [], pg_no_update = True, pg_no_delete = True\<rparr>"

definition sample_event :: audit_event where
  "sample_event = audit_event_new [1] 5 HttpRequest Notice ''a''"

lemma sample_run:
  defines "sealed \<equiv> fst (seal sample_env (chain_new ''s'') sample_event)"
  shows "\<exists>s. audit_run sample_env (\<lambda>x. x) ''s'' (pg_appends (\<lambda>t. t) (\<lambda>j. j)) (range pg_latest)
      (agent_spawn sample_syslog sample_config (Some empty_table) ''s'') [sample_event] [sealed] [] s
    \<and> sys_store s = Some (empty_table\<lparr>pg_rows := [row_of_event sample_db sealed]\<rparr>)
    \<and> sys_chain s \<noteq> None"
proof -
  let ?run = "audit_run sample_env (\<lambda>x. x) ''s'' (pg_appends (\<lambda>t. t) (\<lambda>j. j)) (range pg_latest)
      (agent_spawn sample_syslog sample_config (Some empty_table) ''s'' :: pg_audit audit_system)"
  let ?s0 = "agent_spawn sample_syslog sample_config (Some empty_table) ''s''"
  let ?s1 = "?s0\<lparr>sys_pending := [sample_event]\<rparr>"
  let ?s2 = "?s1\<lparr>sys_loaded := Some (load_chain (pg_latest sample_db) ''s'' (sys_store ?s1))\<rparr>"
  let ?s3 = "?s2\<lparr>sys_chain := Some (snd (seal sample_env (chain_new ''s'') sample_event)),
    sys_pending := [], sys_writer := Some \<lparr>wr_alive = True, wr_queue = [sealed]\<rparr>\<rparr>"
  let ?st = "empty_table\<lparr>pg_rows := [row_of_event sample_db sealed]\<rparr>"
  let ?s4 = "?s3\<lparr>sys_writer := Some \<lparr>wr_alive = True, wr_queue = []\<rparr>, sys_store := Some ?st\<rparr>"
  have "?run [sample_event] [] [] ?s1"
    using audit_run.Emit [OF audit_run.Start, where clk = "(0, 0)" and e = sample_event
        and s0 = ?s0 and s' = ?s1]
    by (simp add: has_room_def agent_spawn_def on_audit_event_def buffer_pending_event_def
        MAX_PENDING_EVENTS_def)
  then have "?run [sample_event] [] [] ?s2"
    by (rule audit_run.Load [where r = None])
      (auto simp: agent_spawn_def pg_latest_def sample_db_def rows_by_sequence_def empty_table_def)
  then have "?run [sample_event] [] [] ?s3"
    by (rule audit_run.Loaded [where clks = "[]"
          and msg = "\<lparr>cl_previous_hash = None, cl_sequence = 0, cl_service_name = ''s''\<rparr>"])
      (simp_all add: agent_spawn_def on_chain_loaded_def load_chain_def pg_latest_def sample_db_def
        rows_by_sequence_def empty_table_def seal_and_dispatch_def sealed_def Let_def split_beta)
  moreover have "ev_hash sealed \<noteq> None" by (simp add: sealed_def seal_def Let_def)
  then have "pg_append sample_db sealed empty_table = (Inr (), ?st)"
    by (simp add: pg_append_def sample_db_def row_admissible_def empty_table_def row_of_event_def)
  moreover have "writer_turn (pg_append sample_db) (0, 0) ?s3 = Some ?s4"
    using calculation(2) by (simp add: writer_turn_def persist_def note_success_def
        tracker_call_with_def agent_spawn_def agent_tracker_def sample_config_def)
  moreover have "pg_append sample_db \<in> pg_appends (\<lambda>t. t) (\<lambda>j. j)"
    using pg_appendsI [of sample_db] by (simp add: sample_db_def)
  ultimately have "?run [sample_event] ([] @ [sealed]) [] ?s4"
    by (intro audit_run.Written [where e = sealed and rest = "[]" and st = empty_table
          and append_op = "pg_append sample_db" and clk = "(0, 0)" and s = ?s3])
      (simp_all add: queue_of_def agent_spawn_def)
  then show ?thesis by (intro exI [of _ ?s4]) simp
qed

lemma empty_table_facts:
  "pg_inv empty_table" "pg_events empty_table = []" "in_bounds [] [sample_event]"
  by (simp_all add: pg_inv_def pg_events_def rows_by_sequence_def empty_table_def in_bounds_def
      last_sequence_def)



subsection \<open>Handlers do not panic\<close>

definition tracker_ok :: "'s audit_system \<Rightarrow> bool" where
  "tracker_ok s \<longleftrightarrow> (case sys_tracker s of None \<Rightarrow> True | Some (ft, st) \<Rightarrow> tracker_inv st)"

lemma tracker_ok_update [simp]:
  "tracker_ok (s\<lparr>sys_chain := c\<rparr>) = tracker_ok s" "tracker_ok (s\<lparr>sys_pending := p\<rparr>) = tracker_ok s"
  "tracker_ok (s\<lparr>sys_writer := w\<rparr>) = tracker_ok s" "tracker_ok (s\<lparr>sys_store := st\<rparr>) = tracker_ok s"
  "tracker_ok (s\<lparr>sys_loaded := l\<rparr>) = tracker_ok s" "tracker_ok (s\<lparr>sys_sent := es\<rparr>) = tracker_ok s"
  by (simp_all add: tracker_ok_def)

lemma tracker_call_total:
  assumes "tracker_ok s" and "\<And>ft st. tracker_inv st \<Longrightarrow> \<exists>st' ev. f ft st = Some (st', ev) \<and> tracker_inv st'"
  shows "\<exists>s'. tracker_call_with f s = Some s' \<and> tracker_ok s'"
proof (cases "sys_tracker s")
  case (Some t)
  obtain ft st where t: "t = (ft, st)" by fastforce
  with Some assms(1) have "tracker_inv st" by (simp add: tracker_ok_def)
  with assms(2) obtain st' ev where "f ft st = Some (st', ev)" "tracker_inv st'" by blast
  with Some t show ?thesis by (simp add: tracker_call_with_def tracker_ok_def)
qed (use assms(1) in \<open>simp add: tracker_call_with_def\<close>)

lemma note_total:
  assumes "tracker_ok s"
  shows "\<exists>s'. note_failure clk r s = Some s' \<and> tracker_ok s'"
    and "\<exists>s'. note_success clk s = Some s' \<and> tracker_ok s'"
  unfolding note_failure_def note_success_def
  using assms tracker_failure_ok tracker_success_ok by (blast intro: tracker_call_total)+

lemma buffer_total:
  "tracker_ok s \<Longrightarrow> \<exists>s'. buffer_pending_event dbg clk e s = Some s' \<and> tracker_ok s'"
  using note_total(1) [of s] by (simp add: buffer_pending_event_def)

lemma seal_and_dispatch_total:
  assumes "tracker_ok s"
  shows "\<exists>s'. seal_and_dispatch env dbg clk e s = Some s' \<and> tracker_ok s'"
proof (cases "sys_chain s")
  case None
  then show ?thesis using buffer_total [OF assms] by (simp add: seal_and_dispatch_def)
next
  case (Some c)
  with assms note_total(1) [of "s\<lparr>sys_chain := Some (snd (seal env c e))\<rparr>"] show ?thesis
    by (cases "sys_writer s") (simp_all add: seal_and_dispatch_def Let_def split_beta)
qed

lemma seal_pending_total:
  "tracker_ok s \<Longrightarrow> \<exists>s'. seal_pending env dbg clks es s = Some s' \<and> tracker_ok s'"
proof (induction es arbitrary: clks s)
  case (Cons e es)
  obtain s' where "seal_and_dispatch env dbg (case clks of [] \<Rightarrow> (0, 0) | c # _ \<Rightarrow> c) e s = Some s'"
      "tracker_ok s'"
    using seal_and_dispatch_total [OF Cons.prems] by blast
  with Cons.IH [of s' "tl clks"] show ?case by (simp add: Let_def)
qed simp

lemma persist_total:
  assumes "tracker_ok s"
  shows "\<exists>s'. persist append_op clk e s = Some s' \<and> tracker_ok s'"
proof (cases "sys_store s")
  case (Some store)
  obtain r st' where "append_op e store = (r, st')" by fastforce
  with Some assms note_total [of "s\<lparr>sys_store := Some st'\<rparr>"] show ?thesis
    by (cases r) (simp_all add: persist_def)
qed (use assms in \<open>simp add: persist_def\<close>)

lemma writer_turn_total:
  assumes "tracker_ok s"
  shows "\<exists>s'. writer_turn append_op clk s = Some s' \<and> tracker_ok s'"
proof (cases "\<exists>w e q. sys_writer s = Some w \<and> wr_queue w = e # q")
  case True
  then obtain w e q where w: "sys_writer s = Some w" "wr_queue w = e # q" by blast
  obtain s' where "persist append_op clk e (s\<lparr>sys_writer := Some (w\<lparr>wr_queue := q\<rparr>)\<rparr>) = Some s'"
      "tracker_ok s'"
    using persist_total assms tracker_ok_update(3) by blast
  with w show ?thesis by (simp add: writer_turn_def)
next
  case False
  with assms show ?thesis
    by (cases "sys_writer s") (auto simp: writer_turn_def split: list.splits)
qed

lemma on_events_total:
  assumes "tracker_ok s"
  shows "\<exists>s'. on_audit_event env dbg clk e s = Some s' \<and> tracker_ok s'"
    and "\<exists>s'. on_chain_loaded env dbg clks msg s = Some s' \<and> tracker_ok s'"
proof -
  show "\<exists>s'. on_audit_event env dbg clk e s = Some s' \<and> tracker_ok s'"
    using buffer_total [OF assms] seal_and_dispatch_total [OF assms]
    by (simp add: on_audit_event_def)
  show "\<exists>s'. on_chain_loaded env dbg clks msg s = Some s' \<and> tracker_ok s'"
    unfolding on_chain_loaded_def Let_def
    by (rule seal_pending_total) (simp add: assms)
qed

lemma run_tracker_ok:
  assumes "audit_run env dbg service appends latests s0 arrived taken lost s" and "tracker_ok s0"
  shows "tracker_ok s"
  using assms
proof (induction rule: audit_run.induct)
  case (Emit arrived taken lost s clk e s')
  then show ?case using on_events_total(1) [of s env dbg clk e] by simp
next
  case (Drop arrived taken lost s clk e s')
  then show ?case using on_events_total(1) [of s env dbg clk e] by simp
next
  case (Loaded arrived taken lost s msg clks s')
  then show ?case using on_events_total(2) [of s env dbg clks msg] by simp
next
  case (Written arrived taken lost s e rest st append_op u st' clk s')
  then show ?case using writer_turn_total [of s append_op clk] by simp
next
  case (Lost arrived taken lost s e rest st append_op x st' clk s')
  then show ?case using writer_turn_total [of s append_op clk] by simp
qed simp_all

text \<open>
  Neither the agent nor the writer ever panics. From every state that a run from
  \<^verbatim>\<open>AuditAgent::spawn\<close> can reach, over any backend and any alert configuration, each handler and
  each turn of the writer returns.
\<close>

theorem agent_never_panics:
  assumes "audit_run env dbg service appends latests (agent_spawn senv config store service)
      arrived taken lost s"
  shows "(\<exists>s'. on_audit_event env dbg clk e s = Some s') \<and>
    (\<exists>s'. on_chain_loaded env dbg clks msg s = Some s') \<and>
    (\<exists>s'. writer_turn append_op clk s = Some s')"
proof -
  have "tracker_ok (agent_spawn senv config store service)"
    by (simp add: tracker_ok_def agent_spawn_def agent_tracker_def failure_tracker_new_def
        split: option.splits)
  with run_tracker_ok [OF assms] have ok: "tracker_ok s" .
  from on_events_total [OF ok, of env dbg] writer_turn_total [OF ok, of append_op clk]
  show ?thesis by blast
qed

theorem agent_never_panics_witness:
  "\<exists>s'. on_audit_event sample_env (\<lambda>x. x) (0, 0) sample_event
     (agent_spawn sample_syslog sample_config (Some empty_table) ''s'') = Some s'"
  using agent_never_panics [OF audit_run.Start [of sample_env "\<lambda>x. x" "''s''" "{}" "{}"
      "agent_spawn sample_syslog sample_config (Some empty_table) ''s''"]]
  by blast

subsection \<open>Start-up waits at most 30 seconds\<close>

lemma wait_from_returns:
  assumes "\<And>j. j \<ge> i \<Longrightarrow> deadline \<le> now (j + k)" and "\<forall>j < i. \<not> is_ok (ready j)"
  shows "\<exists>n b. wait_from ready now deadline i = Some (n, b) \<and> n \<le> i + Suc k
    \<and> (\<forall>j < n. \<not> is_ok (ready j))
    \<and> (if b then is_ok (ready n) else 0 < n \<and> deadline \<le> now (n - 1))"
  using assms
proof (induction k arbitrary: i)
  case 0
  then show ?case
    by (cases "ready i") (auto simp: wait_from.simps less_Suc_eq)
next
  case (Suc k)
  show ?case
  proof (cases "is_ok (ready i) \<or> deadline \<le> now i")
    case True
    with Suc.prems show ?thesis
      by (cases "ready i") (auto simp: wait_from.simps [of ready now deadline i] less_Suc_eq)
  next
    case False
    then have step: "wait_from ready now deadline i = wait_from ready now deadline (Suc i)"
      by (subst wait_from.simps) (auto split: sum.splits)
    have "deadline \<le> now (j + k)" if "j \<ge> Suc i" for j
      using Suc.prems(1) [of "j - 1"] that by simp
    with Suc.IH [of "Suc i"] False Suc.prems(2) step show ?thesis
      by (auto simp: less_Suc_eq)
  qed
qed

text \<open>
  Start-up does not hang on storage. When every poll is followed by a sleep of at least the
  poll interval, the wait ends after at most 121 failed polls: with ready storage if some poll
  before the timeout succeeded, and otherwise only after the 30-second deadline.
\<close>

theorem wait_for_storage_returns:
  assumes "start \<le> now 0" and "\<forall>i. now i + STORAGE_READY_POLL_INTERVAL \<le> now (Suc i)"
  shows "\<exists>n b. wait_for_storage ready start now = Some (n, b) \<and> n \<le> 121
    \<and> (\<forall>j < n. \<not> is_ok (ready j))
    \<and> (if b then is_ok (ready n) else start + STORAGE_READY_TIMEOUT \<le> now (n - 1))"
proof -
  have "start + i * STORAGE_READY_POLL_INTERVAL \<le> now i" for i
  proof (induction i)
    case (Suc i)
    from assms(2) have "now i + STORAGE_READY_POLL_INTERVAL \<le> now (Suc i)" by blast
    with Suc show ?case by simp
  qed (use assms(1) in simp)
  note clock = this
  have d: "start + STORAGE_READY_TIMEOUT \<le> now (j + 120)" for j
  proof -
    have "start + STORAGE_READY_TIMEOUT \<le> start + (j + 120) * STORAGE_READY_POLL_INTERVAL"
      by (simp add: STORAGE_READY_TIMEOUT_def STORAGE_READY_POLL_INTERVAL_def from_secs_def
          nanos_per_sec_def)
    also have "\<dots> \<le> now (j + 120)" by (rule clock)
    finally show ?thesis .
  qed
  from wait_from_returns [of 0 "start + STORAGE_READY_TIMEOUT" now 120 ready, OF d]
  obtain n b where "wait_from ready now (start + STORAGE_READY_TIMEOUT) 0 = Some (n, b)" "n \<le> 121"
      "\<forall>j < n. \<not> is_ok (ready j)"
      "if b then is_ok (ready n) else start + STORAGE_READY_TIMEOUT \<le> now (n - 1)"
    by (auto split: if_splits)
  then show ?thesis unfolding wait_for_storage_def by blast
qed

theorem wait_for_storage_returns_witness:
  "\<exists>n b. wait_for_storage (\<lambda>i. if i < 3 then Inl (Internal []) else Inr ()) 7
     (\<lambda>i. 7 + i * STORAGE_READY_POLL_INTERVAL) = Some (n, b) \<and> n \<le> 121"
  using wait_for_storage_returns [of 7 "\<lambda>i. 7 + i * STORAGE_READY_POLL_INTERVAL"
      "\<lambda>i. if i < 3 then Inl (Internal []) else Inr ()"]
  by auto

subsection \<open>Retention cleanup over any storage backend\<close>

lemma archive_lines_ok:
  "archive_lines f es acc = Inr ls \<Longrightarrow> ls = acc @ concat (map (\<lambda>e. projr (f e) @ [CHR 0x0A]) es)"
proof (induction es arbitrary: acc)
  case (Cons e es)
  then obtain line where "f e = Inr line" "archive_lines f es (acc @ line @ [CHR 0x0A]) = Inr ls"
    by (auto split: sum.splits)
  with Cons.IH [of "acc @ line @ [CHR 0x0A]"] show ?case by simp
qed simp

lemma archive_events_ok:
  assumes "archive_events ar es dir fs = (Inr path, fs')"
  shows "fs' = fs(path \<mapsto> concat (map (\<lambda>e. projr (ar_to_string ar e) @ [CHR 0x0A]) es))"
  using assms archive_lines_ok [of "ar_to_string ar" es "[]"]
  by (auto simp: archive_events_def Let_def split: if_splits option.splits sum.splits)

lemma archive_events_err: "archive_events ar es dir fs = (Inl x, fs') \<Longrightarrow> fs' = fs"
  by (auto simp: archive_events_def Let_def split: if_splits option.splits sum.splits)

text \<open>The text of the archive file: one JSON line per event, oldest sequence number first.\<close>

definition archive_text :: "archive_env \<Rightarrow> audit_event list \<Rightarrow> string" where
  "archive_text ar es = concat (map (\<lambda>e. projr (ar_to_string ar e) @ [CHR 0x0A]) es)"

definition archive_step ::
  "archive_env \<Rightarrow> string option \<Rightarrow> audit_event list \<Rightarrow> files \<Rightarrow> (error + string) \<times> files" where
  "archive_step ar dir es fs =
     (case dir of Some d \<Rightarrow> archive_events ar es d fs | None \<Rightarrow> (Inr [], fs))"

lemma archive_step_err: "archive_step ar dir es fs = (Inl x, fs') \<Longrightarrow> fs' = fs"
  by (auto simp: archive_step_def dest: archive_events_err split: option.splits)

lemma archive_step_ok:
  "archive_step ar dir es fs = (Inr path, fs') \<Longrightarrow>
     fs' = (if dir = None then fs else fs(path \<mapsto> archive_text ar es))"
  by (auto simp: archive_step_def archive_text_def dest: archive_events_ok split: option.splits)

lemmas cleanup_turn = cleanup_loop.simps [folded archive_step_def]

context audit_store
begin

definition ops_at :: "(nat \<Rightarrow> archive_env) \<Rightarrow> nat \<Rightarrow> 's cleanup_ops" where
  "ops_at ar i = \<lparr>co_query_before = query_before, co_purge_before = purge_before, co_archive = ar i\<rparr>"

lemma ops_at_simps [simp]:
  "co_query_before (ops_at ar i) = query_before" "co_purge_before (ops_at ar i) = purge_before"
  "co_archive (ops_at ar i) = ar i"
  by (simp_all add: ops_at_def)

definition old :: "datetime \<Rightarrow> 's \<Rightarrow> audit_event list" where
  "old cutoff s = filter (\<lambda>e. ev_timestamp e < column cutoff) (events s)"

text \<open>After a purge the next turn of the loop ends it.\<close>

lemma second_turn:
  assumes "invar s" and "purge_before cutoff s = (Inr k, s')"
  shows "\<exists>r. cleanup_loop (ops_at ar) cutoff dir i tot s' fs = Some (r, s', fs) \<and> (\<forall>n. r = Inr n \<longrightarrow> n = tot)"
  using purge_then_query_empty [OF assms, of CLEANUP_BATCH_SIZE]
  by (cases "query_before cutoff CLEANUP_BATCH_SIZE s'")
    (simp_all add: cleanup_turn [of "ops_at ar" cutoff dir i])

lemma cleanup_cases:
  assumes "invar s"
  shows "\<exists>r s' fs'. cleanup_loop (ops_at ar) cutoff dir 0 0 s fs = Some (r, s', fs') \<and>
     ((events s' = events s \<and> (fs' = fs \<or> (\<exists>x. r = Inl x)) \<and> (\<forall>n. r = Inr n \<longrightarrow> old cutoff s = []))
      \<or> (\<exists>path. events s' = filter (\<lambda>e. column cutoff \<le> ev_timestamp e) (events s)
          \<and> archive_step (ar 0) dir (take CLEANUP_BATCH_SIZE (old cutoff s)) fs = (Inr path, fs')))"
proof (cases "query_before cutoff CLEANUP_BATCH_SIZE s")
  case (Inl x)
  then show ?thesis by (simp add: cleanup_turn)
next
  case (Inr es)
  note q = this
  have es: "es = take CLEANUP_BATCH_SIZE (old cutoff s)"
    using query_before_ok [OF assms q] by (simp add: old_def)
  show ?thesis
  proof (cases "es = []")
    case True
    with es have "old cutoff s = []" by (auto simp: CLEANUP_BATCH_SIZE_def)
    with q True show ?thesis by (simp add: cleanup_turn)
  next
    case False
    obtain r1 fs1 where a: "archive_step (ar 0) dir es fs = (r1, fs1)" by fastforce
    obtain r2 s2 where p: "purge_before cutoff s = (r2, s2)" by fastforce
    note turn = cleanup_turn [of "ops_at ar" cutoff dir 0 0 s fs]
    show ?thesis
    proof (cases r1)
      case (Inl e)
      with archive_step_err [of "ar 0" dir es fs] a q False turn show ?thesis by simp
    next
      case (Inr path)
      show ?thesis
      proof (cases r2)
        case (Inl e)
        with \<open>r1 = Inr path\<close> purge_err [of cutoff s] a p q False turn show ?thesis by simp
      next
        case (Inr k)
        with purge_ok [OF assms, of cutoff k s2] p
        have ev: "events s2 = filter (\<lambda>e. column cutoff \<le> ev_timestamp e) (events s)" by simp
        obtain r3 where "cleanup_loop (ops_at ar) cutoff dir 1 k s2 fs1 = Some (r3, s2, fs1)"
          using second_turn [OF assms, of cutoff k s2] p Inr by blast
        with \<open>r1 = Inr path\<close> Inr ev a p q False turn es show ?thesis by auto
      qed
    qed
  qed
qed

end

text \<open>
  C39: one retention cycle over PostgreSQL. \<^verbatim>\<open>run_cleanup\<close> always returns. Either the table is left
  as it was, or exactly the events older than the retention period are gone (the
  cutoff \<open>c\<close> is what the column type keeps of it); they go only after
  the archive file was written, and when the cycle reports success none of them is left. The
  archive file holds the first 10,000 of the purged events and no others, so in a cycle with more
  old events the rest is deleted without having been archived.
\<close>

theorem retention_cleanup:
  assumes "pg_inv st" and "ac_retention_days config = Some days"
    and "c = db_timestamptz db (utc_now - uint days * nanos_per_day)"
  shows "\<exists>r st' fs'.
     run_cleanup (\<lambda>i. \<lparr>co_query_before = pg_query_before (db\<lparr>db_fault := f\<rparr>), co_purge_before = pg_purge_before (db\<lparr>db_fault := g\<rparr>),
         co_archive = ar i\<rparr>) config utc_now st fs = Some (r, st', fs') \<and>
     (pg_events st' = pg_events st \<or>
        pg_events st' = filter (\<lambda>e. c \<le> ev_timestamp e) (pg_events st) \<and>
        (ac_archive_path config \<noteq> None \<longrightarrow>
          (\<exists>path. fs' = fs(path \<mapsto> archive_text (ar 0)
             (take 10000 (filter (\<lambda>e. ev_timestamp e < c) (pg_events st))))))) \<and>
     (is_ok r \<longrightarrow> (\<forall>e \<in> set (pg_events st'). c \<le> ev_timestamp e))"
proof -
  let ?cutoff = "utc_now - uint days * nanos_per_day"
  let ?ops = "\<lambda>i. \<lparr>co_query_before = pg_query_before (db\<lparr>db_fault := f\<rparr>), co_purge_before = pg_purge_before (db\<lparr>db_fault := g\<rparr>),
    co_archive = ar i\<rparr>"
  have ops: "?ops = pg.ops_at f db g ar"
    by (rule ext) (simp add: pg.ops_at_def)
  obtain r st' fs' where loop: "cleanup_loop ?ops ?cutoff (ac_archive_path config) 0 0 st fs = Some (r, st', fs')"
    and cs: "(pg_events st' = pg_events st \<and> (\<forall>n. r = Inr n \<longrightarrow> pg.old db ?cutoff st = [])) \<or>
      (\<exists>path. pg_events st' = filter (\<lambda>e. c \<le> ev_timestamp e) (pg_events st) \<and>
        archive_step (ar 0) (ac_archive_path config) (take CLEANUP_BATCH_SIZE (pg.old db ?cutoff st)) fs
          = (Inr path, fs'))"
    using pg.cleanup_cases [OF assms(1), of f db g ar ?cutoff "ac_archive_path config" fs]
    unfolding ops assms(3) by blast
  have run: "run_cleanup ?ops config utc_now st fs = Some (r, st', fs')"
    using loop assms(2,3) by (simp add: run_cleanup_def Let_def)
  have "pg_events st' = pg_events st \<or>
      pg_events st' = filter (\<lambda>e. c \<le> ev_timestamp e) (pg_events st) \<and>
      (ac_archive_path config \<noteq> None \<longrightarrow> (\<exists>path. fs' = fs(path \<mapsto> archive_text (ar 0)
         (take 10000 (filter (\<lambda>e. ev_timestamp e < c) (pg_events st))))))"
    using cs by (auto simp: assms(3) pg.old_def CLEANUP_BATCH_SIZE_def dest!: archive_step_ok)
  moreover have "is_ok r \<longrightarrow> (\<forall>e \<in> set (pg_events st'). c \<le> ev_timestamp e)"
    using cs by (auto simp: is_ok_iff assms(3) pg.old_def filter_empty_conv not_less)
  ultimately show ?thesis using run by blast
qed

theorem retention_cleanup_witness:
  "\<exists>r st' fs'. run_cleanup (\<lambda>i. \<lparr>co_query_before = pg_query_before (sample_db\<lparr>db_fault := \<lambda>_. None\<rparr>),
       co_purge_before = pg_purge_before (sample_db\<lparr>db_fault := \<lambda>_. None\<rparr>),
       co_archive = \<lparr>ar_mkdir_error = None, ar_write_error = None,
         ar_to_string = (\<lambda>e. Inr (kind_display (ev_kind e))), ar_timestamp = ''t''\<rparr>\<rparr>)
     sample_config (6 + 90 * nanos_per_day) sample_table Map.empty = Some (r, st', fs') \<and>
     (is_ok r \<longrightarrow> (\<forall>e \<in> set (pg_events st'). 6 \<le> ev_timestamp e))"
  using retention_cleanup [OF sample_table_inv, of sample_config 90 6 sample_db "6 + 90 * nanos_per_day" "\<lambda>_. None" "\<lambda>_. None"
      "\<lambda>_. \<lparr>ar_mkdir_error = None, ar_write_error = None,
         ar_to_string = (\<lambda>e. Inr (kind_display (ev_kind e))), ar_timestamp = ''t''\<rparr>" Map.empty]
  by (auto simp: sample_config_def sample_db_def)

end
