(* ===== verification/Audit_Backends.thy ===== *)
theory Audit_Backends
  imports Audit_Agent
begin

text \<open>
  More storage for the audit trail: the Turso backend (\<^verbatim>\<open>src/acton-service/src/audit/storage/turso.rs\<close>), the storage that
  attaches itself to a pool once the pool has connected (\<^verbatim>\<open>audit/storage/lazy.rs\<close>) and the choice of a backend
  (\<^verbatim>\<open>audit/wiring.rs\<close>).

  SQLite keeps identifiers, times and metadata as text and compares text byte by byte. The texts are the
  record \<open>turso_texts\<close>. Of a server \<open>fault i\<close> is the error of the i-th statement of a call, connecting first,
  and \<open>unread i\<close> says that reading the i-th row of a result fails.
\<close>

subsection \<open>The Turso backend\<close>

record turso_texts =
  tx_uuid :: "uuid \<Rightarrow> string"
  tx_parse_uuid :: "string \<Rightarrow> string + uuid"
  tx_rfc3339 :: "datetime \<Rightarrow> string"
  tx_parse_rfc3339 :: "string \<Rightarrow> string + datetime"
  tx_print :: "json \<Rightarrow> string + string"
  tx_parse :: "string \<Rightarrow> json option"
  tx_violation :: string

record turso_audit_row =
  ta_id :: string
  ta_timestamp :: string
  ta_kind :: string
  ta_severity :: int
  ta_source_ip :: "string option"
  ta_source_user_agent :: "string option"
  ta_source_subject :: "string option"
  ta_source_request_id :: "string option"
  ta_method :: "string option"
  ta_path :: "string option"
  ta_status_code :: "int option"
  ta_duration_ms :: "int option"
  ta_service_name :: string
  ta_metadata :: "string option"
  ta_hash :: "string option"
  ta_previous_hash :: "string option"
  ta_sequence :: int

record turso_audit =
  tt_rows :: "turso_audit_row list"
  tt_no_update :: bool
  tt_no_delete :: bool

type_synonym faults = "nat \<Rightarrow> string option"

text \<open>A sequence of statements, each with the words of its error.\<close>

fun run_statements :: "faults \<Rightarrow> nat \<Rightarrow> string list \<Rightarrow> error option" where
  "run_statements fault i [] = None"
| "run_statements fault i (w # ws) =
     (case fault i of Some e \<Rightarrow> Some (Internal (w @ e)) | None \<Rightarrow> run_statements fault (Suc i) ws)"

text \<open>The statements before a failing one have been executed: the triggers exist one by one.\<close>

definition turso_audit_initialize :: "faults \<Rightarrow> turso_audit \<Rightarrow> (error + unit) \<times> turso_audit" where
  "turso_audit_initialize fault s =
     (case run_statements fault 0
         [''Failed to connect for audit init: '', ''Failed to create audit_events table: '', ''Failed to create audit index: '',
          ''Failed to create audit timestamp index: '', ''Failed to create update trigger: ''] of
        Some e \<Rightarrow> (Inl e, s)
      | None \<Rightarrow>
          (case fault 5 of
             Some e \<Rightarrow> (Inl (Internal (''Failed to create delete trigger: '' @ e)), s\<lparr>tt_no_update := True\<rparr>)
           | None \<Rightarrow> (Inr (), s\<lparr>tt_no_update := True, tt_no_delete := True\<rparr>)))"

definition turso_row_of_event :: "turso_texts \<Rightarrow> audit_event \<Rightarrow> turso_audit_row" where
  "turso_row_of_event x e =
     \<lparr>ta_id = tx_uuid x (ev_id e), ta_timestamp = tx_rfc3339 x (ev_timestamp e), ta_kind = kind_display (ev_kind e),
      ta_severity = uint (as_syslog_severity (ev_severity e)),
      ta_source_ip = src_ip (ev_source e), ta_source_user_agent = src_user_agent (ev_source e),
      ta_source_subject = src_subject (ev_source e), ta_source_request_id = src_request_id (ev_source e),
      ta_method = ev_method e, ta_path = ev_path e, ta_status_code = map_option uint (ev_status_code e),
      ta_duration_ms = map_option sint (ev_duration_ms e), ta_service_name = ev_service_name e,
      ta_metadata = map_option (\<lambda>m. case tx_print x m of Inr t \<Rightarrow> t | Inl _ \<Rightarrow> []) (ev_metadata e),
      ta_hash = ev_hash e, ta_previous_hash = ev_previous_hash e, ta_sequence = sint (ev_sequence e)\<rparr>"

definition turso_row_to_event :: "turso_texts \<Rightarrow> turso_audit_row \<Rightarrow> error + audit_event" where
  "turso_row_to_event x row =
     (case tx_parse_uuid x (ta_id row) of
        Inl e \<Rightarrow> Inl (Internal (''Failed to parse UUID: '' @ e))
      | Inr i \<Rightarrow>
     (case tx_parse_rfc3339 x (ta_timestamp row) of
        Inl e \<Rightarrow> Inl (Internal (''Failed to parse timestamp: '' @ e))
      | Inr t \<Rightarrow>
          Inr \<lparr>ev_id = i, ev_timestamp = t, ev_kind = row_kind (ta_kind row), ev_severity = row_severity_of (sint (word_of_int (ta_severity row) :: 16 word)),
               ev_source = \<lparr>src_ip = ta_source_ip row, src_user_agent = ta_source_user_agent row,
                            src_subject = ta_source_subject row, src_request_id = ta_source_request_id row\<rparr>,
               ev_method = ta_method row, ev_path = ta_path row,
               ev_status_code = map_option word_of_int (ta_status_code row),
               ev_duration_ms = map_option word_of_int (ta_duration_ms row), ev_service_name = ta_service_name row,
               ev_metadata = Option.bind (ta_metadata row) (tx_parse x), ev_hash = ta_hash row,
               ev_previous_hash = ta_previous_hash row, ev_sequence = word_of_int (ta_sequence row)\<rparr>))"

definition turso_row_admissible :: "turso_audit_row list \<Rightarrow> turso_audit_row \<Rightarrow> bool" where
  "turso_row_admissible rows r \<longleftrightarrow>
     ta_id r \<notin> set (map ta_id rows) \<and> ta_sequence r \<notin> set (map ta_sequence rows) \<and> ta_hash r \<noteq> None"

definition turso_audit_append :: "turso_texts \<Rightarrow> faults \<Rightarrow> audit_event \<Rightarrow> turso_audit \<Rightarrow> (error + unit) \<times> turso_audit" where
  "turso_audit_append x fault event s =
     (case run_statements fault 0 [''Failed to connect for audit append: '', ''Failed to append audit event: ''] of
        Some e \<Rightarrow> (Inl e, s)
      | None \<Rightarrow>
          (let r = turso_row_of_event x event
           in if turso_row_admissible (tt_rows s) r then (Inr (), s\<lparr>tt_rows := tt_rows s @ [r]\<rparr>)
              else (Inl (Internal (''Failed to append audit event: '' @ tx_violation x)), s)))"

definition turso_rows_by_sequence :: "turso_audit \<Rightarrow> turso_audit_row list" where
  "turso_rows_by_sequence s = sort_key ta_sequence (tt_rows s)"

definition turso_audit_latest :: "turso_texts \<Rightarrow> faults \<Rightarrow> faults \<Rightarrow> turso_audit \<Rightarrow> error + audit_event option" where
  "turso_audit_latest x fault unread s =
     (case run_statements fault 0 [''Failed to connect for audit query: '', ''Failed to query latest audit event: ''] of
        Some e \<Rightarrow> Inl e
      | None \<Rightarrow>
     (case unread 0 of
        Some e \<Rightarrow> Inl (Internal (''Failed to read audit event row: '' @ e))
      | None \<Rightarrow>
          (case rev (turso_rows_by_sequence s) of
             [] \<Rightarrow> Inr None
           | row # _ \<Rightarrow> (case turso_row_to_event x row of Inl e \<Rightarrow> Inl e | Inr ev \<Rightarrow> Inr (Some ev)))))"

text \<open>The loop \<^verbatim>\<open>while let Ok(Some(row)) = rows.next()\<close>: a row that cannot be read ends it like the last row.\<close>

fun collect_rows :: "turso_texts \<Rightarrow> faults \<Rightarrow> nat \<Rightarrow> turso_audit_row list \<Rightarrow> error + audit_event list" where
  "collect_rows x unread i [] = Inr []"
| "collect_rows x unread i (row # rows) =
     (if unread i \<noteq> None then Inr []
      else case turso_row_to_event x row of
             Inl e \<Rightarrow> Inl e
           | Inr ev \<Rightarrow> (case collect_rows x unread (Suc i) rows of Inl e \<Rightarrow> Inl e | Inr evs \<Rightarrow> Inr (ev # evs)))"

definition turso_audit_query_range ::
  "turso_texts \<Rightarrow> faults \<Rightarrow> faults \<Rightarrow> datetime \<Rightarrow> datetime \<Rightarrow> nat \<Rightarrow> turso_audit \<Rightarrow> error + audit_event list" where
  "turso_audit_query_range x fault unread from to limit s =
     (case run_statements fault 0 [''Failed to connect for audit query: '', ''Failed to query audit events: ''] of
        Some e \<Rightarrow> Inl e
      | None \<Rightarrow> collect_rows x unread 0 (take limit (filter
          (\<lambda>r. tx_rfc3339 x from \<le> ta_timestamp r \<and> ta_timestamp r \<le> tx_rfc3339 x to) (turso_rows_by_sequence s))))"

definition turso_audit_query_before ::
  "turso_texts \<Rightarrow> faults \<Rightarrow> faults \<Rightarrow> datetime \<Rightarrow> nat \<Rightarrow> turso_audit \<Rightarrow> error + audit_event list" where
  "turso_audit_query_before x fault unread cutoff limit s =
     (case run_statements fault 0 [''Failed to connect for audit query: '', ''Failed to query audit events before cutoff: ''] of
        Some e \<Rightarrow> Inl e
      | None \<Rightarrow> collect_rows x unread 0
          (take limit (filter (\<lambda>r. ta_timestamp r < tx_rfc3339 x cutoff) (turso_rows_by_sequence s))))"

text \<open>A DELETE that meets a row while the trigger exists is aborted as a whole.\<close>

definition turso_delete_before :: "turso_texts \<Rightarrow> string \<Rightarrow> turso_audit \<Rightarrow> (string + nat) \<times> turso_audit" where
  "turso_delete_before x cutoff s =
     (if tt_no_delete s \<and> list_ex (\<lambda>r. ta_timestamp r < cutoff) (tt_rows s) then (Inl ''audit events are immutable'', s)
      else (Inr (length (filter (\<lambda>r. ta_timestamp r < cutoff) (tt_rows s))),
            s\<lparr>tt_rows := filter (\<lambda>r. \<not> ta_timestamp r < cutoff) (tt_rows s)\<rparr>))"

definition turso_audit_purge_before ::
  "turso_texts \<Rightarrow> faults \<Rightarrow> datetime \<Rightarrow> turso_audit \<Rightarrow> (error + nat) \<times> turso_audit" where
  "turso_audit_purge_before x fault cutoff s =
     (case run_statements fault 0 [''Failed to connect for audit purge: '', ''Failed to drop audit_no_delete trigger: ''] of
        Some e \<Rightarrow> (Inl e, s)
      | None \<Rightarrow>
          (let s = s\<lparr>tt_no_delete := False\<rparr>;
               (result, s) = (case fault 2 of Some m \<Rightarrow> (Inl m, s) | None \<Rightarrow> turso_delete_before x (tx_rfc3339 x cutoff) s);
               s = (case fault 3 of Some m \<Rightarrow> s | None \<Rightarrow> s\<lparr>tt_no_delete := True\<rparr>)
           in case result of
                Inl m \<Rightarrow> (Inl (Internal (''Failed to purge audit events: '' @ m)), s)
              | Inr n \<Rightarrow> (Inr n, s)))"

definition turso_audit_verify_chain ::
  "turso_texts \<Rightarrow> faults \<Rightarrow> faults \<Rightarrow> chain_env \<Rightarrow> u64 \<Rightarrow> turso_audit \<Rightarrow> error + u64 option" where
  "turso_audit_verify_chain x fault unread env from_sequence s =
     (case run_statements fault 0 [''Failed to connect for chain verify: '', ''Failed to fetch events for verification: ''] of
        Some e \<Rightarrow> Inl e
      | None \<Rightarrow>
          (case collect_rows x unread 0 (filter (\<lambda>r. sint from_sequence \<le> ta_sequence r) (turso_rows_by_sequence s)) of
             Inl e \<Rightarrow> Inl e
           | Inr events \<Rightarrow>
               (case verify_chain env events of Inr _ \<Rightarrow> Inr None | Inl e \<Rightarrow> Inr (Some (cv_sequence e)))))"

subsection \<open>The Turso backend implements the interface\<close>

text \<open>
  What is needed of the texts: identifiers and times are read back, and the order of the texts of times is the order of
  the times (as it is for the years with four digits, where all texts have the same shape).
\<close>

locale turso_laws =
  fixes x :: turso_texts
  assumes uuid_read: "tx_parse_uuid x (tx_uuid x i) = Inr i"
    and time_read: "tx_parse_rfc3339 x (tx_rfc3339 x t) = Inr t"
    and time_order: "tx_rfc3339 x t < tx_rfc3339 x u \<longleftrightarrow> t < u"

text \<open>The backend gives an event back as it was, with the metadata as its text is read.\<close>

definition turso_stored :: "turso_texts \<Rightarrow> audit_event \<Rightarrow> audit_event" where
  "turso_stored x e = e\<lparr>ev_metadata := Option.bind (ev_metadata e)
     (\<lambda>m. tx_parse x (case tx_print x m of Inr t \<Rightarrow> t | Inl _ \<Rightarrow> []))\<rparr>"

definition turso_event :: "turso_texts \<Rightarrow> turso_audit_row \<Rightarrow> audit_event" where
  "turso_event x r = projr (turso_row_to_event x r)"

definition turso_audit_events :: "turso_texts \<Rightarrow> turso_audit \<Rightarrow> audit_event list" where
  "turso_audit_events x s = map (turso_event x) (turso_rows_by_sequence s)"

definition turso_audit_inv :: "turso_texts \<Rightarrow> turso_audit \<Rightarrow> bool" where
  "turso_audit_inv x s \<longleftrightarrow>
     distinct (map ta_sequence (tt_rows s)) \<and> (\<forall>r \<in> set (tt_rows s). \<exists>e. r = turso_row_of_event x e)"

lemma map_option_word_uint [simp]: "map_option (word_of_int \<circ> uint) v = v"
  by (cases v) simp_all

lemma severity_column [simp]: "sint (ucast (as_syslog_severity v) :: 16 word) = uint (as_syslog_severity v)"
  by (cases v) simp_all

context turso_laws
begin

lemma row_roundtrip [simp]: "turso_row_to_event x (turso_row_of_event x e) = Inr (turso_stored x e)"
  by (auto simp: turso_row_to_event_def turso_row_of_event_def turso_stored_def uuid_read time_read option.map_comp
      bind_map_option comp_def option.map_ident)

lemma event_of_row [simp]: "turso_event x (turso_row_of_event x e) = turso_stored x e"
  by (simp add: turso_event_def)

lemma rows_are_events:
  assumes "\<forall>r \<in> set rows. \<exists>e. r = turso_row_of_event x e"
  obtains es where "rows = map (turso_row_of_event x) es"
  using assms by (metis ex_map_conv)

lemma collect_all:
  "unread = (\<lambda>_. None) \<Longrightarrow> collect_rows x unread i (map (turso_row_of_event x) es) = Inr (map (turso_stored x) es)"
  by (induction es arbitrary: i) simp_all

text \<open>A row that cannot be read ends the result without an error.\<close>

lemma collect_until:
  "collect_rows x (\<lambda>i. if i = k + length es then Some m else None) k (map (turso_row_of_event x) es @ rest) = Inr (map (turso_stored x) es)"
proof (induction es arbitrary: k)
  case Nil then show ?case by (cases rest) simp_all
next
  case (Cons e es)
  from Cons [of "Suc k"] show ?case by simp
qed

lemma collect_query:
  assumes "turso_audit_inv x s"
  shows "collect_rows x (\<lambda>_. None) 0 (take n (filter P (turso_rows_by_sequence s))) =
     Inr (map (turso_event x) (take n (filter P (turso_rows_by_sequence s))))"
proof -
  have "\<forall>r \<in> set (take n (filter P (turso_rows_by_sequence s))). \<exists>e. r = turso_row_of_event x e"
    using assms by (auto simp: turso_audit_inv_def turso_rows_by_sequence_def dest!: in_set_takeD)
  then obtain es where "take n (filter P (turso_rows_by_sequence s)) = map (turso_row_of_event x) es"
    using rows_are_events by metis
  then show ?thesis by (simp add: collect_all comp_def)
qed

lemma event_order:
  assumes "turso_audit_inv x s" and "r \<in> set (turso_rows_by_sequence s)"
  shows "ta_timestamp r < tx_rfc3339 x t \<longleftrightarrow> ev_timestamp (turso_event x r) < t"
    and "sint (ev_sequence (turso_event x r)) = ta_sequence r"
proof -
  from assms obtain e where r: "r = turso_row_of_event x e" by (auto simp: turso_audit_inv_def turso_rows_by_sequence_def)
  show "ta_timestamp r < tx_rfc3339 x t \<longleftrightarrow> ev_timestamp (turso_event x r) < t"
    "sint (ev_sequence (turso_event x r)) = ta_sequence r"
    unfolding r event_of_row by (simp_all add: turso_stored_def turso_row_of_event_def time_order)
qed

lemma filter_events:
  assumes "turso_audit_inv x s" and "\<And>r. r \<in> set (turso_rows_by_sequence s) \<Longrightarrow> P r = Q (turso_event x r)"
  shows "map (turso_event x) (filter P (turso_rows_by_sequence s)) = filter Q (turso_audit_events x s)"
  unfolding turso_audit_events_def filter_map using assms(2) by (auto intro!: arg_cong [of _ _ "map (turso_event x)"] filter_cong)

lemma events_ordered:
  assumes inv: "turso_audit_inv x s"
  shows "sorted_wrt (<) (map (\<lambda>e. sint (ev_sequence e)) (turso_audit_events x s))"
proof -
  have "map (\<lambda>e. sint (ev_sequence e)) (turso_audit_events x s) = map ta_sequence (turso_rows_by_sequence s)"
    using event_order(2) [OF inv] by (simp add: turso_audit_events_def)
  moreover have "sorted (map ta_sequence (turso_rows_by_sequence s))" "distinct (map ta_sequence (turso_rows_by_sequence s))"
    using inv by (simp_all add: turso_rows_by_sequence_def turso_audit_inv_def distinct_map)
  ultimately show ?thesis by (simp add: strict_sorted_iff)
qed

lemma append_keeps:
  assumes "turso_audit_inv x s" and "turso_audit_append x fault e s = (Inr u, s')"
  shows "turso_audit_inv x s' \<and> set (turso_audit_events x s') = insert (turso_stored x e) (set (turso_audit_events x s))"
proof -
  have s': "s' = s\<lparr>tt_rows := tt_rows s @ [turso_row_of_event x e]\<rparr>"
    and adm: "turso_row_admissible (tt_rows s) (turso_row_of_event x e)"
    using assms(2) by (auto simp: turso_audit_append_def Let_def split: option.splits if_splits)
  with assms(1) show ?thesis
    by (auto simp: turso_audit_inv_def turso_row_admissible_def turso_audit_events_def turso_rows_by_sequence_def)
qed

lemma purge_keeps:
  assumes inv: "turso_audit_inv x s" and "turso_audit_purge_before x fault cutoff s = (Inr k, s')"
  shows "turso_audit_inv x s' \<and> turso_audit_events x s' = filter (\<lambda>e. cutoff \<le> ev_timestamp e) (turso_audit_events x s)"
proof -
  have rows: "tt_rows s' = filter (\<lambda>r. \<not> ta_timestamp r < tx_rfc3339 x cutoff) (tt_rows s)"
    using assms(2) by (auto simp: turso_audit_purge_before_def turso_delete_before_def Let_def split: option.splits if_splits)
  then have "turso_audit_events x s' = map (turso_event x) (filter (\<lambda>r. \<not> ta_timestamp r < tx_rfc3339 x cutoff) (turso_rows_by_sequence s))"
    by (simp add: turso_audit_events_def turso_rows_by_sequence_def filter_sort)
  also have "\<dots> = filter (\<lambda>e. cutoff \<le> ev_timestamp e) (turso_audit_events x s)"
    using event_order(1) [OF inv] by (intro filter_events [OF inv]) (auto simp: not_less)
  finally show ?thesis using inv by (auto simp: turso_audit_inv_def rows distinct_map intro: inj_on_subset)
qed

lemma latest_last:
  "turso_audit_latest x fault unread s = Inr r \<Longrightarrow> r = (if turso_audit_events x s = [] then None else Some (last (turso_audit_events x s)))"
  by (cases "turso_rows_by_sequence s" rule: rev_cases)
    (auto simp: turso_audit_latest_def turso_audit_events_def turso_event_def split: option.splits sum.splits)

text \<open>The interface, for calls whose rows can be read.\<close>

sublocale turso: audit_store "turso_audit_append x fault" "turso_audit_latest x fault\<^sub>1 unread"
  "turso_audit_query_before x fault\<^sub>2 (\<lambda>_. None)" "turso_audit_purge_before x fault\<^sub>3" "turso_audit_events x"
  "turso_stored x" "turso_audit_inv x" "\<lambda>t. t" for fault fault\<^sub>1 unread fault\<^sub>2 fault\<^sub>3
proof
  show "es = take n (filter (\<lambda>e. ev_timestamp e < cutoff) (turso_audit_events x s))"
    if "turso_audit_inv x s" "turso_audit_query_before x fault\<^sub>2 (\<lambda>_. None) cutoff n s = Inr es" for s cutoff n es
    using that filter_events [OF that(1), of "\<lambda>r. ta_timestamp r < tx_rfc3339 x cutoff" "\<lambda>e. ev_timestamp e < cutoff"]
      event_order(1) [OF that(1)]
    by (auto simp: turso_audit_query_before_def collect_query take_map [symmetric] split: option.splits)
  show "turso_audit_events x s' = turso_audit_events x s" if "turso_audit_purge_before x fault\<^sub>3 cutoff s = (Inl y, s')" for cutoff s y s'
    using that by (auto simp: turso_audit_purge_before_def turso_delete_before_def turso_audit_events_def turso_rows_by_sequence_def
        Let_def split: option.splits if_splits prod.splits)
  show "s' = s" if "turso_audit_append x fault e s = (Inl y, s')" for e s y s'
    using that by (auto simp: turso_audit_append_def Let_def split: option.splits if_splits)
  show "ev_sequence (turso_stored x e) = ev_sequence e \<and> ev_hash (turso_stored x e) = ev_hash e \<and>
      ev_previous_hash (turso_stored x e) = ev_previous_hash e" for e by (simp add: turso_stored_def)
  show "turso_audit_events x s = []" if "turso_audit_latest x fault\<^sub>1 unread s = Inr None" for s
    using latest_last [OF that] by (simp split: if_splits)
  show "turso_audit_events x s \<noteq> [] \<and> e = last (turso_audit_events x s)" if "turso_audit_latest x fault\<^sub>1 unread s = Inr (Some e)" for s e
    using latest_last [OF that] by (simp split: if_splits)
qed (use append_keeps purge_keeps events_ordered in blast)+

end


text \<open>\<^verbatim>\<open>TursoAuditStorage::append\<close> and \<^verbatim>\<open>latest\<close> with any faults.\<close>

definition turso_appends :: "turso_texts \<Rightarrow> (audit_event \<Rightarrow> turso_audit \<Rightarrow> (error + unit) \<times> turso_audit) set" where
  "turso_appends x = range (turso_audit_append x)"

definition turso_latests :: "turso_texts \<Rightarrow> (turso_audit \<Rightarrow> error + audit_event option) set" where
  "turso_latests x = {turso_audit_latest x fault unread | fault unread. True}"

context turso_laws
begin

sublocale turso_trail: audit_trail "turso_appends x" "turso_latests x" "turso_audit_events x" "turso_stored x" "turso_audit_inv x"
proof
  fix a l assume "a \<in> turso_appends x" "l \<in> turso_latests x"
  then obtain f g h where "a = turso_audit_append x f" "l = turso_audit_latest x g h" by (auto simp: turso_appends_def turso_latests_def)
  with turso.audit_store_axioms show "\<exists>q p c. audit_store a l q p (turso_audit_events x) (turso_stored x) (turso_audit_inv x) c" by blast
qed (auto simp: turso_appends_def turso_latests_def)

lemma turso_spawn_inv:
  assumes "turso_audit_inv x st"
  shows "turso_trail.run_inv env service (turso_audit_events x st) [] [] [] (agent_spawn senv config (Some st) service)"
  using assms by (auto simp: turso_trail.run_inv_def turso_trail.store_ok_def agent_spawn_def writer_with_def)

lemma trail_order:
  assumes run: "audit_run env dbg service (turso_appends x) (turso_latests x)
      (agent_spawn senv config (Some st\<^sub>0) service) arrived taken lost s"
    and inv: "turso_audit_inv x st\<^sub>0" and chain: "verify_chain env (turso_audit_events x st\<^sub>0) = Inr ()"
    and bounds: "in_bounds (turso_audit_events x st\<^sub>0) arrived"
  shows "\<exists>st. sys_store s = Some st \<and>
      turso_audit_events x st = turso_audit_events x st\<^sub>0 @ map (turso_stored x) (filter (\<lambda>e. e \<notin> set lost) taken) \<and>
      (if sys_chain s = None then taken = [] \<and> queue_of s = [] \<and> sys_pending s = arrived
       else taken @ queue_of s = fst (seal_all env (base_chain service (turso_audit_events x st\<^sub>0)) arrived))"
proof -
  have "linked env None (turso_audit_events x st\<^sub>0)"
    using chain by (simp add: verify_chain_def verify_from_linked)
  from turso_trail.run_invariant [OF run turso_spawn_inv [OF inv] this bounds]
  show ?thesis
    by (auto simp: turso_trail.run_inv_def turso_trail.store_ok_def queue_of_writer_with split: option.splits)
qed

end


text \<open>
  Reading is less careful than writing: a row that cannot be read ends a result like its last row. So verification
  reports an intact trail when the rows before the unreadable one are intact, whatever comes after it.
\<close>

theorem unreadable_row_hides_rest:
  assumes "turso_laws x" and "filter (\<lambda>r. sint from \<le> ta_sequence r) (turso_rows_by_sequence s) = map (turso_row_of_event x) es @ rest"
    and "fault = (\<lambda>_. None)" and "unread = (\<lambda>i. if i = length es then Some m else None)"
    and "verify_chain env (map (turso_stored x) es) = Inr ()"
  shows "turso_audit_verify_chain x fault unread env from s = Inr None"
  using assms(2-5) turso_laws.collect_until [OF assms(1), of 0 es m rest] by (simp add: turso_audit_verify_chain_def)

text \<open>
  A retention cycle over Turso that cannot read one of the old rows archives the rows before it and then deletes all
  old ones.
\<close>

theorem unreadable_row_not_archived:
  assumes laws: "turso_laws x" and inv: "turso_audit_inv x s" and k: "0 < k" "k < length old" "k < CLEANUP_BATCH_SIZE"
    and old: "old = filter (\<lambda>e. ev_timestamp e < cutoff) (turso_audit_events x s)"
    and ops: "ops 0 = \<lparr>co_query_before = turso_audit_query_before x (\<lambda>_. None) (\<lambda>i. if i = k then Some m else None),
       co_purge_before = turso_audit_purge_before x (\<lambda>_. None), co_archive = ar\<rparr>"
    and archive: "archive_events ar (take k old) dir fs = (Inr p, fs')"
  shows "\<exists>n s'. cleanup_loop ops cutoff (Some dir) 0 0 s fs = Some (Inr n, s', fs') \<and>
     turso_audit_events x s' = filter (\<lambda>e. cutoff \<le> ev_timestamp e) (turso_audit_events x s)"
proof -
  let ?rows = "take CLEANUP_BATCH_SIZE (filter (\<lambda>r. ta_timestamp r < tx_rfc3339 x cutoff) (turso_rows_by_sequence s))"
  have "\<forall>r \<in> set ?rows. \<exists>e. r = turso_row_of_event x e"
    using inv by (auto simp: turso_audit_inv_def turso_rows_by_sequence_def dest!: in_set_takeD)
  then obtain es where es: "?rows = map (turso_row_of_event x) es" using turso_laws.rows_are_events [OF laws] by metis
  have "map (turso_stored x) es = map (turso_event x) ?rows" by (simp add: es turso_laws.event_of_row [OF laws])
  also have "\<dots> = take CLEANUP_BATCH_SIZE old" unfolding old take_map [symmetric]
    by (rule arg_cong [of _ _ "take CLEANUP_BATCH_SIZE"], rule turso_laws.filter_events [OF laws inv])
      (rule turso_laws.event_order(1) [OF laws inv])
  finally have stored: "map (turso_stored x) es = take CLEANUP_BATCH_SIZE old" .
  then have len: "k < length es" using k by (metis length_map length_take min_less_iff_conj)
  have "turso_audit_query_before x (\<lambda>_. None) (\<lambda>i. if i = k then Some m else None) cutoff CLEANUP_BATCH_SIZE s = Inr (take k old)"
  proof -
    have "map (turso_row_of_event x) es = map (turso_row_of_event x) (take k es) @ map (turso_row_of_event x) (drop k es)"
      by (simp flip: map_append)
    with turso_laws.collect_until [OF laws, of 0 "take k es" m "map (turso_row_of_event x) (drop k es)"] len
    have "collect_rows x (\<lambda>i. if i = k then Some m else None) 0 ?rows = Inr (map (turso_stored x) (take k es))" by (simp add: es)
    also have "map (turso_stored x) (take k es) = take k old" using stored k(3) by (metis take_map min.absorb1 less_imp_le take_take)
    finally show ?thesis by (simp add: turso_audit_query_before_def)
  qed
  moreover obtain n s' where purge: "turso_audit_purge_before x (\<lambda>_. None) cutoff s = (Inr n, s')"
    by (simp add: turso_audit_purge_before_def turso_delete_before_def)
  moreover have "take k old \<noteq> []" "length (take k old) < CLEANUP_BATCH_SIZE" using k by auto
  ultimately have "cleanup_loop ops cutoff (Some dir) 0 0 s fs = Some (Inr n, s', fs')"
    using archive by (subst cleanup_loop.simps) (simp add: ops)
  with turso_laws.purge_keeps [OF laws inv purge] show ?thesis by blast
qed

subsection \<open>A sample table\<close>

text \<open>Texts for which the laws hold: decimal texts do not sort like numbers, so these count in unary.\<close>

definition unary :: "int \<Rightarrow> string" where
  "unary t = (if 0 \<le> t then replicate (Suc (nat t)) CHR ''b'' else replicate (nat (- t)) CHR ''A'' @ ''a'')"

definition sample_texts :: turso_texts where
  "sample_texts =
     \<lparr>tx_uuid = map (\<lambda>b. char_of (unat b)), tx_parse_uuid = (\<lambda>s. Inr (map (\<lambda>c. word_of_nat (of_char c)) s)),
      tx_rfc3339 = unary,
      tx_parse_rfc3339 = (\<lambda>s. Inr (if s \<noteq> [] \<and> hd s = CHR ''A'' then - int (length s - 1) else int (length s - 1))),
      tx_print = (\<lambda>m. Inl []), tx_parse = (\<lambda>s. None), tx_violation = ''UNIQUE constraint failed''\<rparr>"

lemma replicate_less: "replicate m c < replicate n (c :: char) \<longleftrightarrow> m < n"
proof (induction m arbitrary: n)
  case 0 then show ?case by (cases n) simp_all
next
  case (Suc m) then show ?case by (cases n) simp_all
qed

lemma replicate_down: "replicate m CHR ''A'' @ ''a'' < replicate n CHR ''A'' @ ''a'' \<longleftrightarrow> n < m"
proof (induction m arbitrary: n)
  case 0 then show ?case by (cases n) (simp_all add: less_char_def)
next
  case (Suc m) then show ?case by (cases n) (simp_all add: less_char_def)
qed

lemma unary_order: "unary t < unary u \<longleftrightarrow> t < u"
proof -
  consider "0 \<le> t" "0 \<le> u" | "t < 0" "u < 0" | "t < 0" "0 \<le> u" | "0 \<le> t" "u < 0" by linarith
  then show ?thesis
  proof cases
    case 1 then show ?thesis by (auto simp: unary_def replicate_less simp del: replicate_Suc)
  next
    case 2 then show ?thesis by (simp add: unary_def replicate_down nat_less_eq_zless)
  next
    case 3
    then obtain k where "nat (- t) = Suc k" using not0_implies_Suc [of "nat (- t)"] by auto
    with 3 show ?thesis by (simp add: unary_def less_char_def)
  next
    case 4
    then obtain k where "nat (- u) = Suc k" using not0_implies_Suc [of "nat (- u)"] by auto
    with 4 show ?thesis by (simp add: unary_def less_char_def)
  qed
qed

interpretation sample_turso: turso_laws sample_texts
proof
  show "tx_parse_rfc3339 sample_texts (tx_rfc3339 sample_texts t) = Inr t" for t
  proof (cases "0 \<le> t")
    case False
    then obtain k where "nat (- t) = Suc k" using not0_implies_Suc [of "nat (- t)"] by auto
    with False show ?thesis by (simp add: sample_texts_def unary_def)
  qed (simp add: sample_texts_def unary_def)
  have "word_of_nat (unat b mod 256) = b" for b :: u8
  proof -
    have "unat b < 2 ^ LENGTH(8)" by (rule unsigned_less)
    then show ?thesis by simp
  qed
  then show "tx_parse_uuid sample_texts (tx_uuid sample_texts i) = Inr i" for i
    by (simp add: sample_texts_def comp_def of_char_of)
qed (simp add: sample_texts_def unary_order)

definition empty_turso :: turso_audit where
  "empty_turso = \<lparr>tt_rows = [], tt_no_update = True, tt_no_delete = True\<rparr>"

lemma turso_sample_run:
  defines "sealed \<equiv> fst (seal sample_env (chain_new ''s'') sample_event)"
  shows "\<exists>s. audit_run sample_env (\<lambda>x. x) ''s'' (turso_appends sample_texts) (turso_latests sample_texts)
      (agent_spawn sample_syslog sample_config (Some empty_turso) ''s'') [sample_event] [sealed] [] s \<and> sys_chain s \<noteq> None"
proof -
  let ?run = "audit_run sample_env (\<lambda>x. x) ''s'' (turso_appends sample_texts) (turso_latests sample_texts)
      (agent_spawn sample_syslog sample_config (Some empty_turso) ''s'' :: turso_audit audit_system)"
  let ?latest = "turso_audit_latest sample_texts (\<lambda>_. None) (\<lambda>_. None)" and ?append = "turso_audit_append sample_texts (\<lambda>_. None)"
  let ?s0 = "agent_spawn sample_syslog sample_config (Some empty_turso) ''s''"
  let ?s1 = "?s0\<lparr>sys_pending := [sample_event]\<rparr>"
  let ?s2 = "?s1\<lparr>sys_loaded := Some (load_chain ?latest ''s'' (sys_store ?s1))\<rparr>"
  let ?s3 = "?s2\<lparr>sys_chain := Some (snd (seal sample_env (chain_new ''s'') sample_event)),
    sys_pending := [], sys_writer := Some \<lparr>wr_alive = True, wr_queue = [sealed]\<rparr>\<rparr>"
  let ?st = "empty_turso\<lparr>tt_rows := [turso_row_of_event sample_texts sealed]\<rparr>"
  let ?s4 = "?s3\<lparr>sys_writer := Some \<lparr>wr_alive = True, wr_queue = []\<rparr>, sys_store := Some ?st\<rparr>"
  have latest: "?latest empty_turso = Inr None" by (simp add: turso_audit_latest_def turso_rows_by_sequence_def empty_turso_def)
  have "?run [sample_event] [] [] ?s1"
    using audit_run.Emit [OF audit_run.Start, where clk = "(0, 0)" and e = sample_event and s0 = ?s0 and s' = ?s1]
    by (simp add: has_room_def agent_spawn_def on_audit_event_def buffer_pending_event_def MAX_PENDING_EVENTS_def)
  then have "?run [sample_event] [] [] ?s2"
    by (rule audit_run.Load [where r = None]) (use latest in \<open>auto simp: agent_spawn_def turso_latests_def\<close>)
  then have "?run [sample_event] [] [] ?s3"
    by (rule audit_run.Loaded [where clks = "[]" and msg = "\<lparr>cl_previous_hash = None, cl_sequence = 0, cl_service_name = ''s''\<rparr>"])
      (simp_all add: agent_spawn_def on_chain_loaded_def load_chain_def latest seal_and_dispatch_def sealed_def Let_def split_beta)
  moreover have "ev_hash sealed \<noteq> None" by (simp add: sealed_def seal_def Let_def)
  then have "?append sealed empty_turso = (Inr (), ?st)"
    by (simp add: turso_audit_append_def turso_row_admissible_def empty_turso_def turso_row_of_event_def)
  moreover have "writer_turn ?append (0, 0) ?s3 = Some ?s4"
    using calculation(2) by (simp add: writer_turn_def persist_def note_success_def tracker_call_with_def agent_spawn_def
        agent_tracker_def sample_config_def)
  moreover have "?append \<in> turso_appends sample_texts" by (auto simp: turso_appends_def)
  ultimately have "?run [sample_event] ([] @ [sealed]) [] ?s4"
    by (intro audit_run.Written [where e = sealed and rest = "[]" and st = empty_turso
          and append_op = ?append and clk = "(0, 0)" and s = ?s3]) (simp_all add: queue_of_def agent_spawn_def)
  then show ?thesis by (intro exI [of _ ?s4]) simp
qed


end
