(* ===== verification/Turso_Tables.thy ===== *)
theory Turso_Tables
  imports Audit_Backends "HOL-Library.Multiset"
begin

text \<open>
  What the Turso backends share: reading times from text columns, the loop over the rows of a result, LIMIT and OFFSET of
  SQLite, and sorting by text columns. On columns that hold the texts of times, comparing texts is comparing times.
\<close>

definition parse_datetime :: "turso_texts \<Rightarrow> string \<Rightarrow> datetime option" where
  "parse_datetime x s = (case tx_parse_rfc3339 x s of Inr t \<Rightarrow> Some t | Inl _ \<Rightarrow> None)"

text \<open>The loop over rows ends at a row that cannot be read. A negative LIMIT is none, a negative OFFSET is zero.\<close>

fun rows_until :: "faults \<Rightarrow> nat \<Rightarrow> 'r list \<Rightarrow> 'r list" where
  "rows_until unread i [] = []"
| "rows_until unread i (r # rs) = (if unread i \<noteq> None then [] else r # rows_until unread (Suc i) rs)"

definition sqlite_limit :: "u64 \<Rightarrow> 'r list \<Rightarrow> 'r list" where
  "sqlite_limit limit rs = (if sint limit < 0 then rs else take (unat limit) rs)"

definition sqlite_offset :: "u64 \<Rightarrow> 'r list \<Rightarrow> 'r list" where
  "sqlite_offset offset rs = (if sint offset < 0 then rs else drop (unat offset) rs)"

text \<open>Sorting by a text column downwards, rows with equal texts in their order.\<close>

definition sort_down :: "('r \<Rightarrow> 'k :: linorder) \<Rightarrow> 'r list \<Rightarrow> 'r list" where
  "sort_down k rs = rev (sort_key k (rev rs))"

definition time_text :: "turso_texts \<Rightarrow> string \<Rightarrow> bool" where
  "time_text x s = (case parse_datetime x s of Some t \<Rightarrow> tx_rfc3339 x t = s | None \<Rightarrow> False)"

lemma rows_until_all: "unread = (\<lambda>_. None) \<Longrightarrow> rows_until unread i rows = rows"
  by (induction rows arbitrary: i) simp_all

lemma set_sort_down [simp]: "set (sort_down k rows) = set rows"
  by (simp add: sort_down_def)

text \<open>Sorting by keys in the same order gives the same list, sorting the view is viewing what is sorted.\<close>

lemma insort_key_same_order:
  "(\<And>s. s \<in> set xs \<Longrightarrow> k r \<le> k s \<longleftrightarrow> h r \<le> h s) \<Longrightarrow> insort_key k r xs = insort_key h r xs"
  by (induction xs) auto

lemma sort_key_same_order:
  "(\<And>r s. r \<in> set xs \<Longrightarrow> s \<in> set xs \<Longrightarrow> k r \<le> k s \<longleftrightarrow> h r \<le> h s) \<Longrightarrow> sort_key k xs = sort_key h xs"
  by (induction xs) (auto intro!: insort_key_same_order)

lemma sort_key_map_view: "sort_key k (map v xs) = map v (sort_key (\<lambda>r. k (v r)) xs)"
proof (induction xs)
  case (Cons a xs)
  have "insort_key k (v a) (map v ys) = map v (insort_key (\<lambda>r. k (v r)) a ys)" for ys by (induction ys) simp_all
  with Cons show ?case by simp
qed simp

lemma sort_down_int: "sort_key (\<lambda>r. - h r :: int) xs = sort_down h xs"
proof (rule properties_for_sort_key)
  show "mset (sort_down h xs) = mset xs" by (simp add: sort_down_def)
  show "filter (\<lambda>r. - h k = - h r) (sort_down h xs) = filter (\<lambda>r. - h k = - h r) xs" for k
    using sort_key_stable [of h "h k" "rev xs"] by (simp add: sort_down_def rev_filter [symmetric] eq_commute [of "h k"])
  have "sorted (map h (sort_key h (rev xs)))" by simp
  then show "sorted (map (\<lambda>r. - h r) (sort_down h xs))"
    by (simp add: sort_down_def rev_map sorted_wrt_rev sorted_wrt_map)
qed

lemma filter_view: "(\<And>r. P (v r) = Q r) \<Longrightarrow> filter P (map v t) = map v (filter Q t)"
  by (simp add: filter_map comp_def)

lemma filter_view_on: "(\<And>r. r \<in> set t \<Longrightarrow> P (v r) = Q r) \<Longrightarrow> filter P (map v t) = map v (filter Q t)"
  by (induction t) simp_all

lemma find_view: "(\<And>r. P (v r) = Q r) \<Longrightarrow> find P (map v t) = map_option v (find Q t)"
  by (induction t) simp_all

context turso_laws
begin

lemma time_text_of [simp]: "parse_datetime x (tx_rfc3339 x t) = Some t" "time_text x (tx_rfc3339 x t)"
  by (simp_all add: parse_datetime_def time_read time_text_def)

text \<open>On columns that hold times the order of the texts is the order of the times.\<close>

lemma time_text_order:
  assumes "time_text x a" and "time_text x b"
  shows "a < b \<longleftrightarrow> the (parse_datetime x a) < the (parse_datetime x b)" "a \<le> b \<longleftrightarrow> the (parse_datetime x a) \<le> the (parse_datetime x b)"
proof -
  obtain t u where "a = tx_rfc3339 x t" "b = tx_rfc3339 x u"
    using assms by (auto simp: time_text_def split: option.splits)
  then show "a < b \<longleftrightarrow> the (parse_datetime x a) < the (parse_datetime x b)"
    "a \<le> b \<longleftrightarrow> the (parse_datetime x a) \<le> the (parse_datetime x b)"
    using time_order [of t u] time_order [of u t] by (auto simp: not_less [symmetric])
qed

lemma sort_view:
  assumes "\<And>r. r \<in> set rows \<Longrightarrow> time_text x (k r) \<and> h (v r) = the (parse_datetime x (k r))"
  shows "sort_key h (map (v) rows) = map (v) (sort_key k rows)"
    and "sort_key (\<lambda>r. - h r) (map (v) rows) = map (v) (sort_down k rows)"
proof -
  have order: "h (v r) \<le> h (v q) \<longleftrightarrow> k r \<le> k q" if "r \<in> set rows" "q \<in> set rows" for r q
    using assms [OF that(1)] assms [OF that(2)] time_text_order(2) by simp
  then show "sort_key h (map (v) rows) = map (v) (sort_key k rows)"
    using sort_key_same_order [of rows "\<lambda>r. h (v r)" k] by (simp add: sort_key_map_view)
  have "sort_down (\<lambda>r. h (v r)) rows = sort_down k rows"
    using order sort_key_same_order [of "rev rows" "\<lambda>r. h (v r)" k] by (simp add: sort_down_def)
  moreover have "sort_key (\<lambda>r. - h r) (map (v) rows) = map (v) (sort_key (\<lambda>r. - h (v r)) rows)"
    by (rule sort_key_map_view)
  ultimately show "sort_key (\<lambda>r. - h r) (map (v) rows) = map (v) (sort_down k rows)"
    by (simp only: sort_down_int [of "\<lambda>r. h (v r)"])
qed

end

end
