(* ===== verification/Accounts_Turso.thy ===== *)
theory Accounts_Turso
  imports Accounts Turso_Tables
begin

text \<open>
  The Turso backend of the account storage (\<^verbatim>\<open>src/acton-service/src/accounts/storage/turso.rs\<close>). Its columns are texts
  and integers; read as times and JSON they are the rows of the PostgreSQL backend, and each operation is the
  PostgreSQL operation on them. So the account service keeps its promises over Turso too.

  The texts are the record \<open>turso_texts\<close>. In the record
  \<open>turso_account_env\<close> \<open>ue_fault\<close> is the error of a statement of a call, connecting first, \<open>ue_unread\<close> of reading a row,
  and \<open>ue_scan\<close> the order in which rows are scanned. Every column has a value of its declared type.
\<close>

subsection \<open>Rows\<close>

record turso_account_row =
  ar_id :: string
  ar_email :: string
  ar_username :: "string option"
  ar_password_hash :: "string option"
  ar_status :: string
  ar_roles :: string
  ar_email_verified :: int
  ar_email_verified_at :: "string option"
  ar_last_login_at :: "string option"
  ar_locked_at :: "string option"
  ar_locked_reason :: "string option"
  ar_disabled_at :: "string option"
  ar_disabled_reason :: "string option"
  ar_expires_at :: "string option"
  ar_password_changed_at :: "string option"
  ar_failed_login_count :: int
  ar_metadata :: "string option"
  ar_created_at :: string
  ar_updated_at :: string

type_synonym turso_accounts = "turso_account_row list"

record turso_account_env =
  ue_texts :: turso_texts
  ue_fault :: faults
  ue_unread :: faults
  ue_now :: datetime
  ue_scan :: "turso_accounts \<Rightarrow> turso_accounts"
  ue_mti :: "string \<Rightarrow> string + string \<times> string"
  ue_new_id :: "string \<Rightarrow> string"

definition turso_accounts_initialize :: "turso_account_env \<Rightarrow> turso_accounts \<Rightarrow> (error + unit) \<times> turso_accounts" where
  "turso_accounts_initialize env t =
     (case run_statements (ue_fault env) 0 [''Failed to connect for accounts init: '', ''Failed to create accounts table: '',
         ''Failed to create email index: '', ''Failed to create status index: ''] of
        Some e \<Rightarrow> (Inl e, t)
      | None \<Rightarrow> (Inr (), t))"

definition opt_dt :: "turso_texts \<Rightarrow> datetime option \<Rightarrow> string option" where
  "opt_dt x v = map_option (tx_rfc3339 x) v"

definition row_to_account :: "turso_account_env \<Rightarrow> turso_account_row \<Rightarrow> account" where
  "row_to_account env row =
     (let x = ue_texts env in
     \<lparr>acc_id = (case account_id_from_str (ue_mti env) (ar_id row) of Inr i \<Rightarrow> i | Inl _ \<Rightarrow> ue_new_id env (ar_id row)),
      acc_email = ar_email row, acc_username = ar_username row, acc_password_hash = ar_password_hash row,
      acc_status = (case account_status_from_str (ar_status row) of Inr s \<Rightarrow> s | Inl _ \<Rightarrow> PendingVerification),
      acc_roles = (case Option.bind (tx_parse x (ar_roles row)) roles_from_json of Some rs \<Rightarrow> rs | None \<Rightarrow> []),
      acc_email_verified = (ar_email_verified row \<noteq> 0),
      acc_email_verified_at = Option.bind (ar_email_verified_at row) (parse_datetime x),
      acc_last_login_at = Option.bind (ar_last_login_at row) (parse_datetime x),
      acc_locked_at = Option.bind (ar_locked_at row) (parse_datetime x), acc_locked_reason = ar_locked_reason row,
      acc_disabled_at = Option.bind (ar_disabled_at row) (parse_datetime x), acc_disabled_reason = ar_disabled_reason row,
      acc_expires_at = Option.bind (ar_expires_at row) (parse_datetime x),
      acc_password_changed_at = Option.bind (ar_password_changed_at row) (parse_datetime x),
      acc_failed_login_count = word_of_int (ar_failed_login_count row),
      acc_metadata = Option.bind (ar_metadata row) (tx_parse x),
      acc_created_at = (case parse_datetime x (ar_created_at row) of Some t \<Rightarrow> t | None \<Rightarrow> ue_now env),
      acc_updated_at = (case parse_datetime x (ar_updated_at row) of Some t \<Rightarrow> t | None \<Rightarrow> ue_now env)\<rparr>)"

definition turso_row_of_account :: "turso_texts \<Rightarrow> account \<Rightarrow> turso_account_row" where
  "turso_row_of_account x a =
     \<lparr>ar_id = acc_id a, ar_email = acc_email a, ar_username = acc_username a, ar_password_hash = acc_password_hash a,
      ar_status = account_status_display (acc_status a),
      ar_roles = (case tx_print x (roles_to_json (acc_roles a)) of Inr j \<Rightarrow> j | Inl _ \<Rightarrow> ''[]''),
      ar_email_verified = (if acc_email_verified a then 1 else 0), ar_email_verified_at = opt_dt x (acc_email_verified_at a),
      ar_last_login_at = opt_dt x (acc_last_login_at a), ar_locked_at = opt_dt x (acc_locked_at a),
      ar_locked_reason = acc_locked_reason a, ar_disabled_at = opt_dt x (acc_disabled_at a),
      ar_disabled_reason = acc_disabled_reason a, ar_expires_at = opt_dt x (acc_expires_at a),
      ar_password_changed_at = opt_dt x (acc_password_changed_at a), ar_failed_login_count = uint (acc_failed_login_count a),
      ar_metadata = map_option (\<lambda>m. case tx_print x m of Inr j \<Rightarrow> j | Inl _ \<Rightarrow> []) (acc_metadata a),
      ar_created_at = tx_rfc3339 x (acc_created_at a), ar_updated_at = tx_rfc3339 x (acc_updated_at a)\<rparr>"

subsection \<open>Operations\<close>

definition turso_statement :: "turso_account_env \<Rightarrow> string \<Rightarrow> error option" where
  "turso_statement env what = run_statements (ue_fault env) 0 [''Failed to connect: '', what]"

definition turso_create :: "turso_account_env \<Rightarrow> account \<Rightarrow> turso_accounts \<Rightarrow> (error + unit) \<times> turso_accounts" where
  "turso_create env a t =
     (case turso_statement env ''Failed to create account: '' of
        Some e \<Rightarrow> (Inl e, t)
      | None \<Rightarrow>
          if acc_id a \<in> set (map ar_id t) \<or> acc_email a \<in> set (map ar_email t)
          then (Inl (Internal (''Failed to create account: '' @ tx_violation (ue_texts env))), t)
          else (Inr (), t @ [turso_row_of_account (ue_texts env) a]))"

text \<open>The first row of a query in the order of the scan; \<open>ue_unread env 0\<close> is the error of reading it.\<close>

definition turso_first ::
  "turso_account_env \<Rightarrow> string \<Rightarrow> (turso_account_row \<Rightarrow> bool) \<Rightarrow> turso_accounts \<Rightarrow> error + account option" where
  "turso_first env what P t =
     (case turso_statement env what of
        Some e \<Rightarrow> Inl e
      | None \<Rightarrow>
     (case ue_unread env 0 of
        Some e \<Rightarrow> Inl (Internal (''Failed to read row: '' @ e))
      | None \<Rightarrow> Inr (map_option (row_to_account env) (find P (ue_scan env t)))))"

definition turso_get_by_id :: "turso_account_env \<Rightarrow> string \<Rightarrow> turso_accounts \<Rightarrow> error + account option" where
  "turso_get_by_id env i = turso_first env ''Failed to get account: '' (\<lambda>r. ar_id r = i)"

definition turso_get_by_email :: "turso_account_env \<Rightarrow> string \<Rightarrow> turso_accounts \<Rightarrow> error + account option" where
  "turso_get_by_email env email = turso_first env ''Failed to get account by email: '' (\<lambda>r. ar_email r = email)"

definition turso_get_by_username :: "turso_account_env \<Rightarrow> string \<Rightarrow> turso_accounts \<Rightarrow> error + account option" where
  "turso_get_by_username env username =
     turso_first env ''Failed to get account by username: '' (\<lambda>r. ar_username r = Some username)"

definition turso_update :: "turso_account_env \<Rightarrow> account \<Rightarrow> turso_accounts \<Rightarrow> (error + unit) \<times> turso_accounts" where
  "turso_update env a t =
     (case turso_statement env ''Failed to update account: '' of
        Some e \<Rightarrow> (Inl e, t)
      | None \<Rightarrow>
          if acc_id a \<in> set (map ar_id t) \<and> acc_email a \<in> set (map ar_email (filter (\<lambda>r. ar_id r \<noteq> acc_id a) t))
          then (Inl (Internal (''Failed to update account: '' @ tx_violation (ue_texts env))), t)
          else (Inr (), map (\<lambda>r. if ar_id r = acc_id a
                  then (turso_row_of_account (ue_texts env) a)\<lparr>ar_created_at := ar_created_at r,
                         ar_updated_at := tx_rfc3339 (ue_texts env) (ue_now env)\<rparr>
                  else r) t))"

definition set_turso_status :: "string \<Rightarrow> account_status \<Rightarrow> string option \<Rightarrow> turso_account_row \<Rightarrow> turso_account_row" where
  "set_turso_status now status reason r =
     (case status of
        Disabled \<Rightarrow> r\<lparr>ar_status := account_status_display status, ar_disabled_at := Some now, ar_disabled_reason := reason, ar_updated_at := now\<rparr>
      | Locked \<Rightarrow> r\<lparr>ar_status := account_status_display status, ar_locked_at := Some now, ar_locked_reason := reason, ar_updated_at := now\<rparr>
      | Active \<Rightarrow> r\<lparr>ar_status := account_status_display status, ar_locked_at := None, ar_locked_reason := None,
            ar_disabled_at := None, ar_disabled_reason := None, ar_updated_at := now\<rparr>
      | _ \<Rightarrow> r\<lparr>ar_status := account_status_display status, ar_updated_at := now\<rparr>)"

definition turso_update_status ::
  "turso_account_env \<Rightarrow> string \<Rightarrow> account_status \<Rightarrow> string option \<Rightarrow> turso_accounts \<Rightarrow> (error + unit) \<times> turso_accounts" where
  "turso_update_status env i status reason t =
     (case turso_statement env ''Failed to update status: '' of
        Some e \<Rightarrow> (Inl e, t)
      | None \<Rightarrow> (Inr (), map (\<lambda>r. if ar_id r = i then set_turso_status (tx_rfc3339 (ue_texts env) (ue_now env)) status reason r else r) t))"

definition turso_rows :: "turso_account_env \<Rightarrow> string \<Rightarrow> turso_accounts \<Rightarrow> error + account list" where
  "turso_rows env what rows =
     (case turso_statement env what of
        Some e \<Rightarrow> Inl e
      | None \<Rightarrow> Inr (map (row_to_account env) (rows_until (ue_unread env) 0 rows)))"

definition turso_row_matches :: "account_status option \<Rightarrow> turso_account_row \<Rightarrow> bool" where
  "turso_row_matches status_filter r =
     (case status_filter of Some s \<Rightarrow> ar_status r = account_status_display s | None \<Rightarrow> True)"

definition turso_list ::
  "turso_account_env \<Rightarrow> account_status option \<Rightarrow> u64 \<Rightarrow> u64 \<Rightarrow> turso_accounts \<Rightarrow> error + account list" where
  "turso_list env status_filter limit offset t =
     turso_rows env ''Failed to list accounts: ''
       (sqlite_limit limit (sqlite_offset offset (sort_down ar_created_at (filter (turso_row_matches status_filter) (ue_scan env t)))))"

text \<open>A count that cannot be read is zero.\<close>

definition turso_count :: "turso_account_env \<Rightarrow> account_status option \<Rightarrow> turso_accounts \<Rightarrow> error + u64" where
  "turso_count env status_filter t =
     (case turso_statement env ''Failed to count accounts: '' of
        Some e \<Rightarrow> Inl e
      | None \<Rightarrow> Inr (if ue_unread env 0 = None then of_nat (length (filter (turso_row_matches status_filter) t)) else 0))"

definition turso_delete :: "turso_account_env \<Rightarrow> string \<Rightarrow> turso_accounts \<Rightarrow> (error + bool) \<times> turso_accounts" where
  "turso_delete env i t =
     (case turso_statement env ''Failed to delete account: '' of
        Some e \<Rightarrow> (Inl e, t)
      | None \<Rightarrow> (Inr (0 < length (filter (\<lambda>r. ar_id r = i) t)), filter (\<lambda>r. ar_id r \<noteq> i) t))"

definition turso_record_login :: "turso_account_env \<Rightarrow> string \<Rightarrow> turso_accounts \<Rightarrow> (error + unit) \<times> turso_accounts" where
  "turso_record_login env i t =
     (case turso_statement env ''Failed to record login: '' of
        Some e \<Rightarrow> (Inl e, t)
      | None \<Rightarrow>
          (let now = tx_rfc3339 (ue_texts env) (ue_now env) in
           (Inr (), map (\<lambda>r. if ar_id r = i
              then r\<lparr>ar_last_login_at := Some now, ar_failed_login_count := 0, ar_updated_at := now\<rparr> else r) t)))"

definition turso_find_expired :: "turso_account_env \<Rightarrow> u64 \<Rightarrow> turso_accounts \<Rightarrow> error + account list" where
  "turso_find_expired env limit t =
     (let now = tx_rfc3339 (ue_texts env) (ue_now env)
      in turso_rows env ''Failed to find expired: ''
           (sqlite_limit limit (sort_key (the \<circ> ar_expires_at)
              (filter (\<lambda>r. (case ar_expires_at r of Some e \<Rightarrow> e < now | None \<Rightarrow> False) \<and> ar_status r \<noteq> ''expired'') (ue_scan env t)))))"

text \<open>In SQLite a NULL comes before every text.\<close>

definition turso_find_inactive :: "turso_account_env \<Rightarrow> datetime \<Rightarrow> u64 \<Rightarrow> turso_accounts \<Rightarrow> error + account list" where
  "turso_find_inactive env cutoff limit t =
     (let cutoff_str = tx_rfc3339 (ue_texts env) cutoff;
          rows = filter (\<lambda>r. ar_status r = ''active'' \<and> (case ar_last_login_at r of None \<Rightarrow> True | Some l \<Rightarrow> l < cutoff_str)) (ue_scan env t)
      in turso_rows env ''Failed to find inactive: ''
           (sqlite_limit limit (filter (\<lambda>r. ar_last_login_at r = None) rows
              @ sort_key (the \<circ> ar_last_login_at) (filter (\<lambda>r. ar_last_login_at r \<noteq> None) rows))))"

definition turso_account_ops :: "turso_account_env \<Rightarrow> turso_accounts account_ops" where
  "turso_account_ops env =
     \<lparr>ao_create = turso_create env, ao_get_by_id = turso_get_by_id env, ao_get_by_email = turso_get_by_email env,
      ao_get_by_username = turso_get_by_username env, ao_update = turso_update env,
      ao_update_status = turso_update_status env, ao_list = turso_list env, ao_count = turso_count env,
      ao_delete = turso_delete env, ao_record_login = turso_record_login env\<rparr>"

subsection \<open>The rows read as those of PostgreSQL\<close>

definition pg_view :: "turso_texts \<Rightarrow> turso_account_row \<Rightarrow> account_row" where
  "pg_view x r =
     \<lparr>aw_id = ar_id r, aw_email = ar_email r, aw_username = ar_username r, aw_password_hash = ar_password_hash r,
      aw_status = ar_status r, aw_roles = (case tx_parse x (ar_roles r) of Some j \<Rightarrow> j | None \<Rightarrow> JNull),
      aw_email_verified = (ar_email_verified r \<noteq> 0), aw_email_verified_at = Option.bind (ar_email_verified_at r) (parse_datetime x),
      aw_last_login_at = Option.bind (ar_last_login_at r) (parse_datetime x), aw_locked_at = Option.bind (ar_locked_at r) (parse_datetime x),
      aw_locked_reason = ar_locked_reason r, aw_disabled_at = Option.bind (ar_disabled_at r) (parse_datetime x),
      aw_disabled_reason = ar_disabled_reason r, aw_expires_at = Option.bind (ar_expires_at r) (parse_datetime x),
      aw_password_changed_at = Option.bind (ar_password_changed_at r) (parse_datetime x),
      aw_failed_login_count = word_of_int (ar_failed_login_count r), aw_metadata = Option.bind (ar_metadata r) (tx_parse x),
      aw_created_at = the (parse_datetime x (ar_created_at r)), aw_updated_at = the (parse_datetime x (ar_updated_at r))\<rparr>"

text \<open>The JSON that is read where \<open>j\<close> was printed.\<close>

definition json_column :: "turso_texts \<Rightarrow> json \<Rightarrow> json" where
  "json_column x j = (case tx_print x j of Inr t \<Rightarrow> the (tx_parse x t) | Inl _ \<Rightarrow> JNull)"

text \<open>The server of that view; \<open>t\<close> is the table whose scan it repeats.\<close>

definition pg_view_env :: "turso_account_env \<Rightarrow> turso_accounts \<Rightarrow> account_env" where
  "pg_view_env env t = \<lparr>ae_fault = (\<lambda>_. None), ae_violation = [], ae_now = ue_now env, ae_timestamptz = (\<lambda>t. t), ae_jsonb = json_column (ue_texts env),
     ae_scan = (\<lambda>rows. if rows = map (pg_view (ue_texts env)) t then map (pg_view (ue_texts env)) (ue_scan env t) else rows),
     ae_mti = ue_mti env, ae_new_id = ue_new_id env\<rparr>"

text \<open>Each time column of a row holds the text of a time.\<close>

definition turso_row_readable :: "turso_texts \<Rightarrow> turso_account_row \<Rightarrow> bool" where
  "turso_row_readable x r \<longleftrightarrow>
     time_text x (ar_created_at r) \<and> time_text x (ar_updated_at r) \<and>
     list_all (pred_option (time_text x)) [ar_email_verified_at r, ar_last_login_at r, ar_locked_at r, ar_disabled_at r,
       ar_expires_at r, ar_password_changed_at r]"

definition turso_accounts_inv :: "turso_texts \<Rightarrow> (string \<Rightarrow> string + string \<times> string) \<Rightarrow> turso_accounts \<Rightarrow> bool" where
  "turso_accounts_inv x mti t \<longleftrightarrow> list_all (turso_row_readable x) t \<and> account_table_inv mti (map (pg_view x) t)"

definition turso_account_list :: "turso_texts \<Rightarrow> turso_accounts \<Rightarrow> account list" where
  "turso_account_list x t = pg_accounts (map (pg_view x) t)"

text \<open>
  What is needed of the database: a scan gives every row once, and the row of a query can be read. What is needed of the texts
  beside the laws of times: an array of strings is read back as it was printed, and the text of any JSON is read as some JSON.
\<close>

definition turso_server_ok :: "(string \<Rightarrow> string + string \<times> string) \<Rightarrow> turso_account_env \<Rightarrow> bool" where
  "turso_server_ok mti env \<longleftrightarrow> ue_mti env = mti \<and> (\<forall>t. mset (ue_scan env t) = mset t) \<and> ue_unread env 0 = None"

locale turso_json_laws = turso_laws +
  assumes roles_read: "\<exists>t. tx_print x (roles_to_json rs) = Inr t \<and> tx_parse x t = Some (roles_to_json rs)"
    and json_read: "\<exists>t j'. tx_print x j = Inr t \<and> tx_parse x t = Some j'"

lemma pg_view_env_fields [simp]:
  "ae_fault (pg_view_env env t) st = None" "ae_now (pg_view_env env t) = ue_now env" "ae_timestamptz (pg_view_env env t) u = u"
  "ue_texts env = x \<Longrightarrow> ae_scan (pg_view_env env t) (map (pg_view x) t) = map (pg_view x) (ue_scan env t)"
  by (simp_all add: pg_view_env_def)

lemma pg_view_keys [simp]:
  "aw_id (pg_view x r) = ar_id r" "aw_email (pg_view x r) = ar_email r" "aw_username (pg_view x r) = ar_username r"
  "aw_status (pg_view x r) = ar_status r"
  by (simp_all add: pg_view_def)

lemma map_view_keys [simp]:
  "map aw_id (map (pg_view x) t) = map ar_id t" "map aw_email (map (pg_view x) t) = map ar_email t"
  by simp_all

lemma row_of_view:
  "turso_row_readable (ue_texts env) r \<Longrightarrow> row_to_account env r = account_of_row (pg_view_env env t) (pg_view (ue_texts env) r)"
  by (auto simp: turso_row_readable_def time_text_def row_to_account_def account_of_row_def pg_view_def pg_view_env_def Let_def
      split: option.splits sum.splits)

lemma turso_row_matches_view: "row_matches f (pg_view x r) = turso_row_matches f r"
  by (simp add: row_matches_def turso_row_matches_def split: option.split)

context turso_json_laws
begin

lemma json_text [simp]: "tx_parse x (case tx_print x j of Inr t \<Rightarrow> t | Inl e \<Rightarrow> d) = Some (json_column x j)"
  using json_read [of j] by (auto simp: json_column_def)

lemma roles_column [simp]: "json_column x (roles_to_json rs) = roles_to_json rs"
  using roles_read [of rs] by (auto simp: json_column_def)

lemma time_column [simp]: "Option.bind (opt_dt x v) (parse_datetime x) = v" "pred_option (time_text x) (opt_dt x v)"
  by (cases v; simp add: opt_dt_def)+

lemma view_server_ok: "ue_texts env = x \<Longrightarrow> turso_server_ok mti env \<Longrightarrow> server_ok mti (pg_view_env env t)"
  by (simp add: server_ok_def turso_server_ok_def pg_view_env_def)

lemma view_of_row:
  assumes "ue_texts env = x"
  shows "pg_view x (turso_row_of_account x a) = row_of_account (pg_view_env env t) a"
proof -
  have "Option.bind (map_option (\<lambda>m. case tx_print x m of Inr j \<Rightarrow> j | Inl e \<Rightarrow> d) v) (tx_parse x) = map_option (json_column x) v" for v d
    by (cases v) simp_all
  then show ?thesis
    using assms by (simp add: pg_view_def turso_row_of_account_def row_of_account_def pg_view_env_def Let_def option.map_ident)
qed

lemma readable_row: "turso_row_readable x (turso_row_of_account x a)"
  by (simp add: turso_row_readable_def turso_row_of_account_def)

lemma readable_status: "turso_row_readable x r \<Longrightarrow> turso_row_readable x (set_turso_status (tx_rfc3339 x t) st reason r)"
  by (cases st) (simp_all add: turso_row_readable_def set_turso_status_def)

lemma view_status: "pg_view x (set_turso_status (tx_rfc3339 x t) st reason r) = set_row_status t st reason (pg_view x r)"
  by (cases st) (simp_all add: pg_view_def set_turso_status_def set_row_status_def)

lemma view_create:
  assumes "ue_texts env = x" and "turso_create env a t = (Inr u, t')"
  shows "pg_create (pg_view_env env t) a (map (pg_view x) t) = (Inr u, map (pg_view x) t')"
    and "list_all (turso_row_readable x) t \<Longrightarrow> list_all (turso_row_readable x) t'"
  using assms view_of_row [OF assms(1), of a t] readable_row [of a]
  by (auto simp: turso_create_def pg_create_def pg_view_env_def comp_def image_image split: option.splits if_splits)

lemma view_update_row:
  assumes "ue_texts env = x"
  shows "pg_view x ((turso_row_of_account x a)\<lparr>ar_created_at := ar_created_at r, ar_updated_at := tx_rfc3339 x now\<rparr>) =
    (row_of_account (pg_view_env env t) a)\<lparr>aw_created_at := aw_created_at (pg_view x r), aw_updated_at := now\<rparr>"
  unfolding view_of_row [OF assms, symmetric] by (simp add: pg_view_def)

lemma view_update:
  assumes "ue_texts env = x" and "turso_update env a t = (Inr u, t')"
  shows "pg_update (pg_view_env env t) a (map (pg_view x) t) = (Inr u, map (pg_view x) t')"
    and "list_all (turso_row_readable x) t \<Longrightarrow> list_all (turso_row_readable x) t'"
proof -
  have t': "t' = map (\<lambda>r. if ar_id r = acc_id a then (turso_row_of_account x a)
      \<lparr>ar_created_at := ar_created_at r, ar_updated_at := tx_rfc3339 x (ue_now env)\<rparr> else r) t"
    and free: "\<not> (acc_id a \<in> set (map ar_id t) \<and> acc_email a \<in> set (map ar_email (filter (\<lambda>r. ar_id r \<noteq> acc_id a) t)))"
    using assms by (auto simp: turso_update_def split: option.splits if_splits)
  have "filter (\<lambda>r. aw_id r \<noteq> acc_id a) (map (pg_view x) t) = map (pg_view x) (filter (\<lambda>r. ar_id r \<noteq> acc_id a) t)"
    by (rule filter_view) simp
  with free show "pg_update (pg_view_env env t) a (map (pg_view x) t) = (Inr u, map (pg_view x) t')"
    unfolding pg_update_def map_view_keys t'
    by (auto simp: view_update_row [OF assms(1), where t = t] pg_view_env_def comp_def simp del: map_view_keys)
  show "list_all (turso_row_readable x) t \<Longrightarrow> list_all (turso_row_readable x) t'"
    unfolding t' by (auto simp: list_all_iff turso_row_readable_def turso_row_of_account_def)
qed

lemma view_update_status:
  assumes "ue_texts env = x" and "turso_update_status env i st reason t = (Inr u, t')"
  shows "pg_update_status (pg_view_env env t) i st reason (map (pg_view x) t) = (Inr u, map (pg_view x) t')"
    and "list_all (turso_row_readable x) t \<Longrightarrow> list_all (turso_row_readable x) t'"
  using assms readable_status view_status
  by (auto simp: turso_update_status_def pg_update_status_def pg_view_env_def list_all_iff split: option.splits)

lemma view_delete:
  assumes "turso_delete env i t = (Inr b, t')"
  shows "pg_delete (pg_view_env env t) i (map (pg_view x) t) = (Inr b, map (pg_view x) t')"
    and "list_all (turso_row_readable x) t \<Longrightarrow> list_all (turso_row_readable x) t'"
  using assms
  by (auto simp: turso_delete_def pg_delete_def pg_view_env_def filter_map comp_def list_all_iff split: option.splits)

lemma view_record_login:
  assumes "ue_texts env = x" and "turso_record_login env i t = (Inr u, t')"
  shows "pg_record_login (pg_view_env env t) i (map (pg_view x) t) = (Inr u, map (pg_view x) t')"
    and "list_all (turso_row_readable x) t \<Longrightarrow> list_all (turso_row_readable x) t'"
proof -
  have t': "t' = map (\<lambda>r. if ar_id r = i then r\<lparr>ar_last_login_at := Some (tx_rfc3339 x (ue_now env)), ar_failed_login_count := 0,
      ar_updated_at := tx_rfc3339 x (ue_now env)\<rparr> else r) t"
    using assms by (auto simp: turso_record_login_def Let_def split: option.splits)
  show "pg_record_login (pg_view_env env t) i (map (pg_view x) t) = (Inr u, map (pg_view x) t')"
    unfolding t' by (auto simp: pg_record_login_def pg_view_env_def Let_def pg_view_def)
  show "list_all (turso_row_readable x) t \<Longrightarrow> list_all (turso_row_readable x) t'"
    unfolding t' by (auto simp: list_all_iff turso_row_readable_def)
qed

lemma scan_readable:
  assumes "turso_server_ok mti env" and "list_all (turso_row_readable x) t" and "r \<in> set (ue_scan env t)"
  shows "turso_row_readable x r"
  using assms by (metis turso_server_ok_def mset_eq_setD list_all_iff)

lemma view_first:
  assumes "ue_texts env = x" and "turso_server_ok mti env" and "list_all (turso_row_readable x) t"
    and "turso_first env what Q t = Inr r" and "\<And>r. P (pg_view x r) = Q r"
  shows "map_option (account_of_row (pg_view_env env t)) (find P (ae_scan (pg_view_env env t) (map (pg_view x) t))) = r"
proof -
  have "turso_row_readable x row" if "find Q (ue_scan env t) = Some row" for row
    using that scan_readable [OF assms(2,3)] by (auto simp: find_Some_iff)
  then show ?thesis
    using assms(1,4) find_view [of P "pg_view x" Q, OF assms(5)] row_of_view [of env]
    by (cases "find Q (ue_scan env t)") (auto simp: turso_first_def pg_view_env_def split: option.splits)
qed

lemma view_lookups:
  assumes "ue_texts env = x" and "turso_server_ok mti env" and "list_all (turso_row_readable x) t"
  shows "turso_get_by_id env i t = Inr r \<Longrightarrow> pg_get_by_id (pg_view_env env t) i (map (pg_view x) t) = Inr r"
    and "turso_get_by_email env m t = Inr r \<Longrightarrow> pg_get_by_email (pg_view_env env t) m (map (pg_view x) t) = Inr r"
    and "turso_get_by_username env n t = Inr r \<Longrightarrow> pg_get_by_username (pg_view_env env t) n (map (pg_view x) t) = Inr r"
  using view_first [OF assms]
  by (auto simp: turso_get_by_id_def turso_get_by_email_def turso_get_by_username_def pg_get_by_id_def pg_get_by_email_def
      pg_get_by_username_def)

lemma view_count:
  assumes "turso_server_ok mti env" and "turso_count env f t = Inr n"
  shows "pg_count (pg_view_env env t) f (map (pg_view x) t) = Inr n"
  using assms filter_view [of "row_matches f" "pg_view x" "turso_row_matches f" t, OF turso_row_matches_view]
  by (auto simp: turso_server_ok_def turso_count_def pg_count_def pg_view_env_def split: option.splits)

lemma view_column:
  assumes "turso_row_readable x r"
  shows "ar_expires_at r = Some e \<Longrightarrow> time_text x e \<and> aw_expires_at (pg_view x r) = Some (the (parse_datetime x e))"
    and "ar_last_login_at r = Some l \<Longrightarrow> time_text x l \<and> aw_last_login_at (pg_view x r) = Some (the (parse_datetime x l))"
    and "time_text x (ar_created_at r)" "aw_created_at (pg_view x r) = the (parse_datetime x (ar_created_at r))"
    and "aw_last_login_at (pg_view x r) = None \<longleftrightarrow> ar_last_login_at r = None"
  using assms by (cases "ar_last_login_at r"; auto simp: turso_row_readable_def pg_view_def time_text_def split: option.splits)+

lemma view_rows:
  assumes "ue_texts env = x" and "ue_fault env = (\<lambda>_. None)" and "ue_unread env = (\<lambda>_. None)"
    and "\<And>r. r \<in> set rows \<Longrightarrow> turso_row_readable x r"
  shows "turso_rows env what rows = Inr (map (account_of_row (pg_view_env env t)) (map (pg_view x) rows))"
  using assms row_of_view [of env] by (simp add: turso_rows_def turso_statement_def rows_until_all)

lemma view_list:
  assumes "ue_texts env = x" and "turso_server_ok mti env" and "list_all (turso_row_readable x) t"
    and "ue_fault env = (\<lambda>_. None)" and "ue_unread env = (\<lambda>_. None)" and "0 \<le> sint limit" and "0 \<le> sint offset"
  shows "turso_list env f limit offset t = pg_list (pg_view_env env t) f limit offset (map (pg_view x) t)"
proof -
  let ?rows = "filter (turso_row_matches f) (ue_scan env t)"
  note readable = scan_readable [OF assms(2,3)]
  have sorted: "sort_key (\<lambda>r. - aw_created_at r) (map (pg_view x) ?rows) = map (pg_view x) (sort_down ar_created_at ?rows)"
    using readable view_column by (intro sort_view(2)) auto
  have "turso_row_readable x r" if "r \<in> set (take (unat limit) (drop (unat offset) (sort_down ar_created_at ?rows)))" for r
    using that readable by (auto dest!: in_set_takeD in_set_dropD)
  from view_rows [OF assms(1,4,5) this, of _ _ t] show ?thesis
    using sorted assms(1,6,7) filter_view [of "row_matches f" "pg_view x" "turso_row_matches f" "ue_scan env t", OF turso_row_matches_view]
    by (simp add: turso_list_def pg_list_def sqlite_limit_def sqlite_offset_def take_map drop_map)
qed

text \<open>The two housekeeping queries.\<close>

lemma view_due:
  assumes "turso_row_readable x r"
  shows "(case aw_expires_at (pg_view x r) of Some e \<Rightarrow> e < now | None \<Rightarrow> False) \<longleftrightarrow>
      (case ar_expires_at r of Some e \<Rightarrow> e < tx_rfc3339 x now | None \<Rightarrow> False)"
    and "(case aw_last_login_at (pg_view x r) of None \<Rightarrow> True | Some l \<Rightarrow> l < now) \<longleftrightarrow>
      (case ar_last_login_at r of None \<Rightarrow> True | Some l \<Rightarrow> l < tx_rfc3339 x now)"
proof -
  show "(case aw_expires_at (pg_view x r) of Some e \<Rightarrow> e < now | None \<Rightarrow> False) \<longleftrightarrow>
      (case ar_expires_at r of Some e \<Rightarrow> e < tx_rfc3339 x now | None \<Rightarrow> False)"
    using view_column(1) [OF assms] time_text_order(1) [of _ "tx_rfc3339 x now"]
    by (cases "ar_expires_at r") (auto simp: pg_view_def split: option.splits)
  show "(case aw_last_login_at (pg_view x r) of None \<Rightarrow> True | Some l \<Rightarrow> l < now) \<longleftrightarrow>
      (case ar_last_login_at r of None \<Rightarrow> True | Some l \<Rightarrow> l < tx_rfc3339 x now)"
    using view_column(2) [OF assms] time_text_order(1) [of _ "tx_rfc3339 x now"]
    by (cases "ar_last_login_at r") (auto simp: pg_view_def split: option.splits)
qed

lemma view_find_expired:
  assumes "ue_texts env = x" and "turso_server_ok mti env" and "list_all (turso_row_readable x) t"
    and "ue_fault env = (\<lambda>_. None)" and "ue_unread env = (\<lambda>_. None)" and "0 \<le> sint limit"
  shows "turso_find_expired env limit t = pg_find_expired (pg_view_env env t) limit (map (pg_view x) t)"
proof -
  let ?Q = "\<lambda>r. (case ar_expires_at r of Some e \<Rightarrow> e < tx_rfc3339 x (ue_now env) | None \<Rightarrow> False) \<and> ar_status r \<noteq> ''expired''"
  let ?P = "\<lambda>r. (case aw_expires_at r of Some e \<Rightarrow> e < ue_now env | None \<Rightarrow> False) \<and> aw_status r \<noteq> ''expired''"
  let ?rows = "filter ?Q (ue_scan env t)"
  note readable = scan_readable [OF assms(2,3)]
  have rows: "filter ?P (map (pg_view x) (ue_scan env t)) = map (pg_view x) ?rows"
    using readable view_due(1) by (intro filter_view_on) simp
  have sorted: "sort_key (the \<circ> aw_expires_at) (map (pg_view x) ?rows) = map (pg_view x) (sort_key (the \<circ> ar_expires_at) ?rows)"
    using readable view_column(1) by (intro sort_view(1)) (auto split: option.splits)
  have "turso_row_readable x r" if "r \<in> set (take (unat limit) (sort_key (the \<circ> ar_expires_at) ?rows))" for r
    using that readable by (auto dest!: in_set_takeD)
  from view_rows [OF assms(1,4,5) this, of _ _ t] show ?thesis
    using sorted rows assms(1,6) unfolding pg_find_expired_def pg_view_env_fields(1-3)
    by (simp add: turso_find_expired_def sqlite_limit_def take_map Let_def)
qed

lemma view_find_inactive:
  assumes "ue_texts env = x" and "turso_server_ok mti env" and "list_all (turso_row_readable x) t"
    and "ue_fault env = (\<lambda>_. None)" and "ue_unread env = (\<lambda>_. None)" and "0 \<le> sint limit"
  shows "turso_find_inactive env cutoff limit t = pg_find_inactive (pg_view_env env t) cutoff limit (map (pg_view x) t)"
proof -
  let ?Q = "\<lambda>r. ar_status r = ''active'' \<and> (case ar_last_login_at r of None \<Rightarrow> True | Some l \<Rightarrow> l < tx_rfc3339 x cutoff)"
  let ?P = "\<lambda>r. aw_status r = ''active'' \<and> (case aw_last_login_at r of None \<Rightarrow> True | Some l \<Rightarrow> l < cutoff)"
  let ?rows = "filter ?Q (ue_scan env t)"
  let ?never = "filter (\<lambda>r. ar_last_login_at r = None) ?rows" and ?once = "filter (\<lambda>r. ar_last_login_at r \<noteq> None) ?rows"
  note readable = scan_readable [OF assms(2,3)]
  have rows: "filter ?P (map (pg_view x) (ue_scan env t)) = map (pg_view x) ?rows"
    using readable view_due(2) by (intro filter_view_on) simp
  have never: "filter (\<lambda>r. aw_last_login_at r = None) (map (pg_view x) ?rows) = map (pg_view x) ?never"
    and once: "filter (\<lambda>r. aw_last_login_at r \<noteq> None) (map (pg_view x) ?rows) = map (pg_view x) ?once"
    using readable view_column(5) by (intro filter_view_on; force)+
  have sorted: "sort_key (the \<circ> aw_last_login_at) (map (pg_view x) ?once) = map (pg_view x) (sort_key (the \<circ> ar_last_login_at) ?once)"
    using readable view_column(2) by (intro sort_view(1)) fastforce
  have "turso_row_readable x r" if "r \<in> set (take (unat limit) (?never @ sort_key (the \<circ> ar_last_login_at) ?once))" for r
    using in_set_takeD [OF that] readable by auto
  note listed = view_rows [OF assms(1,4,5) this, of _ _ t]
  have turso: "turso_find_inactive env cutoff limit t = turso_rows env ''Failed to find inactive: ''
      (take (unat limit) (?never @ sort_key (the \<circ> ar_last_login_at) ?once))"
    using assms(1,6) by (simp add: turso_find_inactive_def sqlite_limit_def Let_def)
  have "pg_find_inactive (pg_view_env env t) cutoff limit (map (pg_view x) t) =
      Inr (map (account_of_row (pg_view_env env t)) (take (unat limit)
        (map (pg_view x) ?never @ sort_key (the \<circ> aw_last_login_at) (map (pg_view x) ?once))))"
    unfolding never [symmetric] once [symmetric] rows [symmetric]
    unfolding pg_find_inactive_def pg_view_env_fields(1-3) using assms(1,6) by (simp add: Let_def)
  also have "\<dots> = turso_find_inactive env cutoff limit t"
    unfolding turso sorted map_append [symmetric] take_map by (rule listed [symmetric, unfolded take_map])
  finally show ?thesis by simp
qed

lemma turso_account_store:
  assumes x: "ue_texts env = x" and ok: "turso_server_ok mti env"
  shows "account_store (turso_account_ops env) (turso_account_list x) (turso_accounts_inv x mti) (valid_account_id mti)
    (\<lambda>t. t) (json_column x)"
proof -
  have pg: "account_store (pg_account_ops (pg_view_env env s)) pg_accounts (account_table_inv mti) (valid_account_id mti)
      (\<lambda>t. t) (json_column x)" for s
    using pg_account_store [OF view_server_ok [OF x ok, of s]] x by (simp add: pg_view_env_def)
  note ops = turso_account_ops_def pg_account_ops_def turso_accounts_inv_def turso_account_list_def
  show ?thesis
  proof (unfold_locales, goal_cases)
    case (1 s a u s')
    then show ?case using account_store.create_ok [OF pg [of s], of "map (pg_view x) s" a u "map (pg_view x) s'"] view_create [OF x, of a s u s']
      by (simp add: ops)
  next
    case (3 s i r)
    then show ?case using account_store.by_id [OF pg [of s], of "map (pg_view x) s" i r] view_lookups(1) [OF x ok] by (simp add: ops)
  next
    case (4 s m r)
    then show ?case using account_store.by_email [OF pg [of s], of "map (pg_view x) s" m r] view_lookups(2) [OF x ok] by (simp add: ops)
  next
    case (5 s n r)
    then show ?case using account_store.by_username [OF pg [of s], of "map (pg_view x) s" n r] view_lookups(3) [OF x ok]
      by (simp add: ops split: option.splits)
  next
    case (6 s a u s')
    then show ?case using account_store.update_ok [OF pg [of s], of "map (pg_view x) s" a u "map (pg_view x) s'"] view_update [OF x, of a s u s']
      by (simp add: ops)
  next
    case (8 s i st reason u s')
    then show ?case using account_store.update_status_ok [OF pg [of s], of "map (pg_view x) s" i st reason u "map (pg_view x) s'"]
      view_update_status [OF x, of i st reason s u s'] by (simp add: ops)
  next
    case (10 s i b s')
    then show ?case using account_store.delete_ok [OF pg [of s], of "map (pg_view x) s" i b "map (pg_view x) s'"] view_delete [of env i s b s']
      by (simp add: ops)
  next
    case (12 s i u s')
    then show ?case using account_store.login_ok [OF pg [of s], of "map (pg_view x) s" i u "map (pg_view x) s'"] view_record_login [OF x, of i s u s']
      by (simp add: ops)
  next
    case (14 s f cnt)
    then show ?case using account_store.count_ok [OF pg [of s], of "map (pg_view x) s" f cnt] view_count [OF ok, of f s cnt]
      by (simp add: ops)
  next
    case (15 s)
    then show ?case using account_store.unique [OF pg] by (simp add: ops)
  next
    case (16 s a)
    then show ?case using account_store.ids_valid [OF pg] by (auto simp: ops)
  qed (auto simp: turso_account_ops_def turso_create_def turso_update_def turso_update_status_def turso_delete_def
      turso_record_login_def Let_def split: option.splits if_splits)
qed

end

subsection \<open>Properties\<close>

text \<open>
  Over Turso the account service refines the same abstract machine of accounts as over PostgreSQL, whatever faults the
  database has.
\<close>

theorem turso_account_service_refines:
  assumes "turso_json_laws (ue_texts env)" and "turso_server_ok mti env" and "turso_accounts_inv (ue_texts env) mti t"
    and "fresh_id_ok mti req"
  shows "turso_accounts_inv (ue_texts env) mti (serve svc (turso_account_ops env) req t) \<and>
    account_evolves req (turso_account_list (ue_texts env) t)
      (turso_account_list (ue_texts env) (serve svc (turso_account_ops env) req t))"
  using assms(4)
  by (intro account_store.serve_refines [OF turso_json_laws.turso_account_store [OF assms(1) refl assms(2)] assms(3)])
    (auto simp: fresh_id_ok_def)

text \<open>
  The two backends answer the same pages. Over a table whose time columns hold times, and while the database answers, the
  listing and the two housekeeping queries over Turso, which sort and compare texts, return the accounts that PostgreSQL
  returns for the rows read as times, in the same order.
\<close>

theorem turso_pages_agree:
  assumes "turso_json_laws (ue_texts env)" and "turso_server_ok mti env" and "turso_accounts_inv (ue_texts env) mti t"
    and "ue_fault env = (\<lambda>_. None)" and "ue_unread env = (\<lambda>_. None)" and "0 \<le> sint limit" and "0 \<le> sint offset"
  shows "turso_list env f limit offset t = pg_list (pg_view_env env t) f limit offset (map (pg_view (ue_texts env)) t)"
    and "turso_find_expired env limit t = pg_find_expired (pg_view_env env t) limit (map (pg_view (ue_texts env)) t)"
    and "turso_find_inactive env cutoff limit t = pg_find_inactive (pg_view_env env t) cutoff limit (map (pg_view (ue_texts env)) t)"
proof -
  have readable: "list_all (turso_row_readable (ue_texts env)) t" using assms(3) by (simp add: turso_accounts_inv_def)
  show "turso_list env f limit offset t = pg_list (pg_view_env env t) f limit offset (map (pg_view (ue_texts env)) t)"
    by (rule turso_json_laws.view_list [OF assms(1) refl assms(2) readable assms(4-7)])
  show "turso_find_expired env limit t = pg_find_expired (pg_view_env env t) limit (map (pg_view (ue_texts env)) t)"
    by (rule turso_json_laws.view_find_expired [OF assms(1) refl assms(2) readable assms(4-6)])
  show "turso_find_inactive env cutoff limit t = pg_find_inactive (pg_view_env env t) cutoff limit (map (pg_view (ue_texts env)) t)"
    by (rule turso_json_laws.view_find_inactive [OF assms(1) refl assms(2) readable assms(4-6)])
qed

text \<open>
  What differs is a limit above the range of \<^verbatim>\<open>i64\<close>: PostgreSQL refuses it, Turso takes it for no limit.
\<close>

theorem turso_huge_limit_is_none:
  assumes "sint limit < 0" and "ue_fault env = (\<lambda>_. None)"
  shows "turso_list env f limit 0 t = turso_rows env ''Failed to list accounts: ''
      (sort_down ar_created_at (filter (turso_row_matches f) (ue_scan env t)))"
    and "\<exists>e. pg_list (pg_view_env env t) f limit 0 rows = Inl e"
  using assms by (simp_all add: turso_list_def sqlite_limit_def sqlite_offset_def pg_list_def)

text \<open>A database that stops answering in the middle of a listing is taken for the end of the listing.\<close>

theorem turso_list_truncated:
  assumes "ue_fault env = (\<lambda>_. None)" and "ue_unread env = (\<lambda>i. if i = 0 then Some e else None)"
  shows "turso_list env f limit offset t = Inr [] \<and> turso_count env f t = Inr 0"
proof -
  have "rows_until (ue_unread env) 0 rows = []" for rows :: turso_accounts using assms(2) by (cases rows) simp_all
  with assms show ?thesis by (simp add: turso_list_def turso_rows_def turso_statement_def turso_count_def)
qed

subsection \<open>Sample texts\<close>

text \<open>Strings are written with a sign before each character and one after the last.\<close>

definition write_strings :: "string list \<Rightarrow> string" where
  "write_strings rs = concat (map (\<lambda>s. concat (map (\<lambda>c. [CHR ''+'', c]) s) @ ''!'') rs)"

fun read_strings :: "string \<Rightarrow> string \<Rightarrow> string list" where
  "read_strings acc [] = []"
| "read_strings acc [c] = (if c = CHR ''!'' then [acc] else [])"
| "read_strings acc (c # d # s) =
     (if c = CHR ''!'' then acc # read_strings [] (d # s) else read_strings (acc @ [d]) s)"

lemma read_string: "read_strings acc (concat (map (\<lambda>c. [CHR ''+'', c]) s) @ CHR ''!'' # rest) = (acc @ s) # read_strings [] rest"
proof (induction s arbitrary: acc)
  case Nil then show ?case by (cases rest) simp_all
qed simp

lemma read_write_strings: "read_strings [] (write_strings rs) = rs"
  by (induction rs) (simp_all add: write_strings_def read_string)

definition sample_account_texts :: turso_texts where
  "sample_account_texts = sample_texts\<lparr>
     tx_print := (\<lambda>j. Inr (write_strings (case roles_from_json j of Some rs \<Rightarrow> rs | None \<Rightarrow> []))),
     tx_parse := (\<lambda>s. Some (roles_to_json (read_strings [] s)))\<rparr>"

interpretation sample_accounts_turso: turso_json_laws sample_account_texts
  using sample_turso.uuid_read sample_turso.time_read sample_turso.time_order
  by unfold_locales (simp_all add: sample_account_texts_def read_write_strings)

definition sample_turso_env :: turso_account_env where
  "sample_turso_env = \<lparr>ue_texts = sample_account_texts, ue_fault = (\<lambda>_. None), ue_unread = (\<lambda>_. None), ue_now = 9,
     ue_scan = rev, ue_mti = sample_mti, ue_new_id = (\<lambda>s. s)\<rparr>"

lemma sample_turso_ok: "turso_server_ok sample_mti sample_turso_env"
  by (simp add: turso_server_ok_def sample_turso_env_def)

theorem turso_account_service_refines_witness:
  "turso_accounts_inv sample_account_texts sample_mti (serve sample_service (turso_account_ops sample_turso_env)
     (ReqCreate ''salt'' ''acct_1'' 3 (sample_data False)) []) \<and>
   account_evolves (ReqCreate ''salt'' ''acct_1'' 3 (sample_data False)) (turso_account_list sample_account_texts [])
     (turso_account_list sample_account_texts (serve sample_service (turso_account_ops sample_turso_env)
       (ReqCreate ''salt'' ''acct_1'' 3 (sample_data False)) []))"
  using turso_account_service_refines [OF _ sample_turso_ok, of "[]" "ReqCreate ''salt'' ''acct_1'' 3 (sample_data False)" sample_service]
    sample_accounts_turso.turso_json_laws_axioms
  by (simp add: sample_turso_env_def turso_accounts_inv_def account_table_inv_def fresh_id_ok_def sample_id_ok)

end
