(* ===== verification/Key_Rotation.thy ===== *)
theory Key_Rotation
  imports Audit_Event "HOL-Library.AList"
begin

text \<open>
  Signing-key rotation (\<^verbatim>\<open>src/acton-service/src/auth/key_rotation/\<close>): key formats and statuses
  (\<^verbatim>\<open>key_metadata.rs\<close>), the PostgreSQL table of keys (\<^verbatim>\<open>storage/pg.rs\<close>), the manager with its
  cache (\<^verbatim>\<open>manager.rs\<close>) and the periodic check (\<^verbatim>\<open>agent.rs\<close>).

  The manager works over \<^verbatim>\<open>dyn KeyRotationStorage\<close>, the record of operations \<open>key_ops\<close>. Random
  key bytes, the new key identifier, clocks, base64 and BLAKE3 are arguments. Server faults are
  given per statement (\<open>key_env\<close>), and so is what a TIMESTAMPTZ value keeps of a time; where a query has a LIMIT but no order, the server's choice is
  an argument as well.
\<close>

subsection \<open>Formats and statuses\<close>

datatype key_format = PasetoV4Local | PasetoV4Public | JwtRs256 | JwtEs256

fun key_format_display :: "key_format \<Rightarrow> string" where
  "key_format_display PasetoV4Local = ''paseto_v4_local''"
| "key_format_display PasetoV4Public = ''paseto_v4_public''"
| "key_format_display JwtRs256 = ''jwt_rs256''"
| "key_format_display JwtEs256 = ''jwt_es256''"

definition parse_key_format_error :: "string \<Rightarrow> string" where
  "parse_key_format_error input =
     ''invalid key format '' @ [CHR 0x27] @ input @ [CHR 0x27]
     @ '': expected one of paseto_v4_local, paseto_v4_public, jwt_rs256, jwt_es256''"

definition key_format_from_str :: "string \<Rightarrow> string + key_format" where
  "key_format_from_str s =
     (if s = ''paseto_v4_local'' then Inr PasetoV4Local
      else if s = ''paseto_v4_public'' then Inr PasetoV4Public
      else if s = ''jwt_rs256'' then Inr JwtRs256
      else if s = ''jwt_es256'' then Inr JwtEs256
      else Inl (parse_key_format_error s))"

datatype key_status = Active | Draining | Retired

fun key_status_display :: "key_status \<Rightarrow> string" where
  "key_status_display Active = ''active''"
| "key_status_display Draining = ''draining''"
| "key_status_display Retired = ''retired''"

definition parse_key_status_error :: "string \<Rightarrow> string" where
  "parse_key_status_error input =
     ''invalid key status '' @ [CHR 0x27] @ input @ [CHR 0x27]
     @ '': expected one of active, draining, retired''"

definition key_status_from_str :: "string \<Rightarrow> string + key_status" where
  "key_status_from_str s =
     (if s = ''active'' then Inr Active
      else if s = ''draining'' then Inr Draining
      else if s = ''retired'' then Inr Retired
      else Inl (parse_key_status_error s))"

record signing_key_metadata =
  sk_kid :: string
  sk_format :: key_format
  sk_key_material :: string
  sk_status :: key_status
  sk_created_at :: datetime
  sk_activated_at :: "datetime option"
  sk_draining_since :: "datetime option"
  sk_retired_at :: "datetime option"
  sk_drain_expires_at :: "datetime option"
  sk_service_name :: string
  sk_key_hash :: string

record key_rotation_config =
  kr_enabled :: bool
  kr_rotation_period_secs :: u64
  kr_drain_grace_period_secs :: u64
  kr_check_interval_secs :: u64
  kr_retention_days :: u32
  kr_bootstrap_key_path :: "string option"

definition default_key_rotation_config :: key_rotation_config where
  "default_key_rotation_config =
     \<lparr>kr_enabled = False, kr_rotation_period_secs = 86400, kr_drain_grace_period_secs = 300,
      kr_check_interval_secs = 60, kr_retention_days = 90, kr_bootstrap_key_path = None\<rparr>"

subsection \<open>The table of keys\<close>

record signing_key_row =
  kw_kid :: string
  kw_format :: string
  kw_key_material :: string
  kw_status :: string
  kw_created_at :: datetime
  kw_activated_at :: "datetime option"
  kw_draining_since :: "datetime option"
  kw_retired_at :: "datetime option"
  kw_drain_expires_at :: "datetime option"
  kw_service_name :: string
  kw_key_hash :: string

type_synonym key_table = "signing_key_row list"

datatype key_statement = StInit nat | StStore | StActive | StByKid | StVerification | StUpdate | StRetire

record key_env =
  ke_fault :: "key_statement \<Rightarrow> string option"
  ke_violation :: string
  ke_pick :: "key_table \<Rightarrow> signing_key_row"
  ke_timestamptz :: "datetime \<Rightarrow> datetime"

definition key_of_row :: "signing_key_row \<Rightarrow> error + signing_key_metadata" where
  "key_of_row row =
     (case key_format_from_str (kw_format row) of
        Inl e \<Rightarrow> Inl (Internal (''Invalid key format in database: '' @ e))
      | Inr format \<Rightarrow>
          (case key_status_from_str (kw_status row) of
             Inl e \<Rightarrow> Inl (Internal (''Invalid key status in database: '' @ e))
           | Inr status \<Rightarrow>
               Inr \<lparr>sk_kid = kw_kid row, sk_format = format, sk_key_material = kw_key_material row,
                    sk_status = status, sk_created_at = kw_created_at row,
                    sk_activated_at = kw_activated_at row, sk_draining_since = kw_draining_since row,
                    sk_retired_at = kw_retired_at row,
                    sk_drain_expires_at = kw_drain_expires_at row,
                    sk_service_name = kw_service_name row, sk_key_hash = kw_key_hash row\<rparr>))"

definition row_of_key :: "(datetime \<Rightarrow> datetime) \<Rightarrow> signing_key_metadata \<Rightarrow> signing_key_row" where
  "row_of_key ts key =
     \<lparr>kw_kid = sk_kid key, kw_format = key_format_display (sk_format key),
      kw_key_material = sk_key_material key, kw_status = key_status_display (sk_status key),
      kw_created_at = ts (sk_created_at key), kw_activated_at = map_option ts (sk_activated_at key),
      kw_draining_since = map_option ts (sk_draining_since key),
      kw_retired_at = map_option ts (sk_retired_at key),
      kw_drain_expires_at = map_option ts (sk_drain_expires_at key), kw_service_name = sk_service_name key,
      kw_key_hash = sk_key_hash key\<rparr>"

definition pg_keys_initialize :: "key_env \<Rightarrow> key_table \<Rightarrow> (error + unit) \<times> key_table" where
  "pg_keys_initialize env t =
     (case ke_fault env (StInit 0) of
        Some e \<Rightarrow> (Inl (Internal (''Failed to create signing_keys table: '' @ e)), t)
      | None \<Rightarrow>
     (case ke_fault env (StInit 1) of
        Some e \<Rightarrow> (Inl (Internal (''Failed to create signing_keys status index: '' @ e)), t)
      | None \<Rightarrow>
     (case ke_fault env (StInit 2) of
        Some e \<Rightarrow> (Inl (Internal (''Failed to create signing_keys service index: '' @ e)), t)
      | None \<Rightarrow> (Inr (), t))))"

definition pg_store_key :: "key_env \<Rightarrow> signing_key_metadata \<Rightarrow> key_table \<Rightarrow> (error + unit) \<times> key_table" where
  "pg_store_key env key t =
     (case ke_fault env StStore of
        Some e \<Rightarrow> (Inl (Internal (''Failed to store signing key: '' @ e)), t)
      | None \<Rightarrow>
          if sk_kid key \<in> set (map kw_kid t)
          then (Inl (Internal (''Failed to store signing key: '' @ ke_violation env)), t)
          else (Inr (), t @ [row_of_key (ke_timestamptz env) key]))"

fun transpose_row :: "signing_key_row option \<Rightarrow> error + signing_key_metadata option" where
  "transpose_row None = Inr None"
| "transpose_row (Some row) = (case key_of_row row of Inl e \<Rightarrow> Inl e | Inr k \<Rightarrow> Inr (Some k))"

definition active_rows :: "string \<Rightarrow> key_table \<Rightarrow> key_table" where
  "active_rows service_name t = filter (\<lambda>r. kw_service_name r = service_name \<and> kw_status r = ''active'') t"

definition pg_get_active_key ::
  "key_env \<Rightarrow> string \<Rightarrow> key_table \<Rightarrow> error + signing_key_metadata option" where
  "pg_get_active_key env service_name t =
     (case ke_fault env StActive of
        Some e \<Rightarrow> Inl (Internal (''Failed to get active signing key: '' @ e))
      | None \<Rightarrow>
          (let rows = active_rows service_name t
           in transpose_row (if rows = [] then None else Some (ke_pick env rows))))"

definition pg_get_key_by_kid ::
  "key_env \<Rightarrow> string \<Rightarrow> key_table \<Rightarrow> error + signing_key_metadata option" where
  "pg_get_key_by_kid env kid t =
     (case ke_fault env StByKid of
        Some e \<Rightarrow> Inl (Internal (''Failed to get signing key by kid: '' @ e))
      | None \<Rightarrow> transpose_row (find (\<lambda>r. kw_kid r = kid) t))"

fun collect_rows :: "key_table \<Rightarrow> error + signing_key_metadata list" where
  "collect_rows [] = Inr []"
| "collect_rows (row # rows) =
     (case key_of_row row of
        Inl e \<Rightarrow> Inl e
      | Inr k \<Rightarrow> (case collect_rows rows of Inl e \<Rightarrow> Inl e | Inr ks \<Rightarrow> Inr (k # ks)))"

definition pg_get_verification_keys ::
  "key_env \<Rightarrow> string \<Rightarrow> key_table \<Rightarrow> error + signing_key_metadata list" where
  "pg_get_verification_keys env service_name t =
     (case ke_fault env StVerification of
        Some e \<Rightarrow> Inl (Internal (''Failed to get verification keys: '' @ e))
      | None \<Rightarrow>
          collect_rows (sort_key (\<lambda>r. - kw_created_at r)
            (filter (\<lambda>r. kw_service_name r = service_name
               \<and> (kw_status r = ''active'' \<or> kw_status r = ''draining'')) t)))"

text \<open>An UPDATE: the rows a condition selects, changed; and how many they are.\<close>

definition update_rows ::
  "(signing_key_row \<Rightarrow> bool) \<Rightarrow> (signing_key_row \<Rightarrow> signing_key_row) \<Rightarrow> key_table \<Rightarrow> nat \<times> key_table" where
  "update_rows P f t = (length (filter P t), map (\<lambda>r. if P r then f r else r) t)"

definition pg_update_key_status ::
  "key_env \<Rightarrow> string \<Rightarrow> key_status \<Rightarrow> datetime \<Rightarrow> key_table \<Rightarrow> (error + unit) \<times> key_table" where
  "pg_update_key_status env kid new_status timestamp t =
     (case ke_fault env StUpdate of
        Some e \<Rightarrow> (Inl (Internal (''Failed to update signing key status: '' @ e)), t)
      | None \<Rightarrow>
          (let (rows_affected, t') = (case new_status of
                 Active \<Rightarrow>
                   update_rows (\<lambda>r. kw_kid r = kid)
                     (\<lambda>r. r\<lparr>kw_status := ''active'', kw_activated_at := Some (ke_timestamptz env timestamp)\<rparr>) t
               | Draining \<Rightarrow>
                   update_rows (\<lambda>r. kw_kid r = kid \<and> kw_status r = ''active'')
                     (\<lambda>r. r\<lparr>kw_status := ''draining'', kw_draining_since := Some (ke_timestamptz env timestamp)\<rparr>) t
               | Retired \<Rightarrow>
                   update_rows (\<lambda>r. kw_kid r = kid \<and> kw_status r = ''draining'')
                     (\<lambda>r. r\<lparr>kw_status := ''retired'', kw_retired_at := Some (ke_timestamptz env timestamp)\<rparr>) t)
           in if rows_affected = 0
              then (Inl (Conflict (''Key '' @ [CHR 0x27] @ kid @ [CHR 0x27] @ '' was not updated to ''
                     @ [CHR 0x27] @ key_status_display new_status @ [CHR 0x27]
                     @ '' -- it may not exist or is not in the expected state'')), t')
              else (Inr (), t')))"

definition pg_retire_expired_draining_keys ::
  "key_env \<Rightarrow> datetime \<Rightarrow> key_table \<Rightarrow> (error + nat) \<times> key_table" where
  "pg_retire_expired_draining_keys env now t =
     (case ke_fault env StRetire of
        Some e \<Rightarrow> (Inl (Internal (''Failed to retire expired draining keys: '' @ e)), t)
      | None \<Rightarrow>
          (case update_rows (\<lambda>r. kw_status r = ''draining''
                  \<and> (case kw_drain_expires_at r of Some x \<Rightarrow> x \<le> ke_timestamptz env now | None \<Rightarrow> False))
                  (\<lambda>r. r\<lparr>kw_status := ''retired'', kw_retired_at := Some (ke_timestamptz env now)\<rparr>) t of
             (n, t') \<Rightarrow> (Inr n, t')))"

record 's key_ops =
  ko_store_key :: "signing_key_metadata \<Rightarrow> 's \<Rightarrow> (error + unit) \<times> 's"
  ko_get_active_key :: "string \<Rightarrow> 's \<Rightarrow> error + signing_key_metadata option"
  ko_get_key_by_kid :: "string \<Rightarrow> 's \<Rightarrow> error + signing_key_metadata option"
  ko_get_verification_keys :: "string \<Rightarrow> 's \<Rightarrow> error + signing_key_metadata list"
  ko_update_key_status :: "string \<Rightarrow> key_status \<Rightarrow> datetime \<Rightarrow> 's \<Rightarrow> (error + unit) \<times> 's"
  ko_retire_expired :: "datetime \<Rightarrow> 's \<Rightarrow> (error + nat) \<times> 's"

definition pg_key_ops :: "key_env \<Rightarrow> key_table key_ops" where
  "pg_key_ops env =
     \<lparr>ko_store_key = pg_store_key env, ko_get_active_key = pg_get_active_key env,
      ko_get_key_by_kid = pg_get_key_by_kid env,
      ko_get_verification_keys = pg_get_verification_keys env,
      ko_update_key_status = pg_update_key_status env,
      ko_retire_expired = pg_retire_expired_draining_keys env\<rparr>"

subsection \<open>The manager\<close>

record cached_key =
  ck_kid :: string
  ck_format :: key_format
  ck_key_material :: "u8 list"
  ck_status :: key_status

text \<open>The verification keys are an association list for the hash map of the source.\<close>

record key_cache =
  kc_active_key :: "cached_key option"
  kc_verification_keys :: "(string \<times> cached_key) list"
  kc_last_refresh :: instant

definition key_cache_empty :: "instant \<Rightarrow> key_cache" where
  "key_cache_empty instant_now =
     \<lparr>kc_active_key = None, kc_verification_keys = [], kc_last_refresh = instant_now\<rparr>"

record key_manager =
  km_service_name :: string
  km_config :: key_rotation_config
  km_cache :: key_cache

definition key_manager_new :: "instant \<Rightarrow> string \<Rightarrow> key_rotation_config \<Rightarrow> key_manager" where
  "key_manager_new instant_now service_name config =
     \<lparr>km_service_name = service_name, km_config = config, km_cache = key_cache_empty instant_now\<rparr>"

record crypto_env =
  cy_b64_encode :: "u8 list \<Rightarrow> string"
  cy_b64_decode :: "string \<Rightarrow> string + u8 list"
  cy_blake3_hex :: "u8 list \<Rightarrow> string"

definition decode_key_metadata :: "crypto_env \<Rightarrow> signing_key_metadata \<Rightarrow> error + cached_key" where
  "decode_key_metadata cy meta =
     (case cy_b64_decode cy (sk_key_material meta) of
        Inl e \<Rightarrow>
          Inl (Internal (''failed to decode base64 key material for kid '' @ [CHR 0x27] @ sk_kid meta
            @ [CHR 0x27] @ '': '' @ e))
      | Inr key_material \<Rightarrow>
          Inr \<lparr>ck_kid = sk_kid meta, ck_format = sk_format meta, ck_key_material = key_material,
               ck_status = sk_status meta\<rparr>)"

fun decode_all ::
  "crypto_env \<Rightarrow> signing_key_metadata list \<Rightarrow> (string \<times> cached_key) list \<Rightarrow>
     error + (string \<times> cached_key) list" where
  "decode_all cy [] verification_keys = Inr verification_keys"
| "decode_all cy (meta # metas) verification_keys =
     (case decode_key_metadata cy meta of
        Inl e \<Rightarrow> Inl e
      | Inr cached \<Rightarrow> decode_all cy metas (AList.update (ck_kid cached) cached verification_keys))"

fun decode_option :: "crypto_env \<Rightarrow> signing_key_metadata option \<Rightarrow> error + cached_key option" where
  "decode_option cy None = Inr None"
| "decode_option cy (Some meta) =
     (case decode_key_metadata cy meta of Inl e \<Rightarrow> Inl e | Inr c \<Rightarrow> Inr (Some c))"

definition refresh_cache ::
  "crypto_env \<Rightarrow> 's key_ops \<Rightarrow> instant \<Rightarrow> key_manager \<Rightarrow> 's \<Rightarrow> (error + unit) \<times> key_manager" where
  "refresh_cache cy ops instant_now km s =
     (case ko_get_active_key ops (km_service_name km) s of
        Inl e \<Rightarrow> (Inl e, km)
      | Inr active_meta \<Rightarrow>
     (case ko_get_verification_keys ops (km_service_name km) s of
        Inl e \<Rightarrow> (Inl e, km)
      | Inr verification_metas \<Rightarrow>
     (case decode_option cy active_meta of
        Inl e \<Rightarrow> (Inl e, km)
      | Inr active_cached \<Rightarrow>
     (case decode_all cy verification_metas [] of
        Inl e \<Rightarrow> (Inl e, km)
      | Inr verification_keys \<Rightarrow>
          (Inr (), km\<lparr>km_cache := \<lparr>kc_active_key = active_cached,
             kc_verification_keys = verification_keys, kc_last_refresh = instant_now\<rparr>\<rparr>)))))"

definition is_cache_stale :: "instant \<Rightarrow> key_manager \<Rightarrow> bool" where
  "is_cache_stale instant_now km \<longleftrightarrow>
     unat (kr_check_interval_secs (km_config km)) \<le> as_secs (instant_now - kc_last_refresh (km_cache km))"

definition refresh_if_stale ::
  "crypto_env \<Rightarrow> 's key_ops \<Rightarrow> instant \<Rightarrow> key_manager \<Rightarrow> 's \<Rightarrow> (error + unit) \<times> key_manager" where
  "refresh_if_stale cy ops instant_now km s =
     (if is_cache_stale instant_now km then refresh_cache cy ops instant_now km s else (Inr (), km))"

definition get_signing_key ::
  "crypto_env \<Rightarrow> 's key_ops \<Rightarrow> instant \<Rightarrow> key_manager \<Rightarrow> 's \<Rightarrow>
     (error + cached_key option) \<times> key_manager" where
  "get_signing_key cy ops instant_now km s =
     (case refresh_if_stale cy ops instant_now km s of
        (Inl e, km') \<Rightarrow> (Inl e, km')
      | (Inr _, km') \<Rightarrow> (Inr (kc_active_key (km_cache km')), km'))"

definition get_verification_key ::
  "crypto_env \<Rightarrow> 's key_ops \<Rightarrow> string \<Rightarrow> key_manager \<Rightarrow> 's \<Rightarrow>
     (error + cached_key option) \<times> key_manager" where
  "get_verification_key cy ops kid km s =
     (case map_of (kc_verification_keys (km_cache km)) kid of
        Some cached \<Rightarrow> (Inr (Some cached), km)
      | None \<Rightarrow>
          (case ko_get_key_by_kid ops kid s of
             Inl e \<Rightarrow> (Inl e, km)
           | Inr None \<Rightarrow> (Inr None, km)
           | Inr (Some m) \<Rightarrow>
               if sk_status m = Active \<or> sk_status m = Draining
               then (case decode_key_metadata cy m of
                       Inl e \<Rightarrow> (Inl e, km)
                     | Inr cached \<Rightarrow>
                         (Inr (Some cached), km\<lparr>km_cache := (km_cache km)\<lparr>kc_verification_keys :=
                            AList.update (ck_kid cached) cached (kc_verification_keys (km_cache km))\<rparr>\<rparr>))
               else (Inr None, km)))"

definition get_all_verification_keys ::
  "crypto_env \<Rightarrow> 's key_ops \<Rightarrow> instant \<Rightarrow> key_manager \<Rightarrow> 's \<Rightarrow>
     (error + cached_key list) \<times> key_manager" where
  "get_all_verification_keys cy ops instant_now km s =
     (case refresh_if_stale cy ops instant_now km s of
        (Inl e, km') \<Rightarrow> (Inl e, km')
      | (Inr _, km') \<Rightarrow> (Inr (map snd (kc_verification_keys (km_cache km'))), km'))"

text \<open>
  \<^verbatim>\<open>rotate\<close>. The expiry of the drain window is computed and logged only, as in the source.
  \<open>ops\<close> serve the first three storage calls, \<open>ops'\<close> the final refresh.
\<close>

definition new_signing_key ::
  "crypto_env \<Rightarrow> datetime \<Rightarrow> u8 list \<Rightarrow> string \<Rightarrow> string \<Rightarrow> signing_key_metadata" where
  "new_signing_key cy now key_bytes kid service_name =
     \<lparr>sk_kid = kid, sk_format = PasetoV4Local, sk_key_material = cy_b64_encode cy key_bytes,
      sk_status = Active, sk_created_at = now, sk_activated_at = Some now,
      sk_draining_since = None, sk_retired_at = None, sk_drain_expires_at = None,
      sk_service_name = service_name, sk_key_hash = cy_blake3_hex cy key_bytes\<rparr>"

definition rotate_key ::
  "crypto_env \<Rightarrow> 's key_ops \<Rightarrow> 's key_ops \<Rightarrow> datetime \<Rightarrow> instant \<Rightarrow> u8 list \<Rightarrow> string \<Rightarrow> key_manager \<Rightarrow> 's \<Rightarrow>
     (error + signing_key_metadata) \<times> key_manager \<times> 's" where
  "rotate_key cy ops ops' now instant_now key_bytes kid km s =
     (let new_key = new_signing_key cy now key_bytes kid (km_service_name km)
      in case ko_get_active_key ops (km_service_name km) s of
           Inl e \<Rightarrow> (Inl e, km, s)
         | Inr old_active \<Rightarrow>
             (case (case old_active of
                      Some old \<Rightarrow> ko_update_key_status ops (sk_kid old) Draining now s
                    | None \<Rightarrow> (Inr (), s)) of
                (Inl e, s') \<Rightarrow> (Inl e, km, s')
              | (Inr _, s') \<Rightarrow>
                  (case ko_store_key ops new_key s' of
                     (Inl e, s'') \<Rightarrow> (Inl e, km, s'')
                   | (Inr _, s'') \<Rightarrow>
                       (case refresh_cache cy ops' instant_now km s'' of
                          (Inl e, km') \<Rightarrow> (Inl e, km', s'')
                        | (Inr _, km') \<Rightarrow> (Inr new_key, km', s'')))))"

definition retire_expired ::
  "crypto_env \<Rightarrow> 's key_ops \<Rightarrow> datetime \<Rightarrow> instant \<Rightarrow> key_manager \<Rightarrow> 's \<Rightarrow>
     (error + nat) \<times> key_manager \<times> 's" where
  "retire_expired cy ops now instant_now km s =
     (case ko_retire_expired ops now s of
        (Inl e, s') \<Rightarrow> (Inl e, km, s')
      | (Inr retired_count, s') \<Rightarrow>
          if 0 < retired_count
          then (case refresh_cache cy ops instant_now km s' of
                  (Inl e, km') \<Rightarrow> (Inl e, km', s')
                | (Inr _, km') \<Rightarrow> (Inr retired_count, km', s'))
          else (Inr retired_count, km, s'))"

subsection \<open>The periodic check\<close>

type_synonym audit_note = "audit_event_kind \<times> audit_severity \<times> json"

definition key_age_exceeded :: "key_rotation_config \<Rightarrow> datetime \<Rightarrow> datetime \<Rightarrow> bool" where
  "key_age_exceeded config now activated_at \<longleftrightarrow>
     (let age_secs = num_seconds (now - activated_at)
      in 0 \<le> age_secs \<and> uint (kr_rotation_period_secs config) \<le> age_secs)"

text \<open>Step 2: whether to rotate, the manager after a possible refresh, and audit notes.\<close>

definition needs_rotation ::
  "crypto_env \<Rightarrow> 's key_ops \<Rightarrow> key_rotation_config \<Rightarrow> bool \<Rightarrow> datetime \<Rightarrow> instant \<Rightarrow> key_manager \<Rightarrow> 's \<Rightarrow>
     bool \<times> key_manager \<times> audit_note list" where
  "needs_rotation cy ops config force now instant_now km s =
     (if force then (True, km, [])
      else case get_signing_key cy ops instant_now km s of
        (Inr (Some active_key), km') \<Rightarrow>
          (case ko_get_key_by_kid ops (ck_kid active_key) s of
             Inr (Some meta) \<Rightarrow>
               (case sk_activated_at meta of
                  Some activated_at \<Rightarrow> (key_age_exceeded config now activated_at, km', [])
                | None \<Rightarrow> (True, km', []))
           | Inr None \<Rightarrow> (True, km', [])
           | Inl e \<Rightarrow> (False, km', []))
      | (Inr None, km') \<Rightarrow> (True, km', [])
      | (Inl e, km') \<Rightarrow>
          (False, km', [(AuthKeyRotationFailed, Error,
             JObject [(''error'', JString (error_display e)), (''phase'', JString ''get_signing_key''),
               (''service'', JString (km_service_name km))])]))"

definition opt_json :: "string option \<Rightarrow> json" where
  "opt_json x = (case x of Some s \<Rightarrow> JString s | None \<Rightarrow> JNull)"

definition perform_rotation_check ::
  "crypto_env \<Rightarrow> 's key_ops \<Rightarrow> key_rotation_config \<Rightarrow> bool \<Rightarrow> datetime \<Rightarrow> instant \<Rightarrow> u8 list \<Rightarrow> string \<Rightarrow>
     key_manager \<Rightarrow> 's \<Rightarrow> key_manager \<times> 's \<times> audit_note list" where
  "perform_rotation_check cy ops config force now instant_now key_bytes kid km s =
     (let service = (''service'', JString (km_service_name km));
          (retired, km, s) = retire_expired cy ops now instant_now km s;
          notes = (case retired of
             Inr n \<Rightarrow> if 0 < n then [(AuthKeyRetired, Informational,
                 JObject [(''retired_count'', JNumber (show_nat n)), service])] else []
           | Inl e \<Rightarrow> []);
          (needed, km, notes2) = needs_rotation cy ops config force now instant_now km s
      in if needed
         then (let (r, km) = get_signing_key cy ops instant_now km s;
                   old_kid = (case r of Inr (Some k) \<Rightarrow> Some (ck_kid k) | _ \<Rightarrow> None);
                   (rotated, km, s) = rotate_key cy ops ops now instant_now key_bytes kid km s;
                   note = (case rotated of
                      Inr new_key \<Rightarrow> (AuthKeyRotated, Notice,
                        JObject [(''new_kid'', JString (sk_kid new_key)), (''old_kid'', opt_json old_kid),
                          (''forced'', JBool force), service])
                    | Inl e \<Rightarrow> (AuthKeyRotationFailed, Error,
                        JObject [(''error'', JString (error_display e)), (''phase'', JString ''rotate''),
                          service]))
               in (km, s, notes @ notes2 @ [note]))
         else (km, s, notes @ notes2))"

subsection \<open>The storage interface\<close>

definition is_active :: "string \<Rightarrow> signing_key_metadata \<Rightarrow> bool" where
  "is_active svc k \<longleftrightarrow> sk_service_name k = svc \<and> sk_status k = Active"

definition can_verify :: "string \<Rightarrow> signing_key_metadata \<Rightarrow> bool" where
  "can_verify svc k \<longleftrightarrow> sk_service_name k = svc \<and> sk_status k \<noteq> Retired"

definition drain_key :: "string \<Rightarrow> datetime \<Rightarrow> signing_key_metadata \<Rightarrow> signing_key_metadata" where
  "drain_key kid now k =
     (if sk_kid k = kid \<and> sk_status k = Active
      then k\<lparr>sk_status := Draining, sk_draining_since := Some now\<rparr> else k)"

definition drain_expired :: "datetime \<Rightarrow> signing_key_metadata \<Rightarrow> bool" where
  "drain_expired now k \<longleftrightarrow>
     sk_status k = Draining \<and> (case sk_drain_expires_at k of Some x \<Rightarrow> x \<le> now | None \<Rightarrow> False)"

text \<open>What a table whose columns keep \<open>ts t\<close> of a time \<open>t\<close> gives back for a key.\<close>

definition key_column :: "(datetime \<Rightarrow> datetime) \<Rightarrow> signing_key_metadata \<Rightarrow> signing_key_metadata" where
  "key_column ts k = k\<lparr>sk_created_at := ts (sk_created_at k),
     sk_activated_at := map_option ts (sk_activated_at k),
     sk_draining_since := map_option ts (sk_draining_since k),
     sk_retired_at := map_option ts (sk_retired_at k),
     sk_drain_expires_at := map_option ts (sk_drain_expires_at k)\<rparr>"

lemma key_column_fields [simp]:
  "sk_kid (key_column ts k) = sk_kid k" "sk_status (key_column ts k) = sk_status k"
  "sk_service_name (key_column ts k) = sk_service_name k"
  "sk_key_material (key_column ts k) = sk_key_material k" "sk_format (key_column ts k) = sk_format k"
  by (simp_all add: key_column_def)

lemma decode_key_column [simp]: "decode_key_metadata cy (key_column ts k) = decode_key_metadata cy k"
  by (simp add: decode_key_metadata_def split: sum.split)

locale key_store =
  fixes ops :: "'s key_ops" and keys :: "'s \<Rightarrow> signing_key_metadata list" and invar :: "'s \<Rightarrow> bool"
    and column :: "datetime \<Rightarrow> datetime"
  assumes store_key: "\<lbrakk>invar s; ko_store_key ops k s = (Inr u, s')\<rbrakk> \<Longrightarrow>
      invar s' \<and> keys s' = keys s @ [key_column column k]"
    and active_key: "\<lbrakk>invar s; ko_get_active_key ops svc s = Inr r\<rbrakk> \<Longrightarrow>
      (case r of None \<Rightarrow> \<forall>k \<in> set (keys s). \<not> is_active svc k
       | Some k \<Rightarrow> k \<in> set (keys s) \<and> is_active svc k)"
    and by_kid: "\<lbrakk>invar s; ko_get_key_by_kid ops kid s = Inr r\<rbrakk> \<Longrightarrow>
      r = find (\<lambda>k. sk_kid k = kid) (keys s)"
    and verification: "\<lbrakk>invar s; ko_get_verification_keys ops svc s = Inr ks\<rbrakk> \<Longrightarrow>
      set ks = {k \<in> set (keys s). can_verify svc k}"
    and drain: "\<lbrakk>invar s; ko_update_key_status ops kid Draining now s = (Inr u, s')\<rbrakk> \<Longrightarrow>
      invar s' \<and> keys s' = map (drain_key kid (column now)) (keys s)"
    and retire: "\<lbrakk>invar s; ko_retire_expired ops now s = (Inr n, s')\<rbrakk> \<Longrightarrow>
      invar s' \<and> n = length (filter (drain_expired (column now)) (keys s)) \<and>
      keys s' = map (\<lambda>k. if drain_expired (column now) k
        then k\<lparr>sk_status := Retired, sk_retired_at := Some (column now)\<rparr> else k) (keys s)"
    and distinct_kids: "invar s \<Longrightarrow> distinct (map sk_kid (keys s))"
begin

lemma drain_old:
  assumes "invar s" and "length (filter (is_active svc) (keys s)) \<le> 1"
    and "old \<in> set (keys s)" and "is_active svc old"
  shows "map (drain_key (sk_kid old) now) (keys s) =
    map (\<lambda>k. if is_active svc k then k\<lparr>sk_status := Draining, sk_draining_since := Some now\<rparr> else k)
      (keys s)"
proof (rule map_cong [OF refl])
  fix k assume k: "k \<in> set (keys s)"
  have "k = old" if "is_active svc k"
  proof -
    have "old \<in> set (filter (is_active svc) (keys s))" "k \<in> set (filter (is_active svc) (keys s))"
      using assms(3,4) k that by auto
    with assms(2) show ?thesis by (cases "filter (is_active svc) (keys s)") auto
  qed
  moreover have "k = old" if "sk_kid k = sk_kid old"
    using distinct_kids [OF assms(1)] k assms(3) that by (auto simp: distinct_map dest: inj_onD)
  ultimately show "drain_key (sk_kid old) now k =
      (if is_active svc k then k\<lparr>sk_status := Draining, sk_draining_since := Some now\<rparr> else k)"
    using assms(4) by (auto simp: drain_key_def is_active_def)
qed

lemma rotate_keys:
  assumes "invar s" and "length (filter (is_active (km_service_name km)) (keys s)) \<le> 1"
    and "rotate_key cy ops ops' now inst bytes kid km s = (Inr new, km', s')"
  shows "invar s' \<and> new = new_signing_key cy now bytes kid (km_service_name km) \<and>
    keys s' = map (\<lambda>k. if is_active (km_service_name km) k then k\<lparr>sk_status := Draining, sk_draining_since := Some (column now)\<rparr>
      else k) (keys s) @ [key_column column new] \<and> refresh_cache cy ops' inst km s' = (Inr (), km')"
proof -
  let ?f = "\<lambda>k. if is_active (km_service_name km) k then k\<lparr>sk_status := Draining, sk_draining_since := Some (column now)\<rparr> else k"
  obtain old where old: "ko_get_active_key ops (km_service_name km) s = Inr old"
    using assms(3) by (auto simp: rotate_key_def Let_def split: sum.splits)
  obtain s1 where s1: "invar s1" "keys s1 = map ?f (keys s)"
    and rest: "(case ko_store_key ops (new_signing_key cy now bytes kid (km_service_name km)) s1 of
        (Inl e, s'') \<Rightarrow> (Inl e, km, s'')
      | (Inr _, s'') \<Rightarrow> (case refresh_cache cy ops' inst km s'' of
          (Inl e, km') \<Rightarrow> (Inl e, km', s'')
        | (Inr _, km') \<Rightarrow> (Inr (new_signing_key cy now bytes kid (km_service_name km)), km', s''))) = (Inr new, km', s')"
  proof (cases old)
    case None
    then have "map ?f (keys s) = keys s"
      using active_key [OF assms(1) old] by (auto intro: map_idI)
    with None old assms(1,3) that [of s] show ?thesis by (simp add: rotate_key_def Let_def)
  next
    case (Some k)
    with old assms(3) obtain u s1 where u: "ko_update_key_status ops (sk_kid k) Draining now s = (Inr u, s1)"
      by (auto simp: rotate_key_def Let_def split: sum.splits prod.splits)
    have "keys s1 = map ?f (keys s)" "invar s1"
      using drain [OF assms(1) u] active_key [OF assms(1) old] Some drain_old [OF assms(1,2), of k "column now"]
      by auto
    with Some old u assms(3) that [of s1] show ?thesis by (simp add: rotate_key_def Let_def)
  qed
  with store_key [OF s1(1)] show ?thesis
    by (auto split: sum.splits prod.splits)
qed

lemma refresh_active:
  assumes "invar s" and "refresh_cache cy ops inst km s = (Inr (), km')"
    and "filter (is_active (km_service_name km)) (keys s) = [k]"
  shows "\<exists>c. decode_key_metadata cy k = Inr c \<and> kc_active_key (km_cache km') = Some c
    \<and> kc_last_refresh (km_cache km') = inst \<and> km_service_name km' = km_service_name km
    \<and> km_config km' = km_config km"
proof -
  obtain r where r: "ko_get_active_key ops (km_service_name km) s = Inr r"
    using assms(2) by (auto simp: refresh_cache_def split: sum.splits)
  have k: "k \<in> set (filter (is_active (km_service_name km)) (keys s))" by (simp add: assms(3))
  have "r = Some k"
  proof (cases r)
    case None
    with active_key [OF assms(1) r] k show ?thesis by auto
  next
    case (Some k2)
    with active_key [OF assms(1) r] have "k2 \<in> set (filter (is_active (km_service_name km)) (keys s))"
      by simp
    with assms(3) Some show ?thesis by simp
  qed
  with r assms(2) show ?thesis
    by (auto simp: refresh_cache_def split: sum.splits)
qed

end

subsection \<open>The PostgreSQL table implements the interface\<close>

lemma key_format_roundtrip [simp]: "key_format_from_str (key_format_display f) = Inr f"
  by (cases f) (simp_all add: key_format_from_str_def)

lemma key_status_roundtrip [simp]: "key_status_from_str (key_status_display st) = Inr st"
  by (cases st) (simp_all add: key_status_from_str_def)

lemma key_status_from_str_Inr: "key_status_from_str s = Inr st \<Longrightarrow> s = key_status_display st"
  by (auto simp: key_status_from_str_def split: if_splits)

lemma key_of_row_of_key [simp]: "key_of_row (row_of_key ts k) = Inr (key_column ts k)"
  by (simp add: key_of_row_def row_of_key_def key_column_def)

definition row_key :: "signing_key_row \<Rightarrow> signing_key_metadata" where
  "row_key r = projr (key_of_row r)"

definition pg_keys :: "key_table \<Rightarrow> signing_key_metadata list" where
  "pg_keys t = map row_key t"

definition key_table_inv :: "key_table \<Rightarrow> bool" where
  "key_table_inv t \<longleftrightarrow> distinct (map kw_kid t) \<and> list_all (\<lambda>r. is_ok (key_of_row r)) t"

lemma row_key_fields:
  assumes "is_ok (key_of_row r)"
  shows "key_of_row r = Inr (row_key r)" and "sk_kid (row_key r) = kw_kid r"
    and "sk_service_name (row_key r) = kw_service_name r"
    and "kw_status r = key_status_display (sk_status (row_key r))"
    and "sk_drain_expires_at (row_key r) = kw_drain_expires_at r"
  using assms by (auto simp: row_key_def key_of_row_def dest: key_status_from_str_Inr split: sum.splits)

lemma status_text [simp]:
  "key_status_display st = ''active'' \<longleftrightarrow> st = Active"
  "key_status_display st = ''draining'' \<longleftrightarrow> st = Draining"
  "key_status_display st = ''retired'' \<longleftrightarrow> st = Retired"
  by (cases st; simp)+

lemma row_is_active:
  "is_ok (key_of_row r) \<Longrightarrow> is_active svc (row_key r) \<longleftrightarrow> kw_service_name r = svc \<and> kw_status r = ''active''"
  by (auto simp: is_active_def row_key_fields)

lemma row_key_drain:
  "is_ok (key_of_row r) \<Longrightarrow>
     key_of_row (r\<lparr>kw_status := ''draining'', kw_draining_since := Some now\<rparr>) =
       Inr ((row_key r)\<lparr>sk_status := Draining, sk_draining_since := Some now\<rparr>)"
  by (auto simp: row_key_def key_of_row_def key_status_from_str_def split: sum.splits if_splits)

lemma row_key_retire:
  "is_ok (key_of_row r) \<Longrightarrow>
     key_of_row (r\<lparr>kw_status := ''retired'', kw_retired_at := Some now\<rparr>) =
       Inr ((row_key r)\<lparr>sk_status := Retired, sk_retired_at := Some now\<rparr>)"
  by (auto simp: row_key_def key_of_row_def key_status_from_str_def split: sum.splits if_splits)

lemma row_key_update:
  assumes "is_ok (key_of_row r)"
  shows "row_key (r\<lparr>kw_status := ''draining'', kw_draining_since := Some now\<rparr>) =
      (row_key r)\<lparr>sk_status := Draining, sk_draining_since := Some now\<rparr>"
    and "row_key (r\<lparr>kw_status := ''retired'', kw_retired_at := Some now\<rparr>) =
      (row_key r)\<lparr>sk_status := Retired, sk_retired_at := Some now\<rparr>"
  using row_key_drain [OF assms, of now] row_key_retire [OF assms, of now]
  by (simp_all add: row_key_def [of "r\<lparr>kw_status := s, kw_draining_since := d\<rparr>" for s d]
      row_key_def [of "r\<lparr>kw_status := s, kw_retired_at := d\<rparr>" for s d])

lemma collect_rows_ok:
  "list_all (\<lambda>r. is_ok (key_of_row r)) rows \<Longrightarrow> collect_rows rows = Inr (map row_key rows)"
  by (induction rows) (auto simp: row_key_fields(1))

lemma key_table_inv_map:
  assumes "key_table_inv t" and "\<And>r. kw_kid (f r) = kw_kid r"
    and "\<And>r. is_ok (key_of_row r) \<Longrightarrow> is_ok (key_of_row (f r))"
  shows "key_table_inv (map f t)"
proof -
  have "map kw_kid (map f t) = map kw_kid t" by (simp add: assms(2))
  with assms(1,3) show ?thesis unfolding key_table_inv_def by (auto simp: list_all_iff simp del: map_map)
qed

lemma pg_keys_drain:
  assumes "key_table_inv t"
  shows "key_table_inv (map (\<lambda>r. if kw_kid r = kid \<and> kw_status r = ''active''
      then r\<lparr>kw_status := ''draining'', kw_draining_since := Some now\<rparr> else r) t)" (is "key_table_inv ?t")
    and "pg_keys (map (\<lambda>r. if kw_kid r = kid \<and> kw_status r = ''active''
      then r\<lparr>kw_status := ''draining'', kw_draining_since := Some now\<rparr> else r) t) =
      map (drain_key kid now) (pg_keys t)"
proof -
  show "key_table_inv ?t" by (rule key_table_inv_map [OF assms]) (simp_all add: row_key_drain)
  show "pg_keys ?t = map (drain_key kid now) (pg_keys t)"
    using assms
    by (auto simp: pg_keys_def key_table_inv_def list_all_iff drain_key_def row_key_fields(2,4)
        row_key_update)
qed

lemma pg_keys_retire:
  fixes now :: datetime
  assumes "key_table_inv t"
  defines "P \<equiv> \<lambda>r. kw_status r = ''draining'' \<and> (case kw_drain_expires_at r of Some x \<Rightarrow> x \<le> now | None \<Rightarrow> False)"
  shows "key_table_inv (map (\<lambda>r. if P r then r\<lparr>kw_status := ''retired'', kw_retired_at := Some now\<rparr> else r) t)"
    and "length (filter P t) = length (filter (drain_expired now) (pg_keys t))"
    and "pg_keys (map (\<lambda>r. if P r then r\<lparr>kw_status := ''retired'', kw_retired_at := Some now\<rparr> else r) t) =
      map (\<lambda>k. if drain_expired now k then k\<lparr>sk_status := Retired, sk_retired_at := Some now\<rparr> else k)
        (pg_keys t)"
proof -
  have P: "drain_expired now (row_key r) = P r" if "r \<in> set t" for r
    using assms(1) that by (auto simp: key_table_inv_def list_all_iff drain_expired_def P_def row_key_fields)
  let ?t = "map (\<lambda>r. if P r then r\<lparr>kw_status := ''retired'', kw_retired_at := Some now\<rparr> else r) t"
  show "key_table_inv ?t" by (rule key_table_inv_map [OF assms(1)]) (simp_all add: row_key_retire)
  show "length (filter P t) = length (filter (drain_expired now) (pg_keys t))"
    using P by (simp add: pg_keys_def filter_map comp_def cong: filter_cong)
  show "pg_keys ?t = map (\<lambda>k. if drain_expired now k
      then k\<lparr>sk_status := Retired, sk_retired_at := Some now\<rparr> else k) (pg_keys t)"
    using assms(1) P
    by (auto simp: pg_keys_def key_table_inv_def list_all_iff row_key_update)
qed

text \<open>The server picks a row that the query selects.\<close>

definition picks_row :: "key_env \<Rightarrow> bool" where
  "picks_row env \<longleftrightarrow> (\<forall>rows. rows \<noteq> [] \<longrightarrow> ke_pick env rows \<in> set rows)"

lemma pg_active_key:
  assumes "picks_row env" and "key_table_inv t" and "pg_get_active_key env svc t = Inr r"
  shows "case r of None \<Rightarrow> \<forall>k \<in> set (pg_keys t). \<not> is_active svc k
    | Some k \<Rightarrow> k \<in> set (pg_keys t) \<and> is_active svc k"
proof -
  have ok: "is_ok (key_of_row r)" if "r \<in> set t" for r
    using assms(2) that by (auto simp: key_table_inv_def list_all_iff)
  show ?thesis
  proof (cases "active_rows svc t = []")
    case True
    then have "\<forall>k \<in> set (pg_keys t). \<not> is_active svc k"
      by (auto simp: active_rows_def filter_empty_conv pg_keys_def row_is_active ok)
    with True assms(3) show ?thesis
      by (auto simp: pg_get_active_key_def split: option.splits)
  next
    case False
    let ?r = "ke_pick env (active_rows svc t)"
    have r: "?r \<in> set (active_rows svc t)" using assms(1) False by (auto simp: picks_row_def)
    then have "?r \<in> set t" and act: "kw_service_name ?r = svc" "kw_status ?r = ''active''"
      by (auto simp: active_rows_def)
    with assms(3) False row_key_fields(1) [OF ok] row_is_active [OF ok] show ?thesis
      by (auto simp: pg_get_active_key_def pg_keys_def Let_def split: option.splits)
  qed
qed

lemma pg_key_store: "picks_row env \<Longrightarrow> key_store (pg_key_ops env) pg_keys key_table_inv (ke_timestamptz env)"
proof (unfold_locales, goal_cases)
  case (1 s k u s')
  then show ?case
    by (auto simp: pg_key_ops_def pg_store_key_def key_table_inv_def pg_keys_def row_key_def
        row_of_key_def [THEN arg_cong [of _ _ kw_kid]] split: option.splits if_splits)
next
  case (2 s svc r)
  then show ?case using pg_active_key [of env s svc r] by (simp add: pg_key_ops_def)
next
  case (3 s kid r)
  have "transpose_row (find (\<lambda>r. kw_kid r = kid) t) = Inr (find (\<lambda>k. sk_kid k = kid) (pg_keys t))"
    if "list_all (\<lambda>r. is_ok (key_of_row r)) t" for t
    using that by (induction t) (auto simp: pg_keys_def row_key_fields)
  with 3 show ?case
    by (auto simp: pg_key_ops_def pg_get_key_by_kid_def key_table_inv_def split: option.splits)
next
  case (4 s svc ks)
  have verifying: "st \<noteq> Retired \<longleftrightarrow> st = Active \<or> st = Draining" for st by (cases st) simp_all
  let ?rows = "sort_key (\<lambda>r. - kw_created_at r) (filter (\<lambda>r. kw_service_name r = svc
    \<and> (kw_status r = ''active'' \<or> kw_status r = ''draining'')) s)"
  have ok: "is_ok (key_of_row r)" if "r \<in> set s" for r
    using 4 that by (auto simp: key_table_inv_def list_all_iff)
  then have "collect_rows ?rows = Inr (map row_key ?rows)"
    by (intro collect_rows_ok) (auto simp: list_all_iff)
  with 4 have "set ks = row_key ` {r \<in> set s. kw_service_name r = svc
      \<and> (kw_status r = ''active'' \<or> kw_status r = ''draining'')}"
    by (auto simp: pg_key_ops_def pg_get_verification_keys_def split: option.splits)
  also have "\<dots> = {k \<in> set (pg_keys s). can_verify svc k}"
    using ok by (auto simp: pg_keys_def can_verify_def row_key_fields verifying)
  finally show ?case .
next
  case (5 s kid now u s')
  then show ?case
    using pg_keys_drain [of s kid "ke_timestamptz env now"]
    by (auto simp: pg_key_ops_def pg_update_key_status_def update_rows_def Let_def
        split: option.splits if_splits)
next
  case (6 s now n s')
  then show ?case
    using pg_keys_retire [of s "ke_timestamptz env now"]
    by (auto simp: pg_key_ops_def pg_retire_expired_draining_keys_def update_rows_def split: option.splits)
next
  case (7 s)
  then have "map sk_kid (pg_keys s) = map kw_kid s"
    by (auto simp: pg_keys_def key_table_inv_def list_all_iff row_key_fields)
  with 7 show ?case by (simp add: key_table_inv_def)
qed

interpretation pg_hd: key_store "pg_key_ops (env\<lparr>ke_pick := hd\<rparr>)" pg_keys key_table_inv "ke_timestamptz env" for env
  using pg_key_store [of "env\<lparr>ke_pick := hd\<rparr>"] by (simp add: picks_row_def)

subsection \<open>Properties\<close>

text \<open>
  Key formats and statuses are read back from their text, and nothing else parses: a string
  parses exactly when it is the text of the parsed value.
\<close>

theorem key_text_roundtrip:
  "(key_format_from_str s = Inr f \<longleftrightarrow> s = key_format_display f) \<and>
   (key_status_from_str s = Inr st \<longleftrightarrow> s = key_status_display st)"
  by (cases f; cases st) (auto simp: key_format_from_str_def key_status_from_str_def)

lemma new_key_active [simp]: "is_active svc (key_column ts (new_signing_key cy now bytes kid svc))"
  by (simp add: is_active_def new_signing_key_def)

text \<open>A successful rotation over any storage; the cache is refreshed through operations of the same storage.\<close>

lemma rotation_over_store:
  assumes ks: "key_store st_ops keys invar ts" and ks': "key_store st_ops' keys invar ts'" and "invar t"
    and "length (filter (is_active (km_service_name km)) (keys t)) \<le> 1"
    and "rotate_key cy st_ops st_ops' now inst bytes kid km t = (Inr new, km', t')"
    and "as_secs (inst' - inst) < unat (kr_check_interval_secs (km_config km))"
  shows "filter (is_active (km_service_name km)) (keys t') = [key_column ts new] \<and>
    (\<exists>c. decode_key_metadata cy new = Inr c \<and>
       get_signing_key cy ops inst' km' s = (Inr (Some c), km')) \<and>
    (\<forall>k \<in> set (keys t). can_verify (km_service_name km) k \<longrightarrow>
       (\<exists>k' \<in> set (keys t'). sk_kid k' = sk_kid k \<and> sk_key_material k' = sk_key_material k
          \<and> can_verify (km_service_name km) k')) \<and>
    filter (\<lambda>k. sk_service_name k \<noteq> km_service_name km) (keys t') =
      filter (\<lambda>k. sk_service_name k \<noteq> km_service_name km) (keys t)"
proof -
  let ?svc = "km_service_name km"
  let ?f = "\<lambda>k. if is_active ?svc k then k\<lparr>sk_status := Draining, sk_draining_since := Some (ts now)\<rparr> else k"
  from key_store.rotate_keys [OF ks assms(3,4,5)]
  have inv: "invar t'" and new: "new = new_signing_key cy now bytes kid ?svc"
    and keys: "keys t' = map ?f (keys t) @ [key_column ts new]"
    and ref: "refresh_cache cy st_ops' inst km t' = (Inr (), km')" by blast+
  have none: "filter (is_active ?svc) (map ?f (keys t)) = []"
    by (auto simp: filter_empty_conv is_active_def)
  with keys new have one: "filter (is_active ?svc) (keys t') = [key_column ts new]" by simp
  from key_store.refresh_active [OF ks' inv ref one] obtain c where
    c: "decode_key_metadata cy new = Inr c" "kc_active_key (km_cache km') = Some c"
      "kc_last_refresh (km_cache km') = inst" "km_config km' = km_config km" by (simp, blast)
  have "get_signing_key cy ops inst' km' s = (Inr (Some c), km')"
    using c assms(6) by (simp add: get_signing_key_def refresh_if_stale_def is_cache_stale_def)
  moreover have "\<exists>k' \<in> set (keys t'). sk_kid k' = sk_kid k \<and> sk_key_material k' = sk_key_material k
      \<and> can_verify ?svc k'" if "k \<in> set (keys t)" "can_verify ?svc k" for k
    using that by (intro bexI [of _ "?f k"]) (auto simp: keys can_verify_def)
  moreover have "filter (\<lambda>k. sk_service_name k \<noteq> ?svc) (map ?f ks) =
      filter (\<lambda>k. sk_service_name k \<noteq> ?svc) ks" for ks
    by (induction ks) (auto simp: is_active_def)
  ultimately show ?thesis
    using one c(1) by (auto simp: keys new new_signing_key_def)
qed

text \<open>
  C10: a rotation leaves exactly one signing key and invalidates no token. On a table in which the
  service has at most one active key, after a successful \<^verbatim>\<open>rotate\<close> the new key is its only active
  one, up to what the columns keep of its times, and the one the cache signs with until it is stale; every key that could verify before still
  can, with the same material; and the keys of other services are as they were.
\<close>

theorem rotation_single_active:
  assumes "picks_row env" and "picks_row env'" and "key_table_inv t"
    and "length (filter (is_active (km_service_name km)) (pg_keys t)) \<le> 1"
    and "rotate_key cy (pg_key_ops env) (pg_key_ops env') now inst bytes kid km t = (Inr new, km', t')"
    and "as_secs (inst' - inst) < unat (kr_check_interval_secs (km_config km))"
  shows "filter (is_active (km_service_name km)) (pg_keys t') = [key_column (ke_timestamptz env) new] \<and>
    (\<exists>c. decode_key_metadata cy new = Inr c \<and>
       get_signing_key cy ops inst' km' s = (Inr (Some c), km')) \<and>
    (\<forall>k \<in> set (pg_keys t). can_verify (km_service_name km) k \<longrightarrow>
       (\<exists>k' \<in> set (pg_keys t'). sk_kid k' = sk_kid k \<and> sk_key_material k' = sk_key_material k
          \<and> can_verify (km_service_name km) k')) \<and>
    filter (\<lambda>k. sk_service_name k \<noteq> km_service_name km) (pg_keys t') =
      filter (\<lambda>k. sk_service_name k \<noteq> km_service_name km) (pg_keys t)"
  by (rule rotation_over_store [OF pg_key_store [OF assms(1)] pg_key_store [OF assms(2)] assms(3-6)])

definition sample_crypto :: crypto_env where
  "sample_crypto = \<lparr>cy_b64_encode = (\<lambda>bs. concat (map (\<lambda>b. show_nat (unat b)) bs)),
     cy_b64_decode = (\<lambda>s. Inr (as_bytes s)), cy_blake3_hex = (\<lambda>bs. show_nat (length bs))\<rparr>"

definition sample_key_env :: key_env where
  "sample_key_env = \<lparr>ke_fault = (\<lambda>_. None), ke_violation = ''duplicate key'', ke_pick = hd,
     ke_timestamptz = (\<lambda>t. t)\<rparr>"

definition sample_manager :: key_manager where
  "sample_manager = key_manager_new 0 ''svc'' default_key_rotation_config"

theorem rotation_single_active_witness:
  "\<exists>new km' t'. rotate_key sample_crypto (pg_key_ops sample_key_env) (pg_key_ops sample_key_env) 5 7 [1, 2] ''k1''
     sample_manager [] = (Inr new, km', t') \<and> filter (is_active ''svc'') (pg_keys t') = [key_column (ke_timestamptz sample_key_env) new]"
proof -
  have env: "picks_row sample_key_env" by (simp add: picks_row_def sample_key_env_def)
  have svc: "km_service_name sample_manager = ''svc''" "km_config sample_manager = default_key_rotation_config"
    by (simp_all add: sample_manager_def key_manager_new_def)
  obtain new km' t' where r: "rotate_key sample_crypto (pg_key_ops sample_key_env) (pg_key_ops sample_key_env)
      5 7 [1, 2] ''k1'' sample_manager [] = (Inr new, km', t')"
    by (simp add: rotate_key_def refresh_cache_def pg_key_ops_def pg_get_active_key_def pg_store_key_def
        pg_get_verification_keys_def active_rows_def sample_key_env_def row_of_key_def new_signing_key_def
        key_of_row_def key_format_from_str_def key_status_from_str_def decode_key_metadata_def
        sample_crypto_def svc Let_def)
  from rotation_single_active [OF env env _ _ r, where inst' = 8 and ops = "pg_key_ops sample_key_env"
      and s = "[]"] r show ?thesis
    by (auto simp: svc key_table_inv_def pg_keys_def default_key_rotation_config_def as_secs_def
        nanos_per_sec_def)
qed

text \<open>No key carries an expiry of its drain window, and none is retired.\<close>

definition never_expiring :: "key_table \<Rightarrow> bool" where
  "never_expiring t \<longleftrightarrow> (\<forall>r \<in> set t. kw_drain_expires_at r = None \<and> kw_status r \<noteq> ''retired'')"

lemma retire_never_expiring:
  assumes "never_expiring t"
  shows "snd (snd (retire_expired cy (pg_key_ops env) now inst km t)) = t"
proof -
  have "\<not> (kw_status r = ''draining'' \<and> (case kw_drain_expires_at r of Some x \<Rightarrow> x \<le> c | None \<Rightarrow> False))"
    if "r \<in> set t" for r c using assms that by (auto simp: never_expiring_def)
  then have "update_rows (\<lambda>r. kw_status r = ''draining'' \<and> (case kw_drain_expires_at r of Some x \<Rightarrow> x \<le> c | None \<Rightarrow> False)) f t
      = (0, t)" for f c
    by (auto simp: update_rows_def filter_empty_conv intro!: map_idI)
  then show ?thesis
    by (simp add: retire_expired_def pg_key_ops_def pg_retire_expired_draining_keys_def split: option.splits)
qed

lemma rotate_never_expiring:
  assumes "never_expiring t"
  shows "never_expiring (snd (snd (rotate_key cy (pg_key_ops env) ops' now inst bytes kid km t)))"
proof -
  have upd: "never_expiring (snd (pg_update_key_status env k Draining now t))" for k
    using assms by (auto simp: pg_update_key_status_def update_rows_def never_expiring_def Let_def
        split: option.splits)
  have store: "never_expiring u \<Longrightarrow>
      never_expiring (snd (pg_store_key env (new_signing_key cy now bytes kid svc) u))" for u svc
    by (auto simp: pg_store_key_def row_of_key_def new_signing_key_def never_expiring_def split: option.splits)
  obtain old where "pg_get_active_key env (km_service_name km) t = old" by simp
  define step where "step = (case old of
      Inr (Some o') \<Rightarrow> pg_update_key_status env (sk_kid o') Draining now t | _ \<Rightarrow> (Inr (), t))"
  have "never_expiring (snd step)"
    using upd assms by (auto simp: step_def split: sum.splits option.splits)
  then have "never_expiring (snd (pg_store_key env (new_signing_key cy now bytes kid (km_service_name km)) (snd step)))"
    by (rule store)
  with \<open>never_expiring (snd step)\<close> \<open>pg_get_active_key env (km_service_name km) t = old\<close> assms
  show ?thesis
    by (auto simp: rotate_key_def pg_key_ops_def step_def Let_def split: sum.splits option.splits prod.splits)
qed

text \<open>A sequence of periodic or forced checks, each with its own server, clocks and random values.\<close>

fun rotation_checks ::
  "crypto_env \<Rightarrow> key_rotation_config \<Rightarrow> (key_env \<times> bool \<times> datetime \<times> instant \<times> u8 list \<times> string) list \<Rightarrow>
     key_manager \<Rightarrow> key_table \<Rightarrow> key_table" where
  "rotation_checks cy config [] km t = t"
| "rotation_checks cy config ((env, force, now, inst, bytes, kid) # checks) km t =
     (case perform_rotation_check cy (pg_key_ops env) config force now inst bytes kid km t of
        (km', t', notes) \<Rightarrow> rotation_checks cy config checks km' t')"



text \<open>
  A manager that has just been created does not read its storage. Until the check interval
  has passed it reports that there is no signing key, whatever the table holds, and a check in
  that time decides to rotate, whatever the age of the active key.
\<close>

theorem fresh_manager_ignores_storage:
  assumes "as_secs (inst - created) < unat (kr_check_interval_secs config)"
  shows "get_signing_key cy ops inst (key_manager_new created svc config) s =
      (Inr None, key_manager_new created svc config) \<and>
    needs_rotation cy ops config force now inst (key_manager_new created svc config) s =
      (True, key_manager_new created svc config, [])"
  using assms
  by (simp add: get_signing_key_def needs_rotation_def refresh_if_stale_def is_cache_stale_def
      key_manager_new_def key_cache_empty_def)

theorem fresh_manager_ignores_storage_witness:
  "needs_rotation sample_crypto (pg_key_ops sample_key_env) default_key_rotation_config False 100 9
     (key_manager_new 8 ''svc'' default_key_rotation_config)
     [row_of_key (\<lambda>t. t) (new_signing_key sample_crypto 100 [1] ''k1'' ''svc'')] =
   (True, key_manager_new 8 ''svc'' default_key_rotation_config, [])"
  using fresh_manager_ignores_storage [of 9 8 default_key_rotation_config sample_crypto
      "pg_key_ops sample_key_env" "''svc''"
      "[row_of_key (\<lambda>t. t) (new_signing_key sample_crypto 100 [1] ''k1'' ''svc'')]" False 100]
  by (simp add: default_key_rotation_config_def as_secs_def nanos_per_sec_def)

end
