(* ===== verification/Key_Rotation_Turso.thy ===== *)
theory Key_Rotation_Turso
  imports Key_Rotation Turso_Tables
begin

text \<open>
  The Turso backend of signing-key storage (\<^verbatim>\<open>src/acton-service/src/auth/key_rotation/storage/turso.rs\<close>). Read through
  its texts the table is the PostgreSQL table of keys, so the manager rotates over it as it does over PostgreSQL.

  \<open>te_fault\<close> is the error of a statement of a call, connecting first, \<open>te_unread\<close> of reading a row, and \<open>te_scan\<close> the order in
  which rows are scanned. Every column has a value of its declared type.
\<close>

subsection \<open>Rows\<close>

record turso_key_row =
  tk_kid :: string
  tk_format :: string
  tk_key_material :: string
  tk_status :: string
  tk_created_at :: string
  tk_activated_at :: "string option"
  tk_draining_since :: "string option"
  tk_retired_at :: "string option"
  tk_drain_expires_at :: "string option"
  tk_service_name :: string
  tk_key_hash :: string

type_synonym turso_keys = "turso_key_row list"

record turso_key_env =
  te_texts :: turso_texts
  te_fault :: faults
  te_unread :: faults
  te_scan :: "turso_keys \<Rightarrow> turso_keys"

definition turso_keys_initialize :: "turso_key_env \<Rightarrow> turso_keys \<Rightarrow> (error + unit) \<times> turso_keys" where
  "turso_keys_initialize env t =
     (case run_statements (te_fault env) 0 [''Failed to connect for key rotation: '', ''Failed to create signing_keys table: '',
         ''Failed to create signing_keys status index: '', ''Failed to create signing_keys service index: ''] of
        Some e \<Rightarrow> (Inl e, t)
      | None \<Rightarrow> (Inr (), t))"

text \<open>A NULL and an empty text are no time.\<close>

definition parse_optional_timestamp :: "turso_texts \<Rightarrow> nat \<Rightarrow> string option \<Rightarrow> error + datetime option" where
  "parse_optional_timestamp x index v =
     (case v of
        Some s \<Rightarrow>
          if s \<noteq> [] then
            (case tx_parse_rfc3339 x s of
               Inl e \<Rightarrow> Inl (Internal (''Failed to parse timestamp at column '' @ show_nat index @ '': '' @ e))
             | Inr dt \<Rightarrow> Inr (Some dt))
          else Inr None
      | None \<Rightarrow> Inr None)"

definition row_to_metadata :: "turso_texts \<Rightarrow> turso_key_row \<Rightarrow> error + signing_key_metadata" where
  "row_to_metadata x row =
     (case key_format_from_str (tk_format row) of
        Inl e \<Rightarrow> Inl (Internal (''Invalid key format in database: '' @ e))
      | Inr format \<Rightarrow>
     (case key_status_from_str (tk_status row) of
        Inl e \<Rightarrow> Inl (Internal (''Invalid key status in database: '' @ e))
      | Inr status \<Rightarrow>
     (case tx_parse_rfc3339 x (tk_created_at row) of
        Inl e \<Rightarrow> Inl (Internal (''Failed to parse created_at: '' @ e))
      | Inr created_at \<Rightarrow>
     (case parse_optional_timestamp x 5 (tk_activated_at row) of
        Inl e \<Rightarrow> Inl e
      | Inr activated_at \<Rightarrow>
     (case parse_optional_timestamp x 6 (tk_draining_since row) of
        Inl e \<Rightarrow> Inl e
      | Inr draining_since \<Rightarrow>
     (case parse_optional_timestamp x 7 (tk_retired_at row) of
        Inl e \<Rightarrow> Inl e
      | Inr retired_at \<Rightarrow>
     (case parse_optional_timestamp x 8 (tk_drain_expires_at row) of
        Inl e \<Rightarrow> Inl e
      | Inr drain_expires_at \<Rightarrow>
          Inr \<lparr>sk_kid = tk_kid row, sk_format = format, sk_key_material = tk_key_material row, sk_status = status,
               sk_created_at = created_at, sk_activated_at = activated_at, sk_draining_since = draining_since,
               sk_retired_at = retired_at, sk_drain_expires_at = drain_expires_at,
               sk_service_name = tk_service_name row, sk_key_hash = tk_key_hash row\<rparr>)))))))"

definition turso_row_of_key :: "turso_texts \<Rightarrow> signing_key_metadata \<Rightarrow> turso_key_row" where
  "turso_row_of_key x key =
     \<lparr>tk_kid = sk_kid key, tk_format = key_format_display (sk_format key), tk_key_material = sk_key_material key,
      tk_status = key_status_display (sk_status key), tk_created_at = tx_rfc3339 x (sk_created_at key),
      tk_activated_at = map_option (tx_rfc3339 x) (sk_activated_at key),
      tk_draining_since = map_option (tx_rfc3339 x) (sk_draining_since key),
      tk_retired_at = map_option (tx_rfc3339 x) (sk_retired_at key),
      tk_drain_expires_at = map_option (tx_rfc3339 x) (sk_drain_expires_at key),
      tk_service_name = sk_service_name key, tk_key_hash = sk_key_hash key\<rparr>"

subsection \<open>Operations\<close>

definition turso_key_statement :: "turso_key_env \<Rightarrow> string \<Rightarrow> error option" where
  "turso_key_statement env what = run_statements (te_fault env) 0 [''Failed to connect for key rotation: '', what]"

definition turso_store_key :: "turso_key_env \<Rightarrow> signing_key_metadata \<Rightarrow> turso_keys \<Rightarrow> (error + unit) \<times> turso_keys" where
  "turso_store_key env key t =
     (case turso_key_statement env ''Failed to store signing key: '' of
        Some e \<Rightarrow> (Inl e, t)
      | None \<Rightarrow>
          if sk_kid key \<in> set (map tk_kid t)
          then (Inl (Internal (''Failed to store signing key: '' @ tx_violation (te_texts env))), t)
          else (Inr (), t @ [turso_row_of_key (te_texts env) key]))"

definition turso_first_key ::
  "turso_key_env \<Rightarrow> string \<Rightarrow> (turso_key_row \<Rightarrow> bool) \<Rightarrow> turso_keys \<Rightarrow> error + signing_key_metadata option" where
  "turso_first_key env what P t =
     (case turso_key_statement env what of
        Some e \<Rightarrow> Inl e
      | None \<Rightarrow>
     (case te_unread env 0 of
        Some e \<Rightarrow> Inl (Internal (''Failed to read signing key row: '' @ e))
      | None \<Rightarrow>
     (case find P (te_scan env t) of
        None \<Rightarrow> Inr None
      | Some row \<Rightarrow> (case row_to_metadata (te_texts env) row of Inl e \<Rightarrow> Inl e | Inr k \<Rightarrow> Inr (Some k)))))"

definition turso_get_active_key :: "turso_key_env \<Rightarrow> string \<Rightarrow> turso_keys \<Rightarrow> error + signing_key_metadata option" where
  "turso_get_active_key env service_name =
     turso_first_key env ''Failed to get active signing key: '' (\<lambda>r. tk_service_name r = service_name \<and> tk_status r = ''active'')"

definition turso_get_key_by_kid :: "turso_key_env \<Rightarrow> string \<Rightarrow> turso_keys \<Rightarrow> error + signing_key_metadata option" where
  "turso_get_key_by_kid env kid = turso_first_key env ''Failed to get signing key by kid: '' (\<lambda>r. tk_kid r = kid)"

fun collect_metadata :: "turso_texts \<Rightarrow> turso_keys \<Rightarrow> error + signing_key_metadata list" where
  "collect_metadata x [] = Inr []"
| "collect_metadata x (row # rows) =
     (case row_to_metadata x row of
        Inl e \<Rightarrow> Inl e
      | Inr k \<Rightarrow> (case collect_metadata x rows of Inl e \<Rightarrow> Inl e | Inr ks \<Rightarrow> Inr (k # ks)))"

definition turso_get_verification_keys :: "turso_key_env \<Rightarrow> string \<Rightarrow> turso_keys \<Rightarrow> error + signing_key_metadata list" where
  "turso_get_verification_keys env service_name t =
     (case turso_key_statement env ''Failed to get verification keys: '' of
        Some e \<Rightarrow> Inl e
      | None \<Rightarrow>
          collect_metadata (te_texts env) (rows_until (te_unread env) 0 (sort_down tk_created_at
            (filter (\<lambda>r. tk_service_name r = service_name \<and> (tk_status r = ''active'' \<or> tk_status r = ''draining'')) (te_scan env t)))))"

definition update_turso_rows ::
  "(turso_key_row \<Rightarrow> bool) \<Rightarrow> (turso_key_row \<Rightarrow> turso_key_row) \<Rightarrow> turso_keys \<Rightarrow> nat \<times> turso_keys" where
  "update_turso_rows P f t = (length (filter P t), map (\<lambda>r. if P r then f r else r) t)"

definition turso_update_key_status ::
  "turso_key_env \<Rightarrow> string \<Rightarrow> key_status \<Rightarrow> datetime \<Rightarrow> turso_keys \<Rightarrow> (error + unit) \<times> turso_keys" where
  "turso_update_key_status env kid new_status timestamp t =
     (case turso_key_statement env ''Failed to update signing key status: '' of
        Some e \<Rightarrow> (Inl e, t)
      | None \<Rightarrow>
          (let ts = tx_rfc3339 (te_texts env) timestamp;
               (affected, t') = (case new_status of
                 Active \<Rightarrow>
                   update_turso_rows (\<lambda>r. tk_kid r = kid) (\<lambda>r. r\<lparr>tk_status := ''active'', tk_activated_at := Some ts\<rparr>) t
               | Draining \<Rightarrow>
                   update_turso_rows (\<lambda>r. tk_kid r = kid \<and> tk_status r = ''active'')
                     (\<lambda>r. r\<lparr>tk_status := ''draining'', tk_draining_since := Some ts\<rparr>) t
               | Retired \<Rightarrow>
                   update_turso_rows (\<lambda>r. tk_kid r = kid \<and> tk_status r = ''draining'')
                     (\<lambda>r. r\<lparr>tk_status := ''retired'', tk_retired_at := Some ts\<rparr>) t)
           in if affected = 0
              then (Inl (Conflict (''Key '' @ [CHR 0x27] @ kid @ [CHR 0x27] @ '' was not updated to ''
                     @ [CHR 0x27] @ key_status_display new_status @ [CHR 0x27]
                     @ '' -- it may not exist or is not in the expected state'')), t')
              else (Inr (), t')))"

definition turso_retire_expired_draining_keys :: "turso_key_env \<Rightarrow> datetime \<Rightarrow> turso_keys \<Rightarrow> (error + nat) \<times> turso_keys" where
  "turso_retire_expired_draining_keys env now t =
     (case turso_key_statement env ''Failed to retire expired draining keys: '' of
        Some e \<Rightarrow> (Inl e, t)
      | None \<Rightarrow>
          (let now_str = tx_rfc3339 (te_texts env) now;
               (affected, t') = update_turso_rows
                 (\<lambda>r. tk_status r = ''draining'' \<and> (case tk_drain_expires_at r of Some e \<Rightarrow> e \<le> now_str | None \<Rightarrow> False))
                 (\<lambda>r. r\<lparr>tk_status := ''retired'', tk_retired_at := Some now_str\<rparr>) t
           in (Inr affected, t')))"

definition turso_rotation_ops :: "turso_key_env \<Rightarrow> turso_keys key_ops" where
  "turso_rotation_ops env =
     \<lparr>ko_store_key = turso_store_key env, ko_get_active_key = turso_get_active_key env,
      ko_get_key_by_kid = turso_get_key_by_kid env, ko_get_verification_keys = turso_get_verification_keys env,
      ko_update_key_status = turso_update_key_status env, ko_retire_expired = turso_retire_expired_draining_keys env\<rparr>"

subsection \<open>The Turso table implements the interface\<close>

text \<open>Beside the laws of times, no time has the empty text, which the backend reads as NULL.\<close>

locale turso_time_laws = turso_laws +
  assumes time_nonempty: "tx_rfc3339 x t \<noteq> []"

definition turso_key_list :: "turso_texts \<Rightarrow> turso_keys \<Rightarrow> signing_key_metadata list" where
  "turso_key_list x t = map (\<lambda>r. projr (row_to_metadata x r)) t"

text \<open>Each row is the row of the key that is read from it.\<close>

definition turso_keys_inv :: "turso_texts \<Rightarrow> turso_keys \<Rightarrow> bool" where
  "turso_keys_inv x t \<longleftrightarrow> distinct (map tk_kid t) \<and> map (turso_row_of_key x) (turso_key_list x t) = t"

definition turso_keys_ok :: "turso_key_env \<Rightarrow> bool" where
  "turso_keys_ok env \<longleftrightarrow> (\<forall>t. mset (te_scan env t) = mset t) \<and> te_unread env = (\<lambda>_. None)"

lemma key_column_id [simp]: "key_column (\<lambda>t. t) k = k"
  by (simp add: key_column_def option.map_ident)

lemma turso_row_fields [simp]:
  "tk_kid (turso_row_of_key x k) = sk_kid k" "tk_service_name (turso_row_of_key x k) = sk_service_name k"
  "tk_status (turso_row_of_key x k) = key_status_display (sk_status k)"
  "tk_drain_expires_at (turso_row_of_key x k) = map_option (tx_rfc3339 x) (sk_drain_expires_at k)"
  by (simp_all add: turso_row_of_key_def)

lemma find_distinct:
  assumes "mset ys = mset xs" and "distinct (map g xs)"
  shows "find (\<lambda>r. g r = i) ys = find (\<lambda>r. g r = i) xs"
proof (cases "find (\<lambda>r. g r = i) ys")
  case None
  with mset_eq_setD [OF assms(1)] show ?thesis by (metis find_None_iff)
next
  case (Some a)
  then have a: "a \<in> set xs" "g a = i" using mset_eq_setD [OF assms(1)] by (auto simp: find_Some_iff)
  then obtain b where b: "find (\<lambda>r. g r = i) xs = Some b" by (cases "find (\<lambda>r. g r = i) xs") (auto simp: find_None_iff)
  then have "b \<in> set xs" "g b = i" by (auto simp: find_Some_iff)
  with a assms(2) b Some show ?thesis by (auto simp: distinct_map dest: inj_onD)
qed

context turso_time_laws
begin

lemma optional_time [simp]: "parse_optional_timestamp x n (map_option (tx_rfc3339 x) v) = Inr v"
  by (cases v) (simp_all add: parse_optional_timestamp_def time_nonempty time_read)

lemma key_read [simp]: "row_to_metadata x (turso_row_of_key x k) = Inr k"
  by (simp add: row_to_metadata_def turso_row_of_key_def time_read)

lemma list_of_rows [simp]: "turso_key_list x (map (turso_row_of_key x) ks) = ks"
  by (simp add: turso_key_list_def comp_def)

lemma row_inj: "inj (turso_row_of_key x)"
  by (metis injI key_read sum.inject(2))

lemma keys_inv_iff: "turso_keys_inv x (map (turso_row_of_key x) ks) \<longleftrightarrow> distinct (map sk_kid ks)"
  by (simp add: turso_keys_inv_def comp_def)

lemma keys_inv_rows:
  assumes "turso_keys_inv x t"
  obtains ks where "t = map (turso_row_of_key x) ks" and "distinct (map sk_kid ks)"
  using assms keys_inv_iff by (metis turso_keys_inv_def)

lemma collect_rows_of_keys: "collect_metadata x (map (turso_row_of_key x) ks) = Inr ks"
  by (induction ks) simp_all

lemma update_turso_rows_keys:
  assumes "\<And>k. P (turso_row_of_key x k) = Q k" and "\<And>k. Q k \<Longrightarrow> f (turso_row_of_key x k) = turso_row_of_key x (g k)"
  shows "update_turso_rows P f (map (turso_row_of_key x) ks) =
    (length (filter Q ks), map (turso_row_of_key x) (map (\<lambda>k. if Q k then g k else k) ks))"
  using assms by (simp add: update_turso_rows_def filter_map comp_def)

lemma first_key:
  assumes "turso_keys_ok env" and "te_texts env = x" and "turso_first_key env what P (map (turso_row_of_key x) ks) = Inr r"
  shows "find P (te_scan env (map (turso_row_of_key x) ks)) = map_option (turso_row_of_key x) r"
proof -
  have "set (te_scan env (map (turso_row_of_key x) ks)) = turso_row_of_key x ` set ks"
    using assms(1) by (metis turso_keys_ok_def mset_eq_setD set_map)
  then have row: "\<exists>k \<in> set ks. row = turso_row_of_key x k" if "find P (te_scan env (map (turso_row_of_key x) ks)) = Some row" for row
    using that by (auto simp: find_Some_iff dest!: nth_mem)
  have none: "te_unread env 0 = None" using assms(1) by (simp add: turso_keys_ok_def)
  show ?thesis
  proof (cases "find P (te_scan env (map (turso_row_of_key x) ks))")
    case None
    with assms(2,3) none show ?thesis by (auto simp: turso_first_key_def split: option.splits)
  next
    case (Some rw)
    with row obtain k where "rw = turso_row_of_key x k" by blast
    with Some assms(2,3) none show ?thesis by (auto simp: turso_first_key_def split: option.splits)
  qed
qed

lemma key_drained: "sk_status k = Active \<Longrightarrow> (turso_row_of_key x k)\<lparr>tk_status := ''draining'', tk_draining_since := Some (tx_rfc3339 x now)\<rparr> =
    turso_row_of_key x (k\<lparr>sk_status := Draining, sk_draining_since := Some now\<rparr>)"
  by (simp add: turso_row_of_key_def)

lemma key_retired: "(turso_row_of_key x k)\<lparr>tk_status := ''retired'', tk_retired_at := Some (tx_rfc3339 x now)\<rparr> =
    turso_row_of_key x (k\<lparr>sk_status := Retired, sk_retired_at := Some now\<rparr>)"
  by (simp add: turso_row_of_key_def)

lemma drain_keys:
  assumes "te_texts env = x" and "turso_update_key_status env kid Draining now (map (turso_row_of_key x) ks) = (Inr u, t')"
  shows "t' = map (turso_row_of_key x) (map (drain_key kid now) ks)"
proof -
  let ?Q = "\<lambda>k. sk_kid k = kid \<and> sk_status k = Active"
  have "update_turso_rows (\<lambda>r. tk_kid r = kid \<and> tk_status r = ''active'')
      (\<lambda>r. r\<lparr>tk_status := ''draining'', tk_draining_since := Some (tx_rfc3339 x now)\<rparr>) (map (turso_row_of_key x) ks) =
    (length (filter ?Q ks), map (turso_row_of_key x) (map (drain_key kid now) ks))"
    unfolding drain_key_def by (rule update_turso_rows_keys) (auto simp: key_drained)
  then show ?thesis
    using assms by (auto simp: turso_update_key_status_def Let_def split: option.splits if_splits)
qed

lemma retire_keys:
  assumes "te_texts env = x" and "turso_retire_expired_draining_keys env now (map (turso_row_of_key x) ks) = (Inr n, t')"
  shows "n = length (filter (drain_expired now) ks)"
    and "t' = map (turso_row_of_key x) (map (\<lambda>k. if drain_expired now k then k\<lparr>sk_status := Retired, sk_retired_at := Some now\<rparr> else k) ks)"
proof -
  have "update_turso_rows
      (\<lambda>r. tk_status r = ''draining'' \<and> (case tk_drain_expires_at r of Some e \<Rightarrow> e \<le> tx_rfc3339 x now | None \<Rightarrow> False))
      (\<lambda>r. r\<lparr>tk_status := ''retired'', tk_retired_at := Some (tx_rfc3339 x now)\<rparr>) (map (turso_row_of_key x) ks) =
    (length (filter (drain_expired now) ks),
     map (turso_row_of_key x) (map (\<lambda>k. if drain_expired now k then k\<lparr>sk_status := Retired, sk_retired_at := Some now\<rparr> else k) ks))"
    by (rule update_turso_rows_keys)
      (auto simp: key_retired drain_expired_def time_order not_less [symmetric] split: option.splits)
  then show "n = length (filter (drain_expired now) ks)"
    and "t' = map (turso_row_of_key x) (map (\<lambda>k. if drain_expired now k then k\<lparr>sk_status := Retired, sk_retired_at := Some now\<rparr> else k) ks)"
    using assms by (auto simp: turso_retire_expired_draining_keys_def Let_def split: option.splits)
qed

lemma verification_keys:
  assumes "turso_keys_ok env" and "te_texts env = x"
    and "turso_get_verification_keys env svc (map (turso_row_of_key x) ks) = Inr vs"
  shows "set vs = {k \<in> set ks. can_verify svc k}"
proof -
  let ?P = "\<lambda>r. tk_service_name r = svc \<and> (tk_status r = ''active'' \<or> tk_status r = ''draining'')"
  let ?rows = "sort_down tk_created_at (filter ?P (te_scan env (map (turso_row_of_key x) ks)))"
  have "set (te_scan env (map (turso_row_of_key x) ks)) = turso_row_of_key x ` set ks"
    using assms(1) by (metis turso_keys_ok_def mset_eq_setD set_map)
  then have rows: "set ?rows = {r \<in> turso_row_of_key x ` set ks. ?P r}" by auto
  have "\<exists>qs. ?rows = map (turso_row_of_key x) qs" unfolding ex_map_conv rows by blast
  then obtain qs where qs: "?rows = map (turso_row_of_key x) qs" by blast
  then have "vs = qs" using assms
    by (auto simp: turso_get_verification_keys_def turso_keys_ok_def rows_until_all collect_rows_of_keys split: option.splits)
  moreover have img: "turso_row_of_key x ` set qs = {r \<in> turso_row_of_key x ` set ks. ?P r}" using rows unfolding qs by simp
  have "k \<in> set qs \<longleftrightarrow> turso_row_of_key x k \<in> turso_row_of_key x ` set qs" for k by (simp add: inj_image_mem_iff [OF row_inj])
  then have "k \<in> set qs \<longleftrightarrow> k \<in> set ks \<and> ?P (turso_row_of_key x k)" for k
    unfolding img by (simp add: inj_image_mem_iff [OF row_inj])
  moreover have "?P (turso_row_of_key x k) \<longleftrightarrow> can_verify svc k" for k
    by (cases "sk_status k") (simp_all add: can_verify_def)
  ultimately show ?thesis by blast
qed

lemma turso_key_store:
  assumes ok: "turso_keys_ok env" and x: "te_texts env = x"
  shows "key_store (turso_rotation_ops env) (turso_key_list x) (turso_keys_inv x) (\<lambda>t. t)"
proof (unfold_locales, goal_cases)
  case (1 s k u s')
  from 1(1) obtain ks where s: "s = map (turso_row_of_key x) ks" "distinct (map sk_kid ks)" by (rule keys_inv_rows)
  with 1(2) x have "s' = map (turso_row_of_key x) (ks @ [k])" "sk_kid k \<notin> set (map sk_kid ks)"
    by (auto simp: turso_rotation_ops_def turso_store_key_def image_image split: option.splits if_splits)
  with s show ?case by (simp only: keys_inv_iff list_of_rows) simp
next
  case (2 s svc r)
  from 2(1) obtain ks where s: "s = map (turso_row_of_key x) ks" by (rule keys_inv_rows)
  let ?P = "\<lambda>r. tk_service_name r = svc \<and> tk_status r = ''active''"
  have act: "?P (turso_row_of_key x k) \<longleftrightarrow> is_active svc k" for k
    by (cases "sk_status k") (simp_all add: is_active_def)
  have set: "set (te_scan env s) = turso_row_of_key x ` set ks" using ok s by (metis turso_keys_ok_def mset_eq_setD set_map)
  have "turso_first_key env ''Failed to get active signing key: '' ?P s = Inr r"
    using 2(2) by (simp add: turso_rotation_ops_def turso_get_active_key_def)
  then have found: "find ?P (te_scan env s) = map_option (turso_row_of_key x) r" using first_key [OF ok x] s by simp
  show ?case
  proof (cases r)
    case None
    with found have "\<forall>r \<in> turso_row_of_key x ` set ks. \<not> ?P r" unfolding set [symmetric] by (auto simp: find_None_iff)
    then have "\<forall>k \<in> set ks. \<not> is_active svc k" unfolding act [symmetric] by blast
    with None s show ?thesis by simp
  next
    case (Some k)
    with found have "find ?P (te_scan env s) = Some (turso_row_of_key x k)" by simp
    then have "turso_row_of_key x k \<in> set (te_scan env s) \<and> ?P (turso_row_of_key x k)"
      unfolding find_Some_iff by (metis nth_mem)
    then have "turso_row_of_key x k \<in> turso_row_of_key x ` set ks" "is_active svc k" unfolding set act by blast+
    with Some s show ?thesis by (simp add: inj_image_mem_iff [OF row_inj])
  qed
next
  case (3 s kid r)
  from 3(1) obtain ks where s: "s = map (turso_row_of_key x) ks" "distinct (map sk_kid ks)" by (rule keys_inv_rows)
  have "find (\<lambda>r. tk_kid r = kid) (te_scan env s) = map_option (turso_row_of_key x) r"
    using 3(2) first_key [OF ok x] s by (simp add: turso_rotation_ops_def turso_get_key_by_kid_def)
  moreover have "find (\<lambda>r. tk_kid r = kid) (te_scan env s) = find (\<lambda>r. tk_kid r = kid) s"
    using ok s by (intro find_distinct) (simp_all add: turso_keys_ok_def comp_def)
  moreover have "find (\<lambda>r. tk_kid r = kid) s = map_option (turso_row_of_key x) (find (\<lambda>k. sk_kid k = kid) ks)"
    unfolding s(1) by (rule find_view) simp
  ultimately show ?case using s row_inj by (simp add: inj_eq option.inj_map)
next
  case (4 s svc ks)
  then show ?case using verification_keys [OF ok x] by (auto simp: turso_rotation_ops_def elim!: keys_inv_rows)
next
  case (5 s kid now u s')
  from 5(1) obtain ks where s: "s = map (turso_row_of_key x) ks" "distinct (map sk_kid ks)" by (rule keys_inv_rows)
  with 5(2) have "s' = map (turso_row_of_key x) (map (drain_key kid now) ks)"
    using drain_keys [OF x] by (simp add: turso_rotation_ops_def)
  moreover have "map sk_kid (map (drain_key kid now) ks) = map sk_kid ks" by (simp add: drain_key_def)
  ultimately show ?case using s by (simp only: keys_inv_iff list_of_rows)
next
  case (6 s now n s')
  let ?f = "\<lambda>k. if drain_expired now k then k\<lparr>sk_status := Retired, sk_retired_at := Some now\<rparr> else k"
  from 6(1) obtain ks where s: "s = map (turso_row_of_key x) ks" "distinct (map sk_kid ks)" by (rule keys_inv_rows)
  with 6(2) have "n = length (filter (drain_expired now) ks)" "s' = map (turso_row_of_key x) (map ?f ks)"
    using retire_keys [OF x] by (simp_all add: turso_rotation_ops_def)
  moreover have "map sk_kid (map ?f ks) = map sk_kid ks" by simp
  ultimately show ?case using s by (simp only: keys_inv_iff list_of_rows)
next
  case (7 s)
  then show ?case by (auto elim!: keys_inv_rows)
qed

end

subsection \<open>Properties\<close>

text \<open>
  A rotation over Turso leaves exactly one signing key and invalidates no token, as over PostgreSQL, where the row of each
  query can be read.
\<close>

theorem turso_rotation_single_active:
  assumes "turso_time_laws (te_texts env)" and "turso_keys_ok env" and "turso_keys_inv (te_texts env) t"
    and "length (filter (is_active (km_service_name km)) (turso_key_list (te_texts env) t)) \<le> 1"
    and "rotate_key cy (turso_rotation_ops env) (turso_rotation_ops env) now inst bytes kid km t = (Inr new, km', t')"
    and "as_secs (inst' - inst) < unat (kr_check_interval_secs (km_config km))"
  shows "filter (is_active (km_service_name km)) (turso_key_list (te_texts env) t') = [new] \<and>
    (\<exists>c. decode_key_metadata cy new = Inr c \<and> get_signing_key cy ops inst' km' s = (Inr (Some c), km')) \<and>
    (\<forall>k \<in> set (turso_key_list (te_texts env) t). can_verify (km_service_name km) k \<longrightarrow>
       (\<exists>k' \<in> set (turso_key_list (te_texts env) t'). sk_kid k' = sk_kid k \<and> sk_key_material k' = sk_key_material k
          \<and> can_verify (km_service_name km) k'))"
proof -
  note store = turso_time_laws.turso_key_store [OF assms(1,2) refl]
  from rotation_over_store [OF store store assms(3-6), of ops s] show ?thesis by simp
qed

text \<open>
  A database that stops answering after the first row leaves the verification keys at one, without an error: the keys that
  are draining are dropped from the cache at that refresh.
\<close>

theorem turso_verification_truncated:
  assumes "te_unread env = (\<lambda>i. if i = 1 then Some e else None)" and "turso_get_verification_keys env svc t = Inr ks"
  shows "length ks \<le> 1"
proof -
  have "length (rows_until (te_unread env) 0 rows) \<le> 1" for rows :: turso_keys
    unfolding assms(1) by (cases rows; cases "tl rows") auto
  moreover have "length ks = length rows" if "collect_metadata x rows = Inr ks" for x ks rows
    using that by (induction rows arbitrary: ks) (auto split: sum.splits)
  ultimately show ?thesis using assms(2) by (fastforce simp: turso_get_verification_keys_def split: option.splits)
qed

interpretation sample_keys_turso: turso_time_laws sample_texts
  by unfold_locales (simp add: sample_texts_def unary_def)

definition sample_turso_keys :: turso_key_env where
  "sample_turso_keys = \<lparr>te_texts = sample_texts, te_fault = (\<lambda>_. None), te_unread = (\<lambda>_. None), te_scan = rev\<rparr>"

theorem turso_rotation_single_active_witness:
  "\<exists>new km' t'. rotate_key sample_crypto (turso_rotation_ops sample_turso_keys) (turso_rotation_ops sample_turso_keys) 5 7 [1, 2] ''k1''
     sample_manager [] = (Inr new, km', t') \<and> filter (is_active ''svc'') (turso_key_list sample_texts t') = [new]"
proof -
  have ok: "turso_keys_ok sample_turso_keys" by (simp add: turso_keys_ok_def sample_turso_keys_def)
  have x: "te_texts sample_turso_keys = sample_texts" by (simp add: sample_turso_keys_def)
  have svc: "km_service_name sample_manager = ''svc''" "km_config sample_manager = default_key_rotation_config"
    by (simp_all add: sample_manager_def key_manager_new_def)
  have scan: "sort_down k [r] = [r]" for k :: "turso_key_row \<Rightarrow> string" and r by (simp add: sort_down_def)
  obtain new km' t' where r: "rotate_key sample_crypto (turso_rotation_ops sample_turso_keys) (turso_rotation_ops sample_turso_keys)
      5 7 [1, 2] ''k1'' sample_manager [] = (Inr new, km', t')"
    by (simp add: rotate_key_def refresh_cache_def turso_rotation_ops_def turso_get_active_key_def turso_store_key_def
        turso_first_key_def turso_key_statement_def turso_get_verification_keys_def sample_turso_keys_def new_signing_key_def
        decode_key_metadata_def sample_crypto_def svc scan sample_keys_turso.key_read Let_def)
  have laws: "turso_time_laws (te_texts sample_turso_keys)" unfolding x by (rule sample_keys_turso.turso_time_laws_axioms)
  have "filter (is_active ''svc'') (turso_key_list sample_texts t') = [new]"
    using turso_rotation_single_active [OF laws ok _ _ r, where inst' = 8 and ops = "turso_rotation_ops sample_turso_keys" and s = "[]"]
    by (simp add: svc x turso_keys_inv_def turso_key_list_def default_key_rotation_config_def as_secs_def nanos_per_sec_def)
  with r show ?thesis by blast
qed

end
