(* ===== verification/Request.thy ===== *)
theory Request
  imports Audit_Agent
begin

text \<open>
  What the middleware sees of a request: headers, extensions, token claims
  (\<^verbatim>\<open>src/acton-service/src/middleware/token.rs\<close>), the resolved request context
  (\<^verbatim>\<open>src/acton-service/src/middleware/request_context.rs\<close>) and the audit logger
  (\<^verbatim>\<open>src/acton-service/src/audit/logger.rs\<close>). The standard library's reader and printer of IP
  addresses are written out, because the code keys limits and audit records by them. The
  extensions of a request are a record with one optional entry per type the code stores there.
\<close>

subsection \<open>IP addresses\<close>

text \<open>The four octets of an IPv4 address, the eight groups of an IPv6 address.\<close>

datatype ip_addr = V4 "u8 list" | V6 "u16 list"

record socket_addr =
  sa_ip :: ip_addr
  sa_port :: u16

text \<open>\<^verbatim>\<open>char::to_digit\<close> for the radixes 10 and 16.\<close>

definition to_digit :: "nat \<Rightarrow> char \<Rightarrow> nat option" where
  "to_digit radix c =
     (let n = of_char c :: nat;
          d = (if 48 \<le> n \<and> n \<le> 57 then n - 48
               else if 65 \<le> n \<and> n \<le> 70 then n - 55
               else if 97 \<le> n \<and> n \<le> 102 then n - 87 else radix)
      in if d < radix then Some d else None)"

fun take_digits :: "nat \<Rightarrow> string \<Rightarrow> nat list \<times> string" where
  "take_digits radix [] = ([], [])"
| "take_digits radix (c # cs) =
     (case to_digit radix c of
        None \<Rightarrow> ([], c # cs)
      | Some d \<Rightarrow> (case take_digits radix cs of (ds, rest) \<Rightarrow> (d # ds, rest)))"

definition read_number :: "nat \<Rightarrow> nat \<Rightarrow> bool \<Rightarrow> nat \<Rightarrow> string \<Rightarrow> (nat \<times> string) option" where
  "read_number radix max_digits allow_zero_prefix bound s =
     (case take_digits radix s of
        (ds, rest) \<Rightarrow>
          let v = foldl (\<lambda>a d. a * radix + d) 0 ds
          in if ds = [] \<or> max_digits < length ds \<or> \<not> allow_zero_prefix \<and> hd ds = 0 \<and> 1 < length ds
                \<or> bound \<le> v
             then None else Some (v, rest))"

definition read_separator :: "char \<Rightarrow> bool \<Rightarrow> (string \<Rightarrow> 'a option) \<Rightarrow> string \<Rightarrow> 'a option" where
  "read_separator sep first inner s =
     (if first then inner s
      else case s of [] \<Rightarrow> None | c # cs \<Rightarrow> if c = sep then inner cs else None)"

fun read_octets :: "nat \<Rightarrow> bool \<Rightarrow> string \<Rightarrow> (u8 list \<times> string) option" where
  "read_octets 0 first s = Some ([], s)"
| "read_octets (Suc k) first s =
     (case read_separator CHR ''.'' first (read_number 10 3 False 256) s of
        None \<Rightarrow> None
      | Some (n, rest) \<Rightarrow>
          (case read_octets k False rest of
             None \<Rightarrow> None
           | Some (ns, rest') \<Rightarrow> Some (of_nat n # ns, rest')))"

definition read_ipv4_addr :: "string \<Rightarrow> (u8 list \<times> string) option" where
  "read_ipv4_addr s = read_octets 4 True s"

definition be_groups :: "u8 list \<Rightarrow> u16 list" where
  "be_groups os = [ucast (os ! 0) * 256 + ucast (os ! 1), ucast (os ! 2) * 256 + ucast (os ! 3)]"

text \<open>At most \<open>k\<close> groups, with whether an embedded IPv4 address ended them.\<close>

fun read_groups :: "nat \<Rightarrow> bool \<Rightarrow> string \<Rightarrow> u16 list \<times> bool \<times> string" where
  "read_groups 0 first s = ([], False, s)"
| "read_groups (Suc k) first s =
     (case (if 0 < k then read_separator CHR '':'' first read_ipv4_addr s else None) of
        Some (os, rest) \<Rightarrow> (be_groups os, True, rest)
      | None \<Rightarrow>
          (case read_separator CHR '':'' first (read_number 16 4 True 65536) s of
             None \<Rightarrow> ([], False, s)
           | Some (g, rest) \<Rightarrow>
               (case read_groups k False rest of
                  (gs, v4, rest') \<Rightarrow> (of_nat g # gs, v4, rest'))))"

definition read_ipv6_addr :: "string \<Rightarrow> (u16 list \<times> string) option" where
  "read_ipv6_addr s =
     (case read_groups 8 True s of
        (head, head_ipv4, rest) \<Rightarrow>
          if length head = 8 then Some (head, rest)
          else if head_ipv4 then None
          else (case strip_prefix rest ''::'' of
                  None \<Rightarrow> None
                | Some rest' \<Rightarrow>
                    (case read_groups (8 - (length head + 1)) True rest' of
                       (tail, _, rest'') \<Rightarrow>
                         Some (head @ replicate (8 - length head - length tail) 0 @ tail, rest''))))"

text \<open>\<^verbatim>\<open>str::parse::<IpAddr>\<close>: everything must be read.\<close>

definition parse_ip :: "string \<Rightarrow> ip_addr option" where
  "parse_ip s =
     (case read_ipv4_addr s of
        Some (os, rest) \<Rightarrow> if rest = [] then Some (V4 os) else None
      | None \<Rightarrow>
          (case read_ipv6_addr s of
             Some (gs, rest) \<Rightarrow> if rest = [] then Some (V6 gs) else None
           | None \<Rightarrow> None))"

definition hex_char :: "nat \<Rightarrow> char" where
  "hex_char n = (if n < 10 then char_of (48 + n) else char_of (87 + n))"

fun show_hex :: "nat \<Rightarrow> string" where
  "show_hex n = (if n < 16 then [hex_char n] else show_hex (n div 16) @ [hex_char (n mod 16)])"

declare show_hex.simps [simp del]

text \<open>The first longest run of zero groups: its start and its length.\<close>

fun longest_zeroes :: "nat \<Rightarrow> nat \<times> nat \<Rightarrow> nat \<times> nat \<Rightarrow> u16 list \<Rightarrow> nat \<times> nat" where
  "longest_zeroes i current longest [] = longest"
| "longest_zeroes i (start, len) longest (g # gs) =
     (if g = 0
      then let current = (if len = 0 then i else start, len + 1)
           in longest_zeroes (i + 1) current (if snd longest < snd current then current else longest) gs
      else longest_zeroes (i + 1) (0, 0) longest gs)"

definition show_v4 :: "u8 list \<Rightarrow> string" where
  "show_v4 os = join ''.'' (map (\<lambda>o'. show_nat (unat o')) os)"

definition show_groups :: "u16 list \<Rightarrow> string" where
  "show_groups gs = join '':'' (map (\<lambda>g. show_hex (unat g)) gs)"

fun show_ip :: "ip_addr \<Rightarrow> string" where
  "show_ip (V4 os) = show_v4 os"
| "show_ip (V6 gs) =
     (if take 6 gs = [0, 0, 0, 0, 0, 0xFFFF]
      then ''::ffff:'' @ show_v4 (concat (map (\<lambda>g. [ucast (drop_bit 8 g), ucast g]) (drop 6 gs)))
      else (case longest_zeroes 0 (0, 0) (0, 0) gs of
              (start, len) \<Rightarrow>
                if 1 < len
                then show_groups (take start gs) @ ''::'' @ show_groups (drop (start + len) gs)
                else show_groups gs))"


subsection \<open>Headers\<close>

text \<open>Header names are kept in lower case, values are bytes; the first value of a name is found.\<close>

type_synonym header_map = "(string \<times> string) list"

text \<open>\<^verbatim>\<open>HeaderValue::to_str\<close>: visible ASCII, space and tab only.\<close>

definition header_to_str :: "string \<Rightarrow> string option" where
  "header_to_str v =
     (if list_all (\<lambda>c. let n = of_char c :: nat in 32 \<le> n \<and> n < 127 \<or> n = 9) v then Some v else None)"

definition header_string :: "header_map \<Rightarrow> string \<Rightarrow> string option" where
  "header_string headers name = Option.bind (map_of headers name) header_to_str"

definition header_insert :: "string \<Rightarrow> string \<Rightarrow> header_map \<Rightarrow> header_map" where
  "header_insert name v headers = filter (\<lambda>h. fst h \<noteq> name) headers @ [(name, v)]"

lemma header_insert_same [simp]: "map_of (header_insert name v headers) name = Some v"
proof -
  have "map_of (filter (\<lambda>h. fst h \<noteq> name) headers) name = None" by (auto simp: map_of_eq_None_iff)
  then show ?thesis by (simp add: header_insert_def map_add_def)
qed

lemma header_insert_other: "n \<noteq> name \<Longrightarrow> map_of (header_insert name v headers) n = map_of headers n"
  unfolding header_insert_def by (induction headers) (auto simp: map_add_def)

subsection \<open>Claims\<close>

record claims =
  cl_sub :: string
  cl_email :: "string option"
  cl_username :: "string option"
  cl_roles :: "string list"
  cl_perms :: "string list"
  cl_exp :: int
  cl_iat :: "int option"
  cl_jti :: "string option"
  cl_iss :: "string option"
  cl_aud :: "string option"
  cl_custom :: "(string \<times> json) list"

definition has_role :: "claims \<Rightarrow> string \<Rightarrow> bool" where
  "has_role c role \<longleftrightarrow> List.member (cl_roles c) role"

definition has_permission :: "claims \<Rightarrow> string \<Rightarrow> bool" where
  "has_permission c perm \<longleftrightarrow> List.member (cl_perms c) perm"

definition has_role_and_permission :: "claims \<Rightarrow> string \<Rightarrow> string \<Rightarrow> bool" where
  "has_role_and_permission c role perm \<longleftrightarrow> has_role c role \<and> has_permission c perm"

definition is_user :: "claims \<Rightarrow> bool" where
  "is_user c \<longleftrightarrow> starts_with (cl_sub c) ''user:''"

definition is_client :: "claims \<Rightarrow> bool" where
  "is_client c \<longleftrightarrow> starts_with (cl_sub c) ''client:''"

definition claims_user_id :: "claims \<Rightarrow> string option" where
  "claims_user_id c = (if is_user c then strip_prefix (cl_sub c) ''user:'' else None)"

definition claims_client_id :: "claims \<Rightarrow> string option" where
  "claims_client_id c = (if is_client c then strip_prefix (cl_sub c) ''client:'' else None)"

definition custom_claim :: "claims \<Rightarrow> string \<Rightarrow> json option" where
  "custom_claim c key = map_of (cl_custom c) key"

definition extract_token :: "header_map \<Rightarrow> error + string" where
  "extract_token headers =
     (case header_string headers ''authorization'' of
        None \<Rightarrow> Inl (Unauthorized ''Missing Authorization header'')
      | Some auth_header \<Rightarrow>
          (case strip_prefix auth_header ''Bearer '' of
             Some token \<Rightarrow> Inr token
           | None \<Rightarrow> Inl (Unauthorized ''Invalid Authorization header format'')))"

subsection \<open>The audit logger\<close>

record audit_logger =
  lg_service_name :: string
  lg_config :: audit_config

text \<open>
  Logging hands an event to the agent's mailbox; it is returned here. \<open>stamp\<close> is the random
  identifier and the time a new event reads.
\<close>

type_synonym stamp = "uuid \<times> datetime"

definition log_auth ::
  "stamp \<Rightarrow> audit_logger \<Rightarrow> audit_event_kind \<Rightarrow> audit_severity \<Rightarrow> audit_source \<Rightarrow> audit_event list" where
  "log_auth stamp logger kind severity source =
     [with_source (audit_event_new (fst stamp) (snd stamp) kind severity (lg_service_name logger)) source]"

definition log_custom ::
  "stamp \<Rightarrow> audit_logger \<Rightarrow> string \<Rightarrow> audit_severity \<Rightarrow> json option \<Rightarrow> audit_event list" where
  "log_custom stamp logger name severity metadata =
     [(audit_event_new (fst stamp) (snd stamp) (Custom name) severity (lg_service_name logger))
        \<lparr>ev_metadata := metadata\<rparr>]"

text \<open>The middleware logs only when a logger is installed and authentication events are audited.\<close>

definition audit_auth ::
  "stamp \<Rightarrow> audit_logger option \<Rightarrow> audit_event_kind \<Rightarrow> audit_severity \<Rightarrow> audit_source \<Rightarrow> audit_event list" where
  "audit_auth stamp logger kind severity source =
     (case logger of
        None \<Rightarrow> []
      | Some lg \<Rightarrow> if ac_audit_auth_events (lg_config lg) then log_auth stamp lg kind severity source else [])"

subsection \<open>Requests\<close>

datatype san_kind = Dns | Uri

record caller_san =
  san_kind :: san_kind
  san_value :: string

record caller_identity =
  ci_san :: caller_san
  ci_waives_bearer :: bool

record tls_connect_info =
  tc_remote_addr :: socket_addr
  tc_peer_certificates :: "u8 list list option"

record request_context =
  rc_ip :: "ip_addr option"
  rc_request_id :: "string option"
  rc_user_agent :: "string option"

record extensions =
  ext_connect_info :: "socket_addr option"
  ext_tls_connect_info :: "tls_connect_info option"
  ext_original_uri :: "string option"
  ext_request_context :: "request_context option"
  ext_caller_identity :: "caller_identity option"
  ext_claims :: "claims option"
  ext_audit_logger :: "audit_logger option"
  ext_audit_route :: "string option"

record request =
  hr_method :: string
  hr_path :: string
  hr_headers :: header_map
  hr_ext :: extensions

text \<open>
  A response body is the handler's own or an error document. A service is a function of the
  request and a state, to a response, the new state and the audit events handed to the agent.
  A middleware that returns an error is answered with the error's response.
\<close>

datatype body = Opaque string | ErrorBody error_response

record response =
  rp_status :: u16
  rp_headers :: header_map
  rp_body :: body

type_synonym 's service = "request \<Rightarrow> 's \<Rightarrow> response \<times> 's \<times> audit_event list"

definition reject :: "(string \<Rightarrow> string option) \<Rightarrow> error \<Rightarrow> response" where
  "reject hv e =
     (let r = into_response hv e
      in \<lparr>rp_status = rs_status r,
          rp_headers = (case rs_retry_after r of Some v \<Rightarrow> [(''retry-after'', v)] | None \<Rightarrow> []),
          rp_body = ErrorBody (rs_body r)\<rparr>)"

subsection \<open>The request context\<close>

definition forwarded_ip :: "header_map \<Rightarrow> ip_addr option" where
  "forwarded_ip headers =
     (case Option.bind (header_string headers ''x-forwarded-for'')
             (\<lambda>s. parse_ip (trim (hd (split_char CHR '','' s)))) of
        Some ip \<Rightarrow> Some ip
      | None \<Rightarrow> Option.bind (header_string headers ''x-real-ip'') (\<lambda>s. parse_ip (trim s)))"

definition extract_client_ip :: "header_map \<Rightarrow> socket_addr option \<Rightarrow> bool \<Rightarrow> ip_addr option" where
  "extract_client_ip headers connect_info trust_forwarded_headers =
     (case (if trust_forwarded_headers then forwarded_ip headers else None) of
        Some ip \<Rightarrow> Some ip
      | None \<Rightarrow> map_option sa_ip connect_info)"

definition connect_info_remote_addr :: "extensions \<Rightarrow> socket_addr option" where
  "connect_info_remote_addr ext =
     (case ext_connect_info ext of
        Some ci \<Rightarrow> Some ci
      | None \<Rightarrow> map_option tc_remote_addr (ext_tls_connect_info ext))"

definition request_context_resolve :: "header_map \<Rightarrow> socket_addr option \<Rightarrow> bool \<Rightarrow> request_context" where
  "request_context_resolve headers connect_info trust_forwarded_headers =
     \<lparr>rc_ip = extract_client_ip headers connect_info trust_forwarded_headers,
      rc_request_id = header_string headers ''x-request-id'',
      rc_user_agent = header_string headers ''user-agent''\<rparr>"

definition context_audit_source :: "request_context \<Rightarrow> audit_source" where
  "context_audit_source rc =
     \<lparr>src_ip = map_option show_ip (rc_ip rc), src_user_agent = rc_user_agent rc, src_subject = None,
      src_request_id = rc_request_id rc\<rparr>"

definition audit_source_from_headers :: "header_map \<Rightarrow> audit_source" where
  "audit_source_from_headers headers =
     \<lparr>src_ip = None, src_user_agent = header_string headers ''user-agent'', src_subject = None,
      src_request_id = header_string headers ''x-request-id''\<rparr>"

definition audit_source_for_request :: "request \<Rightarrow> audit_source" where
  "audit_source_for_request rq =
     (case ext_request_context (hr_ext rq) of
        Some rc \<Rightarrow> context_audit_source rc
      | None \<Rightarrow> audit_source_from_headers (hr_headers rq))"

definition request_context_middleware :: "bool \<Rightarrow> 's service \<Rightarrow> 's service" where
  "request_context_middleware trust_forwarded_headers next rq =
     next (rq\<lparr>hr_ext := (hr_ext rq)\<lparr>ext_request_context := Some (request_context_resolve (hr_headers rq)
       (connect_info_remote_addr (hr_ext rq)) trust_forwarded_headers)\<rparr>\<rparr>)"

end
