(* ===== verification/Caller_Auth.thy ===== *)
theory Caller_Auth
  imports Request
begin

text \<open>
  Caller authorization by client certificate (\<^verbatim>\<open>src/acton-service/src/caller_auth.rs\<close>, the
  \<^verbatim>\<open>[caller_auth]\<close> section of \<^verbatim>\<open>src/acton-service/src/config.rs\<close> and the exempt gRPC paths of
  \<^verbatim>\<open>src/acton-service/src/grpc/middleware.rs\<close>): which certificate names can identify a caller, the
  allowlist, the policy with its checks, the decision and the tower layer that enforces it.

  Reading the subject alternative names out of a DER certificate is the \<^verbatim>\<open>x509_parser\<close> crate,
  turning a gRPC status into a response is \<^verbatim>\<open>tonic\<close>; both are parameters (\<open>caller_env\<close>).
\<close>

datatype general_name = DNSName string | GeneralURI string | OtherGeneralName

text \<open>
  \<open>ce_sans\<close> parses a certificate: an error text, or the names of its subject alternative name
  extension, \<^const>\<open>None\<close> when it has none. \<open>ce_grpc_status\<close> is a status code and message as a
  response.
\<close>

record caller_env =
  ce_sans :: "u8 list \<Rightarrow> string + general_name list option"
  ce_grpc_status :: "nat \<Rightarrow> string \<Rightarrow> response"

subsection \<open>Caller names\<close>

definition MAX_SAN_LEN :: nat where
  "MAX_SAN_LEN = 1024"

fun san_kind_display :: "san_kind \<Rightarrow> string" where
  "san_kind_display Dns = ''DNS''"
| "san_kind_display Uri = ''URI''"

definition caller_san_display :: "caller_san \<Rightarrow> string" where
  "caller_san_display san = san_kind_display (san_kind san) @ '':'' @ san_value san"

datatype caller_san_error = Empty | TooLong nat nat | Wildcard string | IllegalCharacter string

fun caller_san_error_display :: "caller_san_error \<Rightarrow> string" where
  "caller_san_error_display Empty = ''subjectAltName is empty''"
| "caller_san_error_display (TooLong len limit) =
     ''subjectAltName is '' @ show_nat len @ '' bytes, over the '' @ show_nat limit @ ''-byte limit''"
| "caller_san_error_display (Wildcard value) =
     ''subjectAltName '' @ [CHR 0x27] @ value @ [CHR 0x27] @
     '' contains a wildcard; a wildcard names a set of hosts, not a caller identity''"
| "caller_san_error_display (IllegalCharacter value) =
     ''subjectAltName '' @ [CHR 0x27] @ value @ [CHR 0x27] @ '' contains whitespace or control characters''"

text \<open>
  The UTF-8 text of the characters that may not occur: white space, the control characters
  U+0000 to U+001F and U+007F to U+009F, and U+FEFF.
\<close>

definition control_chars :: "string list" where
  "control_chars =
     map (\<lambda>n. [char_of n]) ([0..<32] @ [127 :: nat]) @ map (\<lambda>n. [CHR 0xC2, char_of n]) [128..<160 :: nat]"

definition illegal_chars :: "string list" where
  "illegal_chars = whitespace_chars @ control_chars @ [[CHR 0xEF, CHR 0xBB, CHR 0xBF]]"

definition caller_san_new :: "san_kind \<Rightarrow> string \<Rightarrow> caller_san_error + caller_san" where
  "caller_san_new kind value =
     (if value = [] then Inl Empty
      else if MAX_SAN_LEN < length value then Inl (TooLong (length value) MAX_SAN_LEN)
      else if CHR ''*'' \<in> set value then Inl (Wildcard value)
      else if list_ex (contains_str value) illegal_chars then Inl (IllegalCharacter value)
      else Inr \<lparr>san_kind = kind, san_value = value\<rparr>)"

definition caller_san_parse :: "string \<Rightarrow> caller_san_error + caller_san" where
  "caller_san_parse entry =
     (if contains_str entry ''://'' then caller_san_new Uri entry else caller_san_new Dns entry)"

subsection \<open>Allowlist and policy\<close>

datatype caller_auth_mode = Bearer | Mtls | MtlsOrBearer

fun mode_display :: "caller_auth_mode \<Rightarrow> string" where
  "mode_display Bearer = ''bearer''"
| "mode_display Mtls = ''mtls''"
| "mode_display MtlsOrBearer = ''mtls-or-bearer''"

fun uses_client_certificates :: "caller_auth_mode \<Rightarrow> bool" where
  "uses_client_certificates Bearer = False"
| "uses_client_certificates Mtls = True"
| "uses_client_certificates MtlsOrBearer = True"

datatype caller_auth_config_error =
  EmptyAllowlist
| AllowlistWithoutCertificateMode
| InvalidEntry string caller_san_error
| MissingClientCa caller_auth_mode string
| NoTlsListener caller_auth_mode string

text \<open>The allowlist is a \<^verbatim>\<open>BTreeSet\<close> of names.\<close>

type_synonym caller_allowlist = "caller_san set"

definition allowlist_new :: "caller_san list \<Rightarrow> caller_auth_config_error + caller_allowlist" where
  "allowlist_new entries = (if entries = [] then Inl EmptyAllowlist else Inr (set entries))"

fun parse_entries :: "string list \<Rightarrow> caller_auth_config_error + caller_san list" where
  "parse_entries [] = Inr []"
| "parse_entries (entry # entries) =
     (case caller_san_parse entry of
        Inl source \<Rightarrow> Inl (InvalidEntry entry source)
      | Inr san \<Rightarrow>
          (case parse_entries entries of
             Inl e \<Rightarrow> Inl e
           | Inr sans \<Rightarrow> Inr (san # sans)))"

definition allowlist_from_entries :: "string list \<Rightarrow> caller_auth_config_error + caller_allowlist" where
  "allowlist_from_entries entries =
     (case parse_entries entries of Inl e \<Rightarrow> Inl e | Inr parsed \<Rightarrow> allowlist_new parsed)"

record caller_auth_policy =
  cp_mode :: caller_auth_mode
  cp_allowlist :: "caller_allowlist option"
  cp_public_paths :: "string list"

definition policy_bearer :: caller_auth_policy where
  "policy_bearer = \<lparr>cp_mode = Bearer, cp_allowlist = None, cp_public_paths = []\<rparr>"

definition policy_mtls :: "caller_allowlist \<Rightarrow> caller_auth_policy" where
  "policy_mtls allowlist = \<lparr>cp_mode = Mtls, cp_allowlist = Some allowlist, cp_public_paths = []\<rparr>"

definition policy_mtls_or_bearer :: "caller_allowlist \<Rightarrow> caller_auth_policy" where
  "policy_mtls_or_bearer allowlist =
     \<lparr>cp_mode = MtlsOrBearer, cp_allowlist = Some allowlist, cp_public_paths = []\<rparr>"

definition with_public_paths :: "caller_auth_policy \<Rightarrow> string list \<Rightarrow> caller_auth_policy" where
  "with_public_paths policy paths = policy\<lparr>cp_public_paths := paths\<rparr>"

definition requires_client_ca :: "caller_auth_policy \<Rightarrow> bool" where
  "requires_client_ca policy = uses_client_certificates (cp_mode policy)"

record caller_auth_config =
  cc_mode :: caller_auth_mode
  cc_allowlist :: "string list"
  cc_public_paths :: "string list"

definition to_policy :: "caller_auth_config \<Rightarrow> caller_auth_config_error + caller_auth_policy" where
  "to_policy config =
     (case (case cc_mode config of
              Bearer \<Rightarrow> if cc_allowlist config \<noteq> [] then Inl AllowlistWithoutCertificateMode
                        else Inr policy_bearer
            | Mtls \<Rightarrow> (case allowlist_from_entries (cc_allowlist config) of
                         Inl e \<Rightarrow> Inl e | Inr allowlist \<Rightarrow> Inr (policy_mtls allowlist))
            | MtlsOrBearer \<Rightarrow> (case allowlist_from_entries (cc_allowlist config) of
                         Inl e \<Rightarrow> Inl e | Inr allowlist \<Rightarrow> Inr (policy_mtls_or_bearer allowlist))) of
        Inl e \<Rightarrow> Inl e
      | Inr policy \<Rightarrow> Inr (with_public_paths policy (cc_public_paths config)))"

datatype listener_client_ca = Verified | NotVerified | Plaintext | Unknown

definition validate_listener ::
  "caller_auth_policy \<Rightarrow> listener_client_ca \<Rightarrow> string \<Rightarrow> caller_auth_config_error + unit" where
  "validate_listener policy listener section' =
     (if \<not> requires_client_ca policy then Inr ()
      else case listener of
        Verified \<Rightarrow> Inr ()
      | Unknown \<Rightarrow> Inr ()
      | NotVerified \<Rightarrow> Inl (MissingClientCa (cp_mode policy) section')
      | Plaintext \<Rightarrow> Inl (NoTlsListener (cp_mode policy) section'))"

subsection \<open>The decision\<close>

datatype authenticated_caller = Certificate caller_san | BearerDeferred

datatype caller_auth_error =
  NoClientCertificate
| NoCredential
| MalformedCertificate string
| NoUsableSan
| NotAllowlisted caller_san

fun caller_auth_error_display :: "caller_auth_error \<Rightarrow> string" where
  "caller_auth_error_display NoClientCertificate = ''no client certificate presented''"
| "caller_auth_error_display NoCredential = ''no client certificate and no bearer credential presented''"
| "caller_auth_error_display (MalformedCertificate e) = ''client certificate could not be parsed: '' @ e"
| "caller_auth_error_display NoUsableSan = ''client certificate carries no DNS or URI subjectAltName''"
| "caller_auth_error_display (NotAllowlisted san) = ''caller '' @ caller_san_display san @ '' is not on the allowlist''"

fun is_authentication_failure :: "caller_auth_error \<Rightarrow> bool" where
  "is_authentication_failure NoClientCertificate = True"
| "is_authentication_failure NoCredential = True"
| "is_authentication_failure (MalformedCertificate _) = True"
| "is_authentication_failure NoUsableSan = False"
| "is_authentication_failure (NotAllowlisted _) = False"

definition caller_error_status :: "caller_auth_error \<Rightarrow> u16" where
  "caller_error_status e = (if is_authentication_failure e then UNAUTHORIZED else FORBIDDEN)"

fun caller_error_code :: "caller_auth_error \<Rightarrow> string" where
  "caller_error_code NoClientCertificate = ''CLIENT_CERT_REQUIRED''"
| "caller_error_code NoCredential = ''CALLER_CREDENTIAL_REQUIRED''"
| "caller_error_code (MalformedCertificate _) = ''CLIENT_CERT_UNPARSABLE''"
| "caller_error_code NoUsableSan = ''CLIENT_CERT_NO_SAN''"
| "caller_error_code (NotAllowlisted _) = ''CALLER_NOT_ALLOWED''"

text \<open>Names that cannot identify a caller are left out.\<close>

fun usable_names :: "general_name list \<Rightarrow> caller_san list" where
  "usable_names [] = []"
| "usable_names (DNSName value # names) =
     (case caller_san_new Dns value of Inr san \<Rightarrow> san # usable_names names | Inl _ \<Rightarrow> usable_names names)"
| "usable_names (GeneralURI value # names) =
     (case caller_san_new Uri value of Inr san \<Rightarrow> san # usable_names names | Inl _ \<Rightarrow> usable_names names)"
| "usable_names (OtherGeneralName # names) = usable_names names"

definition subject_alt_names :: "caller_env \<Rightarrow> u8 list \<Rightarrow> caller_auth_error + caller_san list" where
  "subject_alt_names env leaf_der =
     (case ce_sans env leaf_der of
        Inl e \<Rightarrow> Inl (MalformedCertificate e)
      | Inr None \<Rightarrow> Inr []
      | Inr (Some names) \<Rightarrow> Inr (usable_names names))"

definition authorize_certificate ::
  "caller_env \<Rightarrow> caller_auth_policy \<Rightarrow> u8 list \<Rightarrow> caller_auth_error + caller_san" where
  "authorize_certificate env policy leaf_der =
     (case subject_alt_names env leaf_der of
        Inl e \<Rightarrow> Inl e
      | Inr sans \<Rightarrow>
          if sans = [] then Inl NoUsableSan
          else (case cp_allowlist policy of
                  None \<Rightarrow> Inl (NotAllowlisted (hd sans))
                | Some allowlist \<Rightarrow>
                    (case find (\<lambda>san. san \<in> allowlist) sans of
                       Some san \<Rightarrow> Inr san
                     | None \<Rightarrow> Inl (NotAllowlisted (hd sans)))))"

definition authorize ::
  "caller_env \<Rightarrow> caller_auth_policy \<Rightarrow> u8 list option \<Rightarrow> bool \<Rightarrow> caller_auth_error + authenticated_caller" where
  "authorize env policy leaf_der bearer_present =
     (case cp_mode policy of
        Bearer \<Rightarrow> Inr BearerDeferred
      | Mtls \<Rightarrow>
          (case leaf_der of
             None \<Rightarrow> Inl NoClientCertificate
           | Some leaf \<Rightarrow>
               (case authorize_certificate env policy leaf of
                  Inl e \<Rightarrow> Inl e
                | Inr san \<Rightarrow> Inr (Certificate san)))
      | MtlsOrBearer \<Rightarrow>
          (case (case leaf_der of
                   Some leaf \<Rightarrow> authorize_certificate env policy leaf
                 | None \<Rightarrow> Inl NoClientCertificate) of
             Inr san \<Rightarrow> Inr (Certificate san)
           | Inl cert_error \<Rightarrow>
               if bearer_present then Inr BearerDeferred
               else if cert_error = NoClientCertificate then Inl NoCredential
               else Inl cert_error))"

subsection \<open>The layer\<close>

definition bearer_waived :: "extensions \<Rightarrow> bool" where
  "bearer_waived ext = (case ext_caller_identity ext of Some ci \<Rightarrow> ci_waives_bearer ci | None \<Rightarrow> False)"

datatype rejection_style = StyleHttp | StyleGrpc

record caller_auth_layer =
  cal_policy :: caller_auth_policy
  cal_style :: rejection_style

definition caller_layer_http :: "caller_auth_policy \<Rightarrow> caller_auth_layer" where
  "caller_layer_http policy = \<lparr>cal_policy = policy, cal_style = StyleHttp\<rparr>"

definition caller_layer_grpc :: "caller_auth_policy \<Rightarrow> caller_auth_layer" where
  "caller_layer_grpc policy = \<lparr>cal_policy = policy, cal_style = StyleGrpc\<rparr>"

definition HTTP_PROBE_PATHS :: "string list" where
  "HTTP_PROBE_PATHS = [''/health'', ''/ready'']"

definition HTTP_DOC_PATH_PREFIXES :: "string list" where
  "HTTP_DOC_PATH_PREFIXES = [''/swagger-ui'', ''/api-docs'']"

definition is_grpc_infra_path :: "string \<Rightarrow> bool" where
  "is_grpc_infra_path path \<longleftrightarrow>
     starts_with path ''/grpc.health.v1.Health/'' \<or> starts_with path ''/grpc.reflection.''"

definition is_exempt :: "caller_auth_layer \<Rightarrow> string \<Rightarrow> bool" where
  "is_exempt layer path \<longleftrightarrow>
     (case cal_style layer of
        StyleHttp \<Rightarrow> List.member HTTP_PROBE_PATHS path \<or> list_ex (starts_with path) HTTP_DOC_PATH_PREFIXES
      | StyleGrpc \<Rightarrow> is_grpc_infra_path path)
     \<or> list_ex (starts_with path) (cp_public_paths (cal_policy layer))"

definition rejection :: "caller_env \<Rightarrow> caller_auth_layer \<Rightarrow> caller_auth_error \<Rightarrow> response" where
  "rejection env layer e =
     (case cal_style layer of
        StyleHttp \<Rightarrow>
          (let status = caller_error_status e
           in \<lparr>rp_status = status, rp_headers = [],
               rp_body = ErrorBody (error_response_with_code status (caller_error_code e) (caller_auth_error_display e))\<rparr>)
      | StyleGrpc \<Rightarrow>
          ce_grpc_status env (if is_authentication_failure e then 16 else 7)
            (caller_auth_error_display e @ '' ('' @ caller_error_code e @ '')''))"

definition leaf_certificate :: "extensions \<Rightarrow> u8 list option" where
  "leaf_certificate ext =
     Option.bind (ext_tls_connect_info ext) (\<lambda>ci. map_option hd (tc_peer_certificates ci))"

text \<open>\<^verbatim>\<open>str::split_once(' ')\<close> and \<^verbatim>\<open>eq_ignore_ascii_case\<close>.\<close>

definition has_bearer_credential :: "header_map \<Rightarrow> bool" where
  "has_bearer_credential headers =
     (case header_string headers ''authorization'' of
        None \<Rightarrow> False
      | Some value \<Rightarrow>
          (case find_str value '' '' of
             None \<Rightarrow> False
           | Some i \<Rightarrow> map ascii_upper (take i value) = ''BEARER'' \<and> drop (i + 1) value \<noteq> []))"

definition caller_auth_call :: "caller_env \<Rightarrow> caller_auth_layer \<Rightarrow> 's service \<Rightarrow> 's service" where
  "caller_auth_call env layer inner req s =
     (if cp_mode (cal_policy layer) = Bearer \<or> is_exempt layer (hr_path req) then inner req s
      else case authorize env (cal_policy layer) (leaf_certificate (hr_ext req))
                  (has_bearer_credential (hr_headers req)) of
        Inr (Certificate san) \<Rightarrow>
          inner (req\<lparr>hr_ext := (hr_ext req)\<lparr>ext_caller_identity := Some
            \<lparr>ci_san = san, ci_waives_bearer = (cp_mode (cal_policy layer) = MtlsOrBearer)\<rparr>\<rparr>\<rparr>) s
      | Inr BearerDeferred \<Rightarrow> inner req s
      | Inl e \<Rightarrow> (rejection env layer e, s, []))"

subsection \<open>Properties\<close>

definition entry_san :: "string \<Rightarrow> caller_san" where
  "entry_san entry = \<lparr>san_kind = (if contains_str entry ''://'' then Uri else Dns), san_value = entry\<rparr>"

lemma caller_san_new_Inr: "caller_san_new kind value = Inr san \<Longrightarrow> san = \<lparr>san_kind = kind, san_value = value\<rparr>"
  by (auto simp: caller_san_new_def split: if_splits)

lemma caller_san_parse_Inr: "caller_san_parse entry = Inr san \<Longrightarrow> san = entry_san entry"
  by (auto simp: caller_san_parse_def entry_san_def dest: caller_san_new_Inr split: if_splits)

lemma parse_entries_Inr:
  "parse_entries entries = Inr sans \<Longrightarrow>
     sans = map entry_san entries \<and> (\<forall>entry \<in> set entries. caller_san_parse entry = Inr (entry_san entry))"
  by (induction entries arbitrary: sans) (auto split: sum.splits dest: caller_san_parse_Inr)

text \<open>A name of a certificate is the one an allowlist entry asks for.\<close>

fun name_is :: "general_name \<Rightarrow> string \<Rightarrow> bool" where
  "name_is (DNSName value) entry \<longleftrightarrow> value = entry \<and> \<not> contains_str entry ''://''"
| "name_is (GeneralURI value) entry \<longleftrightarrow> value = entry \<and> contains_str entry ''://''"
| "name_is OtherGeneralName entry \<longleftrightarrow> False"

lemma entry_usable:
  assumes "caller_san_parse entry = Inr (entry_san entry)"
  shows "entry_san entry \<in> set (usable_names names) \<longleftrightarrow> (\<exists>name \<in> set names. name_is name entry)"
  using assms
  by (induction names rule: usable_names.induct)
    (auto simp: caller_san_parse_def entry_san_def split: sum.splits if_splits dest: caller_san_new_Inr)

lemma to_policy_Inr:
  assumes "to_policy config = Inr policy" and "cc_mode config \<noteq> Bearer"
  shows "cp_mode policy = cc_mode config \<and> cp_allowlist policy = Some (entry_san ` set (cc_allowlist config))
    \<and> (\<forall>entry \<in> set (cc_allowlist config). caller_san_parse entry = Inr (entry_san entry))"
  using assms
  by (auto simp: to_policy_def allowlist_from_entries_def allowlist_new_def with_public_paths_def policy_mtls_def
      policy_mtls_or_bearer_def dest!: parse_entries_Inr split: caller_auth_mode.splits sum.splits if_splits)

definition certificate_listed :: "caller_env \<Rightarrow> string list \<Rightarrow> u8 list \<Rightarrow> bool" where
  "certificate_listed env entries leaf \<longleftrightarrow>
     (\<exists>names. ce_sans env leaf = Inr (Some names) \<and> (\<exists>entry \<in> set entries. \<exists>name \<in> set names. name_is name entry))"

lemma authorize_certificate_listed:
  assumes "to_policy config = Inr policy" and "cc_mode config \<noteq> Bearer"
  shows "case authorize_certificate env policy leaf of
      Inr san \<Rightarrow> certificate_listed env (cc_allowlist config) leaf \<and> san \<in> entry_san ` set (cc_allowlist config)
    | Inl e \<Rightarrow> \<not> certificate_listed env (cc_allowlist config) leaf \<and> e \<noteq> NoClientCertificate"
proof (cases "ce_sans env leaf")
  case (Inr names)
  let ?allow = "entry_san ` set (cc_allowlist config)"
  note policy = to_policy_Inr [OF assms]
  show ?thesis
  proof (cases names)
    case None
    with Inr show ?thesis by (simp add: authorize_certificate_def subject_alt_names_def certificate_listed_def)
  next
    case (Some gns)
    have listed: "certificate_listed env (cc_allowlist config) leaf \<longleftrightarrow> (\<exists>san \<in> set (usable_names gns). san \<in> ?allow)"
      using Inr Some policy entry_usable by (auto simp: certificate_listed_def)
    show ?thesis
    proof (cases "find (\<lambda>san. san \<in> ?allow) (usable_names gns)")
      case None
      then have "\<not> certificate_listed env (cc_allowlist config) leaf" unfolding listed by (auto simp: find_None_iff)
      with None Inr Some policy show ?thesis
        by (auto simp: authorize_certificate_def subject_alt_names_def split: option.splits)
    next
      case (Some san)
      with listed have "certificate_listed env (cc_allowlist config) leaf \<and> san \<in> ?allow"
        using find_split [OF Some] by auto
      with Some Inr \<open>names = Some gns\<close> policy show ?thesis
        by (auto simp: authorize_certificate_def subject_alt_names_def)
    qed
  qed
qed (simp add: authorize_certificate_def subject_alt_names_def certificate_listed_def)

text \<open>
  C15: who is admitted by certificate. Under a policy read from the configuration, a request to a path
  that is not exempt reaches the inner service under a certificate identity exactly when the
  verified leaf certificate carries a name that is literally an entry of the allowlist, a URI
  for entries with a scheme and a DNS name for the others; the identity waives the token only in
  the mode that accepts either credential. In that mode a request with a bearer header is passed
  on without an identity. Every other request is refused with 401 or 403, touches no state and
  never reaches the service.
\<close>

theorem caller_admitted:
  assumes "to_policy config = Inr policy" and "cc_mode config \<noteq> Bearer"
    and "\<not> is_exempt (caller_layer_http policy) (hr_path req)"
  shows "if \<exists>leaf. leaf_certificate (hr_ext req) = Some leaf \<and> certificate_listed env (cc_allowlist config) leaf
     then \<exists>san. san_value san \<in> set (cc_allowlist config) \<and>
       caller_auth_call env (caller_layer_http policy) inner req s =
         inner (req\<lparr>hr_ext := (hr_ext req)\<lparr>ext_caller_identity :=
           Some \<lparr>ci_san = san, ci_waives_bearer = (cc_mode config = MtlsOrBearer)\<rparr>\<rparr>\<rparr>) s
     else if cc_mode config = MtlsOrBearer \<and> has_bearer_credential (hr_headers req)
     then caller_auth_call env (caller_layer_http policy) inner req s = inner req s
     else \<exists>rp. caller_auth_call env (caller_layer_http policy) inner req s = (rp, s, [])
       \<and> (rp_status rp = UNAUTHORIZED \<or> rp_status rp = FORBIDDEN)"
proof -
  note policy = to_policy_Inr [OF assms(1,2)]
  have refuse: "rp_status (rejection env (caller_layer_http policy) e) = UNAUTHORIZED
      \<or> rp_status (rejection env (caller_layer_http policy) e) = FORBIDDEN" for e
    by (simp add: rejection_def caller_layer_http_def caller_error_status_def Let_def)
  show ?thesis
  proof (cases "leaf_certificate (hr_ext req)")
    case None
    with assms policy refuse show ?thesis
      by (cases "cc_mode config") (auto simp: caller_auth_call_def authorize_def caller_layer_http_def)
  next
    case (Some leaf)
    show ?thesis
    proof (cases "authorize_certificate env policy leaf")
      case (Inl e)
      with Some assms policy refuse authorize_certificate_listed [OF assms(1,2), of env leaf] show ?thesis
        by (cases "cc_mode config") (auto simp: caller_auth_call_def authorize_def caller_layer_http_def)
    next
      case (Inr san)
      with authorize_certificate_listed [OF assms(1,2), of env leaf]
      have listed: "certificate_listed env (cc_allowlist config) leaf" and "san_value san \<in> set (cc_allowlist config)"
        by (auto simp: entry_san_def)
      moreover have "caller_auth_call env (caller_layer_http policy) inner req s =
          inner (req\<lparr>hr_ext := (hr_ext req)\<lparr>ext_caller_identity :=
            Some \<lparr>ci_san = san, ci_waives_bearer = (cc_mode config = MtlsOrBearer)\<rparr>\<rparr>\<rparr>) s"
        using Inr Some assms policy
        by (cases "cc_mode config") (simp_all add: caller_auth_call_def authorize_def caller_layer_http_def)
      ultimately show ?thesis using Some by auto
    qed
  qed
qed

subsection \<open>Sample\<close>

definition sample_caller_env :: caller_env where
  "sample_caller_env =
     \<lparr>ce_sans = (\<lambda>der. if der = [1] then Inr (Some [OtherGeneralName, DNSName ''billing'']) else Inl ''not a certificate''),
      ce_grpc_status = (\<lambda>code msg. \<lparr>rp_status = 200, rp_headers = [(''grpc-status'', show_nat code)], rp_body = Opaque msg\<rparr>)\<rparr>"

definition sample_caller_config :: caller_auth_config where
  "sample_caller_config = \<lparr>cc_mode = Mtls, cc_allowlist = [''billing''], cc_public_paths = [''/pub'']\<rparr>"

definition sample_caller_request :: "u8 list option \<Rightarrow> request" where
  "sample_caller_request leaf =
     \<lparr>hr_method = ''GET'', hr_path = ''/api'', hr_headers = [],
      hr_ext = \<lparr>ext_connect_info = None,
        ext_tls_connect_info = Some \<lparr>tc_remote_addr = \<lparr>sa_ip = V4 [10, 0, 0, 1], sa_port = 9000\<rparr>,
          tc_peer_certificates = map_option (\<lambda>c. [c]) leaf\<rparr>,
        ext_original_uri = None, ext_request_context = None, ext_caller_identity = None,
        ext_claims = None, ext_audit_logger = None, ext_audit_route = None\<rparr>\<rparr>"

definition identity_service :: "unit service" where
  "identity_service rq s =
     (\<lparr>rp_status = (if ext_caller_identity (hr_ext rq) = None then 500 else 200), rp_headers = [], rp_body = Opaque []\<rparr>, s, [])"

lemma sample_policy:
  "to_policy sample_caller_config = Inr (with_public_paths (policy_mtls {entry_san ''billing''}) [''/pub''])"
proof -
  have "caller_san_parse ''billing'' = Inr (entry_san ''billing'')" by code_simp
  then show ?thesis
    by (simp add: to_policy_def sample_caller_config_def allowlist_from_entries_def allowlist_new_def)
qed

theorem caller_admitted_witness:
  "rp_status (fst (caller_auth_call sample_caller_env
     (caller_layer_http (with_public_paths (policy_mtls {entry_san ''billing''}) [''/pub'']))
     identity_service (sample_caller_request (Some [1])) ())) = 200"
proof -
  let ?policy = "with_public_paths (policy_mtls {entry_san ''billing''}) [''/pub'']"
    and ?rq = "sample_caller_request (Some [1])"
  have "contains_str ''billing'' ''://'' = False" by code_simp
  then have "certificate_listed sample_caller_env [''billing''] [1]"
    by (simp add: certificate_listed_def sample_caller_env_def)
  moreover have "leaf_certificate (hr_ext ?rq) = Some [1]"
    by (simp add: leaf_certificate_def sample_caller_request_def)
  moreover have "\<not> is_exempt (caller_layer_http ?policy) (hr_path ?rq)"
    by (simp add: is_exempt_def caller_layer_http_def with_public_paths_def policy_mtls_def
        sample_caller_request_def HTTP_PROBE_PATHS_def HTTP_DOC_PATH_PREFIXES_def)
  ultimately show ?thesis
    using caller_admitted [OF sample_policy, of ?rq sample_caller_env identity_service "()"]
    by (auto simp: sample_caller_config_def identity_service_def)
qed

end
