(* ===== verification/Token_Auth.thy ===== *)
theory Token_Auth
  imports Caller_Auth Key_Rotation Redis_Store
begin

text \<open>
  Token authentication: the JWT and PASETO validators (\<^verbatim>\<open>src/acton-service/src/middleware/jwt.rs\<close>,
  \<^verbatim>\<open>paseto.rs\<close>), the revocation list in Redis (\<^verbatim>\<open>revocation.rs\<close>) and the middleware that admits a
  request. Signature schemes and token formats are third-party crates and therefore parameters:
  \<open>jwt_env\<close> for \<^verbatim>\<open>jsonwebtoken\<close>, \<open>paseto_env\<close> for \<^verbatim>\<open>rusty_paseto\<close>, \<^verbatim>\<open>serde_json\<close> and \<^verbatim>\<open>chrono\<close>.
  Both validators try keys of the key manager of theory \<open>Key_Rotation\<close>. The text of both
  \<^verbatim>\<open>middleware\<close> functions is the same, so it is one definition over a validator.
\<close>

subsection \<open>JSON access\<close>

definition json_get :: "json \<Rightarrow> string \<Rightarrow> json" where
  "json_get j key = (case j of
     JObject entries \<Rightarrow> (case map_of entries key of Some v \<Rightarrow> v | None \<Rightarrow> JNull) | _ \<Rightarrow> JNull)"

definition json_str :: "json \<Rightarrow> string option" where
  "json_str j = (case j of JString s \<Rightarrow> Some s | _ \<Rightarrow> None)"

text \<open>\<^verbatim>\<open>Value::as_i64\<close>: an integer literal in range.\<close>

definition json_i64 :: "json \<Rightarrow> int option" where
  "json_i64 j = (case j of
     JNumber t \<Rightarrow>
       (let digits = (case strip_prefix t ''-'' of Some r \<Rightarrow> r | None \<Rightarrow> t);
            v = (if strip_prefix t ''-'' = None then int (digits_val digits) else - int (digits_val digits))
        in if digits \<noteq> [] \<and> list_all is_ascii_digit digits \<and> - (2 ^ 63) \<le> v \<and> v < 2 ^ 63 then Some v else None)
   | _ \<Rightarrow> None)"

fun json_strings :: "json list \<Rightarrow> string list" where
  "json_strings [] = []"
| "json_strings (j # js) = (case json_str j of Some s \<Rightarrow> s # json_strings js | None \<Rightarrow> json_strings js)"

subsection \<open>The JWT validator\<close>

datatype jwt_algorithm = RS256 | RS384 | RS512 | ES256 | ES384 | HS256 | HS384 | HS512 | OtherAlgorithm string

record jwt_validation =
  jv_algorithms :: "jwt_algorithm list"
  jv_issuer :: "string option"
  jv_audience :: "string option"

text \<open>
  \<open>jw_decode_header\<close> reads the key id of an unverified header, \<open>jw_decode\<close> verifies and reads a
  token, the others build keys. \<open>jw_upper\<close> is \<^verbatim>\<open>str::to_uppercase\<close>, \<open>jw_read\<close> reads a file.
\<close>

record 'k jwt_env =
  jw_decode_header :: "string \<Rightarrow> string + string option"
  jw_decode :: "string \<Rightarrow> 'k \<Rightarrow> jwt_validation \<Rightarrow> string + claims"
  jw_rsa_pem :: "u8 list \<Rightarrow> string + 'k"
  jw_ec_pem :: "u8 list \<Rightarrow> string + 'k"
  jw_secret :: "u8 list \<Rightarrow> 'k"
  jw_upper :: "string \<Rightarrow> string"
  jw_read :: "string \<Rightarrow> string + u8 list"

record jwt_config =
  jc_public_key_path :: string
  jc_algorithm :: string
  jc_issuer :: "string option"
  jc_audience :: "string option"
  jc_public_paths :: "string list"

record ('k, 'r) jwt_auth =
  ja_decoding_key :: 'k
  ja_validation :: jwt_validation
  ja_revocation :: "'r option"
  ja_has_key_manager :: bool
  ja_public_paths :: "string list"

definition algorithm_names :: "(string \<times> jwt_algorithm) list" where
  "algorithm_names =
     [(''RS256'', RS256), (''RS384'', RS384), (''RS512'', RS512), (''ES256'', ES256), (''ES384'', ES384),
      (''HS256'', HS256), (''HS384'', HS384), (''HS512'', HS512)]"

definition key_file_message :: "string \<Rightarrow> string \<Rightarrow> string" where
  "key_file_message path e =
     ''Failed to read JWT public key from path '' @ [CHR 0x27] @ path @ [CHR 0x27, CHR 0x0A, CHR 0x0A] @
     ''Troubleshooting:'' @ [CHR 0x0A] @
     ''1. Verify the file exists: ls -la '' @ path @ [CHR 0x0A] @
     ''2. Check file permissions (must be readable)'' @ [CHR 0x0A] @
     ''3. Verify the path is correct in configuration'' @ [CHR 0x0A] @
     ''4. For RS256/ES256: Use PEM format public key'' @ [CHR 0x0A] @
     ''5. For HS256: Use raw secret file'' @ [CHR 0x0A, CHR 0x0A] @
     ''Error: '' @ e"

definition is_rsa :: "jwt_algorithm \<Rightarrow> bool" where
  "is_rsa a \<longleftrightarrow> a = RS256 \<or> a = RS384 \<or> a = RS512"

definition is_ec :: "jwt_algorithm \<Rightarrow> bool" where
  "is_ec a \<longleftrightarrow> a = ES256 \<or> a = ES384"

definition is_hmac :: "jwt_algorithm \<Rightarrow> bool" where
  "is_hmac a \<longleftrightarrow> a = HS256 \<or> a = HS384 \<or> a = HS512"

definition jwt_auth_new :: "'k jwt_env \<Rightarrow> jwt_config \<Rightarrow> error + ('k, 'r) jwt_auth" where
  "jwt_auth_new env config =
     (case jw_read env (jc_public_key_path config) of
        Inl e \<Rightarrow> Inl (Config (key_file_message (jc_public_key_path config) e))
      | Inr public_key \<Rightarrow>
          (case map_of algorithm_names (jw_upper env (jc_algorithm config)) of
             None \<Rightarrow> Inl (Config (''Unsupported JWT algorithm: '' @ jw_upper env (jc_algorithm config)))
           | Some algorithm \<Rightarrow>
               (case (if is_rsa algorithm then jw_rsa_pem env public_key
                      else if is_ec algorithm then jw_ec_pem env public_key
                      else Inr (jw_secret env public_key)) of
                  Inl e \<Rightarrow> Inl (Jwt e)
                | Inr decoding_key \<Rightarrow>
                    Inr \<lparr>ja_decoding_key = decoding_key,
                         ja_validation = \<lparr>jv_algorithms = [algorithm], jv_issuer = jc_issuer config,
                           jv_audience = jc_audience config\<rparr>,
                         ja_revocation = None, ja_has_key_manager = False,
                         ja_public_paths = jc_public_paths config\<rparr>)))"

definition with_revocation :: "('k, 'r) jwt_auth \<Rightarrow> 'r \<Rightarrow> ('k, 'r) jwt_auth" where
  "with_revocation auth revocation = auth\<lparr>ja_revocation := Some revocation\<rparr>"

definition with_key_manager :: "('k, 'r) jwt_auth \<Rightarrow> ('k, 'r) jwt_auth" where
  "with_key_manager auth = auth\<lparr>ja_has_key_manager := True\<rparr>"

definition create_decoding_key :: "'k jwt_env \<Rightarrow> u8 list \<Rightarrow> jwt_validation \<Rightarrow> error + 'k" where
  "create_decoding_key env key_bytes validation =
     (let algorithm = (case jv_algorithms validation of a # _ \<Rightarrow> a | [] \<Rightarrow> HS256)
      in if is_rsa algorithm
         then (case jw_rsa_pem env key_bytes of Inl e \<Rightarrow> Inl (Jwt e) | Inr k \<Rightarrow> Inr k)
         else if is_ec algorithm
         then (case jw_ec_pem env key_bytes of Inl e \<Rightarrow> Inl (Jwt e) | Inr k \<Rightarrow> Inr k)
         else case algorithm of
           OtherAlgorithm name \<Rightarrow> Inl (Internal (''unsupported algorithm for key rotation: '' @ name))
         | _ \<Rightarrow> Inr (jw_secret env key_bytes))"

text \<open>The first of the cached keys under which the token decodes; keys that cannot be built are skipped.\<close>

fun decode_with_any :: "'k jwt_env \<Rightarrow> jwt_validation \<Rightarrow> string \<Rightarrow> cached_key list \<Rightarrow> claims option" where
  "decode_with_any env validation token [] = None"
| "decode_with_any env validation token (cached # keys) =
     (case create_decoding_key env (ck_key_material cached) validation of
        Inl _ \<Rightarrow> decode_with_any env validation token keys
      | Inr dk \<Rightarrow>
          (case jw_decode env token dk validation of
             Inl _ \<Rightarrow> decode_with_any env validation token keys
           | Inr c \<Rightarrow> Some c))"

definition jwt_static :: "'k jwt_env \<Rightarrow> ('k, 'r) jwt_auth \<Rightarrow> string \<Rightarrow> error + claims" where
  "jwt_static env auth token =
     (case jw_decode env token (ja_decoding_key auth) (ja_validation auth) of
        Inl e \<Rightarrow> Inl (Jwt e) | Inr c \<Rightarrow> Inr c)"

definition jwt_validate_token ::
  "'k jwt_env \<Rightarrow> crypto_env \<Rightarrow> 's key_ops \<Rightarrow> instant \<Rightarrow> ('k, 'r) jwt_auth \<Rightarrow> string \<Rightarrow> key_manager \<Rightarrow> 's \<Rightarrow>
     (error + claims) \<times> key_manager" where
  "jwt_validate_token env cy ops instant_now auth token km st =
     (case (if ja_has_key_manager auth then jw_decode_header env token else Inr None) of
        Inr (Some kid) \<Rightarrow>
          (case get_verification_key cy ops kid km st of
             (Inl e, km') \<Rightarrow> (Inl e, km')
           | (Inr (Some cached), km') \<Rightarrow>
               (case create_decoding_key env (ck_key_material cached) (ja_validation auth) of
                  Inl e \<Rightarrow> (Inl e, km')
                | Inr dk \<Rightarrow>
                    (case jw_decode env token dk (ja_validation auth) of
                       Inl e \<Rightarrow> (Inl (Jwt e), km')
                     | Inr c \<Rightarrow> (Inr c, km')))
           | (Inr None, km') \<Rightarrow>
               (case get_all_verification_keys cy ops instant_now km' st of
                  (Inl e, km'') \<Rightarrow> (Inl e, km'')
                | (Inr all_keys, km'') \<Rightarrow>
                    (case decode_with_any env (ja_validation auth) token all_keys of
                       Some c \<Rightarrow> (Inr c, km'')
                     | None \<Rightarrow> (jwt_static env auth token, km''))))
      | _ \<Rightarrow> (jwt_static env auth token, km))"

subsection \<open>The PASETO validator\<close>

datatype paseto_purpose = Local | Public

text \<open>
  \<open>pe_footer\<close> is the footer of an unverified token. \<open>pe_parse\<close> decrypts or verifies a token under a
  key, checks issuer and audience where given and the footer, and yields the payload.
  \<open>pe_json\<close> is \<^verbatim>\<open>serde_json::from_str\<close>, \<open>pe_rfc3339\<close> the Unix time of an RFC 3339 text.
\<close>

record paseto_env =
  pe_footer :: "string \<Rightarrow> string option"
  pe_parse :: "paseto_purpose \<Rightarrow> u8 list \<Rightarrow> string option \<Rightarrow> string option \<Rightarrow> string option \<Rightarrow> string \<Rightarrow> string + json"
  pe_json :: "string \<Rightarrow> json option"
  pe_rfc3339 :: "string \<Rightarrow> int option"
  pe_read :: "string \<Rightarrow> string + u8 list"

record paseto_config =
  pc_version :: string
  pc_purpose :: string
  pc_key_path :: string
  pc_issuer :: "string option"
  pc_audience :: "string option"
  pc_public_paths :: "string list"

record 'r paseto_auth =
  pa_purpose :: paseto_purpose
  pa_key_bytes :: "u8 list"
  pa_issuer :: "string option"
  pa_audience :: "string option"
  pa_revocation :: "'r option"
  pa_has_key_manager :: bool
  pa_public_paths :: "string list"

definition paseto_file_message :: "string \<Rightarrow> string \<Rightarrow> string" where
  "paseto_file_message path e =
     ''Failed to read PASETO key from path '' @ [CHR 0x27] @ path @ [CHR 0x27, CHR 0x0A, CHR 0x0A] @
     ''Troubleshooting:'' @ [CHR 0x0A] @
     ''1. Verify the file exists: ls -la '' @ path @ [CHR 0x0A] @
     ''2. Check file permissions (must be readable)'' @ [CHR 0x0A] @
     ''3. Verify the path is correct in configuration'' @ [CHR 0x0A] @
     ''4. For v4.local: Use a 32-byte symmetric key'' @ [CHR 0x0A] @
     ''5. For v4.public: Use a 32-byte Ed25519 public key'' @ [CHR 0x0A, CHR 0x0A] @
     ''Error: '' @ e"

definition paseto_auth_with :: "paseto_purpose \<Rightarrow> u8 list \<Rightarrow> paseto_config \<Rightarrow> 'r paseto_auth" where
  "paseto_auth_with purpose key config =
     \<lparr>pa_purpose = purpose, pa_key_bytes = key, pa_issuer = pc_issuer config, pa_audience = pc_audience config,
      pa_revocation = None, pa_has_key_manager = False, pa_public_paths = pc_public_paths config\<rparr>"

definition paseto_auth_new :: "paseto_env \<Rightarrow> paseto_config \<Rightarrow> error + 'r paseto_auth" where
  "paseto_auth_new env config =
     (case pe_read env (pc_key_path config) of
        Inl e \<Rightarrow> Inl (Config (paseto_file_message (pc_key_path config) e))
      | Inr key \<Rightarrow>
          if pc_version config = ''v4'' \<and> pc_purpose config = ''local''
          then (if length key \<noteq> 32
                then Inl (Config (''PASETO v4.local requires a 32-byte symmetric key, got '' @
                  show_nat (length key) @ '' bytes''))
                else Inr (paseto_auth_with Local key config))
          else if pc_version config = ''v4'' \<and> pc_purpose config = ''public''
          then (if length key \<noteq> 32
                then Inl (Config (''PASETO v4.public requires a 32-byte Ed25519 public key, got '' @
                  show_nat (length key) @ '' bytes''))
                else Inr (paseto_auth_with Public key config))
          else Inl (Config (''Unsupported PASETO version/purpose: '' @ pc_version config @ ''.'' @ pc_purpose config @
            [CHR 0x0A] @ ''Supported combinations: v4.local, v4.public'')))"

definition string_array :: "json \<Rightarrow> string list option" where
  "string_array j = (case j of
     JArray js \<Rightarrow> if list_all (\<lambda>v. json_str v \<noteq> None) js then Some (json_strings js) else None | _ \<Rightarrow> None)"

definition parse_string_or_array :: "paseto_env \<Rightarrow> json \<Rightarrow> string list" where
  "parse_string_or_array env j = (case j of
     JArray arr \<Rightarrow> json_strings arr
   | JString s \<Rightarrow> (case Option.bind (pe_json env s) string_array of Some arr \<Rightarrow> arr | None \<Rightarrow> [])
   | _ \<Rightarrow> [])"

definition known_keys :: "string list" where
  "known_keys = [''sub'', ''exp'', ''iat'', ''jti'', ''iss'', ''aud'', ''email'', ''username'', ''roles'', ''perms'']"

definition custom_value :: "paseto_env \<Rightarrow> json \<Rightarrow> json" where
  "custom_value env v = (case json_str v of
     Some s \<Rightarrow> (case pe_json env s of Some parsed \<Rightarrow> parsed | None \<Rightarrow> v) | None \<Rightarrow> v)"

definition claim_time :: "paseto_env \<Rightarrow> json \<Rightarrow> error + int" where
  "claim_time env j = (case json_str j of
     Some t \<Rightarrow> (case pe_rfc3339 env t of
        Some ts \<Rightarrow> Inr ts | None \<Rightarrow> Inl (Paseto (''Invalid '' @ [CHR 0x27] @ ''exp'' @ [CHR 0x27] @ '' claim format'')))
   | None \<Rightarrow> (case json_i64 j of
        Some ts \<Rightarrow> Inr ts
      | None \<Rightarrow> Inl (Paseto (''Missing or invalid '' @ [CHR 0x27] @ ''exp'' @ [CHR 0x27] @ '' claim''))))"

definition json_to_claims :: "paseto_env \<Rightarrow> json \<Rightarrow> error + claims" where
  "json_to_claims env j =
     (case json_str (json_get j ''sub'') of
        None \<Rightarrow> Inl (Paseto (''Missing '' @ [CHR 0x27] @ ''sub'' @ [CHR 0x27] @ '' claim''))
      | Some sub \<Rightarrow>
          (case claim_time env (json_get j ''exp'') of
             Inl e \<Rightarrow> Inl e
           | Inr exp \<Rightarrow>
               Inr \<lparr>cl_sub = sub, cl_email = json_str (json_get j ''email''),
                    cl_username = json_str (json_get j ''username''),
                    cl_roles = parse_string_or_array env (json_get j ''roles''),
                    cl_perms = parse_string_or_array env (json_get j ''perms''),
                    cl_exp = exp,
                    cl_iat = (case json_str (json_get j ''iat'') of
                       Some t \<Rightarrow> pe_rfc3339 env t | None \<Rightarrow> json_i64 (json_get j ''iat'')),
                    cl_jti = json_str (json_get j ''jti''), cl_iss = json_str (json_get j ''iss''),
                    cl_aud = json_str (json_get j ''aud''),
                    cl_custom = (case j of
                       JObject entries \<Rightarrow> map (\<lambda>(k, v). (k, custom_value env v))
                         (filter (\<lambda>(k, v). \<not> List.member known_keys k) entries)
                     | _ \<Rightarrow> [])\<rparr>))"

definition validate_under :: "paseto_env \<Rightarrow> 'r paseto_auth \<Rightarrow> u8 list \<Rightarrow> string \<Rightarrow> error + claims" where
  "validate_under env auth key token =
     (case pe_parse env (pa_purpose auth) key (pa_issuer auth) (pa_audience auth) (pe_footer env token) token of
        Inl e \<Rightarrow> Inl (Paseto (''Invalid PASETO token: '' @ e))
      | Inr payload \<Rightarrow> json_to_claims env payload)"

definition validate_with_static_key :: "paseto_env \<Rightarrow> 'r paseto_auth \<Rightarrow> string \<Rightarrow> error + claims" where
  "validate_with_static_key env auth token = validate_under env auth (pa_key_bytes auth) token"

definition validate_with_key_bytes ::
  "paseto_env \<Rightarrow> 'r paseto_auth \<Rightarrow> string \<Rightarrow> u8 list \<Rightarrow> error + claims" where
  "validate_with_key_bytes env auth token key_bytes =
     (if length key_bytes \<noteq> 32
      then Inl (Internal (''rotated key material must be 32 bytes, got '' @ show_nat (length key_bytes)))
      else validate_under env auth key_bytes token)"

fun validate_with_any :: "paseto_env \<Rightarrow> 'r paseto_auth \<Rightarrow> string \<Rightarrow> cached_key list \<Rightarrow> claims option" where
  "validate_with_any env auth token [] = None"
| "validate_with_any env auth token (cached # keys) =
     (case validate_with_key_bytes env auth token (ck_key_material cached) of
        Inr c \<Rightarrow> Some c
      | Inl _ \<Rightarrow> validate_with_any env auth token keys)"

definition paseto_validate_token ::
  "paseto_env \<Rightarrow> crypto_env \<Rightarrow> 's key_ops \<Rightarrow> instant \<Rightarrow> 'r paseto_auth \<Rightarrow> string \<Rightarrow> key_manager \<Rightarrow> 's \<Rightarrow>
     (error + claims) \<times> key_manager" where
  "paseto_validate_token env cy ops instant_now auth token km st =
     (case validate_with_static_key env auth token of
        Inr c \<Rightarrow> (Inr c, km)
      | Inl e \<Rightarrow>
          if pa_has_key_manager auth
          then (case get_all_verification_keys cy ops instant_now km st of
                  (Inl e', km') \<Rightarrow> (Inl e', km')
                | (Inr keys, km') \<Rightarrow>
                    (case validate_with_any env auth token keys of
                       Some c \<Rightarrow> (Inr c, km')
                     | None \<Rightarrow> (Inl e, km')))
          else (Inl e, km))"

subsection \<open>Revocation\<close>

record 'r redis_token_revocation =
  tr_pool :: "'r redis"
  tr_key_prefix :: string

definition revocation_new :: "'r redis \<Rightarrow> 'r redis_token_revocation" where
  "revocation_new pool = \<lparr>tr_pool = pool, tr_key_prefix = ''token:revoked:''\<rparr>"

definition revocation_with_prefix :: "'r redis \<Rightarrow> string \<Rightarrow> 'r redis_token_revocation" where
  "revocation_with_prefix pool prefix = \<lparr>tr_pool = pool, tr_key_prefix = prefix\<rparr>"

definition revocation_key :: "'r redis_token_revocation \<Rightarrow> string \<Rightarrow> string" where
  "revocation_key tr jti = tr_key_prefix tr @ jti"

definition is_revoked :: "'r redis_token_revocation \<Rightarrow> string \<Rightarrow> nat \<Rightarrow> 'r \<Rightarrow> error + bool" where
  "is_revoked tr jti now s =
     (case rd_connect (tr_pool tr) s of
        Some e \<Rightarrow> Inl (Internal (''Failed to get Redis connection: '' @ e))
      | None \<Rightarrow>
          (case rd_exists (tr_pool tr) (revocation_key tr jti) now s of
             Inl e \<Rightarrow> Inl (Internal (''Failed to check revocation status: '' @ e))
           | Inr b \<Rightarrow> Inr b))"

definition revoke_jti :: "'r redis_token_revocation \<Rightarrow> string \<Rightarrow> u64 \<Rightarrow> nat \<Rightarrow> 'r \<Rightarrow> (error + unit) \<times> 'r" where
  "revoke_jti tr jti ttl_secs now s =
     (case rd_connect (tr_pool tr) s of
        Some e \<Rightarrow> (Inl (Internal (''Failed to get Redis connection: '' @ e)), s)
      | None \<Rightarrow>
          (case rd_set_ex (tr_pool tr) (revocation_key tr jti) ''1'' (uint ttl_secs) now s of
             (Inl e, s') \<Rightarrow> (Inl (Internal (''Failed to revoke token: '' @ e)), s')
           | (Inr _, s') \<Rightarrow> (Inr (), s')))"

subsection \<open>The middleware\<close>

text \<open>A validator and a revocation check as functions of the state they live in.\<close>

record 's token_auth =
  ta_validate :: "string \<Rightarrow> 's \<Rightarrow> (error + claims) \<times> 's"
  ta_revocation :: "(string \<Rightarrow> 's \<Rightarrow> error + bool) option"
  ta_public_paths :: "string list"

definition token_exempt :: "string list \<Rightarrow> string \<Rightarrow> bool" where
  "token_exempt public_paths path \<longleftrightarrow>
     path = ''/health'' \<or> path = ''/ready'' \<or> starts_with path ''/swagger-ui'' \<or> starts_with path ''/api-docs''
     \<or> list_ex (starts_with path) public_paths"

definition revoked_event ::
  "stamp \<Rightarrow> audit_logger option \<Rightarrow> audit_source \<Rightarrow> string \<Rightarrow> audit_event list" where
  "revoked_event stamp logger source jti =
     (case logger of
        None \<Rightarrow> []
      | Some lg \<Rightarrow>
          if ac_audit_auth_events (lg_config lg)
          then [with_metadata (with_source (audit_event_new (fst stamp) (snd stamp) AuthTokenRevoked Warning
                 (lg_service_name lg)) source) (JObject [(''jti'', JString jti)])]
          else [])"

definition token_admit ::
  "stamp \<Rightarrow> audit_logger option \<Rightarrow> audit_source \<Rightarrow> claims \<Rightarrow> 's service \<Rightarrow> 's service" where
  "token_admit stamp logger source c next rq s =
     (case next (rq\<lparr>hr_ext := (hr_ext rq)\<lparr>ext_claims := Some c\<rparr>\<rparr>) s of
        (rp, s', events) \<Rightarrow> (rp, s', audit_auth stamp logger AuthLoginSuccess Notice source @ events))"

definition token_middleware ::
  "(string \<Rightarrow> string option) \<Rightarrow> stamp \<Rightarrow> 's token_auth \<Rightarrow> 's service \<Rightarrow> 's service" where
  "token_middleware hv stamp auth next rq s =
     (if hr_method rq = ''OPTIONS'' then next rq s
      else if token_exempt (ta_public_paths auth) (hr_path rq) then next rq s
      else if bearer_waived (hr_ext rq) then next rq s
      else let audit_source = audit_source_for_request rq; logger = ext_audit_logger (hr_ext rq)
           in case extract_token (hr_headers rq) of
                Inl e \<Rightarrow> (reject hv e, s, audit_auth stamp logger AuthTokenMissing Informational audit_source)
              | Inr token \<Rightarrow>
                  (case ta_validate auth token s of
                     (Inl e, s') \<Rightarrow>
                       (reject hv e, s', audit_auth stamp logger AuthTokenInvalid Warning audit_source)
                   | (Inr c, s') \<Rightarrow>
                       (let source = audit_source\<lparr>src_subject := Some (cl_sub c)\<rparr>
                        in case (ta_revocation auth, cl_jti c) of
                             (Some revoked, Some jti) \<Rightarrow>
                               (case revoked jti s' of
                                  Inl e \<Rightarrow> (reject hv e, s', [])
                                | Inr True \<Rightarrow> (reject hv (Unauthorized ''Token has been revoked''), s',
                                    revoked_event stamp logger source jti)
                                | Inr False \<Rightarrow> token_admit stamp logger source c next rq s')
                           | _ \<Rightarrow> token_admit stamp logger source c next rq s')))"

subsection \<open>Which requests pass\<close>

text \<open>The header carries a token that validates and, where that is checked, is not revoked.\<close>

definition token_accepted :: "'s token_auth \<Rightarrow> header_map \<Rightarrow> 's \<Rightarrow> claims \<Rightarrow> 's \<Rightarrow> bool" where
  "token_accepted auth headers s c s' \<longleftrightarrow>
     (\<exists>token. extract_token headers = Inr token \<and> ta_validate auth token s = (Inr c, s')) \<and>
     (\<forall>revoked jti. ta_revocation auth = Some revoked \<and> cl_jti c = Some jti \<longrightarrow> revoked jti s' = Inr False)"

lemma reject_status: "400 \<le> rp_status (reject hv e)"
proof (cases e)
  case (Database d)
  then show ?thesis by (cases "de_kind d") (simp_all add: reject_def coded_def Let_def)
next
  case (AccountLocked m n)
  then show ?thesis by (simp add: reject_def coded_def Let_def split: option.splits)
qed (simp_all add: reject_def coded_def Let_def)

text \<open>A rejection does not depend on the service behind the middleware: the service is not run.\<close>

definition refused :: "('s service \<Rightarrow> 's service) \<Rightarrow> request \<Rightarrow> 's \<Rightarrow> bool" where
  "refused middleware rq s \<longleftrightarrow>
     (\<exists>rp s' events. 400 \<le> rp_status rp \<and> (\<forall>next. middleware next rq s = (rp, s', events)))"

lemma refusedI: "(\<And>next. middleware next rq s = (reject hv e, s', events)) \<Longrightarrow> refused middleware rq s"
  unfolding refused_def using reject_status by metis

lemma token_middleware_gate:
  assumes "hr_method rq \<noteq> ''OPTIONS''" and "\<not> token_exempt (ta_public_paths auth) (hr_path rq)"
    and "\<not> bearer_waived (hr_ext rq)"
  shows "(\<exists>c s' source. token_accepted auth (hr_headers rq) s c s' \<and>
        (\<forall>next. token_middleware hv stamp auth next rq s =
           token_admit stamp (ext_audit_logger (hr_ext rq)) source c next rq s'))
    \<or> (\<nexists>c s'. token_accepted auth (hr_headers rq) s c s') \<and> refused (token_middleware hv stamp auth) rq s"
proof (cases "extract_token (hr_headers rq)")
  case (Inl e)
  then have "refused (token_middleware hv stamp auth) rq s"
    by (intro refusedI) (simp add: token_middleware_def Let_def assms)
  with Inl show ?thesis by (simp add: token_accepted_def)
next
  case (Inr token)
  note tok = Inr
  obtain v s' where v: "ta_validate auth token s = (v, s')" by (cases "ta_validate auth token s")
  show ?thesis
  proof (cases v)
    case (Inl e)
    then have "refused (token_middleware hv stamp auth) rq s"
      using tok v by (intro refusedI) (simp add: token_middleware_def Let_def assms)
    with tok v Inl show ?thesis by (simp add: token_accepted_def)
  next
    case (Inr c)
    show ?thesis
    proof (cases "\<exists>revoked jti. ta_revocation auth = Some revoked \<and> cl_jti c = Some jti \<and> revoked jti s' \<noteq> Inr False")
      case True
      then obtain revoked jti where r: "ta_revocation auth = Some revoked" "cl_jti c = Some jti" "revoked jti s' \<noteq> Inr False"
        by blast
      have "refused (token_middleware hv stamp auth) rq s"
      proof (cases "revoked jti s'")
        case (Inl e)
        with tok v Inr r show ?thesis
          by (intro refusedI) (simp add: token_middleware_def Let_def assms)
      next
        case (Inr b)
        with tok v \<open>v = Inr c\<close> r show ?thesis
          by (intro refusedI) (simp add: token_middleware_def Let_def assms)
      qed
      with tok v Inr r show ?thesis by (auto simp: token_accepted_def)
    next
      case False
      have "token_middleware hv stamp auth next rq s = token_admit stamp (ext_audit_logger (hr_ext rq))
          ((audit_source_for_request rq)\<lparr>src_subject := Some (cl_sub c)\<rparr>) c next rq s'" for "next"
        using tok v Inr False by (auto simp: token_middleware_def Let_def assms split: option.splits)
      with tok v Inr False show ?thesis unfolding token_accepted_def by blast
    qed
  qed
qed

text \<open>
  C8: the token gate. A request that is not a preflight, not on an exempt path and not admitted by
  certificate reaches the service exactly when its \<^verbatim>\<open>Authorization\<close> header carries a token that
  validates and that a configured revocation check answers to be unrevoked; a token without an
  identifier is not checked. The service then runs once, on the same request with the validated
  claims in place of any other claims. Otherwise, also when the revocation check itself fails,
  the client gets an error status and the service is not run.
\<close>

theorem token_gate:
  assumes "hr_method rq \<noteq> ''OPTIONS''" and "\<not> token_exempt (ta_public_paths auth) (hr_path rq)"
    and "\<not> bearer_waived (hr_ext rq)"
  shows "if \<exists>c s'. token_accepted auth (hr_headers rq) s c s'
    then \<exists>c s' own. token_accepted auth (hr_headers rq) s c s' \<and>
      (\<forall>next rp s'' events. next (rq\<lparr>hr_ext := (hr_ext rq)\<lparr>ext_claims := Some c\<rparr>\<rparr>) s' = (rp, s'', events) \<longrightarrow>
        token_middleware hv stamp auth next rq s = (rp, s'', own @ events))
    else refused (token_middleware hv stamp auth) rq s"
  using token_middleware_gate [OF assms, of s hv stamp]
proof (elim disjE exE conjE)
  fix c s' source
  assume acc: "token_accepted auth (hr_headers rq) s c s'"
    and admit: "\<forall>next. token_middleware hv stamp auth next rq s =
      token_admit stamp (ext_audit_logger (hr_ext rq)) source c next rq s'"
  then have "\<forall>next rp s'' events. next (rq\<lparr>hr_ext := (hr_ext rq)\<lparr>ext_claims := Some c\<rparr>\<rparr>) s' = (rp, s'', events) \<longrightarrow>
      token_middleware hv stamp auth next rq s =
        (rp, s'', audit_auth stamp (ext_audit_logger (hr_ext rq)) AuthLoginSuccess Notice source @ events)"
    by (simp add: token_admit_def)
  with acc show ?thesis by auto
qed simp

subsection \<open>Revoked tokens\<close>

context redis_laws
begin

lemma revoke_jti_live:
  assumes "tr_pool tr = R" and "revoke_jti tr jti ttl t0 r0 = (Inr (), r1)" and "0 < ttl"
    and "now < t0 + unat ttl * 1000"
  shows "live now (view r1) (revocation_key tr jti) \<noteq> None"
proof -
  have "0 < uint ttl" using assms(3) by (simp add: word_less_def)
  moreover obtain u where "rd_set_ex R (revocation_key tr jti) ''1'' (uint ttl) t0 r0 = (Inr u, r1)"
    using assms(1,2) by (auto simp: revoke_jti_def split: option.splits prod.splits sum.splits)
  ultimately have "view r1 = (view r0)(revocation_key tr jti \<mapsto> (''1'', Some (t0 + nat (uint ttl) * 1000)))"
    using set_ex_ok by blast
  with assms(4) show ?thesis by (simp add: live_def)
qed

lemma is_revoked_live:
  assumes "tr_pool tr = R" and "live now (view r) (revocation_key tr jti) \<noteq> None"
  shows "is_revoked tr jti now r \<noteq> Inr False"
proof
  assume "is_revoked tr jti now r = Inr False"
  then have "rd_exists R (revocation_key tr jti) now r = Inr False"
    using assms(1) by (auto simp: is_revoked_def split: option.splits sum.splits)
  with exists_ok [OF this] assms(2) show False by simp
qed

end


subsection \<open>Trusted keys\<close>

text \<open>A key that the storage hands out for verification at this moment.\<close>

definition stored_key :: "crypto_env \<Rightarrow> 's key_ops \<Rightarrow> string \<Rightarrow> 's \<Rightarrow> cached_key \<Rightarrow> bool" where
  "stored_key cy ops service st cached \<longleftrightarrow>
     (\<exists>kid m. ko_get_key_by_kid ops kid st = Inr (Some m) \<and> sk_status m \<noteq> Retired \<and> decode_key_metadata cy m = Inr cached) \<or>
     (\<exists>ms m. ko_get_verification_keys ops service st = Inr ms \<and> m \<in> set ms \<and> decode_key_metadata cy m = Inr cached)"

definition cached_keys :: "key_manager \<Rightarrow> cached_key set" where
  "cached_keys km = snd ` set (kc_verification_keys (km_cache km))"

lemma decode_all_keys:
  "decode_all cy ms acc = Inr keys \<Longrightarrow> snd ` set keys \<subseteq> snd ` set acc \<union> {c. \<exists>m \<in> set ms. decode_key_metadata cy m = Inr c}"
proof (induction ms arbitrary: acc)
  case (Cons m ms)
  then obtain c where c: "decode_key_metadata cy m = Inr c" "decode_all cy ms (AList.update (ck_kid c) c acc) = Inr keys"
    by (auto split: sum.splits)
  have "snd ` set (AList.update (ck_kid c) c acc) \<subseteq> insert c (snd ` set acc)"
    by (induction acc) auto
  with Cons.IH [OF c(2)] c(1) show ?case by auto
qed simp

lemma refresh_keys:
  assumes "refresh_if_stale cy ops t km st = (r, km')"
  shows "cached_keys km' \<subseteq> cached_keys km \<union> {c. stored_key cy ops (km_service_name km) st c}"
proof (cases "km' = km")
  case False
  with assms obtain ms keys where "ko_get_verification_keys ops (km_service_name km) st = Inr ms"
    and keys: "decode_all cy ms [] = Inr keys" "kc_verification_keys (km_cache km') = keys"
    by (auto simp: refresh_if_stale_def refresh_cache_def split: if_splits sum.splits)
  with decode_all_keys [OF keys(1)] show ?thesis by (auto simp: cached_keys_def stored_key_def)
qed simp

lemma verification_key_keys:
  assumes "get_verification_key cy ops kid km st = (Inr (Some cached), km')"
  shows "cached \<in> cached_keys km \<union> {c. stored_key cy ops (km_service_name km) st c}"
proof (cases "map_of (kc_verification_keys (km_cache km)) kid")
  case (Some k)
  with assms have "(kid, cached) \<in> set (kc_verification_keys (km_cache km))"
    by (auto simp: get_verification_key_def dest: map_of_SomeD)
  then show ?thesis by (force simp: cached_keys_def)
next
  case None
  with assms obtain m where "ko_get_key_by_kid ops kid st = Inr (Some m)" "sk_status m \<noteq> Retired"
    "decode_key_metadata cy m = Inr cached"
    by (auto simp: get_verification_key_def split: option.splits sum.splits if_splits)
  then show ?thesis by (auto simp: stored_key_def)
qed

lemma all_verification_keys:
  assumes "get_all_verification_keys cy ops t km st = (Inr keys, km')"
  shows "set keys \<subseteq> cached_keys km \<union> {c. stored_key cy ops (km_service_name km) st c}"
proof -
  obtain u where "refresh_if_stale cy ops t km st = (Inr u, km')" "set keys = cached_keys km'"
    using assms by (auto simp: get_all_verification_keys_def cached_keys_def split: prod.splits sum.splits)
  then show ?thesis using refresh_keys [of cy ops t km st] by simp
qed

lemma verification_key_missing:
  "get_verification_key cy ops kid km st = (Inr None, km') \<Longrightarrow> km' = km"
  by (auto simp: get_verification_key_def split: option.splits sum.splits if_splits)

lemma decode_with_any_Some:
  "decode_with_any env validation token keys = Some c \<Longrightarrow>
     \<exists>k \<in> set keys. \<exists>dk. create_decoding_key env (ck_key_material k) validation = Inr dk \<and> jw_decode env token dk validation = Inr c"
  by (induction keys) (auto split: sum.splits)

lemma validate_with_any_Some:
  "validate_with_any env auth token keys = Some c \<Longrightarrow>
     \<exists>k \<in> set keys. length (ck_key_material k) = 32 \<and> validate_under env auth (ck_key_material k) token = Inr c"
  by (induction keys) (auto simp: validate_with_key_bytes_def split: sum.splits if_splits)


subsection \<open>Samples\<close>

definition sample_claims :: claims where
  "sample_claims =
     \<lparr>cl_sub = ''user:1'', cl_email = None, cl_username = None, cl_roles = [], cl_perms = [], cl_exp = 100,
      cl_iat = None, cl_jti = Some ''j1'', cl_iss = None, cl_aud = None, cl_custom = []\<rparr>"

definition sample_token_auth :: "nat \<Rightarrow> keyspace token_auth" where
  "sample_token_auth now =
     \<lparr>ta_validate = (\<lambda>token s. if token = ''good'' then (Inr sample_claims, s) else (Inl (Jwt ''InvalidToken''), s)),
      ta_revocation = Some (\<lambda>jti s. is_revoked (revocation_new mem_redis) jti now s),
      ta_public_paths = [''/admin/'']\<rparr>"

definition sample_request :: request where
  "sample_request =
     \<lparr>hr_method = ''GET'', hr_path = ''/api'', hr_headers = [(''authorization'', ''Bearer good'')],
      hr_ext = hr_ext (sample_caller_request None)\<rparr>"

lemma sample_request_guarded:
  "hr_method sample_request \<noteq> ''OPTIONS''" "\<not> token_exempt (ta_public_paths (sample_token_auth now)) (hr_path sample_request)"
  "\<not> bearer_waived (hr_ext sample_request)"
  by (simp_all add: sample_request_def token_exempt_def sample_token_auth_def bearer_waived_def sample_caller_request_def)

lemma sample_extract: "extract_token (hr_headers sample_request) = Inr ''good''"
  by code_simp

definition claims_service :: "keyspace service" where
  "claims_service rq s =
     (\<lparr>rp_status = (if ext_claims (hr_ext rq) = Some sample_claims then 200 else 500), rp_headers = [], rp_body = Opaque []\<rparr>, s, [])"

lemma sample_accepted:
  "token_accepted (sample_token_auth 5) (hr_headers sample_request) Map.empty c s' \<longleftrightarrow> c = sample_claims \<and> s' = Map.empty"
proof -
  have "is_revoked (revocation_new mem_redis) ''j1'' 5 Map.empty = Inr False"
    by (simp add: is_revoked_def revocation_new_def mem_redis_def live_def)
  then show ?thesis
    by (auto simp: token_accepted_def sample_extract sample_token_auth_def sample_claims_def)
qed

theorem token_gate_witness:
  "rp_status (fst (token_middleware Some ([], 0) (sample_token_auth 5) claims_service sample_request Map.empty)) = 200
   \<and> refused (token_middleware Some ([], 0) (sample_token_auth 5)) (sample_request\<lparr>hr_headers := []\<rparr>) Map.empty"
proof
  from token_gate [OF sample_request_guarded(1) sample_request_guarded(2) [of 5] sample_request_guarded(3), of Map.empty Some "([], 0)"]
  show "rp_status (fst (token_middleware Some ([], 0) (sample_token_auth 5) claims_service sample_request Map.empty)) = 200"
    by (auto simp: sample_accepted claims_service_def)
next
  have "\<not> token_accepted (sample_token_auth 5) [] Map.empty c s'" for c s'
    by (simp add: token_accepted_def extract_token_def header_string_def)
  with token_gate [where rq = "sample_request\<lparr>hr_headers := []\<rparr>" and auth = "sample_token_auth 5"] sample_request_guarded
  show "refused (token_middleware Some ([], 0) (sample_token_auth 5)) (sample_request\<lparr>hr_headers := []\<rparr>) Map.empty"
    by simp
qed


definition rotated_key :: cached_key where
  "rotated_key = \<lparr>ck_kid = ''k1'', ck_format = PasetoV4Local, ck_key_material = replicate 32 7, ck_status = Active\<rparr>"

definition rotated_manager :: key_manager where
  "rotated_manager = sample_manager\<lparr>km_cache := \<lparr>kc_active_key = Some rotated_key,
     kc_verification_keys = [(''k1'', rotated_key)], kc_last_refresh = 0\<rparr>\<rparr>"

definition sample_jwt_env :: "u8 list jwt_env" where
  "sample_jwt_env =
     \<lparr>jw_decode_header = (\<lambda>token. Inr (Some ''k1'')),
      jw_decode = (\<lambda>token key validation. if key = replicate 32 7 then Inr sample_claims else Inl ''InvalidSignature''),
      jw_rsa_pem = Inr, jw_ec_pem = Inr, jw_secret = (\<lambda>k. k), jw_upper = to_uppercase, jw_read = (\<lambda>path. Inr [1])\<rparr>"

definition sample_jwt_auth :: "(u8 list, unit) jwt_auth" where
  "sample_jwt_auth =
     \<lparr>ja_decoding_key = [1], ja_validation = \<lparr>jv_algorithms = [HS256], jv_issuer = None, jv_audience = None\<rparr>,
      ja_revocation = None, ja_has_key_manager = True, ja_public_paths = []\<rparr>"


end
