(* ===== verification/Audit_Middleware.thy ===== *)
theory Audit_Middleware
  imports Request
begin

text \<open>
  The HTTP audit middleware (\<^verbatim>\<open>src/acton-service/src/audit/middleware.rs\<close>): which requests are
  audited, the glob patterns that decide it, and the event it hands to the audit agent.
\<close>

text \<open>\<^verbatim>\<open>str::strip_suffix\<close> and \<^verbatim>\<open>str::ends_with\<close>.\<close>

definition strip_suffix :: "string \<Rightarrow> string \<Rightarrow> string option" where
  "strip_suffix s p = map_option rev (strip_prefix (rev s) (rev p))"

definition ends_with :: "string \<Rightarrow> string \<Rightarrow> bool" where
  "ends_with s p \<longleftrightarrow> starts_with (rev s) (rev p)"

lemma strip_suffix_Some: "strip_suffix s p = Some r \<longleftrightarrow> s = r @ p"
  unfolding strip_suffix_def
  by (auto simp: strip_prefix_Some) (metis rev_append rev_rev_ident)+

lemma ends_with_iff: "ends_with s p \<longleftrightarrow> (\<exists>r. s = r @ p)"
  unfolding ends_with_def starts_with_iff by (metis rev_append rev_rev_ident)

definition path_matches_glob :: "string \<Rightarrow> string \<Rightarrow> bool" where
  "path_matches_glob path pattern =
     (if path = pattern then True
      else case strip_suffix pattern ''/*'' of
        Some prefix \<Rightarrow> starts_with path prefix \<and> length prefix < length path
      | None \<Rightarrow>
          (case strip_suffix pattern ''/**'' of
             Some prefix \<Rightarrow> starts_with path prefix
           | None \<Rightarrow>
               (case split_char CHR ''*'' pattern of
                  [p, q] \<Rightarrow> starts_with path p \<and> ends_with path q
                | _ \<Rightarrow> False)))"

fun path_matches_patterns :: "string \<Rightarrow> string list \<Rightarrow> bool" where
  "path_matches_patterns path [] = False"
| "path_matches_patterns path (pattern # patterns) =
     (if path_matches_glob path pattern then True else path_matches_patterns path patterns)"

definition should_audit :: "audit_config \<Rightarrow> request \<Rightarrow> bool" where
  "should_audit config rq =
     (if ext_audit_route (hr_ext rq) \<noteq> None then True
      else if path_matches_patterns (hr_path rq) (ac_excluded_routes config) then False
      else if ac_audit_all_requests config then True
      else path_matches_patterns (hr_path rq) (ac_audited_routes config))"

definition status_severity :: "u16 \<Rightarrow> audit_severity" where
  "status_severity status_code =
     (if 500 \<le> status_code then Error else if 400 \<le> status_code then Warning else Informational)"

text \<open>
  The elapsed milliseconds are an argument; the event is stamped after the handler has run. The
  annotation of a route is a layer of that route that puts its name into the extensions.
\<close>

definition audit_layer :: "string \<Rightarrow> 's service \<Rightarrow> 's service" where
  "audit_layer name next rq = next (rq\<lparr>hr_ext := (hr_ext rq)\<lparr>ext_audit_route := Some name\<rparr>\<rparr>)"

definition request_event ::
  "audit_logger \<Rightarrow> stamp \<Rightarrow> u64 \<Rightarrow> request \<Rightarrow> u16 \<Rightarrow> audit_event" where
  "request_event logger stamp duration_ms rq status_code =
     (let source = (audit_source_for_request rq)\<lparr>src_subject := map_option cl_sub (ext_claims (hr_ext rq))\<rparr>;
          kind = (case ext_audit_route (hr_ext rq) of Some name \<Rightarrow> Custom name | None \<Rightarrow> HttpRequest)
      in with_http (with_source (audit_event_new (fst stamp) (snd stamp) kind (status_severity status_code)
           (lg_service_name logger)) source) (hr_method rq) (hr_path rq) (Some status_code) (Some duration_ms))"

definition audit_middleware :: "audit_logger \<Rightarrow> stamp \<Rightarrow> u64 \<Rightarrow> 's service \<Rightarrow> 's service" where
  "audit_middleware logger stamp duration_ms next rq s =
     (if \<not> should_audit (lg_config logger) rq then next rq s
      else case next rq s of
        (rp, s', events) \<Rightarrow> (rp, s', events @ [request_event logger stamp duration_ms rq (rp_status rp)]))"

subsection \<open>Properties\<close>

lemma split_two: "split_char d s = [p, q] \<longleftrightarrow> s = p @ d # q \<and> d \<notin> set p \<and> d \<notin> set q"
proof
  assume eq: "split_char d s = [p, q]"
  then have "s = p @ d # q" using join_split_char [of d s] by simp
  moreover have "d \<notin> set p" "d \<notin> set q" using split_char_no_sep [of _ d s] eq by auto
  ultimately show "s = p @ d # q \<and> d \<notin> set p \<and> d \<notin> set q" by blast
qed (auto simp: split_char_append split_char_id)

text \<open>One star that is not the whole last segment.\<close>

definition single_star :: "string \<Rightarrow> string \<Rightarrow> string \<Rightarrow> bool" where
  "single_star pattern p q \<longleftrightarrow> pattern = p @ ''*'' @ q \<and> CHR ''*'' \<notin> set p \<and> CHR ''*'' \<notin> set q
     \<and> \<not> ends_with pattern ''/*''"

lemma strip_suffix_None: "strip_suffix s p = None \<longleftrightarrow> \<not> ends_with s p"
  by (simp add: strip_suffix_def ends_with_def strip_prefix_None)

text \<open>
  The meaning of the audit patterns. A path is covered by a pattern when it is equal to it, when
  the pattern ends in a last segment that is one star and the path is a proper extension of the
  text before that segment, when it ends in a double star and the path extends the text before
  it, or when the pattern has one other star and the path begins and ends with the parts around
  it. In particular a star segment also covers siblings: \<^verbatim>\<open>/health/*\<close> covers
  \<^verbatim>\<open>/healthcare\<close>, which is not below \<^verbatim>\<open>/health\<close>.
\<close>

theorem path_matches_glob_iff:
  "path_matches_glob path pattern \<longleftrightarrow>
     path = pattern \<or>
     (\<exists>prefix r. pattern = prefix @ ''/*'' \<and> path = prefix @ r \<and> r \<noteq> []) \<or>
     (\<exists>prefix r. pattern = prefix @ ''/**'' \<and> path = prefix @ r) \<or>
     (\<exists>p q. single_star pattern p q \<and> starts_with path p \<and> ends_with path q)"
  (is "_ \<longleftrightarrow> _ \<or> ?one \<or> ?two \<or> ?star")
proof (cases "strip_suffix pattern ''/*''")
  case (Some prefix)
  then have pattern: "pattern = prefix @ ''/*''" by (simp add: strip_suffix_Some)
  have "last (butlast (prefix @ ''/*'')) \<noteq> last (butlast (prefix' @ ''/**''))" for prefix' :: string
    by (simp add: butlast_append)
  with pattern have "\<not> ?two" by metis
  moreover from pattern have "\<not> ?star" by (auto simp: single_star_def ends_with_iff)
  ultimately
  show ?thesis using Some pattern by (auto simp: path_matches_glob_def starts_with_iff)
next
  case one: None
  then have "\<not> ?one" by (auto simp: strip_suffix_None ends_with_iff)
  show ?thesis
  proof (cases "strip_suffix pattern ''/**''")
    case (Some prefix)
    then have pattern: "pattern = prefix @ ''/**''" by (simp add: strip_suffix_Some)
    then have "\<not> ?star" by (auto simp: single_star_def append_eq_append_conv2 append_eq_Cons_conv Cons_eq_append_conv)
    with \<open>\<not> ?one\<close> one Some pattern show ?thesis by (auto simp: path_matches_glob_def starts_with_iff)
  next
    case None
    then have "\<not> ?two" by (auto simp: strip_suffix_None ends_with_iff)
    have "?star \<longleftrightarrow> (\<exists>p q. split_char CHR ''*'' pattern = [p, q] \<and> starts_with path p \<and> ends_with path q)"
      using one by (simp add: single_star_def split_two strip_suffix_None)
    also have "\<dots> \<longleftrightarrow> (case split_char CHR ''*'' pattern of [p, q] \<Rightarrow> starts_with path p \<and> ends_with path q | _ \<Rightarrow> False)"
      by (auto split: list.splits)
    finally have star: "?star \<longleftrightarrow> \<dots>" .
    have "path_matches_glob path pattern \<longleftrightarrow> path = pattern \<or> ?star"
      unfolding star using one None by (simp add: path_matches_glob_def)
    with \<open>\<not> ?one\<close> \<open>\<not> ?two\<close> show ?thesis by blast
  qed
qed

text \<open>
  A route annotation has no effect on the audit trail. The annotation is a layer of the route
  and the audit middleware wraps the router, so the middleware decides before the annotation is
  set. For a request that arrives without one, an annotated route is audited only when the
  configured patterns cover its path, and then as a plain HTTP request, never under its name.
\<close>

theorem route_annotation_ignored:
  assumes "ext_audit_route (hr_ext rq) = None"
    and "next (rq\<lparr>hr_ext := (hr_ext rq)\<lparr>ext_audit_route := Some name\<rparr>\<rparr>) s = (rp, s', events)"
  shows "\<exists>own. audit_middleware logger stamp duration_ms (audit_layer name next) rq s = (rp, s', events @ own)
    \<and> length own = (if \<not> path_matches_patterns (hr_path rq) (ac_excluded_routes (lg_config logger))
          \<and> (ac_audit_all_requests (lg_config logger)
             \<or> path_matches_patterns (hr_path rq) (ac_audited_routes (lg_config logger))) then 1 else 0)
    \<and> (\<forall>ev \<in> set own. ev_kind ev = HttpRequest)"
  using assms
  by (auto simp: audit_middleware_def audit_layer_def should_audit_def request_event_def audit_event_defs Let_def)

subsection \<open>Samples\<close>

definition no_ext :: extensions where
  "no_ext = \<lparr>ext_connect_info = None, ext_tls_connect_info = None, ext_original_uri = None,
     ext_request_context = None, ext_caller_identity = None, ext_claims = None,
     ext_audit_logger = None, ext_audit_route = None\<rparr>"

definition plain_request :: "string \<Rightarrow> string \<Rightarrow> header_map \<Rightarrow> request" where
  "plain_request verb path headers =
     \<lparr>hr_method = verb, hr_path = path, hr_headers = headers, hr_ext = no_ext\<rparr>"

definition ok_service :: "'s service" where
  "ok_service rq s = (\<lparr>rp_status = 200, rp_headers = [], rp_body = Opaque []\<rparr>, s, [])"

definition sample_logger :: audit_logger where
  "sample_logger = \<lparr>lg_service_name = ''svc'', lg_config = sample_config\<rparr>"

theorem route_annotation_ignored_witness:
  "snd (snd (audit_middleware sample_logger ([], 0) 5 (audit_layer ''user.delete'' ok_service)
       (plain_request ''DELETE'' ''/admin/users/7'' []) ())) = []"
  using route_annotation_ignored [of "plain_request ''DELETE'' ''/admin/users/7'' []" ok_service "''user.delete''" "()",
      OF _ ok_service_def, of sample_logger "([], 0)" 5]
  by (auto simp: plain_request_def no_ext_def sample_logger_def sample_config_def)

end
