(* ===== verification/Route_Matcher.thy ===== *)
theory Route_Matcher
  imports Prelude "HOL-Library.AList" "HOL-Library.Sublist" "HOL-Library.Product_Lexorder"
begin

text \<open>
  Matching of request paths against rate-limit routes
  (\<^verbatim>\<open>src/acton-service/src/middleware/route_matcher.rs\<close>): normalisation of paths, compilation of
  the configured patterns and the lookup.

  The \<^verbatim>\<open>regex\<close> crate is a parameter (\<open>regex_env\<close>): compiling an expression, testing a text and
  replacing all matches. \<open>regex_documented\<close> states its documented behaviour for the two kinds of
  expression the code uses: the UUID expression, and \<^verbatim>\<open>^...$\<close> around literal characters,
  \<^verbatim>\<open>[^/]+\<close> and \<^verbatim>\<open>.*\<close>. The hash map of routes is the list of its entries in iteration order.
\<close>

subsection \<open>Regular expressions\<close>

record regex_env =
  rx_new :: "string \<Rightarrow> (string \<Rightarrow> bool) option"
  rx_replace_all :: "string \<Rightarrow> string \<Rightarrow> string \<Rightarrow> string"

definition uuid_regex :: string where
  "uuid_regex = ''[0-9a-fA-F]{8}-[0-9a-fA-F]{4}-[0-9a-fA-F]{4}-[0-9a-fA-F]{4}-[0-9a-fA-F]{12}''"

definition regex_specials :: string where
  "regex_specials = ''.+?()[]^$|'' @ [CHR 0x5C]"

subsection \<open>Normalisation\<close>

definition id_segment :: "string \<Rightarrow> string" where
  "id_segment segment =
     (if segment \<noteq> [] \<and> list_all is_ascii_digit segment then ''{id}'' else segment)"

definition normalize_path :: "regex_env \<Rightarrow> string \<Rightarrow> string" where
  "normalize_path rx path =
     (let normalized = rx_replace_all rx uuid_regex path ''{id}''
      in join ''/'' (map id_segment (split_char CHR ''/'' normalized)))"

subsection \<open>Compilation\<close>

record route_rate_limit_config =
  rr_requests_per_minute :: u32
  rr_burst_size :: u32
  rr_per_user :: bool

record compiled_pattern =
  cp_original :: string
  cp_method :: "string option"
  cp_regex :: "string \<Rightarrow> bool"
  cp_config :: route_rate_limit_config
  cp_specificity :: nat

record compiled_route_patterns =
  cr_method_exact :: "(string \<times> route_rate_limit_config) list"
  cr_exact :: "(string \<times> route_rate_limit_config) list"
  cr_patterns :: "compiled_pattern list"

definition http_methods :: "string list" where
  "http_methods = [''GET'', ''POST'', ''PUT'', ''DELETE'', ''PATCH'', ''HEAD'', ''OPTIONS'']"

fun try_methods :: "string list \<Rightarrow> string \<Rightarrow> string option \<times> string" where
  "try_methods [] trimmed = (None, trimmed)"
| "try_methods (m # ms) trimmed =
     (case strip_prefix trimmed m of
        Some rest \<Rightarrow>
          if starts_with (trim_start rest) ''/'' then (Some m, trim_start rest)
          else try_methods ms trimmed
      | None \<Rightarrow> try_methods ms trimmed)"

definition parse_method_prefix :: "string \<Rightarrow> string option \<times> string" where
  "parse_method_prefix pattern = try_methods http_methods (trim pattern)"

definition has_wildcards :: "string \<Rightarrow> bool" where
  "has_wildcards path \<longleftrightarrow> CHR ''*'' \<in> set path"

text \<open>The characters after an opening brace, up to and including the closing one, are skipped.\<close>

definition skip_brace :: "string \<Rightarrow> string" where
  "skip_brace cs = drop 1 (dropWhile (\<lambda>c. c \<noteq> CHR ''}'') cs)"

lemma length_skip_brace [termination_simp]: "length (skip_brace cs) < Suc (length cs)"
  using length_dropWhile_le [of "\<lambda>c. c \<noteq> CHR ''}''" cs] by (simp add: skip_brace_def)

fun regex_body :: "string \<Rightarrow> string" where
  "regex_body [] = []"
| "regex_body (c # cs) =
     (if c = CHR ''*''
      then (case cs of
              d # ds \<Rightarrow> if d = CHR ''*'' then ''.*'' @ regex_body ds else ''[^/]+'' @ regex_body (d # ds)
            | [] \<Rightarrow> ''[^/]+'')
      else if c = CHR ''{'' then ''[^/]+'' @ regex_body (skip_brace cs)
      else if c \<in> set regex_specials then CHR 0x5C # c # regex_body cs
      else c # regex_body cs)"

text \<open>\<^const>\<open>None\<close> is the panic when the expression does not compile.\<close>

definition compile_pattern_to_regex :: "regex_env \<Rightarrow> string \<Rightarrow> (string \<Rightarrow> bool) option" where
  "compile_pattern_to_regex rx pattern = rx_new rx (''^'' @ regex_body pattern @ ''$'')"

definition segment_score :: "string \<Rightarrow> nat" where
  "segment_score segment =
     (if segment \<noteq> [] \<and> CHR ''*'' \<notin> set segment \<and> CHR ''{'' \<notin> set segment then 10
      else if segment = ''*'' then 5
      else if segment = ''**'' then 1
      else if CHR ''{'' \<in> set segment then 7
      else 0)"

definition calculate_specificity :: "string \<Rightarrow> nat" where
  "calculate_specificity pattern =
     sum_list (map segment_score (split_char CHR ''/'' pattern)) + length pattern"

definition is_pattern :: "string \<Rightarrow> bool" where
  "is_pattern path \<longleftrightarrow> has_wildcards path \<or> contains_str path ''{id}''"

definition compile_route ::
  "regex_env \<Rightarrow> string \<times> route_rate_limit_config \<Rightarrow> compiled_route_patterns \<Rightarrow> compiled_route_patterns option" where
  "compile_route rx route acc =
     (case route of (pattern, config) \<Rightarrow>
     (case parse_method_prefix pattern of (verb, path) \<Rightarrow>
        if is_pattern path
        then (case compile_pattern_to_regex rx path of
                None \<Rightarrow> None
              | Some regex \<Rightarrow>
                  Some (acc\<lparr>cr_patterns := cr_patterns acc @
                    [\<lparr>cp_original = pattern, cp_method = verb, cp_regex = regex, cp_config = config,
                      cp_specificity = calculate_specificity path\<rparr>]\<rparr>))
        else (case verb of
                Some m \<Rightarrow>
                  Some (acc\<lparr>cr_method_exact := AList.update (m @ '' '' @ path) config (cr_method_exact acc)\<rparr>)
              | None \<Rightarrow> Some (acc\<lparr>cr_exact := AList.update path config (cr_exact acc)\<rparr>))))"

fun compile_routes ::
  "regex_env \<Rightarrow> (string \<times> route_rate_limit_config) list \<Rightarrow> compiled_route_patterns \<Rightarrow> compiled_route_patterns option" where
  "compile_routes rx [] acc = Some acc"
| "compile_routes rx (r # rs) acc =
     (case compile_route rx r acc of None \<Rightarrow> None | Some acc' \<Rightarrow> compile_routes rx rs acc')"

definition compile ::
  "regex_env \<Rightarrow> (string \<times> route_rate_limit_config) list \<Rightarrow> compiled_route_patterns option" where
  "compile rx routes =
     (case compile_routes rx routes \<lparr>cr_method_exact = [], cr_exact = [], cr_patterns = []\<rparr> of
        None \<Rightarrow> None
      | Some acc \<Rightarrow>
          Some (acc\<lparr>cr_patterns := sort_key (\<lambda>p. - int (cp_specificity p)) (cr_patterns acc)\<rparr>))"

subsection \<open>Lookup\<close>

definition pattern_accepts :: "string \<Rightarrow> string \<Rightarrow> compiled_pattern \<Rightarrow> bool" where
  "pattern_accepts verb normalized p \<longleftrightarrow>
     (case cp_method p of Some m \<Rightarrow> m = verb | None \<Rightarrow> True) \<and> cp_regex p normalized"

definition match_route ::
  "regex_env \<Rightarrow> compiled_route_patterns \<Rightarrow> string \<Rightarrow> string \<Rightarrow> route_rate_limit_config option" where
  "match_route rx cr verb path =
     (let normalized = normalize_path rx path
      in case map_of (cr_method_exact cr) (verb @ '' '' @ normalized) of
           Some config \<Rightarrow> Some config
         | None \<Rightarrow>
             (case map_of (cr_exact cr) normalized of
                Some config \<Rightarrow> Some config
              | None \<Rightarrow> map_option cp_config (find (pattern_accepts verb normalized) (cr_patterns cr))))"

definition is_empty :: "compiled_route_patterns \<Rightarrow> bool" where
  "is_empty cr \<longleftrightarrow> cr_method_exact cr = [] \<and> cr_exact cr = [] \<and> cr_patterns cr = []"

subsection \<open>Documented behaviour of the regex crate\<close>

definition is_hex_digit :: "char \<Rightarrow> bool" where
  "is_hex_digit c \<longleftrightarrow> c \<in> set ''0123456789abcdefABCDEF''"

definition uuid_template :: "(char \<Rightarrow> bool) list" where
  "uuid_template = (let h = is_hex_digit; d = (\<lambda>c. c = CHR ''-'') in
     replicate 8 h @ [d] @ replicate 4 h @ [d] @ replicate 4 h @ [d] @ replicate 4 h @ [d] @ replicate 12 h)"

fun fits :: "(char \<Rightarrow> bool) list \<Rightarrow> string \<Rightarrow> bool" where
  "fits [] s = True"
| "fits (p # ps) [] = False"
| "fits (p # ps) (c # cs) = (p c \<and> fits ps cs)"

text \<open>Leftmost non-overlapping matches of the UUID expression, which all have 36 characters.\<close>

function replace_uuids :: "string \<Rightarrow> string" where
  "replace_uuids [] = []"
| "replace_uuids (c # cs) =
     (if fits uuid_template (c # cs) then ''{id}'' @ replace_uuids (drop 35 cs)
      else c # replace_uuids cs)"
  by pat_completeness auto
termination by (relation "measure length") auto

datatype rx_item = RxChar char | RxSegment | RxAny

fun item_text :: "rx_item \<Rightarrow> string" where
  "item_text (RxChar c) = (if c \<in> set regex_specials then [CHR 0x5C, c] else [c])"
| "item_text RxSegment = ''[^/]+''"
| "item_text RxAny = ''.*''"

definition regex_text :: "rx_item list \<Rightarrow> string" where
  "regex_text items = ''^'' @ concat (map item_text items) @ ''$''"

function rx_match :: "rx_item list \<Rightarrow> string \<Rightarrow> bool" where
  "rx_match [] s = (s = [])"
| "rx_match (RxChar c # is) [] = False"
| "rx_match (RxChar c # is) (d # ds) = (c = d \<and> rx_match is ds)"
| "rx_match (RxSegment # is) [] = False"
| "rx_match (RxSegment # is) (d # ds) =
     (d \<noteq> CHR ''/'' \<and> (rx_match is ds \<or> rx_match (RxSegment # is) ds))"
| "rx_match (RxAny # is) [] = rx_match is []"
| "rx_match (RxAny # is) (d # ds) =
     (rx_match is (d # ds) \<or> d \<noteq> CHR 0x0A \<and> rx_match (RxAny # is) ds)"
  by pat_completeness auto
termination by (relation "measure (\<lambda>(is, s). length is + length s)") auto

definition plain_item :: "rx_item \<Rightarrow> bool" where
  "plain_item i = (case i of RxChar c \<Rightarrow> c \<noteq> CHR ''*'' \<and> c \<noteq> CHR ''{'' | _ \<Rightarrow> True)"

definition regex_documented :: "regex_env \<Rightarrow> bool" where
  "regex_documented rx \<longleftrightarrow>
     (\<forall>s. rx_replace_all rx uuid_regex s ''{id}'' = replace_uuids s) \<and>
     (\<forall>items. list_all plain_item items \<longrightarrow> rx_new rx (regex_text items) = Some (rx_match items))"

subsection \<open>Normalisation is idempotent\<close>

lemma fits_template_chars:
  "fits ps s \<Longrightarrow> (\<And>p. p \<in> set ps \<Longrightarrow> \<not> p c) \<Longrightarrow> c \<notin> set (take (length ps) s)"
  by (induction ps s rule: fits.induct) auto

lemma fits_take: "fits ps (take (length ps) s) \<longleftrightarrow> fits ps s"
  by (induction ps s rule: fits.induct) auto

lemma uuid_template_props:
  "length uuid_template = 36" "p \<in> set uuid_template \<Longrightarrow> \<not> p CHR ''/''" "p \<in> set uuid_template \<Longrightarrow> \<not> p CHR ''{''"
  by (auto simp: uuid_template_def is_hex_digit_def Let_def)

lemma replace_uuids_take:
  "CHR ''{'' \<notin> set (take n (replace_uuids s)) \<Longrightarrow> take n (replace_uuids s) = take n s"
proof (induction s arbitrary: n rule: replace_uuids.induct)
  case (2 c cs)
  then show ?case by (cases n) (auto split: if_splits)
qed simp

text \<open>\<open>t\<close> contains no UUID.\<close>

definition no_uuid :: "string \<Rightarrow> bool" where
  "no_uuid t \<longleftrightarrow> (\<forall>b. sublist b t \<longrightarrow> length b = 36 \<longrightarrow> \<not> fits uuid_template b)"

lemma no_uuid_Nil [simp]: "no_uuid []"
  by (auto simp: no_uuid_def)

lemma no_uuid_Cons: "no_uuid (c # t) \<longleftrightarrow> \<not> fits uuid_template (c # t) \<and> no_uuid t"
proof -
  have "fits uuid_template (c # t) \<longleftrightarrow> (\<exists>b. prefix b (c # t) \<and> length b = 36 \<and> fits uuid_template b)"
  proof
    assume f: "fits uuid_template (c # t)"
    have len: "fits ps s \<Longrightarrow> length ps \<le> length s" for ps s by (induction ps s rule: fits.induct) auto
    from len [OF f] f show "\<exists>b. prefix b (c # t) \<and> length b = 36 \<and> fits uuid_template b"
      by (intro exI [of _ "take 36 (c # t)"])
        (use fits_take [of uuid_template "c # t"] in \<open>simp add: uuid_template_props(1) take_is_prefix\<close>)
  next
    assume "\<exists>b. prefix b (c # t) \<and> length b = 36 \<and> fits uuid_template b"
    then obtain b r where "c # t = b @ r" "length b = 36" "fits uuid_template b" by (auto simp: prefix_def)
    then show "fits uuid_template (c # t)"
      using fits_take [of uuid_template "c # t"] by (simp add: uuid_template_props(1))
  qed
  then show ?thesis unfolding no_uuid_def sublist_Cons_right by metis
qed

lemma no_uuid_id: "no_uuid t \<Longrightarrow> replace_uuids t = t"
  by (induction t) (auto simp: no_uuid_Cons)

lemma template_head: "uuid_template = is_hex_digit # is_hex_digit # drop 2 uuid_template"
  by (simp add: uuid_template_def Let_def numeral_eq_Suc)

lemma no_uuid_replace: "no_uuid (replace_uuids s)"
proof (induction s rule: replace_uuids.induct)
  case (2 c cs)
  show ?case
  proof (cases "fits uuid_template (c # cs)")
    case True
    have no: "\<not> is_hex_digit CHR ''{''" "\<not> is_hex_digit CHR ''i''" "\<not> is_hex_digit CHR ''}''"
      by (simp_all add: is_hex_digit_def)
    have "\<not> fits uuid_template (x # xs)" if "\<not> is_hex_digit x \<or> (\<exists>y ys. xs = y # ys \<and> \<not> is_hex_digit y)" for x xs
      using that by (subst template_head) auto
    with 2 True no show ?thesis by (simp add: no_uuid_Cons)
  next
    case False
    have "\<not> fits uuid_template (c # replace_uuids cs)"
    proof
      assume f: "fits uuid_template (c # replace_uuids cs)"
      then have "CHR ''{'' \<notin> set (take 36 (c # replace_uuids cs))"
        using fits_template_chars [OF f, of "CHR ''{''"] uuid_template_props by auto
      then have "take 35 (replace_uuids cs) = take 35 cs"
        using replace_uuids_take [of 35 cs] by (simp add: take_Cons')
      then have "take 36 (c # replace_uuids cs) = take 36 (c # cs)" by (simp add: take_Cons')
      with f False show False
        using fits_take [of uuid_template "c # cs"] fits_take [of uuid_template "c # replace_uuids cs"]
        by (simp only: uuid_template_props(1))
    qed
    with 2 False show ?thesis by (simp add: no_uuid_Cons)
  qed
qed simp

lemma no_uuid_append: "no_uuid (s @ CHR ''/'' # t) \<longleftrightarrow> no_uuid s \<and> no_uuid t"
proof (induction s)
  case Nil
  have "\<not> fits uuid_template (CHR ''/'' # t)"
    using template_head by (metis fits.simps(3) uuid_template_props(2) list.set_intros(1))
  then show ?case by (simp add: no_uuid_Cons)
next
  case (Cons c s)
  have "fits ps (u @ CHR ''/'' # t) \<longleftrightarrow> fits ps u" if "\<forall>p \<in> set ps. \<not> p CHR ''/''" for ps u
    using that by (induction ps u rule: fits.induct) auto
  from this [of uuid_template "c # s"] Cons show ?case
    by (simp add: no_uuid_Cons uuid_template_props(2))
qed

lemma no_uuid_join: "list_all no_uuid segs \<Longrightarrow> no_uuid (join ''/'' segs)"
  by (induction segs rule: induct_list012) (simp_all add: no_uuid_append)

lemma no_uuid_split: "no_uuid t \<Longrightarrow> list_all no_uuid (split_char CHR ''/'' t)"
proof -
  have "no_uuid (join ''/'' segs) \<Longrightarrow> list_all no_uuid segs" for segs
    by (induction segs rule: induct_list012) (simp_all add: no_uuid_append)
  from this [of "split_char CHR ''/'' t"] show "no_uuid t \<Longrightarrow> list_all no_uuid (split_char CHR ''/'' t)"
    by (simp add: join_split_char)
qed

lemma no_uuid_id_segment: "no_uuid s \<Longrightarrow> no_uuid (id_segment s)"
proof -
  have "\<not> fits uuid_template (x # xs)" if "length xs < 35" for x xs
  proof
    have len: "fits ps s \<Longrightarrow> length ps \<le> length s" for ps s by (induction ps s rule: fits.induct) auto
    assume "fits uuid_template (x # xs)"
    from len [OF this] that show False by (simp add: uuid_template_props(1))
  qed
  then show "no_uuid s \<Longrightarrow> no_uuid (id_segment s)" by (simp add: id_segment_def no_uuid_Cons)
qed

lemma id_segment_idem [simp]: "id_segment (id_segment s) = id_segment s"
  by (simp add: id_segment_def is_ascii_digit_def)

text \<open>
  Normalising a path is idempotent, so it does not matter that the limiters normalise a path
  before they hand it to \<^verbatim>\<open>match_route\<close>, which normalises it again; and what is left contains no
  UUID and no segment of digits only.
\<close>

theorem normalize_path_idempotent:
  assumes "regex_documented rx"
  shows "normalize_path rx (normalize_path rx path) = normalize_path rx path \<and>
    no_uuid (normalize_path rx path) \<and>
    list_all (\<lambda>seg. id_segment seg = seg) (split_char CHR ''/'' (normalize_path rx path))"
proof -
  define segs where "segs = map id_segment (split_char CHR ''/'' (replace_uuids path))"
  have n: "normalize_path rx path = join ''/'' segs"
    using assms by (simp add: normalize_path_def segs_def regex_documented_def)
  have "no_uuid (join ''/'' segs)"
    using no_uuid_split [OF no_uuid_replace, of path] no_uuid_id_segment
    by (intro no_uuid_join) (auto simp: segs_def list_all_iff)
  moreover have "CHR ''/'' \<notin> set (id_segment s)" if "CHR ''/'' \<notin> set s" for s
    using that by (simp add: id_segment_def)
  then have "split_char CHR ''/'' (join ''/'' segs) = segs"
    by (intro split_char_join) (auto simp: segs_def dest: split_char_no_sep)
  moreover from this have "normalize_path rx (join ''/'' segs) = join ''/'' (map id_segment segs)"
    using assms calculation(1) by (simp add: normalize_path_def regex_documented_def no_uuid_id)
  moreover have "map id_segment segs = segs" by (simp add: segs_def)
  moreover have "list_all (\<lambda>seg. id_segment seg = seg) segs" by (simp add: segs_def list_all_iff)
  ultimately show ?thesis by (simp add: n)
qed

subsection \<open>Lookup finds the best route\<close>

function pattern_items :: "string \<Rightarrow> rx_item list" where
  "pattern_items [] = []"
| "pattern_items (c # cs) =
     (if c = CHR ''*''
      then (case cs of
              d # ds \<Rightarrow> if d = CHR ''*'' then RxAny # pattern_items ds else RxSegment # pattern_items (d # ds)
            | [] \<Rightarrow> [RxSegment])
      else if c = CHR ''{'' then RxSegment # pattern_items (skip_brace cs)
      else RxChar c # pattern_items cs)"
  by pat_completeness auto
termination by (relation "measure length") (auto simp: length_skip_brace)

lemma regex_body_items:
  "regex_body s = concat (map item_text (pattern_items s)) \<and> list_all plain_item (pattern_items s)"
  by (induction s rule: regex_body.induct) (auto simp: plain_item_def split: list.splits)

lemma compile_pattern_items:
  "regex_documented rx \<Longrightarrow> compile_pattern_to_regex rx p = Some (rx_match (pattern_items p))"
  using regex_body_items [of p] by (auto simp: compile_pattern_to_regex_def regex_documented_def regex_text_def)

text \<open>Where a configured route ends up, and whether it covers a request.\<close>

definition method_key :: "string \<Rightarrow> string option" where
  "method_key pattern = (case parse_method_prefix pattern of
     (Some m, path) \<Rightarrow> if is_pattern path then None else Some (m @ '' '' @ path) | _ \<Rightarrow> None)"

definition exact_key :: "string \<Rightarrow> string option" where
  "exact_key pattern = (case parse_method_prefix pattern of
     (None, path) \<Rightarrow> if is_pattern path then None else Some path | _ \<Rightarrow> None)"

definition compiled :: "string \<times> route_rate_limit_config \<Rightarrow> compiled_pattern" where
  "compiled r = \<lparr>cp_original = fst r, cp_method = fst (parse_method_prefix (fst r)),
     cp_regex = rx_match (pattern_items (snd (parse_method_prefix (fst r)))), cp_config = snd r,
     cp_specificity = calculate_specificity (snd (parse_method_prefix (fst r)))\<rparr>"

definition route_applies :: "string \<Rightarrow> string \<Rightarrow> string \<Rightarrow> bool" where
  "route_applies verb normalized pattern \<longleftrightarrow>
     (case parse_method_prefix pattern of (m, path) \<Rightarrow>
        (m = None \<or> m = Some verb) \<and>
        (if is_pattern path then rx_match (pattern_items path) normalized else path = normalized))"

definition route_rank :: "string \<Rightarrow> nat \<times> nat" where
  "route_rank pattern =
     (case parse_method_prefix pattern of (m, path) \<Rightarrow>
        if is_pattern path then (0, calculate_specificity path)
        else if m \<noteq> None then (2, 0) else (1, 0))"

definition key_table :: "(string \<Rightarrow> string option) \<Rightarrow> (string \<times> 'c) list \<Rightarrow> (string \<times> 'c) list \<Rightarrow> (string \<times> 'c) list \<Rightarrow> bool" where
  "key_table key rs old new \<longleftrightarrow>
     (\<forall>k c. map_of new k = Some c \<longrightarrow> map_of old k = Some c \<or> (\<exists>p. (p, c) \<in> set rs \<and> key p = Some k)) \<and>
     (\<forall>k. map_of old k \<noteq> None \<or> (\<exists>p c. (p, c) \<in> set rs \<and> key p = Some k) \<longrightarrow> map_of new k \<noteq> None)"

lemma key_table_Nil: "key_table key [] old old"
  by (simp add: key_table_def)

lemma key_table_skip: "key_table key rs old new \<Longrightarrow> key p = None \<Longrightarrow> key_table key ((p, c) # rs) old new"
  unfolding key_table_def by (metis list.set_intros(2) option.distinct(1) prod.inject set_ConsD)

lemma key_table_step:
  assumes "key_table key rs (AList.update k c old) new" and "key p = Some k"
  shows "key_table key ((p, c) # rs) old new"
proof -
  have upd: "map_of (AList.update k c old) k' = (if k' = k then Some c else map_of old k')" for k'
    by (simp add: update_conv)
  show ?thesis
    unfolding key_table_def
  proof (intro conjI allI impI)
    fix k' c' assume "map_of new k' = Some c'"
    then have "map_of (AList.update k c old) k' = Some c' \<or> (\<exists>p. (p, c') \<in> set rs \<and> key p = Some k')"
      using assms(1) unfolding key_table_def by blast
    then show "map_of old k' = Some c' \<or> (\<exists>p'. (p', c') \<in> set ((p, c) # rs) \<and> key p' = Some k')"
      using assms(2) by (auto simp: upd split: if_splits)
  next
    fix k' assume "map_of old k' \<noteq> None \<or> (\<exists>p' c'. (p', c') \<in> set ((p, c) # rs) \<and> key p' = Some k')"
    then have "map_of (AList.update k c old) k' \<noteq> None \<or> (\<exists>p c. (p, c) \<in> set rs \<and> key p = Some k')"
      using assms(2) by (auto simp: upd)
    then show "map_of new k' \<noteq> None" using assms(1) unfolding key_table_def by blast
  qed
qed

lemma key_table_found:
  "key_table key rs [] new \<Longrightarrow> map_of new k = Some c \<Longrightarrow> \<exists>p. (p, c) \<in> set rs \<and> key p = Some k"
  unfolding key_table_def by (metis map_of.simps(1) option.distinct(1))

lemma key_table_missing:
  "key_table key rs [] new \<Longrightarrow> map_of new k = None \<Longrightarrow> (p, c) \<in> set rs \<Longrightarrow> key p \<noteq> Some k"
  unfolding key_table_def by blast

lemma compile_routes_ok:
  assumes "regex_documented rx"
  shows "\<exists>cr. compile_routes rx rs acc = Some cr \<and>
    key_table method_key rs (cr_method_exact acc) (cr_method_exact cr) \<and>
    key_table exact_key rs (cr_exact acc) (cr_exact cr) \<and>
    cr_patterns cr = cr_patterns acc @
      map compiled (filter (\<lambda>r. is_pattern (snd (parse_method_prefix (fst r)))) rs)"
proof (induction rs arbitrary: acc)
  case Nil
  show ?case by (simp add: key_table_Nil)
next
  case (Cons r rs)
  obtain p c where r: "r = (p, c)" by fastforce
  obtain m path where parse: "parse_method_prefix p = (m, path)" by fastforce
  show ?case
  proof (cases "is_pattern path")
    case True
    then have "method_key p = None" "exact_key p = None"
      using parse by (simp_all add: method_key_def exact_key_def split: option.split)
    moreover have "compile_route rx r acc = Some (acc\<lparr>cr_patterns := cr_patterns acc @ [compiled r]\<rparr>)"
      using True parse by (simp add: r compile_route_def compile_pattern_items [OF assms] compiled_def)
    ultimately show ?thesis
      using Cons.IH [of "acc\<lparr>cr_patterns := cr_patterns acc @ [compiled r]\<rparr>"] True parse
      by (auto simp: r intro: key_table_skip)
  next
    case False
    show ?thesis
    proof (cases m)
      case None
      with False parse have "method_key p = None" "exact_key p = Some path"
        by (simp_all add: method_key_def exact_key_def)
      moreover have "compile_route rx r acc = Some (acc\<lparr>cr_exact := AList.update path c (cr_exact acc)\<rparr>)"
        using False None parse by (simp add: r compile_route_def)
      ultimately show ?thesis
        using Cons.IH [of "acc\<lparr>cr_exact := AList.update path c (cr_exact acc)\<rparr>"] False parse
        by (auto simp: r intro: key_table_skip key_table_step)
    next
      case (Some m')
      let ?k = "m' @ '' '' @ path"
      from Some False parse have "method_key p = Some ?k" "exact_key p = None"
        by (simp_all add: method_key_def exact_key_def)
      moreover have "compile_route rx r acc =
          Some (acc\<lparr>cr_method_exact := AList.update ?k c (cr_method_exact acc)\<rparr>)"
        using False Some parse by (simp add: r compile_route_def)
      ultimately show ?thesis
        using Cons.IH [of "acc\<lparr>cr_method_exact := AList.update ?k c (cr_method_exact acc)\<rparr>"] False parse
        by (auto simp: r intro: key_table_skip key_table_step)
    qed
  qed
qed

lemma parse_method_no_space:
  assumes "parse_method_prefix p = (Some m, path)"
  shows "CHR '' '' \<notin> set m"
proof -
  have "try_methods ms s = (Some m, path) \<Longrightarrow> m \<in> set ms" for ms s
    by (induction ms) (auto split: option.splits if_splits)
  with assms have "m \<in> set http_methods" by (simp add: parse_method_prefix_def)
  then show ?thesis by (auto simp: http_methods_def)
qed

lemma method_key_applies:
  assumes "method_key p = Some (verb @ '' '' @ n)" and "CHR '' '' \<notin> set verb"
  shows "route_applies verb n p \<and> route_rank p = (2, 0)"
proof -
  obtain m path where parse: "parse_method_prefix p = (Some m, path)" and "\<not> is_pattern path"
    and k: "m @ CHR '' '' # path = verb @ CHR '' '' # n"
    using assms(1) by (auto simp: method_key_def split: prod.splits option.splits if_splits)
  with delimiter_unique [OF parse_method_no_space [OF parse] assms(2) k] show ?thesis
    by (simp add: route_applies_def route_rank_def)
qed

lemma exact_key_applies: "exact_key p = Some n \<Longrightarrow> route_applies verb n p \<and> route_rank p = (1, 0)"
  by (auto simp: exact_key_def route_applies_def route_rank_def split: prod.splits option.splits if_splits)

lemma non_pattern_keys:
  assumes "route_applies verb n p"
  shows "is_pattern (snd (parse_method_prefix p)) \<or> method_key p = Some (verb @ '' '' @ n) \<or> exact_key p = Some n"
  using assms
  by (auto simp: route_applies_def method_key_def exact_key_def split: prod.splits option.splits if_splits)

lemma rank_two:
  "route_applies verb n p \<Longrightarrow> method_key p \<noteq> Some (verb @ '' '' @ n) \<Longrightarrow> route_rank p \<le> (1, 0)"
  by (auto simp: route_applies_def method_key_def route_rank_def split: prod.splits if_splits)

lemma compiled_accepts:
  "is_pattern (snd (parse_method_prefix (fst r))) \<Longrightarrow>
     pattern_accepts verb n (compiled r) \<longleftrightarrow> route_applies verb n (fst r)"
  by (auto simp: pattern_accepts_def compiled_def route_applies_def split: option.splits prod.splits)

lemma pattern_lookup:
  fixes routes
  assumes "found = map_option cp_config (find (pattern_accepts verb n)
      (sort_key (\<lambda>p. - int (cp_specificity p))
        (map compiled (filter (\<lambda>r. is_pattern (snd (parse_method_prefix (fst r)))) routes))))"
    and pat: "\<And>p c. (p, c) \<in> set routes \<Longrightarrow> route_applies verb n p \<Longrightarrow> is_pattern (snd (parse_method_prefix p))"
  shows "case found of
       None \<Rightarrow> \<forall>(p, c) \<in> set routes. \<not> route_applies verb n p
     | Some c \<Rightarrow> \<exists>p. (p, c) \<in> set routes \<and> route_applies verb n p \<and>
         (\<forall>(p', c') \<in> set routes. route_applies verb n p' \<longrightarrow> route_rank p' \<le> route_rank p)"
proof -
  let ?pat = "\<lambda>r. is_pattern (snd (parse_method_prefix (fst r)))"
  let ?f = "\<lambda>p. - int (cp_specificity p)" and ?cs = "map compiled (filter ?pat routes)"
  show ?thesis
  proof (cases "find (pattern_accepts verb n) (sort_key ?f ?cs)")
    case None
    then have "\<not> pattern_accepts verb n (compiled r)" if "r \<in> set routes" "?pat r" for r
      using that by (cases r) (auto simp: find_None_iff)
    then have "\<not> route_applies verb n p" if "(p, c) \<in> set routes" for p c
      using that pat [of p c] compiled_accepts [of "(p, c)" verb n] by fastforce
    with None assms(1) show ?thesis by auto
  next
    case (Some x)
    note best = find_sort_key_best [OF Some]
    then obtain p c where r: "(p, c) \<in> set routes" "?pat (p, c)" "x = compiled (p, c)" by auto
    have "route_rank p' \<le> route_rank p" if p': "(p', c') \<in> set routes" "route_applies verb n p'" for p' c'
    proof -
      have "?pat (p', c')" using pat [OF p'] by simp
      with p' best have "?f x \<le> ?f (compiled (p', c'))" using compiled_accepts [of "(p', c')" verb n] by auto
      with \<open>?pat (p', c')\<close> r show ?thesis by (auto simp: route_rank_def compiled_def split: prod.splits)
    qed
    with best r Some assms(1) compiled_accepts [of "(p, c)" verb n] show ?thesis
      by (auto simp: compiled_def)
  qed
qed

definition best_route :: "(string \<times> 'c) list \<Rightarrow> string \<Rightarrow> string \<Rightarrow> 'c option \<Rightarrow> bool" where
  "best_route routes verb n found \<longleftrightarrow> (case found of
       None \<Rightarrow> \<forall>(p, c) \<in> set routes. \<not> route_applies verb n p
     | Some c \<Rightarrow> \<exists>p. (p, c) \<in> set routes \<and> route_applies verb n p \<and>
         (\<forall>(p', c') \<in> set routes. route_applies verb n p' \<longrightarrow> route_rank p' \<le> route_rank p))"

lemma best_method_route:
  assumes "(p, c) \<in> set routes" "method_key p = Some (verb @ '' '' @ n)" "CHR '' '' \<notin> set verb"
  shows "best_route routes verb n (Some c)"
proof -
  have "route_rank p' \<le> (2, 0)" for p' by (auto simp: route_rank_def split: prod.split)
  with method_key_applies [OF assms(2,3)] assms(1) show ?thesis by (auto simp: best_route_def)
qed

lemma best_exact_route:
  assumes "(p, c) \<in> set routes" "exact_key p = Some n"
    and nom: "\<And>p c. (p, c) \<in> set routes \<Longrightarrow> method_key p \<noteq> Some (verb @ '' '' @ n)"
  shows "best_route routes verb n (Some c)"
proof -
  have "route_rank p' \<le> (1, 0)" if "(p', c') \<in> set routes" "route_applies verb n p'" for p' c'
    using rank_two [OF that(2)] nom [OF that(1)] by (auto simp: route_rank_def split: prod.splits if_splits)
  with exact_key_applies [OF assms(2)] assms(1) show ?thesis unfolding best_route_def by auto
qed

lemma match_route_best_tables:
  assumes me: "key_table method_key routes [] (cr_method_exact cr)"
    and ex: "key_table exact_key routes [] (cr_exact cr)"
    and ps: "cr_patterns cr = sort_key (\<lambda>p. - int (cp_specificity p))
        (map compiled (filter (\<lambda>r. is_pattern (snd (parse_method_prefix (fst r)))) routes))"
    and "CHR '' '' \<notin> set verb" and n: "n = normalize_path rx path"
  shows "best_route routes verb n (match_route rx cr verb path)"
proof (cases "map_of (cr_method_exact cr) (verb @ '' '' @ n)")
  case (Some c)
  then obtain p where "(p, c) \<in> set routes" "method_key p = Some (verb @ '' '' @ n)"
    using key_table_found [OF me] by auto
  with best_method_route assms(4) Some show ?thesis by (auto simp: match_route_def n)
next
  case no_method: None
  then have nom: "method_key p \<noteq> Some (verb @ '' '' @ n)" if "(p, c) \<in> set routes" for p c
    using key_table_missing [OF me _ that] by simp
  show ?thesis
  proof (cases "map_of (cr_exact cr) n")
    case (Some c)
    then obtain p where p: "(p, c) \<in> set routes" "exact_key p = Some n"
      using key_table_found [OF ex] by auto
    from best_exact_route [OF p nom] no_method Some show ?thesis by (auto simp: match_route_def n)
  next
    case None
    then have noe: "exact_key p \<noteq> Some n" if "(p, c) \<in> set routes" for p c
      using key_table_missing [OF ex _ that] by simp
    have pat: "is_pattern (snd (parse_method_prefix p))" if "(p, c) \<in> set routes" "route_applies verb n p" for p c
      using that nom [OF that(1)] noe [OF that(1)] non_pattern_keys [OF that(2)] by auto
    show ?thesis unfolding best_route_def
      by (rule pattern_lookup) (use None no_method pat in \<open>auto simp: match_route_def ps n\<close>)
  qed
qed

text \<open>
  The configuration always compiles, and a request gets the limit of the best route that covers
  it: of the routes whose verb and path fit the normalised path, one of the highest rank, where an
  exact path with a verb comes before an exact path, and that before patterns, and among patterns
  the more specific ones come first. It gets none only when no route covers it.
\<close>

theorem match_route_best:
  assumes "regex_documented rx" and "CHR '' '' \<notin> set verb"
  shows "\<exists>cr. compile rx routes = Some cr \<and>
    (case match_route rx cr verb path of
       None \<Rightarrow> \<forall>(p, c) \<in> set routes. \<not> route_applies verb (normalize_path rx path) p
     | Some c \<Rightarrow> \<exists>p. (p, c) \<in> set routes \<and> route_applies verb (normalize_path rx path) p \<and>
         (\<forall>(p', c') \<in> set routes. route_applies verb (normalize_path rx path) p' \<longrightarrow>
            route_rank p' \<le> route_rank p))"
proof -
  let ?init = "\<lparr>cr_method_exact = [], cr_exact = [], cr_patterns = []\<rparr>"
  obtain acc where acc: "compile_routes rx routes ?init = Some acc"
    and tables: "key_table method_key routes [] (cr_method_exact acc)" "key_table exact_key routes [] (cr_exact acc)"
    and ps: "cr_patterns acc = map compiled (filter (\<lambda>r. is_pattern (snd (parse_method_prefix (fst r)))) routes)"
    using compile_routes_ok [OF assms(1), of routes ?init] by auto
  define cr where "cr = acc\<lparr>cr_patterns := sort_key (\<lambda>p. - int (cp_specificity p)) (cr_patterns acc)\<rparr>"
  have "compile rx routes = Some cr" by (simp add: compile_def acc cr_def)
  moreover have "best_route routes verb (normalize_path rx path) (match_route rx cr verb path)"
    by (rule match_route_best_tables) (simp_all add: cr_def tables ps assms(2))
  ultimately show ?thesis unfolding best_route_def by blast
qed

subsection \<open>A regular-expression engine for the fragment\<close>

fun parse_rx :: "string \<Rightarrow> rx_item list option" where
  "parse_rx [] = None"
| "parse_rx (c # cs) =
     (if c = CHR ''$'' then (if cs = [] then Some [] else None)
      else if c = CHR 0x5C
      then (case cs of d # ds \<Rightarrow> map_option ((#) (RxChar d)) (parse_rx ds) | [] \<Rightarrow> None)
      else if c = CHR ''['' then map_option ((#) RxSegment) (parse_rx (drop 4 cs))
      else if c = CHR ''.'' then map_option ((#) RxAny) (parse_rx (drop 1 cs))
      else map_option ((#) (RxChar c)) (parse_rx cs))"

definition sample_regex :: regex_env where
  "sample_regex = \<lparr>rx_new = (\<lambda>t. map_option rx_match (parse_rx (tl t))),
     rx_replace_all = (\<lambda>e s r. if e = uuid_regex \<and> r = ''{id}'' then replace_uuids s else s)\<rparr>"

lemma parse_rx_text: "parse_rx (concat (map item_text items) @ ''$'') = Some items"
proof (induction items)
  case (Cons i items)
  then show ?case by (cases i) (auto simp: regex_specials_def)
qed simp

lemma sample_regex_documented: "regex_documented sample_regex"
  by (simp add: regex_documented_def sample_regex_def regex_text_def parse_rx_text)

theorem normalize_path_idempotent_witness:
  "normalize_path sample_regex (normalize_path sample_regex ''/api/v1/users/42'') =
     normalize_path sample_regex ''/api/v1/users/42'' \<and>
   normalize_path sample_regex ''/api/v1/users/42'' = ''/api/v1/users/{id}''"
proof
  show "normalize_path sample_regex (normalize_path sample_regex ''/api/v1/users/42'') =
      normalize_path sample_regex ''/api/v1/users/42''"
    using normalize_path_idempotent [OF sample_regex_documented] by blast
  show "normalize_path sample_regex ''/api/v1/users/42'' = ''/api/v1/users/{id}''" by code_simp
qed

definition sample_limit :: "u32 \<Rightarrow> route_rate_limit_config" where
  "sample_limit n = \<lparr>rr_requests_per_minute = n, rr_burst_size = 1, rr_per_user = True\<rparr>"

definition sample_routes :: "(string \<times> route_rate_limit_config) list" where
  "sample_routes = [(''/api/**'', sample_limit 1), (''/api/v1/users/*'', sample_limit 2),
     (''POST /api/v1/uploads'', sample_limit 3)]"

theorem match_route_best_witness:
  "\<exists>cr p. compile sample_regex sample_routes = Some cr \<and>
     match_route sample_regex cr ''GET'' ''/api/v1/users/42'' = Some (sample_limit 2) \<and>
     (p, sample_limit 2) \<in> set sample_routes \<and> route_applies ''GET'' ''/api/v1/users/{id}'' p"
proof -
  have "CHR '' '' \<notin> set ''GET''" by simp
  from match_route_best [OF sample_regex_documented this, of sample_routes "''/api/v1/users/42''"]
  obtain cr where cr: "compile sample_regex sample_routes = Some cr"
    and best: "case match_route sample_regex cr ''GET'' ''/api/v1/users/42'' of
        None \<Rightarrow> \<forall>(p, c) \<in> set sample_routes. \<not> route_applies ''GET'' (normalize_path sample_regex ''/api/v1/users/42'') p
      | Some c \<Rightarrow> \<exists>p. (p, c) \<in> set sample_routes \<and>
          route_applies ''GET'' (normalize_path sample_regex ''/api/v1/users/42'') p \<and>
          (\<forall>(p', c') \<in> set sample_routes. route_applies ''GET'' (normalize_path sample_regex ''/api/v1/users/42'') p' \<longrightarrow>
             route_rank p' \<le> route_rank p)" by blast
  have "(case compile sample_regex sample_routes of
      Some cr \<Rightarrow> match_route sample_regex cr ''GET'' ''/api/v1/users/42'' | None \<Rightarrow> None) = Some (sample_limit 2)"
    by code_simp
  moreover have "normalize_path sample_regex ''/api/v1/users/42'' = ''/api/v1/users/{id}''" by code_simp
  ultimately show ?thesis using cr best by auto
qed

end
