(* ===== verification/Rate_Limit.thy ===== *)
theory Rate_Limit
  imports Route_Matcher Request Redis_Store
begin

text \<open>
  The two rate limiters: fixed windows counted in Redis
  (\<^verbatim>\<open>src/acton-service/src/middleware/rate_limit.rs\<close>) and in-process token buckets
  (\<^verbatim>\<open>src/acton-service/src/middleware/governor.rs\<close>). Routes are matched by theory
  \<open>Route_Matcher\<close>. The \<^verbatim>\<open>governor\<close> crate is a parameter: a bucket of type \<open>'l\<close> with its
  constructor and its check. A panic is \<^const>\<open>None\<close>.
\<close>

subsection \<open>Configuration\<close>

record rate_limit_config =
  rt_per_user_rpm :: u32
  rt_per_client_rpm :: u32
  rt_window_secs :: u64
  rt_routes :: "(string \<times> route_rate_limit_config) list"
  rt_auto_apply :: bool
  rt_trust_forwarded_headers :: bool

definition default_rate_limit_config :: rate_limit_config where
  "default_rate_limit_config =
     \<lparr>rt_per_user_rpm = 200, rt_per_client_rpm = 1000, rt_window_secs = 60, rt_routes = [],
      rt_auto_apply = True, rt_trust_forwarded_headers = False\<rparr>"

subsection \<open>Windows in Redis\<close>

record 'r rate_limit =
  rl_config :: rate_limit_config
  rl_route_patterns :: compiled_route_patterns
  rl_redis_pool :: "'r redis option"

record rate_limit_result =
  rs_limit :: u32
  rs_count :: u32
  rs_reset_secs :: u64

definition rate_limit_new :: "regex_env \<Rightarrow> rate_limit_config \<Rightarrow> 'r redis \<Rightarrow> 'r rate_limit option" where
  "rate_limit_new rx config redis_pool =
     map_option (\<lambda>cr. \<lparr>rl_config = config, rl_route_patterns = cr, rl_redis_pool = Some redis_pool\<rparr>)
       (compile rx (rt_routes config))"

text \<open>The pool's error carries a fixed description and the pool's own text.\<close>

definition check_and_increment ::
  "'r rate_limit \<Rightarrow> string \<Rightarrow> u32 \<Rightarrow> u64 \<Rightarrow> nat \<Rightarrow> 'r \<Rightarrow> (error + rate_limit_result) \<times> 'r" where
  "check_and_increment rl key limit window_secs now s =
     (case rl_redis_pool rl of
        None \<Rightarrow> (Inl (Internal ''Redis pool not configured''), s)
      | Some R \<Rightarrow>
     (case rd_connect R s of
        Some e \<Rightarrow> (Inl (Redis (''Failed to get Redis connection: '' @ e)), s)
      | None \<Rightarrow>
     (case rd_incr R key now s of
        (Inl e, s1) \<Rightarrow> (Inl (Redis e), s1)
      | (Inr n, s1) \<Rightarrow>
          (let count = (word_of_int n :: u32);
               answer = (\<lambda>s2.
                 let ttl = (case rd_ttl R key now s2 of Inr t \<Rightarrow> t | Inl _ \<Rightarrow> sint window_secs);
                     reset_secs = (if 0 < ttl then word_of_int ttl else window_secs)
                 in (if limit < count then Inl RateLimitExceeded
                     else Inr \<lparr>rs_limit = limit, rs_count = count, rs_reset_secs = reset_secs\<rparr>, s2))
           in if count = 1
              then (case rd_expire R key (sint window_secs) now s1 of
                      (Inl e, s2) \<Rightarrow> (Inl (Redis e), s2)
                    | (Inr _, s2) \<Rightarrow> answer s2)
              else answer s1))))"

definition check_rate_limit_with_route ::
  "regex_env \<Rightarrow> 'r rate_limit \<Rightarrow> string \<Rightarrow> string \<Rightarrow> claims option \<Rightarrow> nat \<Rightarrow> 'r \<Rightarrow>
     (error + rate_limit_result) \<times> 'r" where
  "check_rate_limit_with_route rx rl verb path claims_opt now s =
     (let normalized_path = normalize_path rx path; config = rl_config rl
      in case match_route rx (rl_route_patterns rl) verb normalized_path of
           Some route_config \<Rightarrow>
             (let key = (if rr_per_user route_config
                         then (case claims_opt of
                                 Some c \<Rightarrow> ''route:'' @ normalized_path @ '':user:'' @ cl_sub c
                               | None \<Rightarrow> ''route:'' @ normalized_path @ '':global'')
                         else ''route:'' @ normalized_path @ '':global'')
              in check_and_increment rl key (rr_requests_per_minute route_config) (rt_window_secs config) now s)
         | None \<Rightarrow>
             (case claims_opt of
                Some c \<Rightarrow>
                  (case (if is_user c then (''ratelimit:user:'' @ cl_sub c, rt_per_user_rpm config)
                         else if is_client c then (''ratelimit:client:'' @ cl_sub c, rt_per_client_rpm config)
                         else (''ratelimit:unknown:'' @ cl_sub c, rt_per_user_rpm config)) of
                     (key, limit) \<Rightarrow> check_and_increment rl key limit (rt_window_secs config) now s)
              | None \<Rightarrow>
                  (Inr \<lparr>rs_limit = rt_per_user_rpm config, rs_count = 0, rs_reset_secs = rt_window_secs config\<rparr>, s)))"

text \<open>
  \<open>utc_secs\<close> is the wall clock, \<^const>\<open>None\<close> before the epoch. Decimal digits are always header
  values.
\<close>

definition limit_headers :: "u32 \<Rightarrow> u32 \<Rightarrow> u64 \<Rightarrow> u64 option \<Rightarrow> response \<Rightarrow> response" where
  "limit_headers limit remaining reset_secs utc_secs rp =
     (let reset_timestamp = (case utc_secs of Some t \<Rightarrow> t + reset_secs | None \<Rightarrow> 0)
      in rp\<lparr>rp_headers := header_insert ''x-ratelimit-reset'' (show_nat (unat reset_timestamp))
           (header_insert ''x-ratelimit-remaining'' (show_nat (unat remaining))
           (header_insert ''x-ratelimit-limit'' (show_nat (unat limit)) (rp_headers rp)))\<rparr>)"

definition add_rate_limit_headers :: "u64 option \<Rightarrow> response \<Rightarrow> rate_limit_result \<Rightarrow> response" where
  "add_rate_limit_headers utc_secs rp result =
     limit_headers (rs_limit result) (if rs_count result \<le> rs_limit result then rs_limit result - rs_count result else 0)
       (rs_reset_secs result) utc_secs rp"

text \<open>A denied request is audited under the subject of its claims.\<close>

definition denied_events :: "stamp \<Rightarrow> request \<Rightarrow> error \<Rightarrow> audit_event list" where
  "denied_events stamp rq e =
     (if e = RateLimitExceeded
      then audit_auth stamp (ext_audit_logger (hr_ext rq)) HttpRequestDenied Warning
        ((audit_source_for_request rq)\<lparr>src_subject := map_option cl_sub (ext_claims (hr_ext rq))\<rparr>)
      else [])"

definition rate_limit_middleware ::
  "(string \<Rightarrow> string option) \<Rightarrow> regex_env \<Rightarrow> stamp \<Rightarrow> nat \<Rightarrow> u64 option \<Rightarrow> 'r rate_limit \<Rightarrow> 's service \<Rightarrow> ('r \<times> 's) service" where
  "rate_limit_middleware hv rx stamp now utc_secs rl next rq rs =
     (case rs of (r, s) \<Rightarrow>
     (case check_rate_limit_with_route rx rl (hr_method rq) (hr_path rq) (ext_claims (hr_ext rq)) now r of
        (Inl e, r') \<Rightarrow> (reject hv e, (r', s), denied_events stamp rq e)
      | (Inr result, r') \<Rightarrow>
          (case next rq s of
             (rp, s', events) \<Rightarrow> (add_rate_limit_headers utc_secs rp result, (r', s'), events))))"

subsection \<open>Buckets in process\<close>

record 'l governor_env =
  gv_direct :: "nat \<Rightarrow> u32 \<Rightarrow> 'l"
  gv_check :: "nat \<Rightarrow> 'l \<Rightarrow> bool \<times> 'l"

record governor_config =
  gc_enabled :: bool
  gc_requests_per_period :: u32
  gc_period :: nat
  gc_burst_size :: u32

definition governor_per :: "nat \<Rightarrow> u32 \<Rightarrow> governor_config" where
  "governor_per secs requests =
     \<lparr>gc_enabled = True, gc_requests_per_period = requests, gc_period = from_secs secs, gc_burst_size = requests div 10\<rparr>"

definition per_second :: "u32 \<Rightarrow> governor_config" where
  "per_second requests = governor_per 1 requests"

definition per_minute :: "u32 \<Rightarrow> governor_config" where
  "per_minute requests = governor_per 60 requests"

definition per_hour :: "u32 \<Rightarrow> governor_config" where
  "per_hour requests = governor_per 3600 requests"

definition default_governor_config :: governor_config where
  "default_governor_config =
     \<lparr>gc_enabled = True, gc_requests_per_period = 100, gc_period = from_secs 60, gc_burst_size = 10\<rparr>"

record governor_rate_limit =
  gr_config :: rate_limit_config
  gr_route_patterns :: compiled_route_patterns

record 'l limiters =
  lm_route :: "(string \<times> 'l) list"
  lm_global :: "(string \<times> 'l) list"

record governor_result =
  gl_limit :: u32
  gl_remaining :: u32
  gl_reset_secs :: u64

text \<open>
  \<^verbatim>\<open>Quota::with_period\<close> gives nothing for an empty period, and the code expects something.
\<close>

definition replenish_interval_ms :: "u32 \<Rightarrow> nat" where
  "replenish_interval_ms requests_per_minute = 60000 div max (unat requests_per_minute) 1"

definition create_limiter :: "'l governor_env \<Rightarrow> u32 \<Rightarrow> u32 \<Rightarrow> 'l option" where
  "create_limiter gv requests_per_minute burst_size =
     (let interval = replenish_interval_ms requests_per_minute
      in if interval = 0 then None else Some (gv_direct gv interval (max burst_size 1)))"

definition check_with_limiter ::
  "'l governor_env \<Rightarrow> nat \<Rightarrow> string \<Rightarrow> u32 \<Rightarrow> u32 \<Rightarrow> (string \<times> 'l) list \<Rightarrow>
     ((error + governor_result) \<times> (string \<times> 'l) list) option" where
  "check_with_limiter gv now key requests_per_minute burst_size table =
     (case (case map_of table key of Some l \<Rightarrow> Some l | None \<Rightarrow> create_limiter gv requests_per_minute burst_size) of
        None \<Rightarrow> None
      | Some limiter \<Rightarrow>
          (case gv_check gv now limiter of
             (ok, limiter') \<Rightarrow>
               Some (if ok
                     then Inr \<lparr>gl_limit = requests_per_minute,
                           gl_remaining = (if requests_per_minute = 0 then 0 else requests_per_minute - 1),
                           gl_reset_secs = 60\<rparr>
                     else Inl RateLimitExceeded,
                     AList.update key limiter' table)))"

definition governor_check_rate_limit ::
  "regex_env \<Rightarrow> 'l governor_env \<Rightarrow> nat \<Rightarrow> governor_rate_limit \<Rightarrow> string \<Rightarrow> string \<Rightarrow> claims option \<Rightarrow> ip_addr option \<Rightarrow>
     'l limiters \<Rightarrow> ((error + governor_result) \<times> 'l limiters) option" where
  "governor_check_rate_limit rx gv now gr verb path claims_opt client_ip ls =
     (let normalized_path = normalize_path rx path; config = gr_config gr;
          global = (\<lambda>key limit. map_option (\<lambda>(r, t). (r, ls\<lparr>lm_global := t\<rparr>))
            (check_with_limiter gv now key limit (max (limit div 10) 1) (lm_global ls)))
      in case match_route rx (gr_route_patterns gr) verb normalized_path of
           Some route_config \<Rightarrow>
             (let key = (if rr_per_user route_config
                         then (case claims_opt of
                                 Some c \<Rightarrow> ''route:'' @ normalized_path @ '':user:'' @ cl_sub c
                               | None \<Rightarrow>
                                   (case client_ip of
                                      Some ip \<Rightarrow> ''route:'' @ normalized_path @ '':ip:'' @ show_ip ip
                                    | None \<Rightarrow> ''route:'' @ normalized_path @ '':ip:unknown''))
                         else ''route:'' @ normalized_path @ '':global'')
              in map_option (\<lambda>(r, t). (r, ls\<lparr>lm_route := t\<rparr>))
                   (check_with_limiter gv now key (rr_requests_per_minute route_config) (rr_burst_size route_config)
                      (lm_route ls)))
         | None \<Rightarrow>
             (case claims_opt of
                Some c \<Rightarrow>
                  if is_user c then global (''governor:user:'' @ cl_sub c) (rt_per_user_rpm config)
                  else if is_client c then global (''governor:client:'' @ cl_sub c) (rt_per_client_rpm config)
                  else global (''governor:unknown:'' @ cl_sub c) (rt_per_user_rpm config)
              | None \<Rightarrow>
                  (case client_ip of
                     Some ip \<Rightarrow> global (''governor:ip:'' @ show_ip ip) (rt_per_user_rpm config)
                   | None \<Rightarrow> global ''governor:ip:unknown'' (rt_per_user_rpm config))))"

definition governor_add_headers :: "u64 option \<Rightarrow> response \<Rightarrow> governor_result \<Rightarrow> response" where
  "governor_add_headers utc_secs rp result =
     limit_headers (gl_limit result) (gl_remaining result) (gl_reset_secs result) utc_secs rp"

definition governor_middleware ::
  "(string \<Rightarrow> string option) \<Rightarrow> regex_env \<Rightarrow> 'l governor_env \<Rightarrow> stamp \<Rightarrow> nat \<Rightarrow> u64 option \<Rightarrow> governor_rate_limit \<Rightarrow>
     's service \<Rightarrow> request \<Rightarrow> 'l limiters \<times> 's \<Rightarrow> (response \<times> ('l limiters \<times> 's) \<times> audit_event list) option" where
  "governor_middleware hv rx gv stamp now utc_secs gr next rq st =
     (case st of (ls, s) \<Rightarrow>
        let path = (case ext_original_uri (hr_ext rq) of Some p \<Rightarrow> p | None \<Rightarrow> hr_path rq);
            client_ip = extract_client_ip (hr_headers rq) (connect_info_remote_addr (hr_ext rq))
              (rt_trust_forwarded_headers (gr_config gr))
        in case governor_check_rate_limit rx gv now gr (hr_method rq) path (ext_claims (hr_ext rq)) client_ip ls of
             None \<Rightarrow> None
           | Some (Inl e, ls') \<Rightarrow> Some (reject hv e, (ls', s), denied_events stamp rq e)
           | Some (Inr result, ls') \<Rightarrow>
               (case next rq s of
                  (rp, s', events) \<Rightarrow> Some (governor_add_headers utc_secs rp result, (ls', s'), events)))"

text \<open>
  \<open>order\<close> is the iteration order of the concurrent map at that moment.
\<close>

definition cleanup_table :: "((string \<times> 'l) list \<Rightarrow> string list) \<Rightarrow> nat \<Rightarrow> (string \<times> 'l) list \<Rightarrow> (string \<times> 'l) list" where
  "cleanup_table order max_entries table =
     (if max_entries < length table
      then fold AList.delete (take (length table - max_entries) (order table)) table
      else table)"

definition cleanup_stale_limiters ::
  "((string \<times> 'l) list \<Rightarrow> string list) \<Rightarrow> nat \<Rightarrow> 'l limiters \<Rightarrow> 'l limiters" where
  "cleanup_stale_limiters order max_entries ls =
     \<lparr>lm_route = cleanup_table order max_entries (lm_route ls),
      lm_global = cleanup_table order max_entries (lm_global ls)\<rparr>"

subsection \<open>At most the limit per window\<close>

text \<open>The counter a request is charged to and its limit; none for anonymous requests without a route.\<close>

definition limit_key :: "regex_env \<Rightarrow> 'r rate_limit \<Rightarrow> string \<Rightarrow> string \<Rightarrow> claims option \<Rightarrow> (string \<times> u32) option" where
  "limit_key rx rl verb path claims_opt =
     (let n = normalize_path rx path
      in case (match_route rx (rl_route_patterns rl) verb n, claims_opt) of
           (Some r, Some c) \<Rightarrow>
             Some (if rr_per_user r then ''route:'' @ n @ '':user:'' @ cl_sub c else ''route:'' @ n @ '':global'',
                   rr_requests_per_minute r)
         | (Some r, None) \<Rightarrow> Some (''route:'' @ n @ '':global'', rr_requests_per_minute r)
         | (None, Some c) \<Rightarrow>
             Some (if is_user c then (''ratelimit:user:'' @ cl_sub c, rt_per_user_rpm (rl_config rl))
                   else if is_client c then (''ratelimit:client:'' @ cl_sub c, rt_per_client_rpm (rl_config rl))
                   else (''ratelimit:unknown:'' @ cl_sub c, rt_per_user_rpm (rl_config rl)))
         | (None, None) \<Rightarrow> None)"

lemma check_rate_limit_key:
  "check_rate_limit_with_route rx rl verb path c now s =
     (case limit_key rx rl verb path c of
        Some (k, l) \<Rightarrow> check_and_increment rl k l (rt_window_secs (rl_config rl)) now s
      | None \<Rightarrow> (Inr \<lparr>rs_limit = rt_per_user_rpm (rl_config rl), rs_count = 0,
          rs_reset_secs = rt_window_secs (rl_config rl)\<rparr>, s))"
  by (auto simp: check_rate_limit_with_route_def limit_key_def Let_def split: option.splits)

text \<open>Requests, each with its verb, path, claims and time, one after the other.\<close>

type_synonym limited_call = "string \<times> string \<times> claims option \<times> nat"

fun limited_calls :: "regex_env \<Rightarrow> 'r rate_limit \<Rightarrow> limited_call list \<Rightarrow> 'r \<Rightarrow> (error + rate_limit_result) list" where
  "limited_calls rx rl [] s = []"
| "limited_calls rx rl ((verb, path, c, now) # calls) s =
     (case check_rate_limit_with_route rx rl verb path c now s of (r, s') \<Rightarrow> r # limited_calls rx rl calls s')"

text \<open>The abstract window: a count per key, and which requests it lets through.\<close>

fun window_admits :: "(limited_call \<Rightarrow> (string \<times> u32) option) \<Rightarrow> (string \<Rightarrow> nat) \<Rightarrow> limited_call list \<Rightarrow> bool list" where
  "window_admits key counts [] = []"
| "window_admits key counts (q # calls) =
     (case key q of
        None \<Rightarrow> True # window_admits key counts calls
      | Some (k, l) \<Rightarrow> (counts k < unat l) # window_admits key (counts(k := counts k + 1)) calls)"

definition call_key :: "regex_env \<Rightarrow> 'r rate_limit \<Rightarrow> limited_call \<Rightarrow> (string \<times> u32) option" where
  "call_key rx rl q = (case q of (verb, path, c, now) \<Rightarrow> limit_key rx rl verb path c)"

definition call_time :: "limited_call \<Rightarrow> nat" where
  "call_time q = snd (snd (snd q))"

lemma call_key_simp: "call_key rx rl (verb, path, c, now) = limit_key rx rl verb path c"
  by (simp add: call_key_def)

context redis_laws
begin

text \<open>A counter that was started in the window beginning at \<open>t0\<close> and lasts beyond its end.\<close>

definition window_counter :: "nat \<Rightarrow> nat \<Rightarrow> string \<Rightarrow> nat \<Rightarrow> 'r \<Rightarrow> bool" where
  "window_counter t0 t1 k m s \<longleftrightarrow>
     (if m = 0 then live t0 (view s) k = None
      else \<exists>e. view s k = Some (show_nat m, Some e) \<and> t1 \<le> e)"

lemma window_counter_live:
  assumes "window_counter t0 t1 k m s" and "t0 \<le> now" and "now < t1"
  shows "if m = 0 then live now (view s) k = None
    else \<exists>e. view s k = Some (show_nat m, Some e) \<and> t1 \<le> e \<and> live now (view s) k = Some (show_nat m, Some e)"
  using assms by (auto simp: window_counter_def live_def split: option.splits if_splits)

lemma counted_word:
  assumes "m + 1 < 2 ^ 32"
  shows "unat (of_nat (m + 1) :: u32) = m + 1"
  using assms by (simp only: unat_of_nat) (simp add: take_bit_eq_mod)

lemma check_and_increment_counts:
  assumes "rl_redis_pool rl = Some R" and "redis_up R" and w: "0 < sint w"
    and c: "window_counter t0 t1 k m s" and t: "t0 \<le> now" "now < t1" "t1 \<le> t0 + nat (sint w) * 1000"
    and m: "m + 1 < 2 ^ 32" and call: "check_and_increment rl k limit w now s = (r, s')"
  shows "is_ok r \<longleftrightarrow> m < unat limit" and "window_counter t0 t1 k (m + 1) s'"
    and "k' \<noteq> k \<Longrightarrow> view s' k' = view s k'"
proof -
  note live = window_counter_live [OF c t(1,2)]
  obtain n s1 where incr: "rd_incr R k now s = (Inr n, s1)"
    using assms(2) unfolding redis_up_def is_ok_iff by (metis prod.exhaust_sel)
  have n: "n = int m + 1" and v1: "view s1 = (view s)(k \<mapsto> (show_nat (m + 1), if m = 0 then None else snd (the (view s k))))"
    using incr_ok [OF incr] live by (auto split: if_splits)
  have count: "(word_of_int n :: u32) = of_nat (m + 1)" by (simp add: n)
  have one: "(of_nat (m + 1) :: u32) = 1 \<longleftrightarrow> m = 0"
    using counted_word [OF m] by (metis add.commute add_cancel_right_right of_nat_1 plus_1_eq_Suc unat_1)
  obtain u s2 where ex: "rd_expire R k (sint w) now s1 = (Inr u, s2)"
    using assms(2) unfolding redis_up_def is_ok_iff by (metis prod.exhaust_sel)
  let ?s = "if m = 0 then s2 else s1"
  have r: "r = (if limit < of_nat (m + 1) then Inl RateLimitExceeded
      else Inr \<lparr>rs_limit = limit, rs_count = of_nat (m + 1), rs_reset_secs = rs_reset_secs (projr r)\<rparr>)" and s': "s' = ?s"
    using call assms(1,2) incr count one ex
    by (auto simp: check_and_increment_def redis_up_def Let_def split: if_splits)
  have "limit < of_nat (m + 1) \<longleftrightarrow> unat limit < m + 1" by (simp only: word_less_nat_alt counted_word [OF m])
  then show "is_ok r \<longleftrightarrow> m < unat limit" by (subst r) auto
  have v: "view ?s = (view s)(k \<mapsto> (show_nat (m + 1),
      if m = 0 then Some (now + nat (sint w) * 1000) else snd (the (view s k))))"
    using expire_ok [OF ex w] v1 by (auto simp: live_def)
  show "window_counter t0 t1 k (m + 1) s'"
    unfolding s' window_counter_def v using live t by (auto split: if_splits)
  show "view s' k' = view s k'" if "k' \<noteq> k" unfolding s' v using that by simp
qed

lemma limited_calls_window:
  assumes "rl_redis_pool rl = Some R" and "redis_up R" and "0 < sint (rt_window_secs (rl_config rl))"
    and "t1 \<le> t0 + nat (sint (rt_window_secs (rl_config rl))) * 1000"
    and "\<forall>q \<in> set calls. t0 \<le> call_time q \<and> call_time q < t1"
    and "\<forall>k. window_counter t0 t1 k (counts k) s" and "\<forall>k. counts k + length calls < 2 ^ 32"
  shows "map is_ok (limited_calls rx rl calls s) = window_admits (call_key rx rl) counts calls"
  using assms(5-7)
proof (induction calls arbitrary: counts s)
  case (Cons q calls)
  obtain verb path c now where q: "q = (verb, path, c, now)" by (metis prod_cases4)
  obtain r s' where call: "check_rate_limit_with_route rx rl verb path c now s = (r, s')" by fastforce
  show ?case
  proof (cases "limit_key rx rl verb path c")
    case None
    with call have "s' = s" "is_ok r" by (auto simp: check_rate_limit_key)
    moreover have "map is_ok (limited_calls rx rl calls s) = window_admits (call_key rx rl) counts calls"
      using Cons.prems by (intro Cons.IH) (auto intro: less_trans)
    ultimately show ?thesis using call None by (simp add: q call_key_simp)
  next
    case (Some kl)
    obtain k l where kl: "kl = (k, l)" by fastforce
    have ci: "check_and_increment rl k l (rt_window_secs (rl_config rl)) now s = (r, s')"
      using call Some kl by (simp add: check_rate_limit_key)
    have t: "t0 \<le> now" "now < t1" using Cons.prems(1) by (auto simp: q call_time_def)
    have "counts k + 1 < 2 ^ 32" using Cons.prems(3) by (auto dest: spec [of _ k])
    note step = check_and_increment_counts [OF assms(1-3) Cons.prems(2) [rule_format, of k] t assms(4) this ci]
    have "window_counter t0 t1 k' ((counts(k := counts k + 1)) k') s'" for k'
      using step(2) step(3) [of k'] spec [OF Cons.prems(2), of k']
      by (auto simp: window_counter_def live_def split: if_splits)
    moreover have "(counts(k := counts k + 1)) k' + length calls < 2 ^ 32" for k'
      using Cons.prems(3) by (auto dest: spec [of _ k'])
    ultimately have "map is_ok (limited_calls rx rl calls s') = window_admits (call_key rx rl) (counts(k := counts k + 1)) calls"
      using Cons.prems(1) by (intro Cons.IH) auto
    then show ?thesis using call step(1) Some by (simp add: q kl call_key_simp)
  qed
qed simp

end

text \<open>
  C21: the Redis limiter implements a fixed window. Starting when no counter is alive, within one
  window every request is let through exactly when fewer requests than its limit were charged
  before to the same counter, in every interleaving of users, clients, routes and verbs. The
  counter of a route does not depend on the verb, so limits configured for two verbs of one
  path are charged to the same counter; anonymous requests to paths without a route are not
  limited at all.
\<close>

theorem redis_limiter_window:
  assumes "redis_laws R view" and "rl_redis_pool rl = Some R" and "redis_up R"
    and "0 < sint (rt_window_secs (rl_config rl))"
    and "\<forall>q \<in> set calls. t0 \<le> call_time q \<and> call_time q < t0 + nat (sint (rt_window_secs (rl_config rl))) * 1000"
    and "\<forall>k. live t0 (view s) k = None" and "length calls < 2 ^ 32"
  shows "map is_ok (limited_calls rx rl calls s) = window_admits (call_key rx rl) (\<lambda>k. 0) calls"
  using assms(4-7)
  by (intro redis_laws.limited_calls_window [OF assms(1-4) order_refl])
    (auto simp: redis_laws.window_counter_def [OF assms(1)])

text \<open>
  A counter whose EXPIRE command failed after its first INCR has no expiry, and since only the first
  count sets one it never gets one: from the limit on, every later request is refused, whenever
  it comes.
\<close>

lemma lost_expiry_blocks_forever:
  assumes "redis_laws R view" and "rl_redis_pool rl = Some R" and "redis_up R"
    and "view s k = Some (show_nat m, None)" and "0 < m" and "unat limit \<le> m" and "m + 1 < 2 ^ 32"
  shows "\<exists>s'. check_and_increment rl k limit w now s = (Inl RateLimitExceeded, s') \<and> view s' k = Some (show_nat (m + 1), None)"
proof -
  obtain n s1 where incr: "rd_incr R k now s = (Inr n, s1)"
    using assms(3) unfolding redis_up_def is_ok_iff by (metis prod.exhaust_sel)
  have "live now (view s) k = Some (show_nat m, None)" using assms(4) by (simp add: live_def)
  with redis_laws.incr_ok [OF assms(1) incr] have n: "n = int m + 1" and v: "view s1 k = Some (show_nat (m + 1), None)"
    by auto
  have count: "(word_of_int n :: u32) = of_nat (m + 1)" by (simp add: n)
  note word = redis_laws.counted_word [OF assms(1,7)]
  then have "(of_nat (m + 1) :: u32) \<noteq> 1" using assms(5) by (metis add_cancel_left_left less_numeral_extra(3) unat_1)
  moreover have "limit < of_nat (m + 1)" unfolding word_less_nat_alt word using assms(6) by simp
  ultimately show ?thesis using assms(2,3) incr count v by (simp add: check_and_increment_def redis_up_def Let_def)
qed

definition sample_limiter :: "keyspace rate_limit" where
  "sample_limiter =
     \<lparr>rl_config = default_rate_limit_config,
      rl_route_patterns = \<lparr>cr_method_exact =
          [(''GET /a'', \<lparr>rr_requests_per_minute = 2, rr_burst_size = 1, rr_per_user = False\<rparr>),
           (''POST /a'', \<lparr>rr_requests_per_minute = 3, rr_burst_size = 1, rr_per_user = False\<rparr>)],
        cr_exact = [], cr_patterns = []\<rparr>,
      rl_redis_pool = Some mem_redis\<rparr>"

lemma sample_limiter_keys:
  "limit_key sample_regex sample_limiter ''GET'' ''/a'' None = Some (''route:/a:global'', 2)"
  "limit_key sample_regex sample_limiter ''POST'' ''/a'' None = Some (''route:/a:global'', 3)"
  by code_simp+

theorem redis_limiter_window_witness:
  "map is_ok (limited_calls sample_regex sample_limiter
     [(''GET'', ''/a'', None, 5), (''GET'', ''/a'', None, 6), (''GET'', ''/a'', None, 7),
      (''POST'', ''/a'', None, 8)] Map.empty) = [True, True, False, False]"
proof -
  have "rl_redis_pool sample_limiter = Some mem_redis" "sint (rt_window_secs (rl_config sample_limiter)) = 60"
    by (simp_all add: sample_limiter_def default_rate_limit_config_def)
  with redis_limiter_window [OF mem.redis_laws_axioms _ mem_redis_up, of sample_limiter
      "[(''GET'', ''/a'', None, 5), (''GET'', ''/a'', None, 6), (''GET'', ''/a'', None, 7), (''POST'', ''/a'', None, 8)]"
      5 Map.empty sample_regex]
  show ?thesis by (simp add: call_time_def live_def call_key_simp sample_limiter_keys)
qed

subsection \<open>Buckets\<close>

text \<open>
  Limits above 60000 requests per minute take the process down. The bucket of a key is created
  from the interval of 60000 milliseconds divided by the limit, rounded down; the creation
  panics exactly when the limit is above 60000, for any key without a bucket yet. For every
  other limit the interval is positive, and it is the longest one that is not slower than the
  configured limit.
\<close>

theorem create_limiter_bounds:
  "(create_limiter gv rpm burst = None \<longleftrightarrow> 60000 < unat rpm) \<and>
   (check_with_limiter gv now key rpm burst [] = None \<longleftrightarrow> 60000 < unat rpm) \<and>
   max (unat rpm) 1 * replenish_interval_ms rpm \<le> 60000 \<and>
   60000 < max (unat rpm) 1 * (replenish_interval_ms rpm + 1)"
proof (intro conjI)
  show panic: "create_limiter gv rpm burst = None \<longleftrightarrow> 60000 < unat rpm"
    by (auto simp: create_limiter_def replenish_interval_ms_def Let_def max_def div_eq_0_iff)
  then show "check_with_limiter gv now key rpm burst [] = None \<longleftrightarrow> 60000 < unat rpm"
    by (auto simp: check_with_limiter_def split: option.splits prod.splits)
  show "max (unat rpm) 1 * replenish_interval_ms rpm \<le> 60000"
    unfolding replenish_interval_ms_def by (rule times_div_less_eq_dividend)
  show "60000 < max (unat rpm) 1 * (replenish_interval_ms rpm + 1)"
    using dividend_less_times_div [of "max (unat rpm) 1" 60000] unfolding replenish_interval_ms_def
    by (simp add: algebra_simps)
qed

text \<open>The bucket a request is charged to: the table (route buckets or not), its key, limit and burst.\<close>

definition governor_key ::
  "regex_env \<Rightarrow> governor_rate_limit \<Rightarrow> string \<Rightarrow> string \<Rightarrow> claims option \<Rightarrow> ip_addr option \<Rightarrow> bool \<times> string \<times> u32 \<times> u32" where
  "governor_key rx gr verb path claims_opt client_ip =
     (let n = normalize_path rx path; config = gr_config gr; ip = (case client_ip of Some a \<Rightarrow> show_ip a | None \<Rightarrow> ''unknown'')
      in case match_route rx (gr_route_patterns gr) verb n of
           Some r \<Rightarrow> (True, ''route:'' @ n @
             (if rr_per_user r then (case claims_opt of Some c \<Rightarrow> '':user:'' @ cl_sub c | None \<Rightarrow> '':ip:'' @ ip) else '':global''),
             rr_requests_per_minute r, rr_burst_size r)
         | None \<Rightarrow>
             (case (case claims_opt of
                      Some c \<Rightarrow> if is_user c then (''user:'' @ cl_sub c, rt_per_user_rpm config)
                                else if is_client c then (''client:'' @ cl_sub c, rt_per_client_rpm config)
                                else (''unknown:'' @ cl_sub c, rt_per_user_rpm config)
                    | None \<Rightarrow> (''ip:'' @ ip, rt_per_user_rpm config)) of
                (key, limit) \<Rightarrow> (False, ''governor:'' @ key, limit, max (limit div 10) 1)))"

lemma governor_check_key:
  "governor_check_rate_limit rx gv now gr verb path c ip ls =
     (case governor_key rx gr verb path c ip of
        (route, key, limit, burst) \<Rightarrow>
          if route then map_option (\<lambda>(r, t). (r, ls\<lparr>lm_route := t\<rparr>)) (check_with_limiter gv now key limit burst (lm_route ls))
          else map_option (\<lambda>(r, t). (r, ls\<lparr>lm_global := t\<rparr>)) (check_with_limiter gv now key limit burst (lm_global ls)))"
  by (auto simp: governor_check_rate_limit_def governor_key_def Let_def split: option.splits)

end
