(* ===== verification/Service_Stack.thy ===== *)
theory Service_Stack
  imports Token_Auth Audit_Middleware Rate_Limit
begin

text \<open>
  The middleware stack of an HTTP service as \<^verbatim>\<open>ServiceBuilder::build\<close> and
  \<^verbatim>\<open>apply_middleware\<close> assemble it (\<^verbatim>\<open>src/acton-service/src/service_builder.rs\<close>). A later
  \<^verbatim>\<open>layer\<close> call wraps the earlier ones and therefore runs first; each step below is one such
  call, in the order of the source. Layers of third-party crates (CORS, compression, timeouts,
  tracing, request identifiers, panic recovery) and the Cedar policy layer are parameters: any
  function on services. A panic of the governor happens outside the panic recovery layer; the
  connection then ends without a response, written as status 0.
\<close>

subsection \<open>Assembly\<close>

text \<open>
  \<open>sk_tower\<close> are the layers below the request context, \<open>sk_tracking\<close> the request tracking layers
  and the panic recovery above it.
\<close>

record ('l, 's) stack_config =
  sk_tower :: "'s service \<Rightarrow> 's service"
  sk_tracking :: "'s service \<Rightarrow> 's service"
  sk_trust_forwarded_headers :: bool
  sk_cedar :: "('s service \<Rightarrow> 's service) option"
  sk_logger :: "audit_logger option"
  sk_rate_limit :: rate_limit_config
  sk_token :: "('l limiters \<times> 's) token_auth option"
  sk_caller_policy :: "caller_auth_policy option"

text \<open>What the layers read from the outside while a request passes.\<close>

record 'l stack_env =
  se_hv :: "string \<Rightarrow> string option"
  se_regex :: regex_env
  se_governor :: "'l governor_env"
  se_caller :: caller_env
  se_stamp :: stamp
  se_now :: nat
  se_utc_secs :: "u64 option"
  se_duration_ms :: u64

definition apply_middleware :: "('l, 's) stack_config \<Rightarrow> 's service \<Rightarrow> 's service" where
  "apply_middleware config app =
     sk_tracking config (request_context_middleware (sk_trust_forwarded_headers config) (sk_tower config app))"

definition aborted :: response where
  "aborted = \<lparr>rp_status = 0, rp_headers = [], rp_body = Opaque []\<rparr>"

definition governor_layer :: "'l stack_env \<Rightarrow> governor_rate_limit \<Rightarrow> 's service \<Rightarrow> ('l limiters \<times> 's) service" where
  "governor_layer env gov next rq st =
     (case governor_middleware (se_hv env) (se_regex env) (se_governor env) (se_stamp env) (se_now env)
             (se_utc_secs env) gov next rq st of
        Some r \<Rightarrow> r
      | None \<Rightarrow> (aborted, st, []))"

definition without_governor :: "'s service \<Rightarrow> ('l limiters \<times> 's) service" where
  "without_governor next rq st = (case next rq (snd st) of (rp, s', events) \<Rightarrow> (rp, (fst st, s'), events))"

definition logger_extension :: "audit_logger \<Rightarrow> 's service \<Rightarrow> 's service" where
  "logger_extension logger next rq = next (rq\<lparr>hr_ext := (hr_ext rq)\<lparr>ext_audit_logger := Some logger\<rparr>\<rparr>)"

text \<open>Everything inside the governor: policies, audit and the general layers around the router.\<close>

definition inner_stack :: "'l stack_env \<Rightarrow> ('l, 's) stack_config \<Rightarrow> 's service \<Rightarrow> 's service" where
  "inner_stack env config app =
     (let app = apply_middleware config app;
          app = (case sk_cedar config of Some cedar \<Rightarrow> cedar app | None \<Rightarrow> app)
      in case sk_logger config of
           Some logger \<Rightarrow> audit_middleware logger (se_stamp env) (se_duration_ms env) app
         | None \<Rightarrow> app)"

text \<open>Everything outside the governor: token authentication, caller authorization and the logger.\<close>

definition gates :: "'l stack_env \<Rightarrow> ('l, 's) stack_config \<Rightarrow> ('l limiters \<times> 's) service \<Rightarrow> ('l limiters \<times> 's) service" where
  "gates env config app =
     (let app = (case sk_token config of
            Some auth \<Rightarrow> token_middleware (se_hv env) (se_stamp env) auth app | None \<Rightarrow> app);
          app = (case sk_caller_policy config of
            Some policy \<Rightarrow> if requires_client_ca policy
                           then caller_auth_call (se_caller env) (caller_layer_http policy) app else app
          | None \<Rightarrow> app)
      in case sk_logger config of Some logger \<Rightarrow> logger_extension logger app | None \<Rightarrow> app)"

text \<open>The configured routes must compile, or the build panics.\<close>

definition build_stack ::
  "'l stack_env \<Rightarrow> ('l, 's) stack_config \<Rightarrow> 's service \<Rightarrow> ('l limiters \<times> 's) service option" where
  "build_stack env config app =
     (let app = inner_stack env config app
      in map_option (gates env config)
           (if rt_auto_apply (sk_rate_limit config)
            then map_option (\<lambda>cr. governor_layer env \<lparr>gr_config = sk_rate_limit config, gr_route_patterns = cr\<rparr> app)
                   (compile (se_regex env) (rt_routes (sk_rate_limit config)))
            else Some (without_governor app)))"

subsection \<open>Who reaches the router\<close>

text \<open>A request from the network carries nothing in the extensions but its connection.\<close>

definition from_network :: "request \<Rightarrow> bool" where
  "from_network rq \<longleftrightarrow> ext_request_context (hr_ext rq) = None \<and> ext_caller_identity (hr_ext rq) = None
     \<and> ext_claims (hr_ext rq) = None \<and> ext_audit_logger (hr_ext rq) = None \<and> ext_audit_route (hr_ext rq) = None"

definition allowlisted :: "caller_env \<Rightarrow> caller_auth_policy \<Rightarrow> request \<Rightarrow> bool" where
  "allowlisted env policy rq \<longleftrightarrow>
     (\<exists>leaf san. leaf_certificate (hr_ext rq) = Some leaf \<and> authorize_certificate env policy leaf = Inr san)"

definition caller_passes :: "caller_env \<Rightarrow> caller_auth_policy \<Rightarrow> request \<Rightarrow> bool" where
  "caller_passes env policy rq \<longleftrightarrow>
     cp_mode policy = Bearer \<or> is_exempt (caller_layer_http policy) (hr_path rq) \<or> allowlisted env policy rq
     \<or> cp_mode policy = MtlsOrBearer \<and> has_bearer_credential (hr_headers rq)"

definition certificate_waives :: "caller_env \<Rightarrow> caller_auth_policy option \<Rightarrow> request \<Rightarrow> bool" where
  "certificate_waives env policy_opt rq \<longleftrightarrow>
     (case policy_opt of
        Some policy \<Rightarrow> cp_mode policy = MtlsOrBearer \<and> \<not> is_exempt (caller_layer_http policy) (hr_path rq)
          \<and> allowlisted env policy rq
      | None \<Rightarrow> False)"

definition token_passes :: "caller_env \<Rightarrow> caller_auth_policy option \<Rightarrow> 't token_auth \<Rightarrow> request \<Rightarrow> 't \<Rightarrow> bool" where
  "token_passes env policy_opt auth rq s \<longleftrightarrow>
     hr_method rq = ''OPTIONS'' \<or> token_exempt (ta_public_paths auth) (hr_path rq) \<or> certificate_waives env policy_opt rq
     \<or> (\<exists>c s'. token_accepted auth (hr_headers rq) s c s')"

text \<open>Only the path, the headers and the connection of a request decide; the layers change other parts.\<close>

definition same_request :: "request \<Rightarrow> request \<Rightarrow> bool" where
  "same_request rq rq' \<longleftrightarrow> hr_method rq' = hr_method rq \<and> hr_path rq' = hr_path rq \<and> hr_headers rq' = hr_headers rq
     \<and> ext_tls_connect_info (hr_ext rq') = ext_tls_connect_info (hr_ext rq)"

text \<open>A layer that answers without running what it wraps.\<close>

definition blocks :: "('s service \<Rightarrow> 't service) \<Rightarrow> request \<Rightarrow> 't \<Rightarrow> bool" where
  "blocks layer rq s \<longleftrightarrow> (\<exists>r. \<forall>next. layer next rq s = r)"

lemma http_layer_policy [simp]: "cal_policy (caller_layer_http policy) = policy"
  by (simp add: caller_layer_http_def)

text \<open>What a caller authorization layer lets through, and when it waives the token, for the layers of both kinds of routes.\<close>

definition layer_passes :: "caller_env \<Rightarrow> caller_auth_layer \<Rightarrow> request \<Rightarrow> bool" where
  "layer_passes env layer rq \<longleftrightarrow>
     cp_mode (cal_policy layer) = Bearer \<or> is_exempt layer (hr_path rq) \<or> allowlisted env (cal_policy layer) rq
     \<or> cp_mode (cal_policy layer) = MtlsOrBearer \<and> has_bearer_credential (hr_headers rq)"

definition layer_waives :: "caller_env \<Rightarrow> caller_auth_layer \<Rightarrow> request \<Rightarrow> bool" where
  "layer_waives env layer rq \<longleftrightarrow>
     cp_mode (cal_policy layer) = MtlsOrBearer \<and> \<not> is_exempt layer (hr_path rq) \<and> allowlisted env (cal_policy layer) rq"

lemma any_caller_layer_cases:
  fixes s :: 's
  assumes "ext_caller_identity (hr_ext rq) = None"
  shows "(\<exists>rq'. same_request rq rq' \<and> bearer_waived (hr_ext rq') = layer_waives env layer rq
      \<and> layer_passes env layer rq \<and> (\<forall>inner :: 's service. caller_auth_call env layer inner rq s = inner rq' s))
    \<or> blocks (caller_auth_call env layer) rq s"
proof (cases "cp_mode (cal_policy layer) = Bearer \<or> is_exempt layer (hr_path rq)")
  case True
  then have "layer_passes env layer rq" "\<not> layer_waives env layer rq"
    by (auto simp: layer_passes_def layer_waives_def)
  moreover have "caller_auth_call env layer inner rq s = inner rq s" for inner :: "'s service"
    using True by (auto simp: caller_auth_call_def)
  ultimately show ?thesis using assms
    by (intro disjI1 exI [of _ rq]) (simp add: same_request_def bearer_waived_def)
next
  case False
  let ?auth = "authorize env (cal_policy layer) (leaf_certificate (hr_ext rq)) (has_bearer_credential (hr_headers rq))"
  have call: "caller_auth_call env layer inner rq s = (case ?auth of
        Inr (Certificate san) \<Rightarrow>
          inner (rq\<lparr>hr_ext := (hr_ext rq)\<lparr>ext_caller_identity := Some
            \<lparr>ci_san = san, ci_waives_bearer = (cp_mode (cal_policy layer) = MtlsOrBearer)\<rparr>\<rparr>\<rparr>) s
      | Inr BearerDeferred \<Rightarrow> inner rq s
      | Inl e \<Rightarrow> (rejection env layer e, s, []))" for inner :: "'s service"
    using False by (simp add: caller_auth_call_def split: sum.split authenticated_caller.split)
  consider (cert) san where "?auth = Inr (Certificate san)" | (deferred) "?auth = Inr BearerDeferred" | (err) e where "?auth = Inl e"
    by (metis authenticated_caller.exhaust sum.exhaust_sel)
  then show ?thesis
  proof cases
    case cert
    then have listed: "allowlisted env (cal_policy layer) rq"
      using False by (auto simp: authorize_def allowlisted_def split: caller_auth_mode.splits option.splits sum.splits if_splits)
    let ?rq = "rq\<lparr>hr_ext := (hr_ext rq)\<lparr>ext_caller_identity := Some
      \<lparr>ci_san = san, ci_waives_bearer = (cp_mode (cal_policy layer) = MtlsOrBearer)\<rparr>\<rparr>\<rparr>"
    have "same_request rq ?rq" "bearer_waived (hr_ext ?rq) = layer_waives env layer rq" "layer_passes env layer rq"
      using listed False by (auto simp: same_request_def bearer_waived_def layer_waives_def layer_passes_def)
    moreover have "\<forall>inner :: 's service. caller_auth_call env layer inner rq s = inner ?rq s"
      using call cert by simp
    ultimately show ?thesis by blast
  next
    case deferred
    then have "\<not> allowlisted env (cal_policy layer) rq" "cp_mode (cal_policy layer) = MtlsOrBearer \<and> has_bearer_credential (hr_headers rq)"
      using False by (auto simp: authorize_def allowlisted_def split: caller_auth_mode.splits option.splits sum.splits if_splits)
    moreover have "\<forall>inner :: 's service. caller_auth_call env layer inner rq s = inner rq s"
      using call deferred by simp
    ultimately show ?thesis using assms
      by (intro disjI1 exI [of _ rq]) (auto simp: same_request_def bearer_waived_def layer_waives_def layer_passes_def)
  next
    case err
    then show ?thesis unfolding blocks_def using call by simp
  qed
qed

lemma caller_layer_cases:
  fixes s :: 's
  assumes "ext_caller_identity (hr_ext rq) = None"
  shows "(\<exists>rq'. same_request rq rq' \<and> bearer_waived (hr_ext rq') = certificate_waives env (Some policy) rq
      \<and> caller_passes env policy rq \<and> (\<forall>inner :: 's service. caller_auth_call env (caller_layer_http policy) inner rq s = inner rq' s))
    \<or> blocks (caller_auth_call env (caller_layer_http policy)) rq s"
  using any_caller_layer_cases [OF assms, of env "caller_layer_http policy" s]
  by (simp add: layer_passes_def layer_waives_def caller_passes_def certificate_waives_def)

lemma token_layer_cases:
  assumes "\<not> blocks (token_middleware hv stamp auth) rq s"
  shows "hr_method rq = ''OPTIONS'' \<or> token_exempt (ta_public_paths auth) (hr_path rq) \<or> bearer_waived (hr_ext rq)
    \<or> (\<exists>c s'. token_accepted auth (hr_headers rq) s c s')"
proof (rule ccontr)
  assume "\<not> ?thesis"
  then have "refused (token_middleware hv stamp auth) rq s"
    using token_middleware_gate [of rq auth s hv stamp] by blast
  with assms show False by (auto simp: refused_def blocks_def)
qed

lemma build_stack_gates:
  "build_stack env config app = Some svc \<Longrightarrow>
     \<exists>rest. svc = gates env config rest \<and>
       (rest = without_governor (inner_stack env config app) \<or>
        (\<exists>gov. rest = governor_layer env gov (inner_stack env config app)))"
  by (auto simp: build_stack_def Let_def split: if_splits)

lemma gates_block:
  fixes s :: "'l limiters \<times> 's"
  assumes "from_network rq"
    and "(\<exists>policy. sk_caller_policy config = Some policy \<and> \<not> caller_passes (se_caller env) policy rq) \<or>
      (\<exists>auth. sk_token config = Some auth \<and> \<not> token_passes (se_caller env) (sk_caller_policy config) auth rq s)"
  shows "blocks (gates env config) rq s"
proof -
  define rq1 where "rq1 = (case sk_logger config of
    Some logger \<Rightarrow> rq\<lparr>hr_ext := (hr_ext rq)\<lparr>ext_audit_logger := Some logger\<rparr>\<rparr> | None \<Rightarrow> rq)"
  let ?tok = "\<lambda>app :: ('l limiters \<times> 's) service. case sk_token config of
    Some auth \<Rightarrow> token_middleware (se_hv env) (se_stamp env) auth app | None \<Rightarrow> app"
  have same: "same_request rq rq1" and none: "ext_caller_identity (hr_ext rq1) = None"
    using assms(1) by (simp_all add: rq1_def same_request_def from_network_def split: option.split)
  have passes: "caller_passes env' p rq1 = caller_passes env' p rq" "certificate_waives env' po rq1 = certificate_waives env' po rq" for env' p po
    using same by (auto simp: same_request_def caller_passes_def certificate_waives_def allowlisted_def leaf_certificate_def
        split: option.splits)
  have gates: "gates env config app rq s = (case sk_caller_policy config of
      Some policy \<Rightarrow> if requires_client_ca policy then caller_auth_call (se_caller env) (caller_layer_http policy) (?tok app) rq1 s
        else ?tok app rq1 s
    | None \<Rightarrow> ?tok app rq1 s)" for app
    by (auto simp: gates_def rq1_def logger_extension_def Let_def split: option.split)
  have tok: "blocks ?tok rq' s" if "same_request rq1 rq'"
      "bearer_waived (hr_ext rq') = certificate_waives (se_caller env) (sk_caller_policy config) rq"
      "sk_token config = Some auth" "\<not> token_passes (se_caller env) (sk_caller_policy config) auth rq s" for rq' auth
  proof -
    have "blocks (token_middleware (se_hv env) (se_stamp env) auth) rq' s"
      using token_layer_cases [of "se_hv env" "se_stamp env" auth rq' s] that same
      by (auto simp: token_passes_def same_request_def)
    with that(3) show ?thesis by simp
  qed
  show ?thesis
  proof (cases "\<exists>policy. sk_caller_policy config = Some policy \<and> requires_client_ca policy")
    case True
    then obtain policy where policy: "sk_caller_policy config = Some policy" "requires_client_ca policy" by blast
    from caller_layer_cases [OF none, of "se_caller env" policy s]
    show ?thesis
    proof (elim disjE exE conjE)
      fix rq'
      assume rq': "same_request rq1 rq'" "bearer_waived (hr_ext rq') = certificate_waives (se_caller env) (Some policy) rq1"
        "caller_passes (se_caller env) policy rq1"
        "\<forall>inner :: ('l limiters \<times> 's) service. caller_auth_call (se_caller env) (caller_layer_http policy) inner rq1 s = inner rq' s"
      then have "gates env config app rq s = ?tok app rq' s" for app by (simp add: gates policy)
      with tok [OF rq'(1)] rq'(2,3) assms(2) policy(1) show ?thesis by (auto simp: blocks_def passes)
    qed (auto simp: blocks_def gates policy)
  next
    case False
    have "requires_client_ca policy" if "\<not> caller_passes (se_caller env) policy rq" for policy
      using that by (cases "cp_mode policy") (simp_all add: caller_passes_def requires_client_ca_def)
    with False assms(2) obtain auth where auth: "sk_token config = Some auth"
      "\<not> token_passes (se_caller env) (sk_caller_policy config) auth rq s" by blast
    have "\<not> certificate_waives (se_caller env) (sk_caller_policy config) rq"
      using False by (auto simp: certificate_waives_def requires_client_ca_def split: option.splits)
    moreover have "\<not> bearer_waived (hr_ext rq1)" using none by (simp add: bearer_waived_def)
    ultimately have "blocks ?tok rq1 s" using tok [of rq1 auth] auth by (simp add: same_request_def)
    moreover have "gates env config app rq s = ?tok app rq1 s" for app using False by (auto simp: gates split: option.split)
    ultimately show ?thesis by (simp add: blocks_def)
  qed
qed

text \<open>
  C5: nobody reaches the router without credentials. In the assembled stack, whatever the router, the
  policies, the limits and the general layers do, the answer to a request from the network can
  depend on them only if the request passed both gates: a configured certificate policy found
  the path exempt or an allowlisted certificate, or (in the mode that accepts either) a bearer
  header; and configured token authentication found a preflight, an exempt path, an accepted
  token, or a certificate that waives the token.
\<close>

theorem router_needs_credentials:
  assumes "build_stack env config app = Some svc" and "build_stack env config app' = Some svc'"
    and "from_network rq" and "svc rq s \<noteq> svc' rq s"
  shows "(\<forall>policy. sk_caller_policy config = Some policy \<longrightarrow> caller_passes (se_caller env) policy rq) \<and>
    (\<forall>auth. sk_token config = Some auth \<longrightarrow> token_passes (se_caller env) (sk_caller_policy config) auth rq s)"
proof (rule ccontr)
  assume "\<not> ?thesis"
  then have "blocks (gates env config) rq s" by (intro gates_block [OF assms(3)]) blast
  with assms(4) build_stack_gates [OF assms(1)] build_stack_gates [OF assms(2)] show False by (auto simp: blocks_def)
qed

subsection \<open>What the audit trail knows of the client\<close>

definition unlocated :: "'s service \<Rightarrow> bool" where
  "unlocated svc \<longleftrightarrow> (\<forall>rq s. ext_request_context (hr_ext rq) = None \<longrightarrow>
     (\<forall>ev \<in> set (snd (snd (svc rq s))). src_ip (ev_source ev) = None))"

lemma audit_source_unlocated: "ext_request_context (hr_ext rq) = None \<Longrightarrow> src_ip (audit_source_for_request rq) = None"
  by (simp add: audit_source_for_request_def audit_source_from_headers_def)

lemma audit_auth_unlocated: "src_ip source = None \<Longrightarrow> ev \<in> set (audit_auth stamp logger kind severity source) \<Longrightarrow> src_ip (ev_source ev) = None"
  by (auto simp: audit_auth_def log_auth_def audit_event_defs split: option.splits if_splits)

lemma audit_middleware_unlocated: "unlocated next \<Longrightarrow> unlocated (audit_middleware logger stamp d next)"
  by (auto simp: unlocated_def audit_middleware_def request_event_def audit_event_defs audit_source_unlocated Let_def
      split: prod.splits) (metis snd_conv)+

lemma unlocatedM:
  "unlocated next \<Longrightarrow> ev \<in> set (snd (snd (next rq s))) \<Longrightarrow> ext_request_context (hr_ext rq) = None \<Longrightarrow>
     src_ip (ev_source ev) = None"
  unfolding unlocated_def by blast

lemma unlocatedD:
  "unlocated next \<Longrightarrow> next rq s = (rp, s', events) \<Longrightarrow> ev \<in> set events \<Longrightarrow> ext_request_context (hr_ext rq) = None \<Longrightarrow>
     src_ip (ev_source ev) = None"
  using unlocatedM [of "next" ev rq s] by simp

lemma unlocatedI:
  "(\<And>rq s ev. ext_request_context (hr_ext rq) = None \<Longrightarrow> ev \<in> set (snd (snd (svc rq s))) \<Longrightarrow> src_ip (ev_source ev) = None) \<Longrightarrow>
     unlocated svc"
  unfolding unlocated_def by blast

lemma caller_unlocated:
  assumes "unlocated next"
  shows "unlocated (caller_auth_call env layer next)"
  by (intro unlocatedI)
    (auto simp: caller_auth_call_def split: if_splits sum.splits authenticated_caller.splits dest: unlocatedM [OF assms])

lemma token_admit_unlocated:
  assumes "unlocated next"
  shows "ev \<in> set (snd (snd (token_admit stamp logger source c next rq s))) \<Longrightarrow> src_ip source = None \<Longrightarrow>
    ext_request_context (hr_ext rq) = None \<Longrightarrow> src_ip (ev_source ev) = None"
  by (auto simp: token_admit_def split: prod.splits dest: audit_auth_unlocated unlocatedD [OF assms])

lemma revoked_event_unlocated:
  "ev \<in> set (revoked_event stamp logger source jti) \<Longrightarrow> src_ip source = None \<Longrightarrow> src_ip (ev_source ev) = None"
  by (auto simp: revoked_event_def audit_event_defs split: option.splits if_splits)

lemma token_unlocated:
  assumes "unlocated next"
  shows "unlocated (token_middleware hv stamp auth next)"
  unfolding unlocated_def
proof (intro allI impI ballI)
  fix rq s ev
  assume none: "ext_request_context (hr_ext rq) = None" and ev: "ev \<in> set (snd (snd (token_middleware hv stamp auth next rq s)))"
  have pass: "ev \<in> set (snd (snd (next rq s))) \<Longrightarrow> src_ip (ev_source ev) = None"
    using assms none unfolding unlocated_def by blast
  note src = audit_source_unlocated [OF none]
  have subj: "src_ip ((audit_source_for_request rq)\<lparr>src_subject := x\<rparr>) = None" for x using src by simp
  show "src_ip (ev_source ev) = None"
    using ev pass src subj none
    by (auto simp: token_middleware_def Let_def split: if_splits sum.splits prod.splits option.splits bool.splits
        dest: audit_auth_unlocated revoked_event_unlocated token_admit_unlocated [OF assms])
qed

lemma denied_unlocated:
  "ext_request_context (hr_ext rq) = None \<Longrightarrow> ev \<in> set (denied_events stamp rq e) \<Longrightarrow> src_ip (ev_source ev) = None"
  by (auto simp: denied_events_def audit_source_unlocated split: if_splits dest!: audit_auth_unlocated [rotated])

lemma governor_unlocated:
  assumes "unlocated next"
  shows "unlocated (governor_layer env gov next)" and "unlocated (without_governor next)"
proof -
  show "unlocated (without_governor next)"
    using assms by (auto simp: unlocated_def without_governor_def split: prod.splits) (metis snd_conv)
  show "unlocated (governor_layer env gov next)"
    unfolding unlocated_def governor_layer_def governor_middleware_def
    by (auto simp: Let_def split: option.splits sum.splits prod.splits dest: denied_unlocated unlocatedD [OF assms])
qed

lemma logger_unlocated:
  assumes "unlocated next"
  shows "unlocated (logger_extension logger next)"
  by (intro unlocatedI) (auto simp: logger_extension_def dest: unlocatedM [OF assms])

lemma gates_unlocated: "unlocated rest \<Longrightarrow> unlocated (gates env config rest)"
  by (auto simp: gates_def Let_def intro: caller_unlocated token_unlocated logger_unlocated split: option.split)

text \<open>
  The audit trail of an assembled service has no client addresses. The request context is resolved
  by a layer inside the token, rate limit and audit layers, so these always see a request without
  it: when the router and the layers around it log nothing themselves, every event that the
  stack records for a request from the network, whatever the request, the configuration and the
  outcome, has no source address.
\<close>

theorem audit_without_client_ip:
  assumes "build_stack env config app = Some svc" and "from_network rq"
    and "\<And>rq' s'. snd (snd ((case sk_cedar config of Some cedar \<Rightarrow> cedar (apply_middleware config app)
        | None \<Rightarrow> apply_middleware config app) rq' s')) = []"
    and "svc rq s = (rp, s', events)"
  shows "\<forall>ev \<in> set events. src_ip (ev_source ev) = None"
proof -
  have "unlocated (case sk_cedar config of Some cedar \<Rightarrow> cedar (apply_middleware config app) | None \<Rightarrow> apply_middleware config app)"
    unfolding unlocated_def using assms(3) by simp
  then have "unlocated (inner_stack env config app)"
    by (auto simp: inner_stack_def Let_def intro: audit_middleware_unlocated split: option.splits)
  then have "unlocated svc"
    using build_stack_gates [OF assms(1)] by (auto intro: gates_unlocated governor_unlocated)
  with assms(2,4) show ?thesis by (auto simp: from_network_def dest: unlocatedD)
qed

subsection \<open>Samples\<close>

definition sample_stack :: "(nat, keyspace) stack_config" where
  "sample_stack =
     \<lparr>sk_tower = (\<lambda>app. app), sk_tracking = (\<lambda>app. app), sk_trust_forwarded_headers = False, sk_cedar = None,
      sk_logger = Some (sample_logger\<lparr>lg_config := sample_config\<lparr>ac_audit_all_requests := True\<rparr>\<rparr>),
      sk_rate_limit = default_rate_limit_config\<lparr>rt_auto_apply := False\<rparr>,
      sk_token = Some \<lparr>ta_validate = (\<lambda>token s. if token = ''good'' then (Inr sample_claims, s) else (Inl (Jwt ''bad''), s)),
        ta_revocation = None, ta_public_paths = []\<rparr>,
      sk_caller_policy = None\<rparr>"

definition sample_stack_env :: "nat stack_env" where
  "sample_stack_env =
     \<lparr>se_hv = Some, se_regex = sample_regex,
      se_governor = \<lparr>gv_direct = (\<lambda>interval burst. unat burst), gv_check = (\<lambda>now n. (0 < n, n - 1))\<rparr>,
      se_caller = sample_caller_env, se_stamp = ([], 0), se_now = 0, se_utc_secs = Some 0, se_duration_ms = 3\<rparr>"

definition fail_service :: "keyspace service" where
  "fail_service rq s = (\<lparr>rp_status = 404, rp_headers = [], rp_body = Opaque []\<rparr>, s, [])"

lemma sample_stack_network: "from_network sample_request"
  by (simp add: from_network_def sample_request_def sample_caller_request_def)

abbreviation sample_limiters :: "nat limiters \<times> keyspace" where
  "sample_limiters \<equiv> (\<lparr>lm_route = [], lm_global = []\<rparr>, Map.empty)"

lemma sample_stack_built:
  "build_stack sample_stack_env sample_stack ok_service \<noteq> None" "build_stack sample_stack_env sample_stack fail_service \<noteq> None"
  by (simp_all add: build_stack_def sample_stack_def default_rate_limit_config_def compile_def Let_def)

lemma sample_stack_runs:
  "rp_status (fst (the (build_stack sample_stack_env sample_stack ok_service) sample_request sample_limiters)) = 200"
  "rp_status (fst (the (build_stack sample_stack_env sample_stack fail_service) sample_request sample_limiters)) = 404"
  "map ev_kind (snd (snd (the (build_stack sample_stack_env sample_stack ok_service) sample_request sample_limiters)))
     = [AuthLoginSuccess, HttpRequest]"
  by code_simp+

theorem router_needs_credentials_witness:
  "\<exists>auth. sk_token sample_stack = Some auth \<and> token_passes sample_caller_env None auth sample_request sample_limiters"
proof -
  obtain svc svc' where svc: "build_stack sample_stack_env sample_stack ok_service = Some svc"
      "build_stack sample_stack_env sample_stack fail_service = Some svc'"
    using sample_stack_built by blast
  then have "svc sample_request sample_limiters \<noteq> svc' sample_request sample_limiters"
    using sample_stack_runs(1,2) by auto
  from router_needs_credentials [OF svc sample_stack_network this]
  show ?thesis by (auto simp: sample_stack_def sample_stack_env_def)
qed

theorem audit_without_client_ip_witness:
  "list_all (\<lambda>ev. src_ip (ev_source ev) = None)
     (snd (snd (the (build_stack sample_stack_env sample_stack ok_service) sample_request sample_limiters)))
   \<and> snd (snd (the (build_stack sample_stack_env sample_stack ok_service) sample_request sample_limiters)) \<noteq> []"
proof
  obtain svc where svc: "build_stack sample_stack_env sample_stack ok_service = Some svc"
    using sample_stack_built by blast
  obtain rp s' events where run: "svc sample_request sample_limiters = (rp, s', events)" by (metis prod_cases3)
  have "\<forall>ev \<in> set events. src_ip (ev_source ev) = None"
    by (rule audit_without_client_ip [OF svc sample_stack_network _ run])
      (simp add: sample_stack_def apply_middleware_def request_context_middleware_def ok_service_def)
  with svc run show "list_all (\<lambda>ev. src_ip (ev_source ev) = None)
     (snd (snd (the (build_stack sample_stack_env sample_stack ok_service) sample_request sample_limiters)))"
    by (simp add: list_all_iff)
  show "snd (snd (the (build_stack sample_stack_env sample_stack ok_service) sample_request sample_limiters)) \<noteq> []"
    using sample_stack_runs(3) by auto
qed

end
