(* ===== verification/Cedar.thy ===== *)
theory Cedar
  imports Token_Auth
begin

text \<open>
  Policy authorization (\<^verbatim>\<open>src/acton-service/src/middleware/cedar.rs\<close>): the Cedar request built from the claims
  and the HTTP request, the decision with its cache in Redis, the HTTP middleware and the check of
  the gRPC layer. The Cedar engine, its entities, contexts and policy sets, the JSON and regex
  crates and the file system are the parameter \<open>cedar_env\<close>; the clock is an argument. The policy set
  of \<open>cedar_authz\<close> is the content of the shared lock when the request is checked.
\<close>

subsection \<open>Requests and decisions\<close>

datatype decision = Allow | Deny

record ('u, 'c) cedar_request =
  cq_principal :: 'u
  cq_action :: 'u
  cq_resource :: 'u
  cq_context :: 'c

text \<open>
  \<open>ce_uid\<close> parses an entity and \<open>ce_show_uid\<close> prints it, \<open>ce_context\<close> and \<open>ce_entities\<close> read JSON,
  \<open>ce_request_error\<close> is the error of a request that does not fit, if any, \<open>ce_policies\<close> parses policies and
  \<open>ce_is_authorized\<close> evaluates them. \<open>ce_read\<close> reads a file in a blocking task, which may fail to join.
  \<open>ce_replace_all pattern text replacement\<close> is \<^verbatim>\<open>Regex::replace_all\<close>.
\<close>

record ('u, 'c, 'p, 'e) cedar_env =
  ce_uid :: "string \<Rightarrow> string + 'u"
  ce_show_uid :: "'u \<Rightarrow> string"
  ce_context :: "json \<Rightarrow> string + 'c"
  ce_request_error :: "('u, 'c) cedar_request \<Rightarrow> string option"
  ce_policies :: "string \<Rightarrow> string + 'p"
  ce_entities :: "json \<Rightarrow> string + 'e"
  ce_is_authorized :: "('u, 'c) cedar_request \<Rightarrow> 'p \<Rightarrow> 'e \<Rightarrow> decision"
  ce_read :: "string \<Rightarrow> string + (string + string)"
  ce_replace_all :: "string \<Rightarrow> string \<Rightarrow> string \<Rightarrow> string"

record cedar_config =
  cf_enabled :: bool
  cf_policy_path :: string
  cf_hot_reload :: bool
  cf_hot_reload_interval_secs :: u64
  cf_cache_enabled :: bool
  cf_cache_ttl_secs :: u64
  cf_fail_open :: bool

text \<open>The interface of a decision cache, over the state it lives in.\<close>

record ('u, 'c, 's) policy_cache =
  pc_get :: "('u, 'c) cedar_request \<Rightarrow> 's \<Rightarrow> error + decision option"
  pc_set :: "('u, 'c) cedar_request \<Rightarrow> decision \<Rightarrow> u64 \<Rightarrow> 's \<Rightarrow> (error + unit) \<times> 's"

record ('u, 'c, 's) cedar_authz_builder =
  zb_config :: cedar_config
  zb_path_normalizer :: "(string \<Rightarrow> string) option"
  zb_cache :: "('u, 'c, 's) policy_cache option"

record ('u, 'c, 'p, 's) cedar_authz =
  cz_policy_set :: 'p
  cz_config :: cedar_config
  cz_cache :: "('u, 'c, 's) policy_cache option"
  cz_path_normalizer :: "(string \<Rightarrow> string) option"

definition cedar_builder_new :: "cedar_config \<Rightarrow> ('u, 'c, 's) cedar_authz_builder" where
  "cedar_builder_new config = \<lparr>zb_config = config, zb_path_normalizer = None, zb_cache = None\<rparr>"

definition with_path_normalizer ::
  "(string \<Rightarrow> string) \<Rightarrow> ('u, 'c, 's) cedar_authz_builder \<Rightarrow> ('u, 'c, 's) cedar_authz_builder" where
  "with_path_normalizer normalizer b = b\<lparr>zb_path_normalizer := Some normalizer\<rparr>"

definition with_cache ::
  "('u, 'c, 's) policy_cache \<Rightarrow> ('u, 'c, 's) cedar_authz_builder \<Rightarrow> ('u, 'c, 's) cedar_authz_builder" where
  "with_cache cache b = b\<lparr>zb_cache := Some cache\<rparr>"

definition cedar_build ::
  "('u, 'c, 'p, 'e) cedar_env \<Rightarrow> ('u, 'c, 's) cedar_authz_builder \<Rightarrow> error + ('u, 'c, 'p, 's) cedar_authz" where
  "cedar_build env b =
     (case ce_read env (cf_policy_path (zb_config b)) of
        Inl e \<Rightarrow> Inl (Internal (''Task join error: '' @ e))
      | Inr (Inl e) \<Rightarrow> Inl (Config (''Failed to read Cedar policy file from '' @ [CHR 0x27] @ cf_policy_path (zb_config b)
                          @ [CHR 0x27] @ '': '' @ e))
      | Inr (Inr policies) \<Rightarrow>
          (case ce_policies env policies of
             Inl e \<Rightarrow> Inl (Config (''Failed to parse Cedar policies: '' @ e))
           | Inr policy_set \<Rightarrow>
               Inr \<lparr>cz_policy_set = policy_set, cz_config = zb_config b, cz_cache = zb_cache b,
                    cz_path_normalizer = zb_path_normalizer b\<rparr>))"

definition cedar_from_config ::
  "('u, 'c, 'p, 'e) cedar_env \<Rightarrow> cedar_config \<Rightarrow> error + ('u, 'c, 'p, 's) cedar_authz" where
  "cedar_from_config env config = cedar_build env (cedar_builder_new config)"

definition cedar_from_app_config ::
  "('u, 'c, 'p, 'e) cedar_env \<Rightarrow> cedar_config option \<Rightarrow> error + ('u, 'c, 'p, 's) cedar_authz option" where
  "cedar_from_app_config env cedar =
     (case cedar of
        Some config \<Rightarrow>
          if cf_enabled config
          then (case cedar_from_config env config of Inl e \<Rightarrow> Inl e | Inr authz \<Rightarrow> Inr (Some authz))
          else Inr None
      | None \<Rightarrow> Inr None)"

definition reload_policies ::
  "('u, 'c, 'p, 'e) cedar_env \<Rightarrow> ('u, 'c, 'p, 's) cedar_authz \<Rightarrow> (error + unit) \<times> ('u, 'c, 'p, 's) cedar_authz" where
  "reload_policies env authz =
     (case ce_read env (cf_policy_path (cz_config authz)) of
        Inl e \<Rightarrow> (Inl (Internal (''Task join error: '' @ e)), authz)
      | Inr (Inl e) \<Rightarrow> (Inl (Internal (''Failed to read policy file: '' @ e)), authz)
      | Inr (Inr policies) \<Rightarrow>
          (case ce_policies env policies of
             Inl e \<Rightarrow> (Inl (Internal (''Failed to parse policies: '' @ e)), authz)
           | Inr policy_set \<Rightarrow> (Inr (), authz\<lparr>cz_policy_set := policy_set\<rparr>)))"

subsection \<open>Building the request\<close>

definition quoted :: "string \<Rightarrow> string \<Rightarrow> string" where
  "quoted ty eid = ty @ ''::'' @ [CHR 0x22] @ eid @ [CHR 0x22]"

definition parse_uid :: "('u, 'c, 'p, 'e) cedar_env \<Rightarrow> string \<Rightarrow> string \<Rightarrow> error + 'u" where
  "parse_uid env what text =
     (case ce_uid env text of Inl e \<Rightarrow> Inl (Internal (what @ e)) | Inr uid \<Rightarrow> Inr uid)"

definition build_resource :: "('u, 'c, 'p, 'e) cedar_env \<Rightarrow> error + 'u" where
  "build_resource env = parse_uid env ''Failed to parse resource: '' (quoted ''Resource'' ''default'')"

definition principal_type :: "claims \<Rightarrow> string" where
  "principal_type claims = (if is_user claims then ''User'' else if is_client claims then ''Client'' else ''Principal'')"

definition build_principal :: "('u, 'c, 'p, 'e) cedar_env \<Rightarrow> claims \<Rightarrow> error + 'u" where
  "build_principal env claims = parse_uid env ''Invalid principal: '' (quoted (principal_type claims) (cl_sub claims))"

definition uuid_pattern :: string where
  "uuid_pattern = ''[0-9a-f]{8}-[0-9a-f]{4}-[0-9a-f]{4}-[0-9a-f]{4}-[0-9a-f]{12}''"

definition numeric_pattern :: string where
  "numeric_pattern = ''/('' @ [CHR 0x5C] @ ''d+)(?:/|$)''"

definition normalize_path_generic :: "('u, 'c, 'p, 'e) cedar_env \<Rightarrow> string \<Rightarrow> string" where
  "normalize_path_generic env path =
     ce_replace_all env numeric_pattern (ce_replace_all env uuid_pattern path ''{id}'') ''/{id}''"

text \<open>\<open>matched\<close> is the path template of the router, where one is attached to the request.\<close>

definition build_action_http ::
  "('u, 'c, 'p, 'e) cedar_env \<Rightarrow> (string \<Rightarrow> string) option \<Rightarrow> string option \<Rightarrow> request \<Rightarrow> error + 'u" where
  "build_action_http env path_normalizer matched rq =
     (let normalized_path = (case matched of
            Some template \<Rightarrow> template
          | None \<Rightarrow> (case path_normalizer of
               Some normalizer \<Rightarrow> normalizer (hr_path rq) | None \<Rightarrow> normalize_path_generic env (hr_path rq)))
      in parse_uid env ''Invalid action: '' (quoted ''Action'' (hr_method rq @ '' '' @ normalized_path)))"

definition build_action_grpc :: "('u, 'c, 'p, 'e) cedar_env \<Rightarrow> string \<Rightarrow> error + 'u" where
  "build_action_grpc env method_path = parse_uid env ''Invalid gRPC action: '' (quoted ''Action'' method_path)"

definition cedar_client_ip :: "header_map \<Rightarrow> string option" where
  "cedar_client_ip headers =
     (case header_string headers ''x-forwarded-for'' of
        Some xff \<Rightarrow> Some (trim (hd (split_char CHR '','' xff)))
      | None \<Rightarrow> header_string headers ''x-real-ip'')"

text \<open>What the clock shows: Unix seconds, hour and name of the weekday, in UTC.\<close>

record utc_clock =
  uc_unix :: int
  uc_hour :: nat
  uc_weekday :: string

definition opt_field :: "string \<Rightarrow> string option \<Rightarrow> (string \<times> json) list" where
  "opt_field key v = (case v of Some s \<Rightarrow> [(key, JString s)] | None \<Rightarrow> [])"

definition context_json :: "utc_clock \<Rightarrow> header_map \<Rightarrow> claims \<Rightarrow> json" where
  "context_json clock headers claims =
     JObject (
       [(''roles'', JArray (map JString (cl_roles claims))), (''permissions'', JArray (map JString (cl_perms claims)))] @
       opt_field ''email'' (cl_email claims) @ opt_field ''username'' (cl_username claims) @
       [(''timestamp'', JObject [(''unix'', JNumber (show_i64 (uc_unix clock))), (''hour'', JNumber (show_nat (uc_hour clock))),
          (''dayOfWeek'', JString (uc_weekday clock))])] @
       opt_field ''ip'' (cedar_client_ip headers) @
       opt_field ''requestId'' (header_string headers ''x-request-id'') @
       opt_field ''userAgent'' (header_string headers ''user-agent''))"

definition build_context_http ::
  "('u, 'c, 'p, 'e) cedar_env \<Rightarrow> utc_clock \<Rightarrow> header_map \<Rightarrow> claims \<Rightarrow> error + 'c" where
  "build_context_http env clock headers claims =
     (case ce_context env (context_json clock headers claims) of
        Inl e \<Rightarrow> Inl (Internal (''Failed to build context: '' @ e)) | Inr c \<Rightarrow> Inr c)"

definition build_context_grpc ::
  "('u, 'c, 'p, 'e) cedar_env \<Rightarrow> utc_clock \<Rightarrow> header_map \<Rightarrow> claims \<Rightarrow> error + 'c" where
  "build_context_grpc env clock headers claims =
     (case ce_context env (context_json clock headers claims) of
        Inl e \<Rightarrow> Inl (Internal (''Failed to build gRPC context: '' @ e)) | Inr c \<Rightarrow> Inr c)"

definition entity_type :: "claims \<Rightarrow> string" where
  "entity_type claims = (if is_user claims then ''User'' else ''Client'')"

definition entities_json :: "claims \<Rightarrow> json" where
  "entities_json claims =
     JArray [JObject [
       (''uid'', JObject [(''type'', JString (entity_type claims)), (''id'', JString (cl_sub claims))]),
       (''attrs'', JObject [
          (''email'', JString (case cl_email claims of Some e \<Rightarrow> e | None \<Rightarrow> [])),
          (''roles'', JArray (map JString (cl_roles claims))),
          (''permissions'', JArray (map JString (cl_perms claims))),
          (''sub'', JString (cl_sub claims))]),
       (''parents'', JArray [])]]"

definition build_entities :: "('u, 'c, 'p, 'e) cedar_env \<Rightarrow> claims \<Rightarrow> error + 'e" where
  "build_entities env claims =
     (case ce_entities env (entities_json claims) of
        Inl e \<Rightarrow> Inl (Internal (''Failed to build entities: '' @ e)) | Inr es \<Rightarrow> Inr es)"

subsection \<open>The decision\<close>

definition apply_fail_open :: "cedar_config \<Rightarrow> decision \<Rightarrow> decision" where
  "apply_fail_open config d =
     (case d of Allow \<Rightarrow> Allow | Deny \<Rightarrow> if cf_fail_open config then Allow else Deny)"

definition cedar_authorize ::
  "('u, 'c, 'p, 'e) cedar_env \<Rightarrow> ('u, 'c, 'p, 's) cedar_authz \<Rightarrow> 'u \<Rightarrow> 'u \<Rightarrow> 'u \<Rightarrow> 'c \<Rightarrow> claims \<Rightarrow> 's \<Rightarrow>
     (error + decision) \<times> 's" where
  "cedar_authorize env authz subject action resource context claims s =
     (let rq = \<lparr>cq_principal = subject, cq_action = action, cq_resource = resource, cq_context = context\<rparr>
      in case ce_request_error env rq of
           Some e \<Rightarrow> (Inl (Internal (''Failed to build Cedar request: '' @ e)), s)
         | None \<Rightarrow>
      (case (case cz_cache authz of Some cache \<Rightarrow> pc_get cache rq s | None \<Rightarrow> Inr None) of
           Inl e \<Rightarrow> (Inl e, s)
         | Inr (Some decision) \<Rightarrow> (Inr (apply_fail_open (cz_config authz) decision), s)
         | Inr None \<Rightarrow>
      (case build_entities env claims of
           Inl e \<Rightarrow> (Inl e, s)
         | Inr entities \<Rightarrow>
             let raw_decision = ce_is_authorized env rq (cz_policy_set authz) entities;
                 s' = (case cz_cache authz of
                    Some cache \<Rightarrow> snd (pc_set cache rq raw_decision (cf_cache_ttl_secs (cz_config authz)) s) | None \<Rightarrow> s)
             in (Inr (apply_fail_open (cz_config authz) raw_decision), s'))))"

subsection \<open>The cache in Redis\<close>

definition cache_key :: "('u, 'c, 'p, 'e) cedar_env \<Rightarrow> ('u, 'c) cedar_request \<Rightarrow> string" where
  "cache_key env rq =
     ''cedar:authz:'' @ ce_show_uid env (cq_principal rq) @ '':'' @ ce_show_uid env (cq_action rq) @ '':'' @
     ce_show_uid env (cq_resource rq)"

definition redis_policy_get ::
  "('u, 'c, 'p, 'e) cedar_env \<Rightarrow> 'r redis \<Rightarrow> nat \<Rightarrow> ('u, 'c) cedar_request \<Rightarrow> 'r \<Rightarrow> error + decision option" where
  "redis_policy_get env R now rq s =
     (case rd_connect R s of
        Some e \<Rightarrow> Inl (Internal (''Redis connection failed: '' @ e))
      | None \<Rightarrow>
          (case rd_get R (cache_key env rq) now s of
             Inl e \<Rightarrow> Inl (Internal (''Redis GET failed: '' @ e))
           | Inr v \<Rightarrow> Inr (Option.bind v (\<lambda>t.
               if t = ''allow'' then Some Allow else if t = ''deny'' then Some Deny else None))))"

definition redis_policy_set ::
  "('u, 'c, 'p, 'e) cedar_env \<Rightarrow> 'r redis \<Rightarrow> nat \<Rightarrow> ('u, 'c) cedar_request \<Rightarrow> decision \<Rightarrow> u64 \<Rightarrow> 'r \<Rightarrow>
     (error + unit) \<times> 'r" where
  "redis_policy_set env R now rq decision ttl_secs s =
     (case rd_connect R s of
        Some e \<Rightarrow> (Inl (Internal (''Redis connection failed: '' @ e)), s)
      | None \<Rightarrow>
          (case rd_set_ex R (cache_key env rq) (case decision of Allow \<Rightarrow> ''allow'' | Deny \<Rightarrow> ''deny'') (uint ttl_secs) now s of
             (Inl e, s') \<Rightarrow> (Inl (Internal (''Redis SETEX failed: '' @ e)), s')
           | (Inr _, s') \<Rightarrow> (Inr (), s')))"

definition redis_policy_cache :: "('u, 'c, 'p, 'e) cedar_env \<Rightarrow> 'r redis \<Rightarrow> nat \<Rightarrow> ('u, 'c, 'r) policy_cache" where
  "redis_policy_cache env R now = \<lparr>pc_get = redis_policy_get env R now, pc_set = redis_policy_set env R now\<rparr>"

subsection \<open>The HTTP middleware\<close>

definition cedar_audit_source :: "header_map \<Rightarrow> claims \<Rightarrow> audit_source" where
  "cedar_audit_source headers claims =
     \<lparr>src_ip = map_option (\<lambda>s. trim (hd (split_char CHR '','' s)))
        (Option.bind (or_else (map_of headers ''x-forwarded-for'') (map_of headers ''x-real-ip'')) header_to_str),
      src_user_agent = header_string headers ''user-agent'', src_subject = Some (cl_sub claims),
      src_request_id = header_string headers ''x-request-id''\<rparr>"

definition cedar_decide ::
  "('u, 'c, 'p, 'e) cedar_env \<Rightarrow> utc_clock \<Rightarrow> ('u, 'c, 'p, 's) cedar_authz \<Rightarrow> string option \<Rightarrow> claims \<Rightarrow> request \<Rightarrow> 's \<Rightarrow>
     (error + decision) \<times> 's" where
  "cedar_decide env clock authz matched claims rq s =
     (case build_principal env claims of
        Inl e \<Rightarrow> (Inl e, s)
      | Inr subject \<Rightarrow>
     (case build_action_http env (cz_path_normalizer authz) matched rq of
        Inl e \<Rightarrow> (Inl e, s)
      | Inr action \<Rightarrow>
     (case build_context_http env clock (hr_headers rq) claims of
        Inl e \<Rightarrow> (Inl e, s)
      | Inr context \<Rightarrow>
     (case build_resource env of
        Inl e \<Rightarrow> (Inl e, s)
      | Inr resource \<Rightarrow> cedar_authorize env authz subject action resource context claims s))))"

definition cedar_middleware ::
  "('u, 'c, 'p, 'e) cedar_env \<Rightarrow> (string \<Rightarrow> string option) \<Rightarrow> stamp \<Rightarrow> utc_clock \<Rightarrow> ('u, 'c, 'p, 's) cedar_authz \<Rightarrow>
     (request \<Rightarrow> string option) \<Rightarrow> 's service \<Rightarrow> 's service" where
  "cedar_middleware env hv stamp clock authz matched next rq s =
     (if \<not> cf_enabled (cz_config authz) then next rq s
      else if hr_path rq = ''/health'' \<or> hr_path rq = ''/ready'' then next rq s
      else (case ext_claims (hr_ext rq) of
              None \<Rightarrow> (reject hv (Unauthorized
                ''Missing JWT claims. Ensure JWT middleware runs before Cedar middleware.''), s, [])
            | Some claims \<Rightarrow>
                (case cedar_decide env clock authz (matched rq) claims rq s of
                   (Inl e, s') \<Rightarrow> (reject hv e, s', [])
                 | (Inr Allow, s') \<Rightarrow> next rq s'
                 | (Inr Deny, s') \<Rightarrow>
                     (reject hv (Forbidden ''Access denied by policy''), s',
                      audit_auth stamp (ext_audit_logger (hr_ext rq)) AuthPermissionDenied Warning
                        (cedar_audit_source (hr_headers rq) claims)))))"

subsection \<open>The gRPC check\<close>

datatype grpc_status = Unauthenticated string | GrpcInternal string | PermissionDenied string

text \<open>\<open>show_error\<close> is the printer of errors. The result carries the audit events.\<close>

definition authorize_grpc_request ::
  "('u, 'c, 'p, 'e) cedar_env \<Rightarrow> (error \<Rightarrow> string) \<Rightarrow> stamp \<Rightarrow> utc_clock \<Rightarrow> ('u, 'c, 'p, 's) cedar_authz \<Rightarrow> header_map \<Rightarrow>
     extensions \<Rightarrow> string \<Rightarrow> 's \<Rightarrow> (grpc_status + unit) \<times> 's \<times> audit_event list" where
  "authorize_grpc_request env show_error stamp clock authz headers ext method_path s =
     (if \<not> cf_enabled (cz_config authz) then (Inr (), s, [])
      else if is_grpc_infra_path method_path then (Inr (), s, [])
      else (case ext_claims ext of
        None \<Rightarrow> (Inl (Unauthenticated
          ''Missing authentication claims. Ensure a token authentication layer runs before the Cedar layer.''), s, [])
      | Some claims \<Rightarrow>
     (case build_principal env claims of
        Inl _ \<Rightarrow> (Inl (GrpcInternal ''Failed to build principal''), s, [])
      | Inr subject \<Rightarrow>
     (case build_action_grpc env method_path of
        Inl _ \<Rightarrow> (Inl (GrpcInternal ''Failed to build action''), s, [])
      | Inr action \<Rightarrow>
     (case build_context_grpc env clock headers claims of
        Inl _ \<Rightarrow> (Inl (GrpcInternal ''Failed to build context''), s, [])
      | Inr context \<Rightarrow>
     (case build_resource env of
        Inl _ \<Rightarrow> (Inl (GrpcInternal ''Failed to parse resource''), s, [])
      | Inr resource \<Rightarrow>
     (case cedar_authorize env authz subject action resource context claims s of
        (Inl e, s') \<Rightarrow> (Inl (GrpcInternal (''Cedar authorization error: '' @ show_error e)), s', [])
      | (Inr Allow, s') \<Rightarrow> (Inr (), s', [])
      | (Inr Deny, s') \<Rightarrow>
          (Inl (PermissionDenied ''Access denied by policy''), s',
           audit_auth stamp (ext_audit_logger ext) AuthPermissionDenied Warning
             \<lparr>src_ip = cedar_client_ip headers, src_user_agent = header_string headers ''user-agent'',
              src_subject = Some (cl_sub claims), src_request_id = header_string headers ''x-request-id''\<rparr>))))))))"

text \<open>\<open>into_http\<close> is the response of a gRPC status.\<close>

definition cedar_grpc_call ::
  "('u, 'c, 'p, 'e) cedar_env \<Rightarrow> (error \<Rightarrow> string) \<Rightarrow> (grpc_status \<Rightarrow> response) \<Rightarrow> stamp \<Rightarrow> utc_clock \<Rightarrow>
     ('u, 'c, 'p, 's) cedar_authz \<Rightarrow> 's service \<Rightarrow> 's service" where
  "cedar_grpc_call env show_error into_http stamp clock authz inner rq s =
     (case authorize_grpc_request env show_error stamp clock authz (hr_headers rq) (hr_ext rq) (hr_path rq) s of
        (Inr _, s', events) \<Rightarrow> (case inner rq s' of (rp, s'', events') \<Rightarrow> (rp, s'', events @ events'))
      | (Inl status, s', events) \<Rightarrow> (into_http status, s', events))"

subsection \<open>Who passes\<close>

lemma apply_fail_open_eq:
  "apply_fail_open config d = (if d = Allow \<or> cf_fail_open config then Allow else Deny)"
  by (cases d) (simp_all add: apply_fail_open_def)

lemma fail_open_never_denies:
  assumes "cf_fail_open (cz_config authz)"
  shows "fst (cedar_decide env clock authz matched claims rq s) \<noteq> Inr Deny"
  using assms
  by (simp add: cedar_decide_def cedar_authorize_def Let_def apply_fail_open_eq split: sum.splits option.splits)


subsection \<open>Cached decisions\<close>

definition redis_answers :: "'r redis \<Rightarrow> bool" where
  "redis_answers R \<longleftrightarrow> (\<forall>s. rd_connect R s = None) \<and> (\<forall>k now s. is_ok (rd_get R k now s))
     \<and> (\<forall>k v secs now s. is_ok (fst (rd_set_ex R k v secs now s)))"

lemma redis_policy_set_view:
  assumes "redis_laws R view" and "redis_answers R" and "0 < ttl"
  shows "view (snd (redis_policy_set env R now rq d ttl s)) =
    (view s)(cache_key env rq \<mapsto> (case d of Allow \<Rightarrow> ''allow'' | Deny \<Rightarrow> ''deny'', Some (now + unat ttl * 1000)))"
proof -
  let ?set = "rd_set_ex R (cache_key env rq) (case d of Allow \<Rightarrow> ''allow'' | Deny \<Rightarrow> ''deny'') (uint ttl) now s"
  obtain u s' where set: "?set = (Inr u, s')"
    using assms(2) by (metis is_ok_iff prod.collapse redis_answers_def)
  have "0 < uint ttl" using assms(3) by (metis uint_lt_0 uint_0_iff linorder_neqE word_gt_0)
  with redis_laws.set_ex_ok [OF assms(1) set] have
    "view s' = (view s)(cache_key env rq \<mapsto> (case d of Allow \<Rightarrow> ''allow'' | Deny \<Rightarrow> ''deny'', Some (now + nat (uint ttl) * 1000)))"
    by simp
  with set assms(2) show ?thesis by (simp add: redis_policy_set_def redis_answers_def nat_uint_eq)
qed

lemma redis_policy_get_live:
  assumes "redis_laws R view" and "redis_answers R"
  shows "redis_policy_get env R now rq s = Inr (case live now (view s) (cache_key env rq) of
    Some (t, ex) \<Rightarrow> if t = ''allow'' then Some Allow else if t = ''deny'' then Some Deny else None | None \<Rightarrow> None)"
proof -
  obtain r where r: "rd_get R (cache_key env rq) now s = Inr r"
    using assms(2) by (metis is_ok_iff redis_answers_def)
  from redis_laws.get_ok [OF assms(1) r] have "r = map_option fst (live now (view s) (cache_key env rq))" .
  with r assms(2) show ?thesis
    by (auto simp: redis_policy_get_def redis_answers_def split: option.splits)
qed

text \<open>
  A cached decision outlives what it was based on. When a decision has been cached for a principal, an
  action and the one resource, then until the time to live has passed every later request with the
  same principal and action gets that decision, whatever roles, permissions, address and
  time its context holds, whatever its claims are, and whatever policies have been loaded since.
\<close>

theorem cached_decision_ignores_context:
  assumes laws: "redis_laws R view" and up: "redis_answers R" and ttl: "0 < cf_cache_ttl_secs (cz_config authz)"
    and req: "\<forall>rq. ce_request_error env rq = None"
    and ents: "build_entities env claims = Inr entities"
    and fresh: "live now (view s) (cache_key env \<lparr>cq_principal = p, cq_action = a, cq_resource = r, cq_context = c\<rparr>) = None"
    and later: "now2 < now + unat (cf_cache_ttl_secs (cz_config authz)) * 1000"
  shows "\<exists>s' d. d = apply_fail_open (cz_config authz) (ce_is_authorized env
      \<lparr>cq_principal = p, cq_action = a, cq_resource = r, cq_context = c\<rparr> (cz_policy_set authz) entities) \<and>
    cedar_authorize env (authz\<lparr>cz_cache := Some (redis_policy_cache env R now)\<rparr>) p a r c claims s = (Inr d, s') \<and>
    (\<forall>c2 claims2 policies2. cedar_authorize env (authz\<lparr>cz_cache := Some (redis_policy_cache env R now2), cz_policy_set := policies2\<rparr>)
       p a r c2 claims2 s' = (Inr d, s'))"
proof -
  let ?rq = "\<lparr>cq_principal = p, cq_action = a, cq_resource = r, cq_context = c\<rparr>"
  let ?raw = "ce_is_authorized env ?rq (cz_policy_set authz) entities"
  let ?s' = "snd (redis_policy_set env R now ?rq ?raw (cf_cache_ttl_secs (cz_config authz)) s)"
  have first: "cedar_authorize env (authz\<lparr>cz_cache := Some (redis_policy_cache env R now)\<rparr>) p a r c claims s =
      (Inr (apply_fail_open (cz_config authz) ?raw), ?s')"
    using redis_policy_get_live [OF laws up, of env now ?rq s] fresh req ents
    by (simp add: cedar_authorize_def redis_policy_cache_def Let_def)
  have "cache_key env \<lparr>cq_principal = p, cq_action = a, cq_resource = r, cq_context = c2\<rparr> = cache_key env ?rq" for c2
    by (simp add: cache_key_def)
  then have "redis_policy_get env R now2 \<lparr>cq_principal = p, cq_action = a, cq_resource = r, cq_context = c2\<rparr> ?s' = Inr (Some ?raw)" for c2
    using later redis_policy_get_live [OF laws up, of env now2 "\<lparr>cq_principal = p, cq_action = a, cq_resource = r, cq_context = c2\<rparr>" ?s']
    by (cases ?raw) (simp_all add: redis_policy_set_view [OF laws up ttl] live_def)
  then have "cedar_authorize env (authz\<lparr>cz_cache := Some (redis_policy_cache env R now2), cz_policy_set := policies2\<rparr>)
      p a r c2 claims2 ?s' = (Inr (apply_fail_open (cz_config authz) ?raw), ?s')" for c2 claims2 policies2
    using req by (simp add: cedar_authorize_def redis_policy_cache_def Let_def)
  with first show ?thesis by blast
qed

definition sample_cedar_env :: "(string, json, json \<Rightarrow> decision, unit) cedar_env" where
  "sample_cedar_env =
     \<lparr>ce_uid = Inr, ce_show_uid = (\<lambda>u. u), ce_context = Inr, ce_request_error = (\<lambda>rq. None),
      ce_policies = (\<lambda>text. Inl ''unused''), ce_entities = (\<lambda>j. Inr ()),
      ce_is_authorized = (\<lambda>rq policies es. policies (cq_context rq)), ce_read = (\<lambda>path. Inr (Inr [])),
      ce_replace_all = (\<lambda>pattern text replacement. text)\<rparr>"

definition admins_only :: "json \<Rightarrow> decision" where
  "admins_only ctx = (if ctx = JString ''admin'' then Allow else Deny)"

definition sample_authz :: "(string, json, json \<Rightarrow> decision, keyspace) cedar_authz" where
  "sample_authz =
     \<lparr>cz_policy_set = admins_only,
      cz_config = \<lparr>cf_enabled = True, cf_policy_path = ''p'', cf_hot_reload = False, cf_hot_reload_interval_secs = 60,
        cf_cache_enabled = True, cf_cache_ttl_secs = 300, cf_fail_open = False\<rparr>,
      cz_cache = None, cz_path_normalizer = None\<rparr>"

theorem cached_decision_ignores_context_witness:
  "\<exists>s'. fst (cedar_authorize sample_cedar_env (sample_authz\<lparr>cz_cache := Some (redis_policy_cache sample_cedar_env mem_redis 1000)\<rparr>)
      ''alice'' ''GET /'' ''r'' (JString ''guest'') sample_claims s') = Inr Allow
   \<and> ce_is_authorized sample_cedar_env \<lparr>cq_principal = ''alice'', cq_action = ''GET /'', cq_resource = ''r'',
        cq_context = JString ''guest''\<rparr> admins_only () = Deny"
proof -
  have up: "redis_answers mem_redis" by (simp add: redis_answers_def mem_redis_def)
  have ents: "build_entities sample_cedar_env sample_claims = Inr ()" by (simp add: build_entities_def sample_cedar_env_def)
  have req: "\<forall>rq. ce_request_error sample_cedar_env rq = None"
    and ttl: "0 < cf_cache_ttl_secs (cz_config sample_authz)"
    and later: "1000 < 0 + unat (cf_cache_ttl_secs (cz_config sample_authz)) * 1000"
    by (simp_all add: sample_cedar_env_def sample_authz_def)
  have fresh: "live 0 Map.empty k = None" for k by (simp add: live_def)
  obtain s' where "\<forall>c2 claims2 policies2. cedar_authorize sample_cedar_env
      (sample_authz\<lparr>cz_cache := Some (redis_policy_cache sample_cedar_env mem_redis 1000), cz_policy_set := policies2\<rparr>)
        ''alice'' ''GET /'' ''r'' c2 claims2 s' =
      (Inr (apply_fail_open (cz_config sample_authz) (ce_is_authorized sample_cedar_env \<lparr>cq_principal = ''alice'', cq_action = ''GET /'',
         cq_resource = ''r'', cq_context = JString ''admin''\<rparr> (cz_policy_set sample_authz) ())), s')"
    using cached_decision_ignores_context [OF mem.redis_laws_axioms up ttl req ents fresh later, of "''alice''" "''GET /''" "''r''" "JString ''admin''"]
    by blast
  from this [rule_format, of admins_only "JString ''guest''" sample_claims] show ?thesis
    by (intro exI [of _ s']) (simp add: sample_cedar_env_def sample_authz_def admins_only_def apply_fail_open_def)
qed

definition cedar_sample_request :: "claims option \<Rightarrow> request" where
  "cedar_sample_request c = sample_request\<lparr>hr_path := ''/x'', hr_ext := (hr_ext sample_request)\<lparr>ext_claims := c\<rparr>\<rparr>"


subsection \<open>Principals and entities\<close>

text \<open>
  Attributes are attached to the principal of the request exactly when the subject names a user or a client;
  for any other subject the entity has another type than the principal.
\<close>

lemma principal_has_entity: "principal_type claims = entity_type claims \<longleftrightarrow> is_user claims \<or> is_client claims"
  by (simp add: principal_type_def entity_type_def)

subsection \<open>Generic paths\<close>

text \<open>
  The documented meaning of replacing all matches of \<^const>\<open>numeric_pattern\<close> in ASCII text: matches are found from the
  left and do not overlap, and the slash that ends a match is part of it.
\<close>

definition numeric_match :: "string \<Rightarrow> string option" where
  "numeric_match s =
     (case strip_prefix s ''/'' of
        None \<Rightarrow> None
      | Some t \<Rightarrow>
          if takeWhile is_ascii_digit t = [] then None
          else (case dropWhile is_ascii_digit t of
                  [] \<Rightarrow> Some []
                | d # rest \<Rightarrow> if d = CHR ''/'' then Some rest else None))"

lemma numeric_match_shorter: "numeric_match s = Some r \<Longrightarrow> length r < length s"
proof -
  assume "numeric_match s = Some r"
  then obtain t where "s = ''/'' @ t" and "r = [] \<or> (\<exists>d. dropWhile is_ascii_digit t = d # r)"
    by (auto simp: numeric_match_def strip_prefix_Some split: option.splits if_splits list.splits)
  with length_dropWhile_le [of is_ascii_digit t] show ?thesis by auto
qed

function replace_numeric :: "string \<Rightarrow> string" where
  "replace_numeric s =
     (case numeric_match s of
        Some rest \<Rightarrow> ''/{id}'' @ replace_numeric rest
      | None \<Rightarrow> (case s of [] \<Rightarrow> [] | c # t \<Rightarrow> c # replace_numeric t))"
  by auto

termination
  by (relation "measure length") (simp_all add: numeric_match_shorter)

declare replace_numeric.simps [simp del]

text \<open>A number inside a path takes the slash behind it away, so the next segment is joined to the placeholder.\<close>

lemma replace_numeric_inner:
  assumes "ds \<noteq> []" and "list_all is_ascii_digit ds"
  shows "replace_numeric (''/'' @ ds @ ''/'' @ rest) = ''/{id}'' @ replace_numeric rest"
proof -
  have slash: "\<not> is_ascii_digit CHR ''/''" by code_simp
  have "takeWhile is_ascii_digit (ds @ CHR ''/'' # rest) = ds" "dropWhile is_ascii_digit (ds @ CHR ''/'' # rest) = CHR ''/'' # rest"
    using assms(2) slash by (simp_all add: list_all_iff takeWhile_append2 dropWhile_append2)
  with assms(1) have "numeric_match (''/'' @ ds @ ''/'' @ rest) = Some rest"
    by (simp add: numeric_match_def)
  then show ?thesis by (subst replace_numeric.simps) simp
qed

lemma generic_path_loses_slash:
  assumes "ce_replace_all env uuid_pattern ''/users/123/posts'' ''{id}'' = ''/users/123/posts''"
    and "ce_replace_all env numeric_pattern ''/users/123/posts'' ''/{id}'' = replace_numeric ''/users/123/posts''"
  shows "normalize_path_generic env ''/users/123/posts'' = ''/users/{id}posts''"
proof -
  have "replace_numeric ''/users/123/posts'' = ''/users/{id}posts''" by code_simp
  with assms show ?thesis by (simp add: normalize_path_generic_def)
qed

end
