(* ===== verification/Policy_Stack.thy ===== *)
theory Policy_Stack
  imports Service_Stack Cedar
begin

text \<open>
  The policy middleware of theory \<open>Cedar\<close> at its place in the stack of theory \<open>Service_Stack\<close>: inside
  authentication, around the general layers and the router.
\<close>

text \<open>
  A form of the request \<open>rq\<close> as it travels inwards: it carries no claims, or the claims of a token
  that was accepted in state \<open>s\<close>.
\<close>

definition claims_accepted :: "'t token_auth option \<Rightarrow> request \<Rightarrow> 't \<Rightarrow> request \<Rightarrow> bool" where
  "claims_accepted auth_opt rq s rq' \<longleftrightarrow> same_request rq rq' \<and>
     (ext_claims (hr_ext rq') = None \<or>
      (\<exists>auth c s'. auth_opt = Some auth \<and> ext_claims (hr_ext rq') = Some c \<and> token_accepted auth (hr_headers rq) s c s'))"

definition agree :: "(request \<Rightarrow> bool) \<Rightarrow> 's service \<Rightarrow> 's service \<Rightarrow> bool" where
  "agree Q n n' \<longleftrightarrow> (\<forall>rq s. Q rq \<longrightarrow> n rq s = n' rq s)"

lemma audit_agree: "agree Q n n' \<Longrightarrow> agree Q (audit_middleware logger stamp d n) (audit_middleware logger stamp d n')"
  by (simp add: agree_def audit_middleware_def)

lemma governor_agree:
  "agree Q n n' \<Longrightarrow> agree Q (governor_layer env gov n) (governor_layer env gov n')"
  by (auto simp: agree_def governor_layer_def governor_middleware_def Let_def split: prod.splits option.splits sum.splits)

lemma without_governor_agree: "agree Q n n' \<Longrightarrow> agree Q (without_governor n) (without_governor n')"
  by (simp add: agree_def without_governor_def)

lemma token_agree:
  assumes agree: "agree (claims_accepted (Some auth) rq s) n n'"
    and same: "same_request rq rq'" "ext_claims (hr_ext rq') = None"
  shows "token_middleware hv stamp auth n rq' s = token_middleware hv stamp auth n' rq' s"
proof -
  have pass: "n rq' s = n' rq' s"
    using agree same by (simp add: agree_def claims_accepted_def)
  have admit: "token_admit stamp logger source c n rq' s' = token_admit stamp logger source c n' rq' s'"
    if "token_accepted auth (hr_headers rq) s c s''" for logger source c s' s''
  proof -
    have "claims_accepted (Some auth) rq s (rq'\<lparr>hr_ext := (hr_ext rq')\<lparr>ext_claims := Some c\<rparr>\<rparr>)"
      using that same(1) by (auto simp: claims_accepted_def same_request_def)
    with agree show ?thesis by (simp add: token_admit_def agree_def)
  qed
  have headers: "hr_headers rq' = hr_headers rq" using same(1) by (simp add: same_request_def)
  show ?thesis
  proof (cases "hr_method rq' = ''OPTIONS'' \<or> token_exempt (ta_public_paths auth) (hr_path rq') \<or> bearer_waived (hr_ext rq')")
    case True
    with pass show ?thesis by (auto simp: token_middleware_def)
  next
    case open_path: False
    show ?thesis
    proof (cases "\<exists>token c s'. extract_token (hr_headers rq') = Inr token \<and> ta_validate auth token s = (Inr c, s')")
      case True
      then obtain token c s' where v: "extract_token (hr_headers rq') = Inr token" "ta_validate auth token s = (Inr c, s')"
        by blast
      show ?thesis
      proof (cases "\<forall>revoked jti. ta_revocation auth = Some revoked \<and> cl_jti c = Some jti \<longrightarrow> revoked jti s' = Inr False")
        case True
        with v headers have "token_accepted auth (hr_headers rq) s c s'" by (auto simp: token_accepted_def)
        note adm = admit [OF this]
        show ?thesis
          using open_path v True
          by (cases "ta_revocation auth"; cases "cl_jti c") (simp_all add: token_middleware_def Let_def adm)
      next
        case False
        then obtain revoked jti where r: "ta_revocation auth = Some revoked" "cl_jti c = Some jti" "revoked jti s' \<noteq> Inr False"
          by blast
        with open_path v show ?thesis
          by (cases "revoked jti s'") (auto simp: token_middleware_def Let_def split: bool.splits)
      qed
    next
      case False
      with open_path show ?thesis
        by (auto simp: token_middleware_def Let_def split: sum.splits prod.splits)
    qed
  qed
qed

lemma caller_agree:
  assumes "\<And>rq''. same_request rq rq'' \<Longrightarrow> ext_claims (hr_ext rq'') = None \<Longrightarrow> n rq'' s = n' rq'' s"
    and "ext_claims (hr_ext rq) = None"
  shows "caller_auth_call env layer n rq s = caller_auth_call env layer n' rq s"
proof -
  have "n rq s = n' rq s" by (rule assms(1)) (simp_all add: same_request_def assms(2))
  moreover have "n (rq\<lparr>hr_ext := (hr_ext rq)\<lparr>ext_caller_identity := i\<rparr>\<rparr>) s = n' (rq\<lparr>hr_ext := (hr_ext rq)\<lparr>ext_caller_identity := i\<rparr>\<rparr>) s" for i
    by (rule assms(1)) (simp_all add: same_request_def assms(2))
  ultimately show ?thesis by (simp add: caller_auth_call_def split: sum.split authenticated_caller.split)
qed

lemma gates_agree:
  assumes agree: "agree (claims_accepted (sk_token config) rq s) n n'" and net: "from_network rq"
  shows "gates env config n rq s = gates env config n' rq s"
proof -
  define rq1 where "rq1 = (case sk_logger config of
    Some logger \<Rightarrow> rq\<lparr>hr_ext := (hr_ext rq)\<lparr>ext_audit_logger := Some logger\<rparr>\<rparr> | None \<Rightarrow> rq)"
  let ?tok = "\<lambda>app. case sk_token config of
    Some auth \<Rightarrow> token_middleware (se_hv env) (se_stamp env) auth app | None \<Rightarrow> app"
  have rq1: "same_request rq rq1" "ext_claims (hr_ext rq1) = None"
    using net by (simp_all add: rq1_def same_request_def from_network_def split: option.split)
  have tok: "?tok n rq' s = ?tok n' rq' s" if "same_request rq1 rq'" "ext_claims (hr_ext rq') = None" for rq'
  proof -
    have same: "same_request rq rq'" using that(1) rq1(1) by (simp add: same_request_def)
    show ?thesis
    proof (cases "sk_token config")
      case None
      with agree same that(2) show ?thesis by (simp add: agree_def claims_accepted_def del: split_paired_All)
    next
      case (Some auth)
      with token_agree [OF _ same that(2), of auth s n n'] agree show ?thesis by simp
    qed
  qed
  have "caller_auth_call cenv layer (?tok n) rq1 s = caller_auth_call cenv layer (?tok n') rq1 s" for cenv layer
    by (rule caller_agree) (use tok rq1(2) in blast)+
  moreover have "?tok n rq1 s = ?tok n' rq1 s" using tok [of rq1] rq1(2) by (simp add: same_request_def)
  ultimately show ?thesis
    by (auto simp: gates_def Let_def logger_extension_def rq1_def split: option.splits)
qed

text \<open>
  C7: with policies enabled, an accepted token is the only way in. In the assembled stack with the policy
  middleware, the answer to a request from the network can depend on the router only for the
  two probes, or when token authentication is configured, accepted the token of the request, and the policies
  allowed exactly the claims of that token. So a certificate that waives the token, a preflight
  request and a path that is exempt from authentication all stop at the policy middleware.
\<close>

theorem policies_need_token:
  assumes cedar: "sk_cedar config = Some (cedar_middleware cenv hv stamp clock authz matched)" "cf_enabled (cz_config authz)"
    and built: "build_stack env config app = Some svc" "build_stack env config app' = Some svc'"
    and net: "from_network rq" and path: "hr_path rq \<noteq> ''/health''" "hr_path rq \<noteq> ''/ready''"
    and differs: "svc rq s \<noteq> svc' rq s"
  shows "\<exists>auth c s1 rq2 s2. sk_token config = Some auth \<and> token_accepted auth (hr_headers rq) s c s1 \<and>
    same_request rq rq2 \<and> fst (cedar_decide cenv clock authz (matched rq2) c rq2 s2) = Inr Allow"
proof (rule ccontr)
  assume none: "\<not> ?thesis"
  let ?Q = "claims_accepted (sk_token config) rq s"
  let ?cedar = "cedar_middleware cenv hv stamp clock authz matched"
  have "agree ?Q (?cedar n) (?cedar n')" for n n'
    unfolding agree_def
  proof (intro allI impI)
    fix rq' s'
    assume Q: "?Q rq'"
    then have same: "same_request rq rq'" by (simp add: claims_accepted_def)
    with path have path': "hr_path rq' \<noteq> ''/health''" "hr_path rq' \<noteq> ''/ready''" by (simp_all add: same_request_def)
    show "?cedar n rq' s' = ?cedar n' rq' s'"
    proof (cases "ext_claims (hr_ext rq')")
      case None
      with cedar path' show ?thesis by (simp add: cedar_middleware_def)
    next
      case (Some c)
      with Q none same have "fst (cedar_decide cenv clock authz (matched rq') c rq' s') \<noteq> Inr Allow"
        unfolding claims_accepted_def by fastforce
      with Some cedar path' show ?thesis
        by (auto simp: cedar_middleware_def split: sum.splits decision.splits prod.splits)
    qed
  qed
  then have "agree ?Q (inner_stack env config app) (inner_stack env config app')"
    using cedar(1) by (auto simp: inner_stack_def Let_def audit_agree split: option.splits)
  moreover obtain wrap where "svc = gates env config (wrap (inner_stack env config app))"
      "svc' = gates env config (wrap (inner_stack env config app'))" "\<And>n n'. agree ?Q n n' \<Longrightarrow> agree ?Q (wrap n) (wrap n')"
  proof (cases "rt_auto_apply (sk_rate_limit config)")
    case True
    then obtain cr where "svc = gates env config (governor_layer env \<lparr>gr_config = sk_rate_limit config, gr_route_patterns = cr\<rparr> (inner_stack env config app))"
      "svc' = gates env config (governor_layer env \<lparr>gr_config = sk_rate_limit config, gr_route_patterns = cr\<rparr> (inner_stack env config app'))"
      using built by (auto simp: build_stack_def Let_def)
    then show ?thesis by (rule that) (rule governor_agree)
  next
    case False
    then have "svc = gates env config (without_governor (inner_stack env config app))"
      "svc' = gates env config (without_governor (inner_stack env config app'))"
      using built by (auto simp: build_stack_def Let_def)
    then show ?thesis by (rule that) (rule without_governor_agree)
  qed
  ultimately show False using gates_agree [OF _ net] differs by blast
qed

definition policy_stack :: "(nat, keyspace) stack_config" where
  "policy_stack = sample_stack\<lparr>sk_cedar := Some (cedar_middleware sample_cedar_env Some ([], 0)
     \<lparr>uc_unix = 0, uc_hour = 0, uc_weekday = ''Thu''\<rparr> (sample_authz\<lparr>cz_policy_set := (\<lambda>ctx. Allow)\<rparr>) (\<lambda>rq. None))\<rparr>"

lemma policy_stack_built:
  "build_stack sample_stack_env policy_stack ok_service \<noteq> None" "build_stack sample_stack_env policy_stack fail_service \<noteq> None"
  by (simp_all add: build_stack_def sample_stack_def policy_stack_def default_rate_limit_config_def compile_def Let_def)

lemma policy_stack_runs:
  "rp_status (fst (the (build_stack sample_stack_env policy_stack ok_service) sample_request sample_limiters)) = 200"
  "rp_status (fst (the (build_stack sample_stack_env policy_stack fail_service) sample_request sample_limiters)) = 404"
  by code_simp+

theorem policies_need_token_witness:
  "\<exists>auth c s1. sk_token policy_stack = Some auth \<and> token_accepted auth (hr_headers sample_request) sample_limiters c s1"
proof -
  obtain svc svc' where svc: "build_stack sample_stack_env policy_stack ok_service = Some svc"
      "build_stack sample_stack_env policy_stack fail_service = Some svc'"
    using policy_stack_built by blast
  then have differs: "svc sample_request sample_limiters \<noteq> svc' sample_request sample_limiters"
    using policy_stack_runs by auto
  have cedar: "sk_cedar policy_stack = Some (cedar_middleware sample_cedar_env Some ([], 0)
     \<lparr>uc_unix = 0, uc_hour = 0, uc_weekday = ''Thu''\<rparr> (sample_authz\<lparr>cz_policy_set := (\<lambda>ctx. Allow)\<rparr>) (\<lambda>rq. None))"
    "cf_enabled (cz_config (sample_authz\<lparr>cz_policy_set := (\<lambda>ctx. Allow)\<rparr>))"
    by (simp_all add: policy_stack_def sample_authz_def)
  have path: "hr_path sample_request \<noteq> ''/health''" "hr_path sample_request \<noteq> ''/ready''" by code_simp+
  from policies_need_token [OF cedar svc sample_stack_network path differs] show ?thesis by blast
qed

end
