(* ===== verification/Refresh_Tokens.thy ===== *)
theory Refresh_Tokens
  imports Request Redis_Store
begin

text \<open>
  Storage of refresh tokens (\<^verbatim>\<open>src/acton-service/src/auth/tokens/refresh.rs\<close>): the PostgreSQL,
  Turso and Redis backends.
  The trait is a record of operations; \<open>refresh_store\<close> is the contract that makes revocation
  final. Tables are lists of rows with a primary key on the identifier, as the project's
  documentation defines them; a failing statement leaves its table unchanged. Serialisation of
  rows (\<^verbatim>\<open>serde_json\<close>), time texts (\<^verbatim>\<open>chrono\<close>, SQLite) and server faults are parameters.
\<close>

subsection \<open>Data\<close>

record refresh_token_metadata =
  rm_user_agent :: "string option"
  rm_ip_address :: "string option"
  rm_device_id :: "string option"
  rm_created_at :: datetime

definition metadata_default :: "datetime \<Rightarrow> refresh_token_metadata" where
  "metadata_default now =
     \<lparr>rm_user_agent = None, rm_ip_address = None, rm_device_id = None, rm_created_at = now\<rparr>"

record refresh_token_data =
  rf_token_id :: string
  rf_user_id :: string
  rf_family_id :: string
  rf_is_revoked :: bool
  rf_expires_at :: datetime
  rf_metadata :: refresh_token_metadata

text \<open>The trait. Every operation is given the time of its call.\<close>

record 's refresh_ops =
  fo_store :: "datetime \<Rightarrow> string \<Rightarrow> string \<Rightarrow> string \<Rightarrow> datetime \<Rightarrow> refresh_token_metadata \<Rightarrow> 's \<Rightarrow> (error + unit) \<times> 's"
  fo_get :: "datetime \<Rightarrow> string \<Rightarrow> 's \<Rightarrow> error + refresh_token_data option"
  fo_revoke :: "datetime \<Rightarrow> string \<Rightarrow> 's \<Rightarrow> (error + unit) \<times> 's"
  fo_revoke_family :: "datetime \<Rightarrow> string \<Rightarrow> 's \<Rightarrow> (error + nat) \<times> 's"
  fo_revoke_all_for_user :: "datetime \<Rightarrow> string \<Rightarrow> 's \<Rightarrow> (error + nat) \<times> 's"
  fo_rotate :: "datetime \<Rightarrow> string \<Rightarrow> string \<Rightarrow> string \<Rightarrow> string \<Rightarrow> datetime \<Rightarrow> refresh_token_metadata \<Rightarrow> 's \<Rightarrow> (error + unit) \<times> 's"
  fo_cleanup_expired :: "datetime \<Rightarrow> 's \<Rightarrow> (error + nat) \<times> 's"

subsection \<open>PostgreSQL\<close>

record refresh_row =
  fw_id :: string
  fw_user_id :: string
  fw_family_id :: string
  fw_is_revoked :: bool
  fw_expires_at :: datetime
  fw_metadata :: json

datatype refresh_statement =
  RsStore | RsGet | RsFetch | RsRevoke | RsFamily | RsUser | RsBegin | RsRotateOld | RsRotateNew | RsCommit | RsCleanup

record refresh_env =
  fe_fault :: "refresh_statement \<Rightarrow> string option"
  fe_violation :: string
  fe_timestamptz :: "datetime \<Rightarrow> datetime"
  fe_to_json :: "refresh_token_metadata \<Rightarrow> string + json"
  fe_of_json :: "json \<Rightarrow> refresh_token_metadata option"

definition failed :: "string \<Rightarrow> string \<Rightarrow> error" where
  "failed what e = Internal (''Failed to '' @ what @ '': '' @ e)"

definition refresh_row_new :: "refresh_env \<Rightarrow> string \<Rightarrow> string \<Rightarrow> string \<Rightarrow> datetime \<Rightarrow> json \<Rightarrow> refresh_row" where
  "refresh_row_new env token_id user_id family_id expires_at metadata_json =
     \<lparr>fw_id = token_id, fw_user_id = user_id, fw_family_id = family_id, fw_is_revoked = False,
      fw_expires_at = fe_timestamptz env expires_at, fw_metadata = metadata_json\<rparr>"

definition insert_refresh ::
  "refresh_env \<Rightarrow> refresh_statement \<Rightarrow> refresh_row \<Rightarrow> refresh_row list \<Rightarrow> string + refresh_row list" where
  "insert_refresh env st row t =
     (case fe_fault env st of
        Some e \<Rightarrow> Inl e
      | None \<Rightarrow> if fw_id row \<in> set (map fw_id t) then Inl (fe_violation env) else Inr (t @ [row]))"

definition pg_refresh_store ::
  "refresh_env \<Rightarrow> string \<Rightarrow> string \<Rightarrow> string \<Rightarrow> datetime \<Rightarrow> refresh_token_metadata \<Rightarrow> refresh_row list \<Rightarrow>
     (error + unit) \<times> refresh_row list" where
  "pg_refresh_store env token_id user_id family_id expires_at metadata t =
     (case fe_to_json env metadata of
        Inl e \<Rightarrow> (Inl (failed ''serialize metadata'' e), t)
      | Inr metadata_json \<Rightarrow>
          (case insert_refresh env RsStore (refresh_row_new env token_id user_id family_id expires_at metadata_json) t of
             Inl e \<Rightarrow> (Inl (failed ''store refresh token'' e), t)
           | Inr t' \<Rightarrow> (Inr (), t')))"

definition refresh_of_row :: "refresh_env \<Rightarrow> datetime \<Rightarrow> refresh_row \<Rightarrow> refresh_token_data" where
  "refresh_of_row env now row =
     \<lparr>rf_token_id = fw_id row, rf_user_id = fw_user_id row, rf_family_id = fw_family_id row,
      rf_is_revoked = fw_is_revoked row, rf_expires_at = fw_expires_at row,
      rf_metadata = (case fe_of_json env (fw_metadata row) of Some m \<Rightarrow> m | None \<Rightarrow> metadata_default now)\<rparr>"

definition pg_refresh_get ::
  "refresh_env \<Rightarrow> datetime \<Rightarrow> string \<Rightarrow> refresh_row list \<Rightarrow> error + refresh_token_data option" where
  "pg_refresh_get env now token_id t =
     (case fe_fault env RsGet of
        Some e \<Rightarrow> Inl (failed ''get refresh token'' e)
      | None \<Rightarrow> Inr (map_option (refresh_of_row env now) (find (\<lambda>r. fw_id r = token_id \<and> now < fw_expires_at r) t)))"

definition revoke_rows :: "(refresh_row \<Rightarrow> bool) \<Rightarrow> refresh_row list \<Rightarrow> refresh_row list" where
  "revoke_rows P t = map (\<lambda>r. if P r then r\<lparr>fw_is_revoked := True\<rparr> else r) t"

definition pg_refresh_revoke :: "refresh_env \<Rightarrow> string \<Rightarrow> refresh_row list \<Rightarrow> (error + unit) \<times> refresh_row list" where
  "pg_refresh_revoke env token_id t =
     (case fe_fault env RsRevoke of
        Some e \<Rightarrow> (Inl (failed ''revoke token'' e), t)
      | None \<Rightarrow> (Inr (), revoke_rows (\<lambda>r. fw_id r = token_id) t))"

definition pg_refresh_revoke_family :: "refresh_env \<Rightarrow> string \<Rightarrow> refresh_row list \<Rightarrow> (error + nat) \<times> refresh_row list" where
  "pg_refresh_revoke_family env family_id t =
     (case fe_fault env RsFamily of
        Some e \<Rightarrow> (Inl (failed ''revoke family'' e), t)
      | None \<Rightarrow> (Inr (length (filter (\<lambda>r. fw_family_id r = family_id) t)), revoke_rows (\<lambda>r. fw_family_id r = family_id) t))"

definition pg_refresh_revoke_all_for_user ::
  "refresh_env \<Rightarrow> string \<Rightarrow> refresh_row list \<Rightarrow> (error + nat) \<times> refresh_row list" where
  "pg_refresh_revoke_all_for_user env user_id t =
     (case fe_fault env RsUser of
        Some e \<Rightarrow> (Inl (failed ''revoke user tokens'' e), t)
      | None \<Rightarrow> (Inr (length (filter (\<lambda>r. fw_user_id r = user_id) t)), revoke_rows (\<lambda>r. fw_user_id r = user_id) t))"

text \<open>One transaction: a failure at any statement rolls it back.\<close>

definition pg_refresh_rotate ::
  "refresh_env \<Rightarrow> string \<Rightarrow> string \<Rightarrow> string \<Rightarrow> string \<Rightarrow> datetime \<Rightarrow> refresh_token_metadata \<Rightarrow> refresh_row list \<Rightarrow>
     (error + unit) \<times> refresh_row list" where
  "pg_refresh_rotate env old_token_id new_token_id user_id family_id expires_at metadata t =
     (case fe_fault env RsBegin of
        Some e \<Rightarrow> (Inl (failed ''begin transaction'' e), t)
      | None \<Rightarrow>
     (case fe_fault env RsRotateOld of
        Some e \<Rightarrow> (Inl (failed ''revoke old token'' e), t)
      | None \<Rightarrow>
     (case fe_to_json env metadata of
        Inl e \<Rightarrow> (Inl (failed ''serialize metadata'' e), t)
      | Inr metadata_json \<Rightarrow>
     (case insert_refresh env RsRotateNew (refresh_row_new env new_token_id user_id family_id expires_at metadata_json)
             (revoke_rows (\<lambda>r. fw_id r = old_token_id) t) of
        Inl e \<Rightarrow> (Inl (failed ''store new token'' e), t)
      | Inr t' \<Rightarrow>
     (case fe_fault env RsCommit of
        Some e \<Rightarrow> (Inl (failed ''commit transaction'' e), t)
      | None \<Rightarrow> (Inr (), t'))))))"

definition pg_refresh_cleanup_expired :: "refresh_env \<Rightarrow> datetime \<Rightarrow> refresh_row list \<Rightarrow> (error + nat) \<times> refresh_row list" where
  "pg_refresh_cleanup_expired env now t =
     (case fe_fault env RsCleanup of
        Some e \<Rightarrow> (Inl (failed ''cleanup expired tokens'' e), t)
      | None \<Rightarrow> (Inr (length (filter (\<lambda>r. fw_expires_at r < now) t)), filter (\<lambda>r. \<not> fw_expires_at r < now) t))"

definition pg_refresh_ops :: "refresh_env \<Rightarrow> refresh_row list refresh_ops" where
  "pg_refresh_ops env =
     \<lparr>fo_store = (\<lambda>now. pg_refresh_store env), fo_get = pg_refresh_get env, fo_revoke = (\<lambda>now. pg_refresh_revoke env),
      fo_revoke_family = (\<lambda>now. pg_refresh_revoke_family env),
      fo_revoke_all_for_user = (\<lambda>now. pg_refresh_revoke_all_for_user env),
      fo_rotate = (\<lambda>now. pg_refresh_rotate env), fo_cleanup_expired = pg_refresh_cleanup_expired env\<rparr>"

subsection \<open>Turso\<close>

text \<open>
  SQLite keeps the expiry as text and compares texts byte by byte. \<open>te_datetime\<close> is the text of
  \<^verbatim>\<open>datetime('now')\<close>, \<open>te_rfc3339\<close> the text the code writes.
\<close>

record turso_row =
  tw_id :: string
  tw_user_id :: string
  tw_family_id :: string
  tw_is_revoked :: int
  tw_expires_at :: string
  tw_metadata :: string

record turso_env =
  te_fault :: "refresh_statement \<Rightarrow> string option"
  te_violation :: string
  te_rfc3339 :: "datetime \<Rightarrow> string"
  te_parse_rfc3339 :: "string \<Rightarrow> datetime option"
  te_datetime :: "datetime \<Rightarrow> string"
  te_to_json :: "refresh_token_metadata \<Rightarrow> string + string"
  te_of_json :: "string \<Rightarrow> refresh_token_metadata option"

definition turso_store ::
  "turso_env \<Rightarrow> string \<Rightarrow> string \<Rightarrow> string \<Rightarrow> datetime \<Rightarrow> refresh_token_metadata \<Rightarrow> turso_row list \<Rightarrow>
     (error + unit) \<times> turso_row list" where
  "turso_store env token_id user_id family_id expires_at metadata t =
     (case te_to_json env metadata of
        Inl e \<Rightarrow> (Inl (failed ''serialize metadata'' e), t)
      | Inr metadata_json \<Rightarrow>
          (case te_fault env RsStore of
             Some e \<Rightarrow> (Inl (failed ''store refresh token'' e), t)
           | None \<Rightarrow>
               if token_id \<in> set (map tw_id t) then (Inl (failed ''store refresh token'' (te_violation env)), t)
               else (Inr (), t @ [\<lparr>tw_id = token_id, tw_user_id = user_id, tw_family_id = family_id, tw_is_revoked = 0,
                 tw_expires_at = te_rfc3339 env expires_at, tw_metadata = metadata_json\<rparr>])))"

definition turso_data :: "turso_env \<Rightarrow> datetime \<Rightarrow> turso_row \<Rightarrow> refresh_token_data" where
  "turso_data env now row =
     \<lparr>rf_token_id = tw_id row, rf_user_id = tw_user_id row, rf_family_id = tw_family_id row,
      rf_is_revoked = (tw_is_revoked row \<noteq> 0),
      rf_expires_at = (case te_parse_rfc3339 env (tw_expires_at row) of Some t \<Rightarrow> t | None \<Rightarrow> now),
      rf_metadata = (case te_of_json env (tw_metadata row) of Some m \<Rightarrow> m | None \<Rightarrow> metadata_default now)\<rparr>"

definition turso_get :: "turso_env \<Rightarrow> datetime \<Rightarrow> string \<Rightarrow> turso_row list \<Rightarrow> error + refresh_token_data option" where
  "turso_get env now token_id t =
     (case te_fault env RsGet of
        Some e \<Rightarrow> Inl (failed ''get refresh token'' e)
      | None \<Rightarrow>
          (case te_fault env RsFetch of
             Some e \<Rightarrow> Inl (failed ''fetch row'' e)
           | None \<Rightarrow> Inr (map_option (turso_data env now)
               (find (\<lambda>r. tw_id r = token_id \<and> te_datetime env now < tw_expires_at r) t))))"

definition turso_revoke_rows :: "(turso_row \<Rightarrow> bool) \<Rightarrow> turso_row list \<Rightarrow> turso_row list" where
  "turso_revoke_rows P t = map (\<lambda>r. if P r then r\<lparr>tw_is_revoked := 1\<rparr> else r) t"

definition turso_revoke :: "turso_env \<Rightarrow> string \<Rightarrow> turso_row list \<Rightarrow> (error + unit) \<times> turso_row list" where
  "turso_revoke env token_id t =
     (case te_fault env RsRevoke of
        Some e \<Rightarrow> (Inl (failed ''revoke token'' e), t)
      | None \<Rightarrow> (Inr (), turso_revoke_rows (\<lambda>r. tw_id r = token_id) t))"

definition turso_revoke_family :: "turso_env \<Rightarrow> string \<Rightarrow> turso_row list \<Rightarrow> (error + nat) \<times> turso_row list" where
  "turso_revoke_family env family_id t =
     (case te_fault env RsFamily of
        Some e \<Rightarrow> (Inl (failed ''revoke family'' e), t)
      | None \<Rightarrow> (Inr (length (filter (\<lambda>r. tw_family_id r = family_id) t)), turso_revoke_rows (\<lambda>r. tw_family_id r = family_id) t))"

definition turso_revoke_all_for_user :: "turso_env \<Rightarrow> string \<Rightarrow> turso_row list \<Rightarrow> (error + nat) \<times> turso_row list" where
  "turso_revoke_all_for_user env user_id t =
     (case te_fault env RsUser of
        Some e \<Rightarrow> (Inl (failed ''revoke user tokens'' e), t)
      | None \<Rightarrow> (Inr (length (filter (\<lambda>r. tw_user_id r = user_id) t)), turso_revoke_rows (\<lambda>r. tw_user_id r = user_id) t))"

text \<open>Two statements without a transaction.\<close>

definition turso_rotate ::
  "turso_env \<Rightarrow> string \<Rightarrow> string \<Rightarrow> string \<Rightarrow> string \<Rightarrow> datetime \<Rightarrow> refresh_token_metadata \<Rightarrow> turso_row list \<Rightarrow>
     (error + unit) \<times> turso_row list" where
  "turso_rotate env old_token_id new_token_id user_id family_id expires_at metadata t =
     (case turso_revoke env old_token_id t of
        (Inl e, t') \<Rightarrow> (Inl e, t')
      | (Inr _, t') \<Rightarrow> turso_store env new_token_id user_id family_id expires_at metadata t')"

definition turso_cleanup_expired :: "turso_env \<Rightarrow> datetime \<Rightarrow> turso_row list \<Rightarrow> (error + nat) \<times> turso_row list" where
  "turso_cleanup_expired env now t =
     (case te_fault env RsCleanup of
        Some e \<Rightarrow> (Inl (failed ''cleanup expired tokens'' e), t)
      | None \<Rightarrow> (Inr (length (filter (\<lambda>r. tw_expires_at r < te_datetime env now) t)),
                 filter (\<lambda>r. \<not> tw_expires_at r < te_datetime env now) t))"

definition turso_refresh_ops :: "turso_env \<Rightarrow> turso_row list refresh_ops" where
  "turso_refresh_ops env =
     \<lparr>fo_store = (\<lambda>now. turso_store env), fo_get = turso_get env, fo_revoke = (\<lambda>now. turso_revoke env),
      fo_revoke_family = (\<lambda>now. turso_revoke_family env),
      fo_revoke_all_for_user = (\<lambda>now. turso_revoke_all_for_user env),
      fo_rotate = (\<lambda>now. turso_rotate env), fo_cleanup_expired = turso_cleanup_expired env\<rparr>"

subsection \<open>Redis\<close>

text \<open>
  \<open>utc\<close> is the wall clock of the service, \<open>now\<close> the server's. \<open>rr_json\<close> and \<open>rr_parse\<close> are
  the JSON text of a token and its reading.
\<close>

record 'r redis_refresh =
  rr_pool :: "'r redis"
  rr_sets :: "'r redis_sets"
  rr_key_prefix :: string
  rr_json :: "refresh_token_data \<Rightarrow> string + string"
  rr_parse :: "string \<Rightarrow> string + refresh_token_data"

definition token_key :: "'r redis_refresh \<Rightarrow> string \<Rightarrow> string" where
  "token_key st token_id = rr_key_prefix st @ '':'' @ token_id"

definition family_key :: "'r redis_refresh \<Rightarrow> string \<Rightarrow> string" where
  "family_key st family_id = rr_key_prefix st @ '':family:'' @ family_id"

definition user_key :: "'r redis_refresh \<Rightarrow> string \<Rightarrow> string" where
  "user_key st user_id = rr_key_prefix st @ '':user:'' @ user_id"

definition token_ttl :: "datetime \<Rightarrow> datetime \<Rightarrow> int" where
  "token_ttl expires_at utc = max (num_seconds (expires_at - utc)) 1"

text \<open>A command that must succeed before the next one is sent.\<close>

definition then_do :: "string \<Rightarrow> (string + unit) \<times> 'r \<Rightarrow> ('r \<Rightarrow> (error + 'a) \<times> 'r) \<Rightarrow> (error + 'a) \<times> 'r" where
  "then_do what r k = (case r of (Inl e, s) \<Rightarrow> (Inl (failed what e), s) | (Inr _, s) \<Rightarrow> k s)"

definition connected :: "'r redis_refresh \<Rightarrow> 'r \<Rightarrow> ('r \<Rightarrow> (error + 'a) \<times> 'r) \<Rightarrow> (error + 'a) \<times> 'r" where
  "connected st s k = (case rd_connect (rr_pool st) s of
     Some e \<Rightarrow> (Inl (failed ''get Redis connection'' e), s) | None \<Rightarrow> k s)"

definition redis_refresh_store ::
  "'r redis_refresh \<Rightarrow> datetime \<Rightarrow> nat \<Rightarrow> string \<Rightarrow> string \<Rightarrow> string \<Rightarrow> datetime \<Rightarrow> refresh_token_metadata \<Rightarrow> 'r \<Rightarrow>
     (error + unit) \<times> 'r" where
  "redis_refresh_store st utc now token_id user_id family_id expires_at metadata s =
     connected st s (\<lambda>s.
       (case rr_json st \<lparr>rf_token_id = token_id, rf_user_id = user_id, rf_family_id = family_id, rf_is_revoked = False,
                 rf_expires_at = expires_at, rf_metadata = metadata\<rparr> of
          Inl e \<Rightarrow> (Inl (failed ''serialize token'' e), s)
        | Inr json_text \<Rightarrow>
            let ttl = token_ttl expires_at utc
            in then_do ''store refresh token'' (rd_set_ex (rr_pool st) (token_key st token_id) json_text ttl now s) (\<lambda>s.
               then_do ''add to family set'' (rd_sadd (rr_sets st) (family_key st family_id) token_id now s) (\<lambda>s.
               then_do ''set family TTL'' (rd_expire (rr_pool st) (family_key st family_id) ttl now s) (\<lambda>s.
               then_do ''add to user set'' (rd_sadd (rr_sets st) (user_key st user_id) token_id now s) (\<lambda>s.
               then_do ''set user TTL'' (rd_expire (rr_pool st) (user_key st user_id) ttl now s) (\<lambda>s. (Inr (), s))))))))"

definition redis_refresh_get :: "'r redis_refresh \<Rightarrow> nat \<Rightarrow> string \<Rightarrow> 'r \<Rightarrow> error + refresh_token_data option" where
  "redis_refresh_get st now token_id s =
     (case rd_connect (rr_pool st) s of
        Some e \<Rightarrow> Inl (failed ''get Redis connection'' e)
      | None \<Rightarrow>
          (case rd_get (rr_pool st) (token_key st token_id) now s of
             Inl e \<Rightarrow> Inl (failed ''get refresh token'' e)
           | Inr None \<Rightarrow> Inr None
           | Inr (Some j) \<Rightarrow>
               (case rr_parse st j of
                  Inl e \<Rightarrow> Inl (failed ''parse token'' e)
                | Inr data \<Rightarrow> Inr (Some data))))"

definition redis_refresh_revoke :: "'r redis_refresh \<Rightarrow> datetime \<Rightarrow> nat \<Rightarrow> string \<Rightarrow> 'r \<Rightarrow> (error + unit) \<times> 'r" where
  "redis_refresh_revoke st utc now token_id s =
     connected st s (\<lambda>s.
       (case redis_refresh_get st now token_id s of
          Inl e \<Rightarrow> (Inl e, s)
        | Inr None \<Rightarrow> (Inr (), s)
        | Inr (Some data) \<Rightarrow>
            (case rr_json st (data\<lparr>rf_is_revoked := True\<rparr>) of
               Inl e \<Rightarrow> (Inl (failed ''serialize token'' e), s)
             | Inr json_text \<Rightarrow>
                 then_do ''revoke token'' (rd_set_ex (rr_pool st) (token_key st token_id) json_text
                   (token_ttl (rf_expires_at data) utc) now s) (\<lambda>s. (Inr (), s)))))"

fun redis_revoke_each ::
  "'r redis_refresh \<Rightarrow> datetime \<Rightarrow> nat \<Rightarrow> string list \<Rightarrow> nat \<Rightarrow> 'r \<Rightarrow> (error + nat) \<times> 'r" where
  "redis_revoke_each st utc now [] revoked s = (Inr revoked, s)"
| "redis_revoke_each st utc now (token_id # ids) revoked s =
     (case redis_refresh_revoke st utc now token_id s of
        (Inl e, s') \<Rightarrow> (Inl e, s')
      | (Inr _, s') \<Rightarrow> redis_revoke_each st utc now ids (revoked + 1) s')"

definition redis_revoke_members ::
  "string \<Rightarrow> string \<Rightarrow> 'r redis_refresh \<Rightarrow> datetime \<Rightarrow> nat \<Rightarrow> 'r \<Rightarrow> (error + nat) \<times> 'r" where
  "redis_revoke_members what key st utc now s =
     connected st s (\<lambda>s.
       (case rd_smembers (rr_sets st) key now s of
          Inl e \<Rightarrow> (Inl (failed what e), s)
        | Inr token_ids \<Rightarrow> redis_revoke_each st utc now token_ids 0 s))"

definition redis_refresh_revoke_family :: "'r redis_refresh \<Rightarrow> datetime \<Rightarrow> nat \<Rightarrow> string \<Rightarrow> 'r \<Rightarrow> (error + nat) \<times> 'r" where
  "redis_refresh_revoke_family st utc now family_id s =
     redis_revoke_members ''get family members'' (family_key st family_id) st utc now s"

definition redis_refresh_revoke_all_for_user :: "'r redis_refresh \<Rightarrow> datetime \<Rightarrow> nat \<Rightarrow> string \<Rightarrow> 'r \<Rightarrow> (error + nat) \<times> 'r" where
  "redis_refresh_revoke_all_for_user st utc now user_id s =
     redis_revoke_members ''get user tokens'' (user_key st user_id) st utc now s"

definition redis_refresh_rotate ::
  "'r redis_refresh \<Rightarrow> datetime \<Rightarrow> nat \<Rightarrow> string \<Rightarrow> string \<Rightarrow> string \<Rightarrow> string \<Rightarrow> datetime \<Rightarrow> refresh_token_metadata \<Rightarrow> 'r \<Rightarrow>
     (error + unit) \<times> 'r" where
  "redis_refresh_rotate st utc now old_token_id new_token_id user_id family_id expires_at metadata s =
     (case redis_refresh_revoke st utc now old_token_id s of
        (Inl e, s') \<Rightarrow> (Inl e, s')
      | (Inr _, s') \<Rightarrow> redis_refresh_store st utc now new_token_id user_id family_id expires_at metadata s')"

definition redis_refresh_cleanup_expired :: "'r \<Rightarrow> (error + nat) \<times> 'r" where
  "redis_refresh_cleanup_expired s = (Inr 0, s)"

subsection \<open>Revocation is final\<close>

datatype refresh_op =
  OpStore string string string datetime refresh_token_metadata
| OpRevoke string
| OpRevokeFamily string
| OpRevokeUser string
| OpRotate string string string string datetime refresh_token_metadata
| OpCleanup

fun refresh_step :: "'s refresh_ops \<Rightarrow> datetime \<Rightarrow> refresh_op \<Rightarrow> 's \<Rightarrow> 's" where
  "refresh_step ops now (OpStore i u f exp m) s = snd (fo_store ops now i u f exp m s)"
| "refresh_step ops now (OpRevoke i) s = snd (fo_revoke ops now i s)"
| "refresh_step ops now (OpRevokeFamily f) s = snd (fo_revoke_family ops now f s)"
| "refresh_step ops now (OpRevokeUser u) s = snd (fo_revoke_all_for_user ops now u s)"
| "refresh_step ops now (OpRotate i j u f exp m) s = snd (fo_rotate ops now i j u f exp m s)"
| "refresh_step ops now OpCleanup s = snd (fo_cleanup_expired ops now s)"

fun creates :: "refresh_op \<Rightarrow> string \<Rightarrow> bool" where
  "creates (OpStore i u f exp m) k \<longleftrightarrow> k = i"
| "creates (OpRotate i j u f exp m) k \<longleftrightarrow> k = j"
| "creates _ k \<longleftrightarrow> False"

text \<open>Calls under changing server conditions \<open>'e\<close>, whatever they return.\<close>

fun refresh_run :: "('e \<Rightarrow> 's refresh_ops) \<Rightarrow> ('e \<times> datetime \<times> refresh_op) list \<Rightarrow> 's \<Rightarrow> 's" where
  "refresh_run ops [] s = s"
| "refresh_run ops ((e, now, op) # calls) s = refresh_run ops calls (refresh_step (ops e) now op s)"

text \<open>
  The contract: the storage knows of each token its owner, its family and whether it is revoked; reading
  returns what is known; no operation gives an existing token another owner or family or takes
  its revocation back; the revocations do what they say.
\<close>

locale refresh_store =
  fixes ops :: "'e \<Rightarrow> 's refresh_ops" and marks :: "'s \<Rightarrow> (string \<times> string \<times> string \<times> bool) set"
  assumes get_ok: "fo_get (ops e) now i s = Inr (Some d) \<Longrightarrow> (i, rf_user_id d, rf_family_id d, rf_is_revoked d) \<in> marks s"
    and step_keeps: "(i, u, f, r') \<in> marks (refresh_step (ops e) now op s) \<Longrightarrow> \<not> creates op i \<Longrightarrow>
      \<exists>r. (i, u, f, r) \<in> marks s \<and> (r \<longrightarrow> r')"
    and revoke_ok: "fo_revoke (ops e) now i s = (Inr x, s') \<Longrightarrow> (i, u, f, r) \<in> marks s' \<Longrightarrow> r"
    and family_ok: "fo_revoke_family (ops e) now f s = (Inr n, s') \<Longrightarrow> (i, u, f, r) \<in> marks s' \<Longrightarrow> r"
    and user_ok: "fo_revoke_all_for_user (ops e) now u s = (Inr n, s') \<Longrightarrow> (i, u, f, r) \<in> marks s' \<Longrightarrow> r"
begin

lemma run_keeps:
  "(i, u, f, r') \<in> marks (refresh_run ops calls s) \<Longrightarrow> \<forall>(e, now, op) \<in> set calls. \<not> creates op i \<Longrightarrow>
     \<exists>r. (i, u, f, r) \<in> marks s \<and> (r \<longrightarrow> r')"
proof (induction calls arbitrary: s)
  case (Cons c calls)
  obtain e now op where c: "c = (e, now, op)" by (cases c)
  with Cons obtain r where "(i, u, f, r) \<in> marks (refresh_step (ops e) now op s)" "r \<longrightarrow> r'" by force
  moreover have "\<not> creates op i" using Cons.prems(2) c by auto
  ultimately show ?case using step_keeps by blast
qed auto

lemma run_revoked:
  assumes "\<And>u f r. (i, u, f, r) \<in> marks s \<Longrightarrow> Q u f \<Longrightarrow> r" and "\<forall>(e, now, op) \<in> set calls. \<not> creates op i"
    and "fo_get (ops e) now i (refresh_run ops calls s) = Inr (Some d)" and "Q (rf_user_id d) (rf_family_id d)"
  shows "rf_is_revoked d"
  using run_keeps [OF get_ok [OF assms(3)] assms(2)] assms(1,4) by blast

lemma family_final:
  assumes "fo_revoke_family (ops e) now f s = (Inr n, s')" and "\<forall>(e, now, op) \<in> set calls. \<not> creates op i"
    and "fo_get (ops e') now' i (refresh_run ops calls s') = Inr (Some d)" and "rf_family_id d = f"
  shows "rf_is_revoked d"
  using run_revoked [of i s' "\<lambda>u f'. f' = f"] family_ok [OF assms(1)] assms(2-4) by blast

lemma user_final:
  assumes "fo_revoke_all_for_user (ops e) now u s = (Inr n, s')" and "\<forall>(e, now, op) \<in> set calls. \<not> creates op i"
    and "fo_get (ops e') now' i (refresh_run ops calls s') = Inr (Some d)" and "rf_user_id d = u"
  shows "rf_is_revoked d"
  using run_revoked [of i s' "\<lambda>u' f. u' = u"] user_ok [OF assms(1)] assms(2-4) by blast

lemma token_final:
  assumes "fo_revoke (ops e) now i s = (Inr x, s')" and "\<forall>(e, now, op) \<in> set calls. \<not> creates op i"
    and "fo_get (ops e') now' i (refresh_run ops calls s') = Inr (Some d)"
  shows "rf_is_revoked d"
  using run_revoked [of i s' "\<lambda>u f. True"] revoke_ok [OF assms(1)] assms(2,3) by blast

end

definition pg_marks :: "refresh_row list \<Rightarrow> (string \<times> string \<times> string \<times> bool) set" where
  "pg_marks t = (\<lambda>r. (fw_id r, fw_user_id r, fw_family_id r, fw_is_revoked r)) ` set t"

definition turso_marks :: "turso_row list \<Rightarrow> (string \<times> string \<times> string \<times> bool) set" where
  "turso_marks t = (\<lambda>r. (tw_id r, tw_user_id r, tw_family_id r, tw_is_revoked r \<noteq> 0)) ` set t"

lemma pg_marks_filter: "pg_marks (filter P t) \<subseteq> pg_marks t"
  by (auto simp: pg_marks_def)

lemma pg_marks_append:
  "pg_marks (t @ [row]) = insert (fw_id row, fw_user_id row, fw_family_id row, fw_is_revoked row) (pg_marks t)"
  by (auto simp: pg_marks_def)

lemma pg_marks_revoke:
  assumes "(i, u, f, r') \<in> pg_marks (revoke_rows P t)"
  shows "\<exists>r. (i, u, f, r) \<in> pg_marks t \<and> (r \<longrightarrow> r')"
proof -
  obtain row where "row \<in> set t" and "(i, u, f) = (fw_id row, fw_user_id row, fw_family_id row)"
    and "fw_is_revoked row \<longrightarrow> r'"
    using assms by (auto simp: pg_marks_def revoke_rows_def split: if_splits)
  then show ?thesis by (auto simp: pg_marks_def intro!: exI [of _ "fw_is_revoked row"])
qed

lemma turso_marks_filter: "turso_marks (filter P t) \<subseteq> turso_marks t"
  by (auto simp: turso_marks_def)

lemma turso_marks_append:
  "turso_marks (t @ [row]) = insert (tw_id row, tw_user_id row, tw_family_id row, tw_is_revoked row \<noteq> 0) (turso_marks t)"
  by (auto simp: turso_marks_def)

lemma turso_marks_revoke:
  assumes "(i, u, f, r') \<in> turso_marks (turso_revoke_rows P t)"
  shows "\<exists>r. (i, u, f, r) \<in> turso_marks t \<and> (r \<longrightarrow> r')"
proof -
  obtain row where "row \<in> set t" and "(i, u, f) = (tw_id row, tw_user_id row, tw_family_id row)"
    and "tw_is_revoked row \<noteq> 0 \<longrightarrow> r'"
    using assms by (auto simp: turso_marks_def turso_revoke_rows_def split: if_splits)
  then show ?thesis by (auto simp: turso_marks_def intro!: exI [of _ "tw_is_revoked row \<noteq> 0"])
qed

lemma pg_step_keeps:
  "(i, u, f, r') \<in> pg_marks (refresh_step (pg_refresh_ops env) now op t) \<Longrightarrow> \<not> creates op i \<Longrightarrow>
     \<exists>r. (i, u, f, r) \<in> pg_marks t \<and> (r \<longrightarrow> r')"
  by (cases op)
    (auto simp: pg_refresh_ops_def pg_refresh_store_def insert_refresh_def pg_refresh_revoke_def pg_refresh_revoke_family_def
      pg_refresh_revoke_all_for_user_def pg_refresh_rotate_def pg_refresh_cleanup_expired_def pg_marks_append refresh_row_new_def
      split: sum.splits option.splits if_splits dest: pg_marks_revoke subsetD [OF pg_marks_filter])

lemma turso_step_keeps:
  "(i, u, f, r') \<in> turso_marks (refresh_step (turso_refresh_ops env) now op t) \<Longrightarrow> \<not> creates op i \<Longrightarrow>
     \<exists>r. (i, u, f, r) \<in> turso_marks t \<and> (r \<longrightarrow> r')"
  by (cases op)
    (auto simp: turso_refresh_ops_def turso_store_def turso_revoke_def turso_revoke_family_def
      turso_revoke_all_for_user_def turso_rotate_def turso_cleanup_expired_def turso_marks_append
      split: sum.splits option.splits if_splits dest: turso_marks_revoke subsetD [OF turso_marks_filter])

lemma find_in_set: "find P xs = Some x \<Longrightarrow> x \<in> set xs \<and> P x"
  using find_split by fastforce

interpretation pg_refresh: refresh_store pg_refresh_ops pg_marks
proof
  fix env now i t d
  assume "fo_get (pg_refresh_ops env) now i t = Inr (Some d)"
  then show "(i, rf_user_id d, rf_family_id d, rf_is_revoked d) \<in> pg_marks t"
    by (force simp: pg_refresh_ops_def pg_refresh_get_def pg_marks_def refresh_of_row_def dest: find_in_set split: option.splits)
qed (use pg_step_keeps in blast,
    auto simp: pg_refresh_ops_def pg_refresh_revoke_def pg_refresh_revoke_family_def pg_refresh_revoke_all_for_user_def
      revoke_rows_def pg_marks_def split: option.splits)

interpretation turso_refresh: refresh_store turso_refresh_ops turso_marks
proof
  fix env now i t d
  assume "fo_get (turso_refresh_ops env) now i t = Inr (Some d)"
  then show "(i, rf_user_id d, rf_family_id d, rf_is_revoked d) \<in> turso_marks t"
    by (force simp: turso_refresh_ops_def turso_get_def turso_marks_def turso_data_def dest: find_in_set split: option.splits)
qed (use turso_step_keeps in blast,
    auto simp: turso_refresh_ops_def turso_revoke_def turso_revoke_family_def turso_revoke_all_for_user_def
      turso_revoke_rows_def turso_marks_def split: option.splits)

text \<open>
  C17: revoking a family of refresh tokens is final. After the PostgreSQL storage has revoked a family,
  whatever is called later, in any order, at any times and with any of the calls failing, a
  token of that family is only ever returned as revoked, as long as its identifier is not used
  for a new token.
\<close>

theorem family_revocation_final:
  assumes "pg_refresh_revoke_family env f t = (Inr n, t')"
    and "\<forall>(e, now, op) \<in> set calls. \<not> creates op i"
    and "pg_refresh_get env' now' i (refresh_run pg_refresh_ops calls t') = Inr (Some d)" and "rf_family_id d = f"
  shows "rf_is_revoked d"
  using pg_refresh.family_final [of env 0 f t n t' calls i env' now' d] assms by (simp add: pg_refresh_ops_def)

definition sample_refresh_env :: refresh_env where
  "sample_refresh_env =
     \<lparr>fe_fault = (\<lambda>st. None), fe_violation = ''duplicate key'', fe_timestamptz = (\<lambda>t. t),
      fe_to_json = (\<lambda>m. Inr JNull), fe_of_json = (\<lambda>j. None)\<rparr>"

definition sample_row :: "string \<Rightarrow> datetime \<Rightarrow> refresh_row" where
  "sample_row i exp = \<lparr>fw_id = i, fw_user_id = ''u'', fw_family_id = ''f'', fw_is_revoked = False,
     fw_expires_at = exp, fw_metadata = JNull\<rparr>"

theorem family_revocation_final_witness:
  "\<exists>d. pg_refresh_get sample_refresh_env 4 ''a''
     (refresh_run pg_refresh_ops
       [(sample_refresh_env, 2, OpRotate ''a'' ''b'' ''u'' ''f'' 9 (metadata_default 2)), (sample_refresh_env, 3, OpCleanup)]
       (snd (pg_refresh_revoke_family sample_refresh_env ''f'' [sample_row ''a'' 8]))) = Inr (Some d) \<and> rf_is_revoked d"
proof -
  let ?t = "snd (pg_refresh_revoke_family sample_refresh_env ''f'' [sample_row ''a'' 8])"
  let ?calls = "[(sample_refresh_env, 2, OpRotate ''a'' ''b'' ''u'' ''f'' 9 (metadata_default 2)), (sample_refresh_env, 3, OpCleanup)]"
  have revoke: "pg_refresh_revoke_family sample_refresh_env ''f'' [sample_row ''a'' 8] = (Inr 1, ?t)"
    by (simp add: pg_refresh_revoke_family_def sample_refresh_env_def sample_row_def)
  have "\<exists>d. pg_refresh_get sample_refresh_env 4 ''a'' (refresh_run pg_refresh_ops ?calls ?t) = Inr (Some d) \<and> rf_family_id d = ''f''"
    by (simp add: pg_refresh_ops_def pg_refresh_rotate_def pg_refresh_cleanup_expired_def pg_refresh_get_def
      pg_refresh_revoke_family_def insert_refresh_def refresh_row_new_def revoke_rows_def refresh_of_row_def
      sample_refresh_env_def sample_row_def)
  then obtain d where "pg_refresh_get sample_refresh_env 4 ''a'' (refresh_run pg_refresh_ops ?calls ?t) = Inr (Some d)"
    and "rf_family_id d = ''f''" by blast
  with family_revocation_final [OF revoke, of ?calls "''a''"] show ?thesis by auto
qed

subsection \<open>Rotation\<close>

lemma revoke_rows_ids: "set (map fw_id (revoke_rows P t)) = set (map fw_id t)"
  by (auto simp: revoke_rows_def)

lemma pg_rotate_eq:
  assumes "pg_refresh_rotate env old_id new_id u f exp m t = (r, t')"
  shows "(if (\<forall>st \<in> {RsBegin, RsRotateOld, RsRotateNew, RsCommit}. fe_fault env st = None)
        \<and> is_ok (fe_to_json env m) \<and> new_id \<notin> set (map fw_id t)
      then is_ok r \<and> (\<exists>j. t' = revoke_rows (\<lambda>r. fw_id r = old_id) t @ [refresh_row_new env new_id u f exp j])
      else \<not> is_ok r \<and> t' = t)"
  using assms unfolding pg_refresh_rotate_def insert_refresh_def revoke_rows_ids
  by (auto simp: refresh_row_new_def split: option.splits sum.splits if_splits)

lemma revoked_row: "x \<in> set (revoke_rows (\<lambda>r. fw_id r = i) t) \<Longrightarrow> fw_id x = i \<Longrightarrow> fw_is_revoked x"
  by (induction t) (simp_all add: revoke_rows_def split: if_splits, force+)

lemma pg_get_revoked:
  assumes "pg_refresh_get env now i (revoke_rows (\<lambda>r. fw_id r = i) t @ [row]) = Inr (Some d)" and "fw_id row \<noteq> i"
  shows "rf_is_revoked d"
proof -
  let ?t = "revoke_rows (\<lambda>r. fw_id r = i) t @ [row]"
  obtain x where find: "find (\<lambda>r. fw_id r = i \<and> now < fw_expires_at r) ?t = Some x" and d: "d = refresh_of_row env now x"
    using assms(1) by (simp add: pg_refresh_get_def split: option.splits) blast
  from find_in_set [OF find] assms(2) have "x \<in> set (revoke_rows (\<lambda>r. fw_id r = i) t)" "fw_id x = i" by auto
  then have "fw_is_revoked x" by (rule revoked_row)
  then show ?thesis by (simp add: d refresh_of_row_def)
qed

lemma find_snoc: "find P (xs @ [x]) = (case find P xs of None \<Rightarrow> if P x then Some x else None | Some y \<Rightarrow> Some y)"
  by (induction xs) auto

lemma pg_get_new:
  assumes "fw_id row \<notin> set (map fw_id t)" and "fe_fault env RsGet = None" and "now < fw_expires_at row"
  shows "pg_refresh_get env now (fw_id row) (t @ [row]) = Inr (Some (refresh_of_row env now row))"
proof -
  have "find (\<lambda>r. fw_id r = fw_id row \<and> now < fw_expires_at r) t = None"
    using assms(1) by (auto simp: find_None_iff image_iff)
  then show ?thesis using assms(2,3) by (simp add: pg_refresh_get_def find_snoc)
qed

text \<open>
  C18: rotation in PostgreSQL is atomic, and it asks nothing of the old token. It succeeds exactly when
  no statement fails, the metadata serialises and the new identifier is free: whether the old token exists,
  was revoked or belongs to the same user and family plays no part, so a token that was
  already used can be exchanged again. A failure leaves the table as it was. After a success the old
  token is only returned as revoked, and the new one is returned unrevoked until it expires.
\<close>

theorem pg_rotation:
  assumes "pg_refresh_rotate env old_id new_id u f exp m t = (r, t')"
  shows "(is_ok r \<longleftrightarrow> (\<forall>st \<in> {RsBegin, RsRotateOld, RsRotateNew, RsCommit}. fe_fault env st = None)
      \<and> is_ok (fe_to_json env m) \<and> new_id \<notin> set (map fw_id t)) \<and>
    (\<not> is_ok r \<longrightarrow> t' = t) \<and>
    (is_ok r \<longrightarrow> old_id \<noteq> new_id \<longrightarrow> pg_refresh_get env' now old_id t' = Inr (Some d) \<longrightarrow> rf_is_revoked d) \<and>
    (is_ok r \<longrightarrow> fe_fault env' RsGet = None \<longrightarrow> now < fe_timestamptz env exp \<longrightarrow>
      (\<exists>d. pg_refresh_get env' now new_id t' = Inr (Some d) \<and> \<not> rf_is_revoked d \<and> rf_user_id d = u \<and> rf_family_id d = f))"
    (is "?ok \<and> ?same \<and> ?revoked \<and> ?fresh")
proof (intro conjI)
  note eq = pg_rotate_eq [OF assms]
  then show ?ok by (simp split: if_splits)
  from eq show ?same by (simp split: if_splits)
  have rot: "\<exists>j. t' = revoke_rows (\<lambda>r. fw_id r = old_id) t @ [refresh_row_new env new_id u f exp j]"
    "new_id \<notin> set (map fw_id t)" if "is_ok r"
    using eq that by (simp_all split: if_splits)
  show ?revoked
    using rot(1) pg_get_revoked [of env' now old_id t] by (auto simp: refresh_row_new_def)
  show ?fresh
  proof (intro impI)
    assume "is_ok r" and get: "fe_fault env' RsGet = None" "now < fe_timestamptz env exp"
    with rot obtain j where t': "t' = revoke_rows (\<lambda>r. fw_id r = old_id) t @ [refresh_row_new env new_id u f exp j]"
      and new: "new_id \<notin> set (map fw_id t)" by blast
    let ?row = "refresh_row_new env new_id u f exp j"
    have "fw_id ?row = new_id" "now < fw_expires_at ?row" using get by (simp_all add: refresh_row_new_def)
    with pg_get_new [of ?row "revoke_rows (\<lambda>r. fw_id r = old_id) t" env' now] new get(1)
    have "pg_refresh_get env' now new_id t' = Inr (Some (refresh_of_row env' now ?row))"
      by (simp only: t' revoke_rows_ids not_False_eq_True simp_thms)
    then show "\<exists>d. pg_refresh_get env' now new_id t' = Inr (Some d) \<and> \<not> rf_is_revoked d \<and> rf_user_id d = u \<and> rf_family_id d = f"
      by (simp add: refresh_of_row_def refresh_row_new_def)
  qed
qed

text \<open>A token that was already rotated is rotated again.\<close>

theorem pg_rotation_witness:
  "\<exists>t'. pg_refresh_rotate sample_refresh_env ''a'' ''c'' ''u'' ''f'' 9 (metadata_default 2)
      [(sample_row ''a'' 8)\<lparr>fw_is_revoked := True\<rparr>, sample_row ''b'' 8] = (Inr (), t') \<and>
    (\<exists>d. pg_refresh_get sample_refresh_env 5 ''c'' t' = Inr (Some d) \<and> \<not> rf_is_revoked d)"
proof -
  let ?t = "[(sample_row ''a'' 8)\<lparr>fw_is_revoked := True\<rparr>, sample_row ''b'' 8]"
  obtain r t' where rot: "pg_refresh_rotate sample_refresh_env ''a'' ''c'' ''u'' ''f'' 9 (metadata_default 2) ?t = (r, t')"
    by (cases "pg_refresh_rotate sample_refresh_env ''a'' ''c'' ''u'' ''f'' 9 (metadata_default 2) ?t")
  from pg_rotation [OF rot, of sample_refresh_env 5] have "is_ok r"
    "\<exists>d. pg_refresh_get sample_refresh_env 5 ''c'' t' = Inr (Some d) \<and> \<not> rf_is_revoked d"
    by (auto simp: sample_refresh_env_def sample_row_def)
  with rot show ?thesis by (cases r) auto
qed

subsection \<open>Expiry in Redis and Turso\<close>

lemma set_keys_differ: "family_key st f \<noteq> user_key st u"
  by (simp add: family_key_def user_key_def)

lemma then_do_ok: "then_do what r k = (Inr x, s') \<longleftrightarrow> (\<exists>u s. r = (Inr u, s) \<and> k s = (Inr x, s'))"
  by (auto simp: then_do_def split: prod.splits sum.splits)

context redis_set_laws
begin

lemma store_family_expiry:
  assumes "rr_pool st = R" and "rr_sets st = S"
    and "redis_refresh_store st utc now i u f exp m s = (Inr x, s')"
  shows "\<exists>M. sview s' (family_key st f) = Some (M, Some (now + nat (token_ttl exp utc) * 1000))"
proof -
  from assms(3) obtain j s1 s2 s3 s4 where
    "rd_set_ex R (token_key st i) j (token_ttl exp utc) now s = (Inr (), s1)"
    and add: "rd_sadd S (family_key st f) i now s1 = (Inr (), s2)"
    and ex: "rd_expire R (family_key st f) (token_ttl exp utc) now s2 = (Inr (), s3)"
    and uadd: "rd_sadd S (user_key st u) i now s3 = (Inr (), s4)"
    and uex: "rd_expire R (user_key st u) (token_ttl exp utc) now s4 = (Inr (), s')"
    using assms(1,2)
    by (auto simp: redis_refresh_store_def connected_def then_do_ok Let_def split: option.splits sum.splits)
  have ttl: "0 < token_ttl exp utc" by (simp add: token_ttl_def)
  have "\<exists>M e. slive now (sview s2) (family_key st f) = Some (M, e)"
    using sadd_ok [OF add] by (auto simp: slive_def split: option.splits if_splits)
  then obtain M where "sview s3 (family_key st f) = Some (M, Some (now + nat (token_ttl exp utc) * 1000))"
    using expire_sets [OF ex ttl] by auto
  moreover have "sview s' (family_key st f) = sview s3 (family_key st f)"
    using sadd_ok [OF uadd] expire_sets [OF uex ttl] set_keys_differ [of st f u]
    by (simp split: option.splits prod.splits)
  ultimately show ?thesis by simp
qed

lemma revoke_members_expired:
  assumes "rr_sets st = S" and "slive now (sview s) k = None"
    and "redis_revoke_members what k st utc now s = (Inr n, s')"
  shows "n = 0 \<and> s' = s"
  using assms smembers_ok [of k now s]
  by (auto simp: redis_revoke_members_def connected_def split: option.splits sum.splits)

end

text \<open>
  In Redis a family can forget its tokens. Storing a token sets the expiry of the family's set to the
  lifetime of that token, however long the tokens already in the set live. Once that time has
  passed, revoking the family succeeds, reports no token and changes nothing, so an older token of
  the family that lives longer stays usable.
\<close>

theorem redis_family_forgotten:
  assumes "redis_set_laws R view S sview" and "rr_pool st = R" and "rr_sets st = S"
    and "redis_refresh_store st utc now i u f exp m s = (Inr x, s1)"
    and "now + nat (token_ttl exp utc) * 1000 \<le> now'"
    and "redis_refresh_revoke_family st utc' now' f s1 = (Inr n, s2)"
  shows "n = 0 \<and> s2 = s1"
proof -
  from redis_set_laws.store_family_expiry [OF assms(1-4)] assms(5)
  have "slive now' (sview s1) (family_key st f) = None" by (auto simp: slive_def)
  from redis_set_laws.revoke_members_expired [OF assms(1,3) this] assms(6) show ?thesis
    unfolding redis_refresh_revoke_family_def by blast
qed

definition sample_redis_refresh :: "mem_state redis_refresh" where
  "sample_redis_refresh =
     \<lparr>rr_pool = mem2_redis, rr_sets = mem2_sets, rr_key_prefix = ''refresh_token'',
      rr_json = (\<lambda>d. Inr (rf_token_id d @ (if rf_is_revoked d then ''!'' else []))),
      rr_parse = (\<lambda>j. Inr \<lparr>rf_token_id = filter (\<lambda>c. c \<noteq> CHR ''!'') j, rf_user_id = ''u'', rf_family_id = ''f'',
        rf_is_revoked = (CHR ''!'' \<in> set j), rf_expires_at = 0, rf_metadata = metadata_default 0\<rparr>)\<rparr>"

text \<open>A family with a token for ten seconds and then one for a second, revoked two seconds later.\<close>

definition sample_family :: mem_state where
  "sample_family =
     snd (redis_refresh_store sample_redis_refresh 0 0 ''b'' ''u'' ''f'' (int nanos_per_sec) (metadata_default 0)
       (snd (redis_refresh_store sample_redis_refresh 0 0 ''a'' ''u'' ''f'' (10 * int nanos_per_sec) (metadata_default 0)
         (Map.empty, Map.empty))))"

lemma token_ttl_whole: "token_ttl (int nanos_per_sec) 0 = 1" "token_ttl (10 * int nanos_per_sec) 0 = 10"
  by (simp_all add: token_ttl_def num_seconds_nonneg nanos_per_sec_def)

lemmas sample_redis_simps =
  sample_redis_refresh_def mem2_redis_def mem_redis_def mem2_sets_def mem_live_list_def live_def
  redis_refresh_store_def connected_def then_do_def token_key_def family_key_def user_key_def Let_def

lemma sample_store: "redis_refresh_store sample_redis_refresh utc now i u f exp m s =
    (Inr (), snd (redis_refresh_store sample_redis_refresh utc now i u f exp m s))"
  by (simp add: sample_redis_simps)

theorem redis_family_forgotten_witness:
  "redis_refresh_revoke_family sample_redis_refresh 0 2000 ''f'' sample_family = (Inr 0, sample_family) \<and>
   (\<exists>d. redis_refresh_get sample_redis_refresh 2000 ''a'' sample_family = Inr (Some d) \<and> \<not> rf_is_revoked d)"
proof -
  have get: "\<exists>d. redis_refresh_get sample_redis_refresh 2000 ''a'' sample_family = Inr (Some d) \<and> \<not> rf_is_revoked d"
    by (simp add: sample_family_def token_ttl_whole redis_refresh_get_def sample_redis_simps)
  have "\<exists>n s. redis_refresh_revoke_family sample_redis_refresh 0 2000 ''f'' sample_family = (Inr n, s)"
    by (simp add: sample_family_def token_ttl_whole redis_refresh_revoke_family_def redis_revoke_members_def sample_redis_simps)
  then obtain n s2 where revoke: "redis_refresh_revoke_family sample_redis_refresh 0 2000 ''f'' sample_family = (Inr n, s2)"
    by blast
  from redis_family_forgotten [OF mem2s.redis_set_laws_axioms _ _ sample_store _ revoke [unfolded sample_family_def]]
  show ?thesis using get revoke
    by (simp add: sample_family_def [symmetric] token_ttl_whole) (simp add: sample_redis_refresh_def)
qed

text \<open>
  In Turso an expired token outlives its day. The code writes the expiry as
  \<^verbatim>\<open>2025-01-01T10:00:00+00:00\<close> and SQLite compares that text with \<^verbatim>\<open>2025-01-01 12:00:00\<close>, where a blank
  is smaller than a T. So a stored token is still returned at every time whose day is the day of its
  expiry, also after the expiry, and the cleanup keeps it.
\<close>

theorem turso_expired_same_day:
  assumes "turso_store env i u f exp m t = (Inr x, t1)"
    and "te_rfc3339 env exp = day @ ''T'' @ clock" and "te_datetime env now = day @ '' '' @ clock'"
    and "te_fault env RsGet = None" and "te_fault env RsFetch = None" and "te_fault env RsCleanup = None"
  shows "\<exists>d. turso_get env now i (snd (turso_cleanup_expired env now t1)) = Inr (Some d) \<and>
    rf_token_id d = i \<and> rf_user_id d = u \<and> \<not> rf_is_revoked d"
proof -
  have later: "day @ '' '' @ clock' < day @ ''T'' @ clock"
    by (induction day) (simp_all add: less_char_def)
  from assms(1) obtain row where t1: "t1 = t @ [row]" and i: "i \<notin> set (map tw_id t)"
    and row: "tw_id row = i" "tw_user_id row = u" "tw_is_revoked row = 0" "tw_expires_at row = te_rfc3339 env exp"
    by (auto simp: turso_store_def split: sum.splits option.splits if_splits)
  have kept: "snd (turso_cleanup_expired env now t1) = filter (\<lambda>r. \<not> tw_expires_at r < te_datetime env now) t @ [row]"
    using later row(4) assms(2,3,6) by (simp add: turso_cleanup_expired_def t1 less_asym)
  have "find (\<lambda>r. tw_id r = i \<and> te_datetime env now < tw_expires_at r) (filter (\<lambda>r. \<not> tw_expires_at r < te_datetime env now) t) = None"
    using i by (auto simp: find_None_iff image_iff)
  then have "turso_get env now i (snd (turso_cleanup_expired env now t1)) = Inr (Some (turso_data env now row))"
    using later row(1,4) assms(2-5) by (simp add: turso_get_def kept find_snoc)
  then show ?thesis using row by (simp add: turso_data_def)
qed

definition sample_turso_env :: turso_env where
  "sample_turso_env =
     \<lparr>te_fault = (\<lambda>st. None), te_violation = ''UNIQUE constraint failed'',
      te_rfc3339 = (\<lambda>t. ''2025-01-01T'' @ show_nat (nat t) @ '':00:00+00:00''), te_parse_rfc3339 = (\<lambda>s. None),
      te_datetime = (\<lambda>t. ''2025-01-01 '' @ show_nat (nat t) @ '':00:00''),
      te_to_json = (\<lambda>m. Inr ''{}''), te_of_json = (\<lambda>j. None)\<rparr>"

text \<open>A token that expired at ten is returned at twelve.\<close>

theorem turso_expired_same_day_witness:
  "\<exists>d. turso_get sample_turso_env 12 ''a'' (snd (turso_cleanup_expired sample_turso_env 12
      (snd (turso_store sample_turso_env ''a'' ''u'' ''f'' 10 (metadata_default 0) [])))) = Inr (Some d) \<and> \<not> rf_is_revoked d"
proof -
  have "turso_store sample_turso_env ''a'' ''u'' ''f'' 10 (metadata_default 0) [] =
      (Inr (), snd (turso_store sample_turso_env ''a'' ''u'' ''f'' 10 (metadata_default 0) []))"
    by (simp add: turso_store_def sample_turso_env_def)
  moreover have "te_rfc3339 sample_turso_env 10 = ''2025-01-01'' @ ''T'' @ ''10:00:00+00:00''"
    "te_datetime sample_turso_env 12 = ''2025-01-01'' @ '' '' @ ''12:00:00''"
    "te_fault sample_turso_env st = None" for st
    by (code_simp, code_simp, simp add: sample_turso_env_def)
  ultimately show ?thesis
    using turso_expired_same_day [of sample_turso_env "''a''" "''u''" "''f''" 10 "metadata_default 0" "[]" "()" _
        "''2025-01-01''" "''10:00:00+00:00''" 12 "''12:00:00''"] by blast
qed

end
