(* ===== verification/Api_Keys.thy ===== *)
theory Api_Keys
  imports Password Refresh_Tokens
begin

text \<open>
  API keys (\<^verbatim>\<open>src/acton-service/src/auth/api_keys/mod.rs\<close>): the key generator with its base32
  encoder, the Redis, PostgreSQL and Turso backends of the storage trait and the audited decorator of
  \<^verbatim>\<open>src/acton-service/src/audit/decorators.rs\<close>. A Rust string is the list of its UTF-8 bytes; a
  result \<open>None\<close> where a value is expected is a panic. Random bytes, Argon2, JSON, clocks and servers
  are parameters.
\<close>

unbundle bit_operations_syntax

subsection \<open>Base32\<close>

definition base32_alphabet :: string where
  "base32_alphabet = ''abcdefghijklmnopqrstuvwxyz234567''"

text \<open>The inner loop: one character for every five pending bits.\<close>

fun base32_drain :: "u64 \<Rightarrow> nat \<Rightarrow> string \<Rightarrow> nat \<times> string" where
  "base32_drain buffer bits result =
     (if 5 \<le> bits
      then base32_drain buffer (bits - 5) (result @ [base32_alphabet ! unat (drop_bit (bits - 5) buffer AND 0x1f)])
      else (bits, result))"

declare base32_drain.simps [simp del]

fun base32_loop :: "u8 list \<Rightarrow> u64 \<Rightarrow> nat \<Rightarrow> string \<Rightarrow> u64 \<times> nat \<times> string" where
  "base32_loop [] buffer bits result = (buffer, bits, result)"
| "base32_loop (byte # bytes) buffer bits result =
     (let buffer = push_bit 8 buffer OR ucast byte;
          (bits, result) = base32_drain buffer (bits + 8) result
      in base32_loop bytes buffer bits result)"

definition base32_encode :: "u8 list \<Rightarrow> string" where
  "base32_encode bytes =
     (let (buffer, bits, result) = base32_loop bytes 0 0 []
      in if 0 < bits then result @ [base32_alphabet ! unat (push_bit (5 - bits) buffer AND 0x1f)] else result)"

subsection \<open>The encoder computes RFC 4648\<close>

text \<open>
  The reference: the bits of the bytes from the most significant one on, in groups of five, the last
  group filled with zeros.
\<close>

definition byte_bits :: "u8 \<Rightarrow> bool list" where
  "byte_bits b = map (bit b) (rev [0..<8])"

definition base32_char :: "bool list \<Rightarrow> char" where
  "base32_char bs = base32_alphabet ! horner_sum of_bool 2 (rev bs)"

fun base32_groups :: "bool list \<Rightarrow> string" where
  "base32_groups [] = []"
| "base32_groups [a] = [base32_char [a, False, False, False, False]]"
| "base32_groups [a, b] = [base32_char [a, b, False, False, False]]"
| "base32_groups [a, b, c] = [base32_char [a, b, c, False, False]]"
| "base32_groups [a, b, c, d] = [base32_char [a, b, c, d, False]]"
| "base32_groups (a # b # c # d # e # bs) = base32_char [a, b, c, d, e] # base32_groups bs"

definition base32_rfc4648 :: "u8 list \<Rightarrow> string" where
  "base32_rfc4648 bytes = base32_groups (concat (map byte_bits bytes))"

definition pending :: "u64 \<Rightarrow> nat \<Rightarrow> bool list" where
  "pending buffer n = map (bit buffer) (rev [0..<n])"

lemma groups_append: "length xs = 5 \<Longrightarrow> base32_groups (xs @ ys) = base32_char xs # base32_groups ys"
  by (auto simp: length_Suc_conv numeral_eq_Suc)

lemma five_bits:
  "base32_alphabet ! unat (drop_bit k b AND 0x1f) = base32_char (map (bit (b :: u64)) (rev [k..<k + 5]))"
proof -
  have "unat (drop_bit k b AND 0x1f) = unat (take_bit 5 (drop_bit k b))"
    by (simp add: take_bit_eq_mask mask_numeral)
  also have "\<dots> = take_bit 5 (drop_bit k (unat b))"
    by (rule bit_eqI) (auto simp: bit_simps)
  also have "\<dots> = horner_sum of_bool 2 (map (bit (drop_bit k (unat b))) [0..<5])"
    by (simp add: horner_sum_bit_eq_take_bit)
  also have "map (bit (drop_bit k (unat b))) [0..<5] = map (bit b) [k..<k + 5]"
    by (rule nth_equalityI) (auto simp: bit_simps)
  finally show ?thesis by (simp add: base32_char_def rev_map)
qed

lemma pending_split: "pending b (n + 5) = map (bit b) (rev [n..<n + 5]) @ pending b n"
  unfolding pending_def by (simp add: upt_add_eq_append [of 0 n 5, simplified])

lemma pending_byte: "n < 5 \<Longrightarrow> pending (push_bit 8 b OR ucast byte) (n + 8) = pending b n @ byte_bits byte"
proof -
  assume "n < 5"
  have "[0..<n + 8] = [0..<8] @ map (\<lambda>i. i + 8) [0..<n]"
    unfolding map_add_upt using upt_add_eq_append [of 0 8 n] by (simp only: le0 add.commute)
  then have "rev [0..<n + 8] = map (\<lambda>i. i + 8) (rev [0..<n]) @ rev [0..<8]"
    by (simp only: rev_append rev_map)
  with \<open>n < 5\<close> show ?thesis
    by (auto simp: pending_def byte_bits_def bit_simps dest: bit_imp_le_length)
qed

lemma drain_pending:
  "fst (base32_drain b n result) = n mod 5 \<and>
   result @ base32_groups (pending b n @ ys) =
     snd (base32_drain b n result) @ base32_groups (pending b (n mod 5) @ ys)"
proof (induction b n result rule: base32_drain.induct)
  case (1 b n result)
  show ?case
  proof (cases "5 \<le> n")
    case True
    then obtain m where n: "n = m + 5" by (metis le_add_diff_inverse2)
    show ?thesis using 1 unfolding n pending_split
      by (simp add: base32_drain.simps [of b "m + 5"] groups_append five_bits)
  qed (simp add: base32_drain.simps [of b n])
qed

lemma loop_pending:
  "n < 5 \<Longrightarrow> base32_loop bytes b n result = (b', n', result') \<Longrightarrow>
     n' < 5 \<and> result @ base32_groups (pending b n @ concat (map byte_bits bytes)) = result' @ base32_groups (pending b' n')"
proof (induction bytes arbitrary: b n result)
  case (Cons byte bytes)
  let ?b = "push_bit 8 b OR ucast byte"
  obtain k r where d: "base32_drain ?b (n + 8) result = (k, r)" by (metis surj_pair)
  from drain_pending [of ?b "n + 8" result "concat (map byte_bits bytes)"] d
  have k: "k = (n + 8) mod 5" "k < 5"
    and "result @ base32_groups (pending ?b (n + 8) @ concat (map byte_bits bytes)) =
      r @ base32_groups (pending ?b k @ concat (map byte_bits bytes))" by auto
  with Cons.IH [OF k(2), of ?b r] Cons.prems d show ?case by (simp add: pending_byte Let_def)
qed simp

lemma small_upts:
  "rev [0..<5] = [4, 3, 2, 1, 0]" "rev [0..<4] = [3, 2, 1, 0]" "rev [0..<3] = [2, 1, 0]" "rev [0..<2] = [1, 0]"
  by code_simp+

lemma last_group:
  assumes "0 < n" "n < 5"
  shows "[base32_alphabet ! unat (push_bit (5 - n) b AND 0x1f)] = base32_groups (pending b n)"
proof -
  have "base32_alphabet ! unat (push_bit (5 - n) b AND 0x1f) = base32_char (map (bit (push_bit (5 - n) b)) (rev [0..<5]))"
    using five_bits [of 0 "push_bit (5 - n) b"] by simp
  also have "map (bit (push_bit (5 - n) b)) (rev [0..<5]) = map (\<lambda>i. 5 - n \<le> i \<and> bit b (i - (5 - n))) [4, 3, 2, 1, 0]"
    unfolding small_upts by (simp add: bit_simps)
  finally have "base32_alphabet ! unat (push_bit (5 - n) b AND 0x1f) =
      base32_char (map (\<lambda>i. 5 - n \<le> i \<and> bit b (i - (5 - n))) [4, 3, 2, 1, 0])" .
  moreover have "n = 1 \<or> n = 2 \<or> n = 3 \<or> n = 4" using assms by linarith
  ultimately show ?thesis by (auto simp: pending_def small_upts)
qed

lemma base32_encode_eq: "base32_encode bytes = base32_rfc4648 bytes"
proof -
  obtain b n r where l: "base32_loop bytes 0 0 [] = (b, n, r)" by (metis prod_cases3)
  from loop_pending [OF _ l] have "n < 5" "base32_rfc4648 bytes = r @ base32_groups (pending b n)"
    by (simp_all add: base32_rfc4648_def pending_def)
  then show ?thesis using last_group [of n b]
    by (cases "n = 0") (auto simp: base32_encode_def l pending_def)
qed

text \<open>Reading the characters back: the bits of the text are the bits of the bytes and fewer than eight more.\<close>

definition char_bits :: "char \<Rightarrow> bool list" where
  "char_bits c = (case find (\<lambda>n. base32_alphabet ! n = c) [0..<32] of
     Some n \<Rightarrow> map (bit n) (rev [0..<5]) | None \<Rightarrow> [])"

lemma char_bits_all:
  "list_all (\<lambda>bs. char_bits (base32_char bs) = bs) (product_lists [[True, False], [True, False], [True, False], [True, False], [True, False]])"
  by code_simp

lemma char_bits_base32: "char_bits (base32_char [a, b, c, d, e]) = [a, b, c, d, e]"
proof -
  have "[a, b, c, d, e] \<in> set (product_lists [[True, False], [True, False], [True, False], [True, False], [True, False]])"
    by (auto simp only: product_lists_set list_all2_Cons list_all2_Nil mem_Collect_eq insert_iff list.set)
  then show ?thesis using char_bits_all by (auto simp: list_all_iff)
qed

lemma length_groups: "length (base32_groups bs) = (length bs + 4) div 5"
  by (induction bs rule: base32_groups.induct) simp_all

lemma replicate_small: "replicate 4 x = [x, x, x, x]" "replicate 3 x = [x, x, x]" "replicate 2 x = [x, x]"
  by (simp_all add: numeral_eq_Suc)

lemma groups_bits: "concat (map char_bits (base32_groups bs)) = bs @ replicate ((5 - length bs mod 5) mod 5) False"
proof (induction bs rule: base32_groups.induct)
  case (6 a b c d e bs)
  have "Suc (Suc (Suc (Suc (Suc n)))) mod 5 = n mod 5" for n by presburger
  then show ?case using 6 by (simp add: char_bits_base32)
qed (simp_all add: char_bits_base32 replicate_small)

lemma byte_bits_inj: "byte_bits a = byte_bits b \<Longrightarrow> a = b"
  by (rule bit_word_eqI) (auto simp: byte_bits_def rev_map [symmetric])

lemma concat_byte_bits_inj:
  "concat (map byte_bits as) = concat (map byte_bits bs) \<Longrightarrow> as = bs"
proof (induction as arbitrary: bs)
  case Nil
  then show ?case by (cases bs) (auto simp: byte_bits_def)
next
  case (Cons a as)
  then obtain b bs' where bs: "bs = b # bs'" by (cases bs) (auto simp: byte_bits_def)
  have "length (byte_bits a) = length (byte_bits b)" by (simp add: byte_bits_def)
  then show ?case using Cons byte_bits_inj unfolding bs by auto
qed

lemma length_byte_bits: "length (concat (map byte_bits bytes)) = 8 * length bytes"
  by (induction bytes) (simp_all add: byte_bits_def)

lemma base32_encode_length: "length (base32_encode bytes) = (8 * length bytes + 4) div 5"
  by (simp add: base32_encode_eq base32_rfc4648_def length_groups length_byte_bits)

lemma base32_encode_inj: "base32_encode as = base32_encode bs \<Longrightarrow> as = bs"
proof -
  assume eq: "base32_encode as = base32_encode bs"
  let ?bits = "\<lambda>xs. concat (map byte_bits xs)"
  from eq have append: "?bits as @ replicate ((5 - 8 * length as mod 5) mod 5) False =
      ?bits bs @ replicate ((5 - 8 * length bs mod 5) mod 5) False"
    unfolding base32_encode_eq base32_rfc4648_def by (metis groups_bits length_byte_bits)
  have "8 * length as + (5 - 8 * length as mod 5) mod 5 = 8 * length bs + (5 - 8 * length bs mod 5) mod 5"
    using arg_cong [OF append, of length] by (simp only: length_append length_byte_bits length_replicate)
  moreover have "8 * a + k = 8 * b + k' \<Longrightarrow> k < 5 \<Longrightarrow> k' < 5 \<Longrightarrow> a = b" for a b k k' :: nat by linarith
  ultimately have "length as = length bs" by (meson mod_less_divisor zero_less_numeral)
  then have "length (?bits as) = length (?bits bs)" unfolding length_byte_bits by simp
  with append show "as = bs" by (intro concat_byte_bits_inj) simp
qed

lemma base32_char_in: "base32_char [a, b, c, d, e] \<in> set base32_alphabet"
proof -
  have "horner_sum of_bool 2 (rev [a, b, c, d, e]) < length base32_alphabet"
    by (cases a; cases b; cases c; cases d; cases e) (simp_all add: base32_alphabet_def)
  then show ?thesis unfolding base32_char_def by (rule nth_mem)
qed

lemma base32_encode_alphabet: "set (base32_encode bytes) \<subseteq> set base32_alphabet"
proof -
  have "set (base32_groups bs) \<subseteq> set base32_alphabet" for bs
    by (induction bs rule: base32_groups.induct) (simp_all add: base32_char_in)
  then show ?thesis by (simp add: base32_encode_eq base32_rfc4648_def)
qed

text \<open>
  C20: the base32 encoder is right for inputs of every length. Its 64-bit accumulator loses the bits shifted
  out at the top, yet its text is that of RFC 4648 without padding in lower case: the bits of the bytes in
  groups of five, the last one filled with zeros. The length is the number of groups and
  different inputs give different texts, so a generated key keeps all its random bits.
\<close>

theorem base32_encode_rfc4648:
  "base32_encode bytes = base32_groups (concat (map byte_bits bytes)) \<and>
   length (base32_encode bytes) = (8 * length bytes + 4) div 5 \<and> inj base32_encode"
  using base32_encode_eq base32_encode_length base32_encode_inj by (auto simp: base32_rfc4648_def inj_def)

subsection \<open>Keys and the generator\<close>

record api_key =
  ak_id :: string
  ak_user_id :: string
  ak_name :: string
  ak_prefix :: string
  ak_key_hash :: string
  ak_scopes :: "string list"
  ak_rate_limit :: "u32 option"
  ak_is_revoked :: bool
  ak_last_used_at :: "datetime option"
  ak_expires_at :: "datetime option"
  ak_created_at :: datetime

definition api_key_is_valid :: "datetime \<Rightarrow> api_key \<Rightarrow> bool" where
  "api_key_is_valid now k =
     (if ak_is_revoked k then False
      else case ak_expires_at k of Some expires_at \<Rightarrow> \<not> expires_at < now | None \<Rightarrow> True)"

definition has_scope :: "api_key \<Rightarrow> string \<Rightarrow> bool" where
  "has_scope k scope \<longleftrightarrow> list_ex (\<lambda>s. s = scope) (ak_scopes k)"

record api_key_generator =
  gn_prefix :: string
  gn_hasher :: password_hasher

definition api_key_generator_new :: "argon2_env \<Rightarrow> string \<Rightarrow> api_key_generator option" where
  "api_key_generator_new ar prefix =
     map_option (\<lambda>h. \<lparr>gn_prefix = prefix, gn_hasher = h\<rparr>) (password_hasher_new ar default_password_config)"

text \<open>\<open>random_bytes\<close> are the 24 bytes of the random generator, \<open>salt\<close> the salt of the hash.\<close>

definition generate :: "argon2_env \<Rightarrow> string \<Rightarrow> u8 list \<Rightarrow> api_key_generator \<Rightarrow> (string \<times> string) option" where
  "generate ar salt random_bytes g =
     (let key = gn_prefix g @ ''_'' @ base32_encode random_bytes
      in case password_hash ar salt (gn_hasher g) key of Inl e \<Rightarrow> None | Inr hash \<Rightarrow> Some (key, hash))"

definition api_key_verify :: "argon2_env \<Rightarrow> string \<Rightarrow> string \<Rightarrow> error + bool" where
  "api_key_verify ar key hash = password_verify ar key hash"

definition extract_prefix :: "string \<Rightarrow> string option" where
  "extract_prefix key = Some (takeWhile (\<lambda>c. c \<noteq> CHR ''_'') key)"

text \<open>Slicing a string inside a multi-byte character panics.\<close>

definition is_char_boundary :: "string \<Rightarrow> nat \<Rightarrow> bool" where
  "is_char_boundary s i \<longleftrightarrow> i = length s \<or> (i < length s \<and> \<not> (128 \<le> (of_char (s ! i) :: nat) \<and> (of_char (s ! i) :: nat) < 192))"

definition rsplit_once :: "char \<Rightarrow> string \<Rightarrow> (string \<times> string) option" where
  "rsplit_once c s =
     (let tail = rev (takeWhile (\<lambda>x. x \<noteq> c) (rev s))
      in if c \<in> set s then Some (take (length s - length tail - 1) s, tail) else None)"

definition key_prefix_for_lookup :: "string \<Rightarrow> string option option" where
  "key_prefix_for_lookup key =
     (case rsplit_once CHR ''_'' key of
        Some (prefix, random) \<Rightarrow>
          if 8 \<le> length random
          then (if is_char_boundary random 8 then Some (Some (prefix @ ''_'' @ take 8 random)) else None)
          else Some None
      | None \<Rightarrow> Some None)"

subsection \<open>Storage\<close>

text \<open>The trait. \<open>get_by_key\<close> has the same body in all backends.\<close>

record 's api_key_ops =
  ko_get_by_prefix :: "datetime \<Rightarrow> string \<Rightarrow> 's \<Rightarrow> error + api_key option"
  ko_get_by_id :: "datetime \<Rightarrow> string \<Rightarrow> 's \<Rightarrow> error + api_key option"
  ko_create :: "datetime \<Rightarrow> api_key \<Rightarrow> 's \<Rightarrow> (error + unit) \<times> 's"
  ko_update_last_used :: "datetime \<Rightarrow> string \<Rightarrow> 's \<Rightarrow> (error + unit) \<times> 's"
  ko_revoke :: "datetime \<Rightarrow> string \<Rightarrow> 's \<Rightarrow> (error + unit) \<times> 's"
  ko_list_by_user :: "datetime \<Rightarrow> string \<Rightarrow> 's \<Rightarrow> error + api_key list"
  ko_delete :: "datetime \<Rightarrow> string \<Rightarrow> 's \<Rightarrow> (error + unit) \<times> 's"

definition get_by_key :: "argon2_env \<Rightarrow> 's api_key_ops \<Rightarrow> datetime \<Rightarrow> string \<Rightarrow> 's \<Rightarrow> (error + api_key option) option" where
  "get_by_key ar ops now key s =
     (case key_prefix_for_lookup key of
        None \<Rightarrow> None
      | Some None \<Rightarrow> Some (Inl (ValidationError ''Invalid API key format''))
      | Some (Some lookup_prefix) \<Rightarrow> Some
          (case ko_get_by_prefix ops now lookup_prefix s of
             Inl e \<Rightarrow> Inl e
           | Inr None \<Rightarrow> Inr None
           | Inr (Some k) \<Rightarrow>
               (case api_key_verify ar key (ak_key_hash k) of
                  Inl e \<Rightarrow> Inl e
                | Inr True \<Rightarrow> Inr (Some k)
                | Inr False \<Rightarrow> Inr None)))"

datatype api_statement = AsGetPrefix | AsGetId | AsFetch | AsCreate | AsLastUsed | AsRevoke | AsList | AsDelete

subsubsection \<open>PostgreSQL\<close>

text \<open>
  The table of the documentation: a primary key on the identifier and a unique lookup prefix; the rate
  limit is a signed column. Rows of one creation time are listed in table order.
\<close>

record api_row =
  aw_id :: string
  aw_user_id :: string
  aw_name :: string
  aw_key_prefix :: string
  aw_key_hash :: string
  aw_scopes :: json
  aw_rate_limit :: "int option"
  aw_is_revoked :: bool
  aw_last_used_at :: "datetime option"
  aw_expires_at :: "datetime option"
  aw_created_at :: datetime

record api_env =
  ae_fault :: "api_statement \<Rightarrow> string option"
  ae_violation :: string
  ae_timestamptz :: "datetime \<Rightarrow> datetime"
  ae_to_json :: "string list \<Rightarrow> string + json"
  ae_of_json :: "json \<Rightarrow> string list option"

definition api_key_of_row :: "api_env \<Rightarrow> api_row \<Rightarrow> api_key" where
  "api_key_of_row env r =
     \<lparr>ak_id = aw_id r, ak_user_id = aw_user_id r, ak_name = aw_name r, ak_prefix = aw_key_prefix r,
      ak_key_hash = aw_key_hash r,
      ak_scopes = (case ae_of_json env (aw_scopes r) of Some s \<Rightarrow> s | None \<Rightarrow> []),
      ak_rate_limit = map_option word_of_int (aw_rate_limit r), ak_is_revoked = aw_is_revoked r,
      ak_last_used_at = aw_last_used_at r, ak_expires_at = aw_expires_at r, ak_created_at = aw_created_at r\<rparr>"

definition pg_key_get :: "api_env \<Rightarrow> api_statement \<Rightarrow> (api_row \<Rightarrow> bool) \<Rightarrow> api_row list \<Rightarrow> error + api_key option" where
  "pg_key_get env st P t =
     (case ae_fault env st of
        Some e \<Rightarrow> Inl (failed ''get API key'' e)
      | None \<Rightarrow> Inr (map_option (api_key_of_row env) (find P t)))"

definition pg_key_create :: "api_env \<Rightarrow> api_key \<Rightarrow> api_row list \<Rightarrow> (error + unit) \<times> api_row list" where
  "pg_key_create env k t =
     (case ae_to_json env (ak_scopes k) of
        Inl e \<Rightarrow> (Inl (failed ''serialize scopes'' e), t)
      | Inr scopes_json \<Rightarrow>
          (case ae_fault env AsCreate of
             Some e \<Rightarrow> (Inl (failed ''create API key'' e), t)
           | None \<Rightarrow>
               if ak_id k \<in> set (map aw_id t) \<or> ak_prefix k \<in> set (map aw_key_prefix t)
               then (Inl (failed ''create API key'' (ae_violation env)), t)
               else (Inr (), t @ [\<lparr>aw_id = ak_id k, aw_user_id = ak_user_id k, aw_name = ak_name k,
                 aw_key_prefix = ak_prefix k, aw_key_hash = ak_key_hash k, aw_scopes = scopes_json,
                 aw_rate_limit = map_option sint (ak_rate_limit k), aw_is_revoked = ak_is_revoked k,
                 aw_last_used_at = None, aw_expires_at = map_option (ae_timestamptz env) (ak_expires_at k),
                 aw_created_at = ae_timestamptz env (ak_created_at k)\<rparr>])))"

definition pg_key_update ::
  "api_env \<Rightarrow> api_statement \<Rightarrow> string \<Rightarrow> (api_row \<Rightarrow> api_row) \<Rightarrow> string \<Rightarrow> api_row list \<Rightarrow> (error + unit) \<times> api_row list" where
  "pg_key_update env st what f i t =
     (case ae_fault env st of
        Some e \<Rightarrow> (Inl (failed what e), t)
      | None \<Rightarrow> (Inr (), map (\<lambda>r. if aw_id r = i then f r else r) t))"

definition pg_key_list :: "api_env \<Rightarrow> string \<Rightarrow> api_row list \<Rightarrow> error + api_key list" where
  "pg_key_list env user_id t =
     (case ae_fault env AsList of
        Some e \<Rightarrow> Inl (failed ''list API keys'' e)
      | None \<Rightarrow> Inr (map (api_key_of_row env) (sort_key (\<lambda>r. - aw_created_at r) (filter (\<lambda>r. aw_user_id r = user_id) t))))"

definition pg_key_delete :: "api_env \<Rightarrow> string \<Rightarrow> api_row list \<Rightarrow> (error + unit) \<times> api_row list" where
  "pg_key_delete env i t =
     (case ae_fault env AsDelete of
        Some e \<Rightarrow> (Inl (failed ''delete API key'' e), t)
      | None \<Rightarrow> (Inr (), filter (\<lambda>r. aw_id r \<noteq> i) t))"

definition pg_key_ops :: "api_env \<Rightarrow> api_row list api_key_ops" where
  "pg_key_ops env =
     \<lparr>ko_get_by_prefix = (\<lambda>now prefix. pg_key_get env AsGetPrefix (\<lambda>r. aw_key_prefix r = prefix)),
      ko_get_by_id = (\<lambda>now i. pg_key_get env AsGetId (\<lambda>r. aw_id r = i)),
      ko_create = (\<lambda>now. pg_key_create env),
      ko_update_last_used = (\<lambda>now. pg_key_update env AsLastUsed ''update last_used_at'' (\<lambda>r. r\<lparr>aw_last_used_at := Some (ae_timestamptz env now)\<rparr>)),
      ko_revoke = (\<lambda>now. pg_key_update env AsRevoke ''revoke API key'' (\<lambda>r. r\<lparr>aw_is_revoked := True\<rparr>)),
      ko_list_by_user = (\<lambda>now. pg_key_list env), ko_delete = (\<lambda>now. pg_key_delete env)\<rparr>"

subsubsection \<open>Turso\<close>

text \<open>The table has the constraints of the PostgreSQL one; times are texts, \<open>ke_datetime\<close> is \<^verbatim>\<open>datetime('now')\<close>.\<close>

record turso_key_row =
  kw_id :: string
  kw_user_id :: string
  kw_name :: string
  kw_key_prefix :: string
  kw_key_hash :: string
  kw_scopes :: string
  kw_rate_limit :: "int option"
  kw_is_revoked :: int
  kw_last_used_at :: "string option"
  kw_expires_at :: "string option"
  kw_created_at :: string

record turso_key_env =
  ke_fault :: "api_statement \<Rightarrow> string option"
  ke_violation :: string
  ke_rfc3339 :: "datetime \<Rightarrow> string"
  ke_parse_rfc3339 :: "string \<Rightarrow> datetime option"
  ke_datetime :: "datetime \<Rightarrow> string"
  ke_to_json :: "string list \<Rightarrow> string + string"
  ke_of_json :: "string \<Rightarrow> string list option"

definition parse_api_key_row :: "turso_key_env \<Rightarrow> datetime \<Rightarrow> turso_key_row \<Rightarrow> api_key" where
  "parse_api_key_row env now r =
     \<lparr>ak_id = kw_id r, ak_user_id = kw_user_id r, ak_name = kw_name r, ak_prefix = kw_key_prefix r,
      ak_key_hash = kw_key_hash r,
      ak_scopes = (case ke_of_json env (kw_scopes r) of Some s \<Rightarrow> s | None \<Rightarrow> []),
      ak_rate_limit = map_option word_of_int (kw_rate_limit r), ak_is_revoked = (kw_is_revoked r \<noteq> 0),
      ak_last_used_at = Option.bind (kw_last_used_at r) (ke_parse_rfc3339 env),
      ak_expires_at = Option.bind (kw_expires_at r) (ke_parse_rfc3339 env),
      ak_created_at = (case ke_parse_rfc3339 env (kw_created_at r) of Some t \<Rightarrow> t | None \<Rightarrow> now)\<rparr>"

definition turso_key_get ::
  "turso_key_env \<Rightarrow> api_statement \<Rightarrow> (turso_key_row \<Rightarrow> bool) \<Rightarrow> datetime \<Rightarrow> turso_key_row list \<Rightarrow> error + api_key option" where
  "turso_key_get env st P now t =
     (case ke_fault env st of
        Some e \<Rightarrow> Inl (failed ''get API key'' e)
      | None \<Rightarrow>
          (case ke_fault env AsFetch of
             Some e \<Rightarrow> Inl (failed ''fetch row'' e)
           | None \<Rightarrow> Inr (map_option (parse_api_key_row env now) (find P t))))"

definition turso_key_create :: "turso_key_env \<Rightarrow> api_key \<Rightarrow> turso_key_row list \<Rightarrow> (error + unit) \<times> turso_key_row list" where
  "turso_key_create env k t =
     (case ke_to_json env (ak_scopes k) of
        Inl e \<Rightarrow> (Inl (failed ''serialize scopes'' e), t)
      | Inr scopes_json \<Rightarrow>
          (case ke_fault env AsCreate of
             Some e \<Rightarrow> (Inl (failed ''create API key'' e), t)
           | None \<Rightarrow>
               if ak_id k \<in> set (map kw_id t) \<or> ak_prefix k \<in> set (map kw_key_prefix t)
               then (Inl (failed ''create API key'' (ke_violation env)), t)
               else (Inr (), t @ [\<lparr>kw_id = ak_id k, kw_user_id = ak_user_id k, kw_name = ak_name k,
                 kw_key_prefix = ak_prefix k, kw_key_hash = ak_key_hash k, kw_scopes = scopes_json,
                 kw_rate_limit = map_option uint (ak_rate_limit k), kw_is_revoked = (if ak_is_revoked k then 1 else 0),
                 kw_last_used_at = None, kw_expires_at = map_option (ke_rfc3339 env) (ak_expires_at k),
                 kw_created_at = ke_rfc3339 env (ak_created_at k)\<rparr>])))"

definition turso_key_update ::
  "turso_key_env \<Rightarrow> api_statement \<Rightarrow> string \<Rightarrow> (turso_key_row \<Rightarrow> turso_key_row) \<Rightarrow> string \<Rightarrow> turso_key_row list \<Rightarrow>
     (error + unit) \<times> turso_key_row list" where
  "turso_key_update env st what f i t =
     (case ke_fault env st of
        Some e \<Rightarrow> (Inl (failed what e), t)
      | None \<Rightarrow> (Inr (), map (\<lambda>r. if kw_id r = i then f r else r) t))"

text \<open>Descending by the text of the creation time.\<close>

definition turso_key_list :: "turso_key_env \<Rightarrow> datetime \<Rightarrow> string \<Rightarrow> turso_key_row list \<Rightarrow> error + api_key list" where
  "turso_key_list env now user_id t =
     (case ke_fault env AsList of
        Some e \<Rightarrow> Inl (failed ''list API keys'' e)
      | None \<Rightarrow>
          (case ke_fault env AsFetch of
             Some e \<Rightarrow> Inl (failed ''fetch row'' e)
           | None \<Rightarrow> Inr (map (parse_api_key_row env now)
               (rev (sort_key kw_created_at (rev (filter (\<lambda>r. kw_user_id r = user_id) t)))))))"

definition turso_key_delete :: "turso_key_env \<Rightarrow> string \<Rightarrow> turso_key_row list \<Rightarrow> (error + unit) \<times> turso_key_row list" where
  "turso_key_delete env i t =
     (case ke_fault env AsDelete of
        Some e \<Rightarrow> (Inl (failed ''delete API key'' e), t)
      | None \<Rightarrow> (Inr (), filter (\<lambda>r. kw_id r \<noteq> i) t))"

definition turso_key_ops :: "turso_key_env \<Rightarrow> turso_key_row list api_key_ops" where
  "turso_key_ops env =
     \<lparr>ko_get_by_prefix = (\<lambda>now prefix. turso_key_get env AsGetPrefix (\<lambda>r. kw_key_prefix r = prefix) now),
      ko_get_by_id = (\<lambda>now i. turso_key_get env AsGetId (\<lambda>r. kw_id r = i) now),
      ko_create = (\<lambda>now. turso_key_create env),
      ko_update_last_used = (\<lambda>now. turso_key_update env AsLastUsed ''update last_used_at'' (\<lambda>r. r\<lparr>kw_last_used_at := Some (ke_datetime env now)\<rparr>)),
      ko_revoke = (\<lambda>now. turso_key_update env AsRevoke ''revoke API key'' (\<lambda>r. r\<lparr>kw_is_revoked := 1\<rparr>)),
      ko_list_by_user = turso_key_list env, ko_delete = (\<lambda>now. turso_key_delete env)\<rparr>"

subsubsection \<open>Redis\<close>

record 'r redis_api_keys =
  ra_pool :: "'r redis"
  ra_sets :: "'r redis_sets"
  ra_kv :: "'r redis_kv"
  ra_key_prefix :: string
  ra_json :: "api_key \<Rightarrow> string + string"
  ra_parse :: "string \<Rightarrow> string + api_key"

definition api_id_key :: "'r redis_api_keys \<Rightarrow> string \<Rightarrow> string" where
  "api_id_key st i = ra_key_prefix st @ '':id:'' @ i"

definition api_prefix_key :: "'r redis_api_keys \<Rightarrow> string \<Rightarrow> string" where
  "api_prefix_key st prefix = ra_key_prefix st @ '':prefix:'' @ prefix"

definition api_user_key :: "'r redis_api_keys \<Rightarrow> string \<Rightarrow> string" where
  "api_user_key st user_id = ra_key_prefix st @ '':user:'' @ user_id"

definition redis_key_get_by_id :: "'r redis_api_keys \<Rightarrow> nat \<Rightarrow> string \<Rightarrow> 'r \<Rightarrow> error + api_key option" where
  "redis_key_get_by_id st ms i s =
     (case rd_connect (ra_pool st) s of
        Some e \<Rightarrow> Inl (failed ''get Redis connection'' e)
      | None \<Rightarrow>
          (case rd_get (ra_pool st) (api_id_key st i) ms s of
             Inl e \<Rightarrow> Inl (failed ''get API key'' e)
           | Inr None \<Rightarrow> Inr None
           | Inr (Some j) \<Rightarrow>
               (case ra_parse st j of
                  Inl e \<Rightarrow> Inl (failed ''parse API key'' e)
                | Inr k \<Rightarrow> Inr (Some k))))"

definition redis_key_get_by_prefix :: "'r redis_api_keys \<Rightarrow> nat \<Rightarrow> string \<Rightarrow> 'r \<Rightarrow> error + api_key option" where
  "redis_key_get_by_prefix st ms prefix s =
     (case rd_connect (ra_pool st) s of
        Some e \<Rightarrow> Inl (failed ''get Redis connection'' e)
      | None \<Rightarrow>
          (case rd_get (ra_pool st) (api_prefix_key st prefix) ms s of
             Inl e \<Rightarrow> Inl (failed ''get API key prefix'' e)
           | Inr (Some i) \<Rightarrow> redis_key_get_by_id st ms i s
           | Inr None \<Rightarrow> Inr None))"

definition api_connected :: "'r redis_api_keys \<Rightarrow> 'r \<Rightarrow> ('r \<Rightarrow> (error + 'a) \<times> 'r) \<Rightarrow> (error + 'a) \<times> 'r" where
  "api_connected st s k = (case rd_connect (ra_pool st) s of
     Some e \<Rightarrow> (Inl (failed ''get Redis connection'' e), s) | None \<Rightarrow> k s)"

definition redis_key_create :: "'r redis_api_keys \<Rightarrow> nat \<Rightarrow> api_key \<Rightarrow> 'r \<Rightarrow> (error + unit) \<times> 'r" where
  "redis_key_create st ms k s =
     api_connected st s (\<lambda>s.
       (case ra_json st k of
          Inl e \<Rightarrow> (Inl (failed ''serialize API key'' e), s)
        | Inr j \<Rightarrow>
            then_do ''store API key'' (rd_set (ra_kv st) (api_id_key st (ak_id k)) j ms s) (\<lambda>s.
            then_do ''store prefix mapping'' (rd_set (ra_kv st) (api_prefix_key st (ak_prefix k)) (ak_id k) ms s) (\<lambda>s.
            then_do ''add to user set'' (rd_sadd (ra_sets st) (api_user_key st (ak_user_id k)) (ak_id k) ms s) (\<lambda>s. (Inr (), s))))))"

text \<open>The two updates read the key, change it and write it back.\<close>

definition redis_key_modify ::
  "'r redis_api_keys \<Rightarrow> nat \<Rightarrow> string \<Rightarrow> (api_key \<Rightarrow> api_key) \<Rightarrow> string \<Rightarrow> 'r \<Rightarrow> (error + unit) \<times> 'r" where
  "redis_key_modify st ms what f i s =
     (case redis_key_get_by_id st ms i s of
        Inl e \<Rightarrow> (Inl e, s)
      | Inr None \<Rightarrow> (Inr (), s)
      | Inr (Some k) \<Rightarrow>
          (case ra_json st (f k) of
             Inl e \<Rightarrow> (Inl (failed ''serialize API key'' e), s)
           | Inr j \<Rightarrow> api_connected st s (\<lambda>s.
               then_do what (rd_set (ra_kv st) (api_id_key st i) j ms s) (\<lambda>s. (Inr (), s)))))"

fun redis_key_collect :: "'r redis_api_keys \<Rightarrow> nat \<Rightarrow> string list \<Rightarrow> 'r \<Rightarrow> error + api_key list" where
  "redis_key_collect st ms [] s = Inr []"
| "redis_key_collect st ms (i # ids) s =
     (case redis_key_get_by_id st ms i s of
        Inl e \<Rightarrow> Inl e
      | Inr None \<Rightarrow> redis_key_collect st ms ids s
      | Inr (Some k) \<Rightarrow> map_sum id ((#) k) (redis_key_collect st ms ids s))"

definition redis_key_list :: "'r redis_api_keys \<Rightarrow> nat \<Rightarrow> string \<Rightarrow> 'r \<Rightarrow> error + api_key list" where
  "redis_key_list st ms user_id s =
     (case rd_connect (ra_pool st) s of
        Some e \<Rightarrow> Inl (failed ''get Redis connection'' e)
      | None \<Rightarrow>
          (case rd_smembers (ra_sets st) (api_user_key st user_id) ms s of
             Inl e \<Rightarrow> Inl (failed ''get user keys'' e)
           | Inr ids \<Rightarrow> redis_key_collect st ms ids s))"

definition redis_key_delete :: "'r redis_api_keys \<Rightarrow> nat \<Rightarrow> string \<Rightarrow> 'r \<Rightarrow> (error + unit) \<times> 'r" where
  "redis_key_delete st ms i s =
     (case redis_key_get_by_id st ms i s of
        Inl e \<Rightarrow> (Inl e, s)
      | Inr None \<Rightarrow> (Inr (), s)
      | Inr (Some k) \<Rightarrow> api_connected st s (\<lambda>s.
          then_do ''remove from user set'' (rd_srem (ra_kv st) (api_user_key st (ak_user_id k)) i ms s) (\<lambda>s.
          then_do ''delete prefix'' (rd_del (ra_pool st) [api_prefix_key st (ak_prefix k)] ms s) (\<lambda>s.
          then_do ''delete API key'' (rd_del (ra_pool st) [api_id_key st i] ms s) (\<lambda>s. (Inr (), s))))))"

text \<open>\<open>ms\<close> is the server's time, the trait's \<open>now\<close> the service's.\<close>

definition redis_key_ops :: "'r redis_api_keys \<Rightarrow> nat \<Rightarrow> 'r api_key_ops" where
  "redis_key_ops st ms =
     \<lparr>ko_get_by_prefix = (\<lambda>now. redis_key_get_by_prefix st ms), ko_get_by_id = (\<lambda>now. redis_key_get_by_id st ms),
      ko_create = (\<lambda>now. redis_key_create st ms),
      ko_update_last_used = (\<lambda>now. redis_key_modify st ms ''update API key'' (\<lambda>k. k\<lparr>ak_last_used_at := Some now\<rparr>)),
      ko_revoke = (\<lambda>now. redis_key_modify st ms ''revoke API key'' (\<lambda>k. k\<lparr>ak_is_revoked := True\<rparr>)),
      ko_list_by_user = (\<lambda>now. redis_key_list st ms), ko_delete = (\<lambda>now. redis_key_delete st ms)\<rparr>"

subsection \<open>Issued keys are found\<close>

lemma rsplit_once_last: "c \<notin> set b \<Longrightarrow> rsplit_once c (a @ c # b) = Some (a, b)"
proof -
  assume "c \<notin> set b"
  then have "takeWhile (\<lambda>x. x \<noteq> c) (rev b @ c # rev a) = rev b" by (subst takeWhile_append2) auto
  then show ?thesis by (simp add: rsplit_once_def Let_def)
qed

lemma ascii_boundary: "\<forall>c \<in> set s. (of_char c :: nat) < 128 \<Longrightarrow> i \<le> length s \<Longrightarrow> is_char_boundary s i"
  using nth_mem [of i s] by (fastforce simp: is_char_boundary_def)

lemma base32_ascii: "c \<in> set (base32_encode bytes) \<Longrightarrow> c \<noteq> CHR ''_'' \<and> (of_char c :: nat) < 128"
proof -
  have "list_all (\<lambda>c. c \<noteq> CHR ''_'' \<and> (of_char c :: nat) < 128) base32_alphabet" by code_simp
  then show "c \<in> set (base32_encode bytes) \<Longrightarrow> ?thesis"
    using base32_encode_alphabet [of bytes] by (auto simp: list_all_iff)
qed

lemma generated_lookup:
  assumes "5 \<le> length bytes"
  shows "key_prefix_for_lookup (prefix @ ''_'' @ base32_encode bytes) = Some (Some (prefix @ ''_'' @ take 8 (base32_encode bytes)))"
proof -
  have "CHR ''_'' \<notin> set (base32_encode bytes)" and "is_char_boundary (base32_encode bytes) 8" and "8 \<le> length (base32_encode bytes)"
    using base32_ascii assms by (auto intro!: ascii_boundary simp: base32_encode_length)
  then show ?thesis by (simp add: key_prefix_for_lookup_def rsplit_once_last)
qed

text \<open>
  What the backends keep of a key: everything but the times, whose precision they may reduce. \<open>good\<close>
  relates the conditions of two calls under which the backend keeps its promises (a JSON library that
  reads what it wrote, a server that follows its documentation, a clock that does not go back).
\<close>

definition same_key :: "api_key \<Rightarrow> api_key \<Rightarrow> bool" where
  "same_key k k' \<longleftrightarrow> ak_id k' = ak_id k \<and> ak_user_id k' = ak_user_id k \<and> ak_name k' = ak_name k \<and> ak_prefix k' = ak_prefix k
     \<and> ak_key_hash k' = ak_key_hash k \<and> ak_scopes k' = ak_scopes k \<and> ak_rate_limit k' = ak_rate_limit k
     \<and> ak_is_revoked k' = ak_is_revoked k"

locale api_key_store =
  fixes ops :: "'e \<Rightarrow> 's api_key_ops" and good :: "'e \<Rightarrow> 'e \<Rightarrow> bool"
  assumes created: "\<lbrakk>good e e'; ko_create (ops e) now k s = (Inr u, s'); ko_get_by_prefix (ops e') now' (ak_prefix k) s' = Inr r\<rbrakk> \<Longrightarrow>
      \<exists>k'. r = Some k' \<and> same_key k k'"
    and revoked: "\<lbrakk>good e e'; ko_revoke (ops e) now i s = (Inr u, s'); ko_get_by_id (ops e') now' i s' = Inr (Some k)\<rbrakk> \<Longrightarrow>
      ak_is_revoked k"
    and deleted: "\<lbrakk>good e e'; ko_delete (ops e) now i s = (Inr u, s'); ko_get_by_id (ops e') now' i s' = Inr r\<rbrakk> \<Longrightarrow> r = None"
begin

lemma issued_found:
  assumes "good e e'" and "argon2_phc ar" and "generate ar salt bytes g = Some (key, hash)"
    and "key_prefix_for_lookup key = Some (Some (ak_prefix k))" and "ak_key_hash k = hash"
    and "ko_create (ops e) now k s = (Inr u, s')" and "get_by_key ar (ops e') now' key s' = Some (Inr r)"
  shows "\<exists>k'. r = Some k' \<and> same_key k k'"
proof -
  obtain r' where get: "ko_get_by_prefix (ops e') now' (ak_prefix k) s' = Inr r'"
    using assms(4,7) by (auto simp: get_by_key_def split: sum.splits)
  from created [OF assms(1,6) get] obtain k' where k': "r' = Some k'" "same_key k k'" by blast
  have "password_hash ar salt (gn_hasher g) key = Inr hash"
    using assms(3) by (auto simp: generate_def Let_def split: sum.splits)
  then have "api_key_verify ar key hash = Inr True"
    unfolding api_key_verify_def by (rule password_hash_verifies [OF assms(2)])
  with k' get assms(4,5,7) show ?thesis by (auto simp: get_by_key_def same_key_def)
qed

end

definition pg_keys_good :: "api_env \<Rightarrow> api_env \<Rightarrow> bool" where
  "pg_keys_good env env' \<longleftrightarrow> (\<forall>xs j. ae_to_json env xs = Inr j \<longrightarrow> ae_of_json env' j = Some xs)"

definition turso_keys_good :: "turso_key_env \<Rightarrow> turso_key_env \<Rightarrow> bool" where
  "turso_keys_good env env' \<longleftrightarrow> (\<forall>xs j. ke_to_json env xs = Inr j \<longrightarrow> ke_of_json env' j = Some xs)"

definition redis_keys_good :: "'r redis_api_keys \<times> nat \<Rightarrow> 'r redis_api_keys \<times> nat \<Rightarrow> bool" where
  "redis_keys_good e e' \<longleftrightarrow> fst e' = fst e \<and> snd e \<le> snd e' \<and>
     (\<exists>view sview. redis_kv_laws (ra_pool (fst e)) view (ra_sets (fst e)) sview (ra_kv (fst e))) \<and>
     (\<forall>k j. ra_json (fst e) k = Inr j \<longrightarrow> ra_parse (fst e) j = Inr k)"

lemma word_signed_back: "map_option word_of_int (map_option sint (x :: u32 option)) = x"
  by (cases x) simp_all

lemma word_unsigned_back: "map_option word_of_int (map_option uint (x :: u32 option)) = x"
  by (cases x) simp_all

lemma pg_key_revoked:
  "row \<in> set (map (\<lambda>r. if aw_id r = i then r\<lparr>aw_is_revoked := True\<rparr> else r) s) \<Longrightarrow> aw_id row = i \<Longrightarrow> aw_is_revoked row"
  by (induction s) (simp_all split: if_splits, force+)

lemma turso_key_revoked:
  "row \<in> set (map (\<lambda>r. if kw_id r = i then r\<lparr>kw_is_revoked := 1\<rparr> else r) s) \<Longrightarrow> kw_id row = i \<Longrightarrow> kw_is_revoked row = 1"
  by (induction s) (simp_all split: if_splits, force+)

interpretation pg_keys: api_key_store pg_key_ops pg_keys_good
proof
  fix e e' now k s u s' now' r
  assume "pg_keys_good e e'" "ko_create (pg_key_ops e) now k s = (Inr u, s')"
    "ko_get_by_prefix (pg_key_ops e') now' (ak_prefix k) s' = Inr r"
  then obtain row j where "s' = s @ [row]" "ak_prefix k \<notin> set (map aw_key_prefix s)"
     "r = map_option (api_key_of_row e') (find (\<lambda>r. aw_key_prefix r = ak_prefix k) s')" 
     "same_key k (api_key_of_row e' row)" "aw_key_prefix row = ak_prefix k"
    by (auto simp: pg_key_ops_def pg_key_create_def pg_key_get_def pg_keys_good_def same_key_def api_key_of_row_def
        word_signed_back split: sum.splits option.splits if_splits)
  moreover from this have "find (\<lambda>r. aw_key_prefix r = ak_prefix k) s = None" by (auto simp: find_None_iff image_iff)
  ultimately show "\<exists>k'. r = Some k' \<and> same_key k k'" by (simp add: find_snoc)
next
  fix e e' now i s u s' now' k
  assume "ko_revoke (pg_key_ops e) now i s = (Inr u, s')" "ko_get_by_id (pg_key_ops e') now' i s' = Inr (Some k)"
  then obtain row where "row \<in> set (map (\<lambda>r. if aw_id r = i then r\<lparr>aw_is_revoked := True\<rparr> else r) s)" "aw_id row = i"
      "k = api_key_of_row e' row"
    by (auto simp: pg_key_ops_def pg_key_update_def pg_key_get_def split: option.splits dest: find_in_set)
  from pg_key_revoked [OF this(1,2)] this(3) show "ak_is_revoked k" by (simp add: api_key_of_row_def)
next
  fix e e' now i s u s' now' r
  assume "ko_delete (pg_key_ops e) now i s = (Inr u, s')" "ko_get_by_id (pg_key_ops e') now' i s' = Inr r"
  then show "r = None" by (auto simp: pg_key_ops_def pg_key_delete_def pg_key_get_def find_None_iff split: option.splits)
qed

interpretation turso_keys: api_key_store turso_key_ops turso_keys_good
proof
  fix e e' now k s u s' now' r
  assume "turso_keys_good e e'" "ko_create (turso_key_ops e) now k s = (Inr u, s')"
    "ko_get_by_prefix (turso_key_ops e') now' (ak_prefix k) s' = Inr r"
  then obtain row where "s' = s @ [row]" "ak_prefix k \<notin> set (map kw_key_prefix s)"
     "r = map_option (parse_api_key_row e' now') (find (\<lambda>r. kw_key_prefix r = ak_prefix k) s')"
     "same_key k (parse_api_key_row e' now' row)" "kw_key_prefix row = ak_prefix k"
    by (auto simp: turso_key_ops_def turso_key_create_def turso_key_get_def turso_keys_good_def same_key_def parse_api_key_row_def
        word_unsigned_back split: sum.splits option.splits if_splits)
  moreover from this have "find (\<lambda>r. kw_key_prefix r = ak_prefix k) s = None" by (auto simp: find_None_iff image_iff)
  ultimately show "\<exists>k'. r = Some k' \<and> same_key k k'" by (simp add: find_snoc)
next
  fix e e' now i s u s' now' k
  assume "ko_revoke (turso_key_ops e) now i s = (Inr u, s')" "ko_get_by_id (turso_key_ops e') now' i s' = Inr (Some k)"
  then obtain row where "row \<in> set (map (\<lambda>r. if kw_id r = i then r\<lparr>kw_is_revoked := 1\<rparr> else r) s)" "kw_id row = i"
      "k = parse_api_key_row e' now' row"
    by (auto simp: turso_key_ops_def turso_key_update_def turso_key_get_def split: option.splits dest: find_in_set)
  from turso_key_revoked [OF this(1,2)] this(3) show "ak_is_revoked k" by (simp add: parse_api_key_row_def)
next
  fix e e' now i s u s' now' r
  assume "ko_delete (turso_key_ops e) now i s = (Inr u, s')" "ko_get_by_id (turso_key_ops e') now' i s' = Inr r"
  then show "r = None" by (auto simp: turso_key_ops_def turso_key_delete_def turso_key_get_def find_None_iff split: option.splits)
qed

lemma api_keys_differ [simp]:
  "api_id_key st i \<noteq> api_prefix_key st p" "api_prefix_key st p \<noteq> api_id_key st i"
  "api_id_key st i = api_id_key st j \<longleftrightarrow> i = j" "api_prefix_key st p = api_prefix_key st q \<longleftrightarrow> p = q"
  by (simp_all add: api_id_key_def api_prefix_key_def)

lemma live_upd: "live t (d(k \<mapsto> (v, None))) k' = (if k' = k then Some (v, None) else live t d k')"
  by (simp add: live_def)

lemma live_later: "live t d k = None \<Longrightarrow> t \<le> t' \<Longrightarrow> live t' d k = None"
  by (auto simp: live_def split: option.splits if_splits)

context redis_kv_laws
begin

lemma key_by_id:
  assumes "ra_pool st = R" and "redis_key_get_by_id st ms i s = Inr r"
  shows "(case live ms (view s) (api_id_key st i) of None \<Rightarrow> r = None | Some (j, ex) \<Rightarrow> \<exists>k. ra_parse st j = Inr k \<and> r = Some k)"
  using assms get_ok [of "api_id_key st i" ms s]
  by (auto simp: redis_key_get_by_id_def split: option.splits sum.splits)

lemma key_by_prefix:
  assumes "ra_pool st = R" and "redis_key_get_by_prefix st ms p s = Inr r"
  shows "(case live ms (view s) (api_prefix_key st p) of None \<Rightarrow> r = None | Some (i, ex) \<Rightarrow> redis_key_get_by_id st ms i s = Inr r)"
  using assms get_ok [of "api_prefix_key st p" ms s]
  by (auto simp: redis_key_get_by_prefix_def split: option.splits sum.splits)

lemma key_create:
  assumes "ra_sets st = S" and "ra_kv st = K" and "redis_key_create st ms k s = (Inr u, s')"
  shows "\<exists>j. ra_json st k = Inr j \<and>
    view s' = (view s)(api_id_key st (ak_id k) \<mapsto> (j, None), api_prefix_key st (ak_prefix k) \<mapsto> (ak_id k, None))"
proof -
  from assms obtain j s1 s2 where "ra_json st k = Inr j"
    and "rd_set K (api_id_key st (ak_id k)) j ms s = (Inr (), s1)"
    and "rd_set K (api_prefix_key st (ak_prefix k)) (ak_id k) ms s1 = (Inr (), s2)"
    and "rd_sadd S (api_user_key st (ak_user_id k)) (ak_id k) ms s2 = (Inr (), s')"
    by (auto simp: redis_key_create_def api_connected_def then_do_ok split: option.splits sum.splits)
  then show ?thesis by (auto dest!: set_ok sadd_ok)
qed

lemma key_modify:
  assumes "ra_pool st = R" and "ra_kv st = K" and "redis_key_modify st ms what f i s = (Inr u, s')"
  shows "(live ms (view s) (api_id_key st i) = None \<and> view s' = view s) \<or>
    (\<exists>k j. ra_json st (f k) = Inr j \<and> view s' = (view s)(api_id_key st i \<mapsto> (j, None)))"
proof -
  obtain r where g: "redis_key_get_by_id st ms i s = Inr r"
    using assms(3) by (auto simp: redis_key_modify_def split: sum.splits)
  show ?thesis
  proof (cases r)
    case None
    then show ?thesis using key_by_id [OF assms(1) g] g assms(3)
      by (auto simp: redis_key_modify_def split: option.splits)
  next
    case (Some k)
    with g assms(2,3) obtain j where "ra_json st (f k) = Inr j" and "rd_set K (api_id_key st i) j ms s = (Inr (), s')"
      by (auto simp: redis_key_modify_def api_connected_def then_do_ok split: option.splits sum.splits)
    with set_ok show ?thesis by blast
  qed
qed

lemma key_delete:
  assumes "ra_pool st = R" and "ra_kv st = K" and "redis_key_delete st ms i s = (Inr u, s')"
  shows "(live ms (view s) (api_id_key st i) = None \<and> view s' = view s) \<or>
    (\<exists>k ex j. live ms (view s) (api_id_key st i) = Some (j, ex) \<and> ra_parse st j = Inr k \<and>
      view s' = (\<lambda>x. if x = api_id_key st i \<or> x = api_prefix_key st (ak_prefix k) then None else view s x))"
proof -
  obtain r where g: "redis_key_get_by_id st ms i s = Inr r"
    using assms(3) by (auto simp: redis_key_delete_def split: sum.splits)
  show ?thesis
  proof (cases r)
    case None
    then show ?thesis using key_by_id [OF assms(1) g] g assms(3)
      by (auto simp: redis_key_delete_def split: option.splits)
  next
    case (Some k)
    with g assms obtain s1 s2 where "rd_srem K (api_user_key st (ak_user_id k)) i ms s = (Inr (), s1)"
      and "rd_del R [api_prefix_key st (ak_prefix k)] ms s1 = (Inr (), s2)"
      and "rd_del R [api_id_key st i] ms s2 = (Inr (), s')"
      by (auto simp: redis_key_delete_def api_connected_def then_do_ok split: option.splits)
    then have "view s' = (\<lambda>x. if x = api_id_key st i \<or> x = api_prefix_key st (ak_prefix k) then None else view s x)"
      using srem_ok del_ok by (auto simp: fun_eq_iff)
    with key_by_id [OF assms(1) g] Some show ?thesis by (auto split: option.splits)
  qed
qed

end

interpretation redis_keys: api_key_store "\<lambda>e :: 'r redis_api_keys \<times> nat. redis_key_ops (fst e) (snd e)" redis_keys_good
proof
  fix e e' :: "'r redis_api_keys \<times> nat" and now k s u s' now' r
  assume good: "redis_keys_good e e'" and new: "ko_create (redis_key_ops (fst e) (snd e)) now k s = (Inr u, s')"
    and get: "ko_get_by_prefix (redis_key_ops (fst e') (snd e')) now' (ak_prefix k) s' = Inr r"
  from good obtain view sview where laws: "redis_kv_laws (ra_pool (fst e)) view (ra_sets (fst e)) sview (ra_kv (fst e))"
    and st: "fst e' = fst e" and json: "ra_json (fst e) k = Inr j \<Longrightarrow> ra_parse (fst e) j = Inr k" for j
    unfolding redis_keys_good_def by blast
  from redis_kv_laws.key_create [OF laws refl refl] new obtain j where j: "ra_json (fst e) k = Inr j"
    "view s' = (view s)(api_id_key (fst e) (ak_id k) \<mapsto> (j, None), api_prefix_key (fst e) (ak_prefix k) \<mapsto> (ak_id k, None))"
    unfolding redis_key_ops_def by fastforce
  have "redis_key_get_by_id (fst e) (snd e') (ak_id k) s' = Inr r"
    using redis_kv_laws.key_by_prefix [OF laws refl, of "snd e'" "ak_prefix k" s' r] get
    by (simp add: redis_key_ops_def j(2) live_upd st)
  from redis_kv_laws.key_by_id [OF laws refl this] json [OF j(1)]
  show "\<exists>k'. r = Some k' \<and> same_key k k'" by (simp add: j(2) live_upd same_key_def)
next
  fix e e' :: "'r redis_api_keys \<times> nat" and now i s u s' now' k
  assume good: "redis_keys_good e e'" and rev: "ko_revoke (redis_key_ops (fst e) (snd e)) now i s = (Inr u, s')"
    and get: "ko_get_by_id (redis_key_ops (fst e') (snd e')) now' i s' = Inr (Some k)"
  from good obtain view sview where laws: "redis_kv_laws (ra_pool (fst e)) view (ra_sets (fst e)) sview (ra_kv (fst e))"
    and st: "fst e' = fst e" and later: "snd e \<le> snd e'" and json: "ra_json (fst e) k = Inr j \<Longrightarrow> ra_parse (fst e) j = Inr k" for k j
    unfolding redis_keys_good_def by blast
  from get have "redis_key_get_by_id (fst e) (snd e') i s' = Inr (Some k)" by (simp add: redis_key_ops_def st)
  note read = redis_kv_laws.key_by_id [OF laws refl this]
  from redis_kv_laws.key_modify [OF laws refl refl, of "snd e" _ _ i s u s'] rev
  show "ak_is_revoked k" using read live_later [OF _ later] json
    by (fastforce simp: redis_key_ops_def live_upd)
next
  fix e e' :: "'r redis_api_keys \<times> nat" and now i s u s' now' r
  assume good: "redis_keys_good e e'" and del: "ko_delete (redis_key_ops (fst e) (snd e)) now i s = (Inr u, s')"
    and get: "ko_get_by_id (redis_key_ops (fst e') (snd e')) now' i s' = Inr r"
  from good obtain view sview where laws: "redis_kv_laws (ra_pool (fst e)) view (ra_sets (fst e)) sview (ra_kv (fst e))"
    and st: "fst e' = fst e" and later: "snd e \<le> snd e'" unfolding redis_keys_good_def by blast
  from get have "redis_key_get_by_id (fst e) (snd e') i s' = Inr r" by (simp add: redis_key_ops_def st)
  note read = redis_kv_laws.key_by_id [OF laws refl this]
  from redis_kv_laws.key_delete [OF laws refl refl, of "snd e" i s u s'] del
  have "live (snd e) (view s') (api_id_key (fst e) i) = None"
    by (auto simp: redis_key_ops_def live_def)
  then show "r = None" using read live_later [OF _ later] by fastforce
qed

text \<open>
  C19: a key that was issued is found again, in each of the three backends. A generated key has a lookup
  prefix: the generator's prefix and eight characters. When a record with that prefix and the key's
  hash was created, presenting the key afterwards returns that record, with its scopes, its rate limit (also
  one that is negative in the signed column) and its revocation, unless the storage reports a failure.
\<close>

theorem issued_key_found:
  assumes "argon2_phc ar" and "generate ar salt bytes g = Some (key, hash)" and "length bytes = 24"
    and "ak_prefix k = gn_prefix g @ ''_'' @ take 8 (base32_encode bytes)" and "ak_key_hash k = hash"
  shows "key_prefix_for_lookup key = Some (Some (ak_prefix k)) \<and>
    (pg_keys_good env env' \<longrightarrow> pg_key_create env k t = (Inr (), t') \<longrightarrow> get_by_key ar (pg_key_ops env') now key t' = Some (Inr r)
      \<longrightarrow> (\<exists>k'. r = Some k' \<and> same_key k k')) \<and>
    (turso_keys_good tenv tenv' \<longrightarrow> turso_key_create tenv k w = (Inr (), w') \<longrightarrow> get_by_key ar (turso_key_ops tenv') now key w' = Some (Inr r)
      \<longrightarrow> (\<exists>k'. r = Some k' \<and> same_key k k')) \<and>
    (redis_keys_good (st, ms) (st, ms') \<longrightarrow> redis_key_create st ms k s = (Inr (), s') \<longrightarrow> get_by_key ar (redis_key_ops st ms') now key s' = Some (Inr r)
      \<longrightarrow> (\<exists>k'. r = Some k' \<and> same_key k k'))"
proof -
  have "key = gn_prefix g @ ''_'' @ base32_encode bytes"
    using assms(2) by (auto simp: generate_def Let_def split: sum.splits)
  then have lookup: "key_prefix_for_lookup key = Some (Some (ak_prefix k))"
    using generated_lookup [of bytes "gn_prefix g"] assms(3,4) by simp
  from pg_keys.issued_found [OF _ assms(1,2) lookup assms(5), of env env' now t "()" t' now r]
    turso_keys.issued_found [OF _ assms(1,2) lookup assms(5), of tenv tenv' now w "()" w' now r]
    redis_keys.issued_found [OF _ assms(1,2) lookup assms(5), of "(st, ms)" "(st, ms')" now s "()" s' now r] lookup
  show ?thesis by (simp add: pg_key_ops_def turso_key_ops_def redis_key_ops_def)
qed

definition sample_api_env :: api_env where
  "sample_api_env =
     \<lparr>ae_fault = (\<lambda>st. None), ae_violation = ''duplicate key'', ae_timestamptz = (\<lambda>t. t),
      ae_to_json = (\<lambda>xs. Inr (JArray (map JString xs))),
      ae_of_json = (\<lambda>j. case j of JArray js \<Rightarrow> Some (map (\<lambda>x. case x of JString s \<Rightarrow> s | _ \<Rightarrow> []) js) | _ \<Rightarrow> None)\<rparr>"

definition sample_generator :: api_key_generator where
  "sample_generator = \<lparr>gn_prefix = ''sk_live'', gn_hasher = sample_hasher\<rparr>"

text \<open>A key limited to 3000000000 requests, which is negative in the signed column.\<close>

theorem issued_key_found_witness:
  "\<exists>key hash k'. generate sample_argon2 ''salt'' (replicate 24 255) sample_generator = Some (key, hash) \<and>
     get_by_key sample_argon2 (pg_key_ops sample_api_env) 1 key
       (snd (pg_key_create sample_api_env
         \<lparr>ak_id = ''1'', ak_user_id = ''u'', ak_name = ''n'', ak_prefix = ''sk_live_77777777'', ak_key_hash = hash,
          ak_scopes = [''read''], ak_rate_limit = Some 3000000000, ak_is_revoked = False, ak_last_used_at = None,
          ak_expires_at = None, ak_created_at = 0\<rparr> [])) = Some (Inr (Some k')) \<and>
     ak_scopes k' = [''read''] \<and> ak_rate_limit k' = Some 3000000000"
proof -
  have enc: "take 8 (base32_encode (replicate 24 255)) = ''77777777''" by code_simp
  obtain key hash where g: "generate sample_argon2 ''salt'' (replicate 24 255) sample_generator = Some (key, hash)"
    by (simp add: generate_def password_hash_def sample_argon2_def sample_generator_def sample_hasher_def Let_def)
  let ?k = "\<lparr>ak_id = ''1'', ak_user_id = ''u'', ak_name = ''n'', ak_prefix = ''sk_live_77777777'', ak_key_hash = hash,
     ak_scopes = [''read''], ak_rate_limit = Some 3000000000, ak_is_revoked = False, ak_last_used_at = None,
     ak_expires_at = None, ak_created_at = 0\<rparr>"
  let ?t = "snd (pg_key_create sample_api_env ?k [])"
  have new: "pg_key_create sample_api_env ?k [] = (Inr (), ?t)" by (simp add: pg_key_create_def sample_api_env_def)
  have good: "pg_keys_good sample_api_env sample_api_env" by (auto simp: pg_keys_good_def sample_api_env_def o_def)
  have "ak_prefix ?k = gn_prefix sample_generator @ ''_'' @ take 8 (base32_encode (replicate 24 255))"
    unfolding enc by (simp add: sample_generator_def)
  note found = issued_key_found [OF sample_argon2_phc g length_replicate this api_key.select_convs(5)]
  from conjunct1 [OF found] have lookup: "key_prefix_for_lookup key = Some (Some ''sk_live_77777777'')" by simp
  have "password_verify sample_argon2 key hash = Inr True"
    using g by (intro password_hash_verifies [OF sample_argon2_phc]) (auto simp: generate_def Let_def split: sum.splits)
  with lookup obtain r where get: "get_by_key sample_argon2 (pg_key_ops sample_api_env) 1 key ?t = Some (Inr r)"
    by (simp add: get_by_key_def pg_key_ops_def pg_key_get_def pg_key_create_def sample_api_env_def api_key_of_row_def api_key_verify_def)
  from conjunct1 [OF conjunct2 [OF found], rule_format, OF good new get]
  obtain k' where "r = Some k'" "same_key ?k k'" by blast
  with g get show ?thesis by (intro exI [of _ key] exI [of _ hash] exI [of _ k']) (simp add: same_key_def)
qed

subsection \<open>Two keys with one lookup prefix\<close>

lemma redis_collision:
  assumes "redis_kv_laws R view S sview K" and "ra_pool st = R" and "ra_sets st = S" and "ra_kv st = K"
    and "\<forall>k j. ra_json st k = Inr j \<longrightarrow> ra_parse st j = Inr k"
    and "redis_key_create st ms k1 s = (Inr (), s1)" and "redis_key_create st ms k2 s1 = (Inr (), s2)"
    and "ak_prefix k2 = ak_prefix k1" and "ak_id k2 \<noteq> ak_id k1" and "redis_key_delete st ms (ak_id k1) s2 = (Inr (), s3)"
  shows "live t (view s3) (api_prefix_key st (ak_prefix k2)) = None"
    and "\<exists>j. live t (view s3) (api_id_key st (ak_id k2)) = Some (j, None) \<and> ra_parse st j = Inr k2"
proof -
  obtain j1 where j1: "ra_json st k1 = Inr j1" and v1: "view s1 =
      (view s)(api_id_key st (ak_id k1) \<mapsto> (j1, None), api_prefix_key st (ak_prefix k1) \<mapsto> (ak_id k1, None))"
    using redis_kv_laws.key_create [OF assms(1,3,4,6)] by blast
  obtain j2 where j2: "ra_json st k2 = Inr j2" and v2: "view s2 =
      (view s1)(api_id_key st (ak_id k2) \<mapsto> (j2, None), api_prefix_key st (ak_prefix k1) \<mapsto> (ak_id k2, None))"
    using redis_kv_laws.key_create [OF assms(1,3,4,7)] assms(8) by auto
  have "view s3 = (\<lambda>x. if x = api_id_key st (ak_id k1) \<or> x = api_prefix_key st (ak_prefix k1) then None else view s2 x)"
    using redis_kv_laws.key_delete [OF assms(1,2,4,10)] assms(5,9) j1 by (auto simp: v2 v1 live_upd)
  then show "live t (view s3) (api_prefix_key st (ak_prefix k2)) = None"
    "\<exists>j. live t (view s3) (api_id_key st (ak_id k2)) = Some (j, None) \<and> ra_parse st j = Inr k2"
    using assms(5,8,9) j2 by (auto simp: live_def v2)
qed

text \<open>
  In Redis a second key with the same lookup prefix is accepted (the SQL tables refuse it), takes the prefix
  over, and is lost when the first one is deleted: deleting the first removes the shared prefix
  entry, so the second key is still stored under its identifier but presenting it finds nothing.
\<close>

theorem redis_delete_hides_other_key:
  assumes "redis_kv_laws R view S sview K" and "ra_pool st = R" and "ra_sets st = S" and "ra_kv st = K"
    and "\<forall>k j. ra_json st k = Inr j \<longrightarrow> ra_parse st j = Inr k"
    and "redis_key_create st ms k1 s = (Inr (), s1)" and "redis_key_create st ms k2 s1 = (Inr (), s2)"
    and "ak_prefix k2 = ak_prefix k1" and "ak_id k2 \<noteq> ak_id k1" and "redis_key_delete st ms (ak_id k1) s2 = (Inr (), s3)"
    and "key_prefix_for_lookup key = Some (Some (ak_prefix k2))"
    and "get_by_key ar (redis_key_ops st t) now key s3 = Some (Inr r)" and "redis_key_get_by_id st t (ak_id k2) s3 = Inr r'"
  shows "r = None \<and> r' = Some k2"
proof
  note gone = redis_collision [OF assms(1-10), of t]
  obtain p where p: "redis_key_get_by_prefix st t (ak_prefix k2) s3 = Inr p"
    using assms(11,12) by (auto simp: get_by_key_def redis_key_ops_def split: sum.splits)
  from redis_kv_laws.key_by_prefix [OF assms(1,2) p] gone(1) have "p = None" by simp
  with p assms(11,12) show "r = None" by (simp add: get_by_key_def redis_key_ops_def)
  from redis_kv_laws.key_by_id [OF assms(1,2,13)] gone(2) show "r' = Some k2" by auto
qed

definition sample_key :: "string \<Rightarrow> api_key" where
  "sample_key i = \<lparr>ak_id = i, ak_user_id = ''u'', ak_name = i, ak_prefix = ''sk_abcdefgh'', ak_key_hash = [], ak_scopes = [],
     ak_rate_limit = None, ak_is_revoked = False, ak_last_used_at = None, ak_expires_at = None, ak_created_at = 0\<rparr>"

definition sample_redis_keys :: "mem_state redis_api_keys" where
  "sample_redis_keys =
     \<lparr>ra_pool = mem2_redis, ra_sets = mem2_sets, ra_kv = mem2_kv, ra_key_prefix = ''api_key'',
      ra_json = (\<lambda>k. if k = sample_key (ak_id k) then Inr (ak_id k) else Inl ''unsupported''),
      ra_parse = (\<lambda>j. Inr (sample_key j))\<rparr>"

lemmas sample_redis_key_simps =
  sample_redis_keys_def mem2_redis_def mem_redis_def mem2_sets_def mem2_kv_def mem_live_list_def live_def
  redis_key_create_def redis_key_delete_def redis_key_get_by_id_def redis_key_get_by_prefix_def api_connected_def then_do_def
  api_id_key_def api_prefix_key_def api_user_key_def sample_key_def

theorem redis_delete_hides_other_key_witness:
  "\<exists>s s'. redis_key_create sample_redis_keys 0 (sample_key ''2'')
        (snd (redis_key_create sample_redis_keys 0 (sample_key ''1'') (Map.empty, Map.empty))) = (Inr (), s) \<and>
     redis_key_delete sample_redis_keys 0 ''1'' s = (Inr (), s') \<and>
     get_by_key sample_argon2 (redis_key_ops sample_redis_keys 1) 0 ''sk_abcdefghijk'' s' = Some (Inr None) \<and>
     redis_key_get_by_id sample_redis_keys 1 ''2'' s' = Inr (Some (sample_key ''2''))"
proof -
  let ?st = sample_redis_keys
  let ?s1 = "snd (redis_key_create ?st 0 (sample_key ''1'') (Map.empty, Map.empty))"
  let ?s2 = "snd (redis_key_create ?st 0 (sample_key ''2'') ?s1)"
  let ?s3 = "snd (redis_key_delete ?st 0 ''1'' ?s2)"
  have c1: "redis_key_create ?st 0 (sample_key ''1'') (Map.empty, Map.empty) = (Inr (), ?s1)"
    and c2: "redis_key_create ?st 0 (sample_key ''2'') ?s1 = (Inr (), ?s2)"
    and d: "redis_key_delete ?st 0 (ak_id (sample_key ''1'')) ?s2 = (Inr (), ?s3)"
    by (simp_all add: sample_redis_key_simps)
  have lookup: "key_prefix_for_lookup ''sk_abcdefghijk'' = Some (Some (ak_prefix (sample_key ''2'')))" by code_simp
  obtain r' where g: "redis_key_get_by_id ?st 1 (ak_id (sample_key ''2'')) ?s3 = Inr r'"
    by (simp add: sample_redis_key_simps)
  have "redis_key_get_by_prefix ?st 1 ''sk_abcdefgh'' ?s3 = Inr None"
    by (simp add: sample_redis_key_simps)
  then have k: "get_by_key sample_argon2 (redis_key_ops ?st 1) 0 ''sk_abcdefghijk'' ?s3 = Some (Inr None)"
    using lookup by (simp add: get_by_key_def redis_key_ops_def sample_key_def)
  have st: "ra_pool ?st = mem2_redis" "ra_sets ?st = mem2_sets" "ra_kv ?st = mem2_kv" by (simp_all add: sample_redis_keys_def)
  have "ra_json ?st k = (if k = sample_key (ak_id k) then Inr (ak_id k) else Inl ''unsupported'')" "ra_parse ?st j = Inr (sample_key j)"
    for k j by (simp_all add: sample_redis_keys_def)
  then have json: "\<forall>k j. ra_json ?st k = Inr j \<longrightarrow> ra_parse ?st j = Inr k" by (metis Inl_Inr_False sum.inject(2))
  have "ak_prefix (sample_key ''2'') = ak_prefix (sample_key ''1'')" "ak_id (sample_key ''2'') \<noteq> ak_id (sample_key ''1'')"
    by (simp_all add: sample_key_def)
  from redis_delete_hides_other_key [OF mem2k.redis_kv_laws_axioms st json c1 c2 this d lookup k g]
  have "r' = Some (sample_key ''2'')" by (rule conjunct2)
  moreover have "ak_id (sample_key i) = i" for i by (simp add: sample_key_def)
  ultimately show ?thesis using c2 d k g by metis
qed

text \<open>Turso writes the time of last use in a format that its own reader rejects, so it is never reported.\<close>

lemma turso_last_used_unreadable:
  assumes "ke_parse_rfc3339 env (ke_datetime env now) = None"
    and "ko_update_last_used (turso_key_ops env) now i t = (Inr u, t')"
    and "ko_get_by_id (turso_key_ops env) now' i t' = Inr (Some k)"
  shows "ak_last_used_at k = None"
proof -
  have used: "row \<in> set (map (\<lambda>r. if kw_id r = i then r\<lparr>kw_last_used_at := Some (ke_datetime env now)\<rparr> else r) t) \<Longrightarrow>
      kw_id row = i \<Longrightarrow> kw_last_used_at row = Some (ke_datetime env now)" for row
    by (induction t) (simp_all split: if_splits, force+)
  obtain row where "row \<in> set (map (\<lambda>r. if kw_id r = i then r\<lparr>kw_last_used_at := Some (ke_datetime env now)\<rparr> else r) t)"
      "kw_id row = i" "k = parse_api_key_row env now' row"
    using assms(2,3) by (auto simp: turso_key_ops_def turso_key_update_def turso_key_get_def split: option.splits dest: find_in_set)
  with used [OF this(1,2)] show ?thesis using assms(1) by (simp only: parse_api_key_row_def api_key.simps bind.bind_lunit)
qed

end
