(* ===== verification/Audit_Decorators.thy ===== *)
theory Audit_Decorators
  imports Api_Keys
begin

text \<open>
  The storage decorators (\<^verbatim>\<open>src/acton-service/src/audit/decorators.rs\<close>) that put refresh-token
  rotations, API-key changes and OAuth code exchanges into the audit trail. A decorated operation returns
  the result and the state of the inner one and the events it hands to the logger; operations the
  decorators only forward have no definition. Objects list their members by name.
\<close>

definition subject_source :: "string option \<Rightarrow> audit_source" where
  "subject_source subject = \<lparr>src_ip = None, src_user_agent = None, src_subject = subject, src_request_id = None\<rparr>"

definition emit ::
  "audit_logger \<Rightarrow> stamp \<Rightarrow> audit_event_kind \<Rightarrow> audit_severity \<Rightarrow> audit_source \<Rightarrow> json \<Rightarrow> audit_event list" where
  "emit logger stamp kind severity source metadata =
     (if \<not> ac_audit_auth_events (lg_config logger) then []
      else [with_metadata (with_source (audit_event_new (fst stamp) (snd stamp) kind severity (lg_service_name logger)) source) metadata])"

definition audited_rotate ::
  "audit_logger \<Rightarrow> stamp \<Rightarrow> 's refresh_ops \<Rightarrow> datetime \<Rightarrow> string \<Rightarrow> string \<Rightarrow> string \<Rightarrow> string \<Rightarrow> datetime \<Rightarrow>
     refresh_token_metadata \<Rightarrow> 's \<Rightarrow> (error + unit) \<times> 's \<times> audit_event list" where
  "audited_rotate logger stamp inner now old_token_id new_token_id user_id family_id expires_at metadata s =
     (case fo_rotate inner now old_token_id new_token_id user_id family_id expires_at metadata s of
        (Inl e, s') \<Rightarrow> (Inl e, s', [])
      | (Inr _, s') \<Rightarrow>
          (Inr (), s', emit logger stamp AuthTokenRefresh Notice
             \<lparr>src_ip = rm_ip_address metadata, src_user_agent = rm_user_agent metadata, src_subject = Some user_id,
              src_request_id = None\<rparr>
             (JObject [(''family_id'', JString family_id), (''new_token_id'', JString new_token_id),
                (''old_token_id'', JString old_token_id)])))"

definition audited_create ::
  "audit_logger \<Rightarrow> stamp \<Rightarrow> 's api_key_ops \<Rightarrow> datetime \<Rightarrow> api_key \<Rightarrow> 's \<Rightarrow> (error + unit) \<times> 's \<times> audit_event list" where
  "audited_create logger stamp inner now key s =
     (case ko_create inner now key s of
        (Inl e, s') \<Rightarrow> (Inl e, s', [])
      | (Inr _, s') \<Rightarrow>
          (Inr (), s', emit logger stamp AuthApiKeyCreated Notice (subject_source (Some (ak_user_id key)))
             (JObject [(''key_id'', JString (ak_id key)), (''name'', JString (ak_name key)),
                (''prefix'', JString (ak_prefix key)), (''scopes'', JArray (map JString (ak_scopes key)))])))"

definition audited_revoke ::
  "audit_logger \<Rightarrow> stamp \<Rightarrow> 's api_key_ops \<Rightarrow> datetime \<Rightarrow> string \<Rightarrow> 's \<Rightarrow> (error + unit) \<times> 's \<times> audit_event list" where
  "audited_revoke logger stamp inner now i s =
     (case ko_revoke inner now i s of
        (Inl e, s') \<Rightarrow> (Inl e, s', [])
      | (Inr _, s') \<Rightarrow>
          (Inr (), s', emit logger stamp AuthApiKeyRevoked Notice (subject_source None) (JObject [(''key_id'', JString i)])))"

text \<open>The provider's exchange is an argument; its failure is logged too.\<close>

definition audited_exchange_code ::
  "audit_logger \<Rightarrow> stamp \<Rightarrow> string \<Rightarrow> (string \<Rightarrow> 's \<Rightarrow> (error + 't) \<times> 's) \<Rightarrow> string \<Rightarrow> 's \<Rightarrow> (error + 't) \<times> 's \<times> audit_event list" where
  "audited_exchange_code logger stamp provider exchange_code code s =
     (case exchange_code code s of
        (Inr tokens, s') \<Rightarrow> (Inr tokens, s', emit logger stamp AuthOAuthCallback Notice (subject_source None)
           (JObject [(''outcome'', JString ''success''), (''provider'', JString provider)]))
      | (Inl e, s') \<Rightarrow> (Inl e, s', emit logger stamp AuthOAuthCallback Warning (subject_source None)
           (JObject [(''error'', JString (error_display e)), (''outcome'', JString ''failure''), (''provider'', JString provider)])))"

text \<open>
  The decorators only observe: results and states are those of the inner storage, and with auditing of
  authentication events on there is one event for every successful change and for every code exchange.
\<close>

lemma audited_rotate_observes:
  "(case audited_rotate logger stamp inner now old_id new_id u f exp m s of (r, s', es) \<Rightarrow>
     (r, s') = fo_rotate inner now old_id new_id u f exp m s \<and>
     length es = of_bool (ac_audit_auth_events (lg_config logger) \<and> is_ok r))"
  by (auto simp: audited_rotate_def emit_def split: prod.splits sum.splits)

lemma audited_keys_observe:
  "(case audited_create logger stamp inner now k s of (r, s', es) \<Rightarrow>
     (r, s') = ko_create inner now k s \<and> length es = of_bool (ac_audit_auth_events (lg_config logger) \<and> is_ok r))"
  "(case audited_revoke logger stamp inner now i s of (r, s', es) \<Rightarrow>
     (r, s') = ko_revoke inner now i s \<and> length es = of_bool (ac_audit_auth_events (lg_config logger) \<and> is_ok r))"
  by (auto simp: audited_create_def audited_revoke_def emit_def split: prod.splits sum.splits)

lemma audited_exchange_observes:
  "(case audited_exchange_code logger stamp provider ex code s of (r, s', es) \<Rightarrow> (r, s') = ex code s \<and>
     map ev_severity es = (if \<not> ac_audit_auth_events (lg_config logger) then [] else if is_ok r then [Notice] else [Warning]))"
  by (auto simp: audited_exchange_code_def emit_def audit_event_defs split: prod.splits sum.splits)

end
