(* ===== verification/Background_Worker.thy ===== *)
theory Background_Worker
  imports Prelude "HOL-Library.AList" "HOL-Library.Multiset"
begin

text \<open>
  The background task agent (\<^verbatim>\<open>src/acton-service/src/agents/background_worker.rs\<close> with the messages
  of \<^verbatim>\<open>agents/messages.rs\<close>): its handlers as functions of its state, and the whole system of callers,
  spawned tasks, mailbox and agent as a step relation. Mailboxes are first in, first out and handlers
  run one at a time, as the actor runtime documents. The work of a task is any choice of outcome; a
  hash map is an association list in any order.
\<close>

subsection \<open>Data\<close>

datatype task_status = Pending | Running | Completed | Failed string | Cancelled

fun is_terminal :: "task_status \<Rightarrow> bool" where
  "is_terminal Completed = True"
| "is_terminal (Failed _) = True"
| "is_terminal Cancelled = True"
| "is_terminal _ = False"

type_synonym token = nat
type_synonym reply = nat

record task_record =
  tr_cancellation_token :: token
  tr_status :: task_status

datatype worker_message =
  RegisterTask string token
| TaskCompleted string task_status
| CancelTask string
| WaitForTask string reply
| GetTaskStatus string reply
| GetAllTaskStatuses reply
| CleanupFinishedTasks "reply option"

datatype worker_response =
  StatusResponse "(string \<times> task_status) option"
| AllStatuses "(string \<times> task_status) list"
| Removed nat

record worker_agent =
  wa_tasks :: "(string \<times> task_record) list"
  wa_waiters :: "string \<Rightarrow> reply list"

record worker_config =
  wc_max_concurrent_tasks :: nat
  wc_task_shutdown_timeout_secs :: u64
  wc_cleanup_interval_secs :: u64

definition default_worker_config :: worker_config where
  "default_worker_config = \<lparr>wc_max_concurrent_tasks = 0, wc_task_shutdown_timeout_secs = 5, wc_cleanup_interval_secs = 0\<rparr>"

subsection \<open>The handlers\<close>

text \<open>A handler gives the next state, the replies it sends and the tokens it cancels.\<close>

type_synonym handled = "worker_agent \<times> (reply \<times> worker_response) list \<times> token list"

definition on_register_task :: "string \<Rightarrow> token \<Rightarrow> worker_agent \<Rightarrow> handled" where
  "on_register_task task_id tok a =
     (a\<lparr>wa_tasks := AList.update task_id \<lparr>tr_cancellation_token = tok, tr_status = Running\<rparr> (wa_tasks a)\<rparr>, [], [])"

definition on_task_completed :: "string \<Rightarrow> task_status \<Rightarrow> worker_agent \<Rightarrow> handled" where
  "on_task_completed task_id status a =
     (a\<lparr>wa_tasks := AList.map_entry task_id (\<lambda>r. r\<lparr>tr_status := status\<rparr>) (wa_tasks a),
        wa_waiters := (wa_waiters a)(task_id := [])\<rparr>,
      map (\<lambda>w. (w, StatusResponse (Some (task_id, status)))) (wa_waiters a task_id), [])"

definition on_cancel_task :: "string \<Rightarrow> worker_agent \<Rightarrow> handled" where
  "on_cancel_task task_id a =
     (a, [], case map_of (wa_tasks a) task_id of Some r \<Rightarrow> [tr_cancellation_token r] | None \<Rightarrow> [])"

definition on_wait_for_task :: "string \<Rightarrow> reply \<Rightarrow> worker_agent \<Rightarrow> handled" where
  "on_wait_for_task task_id w a =
     (case map_of (wa_tasks a) task_id of
        None \<Rightarrow> (a, [(w, StatusResponse None)], [])
      | Some r \<Rightarrow>
          if is_terminal (tr_status r) then (a, [(w, StatusResponse (Some (task_id, tr_status r)))], [])
          else (a\<lparr>wa_waiters := (wa_waiters a)(task_id := wa_waiters a task_id @ [w])\<rparr>, [], []))"

definition on_get_task_status :: "string \<Rightarrow> reply \<Rightarrow> worker_agent \<Rightarrow> handled" where
  "on_get_task_status task_id w a =
     (a, [(w, StatusResponse (map_option (\<lambda>r. (task_id, tr_status r)) (map_of (wa_tasks a) task_id)))], [])"

definition on_get_all_task_statuses :: "reply \<Rightarrow> worker_agent \<Rightarrow> handled" where
  "on_get_all_task_statuses w a = (a, [(w, AllStatuses (map (\<lambda>(i, r). (i, tr_status r)) (wa_tasks a)))], [])"

definition on_cleanup :: "reply option \<Rightarrow> worker_agent \<Rightarrow> handled" where
  "on_cleanup w a =
     (let before = length (wa_tasks a);
          kept = filter (\<lambda>(i, r). \<not> is_terminal (tr_status r)) (wa_tasks a)
      in (a\<lparr>wa_tasks := kept\<rparr>, case w of Some w \<Rightarrow> [(w, Removed (before - length kept))] | None \<Rightarrow> [], []))"

fun on_message :: "worker_message \<Rightarrow> worker_agent \<Rightarrow> handled" where
  "on_message (RegisterTask i tok) a = on_register_task i tok a"
| "on_message (TaskCompleted i st) a = on_task_completed i st a"
| "on_message (CancelTask i) a = on_cancel_task i a"
| "on_message (WaitForTask i w) a = on_wait_for_task i w a"
| "on_message (GetTaskStatus i w) a = on_get_task_status i w a"
| "on_message (GetAllTaskStatuses w) a = on_get_all_task_statuses w a"
| "on_message (CleanupFinishedTasks w) a = on_cleanup w a"

lemmas worker_handlers =
  on_register_task_def on_task_completed_def on_cancel_task_def on_wait_for_task_def on_get_task_status_def
  on_get_all_task_statuses_def on_cleanup_def

subsection \<open>The system\<close>

text \<open>
  \<open>ws_submitting\<close> are the submissions that have sent their registration and not yet spawned their task,
  \<open>ws_active\<close> the spawned tasks with their outcome once the select has decided it, \<open>ws_free\<close> the free permits
  of the semaphore when there is one. \<open>ws_sent\<close> and \<open>ws_lost\<close> record the replies sent and the tasks
  whose work panicked.
\<close>

record worker_system =
  ws_agent :: worker_agent
  ws_mailbox :: "worker_message list"
  ws_submitting :: "(string \<times> token) list"
  ws_active :: "(string \<times> token \<times> task_status option) list"
  ws_free :: "nat option"
  ws_cancelled :: "token list"
  ws_root_cancelled :: bool
  ws_stopped :: bool
  ws_next_token :: token
  ws_sent :: "(reply \<times> worker_response) list"
  ws_lost :: "string list"

definition worker_spawn :: "worker_config \<Rightarrow> worker_system" where
  "worker_spawn config =
     \<lparr>ws_agent = \<lparr>wa_tasks = [], wa_waiters = (\<lambda>i. [])\<rparr>, ws_mailbox = [], ws_submitting = [], ws_active = [],
      ws_free = (if 0 < wc_max_concurrent_tasks config then Some (wc_max_concurrent_tasks config) else None),
      ws_cancelled = [], ws_root_cancelled = False, ws_stopped = False, ws_next_token = 0, ws_sent = [], ws_lost = []\<rparr>"

definition token_cancelled :: "worker_system \<Rightarrow> token \<Rightarrow> bool" where
  "token_cancelled s tok \<longleftrightarrow> ws_root_cancelled s \<or> tok \<in> set (ws_cancelled s)"

definition permit_free :: "worker_system \<Rightarrow> bool" where
  "permit_free s = (case ws_free s of None \<Rightarrow> True | Some n \<Rightarrow> 0 < n)"

definition submit_register :: "string \<Rightarrow> worker_system \<Rightarrow> worker_system" where
  "submit_register task_id s =
     s\<lparr>ws_free := map_option (\<lambda>n. n - 1) (ws_free s), ws_next_token := ws_next_token s + 1,
       ws_mailbox := ws_mailbox s @ [RegisterTask task_id (ws_next_token s)],
       ws_submitting := (task_id, ws_next_token s) # ws_submitting s\<rparr>"

definition submit_spawn :: "string \<Rightarrow> token \<Rightarrow> worker_system \<Rightarrow> worker_system" where
  "submit_spawn task_id tok s =
     s\<lparr>ws_submitting := remove1 (task_id, tok) (ws_submitting s), ws_active := (task_id, tok, None) # ws_active s\<rparr>"

text \<open>The select is biased: a cancelled token is seen before the work's result.\<close>

definition outcome_ok :: "worker_system \<Rightarrow> token \<Rightarrow> task_status \<Rightarrow> bool" where
  "outcome_ok s tok st =
     (if token_cancelled s tok then st = Cancelled
      else case st of Completed \<Rightarrow> True | Failed _ \<Rightarrow> True | _ \<Rightarrow> False)"

definition task_decide :: "string \<Rightarrow> token \<Rightarrow> task_status \<Rightarrow> worker_system \<Rightarrow> worker_system" where
  "task_decide i tok st s = s\<lparr>ws_active := (i, tok, Some st) # remove1 (i, tok, None) (ws_active s)\<rparr>"

definition task_report :: "string \<Rightarrow> token \<Rightarrow> task_status \<Rightarrow> worker_system \<Rightarrow> worker_system" where
  "task_report i tok st s =
     s\<lparr>ws_active := remove1 (i, tok, Some st) (ws_active s), ws_mailbox := ws_mailbox s @ [TaskCompleted i st],
       ws_free := map_option Suc (ws_free s)\<rparr>"

text \<open>A panic unwinds the spawned task: its permit is dropped and nothing is reported.\<close>

definition task_panic :: "string \<Rightarrow> token \<Rightarrow> worker_system \<Rightarrow> worker_system" where
  "task_panic i tok s =
     s\<lparr>ws_active := remove1 (i, tok, None) (ws_active s), ws_free := map_option Suc (ws_free s), ws_lost := i # ws_lost s\<rparr>"

definition agent_turn :: "worker_system \<Rightarrow> worker_system" where
  "agent_turn s =
     (case ws_mailbox s of
        [] \<Rightarrow> s
      | m # ms \<Rightarrow>
          (case on_message m (ws_agent s) of
             (a, replies, toks) \<Rightarrow>
               s\<lparr>ws_agent := a, ws_mailbox := ms, ws_sent := ws_sent s @ replies, ws_cancelled := toks @ ws_cancelled s\<rparr>))"

text \<open>Stopping cancels the root token unless nothing is tracked; the message loop no longer runs then.\<close>

definition before_stop :: "worker_system \<Rightarrow> worker_system" where
  "before_stop s =
     (if wa_tasks (ws_agent s) = [] \<and> ws_active s = [] then s\<lparr>ws_stopped := True\<rparr>
      else s\<lparr>ws_stopped := True, ws_root_cancelled := True\<rparr>)"

text \<open>The messages callers send: \<^verbatim>\<open>cancel\<close> sends two of them, the periodic cleanup one without a reply.\<close>

fun client_message :: "worker_message \<Rightarrow> bool" where
  "client_message (RegisterTask _ _) = False"
| "client_message (TaskCompleted _ _) = False"
| "client_message _ = True"

text \<open>The steps the system makes by itself.\<close>

inductive internal_step :: "worker_system \<Rightarrow> worker_system \<Rightarrow> bool" where
  spawn: "(i, tok) \<in> set (ws_submitting s) \<Longrightarrow> internal_step s (submit_spawn i tok s)"
| decide: "(i, tok, None) \<in> set (ws_active s) \<Longrightarrow> outcome_ok s tok st \<Longrightarrow> internal_step s (task_decide i tok st s)"
| report: "(i, tok, Some st) \<in> set (ws_active s) \<Longrightarrow> internal_step s (task_report i tok st s)"
| turn: "ws_mailbox s \<noteq> [] \<Longrightarrow> \<not> ws_stopped s \<Longrightarrow> internal_step s (agent_turn s)"

inductive worker_step :: "worker_system \<Rightarrow> worker_system \<Rightarrow> bool" where
  internal: "internal_step s s' \<Longrightarrow> worker_step s s'"
| submit: "permit_free s \<Longrightarrow> worker_step s (submit_register i s)"
| client: "client_message m \<Longrightarrow> worker_step s (s\<lparr>ws_mailbox := ws_mailbox s @ [m]\<rparr>)"
| panic: "(i, tok, None) \<in> set (ws_active s) \<Longrightarrow> worker_step s (task_panic i tok s)"
| stop: "\<not> ws_stopped s \<Longrightarrow> worker_step s (before_stop s)"

inductive worker_reachable :: "worker_config \<Rightarrow> worker_system \<Rightarrow> bool" for config where
  start: "worker_reachable config (worker_spawn config)"
| next_state: "worker_reachable config s \<Longrightarrow> worker_step s s' \<Longrightarrow> worker_reachable config s'"

inductive_cases internal_stepE: "internal_step s s'"
inductive_cases worker_stepE: "worker_step s s'"

subsection \<open>Invariants\<close>

definition alive :: "worker_system \<Rightarrow> string \<Rightarrow> bool" where
  "alive s i \<longleftrightarrow> i \<in> fst ` set (ws_submitting s) \<or> i \<in> fst ` set (ws_active s) \<or> i \<in> set (ws_lost s)"

definition completes :: "string \<Rightarrow> worker_message list \<Rightarrow> bool" where
  "completes i ms \<longleftrightarrow> (\<exists>st. TaskCompleted i st \<in> set ms)"

text \<open>Every registration in the mailbox is followed by a completion, unless its task is still to report.\<close>

fun covered :: "(string \<Rightarrow> bool) \<Rightarrow> worker_message list \<Rightarrow> bool" where
  "covered A [] = True"
| "covered A (RegisterTask i tok # ms) = ((A i \<or> completes i ms) \<and> covered A ms)"
| "covered A (_ # ms) = covered A ms"

definition terminal_reports :: "worker_system \<Rightarrow> bool" where
  "terminal_reports s \<longleftrightarrow> (\<forall>i st. TaskCompleted i st \<in> set (ws_mailbox s) \<longrightarrow> is_terminal st)
     \<and> (\<forall>i tok st. (i, tok, Some st) \<in> set (ws_active s) \<longrightarrow> is_terminal st)"

definition unfinished :: "worker_agent \<Rightarrow> string \<Rightarrow> bool" where
  "unfinished a i = (case map_of (wa_tasks a) i of Some r \<Rightarrow> \<not> is_terminal (tr_status r) | None \<Rightarrow> False)"

definition worker_inv :: "worker_system \<Rightarrow> bool" where
  "worker_inv s \<longleftrightarrow>
     distinct (map fst (wa_tasks (ws_agent s))) \<and> covered (alive s) (ws_mailbox s) \<and> terminal_reports s \<and>
     (\<forall>i. unfinished (ws_agent s) i \<longrightarrow> alive s i \<or> completes i (ws_mailbox s)) \<and>
     (\<forall>i. wa_waiters (ws_agent s) i \<noteq> [] \<longrightarrow> unfinished (ws_agent s) i)"

lemma completes_simps [simp]:
  "completes i [] = False" "completes i (TaskCompleted j st # ms) = (i = j \<or> completes i ms)"
  "completes i (ms @ ms') = (completes i ms \<or> completes i ms')"
  by (auto simp: completes_def)

lemma completes_other [simp]: "(\<And>j st. m \<noteq> TaskCompleted j st) \<Longrightarrow> completes i (m # ms) = completes i ms"
  by (auto simp: completes_def)

lemma covered_snoc:
  assumes "covered A ms" and "\<And>j. A j \<Longrightarrow> B j \<or> completes j [m]" and "\<And>j tok. m = RegisterTask j tok \<Longrightarrow> B j"
  shows "covered B (ms @ [m])"
  using assms(1)
proof (induction ms)
  case Nil
  then show ?case using assms(3) by (cases m) auto
next
  case (Cons x ms)
  then show ?case using assms(2) by (cases x) auto
qed

lemma covered_mono: "covered A ms \<Longrightarrow> (\<And>j. A j \<Longrightarrow> B j) \<Longrightarrow> covered B ms"
  by (induction A ms rule: covered.induct) auto

lemma covered_tl: "covered A (m # ms) \<Longrightarrow> covered A ms"
  by (cases m) auto

text \<open>Steps outside the agent: they change the mailbox at its end and who is alive.\<close>

lemma worker_inv_outside:
  assumes "worker_inv s" and "ws_agent s' = ws_agent s" and "ws_mailbox s' = ws_mailbox s @ ms" and "terminal_reports s'"
    and "length ms \<le> 1" and "\<And>j. alive s j \<Longrightarrow> alive s' j \<or> completes j ms" and "\<And>j tok. RegisterTask j tok \<in> set ms \<Longrightarrow> alive s' j"
  shows "worker_inv s'"
proof -
  have "covered (alive s) (ws_mailbox s)" using assms(1) by (simp add: worker_inv_def)
  then have cov: "covered (alive s') (ws_mailbox s')"
  proof (cases ms)
    case Nil
    with \<open>covered (alive s) (ws_mailbox s)\<close> assms(3,6) show ?thesis by (auto intro: covered_mono)
  next
    case (Cons m ms')
    with assms(5) have ms: "ms = [m]" by simp
    show ?thesis unfolding assms(3) ms
      by (rule covered_snoc [OF \<open>covered (alive s) (ws_mailbox s)\<close>]) (use assms(6,7) ms in auto)
  qed
  have live: "alive s' i \<or> completes i (ws_mailbox s')" if "alive s i \<or> completes i (ws_mailbox s)" for i
    using that assms(3,6) by auto
  show ?thesis unfolding worker_inv_def
    using assms(1,2,4) cov live by (simp add: worker_inv_def)
qed

lemma map_of_filter_some:
  "distinct (map fst al) \<Longrightarrow> map_of (filter (\<lambda>(k, v). P v) al) k = (case map_of al k of Some v \<Rightarrow> if P v then Some v else None | None \<Rightarrow> None)"
  by (induction al) (auto split: option.splits dest: map_of_SomeD simp: image_iff)

text \<open>A turn of the agent, by the message at the head of the mailbox.\<close>

lemma map_of_map_entry: "map_of (AList.map_entry k f al) i = (if i = k then map_option f (map_of al i) else map_of al i)"
  by (induction al) auto

lemma distinct_map_entry: "map fst (AList.map_entry k f al) = map fst al"
  by (induction al) auto

lemma unfinished_simps:
  "unfinished (a\<lparr>wa_tasks := AList.update i r (wa_tasks a)\<rparr>) j = (if j = i then \<not> is_terminal (tr_status r) else unfinished a j)"
  "unfinished (a\<lparr>wa_tasks := AList.map_entry i (\<lambda>r. r\<lparr>tr_status := st\<rparr>) (wa_tasks a)\<rparr>) j =
     (if j = i then map_of (wa_tasks a) i \<noteq> None \<and> \<not> is_terminal st else unfinished a j)"
  "unfinished (a\<lparr>wa_waiters := w\<rparr>) j = unfinished a j"
  by (auto simp: unfinished_def update_conv' map_of_map_entry split: option.splits)

lemma unfinished_filter:
  "distinct (map fst (wa_tasks a)) \<Longrightarrow> unfinished (a\<lparr>wa_tasks := filter (\<lambda>(i, r). \<not> is_terminal (tr_status r)) (wa_tasks a)\<rparr>) j = unfinished a j"
  by (simp add: unfinished_def map_of_filter_some [of _ "\<lambda>r. \<not> is_terminal (tr_status r)"] split: option.splits)

lemma unfinished_Some: "map_of (wa_tasks a) i = Some r \<Longrightarrow> unfinished a i = (\<not> is_terminal (tr_status r))"
  by (simp add: unfinished_def)

lemma turn_agent:
  assumes "distinct (map fst (wa_tasks a))" and "on_message m a = (a', rs, toks)" and "\<forall>i st. m = TaskCompleted i st \<longrightarrow> is_terminal st"
    and "\<forall>i. wa_waiters a i \<noteq> [] \<longrightarrow> unfinished a i"
  shows "distinct (map fst (wa_tasks a')) \<and> (wa_waiters a' i \<noteq> [] \<longrightarrow> unfinished a' i) \<and>
    (unfinished a' i \<longrightarrow> (unfinished a i \<and> (\<forall>st. m \<noteq> TaskCompleted i st)) \<or> (\<exists>tok. m = RegisterTask i tok))"
proof (cases m)
  case (WaitForTask j w)
  then show ?thesis using assms
    by (cases "map_of (wa_tasks a) j") (auto simp del: map_of_eq_Some_iff simp: on_wait_for_task_def unfinished_simps unfinished_Some split: if_splits)
next
  case (CleanupFinishedTasks w)
  then show ?thesis using assms
    by (auto simp: on_cleanup_def Let_def unfinished_filter distinct_map_filter)
next
  case (TaskCompleted j st)
  then show ?thesis using assms
    by (auto simp: on_task_completed_def unfinished_simps distinct_map_entry split: if_splits)
qed (use assms in \<open>auto simp: on_register_task_def on_cancel_task_def on_get_task_status_def on_get_all_task_statuses_def
  unfinished_simps distinct_update\<close>)

lemma alive_turn: "alive (agent_turn s) = alive s"
  by (simp add: agent_turn_def alive_def fun_eq_iff split: list.splits prod.splits)

lemma worker_inv_turn:
  assumes "worker_inv s" and "ws_mailbox s \<noteq> []"
  shows "worker_inv (agent_turn s)"
proof -
  obtain m ms where mb: "ws_mailbox s = m # ms" using assms(2) by (cases "ws_mailbox s") auto
  obtain a rs toks where h: "on_message m (ws_agent s) = (a, rs, toks)" by (metis prod_cases3)
  have turn: "ws_agent (agent_turn s) = a" "ws_mailbox (agent_turn s) = ms" "ws_active (agent_turn s) = ws_active s"
    using mb h by (simp_all add: agent_turn_def)
  have rep: "terminal_reports (agent_turn s)" using assms(1) by (auto simp: worker_inv_def terminal_reports_def turn mb)
  have fin: "\<forall>i st. m = TaskCompleted i st \<longrightarrow> is_terminal st"
    using assms(1) by (auto simp: worker_inv_def terminal_reports_def mb)
  note agent = turn_agent [OF _ h]
  have inv: "distinct (map fst (wa_tasks (ws_agent s)))" "\<forall>i. wa_waiters (ws_agent s) i \<noteq> [] \<longrightarrow> unfinished (ws_agent s) i"
    and cov: "covered (alive s) (m # ms)"
    and live: "\<And>i. unfinished (ws_agent s) i \<Longrightarrow> alive s i \<or> completes i (m # ms)"
    using assms(1) by (simp_all add: worker_inv_def mb)
  have "alive s i \<or> completes i ms" if "unfinished a i" for i
    using agent [OF inv(1) fin inv(2), where i = i] that live [of i] cov by (auto simp: completes_def)
  with agent [OF inv(1) fin inv(2)] covered_tl [OF cov] rep show ?thesis
    by (simp add: worker_inv_def turn alive_turn)
qed

lemma worker_inv_step: "worker_inv s \<Longrightarrow> worker_step s s' \<Longrightarrow> worker_inv s'"
proof (erule worker_stepE)
  assume inv: "worker_inv s"
  then have rep: "terminal_reports s" by (simp add: worker_inv_def)
  note outside = worker_inv_outside [OF inv]
  show "internal_step s s' \<Longrightarrow> worker_inv s'"
  proof (erule internal_stepE)
    fix i tok assume "s' = submit_spawn i tok s" "(i, tok) \<in> set (ws_submitting s)"
    then show ?thesis using rep
      by (intro outside [where ms = "[]"]) (auto simp: submit_spawn_def terminal_reports_def alive_def image_iff in_set_remove1)
  next
    fix i tok st assume "s' = task_decide i tok st s" "(i, tok, None) \<in> set (ws_active s)" "outcome_ok s tok st"
    then show ?thesis using rep
      by (intro outside [where ms = "[]"])
        (auto simp: task_decide_def terminal_reports_def alive_def outcome_ok_def image_iff dest: subsetD [OF set_remove1_subset] split: if_splits task_status.splits)
  next
    fix i tok st assume "s' = task_report i tok st s" "(i, tok, Some st) \<in> set (ws_active s)"
    then show ?thesis using rep
      by (intro outside [where ms = "[TaskCompleted i st]"])
        (auto simp: task_report_def terminal_reports_def alive_def image_iff dest: subsetD [OF set_remove1_subset])
  qed (auto intro: worker_inv_turn inv)
  show "s' = submit_register i s \<Longrightarrow> worker_inv s'" for i using rep
    by (intro outside [where ms = "[RegisterTask i (ws_next_token s)]"]) (auto simp: submit_register_def terminal_reports_def alive_def)
  show "s' = s\<lparr>ws_mailbox := ws_mailbox s @ [m]\<rparr> \<Longrightarrow> client_message m \<Longrightarrow> worker_inv s'" for m using rep
    by (intro outside [where ms = "[m]"]) (auto simp: terminal_reports_def alive_def)
  show "s' = task_panic i tok s \<Longrightarrow> (i, tok, None) \<in> set (ws_active s) \<Longrightarrow> worker_inv s'" for i tok using rep
    by (intro outside [where ms = "[]"])
      (auto simp: task_panic_def terminal_reports_def alive_def image_iff dest: subsetD [OF set_remove1_subset])
  show "s' = before_stop s \<Longrightarrow> worker_inv s'" using rep
    by (intro outside [where ms = "[]"]) (auto simp: before_stop_def terminal_reports_def alive_def)
qed

lemma worker_inv_reachable: "worker_reachable config s \<Longrightarrow> worker_inv s"
proof (induction rule: worker_reachable.induct)
  case start
  show ?case by (simp add: worker_spawn_def worker_inv_def terminal_reports_def unfinished_def)
qed (rule worker_inv_step)

subsection \<open>Waiting ends\<close>

definition work_left :: "worker_system \<Rightarrow> nat" where
  "work_left s = length (ws_mailbox s) + 4 * length (ws_submitting s)
     + sum_list (map (\<lambda>(i, tok, out). if out = None then 3 else 2) (ws_active s))"

lemma sum_list_remove1:
  "x \<in> set xs \<Longrightarrow> sum_list (map f xs) = f x + sum_list (map f (remove1 x xs))" for f :: "'a \<Rightarrow> nat"
  by (induction xs) auto

lemma turn_mailbox: "ws_mailbox s = m # ms \<Longrightarrow> ws_mailbox (agent_turn s) = ms \<and> ws_submitting (agent_turn s) = ws_submitting s
    \<and> ws_active (agent_turn s) = ws_active s \<and> ws_lost (agent_turn s) = ws_lost s \<and> ws_stopped (agent_turn s) = ws_stopped s
    \<and> ws_free (agent_turn s) = ws_free s"
  by (simp add: agent_turn_def split: prod.splits)

lemma internal_decreases: "internal_step s s' \<Longrightarrow> work_left s' < work_left s"
proof (erule internal_stepE)
  fix i tok assume "s' = submit_spawn i tok s" "(i, tok) \<in> set (ws_submitting s)"
  then show ?thesis
    by (cases "length (ws_submitting s)") (auto simp: work_left_def submit_spawn_def length_remove1)
next
  fix i tok st assume "s' = task_decide i tok st s" "(i, tok, None) \<in> set (ws_active s)"
  then show ?thesis by (simp add: work_left_def task_decide_def sum_list_remove1)
next
  fix i tok st assume "s' = task_report i tok st s" "(i, tok, Some st) \<in> set (ws_active s)"
  then show ?thesis by (simp add: work_left_def task_report_def sum_list_remove1)
next
  assume "s' = agent_turn s" "ws_mailbox s \<noteq> []"
  then show ?thesis using turn_mailbox [of s] by (cases "ws_mailbox s") (auto simp: work_left_def)
qed

lemma internal_keeps: "internal_step s s' \<Longrightarrow> ws_lost s' = ws_lost s \<and> ws_stopped s' = ws_stopped s"
  by (erule internal_stepE)
    (auto simp: submit_spawn_def task_decide_def task_report_def agent_turn_def split: list.splits prod.splits)

lemma outcome_exists: "\<exists>st. outcome_ok s tok st"
  by (cases "token_cancelled s tok") (auto simp: outcome_ok_def intro: exI [of _ Completed])

lemma stuck_quiet:
  assumes "\<forall>s'. \<not> internal_step s s'" and "\<not> ws_stopped s"
  shows "ws_mailbox s = [] \<and> ws_submitting s = [] \<and> ws_active s = []"
proof (intro conjI)
  show "ws_mailbox s = []" using assms turn by blast
  show "ws_submitting s = []"
  proof (rule ccontr)
    assume "ws_submitting s \<noteq> []"
    then obtain i tok where "(i, tok) \<in> set (ws_submitting s)" by (cases "ws_submitting s") auto
    then show False using assms(1) spawn by blast
  qed
  show "ws_active s = []"
  proof (rule ccontr)
    assume "ws_active s \<noteq> []"
    then obtain i tok out where "(i, tok, out) \<in> set (ws_active s)" by (cases "ws_active s") auto
    then show False using assms(1) decide report outcome_exists [of s tok] by (cases out) blast+
  qed
qed

text \<open>A caller that waits for a task is parked, answered, or its message is still in the mailbox.\<close>

definition answered :: "string \<Rightarrow> reply \<Rightarrow> worker_system \<Rightarrow> bool" where
  "answered i w s \<longleftrightarrow> (w, StatusResponse None) \<in> set (ws_sent s) \<or>
     (\<exists>st. is_terminal st \<and> (w, StatusResponse (Some (i, st))) \<in> set (ws_sent s))"

definition waiting :: "string \<Rightarrow> reply \<Rightarrow> worker_system \<Rightarrow> bool" where
  "waiting i w s \<longleftrightarrow> w \<in> set (wa_waiters (ws_agent s) i) \<or> WaitForTask i w \<in> set (ws_mailbox s)"

lemma turn_waiting:
  assumes "worker_inv s" and "waiting i w s"
  shows "waiting i w (agent_turn s) \<or> answered i w (agent_turn s)"
proof (cases "ws_mailbox s")
  case (Cons m ms)
  then have fin: "is_terminal st" if "m = TaskCompleted j st" for j st
    using assms(1) that by (auto simp: worker_inv_def terminal_reports_def)
  obtain a rs toks where h: "on_message m (ws_agent s) = (a, rs, toks)" by (metis prod_cases3)
  have turn: "ws_agent (agent_turn s) = a" "ws_mailbox (agent_turn s) = ms" "ws_sent (agent_turn s) = ws_sent s @ rs"
    using Cons h by (simp_all add: agent_turn_def)
  have "w \<in> set (wa_waiters a i) \<or> (w, StatusResponse None) \<in> set rs \<or> (\<exists>st. is_terminal st \<and> (w, StatusResponse (Some (i, st))) \<in> set rs)"
    if "w \<in> set (wa_waiters (ws_agent s) i) \<or> m = WaitForTask i w"
    using h fin that
    by (cases m) (fastforce simp: worker_handlers Let_def simp del: map_of_eq_Some_iff split: option.splits if_splits)+
  then show ?thesis using assms(2) Cons by (auto simp: waiting_def answered_def turn)
qed (use assms in \<open>simp add: agent_turn_def\<close>)

lemma internal_waiting:
  assumes "worker_inv s" and "internal_step s s'" and "waiting i w s \<or> answered i w s"
  shows "waiting i w s' \<or> answered i w s'"
  using assms(2)
proof (rule internal_stepE)
  assume "s' = agent_turn s"
  moreover have "answered i w s \<Longrightarrow> answered i w (agent_turn s)"
    by (auto simp: answered_def agent_turn_def split: list.splits prod.splits)
  ultimately show ?thesis using turn_waiting [OF assms(1)] assms(3) by blast
qed (use assms(3) in \<open>auto simp: waiting_def answered_def submit_spawn_def task_decide_def task_report_def\<close>)

lemma internal_run:
  assumes "(internal_step ^^ m) s s'" and "worker_inv s" and "waiting i w s \<or> answered i w s"
  shows "worker_inv s' \<and> (waiting i w s' \<or> answered i w s') \<and> work_left s' + m \<le> work_left s \<and>
    ws_lost s' = ws_lost s \<and> ws_stopped s' = ws_stopped s"
  using assms
proof (induction m arbitrary: s')
  case (Suc m)
  then obtain t where "(internal_step ^^ m) s t" and step: "internal_step t s'" by auto
  with Suc have "worker_inv t \<and> (waiting i w t \<or> answered i w t) \<and> work_left t + m \<le> work_left s \<and>
    ws_lost t = ws_lost s \<and> ws_stopped t = ws_stopped s" by blast
  then show ?case
    using worker_inv_step [OF _ internal [OF step]] internal_waiting [OF _ step, of i w]
      internal_decreases [OF step] internal_keeps [OF step] by simp
qed simp

text \<open>
  C31: whoever waits for a task is answered. Left to itself, with callers sending nothing more, the worker
  comes to rest after a bounded number of steps, in every interleaving of spawning tasks, finishing
  tasks and the agent's turns; at rest every caller that asked for a task has its answer, a final
  status or that the task is unknown. The two exceptions are a worker that was stopped and a task whose work
  panicked: it never reports, its record stays running and whoever waits for it waits forever.
\<close>

theorem waiters_are_answered:
  assumes "worker_reachable config s" and "\<not> ws_stopped s" and "waiting i w s" and "i \<notin> set (ws_lost s)"
    and "(internal_step ^^ m) s s'"
  shows "m \<le> work_left s \<and> ((\<forall>t. \<not> internal_step s' t) \<longrightarrow> answered i w s')"
proof -
  from internal_run [OF assms(5) worker_inv_reachable [OF assms(1)], of i w] assms(3)
  have run: "worker_inv s'" "waiting i w s' \<or> answered i w s'" "work_left s' + m \<le> work_left s"
    "ws_lost s' = ws_lost s" "ws_stopped s' = ws_stopped s" by simp_all
  have "answered i w s'" if "\<forall>t. \<not> internal_step s' t"
  proof -
    from stuck_quiet [OF that] assms(2) run(5)
    have quiet: "ws_mailbox s' = []" "ws_submitting s' = []" "ws_active s' = []" by simp_all
    then have "wa_waiters (ws_agent s') i = []"
      using run(1,4) assms(4) by (auto simp: worker_inv_def alive_def completes_def)
    then show ?thesis using run(2) quiet by (simp add: waiting_def)
  qed
  then show ?thesis using run(3) by simp
qed

definition sample_start :: worker_system where
  "sample_start =
     (let s = submit_register ''a'' (worker_spawn default_worker_config)
      in s\<lparr>ws_mailbox := ws_mailbox s @ [WaitForTask ''a'' 7]\<rparr>)"

definition sample_end :: worker_system where
  "sample_end = agent_turn (task_report ''a'' 0 Completed (task_decide ''a'' 0 Completed
     (agent_turn (agent_turn (submit_spawn ''a'' 0 sample_start)))))"

lemmas worker_ops = submit_register_def submit_spawn_def task_decide_def task_report_def agent_turn_def

lemma sample_end_eq:
  "ws_mailbox sample_end = []" "ws_submitting sample_end = []" "ws_active sample_end = []"
  "ws_sent sample_end = [(7, StatusResponse (Some (''a'', Completed)))]"
  by (simp_all add: sample_end_def sample_start_def worker_spawn_def worker_ops worker_handlers default_worker_config_def)

theorem waiters_are_answered_witness:
  "worker_reachable default_worker_config sample_start \<and> waiting ''a'' 7 sample_start \<and> (internal_step ^^ 6) sample_start sample_end \<and>
   6 \<le> work_left sample_start \<and> answered ''a'' 7 sample_end"
proof -
  have reach: "worker_reachable default_worker_config sample_start"
    unfolding sample_start_def Let_def
    by (intro next_state [OF next_state [OF start submit] client])
      (simp_all add: worker_spawn_def default_worker_config_def permit_free_def)
  have w: "waiting ''a'' 7 sample_start" and s: "\<not> ws_stopped sample_start" "''a'' \<notin> set (ws_lost sample_start)"
    by (simp_all add: sample_start_def waiting_def submit_register_def worker_spawn_def)
  let ?s1 = "submit_spawn ''a'' 0 sample_start"
  let ?s2 = "agent_turn ?s1" let ?s3 = "agent_turn ?s2"
  let ?s4 = "task_decide ''a'' 0 Completed ?s3" let ?s5 = "task_report ''a'' 0 Completed ?s4"
  note eval = sample_start_def worker_spawn_def worker_ops worker_handlers default_worker_config_def outcome_ok_def token_cancelled_def
  have steps: "internal_step sample_start ?s1" "internal_step ?s1 ?s2" "internal_step ?s2 ?s3" "internal_step ?s3 ?s4"
    "internal_step ?s4 ?s5" "internal_step ?s5 sample_end"
    unfolding sample_end_def
    by (rule spawn turn decide report; simp add: eval)+
  have "(internal_step ^^ Suc (Suc (Suc (Suc (Suc (Suc 0)))))) sample_start sample_end"
    using steps by (intro relpowp_Suc_I) simp_all
  then have run: "(internal_step ^^ 6) sample_start sample_end" by (simp add: numeral_eq_Suc)
  have "\<forall>t. \<not> internal_step sample_end t" by (auto elim!: internal_stepE simp: sample_end_eq)
  with waiters_are_answered [OF reach s(1) w s(2) run] reach w run show ?thesis by blast
qed

subsection \<open>The concurrency limit\<close>

definition permits_ok :: "worker_config \<Rightarrow> worker_system \<Rightarrow> bool" where
  "permits_ok config s \<longleftrightarrow>
     (case ws_free s of
        None \<Rightarrow> wc_max_concurrent_tasks config = 0
      | Some n \<Rightarrow> n + length (ws_submitting s) + length (ws_active s) = wc_max_concurrent_tasks config)"

lemma length_remove1_Suc: "x \<in> set xs \<Longrightarrow> length xs = Suc (length (remove1 x xs))"
  by (induction xs) auto

lemma permits_step: "permits_ok config s \<Longrightarrow> worker_step s s' \<Longrightarrow> permits_ok config s'"
proof (erule worker_stepE)
  assume ok: "permits_ok config s"
  show "internal_step s s' \<Longrightarrow> permits_ok config s'"
  proof (erule internal_stepE)
    assume "s' = agent_turn s"
    then show ?thesis using ok by (auto simp: permits_ok_def agent_turn_def split: list.splits prod.splits option.splits)
  qed (use ok in \<open>auto simp: permits_ok_def submit_spawn_def task_decide_def task_report_def
      split: option.splits dest!: length_remove1_Suc\<close>)
qed (auto simp: permits_ok_def submit_register_def permit_free_def task_panic_def before_stop_def
    split: option.splits dest!: length_remove1_Suc)

lemma permits_reachable: "worker_reachable config s \<Longrightarrow> permits_ok config s"
proof (induction rule: worker_reachable.induct)
  case start
  show ?case by (simp add: permits_ok_def worker_spawn_def)
qed (rule permits_step)

text \<open>
  The concurrency limit holds. With a limit configured, the submissions that hold a permit and the
  tasks not yet over never exceed it, in every reachable state, also after panics and cancellations, and no permit
  is lost: their number and the free permits always add up to the limit.
\<close>

theorem concurrency_limit:
  assumes "worker_reachable config s" and "0 < wc_max_concurrent_tasks config"
  shows "\<exists>free. ws_free s = Some free \<and> free + length (ws_submitting s) + length (ws_active s) = wc_max_concurrent_tasks config"
  using permits_reachable [OF assms(1)] assms(2) by (auto simp: permits_ok_def split: option.splits)

theorem concurrency_limit_witness:
  "\<exists>free. ws_free (submit_register ''a'' (worker_spawn (default_worker_config\<lparr>wc_max_concurrent_tasks := 2\<rparr>))) = Some free \<and> free + 1 = 2"
proof -
  let ?c = "default_worker_config\<lparr>wc_max_concurrent_tasks := 2\<rparr>"
  have "worker_reachable ?c (submit_register ''a'' (worker_spawn ?c))"
    by (intro next_state [OF start submit]) (simp add: worker_spawn_def permit_free_def)
  from concurrency_limit [OF this] show ?thesis by (simp add: submit_register_def worker_spawn_def)
qed

subsection \<open>Tasks with one name\<close>

text \<open>
  Nothing keeps two tasks from having the same identifier. The second registration replaces the record of the
  first, so the end of the first is recorded for both: the second is reported as completed while it runs.
\<close>

definition sample_twice :: worker_system where
  "sample_twice = agent_turn (task_report ''a'' 0 Completed (task_decide ''a'' 0 Completed (agent_turn (agent_turn
     (submit_spawn ''a'' 1 (submit_register ''a'' (submit_spawn ''a'' 0 (submit_register ''a'' (worker_spawn default_worker_config)))))))))"

lemma same_name_misreported:
  "map_option tr_status (map_of (wa_tasks (ws_agent sample_twice)) ''a'') = Some Completed \<and> (''a'', 1, None) \<in> set (ws_active sample_twice)"
  by (simp add: sample_twice_def worker_spawn_def worker_ops worker_handlers default_worker_config_def)

text \<open>The runs in which every submission has an identifier of its own; \<open>U\<close> are those used so far.\<close>

inductive fresh_reachable :: "worker_config \<Rightarrow> string set \<Rightarrow> worker_system \<Rightarrow> bool" for config where
  fresh_start: "fresh_reachable config {} (worker_spawn config)"
| fresh_submit: "fresh_reachable config U s \<Longrightarrow> permit_free s \<Longrightarrow> i \<notin> U \<Longrightarrow> fresh_reachable config (insert i U) (submit_register i s)"
| fresh_other: "fresh_reachable config U s \<Longrightarrow> worker_step s s' \<Longrightarrow> ws_next_token s' = ws_next_token s \<Longrightarrow> fresh_reachable config U s'"

fun completed_id :: "worker_message \<Rightarrow> string list" where
  "completed_id (TaskCompleted i st) = [i]"
| "completed_id _ = []"

fun registered_id :: "worker_message \<Rightarrow> string list" where
  "registered_id (RegisterTask i tok) = [i]"
| "registered_id _ = []"

definition completed_ids :: "worker_message list \<Rightarrow> string list" where
  "completed_ids ms = concat (map completed_id ms)"

definition registered_ids :: "worker_message list \<Rightarrow> string list" where
  "registered_ids ms = concat (map registered_id ms)"

definition open_ids :: "worker_system \<Rightarrow> string list" where
  "open_ids s = map fst (ws_submitting s) @ map fst (ws_active s)"

text \<open>Every completion comes after the registration of its task.\<close>

fun known :: "string set \<Rightarrow> worker_message list \<Rightarrow> bool" where
  "known A [] = True"
| "known A (RegisterTask i tok # ms) = known (insert i A) ms"
| "known A (TaskCompleted i st # ms) = (i \<in> A \<and> known A ms)"
| "known A (_ # ms) = known A ms"

definition finished :: "worker_agent \<Rightarrow> string \<Rightarrow> bool" where
  "finished a i = (case map_of (wa_tasks a) i of Some r \<Rightarrow> is_terminal (tr_status r) | None \<Rightarrow> False)"

definition fresh_inv :: "string set \<Rightarrow> worker_system \<Rightarrow> bool" where
  "fresh_inv U s \<longleftrightarrow>
     mset (open_ids s @ completed_ids (ws_mailbox s)) \<subseteq># mset_set U \<and> finite U \<and>
     mset (registered_ids (ws_mailbox s) @ map fst (wa_tasks (ws_agent s))) \<subseteq># mset_set U \<and>
     (\<forall>i. finished (ws_agent s) i \<longrightarrow> i \<notin> set (open_ids s @ completed_ids (ws_mailbox s))) \<and>
     (\<forall>i \<in> set (open_ids s). unfinished (ws_agent s) i \<or> i \<in> set (registered_ids (ws_mailbox s))) \<and>
     known {i. unfinished (ws_agent s) i} (ws_mailbox s)"

lemma known_snoc:
  "known A ms \<Longrightarrow> (\<And>i st. m = TaskCompleted i st \<Longrightarrow> i \<in> A \<or> i \<in> set (registered_ids ms)) \<Longrightarrow> known A (ms @ [m])"
proof (induction A ms rule: known.induct)
  case (1 A)
  then show ?case by (cases m) (auto simp: registered_ids_def)
qed (auto simp: registered_ids_def)

lemma known_mono: "known A ms \<Longrightarrow> A \<subseteq> B \<Longrightarrow> known B ms"
proof (induction A ms arbitrary: B rule: known.induct)
  case (2 A j tok ms)
  then show ?case by (metis insert_mono known.simps(2))
qed auto

lemma known_minus: "known A ms \<Longrightarrow> i \<notin> set (completed_ids ms) \<Longrightarrow> known (A - {i}) ms"
proof (induction A ms rule: known.induct)
  case (2 A j tok ms)
  then show ?case by (cases "j = i") (auto simp: completed_ids_def insert_Diff_if elim: known_mono)
qed (auto simp: completed_ids_def)

lemma ids_append [simp]:
  "completed_ids (xs @ ys) = completed_ids xs @ completed_ids ys" "registered_ids (xs @ ys) = registered_ids xs @ registered_ids ys"
  "completed_ids (m # ms) = completed_id m @ completed_ids ms" "registered_ids (m # ms) = registered_id m @ registered_ids ms"
  "completed_ids [] = []" "registered_ids [] = []"
  by (simp_all add: completed_ids_def registered_ids_def)

lemma mset_map_remove1: "x \<in> set xs \<Longrightarrow> mset (map f xs) = add_mset (f x) (mset (map f (remove1 x xs)))"
  by (induction xs) auto

lemma fresh_outside:
  assumes "fresh_inv U s" and "ws_agent s' = ws_agent s" and "ws_mailbox s' = ws_mailbox s @ ms" and "length ms \<le> 1"
    and "registered_ids ms = []" and "mset (open_ids s' @ completed_ids ms) \<subseteq># mset (open_ids s)"
  shows "fresh_inv U s'"
proof -
  have sub: "set (open_ids s') \<union> set (completed_ids ms) \<subseteq> set (open_ids s)"
    using set_mset_mono [OF assms(6)] by auto
  have "mset (open_ids s' @ completed_ids (ws_mailbox s')) \<subseteq># mset (open_ids s @ completed_ids (ws_mailbox s))"
    using assms(3,6) by (simp add: ac_simps subset_mset.add_left_mono)
  then have "mset (open_ids s' @ completed_ids (ws_mailbox s')) \<subseteq># mset_set U"
    using assms(1) unfolding fresh_inv_def by (blast intro: subset_mset.order_trans)
  moreover have "known {i. unfinished (ws_agent s) i} (ws_mailbox s @ ms)"
  proof (cases ms)
    case (Cons m ms')
    then have m: "ms = [m]" using assms(4) by simp
    show ?thesis unfolding m
      by (rule known_snoc) (use assms(1) sub m in \<open>auto simp: fresh_inv_def\<close>)
  qed (use assms(1) in \<open>simp add: fresh_inv_def\<close>)
  moreover have "i \<notin> set (open_ids s' @ completed_ids (ws_mailbox s'))" if "finished (ws_agent s) i" for i
    using assms(1,3) sub that by (auto simp: fresh_inv_def)
  moreover have "unfinished (ws_agent s) i \<or> i \<in> set (registered_ids (ws_mailbox s))" if "i \<in> set (open_ids s')" for i
    using assms(1) sub that by (auto simp: fresh_inv_def)
  ultimately show ?thesis using assms(1) unfolding fresh_inv_def assms(2,3) by (simp add: assms(5))
qed

lemma finished_def': "finished a i \<longleftrightarrow> i \<in> fst ` set (wa_tasks a) \<and> \<not> unfinished a i"
  by (auto simp: finished_def unfinished_def map_of_eq_None_iff [symmetric] split: option.splits dest: map_of_SomeD)
    (metis image_eqI fst_conv map_of_SomeD)

lemma fresh_submit_inv:
  assumes "fresh_inv U s" and "i \<notin> U"
  shows "fresh_inv (insert i U) (submit_register i s)"
proof -
  have fin: "finite U" and reg: "mset (registered_ids (ws_mailbox s) @ map fst (wa_tasks (ws_agent s))) \<subseteq># mset_set U"
    using assms(1) by (simp_all add: fresh_inv_def)
  have k: "fst ` set (wa_tasks (ws_agent s)) \<subseteq> U"
    using set_mset_mono [OF reg] fin by auto
  from fin have U: "mset_set (insert i U) = add_mset i (mset_set U)" using assms(2) by simp
  have "i \<notin> fst ` set (wa_tasks (ws_agent s))" using k assms(2) by auto
  then have "\<not> finished (ws_agent s) i" by (simp add: finished_def')
  then show ?thesis using assms(1) fin
    by (auto simp: fresh_inv_def U submit_register_def open_ids_def intro!: known_snoc)
qed

lemma mset_le_distinct:
  assumes "mset xs \<subseteq># mset_set U" and "finite U"
  shows "distinct xs"
proof (rule ccontr)
  assume "\<not> distinct xs"
  then obtain as x bs cs where "xs = as @ [x] @ bs @ [x] @ cs" using not_distinct_decomp by blast
  then have "2 \<le> count (mset xs) x" by simp
  also have "\<dots> \<le> count (mset_set U) x" using assms(1) by (rule mset_subset_eq_count)
  also have "\<dots> \<le> 1" using assms(2) by (cases "x \<in> U") simp_all
  finally show False by simp
qed

lemma update_new_keys: "i \<notin> fst ` set al \<Longrightarrow> mset (map fst (AList.update i v al)) = add_mset i (mset (map fst al))"
  by (induction al) auto

lemma fresh_turn:
  assumes "worker_inv s" and "fresh_inv U s" and "ws_mailbox s \<noteq> []"
  shows "fresh_inv U (agent_turn s)"
proof -
  obtain m ms where mb: "ws_mailbox s = m # ms" using assms(3) by (cases "ws_mailbox s") auto
  let ?a = "ws_agent s"
  obtain a rs toks where h: "on_message m ?a = (a, rs, toks)" by (metis prod_cases3)
  have turn: "ws_agent (agent_turn s) = a" "ws_mailbox (agent_turn s) = ms" "open_ids (agent_turn s) = open_ids s"
    using mb h by (simp_all add: agent_turn_def open_ids_def)
  note inv = assms(2) [unfolded fresh_inv_def mb]
  then have fin: "finite U" and open1: "mset (open_ids s @ completed_ids (m # ms)) \<subseteq># mset_set U"
    and reg: "mset (registered_ids (m # ms) @ map fst (wa_tasks ?a)) \<subseteq># mset_set U"
    and ended: "\<And>i. finished ?a i \<Longrightarrow> i \<notin> set (open_ids s @ completed_ids (m # ms))"
    and op: "\<And>i. i \<in> set (open_ids s) \<Longrightarrow> unfinished ?a i \<or> i \<in> set (registered_ids (m # ms))"
    and kn: "known {i. unfinished ?a i} (m # ms)" by blast+
  have "mset (open_ids s @ completed_ids ms) \<subseteq># mset_set U"
    by (rule subset_mset.order_trans [OF _ open1]) (simp add: subset_mset.add_left_mono)
  note open2 = this
  have goal: ?thesis if "mset (registered_ids ms @ map fst (wa_tasks a)) \<subseteq># mset_set U"
    and "\<And>i. finished a i \<Longrightarrow> i \<notin> set (open_ids s @ completed_ids ms)"
    and "\<And>i. i \<in> set (open_ids s) \<Longrightarrow> unfinished a i \<or> i \<in> set (registered_ids ms)"
    and "known {i. unfinished a i} ms"
    using that open2 fin by (simp add: fresh_inv_def turn)
  have same: ?thesis if "wa_tasks a = wa_tasks ?a" and "completed_id m = []" and "registered_id m = []"
    and "\<And>A. known A (m # ms) = known A ms"
  proof -
    have "unfinished a = unfinished ?a" "finished a = finished ?a" using that(1) by (simp_all add: unfinished_def finished_def fun_eq_iff)
    then show ?thesis using reg ended op kn that by (intro goal) simp_all
  qed
  show ?thesis
  proof (cases m)
    case (RegisterTask i tok)
    then have a: "a = ?a\<lparr>wa_tasks := AList.update i \<lparr>tr_cancellation_token = tok, tr_status = Running\<rparr> (wa_tasks ?a)\<rparr>"
      using h by (simp add: on_register_task_def)
    have new: "i \<notin> fst ` set (wa_tasks ?a)" using mset_le_distinct [OF reg fin] RegisterTask by simp
    have un: "unfinished a j = (j = i \<or> unfinished ?a j)" for j by (simp add: a unfinished_simps)
    have fi: "finished a j \<Longrightarrow> finished ?a j" for j by (auto simp: finished_def a update_conv' split: if_splits)
    have "{j. unfinished a j} = insert i {j. unfinished ?a j}" using un by auto
    moreover have "mset (registered_ids ms @ map fst (wa_tasks a)) \<subseteq># mset_set U"
      using reg RegisterTask by (simp add: a update_new_keys [OF new, unfolded mset_map])
    ultimately show ?thesis using kn op ended fi un RegisterTask by (intro goal) auto
  next
    case (TaskCompleted i st)
    then have "is_terminal st" using assms(1) by (auto simp: worker_inv_def terminal_reports_def mb)
    then have un: "unfinished a j = (unfinished ?a j \<and> j \<noteq> i)" and fi: "finished a j \<Longrightarrow> finished ?a j \<or> j = i" for j
      using h TaskCompleted by (auto simp: on_task_completed_def unfinished_simps finished_def map_of_map_entry split: if_splits)
    have keys: "map fst (wa_tasks a) = map fst (wa_tasks ?a)"
      using h TaskCompleted by (auto simp: on_task_completed_def distinct_map_entry)
    have once: "i \<notin> set (open_ids s) \<union> set (completed_ids ms)" using mset_le_distinct [OF open1 fin] TaskCompleted by auto
    have "{j. unfinished a j} = {j. unfinished ?a j} - {i}" using un by auto
    then have "known {j. unfinished a j} ms" using known_minus [of "{j. unfinished ?a j}" ms i] kn once TaskCompleted by simp
    moreover have "i \<noteq> j" if "j \<in> set (open_ids s)" for j using once that by auto
    moreover have "finished a j \<Longrightarrow> j \<notin> set (open_ids s @ completed_ids ms)" for j using fi ended [of j] once TaskCompleted by auto
    ultimately show ?thesis using op un reg keys TaskCompleted by (intro goal) auto
  next
    case (CleanupFinishedTasks w)
    then have a: "a = ?a\<lparr>wa_tasks := filter (\<lambda>(i, r). \<not> is_terminal (tr_status r)) (wa_tasks ?a)\<rparr>"
      using h by (simp add: on_cleanup_def Let_def)
    have d: "distinct (map fst (wa_tasks ?a))" using assms(1) by (simp add: worker_inv_def)
    have un: "unfinished a j = unfinished ?a j" for j unfolding a by (rule unfinished_filter [OF d])
    have "\<not> finished a j" for j
      using d by (simp add: finished_def a map_of_filter_some [of _ "\<lambda>r. \<not> is_terminal (tr_status r)"] split: option.splits)
    moreover have "mset (registered_ids ms @ map fst (wa_tasks a)) \<subseteq># mset (registered_ids ms @ map fst (wa_tasks ?a))"
      by (simp add: a image_mset_subseteq_mono mset_filter [symmetric] del: mset_filter) (simp add: image_mset_subseteq_mono multiset_filter_subset)
    with reg CleanupFinishedTasks have "mset (registered_ids ms @ map fst (wa_tasks a)) \<subseteq># mset_set U"
      by (simp only: ids_append registered_id.simps append_Nil)
    ultimately show ?thesis using kn op un CleanupFinishedTasks by (intro goal) auto
  qed (use h in \<open>auto intro!: same simp: worker_handlers split: option.splits if_splits\<close>)
qed

lemma fresh_step:
  assumes "worker_inv s" and "fresh_inv U s" and "worker_step s s'" and "ws_next_token s' = ws_next_token s"
  shows "fresh_inv U s'"
  using assms(3)
proof (rule worker_stepE)
  note outside = fresh_outside [OF assms(2)]
  show "internal_step s s' \<Longrightarrow> fresh_inv U s'"
  proof (erule internal_stepE)
    fix i tok assume "s' = submit_spawn i tok s" "(i, tok) \<in> set (ws_submitting s)"
    then show ?thesis using mset_map_remove1 [of "(i, tok)" "ws_submitting s" fst]
      by (intro outside [where ms = "[]"]) (simp_all add: submit_spawn_def open_ids_def)
  next
    fix i tok st assume "s' = task_decide i tok st s" "(i, tok, None) \<in> set (ws_active s)"
    then show ?thesis using mset_map_remove1 [of "(i, tok, None)" "ws_active s" fst]
      by (intro outside [where ms = "[]"]) (simp_all add: task_decide_def open_ids_def)
  next
    fix i tok st assume "s' = task_report i tok st s" "(i, tok, Some st) \<in> set (ws_active s)"
    then show ?thesis using mset_map_remove1 [of "(i, tok, Some st)" "ws_active s" fst]
      by (intro outside [where ms = "[TaskCompleted i st]"]) (simp_all add: task_report_def open_ids_def)
  qed (use fresh_turn [OF assms(1,2)] in auto)
  show "s' = submit_register i s \<Longrightarrow> fresh_inv U s'" for i using assms(4) by (simp add: submit_register_def)
  show "s' = s\<lparr>ws_mailbox := ws_mailbox s @ [m]\<rparr> \<Longrightarrow> client_message m \<Longrightarrow> fresh_inv U s'" for m
    by (intro outside [where ms = "[m]"]; cases m) (simp_all add: open_ids_def)
  show "s' = task_panic i tok s \<Longrightarrow> (i, tok, None) \<in> set (ws_active s) \<Longrightarrow> fresh_inv U s'" for i tok
    using mset_map_remove1 [of "(i, tok, None)" "ws_active s" fst]
    by (intro outside [where ms = "[]"]) (simp_all add: task_panic_def open_ids_def)
  show "s' = before_stop s \<Longrightarrow> fresh_inv U s'"
    by (intro outside [where ms = "[]"]) (simp_all add: before_stop_def open_ids_def)
qed

lemma fresh_reachable_inv: "fresh_reachable config U s \<Longrightarrow> worker_inv s \<and> fresh_inv U s"
proof (induction rule: fresh_reachable.induct)
  case fresh_start
  show ?case using worker_inv_reachable [OF start]
    by (simp add: fresh_inv_def worker_spawn_def open_ids_def finished_def unfinished_def)
next
  case (fresh_submit U s i)
  then show ?case using worker_inv_step [OF _ submit] fresh_submit_inv by blast
next
  case (fresh_other U s s')
  then show ?case using worker_inv_step fresh_step by blast
qed

text \<open>
  C32: with one name per task the registry tells the truth. As long as no identifier is submitted twice, a task
  that is recorded as finished has ended, and every completion the agent takes from its mailbox finds the
  record of a task that was registered and not yet finished, as the comments of the module claim. With
  an identifier used twice neither holds.
\<close>

theorem registry_is_truthful:
  assumes "fresh_reachable config U s"
  shows "(\<forall>i r. map_of (wa_tasks (ws_agent s)) i = Some r \<longrightarrow> is_terminal (tr_status r) \<longrightarrow>
      i \<notin> fst ` set (ws_submitting s) \<and> i \<notin> fst ` set (ws_active s)) \<and>
    (\<forall>i st ms. ws_mailbox s = TaskCompleted i st # ms \<longrightarrow>
      (\<exists>r. map_of (wa_tasks (ws_agent s)) i = Some r \<and> \<not> is_terminal (tr_status r)))"
proof -
  from fresh_reachable_inv [OF assms] have inv: "fresh_inv U s" ..
  have "i \<notin> set (open_ids s)" if "map_of (wa_tasks (ws_agent s)) i = Some r" "is_terminal (tr_status r)" for i r
    using inv that by (auto simp: fresh_inv_def finished_def)
  moreover have "unfinished (ws_agent s) i" if "ws_mailbox s = TaskCompleted i st # ms" for i st ms
    using inv that by (simp add: fresh_inv_def)
  moreover have "\<exists>r. map_of (wa_tasks a) i = Some r \<and> \<not> is_terminal (tr_status r)" if "unfinished a i" for a i
    using that by (auto simp: unfinished_def split: option.splits)
  ultimately show ?thesis unfolding open_ids_def set_append set_map by blast
qed

theorem registry_is_truthful_witness:
  "\<exists>s. fresh_reachable default_worker_config {''a''} s \<and> ws_mailbox s = [TaskCompleted ''a'' Completed] \<and>
     (\<exists>r. map_of (wa_tasks (ws_agent s)) ''a'' = Some r \<and> \<not> is_terminal (tr_status r))"
proof -
  let ?s0 = "submit_register ''a'' (worker_spawn default_worker_config)"
  let ?s1 = "submit_spawn ''a'' 0 ?s0" let ?s2 = "agent_turn ?s1"
  let ?s3 = "task_decide ''a'' 0 Completed ?s2" let ?s4 = "task_report ''a'' 0 Completed ?s3"
  note eval = worker_spawn_def worker_ops worker_handlers default_worker_config_def outcome_ok_def token_cancelled_def permit_free_def
  have f0: "fresh_reachable default_worker_config {''a''} ?s0"
    by (rule fresh_submit [OF fresh_start]) (simp_all add: eval)
  have f1: "fresh_reachable default_worker_config {''a''} ?s1"
    by (rule fresh_other [OF f0 internal [OF spawn]]) (simp_all add: eval)
  have f2: "fresh_reachable default_worker_config {''a''} ?s2"
    by (rule fresh_other [OF f1 internal [OF turn]]) (simp_all add: eval)
  have f3: "fresh_reachable default_worker_config {''a''} ?s3"
    by (rule fresh_other [OF f2 internal [OF decide]]) (simp_all add: eval)
  have f4: "fresh_reachable default_worker_config {''a''} ?s4"
    by (rule fresh_other [OF f3 internal [OF report]]) (simp_all add: eval)
  have mb: "ws_mailbox ?s4 = [TaskCompleted ''a'' Completed]" by (simp add: eval)
  from conjunct2 [OF registry_is_truthful [OF f4], rule_format, OF mb] f4 mb show ?thesis by blast
qed

end
