(* ===== verification/Pool_Agents.thy ===== *)
theory Pool_Agents
  imports Background_Worker Errors
begin

text \<open>
  Connection pools: the retry loop that \<^verbatim>\<open>src/acton-service/src/database.rs\<close>, \<^verbatim>\<open>cache.rs\<close>,
  \<^verbatim>\<open>events.rs\<close>, \<^verbatim>\<open>turso.rs\<close>, \<^verbatim>\<open>surrealdb_backend.rs\<close> and \<^verbatim>\<open>clickhouse_backend.rs\<close> share, and the six pool
  agents of \<^verbatim>\<open>agents/pool.rs\<close>, which have the same handlers and differ in how they run the loop. A single
  connection attempt is a parameter: what the driver returns the n-th time. Arithmetic is checked in
  debug builds and wraps in release builds; \<open>checks\<close> says which. Arguments of log calls are not
  modelled.
\<close>

subsection \<open>The retry loop\<close>

datatype 'p connect_result = ConnOk 'p | ConnErr error | ConnPanic

text \<open>\<^verbatim>\<open>2_u32.pow(n)\<close>.\<close>

definition pow2_u32 :: "bool \<Rightarrow> nat \<Rightarrow> u32 option" where
  "pow2_u32 checks n = (if n < 32 then Some (2 ^ n) else if checks then None else Some 0)"

text \<open>
  The loop with the seconds it sleeps. \<open>n\<close> counts the calls so far. Multiplying a duration panics when the
  seconds leave 64 bits, in every build.
\<close>

fun create_pool_with_retries ::
  "bool \<Rightarrow> nat \<Rightarrow> (nat \<Rightarrow> error + 'p) \<Rightarrow> u64 \<Rightarrow> u32 \<Rightarrow> nat \<Rightarrow> u32 \<Rightarrow> ('p connect_result \<times> nat list) option" where
  "create_pool_with_retries checks 0 try_create_pool base_delay max_retries n attempt = None"
| "create_pool_with_retries checks (Suc fuel) try_create_pool base_delay max_retries n attempt =
     (case try_create_pool n of
        Inr pool \<Rightarrow> Some (ConnOk pool, [])
      | Inl e \<Rightarrow>
          if checks \<and> attempt = - 1 then Some (ConnPanic, [])
          else
            (let attempt = attempt + 1
             in if max_retries < attempt then Some (ConnErr e, [])
                else (case pow2_u32 checks (unat attempt - 1) of
                        None \<Rightarrow> Some (ConnPanic, [])
                      | Some delay_multiplier \<Rightarrow>
                          (let delay = unat base_delay * unat delay_multiplier
                           in if 2 ^ 64 \<le> delay then Some (ConnPanic, [])
                              else map_option (apsnd ((#) delay))
                                (create_pool_with_retries checks fuel try_create_pool base_delay max_retries (n + 1) attempt)))))"

definition create_pool :: "bool \<Rightarrow> nat \<Rightarrow> (nat \<Rightarrow> error + 'p) \<Rightarrow> u64 \<Rightarrow> u32 \<Rightarrow> ('p connect_result \<times> nat list) option" where
  "create_pool checks fuel try_create_pool retry_delay_secs max_retries =
     create_pool_with_retries checks fuel try_create_pool retry_delay_secs max_retries 0 0"

subsection \<open>Credentials in messages\<close>

definition find_char :: "char \<Rightarrow> string \<Rightarrow> nat option" where
  "find_char c s = (if c \<in> set s then Some (length (takeWhile (\<lambda>x. x \<noteq> c) s)) else None)"

fun find_scheme :: "string \<Rightarrow> nat option" where
  "find_scheme [] = None"
| "find_scheme (c # cs) = (if take 3 (c # cs) = ''://'' then Some 0 else map_option Suc (find_scheme cs))"

text \<open>\<open>None\<close> is the panic of a slice whose end lies before its start.\<close>

definition sanitize_connection_url :: "string \<Rightarrow> string option" where
  "sanitize_connection_url url =
     (case find_char CHR ''@'' url of
        None \<Rightarrow> Some url
      | Some at_pos \<Rightarrow>
          (case find_scheme url of
             None \<Rightarrow> Some url
           | Some scheme_end \<Rightarrow>
               if at_pos < scheme_end + 3 then None
               else (case find_char CHR '':'' (take (at_pos - (scheme_end + 3)) (drop (scheme_end + 3) url)) of
                       None \<Rightarrow> Some url
                     | Some colon_pos \<Rightarrow>
                         Some (take (scheme_end + 3) url @ take colon_pos (drop (scheme_end + 3) url) @ '':***'' @ drop at_pos url))))"

definition sanitize_redis_url :: "string \<Rightarrow> string option" where
  "sanitize_redis_url url =
     (case find_char CHR ''@'' url of
        None \<Rightarrow> Some url
      | Some at_pos \<Rightarrow>
          (case find_scheme url of
             None \<Rightarrow> Some url
           | Some scheme_end \<Rightarrow>
               if at_pos < scheme_end + 3 then None
               else if CHR '':'' \<in> set (take (at_pos - (scheme_end + 3)) (drop (scheme_end + 3) url))
               then Some (take (scheme_end + 3) url @ '':***'' @ drop at_pos url)
               else Some (take (scheme_end + 3) url @ ''***'' @ drop at_pos url)))"

subsection \<open>The agents\<close>

datatype health_status = Healthy | Degraded | Unhealthy | HConnecting

record component_health =
  ch_name :: string
  ch_status :: health_status
  ch_message :: string

definition pool_health :: "string \<Rightarrow> bool \<Rightarrow> bool \<Rightarrow> string option \<Rightarrow> component_health" where
  "pool_health name connected connecting last_error =
     (let (status, message) =
        if connected then (Healthy, ''connected'')
        else if connecting then (HConnecting, ''connecting'')
        else (Unhealthy, case last_error of Some e \<Rightarrow> e | None \<Rightarrow> ''not connected'')
      in \<lparr>ch_name = name, ch_status = status, ch_message = message\<rparr>)"

text \<open>
  The state of an agent. \<open>pp_shared\<close> is the slot the application reads, when one is configured. The name is the
  one the agent reports.
\<close>

record 'p pool_state =
  pp_name :: string
  pp_pool :: "'p option"
  pp_connecting :: bool
  pp_shared :: "'p option option"
  pp_last_error :: "string option"
  pp_ready_waiters :: "reply list"

datatype 'p pool_message = PoolConnected 'p | PoolConnectionFailed string | WaitForPoolReady reply | GetPoolHealth reply

definition on_pool_connected :: "'p \<Rightarrow> 'p pool_state \<Rightarrow> 'p pool_state \<times> (reply \<times> component_health) list" where
  "on_pool_connected pool st =
     (st\<lparr>pp_pool := Some pool, pp_connecting := False, pp_last_error := None, pp_ready_waiters := [],
         pp_shared := map_option (\<lambda>_. Some pool) (pp_shared st)\<rparr>,
      map (\<lambda>w. (w, pool_health (pp_name st) True False None)) (pp_ready_waiters st))"

definition on_pool_failed :: "string \<Rightarrow> 'p pool_state \<Rightarrow> 'p pool_state \<times> (reply \<times> component_health) list" where
  "on_pool_failed error_msg st =
     (st\<lparr>pp_connecting := False, pp_last_error := Some error_msg, pp_ready_waiters := []\<rparr>,
      map (\<lambda>w. (w, pool_health (pp_name st) False False (Some error_msg))) (pp_ready_waiters st))"

definition on_wait_for_pool_ready :: "reply \<Rightarrow> 'p pool_state \<Rightarrow> 'p pool_state \<times> (reply \<times> component_health) list" where
  "on_wait_for_pool_ready w st =
     (if pp_connecting st then (st\<lparr>pp_ready_waiters := pp_ready_waiters st @ [w]\<rparr>, [])
      else (st, [(w, pool_health (pp_name st) (pp_pool st \<noteq> None) False (pp_last_error st))]))"

definition on_get_pool_health :: "reply \<Rightarrow> 'p pool_state \<Rightarrow> 'p pool_state \<times> (reply \<times> component_health) list" where
  "on_get_pool_health w st =
     (st, [(w, pool_health (pp_name st) (pp_pool st \<noteq> None) (pp_connecting st) (pp_last_error st))])"

fun on_pool_message :: "'p pool_message \<Rightarrow> 'p pool_state \<Rightarrow> 'p pool_state \<times> (reply \<times> component_health) list" where
  "on_pool_message (PoolConnected p) st = on_pool_connected p st"
| "on_pool_message (PoolConnectionFailed e) st = on_pool_failed e st"
| "on_pool_message (WaitForPoolReady w) st = on_wait_for_pool_ready w st"
| "on_pool_message (GetPoolHealth w) st = on_get_pool_health w st"

lemmas pool_handlers = on_pool_connected_def on_pool_failed_def on_wait_for_pool_ready_def on_get_pool_health_def

definition pool_spawn :: "string \<Rightarrow> bool \<Rightarrow> 'p pool_state" where
  "pool_spawn name shared =
     \<lparr>pp_name = name, pp_pool = None, pp_connecting = True, pp_shared = (if shared then Some None else None),
      pp_last_error = None, pp_ready_waiters = []\<rparr>"

text \<open>
  What the connection task sends. The database, Turso and SurrealDB agents spawn it and race it against
  cancellation; a panic ends it silently. The Redis, NATS and ClickHouse agents wait for it and report a
  panic, with the text of the join error.
\<close>

definition raced_attempt :: "bool \<Rightarrow> 'p connect_result \<Rightarrow> 'p pool_message option" where
  "raced_attempt cancelled r =
     (if cancelled then Some (PoolConnectionFailed ''Connection cancelled during shutdown'')
      else case r of
        ConnOk pool \<Rightarrow> Some (PoolConnected pool)
      | ConnErr e \<Rightarrow> Some (PoolConnectionFailed (error_display e))
      | ConnPanic \<Rightarrow> None)"

definition joined_attempt :: "string \<Rightarrow> 'p connect_result \<Rightarrow> 'p pool_message option" where
  "joined_attempt join_error r =
     (case r of
        ConnOk pool \<Rightarrow> Some (PoolConnected pool)
      | ConnErr e \<Rightarrow> Some (PoolConnectionFailed (error_display e))
      | ConnPanic \<Rightarrow> Some (PoolConnectionFailed (''Connection task panicked: '' @ join_error)))"

subsection \<open>What the sanitised texts show\<close>

lemma find_char_first: "c \<notin> set xs \<Longrightarrow> find_char c (xs @ c # ys) = Some (length xs)"
  unfolding find_char_def by (subst takeWhile_append2) auto

lemma find_scheme_first: "CHR '':'' \<notin> set sch \<Longrightarrow> find_scheme (sch @ ''://'' @ ys) = Some (length sch)"
proof (induction sch)
  case (Cons c sch)
  then show ?case by (auto simp: take_Cons')
qed simp

text \<open>
  A password without an at sign is replaced by stars. The text after the first at sign is kept, so of a
  password with one (\<open>rest = p2 @ ''@'' @ host\<close>) everything behind the sign is shown.
\<close>

lemma sanitize_connection_url_standard:
  assumes "CHR '':'' \<notin> set sch" and "CHR ''@'' \<notin> set sch \<union> set user \<union> set pass" and "CHR '':'' \<notin> set user"
  shows "sanitize_connection_url (sch @ ''://'' @ user @ '':'' @ pass @ ''@'' @ rest) = Some (sch @ ''://'' @ user @ '':***@'' @ rest)"
proof -
  let ?url = "sch @ ''://'' @ user @ '':'' @ pass @ ''@'' @ rest"
  have "find_char CHR ''@'' ((sch @ ''://'' @ user @ '':'' @ pass) @ CHR ''@'' # rest) = Some (length (sch @ ''://'' @ user @ '':'' @ pass))"
    using assms(2) by (intro find_char_first) auto
  then have at: "find_char CHR ''@'' ?url = Some (length sch + 3 + length user + 1 + length pass)" by (simp add: ac_simps)
  have sc: "find_scheme ?url = Some (length sch)" using assms(1) find_scheme_first [of sch "user @ '':'' @ pass @ ''@'' @ rest"] by simp
  have "find_char CHR '':'' (user @ CHR '':'' # pass) = Some (length user)" using assms(3) by (rule find_char_first)
  moreover have "drop (length sch + 3) ?url = user @ '':'' @ pass @ ''@'' @ rest" "take (length sch + 3) ?url = sch @ ''://''"
    "drop (length sch + 3 + length user + 1 + length pass) ?url = ''@'' @ rest" by (simp_all add: numeral_eq_Suc)
  moreover have "take (length sch + 3 + length user + 1 + length pass - (length sch + 3)) (user @ '':'' @ pass @ ''@'' @ rest) = user @ CHR '':'' # pass"
    by simp
  ultimately show ?thesis unfolding sanitize_connection_url_def at sc option.case by simp
qed

lemma sanitize_panics: "sanitize_connection_url ''p@ss://x'' = None" "sanitize_redis_url ''p@ss://x'' = None"
  by code_simp+

subsection \<open>The schedule of attempts\<close>

lemma unat_of_nat_small: "n < 2 ^ 32 \<Longrightarrow> unat (of_nat n :: u32) = n"
  by (simp add: unsigned_of_nat take_bit_nat_eq_self)

lemma retry_step:
  assumes "conn n = Inl e" and "n < unat max_retries" and "n < 32" and "unat base * 2 ^ n < 2 ^ 64"
  shows "create_pool_with_retries checks (Suc fuel) conn base max_retries n (of_nat n) =
    map_option (apsnd ((#) (unat base * 2 ^ n))) (create_pool_with_retries checks fuel conn base max_retries (n + 1) (of_nat (n + 1)))"
proof -
  have small: "unat (of_nat (n + 1) :: u32) = n + 1" using assms(3) by (intro unat_of_nat_small) simp
  have next_attempt: "of_nat n + 1 = (of_nat (n + 1) :: u32)" by simp
  have "of_nat n \<noteq> (- 1 :: u32)" using small assms(3) by (metis add.commute add.right_inverse next_attempt Suc_eq_plus1 nat.distinct(1) unat_0)
  moreover have "\<not> max_retries < of_nat (n + 1)" using assms(2) small by (simp only: word_less_nat_alt)
  moreover have "pow2_u32 checks (unat (of_nat (n + 1) :: u32) - 1) = Some (2 ^ n)" using assms(3) by (simp only: small pow2_u32_def) simp
  moreover have "unat (2 ^ n :: u32) = 2 ^ n" 
  proof -
    have "(2 :: nat) ^ n < 2 ^ 32" using assms(3) by (intro power_strict_increasing) simp_all
    then show ?thesis using unat_of_nat_small [of "2 ^ n"] by simp
  qed
  ultimately show ?thesis using assms(1,4)
    by (simp only: create_pool_with_retries.simps next_attempt Let_def sum.case option.case if_False simp_thms not_le [symmetric])
qed

lemma retry_steps:
  assumes "\<And>j. j < k \<Longrightarrow> \<not> is_ok (conn (n + j))" and "n + k \<le> unat max_retries" and "n + k \<le> 32" and "unat base * 2 ^ 31 < 2 ^ 64"
  shows "create_pool_with_retries checks (k + fuel) conn base max_retries n (of_nat n) =
    map_option (apsnd ((@) (map (\<lambda>j. unat base * 2 ^ j) [n..<n + k])))
      (create_pool_with_retries checks fuel conn base max_retries (n + k) (of_nat (n + k)))"
  using assms(1-3)
proof (induction k arbitrary: n)
  case 0
  show ?case by (cases "create_pool_with_retries checks fuel conn base max_retries n (of_nat n)") (simp_all add: apsnd_def map_prod_def split_def)
next
  case (Suc k)
  obtain e where e: "conn n = Inl e" using Suc.prems(1) [of 0] by (cases "conn n") auto
  have "(2 :: nat) ^ n \<le> 2 ^ 31" using Suc.prems(3) by (intro power_increasing) simp_all
  then have "unat base * 2 ^ n \<le> unat base * 2 ^ 31" by (rule mult_le_mono2)
  from this assms(4) have "unat base * 2 ^ n < 2 ^ 64" by (rule le_less_trans)
  with retry_step [of conn n e max_retries base checks "k + fuel"] e Suc.prems(2,3)
  have "create_pool_with_retries checks (Suc (k + fuel)) conn base max_retries n (of_nat n) =
    map_option (apsnd ((#) (unat base * 2 ^ n))) (create_pool_with_retries checks (k + fuel) conn base max_retries (n + 1) (of_nat (n + 1)))"
    by simp
  also have "create_pool_with_retries checks (k + fuel) conn base max_retries (n + 1) (of_nat (n + 1)) =
      map_option (apsnd ((@) (map (\<lambda>j. unat base * 2 ^ j) [n + 1..<n + 1 + k])))
      (create_pool_with_retries checks fuel conn base max_retries (n + 1 + k) (of_nat (n + 1 + k)))"
    using Suc.prems Suc.prems(1) [of "Suc _"] by (intro Suc.IH) auto
  finally have run: "create_pool_with_retries checks (Suc (k + fuel)) conn base max_retries n (of_nat n) =
      map_option (apsnd ((#) (unat base * 2 ^ n))) (map_option (apsnd ((@) (map (\<lambda>j. unat base * 2 ^ j) [n + 1..<n + 1 + k])))
      (create_pool_with_retries checks fuel conn base max_retries (n + 1 + k) (of_nat (n + 1 + k))))" .
  have "[n..<n + Suc k] = n # [n + 1..<n + 1 + k]" by (simp add: upt_conv_Cons del: upt_Suc)
  moreover have "n + Suc k = n + 1 + k" by simp
  ultimately show ?case unfolding add_Suc run
    by (simp only: option.map_comp o_def list.map append_Cons) (simp add: apsnd_def map_prod_def split_def del: upt_Suc)
qed



text \<open>
  More than 32 retries break the waits. The multiplier is a power of two in 32 bits, so when the
  first 33 attempts fail a debug build panics before the 33rd wait, and a release build goes on with
  waits of no length at all, retrying as fast as the driver fails.
\<close>

theorem retry_overflow:
  assumes "33 \<le> unat max_retries" and "unat base * 2 ^ 31 < 2 ^ 64" and "\<forall>j \<le> 32. \<not> is_ok (conn j)"
  shows "create_pool True (fuel + 33) conn base max_retries = Some (ConnPanic, map (\<lambda>j. unat base * 2 ^ j) [0..<32]) \<and>
    (\<forall>r delays. create_pool False (fuel + 33) conn base max_retries = Some (r, delays) \<longrightarrow>
      (\<exists>rest. delays = map (\<lambda>j. unat base * 2 ^ j) [0..<32] @ 0 # rest))"
proof -
  have run: "create_pool checks (fuel + 33) conn base max_retries =
      map_option (apsnd ((@) (map (\<lambda>j. unat base * 2 ^ j) [0..<32])))
        (create_pool_with_retries checks (Suc fuel) conn base max_retries 32 32)" for checks
    using retry_steps [of 32 conn 0 max_retries base checks "Suc fuel"] assms by (simp add: create_pool_def add.commute)
  obtain e where e: "conn 32 = Inl e" using assms(3) by (cases "conn 32") auto
  have "unat (33 :: u32) = 33" "\<not> max_retries < (33 :: u32)" using assms(1) by (simp_all add: word_less_nat_alt)
  then have "create_pool_with_retries True (Suc fuel) conn base max_retries 32 32 = Some (ConnPanic, [])"
    and "create_pool_with_retries False (Suc fuel) conn base max_retries 32 32 =
      map_option (apsnd ((#) 0)) (create_pool_with_retries False fuel conn base max_retries 33 33)"
    using e by (simp_all add: pow2_u32_def Let_def)
  then show ?thesis unfolding run by (auto simp: map_option_case split: option.splits)
qed

theorem retry_overflow_witness:
  "create_pool True 33 (\<lambda>n :: nat. Inl RateLimitExceeded :: error + nat) 2 40 =
     Some (ConnPanic, map (\<lambda>j. unat (2 :: u64) * 2 ^ j) [0..<32])"
  using conjunct1 [OF retry_overflow [of 40 2 "\<lambda>n. Inl RateLimitExceeded :: error + nat" 0]] by simp

subsection \<open>Waiting for a pool\<close>

text \<open>
  An agent with its mailbox, its connection task (\<open>pq_attempt\<close>) and its callers; \<open>send\<close> is how the task reports
  a result. \<open>pq_asked\<close>, \<open>pq_sent\<close> and \<open>pq_lost\<close> record who asked, what was answered and whether the task
  ended without a message.
\<close>

record 'p pool_system =
  pq_state :: "'p pool_state"
  pq_mailbox :: "'p pool_message list"
  pq_attempt :: bool
  pq_lost :: bool
  pq_asked :: "reply list"
  pq_sent :: "(reply \<times> component_health) list"

definition pool_init :: "string \<Rightarrow> bool \<Rightarrow> 'p pool_system" where
  "pool_init name shared =
     \<lparr>pq_state = pool_spawn name shared, pq_mailbox = [], pq_attempt = True, pq_lost = False, pq_asked = [], pq_sent = []\<rparr>"

definition pool_settle :: "'p pool_message option \<Rightarrow> 'p pool_system \<Rightarrow> 'p pool_system" where
  "pool_settle m s =
     (case m of
        Some m \<Rightarrow> s\<lparr>pq_attempt := False, pq_mailbox := pq_mailbox s @ [m]\<rparr>
      | None \<Rightarrow> s\<lparr>pq_attempt := False, pq_lost := True\<rparr>)"

definition pool_turn :: "'p pool_system \<Rightarrow> 'p pool_system" where
  "pool_turn s =
     (case pq_mailbox s of
        [] \<Rightarrow> s
      | m # ms \<Rightarrow> (case on_pool_message m (pq_state s) of
          (st, replies) \<Rightarrow> s\<lparr>pq_state := st, pq_mailbox := ms, pq_sent := pq_sent s @ replies\<rparr>))"

inductive pool_step :: "('p connect_result \<Rightarrow> 'p pool_message option) \<Rightarrow> 'p pool_system \<Rightarrow> 'p pool_system \<Rightarrow> bool" for send where
  settle: "pq_attempt s \<Longrightarrow> pool_step send s (pool_settle (send r) s)"
| pool_turn: "pq_mailbox s \<noteq> [] \<Longrightarrow> pool_step send s (pool_turn s)"
| ask_ready: "pool_step send s (s\<lparr>pq_mailbox := pq_mailbox s @ [WaitForPoolReady w], pq_asked := w # pq_asked s\<rparr>)"
| ask_health: "pool_step send s (s\<lparr>pq_mailbox := pq_mailbox s @ [GetPoolHealth w], pq_asked := w # pq_asked s\<rparr>)"

inductive_cases pool_stepE: "pool_step send s s'"

inductive pool_reachable :: "('p connect_result \<Rightarrow> 'p pool_message option) \<Rightarrow> string \<Rightarrow> bool \<Rightarrow> 'p pool_system \<Rightarrow> bool"
  for send name shared where
  pool_start: "pool_reachable send name shared (pool_init name shared)"
| pool_next: "pool_reachable send name shared s \<Longrightarrow> pool_step send s s' \<Longrightarrow> pool_reachable send name shared s'"

fun is_settle :: "'p pool_message \<Rightarrow> bool" where
  "is_settle (PoolConnected p) = True"
| "is_settle (PoolConnectionFailed e) = True"
| "is_settle _ = False"

fun asker :: "'p pool_message \<Rightarrow> reply list" where
  "asker (WaitForPoolReady w) = [w]"
| "asker (GetPoolHealth w) = [w]"
| "asker _ = []"

definition pool_inv :: "'p pool_system \<Rightarrow> bool" where
  "pool_inv s \<longleftrightarrow>
     (pp_connecting (pq_state s) \<longleftrightarrow> pq_attempt s \<or> pq_lost s \<or> (\<exists>m \<in> set (pq_mailbox s). is_settle m)) \<and>
     length (filter is_settle (pq_mailbox s)) + of_bool (pq_attempt s) + of_bool (pq_lost s) \<le> 1 \<and>
     (pp_ready_waiters (pq_state s) \<noteq> [] \<longrightarrow> pp_connecting (pq_state s)) \<and>
     (\<forall>slot. pp_shared (pq_state s) = Some slot \<longrightarrow> slot = pp_pool (pq_state s)) \<and>
     set (pq_asked s) \<subseteq> fst ` set (pq_sent s) \<union> set (pp_ready_waiters (pq_state s)) \<union> set (concat (map asker (pq_mailbox s)))"

lemma pool_inv_turn:
  assumes "pool_inv s" and "pq_mailbox s = m # ms"
  shows "pool_inv (pool_turn s)"
proof (cases "is_settle m")
  case True
  then have "filter is_settle ms = []" "\<not> pq_attempt s" "\<not> pq_lost s"
    using assms by (auto simp: pool_inv_def split: if_splits)
  then have "\<forall>x \<in> set ms. \<not> is_settle x" by (simp add: filter_empty_conv)
  with True assms \<open>\<not> pq_attempt s\<close> \<open>\<not> pq_lost s\<close> show ?thesis
    by (cases m) (auto simp: pool_inv_def pool_turn_def pool_handlers image_Un image_image)
next
  case False
  with assms show ?thesis
    by (cases m) (auto simp: pool_inv_def pool_turn_def pool_handlers split: if_splits)
qed

lemma pool_inv_step:
  assumes "pool_inv s" and "pool_step send s s'" and "\<And>r m. send r = Some m \<Longrightarrow> is_settle m"
  shows "pool_inv s'"
  using assms(2)
proof (rule pool_stepE)
  fix r assume "s' = pool_settle (send r) s" "pq_attempt s"
  then show ?thesis using assms(1) assms(3) [of r]
    by (cases "send r") (auto simp: pool_inv_def pool_settle_def)
next
  assume "s' = pool_turn s" "pq_mailbox s \<noteq> []"
  then show ?thesis using pool_inv_turn [OF assms(1)] by (cases "pq_mailbox s") auto
qed (use assms(1) in \<open>auto simp: pool_inv_def\<close>)

lemma pool_inv_reachable:
  assumes "\<And>r m. send r = Some m \<Longrightarrow> is_settle m"
  shows "pool_reachable send name shared s \<Longrightarrow> pool_inv s"
proof (induction rule: pool_reachable.induct)
  case pool_start
  show ?case by (simp add: pool_inv_def pool_init_def pool_spawn_def)
next
  case (pool_next s s')
  then show ?case using pool_inv_step assms by blast
qed

lemma attempts_settle:
  "raced_attempt c r = Some m \<Longrightarrow> is_settle m" "joined_attempt j r = Some m \<Longrightarrow> is_settle m"
  by (cases r; auto simp: raced_attempt_def joined_attempt_def split: if_splits)+

lemma joined_never_lost: "pool_reachable (joined_attempt j) name shared s \<Longrightarrow> \<not> pq_lost s"
proof (induction rule: pool_reachable.induct)
  case (pool_next s s')
  from pool_next.hyps(2) pool_next.IH show ?case
  proof (cases rule: pool_step.cases)
    case (settle r)
    then show ?thesis using pool_next.IH by (cases r) (auto simp: pool_settle_def joined_attempt_def)
  qed (auto simp: pool_turn_def split: list.splits prod.splits)
qed (simp add: pool_init_def)

text \<open>
  C33: who waits for a pool is answered. When the connection task is over and the mailbox is empty, every
  caller that ever asked has its answer, no one is parked, the agent no longer reports that it is connecting, and
  the slot the application reads holds exactly the agent's pool. For the Redis, NATS and ClickHouse agents
  this always holds; for the database, Turso and SurrealDB agents unless the connection task panicked: then the
  agent reports connecting forever.
\<close>

theorem pool_waiters_answered:
  fixes s :: "'p pool_system"
  assumes "pool_reachable send name shared s" and "send = joined_attempt j \<or> send = raced_attempt c"
    and "\<not> pq_attempt s" and "pq_mailbox s = []"
  shows "if pq_lost s then send = raced_attempt c \<and> pp_connecting (pq_state s)
    else set (pq_asked s) \<subseteq> fst ` set (pq_sent s) \<and> pp_ready_waiters (pq_state s) = [] \<and> \<not> pp_connecting (pq_state s) \<and>
      (\<forall>slot. pp_shared (pq_state s) = Some slot \<longrightarrow> slot = pp_pool (pq_state s))"
proof -
  have "send r = Some m \<Longrightarrow> is_settle m" for r m using assms(2) attempts_settle by metis
  from pool_inv_reachable [OF this assms(1)] have inv: "pool_inv s" .
  show ?thesis
  proof (cases "pq_lost s")
    case True
    with joined_never_lost assms(1,2) have "send = raced_attempt c" by blast
    with True inv show ?thesis by (simp add: pool_inv_def)
  next
    case False
    then have "\<not> pp_connecting (pq_state s)" using inv assms(3,4) by (simp add: pool_inv_def)
    with inv False assms(4) show ?thesis by (auto simp: pool_inv_def)
  qed
qed

theorem pool_waiters_answered_witness:
  "\<exists>s :: nat pool_system. pool_reachable (joined_attempt ''j'') ''cache'' True s \<and> pq_asked s = [7] \<and>
     7 \<in> fst ` set (pq_sent s) \<and> pp_shared (pq_state s) = Some (Some 3)"
proof -
  let ?send = "joined_attempt ''j'' :: nat connect_result \<Rightarrow> _"
  let ?s0 = "pool_init ''cache'' True :: nat pool_system"
  let ?s1 = "?s0\<lparr>pq_mailbox := pq_mailbox ?s0 @ [WaitForPoolReady 7], pq_asked := 7 # pq_asked ?s0\<rparr>"
  let ?s2 = "pool_turn ?s1" let ?s3 = "pool_settle (?send (ConnOk 3)) ?s2" let ?s4 = "pool_turn ?s3"
  note eval = pool_init_def pool_spawn_def pool_turn_def pool_settle_def pool_handlers joined_attempt_def
  have "pool_reachable ?send ''cache'' True ?s1" by (rule pool_next [OF pool_start ask_ready])
  then have "pool_reachable ?send ''cache'' True ?s2" by (rule pool_next [OF _ pool_step.pool_turn]) (simp add: eval)
  then have "pool_reachable ?send ''cache'' True ?s3" by (rule pool_next [OF _ settle]) (simp add: eval)
  then have r: "pool_reachable ?send ''cache'' True ?s4" by (rule pool_next [OF _ pool_step.pool_turn]) (simp add: eval)
  have "\<not> pq_attempt ?s4" "pq_mailbox ?s4 = []" "\<not> pq_lost ?s4" "pq_asked ?s4 = [7]" "pp_shared (pq_state ?s4) = Some (Some 3)"
    by (simp_all add: eval)
  with pool_waiters_answered [OF r disjI1 [OF refl]] r show ?thesis by (intro exI [of _ ?s4]) simp
qed

end
