(* ===== verification/Token_Generation.thy ===== *)
theory Token_Generation
  imports Token_Auth
begin

text \<open>
  Token generation (\<^verbatim>\<open>src/acton-service/src/auth/tokens/\<close>): the claims builder (\<^verbatim>\<open>mod.rs\<close>), the JWT
  generator (\<^verbatim>\<open>jwt_generator.rs\<close>) and the PASETO generator (\<^verbatim>\<open>paseto_generator.rs\<close>), each with the
  signing key of the key manager where one is configured. The builders and encoders of the crates
  \<^verbatim>\<open>jsonwebtoken\<close>, \<^verbatim>\<open>rusty_paseto\<close>, \<^verbatim>\<open>serde_json\<close> and \<^verbatim>\<open>chrono\<close> are the parameters \<open>jwt_gen_env\<close> and
  \<open>paseto_gen_env\<close>; the clock and the random identifier of a token are arguments. The result is
  compared with the validators of theory \<open>Token_Auth\<close>. The result \<open>None\<close> is a panic.
\<close>

subsection \<open>The claims builder\<close>

record token_pair =
  tp_access_token :: string
  tp_refresh_token :: string
  tp_token_type :: string
  tp_expires_in :: int
  tp_refresh_expires_in :: int

definition token_pair_new :: "string \<Rightarrow> string \<Rightarrow> int \<Rightarrow> int \<Rightarrow> token_pair" where
  "token_pair_new access_token refresh_token expires_in refresh_expires_in =
     \<lparr>tp_access_token = access_token, tp_refresh_token = refresh_token, tp_token_type = ''Bearer'',
      tp_expires_in = expires_in, tp_refresh_expires_in = refresh_expires_in\<rparr>"

record claims_builder =
  cb_sub :: "string option"
  cb_email :: "string option"
  cb_username :: "string option"
  cb_roles :: "string list"
  cb_perms :: "string list"
  cb_iss :: "string option"
  cb_aud :: "string option"
  cb_custom :: "(string \<times> json) list"

definition claims_builder_new :: claims_builder where
  "claims_builder_new =
     \<lparr>cb_sub = None, cb_email = None, cb_username = None, cb_roles = [], cb_perms = [], cb_iss = None,
      cb_aud = None, cb_custom = []\<rparr>"

definition cb_subject :: "string \<Rightarrow> claims_builder \<Rightarrow> claims_builder" where
  "cb_subject sub b = b\<lparr>cb_sub := Some sub\<rparr>"

definition cb_user :: "string \<Rightarrow> claims_builder \<Rightarrow> claims_builder" where
  "cb_user user_id b = b\<lparr>cb_sub := Some (''user:'' @ user_id)\<rparr>"

definition cb_client :: "string \<Rightarrow> claims_builder \<Rightarrow> claims_builder" where
  "cb_client client_id b = b\<lparr>cb_sub := Some (''client:'' @ client_id)\<rparr>"

definition cb_set_email :: "string \<Rightarrow> claims_builder \<Rightarrow> claims_builder" where
  "cb_set_email email b = b\<lparr>cb_email := Some email\<rparr>"

definition cb_set_username :: "string \<Rightarrow> claims_builder \<Rightarrow> claims_builder" where
  "cb_set_username username b = b\<lparr>cb_username := Some username\<rparr>"

definition cb_role :: "string \<Rightarrow> claims_builder \<Rightarrow> claims_builder" where
  "cb_role role b = b\<lparr>cb_roles := cb_roles b @ [role]\<rparr>"

definition cb_extend_roles :: "string list \<Rightarrow> claims_builder \<Rightarrow> claims_builder" where
  "cb_extend_roles roles b = b\<lparr>cb_roles := cb_roles b @ roles\<rparr>"

definition cb_permission :: "string \<Rightarrow> claims_builder \<Rightarrow> claims_builder" where
  "cb_permission perm b = b\<lparr>cb_perms := cb_perms b @ [perm]\<rparr>"

definition cb_permissions :: "string list \<Rightarrow> claims_builder \<Rightarrow> claims_builder" where
  "cb_permissions perms b = b\<lparr>cb_perms := cb_perms b @ perms\<rparr>"

definition cb_issuer :: "string \<Rightarrow> claims_builder \<Rightarrow> claims_builder" where
  "cb_issuer iss b = b\<lparr>cb_iss := Some iss\<rparr>"

definition cb_audience :: "string \<Rightarrow> claims_builder \<Rightarrow> claims_builder" where
  "cb_audience aud b = b\<lparr>cb_aud := Some aud\<rparr>"

definition cb_custom_claim :: "string \<Rightarrow> json \<Rightarrow> claims_builder \<Rightarrow> claims_builder" where
  "cb_custom_claim key v b = b\<lparr>cb_custom := AList.update key v (cb_custom b)\<rparr>"

fun cb_custom_claims :: "(string \<times> json) list \<Rightarrow> claims_builder \<Rightarrow> claims_builder" where
  "cb_custom_claims [] b = b"
| "cb_custom_claims ((key, v) # claims) b = cb_custom_claims claims (cb_custom_claim key v b)"

definition cb_build :: "claims_builder \<Rightarrow> error + claims" where
  "cb_build b =
     (case cb_sub b of
        None \<Rightarrow> Inl (ValidationError ''Subject (sub) is required'')
      | Some sub \<Rightarrow>
          Inr \<lparr>cl_sub = sub, cl_email = cb_email b, cl_username = cb_username b, cl_roles = cb_roles b,
               cl_perms = cb_perms b, cl_exp = 0, cl_iat = None, cl_jti = None, cl_iss = cb_iss b,
               cl_aud = cb_aud b, cl_custom = cb_custom b\<rparr>)"

subsection \<open>Lifetimes\<close>

text \<open>
  \<^verbatim>\<open>i64\<close> lifetimes are words. A configured lifetime is cast to \<^verbatim>\<open>u64\<close>, becomes a \<^verbatim>\<open>Duration\<close>, and its
  whole seconds are cast back.
\<close>

record token_generation_config =
  tg_access_token_lifetime_secs :: u64
  tg_issuer :: "string option"
  tg_audience :: "string option"
  tg_include_jti :: bool

definition default_token_generation_config :: token_generation_config where
  "default_token_generation_config =
     \<lparr>tg_access_token_lifetime_secs = 900, tg_issuer = None, tg_audience = None, tg_include_jti = True\<rparr>"

definition token_default_lifetime :: "token_generation_config \<Rightarrow> nat" where
  "token_default_lifetime config = from_secs (unat (tg_access_token_lifetime_secs config))"

definition secs_as_i64 :: "nat \<Rightarrow> int" where
  "secs_as_i64 d = sint (word_of_nat (as_secs d) :: u64)"

text \<open>\<^verbatim>\<open>DateTime::timestamp\<close>: whole seconds since the epoch, rounded down.\<close>

definition timestamp :: "datetime \<Rightarrow> int" where
  "timestamp t = t div int nanos_per_sec"

text \<open>The identifier of a token: a new one, or the one of the claims.\<close>

definition token_jti :: "token_generation_config \<Rightarrow> string \<Rightarrow> claims \<Rightarrow> string option" where
  "token_jti config new_v4 claims = (if tg_include_jti config then Some new_v4 else cl_jti claims)"

subsection \<open>The JWT generator\<close>

record jwt_generation_config =
  jg_private_key_path :: string
  jg_algorithm :: string
  jg_cfg_issuer :: "string option"
  jg_cfg_audience :: "string option"

record jwt_claims =
  jp_sub :: string
  jp_exp :: int
  jp_iat :: int
  jp_jti :: "string option"
  jp_iss :: "string option"
  jp_aud :: "string option"
  jp_email :: "string option"
  jp_username :: "string option"
  jp_roles :: "string list"
  jp_perms :: "string list"
  jp_custom :: "(string \<times> json) list"

text \<open>
  \<open>je_encode algorithm kid entries key\<close> signs the JSON object with these entries; a repeated key is
  written twice.
\<close>

record 'k jwt_gen_env =
  je_read :: "string \<Rightarrow> string + u8 list"
  je_upper :: "string \<Rightarrow> string"
  je_rsa_pem :: "u8 list \<Rightarrow> string + 'k"
  je_ec_pem :: "u8 list \<Rightarrow> string + 'k"
  je_secret :: "u8 list \<Rightarrow> 'k"
  je_encode :: "jwt_algorithm \<Rightarrow> string option \<Rightarrow> (string \<times> json) list \<Rightarrow> 'k \<Rightarrow> string + string"

record 'k jwt_generator =
  jt_encoding_key :: 'k
  jt_algorithm :: jwt_algorithm
  jt_config :: token_generation_config
  jt_issuer :: "string option"
  jt_audience :: "string option"
  jt_has_key_manager :: bool

definition opt_entry :: "string \<Rightarrow> string option \<Rightarrow> (string \<times> json) list" where
  "opt_entry key v = (case v of Some s \<Rightarrow> [(key, JString s)] | None \<Rightarrow> [])"

definition list_entry :: "string \<Rightarrow> string list \<Rightarrow> (string \<times> json) list" where
  "list_entry key xs = (if xs = [] then [] else [(key, JArray (map JString xs))])"

text \<open>The derived \<^verbatim>\<open>Serialize\<close>: fields in order, empty ones skipped, the custom claims flattened at the end.\<close>

definition jwt_entries :: "jwt_claims \<Rightarrow> (string \<times> json) list" where
  "jwt_entries p =
     [(''sub'', JString (jp_sub p)), (''exp'', JNumber (show_i64 (jp_exp p))), (''iat'', JNumber (show_i64 (jp_iat p)))] @
     opt_entry ''jti'' (jp_jti p) @ opt_entry ''iss'' (jp_iss p) @ opt_entry ''aud'' (jp_aud p) @
     opt_entry ''email'' (jp_email p) @ opt_entry ''username'' (jp_username p) @
     list_entry ''roles'' (jp_roles p) @ list_entry ''perms'' (jp_perms p) @ jp_custom p"

definition parse_algorithm :: "'k jwt_gen_env \<Rightarrow> string \<Rightarrow> error + jwt_algorithm" where
  "parse_algorithm env alg =
     (case map_of algorithm_names (je_upper env alg) of
        Some a \<Rightarrow> Inr a
      | None \<Rightarrow> Inl (Config (''Unsupported JWT algorithm: '' @ alg)))"

definition create_encoding_key :: "'k jwt_gen_env \<Rightarrow> u8 list \<Rightarrow> jwt_algorithm \<Rightarrow> error + 'k" where
  "create_encoding_key env key_bytes algorithm =
     (if is_rsa algorithm
      then (case je_rsa_pem env key_bytes of Inl e \<Rightarrow> Inl (Jwt e) | Inr k \<Rightarrow> Inr k)
      else if is_ec algorithm
      then (case je_ec_pem env key_bytes of Inl e \<Rightarrow> Inl (Jwt e) | Inr k \<Rightarrow> Inr k)
      else if is_hmac algorithm then Inr (je_secret env key_bytes)
      else Inl (Config ''Unsupported algorithm for key creation''))"

definition jwt_generator_new ::
  "'k jwt_gen_env \<Rightarrow> jwt_generation_config \<Rightarrow> token_generation_config \<Rightarrow> error + 'k jwt_generator" where
  "jwt_generator_new env jwt_config token_config =
     (case je_read env (jg_private_key_path jwt_config) of
        Inl e \<Rightarrow> Inl (Config (''Failed to read JWT private key '' @ [CHR 0x27] @ jg_private_key_path jwt_config
                   @ [CHR 0x27] @ '': '' @ e))
      | Inr key_bytes \<Rightarrow>
     (case parse_algorithm env (jg_algorithm jwt_config) of
        Inl e \<Rightarrow> Inl e
      | Inr algorithm \<Rightarrow>
     (case create_encoding_key env key_bytes algorithm of
        Inl e \<Rightarrow> Inl e
      | Inr encoding_key \<Rightarrow>
          Inr \<lparr>jt_encoding_key = encoding_key, jt_algorithm = algorithm, jt_config = token_config,
               jt_issuer = or_else (jg_cfg_issuer jwt_config) (tg_issuer token_config),
               jt_audience = or_else (jg_cfg_audience jwt_config) (tg_audience token_config),
               jt_has_key_manager = False\<rparr>)))"

definition jwt_with_issuer :: "string \<Rightarrow> 'k jwt_generator \<Rightarrow> 'k jwt_generator" where
  "jwt_with_issuer issuer g = g\<lparr>jt_issuer := Some issuer\<rparr>"

definition jwt_with_audience :: "string \<Rightarrow> 'k jwt_generator \<Rightarrow> 'k jwt_generator" where
  "jwt_with_audience audience g = g\<lparr>jt_audience := Some audience\<rparr>"

definition jwt_gen_with_key_manager :: "'k jwt_generator \<Rightarrow> 'k jwt_generator" where
  "jwt_gen_with_key_manager g = g\<lparr>jt_has_key_manager := True\<rparr>"

text \<open>The sum of the timestamp and the lifetime is an \<^verbatim>\<open>i64\<close>; it wraps in a release build.\<close>

definition jwt_payload :: "'k jwt_generator \<Rightarrow> datetime \<Rightarrow> string \<Rightarrow> claims \<Rightarrow> nat \<Rightarrow> jwt_claims" where
  "jwt_payload g now new_v4 claims expires_in =
     \<lparr>jp_sub = cl_sub claims, jp_exp = sint (word_of_int (timestamp now + secs_as_i64 expires_in) :: u64),
      jp_iat = timestamp now, jp_jti = token_jti (jt_config g) new_v4 claims,
      jp_iss = or_else (jt_issuer g) (cl_iss claims), jp_aud = or_else (jt_audience g) (cl_aud claims),
      jp_email = cl_email claims, jp_username = cl_username claims, jp_roles = cl_roles claims,
      jp_perms = cl_perms claims, jp_custom = cl_custom claims\<rparr>"

definition jwt_encode ::
  "'k jwt_gen_env \<Rightarrow> 'k jwt_generator \<Rightarrow> string option \<Rightarrow> jwt_claims \<Rightarrow> 'k \<Rightarrow> error + string" where
  "jwt_encode env g kid payload key =
     (case je_encode env (jt_algorithm g) kid (jwt_entries payload) key of
        Inl e \<Rightarrow> Inl (Jwt e) | Inr token \<Rightarrow> Inr token)"

definition jwt_generate_internal ::
  "'k jwt_gen_env \<Rightarrow> crypto_env \<Rightarrow> 's key_ops \<Rightarrow> datetime \<Rightarrow> instant \<Rightarrow> string \<Rightarrow> 'k jwt_generator \<Rightarrow> claims \<Rightarrow> nat \<Rightarrow>
     key_manager \<Rightarrow> 's \<Rightarrow> (error + string) \<times> key_manager" where
  "jwt_generate_internal env cy ops now instant_now new_v4 g claims expires_in km st =
     (let jwt_claims = jwt_payload g now new_v4 claims expires_in
      in if jt_has_key_manager g
         then (case get_signing_key cy ops instant_now km st of
                 (Inl e, km') \<Rightarrow> (Inl e, km')
               | (Inr (Some cached), km') \<Rightarrow>
                   (case create_encoding_key env (ck_key_material cached) (jt_algorithm g) of
                      Inl e \<Rightarrow> (Inl e, km')
                    | Inr encoding_key \<Rightarrow> (jwt_encode env g (Some (ck_kid cached)) jwt_claims encoding_key, km'))
               | (Inr None, km') \<Rightarrow> (jwt_encode env g None jwt_claims (jt_encoding_key g), km'))
         else (jwt_encode env g None jwt_claims (jt_encoding_key g), km))"

definition jwt_generate_token ::
  "'k jwt_gen_env \<Rightarrow> crypto_env \<Rightarrow> 's key_ops \<Rightarrow> datetime \<Rightarrow> instant \<Rightarrow> string \<Rightarrow> 'k jwt_generator \<Rightarrow> claims \<Rightarrow>
     key_manager \<Rightarrow> 's \<Rightarrow> (error + string) \<times> key_manager" where
  "jwt_generate_token env cy ops now instant_now new_v4 g claims km st =
     jwt_generate_internal env cy ops now instant_now new_v4 g claims
       (from_secs (unat (tg_access_token_lifetime_secs (jt_config g)))) km st"

subsection \<open>The PASETO generator\<close>

record paseto_generation_config =
  pg_version :: string
  pg_purpose :: string
  pg_key_path :: string
  pg_cfg_issuer :: "string option"
  pg_cfg_audience :: "string option"

datatype paseto_claim =
  SubjectClaim string
| ExpirationClaim string
| IssuedAtClaim string
| TokenIdentifierClaim string
| IssuerClaim string
| AudienceClaim string
| CustomClaim string string

text \<open>
  \<open>ge_plus_seconds\<close> is \<^verbatim>\<open>DateTime + chrono::Duration::seconds\<close> with \<open>None\<close> where either panics,
  \<open>ge_rfc3339\<close> and \<open>ge_print\<close> are printers. \<open>ge_expiration\<close>, \<open>ge_issued_at\<close> and \<open>ge_custom\<close> give the error
  of the fallible claim constructors, if any. \<open>ge_build purpose key claims footer\<close> encrypts or
  signs the claims set on a default builder.
\<close>

record paseto_gen_env =
  ge_read :: "string \<Rightarrow> string + u8 list"
  ge_plus_seconds :: "datetime \<Rightarrow> int \<Rightarrow> datetime option"
  ge_rfc3339 :: "datetime \<Rightarrow> string"
  ge_print :: "json \<Rightarrow> string"
  ge_expiration :: "string \<Rightarrow> string option"
  ge_issued_at :: "string \<Rightarrow> string option"
  ge_custom :: "string \<Rightarrow> string \<Rightarrow> string option"
  ge_build :: "paseto_purpose \<Rightarrow> u8 list \<Rightarrow> paseto_claim list \<Rightarrow> string option \<Rightarrow> string + string"

record paseto_generator =
  pt_purpose :: paseto_purpose
  pt_key_bytes :: "u8 list"
  pt_config :: token_generation_config
  pt_issuer :: "string option"
  pt_audience :: "string option"
  pt_has_key_manager :: bool

definition paseto_generator_with ::
  "paseto_purpose \<Rightarrow> u8 list \<Rightarrow> token_generation_config \<Rightarrow> paseto_generator" where
  "paseto_generator_with purpose key config =
     \<lparr>pt_purpose = purpose, pt_key_bytes = key, pt_config = config, pt_issuer = None, pt_audience = None,
      pt_has_key_manager = False\<rparr>"

definition paseto_generator_new ::
  "paseto_gen_env \<Rightarrow> paseto_generation_config \<Rightarrow> token_generation_config \<Rightarrow> error + paseto_generator" where
  "paseto_generator_new env paseto_config token_config =
     (let issuer = or_else (pg_cfg_issuer paseto_config) (tg_issuer token_config);
          audience = or_else (pg_cfg_audience paseto_config) (tg_audience token_config);
          with_key = (\<lambda>purpose key. (paseto_generator_with purpose key token_config)
            \<lparr>pt_issuer := issuer, pt_audience := audience\<rparr>)
      in case ge_read env (pg_key_path paseto_config) of
           Inl e \<Rightarrow> Inl (Config (''Failed to read PASETO key file '' @ [CHR 0x27] @ pg_key_path paseto_config
                      @ [CHR 0x27] @ '': '' @ e))
         | Inr key_bytes \<Rightarrow>
             if pg_version paseto_config = ''v4'' \<and> pg_purpose paseto_config = ''local''
             then (if length key_bytes \<noteq> 32
                   then Inl (Config (''V4 local key must be exactly 32 bytes, got '' @ show_nat (length key_bytes) @
                     '' bytes. Generate with: head -c 32 /dev/urandom > '' @ pg_key_path paseto_config))
                   else Inr (with_key Local key_bytes))
             else if pg_version paseto_config = ''v4'' \<and> pg_purpose paseto_config = ''public''
             then (if length key_bytes \<noteq> 64
                   then Inl (Config (''V4 public (private) key must be exactly 64 bytes (Ed25519 secret key), got '' @
                     show_nat (length key_bytes) @ '' bytes. See documentation for key generation instructions.''))
                   else Inr (with_key Public key_bytes))
             else Inl (Config (''Unsupported PASETO version/purpose: '' @ pg_version paseto_config @ ''/'' @
               pg_purpose paseto_config @ ''. Only v4/local and v4/public are supported.'')))"

definition paseto_with_issuer :: "string \<Rightarrow> paseto_generator \<Rightarrow> paseto_generator" where
  "paseto_with_issuer issuer g = g\<lparr>pt_issuer := Some issuer\<rparr>"

definition paseto_with_audience :: "string \<Rightarrow> paseto_generator \<Rightarrow> paseto_generator" where
  "paseto_with_audience audience g = g\<lparr>pt_audience := Some audience\<rparr>"

definition paseto_gen_with_key_manager :: "paseto_generator \<Rightarrow> paseto_generator" where
  "paseto_gen_with_key_manager g = g\<lparr>pt_has_key_manager := True\<rparr>"

text \<open>Assigning \<^verbatim>\<open>payload[key]\<close>, for an optional string, a list that may be empty, and the custom claims.\<close>

definition put_opt :: "string \<Rightarrow> string option \<Rightarrow> (string \<times> json) list \<Rightarrow> (string \<times> json) list" where
  "put_opt key v payload = (case v of Some s \<Rightarrow> AList.update key (JString s) payload | None \<Rightarrow> payload)"

definition put_list :: "string \<Rightarrow> string list \<Rightarrow> (string \<times> json) list \<Rightarrow> (string \<times> json) list" where
  "put_list key xs payload =
     (if xs = [] then payload else AList.update key (JArray (map JString xs)) payload)"

fun put_all :: "(string \<times> json) list \<Rightarrow> (string \<times> json) list \<Rightarrow> (string \<times> json) list" where
  "put_all [] payload = payload"
| "put_all ((key, v) # custom) payload = put_all custom (AList.update key v payload)"

definition paseto_payload ::
  "paseto_gen_env \<Rightarrow> paseto_generator \<Rightarrow> datetime \<Rightarrow> datetime \<Rightarrow> string \<Rightarrow> claims \<Rightarrow> (string \<times> json) list" where
  "paseto_payload env g now exp new_v4 claims =
     (let payload = [(''sub'', JString (cl_sub claims)), (''exp'', JString (ge_rfc3339 env exp)),
                     (''iat'', JString (ge_rfc3339 env now))];
          payload = put_opt ''jti'' (token_jti (pt_config g) new_v4 claims) payload;
          payload = put_opt ''email'' (cl_email claims) payload;
          payload = put_opt ''username'' (cl_username claims) payload;
          payload = put_list ''roles'' (cl_roles claims) payload;
          payload = put_list ''perms'' (cl_perms claims) payload;
          payload = put_all (cl_custom claims) payload;
          payload = put_opt ''iss'' (or_else (pt_issuer g) (cl_iss claims)) payload
      in put_opt ''aud'' (or_else (pt_audience g) (cl_aud claims)) payload)"

definition standard_keys :: "string list" where
  "standard_keys = [''sub'', ''exp'', ''iat'', ''jti'', ''iss'', ''aud'']"

definition normalize_value :: "paseto_gen_env \<Rightarrow> string \<Rightarrow> json \<Rightarrow> json" where
  "normalize_value env key v =
     (if List.member standard_keys key then v
      else if json_str v = None then JString (ge_print env v) else v)"

definition normalize_custom_claims :: "paseto_gen_env \<Rightarrow> (string \<times> json) list \<Rightarrow> (string \<times> json) list" where
  "normalize_custom_claims env payload = map (\<lambda>(key, v). (key, normalize_value env key v)) payload"

definition entry_str :: "(string \<times> json) list \<Rightarrow> string \<Rightarrow> string option" where
  "entry_str payload key = Option.bind (map_of payload key) json_str"

fun custom_builder_claims :: "paseto_gen_env \<Rightarrow> (string \<times> json) list \<Rightarrow> error + paseto_claim list" where
  "custom_builder_claims env [] = Inr []"
| "custom_builder_claims env ((key, v) # entries) =
     (if List.member standard_keys key then custom_builder_claims env entries
      else (case json_str v of
              None \<Rightarrow> Inl (Paseto (''Custom claim '' @ [CHR 0x27] @ key @ [CHR 0x27] @ '' is not a string after normalization''))
            | Some s \<Rightarrow>
                (case ge_custom env key s of
                   Some e \<Rightarrow> Inl (Paseto (''Invalid '' @ [CHR 0x27] @ key @ [CHR 0x27] @ '' claim: '' @ e))
                 | None \<Rightarrow>
                     (case custom_builder_claims env entries of
                        Inl e \<Rightarrow> Inl e
                      | Inr claims \<Rightarrow> Inr (CustomClaim key s # claims)))))"

text \<open>The claims set on the builder, in order.\<close>

definition opt_claim :: "(string \<Rightarrow> paseto_claim) \<Rightarrow> string option \<Rightarrow> paseto_claim list" where
  "opt_claim mk v = (case v of Some s \<Rightarrow> [mk s] | None \<Rightarrow> [])"

definition populate_builder_claims ::
  "paseto_gen_env \<Rightarrow> (string \<times> json) list \<Rightarrow> error + paseto_claim list" where
  "populate_builder_claims env payload =
     (case Option.bind (entry_str payload ''exp'') (ge_expiration env) of
        Some e \<Rightarrow> Inl (Paseto (''Invalid expiration: '' @ e))
      | None \<Rightarrow>
     (case Option.bind (entry_str payload ''iat'') (ge_issued_at env) of
        Some e \<Rightarrow> Inl (Paseto (''Invalid issued at: '' @ e))
      | None \<Rightarrow>
     (case custom_builder_claims env payload of
        Inl e \<Rightarrow> Inl e
      | Inr custom \<Rightarrow>
          Inr (opt_claim SubjectClaim (entry_str payload ''sub'') @
               opt_claim ExpirationClaim (entry_str payload ''exp'') @
               opt_claim IssuedAtClaim (entry_str payload ''iat'') @
               opt_claim TokenIdentifierClaim (entry_str payload ''jti'') @
               opt_claim IssuerClaim (entry_str payload ''iss'') @
               opt_claim AudienceClaim (entry_str payload ''aud'') @ custom))))"

definition generate_v4_with_footer ::
  "paseto_gen_env \<Rightarrow> paseto_purpose \<Rightarrow> u8 list \<Rightarrow> (string \<times> json) list \<Rightarrow> string \<Rightarrow> error + string" where
  "generate_v4_with_footer env purpose key payload footer =
     (case populate_builder_claims env (normalize_custom_claims env payload) of
        Inl e \<Rightarrow> Inl e
      | Inr claims \<Rightarrow>
          (case ge_build env purpose key claims (if footer \<noteq> [] then Some footer else None) of
             Inl e \<Rightarrow> Inl (Paseto (''Failed to build PASETO token: '' @ e))
           | Inr token \<Rightarrow> Inr token))"

definition generate_v4 ::
  "paseto_gen_env \<Rightarrow> paseto_purpose \<Rightarrow> u8 list \<Rightarrow> (string \<times> json) list \<Rightarrow> error + string" where
  "generate_v4 env purpose key payload = generate_v4_with_footer env purpose key payload []"

text \<open>\<^verbatim>\<open>to_32_byte_array\<close> and \<^verbatim>\<open>to_64_byte_array\<close>.\<close>

definition to_byte_array :: "nat \<Rightarrow> u8 list \<Rightarrow> error + u8 list" where
  "to_byte_array n bytes =
     (if length bytes = n then Inr bytes
      else Inl (Internal (''key material must be exactly '' @ show_nat n @ '' bytes, got '' @ show_nat (length bytes))))"

definition signing_key_len :: "paseto_purpose \<Rightarrow> nat" where
  "signing_key_len purpose = (case purpose of Local \<Rightarrow> 32 | Public \<Rightarrow> 64)"

definition paseto_generate_internal ::
  "paseto_gen_env \<Rightarrow> crypto_env \<Rightarrow> 's key_ops \<Rightarrow> datetime \<Rightarrow> instant \<Rightarrow> string \<Rightarrow> paseto_generator \<Rightarrow> claims \<Rightarrow> nat \<Rightarrow>
     key_manager \<Rightarrow> 's \<Rightarrow> ((error + string) \<times> key_manager) option" where
  "paseto_generate_internal env cy ops now instant_now new_v4 g claims expires_in km st =
     (case ge_plus_seconds env now (secs_as_i64 expires_in) of
        None \<Rightarrow> None
      | Some exp \<Rightarrow> Some (
     let payload = paseto_payload env g now exp new_v4 claims
     in if pt_has_key_manager g
        then (case get_signing_key cy ops instant_now km st of
                (Inl e, km') \<Rightarrow> (Inl e, km')
              | (Inr (Some cached), km') \<Rightarrow>
                  (case to_byte_array (signing_key_len (pt_purpose g)) (ck_key_material cached) of
                     Inl e \<Rightarrow> (Inl e, km')
                   | Inr key \<Rightarrow>
                       (generate_v4_with_footer env (pt_purpose g) key payload
                          (ge_print env (JObject [(''kid'', JString (ck_kid cached))])), km'))
              | (Inr None, km') \<Rightarrow> (generate_v4 env (pt_purpose g) (pt_key_bytes g) payload, km'))
        else (generate_v4 env (pt_purpose g) (pt_key_bytes g) payload, km)))"

definition paseto_generate_token ::
  "paseto_gen_env \<Rightarrow> crypto_env \<Rightarrow> 's key_ops \<Rightarrow> datetime \<Rightarrow> instant \<Rightarrow> string \<Rightarrow> paseto_generator \<Rightarrow> claims \<Rightarrow>
     key_manager \<Rightarrow> 's \<Rightarrow> ((error + string) \<times> key_manager) option" where
  "paseto_generate_token env cy ops now instant_now new_v4 g claims km st =
     paseto_generate_internal env cy ops now instant_now new_v4 g claims
       (from_secs (unat (tg_access_token_lifetime_secs (pt_config g)))) km st"

subsection \<open>Lifetimes survive the casts\<close>

lemma default_lifetime_secs: "secs_as_i64 (token_default_lifetime config) = sint (tg_access_token_lifetime_secs config)"
  by (simp add: secs_as_i64_def token_default_lifetime_def)

subsection \<open>The payload\<close>

lemma map_of_put_opt: "map_of (put_opt key v payload) k = (if k = key \<and> v \<noteq> None then map_option JString v else map_of payload k)"
  by (cases v) (auto simp: put_opt_def update_conv')

lemma map_of_put_list:
  "map_of (put_list key xs payload) k =
     (if k = key \<and> xs \<noteq> [] then Some (JArray (map JString xs)) else map_of payload k)"
  by (auto simp: put_list_def update_conv')

lemma map_of_put_all:
  "distinct (map fst custom) \<Longrightarrow>
   map_of (put_all custom payload) k = (case map_of custom k of Some v \<Rightarrow> Some v | None \<Rightarrow> map_of payload k)"
  by (induction custom payload rule: put_all.induct)
     (auto simp: update_conv' split: option.splits dest: map_of_SomeD intro: rev_image_eqI)

lemma distinct_put:
  "distinct (map fst payload) \<Longrightarrow> distinct (map fst (put_opt key v payload))"
  "distinct (map fst payload) \<Longrightarrow> distinct (map fst (put_list key xs payload))"
  "distinct (map fst payload) \<Longrightarrow> distinct (map fst (put_all custom payload))"
  by (simp_all add: put_opt_def put_list_def distinct_update split: option.splits)
     (induction custom payload rule: put_all.induct, simp_all add: distinct_update)

lemma distinct_paseto_payload: "distinct (map fst (paseto_payload env g now exp new_v4 claims))"
  unfolding paseto_payload_def Let_def by (intro distinct_put) simp

text \<open>What the payload holds under each key, when no custom claim uses that key.\<close>

lemmas map_of_put = map_of_put_opt map_of_put_list map_of_put_all

lemma payload_entries:
  fixes env g now exp new_v4 claims
  assumes "distinct (map fst (cl_custom claims))"
  defines "p \<equiv> map_of (paseto_payload env g now exp new_v4 claims)" and "custom \<equiv> map_of (cl_custom claims)"
  shows "p ''sub'' = Some (case custom ''sub'' of Some v \<Rightarrow> v | None \<Rightarrow> JString (cl_sub claims))"
    and "p ''exp'' = Some (case custom ''exp'' of Some v \<Rightarrow> v | None \<Rightarrow> JString (ge_rfc3339 env exp))"
    and "p ''iat'' = Some (case custom ''iat'' of Some v \<Rightarrow> v | None \<Rightarrow> JString (ge_rfc3339 env now))"
    and "p ''jti'' = or_else (custom ''jti'') (map_option JString (token_jti (pt_config g) new_v4 claims))"
    and "p ''email'' = or_else (custom ''email'') (map_option JString (cl_email claims))"
    and "p ''username'' = or_else (custom ''username'') (map_option JString (cl_username claims))"
    and "p ''roles'' = or_else (custom ''roles'')
           (if cl_roles claims = [] then None else Some (JArray (map JString (cl_roles claims))))"
    and "p ''perms'' = or_else (custom ''perms'')
           (if cl_perms claims = [] then None else Some (JArray (map JString (cl_perms claims))))"
    and "p ''iss'' = or_else (map_option JString (or_else (pt_issuer g) (cl_iss claims))) (custom ''iss'')"
    and "p ''aud'' = or_else (map_option JString (or_else (pt_audience g) (cl_aud claims))) (custom ''aud'')"
    and "k \<notin> set known_keys \<Longrightarrow> p k = custom k"
  unfolding p_def custom_def paseto_payload_def Let_def
  by (simp_all add: map_of_put assms(1) known_keys_def or_else_def split: option.splits)

subsection \<open>What is set on the builder\<close>

fun claim_entry :: "paseto_claim \<Rightarrow> string \<times> string" where
  "claim_entry (SubjectClaim s) = (''sub'', s)"
| "claim_entry (ExpirationClaim s) = (''exp'', s)"
| "claim_entry (IssuedAtClaim s) = (''iat'', s)"
| "claim_entry (TokenIdentifierClaim s) = (''jti'', s)"
| "claim_entry (IssuerClaim s) = (''iss'', s)"
| "claim_entry (AudienceClaim s) = (''aud'', s)"
| "claim_entry (CustomClaim k s) = (k, s)"

lemma custom_builder_claims_entries:
  assumes "custom_builder_claims env entries = Inr cs"
  shows "map claim_entry cs =
    map (\<lambda>(k, v). (k, the (json_str v))) (filter (\<lambda>(k, v). k \<notin> set standard_keys) entries)"
    and "\<forall>(k, v) \<in> set entries. k \<notin> set standard_keys \<longrightarrow> json_str v \<noteq> None"
  using assms
  by (induction entries arbitrary: cs rule: custom_builder_claims.induct)
     (auto split: if_splits option.splits sum.splits)

lemma populate_entries:
  assumes "populate_builder_claims env payload = Inr cs" and "distinct (map fst payload)"
  shows "(k, s) \<in> claim_entry ` set cs \<longleftrightarrow> entry_str payload k = Some s"
proof -
  obtain custom where custom: "custom_builder_claims env payload = Inr custom"
    and cs: "cs = opt_claim SubjectClaim (entry_str payload ''sub'') @
               opt_claim ExpirationClaim (entry_str payload ''exp'') @
               opt_claim IssuedAtClaim (entry_str payload ''iat'') @
               opt_claim TokenIdentifierClaim (entry_str payload ''jti'') @
               opt_claim IssuerClaim (entry_str payload ''iss'') @
               opt_claim AudienceClaim (entry_str payload ''aud'') @ custom"
    using assms(1) by (auto simp: populate_builder_claims_def split: option.splits sum.splits)
  have opt: "(k, s) \<in> claim_entry ` set (opt_claim mk v) \<longleftrightarrow> k = key \<and> v = Some s"
    if "\<And>x. claim_entry (mk x) = (key, x)" for mk v key
    using that by (cases v) (auto simp: opt_claim_def)
  have "(k, s) \<in> set (map claim_entry custom) \<longleftrightarrow> k \<notin> set standard_keys \<and> entry_str payload k = Some s"
    unfolding custom_builder_claims_entries(1) [OF custom]
    using custom_builder_claims_entries(2) [OF custom] assms(2)
    by (force simp: entry_str_def bind_eq_Some_conv image_iff dest: map_of_SomeD)
  then show ?thesis
    unfolding cs set_append image_Un Un_iff
    by (simp add: opt standard_keys_def) auto
qed

lemma entry_str_normalize:
  "entry_str (normalize_custom_claims env payload) k =
     Option.bind (map_of payload k) (\<lambda>v. json_str (normalize_value env k v))"
  by (induction payload) (auto simp: entry_str_def normalize_custom_claims_def)

lemma map_fst_normalize [simp]: "map fst (normalize_custom_claims env payload) = map fst payload"
  by (auto simp: normalize_custom_claims_def)

text \<open>After normalization every custom claim is a string, so that error cannot occur.\<close>

lemma normalized_is_string:
  "(k, v) \<in> set (normalize_custom_claims env payload) \<Longrightarrow> k \<notin> set standard_keys \<Longrightarrow> json_str v \<noteq> None"
  by (auto simp: normalize_custom_claims_def normalize_value_def json_str_def split: json.splits)

subsection \<open>What a validator reads back\<close>

text \<open>
  The documented behaviour of \<^verbatim>\<open>rusty_paseto\<close>: the payload of a parsed token holds every claim set on the
  builder and, besides, at most the time claims of the default builder.
\<close>

definition reads_back :: "paseto_claim list \<Rightarrow> json \<Rightarrow> bool" where
  "reads_back cs j \<longleftrightarrow>
     (case j of
        JObject entries \<Rightarrow>
          distinct (map fst entries) \<and>
          list_all (\<lambda>c. map_of entries (fst (claim_entry c)) = Some (JString (snd (claim_entry c)))) cs \<and>
          fst ` set entries \<subseteq> fst ` claim_entry ` set cs \<union> {''exp'', ''iat'', ''nbf''}
      | _ \<Rightarrow> False)"

definition library_reads ::
  "paseto_gen_env \<Rightarrow> paseto_env \<Rightarrow> paseto_purpose \<Rightarrow> u8 list \<Rightarrow> string option \<Rightarrow> 'r paseto_auth \<Rightarrow> u8 list \<Rightarrow> string \<Rightarrow> bool" where
  "library_reads genv penv purpose key footer auth vkey token \<longleftrightarrow>
     (\<forall>cs. ge_build genv purpose key cs footer = Inr token \<longrightarrow>
       (\<exists>j. pe_parse penv (pa_purpose auth) vkey (pa_issuer auth) (pa_audience auth) (pe_footer penv token) token = Inr j
          \<and> reads_back cs j))"

lemma json_str_JString [simp]: "json_str (JString s) = Some s"
  by (simp add: json_str_def)

lemma reads_backE:
  assumes "reads_back cs j"
  obtains entries where "j = JObject entries" and "distinct (map fst entries)"
    and "\<And>k s. (k, s) \<in> claim_entry ` set cs \<Longrightarrow> map_of entries k = Some (JString s)"
    and "fst ` set entries \<subseteq> fst ` claim_entry ` set cs \<union> {''exp'', ''iat'', ''nbf''}"
proof -
  obtain entries where j: "j = JObject entries" using assms by (auto simp: reads_back_def split: json.splits)
  have "map_of entries k = Some (JString s)" if "(k, s) \<in> claim_entry ` set cs" for k s
    using assms that unfolding j reads_back_def list_all_iff json.case by (metis fst_conv imageE snd_conv)
  with j show thesis using assms by (intro that) (auto simp: reads_back_def)
qed

lemma reads_back_get:
  assumes "reads_back cs j" and "populate_builder_claims env payload = Inr cs" and "distinct (map fst payload)"
  shows "entry_str payload k = Some s \<Longrightarrow> json_get j k = JString s"
    and "entry_str payload k = None \<Longrightarrow> k \<notin> {''exp'', ''iat'', ''nbf''} \<Longrightarrow> json_get j k = JNull"
proof -
  obtain entries where j: "j = JObject entries"
    and get: "\<And>k s. (k, s) \<in> claim_entry ` set cs \<Longrightarrow> map_of entries k = Some (JString s)"
    and sub: "fst ` set entries \<subseteq> fst ` claim_entry ` set cs \<union> {''exp'', ''iat'', ''nbf''}"
    using assms(1) by (rule reads_backE) (rule that)
  note set_on = populate_entries [OF assms(2,3)]
  show "json_get j k = JString s" if "entry_str payload k = Some s"
    using get [of k s] that by (simp add: j json_get_def set_on)
  show "json_get j k = JNull" if "entry_str payload k = None" "k \<notin> {''exp'', ''iat'', ''nbf''}"
  proof -
    have "k \<notin> fst ` set entries"
    proof
      assume "k \<in> fst ` set entries"
      with sub that(2) have "k \<in> fst ` claim_entry ` set cs" by blast
      then obtain s where "(k, s) \<in> claim_entry ` set cs" by (metis imageE prod.collapse)
      with that(1) show False by (simp add: set_on)
    qed
    then have "map_of entries k = None" by (simp add: map_of_eq_None_iff)
    then show ?thesis by (simp add: j json_get_def)
  qed
qed

lemma custom_of_object:
  assumes "json_to_claims penv j = Inr c" and "j = JObject entries" and "distinct (map fst entries)"
    and "k \<notin> set known_keys"
  shows "custom_claim c k = map_option (custom_value penv) (map_of entries k)"
proof -
  have "cl_custom c = map (\<lambda>(k, v). (k, custom_value penv v)) (filter (\<lambda>(k, v). k \<notin> set known_keys) entries)"
    using assms(1,2) by (auto simp: json_to_claims_def split: option.splits sum.splits)
  moreover have "map_of (map (\<lambda>(k, v). (k, custom_value penv v)) (filter (\<lambda>(k, v). k \<notin> set known_keys) entries)) k =
      map_option (custom_value penv) (map_of entries k)"
    using assms(3,4) by (induction entries) auto
  ultimately show ?thesis by (simp add: custom_claim_def)
qed

text \<open>The claims a validator reads, in terms of the normalized payload.\<close>

lemma validated_claims:
  assumes issued: "generate_v4_with_footer genv purpose key payload footer = Inr token"
    and lib: "library_reads genv penv purpose key (if footer \<noteq> [] then Some footer else None) auth vkey token"
    and dist: "distinct (map fst payload)"
  defines "p \<equiv> entry_str (normalize_custom_claims genv payload)"
  assumes sub: "p ''sub'' = Some sub" and exp: "p ''exp'' = Some exp" "pe_rfc3339 penv exp = Some exp_ts"
    and iat: "p ''iat'' = Some iat"
  obtains c where "validate_under penv auth vkey token = Inr c"
    and "cl_sub c = sub" "cl_exp c = exp_ts" "cl_iat c = pe_rfc3339 penv iat"
    and "cl_email c = p ''email''" "cl_username c = p ''username''" "cl_jti c = p ''jti''"
    and "cl_iss c = p ''iss''" "cl_aud c = p ''aud''"
    and "cl_roles c = (case p ''roles'' of Some s \<Rightarrow> parse_string_or_array penv (JString s) | None \<Rightarrow> [])"
    and "cl_perms c = (case p ''perms'' of Some s \<Rightarrow> parse_string_or_array penv (JString s) | None \<Rightarrow> [])"
    and "\<And>k. k \<notin> set known_keys \<Longrightarrow> k \<noteq> ''nbf'' \<Longrightarrow> custom_claim c k = map_option (\<lambda>s. custom_value penv (JString s)) (p k)"
proof -
  define np where "np = normalize_custom_claims genv payload"
  obtain cs where pop: "populate_builder_claims genv np = Inr cs"
    and "ge_build genv purpose key cs (if footer \<noteq> [] then Some footer else None) = Inr token"
    using issued by (auto simp: generate_v4_with_footer_def np_def split: sum.splits)
  with lib obtain j where
    parse: "pe_parse penv (pa_purpose auth) vkey (pa_issuer auth) (pa_audience auth) (pe_footer penv token) token = Inr j"
    and rb: "reads_back cs j"
    by (auto simp: library_reads_def)
  have np: "distinct (map fst np)" and p: "p = entry_str np" using dist by (simp_all add: np_def p_def)
  note get = reads_back_get [OF rb pop np]
  have opt: "json_str (json_get j k) = p k" if "k \<notin> {''exp'', ''iat'', ''nbf''}" for k
    using that get [of k] by (cases "p k") (simp_all add: p, simp add: json_str_def)
  have arr: "parse_string_or_array penv (json_get j k) =
      (case p k of Some s \<Rightarrow> parse_string_or_array penv (JString s) | None \<Rightarrow> [])"
    if "k \<notin> {''exp'', ''iat'', ''nbf''}" for k
    using that get [of k] by (cases "p k") (simp_all add: p parse_string_or_array_def)
  have times: "json_get j ''exp'' = JString exp" "json_get j ''iat'' = JString iat"
    using get(1) exp(1) iat by (simp_all add: p)
  obtain c where c: "json_to_claims penv j = Inr c"
    using sub exp by (simp add: json_to_claims_def claim_time_def times opt)
  obtain entries where j: "j = JObject entries" and de: "distinct (map fst entries)"
    and holds: "\<And>k s. (k, s) \<in> claim_entry ` set cs \<Longrightarrow> map_of entries k = Some (JString s)"
    and only: "fst ` set entries \<subseteq> fst ` claim_entry ` set cs \<union> {''exp'', ''iat'', ''nbf''}"
    using rb by (rule reads_backE) (rule that)
  have custom: "custom_claim c k = map_option (\<lambda>s. custom_value penv (JString s)) (p k)"
    if "k \<notin> set known_keys" "k \<noteq> ''nbf''" for k
  proof -
    have "k \<notin> {''exp'', ''iat'', ''nbf''}" using that by (auto simp: known_keys_def)
    moreover have "map_of entries k = map_option JString (p k)"
    proof (cases "p k")
      case (Some s)
      then have "(k, s) \<in> claim_entry ` set cs" using populate_entries [OF pop np] by (simp add: p)
      with holds Some show ?thesis by simp
    next
      case None
      then have "k \<notin> fst ` claim_entry ` set cs" using populate_entries [OF pop np, of k] by (metis imageE option.discI p prod.collapse)
      with only \<open>k \<notin> {''exp'', ''iat'', ''nbf''}\<close> have "k \<notin> fst ` set entries" by blast
      with None show ?thesis by (simp add: map_of_eq_None_iff)
    qed
    ultimately show ?thesis
      using custom_of_object [OF c j de that(1)] by (simp add: option.map_comp comp_def)
  qed
  have "validate_under penv auth vkey token = Inr c" by (simp add: validate_under_def parse c)
  then show ?thesis
    by (rule that)
       (use c sub exp in \<open>auto simp: json_to_claims_def claim_time_def times opt arr custom\<close>)
qed

subsection \<open>Round trip\<close>

definition custom_text :: "paseto_gen_env \<Rightarrow> json \<Rightarrow> string" where
  "custom_text env v = (case json_str v of Some s \<Rightarrow> s | None \<Rightarrow> ge_print env v)"

lemma json_str_normalize:
  "k \<in> set standard_keys \<Longrightarrow> json_str (normalize_value env k v) = json_str v"
  "k \<notin> set standard_keys \<Longrightarrow> json_str (normalize_value env k v) = Some (custom_text env v)"
  by (auto simp: normalize_value_def custom_text_def split: option.splits)

lemma json_strings_map [simp]: "json_strings (map JString xs) = xs"
  by (induction xs) simp_all

lemma parse_printed_list:
  "pe_json penv (ge_print genv (JArray (map JString xs))) = Some (JArray (map JString xs)) \<Longrightarrow>
   parse_string_or_array penv (JString (custom_text genv (JArray (map JString xs)))) = xs"
  by (simp add: parse_string_or_array_def string_array_def custom_text_def list_all_iff json_str_def)

text \<open>The normalized payload of claims whose custom claims avoid the reserved names.\<close>

lemma normalized_entries:
  fixes genv g now exp new_v4 claims
  assumes "distinct (map fst (cl_custom claims))" and "fst ` set (cl_custom claims) \<inter> set known_keys = {}"
  defines "p \<equiv> entry_str (normalize_custom_claims genv (paseto_payload genv g now exp new_v4 claims))"
  shows "p ''sub'' = Some (cl_sub claims)" "p ''exp'' = Some (ge_rfc3339 genv exp)"
    "p ''iat'' = Some (ge_rfc3339 genv now)" "p ''jti'' = token_jti (pt_config g) new_v4 claims"
    "p ''email'' = cl_email claims" "p ''username'' = cl_username claims"
    "p ''iss'' = or_else (pt_issuer g) (cl_iss claims)" "p ''aud'' = or_else (pt_audience g) (cl_aud claims)"
    "p ''roles'' = (if cl_roles claims = [] then None else Some (custom_text genv (JArray (map JString (cl_roles claims)))))"
    "p ''perms'' = (if cl_perms claims = [] then None else Some (custom_text genv (JArray (map JString (cl_perms claims)))))"
    "k \<notin> set known_keys \<Longrightarrow> p k = map_option (custom_text genv) (custom_claim claims k)"
proof -
  have free: "map_of (cl_custom claims) k = None" if "k \<in> set known_keys" for k
    using assms(2) that by (auto simp: map_of_eq_None_iff)
  have std: "k \<notin> set standard_keys" if "k \<notin> set known_keys" for k
    using that by (auto simp: known_keys_def standard_keys_def)
  note entries = payload_entries [OF assms(1), where env = genv and g = g and now = now and exp = exp and ?new_v4.0 = new_v4]
  show "p ''sub'' = Some (cl_sub claims)" "p ''exp'' = Some (ge_rfc3339 genv exp)"
    "p ''iat'' = Some (ge_rfc3339 genv now)" "p ''jti'' = token_jti (pt_config g) new_v4 claims"
    "p ''iss'' = or_else (pt_issuer g) (cl_iss claims)" "p ''aud'' = or_else (pt_audience g) (cl_aud claims)"
    by (simp_all add: p_def entry_str_normalize entries free known_keys_def json_str_normalize(1) standard_keys_def
        option.map_comp or_else_def bind_map_option comp_def split: option.splits)
  show "p ''email'' = cl_email claims" "p ''username'' = cl_username claims"
    "p ''roles'' = (if cl_roles claims = [] then None else Some (custom_text genv (JArray (map JString (cl_roles claims)))))"
    "p ''perms'' = (if cl_perms claims = [] then None else Some (custom_text genv (JArray (map JString (cl_perms claims)))))"
    by (simp_all add: p_def entry_str_normalize entries free known_keys_def json_str_normalize(2) standard_keys_def
        bind_map_option comp_def custom_text_def)
  show "p k = map_option (custom_text genv) (custom_claim claims k)" if "k \<notin> set known_keys"
    using that by (cases "map_of (cl_custom claims) k")
      (simp_all add: p_def entry_str_normalize entries(11) json_str_normalize(2) std custom_claim_def)
qed

text \<open>Printing and reading JSON and times agree, on the values that occur in a token.\<close>

definition printers_agree :: "paseto_gen_env \<Rightarrow> paseto_env \<Rightarrow> claims \<Rightarrow> datetime list \<Rightarrow> bool" where
  "printers_agree genv penv claims ts \<longleftrightarrow>
     list_all (\<lambda>t. pe_rfc3339 penv (ge_rfc3339 genv t) = Some (timestamp t)) ts \<and>
     list_all (\<lambda>v. json_str v = None \<longrightarrow> pe_json penv (ge_print genv v) = Some v)
       (JArray (map JString (cl_roles claims)) # JArray (map JString (cl_perms claims)) # map snd (cl_custom claims))"

text \<open>
  C23: what a service puts into a PASETO token is what the validator of the next request reads. A
  token issued under the static key for claims whose custom claims avoid the names of the other claims
  validates, and every claim comes back: subject, email, user name, roles and permissions as they
  were given, the expiry now plus the lifetime, the time of issue, the identifier, and issuer and
  audience of the generator before those of the claims. A custom claim comes back with its JSON value,
  except that a string which is itself JSON text comes back as the value it spells.
\<close>

theorem paseto_issue_validate:
  assumes issued: "paseto_generate_internal genv cy ops now instant_now new_v4 g claims expires_in km st = Some (Inr token, km')"
    and static: "\<not> pt_has_key_manager g"
    and exp: "ge_plus_seconds genv now (secs_as_i64 expires_in) = Some exp"
    and lib: "library_reads genv penv (pt_purpose g) (pt_key_bytes g) None auth (pa_key_bytes auth) token"
    and printers: "printers_agree genv penv claims [now, exp]"
    and custom: "distinct (map fst (cl_custom claims))" "fst ` set (cl_custom claims) \<inter> set known_keys = {}"
  shows "\<exists>custom. paseto_validate_token penv cy' ops' instant' auth token km2 st2 =
       (Inr \<lparr>cl_sub = cl_sub claims, cl_email = cl_email claims, cl_username = cl_username claims,
          cl_roles = cl_roles claims, cl_perms = cl_perms claims, cl_exp = timestamp exp, cl_iat = Some (timestamp now),
          cl_jti = token_jti (pt_config g) new_v4 claims, cl_iss = or_else (pt_issuer g) (cl_iss claims),
          cl_aud = or_else (pt_audience g) (cl_aud claims), cl_custom = custom\<rparr>, km2) \<and>
     (\<forall>k. k \<notin> set known_keys \<and> k \<noteq> ''nbf'' \<longrightarrow>
        map_of custom k = map_option (custom_value penv) (custom_claim claims k))"
proof -
  let ?payload = "paseto_payload genv g now exp new_v4 claims"
  have gen: "generate_v4_with_footer genv (pt_purpose g) (pt_key_bytes g) ?payload [] = Inr token"
    using issued static exp by (simp add: paseto_generate_internal_def generate_v4_def Let_def)
  note p = normalized_entries [OF custom, where genv = genv and g = g and now = now and exp = exp and ?new_v4.0 = new_v4]
  have times: "pe_rfc3339 penv (ge_rfc3339 genv now) = Some (timestamp now)"
      "pe_rfc3339 penv (ge_rfc3339 genv exp) = Some (timestamp exp)"
    and lists: "xs \<in> {cl_roles claims, cl_perms claims} \<Longrightarrow>
      parse_string_or_array penv (JString (custom_text genv (JArray (map JString xs)))) = xs" for xs
    using printers parse_printed_list [of penv genv] by (auto simp: printers_agree_def json_str_def)
  have printed: "custom_value penv (JString (custom_text genv v)) = custom_value penv v"
    if "custom_claim claims k = Some v" for k v
  proof (cases "json_str v")
    case None
    have "v \<in> snd ` set (cl_custom claims)" using that by (force simp: custom_claim_def dest: map_of_SomeD)
    with None printers have "pe_json penv (ge_print genv v) = Some v" by (auto simp: printers_agree_def list_all_iff)
    with None show ?thesis by (simp add: custom_value_def custom_text_def)
  next
    case (Some s)
    then have "v = JString s" by (simp add: json_str_def split: json.splits)
    then show ?thesis by (simp add: custom_text_def)
  qed
  have reads: "library_reads genv penv (pt_purpose g) (pt_key_bytes g) (if [] \<noteq> ([] :: string) then Some [] else None)
      auth (pa_key_bytes auth) token" using lib by simp
  show ?thesis
  proof (rule validated_claims [OF gen reads distinct_paseto_payload p(1,2) times(2) p(3)], goal_cases)
    case (1 c)
    have "custom_claim c k = map_option (custom_value penv) (custom_claim claims k)"
      if "k \<notin> set known_keys" "k \<noteq> ''nbf''" for k
      using 1(12) [OF that] printed [of k] p(11) [OF that(1)] by (cases "custom_claim claims k") simp_all
    with 1(1-11) show ?case
      by (intro exI [of _ "cl_custom c"])
         (simp add: paseto_validate_token_def validate_with_static_key_def p times lists custom_claim_def)
  qed
qed

definition sample_gen_claims :: claims where
  "sample_gen_claims =
     \<lparr>cl_sub = ''user:7'', cl_email = None, cl_username = Some ''ann'', cl_roles = [''admin''], cl_perms = [],
      cl_exp = 0, cl_iat = None, cl_jti = None, cl_iss = Some ''a'', cl_aud = None,
      cl_custom = [(''level'', JNumber ''5''), (''tenant'', JString ''t'')]\<rparr>"

definition sample_builder_claims :: "paseto_claim list" where
  "sample_builder_claims =
     [SubjectClaim ''user:7'', ExpirationClaim ''1001'', IssuedAtClaim ''1000'', TokenIdentifierClaim ''id'',
      IssuerClaim ''svc'', CustomClaim ''username'' ''ann'', CustomClaim ''roles'' ''[admin]'',
      CustomClaim ''level'' ''5'', CustomClaim ''tenant'' ''t'']"

definition sample_gen_env :: "paseto_claim list \<Rightarrow> paseto_gen_env" where
  "sample_gen_env cs =
     \<lparr>ge_read = (\<lambda>p. Inl ''missing''), ge_plus_seconds = (\<lambda>now secs. Some (now + secs * int nanos_per_sec)),
      ge_rfc3339 = (\<lambda>t. show_nat (nat (timestamp t))),
      ge_print = (\<lambda>v. case v of JNumber n \<Rightarrow> n | JArray [JString a] \<Rightarrow> ''['' @ a @ '']'' | JArray [] \<Rightarrow> ''[]'' | _ \<Rightarrow> ''null''),
      ge_expiration = (\<lambda>s. None), ge_issued_at = (\<lambda>s. None), ge_custom = (\<lambda>k s. None),
      ge_build = (\<lambda>purpose key claims footer. if claims = cs then Inr ''token'' else Inl ''unexpected'')\<rparr>"

definition sample_parse_env :: "paseto_claim list \<Rightarrow> paseto_env" where
  "sample_parse_env cs =
     \<lparr>pe_footer = (\<lambda>token. None),
      pe_parse = (\<lambda>purpose key iss aud footer token.
        Inr (JObject (map (\<lambda>c. (fst (claim_entry c), JString (snd (claim_entry c)))) cs))),
      pe_json = (\<lambda>s. if s = ''5'' then Some (JNumber ''5'') else if s = ''[admin]'' then Some (JArray [JString ''admin''])
        else if s = ''[]'' then Some (JArray []) else None),
      pe_rfc3339 = (\<lambda>s. Some (int (digits_val s))), pe_read = (\<lambda>p. Inl ''missing'')\<rparr>"

definition sample_generator :: paseto_generator where
  "sample_generator =
     (paseto_with_issuer ''svc'' (paseto_generator_with Local [] default_token_generation_config))"

definition sample_paseto_auth :: "unit paseto_auth" where
  "sample_paseto_auth =
     \<lparr>pa_purpose = Local, pa_key_bytes = [], pa_issuer = None, pa_audience = None, pa_revocation = None,
      pa_has_key_manager = False, pa_public_paths = []\<rparr>"

lemma sample_library_reads:
  "distinct (map (fst \<circ> claim_entry) cs) \<Longrightarrow>
   library_reads (sample_gen_env cs) (sample_parse_env cs) purpose key footer auth vkey token"
  unfolding library_reads_def
proof (intro allI impI)
  fix cs'
  assume d: "distinct (map (fst \<circ> claim_entry) cs)"
    and "ge_build (sample_gen_env cs) purpose key cs' footer = Inr token"
  then have "cs' = cs" by (simp add: sample_gen_env_def split: if_splits)
  moreover have "reads_back cs (JObject (map (\<lambda>c. (fst (claim_entry c), JString (snd (claim_entry c)))) cs))"
    using d by (auto simp: reads_back_def comp_def list_all_iff intro!: map_of_is_SomeI)
  ultimately show "\<exists>j. pe_parse (sample_parse_env cs) (pa_purpose auth) vkey (pa_issuer auth) (pa_audience auth)
      (pe_footer (sample_parse_env cs) token) token = Inr j \<and> reads_back cs' j"
    by (simp add: sample_parse_env_def)
qed

lemma sample_times:
  "show_nat 1000 = ''1000''" "show_nat 1001 = ''1001''" "secs_as_i64 (from_secs (Suc 0)) = 1"
  "timestamp 1000000000000 = 1000" "timestamp 1001000000000 = 1001"
  by (code_simp, code_simp, simp_all add: secs_as_i64_def timestamp_def nanos_per_sec_def)

lemma sample_issued:
  "paseto_generate_internal (sample_gen_env sample_builder_claims) sample_crypto (pg_key_ops sample_key_env) 1000000000000 0
     ''id'' sample_generator sample_gen_claims (from_secs 1) sample_manager [] = Some (Inr ''token'', sample_manager)"
  by (simp add: paseto_generate_internal_def sample_times sample_gen_env_def nanos_per_sec_def sample_generator_def
      paseto_with_issuer_def paseto_generator_with_def generate_v4_def generate_v4_with_footer_def
      paseto_payload_def sample_gen_claims_def token_jti_def default_token_generation_config_def put_opt_def put_list_def
      normalize_custom_claims_def normalize_value_def standard_keys_def json_str_def populate_builder_claims_def
      entry_str_def opt_claim_def sample_builder_claims_def)

theorem paseto_issue_validate_witness:
  "map_option (\<lambda>c. (cl_sub c, cl_roles c, cl_exp c, custom_claim c ''level''))
     (case fst (paseto_validate_token (sample_parse_env sample_builder_claims) sample_crypto (pg_key_ops sample_key_env) 0
        sample_paseto_auth ''token'' sample_manager []) of Inr c \<Rightarrow> Some c | Inl e \<Rightarrow> None) =
   Some (''user:7'', [''admin''], 1001, Some (JNumber ''5''))"
proof -
  let ?genv = "sample_gen_env sample_builder_claims" and ?penv = "sample_parse_env sample_builder_claims"
  have exp: "ge_plus_seconds ?genv 1000000000000 (secs_as_i64 (from_secs 1)) = Some 1001000000000"
    by (simp add: sample_times sample_gen_env_def nanos_per_sec_def)
  have lib: "library_reads ?genv ?penv (pt_purpose sample_generator) (pt_key_bytes sample_generator) None
      sample_paseto_auth (pa_key_bytes sample_paseto_auth) ''token''"
    by (rule sample_library_reads) (simp add: sample_builder_claims_def)
  have printers: "printers_agree ?genv ?penv sample_gen_claims [1000000000000, 1001000000000]"
    by (simp add: printers_agree_def sample_gen_env_def sample_parse_env_def sample_gen_claims_def timestamp_def
        nanos_per_sec_def json_str_def)
  have custom: "distinct (map fst (cl_custom sample_gen_claims))"
      "fst ` set (cl_custom sample_gen_claims) \<inter> set known_keys = {}" and static: "\<not> pt_has_key_manager sample_generator"
    by (simp_all add: sample_gen_claims_def known_keys_def sample_generator_def paseto_with_issuer_def paseto_generator_with_def)
  have "''level'' \<notin> set known_keys \<and> ''level'' \<noteq> ''nbf''" by (simp add: known_keys_def)
  with paseto_issue_validate [OF sample_issued static exp lib printers custom, of sample_crypto
      "pg_key_ops sample_key_env" 0 sample_manager "[]"]
  show ?thesis
    by (force simp: sample_gen_claims_def sample_times custom_claim_def custom_value_def json_str_def sample_parse_env_def)
qed

subsection \<open>Custom claims replace reserved ones\<close>

text \<open>
  Custom claims are written over the claims the generator has set. When a caller's custom
  claims contain a subject and roles, the issued token validates with that subject and these
  roles, whatever the subject and the roles of the claims were.
\<close>

theorem custom_claims_replace:
  assumes issued: "paseto_generate_internal genv cy ops now instant_now new_v4 g claims expires_in km st = Some (Inr token, km')"
    and static: "\<not> pt_has_key_manager g"
    and exp: "ge_plus_seconds genv now (secs_as_i64 expires_in) = Some exp"
    and lib: "library_reads genv penv (pt_purpose g) (pt_key_bytes g) None auth (pa_key_bytes auth) token"
    and times: "pe_rfc3339 penv (ge_rfc3339 genv exp) = Some (timestamp exp)"
    and custom: "distinct (map fst (cl_custom claims))" "map_of (cl_custom claims) ''sub'' = Some (JString sub)"
      "map_of (cl_custom claims) ''roles'' = Some (JArray (map JString roles))"
      "map_of (cl_custom claims) ''exp'' = None" "map_of (cl_custom claims) ''iat'' = None"
    and json: "pe_json penv (ge_print genv (JArray (map JString roles))) = Some (JArray (map JString roles))"
  shows "\<exists>c. paseto_validate_token penv cy' ops' instant' auth token km2 st2 = (Inr c, km2) \<and> cl_sub c = sub \<and> cl_roles c = roles"
proof -
  let ?payload = "paseto_payload genv g now exp new_v4 claims"
  let ?p = "entry_str (normalize_custom_claims genv ?payload)"
  have gen: "generate_v4_with_footer genv (pt_purpose g) (pt_key_bytes g) ?payload [] = Inr token"
    using issued static exp by (simp add: paseto_generate_internal_def generate_v4_def Let_def)
  have reads: "library_reads genv penv (pt_purpose g) (pt_key_bytes g) (if [] \<noteq> ([] :: string) then Some [] else None)
      auth (pa_key_bytes auth) token" using lib by simp
  note entries = payload_entries [OF custom(1), where env = genv and g = g and now = now and exp = exp and ?new_v4.0 = new_v4]
  have p: "?p ''sub'' = Some sub" "?p ''exp'' = Some (ge_rfc3339 genv exp)" "?p ''iat'' = Some (ge_rfc3339 genv now)"
      "?p ''roles'' = Some (custom_text genv (JArray (map JString roles)))"
    using custom by (simp_all add: entry_str_normalize entries json_str_normalize standard_keys_def)
  show ?thesis
  proof (rule validated_claims [OF gen reads distinct_paseto_payload p(1,2) times p(3)], goal_cases)
    case (1 c)
    then show ?case
      by (intro exI [of _ c])
         (simp add: paseto_validate_token_def validate_with_static_key_def p(4) parse_printed_list [OF json])
  qed
qed

definition replacing_claims :: claims where
  "replacing_claims = sample_gen_claims\<lparr>cl_roles := [],
     cl_custom := [(''sub'', JString ''user:1''), (''roles'', JArray [JString ''admin''])]\<rparr>"

definition replaced_builder_claims :: "paseto_claim list" where
  "replaced_builder_claims =
     [SubjectClaim ''user:1'', ExpirationClaim ''1001'', IssuedAtClaim ''1000'', TokenIdentifierClaim ''id'',
      IssuerClaim ''svc'', CustomClaim ''username'' ''ann'', CustomClaim ''roles'' ''[admin]'']"

lemma replacing_issued:
  "paseto_generate_internal (sample_gen_env replaced_builder_claims) sample_crypto (pg_key_ops sample_key_env) 1000000000000 0
     ''id'' sample_generator replacing_claims (from_secs 1) sample_manager [] = Some (Inr ''token'', sample_manager)"
  by (simp add: paseto_generate_internal_def sample_times sample_gen_env_def nanos_per_sec_def sample_generator_def
      paseto_with_issuer_def paseto_generator_with_def generate_v4_def generate_v4_with_footer_def replacing_claims_def
      paseto_payload_def sample_gen_claims_def token_jti_def default_token_generation_config_def put_opt_def put_list_def
      normalize_custom_claims_def normalize_value_def standard_keys_def json_str_def populate_builder_claims_def
      entry_str_def opt_claim_def replaced_builder_claims_def)

theorem custom_claims_replace_witness:
  "cl_sub replacing_claims = ''user:7'' \<and> cl_roles replacing_claims = [] \<and>
   map_option (\<lambda>c. (cl_sub c, cl_roles c))
     (case fst (paseto_validate_token (sample_parse_env replaced_builder_claims) sample_crypto (pg_key_ops sample_key_env) 0
        sample_paseto_auth ''token'' sample_manager []) of Inr c \<Rightarrow> Some c | Inl e \<Rightarrow> None) =
   Some (''user:1'', [''admin''])"
proof -
  let ?genv = "sample_gen_env replaced_builder_claims" and ?penv = "sample_parse_env replaced_builder_claims"
  have exp: "ge_plus_seconds ?genv 1000000000000 (secs_as_i64 (from_secs 1)) = Some 1001000000000"
    by (simp add: sample_times sample_gen_env_def nanos_per_sec_def)
  have lib: "library_reads ?genv ?penv (pt_purpose sample_generator) (pt_key_bytes sample_generator) None
      sample_paseto_auth (pa_key_bytes sample_paseto_auth) ''token''"
    by (rule sample_library_reads) (simp add: replaced_builder_claims_def)
  have times: "pe_rfc3339 ?penv (ge_rfc3339 ?genv 1001000000000) = Some (timestamp 1001000000000)"
    and json: "pe_json ?penv (ge_print ?genv (JArray (map JString [''admin'']))) = Some (JArray (map JString [''admin'']))"
    by (simp_all add: sample_gen_env_def sample_parse_env_def timestamp_def nanos_per_sec_def)
  have custom: "distinct (map fst (cl_custom replacing_claims))" "map_of (cl_custom replacing_claims) ''sub'' = Some (JString ''user:1'')"
      "map_of (cl_custom replacing_claims) ''roles'' = Some (JArray (map JString [''admin'']))"
      "map_of (cl_custom replacing_claims) ''exp'' = None" "map_of (cl_custom replacing_claims) ''iat'' = None"
    and static: "\<not> pt_has_key_manager sample_generator"
    by (simp_all add: replacing_claims_def sample_generator_def paseto_with_issuer_def paseto_generator_with_def)
  show ?thesis
    using custom_claims_replace [OF replacing_issued static exp lib times custom json, of sample_crypto
      "pg_key_ops sample_key_env" 0 sample_manager "[]"]
    by (force simp: replacing_claims_def sample_gen_claims_def)
qed

subsection \<open>Key rotation and signing\<close>


definition copy_crypto :: crypto_env where
  "copy_crypto = \<lparr>cy_b64_encode = map (\<lambda>b. char_of (unat b)), cy_b64_decode = (\<lambda>s. Inr (as_bytes s)),
     cy_blake3_hex = (\<lambda>bs. show_nat (length bs))\<rparr>"

definition public_generator :: paseto_generator where
  "public_generator = paseto_gen_with_key_manager
     (paseto_generator_with Public (replicate 64 1) default_token_generation_config)"


text \<open>A manager that has the key in its cache, or finds it in the store while it is active or draining.\<close>

definition knows_key :: "crypto_env \<Rightarrow> 's key_ops \<Rightarrow> string \<Rightarrow> u8 list \<Rightarrow> key_manager \<Rightarrow> 's \<Rightarrow> bool" where
  "knows_key cy ops kid material km st \<longleftrightarrow>
     (case map_of (kc_verification_keys (km_cache km)) kid of
        Some cached \<Rightarrow> ck_key_material cached = material
      | None \<Rightarrow>
          (case ko_get_key_by_kid ops kid st of
             Inr (Some m) \<Rightarrow> (sk_status m = Active \<or> sk_status m = Draining) \<and>
               cy_b64_decode cy (sk_key_material m) = Inr material
           | _ \<Rightarrow> False))"

lemma knows_key_found:
  "knows_key cy ops kid material km st \<Longrightarrow>
   \<exists>cached km'. get_verification_key cy ops kid km st = (Inr (Some cached), km') \<and> ck_key_material cached = material"
  by (auto simp: knows_key_def get_verification_key_def decode_key_metadata_def split: option.splits sum.splits)


definition sample_jwt_gen_env :: "u8 list jwt_gen_env" where
  "sample_jwt_gen_env =
     \<lparr>je_read = (\<lambda>path. Inr [1]), je_upper = to_uppercase, je_rsa_pem = Inr, je_ec_pem = Inr, je_secret = (\<lambda>k. k),
      je_encode = (\<lambda>alg kid entries key. if kid = Some ''k1'' \<and> key = replicate 32 7 then Inr ''t'' else Inl ''InvalidKey'')\<rparr>"

definition sample_jwt_generator :: "u8 list jwt_generator" where
  "sample_jwt_generator =
     \<lparr>jt_encoding_key = [1], jt_algorithm = HS256, jt_config = default_token_generation_config, jt_issuer = None,
      jt_audience = None, jt_has_key_manager = True\<rparr>"


end
