(* ===== verification/Versioning.thy ===== *)
theory Versioning
  imports Request
begin

text \<open>
  API versions (\<^verbatim>\<open>src/acton-service/src/versioning.rs\<close>): parsing and printing of versions, the headers of a
  deprecated version, the version named by a path, and the builder that nests the routers of all
  versions. The router of the axum crate is the parameter \<open>axum\<close>; an operation of it that panics is \<open>None\<close>,
  as is a panic of the builder. Log lines and metrics have no effect in the model.
\<close>

subsection \<open>Versions\<close>

datatype api_version = V1 | V2 | V3 | V4 | V5

fun as_number :: "api_version \<Rightarrow> u8" where
  "as_number V1 = 1"
| "as_number V2 = 2"
| "as_number V3 = 3"
| "as_number V4 = 4"
| "as_number V5 = 5"

fun as_path_segment :: "api_version \<Rightarrow> string" where
  "as_path_segment V1 = ''v1''"
| "as_path_segment V2 = ''v2''"
| "as_path_segment V3 = ''v3''"
| "as_path_segment V4 = ''v4''"
| "as_path_segment V5 = ''v5''"

text \<open>The derived order is the order of the constructors.\<close>

instantiation api_version :: linorder
begin

definition less_eq_api_version :: "api_version \<Rightarrow> api_version \<Rightarrow> bool" where
  "less_eq_api_version v w \<longleftrightarrow> as_number v \<le> as_number w"

definition less_api_version :: "api_version \<Rightarrow> api_version \<Rightarrow> bool" where
  "less_api_version v w \<longleftrightarrow> as_number v < as_number w"

instance
proof
  fix v w :: api_version
  assume "v \<le> w" "w \<le> v"
  then have "as_number v = as_number w" by (simp add: less_eq_api_version_def)
  then show "v = w" by (cases v; cases w) simp_all
qed (auto simp: less_eq_api_version_def less_api_version_def)

end

definition version_is_deprecated :: "api_version \<Rightarrow> api_version \<Rightarrow> bool" where
  "version_is_deprecated v latest \<longleftrightarrow> v < latest"

definition version_of_number :: "string \<Rightarrow> api_version option" where
  "version_of_number s =
     map_of [(''1'', V1), (''2'', V2), (''3'', V3), (''4'', V4), (''5'', V5)] s"

definition api_version_parse :: "(string \<Rightarrow> string) \<Rightarrow> string \<Rightarrow> api_version option" where
  "api_version_parse uni s = version_of_number (dropWhile (\<lambda>c. c = CHR ''v'') (to_lowercase uni s))"

definition extract_version_from_path :: "(string \<Rightarrow> string) \<Rightarrow> string \<Rightarrow> api_version option" where
  "extract_version_from_path uni path =
     Option.bind (find (\<lambda>segment. starts_with segment ''v'' \<or> starts_with segment ''V'') (split_char CHR ''/'' path))
       (api_version_parse uni)"

subsection \<open>Deprecation\<close>

record deprecation_info =
  di_version :: api_version
  di_replacement :: api_version
  di_sunset_date :: "string option"
  di_message :: "string option"

definition deprecation_new :: "api_version \<Rightarrow> api_version \<Rightarrow> deprecation_info" where
  "deprecation_new version replacement =
     \<lparr>di_version = version, di_replacement = replacement, di_sunset_date = None, di_message = None\<rparr>"

definition with_sunset_date :: "string \<Rightarrow> deprecation_info \<Rightarrow> deprecation_info" where
  "with_sunset_date date d = d\<lparr>di_sunset_date := Some date\<rparr>"

definition with_message :: "string \<Rightarrow> deprecation_info \<Rightarrow> deprecation_info" where
  "with_message message d = d\<lparr>di_message := Some message\<rparr>"

definition deprecation_header :: "deprecation_info \<Rightarrow> string" where
  "deprecation_header d = ''version='' @ [CHR 0x22] @ as_path_segment (di_version d) @ [CHR 0x22]"

definition sunset_header :: "deprecation_info \<Rightarrow> string option" where
  "sunset_header d = di_sunset_date d"

definition link_header :: "deprecation_info \<Rightarrow> string" where
  "link_header d = ''</'' @ as_path_segment (di_replacement d) @ ''/>; rel='' @ [CHR 0x22] @ ''successor-version'' @ [CHR 0x22]"

definition warning_header :: "deprecation_info \<Rightarrow> string \<Rightarrow> string" where
  "warning_header d message =
     ''299 - '' @ [CHR 0x22] @ ''API version '' @ as_path_segment (di_version d) @
     '' is deprecated. Please migrate to version '' @ as_path_segment (di_replacement d) @ ''. '' @ message @ [CHR 0x22]"

text \<open>\<open>hv\<close> is \<^verbatim>\<open>HeaderValue::from_str\<close>; a text that is no header value is left out.\<close>

definition insert_valid :: "(string \<Rightarrow> string option) \<Rightarrow> string \<Rightarrow> string \<Rightarrow> header_map \<Rightarrow> header_map" where
  "insert_valid hv name text headers =
     (case hv text of Some v \<Rightarrow> header_insert name v headers | None \<Rightarrow> headers)"

definition deprecation_headers :: "(string \<Rightarrow> string option) \<Rightarrow> deprecation_info \<Rightarrow> header_map \<Rightarrow> header_map" where
  "deprecation_headers hv d headers =
     (let headers = insert_valid hv ''deprecation'' (deprecation_header d) headers;
          headers = (case sunset_header d of Some sunset \<Rightarrow> insert_valid hv ''sunset'' sunset headers | None \<Rightarrow> headers);
          headers = insert_valid hv ''link'' (link_header d) headers
      in case di_message d of
           Some message \<Rightarrow> insert_valid hv ''warning'' (warning_header d message) headers
         | None \<Rightarrow> headers)"

definition deprecation_middleware :: "(string \<Rightarrow> string option) \<Rightarrow> deprecation_info option \<Rightarrow> 's service \<Rightarrow> 's service" where
  "deprecation_middleware hv deprecation next rq s =
     (case next rq s of
        (rp, s', events) \<Rightarrow>
          (case deprecation of
             Some d \<Rightarrow> (rp\<lparr>rp_headers := deprecation_headers hv d (rp_headers rp)\<rparr>, s', events)
           | None \<Rightarrow> (rp, s', events)))"

subsection \<open>Routers\<close>

record 'r axum =
  ax_new :: 'r
  ax_get :: "string \<Rightarrow> string \<Rightarrow> 'r \<Rightarrow> 'r option"
  ax_merge :: "'r \<Rightarrow> 'r \<Rightarrow> 'r option"
  ax_nest :: "string \<Rightarrow> 'r \<Rightarrow> 'r \<Rightarrow> 'r option"
  ax_deprecated :: "deprecation_info option \<Rightarrow> 'r \<Rightarrow> 'r"

record 'r versioned_router =
  vr_version :: api_version
  vr_router :: 'r
  vr_deprecation :: "deprecation_info option"

definition versioned_router_new :: "api_version \<Rightarrow> 'r \<Rightarrow> 'r versioned_router" where
  "versioned_router_new version router = \<lparr>vr_version = version, vr_router = router, vr_deprecation = None\<rparr>"

definition vr_deprecated :: "deprecation_info \<Rightarrow> 'r versioned_router \<Rightarrow> 'r versioned_router" where
  "vr_deprecated info r = r\<lparr>vr_deprecation := Some info\<rparr>"

definition vr_into_router :: "'r axum \<Rightarrow> 'r versioned_router \<Rightarrow> 'r" where
  "vr_into_router ax r = ax_deprecated ax (vr_deprecation r) (vr_router r)"

definition vr_is_deprecated :: "'r versioned_router \<Rightarrow> bool" where
  "vr_is_deprecated r \<longleftrightarrow> vr_deprecation r \<noteq> None"

text \<open>The fallback is a function on the finished router.\<close>

record 'r api_builder =
  ab_versions :: "(api_version \<times> 'r \<times> deprecation_info option) list"
  ab_base_path :: "string option"
  ab_frontend_routes :: "'r option"
  ab_fallback :: "('r \<Rightarrow> 'r) option"

definition api_builder_new :: "'r api_builder" where
  "api_builder_new = \<lparr>ab_versions = [], ab_base_path = None, ab_frontend_routes = None, ab_fallback = None\<rparr>"

definition trim_end_slashes :: "string \<Rightarrow> string" where
  "trim_end_slashes s = rev (dropWhile (\<lambda>c. c = CHR ''/'') (rev s))"

definition normalize_base_path :: "string \<Rightarrow> string" where
  "normalize_base_path path =
     (if \<not> starts_with path ''/'' then ''/'' @ trim_end_slashes path else trim_end_slashes path)"

definition with_base_path :: "string \<Rightarrow> 'r api_builder \<Rightarrow> 'r api_builder" where
  "with_base_path path b = b\<lparr>ab_base_path := Some (normalize_base_path path)\<rparr>"

definition add_version :: "'r axum \<Rightarrow> api_version \<Rightarrow> ('r \<Rightarrow> 'r) \<Rightarrow> 'r api_builder \<Rightarrow> 'r api_builder" where
  "add_version ax version routes b = b\<lparr>ab_versions := ab_versions b @ [(version, routes (ax_new ax), None)]\<rparr>"

definition add_version_deprecated ::
  "'r axum \<Rightarrow> api_version \<Rightarrow> ('r \<Rightarrow> 'r) \<Rightarrow> deprecation_info \<Rightarrow> 'r api_builder \<Rightarrow> 'r api_builder" where
  "add_version_deprecated ax version routes d b =
     b\<lparr>ab_versions := ab_versions b @ [(version, routes (ax_new ax), Some d)]\<rparr>"

fun deprecate_first ::
  "api_version \<Rightarrow> deprecation_info \<Rightarrow> (api_version \<times> 'r \<times> deprecation_info option) list \<Rightarrow>
     (api_version \<times> 'r \<times> deprecation_info option) list option" where
  "deprecate_first version d [] = None"
| "deprecate_first version d ((v, r, old) # vs) =
     (if v = version then Some ((v, r, Some d) # vs)
      else map_option (\<lambda>vs'. (v, r, old) # vs') (deprecate_first version d vs))"

definition deprecate_version :: "api_version \<Rightarrow> deprecation_info \<Rightarrow> 'r api_builder \<Rightarrow> 'r api_builder option" where
  "deprecate_version version d b =
     map_option (\<lambda>vs. b\<lparr>ab_versions := vs\<rparr>) (deprecate_first version d (ab_versions b))"

definition with_frontend_routes :: "'r axum \<Rightarrow> ('r \<Rightarrow> 'r) \<Rightarrow> 'r api_builder \<Rightarrow> 'r api_builder" where
  "with_frontend_routes ax routes b = b\<lparr>ab_frontend_routes := Some (routes (ax_new ax))\<rparr>"

definition with_fallback :: "('r \<Rightarrow> 'r) \<Rightarrow> 'r api_builder \<Rightarrow> 'r api_builder" where
  "with_fallback fallback b = b\<lparr>ab_fallback := Some fallback\<rparr>"

definition full_path :: "string option \<Rightarrow> api_version \<Rightarrow> string" where
  "full_path base version =
     (case base of Some b \<Rightarrow> b @ ''/'' @ as_path_segment version | None \<Rightarrow> ''/'' @ as_path_segment version)"

fun nest_versions ::
  "'r axum \<Rightarrow> string option \<Rightarrow> (api_version \<times> 'r \<times> deprecation_info option) list \<Rightarrow> 'r \<Rightarrow> 'r option" where
  "nest_versions ax base [] router = Some router"
| "nest_versions ax base ((version, version_router, deprecation) # vs) router =
     (let versioned = (case deprecation of Some d \<Rightarrow> ax_deprecated ax (Some d) version_router | None \<Rightarrow> version_router)
      in Option.bind (ax_nest ax (full_path base version) versioned router) (nest_versions ax base vs))"

definition build_routes :: "'r axum \<Rightarrow> 'r api_builder \<Rightarrow> 'r option" where
  "build_routes ax b =
     Option.bind (ax_get ax ''/health'' ''health'' (ax_new ax)) (\<lambda>router.
     Option.bind (ax_get ax ''/ready'' ''readiness'' router) (\<lambda>router.
     Option.bind (case ab_frontend_routes b of Some f \<Rightarrow> ax_merge ax router f | None \<Rightarrow> Some router) (\<lambda>router.
     map_option (case ab_fallback b of Some fallback \<Rightarrow> fallback | None \<Rightarrow> (\<lambda>r. r))
       (nest_versions ax (ab_base_path b) (ab_versions b) router))))"

definition version_count :: "'r api_builder \<Rightarrow> nat" where
  "version_count b = length (ab_versions b)"

definition has_version :: "'r api_builder \<Rightarrow> api_version \<Rightarrow> bool" where
  "has_version b version \<longleftrightarrow> list_ex (\<lambda>(v, _, _). v = version) (ab_versions b)"

text \<open>\<open>body\<close> is the result of \<^verbatim>\<open>serde_json::to_vec\<close> on the version and the data.\<close>

definition versioned_response :: "string + string \<Rightarrow> response" where
  "versioned_response body =
     (case body of
        Inr json \<Rightarrow> \<lparr>rp_status = 200, rp_headers = [(''content-type'', ''application/json'')], rp_body = Opaque json\<rparr>
      | Inl e \<Rightarrow> \<lparr>rp_status = INTERNAL_SERVER_ERROR, rp_headers = [(''content-type'', ''text/plain; charset=utf-8'')],
                  rp_body = Opaque (''Failed to serialize response: '' @ e)\<rparr>)"

subsection \<open>Parsing\<close>

definition version_digit :: "api_version \<Rightarrow> char" where
  "version_digit v = char_of (48 + unat (as_number v))"

lemma version_digit_simps [simp]:
  "version_digit V1 = CHR ''1''" "version_digit V2 = CHR ''2''" "version_digit V3 = CHR ''3''"
  "version_digit V4 = CHR ''4''" "version_digit V5 = CHR ''5''"
  by (code_simp, code_simp, code_simp, code_simp, code_simp)

lemma version_of_number_iff: "version_of_number s = Some v \<longleftrightarrow> s = [version_digit v]"
  by (cases v) (auto simp: version_of_number_def)

lemma dropWhile_eq_single:
  "\<not> P y \<Longrightarrow> dropWhile P xs = [y] \<longleftrightarrow> (\<exists>zs. xs = zs @ [y] \<and> list_all P zs)"
proof
  assume "dropWhile P xs = [y]"
  then have "xs = takeWhile P xs @ [y]" by (metis takeWhile_dropWhile_id)
  then show "\<exists>zs. xs = zs @ [y] \<and> list_all P zs" by (metis list_all_iff set_takeWhileD)
qed (auto simp: list_all_iff dropWhile_append)

text \<open>A version is any number of the letter v, in either case, and a digit from 1 to 5.\<close>

definition spells_version :: "string \<Rightarrow> api_version \<Rightarrow> bool" where
  "spells_version s v \<longleftrightarrow>
     s \<noteq> [] \<and> last s = version_digit v \<and> list_all (\<lambda>c. c = CHR ''v'' \<or> c = CHR ''V'') (butlast s)"

lemma of_char_lower:
  "(of_char (to_ascii_lowercase c) :: nat) =
     (if 65 \<le> (of_char c :: nat) \<and> (of_char c :: nat) \<le> 90 then of_char c + 32 else of_char c)"
  by (simp add: to_ascii_lowercase_def)

lemma ascii_lower_v: "to_ascii_lowercase c = CHR ''v'' \<longleftrightarrow> c = CHR ''v'' \<or> c = CHR ''V''"
proof -
  have "(of_char CHR ''v'' :: nat) = 118" "(of_char CHR ''V'' :: nat) = 86" by code_simp+
  then show ?thesis
    using of_char_lower [of c] of_char_eq_iff [where 'a = nat, of "to_ascii_lowercase c" "CHR ''v''"]
      of_char_eq_iff [where 'a = nat, of c "CHR ''v''"] of_char_eq_iff [where 'a = nat, of c "CHR ''V''"]
    by (auto split: if_splits)
qed

lemma ascii_lower_digit: "to_ascii_lowercase c = version_digit v \<longleftrightarrow> c = version_digit v"
proof -
  have "(of_char (version_digit v) :: nat) < 65" by (cases v; simp; code_simp)
  then show ?thesis
    using of_char_lower [of c] of_char_eq_iff [where 'a = nat, of "to_ascii_lowercase c" "version_digit v"]
      of_char_eq_iff [where 'a = nat, of c "version_digit v"]
    by (auto split: if_splits)
qed

lemma map_eq_append_single: "map f s = zs @ [y] \<longleftrightarrow> s \<noteq> [] \<and> f (last s) = y \<and> map f (butlast s) = zs"
  by (cases s rule: rev_cases) auto

lemma api_version_parse_iff:
  assumes "list_all is_ascii s"
  shows "api_version_parse uni s = Some v \<longleftrightarrow> spells_version s v"
proof -
  have "version_digit v \<noteq> CHR ''v''" by (cases v) simp_all
  then have "api_version_parse uni s = Some v \<longleftrightarrow>
      (\<exists>zs. map to_ascii_lowercase s = zs @ [version_digit v] \<and> list_all (\<lambda>c. c = CHR ''v'') zs)"
    using assms by (simp add: api_version_parse_def to_lowercase_def version_of_number_iff dropWhile_eq_single)
  also have "\<dots> \<longleftrightarrow> spells_version s v"
    unfolding map_eq_append_single spells_version_def
    by (auto simp: ascii_lower_digit list_all_iff ascii_lower_v)
  finally show ?thesis .
qed

lemma parse_print_version: "api_version_parse uni (as_path_segment v) = Some v"
proof -
  have "list_all is_ascii (as_path_segment v)" "spells_version (as_path_segment v) v"
    by (cases v; simp add: is_ascii_def of_char_def spells_version_def)+
  then show ?thesis by (simp add: api_version_parse_iff)
qed

subsection \<open>The version of a path\<close>

definition v_segment :: "string \<Rightarrow> bool" where
  "v_segment s \<longleftrightarrow> starts_with s ''v'' \<or> starts_with s ''V''"

lemma split_char_append2:
  "split_char d (s @ d # t) = split_char d s @ split_char d t"
  by (induction s) (auto split: list.splits)

lemma find_append: "find P (xs @ ys) = (case find P xs of Some x \<Rightarrow> Some x | None \<Rightarrow> find P ys)"
  by (induction xs) auto

lemma segment_ascii: "list_all is_ascii path \<Longrightarrow> t \<in> set (split_char d path) \<Longrightarrow> list_all is_ascii t"
  by (induction path arbitrary: t) (auto split: if_splits list.splits)

text \<open>
  The version a handler reads from its path. Only the first segment that begins with the letter v counts.
  Below a base path without such a segment, the segment after it decides, and it names a
  version exactly when it is one or more letters v and a digit from 1 to 5. A path whose first such
  segment is no version, like \<^verbatim>\<open>/vendors/v2/users\<close>, has no version, although a version follows.
\<close>

theorem extract_version_first_segment:
  assumes "list_all is_ascii (base @ ''/'' @ segment @ ''/'' @ rest)" and "CHR ''/'' \<notin> set segment" and "v_segment segment"
  shows "if list_ex v_segment (split_char CHR ''/'' base)
     then extract_version_from_path uni (base @ ''/'' @ segment @ ''/'' @ rest) = extract_version_from_path uni base
     else (\<forall>v. extract_version_from_path uni (base @ ''/'' @ segment @ ''/'' @ rest) = Some v \<longleftrightarrow> spells_version segment v)"
proof -
  have segments: "split_char CHR ''/'' (base @ CHR ''/'' # segment @ CHR ''/'' # rest) =
      split_char CHR ''/'' base @ segment # split_char CHR ''/'' rest"
    using split_char_append2 [of "CHR ''/''" base "segment @ CHR ''/'' # rest"] assms(2)
    by (simp add: split_char_append)
  have find_base: "find v_segment (split_char CHR ''/'' base) = None \<longleftrightarrow> \<not> list_ex v_segment (split_char CHR ''/'' base)"
    by (auto simp: find_None_iff list_ex_iff)
  have "list_all is_ascii segment" using assms(1) by simp
  then show ?thesis
    using find_base assms(3)
    by (auto simp: extract_version_from_path_def segments find_append v_segment_def [symmetric] api_version_parse_iff
        simp del: find_None_iff split: option.splits)
qed

theorem extract_version_first_segment_witness:
  "(extract_version_from_path (\<lambda>s. s) ''/api/v2/users'' = Some V2) \<and>
   extract_version_from_path (\<lambda>s. s) ''/vendors/v2/users'' = None"
proof
  have "list_all is_ascii (''/api'' @ ''/'' @ ''v2'' @ ''/'' @ ''users'')"
    "list_all is_ascii (''/vendors'' @ ''/'' @ ''v2'' @ ''/'' @ ''users'')" "v_segment ''v2''" by code_simp+
  note hyp = this
  have "\<not> list_ex v_segment (split_char CHR ''/'' ''/api'')" "list_ex v_segment (split_char CHR ''/'' ''/vendors'')"
    "spells_version ''v2'' V2" "extract_version_from_path (\<lambda>s. s) ''/vendors'' = None" by code_simp+
  then show "extract_version_from_path (\<lambda>s. s) ''/api/v2/users'' = Some V2"
    "extract_version_from_path (\<lambda>s. s) ''/vendors/v2/users'' = None"
    using extract_version_first_segment [OF hyp(1) _ hyp(3), of "\<lambda>s. s"] extract_version_first_segment [OF hyp(2) _ hyp(3), of "\<lambda>s. s"]
    by simp_all
qed

subsection \<open>Deprecation headers\<close>

lemma insert_valid_get:
  "map_of (insert_valid hv name text headers) n =
     (if n = name then or_else (hv text) (map_of headers name) else map_of headers n)"
  by (auto simp: insert_valid_def header_insert_other split: option.splits)

lemma deprecation_headers_get:
  "map_of (deprecation_headers hv d headers) n =
      (if n = ''deprecation'' then or_else (hv (deprecation_header d)) (map_of headers n)
       else if n = ''sunset'' then or_else (Option.bind (di_sunset_date d) hv) (map_of headers n)
       else if n = ''link'' then or_else (hv (link_header d)) (map_of headers n)
       else if n = ''warning'' then or_else (Option.bind (di_message d) (\<lambda>m. hv (warning_header d m))) (map_of headers n)
       else map_of headers n)"
  by (cases "di_sunset_date d"; cases "di_message d")
     (simp_all add: deprecation_headers_def sunset_header_def insert_valid_get)

text \<open>
  What a client of a deprecated version sees. The request reaches the handler unchanged, and its
  status, body, state and events are passed back; of the headers only \<^verbatim>\<open>Deprecation\<close>, \<^verbatim>\<open>Sunset\<close>, \<^verbatim>\<open>Link\<close> and \<^verbatim>\<open>Warning\<close>
  change. Deprecation and Link are always set, Sunset and Warning exactly when a date and a message are
  configured; a date or message that is no header value is dropped and the handler's own header stays.
\<close>

theorem deprecation_headers_set:
  "case next rq s of (rp, s', events) \<Rightarrow>
     \<exists>headers. deprecation_middleware hv (Some d) next rq s = (rp\<lparr>rp_headers := headers\<rparr>, s', events) \<and>
       (\<forall>n. map_of headers n =
         (if n = ''deprecation'' then or_else (hv (deprecation_header d)) (map_of (rp_headers rp) n)
          else if n = ''sunset'' then or_else (Option.bind (di_sunset_date d) hv) (map_of (rp_headers rp) n)
          else if n = ''link'' then or_else (hv (link_header d)) (map_of (rp_headers rp) n)
          else if n = ''warning''
          then or_else (Option.bind (di_message d) (\<lambda>m. hv (warning_header d m))) (map_of (rp_headers rp) n)
          else map_of (rp_headers rp) n))"
proof -
  obtain rp s' events where inner: "next rq s = (rp, s', events)" by (cases "next rq s") auto
  show ?thesis
    unfolding inner prod.case deprecation_middleware_def option.case
    by (rule exI [of _ "deprecation_headers hv d (rp_headers rp)"]) (simp only: deprecation_headers_get simp_thms)
qed

subsection \<open>Mount points\<close>

lemma full_path_inj: "full_path base v = full_path base w \<longleftrightarrow> v = w"
  by (cases base; cases v; cases w) (simp_all add: full_path_def)

lemma trim_end_slashes_last: "trim_end_slashes s \<noteq> [] \<Longrightarrow> last (trim_end_slashes s) \<noteq> CHR ''/''"
  using hd_dropWhile [of "\<lambda>c. c = CHR ''/''" "rev s"] by (simp add: trim_end_slashes_def last_rev)

lemma trim_end_slashes_empty: "trim_end_slashes s = [] \<longleftrightarrow> set s \<subseteq> {CHR ''/''}"
  by (auto simp: trim_end_slashes_def)

lemma trim_end_slashes_hd: "trim_end_slashes s \<noteq> [] \<Longrightarrow> hd (trim_end_slashes s) = hd s"
proof -
  assume ne: "trim_end_slashes s \<noteq> []"
  have "rev (rev s) = rev (takeWhile (\<lambda>c. c = CHR ''/'') (rev s) @ dropWhile (\<lambda>c. c = CHR ''/'') (rev s))" by simp
  then have "s = trim_end_slashes s @ rev (takeWhile (\<lambda>c. c = CHR ''/'') (rev s))"
    unfolding trim_end_slashes_def by (simp only: rev_append rev_rev_ident)
  with ne show ?thesis by (metis hd_append2)
qed

text \<open>
  The base path. Any base path with a character other than a slash is normalized to one that begins
  with a slash and does not end with one, so every version is mounted below it at its own path; a base path of
  slashes only mounts the versions at the root. The empty base path becomes a single slash, and then every
  version is mounted below two slashes, where no request for \<^verbatim>\<open>/v1\<close> arrives.
\<close>

theorem base_path_normalized:
  "(if set path \<subseteq> {CHR ''/''}
    then normalize_base_path path = (if path = [] then ''/'' else [])
    else hd (normalize_base_path path) = CHR ''/'' \<and> last (normalize_base_path path) \<noteq> CHR ''/'') \<and>
   (\<forall>v w. full_path (ab_base_path (with_base_path path b)) v = full_path (ab_base_path (with_base_path path b)) w \<longleftrightarrow> v = w) \<and>
   (full_path (ab_base_path (with_base_path path b)) v = ''/'' @ as_path_segment v \<longleftrightarrow> path \<noteq> [] \<and> set path \<subseteq> {CHR ''/''})"
proof -
  have start: "starts_with path ''/'' \<longleftrightarrow> path \<noteq> [] \<and> hd path = CHR ''/''" by (cases path) auto
  have norm: "normalize_base_path path = (if path = [] then ''/'' else [])" if "set path \<subseteq> {CHR ''/''}"
    using that trim_end_slashes_empty [of path] by (cases path) (auto simp: normalize_base_path_def start)
  have other: "hd (normalize_base_path path) = CHR ''/'' \<and> last (normalize_base_path path) \<noteq> CHR ''/'' \<and> normalize_base_path path \<noteq> []"
    if "\<not> set path \<subseteq> {CHR ''/''}"
  proof -
    from that have "trim_end_slashes path \<noteq> []" by (simp add: trim_end_slashes_empty)
    then show ?thesis
      using trim_end_slashes_last [of path] trim_end_slashes_hd [of path] that
      by (auto simp: normalize_base_path_def start)
  qed
  have base: "ab_base_path (with_base_path path b) = Some (normalize_base_path path)" by (simp add: with_base_path_def)
  show ?thesis
    unfolding base full_path_inj using norm other by (auto simp: full_path_def)
qed

end
