(* ===== verification/Sessions.thy ===== *)
theory Sessions
  imports Token_Auth
begin

text \<open>
  Sessions (\<^verbatim>\<open>src/acton-service/src/session/\<close>): the configuration of the session cookie (\<^verbatim>\<open>config.rs\<close>,
  \<^verbatim>\<open>mod.rs\<close>), CSRF tokens and the layer that checks them (\<^verbatim>\<open>csrf.rs\<close>), flash messages (\<^verbatim>\<open>flash.rs\<close>)
  and typed sessions with the session of a logged-in user (\<^verbatim>\<open>extractors.rs\<close>). The session of the crate
  \<^verbatim>\<open>tower-sessions\<close> is a record of operations over an abstract store, with its documented behaviour in
  the locale \<open>session_laws\<close>; \<open>mem_session\<close> is a store that follows it and never fails. Serialization is given by
  a pair of functions.
\<close>

subsection \<open>The session interface\<close>

text \<open>
  \<open>ss_get\<close> reads a value, \<open>ss_insert\<close> sets one, \<open>ss_remove\<close> takes one out and returns it, \<open>ss_flush\<close> deletes the session
  and \<open>ss_cycle_id\<close> gives it a new identifier. Errors are texts.
\<close>

record 's session_ops =
  ss_get :: "string \<Rightarrow> 's \<Rightarrow> string + json option"
  ss_insert :: "string \<Rightarrow> json \<Rightarrow> 's \<Rightarrow> (string + unit) \<times> 's"
  ss_remove :: "string \<Rightarrow> 's \<Rightarrow> (string + json option) \<times> 's"
  ss_flush :: "'s \<Rightarrow> (string + unit) \<times> 's"
  ss_cycle_id :: "'s \<Rightarrow> (string + unit) \<times> 's"

locale session_laws =
  fixes S :: "'s session_ops" and view :: "'s \<Rightarrow> string \<Rightarrow> json option"
  assumes get_ok: "ss_get S k s = Inr v \<Longrightarrow> v = view s k"
    and insert_ok: "ss_insert S k j s = (Inr u, s') \<Longrightarrow> view s' = (view s)(k \<mapsto> j)"
    and remove_ok: "ss_remove S k s = (Inr v, s') \<Longrightarrow> v = view s k \<and> view s' = (view s)(k := None)"
    and flush_ok: "ss_flush S s = (Inr u, s') \<Longrightarrow> view s' = Map.empty"
    and cycle_ok: "ss_cycle_id S s = (Inr u, s') \<Longrightarrow> view s' = view s"

definition mem_session :: "(string \<Rightarrow> json option) session_ops" where
  "mem_session =
     \<lparr>ss_get = (\<lambda>k s. Inr (s k)), ss_insert = (\<lambda>k j s. (Inr (), s(k \<mapsto> j))),
      ss_remove = (\<lambda>k s. (Inr (s k), s(k := None))), ss_flush = (\<lambda>s. (Inr (), Map.empty)),
      ss_cycle_id = (\<lambda>s. (Inr (), s))\<rparr>"

interpretation mem_session: session_laws mem_session "\<lambda>s. s"
  by unfold_locales (auto simp: mem_session_def)

text \<open>A type that is stored in a session: how it is written and read. The error of reading is a text.\<close>

record 'a serde =
  sd_ser :: "'a \<Rightarrow> json"
  sd_de :: "json \<Rightarrow> string + 'a"

definition decode_value :: "'a serde \<Rightarrow> json option \<Rightarrow> string + 'a option" where
  "decode_value sd v =
     (case v of None \<Rightarrow> Inr None | Some j \<Rightarrow> (case sd_de sd j of Inl e \<Rightarrow> Inl e | Inr x \<Rightarrow> Inr (Some x)))"

definition session_get :: "'s session_ops \<Rightarrow> 'a serde \<Rightarrow> string \<Rightarrow> 's \<Rightarrow> string + 'a option" where
  "session_get S sd k s = (case ss_get S k s of Inl e \<Rightarrow> Inl e | Inr v \<Rightarrow> decode_value sd v)"

definition session_remove :: "'s session_ops \<Rightarrow> 'a serde \<Rightarrow> string \<Rightarrow> 's \<Rightarrow> (string + 'a option) \<times> 's" where
  "session_remove S sd k s =
     (case ss_remove S k s of (Inl e, s') \<Rightarrow> (Inl e, s') | (Inr v, s') \<Rightarrow> (decode_value sd v, s'))"

definition string_serde :: "(json \<Rightarrow> string) \<Rightarrow> string serde" where
  "string_serde mismatch =
     \<lparr>sd_ser = JString, sd_de = (\<lambda>j. case json_str j of Some s \<Rightarrow> Inr s | None \<Rightarrow> Inl (mismatch j))\<rparr>"

definition map_err :: "(string \<Rightarrow> error) \<Rightarrow> string + 'a \<Rightarrow> error + 'a" where
  "map_err f r = (case r of Inl e \<Rightarrow> Inl (f e) | Inr x \<Rightarrow> Inr x)"

lemma map_err_simps [simp]: "map_err f (Inl e) = Inl (f e)" "map_err f (Inr x) = Inr x"
  by (simp_all add: map_err_def)

text \<open>The trait \<^verbatim>\<open>SessionData\<close>.\<close>

definition get_value :: "'s session_ops \<Rightarrow> 'a serde \<Rightarrow> string \<Rightarrow> 's \<Rightarrow> error + 'a option" where
  "get_value S sd k s = map_err (\<lambda>e. Session (''Session get error: '' @ e)) (session_get S sd k s)"

definition set_value :: "'s session_ops \<Rightarrow> 'a serde \<Rightarrow> string \<Rightarrow> 'a \<Rightarrow> 's \<Rightarrow> (error + unit) \<times> 's" where
  "set_value S sd k v s =
     (case ss_insert S k (sd_ser sd v) s of
        (r, s') \<Rightarrow> (map_err (\<lambda>e. Session (''Session set error: '' @ e)) r, s'))"

definition remove_value :: "'s session_ops \<Rightarrow> 'a serde \<Rightarrow> string \<Rightarrow> 's \<Rightarrow> (error + 'a option) \<times> 's" where
  "remove_value S sd k s =
     (case session_remove S sd k s of
        (r, s') \<Rightarrow> (map_err (\<lambda>e. Session (''Session remove error: '' @ e)) r, s'))"

definition has_key :: "'s session_ops \<Rightarrow> string \<Rightarrow> 's \<Rightarrow> error + bool" where
  "has_key S k s =
     (case map_err (\<lambda>e. Session (''Session check error: '' @ e)) (ss_get S k s) of
        Inl e \<Rightarrow> Inl e | Inr v \<Rightarrow> Inr (v \<noteq> None))"

subsection \<open>Configuration\<close>

datatype session_storage = Memory | RedisStorage

record csrf_config =
  cs_enabled :: bool
  cs_token_length :: nat
  cs_header_name :: string
  cs_form_field_name :: string
  cs_safe_methods :: "string list"

definition default_csrf_config :: csrf_config where
  "default_csrf_config =
     \<lparr>cs_enabled = True, cs_token_length = 32, cs_header_name = ''X-CSRF-Token'', cs_form_field_name = ''_csrf'',
      cs_safe_methods = [''GET'', ''HEAD'', ''OPTIONS'', ''TRACE'']\<rparr>"

record session_config =
  sc_cookie_name :: string
  sc_expiry_secs :: u64
  sc_inactivity_timeout_secs :: "u64 option"
  sc_cookie_path :: string
  sc_cookie_domain :: "string option"
  sc_secure :: bool
  sc_http_only :: bool
  sc_same_site :: string
  sc_storage :: session_storage
  sc_redis_url :: "string option"
  sc_csrf :: csrf_config

definition default_session_config :: session_config where
  "default_session_config =
     \<lparr>sc_cookie_name = ''session_id'', sc_expiry_secs = 86400, sc_inactivity_timeout_secs = None, sc_cookie_path = ''/'',
      sc_cookie_domain = None, sc_secure = True, sc_http_only = True, sc_same_site = ''lax'', sc_storage = Memory,
      sc_redis_url = None, sc_csrf = default_csrf_config\<rparr>"

datatype expiry = OnSessionEnd | OnInactivity int

datatype same_site = SameSiteStrict | SameSiteNone | SameSiteLax

text \<open>The settings of the session layer; both stores are configured with the same text.\<close>

record session_layer =
  sl_name :: string
  sl_expiry :: expiry
  sl_secure :: bool
  sl_http_only :: bool
  sl_same_site :: same_site
  sl_path :: string
  sl_domain :: "string option"

definition session_expiry :: "session_config \<Rightarrow> expiry" where
  "session_expiry config =
     (if sc_expiry_secs config = 0 then OnSessionEnd
      else case sc_inactivity_timeout_secs config of
        Some inactivity \<Rightarrow> OnInactivity (sint inactivity)
      | None \<Rightarrow> OnInactivity (sint (sc_expiry_secs config)))"

definition session_same_site :: "(string \<Rightarrow> string) \<Rightarrow> string \<Rightarrow> same_site" where
  "session_same_site uni s =
     (if to_lowercase uni s = ''strict'' then SameSiteStrict
      else if to_lowercase uni s = ''none'' then SameSiteNone else SameSiteLax)"

definition create_session_layer :: "(string \<Rightarrow> string) \<Rightarrow> session_config \<Rightarrow> session_layer" where
  "create_session_layer uni config =
     \<lparr>sl_name = sc_cookie_name config, sl_expiry = session_expiry config, sl_secure = sc_secure config,
      sl_http_only = sc_http_only config, sl_same_site = session_same_site uni (sc_same_site config),
      sl_path = sc_cookie_path config, sl_domain = sc_cookie_domain config\<rparr>"

subsection \<open>CSRF tokens\<close>

definition CSRF_SESSION_KEY :: string where
  "CSRF_SESSION_KEY = ''_csrf_token''"

definition html_escape :: "string \<Rightarrow> string" where
  "html_escape s =
     replace_char (CHR 0x27) ''&#x27;'' (replace_char (CHR 0x22) ''&quot;''
       (replace_char CHR ''>'' ''&gt;'' (replace_char CHR ''<'' ''&lt;'' (replace_char CHR ''&'' ''&amp;'' s))))"

definition attr :: "string \<Rightarrow> string \<Rightarrow> string" where
  "attr name v = name @ ''='' @ [CHR 0x22] @ v @ [CHR 0x22]"

definition as_hidden_field_named :: "string \<Rightarrow> string \<Rightarrow> string" where
  "as_hidden_field_named token name =
     ''<input '' @ attr ''type'' ''hidden'' @ '' '' @ attr ''name'' (html_escape name) @ '' '' @
     attr ''value'' (html_escape token) @ ''>''"

definition as_hidden_field :: "string \<Rightarrow> string" where
  "as_hidden_field token =
     ''<input '' @ attr ''type'' ''hidden'' @ '' '' @ attr ''name'' ''_csrf'' @ '' '' @ attr ''value'' (html_escape token) @ ''>''"

definition as_meta_tag :: "string \<Rightarrow> string" where
  "as_meta_tag token = ''<meta '' @ attr ''name'' ''csrf-token'' @ '' '' @ attr ''content'' (html_escape token) @ ''>''"

text \<open>\<open>rng\<close> is the sequence of random alphanumeric characters.\<close>

definition csrf_generate :: "(nat \<Rightarrow> char) \<Rightarrow> nat \<Rightarrow> string" where
  "csrf_generate rng n = map rng [0..<n]"

definition csrf_regenerate :: "'s session_ops \<Rightarrow> (nat \<Rightarrow> char) \<Rightarrow> nat \<Rightarrow> 's \<Rightarrow> (error + string) \<times> 's" where
  "csrf_regenerate S rng n s =
     (let token = csrf_generate rng n
      in case ss_insert S CSRF_SESSION_KEY (JString token) s of
           (Inl e, s') \<Rightarrow> (Inl (Session (''Failed to store CSRF token: '' @ e)), s')
         | (Inr _, s') \<Rightarrow> (Inr token, s'))"

definition csrf_get_or_create ::
  "'s session_ops \<Rightarrow> (json \<Rightarrow> string) \<Rightarrow> (nat \<Rightarrow> char) \<Rightarrow> nat \<Rightarrow> 's \<Rightarrow> (error + string) \<times> 's" where
  "csrf_get_or_create S mismatch rng n s =
     (case session_get S (string_serde mismatch) CSRF_SESSION_KEY s of
        Inl e \<Rightarrow> (Inl (Session (''Failed to read CSRF token: '' @ e)), s)
      | Inr (Some token) \<Rightarrow> (Inr token, s)
      | Inr None \<Rightarrow> csrf_regenerate S rng n s)"

text \<open>The extractor; \<open>session\<close> is the session of the request, if there is one.\<close>

definition csrf_token_extract ::
  "'s session_ops option \<Rightarrow> (json \<Rightarrow> string) \<Rightarrow> (nat \<Rightarrow> char) \<Rightarrow> 's \<Rightarrow> (error + string) \<times> 's" where
  "csrf_token_extract session mismatch rng s =
     (case session of
        None \<Rightarrow> (Inl (Session ''Session not found in request extensions for CSRF''), s)
      | Some S \<Rightarrow> csrf_get_or_create S mismatch rng 32 s)"

definition constant_time_compare :: "string \<Rightarrow> string \<Rightarrow> bool" where
  "constant_time_compare a b \<longleftrightarrow>
     length a = length b \<and> foldl (\<lambda>result (x, y). or result (xor x y)) (0 :: u8) (zip (as_bytes a) (as_bytes b)) = 0"

definition csrf_error_response :: "string \<Rightarrow> response" where
  "csrf_error_response message =
     \<lparr>rp_status = FORBIDDEN, rp_headers = [(''content-type'', ''application/json'')],
      rp_body = Opaque (''{'' @ [CHR 0x22] @ ''error'' @ [CHR 0x22] @ '': '' @ [CHR 0x22] @ ''csrf_validation_failed'' @
        [CHR 0x22] @ '', '' @ [CHR 0x22] @ ''message'' @ [CHR 0x22] @ '': '' @ [CHR 0x22] @ message @ [CHR 0x22] @ ''}'')\<rparr>"

definition eq_ignore_ascii_case :: "string \<Rightarrow> string \<Rightarrow> bool" where
  "eq_ignore_ascii_case a b \<longleftrightarrow> map to_ascii_lowercase a = map to_ascii_lowercase b"

definition csrf_safe :: "csrf_config \<Rightarrow> string \<Rightarrow> bool" where
  "csrf_safe config meth \<longleftrightarrow> list_ex (\<lambda>m. eq_ignore_ascii_case m meth) (cs_safe_methods config)"

text \<open>\<^verbatim>\<open>csrf_middleware\<close>: the check for a session that is there.\<close>

definition csrf_middleware ::
  "(json \<Rightarrow> string) \<Rightarrow> 's session_ops \<Rightarrow> csrf_config \<Rightarrow> 's service \<Rightarrow> 's service" where
  "csrf_middleware mismatch S config next rq s =
     (if \<not> cs_enabled config then next rq s
      else if csrf_safe config (hr_method rq) then next rq s
      else (case session_get S (string_serde mismatch) CSRF_SESSION_KEY s of
              Inr (Some expected_token) \<Rightarrow>
                (case header_string (hr_headers rq) (map to_ascii_lowercase (cs_header_name config)) of
                   None \<Rightarrow> (csrf_error_response ''CSRF validation failed: no token provided'', s, [])
                 | Some provided_token \<Rightarrow>
                     if \<not> constant_time_compare expected_token provided_token
                     then (csrf_error_response ''CSRF validation failed: invalid token'', s, [])
                     else next rq s)
            | _ \<Rightarrow> (csrf_error_response ''CSRF validation failed: no token in session'', s, [])))"

text \<open>The layer takes the session from the request, where one may be missing.\<close>

definition csrf_layer_call ::
  "(json \<Rightarrow> string) \<Rightarrow> (request \<Rightarrow> 's session_ops option) \<Rightarrow> csrf_config \<Rightarrow> 's service \<Rightarrow> 's service" where
  "csrf_layer_call mismatch session config inner rq s =
     (if \<not> cs_enabled config then inner rq s
      else if csrf_safe config (hr_method rq) then inner rq s
      else (case session rq of
              None \<Rightarrow> (csrf_error_response ''CSRF validation failed: no session'', s, [])
            | Some S \<Rightarrow> csrf_middleware mismatch S config inner rq s))"

subsection \<open>Flash messages\<close>

datatype flash_kind = FlashSuccess | FlashInfo | FlashWarning | FlashError

fun css_class :: "flash_kind \<Rightarrow> string" where
  "css_class FlashSuccess = ''flash-success''"
| "css_class FlashInfo = ''flash-info''"
| "css_class FlashWarning = ''flash-warning''"
| "css_class FlashError = ''flash-error''"

fun flash_icon :: "flash_kind \<Rightarrow> string" where
  "flash_icon FlashSuccess = ''check-circle''"
| "flash_icon FlashInfo = ''info-circle''"
| "flash_icon FlashWarning = ''exclamation-triangle''"
| "flash_icon FlashError = ''x-circle''"

record flash_message =
  fm_kind :: flash_kind
  fm_message :: string

definition by_kind :: "flash_kind \<Rightarrow> flash_message list \<Rightarrow> flash_message list" where
  "by_kind kind messages = filter (\<lambda>m. fm_kind m = kind) messages"

definition has_success :: "flash_message list \<Rightarrow> bool" where
  "has_success messages \<longleftrightarrow> list_ex (\<lambda>m. fm_kind m = FlashSuccess) messages"

definition has_errors :: "flash_message list \<Rightarrow> bool" where
  "has_errors messages \<longleftrightarrow> list_ex (\<lambda>m. fm_kind m = FlashError) messages"

definition FLASH_SESSION_KEY :: string where
  "FLASH_SESSION_KEY = ''_flash_messages''"

definition flash_push_many ::
  "'s session_ops \<Rightarrow> flash_message list serde \<Rightarrow> flash_message list \<Rightarrow> 's \<Rightarrow> (error + unit) \<times> 's" where
  "flash_push_many S sd new_messages s =
     (case session_get S sd FLASH_SESSION_KEY s of
        Inl e \<Rightarrow> (Inl (Session (''Failed to read flash messages: '' @ e)), s)
      | Inr old \<Rightarrow>
          (case ss_insert S FLASH_SESSION_KEY (sd_ser sd ((case old of Some ms \<Rightarrow> ms | None \<Rightarrow> []) @ new_messages)) s of
             (r, s') \<Rightarrow> (map_err (\<lambda>e. Session (''Failed to write flash messages: '' @ e)) r, s')))"

definition flash_push :: "'s session_ops \<Rightarrow> flash_message list serde \<Rightarrow> flash_message \<Rightarrow> 's \<Rightarrow> (error + unit) \<times> 's" where
  "flash_push S sd message s =
     (case session_get S sd FLASH_SESSION_KEY s of
        Inl e \<Rightarrow> (Inl (Session (''Failed to read flash messages: '' @ e)), s)
      | Inr old \<Rightarrow>
          (case ss_insert S FLASH_SESSION_KEY (sd_ser sd ((case old of Some ms \<Rightarrow> ms | None \<Rightarrow> []) @ [message])) s of
             (r, s') \<Rightarrow> (map_err (\<lambda>e. Session (''Failed to write flash messages: '' @ e)) r, s')))"

definition flash_clear :: "'s session_ops \<Rightarrow> flash_message list serde \<Rightarrow> 's \<Rightarrow> (error + unit) \<times> 's" where
  "flash_clear S sd s =
     (case session_remove S sd FLASH_SESSION_KEY s of
        (Inl e, s') \<Rightarrow> (Inl (Session (''Failed to clear flash messages: '' @ e)), s')
      | (Inr _, s') \<Rightarrow> (Inr (), s'))"

definition flash_extract ::
  "'s session_ops option \<Rightarrow> flash_message list serde \<Rightarrow> 's \<Rightarrow> (error + flash_message list) \<times> 's" where
  "flash_extract session sd s =
     (case session of
        None \<Rightarrow> (Inl (Session ''Session not found in request extensions for flash messages''), s)
      | Some S \<Rightarrow>
          (case session_remove S sd FLASH_SESSION_KEY s of
             (Inl e, s') \<Rightarrow> (Inl (Session (''Failed to read flash messages: '' @ e)), s')
           | (Inr old, s') \<Rightarrow> (Inr (case old of Some ms \<Rightarrow> ms | None \<Rightarrow> []), s')))"

subsection \<open>Typed sessions\<close>

definition DATA_KEY :: string where
  "DATA_KEY = ''_typed_session_data''"

record ('s, 'a) typed_session =
  ts_session :: "'s session_ops"
  ts_data :: 'a
  ts_audit :: "(audit_logger \<times> audit_source) option"

definition typed_extract ::
  "'s session_ops option \<Rightarrow> 'a serde \<Rightarrow> 'a \<Rightarrow> request \<Rightarrow> 's \<Rightarrow> error + ('s, 'a) typed_session" where
  "typed_extract session sd dflt rq s =
     (case session of
        None \<Rightarrow> Inl (Session ''Session not found in request extensions. Is SessionManagerLayer configured?'')
      | Some S \<Rightarrow>
          (case session_get S sd DATA_KEY s of
             Inl e \<Rightarrow> Inl (Session (''Failed to read session data: '' @ e))
           | Inr v \<Rightarrow>
               Inr \<lparr>ts_session = S, ts_data = (case v of Some d \<Rightarrow> d | None \<Rightarrow> dflt),
                    ts_audit = map_option (\<lambda>logger. (logger, audit_source_for_request rq)) (ext_audit_logger (hr_ext rq))\<rparr>))"

definition typed_save :: "'a serde \<Rightarrow> ('s, 'a) typed_session \<Rightarrow> 's \<Rightarrow> (error + unit) \<times> 's" where
  "typed_save sd t s =
     (case ss_insert (ts_session t) DATA_KEY (sd_ser sd (ts_data t)) s of
        (r, s') \<Rightarrow> (map_err (\<lambda>e. Session (''Failed to save session data: '' @ e)) r, s'))"

definition typed_update ::
  "'a serde \<Rightarrow> ('a \<Rightarrow> 'a) \<Rightarrow> ('s, 'a) typed_session \<Rightarrow> 's \<Rightarrow> (error + unit) \<times> ('s, 'a) typed_session \<times> 's" where
  "typed_update sd f t s =
     (let t' = t\<lparr>ts_data := f (ts_data t)\<rparr>
      in case typed_save sd t' s of (r, s') \<Rightarrow> (r, t', s'))"

definition typed_clear ::
  "'a serde \<Rightarrow> 'a \<Rightarrow> ('s, 'a) typed_session \<Rightarrow> 's \<Rightarrow> (error + unit) \<times> ('s, 'a) typed_session \<times> 's" where
  "typed_clear sd dflt t s =
     (let t' = t\<lparr>ts_data := dflt\<rparr>
      in case session_remove (ts_session t) sd DATA_KEY s of
           (Inl e, s') \<Rightarrow> (Inl (Session (''Failed to clear session data: '' @ e)), t', s')
         | (Inr _, s') \<Rightarrow> (Inr (), t', s'))"

definition typed_destroy :: "('s, 'a) typed_session \<Rightarrow> 's \<Rightarrow> (error + unit) \<times> 's" where
  "typed_destroy t s =
     (case ss_flush (ts_session t) s of
        (r, s') \<Rightarrow> (map_err (\<lambda>e. Session (''Failed to destroy session: '' @ e)) r, s'))"

definition typed_regenerate :: "('s, 'a) typed_session \<Rightarrow> 's \<Rightarrow> (error + unit) \<times> 's" where
  "typed_regenerate t s =
     (case ss_cycle_id (ts_session t) s of
        (r, s') \<Rightarrow> (map_err (\<lambda>e. Session (''Failed to regenerate session ID: '' @ e)) r, s'))"

record auth_session =
  au_user_id :: "string option"
  au_roles :: "string list"
  au_authenticated_at :: "int option"
  au_extra :: "(string \<times> string) list"

definition auth_session_default :: auth_session where
  "auth_session_default = \<lparr>au_user_id = None, au_roles = [], au_authenticated_at = None, au_extra = []\<rparr>"

definition au_is_authenticated :: "auth_session \<Rightarrow> bool" where
  "au_is_authenticated a \<longleftrightarrow> au_user_id a \<noteq> None"

definition au_login :: "int \<Rightarrow> string \<Rightarrow> string list \<Rightarrow> auth_session \<Rightarrow> auth_session" where
  "au_login now user_id roles a =
     a\<lparr>au_user_id := Some user_id, au_roles := roles, au_authenticated_at := Some now\<rparr>"

definition au_login_with_extra ::
  "int \<Rightarrow> string \<Rightarrow> string list \<Rightarrow> (string \<times> string) list \<Rightarrow> auth_session \<Rightarrow> auth_session" where
  "au_login_with_extra now user_id roles extra a = (au_login now user_id roles a)\<lparr>au_extra := extra\<rparr>"

definition au_logout :: "auth_session \<Rightarrow> auth_session" where
  "au_logout a = a\<lparr>au_user_id := None, au_roles := [], au_authenticated_at := None, au_extra := []\<rparr>"

definition au_has_role :: "auth_session \<Rightarrow> string \<Rightarrow> bool" where
  "au_has_role a role \<longleftrightarrow> list_ex (\<lambda>r. r = role) (au_roles a)"

definition au_has_any_role :: "auth_session \<Rightarrow> string list \<Rightarrow> bool" where
  "au_has_any_role a roles \<longleftrightarrow> list_ex (au_has_role a) roles"

definition au_has_all_roles :: "auth_session \<Rightarrow> string list \<Rightarrow> bool" where
  "au_has_all_roles a roles \<longleftrightarrow> list_all (au_has_role a) roles"

definition au_get_extra :: "auth_session \<Rightarrow> string \<Rightarrow> string option" where
  "au_get_extra a key = map_of (au_extra a) key"

definition au_set_extra :: "string \<Rightarrow> string \<Rightarrow> auth_session \<Rightarrow> auth_session" where
  "au_set_extra key v a = a\<lparr>au_extra := AList.update key v (au_extra a)\<rparr>"

text \<open>\<^verbatim>\<open>TypedSession<AuthSession>::logout\<close>: the event is logged only after the session has been saved.\<close>

definition session_logout ::
  "auth_session serde \<Rightarrow> stamp \<Rightarrow> ('s, auth_session) typed_session \<Rightarrow> 's \<Rightarrow>
     (error + unit) \<times> ('s, auth_session) typed_session \<times> 's \<times> audit_event list" where
  "session_logout sd stamp t s =
     (let subject = au_user_id (ts_data t); t' = t\<lparr>ts_data := au_logout (ts_data t)\<rparr>
      in case typed_save sd t' s of
           (Inl e, s') \<Rightarrow> (Inl e, t', s', [])
         | (Inr _, s') \<Rightarrow>
             (Inr (), t', s',
              case ts_audit t of
                Some (logger, source) \<Rightarrow> audit_auth stamp (Some logger) AuthLogout Notice (source\<lparr>src_subject := subject\<rparr>)
              | None \<Rightarrow> []))"

subsection \<open>The comparison\<close>

lemma xor_eq_zero: "xor x y = 0 \<longleftrightarrow> x = (y :: u8)"
proof
  assume "xor x y = 0"
  then have "xor (xor x y) y = xor 0 y" by simp
  then show "x = y" by (simp add: xor.assoc)
qed simp

lemma fold_xor_zero:
  fixes acc :: u8
  shows "foldl (\<lambda>result (x, y). or result (xor x y)) acc ps = 0 \<longleftrightarrow> acc = 0 \<and> list_all (\<lambda>(x, y). x = y) ps"
proof (induction ps arbitrary: acc)
  case (Cons p ps)
  show ?case by (cases p) (simp add: Cons.IH or_eq_0_iff xor_eq_zero conj_assoc)
qed simp

text \<open>
  Comparing without early exit is comparing: the loop that collects the differences of two tokens
  byte by byte gives exactly the equality of the tokens.
\<close>

lemma constant_time_compare_eq: "constant_time_compare a b \<longleftrightarrow> a = b"
  using list_eq_iff_zip_eq [of "as_bytes a" "as_bytes b"] as_bytes_inj [of a b]
  by (simp add: constant_time_compare_def fold_xor_zero list_all_iff)

subsection \<open>Escaping\<close>

definition html_entity :: "char \<Rightarrow> string" where
  "html_entity c =
     (if c = CHR ''&'' then ''&amp;'' else if c = CHR ''<'' then ''&lt;'' else if c = CHR ''>'' then ''&gt;''
      else if c = CHR 0x22 then ''&quot;'' else if c = CHR 0x27 then ''&#x27;'' else [c])"

text \<open>The five passes work like one pass, because the ampersand is replaced first.\<close>

lemma html_escape_eq: "html_escape s = concat (map html_entity s)"
  unfolding html_escape_def by (induction s) (simp_all add: html_entity_def)

text \<open>A reader of the entities.\<close>

fun html_unescape :: "nat \<Rightarrow> string \<Rightarrow> string" where
  "html_unescape 0 s = s"
| "html_unescape (Suc n) [] = []"
| "html_unescape (Suc n) (c # s) =
     (if c = CHR ''&''
      then (case find (\<lambda>(e, d). starts_with (c # s) e)
              [(''&amp;'', CHR ''&''), (''&lt;'', CHR ''<''), (''&gt;'', CHR ''>''), (''&quot;'', CHR 0x22), (''&#x27;'', CHR 0x27)] of
              Some (e, d) \<Rightarrow> d # html_unescape n (drop (length e) (c # s))
            | None \<Rightarrow> c # html_unescape n s)
      else c # html_unescape n s)"

lemma html_unescape_step: "html_unescape (Suc n) (html_entity c @ t) = c # html_unescape n t"
  by (simp add: html_entity_def)

text \<open>
  A token or a field name cannot break out of the attribute it is written into. The escaped text
  has no angle bracket and no quote of either kind, and reading its entities gives back the
  original text.
\<close>

theorem html_escape_safe:
  "set (html_escape s) \<inter> {CHR ''<'', CHR ''>'', CHR 0x22, CHR 0x27} = {} \<and> html_unescape (length s) (html_escape s) = s"
proof
  have "set (html_entity c) \<inter> {CHR ''<'', CHR ''>'', CHR 0x22, CHR 0x27} = {}" for c
    by (simp add: html_entity_def)
  then show "set (html_escape s) \<inter> {CHR ''<'', CHR ''>'', CHR 0x22, CHR 0x27} = {}"
    by (fastforce simp: html_escape_eq)
  show "html_unescape (length s) (html_escape s) = s"
    unfolding html_escape_eq by (induction s) (simp_all add: html_unescape_step del: html_unescape.simps(3))
qed

subsection \<open>The CSRF gate\<close>

lemma csrf_error_status [simp]: "rp_status (csrf_error_response m) = FORBIDDEN"
  by (simp add: csrf_error_response_def)

text \<open>
  C26: the CSRF layer. With protection enabled, a request with a method that is not listed as safe reaches the
  handler, unchanged and with the session untouched, exactly when the session is there, holds a token, and the
  configured header carries that token; every other such request is answered with 403 and the handler does
  not run.
\<close>

theorem csrf_gate:
  assumes "cs_enabled config" and "\<not> csrf_safe config (hr_method rq)"
  shows "if \<exists>S token. session rq = Some S \<and> session_get S (string_serde mismatch) CSRF_SESSION_KEY s = Inr (Some token)
        \<and> header_string (hr_headers rq) (map to_ascii_lowercase (cs_header_name config)) = Some token
     then \<forall>inner. csrf_layer_call mismatch session config inner rq s = inner rq s
     else \<exists>rp. rp_status rp = FORBIDDEN \<and> (\<forall>inner. csrf_layer_call mismatch session config inner rq s = (rp, s, []))"
proof -
  have call: "csrf_layer_call mismatch session config inner rq s =
      (case session rq of
         None \<Rightarrow> (csrf_error_response ''CSRF validation failed: no session'', s, [])
       | Some S \<Rightarrow> csrf_middleware mismatch S config inner rq s)" for inner
    using assms by (simp add: csrf_layer_call_def)
  show ?thesis
  proof (cases "session rq")
    case None
    then show ?thesis by (auto simp: call)
  next
    case (Some S)
    let ?header = "header_string (hr_headers rq) (map to_ascii_lowercase (cs_header_name config))"
    have check: "csrf_middleware mismatch S config inner rq s =
        (case session_get S (string_serde mismatch) CSRF_SESSION_KEY s of
           Inr (Some expected) \<Rightarrow>
             (case ?header of
                None \<Rightarrow> (csrf_error_response ''CSRF validation failed: no token provided'', s, [])
              | Some provided \<Rightarrow>
                  if expected \<noteq> provided then (csrf_error_response ''CSRF validation failed: invalid token'', s, [])
                  else inner rq s)
         | _ \<Rightarrow> (csrf_error_response ''CSRF validation failed: no token in session'', s, []))" for inner
      unfolding csrf_middleware_def constant_time_compare_eq using assms by simp
    show ?thesis
    proof (cases "\<exists>token. session_get S (string_serde mismatch) CSRF_SESSION_KEY s = Inr (Some token) \<and> ?header = Some token")
      case True
      with Some show ?thesis by (auto simp: call check)
    next
      case False
      have "\<exists>m. \<forall>inner. csrf_middleware mismatch S config inner rq s = (csrf_error_response m, s, [])"
      proof (cases "session_get S (string_serde mismatch) CSRF_SESSION_KEY s")
        case (Inl e)
        then show ?thesis by (auto simp: check)
      next
        case (Inr v)
        with False show ?thesis by (cases v; cases ?header) (auto simp: check)
      qed
      with False Some show ?thesis by (auto simp: call)
    qed
  qed
qed

context session_laws
begin

lemma get_view: "ss_get S k s = Inr v \<Longrightarrow> session_get S sd k s = decode_value sd (view s k)"
  using get_ok [of k s v] by (simp add: session_get_def)

text \<open>A token that was handed out is in the session, and handing it out again gives the same one.\<close>

lemma csrf_token_stored:
  assumes "csrf_get_or_create S mismatch rng n s = (Inr token, s')"
  shows "view s' CSRF_SESSION_KEY = Some (JString token)"
proof (cases "session_get S (string_serde mismatch) CSRF_SESSION_KEY s")
  case (Inr v)
  show ?thesis
  proof (cases v)
    case None
    with Inr assms obtain u where "ss_insert S CSRF_SESSION_KEY (JString token) s = (Inr u, s')"
      by (auto simp: csrf_get_or_create_def csrf_regenerate_def Let_def split: prod.splits sum.splits)
    from insert_ok [OF this] show ?thesis by simp
  next
    case (Some t)
    with Inr assms have t: "t = token" "s' = s" by (simp_all add: csrf_get_or_create_def)
    from Inr Some obtain w where "ss_get S CSRF_SESSION_KEY s = Inr w" "decode_value (string_serde mismatch) w = Inr (Some t)"
      by (auto simp: session_get_def split: sum.splits)
    with t get_ok show ?thesis
      by (fastforce simp: decode_value_def string_serde_def json_str_def split: option.splits json.splits)
  qed
qed (use assms in \<open>simp add: csrf_get_or_create_def\<close>)

text \<open>Messages that were pushed are delivered once, in order.\<close>

lemma flash_delivered:
  assumes "flash_push_many S sd ms s = (Inr u, s1)" and "\<And>xs. sd_de sd (sd_ser sd xs) = Inr xs"
    and "view s FLASH_SESSION_KEY = map_option (sd_ser sd) old"
    and "flash_extract (Some S) sd s1 = (Inr got, s2)"
  shows "got = (case old of Some xs \<Rightarrow> xs | None \<Rightarrow> []) @ ms \<and> view s2 FLASH_SESSION_KEY = None"
proof -
  obtain w where w: "ss_get S FLASH_SESSION_KEY s = Inr w"
    using assms(1) by (auto simp: flash_push_many_def session_get_def split: sum.splits)
  have "session_get S sd FLASH_SESSION_KEY s = Inr old"
    using get_view [OF w, of sd] assms(2,3) by (cases old) (simp_all add: decode_value_def)
  with assms(1) obtain u' where
    "ss_insert S FLASH_SESSION_KEY (sd_ser sd ((case old of Some xs \<Rightarrow> xs | None \<Rightarrow> []) @ ms)) s = (Inr u', s1)"
    by (auto simp: flash_push_many_def map_err_def split: prod.splits sum.splits)
  from insert_ok [OF this] have v1: "view s1 FLASH_SESSION_KEY = Some (sd_ser sd ((case old of Some xs \<Rightarrow> xs | None \<Rightarrow> []) @ ms))"
    by simp
  obtain v where rem: "ss_remove S FLASH_SESSION_KEY s1 = (Inr v, s2)"
    using assms(4) by (auto simp: flash_extract_def session_remove_def split: sum.splits prod.splits)
  with remove_ok [OF rem] v1 assms(2,4) show ?thesis
    by (simp add: flash_extract_def session_remove_def decode_value_def)
qed

end

text \<open>A token handed out by the extractor is admitted as long as it stays in the session.\<close>

lemma csrf_token_admitted:
  assumes laws: "session_laws S view" and given: "csrf_get_or_create S mismatch rng n s = (Inr token, s1)"
    and kept: "view s2 CSRF_SESSION_KEY = view s1 CSRF_SESSION_KEY" and read: "ss_get S CSRF_SESSION_KEY s2 = Inr v"
    and session: "session rq = Some S"
    and header: "header_string (hr_headers rq) (map to_ascii_lowercase (cs_header_name config)) = Some token"
  shows "csrf_layer_call mismatch session config inner rq s2 = inner rq s2"
proof -
  have "session_get S (string_serde mismatch) CSRF_SESSION_KEY s2 = Inr (Some token)"
    using session_laws.csrf_token_stored [OF laws given] session_laws.get_ok [OF laws read] kept read
    by (simp add: session_get_def decode_value_def string_serde_def json_str_def)
  then show ?thesis
    by (simp add: csrf_layer_call_def csrf_middleware_def session header constant_time_compare_eq)
qed

text \<open>
  Flash messages are shown once. Messages pushed onto a session that already holds some are
  appended to them; the next page that asks for messages gets all of them, in the order of pushing, and the one
  after it gets none.
\<close>

theorem flash_shown_once:
  assumes laws: "session_laws S view" and codec: "\<forall>xs. sd_de sd (sd_ser sd xs) = Inr xs"
    and push: "flash_push_many S sd ms s = (Inr u, s1)" and before: "view s FLASH_SESSION_KEY = map_option (sd_ser sd) old"
    and first: "flash_extract (Some S) sd s1 = (Inr got, s2)" and second: "flash_extract (Some S) sd s2 = (Inr again, s3)"
  shows "got = (case old of Some xs \<Rightarrow> xs | None \<Rightarrow> []) @ ms \<and> again = []"
proof -
  have codec': "\<And>xs. sd_de sd (sd_ser sd xs) = Inr xs" using codec by simp
  note delivered = session_laws.flash_delivered [OF laws push codec' before first]
  obtain v where rem: "ss_remove S FLASH_SESSION_KEY s2 = (Inr v, s3)"
    using second by (auto simp: flash_extract_def session_remove_def split: sum.splits prod.splits)
  with delivered session_laws.remove_ok [OF laws rem] second
  show ?thesis by (simp add: flash_extract_def session_remove_def decode_value_def)
qed

definition flash_codec :: "flash_message list serde" where
  "flash_codec =
     \<lparr>sd_ser = (\<lambda>ms. JArray (map (\<lambda>m. JArray [JString (css_class (fm_kind m)), JString (fm_message m)]) ms)),
      sd_de = (\<lambda>j. case j of
        JArray js \<Rightarrow> Inr (map (\<lambda>v. case v of JArray [JString k, JString t] \<Rightarrow>
          \<lparr>fm_kind = (if k = ''flash-success'' then FlashSuccess else if k = ''flash-info'' then FlashInfo
             else if k = ''flash-warning'' then FlashWarning else FlashError), fm_message = t\<rparr>
          | _ \<Rightarrow> \<lparr>fm_kind = FlashError, fm_message = []\<rparr>) js)
      | _ \<Rightarrow> Inl ''invalid type'')\<rparr>"

theorem flash_shown_once_witness:
  "\<exists>s1 s2. flash_push_many mem_session flash_codec [\<lparr>fm_kind = FlashInfo, fm_message = ''saved''\<rparr>] Map.empty = (Inr (), s1) \<and>
     flash_extract (Some mem_session) flash_codec s1 = (Inr [\<lparr>fm_kind = FlashInfo, fm_message = ''saved''\<rparr>], s2) \<and>
     fst (flash_extract (Some mem_session) flash_codec s2) = Inr []"
proof -
  let ?m = "[\<lparr>fm_kind = FlashInfo, fm_message = ''saved''\<rparr>]"
  have codec: "\<forall>xs. sd_de flash_codec (sd_ser flash_codec xs) = Inr xs"
  proof
    fix xs :: "flash_message list"
    have "(case JArray [JString (css_class (fm_kind m)), JString (fm_message m)] of JArray [JString k, JString t] \<Rightarrow>
          \<lparr>fm_kind = (if k = ''flash-success'' then FlashSuccess else if k = ''flash-info'' then FlashInfo
             else if k = ''flash-warning'' then FlashWarning else FlashError), fm_message = t\<rparr>
          | _ \<Rightarrow> \<lparr>fm_kind = FlashError, fm_message = []\<rparr>) = m" for m :: flash_message
      by (cases "fm_kind m") simp_all
    then show "sd_de flash_codec (sd_ser flash_codec xs) = Inr xs"
      by (simp add: flash_codec_def comp_def)
  qed
  obtain s1 where push: "flash_push_many mem_session flash_codec ?m Map.empty = (Inr (), s1)"
    by (simp add: flash_push_many_def session_get_def mem_session_def decode_value_def)
  then have "s1 FLASH_SESSION_KEY = Some (sd_ser flash_codec ?m)"
    by (auto simp: flash_push_many_def session_get_def mem_session_def decode_value_def)
  with codec obtain got s2 where first: "flash_extract (Some mem_session) flash_codec s1 = (Inr got, s2)"
    by (simp add: flash_extract_def session_remove_def mem_session_def decode_value_def)
  moreover from this have "s2 FLASH_SESSION_KEY = None"
    by (auto simp: flash_extract_def session_remove_def mem_session_def split: sum.splits)
  then obtain again s3 where second: "flash_extract (Some mem_session) flash_codec s2 = (Inr again, s3)"
    by (simp add: flash_extract_def session_remove_def mem_session_def decode_value_def)
  ultimately show ?thesis
    using push flash_shown_once [OF mem_session.session_laws_axioms codec push _ first second, of None] by auto
qed

definition csrf_sample_request :: "string \<Rightarrow> request" where
  "csrf_sample_request token = sample_request\<lparr>hr_method := ''POST'', hr_headers := [(''x-csrf-token'', token)]\<rparr>"

definition echo_service :: "'s service" where
  "echo_service rq s = (\<lparr>rp_status = 200, rp_headers = [], rp_body = Opaque []\<rparr>, s, [])"

theorem csrf_gate_witness:
  "rp_status (fst (csrf_layer_call (\<lambda>j. []) (\<lambda>rq. Some mem_session) default_csrf_config echo_service
       (csrf_sample_request ''abc'') [CSRF_SESSION_KEY \<mapsto> JString ''abc''])) = 200 \<and>
   rp_status (fst (csrf_layer_call (\<lambda>j. []) (\<lambda>rq. Some mem_session) default_csrf_config echo_service
       (csrf_sample_request ''abd'') [CSRF_SESSION_KEY \<mapsto> JString ''abc''])) = FORBIDDEN"
proof -
  have config: "cs_enabled default_csrf_config" by (simp add: default_csrf_config_def)
  have unsafe: "\<not> csrf_safe default_csrf_config (hr_method (csrf_sample_request t))" for t
  proof -
    have "\<not> csrf_safe default_csrf_config ''POST''" by code_simp
    then show ?thesis by (simp add: csrf_sample_request_def)
  qed
  have name: "map to_ascii_lowercase (cs_header_name default_csrf_config) = ''x-csrf-token''" by code_simp
  have header: "header_string (hr_headers (csrf_sample_request t)) ''x-csrf-token'' = header_to_str t" for t
    by (simp add: csrf_sample_request_def header_string_def)
  have texts: "header_to_str ''abc'' = Some ''abc''" "header_to_str ''abd'' = Some ''abd''" by code_simp+
  have tok: "session_get mem_session (string_serde (\<lambda>j. [])) CSRF_SESSION_KEY [CSRF_SESSION_KEY \<mapsto> JString ''abc''] = Inr (Some ''abc'')"
    by (simp add: session_get_def mem_session_def decode_value_def string_serde_def json_str_def)
  show ?thesis
    using csrf_gate [OF config unsafe, of "\<lambda>rq. Some mem_session" "''abc''" "\<lambda>j. []" "[CSRF_SESSION_KEY \<mapsto> JString ''abc'']"]
      csrf_gate [OF config unsafe, of "\<lambda>rq. Some mem_session" "''abd''" "\<lambda>j. []" "[CSRF_SESSION_KEY \<mapsto> JString ''abc'']"]
    by (auto simp: name header texts tok echo_service_def)
qed

subsection \<open>Logging out\<close>

lemma logout_ends_session:
  assumes laws: "session_laws (ts_session t) view" and "session_logout sd stamp t s = (Inr u, t', s', events)"
  shows "\<not> au_is_authenticated (ts_data t') \<and> view s' DATA_KEY = Some (sd_ser sd (au_logout (ts_data t)))"
proof -
  obtain u' where "ss_insert (ts_session t) DATA_KEY (sd_ser sd (au_logout (ts_data t))) s = (Inr u', s')"
    and "t' = t\<lparr>ts_data := au_logout (ts_data t)\<rparr>"
    using assms(2) by (auto simp: session_logout_def typed_save_def Let_def map_err_def split: prod.splits sum.splits)
  with session_laws.insert_ok [OF laws] show ?thesis by (simp add: au_is_authenticated_def au_logout_def)
qed

end
