(* ===== verification/OAuth.thy ===== *)
theory OAuth
  imports Token_Auth
begin

text \<open>
  OAuth (\<^verbatim>\<open>src/acton-service/src/auth/oauth/\<close>): the one-time state parameter in Redis (\<^verbatim>\<open>state.rs\<close>) and the Google,
  GitHub and custom OpenID Connect providers (\<^verbatim>\<open>providers/\<close>) behind the interface of \<^verbatim>\<open>provider.rs\<close>. The crates
  \<^verbatim>\<open>oauth2\<close> and \<^verbatim>\<open>reqwest\<close> are the parameter \<open>oauth_env\<close>: they check URLs, build the authorization URL, exchange
  codes and fetch documents. The JSON text of the state data and the random bytes are arguments.
\<close>

subsection \<open>State\<close>

record state_data =
  sdt_provider :: string
  sdt_redirect_uri :: "string option"
  sdt_created_at :: int
  sdt_extra :: "json option"

text \<open>Redis with GETDEL, which reads a key and removes it in one step.\<close>

locale redis_getdel = redis_laws R view for R :: "'r redis" and view :: "'r \<Rightarrow> keyspace" +
  fixes getdel :: "string \<Rightarrow> nat \<Rightarrow> 'r \<Rightarrow> (string + string option) \<times> 'r"
  assumes getdel_ok: "getdel k now s = (Inr v, s') \<Longrightarrow>
      v = map_option fst (live now (view s) k) \<and> view s' = (view s)(k := None)"

definition mem_getdel :: "string \<Rightarrow> nat \<Rightarrow> keyspace \<Rightarrow> (string + string option) \<times> keyspace" where
  "mem_getdel k now s = (Inr (map_option fst (live now s k)), s(k := None))"

interpretation mem_getdel: redis_getdel mem_redis "\<lambda>s. s" mem_getdel
  by unfold_locales (auto simp: mem_getdel_def)

record 'r state_manager =
  om_redis :: "'r redis"
  om_getdel :: "string \<Rightarrow> nat \<Rightarrow> 'r \<Rightarrow> (string + string option) \<times> 'r"
  om_key_prefix :: string
  om_ttl_secs :: u64

definition state_manager_with_prefix ::
  "'r redis \<Rightarrow> (string \<Rightarrow> nat \<Rightarrow> 'r \<Rightarrow> (string + string option) \<times> 'r) \<Rightarrow> u64 \<Rightarrow> string \<Rightarrow> 'r state_manager" where
  "state_manager_with_prefix R getdel ttl_secs prefix =
     \<lparr>om_redis = R, om_getdel = getdel, om_key_prefix = prefix, om_ttl_secs = ttl_secs\<rparr>"

definition state_manager_new ::
  "'r redis \<Rightarrow> (string \<Rightarrow> nat \<Rightarrow> 'r \<Rightarrow> (string + string option) \<times> 'r) \<Rightarrow> u64 \<Rightarrow> 'r state_manager" where
  "state_manager_new R getdel ttl_secs =
     \<lparr>om_redis = R, om_getdel = getdel, om_key_prefix = ''oauth:state:'', om_ttl_secs = ttl_secs\<rparr>"

definition state_key :: "'r state_manager \<Rightarrow> string \<Rightarrow> string" where
  "state_key m state = om_key_prefix m @ state"

text \<open>\<open>b64url\<close> encodes bytes, \<open>bytes\<close> are the 32 random ones.\<close>

definition generate_state :: "(u8 list \<Rightarrow> string) \<Rightarrow> u8 list \<Rightarrow> string" where
  "generate_state b64url bytes = b64url bytes"

definition create_state ::
  "(state_data \<Rightarrow> string + string) \<Rightarrow> (u8 list \<Rightarrow> string) \<Rightarrow> 'r state_manager \<Rightarrow> u8 list \<Rightarrow> state_data \<Rightarrow> nat \<Rightarrow> 'r \<Rightarrow>
     (error + string) \<times> 'r" where
  "create_state to_json b64url m bytes data now s =
     (let state = generate_state b64url bytes; key = state_key m state
      in case to_json data of
           Inl e \<Rightarrow> (Inl (Internal (''Failed to serialize state data: '' @ e)), s)
         | Inr data_json \<Rightarrow>
             (case rd_connect (om_redis m) s of
                Some e \<Rightarrow> (Inl (Internal (''Failed to get Redis connection: '' @ e)), s)
              | None \<Rightarrow>
                  (case rd_set_ex (om_redis m) key data_json (uint (om_ttl_secs m)) now s of
                     (Inl e, s') \<Rightarrow> (Inl (Internal (''Failed to store OAuth state: '' @ e)), s')
                   | (Inr _, s') \<Rightarrow> (Inr state, s'))))"

definition validate_state ::
  "(string \<Rightarrow> string + state_data) \<Rightarrow> 'r state_manager \<Rightarrow> string \<Rightarrow> nat \<Rightarrow> 'r \<Rightarrow> (error + state_data) \<times> 'r" where
  "validate_state of_json m state now s =
     (case rd_connect (om_redis m) s of
        Some e \<Rightarrow> (Inl (Internal (''Failed to get Redis connection: '' @ e)), s)
      | None \<Rightarrow>
          (case om_getdel m (state_key m state) now s of
             (Inl e, s') \<Rightarrow> (Inl (Internal (''Failed to retrieve OAuth state: '' @ e)), s')
           | (Inr (Some json), s') \<Rightarrow>
               (case of_json json of
                  Inl e \<Rightarrow> (Inl (Internal (''Failed to deserialize state data: '' @ e)), s')
                | Inr data \<Rightarrow> (Inr data, s'))
           | (Inr None, s') \<Rightarrow> (Inl (BadRequest ''Invalid or expired OAuth state''), s')))"

subsection \<open>Providers\<close>

record oauth_tokens =
  ot_access_token :: string
  ot_refresh_token :: "string option"
  ot_expires_in :: "int option"
  ot_token_type :: string
  ot_id_token :: "string option"

record oauth_user_info =
  ou_provider :: string
  ou_provider_user_id :: string
  ou_email :: "string option"
  ou_email_verified :: bool
  ou_name :: "string option"
  ou_picture :: "string option"
  ou_raw :: json

record oauth_client =
  oc_client_id :: string
  oc_client_secret :: string
  oc_auth_url :: string
  oc_token_url :: string
  oc_redirect_uri :: string

datatype token_grant = AuthorizationCode string | RefreshGrant string

record token_result =
  tr_access_token :: string
  tr_refresh_token :: "string option"
  tr_expires_in :: "nat option"

text \<open>
  A fetched response: its status and the text of it, its body as text and as JSON, and as a list of JSON values.
\<close>

record http_reply =
  hp_status :: nat
  hp_status_text :: string
  hp_text :: string
  hp_json :: "string + json"
  hp_list :: "string + json list"

record oauth_env =
  oe_url_error :: "string \<Rightarrow> string option"
  oe_http_error :: "string option"
  oe_authorize_url :: "oauth_client \<Rightarrow> string \<Rightarrow> string list \<Rightarrow> string"
  oe_exchange :: "oauth_client \<Rightarrow> token_grant \<Rightarrow> string + token_result"
  oe_fetch :: "string \<Rightarrow> string option \<Rightarrow> string + http_reply"

record provider_config =
  pv_client_id :: string
  pv_client_secret :: string
  pv_redirect_uri :: string
  pv_scopes :: "string list"
  pv_authorization_endpoint :: "string option"
  pv_token_endpoint :: "string option"
  pv_userinfo_endpoint :: "string option"

record oauth_provider =
  op_client :: oauth_client
  op_default_scopes :: "string list"
  op_name :: string
  op_userinfo_endpoint :: "string option"

definition is_success :: "http_reply \<Rightarrow> bool" where
  "is_success r \<longleftrightarrow> 200 \<le> hp_status r \<and> hp_status r < 300"

definition json_bool :: "json \<Rightarrow> bool" where
  "json_bool j = (case j of JBool b \<Rightarrow> b | _ \<Rightarrow> False)"

text \<open>The checks of the three constructors, with the words each uses for its URLs.\<close>

definition configured_client ::
  "oauth_env \<Rightarrow> string \<Rightarrow> string \<Rightarrow> oauth_client \<Rightarrow> error + oauth_client" where
  "configured_client env auth_word token_word client =
     (case oe_url_error env (oc_auth_url client) of
        Some e \<Rightarrow> Inl (Internal (''Invalid '' @ auth_word @ '': '' @ e))
      | None \<Rightarrow>
     (case oe_url_error env (oc_token_url client) of
        Some e \<Rightarrow> Inl (Internal (''Invalid '' @ token_word @ '': '' @ e))
      | None \<Rightarrow>
     (case oe_url_error env (oc_redirect_uri client) of
        Some e \<Rightarrow> Inl (Internal (''Invalid redirect URI: '' @ e))
      | None \<Rightarrow>
     (case oe_http_error env of
        Some e \<Rightarrow> Inl (Internal (''Failed to create HTTP client: '' @ e))
      | None \<Rightarrow> Inr client))))"

definition google_new :: "oauth_env \<Rightarrow> provider_config \<Rightarrow> error + oauth_provider" where
  "google_new env config =
     (case configured_client env ''Google auth URL'' ''Google token URL''
             \<lparr>oc_client_id = pv_client_id config, oc_client_secret = pv_client_secret config,
              oc_auth_url = ''https://accounts.google.com/o/oauth2/v2/auth'',
              oc_token_url = ''https://oauth2.googleapis.com/token'', oc_redirect_uri = pv_redirect_uri config\<rparr> of
        Inl e \<Rightarrow> Inl e
      | Inr client \<Rightarrow>
          Inr \<lparr>op_client = client,
               op_default_scopes = (if pv_scopes config = [] then [''openid'', ''email'', ''profile''] else pv_scopes config),
               op_name = ''google'', op_userinfo_endpoint = Some ''https://www.googleapis.com/oauth2/v3/userinfo''\<rparr>)"

definition github_new :: "oauth_env \<Rightarrow> provider_config \<Rightarrow> error + oauth_provider" where
  "github_new env config =
     (case configured_client env ''GitHub auth URL'' ''GitHub token URL''
             \<lparr>oc_client_id = pv_client_id config, oc_client_secret = pv_client_secret config,
              oc_auth_url = ''https://github.com/login/oauth/authorize'',
              oc_token_url = ''https://github.com/login/oauth/access_token'', oc_redirect_uri = pv_redirect_uri config\<rparr> of
        Inl e \<Rightarrow> Inl e
      | Inr client \<Rightarrow>
          Inr \<lparr>op_client = client,
               op_default_scopes = (if pv_scopes config = [] then [''read:user'', ''user:email''] else pv_scopes config),
               op_name = ''github'', op_userinfo_endpoint = Some ''https://api.github.com/user''\<rparr>)"

record custom_oidc_config =
  co_client_id :: string
  co_client_secret :: string
  co_redirect_uri :: string
  co_auth_url :: string
  co_token_url :: string
  co_userinfo_url :: "string option"
  co_scopes :: "string list"
  co_name :: string

definition custom_new :: "oauth_env \<Rightarrow> custom_oidc_config \<Rightarrow> error + oauth_provider" where
  "custom_new env config =
     (case configured_client env ''auth URL'' ''token URL''
             \<lparr>oc_client_id = co_client_id config, oc_client_secret = co_client_secret config,
              oc_auth_url = co_auth_url config, oc_token_url = co_token_url config,
              oc_redirect_uri = co_redirect_uri config\<rparr> of
        Inl e \<Rightarrow> Inl e
      | Inr client \<Rightarrow>
          Inr \<lparr>op_client = client,
               op_default_scopes = (if co_scopes config = [] then [''openid'', ''email'', ''profile''] else co_scopes config),
               op_name = co_name config, op_userinfo_endpoint = co_userinfo_url config\<rparr>)"

definition trim_end_slash :: "string \<Rightarrow> string" where
  "trim_end_slash s = rev (dropWhile (\<lambda>c. c = CHR ''/'') (rev s))"

definition from_discovery ::
  "oauth_env \<Rightarrow> string \<Rightarrow> string \<Rightarrow> string \<Rightarrow> string \<Rightarrow> string list \<Rightarrow> string \<Rightarrow> error + oauth_provider" where
  "from_discovery env issuer_url client_id client_secret redirect_uri scopes name =
     (case oe_http_error env of
        Some e \<Rightarrow> Inl (Internal (''Failed to create HTTP client: '' @ e))
      | None \<Rightarrow>
     (case oe_fetch env (trim_end_slash issuer_url @ ''/.well-known/openid-configuration'') None of
        Inl e \<Rightarrow> Inl (External (''Failed to fetch OIDC discovery: '' @ e))
      | Inr response \<Rightarrow>
          if \<not> is_success response then Inl (External (''OIDC discovery failed: '' @ hp_status_text response))
          else (case hp_json response of
        Inl e \<Rightarrow> Inl (External (''Failed to parse OIDC discovery: '' @ e))
      | Inr discovery \<Rightarrow>
     (case json_str (json_get discovery ''authorization_endpoint'') of
        None \<Rightarrow> Inl (External ''Missing authorization_endpoint'')
      | Some auth_url \<Rightarrow>
     (case json_str (json_get discovery ''token_endpoint'') of
        None \<Rightarrow> Inl (External ''Missing token_endpoint'')
      | Some token_url \<Rightarrow>
          custom_new env \<lparr>co_client_id = client_id, co_client_secret = client_secret, co_redirect_uri = redirect_uri,
            co_auth_url = auth_url, co_token_url = token_url,
            co_userinfo_url = json_str (json_get discovery ''userinfo_endpoint''), co_scopes = scopes, co_name = name\<rparr>)))))"

definition all_scopes :: "string list \<Rightarrow> string list \<Rightarrow> string list" where
  "all_scopes default_scopes additional_scopes =
     default_scopes @ filter (\<lambda>scope. \<not> List.member default_scopes scope) additional_scopes"

definition authorization_url :: "oauth_env \<Rightarrow> oauth_provider \<Rightarrow> string \<Rightarrow> string list \<Rightarrow> string" where
  "authorization_url env p state additional_scopes =
     oe_authorize_url env (op_client p) state (all_scopes (op_default_scopes p) additional_scopes)"

definition google_authorization_url :: "oauth_env \<Rightarrow> oauth_provider \<Rightarrow> string \<Rightarrow> string list \<Rightarrow> string" where
  "google_authorization_url = authorization_url"

definition github_authorization_url :: "oauth_env \<Rightarrow> oauth_provider \<Rightarrow> string \<Rightarrow> string list \<Rightarrow> string" where
  "github_authorization_url = authorization_url"

definition custom_authorization_url :: "oauth_env \<Rightarrow> oauth_provider \<Rightarrow> string \<Rightarrow> string list \<Rightarrow> string" where
  "custom_authorization_url = authorization_url"

text \<open>The seconds of a lifetime are cast from \<^verbatim>\<open>u64\<close> to \<^verbatim>\<open>i64\<close>.\<close>

definition tokens_of_result :: "token_result \<Rightarrow> oauth_tokens" where
  "tokens_of_result r =
     \<lparr>ot_access_token = tr_access_token r, ot_refresh_token = tr_refresh_token r,
      ot_expires_in = map_option (\<lambda>d. sint (word_of_nat (as_secs d) :: u64)) (tr_expires_in r),
      ot_token_type = ''Bearer'', ot_id_token = None\<rparr>"

definition token_request :: "oauth_env \<Rightarrow> string \<Rightarrow> oauth_provider \<Rightarrow> token_grant \<Rightarrow> error + oauth_tokens" where
  "token_request env what p grant =
     (case oe_exchange env (op_client p) grant of
        Inl e \<Rightarrow> Inl (External (what @ e)) | Inr r \<Rightarrow> Inr (tokens_of_result r))"

definition google_exchange_code :: "oauth_env \<Rightarrow> oauth_provider \<Rightarrow> string \<Rightarrow> error + oauth_tokens" where
  "google_exchange_code env p code = token_request env ''Google token exchange failed: '' p (AuthorizationCode code)"

definition google_refresh_token :: "oauth_env \<Rightarrow> oauth_provider \<Rightarrow> string \<Rightarrow> error + oauth_tokens" where
  "google_refresh_token env p t = token_request env ''Google token refresh failed: '' p (RefreshGrant t)"

definition github_exchange_code :: "oauth_env \<Rightarrow> oauth_provider \<Rightarrow> string \<Rightarrow> error + oauth_tokens" where
  "github_exchange_code env p code = token_request env ''GitHub token exchange failed: '' p (AuthorizationCode code)"

definition github_refresh_token :: "oauth_env \<Rightarrow> oauth_provider \<Rightarrow> string \<Rightarrow> error + oauth_tokens" where
  "github_refresh_token env p t = Inl (NotSupported ''GitHub OAuth does not support refresh tokens'')"

definition custom_exchange_code :: "oauth_env \<Rightarrow> oauth_provider \<Rightarrow> string \<Rightarrow> error + oauth_tokens" where
  "custom_exchange_code env p code = token_request env ''Token exchange failed: '' p (AuthorizationCode code)"

definition custom_refresh_token :: "oauth_env \<Rightarrow> oauth_provider \<Rightarrow> string \<Rightarrow> error + oauth_tokens" where
  "custom_refresh_token env p t = token_request env ''Token refresh failed: '' p (RefreshGrant t)"

text \<open>Fetching the document about the user; \<open>whose\<close> is the name of the provider in the error texts, with a blank.\<close>

definition fetch_user_info :: "oauth_env \<Rightarrow> string \<Rightarrow> string \<Rightarrow> string \<Rightarrow> string \<Rightarrow> error + json" where
  "fetch_user_info env whose request_failed endpoint access_token =
     (case oe_fetch env endpoint (Some access_token) of
        Inl e \<Rightarrow> Inl (External (''Failed to fetch '' @ whose @ ''user info: '' @ e))
      | Inr response \<Rightarrow>
          if \<not> is_success response
          then Inl (External (request_failed @ hp_status_text response @ '' - '' @ hp_text response))
          else (case hp_json response of
                  Inl e \<Rightarrow> Inl (External (''Failed to parse '' @ whose @ ''user info: '' @ e))
                | Inr user_info \<Rightarrow> Inr user_info))"

definition google_get_user_info :: "oauth_env \<Rightarrow> oauth_provider \<Rightarrow> string \<Rightarrow> error + oauth_user_info" where
  "google_get_user_info env p access_token =
     (case fetch_user_info env ''Google '' ''Google user info request failed: ''
             ''https://www.googleapis.com/oauth2/v3/userinfo'' access_token of
        Inl e \<Rightarrow> Inl e
      | Inr user_info \<Rightarrow>
          (case json_str (json_get user_info ''sub'') of
             None \<Rightarrow> Inl (External ''Missing sub in Google response'')
           | Some sub \<Rightarrow>
               Inr \<lparr>ou_provider = ''google'', ou_provider_user_id = sub, ou_email = json_str (json_get user_info ''email''),
                    ou_email_verified = json_bool (json_get user_info ''email_verified''),
                    ou_name = json_str (json_get user_info ''name''), ou_picture = json_str (json_get user_info ''picture''),
                    ou_raw = user_info\<rparr>))"

definition custom_get_user_info :: "oauth_env \<Rightarrow> oauth_provider \<Rightarrow> string \<Rightarrow> error + oauth_user_info" where
  "custom_get_user_info env p access_token =
     (case op_userinfo_endpoint p of
        None \<Rightarrow> Inl (Internal ''No userinfo endpoint configured for this provider'')
      | Some endpoint \<Rightarrow>
     (case fetch_user_info env '''' ''User info request failed: '' endpoint access_token of
        Inl e \<Rightarrow> Inl e
      | Inr user_info \<Rightarrow>
          (case json_str (json_get user_info ''sub'') of
             None \<Rightarrow> Inl (External ''Missing sub claim in response'')
           | Some sub \<Rightarrow>
               Inr \<lparr>ou_provider = op_name p, ou_provider_user_id = sub, ou_email = json_str (json_get user_info ''email''),
                    ou_email_verified = json_bool (json_get user_info ''email_verified''),
                    ou_name = or_else (json_str (json_get user_info ''name'')) (json_str (json_get user_info ''preferred_username'')),
                    ou_picture = json_str (json_get user_info ''picture''), ou_raw = user_info\<rparr>)))"

text \<open>The first address among those that satisfy a condition.\<close>

fun first_address :: "(json \<Rightarrow> bool) \<Rightarrow> json list \<Rightarrow> string option" where
  "first_address P [] = None"
| "first_address P (e # emails) =
     (if P e then (case json_str (json_get e ''email'') of Some addr \<Rightarrow> Some addr | None \<Rightarrow> first_address P emails)
      else first_address P emails)"

definition get_primary_email :: "oauth_env \<Rightarrow> string \<Rightarrow> error + string" where
  "get_primary_email env access_token =
     (case oe_fetch env ''https://api.github.com/user/emails'' (Some access_token) of
        Inl e \<Rightarrow> Inl (External (''Failed to fetch GitHub emails: '' @ e))
      | Inr response \<Rightarrow>
          if \<not> is_success response then Inl (External ''Failed to fetch GitHub emails'')
          else (case hp_list response of
                  Inl e \<Rightarrow> Inl (External (''Failed to parse GitHub emails: '' @ e))
                | Inr emails \<Rightarrow>
                    (case first_address (\<lambda>e. json_bool (json_get e ''primary'') \<and> json_bool (json_get e ''verified'')) emails of
                       Some addr \<Rightarrow> Inr addr
                     | None \<Rightarrow>
                         (case first_address (\<lambda>e. json_bool (json_get e ''verified'')) emails of
                            Some addr \<Rightarrow> Inr addr
                          | None \<Rightarrow> Inl (External ''No verified email found'')))))"

definition github_get_user_info :: "oauth_env \<Rightarrow> oauth_provider \<Rightarrow> string \<Rightarrow> error + oauth_user_info" where
  "github_get_user_info env p access_token =
     (case fetch_user_info env ''GitHub '' ''GitHub user info request failed: '' ''https://api.github.com/user'' access_token of
        Inl e \<Rightarrow> Inl e
      | Inr user_info \<Rightarrow>
          (let email = (if json_get user_info ''email'' = JNull
                        then (case get_primary_email env access_token of Inr a \<Rightarrow> Some a | Inl _ \<Rightarrow> None)
                        else json_str (json_get user_info ''email''))
           in case json_i64 (json_get user_info ''id'') of
                None \<Rightarrow> Inl (External ''Missing id in GitHub response'')
              | Some n \<Rightarrow>
                  Inr \<lparr>ou_provider = ''github'', ou_provider_user_id = show_i64 n, ou_email = email, ou_email_verified = True,
                       ou_name = or_else (json_str (json_get user_info ''name'')) (json_str (json_get user_info ''login'')),
                       ou_picture = json_str (json_get user_info ''avatar_url''), ou_raw = user_info\<rparr>))"

subsection \<open>A state is good once\<close>

text \<open>
  The abstract store of outstanding states: what was issued under each state and when it ends. \<open>run_states\<close> runs a
  sequence of calls, each at its time, on the server; \<open>run_ledger\<close> runs them on the abstract store.
\<close>

datatype state_call = CreateState "u8 list" state_data | ValidateState string

type_synonym ledger = "string \<Rightarrow> (state_data \<times> nat) option"

datatype state_answer = Issued string | Accepted state_data | Refused error

definition ledger_call :: "(u8 list \<Rightarrow> string) \<Rightarrow> nat \<Rightarrow> state_call \<Rightarrow> nat \<Rightarrow> ledger \<Rightarrow> state_answer \<times> ledger" where
  "ledger_call b64url ttl_ms c now l =
     (case c of
        CreateState bytes data \<Rightarrow> (Issued (b64url bytes), l(b64url bytes \<mapsto> (data, now + ttl_ms)))
      | ValidateState st \<Rightarrow>
          (case l st of
             Some (data, until) \<Rightarrow> if now < until then Accepted data else Refused (BadRequest ''Invalid or expired OAuth state'')
           | None \<Rightarrow> Refused (BadRequest ''Invalid or expired OAuth state''), l(st := None)))"

definition state_call_on ::
  "(state_data \<Rightarrow> string + string) \<Rightarrow> (string \<Rightarrow> string + state_data) \<Rightarrow> (u8 list \<Rightarrow> string) \<Rightarrow> 'r state_manager \<Rightarrow>
     state_call \<Rightarrow> nat \<Rightarrow> 'r \<Rightarrow> state_answer \<times> 'r" where
  "state_call_on to_json of_json b64url m c now s =
     (case c of
        CreateState bytes data \<Rightarrow>
          (case create_state to_json b64url m bytes data now s of
             (Inr st, s') \<Rightarrow> (Issued st, s') | (Inl e, s') \<Rightarrow> (Refused e, s'))
      | ValidateState st \<Rightarrow>
          (case validate_state of_json m st now s of
             (Inr data, s') \<Rightarrow> (Accepted data, s') | (Inl e, s') \<Rightarrow> (Refused e, s')))"

fun run_calls :: "('c \<Rightarrow> nat \<Rightarrow> 's \<Rightarrow> 'a \<times> 's) \<Rightarrow> ('c \<times> nat) list \<Rightarrow> 's \<Rightarrow> 'a list \<times> 's" where
  "run_calls f [] s = ([], s)"
| "run_calls f ((c, now) # cs) s =
     (case f c now s of (a, s') \<Rightarrow> case run_calls f cs s' of (as, s'') \<Rightarrow> (a # as, s''))"

text \<open>The answers of two machines agree when their steps do and keep a relation between the states.\<close>

lemma run_calls_simulation:
  assumes "\<And>c now s l. \<lbrakk>(c, now) \<in> set cs; rel s l\<rbrakk> \<Longrightarrow> fst (f c now s) = fst (g c now l) \<and> rel (snd (f c now s)) (snd (g c now l))"
    and "rel s l"
  shows "fst (run_calls f cs s) = fst (run_calls g cs l)"
  using assms
proof (induction cs arbitrary: s l)
  case (Cons p cs)
  obtain c now where p: "p = (c, now)" by (cases p)
  with Cons.prems(1) [OF _ Cons.prems(2), of c now]
  have "fst (f c now s) = fst (g c now l)" "rel (snd (f c now s)) (snd (g c now l))" by simp_all
  moreover from this(2) have "fst (run_calls f cs (snd (f c now s))) = fst (run_calls g cs (snd (g c now l)))"
    using Cons.prems(1) by (intro Cons.IH) simp_all
  ultimately show ?case by (auto simp: p split: prod.splits)
qed simp

lemma run_calls_append:
  "run_calls f (cs @ ds) s =
     (case run_calls f cs s of (as, s') \<Rightarrow> case run_calls f ds s' of (bs, s'') \<Rightarrow> (as @ bs, s''))"
  by (induction f cs s rule: run_calls.induct) (auto split: prod.splits)

definition state_store_up :: "'r state_manager \<Rightarrow> bool" where
  "state_store_up m \<longleftrightarrow> (\<forall>s. rd_connect (om_redis m) s = None)
     \<and> (\<forall>k v secs now s. is_ok (fst (rd_set_ex (om_redis m) k v secs now s)))
     \<and> (\<forall>k now s. is_ok (fst (om_getdel m k now s)))"

text \<open>The server holds what the ledger does.\<close>

definition stores :: "('r \<Rightarrow> keyspace) \<Rightarrow> (state_data \<Rightarrow> string + string) \<Rightarrow> (string \<Rightarrow> string + state_data) \<Rightarrow>
     'r state_manager \<Rightarrow> 'r \<Rightarrow> ledger \<Rightarrow> bool" where
  "stores view to_json of_json m s l \<longleftrightarrow>
     (\<forall>st. view s (state_key m st) = map_option (\<lambda>(data, until). (projr (to_json data), Some until)) (l st))
     \<and> (\<forall>st data until. l st = Some (data, until) \<longrightarrow> of_json (projr (to_json data)) = Inr data)"

lemma state_key_inj [simp]: "state_key m a = state_key m b \<longleftrightarrow> a = b"
  by (simp add: state_key_def)

context redis_getdel
begin

lemma state_call_simulates:
  assumes m: "om_redis m = R" "om_getdel m = getdel" "0 < om_ttl_secs m" and up: "state_store_up m"
    and codec: "\<And>bytes d. c = CreateState bytes d \<Longrightarrow> \<exists>j. to_json d = Inr j \<and> of_json j = Inr d" and rel: "stores view to_json of_json m s l"
  shows "fst (state_call_on to_json of_json b64url m c now s) = fst (ledger_call b64url (unat (om_ttl_secs m) * 1000) c now l) \<and>
     stores view to_json of_json m (snd (state_call_on to_json of_json b64url m c now s))
       (snd (ledger_call b64url (unat (om_ttl_secs m) * 1000) c now l))"
proof (cases c)
  case (CreateState bytes data)
  obtain j where j: "to_json data = Inr j" "of_json j = Inr data" using codec CreateState by blast
  obtain u s' where set: "rd_set_ex R (state_key m (b64url bytes)) j (uint (om_ttl_secs m)) now s = (Inr u, s')"
    using up unfolding state_store_up_def m by (metis is_ok_iff prod.collapse)
  have "0 < uint (om_ttl_secs m)" using m(3) by (simp add: word_less_def)
  from set_ex_ok [OF set this] have "view s' = (view s)(state_key m (b64url bytes) \<mapsto> (j, Some (now + unat (om_ttl_secs m) * 1000)))"
    by simp
  with rel j have "stores view to_json of_json m s' (l(b64url bytes \<mapsto> (data, now + unat (om_ttl_secs m) * 1000)))"
    by (simp add: stores_def)
  with set j up m show ?thesis
    by (simp add: CreateState state_call_on_def create_state_def ledger_call_def generate_state_def state_store_up_def)
next
  case (ValidateState st)
  obtain v s' where get: "getdel (state_key m st) now s = (Inr v, s')"
    using up unfolding state_store_up_def m by (metis is_ok_iff prod.collapse)
  note eff = getdel_ok [OF get]
  with rel have "stores view to_json of_json m s' (l(st := None))"
    by (simp add: stores_def)
  moreover have "v = (case l st of Some (data, until) \<Rightarrow> if now < until then Some (projr (to_json data)) else None | None \<Rightarrow> None)"
    using rel [unfolded stores_def, THEN conjunct1, rule_format, of st] eff by (cases "l st") (auto simp: live_def)
  moreover have "l st = Some (d, until) \<Longrightarrow> of_json (projr (to_json d)) = Inr d" for d until
    using rel by (auto simp: stores_def)
  ultimately show ?thesis using get up m
    by (auto simp: ValidateState state_call_on_def validate_state_def ledger_call_def state_store_up_def split: option.splits)
qed

end

text \<open>
  C27: Started on a server without states, the Redis state manager answers every sequence of calls as the abstract
  ledger does, as long as the server answers: a state is accepted, with the data it was issued for, until its end and
  only once.
\<close>

theorem oauth_states_refine:
  assumes laws: "redis_getdel R view getdel" and m: "m = state_manager_with_prefix R getdel ttl_secs prefix"
    and ttl: "0 < ttl_secs" and up: "state_store_up m"
    and codec: "\<forall>bytes d t. (CreateState bytes d, t) \<in> set calls \<longrightarrow> (\<exists>j. to_json d = Inr j \<and> of_json j = Inr d)"
    and fresh: "\<forall>st. view s (prefix @ st) = None"
  shows "fst (run_calls (state_call_on to_json of_json b64url m) calls s) =
     fst (run_calls (ledger_call b64url (unat ttl_secs * 1000)) calls Map.empty)"
proof (rule run_calls_simulation)
  show "stores view to_json of_json m s Map.empty"
    using fresh m by (simp add: stores_def state_key_def state_manager_with_prefix_def)
  fix c now s l
  assume c: "(c, now) \<in> set calls" and rel: "stores view to_json of_json m s l"
  have fields: "om_redis m = R" "om_getdel m = getdel" "om_ttl_secs m = ttl_secs"
    by (simp_all add: m state_manager_with_prefix_def)
  have "\<exists>j. to_json d = Inr j \<and> of_json j = Inr d" if "c = CreateState bytes d" for bytes d
    using codec c that by blast
  from redis_getdel.state_call_simulates [OF laws fields(1,2) _ up this rel] ttl fields(3)
  show "fst (state_call_on to_json of_json b64url m c now s) = fst (ledger_call b64url (unat ttl_secs * 1000) c now l) \<and>
     stores view to_json of_json m (snd (state_call_on to_json of_json b64url m c now s))
       (snd (ledger_call b64url (unat ttl_secs * 1000) c now l))"
    by simp
qed

text \<open>On the ledger: after a state was presented, it is refused until it is issued again.\<close>

lemma ledger_spent:
  assumes "\<forall>bytes data. \<forall>t. (CreateState bytes data, t) \<in> set calls \<longrightarrow> b64url bytes \<noteq> st" and "l st = None"
  shows "snd (run_calls (ledger_call b64url ttl) calls l) st = None"
  using assms
proof (induction calls arbitrary: l)
  case (Cons p calls)
  obtain c now where "p = (c, now)" by (cases p)
  with Cons.prems have "snd (ledger_call b64url ttl c now l) st = None"
    by (auto simp: ledger_call_def split: state_call.splits)
  moreover have "\<forall>bytes data. \<forall>t. (CreateState bytes data, t) \<in> set calls \<longrightarrow> b64url bytes \<noteq> st"
    using Cons.prems by simp
  ultimately have "snd (run_calls (ledger_call b64url ttl) calls (snd (ledger_call b64url ttl c now l))) st = None"
    using Cons.IH by blast
  with \<open>p = (c, now)\<close> show ?case by (auto split: prod.splits)
qed simp

theorem ledger_accepts_once:
  assumes "\<forall>bytes data. \<forall>t. (CreateState bytes data, t) \<in> set between \<longrightarrow> b64url bytes \<noteq> st"
  shows "last (fst (run_calls (ledger_call b64url ttl) (before @ (ValidateState st, t1) # between @ [(ValidateState st, t2)]) l)) =
     Refused (BadRequest ''Invalid or expired OAuth state'')"
proof -
  let ?l = "snd (ledger_call b64url ttl (ValidateState st) t1 (snd (run_calls (ledger_call b64url ttl) before l)))"
  have "?l st = None" by (simp add: ledger_call_def)
  from ledger_spent [of between b64url st ?l ttl, OF assms this]
  show ?thesis by (auto simp: run_calls_append ledger_call_def split: prod.splits)
qed

subsection \<open>Addresses and scopes\<close>

lemma first_address_found:
  "first_address P emails = Some a \<longleftrightarrow>
     (\<exists>pre e post. emails = pre @ e # post \<and> P e \<and> json_str (json_get e ''email'') = Some a \<and>
        (\<forall>e' \<in> set pre. P e' \<longrightarrow> json_str (json_get e' ''email'') = None))"
proof (induction P emails rule: first_address.induct)
  case (2 P e emails)
  show ?case
  proof
    assume "first_address P (e # emails) = Some a"
    then consider "P e" "json_str (json_get e ''email'') = Some a"
      | "first_address P emails = Some a" "P e \<longrightarrow> json_str (json_get e ''email'') = None"
      by (auto split: if_splits option.splits)
    then show "\<exists>pre e' post. e # emails = pre @ e' # post \<and> P e' \<and> json_str (json_get e' ''email'') = Some a \<and>
        (\<forall>e' \<in> set pre. P e' \<longrightarrow> json_str (json_get e' ''email'') = None)"
    proof cases
      case 1 then show ?thesis by (intro exI [of _ "[]"]) simp
    next
      case 2
      then obtain pre e' post where "emails = pre @ e' # post" "P e'" "json_str (json_get e' ''email'') = Some a"
        "\<forall>e' \<in> set pre. P e' \<longrightarrow> json_str (json_get e' ''email'') = None"
        using "2.IH"(1,2) by (cases "P e") blast+
      with 2 show ?thesis by (intro exI [of _ "e # pre"]) simp
    qed
  next
    assume "\<exists>pre e' post. e # emails = pre @ e' # post \<and> P e' \<and> json_str (json_get e' ''email'') = Some a \<and>
        (\<forall>e' \<in> set pre. P e' \<longrightarrow> json_str (json_get e' ''email'') = None)"
    then obtain pre e' post where *: "e # emails = pre @ e' # post" "P e'" "json_str (json_get e' ''email'') = Some a"
      "\<forall>e' \<in> set pre. P e' \<longrightarrow> json_str (json_get e' ''email'') = None" by blast
    have "first_address P (pre @ e' # post) = Some a"
      using *(2-4) by (induction pre) auto
    with *(1) show "first_address P (e # emails) = Some a" by simp
  qed
qed simp

text \<open>
  GitHub: an address that replaces a missing one is a verified one of the list GitHub sent.
\<close>

theorem primary_email_verified:
  assumes "get_primary_email env access_token = Inr a"
  obtains response emails e where "oe_fetch env ''https://api.github.com/user/emails'' (Some access_token) = Inr response"
    "is_success response" "hp_list response = Inr emails" "e \<in> set emails"
    "json_str (json_get e ''email'') = Some a" "json_bool (json_get e ''verified'')"
proof -
  from assms obtain response emails where r: "oe_fetch env ''https://api.github.com/user/emails'' (Some access_token) = Inr response"
    "is_success response" "hp_list response = Inr emails"
    by (auto simp: get_primary_email_def split: sum.splits if_splits)
  with assms obtain P where P: "first_address P emails = Some a" "\<And>e. P e \<Longrightarrow> json_bool (json_get e ''verified'')"
    by (auto simp: get_primary_email_def split: sum.splits if_splits option.splits)
  from P(1) obtain pre e post where "emails = pre @ e # post" "P e" "json_str (json_get e ''email'') = Some a"
    unfolding first_address_found by blast
  with r P(2) show thesis by (intro that) auto
qed

text \<open>
  GitHub reports the address as verified also when the profile has none and no verified one was found.
\<close>

theorem github_verified_without_address:
  assumes "fetch_user_info env ''GitHub '' ''GitHub user info request failed: '' ''https://api.github.com/user'' access_token = Inr user_info"
    and "json_get user_info ''email'' = JNull" and "json_i64 (json_get user_info ''id'') = Some n"
    and "get_primary_email env access_token = Inl e"
  shows "\<exists>u. github_get_user_info env p access_token = Inr u \<and> ou_email u = None \<and> ou_email_verified u"
  using assms by (simp add: github_get_user_info_def)

lemma all_scopes_cover:
  "set (all_scopes default_scopes additional_scopes) = set default_scopes \<union> set additional_scopes"
  by (auto simp: all_scopes_def)

subsection \<open>A sample exchange\<close>

definition sample_manager :: "keyspace state_manager" where
  "sample_manager = state_manager_with_prefix mem_redis mem_getdel 600 ''oauth:state:''"

definition sample_state :: state_data where
  "sample_state = \<lparr>sdt_provider = ''github'', sdt_redirect_uri = None, sdt_created_at = 0, sdt_extra = None\<rparr>"

definition sample_to_json :: "state_data \<Rightarrow> string + string" where
  "sample_to_json d = Inr (sdt_provider d)"

definition sample_of_json :: "string \<Rightarrow> string + state_data" where
  "sample_of_json j = Inr \<lparr>sdt_provider = j, sdt_redirect_uri = None, sdt_created_at = 0, sdt_extra = None\<rparr>"

theorem oauth_states_refine_witness:
  "fst (run_calls (state_call_on sample_to_json sample_of_json (\<lambda>_. ''st'') sample_manager)
     [(CreateState [] sample_state, 0), (ValidateState ''st'', 5), (ValidateState ''st'', 6),
      (CreateState [] sample_state, 7), (ValidateState ''st'', 600007)] Map.empty) =
   [Issued ''st'', Accepted sample_state, Refused (BadRequest ''Invalid or expired OAuth state''),
    Issued ''st'', Refused (BadRequest ''Invalid or expired OAuth state'')]"
proof -
  let ?calls = "[(CreateState [] sample_state, 0), (ValidateState ''st'', 5), (ValidateState ''st'', 6),
      (CreateState [] sample_state, 7), (ValidateState ''st'', 600007)]"
  have "fst (run_calls (state_call_on sample_to_json sample_of_json (\<lambda>_. ''st'') sample_manager) ?calls Map.empty) =
      fst (run_calls (ledger_call (\<lambda>_. ''st'') (unat (600 :: u64) * 1000)) ?calls Map.empty)"
    by (rule oauth_states_refine [OF mem_getdel.redis_getdel_axioms sample_manager_def])
      (auto simp: state_store_up_def sample_manager_def state_manager_with_prefix_def mem_redis_def mem_getdel_def
        sample_to_json_def sample_of_json_def sample_state_def)
  then show ?thesis by (simp add: ledger_call_def)
qed

end
