(* ===== verification/Web_Sockets.thy ===== *)
theory Web_Sockets
  imports Audit_Event "HOL-Library.AList"
begin

text \<open>
  WebSocket rooms and broadcasting (\<^verbatim>\<open>src/acton-service/src/websocket/\<close>): the settings, the handlers of the
  room manager agent as functions of its state, and the broadcaster. Hash maps and sets are association lists and lists
  in any order. The sending end of a connection's channel is a number; whether a send succeeds is a predicate on
  these numbers.
\<close>

subsection \<open>Settings\<close>

record room_config =
  rc_enabled :: bool
  rc_max_members :: nat
  rc_max_rooms_per_connection :: nat
  rc_idle_timeout_secs :: nat

record web_socket_config =
  wc_enabled :: bool
  wc_max_message_size_bytes :: nat
  wc_max_connections_per_client :: nat
  wc_ping_interval_secs :: nat
  wc_pong_timeout_secs :: nat
  wc_max_frame_size_bytes :: nat
  wc_rooms :: room_config

definition default_room_config :: room_config where
  "default_room_config =
     \<lparr>rc_enabled = True, rc_max_members = 1000, rc_max_rooms_per_connection = 10, rc_idle_timeout_secs = 3600\<rparr>"

definition default_web_socket_config :: web_socket_config where
  "default_web_socket_config =
     \<lparr>wc_enabled = True, wc_max_message_size_bytes = 65536, wc_max_connections_per_client = 5, wc_ping_interval_secs = 30,
      wc_pong_timeout_secs = 10, wc_max_frame_size_bytes = 16384, wc_rooms = default_room_config\<rparr>"

subsection \<open>Rooms\<close>

type_synonym connection_id = uuid
type_synonym room_id = string
type_synonym sender = nat

record room_member =
  rm_connection_id :: connection_id
  rm_sender :: sender
  rm_user_id :: "string option"
  rm_joined_at :: int

definition room_member_new :: "int \<Rightarrow> connection_id \<Rightarrow> sender \<Rightarrow> room_member" where
  "room_member_new now c tx = \<lparr>rm_connection_id = c, rm_sender = tx, rm_user_id = None, rm_joined_at = now\<rparr>"

definition room_member_authenticated :: "int \<Rightarrow> connection_id \<Rightarrow> sender \<Rightarrow> string \<Rightarrow> room_member" where
  "room_member_authenticated now c tx user =
     \<lparr>rm_connection_id = c, rm_sender = tx, rm_user_id = Some user, rm_joined_at = now\<rparr>"

record room =
  ro_id :: room_id
  ro_members :: "(connection_id \<times> room_member) list"
  ro_created_at :: int
  ro_last_activity :: int
  ro_metadata :: "(string \<times> string) list"

definition room_new :: "int \<Rightarrow> room_id \<Rightarrow> room" where
  "room_new now i = \<lparr>ro_id = i, ro_members = [], ro_created_at = now, ro_last_activity = now, ro_metadata = []\<rparr>"

definition member_count :: "room \<Rightarrow> nat" where
  "member_count r = length (ro_members r)"

definition room_is_empty :: "room \<Rightarrow> bool" where
  "room_is_empty r \<longleftrightarrow> ro_members r = []"

definition touch :: "int \<Rightarrow> room \<Rightarrow> room" where
  "touch now r = r\<lparr>ro_last_activity := now\<rparr>"

record room_manager_state =
  rs_rooms :: "(room_id \<times> room) list"
  rs_connection_rooms :: "(connection_id \<times> room_id list) list"
  rs_max_members_per_room :: nat
  rs_max_rooms_per_connection :: nat

datatype 'm room_message =
  JoinRoomRequest room_id room_member
| LeaveRoomRequest room_id connection_id
| BroadcastToRoom room_id 'm "connection_id option"
| ConnectionDisconnected connection_id
| GetRoomInfo room_id

record room_info_response =
  ri_room_id :: room_id
  ri_member_count :: nat
  ri_exists :: bool

text \<open>The state of a new manager (\<^verbatim>\<open>RoomManager::spawn\<close>).\<close>

definition spawn_room_manager :: "room_config \<Rightarrow> room_manager_state" where
  "spawn_room_manager config =
     \<lparr>rs_rooms = [], rs_connection_rooms = [], rs_max_members_per_room = rc_max_members config,
      rs_max_rooms_per_connection = rc_max_rooms_per_connection config\<rparr>"

definition on_join_room :: "int \<Rightarrow> room_id \<Rightarrow> room_member \<Rightarrow> room_manager_state \<Rightarrow> room_manager_state" where
  "on_join_room now room_id member st =
     (let c = rm_connection_id member;
          connection_rooms = (case map_of (rs_connection_rooms st) c of Some rs \<Rightarrow> rs | None \<Rightarrow> []);
          st1 = st\<lparr>rs_connection_rooms := AList.update c connection_rooms (rs_connection_rooms st)\<rparr>
      in if rs_max_rooms_per_connection st \<le> length connection_rooms then st1
         else
           (let room = (case map_of (rs_rooms st) room_id of Some r \<Rightarrow> r | None \<Rightarrow> room_new now room_id);
                st2 = st1\<lparr>rs_rooms := AList.update room_id room (rs_rooms st)\<rparr>
            in if rs_max_members_per_room st \<le> length (ro_members room) then st2
               else st2\<lparr>rs_rooms := AList.update room_id
                            (touch now (room\<lparr>ro_members := AList.update c member (ro_members room)\<rparr>)) (rs_rooms st2),
                        rs_connection_rooms := AList.update c (List.insert room_id connection_rooms) (rs_connection_rooms st2)\<rparr>))"

text \<open>A connection is taken out of a room, and the room out of the table when it has become empty.\<close>

definition evict :: "(room \<Rightarrow> room) \<Rightarrow> connection_id \<Rightarrow> room_id \<Rightarrow> (room_id \<times> room) list \<Rightarrow> (room_id \<times> room) list" where
  "evict mark c room_id rooms =
     (case map_of rooms room_id of
        Some room \<Rightarrow>
          (let room' = mark (room\<lparr>ro_members := AList.delete c (ro_members room)\<rparr>)
           in if room_is_empty room' then AList.delete room_id rooms else AList.update room_id room' rooms)
      | None \<Rightarrow> rooms)"

definition on_leave_room :: "int \<Rightarrow> room_id \<Rightarrow> connection_id \<Rightarrow> room_manager_state \<Rightarrow> room_manager_state" where
  "on_leave_room now room_id c st =
     st\<lparr>rs_rooms := evict (touch now) c room_id (rs_rooms st),
        rs_connection_rooms := AList.map_entry c (removeAll room_id) (rs_connection_rooms st)\<rparr>"

definition on_broadcast :: "(sender \<Rightarrow> bool) \<Rightarrow> room_id \<Rightarrow> 'm \<Rightarrow> connection_id option \<Rightarrow> room_manager_state \<Rightarrow> (sender \<times> 'm) list" where
  "on_broadcast alive room_id message exclude_sender st =
     (case map_of (rs_rooms st) room_id of
        Some room \<Rightarrow>
          (let senders = map rm_sender (filter (\<lambda>m. case exclude_sender of Some i \<Rightarrow> rm_connection_id m \<noteq> i | None \<Rightarrow> True)
                           (map snd (ro_members room)))
           in map (\<lambda>tx. (tx, message)) (filter alive senders))
      | None \<Rightarrow> [])"

definition on_disconnect :: "connection_id \<Rightarrow> room_manager_state \<Rightarrow> room_manager_state" where
  "on_disconnect c st =
     (case map_of (rs_connection_rooms st) c of
        Some room_ids \<Rightarrow>
          st\<lparr>rs_connection_rooms := AList.delete c (rs_connection_rooms st),
             rs_rooms := fold (evict (\<lambda>r. r) c) room_ids (rs_rooms st)\<rparr>
      | None \<Rightarrow> st)"

definition on_get_room_info :: "room_id \<Rightarrow> room_manager_state \<Rightarrow> room_info_response" where
  "on_get_room_info room_id st =
     (case map_of (rs_rooms st) room_id of
        Some room \<Rightarrow> \<lparr>ri_room_id = room_id, ri_member_count = member_count room, ri_exists = True\<rparr>
      | None \<Rightarrow> \<lparr>ri_room_id = room_id, ri_member_count = 0, ri_exists = False\<rparr>)"

text \<open>What the agent does with one message; broadcasting and questions leave its state as it is.\<close>

fun room_turn :: "int \<Rightarrow> 'm room_message \<Rightarrow> room_manager_state \<Rightarrow> room_manager_state" where
  "room_turn now (JoinRoomRequest r m) st = on_join_room now r m st"
| "room_turn now (LeaveRoomRequest r c) st = on_leave_room now r c st"
| "room_turn now (BroadcastToRoom r m x) st = st"
| "room_turn now (ConnectionDisconnected c) st = on_disconnect c st"
| "room_turn now (GetRoomInfo r) st = st"

fun room_run :: "(int \<times> 'm room_message) list \<Rightarrow> room_manager_state \<Rightarrow> room_manager_state" where
  "room_run [] st = st"
| "room_run ((now, m) # ms) st = room_run ms (room_turn now m st)"

subsection \<open>Connections and the broadcaster\<close>

record web_socket_connection =
  ws_id :: connection_id
  ws_sender :: sender
  ws_user_id :: "string option"
  ws_rooms :: "string list"
  ws_client_ip :: "string option"

definition ws_new :: "uuid \<Rightarrow> sender \<Rightarrow> web_socket_connection" where
  "ws_new i tx = \<lparr>ws_id = i, ws_sender = tx, ws_user_id = None, ws_rooms = [], ws_client_ip = None\<rparr>"

definition ws_authenticated :: "uuid \<Rightarrow> sender \<Rightarrow> string \<Rightarrow> web_socket_connection" where
  "ws_authenticated i tx user = \<lparr>ws_id = i, ws_sender = tx, ws_user_id = Some user, ws_rooms = [], ws_client_ip = None\<rparr>"

definition ws_is_authenticated :: "web_socket_connection \<Rightarrow> bool" where
  "ws_is_authenticated w \<longleftrightarrow> ws_user_id w \<noteq> None"

datatype broadcast_target = All | Connections "connection_id list" | AllExcept "connection_id list"

type_synonym broadcaster = "(connection_id \<times> sender) list"

definition broadcaster_new :: broadcaster where
  "broadcaster_new = []"

definition register :: "connection_id \<Rightarrow> sender \<Rightarrow> broadcaster \<Rightarrow> broadcaster" where
  "register i tx b = AList.update i tx b"

definition unregister :: "connection_id \<Rightarrow> broadcaster \<Rightarrow> broadcaster" where
  "unregister i b = AList.delete i b"

text \<open>The sends that succeed, in their order; the functions return their number.\<close>

definition broadcast_all :: "(sender \<Rightarrow> bool) \<Rightarrow> 'm \<Rightarrow> broadcaster \<Rightarrow> (sender \<times> 'm) list \<times> nat" where
  "broadcast_all alive message b =
     (let sends = filter alive (map snd b) in (map (\<lambda>tx. (tx, message)) sends, length sends))"

definition broadcast_to :: "(sender \<Rightarrow> bool) \<Rightarrow> connection_id list \<Rightarrow> 'm \<Rightarrow> broadcaster \<Rightarrow> (sender \<times> 'm) list \<times> nat" where
  "broadcast_to alive ids message b =
     (let sends = filter alive (List.map_filter (map_of b) ids) in (map (\<lambda>tx. (tx, message)) sends, length sends))"

definition broadcast_except :: "(sender \<Rightarrow> bool) \<Rightarrow> connection_id list \<Rightarrow> 'm \<Rightarrow> broadcaster \<Rightarrow> (sender \<times> 'm) list \<times> nat" where
  "broadcast_except alive exclude message b =
     (let sends = map snd (filter (\<lambda>(i, tx). \<not> List.member exclude i \<and> alive tx) b)
      in (map (\<lambda>tx. (tx, message)) sends, length sends))"

definition broadcast :: "(sender \<Rightarrow> bool) \<Rightarrow> broadcast_target \<Rightarrow> 'm \<Rightarrow> broadcaster \<Rightarrow> (sender \<times> 'm) list \<times> nat" where
  "broadcast alive target message b =
     (case target of
        All \<Rightarrow> broadcast_all alive message b
      | Connections ids \<Rightarrow> broadcast_to alive ids message b
      | AllExcept exclude \<Rightarrow> broadcast_except alive exclude message b)"

definition send_to :: "(sender \<Rightarrow> bool) \<Rightarrow> connection_id \<Rightarrow> 'm \<Rightarrow> broadcaster \<Rightarrow> (sender \<times> 'm) list \<times> bool" where
  "send_to alive i message b =
     (case map_of b i of
        Some tx \<Rightarrow> if alive tx then ([(tx, message)], True) else ([], False)
      | None \<Rightarrow> ([], False))"

definition connection_count :: "broadcaster \<Rightarrow> nat" where
  "connection_count b = length b"

definition has_connection :: "connection_id \<Rightarrow> broadcaster \<Rightarrow> bool" where
  "has_connection i b \<longleftrightarrow> map_of b i \<noteq> None"

definition connection_ids :: "broadcaster \<Rightarrow> connection_id list" where
  "connection_ids b = map fst b"

subsection \<open>The membership relation\<close>

text \<open>Who is in which room, as the rooms say and as the connections say, and its specification.\<close>

definition in_room :: "room_manager_state \<Rightarrow> connection_id \<Rightarrow> room_id \<Rightarrow> bool" where
  "in_room st c r \<longleftrightarrow> (\<exists>room. map_of (rs_rooms st) r = Some room \<and> c \<in> dom (map_of (ro_members room)))"

definition has_room :: "room_manager_state \<Rightarrow> connection_id \<Rightarrow> room_id \<Rightarrow> bool" where
  "has_room st c r \<longleftrightarrow> (\<exists>rs. map_of (rs_connection_rooms st) c = Some rs \<and> r \<in> set rs)"

type_synonym membership = "(connection_id \<times> room_id) set"

definition join_spec :: "nat \<Rightarrow> nat \<Rightarrow> connection_id \<Rightarrow> room_id \<Rightarrow> membership \<Rightarrow> membership" where
  "join_spec max_members max_rooms c r A =
     (if max_rooms \<le> card {r'. (c, r') \<in> A} \<or> max_members \<le> card {c'. (c', r) \<in> A} then A else insert (c, r) A)"

fun membership_spec :: "nat \<Rightarrow> nat \<Rightarrow> 'm room_message \<Rightarrow> membership \<Rightarrow> membership" where
  "membership_spec mm mr (JoinRoomRequest r m) A = join_spec mm mr (rm_connection_id m) r A"
| "membership_spec mm mr (LeaveRoomRequest r c) A = A - {(c, r)}"
| "membership_spec mm mr (BroadcastToRoom r m x) A = A"
| "membership_spec mm mr (ConnectionDisconnected c) A = {(c', r) \<in> A. c' \<noteq> c}"
| "membership_spec mm mr (GetRoomInfo r) A = A"

fun membership_run :: "nat \<Rightarrow> nat \<Rightarrow> (int \<times> 'm room_message) list \<Rightarrow> membership \<Rightarrow> membership" where
  "membership_run mm mr [] A = A"
| "membership_run mm mr ((now, m) # ms) A = membership_run mm mr ms (membership_spec mm mr m A)"

definition room_ok :: "nat \<Rightarrow> room_id \<Rightarrow> room \<Rightarrow> bool" where
  "room_ok max_members r room \<longleftrightarrow> ro_id room = r \<and> distinct (map fst (ro_members room))
     \<and> (\<forall>c m. map_of (ro_members room) c = Some m \<longrightarrow> rm_connection_id m = c)
     \<and> length (ro_members room) \<le> max_members \<and> (0 < max_members \<longrightarrow> ro_members room \<noteq> [])"

definition rooms_inv :: "room_manager_state \<Rightarrow> bool" where
  "rooms_inv st \<longleftrightarrow>
     distinct (map fst (rs_rooms st)) \<and> distinct (map fst (rs_connection_rooms st))
     \<and> (\<forall>r room. map_of (rs_rooms st) r = Some room \<longrightarrow> room_ok (rs_max_members_per_room st) r room)
     \<and> (\<forall>c rs. map_of (rs_connection_rooms st) c = Some rs \<longrightarrow> distinct rs \<and> length rs \<le> rs_max_rooms_per_connection st)
     \<and> (\<forall>c r. in_room st c r \<longleftrightarrow> has_room st c r)"

lemma length_update_le: "length (AList.update k v al) \<le> Suc (length al)"
  by (induction al) auto

lemma update_nonempty [simp]: "AList.update k v al \<noteq> []"
  by (cases al) auto

lemma length_insert_le: "length (List.insert x xs) \<le> Suc (length xs)"
  by (simp add: List.insert_def)

lemma map_of_map_entry_iff:
  "map_of (AList.map_entry k f al) i = (if i = k then map_option f (map_of al i) else map_of al i)"
  by (induction al) auto

lemma map_fst_map_entry [simp]: "map fst (AList.map_entry k f al) = map fst al"
  by (induction al) auto

lemma length_removeAll_le: "length (removeAll x xs) \<le> length xs"
  by (simp add: removeAll_filter_not_eq)

text \<open>What a table says about a room after a connection was taken out of one or several of them.\<close>

definition shrink :: "(room \<Rightarrow> room) \<Rightarrow> connection_id \<Rightarrow> room option \<Rightarrow> room option" where
  "shrink mark c ro =
     (case ro of
        Some room \<Rightarrow>
          (let room' = mark (room\<lparr>ro_members := AList.delete c (ro_members room)\<rparr>)
           in if room_is_empty room' then None else Some room')
      | None \<Rightarrow> None)"

lemma map_of_evict: "map_of (evict mark c r rooms) r' = (if r' = r then shrink mark c (map_of rooms r) else map_of rooms r')"
  by (auto simp: evict_def shrink_def Let_def AList.delete_conv' AList.update_conv' split: option.splits)

lemma distinct_evict: "distinct (map fst rooms) \<Longrightarrow> distinct (map fst (evict mark c r rooms))"
  by (auto simp: evict_def Let_def AList.distinct_delete AList.distinct_update split: option.splits)

lemma shrink_twice: "shrink (\<lambda>r. r) c (shrink (\<lambda>r. r) c ro) = shrink (\<lambda>r. r) c ro"
  by (auto simp: shrink_def Let_def room_is_empty_def AList.delete_idem split: option.splits)

lemma map_of_fold_evict:
  "map_of (fold (evict (\<lambda>r. r) c) rs rooms) r' = (if r' \<in> set rs then shrink (\<lambda>r. r) c (map_of rooms r') else map_of rooms r')"
  by (induction rs arbitrary: rooms) (auto simp: map_of_evict shrink_twice)

lemma distinct_fold_evict: "distinct (map fst rooms) \<Longrightarrow> distinct (map fst (fold (evict (\<lambda>r. r) c) rs rooms))"
  by (induction rs arbitrary: rooms) (auto simp: distinct_evict)

definition membership_of :: "room_manager_state \<Rightarrow> membership" where
  "membership_of st = {(c, r). in_room st c r}"

lemma rooms_of_connection:
  assumes "rooms_inv st"
  shows "card {r. (c, r) \<in> membership_of st} = length (case map_of (rs_connection_rooms st) c of Some rs \<Rightarrow> rs | None \<Rightarrow> [])"
proof -
  have "{r. (c, r) \<in> membership_of st} = set (case map_of (rs_connection_rooms st) c of Some rs \<Rightarrow> rs | None \<Rightarrow> [])"
    using assms by (auto simp: membership_of_def rooms_inv_def has_room_def split: option.splits)
  moreover have "distinct (case map_of (rs_connection_rooms st) c of Some rs \<Rightarrow> rs | None \<Rightarrow> [])"
    using assms by (auto simp: rooms_inv_def split: option.splits)
  ultimately show ?thesis by (metis distinct_card)
qed

lemma members_of_room:
  assumes "rooms_inv st"
  shows "card {c. (c, r) \<in> membership_of st} = (case map_of (rs_rooms st) r of Some room \<Rightarrow> length (ro_members room) | None \<Rightarrow> 0)"
proof (cases "map_of (rs_rooms st) r")
  case None
  then have "{c. (c, r) \<in> membership_of st} = {}" by (simp add: membership_of_def in_room_def)
  with None show ?thesis by simp
next
  case (Some room)
  then have "{c. (c, r) \<in> membership_of st} = set (map fst (ro_members room))"
    by (auto simp: membership_of_def in_room_def dom_map_of_conv_image_fst)
  moreover have "distinct (map fst (ro_members room))" using assms Some by (auto simp: rooms_inv_def room_ok_def)
  ultimately show ?thesis using Some distinct_card [of "map fst (ro_members room)"] by simp
qed

lemmas alist_simps = AList.update_conv' AList.delete_conv' AList.distinct_update AList.distinct_delete

lemma inv_room: "\<lbrakk>rooms_inv st; map_of (rs_rooms st) r = Some room\<rbrakk> \<Longrightarrow> room_ok (rs_max_members_per_room st) r room"
  by (simp add: rooms_inv_def)

lemma room_ok_join:
  assumes "room_ok mm r room \<or> room = room_new now r" and "length (ro_members room) < mm"
  shows "room_ok mm r (touch now (room\<lparr>ro_members := AList.update (rm_connection_id m) m (ro_members room)\<rparr>))"
  using assms length_update_le [of "rm_connection_id m" m "ro_members room"]
  by (auto simp: room_ok_def touch_def room_new_def alist_simps)

lemma room_ok_shrink:
  assumes "room_ok mm r room" "shrink mark c (Some room) = Some room'"
    and "\<And>q. ro_id (mark q) = ro_id q \<and> ro_members (mark q) = ro_members q"
  shows "room_ok mm r room'"
proof -
  have "length (AList.delete c (ro_members room)) \<le> length (ro_members room)" by (rule AList.length_delete_le)
  with assms show ?thesis
    by (auto simp: shrink_def room_ok_def room_is_empty_def Let_def alist_simps split: if_splits)
qed

lemma shrink_dom:
  assumes "\<And>q. ro_members (mark q) = ro_members q"
  shows "(\<exists>room. shrink mark c ro = Some room \<and> c' \<in> dom (map_of (ro_members room))) \<longleftrightarrow>
     c' \<noteq> c \<and> (\<exists>room. ro = Some room \<and> c' \<in> dom (map_of (ro_members room)))"
proof (cases ro)
  case (Some room)
  have "map_of (AList.delete c (ro_members room)) = (map_of (ro_members room))(c := None)" by (rule AList.delete_conv')
  moreover have "AList.delete c (ro_members room) = [] \<Longrightarrow> c' \<noteq> c \<Longrightarrow> map_of (ro_members room) c' = None"
    using calculation by (metis fun_upd_other map_of.simps(1))
  ultimately show ?thesis using Some assms by (auto simp: shrink_def room_is_empty_def Let_def)
qed (simp add: shrink_def)

lemma join_step:
  assumes inv: "rooms_inv st"
  shows "rooms_inv (on_join_room now r m st) \<and>
     membership_of (on_join_room now r m st) =
       join_spec (rs_max_members_per_room st) (rs_max_rooms_per_connection st) (rm_connection_id m) r (membership_of st)"
proof -
  let ?c = "rm_connection_id m"
  define rs where "rs = (case map_of (rs_connection_rooms st) ?c of Some rs \<Rightarrow> rs | None \<Rightarrow> [])"
  define room where "room = (case map_of (rs_rooms st) r of Some q \<Rightarrow> q | None \<Rightarrow> room_new now r)"
  have cards: "card {r'. (?c, r') \<in> membership_of st} = length rs" "card {c'. (c', r) \<in> membership_of st} = length (ro_members room)"
    using rooms_of_connection [OF inv] members_of_room [OF inv] by (auto simp: rs_def room_def room_new_def split: option.splits)
  have rs: "distinct rs" "length rs \<le> rs_max_rooms_per_connection st" "has_room st ?c r' \<longleftrightarrow> r' \<in> set rs" for r'
    using inv by (auto simp: rs_def rooms_inv_def has_room_def split: option.splits)
  have room: "in_room st c' r \<longleftrightarrow> c' \<in> dom (map_of (ro_members room))" for c'
    by (auto simp: room_def in_room_def room_new_def split: option.splits)
  have ok: "room_ok (rs_max_members_per_room st) r room \<or> room = room_new now r"
    using inv by (auto simp: rooms_inv_def room_def split: option.splits)
  consider (many) "rs_max_rooms_per_connection st \<le> length rs"
    | (full) "\<not> rs_max_rooms_per_connection st \<le> length rs" "rs_max_members_per_room st \<le> length (ro_members room)"
    | (joins) "\<not> rs_max_rooms_per_connection st \<le> length rs" "\<not> rs_max_members_per_room st \<le> length (ro_members room)"
    by blast
  then show ?thesis
  proof cases
    case many
    then have step: "on_join_room now r m st = st\<lparr>rs_connection_rooms := AList.update ?c rs (rs_connection_rooms st)\<rparr>" (is "_ = ?st")
      by (simp add: on_join_room_def rs_def Let_def)
    have rel: "in_room ?st = in_room st" "has_room ?st = has_room st"
      using rs(3) by (auto simp: in_room_def has_room_def alist_simps fun_eq_iff)
    then have "rooms_inv ?st" using inv rs by (simp add: rooms_inv_def alist_simps)
    moreover have "membership_of ?st = membership_of st" by (simp add: membership_of_def rel)
    ultimately show ?thesis using many by (simp add: step join_spec_def cards)
  next
    case full
    then have step: "on_join_room now r m st =
        st\<lparr>rs_connection_rooms := AList.update ?c rs (rs_connection_rooms st), rs_rooms := AList.update r room (rs_rooms st)\<rparr>" (is "_ = ?st")
      by (simp add: on_join_room_def rs_def room_def Let_def)
    have rel: "in_room ?st = in_room st" "has_room ?st = has_room st"
      using rs(3) room by (auto simp: in_room_def has_room_def alist_simps fun_eq_iff)
    have "room_ok (rs_max_members_per_room st) r room" using ok full by (auto simp: room_new_def room_ok_def)
    with rel inv rs have "rooms_inv ?st" by (simp add: rooms_inv_def alist_simps)
    moreover have "membership_of ?st = membership_of st" by (simp add: membership_of_def rel)
    ultimately show ?thesis using full by (simp add: step join_spec_def cards)
  next
    case joins
    define room' where "room' = touch now (room\<lparr>ro_members := AList.update ?c m (ro_members room)\<rparr>)"
    define st' where "st' = st\<lparr>rs_connection_rooms := AList.update ?c (List.insert r rs) (AList.update ?c rs (rs_connection_rooms st)),
        rs_rooms := AList.update r room' (AList.update r room (rs_rooms st))\<rparr>"
    have step: "on_join_room now r m st = st'"
      using joins by (simp add: on_join_room_def rs_def room_def room'_def st'_def Let_def)
    have rel: "in_room st' c' r' \<longleftrightarrow> in_room st c' r' \<or> c' = ?c \<and> r' = r" "has_room st' c' r' \<longleftrightarrow> has_room st c' r' \<or> c' = ?c \<and> r' = r" for c' r'
      using rs(3) room [of c'] by (auto simp: in_room_def has_room_def alist_simps st'_def room'_def touch_def)
    have "room_ok (rs_max_members_per_room st) r room'" unfolding room'_def using room_ok_join [OF ok] joins by simp
    moreover have "length (List.insert r rs) \<le> rs_max_rooms_per_connection st" "distinct (List.insert r rs)"
      using joins length_insert_le [of r rs] rs(1) by auto
    ultimately have "rooms_inv st'" unfolding rooms_inv_def rel
      using inv by (simp add: rooms_inv_def alist_simps st'_def)
    moreover have "membership_of st' = insert (?c, r) (membership_of st)" by (auto simp: membership_of_def rel)
    ultimately show ?thesis using joins by (simp add: step join_spec_def cards)
  qed
qed

lemma leave_step:
  assumes inv: "rooms_inv st"
  shows "rooms_inv (on_leave_room now r c st) \<and> membership_of (on_leave_room now r c st) = membership_of st - {(c, r)}"
proof -
  let ?st = "on_leave_room now r c st"
  have mark: "ro_id (touch now q) = ro_id q \<and> ro_members (touch now q) = ro_members q" for q by (simp add: touch_def)
  have rel: "in_room ?st c' r' \<longleftrightarrow> in_room st c' r' \<and> (c', r') \<noteq> (c, r)" for c' r'
    using shrink_dom [of "touch now" c "map_of (rs_rooms st) r" c'] mark
    by (auto simp: in_room_def on_leave_room_def map_of_evict)
  have rel': "has_room ?st c' r' \<longleftrightarrow> has_room st c' r' \<and> (c', r') \<noteq> (c, r)" for c' r'
    by (auto simp: has_room_def on_leave_room_def map_of_map_entry_iff)
  have "room_ok (rs_max_members_per_room st) r' room'" if "map_of (rs_rooms ?st) r' = Some room'" for r' room'
  proof (cases "r' = r")
    case True
    with that obtain room where "map_of (rs_rooms st) r = Some room" "shrink (touch now) c (Some room) = Some room'"
      by (cases "map_of (rs_rooms st) r") (auto simp: on_leave_room_def map_of_evict shrink_def)
    with inv_room [OF inv] room_ok_shrink [OF _ _ mark] True show ?thesis by blast
  qed (use that inv in \<open>auto simp: on_leave_room_def map_of_evict inv_room\<close>)
  moreover have "distinct rs \<and> length rs \<le> rs_max_rooms_per_connection st" if "map_of (rs_connection_rooms ?st) c' = Some rs" for c' rs
  proof (cases "c' = c")
    case True
    with that obtain z where "map_of (rs_connection_rooms st) c = Some z" "rs = removeAll r z"
      by (auto simp: on_leave_room_def map_of_map_entry_iff)
    moreover from this inv have "distinct z" "length z \<le> rs_max_rooms_per_connection st" by (auto simp: rooms_inv_def)
    ultimately show ?thesis by (auto simp: distinct_removeAll intro: le_trans [OF length_removeAll_le])
  qed (use that inv in \<open>auto simp: on_leave_room_def map_of_map_entry_iff rooms_inv_def\<close>)
  ultimately have "rooms_inv ?st"
    unfolding rooms_inv_def rel rel' using inv distinct_evict [of "rs_rooms st" "touch now" c r]
    by (simp add: rooms_inv_def on_leave_room_def)
  then show ?thesis by (auto simp: membership_of_def rel)
qed

lemma disconnect_step:
  assumes inv: "rooms_inv st"
  shows "rooms_inv (on_disconnect c st) \<and> membership_of (on_disconnect c st) = {(c', r) \<in> membership_of st. c' \<noteq> c}"
proof (cases "map_of (rs_connection_rooms st) c")
  case None
  then have "\<not> in_room st c r" for r using inv by (auto simp: rooms_inv_def has_room_def)
  with None inv show ?thesis by (auto simp: on_disconnect_def membership_of_def)
next
  case (Some rs)
  let ?st = "on_disconnect c st"
  have step: "?st = st\<lparr>rs_connection_rooms := AList.delete c (rs_connection_rooms st),
      rs_rooms := fold (evict (\<lambda>r. r) c) rs (rs_rooms st)\<rparr>" using Some by (simp add: on_disconnect_def)
  have here: "in_room st c r \<longleftrightarrow> r \<in> set rs" for r using inv Some by (auto simp: rooms_inv_def has_room_def)
  have rel: "in_room ?st c' r \<longleftrightarrow> in_room st c' r \<and> c' \<noteq> c" for c' r
    using shrink_dom [of "\<lambda>r. r" c "map_of (rs_rooms st) r" c'] here [of r] by (auto simp: in_room_def step map_of_fold_evict)
  have rel': "has_room ?st c' r \<longleftrightarrow> has_room st c' r \<and> c' \<noteq> c" for c' r
    by (auto simp: has_room_def step alist_simps)
  have "room_ok (rs_max_members_per_room st) r room'" if "map_of (rs_rooms ?st) r = Some room'" for r room'
  proof (cases "r \<in> set rs")
    case True
    with that obtain room where "map_of (rs_rooms st) r = Some room" "shrink (\<lambda>r. r) c (Some room) = Some room'"
      by (cases "map_of (rs_rooms st) r") (auto simp: step map_of_fold_evict shrink_def)
    with inv_room [OF inv] room_ok_shrink show ?thesis by blast
  qed (use that inv in \<open>auto simp: step map_of_fold_evict inv_room\<close>)
  then have "rooms_inv ?st"
    unfolding rooms_inv_def rel rel' using inv distinct_fold_evict [of "rs_rooms st" c rs]
    by (simp add: rooms_inv_def step alist_simps)
  then show ?thesis by (auto simp: membership_of_def rel)
qed

lemma limits_kept [simp]:
  "rs_max_members_per_room (room_turn now m st) = rs_max_members_per_room st"
  "rs_max_rooms_per_connection (room_turn now m st) = rs_max_rooms_per_connection st"
  by (cases m; simp add: on_join_room_def on_leave_room_def on_disconnect_def Let_def split: option.splits)+

lemma room_turn_step:
  assumes "rooms_inv st"
  shows "rooms_inv (room_turn now m st) \<and> membership_of (room_turn now m st) =
     membership_spec (rs_max_members_per_room st) (rs_max_rooms_per_connection st) m (membership_of st)"
  using assms by (cases m) (simp_all add: join_step leave_step disconnect_step)

lemma room_run_step:
  "rooms_inv st \<Longrightarrow> rooms_inv (room_run ms st) \<and> membership_of (room_run ms st) =
     membership_run (rs_max_members_per_room st) (rs_max_rooms_per_connection st) ms (membership_of st)"
  by (induction ms st rule: room_run.induct) (simp_all add: room_turn_step)

lemma spawned_inv: "rooms_inv (spawn_room_manager config)" "membership_of (spawn_room_manager config) = {}"
  by (simp_all add: rooms_inv_def spawn_room_manager_def in_room_def has_room_def membership_of_def)

text \<open>
  C35: After any sequence of messages the rooms and the connections of the room manager agree on who is in which
  room, and this is what the specification of joining, leaving and disconnecting says; no room has more members and no
  connection more rooms than allowed, and a room without members is not kept when rooms may have members at all.
\<close>

theorem room_manager_refines:
  "let st = room_run ms (spawn_room_manager config);
       A = membership_run (rc_max_members config) (rc_max_rooms_per_connection config) ms {}
   in {(c, r). in_room st c r} = A \<and> {(c, r). has_room st c r} = A
      \<and> (\<forall>r. card {c. (c, r) \<in> A} \<le> rc_max_members config) \<and> (\<forall>c. card {r. (c, r) \<in> A} \<le> rc_max_rooms_per_connection config)
      \<and> (0 < rc_max_members config \<longrightarrow> (\<forall>r \<in> fst ` set (rs_rooms st). \<exists>c. (c, r) \<in> A))"
proof -
  define st where "st = room_run ms (spawn_room_manager config)"
  define A where "A = membership_run (rc_max_members config) (rc_max_rooms_per_connection config) ms {}"
  have lim: "rs_max_members_per_room (room_run ms st') = rs_max_members_per_room st'"
    "rs_max_rooms_per_connection (room_run ms st') = rs_max_rooms_per_connection st'" for st'
    by (induction ms st' rule: room_run.induct) simp_all
  have inv: "rooms_inv st" and A: "membership_of st = A"
    using room_run_step [OF spawned_inv(1), of ms config] by (simp_all add: st_def A_def spawned_inv) (simp add: spawn_room_manager_def)
  have max: "rs_max_members_per_room st = rc_max_members config" "rs_max_rooms_per_connection st = rc_max_rooms_per_connection config"
    by (simp_all add: st_def lim) (simp_all add: spawn_room_manager_def)
  have views: "{(c, r). in_room st c r} = A" "{(c, r). has_room st c r} = A"
    using A inv by (auto simp: membership_of_def rooms_inv_def)
  have "card {c. (c, r) \<in> A} \<le> rc_max_members config" for r
    using members_of_room [OF inv, of r] inv_room [OF inv] by (auto simp: A max room_ok_def split: option.splits)
  moreover have "card {r. (c, r) \<in> A} \<le> rc_max_rooms_per_connection config" for c
    using rooms_of_connection [OF inv, of c] inv by (auto simp: A max rooms_inv_def split: option.splits)
  moreover have "\<exists>c. (c, r) \<in> A" if room: "r \<in> fst ` set (rs_rooms st)" "0 < rc_max_members config" for r
  proof -
    from room(1) obtain q where q: "map_of (rs_rooms st) r = Some q" by (metis map_of_eq_None_iff not_None_eq)
    with inv_room [OF inv q] room(2) max obtain p ps where "ro_members q = p # ps" by (cases "ro_members q") (auto simp: room_ok_def)
    with q have "in_room st (fst p) r" by (cases p) (auto simp: in_room_def)
    with views(1) show ?thesis by blast
  qed
  ultimately show ?thesis using views by (simp add: Let_def flip: st_def A_def)
qed

definition sample_joins :: "(int \<times> unit room_message) list" where
  "sample_joins = [(0, JoinRoomRequest ''lobby'' (room_member_new 0 [1] 7)), (1, JoinRoomRequest ''lobby'' (room_member_new 1 [2] 8))]"

theorem room_manager_refines_witness:
  "in_room (room_run sample_joins (spawn_room_manager (default_room_config\<lparr>rc_max_members := 1\<rparr>))) [1] ''lobby'' \<and>
   \<not> in_room (room_run sample_joins (spawn_room_manager (default_room_config\<lparr>rc_max_members := 1\<rparr>))) [2] ''lobby'' \<and>
   fst ` set (rs_rooms (room_run sample_joins (spawn_room_manager (default_room_config\<lparr>rc_max_members := 1\<rparr>)))) \<subseteq> {''lobby''}"
proof -
  have A: "membership_run 1 10 sample_joins {} = {([1], ''lobby'')}"
    by (simp add: sample_joins_def room_member_new_def join_spec_def)
  note room_manager_refines [of sample_joins "default_room_config\<lparr>rc_max_members := 1\<rparr>"]
  then have "{(c, r). in_room (room_run sample_joins (spawn_room_manager (default_room_config\<lparr>rc_max_members := 1\<rparr>))) c r} = {([1], ''lobby'')}"
    "\<forall>r \<in> fst ` set (rs_rooms (room_run sample_joins (spawn_room_manager (default_room_config\<lparr>rc_max_members := 1\<rparr>)))). \<exists>c. (c, r) \<in> {([1 :: u8], ''lobby'')}"
    unfolding Let_def by (simp_all add: default_room_config_def A [unfolded One_nat_def])
  moreover have "([2], ''lobby'') \<noteq> ([1 :: u8], ''lobby'')" by simp
  ultimately show ?thesis by blast
qed

lemma senders_of_members:
  "\<forall>p \<in> set ps. rm_connection_id (snd p) = fst p \<Longrightarrow>
   map (\<lambda>tx. (tx, msg)) (filter alive (map rm_sender (filter (\<lambda>m. case x of Some i \<Rightarrow> rm_connection_id m \<noteq> i | None \<Rightarrow> True)
     (map snd ps)))) =
   map (\<lambda>(c, m). (rm_sender m, msg)) (filter (\<lambda>(c, m). Some c \<noteq> x \<and> alive (rm_sender m)) ps)"
  by (induction ps) (auto split: option.splits)

text \<open>What a broadcast reaches: each member but the excluded one, once, over its own channel.\<close>

theorem broadcast_reaches_members:
  assumes inv: "rooms_inv st" and room: "map_of (rs_rooms st) r = Some room"
  shows "on_broadcast alive r msg x st =
       map (\<lambda>(c, m). (rm_sender m, msg)) (filter (\<lambda>(c, m). Some c \<noteq> x \<and> alive (rm_sender m)) (ro_members room))
     \<and> distinct (map fst (ro_members room)) \<and> (\<forall>c. c \<in> set (map fst (ro_members room)) \<longleftrightarrow> in_room st c r)"
proof -
  have ok: "distinct (map fst (ro_members room))" "\<And>c m. map_of (ro_members room) c = Some m \<Longrightarrow> rm_connection_id m = c"
    using inv_room [OF inv room] by (auto simp: room_ok_def)
  then have "\<forall>p \<in> set (ro_members room). rm_connection_id (snd p) = fst p" by (auto simp: map_of_eq_Some_iff)
  note senders_of_members [OF this, of msg alive x]
  with ok(1) room show ?thesis by (auto simp: on_broadcast_def in_room_def dom_map_of_conv_image_fst)
qed

text \<open>With \<^verbatim>\<open>max_members = 0\<close> a refused request leaves an empty room behind, which is never removed.\<close>

lemma refused_room_stays:
  "rs_max_members_per_room st = 0 \<Longrightarrow> map_of (rs_connection_rooms st) (rm_connection_id m) = None \<Longrightarrow>
   0 < rs_max_rooms_per_connection st \<Longrightarrow> map_of (rs_rooms (on_join_room now r m st)) r \<noteq> None"
  by (simp add: on_join_room_def Let_def alist_simps)

text \<open>
  Naming all connections, or excluding none, is the same as a broadcast to all; naming a connection twice sends
  to it twice.
\<close>

theorem broadcast_targets_agree:
  assumes "distinct (map fst b)"
  shows "broadcast alive (Connections (connection_ids b)) msg b = broadcast alive All msg b"
    and "broadcast alive (AllExcept []) msg b = broadcast alive All msg b"
    and "i \<notin> set ids \<Longrightarrow> broadcast alive (AllExcept (i # ids)) msg b = broadcast alive (AllExcept ids) msg (unregister i b)"
proof -
  have "\<forall>p \<in> set ps. map_of b (fst p) = Some (snd p) \<Longrightarrow> List.map_filter (map_of b) (map fst ps) = map snd ps" for ps
    by (induction ps) (auto simp: map_filter_simps)
  then have "List.map_filter (map_of b) (map fst b) = map snd b" using assms by simp
  then show "broadcast alive (Connections (connection_ids b)) msg b = broadcast alive All msg b"
    by (simp add: broadcast_def broadcast_to_def broadcast_all_def connection_ids_def)
  show "broadcast alive (AllExcept []) msg b = broadcast alive All msg b"
    by (simp add: broadcast_def broadcast_except_def broadcast_all_def filter_map comp_def case_prod_unfold Let_def)
  show "broadcast alive (AllExcept (i # ids)) msg b = broadcast alive (AllExcept ids) msg (unregister i b)"
    by (simp add: broadcast_def broadcast_except_def unregister_def AList.delete_eq filter_filter case_prod_unfold conj_commute conj_left_commute Let_def
      eq_commute [of _ i])
qed

end
