(* ===== verification/Sse.thy ===== *)
theory Sse
  imports Audit_Event "HOL-Library.AList"
begin

text \<open>
  Server-sent events (\<^verbatim>\<open>src/acton-service/src/sse/\<close>): the broadcaster (\<^verbatim>\<open>broadcast.rs\<close>), connections
  (\<^verbatim>\<open>connection.rs\<close>), the configuration (\<^verbatim>\<open>config.rs\<close>) and the events it builds (\<^verbatim>\<open>event.rs\<close>, \<^verbatim>\<open>htmx.rs\<close>).

  The broadcast channel of tokio is the record of operations \<open>channel_ops\<close> with the laws of the locale \<open>broadcast_channel\<close>:
  a receiver is given every message that is sent after it subscribed, and sending without receivers is an error. What a
  receiver that reads too slowly misses is not part of it. An event of axum is the sequence of builder calls that make it, and
  \<^verbatim>\<open>serde_json\<close> is an argument.
\<close>

subsection \<open>Messages and connections\<close>

record broadcast_message =
  bm_event_type :: "string option"
  bm_data :: string
  bm_id :: "string option"

definition message_new :: "string \<Rightarrow> broadcast_message" where
  "message_new data = \<lparr>bm_event_type = None, bm_data = data, bm_id = None\<rparr>"

definition message_named :: "string \<Rightarrow> string \<Rightarrow> broadcast_message" where
  "message_named event_type data = \<lparr>bm_event_type = Some event_type, bm_data = data, bm_id = None\<rparr>"

definition message_json :: "('a \<Rightarrow> string + string) \<Rightarrow> 'a \<Rightarrow> string + broadcast_message" where
  "message_json to_string data =
     (case to_string data of Inl e \<Rightarrow> Inl e | Inr s \<Rightarrow> Inr \<lparr>bm_event_type = None, bm_data = s, bm_id = None\<rparr>)"

definition message_json_named :: "('a \<Rightarrow> string + string) \<Rightarrow> string \<Rightarrow> 'a \<Rightarrow> string + broadcast_message" where
  "message_json_named to_string event_type data =
     (case to_string data of Inl e \<Rightarrow> Inl e | Inr s \<Rightarrow> Inr \<lparr>bm_event_type = Some event_type, bm_data = s, bm_id = None\<rparr>)"

definition message_with_id :: "string \<Rightarrow> broadcast_message \<Rightarrow> broadcast_message" where
  "message_with_id i m = m\<lparr>bm_id := Some i\<rparr>"

record sse_connection =
  sc_id :: uuid
  sc_user_id :: "string option"
  sc_client_ip :: "string option"
  sc_last_event_id :: "string option"
  sc_subscribed_channels :: "string list"

definition sse_connection_new :: "uuid \<Rightarrow> sse_connection" where
  "sse_connection_new i =
     \<lparr>sc_id = i, sc_user_id = None, sc_client_ip = None, sc_last_event_id = None, sc_subscribed_channels = []\<rparr>"

definition sse_connection_authenticated :: "uuid \<Rightarrow> string \<Rightarrow> sse_connection" where
  "sse_connection_authenticated i user_id =
     \<lparr>sc_id = i, sc_user_id = Some user_id, sc_client_ip = None, sc_last_event_id = None, sc_subscribed_channels = []\<rparr>"

definition sse_with_client_ip :: "string \<Rightarrow> sse_connection \<Rightarrow> sse_connection" where
  "sse_with_client_ip ip c = c\<lparr>sc_client_ip := Some ip\<rparr>"

definition sse_with_last_event_id :: "string \<Rightarrow> sse_connection \<Rightarrow> sse_connection" where
  "sse_with_last_event_id i c = c\<lparr>sc_last_event_id := Some i\<rparr>"

definition sse_with_channel :: "string \<Rightarrow> sse_connection \<Rightarrow> sse_connection" where
  "sse_with_channel ch c = c\<lparr>sc_subscribed_channels := sc_subscribed_channels c @ [ch]\<rparr>"

definition sse_is_subscribed :: "string \<Rightarrow> sse_connection \<Rightarrow> bool" where
  "sse_is_subscribed channel c = list_ex (\<lambda>ch. ch = channel) (sc_subscribed_channels c)"

subsection \<open>Events\<close>

datatype event_call = EventData string | EventName string | EventId string | EventRetry nat

type_synonym sse_event = "event_call list"

definition event_json :: "('a \<Rightarrow> string + string) \<Rightarrow> 'a \<Rightarrow> string + sse_event" where
  "event_json to_string data = (case to_string data of Inl e \<Rightarrow> Inl e | Inr s \<Rightarrow> Inr [EventData s])"

definition event_json_named :: "('a \<Rightarrow> string + string) \<Rightarrow> string \<Rightarrow> 'a \<Rightarrow> string + sse_event" where
  "event_json_named to_string name data =
     (case to_string data of Inl e \<Rightarrow> Inl e | Inr s \<Rightarrow> Inr [EventName name, EventData s])"

record 'a typed_event =
  te_event_type :: "string option"
  te_id :: "string option"
  te_retry :: "nat option"
  te_data :: 'a

definition typed_event_new :: "'a \<Rightarrow> 'a typed_event" where
  "typed_event_new data = \<lparr>te_event_type = None, te_id = None, te_retry = None, te_data = data\<rparr>"

definition typed_event_type :: "string \<Rightarrow> 'a typed_event \<Rightarrow> 'a typed_event" where
  "typed_event_type name e = e\<lparr>te_event_type := Some name\<rparr>"

definition typed_event_id :: "string \<Rightarrow> 'a typed_event \<Rightarrow> 'a typed_event" where
  "typed_event_id i e = e\<lparr>te_id := Some i\<rparr>"

definition typed_event_retry :: "nat \<Rightarrow> 'a typed_event \<Rightarrow> 'a typed_event" where
  "typed_event_retry r e = e\<lparr>te_retry := Some r\<rparr>"

definition into_event :: "('a \<Rightarrow> string + string) \<Rightarrow> 'a typed_event \<Rightarrow> string + sse_event" where
  "into_event to_string e =
     (case to_string (te_data e) of
        Inl err \<Rightarrow> Inl err
      | Inr json \<Rightarrow>
          (let event = [EventData json];
               event = (case te_event_type e of Some name \<Rightarrow> event @ [EventName name] | None \<Rightarrow> event);
               event = (case te_id e of Some i \<Rightarrow> event @ [EventId i] | None \<Rightarrow> event);
               event = (case te_retry e of Some r \<Rightarrow> event @ [EventRetry r] | None \<Rightarrow> event)
           in Inr event))"

datatype htmx_swap = InnerHtml | OuterHtml | BeforeBegin | AfterBegin | BeforeEnd | AfterEnd | DeleteElement | NoSwap

fun htmx_swap_as_str :: "htmx_swap \<Rightarrow> string" where
  "htmx_swap_as_str InnerHtml = ''innerHTML''"
| "htmx_swap_as_str OuterHtml = ''outerHTML''"
| "htmx_swap_as_str BeforeBegin = ''beforebegin''"
| "htmx_swap_as_str AfterBegin = ''afterbegin''"
| "htmx_swap_as_str BeforeEnd = ''beforeend''"
| "htmx_swap_as_str AfterEnd = ''afterend''"
| "htmx_swap_as_str DeleteElement = ''delete''"
| "htmx_swap_as_str NoSwap = ''none''"

definition htmx_event :: "string \<Rightarrow> string \<Rightarrow> sse_event" where
  "htmx_event name html = [EventName name, EventData html]"

definition htmx_json_event :: "('a \<Rightarrow> string + string) \<Rightarrow> string \<Rightarrow> 'a \<Rightarrow> string + sse_event" where
  "htmx_json_event to_string name data =
     (case to_string data of Inl e \<Rightarrow> Inl e | Inr s \<Rightarrow> Inr [EventName name, EventData s])"

definition htmx_close_event :: sse_event where
  "htmx_close_event = [EventName ''htmx:closeSSE'', EventData []]"

definition htmx_trigger :: "string \<Rightarrow> sse_event" where
  "htmx_trigger name = [EventName ''htmx:trigger'', EventData name]"

definition htmx_oob_event :: "string \<Rightarrow> string \<Rightarrow> sse_event" where
  "htmx_oob_event name html = [EventName name, EventData html]"

subsection \<open>Configuration\<close>

text \<open>Durations are in milliseconds.\<close>

record sse_config =
  ss_keep_alive_interval_secs :: u64
  ss_keep_alive_text :: "string option"
  ss_default_retry_ms :: u64
  ss_max_connections_per_client :: u64
  ss_connection_timeout_secs :: u64

definition default_sse_config :: sse_config where
  "default_sse_config =
     \<lparr>ss_keep_alive_interval_secs = 15, ss_keep_alive_text = None, ss_default_retry_ms = 3000,
      ss_max_connections_per_client = 10, ss_connection_timeout_secs = 0\<rparr>"

definition sse_keep_alive_interval :: "sse_config \<Rightarrow> nat" where
  "sse_keep_alive_interval config = 1000 * unat (ss_keep_alive_interval_secs config)"

definition sse_default_retry :: "sse_config \<Rightarrow> nat" where
  "sse_default_retry config = unat (ss_default_retry_ms config)"

definition sse_connection_timeout :: "sse_config \<Rightarrow> nat option" where
  "sse_connection_timeout config =
     (if ss_connection_timeout_secs config = 0 then None else Some (1000 * unat (ss_connection_timeout_secs config)))"

subsection \<open>The broadcaster\<close>

text \<open>\<open>bc_new\<close> is \<^verbatim>\<open>broadcast::channel\<close>, None where it panics: the sender and the number of its first receiver.\<close>

record 'c channel_ops =
  bc_new :: "nat \<Rightarrow> ('c \<times> nat) option"
  bc_subscribe :: "'c \<Rightarrow> nat \<times> 'c"
  bc_send :: "broadcast_message \<Rightarrow> 'c \<Rightarrow> (broadcast_message + nat) \<times> 'c"
  bc_drop :: "nat \<Rightarrow> 'c \<Rightarrow> 'c"

record 'c sse_broadcaster =
  sb_sender :: 'c
  sb_channels :: "(string \<times> 'c) list"
  sb_connections :: "(uuid \<times> string list) list"
  sb_capacity :: nat

definition sse_with_capacity :: "'c channel_ops \<Rightarrow> nat \<Rightarrow> 'c sse_broadcaster option" where
  "sse_with_capacity ops capacity =
     (case bc_new ops capacity of
        None \<Rightarrow> None
      | Some (sender, r) \<Rightarrow>
          Some \<lparr>sb_sender = bc_drop ops r sender, sb_channels = [], sb_connections = [], sb_capacity = capacity\<rparr>)"

definition sse_new :: "'c channel_ops \<Rightarrow> 'c sse_broadcaster option" where
  "sse_new ops = sse_with_capacity ops 256"

definition sse_subscribe :: "'c channel_ops \<Rightarrow> 'c sse_broadcaster \<Rightarrow> nat \<times> 'c sse_broadcaster" where
  "sse_subscribe ops s = (case bc_subscribe ops (sb_sender s) of (r, c) \<Rightarrow> (r, s\<lparr>sb_sender := c\<rparr>))"

definition subscribe_channel :: "'c channel_ops \<Rightarrow> string \<Rightarrow> 'c sse_broadcaster \<Rightarrow> (nat \<times> 'c sse_broadcaster) option" where
  "subscribe_channel ops channel s =
     (case map_of (sb_channels s) channel of
        Some c \<Rightarrow> (case bc_subscribe ops c of (r, c') \<Rightarrow> Some (r, s\<lparr>sb_channels := AList.update channel c' (sb_channels s)\<rparr>))
      | None \<Rightarrow>
          (case bc_new ops (sb_capacity s) of
             None \<Rightarrow> None
           | Some (c, r) \<Rightarrow> Some (r, s\<lparr>sb_channels := AList.update channel c (sb_channels s)\<rparr>)))"

definition sse_register :: "uuid \<Rightarrow> 'c sse_broadcaster \<Rightarrow> 'c sse_broadcaster" where
  "sse_register i s = s\<lparr>sb_connections := AList.update i [] (sb_connections s)\<rparr>"

definition register_with_channels :: "uuid \<Rightarrow> string list \<Rightarrow> 'c sse_broadcaster \<Rightarrow> 'c sse_broadcaster" where
  "register_with_channels i channels s = s\<lparr>sb_connections := AList.update i channels (sb_connections s)\<rparr>"

definition sse_unregister :: "uuid \<Rightarrow> 'c sse_broadcaster \<Rightarrow> 'c sse_broadcaster" where
  "sse_unregister i s = s\<lparr>sb_connections := AList.delete i (sb_connections s)\<rparr>"

definition sse_broadcast ::
  "'c channel_ops \<Rightarrow> broadcast_message \<Rightarrow> 'c sse_broadcaster \<Rightarrow> (broadcast_message + nat) \<times> 'c sse_broadcaster" where
  "sse_broadcast ops message s = (case bc_send ops message (sb_sender s) of (r, c) \<Rightarrow> (r, s\<lparr>sb_sender := c\<rparr>))"

definition broadcast_to_channel ::
  "'c channel_ops \<Rightarrow> string \<Rightarrow> broadcast_message \<Rightarrow> 'c sse_broadcaster \<Rightarrow> (broadcast_message + nat) \<times> 'c sse_broadcaster" where
  "broadcast_to_channel ops channel message s =
     (case map_of (sb_channels s) channel of
        Some c \<Rightarrow> (case bc_send ops message c of (r, c') \<Rightarrow> (r, s\<lparr>sb_channels := AList.update channel c' (sb_channels s)\<rparr>))
      | None \<Rightarrow> (Inr 0, s))"

definition sse_connection_count :: "'c sse_broadcaster \<Rightarrow> nat" where
  "sse_connection_count s = length (sb_connections s)"

definition channel_count :: "'c sse_broadcaster \<Rightarrow> nat" where
  "channel_count s = length (sb_channels s)"

definition has_channel :: "string \<Rightarrow> 'c sse_broadcaster \<Rightarrow> bool" where
  "has_channel channel s \<longleftrightarrow> map_of (sb_channels s) channel \<noteq> None"

definition connection_channels :: "uuid \<Rightarrow> 'c sse_broadcaster \<Rightarrow> string list option" where
  "connection_channels i s = map_of (sb_connections s) i"

subsection \<open>The interface of a channel\<close>

text \<open>\<open>receivers\<close> are the receivers that are alive, \<open>inbox\<close> what was sent to one since it subscribed.\<close>

locale broadcast_channel =
  fixes ops :: "'c channel_ops" and receivers :: "'c \<Rightarrow> nat set" and inbox :: "'c \<Rightarrow> nat \<Rightarrow> broadcast_message list"
  assumes new_empty: "bc_new ops n = Some (c, r) \<Longrightarrow> receivers c = {r} \<and> inbox c r = []"
    and finite_receivers: "finite (receivers c)"
    and subscribe_fresh: "bc_subscribe ops c = (r, c') \<Longrightarrow>
      r \<notin> receivers c \<and> receivers c' = insert r (receivers c) \<and> inbox c' r = [] \<and> (\<forall>q \<in> receivers c. inbox c' q = inbox c q)"
    and send_none: "receivers c = {} \<Longrightarrow> bc_send ops m c = (Inl m, c)"
    and send_all: "receivers c \<noteq> {} \<Longrightarrow> \<exists>c'. bc_send ops m c = (Inr (card (receivers c)), c') \<and>
      receivers c' = receivers c \<and> (\<forall>q \<in> receivers c. inbox c' q = inbox c q @ [m])"
    and drop_one: "receivers (bc_drop ops r c) = receivers c - {r} \<and> (\<forall>q \<in> receivers c - {r}. inbox (bc_drop ops r c) q = inbox c q)"

text \<open>A topic is the global channel or a named one. What tasks do with a broadcaster, one operation after another.\<close>

datatype topic = Global | Topic string

datatype sse_op =
  Subscribe topic
| Hangup topic nat
| Publish topic broadcast_message
| Register uuid "string list"
| Unregister uuid

definition topic_channel :: "topic \<Rightarrow> 'c sse_broadcaster \<Rightarrow> 'c option" where
  "topic_channel tp s = (case tp of Global \<Rightarrow> Some (sb_sender s) | Topic ch \<Rightarrow> map_of (sb_channels s) ch)"

definition subscribe_topic :: "'c channel_ops \<Rightarrow> topic \<Rightarrow> 'c sse_broadcaster \<Rightarrow> (nat \<times> 'c sse_broadcaster) option" where
  "subscribe_topic ops tp s = (case tp of Global \<Rightarrow> Some (sse_subscribe ops s) | Topic ch \<Rightarrow> subscribe_channel ops ch s)"

text \<open>A subscription whose channel cannot be made panics; the broadcaster stays as it was.\<close>

fun sse_step :: "'c channel_ops \<Rightarrow> sse_op \<Rightarrow> 'c sse_broadcaster \<Rightarrow> 'c sse_broadcaster" where
  "sse_step ops (Subscribe Global) s = snd (sse_subscribe ops s)"
| "sse_step ops (Subscribe (Topic ch)) s = (case subscribe_channel ops ch s of Some (r, s') \<Rightarrow> s' | None \<Rightarrow> s)"
| "sse_step ops (Hangup Global r) s = s\<lparr>sb_sender := bc_drop ops r (sb_sender s)\<rparr>"
| "sse_step ops (Hangup (Topic ch) r) s =
     (case map_of (sb_channels s) ch of
        Some c \<Rightarrow> s\<lparr>sb_channels := AList.update ch (bc_drop ops r c) (sb_channels s)\<rparr>
      | None \<Rightarrow> s)"
| "sse_step ops (Publish Global m) s = snd (sse_broadcast ops m s)"
| "sse_step ops (Publish (Topic ch) m) s = snd (broadcast_to_channel ops ch m s)"
| "sse_step ops (Register i chs) s = register_with_channels i chs s"
| "sse_step ops (Unregister i) s = sse_unregister i s"

definition sse_steps :: "'c channel_ops \<Rightarrow> sse_op list \<Rightarrow> 'c sse_broadcaster \<Rightarrow> 'c sse_broadcaster" where
  "sse_steps ops os s = fold (sse_step ops) os s"

definition published :: "topic \<Rightarrow> sse_op list \<Rightarrow> broadcast_message list" where
  "published tp os = concat (map (\<lambda>op. case op of Publish tp' m \<Rightarrow> if tp' = tp then [m] else [] | _ \<Rightarrow> []) os)"

text \<open>An operation works on the channel of its topic and on no other.\<close>

fun op_topic :: "sse_op \<Rightarrow> topic option" where
  "op_topic (Subscribe tp) = Some tp"
| "op_topic (Hangup tp r) = Some tp"
| "op_topic (Publish tp m) = Some tp"
| "op_topic _ = None"

lemmas sse_defs = subscribe_topic_def topic_channel_def sse_subscribe_def subscribe_channel_def sse_broadcast_def broadcast_to_channel_def
  register_with_channels_def sse_unregister_def

lemma step_other_topic:
  assumes "op_topic op \<noteq> Some tp"
  shows "topic_channel tp (sse_step ops op s) = topic_channel tp s"
proof (cases op)
  case (Subscribe tp')
  with assms show ?thesis by (cases tp; cases tp') (auto simp: sse_defs update_conv' split: option.splits prod.splits)
next
  case (Hangup tp' r)
  with assms show ?thesis by (cases tp; cases tp') (auto simp: sse_defs update_conv' split: option.splits)
next
  case (Publish tp' m)
  with assms show ?thesis by (cases tp; cases tp') (auto simp: sse_defs update_conv' split: option.splits prod.splits)
qed (auto simp: sse_defs split: topic.splits)

lemma step_own_topic:
  assumes "topic_channel tp s = Some c"
  shows "topic_channel tp (sse_step ops (Subscribe tp) s) = Some (snd (bc_subscribe ops c))"
    and "topic_channel tp (sse_step ops (Hangup tp r) s) = Some (bc_drop ops r c)"
    and "topic_channel tp (sse_step ops (Publish tp m) s) = Some (snd (bc_send ops m c))"
  using assms by (cases tp; auto simp: sse_defs update_conv' split: option.splits prod.splits)+

context broadcast_channel
begin

lemma step_channel:
  assumes "topic_channel tp s = Some c" and "r \<in> receivers c" and "op \<noteq> Hangup tp r"
  shows "\<exists>c'. topic_channel tp (sse_step ops op s) = Some c' \<and> r \<in> receivers c' \<and> inbox c' r = inbox c r @ published tp [op]"
proof (cases "op_topic op = Some tp")
  case False
  then have "published tp [op] = []" by (cases op) (auto simp: published_def)
  with False assms(1,2) show ?thesis by (simp add: step_other_topic)
next
  case True
  then consider "op = Subscribe tp" | q where "op = Hangup tp q" | m where "op = Publish tp m" by (cases op) auto
  then show ?thesis
  proof cases
    case 1
    with subscribe_fresh [of c "fst (bc_subscribe ops c)" "snd (bc_subscribe ops c)"] assms(1,2) show ?thesis
      by (simp add: step_own_topic published_def)
  next
    case (2 q)
    with drop_one [of q c] assms show ?thesis by (simp add: step_own_topic published_def)
  next
    case (3 m)
    with send_all [of c m] assms(1,2) show ?thesis by (force simp: step_own_topic published_def)
  qed
qed

lemma steps_channel:
  assumes "topic_channel tp s = Some c" and "r \<in> receivers c" and "Hangup tp r \<notin> set os"
  shows "\<exists>c'. topic_channel tp (sse_steps ops os s) = Some c' \<and> r \<in> receivers c' \<and> inbox c' r = inbox c r @ published tp os"
  using assms
proof (induction os arbitrary: s c)
  case Nil then show ?case by (simp add: sse_steps_def published_def)
next
  case (Cons op os)
  from Cons.prems have "op \<noteq> Hangup tp r" by auto
  from step_channel [OF Cons.prems(1,2) this] obtain c1 where c1: "topic_channel tp (sse_step ops op s) = Some c1"
    "r \<in> receivers c1" "inbox c1 r = inbox c r @ published tp [op]" by blast
  from Cons.IH [OF c1(1,2)] Cons.prems(3) c1(3) show ?case by (auto simp: sse_steps_def published_def)
qed

text \<open>A new subscription is alive and its inbox empty.\<close>

lemma subscribed_channel:
  assumes "subscribe_topic ops tp s = Some (r, s')"
  shows "\<exists>c. topic_channel tp s' = Some c \<and> r \<in> receivers c \<and> inbox c r = []"
proof (cases tp)
  case Global
  with assms subscribe_fresh [of "sb_sender s"] show ?thesis by (auto simp: sse_defs split: prod.splits)
next
  case (Topic ch)
  with assms subscribe_fresh new_empty show ?thesis
    by (fastforce simp: sse_defs update_conv' split: prod.splits option.splits)
qed

end

subsection \<open>A channel\<close>

text \<open>The number of the next receiver, and the receivers that are alive with what was sent to them.\<close>

type_synonym message_channel = "nat \<times> (nat \<times> broadcast_message list) list"

definition channel_receivers :: "message_channel \<Rightarrow> nat set" where
  "channel_receivers c = {q \<in> set (map fst (snd c)). q < fst c}"

definition channel_inbox :: "message_channel \<Rightarrow> nat \<Rightarrow> broadcast_message list" where
  "channel_inbox c r = (case map_of (snd c) r of Some ms \<Rightarrow> ms | None \<Rightarrow> [])"

definition message_ops :: "message_channel channel_ops" where
  "message_ops =
     \<lparr>bc_new = (\<lambda>n. if n = 0 then None else Some ((1, [(0, [])]), 0)),
      bc_subscribe = (\<lambda>(n, rs). (n, (Suc n, (n, []) # rs))),
      bc_send = (\<lambda>m (n, rs). if channel_receivers (n, rs) = {} then (Inl m, (n, rs))
        else (Inr (card (channel_receivers (n, rs))), (n, map (\<lambda>(q, ms). (q, ms @ [m])) rs))),
      bc_drop = (\<lambda>r (n, rs). (n, filter (\<lambda>(q, ms). q \<noteq> r) rs))\<rparr>"

lemma map_of_send: "map_of (map (\<lambda>(q, ms). (q, ms @ [m])) rs) r = map_option (\<lambda>ms. ms @ [m]) (map_of rs r)"
  by (induction rs) auto

lemma map_of_hangup: "q \<noteq> r \<Longrightarrow> map_of (filter (\<lambda>(q, ms). q \<noteq> r) rs) q = map_of rs q"
  by (induction rs) auto

lemma receivers_send: "channel_receivers (n, map (\<lambda>(q, ms). (q, ms @ [m])) rs) = channel_receivers (n, rs)"
  by (force simp: channel_receivers_def)

interpretation message_channel: broadcast_channel message_ops channel_receivers channel_inbox
proof (unfold_locales, goal_cases)
  case (5 c m)
  have "\<exists>ms. map_of (snd c) q = Some ms" if "q \<in> channel_receivers c" for q
    using that by (cases "map_of (snd c) q") (auto simp: channel_receivers_def map_of_eq_None_iff)
  then have inbox: "\<forall>q \<in> channel_receivers c. channel_inbox (fst c, map (\<lambda>(q, ms). (q, ms @ [m])) (snd c)) q = channel_inbox c q @ [m]"
    by (fastforce simp: channel_inbox_def map_of_send)
  with 5 show ?case by (cases c) (auto simp: message_ops_def receivers_send)
next
  case (6 r c)
  then show ?case by (cases c) (force simp: message_ops_def channel_receivers_def channel_inbox_def map_of_hangup)
qed (auto simp: message_ops_def channel_receivers_def channel_inbox_def split: if_splits)

subsection \<open>Properties\<close>

text \<open>
  Delivery. Whatever happens to a broadcaster after a task has subscribed to a topic, up to the end of that receiver, the
  receiver is given exactly the messages that are published to its topic, in their order: none of another topic, none
  from before, none twice. Registered connections and the channels they name play no part in it.
\<close>

theorem sse_delivery:
  assumes "broadcast_channel ops receivers inbox" and "subscribe_topic ops tp s = Some (r, s')" and "Hangup tp r \<notin> set os"
  shows "\<exists>c. topic_channel tp (sse_steps ops os s') = Some c \<and> r \<in> receivers c \<and> inbox c r = published tp os"
proof -
  obtain c where c: "topic_channel tp s' = Some c" "r \<in> receivers c" "inbox c r = []"
    using broadcast_channel.subscribed_channel [OF assms(1,2)] by blast
  from broadcast_channel.steps_channel [OF assms(1) c(1,2) assms(3)] c(3) show ?thesis by simp
qed

theorem sse_delivery_witness:
  "\<exists>r s'. subscribe_topic message_ops (Topic ''news'') \<lparr>sb_sender = (0, []), sb_channels = [], sb_connections = [], sb_capacity = 4\<rparr> = Some (r, s') \<and>
     (\<exists>c. topic_channel (Topic ''news'') (sse_steps message_ops
        [Publish Global (message_new ''a''), Register [] [''news''], Publish (Topic ''news'') (message_new ''b''), Hangup Global 0] s') = Some c \<and>
      r \<in> channel_receivers c \<and> channel_inbox c r = [message_new ''b''])"
proof -
  let ?s = "\<lparr>sb_sender = (0, []), sb_channels = [], sb_connections = [], sb_capacity = 4\<rparr> :: message_channel sse_broadcaster"
  obtain r s' where sub: "subscribe_topic message_ops (Topic ''news'') ?s = Some (r, s')"
    by (simp add: subscribe_topic_def subscribe_channel_def message_ops_def)
  from sse_delivery [OF message_channel.broadcast_channel_axioms sub, of "[Publish Global (message_new ''a''),
      Register [] [''news''], Publish (Topic ''news'') (message_new ''b''), Hangup Global 0]"] sub
  show ?thesis by (simp add: published_def)
qed

text \<open>
  A channel is never removed: once a task has subscribed to a named channel, the broadcaster keeps it, whoever leaves. Publishing
  to a channel that everyone has left is then an error, while publishing to a channel that never existed reaches 0 receivers.
\<close>

theorem channels_stay:
  assumes "has_channel ch s"
  shows "has_channel ch (sse_steps ops os s)"
proof -
  have "has_channel ch (sse_step ops op s)" if "has_channel ch s" for op s
  proof (cases "op_topic op = Some (Topic ch)")
    case False
    with step_other_topic [OF this, of ops s] that show ?thesis by (simp add: has_channel_def topic_channel_def)
  next
    case True
    then consider "op = Subscribe (Topic ch)" | q where "op = Hangup (Topic ch) q" | m where "op = Publish (Topic ch) m" by (cases op) auto
    then show ?thesis using that step_own_topic [of "Topic ch" s] by cases (auto simp: has_channel_def topic_channel_def)
  qed
  with assms show ?thesis unfolding sse_steps_def by (induction os arbitrary: s) simp_all
qed

theorem left_channel_refuses:
  assumes "broadcast_channel ops receivers inbox" and "map_of (sb_channels s) ch = Some c" and "receivers c = {}"
  shows "fst (broadcast_to_channel ops ch m s) = Inl m"
  using broadcast_channel.send_none [OF assms(1,3)] assms(2) by (simp add: broadcast_to_channel_def)

theorem unknown_channel_accepts: "\<not> has_channel ch s \<Longrightarrow> broadcast_to_channel ops ch m s = (Inr 0, s)"
  by (simp add: has_channel_def broadcast_to_channel_def)

text \<open>The data of a typed event comes first, and each optional part is set at most once.\<close>

theorem into_event_parts:
  "into_event to_string e = Inr evs \<Longrightarrow>
     \<exists>json. to_string (te_data e) = Inr json \<and> evs = EventData json # map EventName (case te_event_type e of Some n \<Rightarrow> [n] | None \<Rightarrow> [])
       @ map EventId (case te_id e of Some i \<Rightarrow> [i] | None \<Rightarrow> []) @ map EventRetry (case te_retry e of Some t \<Rightarrow> [t] | None \<Rightarrow> [])"
  by (auto simp: into_event_def Let_def split: sum.splits option.splits)

end
