(* ===== verification/Pagination.thy ===== *)
theory Pagination
  imports Request "HOL-Library.AList"
begin

text \<open>
  Lists of results in pages: the query parameters (\<^verbatim>\<open>src/acton-service/src/handlers/query.rs\<close>), the paging data and
  envelopes of responses (\<^verbatim>\<open>handlers/response.rs\<close>), offsets and filters of the repository layer
  (\<^verbatim>\<open>repository/pagination.rs\<close>) and the responses with fixed statuses (\<^verbatim>\<open>responses.rs\<close>). Integers have the width of the
  source and products wrap, as in a release build. How axum turns a status and a value (or the error of its
  serialization) into a response is the argument \<open>respond\<close>.
\<close>

subsection \<open>Query parameters\<close>

definition DEFAULT_PER_PAGE :: u32 where "DEFAULT_PER_PAGE = 20"

definition MAX_PER_PAGE :: u32 where "MAX_PER_PAGE = 100"

datatype sort_order = Asc | Desc

definition sort_order_display :: "sort_order \<Rightarrow> string" where
  "sort_order_display s = (case s of Asc \<Rightarrow> ''asc'' | Desc \<Rightarrow> ''desc'')"

definition as_sql :: "sort_order \<Rightarrow> string" where
  "as_sql s = (case s of Asc \<Rightarrow> ''ASC'' | Desc \<Rightarrow> ''DESC'')"

record list_query =
  lq_page :: "u32 option"
  lq_per_page :: "u32 option"
  lq_sort :: "string option"
  lq_order :: "sort_order option"
  lq_search :: "string option"
  lq_filter :: "string list"

definition list_query_new :: list_query where
  "list_query_new =
     \<lparr>lq_page = None, lq_per_page = None, lq_sort = None, lq_order = None, lq_search = None, lq_filter = []\<rparr>"

definition with_page :: "u32 \<Rightarrow> list_query \<Rightarrow> list_query" where "with_page p q = q\<lparr>lq_page := Some p\<rparr>"

definition with_per_page :: "u32 \<Rightarrow> list_query \<Rightarrow> list_query" where "with_per_page n q = q\<lparr>lq_per_page := Some n\<rparr>"

definition with_sort :: "string \<Rightarrow> list_query \<Rightarrow> list_query" where "with_sort s q = q\<lparr>lq_sort := Some s\<rparr>"

definition with_order :: "sort_order \<Rightarrow> list_query \<Rightarrow> list_query" where "with_order s q = q\<lparr>lq_order := Some s\<rparr>"

definition with_search :: "string \<Rightarrow> list_query \<Rightarrow> list_query" where "with_search s q = q\<lparr>lq_search := Some s\<rparr>"

definition with_filter :: "string \<Rightarrow> list_query \<Rightarrow> list_query" where "with_filter f q = q\<lparr>lq_filter := lq_filter q @ [f]\<rparr>"

definition with_filters :: "string list \<Rightarrow> list_query \<Rightarrow> list_query" where "with_filters fs q = q\<lparr>lq_filter := fs\<rparr>"

definition page_number :: "list_query \<Rightarrow> u32" where
  "page_number q = max (case lq_page q of Some p \<Rightarrow> p | None \<Rightarrow> 1) 1"

definition items_per_page :: "list_query \<Rightarrow> u32" where
  "items_per_page q = min MAX_PER_PAGE (max 1 (case lq_per_page q of Some n \<Rightarrow> n | None \<Rightarrow> DEFAULT_PER_PAGE))"

definition saturating_sub :: "'a::len word \<Rightarrow> 'a word \<Rightarrow> 'a word" where
  "saturating_sub a b = (if a < b then 0 else a - b)"

definition saturating_add :: "'a::len word \<Rightarrow> 'a word \<Rightarrow> 'a word" where
  "saturating_add a b = (if unat a + unat b < 2 ^ LENGTH('a) then a + b else - 1)"

definition query_offset :: "list_query \<Rightarrow> u64" where
  "query_offset q = ucast (saturating_sub (page_number q) 1) * ucast (items_per_page q)"

definition query_sort_order :: "list_query \<Rightarrow> sort_order" where
  "query_sort_order q = (case lq_order q of Some s \<Rightarrow> s | None \<Rightarrow> Asc)"

definition has_search :: "list_query \<Rightarrow> bool" where
  "has_search q \<longleftrightarrow> (case lq_search q of Some s \<Rightarrow> s \<noteq> [] | None \<Rightarrow> False)"

definition has_filters :: "list_query \<Rightarrow> bool" where
  "has_filters q \<longleftrightarrow> lq_filter q \<noteq> []"

definition has_sort :: "list_query \<Rightarrow> bool" where
  "has_sort q \<longleftrightarrow> (case lq_sort q of Some s \<Rightarrow> s \<noteq> [] | None \<Rightarrow> False)"

subsection \<open>Paging data and envelopes\<close>

record response_meta =
  mt_request_id :: "string option"
  mt_processing_time_ms :: "u64 option"

definition meta_is_empty :: "response_meta \<Rightarrow> bool" where
  "meta_is_empty m \<longleftrightarrow> mt_request_id m = None \<and> mt_processing_time_ms m = None"

record pagination_meta =
  pm_page :: u32
  pm_per_page :: u32
  pm_total :: u64
  pm_total_pages :: u32
  pm_has_next :: bool
  pm_has_prev :: bool

definition calculate_total_pages :: "u64 \<Rightarrow> u32 \<Rightarrow> u32" where
  "calculate_total_pages total_items per_page =
     (let per_page = (ucast per_page :: u64);
          pages = saturating_sub (saturating_add total_items per_page) 1 div per_page
      in ucast (min pages (ucast (- 1 :: u32))))"

definition pagination_meta_new :: "u32 \<Rightarrow> u32 \<Rightarrow> u64 \<Rightarrow> pagination_meta" where
  "pagination_meta_new page per_page total_items =
     (let per_page = (if per_page = 0 then 1 else per_page);
          total_pages = calculate_total_pages total_items per_page
      in \<lparr>pm_page = page, pm_per_page = per_page, pm_total = total_items, pm_total_pages = total_pages,
          pm_has_next = page < total_pages, pm_has_prev = 1 < page\<rparr>)"

definition pagination_meta_empty :: "u32 \<Rightarrow> pagination_meta" where
  "pagination_meta_empty per_page = pagination_meta_new 1 per_page 0"

definition meta_offset :: "pagination_meta \<Rightarrow> u64" where
  "meta_offset p = ucast (saturating_sub (pm_page p) 1) * ucast (pm_per_page p)"

record 'a item_response =
  ir_data :: 'a
  ir_meta :: "response_meta option"

definition item_response_new :: "'a \<Rightarrow> 'a item_response" where
  "item_response_new d = \<lparr>ir_data = d, ir_meta = None\<rparr>"

definition item_with_meta :: "response_meta \<Rightarrow> 'a item_response \<Rightarrow> 'a item_response" where
  "item_with_meta m r = r\<lparr>ir_meta := Some m\<rparr>"

definition item_map :: "('a \<Rightarrow> 'b) \<Rightarrow> 'a item_response \<Rightarrow> 'b item_response" where
  "item_map f r = \<lparr>ir_data = f (ir_data r), ir_meta = ir_meta r\<rparr>"

record 'a list_response =
  lr_data :: "'a list"
  lr_pagination :: pagination_meta
  lr_meta :: "response_meta option"

definition list_response_new :: "'a list \<Rightarrow> pagination_meta \<Rightarrow> 'a list_response" where
  "list_response_new d p = \<lparr>lr_data = d, lr_pagination = p, lr_meta = None\<rparr>"

definition list_response_empty :: "u32 \<Rightarrow> 'a list_response" where
  "list_response_empty per_page = \<lparr>lr_data = [], lr_pagination = pagination_meta_empty per_page, lr_meta = None\<rparr>"

definition list_with_meta :: "response_meta \<Rightarrow> 'a list_response \<Rightarrow> 'a list_response" where
  "list_with_meta m r = r\<lparr>lr_meta := Some m\<rparr>"

definition list_map :: "('a \<Rightarrow> 'b) \<Rightarrow> 'a list_response \<Rightarrow> 'b list_response" where
  "list_map f r = \<lparr>lr_data = map f (lr_data r), lr_pagination = lr_pagination r, lr_meta = lr_meta r\<rparr>"

text \<open>The JSON of the derived serialization; fields without a value are left out.\<close>

definition json_opt :: "string \<Rightarrow> ('a \<Rightarrow> json) \<Rightarrow> 'a option \<Rightarrow> (string \<times> json) list" where
  "json_opt k f v = (case v of Some x \<Rightarrow> [(k, f x)] | None \<Rightarrow> [])"

definition json_nat :: "nat \<Rightarrow> json" where
  "json_nat n = JNumber (show_nat n)"

definition response_meta_json :: "response_meta \<Rightarrow> json" where
  "response_meta_json m = JObject (json_opt ''request_id'' JString (mt_request_id m) @
     json_opt ''processing_time_ms'' (\<lambda>n. json_nat (unat n)) (mt_processing_time_ms m))"

definition pagination_meta_json :: "pagination_meta \<Rightarrow> json" where
  "pagination_meta_json p = JObject
     [(''page'', json_nat (unat (pm_page p))), (''per_page'', json_nat (unat (pm_per_page p))),
      (''total'', json_nat (unat (pm_total p))), (''total_pages'', json_nat (unat (pm_total_pages p))),
      (''has_next'', JBool (pm_has_next p)), (''has_prev'', JBool (pm_has_prev p))]"

definition all_ok :: "(string + 'a) list \<Rightarrow> string + 'a list" where
  "all_ok rs = (case filter (\<lambda>r. \<not> is_ok r) rs of Inl e # _ \<Rightarrow> Inl e | _ \<Rightarrow> Inr (map projr rs))"

definition item_into_response :: "(u16 \<Rightarrow> string + json \<Rightarrow> response) \<Rightarrow> ('a \<Rightarrow> string + json) \<Rightarrow> 'a item_response \<Rightarrow> response" where
  "item_into_response respond ser r =
     respond 200 (case ser (ir_data r) of
        Inl e \<Rightarrow> Inl e
      | Inr d \<Rightarrow> Inr (JObject ((''data'', d) # json_opt ''meta'' response_meta_json (ir_meta r))))"

definition list_into_response :: "(u16 \<Rightarrow> string + json \<Rightarrow> response) \<Rightarrow> ('a \<Rightarrow> string + json) \<Rightarrow> 'a list_response \<Rightarrow> response" where
  "list_into_response respond ser r =
     respond 200 (case all_ok (map ser (lr_data r)) of
        Inl e \<Rightarrow> Inl e
      | Inr ds \<Rightarrow> Inr (JObject ([(''data'', JArray ds), (''pagination'', pagination_meta_json (lr_pagination r))] @
          json_opt ''meta'' response_meta_json (lr_meta r))))"

subsection \<open>The repository layer\<close>

datatype order_direction = Ascending | Descending

definition order_direction_display :: "order_direction \<Rightarrow> string" where
  "order_direction_display d = (case d of Ascending \<Rightarrow> ''asc'' | Descending \<Rightarrow> ''desc'')"

record pagination =
  pg_offset :: u64
  pg_limit :: u64

definition pagination_new :: "u64 \<Rightarrow> u64 \<Rightarrow> pagination" where
  "pagination_new offset limit = \<lparr>pg_offset = offset, pg_limit = limit\<rparr>"

definition first_page :: "u64 \<Rightarrow> pagination" where
  "first_page limit = \<lparr>pg_offset = 0, pg_limit = limit\<rparr>"

definition pagination_page :: "u64 \<Rightarrow> u64 \<Rightarrow> pagination" where
  "pagination_page n page_size = \<lparr>pg_offset = saturating_sub n 1 * page_size, pg_limit = page_size\<rparr>"

definition pagination_default :: pagination where
  "pagination_default = \<lparr>pg_offset = 0, pg_limit = 20\<rparr>"

datatype filter_operator =
  Equal | NotEqual | GreaterThan | GreaterThanOrEqual | LessThan | LessThanOrEqual | Like | In | IsNull | IsNotNull

definition filter_operator_display :: "filter_operator \<Rightarrow> string" where
  "filter_operator_display f =
     (case f of
        Equal \<Rightarrow> ''='' | NotEqual \<Rightarrow> ''!='' | GreaterThan \<Rightarrow> ''>'' | GreaterThanOrEqual \<Rightarrow> ''>='' | LessThan \<Rightarrow> ''<''
      | LessThanOrEqual \<Rightarrow> ''<='' | Like \<Rightarrow> ''LIKE'' | In \<Rightarrow> ''IN'' | IsNull \<Rightarrow> ''IS NULL'' | IsNotNull \<Rightarrow> ''IS NOT NULL'')"

text \<open>Floating-point numbers are any type.\<close>

datatype 'f filter_value =
  FString string | FInteger int | FFloat 'f | FBoolean bool | FStringList "string list" | FIntegerList "int list" | FNull

record 'f filter_condition =
  fc_field :: string
  fc_operator :: filter_operator
  fc_value :: "'f filter_value"

definition filter_condition_new :: "string \<Rightarrow> filter_operator \<Rightarrow> 'f filter_value \<Rightarrow> 'f filter_condition" where
  "filter_condition_new f p v = \<lparr>fc_field = f, fc_operator = p, fc_value = v\<rparr>"

definition filter_eq :: "string \<Rightarrow> 'f filter_value \<Rightarrow> 'f filter_condition" where
  "filter_eq f v = \<lparr>fc_field = f, fc_operator = Equal, fc_value = v\<rparr>"

definition filter_ne :: "string \<Rightarrow> 'f filter_value \<Rightarrow> 'f filter_condition" where
  "filter_ne f v = \<lparr>fc_field = f, fc_operator = NotEqual, fc_value = v\<rparr>"

definition filter_gt :: "string \<Rightarrow> 'f filter_value \<Rightarrow> 'f filter_condition" where
  "filter_gt f v = \<lparr>fc_field = f, fc_operator = GreaterThan, fc_value = v\<rparr>"

definition filter_gte :: "string \<Rightarrow> 'f filter_value \<Rightarrow> 'f filter_condition" where
  "filter_gte f v = \<lparr>fc_field = f, fc_operator = GreaterThanOrEqual, fc_value = v\<rparr>"

definition filter_lt :: "string \<Rightarrow> 'f filter_value \<Rightarrow> 'f filter_condition" where
  "filter_lt f v = \<lparr>fc_field = f, fc_operator = LessThan, fc_value = v\<rparr>"

definition filter_lte :: "string \<Rightarrow> 'f filter_value \<Rightarrow> 'f filter_condition" where
  "filter_lte f v = \<lparr>fc_field = f, fc_operator = LessThanOrEqual, fc_value = v\<rparr>"

definition filter_like :: "string \<Rightarrow> string \<Rightarrow> 'f filter_condition" where
  "filter_like f pat = \<lparr>fc_field = f, fc_operator = Like, fc_value = FString pat\<rparr>"

definition filter_in_strings :: "string \<Rightarrow> string list \<Rightarrow> 'f filter_condition" where
  "filter_in_strings f vs = \<lparr>fc_field = f, fc_operator = In, fc_value = FStringList vs\<rparr>"

definition filter_in_integers :: "string \<Rightarrow> int list \<Rightarrow> 'f filter_condition" where
  "filter_in_integers f vs = \<lparr>fc_field = f, fc_operator = In, fc_value = FIntegerList vs\<rparr>"

definition filter_is_null :: "string \<Rightarrow> 'f filter_condition" where
  "filter_is_null f = \<lparr>fc_field = f, fc_operator = IsNull, fc_value = FNull\<rparr>"

definition filter_is_not_null :: "string \<Rightarrow> 'f filter_condition" where
  "filter_is_not_null f = \<lparr>fc_field = f, fc_operator = IsNotNull, fc_value = FNull\<rparr>"

subsection \<open>Responses with fixed statuses\<close>

record 'a created =
  cr_data :: 'a
  cr_location :: "string option"

definition created_new :: "'a \<Rightarrow> 'a created" where
  "created_new d = \<lparr>cr_data = d, cr_location = None\<rparr>"

definition with_location :: "string \<Rightarrow> 'a created \<Rightarrow> 'a created" where
  "with_location l r = r\<lparr>cr_location := Some l\<rparr>"

text \<open>\<open>hv\<close> is \<^verbatim>\<open>HeaderValue::from_str\<close>.\<close>

definition created_into_response ::
  "(u16 \<Rightarrow> string + json \<Rightarrow> response) \<Rightarrow> (string \<Rightarrow> string option) \<Rightarrow> ('a \<Rightarrow> string + json) \<Rightarrow> 'a created \<Rightarrow> response" where
  "created_into_response respond hv ser r =
     (let rp = respond 201 (ser (cr_data r))
      in case Option.bind (cr_location r) hv of
           Some v \<Rightarrow> rp\<lparr>rp_headers := filter (\<lambda>(k, _). k \<noteq> ''location'') (rp_headers rp) @ [(''location'', v)]\<rparr>
         | None \<Rightarrow> rp)"

record conflict =
  cf_error :: string
  cf_code :: "string option"
  cf_detail :: "string option"
  cf_status :: u16

definition conflict_new :: "string \<Rightarrow> conflict" where
  "conflict_new e = \<lparr>cf_error = e, cf_code = None, cf_detail = None, cf_status = 409\<rparr>"

definition conflict_with_code :: "string \<Rightarrow> conflict \<Rightarrow> conflict" where
  "conflict_with_code c r = r\<lparr>cf_code := Some c\<rparr>"

definition conflict_with_detail :: "string \<Rightarrow> conflict \<Rightarrow> conflict" where
  "conflict_with_detail d r = r\<lparr>cf_detail := Some d\<rparr>"

definition conflict_into_response :: "(u16 \<Rightarrow> string + json \<Rightarrow> response) \<Rightarrow> conflict \<Rightarrow> response" where
  "conflict_into_response respond r =
     respond 409 (Inr (JObject ((''error'', JString (cf_error r)) # json_opt ''code'' JString (cf_code r) @
       json_opt ''detail'' JString (cf_detail r) @ [(''status'', json_nat (unat (cf_status r)))])))"

record field_error =
  fe_field :: string
  fe_code :: string
  fe_message :: string

record validation_error =
  ve_error :: string
  ve_code :: string
  ve_status :: u16
  ve_errors :: "(string \<times> field_error list) list"

definition validation_error_new :: "string \<Rightarrow> validation_error" where
  "validation_error_new e = \<lparr>ve_error = e, ve_code = ''VALIDATION_ERROR'', ve_status = 422, ve_errors = []\<rparr>"

definition add_field_error :: "string \<Rightarrow> string \<Rightarrow> string \<Rightarrow> validation_error \<Rightarrow> validation_error" where
  "add_field_error field code message v =
     v\<lparr>ve_errors := AList.update field
        ((case map_of (ve_errors v) field of Some es \<Rightarrow> es | None \<Rightarrow> []) @ [\<lparr>fe_field = field, fe_code = code, fe_message = message\<rparr>])
        (ve_errors v)\<rparr>"

definition has_errors :: "validation_error \<Rightarrow> bool" where
  "has_errors v \<longleftrightarrow> ve_errors v \<noteq> []"

definition error_count :: "validation_error \<Rightarrow> nat" where
  "error_count v = sum_list (map (length \<circ> snd) (ve_errors v))"

definition field_error_json :: "field_error \<Rightarrow> json" where
  "field_error_json e = JObject
     [(''field'', JString (fe_field e)), (''code'', JString (fe_code e)), (''message'', JString (fe_message e))]"

definition validation_into_response :: "(u16 \<Rightarrow> string + json \<Rightarrow> response) \<Rightarrow> validation_error \<Rightarrow> response" where
  "validation_into_response respond v =
     respond 422 (Inr (JObject [(''error'', JString (ve_error v)), (''code'', JString (ve_code v)),
       (''status'', json_nat (unat (ve_status v))),
       (''errors'', JObject (map (\<lambda>(f, es). (f, JArray (map field_error_json es))) (ve_errors v)))]))"

record 'a success =
  su_data :: 'a
  su_message :: "string option"

definition success_new :: "'a \<Rightarrow> 'a success" where
  "success_new d = \<lparr>su_data = d, su_message = None\<rparr>"

definition success_into_response :: "(u16 \<Rightarrow> string + json \<Rightarrow> response) \<Rightarrow> ('a \<Rightarrow> string + json) \<Rightarrow> 'a success \<Rightarrow> response" where
  "success_into_response respond ser r =
     respond 200 (case ser (su_data r) of
        Inl e \<Rightarrow> Inl e | Inr d \<Rightarrow> Inr (JObject ((''data'', d) # json_opt ''message'' JString (su_message r))))"

record accepted =
  ap_message :: string
  ap_status_url :: "string option"
  ap_status :: u16

definition accepted_new :: accepted where
  "accepted_new = \<lparr>ap_message = ''Request accepted for processing'', ap_status_url = None, ap_status = 202\<rparr>"

definition accepted_into_response :: "(u16 \<Rightarrow> string + json \<Rightarrow> response) \<Rightarrow> accepted \<Rightarrow> response" where
  "accepted_into_response respond r =
     respond 202 (Inr (JObject ((''message'', JString (ap_message r)) # json_opt ''status_url'' JString (ap_status_url r) @
       [(''status'', json_nat (unat (ap_status r)))])))"

subsection \<open>No overflow\<close>

lemma unat_max_word: "unat (- 1 :: 'a::len word) = 2 ^ LENGTH('a) - 1"
  by transfer (simp add: mask_eq_exp_minus_1 nat_diff_distrib nat_power_eq take_bit_minus_one_eq_mask)

lemma unat_saturating_sub: "unat (saturating_sub a b) = unat a - unat b"
  by (auto simp: saturating_sub_def word_less_nat_alt unat_sub_if')

lemma unat_saturating_add:
  fixes a b :: "'a::len word"
  shows "unat (saturating_add a b) = min (unat a + unat b) (2 ^ LENGTH('a) - 1)"
proof (cases "unat a + unat b < 2 ^ LENGTH('a)")
  case True
  then show ?thesis by (simp add: saturating_add_def unat_word_ariths)
next
  case False
  then show ?thesis by (simp add: saturating_add_def unat_max_word)
qed

lemma unat_word_min: "unat (min a b) = min (unat a) (unat b)"
  by (simp add: min_def word_le_nat_alt)

lemma unat_ucast_32_64: "unat (ucast (x :: u32) :: u64) = unat x"
  by transfer (simp add: take_bit_nat_eq_self_iff)

lemma unat_less_32: "unat (x :: u32) < 2 ^ 32"
proof -
  have "unat x < 2 ^ LENGTH(32)" by (rule unsigned_less)
  then show ?thesis by simp
qed

lemma unat_mult_no_wrap:
  fixes a b :: u32
  shows "unat (ucast a * ucast b :: u64) = unat a * unat b"
proof -
  have "unat a * unat b < 2 ^ 32 * 2 ^ 32"
    by (rule mult_strict_mono) (use unat_less_32 [of a] unat_less_32 [of b] in simp_all)
  then show ?thesis by (simp add: unat_word_ariths unat_ucast_32_64)
qed

text \<open>Saturation of the sum is harmless: where it happens the result is the largest number of pages anyway.\<close>

lemma total_pages_exact:
  assumes "per_page \<noteq> 0"
  shows "unat (calculate_total_pages t per_page) = min ((unat t + unat per_page - 1) div unat per_page) (2 ^ 32 - 1)"
proof -
  let ?p = "unat per_page"
  have p: "0 < ?p" "?p \<le> 2 ^ 32 - 1" using assms unat_less_32 [of per_page] by (simp_all add: unat_gt_0)
  have sat: "min ((min (unat t + ?p) (2 ^ 64 - 1) - 1) div ?p) (2 ^ 32 - 1) = min ((unat t + ?p - 1) div ?p) (2 ^ 32 - 1)"
  proof (cases "unat t + ?p \<le> 2 ^ 64 - 1")
    case False
    have big: "(2 ^ 32 - 1 :: nat) \<le> n div ?p" if "2 ^ 64 - 2 \<le> n" for n
    proof -
      have "(2 ^ 32 - 1) * ?p \<le> (2 ^ 32 - 1) * (2 ^ 32 - 1)" using p(2) by (intro mult_le_mono) auto
      also have "\<dots> \<le> n" using that by simp
      finally show ?thesis using p(1) by (simp add: less_eq_div_iff_mult_less_eq)
    qed
    have "2 ^ 32 - 1 \<le> (min (unat t + ?p) (2 ^ 64 - 1) - 1) div ?p" "2 ^ 32 - 1 \<le> (unat t + ?p - 1) div ?p"
      using False by (intro big; simp)+
    then show ?thesis by linarith
  qed simp
  have "unat (ucast (min x (ucast (- 1 :: u32))) :: u32) = min (unat x) (2 ^ 32 - 1)" for x :: u64
    by (simp add: unsigned_ucast_eq unat_word_min unat_ucast_32_64 unat_max_word take_bit_nat_eq_self_iff)
  then show ?thesis using sat
    by (simp add: calculate_total_pages_def Let_def unat_div unat_saturating_sub unat_saturating_add unat_ucast_32_64)
qed

lemma meta_offset_exact: "unat (meta_offset (pagination_meta_new page per_page t)) =
    (unat page - 1) * unat (pm_per_page (pagination_meta_new page per_page t))"
  by (simp add: meta_offset_def unat_mult_no_wrap unat_saturating_sub pagination_meta_new_def Let_def)

text \<open>The page of a query starts where the pages before it end, for every query a client can send.\<close>

theorem query_offset_exact:
  "unat (query_offset q) = (unat (page_number q) - 1) * unat (items_per_page q) \<and>
   1 \<le> unat (page_number q) \<and> 1 \<le> unat (items_per_page q) \<and> unat (items_per_page q) \<le> 100"
proof -
  have "1 \<le> unat (page_number q)" by (auto simp: page_number_def max_def word_le_nat_alt)
  moreover have "1 \<le> unat (items_per_page q)" "unat (items_per_page q) \<le> 100"
    by (auto simp: items_per_page_def MAX_PER_PAGE_def DEFAULT_PER_PAGE_def min_def max_def word_le_nat_alt split: option.splits)
  ultimately show ?thesis by (simp add: query_offset_def unat_mult_no_wrap unat_saturating_sub)
qed

subsection \<open>Pages cover the list\<close>

lemma slices_cover: "concat (map (\<lambda>i. take k (drop (i * k) xs)) [0..<n]) = take (n * k) xs"
  by (induction n) (simp_all add: take_add add.commute [of k])

text \<open>
  C38: The paging data of the responses describes the list. Read one after the other from the first to the last page
  it announces, the slices at its offsets give every item once and in order, and it announces a next page exactly when
  there are items after the page. The numbers do not overflow; the list may have up to 2^32-1 pages.
\<close>

theorem pages_cover_items:
  fixes items :: "'a list"
  assumes total: "unat n = length items" and clamp: "length items \<le> (2 ^ 32 - 1) * max 1 (unat per_page)"
  shows "concat (map (\<lambda>p. let m = pagination_meta_new p per_page n
            in take (unat (pm_per_page m)) (drop (unat (meta_offset m)) items))
          (map word_of_nat [1..<Suc (unat (pm_total_pages (pagination_meta_new 1 per_page n)))])) = items
     \<and> (\<forall>p. pm_has_next (pagination_meta_new p per_page n) =
           (drop (unat p * unat (pm_per_page (pagination_meta_new p per_page n))) items \<noteq> []))" (is "?cover \<and> ?more")
proof -
  define k where "k = (if per_page = 0 then 1 else per_page)"
  have k: "0 < unat k" "unat k = max 1 (unat per_page)" by (auto simp: k_def unat_gt_0 unat_eq_0 max_def) (simp add: Suc_leI unat_gt_0)
  define N where "N = (length items + unat k - 1) div unat k"
  have N: "N \<le> 2 ^ 32 - 1"
  proof -
    have "length items + unat k - 1 < 2 ^ 32 * unat k" using clamp k by (simp add: algebra_simps)
    then have "N < 2 ^ 32" unfolding N_def using k(1) by (simp add: div_less_iff_less_mult)
    then show ?thesis by simp
  qed
  have meta: "pm_per_page (pagination_meta_new p per_page n) = k"
    "unat (pm_total_pages (pagination_meta_new p per_page n)) = N" for p
    using N k total_pages_exact [of k n] total by (auto simp: pagination_meta_new_def k_def N_def Let_def)
  have enough: "length items \<le> N * unat k"
  proof -
    have "length items + unat k - 1 < Suc N * unat k"
      unfolding N_def using k(1) by (metis dividend_less_div_times mult.commute mult_Suc_right)
    then show ?thesis using k(1) by simp
  qed
  have offs: "unat (meta_offset (pagination_meta_new (word_of_nat i) per_page n)) = (i - 1) * unat k" if "i \<le> N" for i
  proof -
    have "unat (word_of_nat i :: u32) = i" using that N by (simp add: unat_of_nat take_bit_nat_eq_self_iff)
    then show ?thesis by (simp add: meta_offset_exact meta)
  qed
  have "map (\<lambda>p. let m = pagination_meta_new p per_page n in take (unat (pm_per_page m)) (drop (unat (meta_offset m)) items))
      (map word_of_nat [1..<Suc N]) = map (\<lambda>i. take (unat k) (drop (i * unat k) items)) [0..<N]"
    by (rule nth_equalityI) (simp_all add: Let_def meta offs [of "Suc _", simplified] del: upt_Suc)
  then have "concat (map (\<lambda>p. let m = pagination_meta_new p per_page n in take (unat (pm_per_page m)) (drop (unat (meta_offset m)) items))
      (map word_of_nat [1..<Suc N])) = take (N * unat k) items" by (simp only: slices_cover)
  with enough meta(2) [of 1] have ?cover by simp
  moreover have ?more
  proof
    fix p :: u32
    have "pm_has_next (pagination_meta_new p per_page n) \<longleftrightarrow> unat p < N"
      using meta(2) [of p] by (simp add: pagination_meta_new_def Let_def word_less_nat_alt)
    also have "\<dots> \<longleftrightarrow> unat p * unat k < length items"
    proof
      assume "unat p < N"
      then have "Suc (unat p) * unat k \<le> length items + unat k - 1"
        unfolding N_def using k(1) by (simp add: less_eq_div_iff_mult_less_eq Suc_le_eq [symmetric])
      then show "unat p * unat k < length items" using k(1) by simp
    next
      assume "unat p * unat k < length items"
      then have "unat p * unat k < N * unat k" using enough by linarith
      then show "unat p < N" by simp
    qed
    finally show "pm_has_next (pagination_meta_new p per_page n) =
        (drop (unat p * unat (pm_per_page (pagination_meta_new p per_page n))) items \<noteq> [])"
      by (simp add: meta not_le)
  qed
  ultimately show ?thesis ..
qed

theorem pages_cover_items_witness:
  "concat (map (\<lambda>p. let m = pagination_meta_new p 2 5 in take (unat (pm_per_page m)) (drop (unat (meta_offset m)) ''abcde''))
     (map word_of_nat [1..<Suc (unat (pm_total_pages (pagination_meta_new 1 2 5)))])) = ''abcde'' \<and>
   pm_has_next (pagination_meta_new 2 2 5) \<and> \<not> pm_has_next (pagination_meta_new 3 2 5)"
proof -
  have len: "unat (5 :: u64) = length ''abcde''" "length ''abcde'' \<le> (2 ^ 32 - 1) * max 1 (unat (2 :: u32))" by simp_all
  have "pm_per_page (pagination_meta_new p 2 5) = 2" for p by (simp add: pagination_meta_new_def Let_def)
  then show ?thesis using pages_cover_items [OF len] by simp
qed

text \<open>The repository's page number is not limited: its offset is a product of 64-bit numbers that wraps.\<close>

theorem repository_page_offset:
  "unat (pg_offset (pagination_page n k)) = (unat n - 1) * unat k mod 2 ^ 64"
  by (simp add: pagination_page_def unat_word_ariths unat_saturating_sub)

lemma repository_page_wraps: "pagination_page (2 ^ 63 + 1) 2 = first_page 2"
  by (simp add: pagination_page_def first_page_def saturating_sub_def)

subsection \<open>Validation errors\<close>

lemma sum_update:
  "distinct (map fst al) \<Longrightarrow>
   sum_list (map (length \<circ> snd) (AList.update k v al)) + (case map_of al k of Some w \<Rightarrow> length w | None \<Rightarrow> 0) =
   sum_list (map (length \<circ> snd) al) + length v"
  by (induction al) (auto split: option.splits simp: map_of_eq_None_iff)

text \<open>Every error that was added is counted, under its field and in the order of adding.\<close>

theorem validation_errors_kept:
  assumes "distinct (map fst (ve_errors v))"
  shows "error_count (add_field_error f c m v) = Suc (error_count v) \<and> has_errors (add_field_error f c m v) \<and>
     distinct (map fst (ve_errors (add_field_error f c m v))) \<and>
     map_of (ve_errors (add_field_error f c m v)) g =
       (if g = f then Some ((case map_of (ve_errors v) f of Some es \<Rightarrow> es | None \<Rightarrow> []) @ [\<lparr>fe_field = f, fe_code = c, fe_message = m\<rparr>])
        else map_of (ve_errors v) g)"
proof -
  let ?es = "(case map_of (ve_errors v) f of Some es \<Rightarrow> es | None \<Rightarrow> []) @ [\<lparr>fe_field = f, fe_code = c, fe_message = m\<rparr>]"
  have "AList.update f ?es (ve_errors v) \<noteq> []" by (cases "ve_errors v") auto
  then show ?thesis using sum_update [OF assms, of f ?es] assms
    by (cases "map_of (ve_errors v) f")
      (simp_all add: error_count_def has_errors_def add_field_error_def AList.update_conv' AList.distinct_update)
qed

end
