(* ===== verification/Config_Audit.thy ===== *)
theory Config_Audit
  imports Request
begin

text \<open>
  Auditing of the configuration (\<^verbatim>\<open>src/acton-service/src/audit/config_audit.rs\<close>): redaction of secrets, the
  fingerprint, the record of what was loaded and the endpoint that compares the running configuration with the one on
  disk. Loading, serialization, printing and BLAKE3 are parameters; objects have their keys once and sorted, as in
  \<^verbatim>\<open>serde_json\<close>.
\<close>

subsection \<open>Redaction\<close>

definition REDACTED :: string where "REDACTED = ''[REDACTED]''"

definition SENSITIVE_PATTERNS :: "string list" where
  "SENSITIVE_PATTERNS =
     [''password'', ''secret'', ''key'', ''token'', ''auth_token'', ''encryption_key'', ''url'', ''key_path'']"

definition ends_with :: "string \<Rightarrow> string \<Rightarrow> bool" where
  "ends_with s t \<longleftrightarrow> starts_with (rev s) (rev t)"

definition is_sensitive_field :: "(string \<Rightarrow> string) \<Rightarrow> string \<Rightarrow> bool" where
  "is_sensitive_field uni field_name =
     (let lower = to_lowercase uni field_name
      in list_ex (\<lambda>pattern. lower = pattern \<or> ends_with lower (''_'' @ pattern)) SENSITIVE_PATTERNS)"

fun is_object :: "json \<Rightarrow> bool" where
  "is_object (JObject _) = True"
| "is_object _ = False"

fun redact_config :: "(string \<Rightarrow> string) \<Rightarrow> json \<Rightarrow> json" where
  "redact_config uni (JObject m) =
     JObject (map (\<lambda>(k, v). (k, if is_sensitive_field uni k
        then (if is_object v then redact_config uni v else JString REDACTED)
        else redact_config uni v)) m)"
| "redact_config uni (JArray arr) = JArray (map (redact_config uni) arr)"
| "redact_config uni v = v"

text \<open>\<open>print\<close> is \<^verbatim>\<open>serde_json::to_string\<close>, \<open>blake3\<close> the hash in hexadecimal.\<close>

definition compute_config_fingerprint :: "(u8 list \<Rightarrow> string) \<Rightarrow> (json \<Rightarrow> string + string) \<Rightarrow> json \<Rightarrow> string" where
  "compute_config_fingerprint blake3 print redacted_config =
     (let canonical = (case print redacted_config of Inr t \<Rightarrow> t | Inl _ \<Rightarrow> ''{}'')
      in blake3 (as_bytes canonical))"

text \<open>The features, for a build with all of them.\<close>

definition enabled_features :: "string list" where
  "enabled_features =
     [''http'', ''grpc'', ''database'', ''turso'', ''surrealdb'', ''cache'', ''events'', ''observability'', ''resilience'',
      ''otel-metrics'', ''prometheus-metrics'', ''governor'', ''websocket'', ''openapi'', ''cedar-authz'', ''jwt'', ''auth'',
      ''oauth'', ''session'', ''session-memory'', ''session-redis'', ''htmx'', ''askama'', ''sse'', ''pagination'', ''repository'',
      ''handlers'', ''tls'', ''audit'', ''login-lockout'', ''accounts'', ''account-handlers'']"

definition build_config_loaded_event :: "uuid \<Rightarrow> datetime \<Rightarrow> string \<Rightarrow> string \<Rightarrow> json \<Rightarrow> string \<Rightarrow> audit_event" where
  "build_config_loaded_event new_v4 now service_name config_hash redacted_config environment =
     with_metadata (audit_event_new new_v4 now ConfigLoaded Informational service_name)
       (JObject [(''config_hash'', JString config_hash), (''enabled_features'', JArray (map JString enabled_features)),
         (''environment'', JString environment), (''redacted_config'', redacted_config)])"

subsection \<open>Drift\<close>

record drift_check_result =
  dc_drift_detected :: bool
  dc_active_hash :: string
  dc_disk_hash :: string
  dc_changed_sections :: "string list"

definition find_changed_sections :: "json \<Rightarrow> json \<Rightarrow> string list" where
  "find_changed_sections active disk =
     (case (active, disk) of
        (JObject active_map, JObject disk_map) \<Rightarrow>
          concat (map (\<lambda>(key, active_val).
              (case map_of disk_map key of
                 Some disk_val \<Rightarrow> if active_val \<noteq> disk_val then [key] else []
               | None \<Rightarrow> [key @ '' (removed from disk)''])) active_map) @
          concat (map (\<lambda>key. if map_of active_map key = None then [key @ '' (new on disk)''] else []) (map fst disk_map))
      | _ \<Rightarrow> [])"

definition drift_event :: "uuid \<Rightarrow> datetime \<Rightarrow> audit_logger \<Rightarrow> string \<Rightarrow> string \<Rightarrow> string list \<Rightarrow> audit_event" where
  "drift_event new_v4 now logger active_hash disk_hash changed_sections =
     with_metadata (audit_event_new new_v4 now ConfigDriftDetected Warning (lg_service_name logger))
       (JObject [(''active_hash'', JString active_hash), (''changed_sections'', JArray (map JString changed_sections)),
         (''disk_hash'', JString disk_hash)])"

text \<open>What the endpoint reads: the stored fingerprint, the two configurations as values, the logger.\<close>

record drift_env =
  de_uni :: "string \<Rightarrow> string"
  de_blake3 :: "u8 list \<Rightarrow> string"
  de_print :: "json \<Rightarrow> string + string"
  de_fingerprint :: "string option"
  de_load :: "string + (string + json)"
  de_active :: "string + json"
  de_logger :: "audit_logger option"

datatype drift_answer = Unavailable string | InternalError string | Result drift_check_result

definition fingerprint_of :: "drift_env \<Rightarrow> json \<Rightarrow> string" where
  "fingerprint_of env v = compute_config_fingerprint (de_blake3 env) (de_print env) (redact_config (de_uni env) v)"

definition drift_check_handler :: "drift_env \<Rightarrow> uuid \<Rightarrow> datetime \<Rightarrow> drift_answer \<times> audit_event list" where
  "drift_check_handler env new_v4 now =
     (case de_fingerprint env of
        None \<Rightarrow> (Unavailable ''Config fingerprint not available'', [])
      | Some active_hash \<Rightarrow>
     (case de_load env of
        Inl e \<Rightarrow> (InternalError (''Failed to reload config from disk: '' @ e), [])
      | Inr (Inl e) \<Rightarrow> (InternalError (''Failed to serialize disk config: '' @ e), [])
      | Inr (Inr disk_serialized) \<Rightarrow>
          (let disk_redacted = redact_config (de_uni env) disk_serialized;
               disk_hash = compute_config_fingerprint (de_blake3 env) (de_print env) disk_redacted;
               drift_detected = (active_hash \<noteq> disk_hash);
               changed_sections = (if drift_detected
                 then find_changed_sections
                   (redact_config (de_uni env) (case de_active env of Inr v \<Rightarrow> v | Inl _ \<Rightarrow> JNull)) disk_redacted
                 else []);
               events = (if drift_detected then (case de_logger env of
                   Some logger \<Rightarrow> if ac_audit_config_events (lg_config logger)
                     then [drift_event new_v4 now logger active_hash disk_hash changed_sections] else []
                 | None \<Rightarrow> []) else [])
           in (Result \<lparr>dc_drift_detected = drift_detected, dc_active_hash = active_hash, dc_disk_hash = disk_hash,
                 dc_changed_sections = changed_sections\<rparr>, events))))"

subsection \<open>What the fingerprint sees\<close>

text \<open>
  Two configurations that are the same but for values with sensitive names. A value is such a secret when it is not an
  object: objects below a sensitive name are entered.
\<close>

definition secret :: "(string \<Rightarrow> string) \<Rightarrow> string \<Rightarrow> json \<Rightarrow> bool" where
  "secret uni k v \<longleftrightarrow> is_sensitive_field uni k \<and> \<not> is_object v"

inductive same_public :: "(string \<Rightarrow> string) \<Rightarrow> json \<Rightarrow> json \<Rightarrow> bool" for uni where
  scalar: "same_public uni v v"
| arr: "list_all2 (\<lambda>x y. same_public uni x y) xs ys \<Longrightarrow> same_public uni (JArray xs) (JArray ys)"
| obj: "list_all2 (\<lambda>p q. fst p = fst q \<and>
          (same_public uni (snd p) (snd q) \<or> secret uni (fst p) (snd p) \<and> secret uni (fst p) (snd q))) ms ns \<Longrightarrow>
        same_public uni (JObject ms) (JObject ns)"

lemma same_public_object: "same_public uni v w \<Longrightarrow> is_object v = is_object w"
  by (cases rule: same_public.cases) auto

lemma map_eq_all2: "map f xs = map f ys \<longleftrightarrow> list_all2 (\<lambda>x y. f x = f y) xs ys"
  by (simp add: list_all2_map1 list_all2_map2 flip: list.rel_eq)

definition redact_field :: "(string \<Rightarrow> string) \<Rightarrow> string \<times> json \<Rightarrow> string \<times> json" where
  "redact_field uni p = (fst p, if secret uni (fst p) (snd p) then JString REDACTED else redact_config uni (snd p))"

lemma redact_object: "redact_config uni (JObject m) = JObject (map (redact_field uni) m)"
  by (simp add: redact_field_def secret_def case_prod_unfold)

lemma redact_same: "same_public uni v w \<Longrightarrow> redact_config uni v = redact_config uni w"
proof (induction rule: same_public.induct)
  case (arr xs ys)
  then show ?case by (auto simp: map_eq_all2 elim: list_all2_mono)
next
  case (obj ms ns)
  have "list_all2 (\<lambda>p q. redact_field uni p = redact_field uni q) ms ns"
    using obj by (rule list_all2_mono) (auto simp: redact_field_def secret_def dest: same_public_object)
  then show ?case by (simp add: redact_object map_eq_all2 del: redact_config.simps)
qed simp

lemma same_redacted: "redact_config uni v = redact_config uni w \<Longrightarrow> same_public uni v w"
proof (induction uni v arbitrary: w rule: redact_config.induct)
  case (1 uni m)
  from "1.prems" obtain n where w: "w = JObject n" by (cases w) auto
  have IH: "same_public uni (snd p) y" if "p \<in> set m" "redact_config uni (snd p) = redact_config uni y" "\<not> secret uni (fst p) (snd p)" for p y
    using "1.IH" [of p "fst p" "snd p"] that by (auto simp: secret_def)
  have "list_all2 (\<lambda>p q. redact_field uni p = redact_field uni q) m n"
    using "1.prems" unfolding w redact_object by (simp add: map_eq_all2)
  then have "list_all2 (\<lambda>p q. fst p = fst q \<and>
      (same_public uni (snd p) (snd q) \<or> secret uni (fst p) (snd p) \<and> secret uni (fst p) (snd q))) m n"
  proof (rule list.rel_mono_strong)
    fix p q assume p: "p \<in> set m" and eq: "redact_field uni p = redact_field uni q"
    then have k: "fst p = fst q" by (simp add: redact_field_def)
    show "fst p = fst q \<and> (same_public uni (snd p) (snd q) \<or> secret uni (fst p) (snd p) \<and> secret uni (fst p) (snd q))"
    proof (cases "secret uni (fst p) (snd p)")
      case True
      with eq k have "secret uni (fst p) (snd q)"
        by (cases "snd q") (auto simp: redact_field_def secret_def split: if_splits)
      with True k show ?thesis by blast
    next
      case False
      have "\<not> secret uni (fst p) (snd q)"
        using False eq k by (cases "snd p") (auto simp: redact_field_def secret_def split: if_splits)
      with False eq k have "redact_config uni (snd p) = redact_config uni (snd q)" by (simp add: redact_field_def)
      with IH [OF p _ False] k show ?thesis by blast
    qed
  qed
  then show ?case unfolding w by (rule same_public.obj)
next
  case (2 uni xs)
  from "2.prems" obtain ys where w: "w = JArray ys" by (cases w) auto
  with "2.prems" have "list_all2 (\<lambda>x y. redact_config uni x = redact_config uni y) xs ys" by (simp add: map_eq_all2)
  then have "list_all2 (\<lambda>x y. same_public uni x y) xs ys" using "2.IH" by (rule list.rel_mono_strong) auto
  then show ?case unfolding w by (rule same_public.arr)
qed (case_tac w; simp add: same_public.scalar; fail)+

lemma redact_idem: "redact_config uni (redact_config uni v) = redact_config uni v"
proof (induction uni v rule: redact_config.induct)
  case (1 uni m)
  have "redact_field uni (redact_field uni p) = redact_field uni p" if "p \<in> set m" for p
  proof (cases "secret uni (fst p) (snd p)")
    case True
    then show ?thesis by (simp add: redact_field_def secret_def)
  next
    case False
    have "is_object (redact_config uni (snd p)) = is_object (snd p)" by (cases "snd p") simp_all
    with False have "\<not> secret uni (fst p) (redact_config uni (snd p))" by (simp add: secret_def)
    moreover have "redact_config uni (redact_config uni (snd p)) = redact_config uni (snd p)"
      using "1.IH" [of p "fst p" "snd p"] that False by (auto simp: secret_def)
    ultimately show ?thesis using False by (simp add: redact_field_def)
  qed
  then show ?case by (simp add: redact_object del: redact_config.simps)
qed auto


lemma changed_sections_nil:
  assumes "distinct (map fst m)" "distinct (map fst n)"
  shows "find_changed_sections (JObject m) (JObject n) = [] \<longleftrightarrow> set m = set n"
proof -
  have "find_changed_sections (JObject m) (JObject n) = [] \<longleftrightarrow>
      (\<forall>p \<in> set m. map_of n (fst p) = Some (snd p)) \<and> (\<forall>p \<in> set n. map_of m (fst p) \<noteq> None)"
  proof -
    have "(case map_of n (fst p) of Some w \<Rightarrow> if snd p \<noteq> w then [fst p] else [] | None \<Rightarrow> [fst p @ '' (removed from disk)'']) = [] \<longleftrightarrow>
        map_of n (fst p) = Some (snd p)" for p :: "string \<times> json"
      by (cases "map_of n (fst p)") auto
    moreover have "(if map_of m k = None then [k @ '' (new on disk)''] else []) = [] \<longleftrightarrow> map_of m k \<noteq> None" for k by simp
    ultimately show ?thesis
      by (simp only: find_changed_sections_def prod.case json.case append_is_Nil_conv concat_eq_Nil_conv set_map ball_simps case_prod_unfold fst_conv snd_conv)
  qed
  also have "\<dots> \<longleftrightarrow> set m = set n"
  proof
    assume *: "(\<forall>p \<in> set m. map_of n (fst p) = Some (snd p)) \<and> (\<forall>p \<in> set n. map_of m (fst p) \<noteq> None)"
    then have sub: "set m \<subseteq> set n" using assms(2) by auto
    moreover have "p \<in> set m" if "p \<in> set n" for p
    proof -
      obtain v where "(fst p, v) \<in> set m" using * \<open>p \<in> set n\<close> by (meson map_of_SomeD not_Some_eq)
      with sub that assms(2) have "v = snd p" by (metis map_of_is_SomeI option.inject prod.collapse subsetD)
      with \<open>(fst p, v) \<in> set m\<close> show ?thesis by simp
    qed
    ultimately show "set m = set n" by blast
  next
    assume "set m = set n"
    then show "(\<forall>p \<in> set m. map_of n (fst p) = Some (snd p)) \<and> (\<forall>p \<in> set n. map_of m (fst p) \<noteq> None)"
      using assms by (auto simp: map_of_eq_None_iff)
  qed
  finally show ?thesis .
qed

text \<open>
  The drift endpoint: as long as the two fingerprints do not collide it reports drift, and names a section, exactly when
  the configuration on disk differs from the running one in something else than secrets. A changed secret, and that
  includes every connection address, is no drift.
\<close>

theorem drift_exact:
  assumes "de_fingerprint env = Some (fingerprint_of env (JObject m))" and "de_active env = Inr (JObject m)"
    and "de_load env = Inr (Inr (JObject n))"
    and inj: "inj_on (compute_config_fingerprint (de_blake3 env) (de_print env))
      {redact_config (de_uni env) (JObject m), redact_config (de_uni env) (JObject n)}"
    and sorted: "sorted_wrt (<) (map fst m)" "sorted_wrt (<) (map fst n)"
  shows "\<exists>r. fst (drift_check_handler env new_v4 now) = Result r \<and>
     (dc_drift_detected r \<longleftrightarrow> \<not> same_public (de_uni env) (JObject m) (JObject n)) \<and>
     (dc_changed_sections r = [] \<longleftrightarrow> same_public (de_uni env) (JObject m) (JObject n))"
proof -
  let ?R = "redact_config (de_uni env)" and ?f = "compute_config_fingerprint (de_blake3 env) (de_print env)"
  have keys: "map fst (map (redact_field u) ps) = map fst ps" for u ps by (simp add: redact_field_def)
  have same: "same_public (de_uni env) (JObject m) (JObject n) \<longleftrightarrow> ?R (JObject m) = ?R (JObject n)"
    using redact_same same_redacted by blast
  have hash: "?f (?R (JObject m)) = ?f (?R (JObject n)) \<longleftrightarrow> ?R (JObject m) = ?R (JObject n)"
    using inj_on_eq_iff [OF inj, of "?R (JObject m)" "?R (JObject n)"] by blast
  have "find_changed_sections (?R (JObject m)) (?R (JObject n)) = [] \<longleftrightarrow> ?R (JObject m) = ?R (JObject n)"
  proof -
    have "distinct (map fst ps)" if "sorted_wrt (<) (map fst ps)" for ps :: "(string \<times> json) list"
      using that by (simp add: strict_sorted_iff)
    then have "find_changed_sections (?R (JObject m)) (?R (JObject n)) = [] \<longleftrightarrow>
        set (map (redact_field (de_uni env)) m) = set (map (redact_field (de_uni env)) n)"
      unfolding redact_object using sorted by (intro changed_sections_nil) (simp_all only: keys)
    also have "\<dots> \<longleftrightarrow> map (redact_field (de_uni env)) m = map (redact_field (de_uni env)) n"
    proof
      assume "set (map (redact_field (de_uni env)) m) = set (map (redact_field (de_uni env)) n)"
      then show "map (redact_field (de_uni env)) m = map (redact_field (de_uni env)) n"
        using sorted by (intro strict_sorted_key_unique [of fst]) (simp_all only: keys)
    qed (rule arg_cong [of _ _ set])
    finally show ?thesis by (simp add: redact_object del: redact_config.simps)
  qed
  moreover have "fst (drift_check_handler env new_v4 now) = Result
      \<lparr>dc_drift_detected = (?f (?R (JObject m)) \<noteq> ?f (?R (JObject n))), dc_active_hash = ?f (?R (JObject m)),
       dc_disk_hash = ?f (?R (JObject n)), dc_changed_sections = (if ?f (?R (JObject m)) \<noteq> ?f (?R (JObject n))
         then find_changed_sections (?R (JObject m)) (?R (JObject n)) else [])\<rparr>"
    unfolding drift_check_handler_def assms(1-3) fingerprint_of_def Let_def option.case sum.case fst_conv ..
  ultimately show ?thesis using same hash by simp
qed

end
