(* ===== verification/Audit_Lazy.thy ===== *)
theory Audit_Lazy
  imports Audit_Backends
begin

text \<open>
  The audit storage that attaches itself to a pool once the pool has connected
  (\<^verbatim>\<open>src/acton-service/src/audit/storage/lazy.rs\<close>), and the choice of a backend
  (\<^verbatim>\<open>src/acton-service/src/audit/wiring.rs\<close>).

  A connection names a database, and \<open>lz_dbs\<close> holds the state of each; a backend is its connection. \<open>lz_shared\<close> is
  the pool agent's handle, which the agent fills some time after start-up and may fill anew. The operations are first
  given for a caller that runs alone, then \<open>resolve\<close> step by step for any number of callers.
\<close>

subsection \<open>Resolving\<close>

record ('c, 's) lazy_audit =
  lz_shared :: "'c option"
  lz_resolved :: "'c option"
  lz_dbs :: "'c \<Rightarrow> 's"

definition lazy_new :: "'c option \<Rightarrow> ('c \<Rightarrow> 's) \<Rightarrow> ('c, 's) lazy_audit" where
  "lazy_new shared dbs = \<lparr>lz_shared = shared, lz_resolved = None, lz_dbs = dbs\<rparr>"

definition not_connected :: "string \<Rightarrow> error" where
  "not_connected backend_name =
     Internal (''audit storage unavailable: the '' @ backend_name @ '' connection pool has not finished connecting'')"

definition resolve ::
  "string \<Rightarrow> ('s \<Rightarrow> (error + unit) \<times> 's) \<Rightarrow> ('c, 's) lazy_audit \<Rightarrow> (error + 'c) \<times> ('c, 's) lazy_audit" where
  "resolve backend_name init_schema z =
     (case lz_resolved z of
        Some c \<Rightarrow> (Inr c, z)
      | None \<Rightarrow>
     (case lz_shared z of
        None \<Rightarrow> (Inl (not_connected backend_name), z)
      | Some c \<Rightarrow>
          (case init_schema (lz_dbs z c) of
             (Inl e, s) \<Rightarrow> (Inl e, z\<lparr>lz_dbs := (lz_dbs z)(c := s)\<rparr>)
           | (Inr _, s) \<Rightarrow> (Inr c, z\<lparr>lz_dbs := (lz_dbs z)(c := s), lz_resolved := Some c\<rparr>))))"

text \<open>A call that changes the database, and one that only reads it.\<close>

definition lazy_update ::
  "string \<Rightarrow> ('s \<Rightarrow> (error + unit) \<times> 's) \<Rightarrow> ('s \<Rightarrow> (error + 'a) \<times> 's) \<Rightarrow> ('c, 's) lazy_audit \<Rightarrow> (error + 'a) \<times> ('c, 's) lazy_audit" where
  "lazy_update backend_name init_schema op z =
     (case resolve backend_name init_schema z of
        (Inl e, z) \<Rightarrow> (Inl e, z)
      | (Inr c, z) \<Rightarrow> (case op (lz_dbs z c) of (r, s) \<Rightarrow> (r, z\<lparr>lz_dbs := (lz_dbs z)(c := s)\<rparr>)))"

definition lazy_read ::
  "string \<Rightarrow> ('s \<Rightarrow> (error + unit) \<times> 's) \<Rightarrow> ('s \<Rightarrow> error + 'a) \<Rightarrow> ('c, 's) lazy_audit \<Rightarrow> (error + 'a) \<times> ('c, 's) lazy_audit" where
  "lazy_read backend_name init_schema op z =
     (case resolve backend_name init_schema z of
        (Inl e, z) \<Rightarrow> (Inl e, z)
      | (Inr c, z) \<Rightarrow> (op (lz_dbs z c), z))"

text \<open>The operations of the trait, over those of the backend.\<close>

record 's audit_backend =
  ab_name :: string
  ab_init :: "'s \<Rightarrow> (error + unit) \<times> 's"
  ab_append :: "audit_event \<Rightarrow> 's \<Rightarrow> (error + unit) \<times> 's"
  ab_latest :: "'s \<Rightarrow> error + audit_event option"
  ab_query_range :: "datetime \<Rightarrow> datetime \<Rightarrow> nat \<Rightarrow> 's \<Rightarrow> error + audit_event list"
  ab_verify_chain :: "u64 \<Rightarrow> 's \<Rightarrow> error + u64 option"
  ab_query_before :: "datetime \<Rightarrow> nat \<Rightarrow> 's \<Rightarrow> error + audit_event list"
  ab_purge_before :: "datetime \<Rightarrow> 's \<Rightarrow> (error + nat) \<times> 's"

definition lazy_append where "lazy_append b event = lazy_update (ab_name b) (ab_init b) (ab_append b event)"

definition lazy_latest where "lazy_latest b = lazy_read (ab_name b) (ab_init b) (ab_latest b)"

definition lazy_query_range where
  "lazy_query_range b from to limit = lazy_read (ab_name b) (ab_init b) (ab_query_range b from to limit)"

definition lazy_verify_chain where
  "lazy_verify_chain b from_sequence = lazy_read (ab_name b) (ab_init b) (ab_verify_chain b from_sequence)"

definition lazy_query_before where
  "lazy_query_before b cutoff limit = lazy_read (ab_name b) (ab_init b) (ab_query_before b cutoff limit)"

definition lazy_purge_before where "lazy_purge_before b cutoff = lazy_update (ab_name b) (ab_init b) (ab_purge_before b cutoff)"

definition lazy_ensure_ready :: "'s audit_backend \<Rightarrow> ('c, 's) lazy_audit \<Rightarrow> (error + unit) \<times> ('c, 's) lazy_audit" where
  "lazy_ensure_ready b z = (case resolve (ab_name b) (ab_init b) z of (r, z) \<Rightarrow> (map_sum id (\<lambda>_. ()) r, z))"

text \<open>The two modelled backends as such records; a call has its own faults.\<close>

definition pg_backend :: "pg_env \<Rightarrow> chain_env \<Rightarrow> (pg_audit) audit_backend" where
  "pg_backend db env =
     \<lparr>ab_name = ''PostgreSQL'', ab_init = pg_initialize db, ab_append = pg_append db, ab_latest = pg_latest db,
      ab_query_range = pg_query_range db, ab_verify_chain = pg_verify_chain db env, ab_query_before = pg_query_before db,
      ab_purge_before = pg_purge_before db\<rparr>"

definition turso_backend :: "turso_texts \<Rightarrow> faults \<Rightarrow> faults \<Rightarrow> chain_env \<Rightarrow> turso_audit audit_backend" where
  "turso_backend x fault unread env =
     \<lparr>ab_name = ''Turso'', ab_init = turso_audit_initialize fault, ab_append = turso_audit_append x fault,
      ab_latest = turso_audit_latest x fault unread, ab_query_range = turso_audit_query_range x fault unread,
      ab_verify_chain = turso_audit_verify_chain x fault unread env, ab_query_before = turso_audit_query_before x fault unread,
      ab_purge_before = turso_audit_purge_before x fault\<rparr>"

subsection \<open>The choice of a backend\<close>

datatype backend_kind = PgBackend | TursoBackend | SurrealBackend | ClickHouseBackend

record audit_storage_handles =
  ah_db_pool :: bool
  ah_turso_db :: bool
  ah_surrealdb_client :: bool
  ah_clickhouse_client :: bool

definition select_audit_storage :: "audit_storage_handles \<Rightarrow> backend_kind option" where
  "select_audit_storage h =
     (let storage = None;
          storage = (if storage = None \<and> ah_db_pool h then Some PgBackend else storage);
          storage = (if storage = None \<and> ah_turso_db h then Some TursoBackend else storage);
          storage = (if storage = None \<and> ah_surrealdb_client h then Some SurrealBackend else storage);
          storage = (if storage = None \<and> ah_clickhouse_client h then Some ClickHouseBackend else storage)
      in storage)"

text \<open>The first configured backend in the order of the code is chosen, and none only when none is configured.\<close>

definition backend_configured :: "audit_storage_handles \<Rightarrow> backend_kind \<Rightarrow> bool" where
  "backend_configured h k = (case k of PgBackend \<Rightarrow> ah_db_pool h | TursoBackend \<Rightarrow> ah_turso_db h
     | SurrealBackend \<Rightarrow> ah_surrealdb_client h | ClickHouseBackend \<Rightarrow> ah_clickhouse_client h)"

lemma select_is_first:
  "select_audit_storage h = find (backend_configured h) [PgBackend, TursoBackend, SurrealBackend, ClickHouseBackend]"
  by (simp add: select_audit_storage_def backend_configured_def)

subsection \<open>The calls of one caller\<close>

lemma resolve_cases:
  assumes "resolve n init z = (r, z')"
  obtains (cached) c where "lz_resolved z = Some c" "r = Inr c" "z' = z"
  | (unconnected) "lz_resolved z = None" "lz_shared z = None" "r = Inl (not_connected n)" "z' = z"
  | (failed) c e s where "lz_resolved z = None" "lz_shared z = Some c" "init (lz_dbs z c) = (Inl e, s)" "r = Inl e"
      "z' = z\<lparr>lz_dbs := (lz_dbs z)(c := s)\<rparr>"
  | (attached) c s where "lz_resolved z = None" "lz_shared z = Some c" "init (lz_dbs z c) = (Inr (), s)" "r = Inr c"
      "z' = z\<lparr>lz_dbs := (lz_dbs z)(c := s), lz_resolved := Some c\<rparr>"
  using assms by (auto simp: resolve_def split: option.splits prod.splits sum.splits)

text \<open>
  A storage whose initialization keeps the events. Through the lazy storage the contract of appending holds for the
  attached database, and no other database changes.
\<close>

locale initializable = audit_store append latest query_before purge_before events stored invar column
  for append :: "audit_event \<Rightarrow> 's \<Rightarrow> (error + unit) \<times> 's" and latest query_before purge_before events stored invar column +
  fixes init :: "'s \<Rightarrow> (error + unit) \<times> 's"
  assumes init_keeps: "init s = (r, s') \<Longrightarrow> events s' = events s \<and> (invar s \<longrightarrow> invar s')"
begin

lemma resolve_keeps:
  assumes "resolve n init z = (r, z')"
  shows "events (lz_dbs z' c) = events (lz_dbs z c)" and "invar (lz_dbs z c) \<Longrightarrow> invar (lz_dbs z' c)"
    and "lz_resolved z = Some a \<Longrightarrow> lz_resolved z' = Some a" and "r = Inr d \<Longrightarrow> lz_resolved z' = Some d"
  using assms by (cases rule: resolve_cases; use init_keeps in \<open>auto\<close>)+

lemma lazy_append_keeps:
  assumes inv: "\<forall>c. invar (lz_dbs z c)" and run: "lazy_update n init (append e) z = (r, z')"
  shows "(\<forall>c. invar (lz_dbs z' c)) \<and> (lz_resolved z \<noteq> None \<longrightarrow> lz_resolved z' = lz_resolved z) \<and>
     (case r of
        Inl _ \<Rightarrow> \<forall>c. events (lz_dbs z' c) = events (lz_dbs z c)
      | Inr _ \<Rightarrow> \<exists>c. lz_resolved z' = Some c \<and> set (events (lz_dbs z' c)) = insert (stored e) (set (events (lz_dbs z c))) \<and>
          (\<forall>d. d \<noteq> c \<longrightarrow> events (lz_dbs z' d) = events (lz_dbs z d)))"
proof -
  obtain q z1 where res: "resolve n init z = (q, z1)" by fastforce
  note keeps = resolve_keeps [OF res]
  have inv1: "invar (lz_dbs z1 c)" for c using keeps(2) inv by blast
  show ?thesis
  proof (cases q)
    case (Inl x)
    with res run have "r = Inl x" "z' = z1" by (auto simp: lazy_update_def)
    then show ?thesis using keeps inv1 by auto
  next
    case (Inr c)
    obtain s where app: "append e (lz_dbs z1 c) = (r, s)" and z': "z' = z1\<lparr>lz_dbs := (lz_dbs z1)(c := s)\<rparr>"
      using res run Inr by (auto simp: lazy_update_def split: prod.splits)
    show ?thesis
    proof (cases r)
      case (Inl x)
      with append_err app have "s = lz_dbs z1 c" by blast
      with Inl z' show ?thesis using keeps inv1 by auto
    next
      case (Inr u)
      with append_ok [OF inv1] app have "invar s" "set (events s) = insert (stored e) (set (events (lz_dbs z1 c)))" by blast+
      with Inr z' \<open>q = Inr c\<close> show ?thesis using keeps inv1 by auto
    qed
  qed
qed

end

text \<open>Initialization creates tables, indexes, rules and triggers, and no backend touches a row in it.\<close>

lemma pg_initialize_keeps: "pg_initialize db s = (r, s') \<Longrightarrow> pg_events s' = pg_events s \<and> (pg_inv s \<longrightarrow> pg_inv s')"
  by (auto simp: pg_initialize_def pg_events_def rows_by_sequence_def pg_inv_def split: option.splits)

lemma turso_initialize_keeps:
  "turso_audit_initialize f s = (r, s') \<Longrightarrow>
     turso_audit_events x s' = turso_audit_events x s \<and> (turso_audit_inv x s \<longrightarrow> turso_audit_inv x s')"
  by (auto simp: turso_audit_initialize_def turso_audit_events_def turso_rows_by_sequence_def turso_audit_inv_def
      split: option.splits)

interpretation lazy_pg: initializable "pg_append db" "pg_latest db\<^sub>1" "pg_query_before (db\<lparr>db_fault := f\<rparr>)"
  "pg_purge_before (db\<lparr>db_fault := g\<rparr>)" pg_events "pg_stored db" pg_inv "db_timestamptz db" "pg_initialize db\<^sub>2" for db db\<^sub>1 db\<^sub>2 f g
  by unfold_locales (rule pg_initialize_keeps)

context turso_laws
begin

sublocale lazy_turso: initializable "turso_audit_append x fault" "turso_audit_latest x fault\<^sub>1 unread"
  "turso_audit_query_before x fault\<^sub>2 (\<lambda>_. None)" "turso_audit_purge_before x fault\<^sub>3" "turso_audit_events x"
  "turso_stored x" "turso_audit_inv x" "\<lambda>t. t" "turso_audit_initialize fault\<^sub>4" for fault fault\<^sub>1 unread fault\<^sub>2 fault\<^sub>3 fault\<^sub>4
  by unfold_locales (rule turso_initialize_keeps)

lemma lazy_turso_append:
  assumes "\<forall>c. turso_audit_inv x (lz_dbs z c)" and "lazy_append (turso_backend x fault unread env) e z = (r, z')"
  shows "(\<forall>c. turso_audit_inv x (lz_dbs z' c)) \<and> (lz_resolved z \<noteq> None \<longrightarrow> lz_resolved z' = lz_resolved z) \<and>
     (case r of
        Inl _ \<Rightarrow> \<forall>c. turso_audit_events x (lz_dbs z' c) = turso_audit_events x (lz_dbs z c)
      | Inr _ \<Rightarrow> \<exists>c. lz_resolved z' = Some c \<and>
          set (turso_audit_events x (lz_dbs z' c)) = insert (turso_stored x e) (set (turso_audit_events x (lz_dbs z c))) \<and>
          (\<forall>d. d \<noteq> c \<longrightarrow> turso_audit_events x (lz_dbs z' d) = turso_audit_events x (lz_dbs z d)))"
  using assms by (intro lazy_turso.lazy_append_keeps) (simp_all add: lazy_append_def turso_backend_def)

end

theorem lazy_pg_append:
  assumes "\<forall>c. pg_inv (lz_dbs z c)" and "lazy_append (pg_backend db env) e z = (r, z')"
  shows "(\<forall>c. pg_inv (lz_dbs z' c)) \<and> (lz_resolved z \<noteq> None \<longrightarrow> lz_resolved z' = lz_resolved z) \<and>
     (case r of
        Inl _ \<Rightarrow> \<forall>c. pg_events (lz_dbs z' c) = pg_events (lz_dbs z c)
      | Inr _ \<Rightarrow> \<exists>c. lz_resolved z' = Some c \<and>
          set (pg_events (lz_dbs z' c)) = insert (pg_stored db e) (set (pg_events (lz_dbs z c))) \<and>
          (\<forall>d. d \<noteq> c \<longrightarrow> pg_events (lz_dbs z' d) = pg_events (lz_dbs z d)))"
  using assms by (intro lazy_pg.lazy_append_keeps) (simp_all add: lazy_append_def pg_backend_def)

text \<open>Before the pool has connected every operation fails and changes nothing.\<close>

lemma unconnected_fails:
  assumes "lz_resolved z = None" and "lz_shared z = None"
  shows "lazy_append b e z = (Inl (not_connected (ab_name b)), z)" and "lazy_latest b z = (Inl (not_connected (ab_name b)), z)"
    and "lazy_purge_before b t z = (Inl (not_connected (ab_name b)), z)"
    and "lazy_ensure_ready b z = (Inl (not_connected (ab_name b)), z)"
  using assms by (simp_all add: lazy_append_def lazy_latest_def lazy_purge_before_def lazy_ensure_ready_def lazy_update_def
      lazy_read_def resolve_def)

text \<open>Once it is attached, a storage is the backend itself, whatever the pool agent does to its handle.\<close>

lemma attached_is_backend:
  assumes "lz_resolved z = Some c"
  shows "lazy_append b e z = (case ab_append b e (lz_dbs z c) of (r, s) \<Rightarrow> (r, z\<lparr>lz_dbs := (lz_dbs z)(c := s)\<rparr>))"
    and "lazy_latest b z = (ab_latest b (lz_dbs z c), z)"
    and "lazy_query_range b from to limit z = (ab_query_range b from to limit (lz_dbs z c), z)"
    and "lazy_verify_chain b n z = (ab_verify_chain b n (lz_dbs z c), z)"
    and "lazy_query_before b t limit z = (ab_query_before b t limit (lz_dbs z c), z)"
    and "lazy_purge_before b t z = (case ab_purge_before b t (lz_dbs z c) of (r, s) \<Rightarrow> (r, z\<lparr>lz_dbs := (lz_dbs z)(c := s)\<rparr>))"
  using assms by (simp_all add: lazy_append_def lazy_latest_def lazy_query_range_def lazy_verify_chain_def lazy_query_before_def
      lazy_purge_before_def lazy_update_def lazy_read_def resolve_def)

subsection \<open>Many callers\<close>

text \<open>
  Where a caller of \<open>resolve\<close> is: before the first look, waiting for \<^verbatim>\<open>init_lock\<close>, holding it before the second look, in
  \<^verbatim>\<open>init_schema\<close>, waiting to write the result, or back with its answer. A caller's future may be dropped at any await
  (\<open>Drop\<close>), which gives up the lock. \<open>rs_inits\<close> counts the initializations that succeeded, \<open>rs_drops\<close> the callers dropped
  between that and the write.
\<close>

datatype 'c resolve_pc = Idle | Waiting | Checking | Opening 'c | Attaching 'c | Answered "error + 'c"

record 'c resolving =
  rs_shared :: "'c option"
  rs_resolved :: "'c option"
  rs_lock :: "nat option"
  rs_pc :: "nat \<Rightarrow> 'c resolve_pc"
  rs_inits :: nat
  rs_drops :: nat

definition goto :: "nat \<Rightarrow> 'c resolve_pc \<Rightarrow> 'c resolving \<Rightarrow> 'c resolving" where
  "goto i p r = r\<lparr>rs_pc := (rs_pc r)(i := p)\<rparr>"

definition release :: "'c resolving \<Rightarrow> 'c resolving" where
  "release r = r\<lparr>rs_lock := None\<rparr>"

fun holding :: "'c resolve_pc \<Rightarrow> bool" where
  "holding Checking = True" | "holding (Opening c) = True" | "holding (Attaching c) = True" | "holding p = False"

inductive resolve_step :: "string \<Rightarrow> 'c resolving \<Rightarrow> 'c resolving \<Rightarrow> bool" for n where
  Hit: "rs_pc r i = Idle \<Longrightarrow> rs_resolved r = Some c \<Longrightarrow> resolve_step n r (goto i (Answered (Inr c)) r)"
| Miss: "rs_pc r i = Idle \<Longrightarrow> rs_resolved r = None \<Longrightarrow> resolve_step n r (goto i Waiting r)"
| Lock: "rs_pc r i = Waiting \<Longrightarrow> rs_lock r = None \<Longrightarrow> resolve_step n r (goto i Checking (r\<lparr>rs_lock := Some i\<rparr>))"
| Late: "rs_pc r i = Checking \<Longrightarrow> rs_resolved r = Some c \<Longrightarrow> resolve_step n r (release (goto i (Answered (Inr c)) r))"
| Unconnected: "rs_pc r i = Checking \<Longrightarrow> rs_resolved r = None \<Longrightarrow> rs_shared r = None \<Longrightarrow>
    resolve_step n r (release (goto i (Answered (Inl (not_connected n))) r))"
| Open: "rs_pc r i = Checking \<Longrightarrow> rs_resolved r = None \<Longrightarrow> rs_shared r = Some c \<Longrightarrow> resolve_step n r (goto i (Opening c) r)"
| Opened: "rs_pc r i = Opening c \<Longrightarrow> resolve_step n r (goto i (Attaching c) (r\<lparr>rs_inits := Suc (rs_inits r)\<rparr>))"
| Failed: "rs_pc r i = Opening c \<Longrightarrow> resolve_step n r (release (goto i (Answered (Inl e)) r))"
| Attach: "rs_pc r i = Attaching c \<Longrightarrow> resolve_step n r (release (goto i (Answered (Inr c)) (r\<lparr>rs_resolved := Some c\<rparr>)))"
| Pool: "resolve_step n r (r\<lparr>rs_shared := v\<rparr>)"
| Drop: "rs_pc r i = p \<Longrightarrow> p \<noteq> Idle \<Longrightarrow> \<forall>a. p \<noteq> Answered a \<Longrightarrow> d = (case p of Attaching c \<Rightarrow> 1 | _ \<Rightarrow> 0) \<Longrightarrow>
    r' = (if holding p then release (goto i Idle r) else goto i Idle r) \<Longrightarrow>
    resolve_step n r (r'\<lparr>rs_drops := rs_drops r + d\<rparr>)"

definition resolve_start :: "'c option \<Rightarrow> 'c resolving" where
  "resolve_start shared = \<lparr>rs_shared = shared, rs_resolved = None, rs_lock = None, rs_pc = (\<lambda>_. Idle), rs_inits = 0, rs_drops = 0\<rparr>"

text \<open>
  The invariant: the lock is held by exactly the caller in the critical part; a caller past the second look implies that
  nothing is attached; answers name what is attached; and every initialization is accounted for.
\<close>

definition attaching :: "'c resolving \<Rightarrow> nat" where
  "attaching r = (case rs_lock r of Some i \<Rightarrow> (case rs_pc r i of Attaching c \<Rightarrow> 1 | _ \<Rightarrow> 0) | None \<Rightarrow> 0)"

definition resolve_inv :: "'c resolving \<Rightarrow> bool" where
  "resolve_inv r \<longleftrightarrow>
     (\<forall>i. holding (rs_pc r i) \<longleftrightarrow> rs_lock r = Some i) \<and>
     (\<forall>i c. rs_pc r i = Opening c \<or> rs_pc r i = Attaching c \<longrightarrow> rs_resolved r = None) \<and>
     (\<forall>i c. rs_pc r i = Answered (Inr c) \<longrightarrow> rs_resolved r = Some c) \<and>
     rs_inits r = rs_drops r + attaching r + (if rs_resolved r = None then 0 else 1)"

lemmas resolve_simps = goto_def release_def

lemma lock_step:
  assumes "resolve_step n r r'" and lock: "\<And>i. holding (rs_pc r i) \<longleftrightarrow> rs_lock r = Some i"
  shows "holding (rs_pc r' j) \<longleftrightarrow> rs_lock r' = Some j"
proof -
  have alone: "rs_pc r i = p \<Longrightarrow> holding p \<Longrightarrow> holding (rs_pc r j) \<Longrightarrow> j = i" for i p
    using lock by fastforce
  have alone2: "holding (rs_pc r i) \<Longrightarrow> holding (rs_pc r j) \<Longrightarrow> j = i" for i using lock by fastforce
  from assms(1) lock [of j] show ?thesis
    by (cases rule: resolve_step.cases) (auto simp: resolve_simps lock [symmetric] dest: alone alone2)
qed

text \<open>What a caller sees under the lock stays so: only the holder attaches.\<close>

lemma resolved_step:
  assumes "resolve_step n r r'" and lock: "\<And>i. holding (rs_pc r i) \<longleftrightarrow> rs_lock r = Some i"
    and fresh: "\<And>i c. rs_pc r i = Opening c \<or> rs_pc r i = Attaching c \<Longrightarrow> rs_resolved r = None"
    and p: "rs_pc r' j = Opening d \<or> rs_pc r' j = Attaching d"
  shows "rs_resolved r' = None"
proof -
  have alone: "rs_pc r i = Attaching c \<Longrightarrow> rs_pc r j = Opening d \<or> rs_pc r j = Attaching d \<Longrightarrow> j = i" for i c
    using lock by (metis holding.simps(2,3) option.inject)
  from assms(1) p fresh [of j d] show ?thesis
    by (cases rule: resolve_step.cases) (auto simp: resolve_simps split: if_splits dest: alone fresh [OF disjI1] fresh [OF disjI2])
qed

lemma answers_step:
  assumes "resolve_step n r r'" and fresh: "\<And>i c. rs_pc r i = Opening c \<or> rs_pc r i = Attaching c \<Longrightarrow> rs_resolved r = None"
    and ans: "\<And>i c. rs_pc r i = Answered (Inr c) \<Longrightarrow> rs_resolved r = Some c"
    and p: "rs_pc r' j = Answered (Inr d)"
  shows "rs_resolved r' = Some d"
  using assms(1) p ans [of j d]
  by (cases rule: resolve_step.cases) (auto simp: resolve_simps split: if_splits dest: fresh [OF disjI2])

lemma attaching_other [simp]: "attaching (r\<lparr>rs_drops := k\<rparr>) = attaching r" "attaching (r\<lparr>rs_shared := v\<rparr>) = attaching r"
  by (auto simp: attaching_def split: option.split)

lemma resolve_fields [simp]:
  "rs_inits (goto i p r) = rs_inits r" "rs_drops (goto i p r) = rs_drops r" "rs_resolved (goto i p r) = rs_resolved r"
  "rs_inits (release r) = rs_inits r" "rs_drops (release r) = rs_drops r" "rs_resolved (release r) = rs_resolved r"
  by (simp_all add: goto_def release_def)

lemma attaching_release [simp]: "attaching (release r) = 0"
  by (simp add: attaching_def release_def)

lemma not_holding [simp]: "\<not> holding p \<Longrightarrow> (case p of Attaching c \<Rightarrow> 1 | _ \<Rightarrow> 0) = (0 :: nat)"
  by (cases p) simp_all

lemma count_step:
  assumes "resolve_step n r r'" and lock: "\<And>i. holding (rs_pc r i) \<longleftrightarrow> rs_lock r = Some i"
    and fresh: "\<And>i c. rs_pc r i = Opening c \<or> rs_pc r i = Attaching c \<Longrightarrow> rs_resolved r = None"
    and count: "rs_inits r = rs_drops r + attaching r + (if rs_resolved r = None then 0 else 1)"
  shows "rs_inits r' = rs_drops r' + attaching r' + (if rs_resolved r' = None then 0 else 1)"
proof -
  have att: "attaching r = (case rs_pc r i of Attaching c \<Rightarrow> 1 | _ \<Rightarrow> 0)" if "holding (rs_pc r i)" for i
    using that lock [of i] by (simp add: attaching_def)
  have upd: "attaching (goto i p r) = attaching r" if "\<not> holding (rs_pc r i)" for i p
    using that lock [of i] by (auto simp: attaching_def goto_def split: option.splits)
  from assms(1) show ?thesis
  proof (cases rule: resolve_step.cases)
    case (Lock i)
    then show ?thesis using count by (simp add: attaching_def goto_def)
  next
    case (Open i c)
    then show ?thesis using count att [of i] lock [of i] by (simp add: attaching_def goto_def)
  next
    case (Opened i c)
    then show ?thesis using count att [of i] lock [of i] fresh [of i] by (simp add: attaching_def goto_def)
  next
    case (Drop i p d s)
    then show ?thesis
      using count att [of i] upd [of i Idle]
      by (cases "holding p") simp_all
  next
    case (Hit i c) then show ?thesis using count upd [of i] by simp
  next
    case (Miss i) then show ?thesis using count upd [of i] by simp
  next
    case (Late i c) then show ?thesis using count att [of i] by simp
  next
    case (Unconnected i) then show ?thesis using count att [of i] by simp
  next
    case (Failed i c e) then show ?thesis using count att [of i] by simp
  next
    case (Attach i c) then show ?thesis using count att [of i] fresh [of i c] by simp
  next
    case (Pool v) then show ?thesis using count by simp
  qed
qed

lemma resolve_inv_step: "resolve_step n r r' \<Longrightarrow> resolve_inv r \<Longrightarrow> resolve_inv r'"
  unfolding resolve_inv_def
  by (intro conjI allI impI) (use lock_step resolved_step answers_step count_step in meson)+

lemma resolve_reachable_inv: "(resolve_step n)\<^sup>*\<^sup>* (resolve_start shared) r \<Longrightarrow> resolve_inv r"
proof (induction rule: rtranclp_induct)
  case base show ?case by (simp add: resolve_inv_def resolve_start_def attaching_def)
qed (rule resolve_inv_step)

text \<open>A caller that runs alone takes exactly the steps of \<open>resolve\<close>.\<close>

lemma resolve_alone:
  assumes "resolve n init z = (a, z')"
    and r: "rs_pc r i = Idle" "rs_lock r = None" "rs_resolved r = lz_resolved z" "rs_shared r = lz_shared z"
  shows "\<exists>r'. (resolve_step n)\<^sup>*\<^sup>* r r' \<and> rs_pc r' i = Answered a \<and> rs_resolved r' = lz_resolved z' \<and> rs_lock r' = None \<and>
     (\<forall>j. j \<noteq> i \<longrightarrow> rs_pc r' j = rs_pc r j)"
proof (cases "lz_resolved z")
  case (Some c)
  with r resolve_step.Hit [of r i c n] assms(1) show ?thesis
    by (intro exI [of _ "goto i (Answered (Inr c)) r"]) (auto simp: resolve_def goto_def)
next
  case None
  define r2 where "r2 = goto i Checking (r\<lparr>rs_lock := Some i\<rparr>)"
  have "resolve_step n r (goto i Waiting r)" using r None by (intro resolve_step.Miss) simp_all
  moreover have "resolve_step n (goto i Waiting r) (goto i Checking (goto i Waiting r\<lparr>rs_lock := Some i\<rparr>))"
    using r by (intro resolve_step.Lock) (simp_all add: goto_def)
  moreover have "goto i Checking (goto i Waiting r\<lparr>rs_lock := Some i\<rparr>) = r2" by (simp add: r2_def goto_def)
  ultimately have to2: "(resolve_step n)\<^sup>*\<^sup>* r r2" by (metis rtranclp.simps)
  have r2: "rs_pc r2 i = Checking" "rs_resolved r2 = None" "rs_shared r2 = lz_shared z" "\<forall>j. j \<noteq> i \<longrightarrow> rs_pc r2 j = rs_pc r j"
    using r None by (simp_all add: r2_def goto_def)
  from assms(1) None show ?thesis
  proof (cases rule: resolve_cases)
    case unconnected
    with resolve_step.Unconnected [OF r2(1,2), of n] r2 to2 None show ?thesis
      by (intro exI [of _ "release (goto i (Answered (Inl (not_connected n))) r2)"]) (auto simp: resolve_simps)
  next
    case (failed c e s)
    let ?r3 = "goto i (Opening c) r2"
    have "resolve_step n r2 ?r3" using r2 failed by (intro resolve_step.Open) simp_all
    moreover have "resolve_step n ?r3 (release (goto i (Answered (Inl e)) ?r3))"
      by (intro resolve_step.Failed [where c = c]) (simp add: goto_def)
    ultimately have "(resolve_step n)\<^sup>*\<^sup>* r (release (goto i (Answered (Inl e)) ?r3))" using to2 by (meson rtranclp.rtrancl_into_rtrancl)
    with failed r2 show ?thesis by (intro exI [of _ "release (goto i (Answered (Inl e)) ?r3)"]) (auto simp: resolve_simps)
  next
    case (attached c s)
    let ?r3 = "goto i (Opening c) r2"
    let ?r4 = "goto i (Attaching c) (?r3\<lparr>rs_inits := Suc (rs_inits ?r3)\<rparr>)"
    let ?r5 = "release (goto i (Answered (Inr c)) (?r4\<lparr>rs_resolved := Some c\<rparr>))"
    have "resolve_step n r2 ?r3" using r2 attached by (intro resolve_step.Open) simp_all
    moreover have "resolve_step n ?r3 ?r4" by (rule resolve_step.Opened) (simp add: goto_def)
    moreover have "resolve_step n ?r4 ?r5" by (rule resolve_step.Attach) (simp add: goto_def)
    ultimately have "(resolve_step n)\<^sup>*\<^sup>* r ?r5" using to2 by (meson rtranclp.rtrancl_into_rtrancl)
    with attached r2 show ?thesis by (intro exI [of _ ?r5]) (auto simp: resolve_simps)
  qed simp
qed

lemma two_callers:
  "\<exists>r. (resolve_step n)\<^sup>*\<^sup>* (resolve_start (Some (5 :: nat))) r \<and> rs_pc r 0 = Answered (Inr 5) \<and> rs_pc r 1 = Answered (Inr 5)"
proof -
  let ?r0 = "resolve_start (Some (5 :: nat))"
  let ?r1 = "goto 1 Waiting ?r0"
  have "resolve_step n ?r0 ?r1" by (rule resolve_step.Miss) (simp_all add: resolve_start_def)
  moreover have "resolve n (\<lambda>s. (Inr (), s)) (lazy_new (Some 5) (\<lambda>_. ())) =
      (Inr 5, lazy_new (Some 5) (\<lambda>_. ())\<lparr>lz_dbs := (\<lambda>_. ())(5 := ()), lz_resolved := Some (5 :: nat)\<rparr>)"
    by (simp add: resolve_def lazy_new_def)
  from resolve_alone [OF this, of ?r1 0]
  obtain r where "(resolve_step n)\<^sup>*\<^sup>* ?r1 r" and r: "rs_pc r 0 = Answered (Inr 5)" "rs_resolved r = Some 5" "rs_lock r = None" "rs_pc r 1 = Waiting"
    by (auto simp: resolve_start_def goto_def lazy_new_def)
  moreover have "resolve_step n r (goto 1 Checking (r\<lparr>rs_lock := Some 1\<rparr>))" using r by (intro resolve_step.Lock)
  moreover have "resolve_step n (goto 1 Checking (r\<lparr>rs_lock := Some 1\<rparr>)) (release (goto 1 (Answered (Inr 5)) (goto 1 Checking (r\<lparr>rs_lock := Some 1\<rparr>))))"
    using r by (intro resolve_step.Late) (simp_all add: goto_def)
  ultimately have "(resolve_step n)\<^sup>*\<^sup>* ?r0 (release (goto 1 (Answered (Inr 5)) (goto 1 Checking (r\<lparr>rs_lock := Some 1\<rparr>))))"
    by (meson converse_rtranclp_into_rtranclp rtranclp.rtrancl_into_rtrancl)
  with r show ?thesis by (intro exI conjI) (assumption, simp_all add: resolve_simps)
qed

text \<open>
  C28: However many callers use the audit storage at once, however the pool agent fills its handle meanwhile and whichever callers are
  dropped on the way, all callers that got a storage got the same one, the attached one. The schema is initialized
  successfully at most once, not counting initializations whose caller was dropped before it had stored the result.
\<close>

theorem lazy_attaches_once:
  assumes run: "(resolve_step n)\<^sup>*\<^sup>* (resolve_start shared) r"
  shows "(\<forall>i c. rs_pc r i = Answered (Inr c) \<longrightarrow> rs_resolved r = Some c) \<and> rs_inits r \<le> Suc (rs_drops r) \<and>
    (\<forall>i j. holding (rs_pc r i) \<and> holding (rs_pc r j) \<longrightarrow> i = j)"
proof -
  from run have inv: "resolve_inv r" by (rule resolve_reachable_inv)
  have "rs_resolved r = None" if "attaching r \<noteq> 0"
    using inv that by (auto simp: resolve_inv_def attaching_def split: option.splits resolve_pc.splits)
  then have "rs_inits r \<le> Suc (rs_drops r)"
    using inv by (auto simp: resolve_inv_def attaching_def split: option.splits resolve_pc.splits)
  with inv show ?thesis by (auto simp: resolve_inv_def)
qed

theorem lazy_attaches_once_witness:
  "\<exists>r :: nat resolving. rs_pc r 0 = Answered (Inr 5) \<and> rs_pc r 1 = Answered (Inr 5) \<and> rs_resolved r = Some 5 \<and> rs_inits r \<le> Suc (rs_drops r)"
proof -
  obtain r where run: "(resolve_step ''Turso'')\<^sup>*\<^sup>* (resolve_start (Some (5 :: nat))) r"
    and pc: "rs_pc r 0 = Answered (Inr 5)" "rs_pc r 1 = Answered (Inr 5)"
    using two_callers by blast
  from lazy_attaches_once [OF run] pc show ?thesis by (intro exI [of _ r]) simp
qed

text \<open>A waiting caller never waits for nobody: the lock is free or its holder has a step.\<close>

lemma waiting_progress:
  assumes "(resolve_step n)\<^sup>*\<^sup>* (resolve_start shared) r" and "rs_pc r i = Waiting"
  shows "\<exists>j r'. resolve_step n r r' \<and> rs_pc r' j \<noteq> rs_pc r j \<and> (j = i \<or> rs_lock r = Some j)"
proof (cases "rs_lock r")
  case None
  with assms(2) have "resolve_step n r (goto i Checking (r\<lparr>rs_lock := Some i\<rparr>))" by (intro resolve_step.Lock)
  with assms(2) show ?thesis by (intro exI [of _ i]) (auto simp: goto_def)
next
  case (Some j)
  with resolve_reachable_inv [OF assms(1)] have "holding (rs_pc r j)" by (simp add: resolve_inv_def)
  then have "\<exists>r'. resolve_step n r r' \<and> rs_pc r' j \<noteq> rs_pc r j"
  proof (cases "rs_pc r j")
    case Checking
    consider c where "rs_resolved r = Some c" | "rs_resolved r = None" "rs_shared r = None" | c where "rs_resolved r = None" "rs_shared r = Some c"
      by fastforce
    then show ?thesis
    proof cases
      case 1 from resolve_step.Late [OF Checking 1, of n] Checking show ?thesis by (intro exI conjI) (auto simp: resolve_simps)
    next
      case 2 from resolve_step.Unconnected [OF Checking 2, of n] Checking show ?thesis by (intro exI conjI) (auto simp: resolve_simps)
    next
      case 3 from resolve_step.Open [OF Checking 3, of n] Checking show ?thesis by (intro exI conjI) (auto simp: resolve_simps)
    qed
  next
    case (Opening c)
    from resolve_step.Opened [OF this, of n] Opening show ?thesis by (intro exI conjI) (auto simp: resolve_simps)
  next
    case (Attaching c)
    from resolve_step.Attach [OF this, of n] Attaching show ?thesis by (intro exI conjI) (auto simp: resolve_simps)
  qed simp_all
  with Some show ?thesis by blast
qed
end
