(* ===== verification/Tls_Rotation.thy ===== *)
theory Tls_Rotation
  imports Request
begin

text \<open>
  TLS credentials of the listeners and their rotation (\<^verbatim>\<open>src/acton-service/src/tls.rs\<close>): loading credential files into a
  server configuration, the source that holds the current configuration, the fingerprint of the files, the poll that
  reloads them when the fingerprint changes, the handle over the sources of all listeners, and the task that accepts
  connections and runs their handshakes.

  PEM decoding, rustls and the standard hasher are the functions of \<open>tls_env\<close>. Files change while they are read, so a
  call is given the disk at each of its reads: \<open>rd i\<close> is the disk at the i-th one. Durations are in nanoseconds.
\<close>

subsection \<open>Files\<close>

datatype disk_file = Missing string | Unreadable string | Contents string

type_synonym disk = "string \<Rightarrow> disk_file"

text \<open>\<^verbatim>\<open>std::fs::read\<close>.\<close>

fun read_file :: "disk_file \<Rightarrow> string + string" where
  "read_file (Missing e) = Inl e"
| "read_file (Unreadable e) = Inl e"
| "read_file (Contents b) = Inr b"

text \<open>What is written into the hasher: paths, lengths and contents.\<close>

datatype hash_item = HashPath string | HashLength nat | HashBytes string

record tls_env =
  te_pem_io :: "string \<Rightarrow> string"
  te_pem_certs :: "string \<Rightarrow> (string + string) list"
  te_pem_key :: "string \<Rightarrow> string + string"
  te_root_add :: "string \<Rightarrow> string option"
  te_client_verifier :: "string list \<Rightarrow> string option"
  te_single_cert :: "string list \<Rightarrow> string \<Rightarrow> string option"
  te_finish :: "hash_item list \<Rightarrow> u64"

text \<open>\<^verbatim>\<open>collect\<close> into a \<^verbatim>\<open>Result\<close>: the first error wins.\<close>

fun collect_results :: "('e + 'a) list \<Rightarrow> 'e + 'a list" where
  "collect_results [] = Inr []"
| "collect_results (Inl e # _) = Inl e"
| "collect_results (Inr a # rs) = (case collect_results rs of Inl e \<Rightarrow> Inl e | Inr as \<Rightarrow> Inr (a # as))"

text \<open>
  \<^verbatim>\<open>pem_file_iter\<close> fails to open a missing file; of a file it could open but not read it yields the error as an item. The
  two results are the failure to open and the collected items.
\<close>

fun pem_file_certs :: "tls_env \<Rightarrow> disk_file \<Rightarrow> string + string + string list" where
  "pem_file_certs env (Missing e) = Inl (te_pem_io env e)"
| "pem_file_certs env (Unreadable e) = Inr (Inl (te_pem_io env e))"
| "pem_file_certs env (Contents b) = Inr (collect_results (te_pem_certs env b))"

fun pem_file_key :: "tls_env \<Rightarrow> disk_file \<Rightarrow> string + string" where
  "pem_file_key env (Contents b) = te_pem_key env b"
| "pem_file_key env (Missing e) = Inl (te_pem_io env e)"
| "pem_file_key env (Unreadable e) = Inl (te_pem_io env e)"

subsection \<open>Loading\<close>

record tls_config =
  tl_enabled :: bool
  tl_cert_path :: string
  tl_key_path :: string
  tl_client_ca_path :: "string option"
  tl_client_auth_optional :: bool
  tl_reload_interval_secs :: "u64 option"
  tl_reload_on_sighup :: bool
  tl_handshake_timeout_secs :: "u64 option"

datatype client_auth = NoClientAuth | ClientCerts (ca_roots: "string list") (ca_optional: bool)

record server_config =
  sv_chain :: "string list"
  sv_key :: string
  sv_client_auth :: client_auth
  sv_alpn :: "string list"

definition in_quotes :: "string \<Rightarrow> string" where
  "in_quotes s = [CHR 0x27] @ s @ [CHR 0x27]"

fun add_roots :: "tls_env \<Rightarrow> string \<Rightarrow> string \<Rightarrow> string list \<Rightarrow> string list \<Rightarrow> error + string list" where
  "add_roots env role path roots [] = Inr roots"
| "add_roots env role path roots (cert # certs) =
     (case te_root_add env cert of
        Some e \<Rightarrow> Inl (Tls (''Failed to add '' @ role @ '' certificate from '' @ in_quotes path @ '' to trust store: '' @ e))
      | None \<Rightarrow> add_roots env role path (roots @ [cert]) certs)"

definition load_root_store :: "tls_env \<Rightarrow> disk \<Rightarrow> string \<Rightarrow> string \<Rightarrow> error + string list" where
  "load_root_store env d path role =
     (case pem_file_certs env (d path) of
        Inl e \<Rightarrow> Inl (Tls (''Failed to open '' @ role @ '' file '' @ in_quotes path @ '': '' @ e))
      | Inr (Inl e) \<Rightarrow> Inl (Tls (''Failed to parse '' @ role @ '' certificates from '' @ in_quotes path @ '': '' @ e))
      | Inr (Inr certs) \<Rightarrow>
          if certs = [] then Inl (Tls (''The '' @ role @ '' file '' @ in_quotes path @ '' contains no certificates''))
          else add_roots env role path [] certs)"

definition load_client_ca_roots :: "tls_env \<Rightarrow> disk \<Rightarrow> string \<Rightarrow> error + string list" where
  "load_client_ca_roots env d path = load_root_store env d path ''client CA''"

definition build_client_verifier :: "tls_env \<Rightarrow> string list \<Rightarrow> bool \<Rightarrow> error + client_auth" where
  "build_client_verifier env roots is_optional =
     (case te_client_verifier env roots of
        Some e \<Rightarrow> Inl (Tls (''Failed to build client certificate verifier: '' @ e))
      | None \<Rightarrow> Inr (ClientCerts roots is_optional))"

definition client_auth_of :: "tls_env \<Rightarrow> disk \<Rightarrow> tls_config \<Rightarrow> error + client_auth" where
  "client_auth_of env d config =
     (case tl_client_ca_path config of
        None \<Rightarrow> Inr NoClientAuth
      | Some ca_path \<Rightarrow>
          (case load_client_ca_roots env d ca_path of
             Inl e \<Rightarrow> Inl e
           | Inr roots \<Rightarrow> build_client_verifier env roots (tl_client_auth_optional config)))"

definition load_server_config :: "tls_env \<Rightarrow> (nat \<Rightarrow> disk) \<Rightarrow> tls_config \<Rightarrow> error + server_config" where
  "load_server_config env rd config =
     (case pem_file_certs env (rd 0 (tl_cert_path config)) of
        Inl e \<Rightarrow> Inl (Tls (''Failed to open TLS cert file '' @ in_quotes (tl_cert_path config) @ '': '' @ e))
      | Inr (Inl e) \<Rightarrow> Inl (Tls (''Failed to parse TLS certificates: '' @ e))
      | Inr (Inr cert_chain) \<Rightarrow>
          if cert_chain = [] then Inl (Tls ''TLS cert file contains no certificates'')
          else case pem_file_key env (rd 1 (tl_key_path config)) of
            Inl e \<Rightarrow> Inl (Tls (''Failed to parse TLS private key from '' @ in_quotes (tl_key_path config) @ '': '' @ e))
          | Inr key \<Rightarrow>
              (case client_auth_of env (rd 2) config of
                 Inl e \<Rightarrow> Inl e
               | Inr client_auth \<Rightarrow>
                   (case te_single_cert env cert_chain key of
                      Some e \<Rightarrow> Inl (Tls (''Failed to build TLS server config: '' @ e))
                    | None \<Rightarrow> Inr \<lparr>sv_chain = cert_chain, sv_key = key, sv_client_auth = client_auth,
                                sv_alpn = [''h2'', ''http/1.1'']\<rparr>)))"

subsection \<open>The source of a listener's configuration\<close>

definition credential_paths :: "tls_config \<Rightarrow> string list" where
  "credential_paths config =
     [tl_cert_path config, tl_key_path config] @ (case tl_client_ca_path config of None \<Rightarrow> [] | Some p \<Rightarrow> [p])"

fun hash_files :: "(nat \<Rightarrow> disk) \<Rightarrow> nat \<Rightarrow> string list \<Rightarrow> string + hash_item list" where
  "hash_files rd i [] = Inr []"
| "hash_files rd i (path # paths) =
     (case read_file (rd i path) of
        Inl e \<Rightarrow> Inl e
      | Inr bytes \<Rightarrow>
          (case hash_files rd (Suc i) paths of
             Inl e \<Rightarrow> Inl e
           | Inr items \<Rightarrow> Inr ([HashPath path, HashLength (length bytes), HashBytes bytes] @ items)))"

definition fingerprint_credentials :: "tls_env \<Rightarrow> (nat \<Rightarrow> disk) \<Rightarrow> tls_config \<Rightarrow> string + u64" where
  "fingerprint_credentials env rd config =
     (case hash_files rd 0 (credential_paths config) of Inl e \<Rightarrow> Inl e | Inr items \<Rightarrow> Inr (te_finish env items))"

text \<open>The reads after those of the fingerprint.\<close>

definition after_fingerprint :: "tls_config \<Rightarrow> (nat \<Rightarrow> disk) \<Rightarrow> nat \<Rightarrow> disk" where
  "after_fingerprint config rd i = rd (length (credential_paths config) + i)"

record tls_config_source =
  so_current :: server_config
  so_origin :: "tls_config option"
  so_initial_fingerprint :: "u64 option"

definition from_server_config :: "server_config \<Rightarrow> tls_config_source" where
  "from_server_config server_config = \<lparr>so_current = server_config, so_origin = None, so_initial_fingerprint = None\<rparr>"

definition from_tls_config :: "tls_env \<Rightarrow> (nat \<Rightarrow> disk) \<Rightarrow> tls_config \<Rightarrow> error + tls_config_source" where
  "from_tls_config env rd config =
     (let initial_fingerprint = (case fingerprint_credentials env rd config of Inr f \<Rightarrow> Some f | Inl _ \<Rightarrow> None)
      in case load_server_config env (after_fingerprint config rd) config of
           Inl e \<Rightarrow> Inl e
         | Inr server_config \<Rightarrow>
             Inr \<lparr>so_current = server_config, so_origin = Some config, so_initial_fingerprint = initial_fingerprint\<rparr>)"

definition is_reloadable :: "tls_config_source \<Rightarrow> bool" where
  "is_reloadable source \<longleftrightarrow> so_origin source \<noteq> None"

definition reload :: "tls_env \<Rightarrow> (nat \<Rightarrow> disk) \<Rightarrow> tls_config_source \<Rightarrow> (error + unit) \<times> tls_config_source" where
  "reload env rd source =
     (case so_origin source of
        None \<Rightarrow> (Inl (Tls (''TLS credentials cannot be reloaded: this source was built from an '' @
                 ''already-loaded ServerConfig and has no files to reread'')), source)
      | Some origin \<Rightarrow>
          (case load_server_config env rd origin of
             Inr server_config \<Rightarrow> (Inr (), source\<lparr>so_current := server_config\<rparr>)
           | Inl e \<Rightarrow> (Inl e, source)))"

datatype reload_tick_result = Unchanged | Reloaded u64 | ReadFailed | ReloadFailed

definition reload_tick ::
  "tls_env \<Rightarrow> (nat \<Rightarrow> disk) \<Rightarrow> tls_config_source \<Rightarrow> u64 option \<Rightarrow> reload_tick_result \<times> tls_config_source" where
  "reload_tick env rd source last_seen =
     (case so_origin source of
        None \<Rightarrow> (Unchanged, source)
      | Some origin \<Rightarrow>
          (case fingerprint_credentials env rd origin of
             Inl e \<Rightarrow> (ReadFailed, source)
           | Inr fingerprint \<Rightarrow>
               if last_seen = Some fingerprint then (Unchanged, source)
               else case reload env (after_fingerprint origin rd) source of
                      (Inr _, source) \<Rightarrow> (Reloaded fingerprint, source)
                    | (Inl _, source) \<Rightarrow> (ReloadFailed, source)))"

text \<open>
  The body of the loop in \<^verbatim>\<open>spawn_reload_poll\<close>, whose variable \<^verbatim>\<open>last_seen\<close> starts as the fingerprint at load time. \<open>completed\<close> is
  false when the blocking task did not complete.
\<close>

definition poll_turn ::
  "tls_env \<Rightarrow> bool \<Rightarrow> (nat \<Rightarrow> disk) \<Rightarrow> tls_config_source \<times> u64 option \<Rightarrow> tls_config_source \<times> u64 option" where
  "poll_turn env completed rd s =
     (if \<not> completed then s
      else case reload_tick env rd (fst s) (snd s) of
             (Reloaded fingerprint, source) \<Rightarrow> (source, Some fingerprint)
           | (_, source) \<Rightarrow> (source, snd s))"

definition poll_start :: "tls_config_source \<Rightarrow> tls_config_source \<times> u64 option" where
  "poll_start source = (source, so_initial_fingerprint source)"

subsection \<open>The sources of all listeners\<close>

text \<open>A source is shared by its clones, so a handle names the sources in a store.\<close>

datatype tls_listener_kind = HttpListener | GrpcListener

definition listener_str :: "tls_listener_kind \<Rightarrow> string" where
  "listener_str k = (case k of HttpListener \<Rightarrow> ''http'' | GrpcListener \<Rightarrow> ''grpc'')"

type_synonym tls_sources = "nat \<Rightarrow> tls_config_source"

record tls_reload_handle =
  rh_http :: "nat option"
  rh_grpc :: "nat option"

definition option_filter :: "('a \<Rightarrow> bool) \<Rightarrow> 'a option \<Rightarrow> 'a option" where
  "option_filter p v = (case v of Some a \<Rightarrow> if p a then Some a else None | None \<Rightarrow> None)"

definition handle_new :: "tls_sources \<Rightarrow> nat option \<Rightarrow> nat option \<Rightarrow> tls_reload_handle" where
  "handle_new st http grpc =
     (let http = option_filter (\<lambda>h. is_reloadable (st h)) http;
          grpc = option_filter (\<lambda>g. http = None \<or> the http \<noteq> g) (option_filter (\<lambda>g. is_reloadable (st g)) grpc)
      in \<lparr>rh_http = http, rh_grpc = grpc\<rparr>)"

definition handle_is_empty :: "tls_reload_handle \<Rightarrow> bool" where
  "handle_is_empty h \<longleftrightarrow> rh_http h = None \<and> rh_grpc h = None"

definition handle_sources :: "tls_reload_handle \<Rightarrow> (tls_listener_kind \<times> nat) list" where
  "handle_sources h =
     (case rh_http h of Some s \<Rightarrow> [(HttpListener, s)] | None \<Rightarrow> []) @
     (case rh_grpc h of Some s \<Rightarrow> [(GrpcListener, s)] | None \<Rightarrow> [])"

fun reload_each ::
  "tls_env \<Rightarrow> (nat \<Rightarrow> nat \<Rightarrow> disk) \<Rightarrow> (tls_listener_kind \<times> nat) list \<Rightarrow> tls_sources \<Rightarrow> (tls_listener_kind \<times> (error + unit)) list \<times> tls_sources" where
  "reload_each env rds [] st = ([], st)"
| "reload_each env rds ((listener, s) # rest) st =
     (case reload env (rds 0) (st s) of
        (r, source) \<Rightarrow>
          (case reload_each env (\<lambda>k. rds (Suc k)) rest (st(s := source)) of (rs, st) \<Rightarrow> ((listener, r) # rs, st)))"

definition reload_all where
  "reload_all env rds h st = reload_each env rds (handle_sources h) st"

subsection \<open>Settings\<close>

definition DEFAULT_HANDSHAKE_TIMEOUT :: nat where
  "DEFAULT_HANDSHAKE_TIMEOUT = from_secs 10"

definition validate_handshake_timeout :: "tls_config \<Rightarrow> string \<Rightarrow> error + nat" where
  "validate_handshake_timeout config sect =
     (case tl_handshake_timeout_secs config of
        None \<Rightarrow> Inr DEFAULT_HANDSHAKE_TIMEOUT
      | Some secs \<Rightarrow>
          if secs = 0 then Inl (Tls (sect @ '' sets handshake_timeout_secs = 0, which would elapse before any '' @
             ''handshake could complete and so fail every connection. Omit the field to use '' @
             ''the default of '' @ show_nat (as_secs DEFAULT_HANDSHAKE_TIMEOUT) @ '' seconds, or set a positive number of seconds.''))
          else Inr (from_secs (unat secs)))"

definition validate_reload_interval :: "tls_config \<Rightarrow> string \<Rightarrow> error + nat option" where
  "validate_reload_interval config sect =
     (case tl_reload_interval_secs config of
        None \<Rightarrow> Inr None
      | Some secs \<Rightarrow>
          if secs = 0 then Inl (Tls (sect @ '' sets reload_interval_secs = 0, which would poll the certificate '' @
             ''files without pause. Omit the field to disable polling, or set a positive '' @ ''number of seconds.''))
          else Inr (Some (from_secs (unat secs))))"

datatype reload_task = PollTask nat tls_listener_kind nat | SighupTask tls_reload_handle

text \<open>\<open>signal_installed\<close> says whether the handler for the signal could be installed.\<close>

definition install_reload_triggers ::
  "tls_reload_handle \<Rightarrow> nat option \<Rightarrow> nat option \<Rightarrow> bool \<Rightarrow> bool \<Rightarrow> reload_task list" where
  "install_reload_triggers h http_interval grpc_interval sighup signal_installed =
     (case (rh_http h, http_interval) of (Some s, Some period) \<Rightarrow> [PollTask s HttpListener period] | _ \<Rightarrow> []) @
     (case (rh_grpc h, grpc_interval) of (Some s, Some period) \<Rightarrow> [PollTask s GrpcListener period] | _ \<Rightarrow> []) @
     (if sighup \<and> \<not> handle_is_empty h \<and> signal_installed then [SighupTask h] else [])"

subsection \<open>What a load reads\<close>

text \<open>A load depends on the credential files only, and on each only at the read of it.\<close>

definition same_files :: "tls_config \<Rightarrow> (nat \<Rightarrow> disk) \<Rightarrow> (nat \<Rightarrow> disk) \<Rightarrow> bool" where
  "same_files config rd rd' \<longleftrightarrow> list_all (\<lambda>i. rd i (credential_paths config ! i) = rd' i (credential_paths config ! i))
     [0..<length (credential_paths config)]"

lemma same_files_iff:
  "same_files config rd rd' \<longleftrightarrow>
     rd 0 (tl_cert_path config) = rd' 0 (tl_cert_path config) \<and> rd 1 (tl_key_path config) = rd' 1 (tl_key_path config) \<and>
     (\<forall>p. tl_client_ca_path config = Some p \<longrightarrow> rd 2 p = rd' 2 p)"
  by (auto simp: same_files_def credential_paths_def upt_rec [of 0] upt_rec [of 1] numeral_2_eq_2 split: option.splits)

lemma load_same_files:
  assumes "same_files config rd rd'"
  shows "load_server_config env rd config = load_server_config env rd' config"
proof -
  have "client_auth_of env (rd 2) config = client_auth_of env (rd' 2) config"
    using assms by (simp add: client_auth_of_def same_files_iff load_client_ca_roots_def load_root_store_def split: option.splits)
  moreover have "rd 0 (tl_cert_path config) = rd' 0 (tl_cert_path config)" "rd 1 (tl_key_path config) = rd' 1 (tl_key_path config)"
    using assms by (simp_all add: same_files_iff)
  ultimately show ?thesis by (simp only: load_server_config_def)
qed

text \<open>The items of two fingerprints are equal only for equal contents.\<close>

lemma hash_files_eq:
  assumes "hash_files rd i paths = Inr items" and "hash_files rd' i paths = Inr items" and "k < length paths"
  shows "rd (i + k) (paths ! k) = rd' (i + k) (paths ! k)"
  using assms
proof (induction paths arbitrary: i k items)
  case (Cons path paths)
  obtain b more b' more' where b: "rd i path = Contents b" "hash_files rd (Suc i) paths = Inr more"
    "items = [HashPath path, HashLength (length b), HashBytes b] @ more"
    and b': "rd' i path = Contents b'" "hash_files rd' (Suc i) paths = Inr more'"
    "items = [HashPath path, HashLength (length b'), HashBytes b'] @ more'"
    using Cons.prems(1,2) by (auto split: sum.splits elim!: read_file.elims)
  then have "b = b'" "more = more'" by simp_all
  with Cons.IH [of "Suc i" more] b b' Cons.prems(3) show ?case by (cases k) auto
qed simp

lemma fingerprint_same_files:
  assumes "hash_files rd 0 (credential_paths config) = Inr items" and "hash_files rd' 0 (credential_paths config) = Inr items"
  shows "same_files config rd rd'"
  using hash_files_eq [OF assms] by (auto simp: same_files_def list_all_iff)

subsection \<open>Rotation\<close>

text \<open>
  Time is discrete, and \<open>disk t\<close> is the disk at \<open>t\<close>. A call reads at the instants \<open>ts 0, ts 1, \<dots>\<close>, at most six of them, which do
  not go backwards. The runs of a source: it is loaded, then turns of its poll and reloads on request (a signal, the
  handle) follow one another.
\<close>

definition instants :: "nat \<Rightarrow> (nat \<Rightarrow> nat) \<Rightarrow> nat \<Rightarrow> bool" where
  "instants t ts t' \<longleftrightarrow> mono ts \<and> t \<le> ts 0 \<and> ts 5 \<le> t'"

abbreviation reads :: "(nat \<Rightarrow> disk) \<Rightarrow> (nat \<Rightarrow> nat) \<Rightarrow> nat \<Rightarrow> disk" where
  "reads disk ts \<equiv> \<lambda>i. disk (ts i)"

inductive rotation_run :: "tls_env \<Rightarrow> (nat \<Rightarrow> disk) \<Rightarrow> tls_config \<Rightarrow> tls_config_source \<Rightarrow> u64 option \<Rightarrow> nat \<Rightarrow> bool"
  for env disk config where
  Loaded: "from_tls_config env (reads disk ts) config = Inr source \<Longrightarrow> instants 0 ts t \<Longrightarrow> poll_start source = (source, seen) \<Longrightarrow>
    rotation_run env disk config source seen t"
| Poll: "rotation_run env disk config source seen t \<Longrightarrow> instants t ts t' \<Longrightarrow>
    poll_turn env completed (reads disk ts) (source, seen) = (source', seen') \<Longrightarrow> rotation_run env disk config source' seen' t'"
| Request: "rotation_run env disk config source seen t \<Longrightarrow> instants t ts t' \<Longrightarrow>
    reload env (reads disk ts) source = (r, source') \<Longrightarrow> rotation_run env disk config source' seen t'"

text \<open>
  The invariant: the current configuration is what a load gave whose reads lie in the past, and the fingerprint last
  seen was taken from the files before that load.
\<close>

definition loaded_by :: "tls_env \<Rightarrow> (nat \<Rightarrow> disk) \<Rightarrow> tls_config \<Rightarrow> server_config \<Rightarrow> nat \<Rightarrow> nat \<Rightarrow> bool" where
  "loaded_by env disk config c lo hi \<longleftrightarrow>
     (\<exists>tl. (\<forall>i < length (credential_paths config). lo \<le> tl i \<and> tl i \<le> hi) \<and> load_server_config env (reads disk tl) config = Inr c)"

definition seen_by :: "tls_env \<Rightarrow> (nat \<Rightarrow> disk) \<Rightarrow> tls_config \<Rightarrow> u64 option \<Rightarrow> nat \<Rightarrow> bool" where
  "seen_by env disk config seen hi \<longleftrightarrow>
     (\<forall>f. seen = Some f \<longrightarrow> (\<exists>tf. (\<forall>i < length (credential_paths config). tf i \<le> hi) \<and>
        fingerprint_credentials env (reads disk tf) config = Inr f))"

definition rotation_inv :: "tls_env \<Rightarrow> (nat \<Rightarrow> disk) \<Rightarrow> tls_config \<Rightarrow> tls_config_source \<Rightarrow> u64 option \<Rightarrow> nat \<Rightarrow> bool" where
  "rotation_inv env disk config source seen t \<longleftrightarrow> so_origin source = Some config \<and>
     (\<exists>m. seen_by env disk config seen m \<and> loaded_by env disk config (so_current source) m t)"

lemma paths_at_most_three: "length (credential_paths config) \<le> 3" "2 \<le> length (credential_paths config)"
  by (simp_all add: credential_paths_def split: option.splits)

lemma instants_between:
  assumes "instants t ts t'" and "i \<le> 5"
  shows "t \<le> ts i" and "ts i \<le> t'"
  using assms monoD [of ts 0 i] monoD [of ts i 5] by (auto simp: instants_def)

text \<open>A fingerprint followed by a load, as at start-up and in a tick that reloads.\<close>

lemma fingerprint_then_load:
  assumes ts: "instants t ts t'" and load: "load_server_config env (after_fingerprint config (reads disk ts)) config = Inr c"
    and seen: "\<And>f. seen = Some f \<Longrightarrow> fingerprint_credentials env (reads disk ts) config = Inr f"
  shows "\<exists>m. seen_by env disk config seen m \<and> loaded_by env disk config c m t'"
proof (intro exI conjI)
  let ?k = "length (credential_paths config)"
  have m: "mono ts" using ts by (simp add: instants_def)
  show "seen_by env disk config seen (ts ?k)"
    unfolding seen_by_def using seen monoD [OF m] by (metis less_imp_le)
  have "ts ?k \<le> ts (?k + i) \<and> ts (?k + i) \<le> t'" if "i < ?k" for i
    using monoD [OF m, of ?k "?k + i"] instants_between(2) [OF ts, of "?k + i"] that paths_at_most_three(1) [of config] by simp
  moreover have "load_server_config env (reads disk (\<lambda>i. ts (?k + i))) config = Inr c"
    using load by (simp add: after_fingerprint_def [abs_def])
  ultimately show "loaded_by env disk config c (ts ?k) t'" unfolding loaded_by_def
    by (intro exI [of _ "\<lambda>i. ts (?k + i)"] conjI allI impI) simp_all
qed

lemma reload_cases:
  assumes "reload env rd source = (r, source')" and "so_origin source = Some config"
  obtains (stored) c where "r = Inr ()" "load_server_config env rd config = Inr c" "source' = source\<lparr>so_current := c\<rparr>"
  | (kept) e where "r = Inl e" "load_server_config env rd config = Inl e" "source' = source"
  using assms by (auto simp: reload_def split: sum.splits)

lemma tick_cases:
  assumes "reload_tick env rd source seen = (r, source')" and "so_origin source = Some config"
  obtains (same) f where "r = Unchanged" "source' = source" "seen = Some f" "fingerprint_credentials env rd config = Inr f"
  | (unread) e where "r = ReadFailed" "source' = source" "fingerprint_credentials env rd config = Inl e"
  | (reloaded) f c where "r = Reloaded f" "fingerprint_credentials env rd config = Inr f" "seen \<noteq> Some f"
      "load_server_config env (after_fingerprint config rd) config = Inr c" "source' = source\<lparr>so_current := c\<rparr>"
  | (failed) f e where "r = ReloadFailed" "source' = source" "fingerprint_credentials env rd config = Inr f" "seen \<noteq> Some f"
      "load_server_config env (after_fingerprint config rd) config = Inl e"
  using assms by (auto simp: reload_tick_def reload_def split: sum.splits if_splits)

lemma rotation_inv_later:
  "rotation_inv env disk config source seen t \<Longrightarrow> t \<le> t' \<Longrightarrow> rotation_inv env disk config source seen t'"
  unfolding rotation_inv_def loaded_by_def by (meson le_trans)

lemma rotation_inv_poll:
  assumes inv: "rotation_inv env disk config source seen t" and ts: "instants t ts t'"
    and turn: "poll_turn env completed (reads disk ts) (source, seen) = (source', seen')"
  shows "rotation_inv env disk config source' seen' t'"
proof (cases completed)
  case False
  with turn rotation_inv_later [OF inv] ts show ?thesis
    using instants_between [OF ts, of 0] by (simp add: poll_turn_def)
next
  case True
  obtain r s where tick: "reload_tick env (reads disk ts) source seen = (r, s)" by fastforce
  have o: "so_origin source = Some config" using inv by (simp add: rotation_inv_def)
  have "rotation_inv env disk config source seen t'" using rotation_inv_later [OF inv] instants_between [OF ts, of 0] by simp
  from tick o show ?thesis
  proof (cases rule: tick_cases)
    case (reloaded f c)
    with True turn tick have "source' = source\<lparr>so_current := c\<rparr>" "seen' = Some f" by (auto simp: poll_turn_def)
    with fingerprint_then_load [OF ts reloaded(4), of "Some f"] reloaded(2) o show ?thesis by (simp add: rotation_inv_def)
  qed (use \<open>rotation_inv env disk config source seen t'\<close> True turn tick in \<open>auto simp: poll_turn_def\<close>)
qed

lemma rotation_inv_request:
  assumes inv: "rotation_inv env disk config source seen t" and ts: "instants t ts t'"
    and "reload env (reads disk ts) source = (r, source')"
  shows "rotation_inv env disk config source' seen t'"
proof -
  have later: "rotation_inv env disk config source seen t'" using rotation_inv_later [OF inv] instants_between [OF ts, of 0] by simp
  have o: "so_origin source = Some config" using inv by (simp add: rotation_inv_def)
  from assms(3) o show ?thesis
  proof (cases rule: reload_cases)
    case (stored c)
    obtain m where m: "seen_by env disk config seen m" "loaded_by env disk config (so_current source) m t"
      using inv by (auto simp: rotation_inv_def)
    then have "m \<le> t" using paths_at_most_three(2) [of config] by (auto simp: loaded_by_def intro: le_trans dest!: spec [of _ 0])
    then have "loaded_by env disk config c m t'"
      using stored(2) instants_between [OF ts] paths_at_most_three(1) [of config] unfolding loaded_by_def
      by (intro exI [of _ ts]) (auto intro: le_trans)
    with m stored o show ?thesis by (auto simp: rotation_inv_def)
  qed (use later in simp)
qed

lemma rotation_inv_start:
  assumes "from_tls_config env (reads disk ts) config = Inr source" and ts: "instants t ts t'"
  shows "rotation_inv env disk config source (so_initial_fingerprint source) t'"
proof -
  obtain c where load: "load_server_config env (after_fingerprint config (reads disk ts)) config = Inr c"
    using assms(1) by (cases "load_server_config env (after_fingerprint config (reads disk ts)) config") (simp_all add: from_tls_config_def)
  with assms(1) have source: "so_current source = c" "so_origin source = Some config"
    "so_initial_fingerprint source = (case fingerprint_credentials env (reads disk ts) config of Inr f \<Rightarrow> Some f | Inl _ \<Rightarrow> None)"
    by (auto simp: from_tls_config_def Let_def)
  have "fingerprint_credentials env (reads disk ts) config = Inr f" if "so_initial_fingerprint source = Some f" for f
    using that unfolding source(3) by (simp split: sum.splits)
  from fingerprint_then_load [OF ts load this] show ?thesis by (simp add: rotation_inv_def source(1,2))
qed

lemma rotation_run_inv: "rotation_run env disk config source seen t \<Longrightarrow> rotation_inv env disk config source seen t"
proof (induction rule: rotation_run.induct)
  case (Loaded ts source t seen)
  from rotation_inv_start [OF Loaded(1,2)] Loaded(3) show ?case by (simp add: poll_start_def)
qed (auto intro: rotation_inv_poll rotation_inv_request)

text \<open>
  When files never return to former contents and no two contents that occur have the same fingerprint, an unchanged
  fingerprint means an unchanged configuration.
\<close>

definition never_returns :: "(nat \<Rightarrow> disk) \<Rightarrow> tls_config \<Rightarrow> bool" where
  "never_returns disk config \<longleftrightarrow> (\<forall>p \<in> set (credential_paths config). \<forall>t\<^sub>1 t\<^sub>2 t\<^sub>3.
     t\<^sub>1 \<le> t\<^sub>2 \<and> t\<^sub>2 \<le> t\<^sub>3 \<and> disk t\<^sub>1 p = disk t\<^sub>3 p \<longrightarrow> disk t\<^sub>2 p = disk t\<^sub>3 p)"

definition no_collision :: "tls_env \<Rightarrow> (nat \<Rightarrow> disk) \<Rightarrow> tls_config \<Rightarrow> bool" where
  "no_collision env disk config \<longleftrightarrow>
     inj_on (te_finish env) {items. \<exists>tf. hash_files (reads disk tf) 0 (credential_paths config) = Inr items}"

lemma equal_fingerprints:
  assumes "no_collision env disk config" and "fingerprint_credentials env (reads disk tf) config = Inr f"
    and "fingerprint_credentials env (reads disk ts) config = Inr f"
  shows "same_files config (reads disk tf) (reads disk ts)"
proof -
  obtain a b where ab: "hash_files (reads disk tf) 0 (credential_paths config) = Inr a"
    "hash_files (reads disk ts) 0 (credential_paths config) = Inr b" "te_finish env a = te_finish env b"
    using assms(2,3) by (auto simp: fingerprint_credentials_def split: sum.splits)
  moreover from ab have "a = b" using assms(1) unfolding no_collision_def by (blast dest: inj_onD)
  ultimately show ?thesis using fingerprint_same_files by blast
qed

lemma unchanged_is_current:
  assumes inv: "rotation_inv env disk config source seen t" and nr: "never_returns disk config"
    and nc: "no_collision env disk config" and ts: "instants t ts t'"
    and seen: "seen = Some f" "fingerprint_credentials env (reads disk ts) config = Inr f"
  shows "load_server_config env (reads disk ts) config = Inr (so_current source)"
proof -
  let ?k = "length (credential_paths config)"
  obtain m where m: "seen_by env disk config seen m" "loaded_by env disk config (so_current source) m t"
    using inv unfolding rotation_inv_def by blast
  then obtain tf tl where tf: "\<forall>i < ?k. tf i \<le> m" "fingerprint_credentials env (reads disk tf) config = Inr f"
    and tl: "\<forall>i < ?k. m \<le> tl i \<and> tl i \<le> t" "load_server_config env (reads disk tl) config = Inr (so_current source)"
    using seen(1) unfolding seen_by_def loaded_by_def by metis
  have same: "same_files config (reads disk tf) (reads disk ts)" using equal_fingerprints [OF nc tf(2) seen(2)] .
  have "disk (tl i) (credential_paths config ! i) = disk (ts i) (credential_paths config ! i)" if i: "i < ?k" for i
  proof -
    have "tf i \<le> tl i" "tl i \<le> ts i"
      using i tf(1) tl(1) instants_between(1) [OF ts, of i] paths_at_most_three(1) [of config] by (auto intro: le_trans)
    moreover have "disk (tf i) (credential_paths config ! i) = disk (ts i) (credential_paths config ! i)"
      using same i by (auto simp: same_files_def list_all_iff)
    moreover have "credential_paths config ! i \<in> set (credential_paths config)" using i by simp
    ultimately show ?thesis using nr unfolding never_returns_def by blast
  qed
  then have "same_files config (reads disk tl) (reads disk ts)" by (simp add: same_files_def list_all_iff)
  from load_same_files [OF this] tl(2) show ?thesis by simp
qed

lemma load_readable:
  assumes "load_server_config env (\<lambda>_. d) config = Inr c"
  shows "\<exists>f. fingerprint_credentials env (\<lambda>_. d) config = Inr f"
proof -
  have "\<exists>b. d (tl_cert_path config) = Contents b" "\<exists>b. d (tl_key_path config) = Contents b"
    using assms by (cases "d (tl_cert_path config)"; cases "d (tl_key_path config)";
        auto simp: load_server_config_def split: sum.splits if_splits)+
  moreover have "\<exists>b. d p = Contents b" if "tl_client_ca_path config = Some p" for p
    using assms that by (cases "d p"; auto simp: load_server_config_def client_auth_of_def load_client_ca_roots_def
        load_root_store_def split: sum.splits if_splits)
  ultimately show ?thesis
    by (auto simp: fingerprint_credentials_def credential_paths_def split: option.splits)
qed

text \<open>
  C29: Rotated TLS credentials are served. When the credential files have come to rest with contents that load, the next
  completed turn of the poll leaves the listener with the configuration on disk, however the files changed before,
  also between the reads of a turn, whatever turns failed meanwhile, and with reloads on request in between; provided
  no file returns to former contents, and no two contents collide.
\<close>

theorem rotation_is_served:
  assumes run: "rotation_run env disk config source seen t" and nr: "never_returns disk config"
    and nc: "no_collision env disk config" and rest: "\<And>u. t \<le> u \<Longrightarrow> disk u = d"
    and loads: "load_server_config env (\<lambda>_. d) config = Inr c" and ts: "instants t ts t'"
    and turn: "poll_turn env True (reads disk ts) (source, seen) = (source', seen')"
  shows "so_current source' = c"
proof -
  note inv = rotation_run_inv [OF run]
  have mono: "mono ts" using ts by (simp add: instants_def)
  have "t \<le> ts i" for i using ts monoD [OF mono, of 0 i] by (simp add: instants_def)
  then have rd: "reads disk ts = (\<lambda>_. d)" using rest by auto
  have load: "load_server_config env (after_fingerprint config (\<lambda>_. d)) config = Inr c"
    using loads by (simp add: after_fingerprint_def [abs_def])
  obtain f where f: "fingerprint_credentials env (\<lambda>_. d) config = Inr f" using load_readable [OF loads] by blast
  have o: "so_origin source = Some config" using inv by (simp add: rotation_inv_def)
  show ?thesis
  proof (cases "seen = Some f")
    case True
    with f rd have "fingerprint_credentials env (reads disk ts) config = Inr f" by simp
    from unchanged_is_current [OF inv nr nc ts True this] have "so_current source = c" by (simp add: rd loads)
    with True turn f o rd show ?thesis by (simp add: poll_turn_def reload_tick_def)
  next
    case False
    with turn f o rd load show ?thesis by (auto simp: poll_turn_def reload_tick_def reload_def)
  qed
qed

text \<open>At any time the listener serves a configuration that a complete load gave; a reload that fails keeps it.\<close>

theorem current_was_loaded:
  assumes "rotation_run env disk config source seen t"
  shows "\<exists>tl. load_server_config env (reads disk tl) config = Inr (so_current source)"
  using rotation_run_inv [OF assms] by (auto simp: rotation_inv_def loaded_by_def)

subsection \<open>Rotations that are missed\<close>

text \<open>Sample files: a certificate file with one certificate, whose fingerprint is the length of the contents.\<close>

definition sample_tls_env :: tls_env where
  "sample_tls_env =
     \<lparr>te_pem_io = (\<lambda>e. e), te_pem_certs = (\<lambda>b. [Inr b]), te_pem_key = Inr, te_root_add = (\<lambda>_. None),
      te_client_verifier = (\<lambda>_. None), te_single_cert = (\<lambda>_ _. None),
      te_finish = (\<lambda>items. sum_list (map (\<lambda>i. case i of HashLength n \<Rightarrow> of_nat n | _ \<Rightarrow> 0) items))\<rparr>"

definition sample_tls_config :: tls_config where
  "sample_tls_config =
     \<lparr>tl_enabled = True, tl_cert_path = ''c'', tl_key_path = ''k'', tl_client_ca_path = None, tl_client_auth_optional = False,
      tl_reload_interval_secs = Some 60, tl_reload_on_sighup = True, tl_handshake_timeout_secs = None\<rparr>"

definition disk_with :: "string \<Rightarrow> disk" where
  "disk_with cert p = (if p = ''c'' then Contents cert else if p = ''k'' then Contents ''key'' else Missing ''not found'')"

definition sample_server :: "string \<Rightarrow> server_config" where
  "sample_server cert = \<lparr>sv_chain = [cert], sv_key = ''key'', sv_client_auth = NoClientAuth, sv_alpn = [''h2'', ''http/1.1'']\<rparr>"

definition sample_source :: "string \<Rightarrow> string \<Rightarrow> tls_config_source" where
  "sample_source first cert = \<lparr>so_current = sample_server cert, so_origin = Some sample_tls_config,
     so_initial_fingerprint = Some (of_nat (length first) + 3)\<rparr>"

lemmas sample_tls = sample_tls_env_def sample_tls_config_def disk_with_def sample_server_def

lemma sample_paths: "credential_paths sample_tls_config = [''c'', ''k'']"
  by (simp add: credential_paths_def sample_tls_config_def)

lemma sample_load: "load_server_config sample_tls_env (\<lambda>_. disk_with cert) sample_tls_config = Inr (sample_server cert)"
  by (simp add: load_server_config_def client_auth_of_def sample_tls)

lemma sample_fingerprint:
  "fingerprint_credentials sample_tls_env (\<lambda>_. disk_with cert) sample_tls_config = Inr (of_nat (length cert) + 3)"
  by (simp add: fingerprint_credentials_def sample_paths) (simp add: sample_tls)

lemma sample_start:
  assumes "disk t = disk_with cert"
  shows "rotation_run sample_tls_env disk sample_tls_config (sample_source cert cert) (Some (of_nat (length cert) + 3)) t"
  by (rule rotation_run.Loaded [where ts = "\<lambda>_. t"])
    (simp_all add: assms from_tls_config_def after_fingerprint_def [abs_def] sample_load sample_fingerprint sample_source_def
      instants_def poll_start_def mono_def)

lemma sample_turn:
  "poll_turn sample_tls_env True (\<lambda>_. disk_with cert) (sample_source first old, seen) =
     (if seen = Some (of_nat (length cert) + 3) then (sample_source first old, seen)
      else (sample_source first cert, Some (of_nat (length cert) + 3)))"
  by (simp add: poll_turn_def reload_tick_def reload_def sample_source_def sample_fingerprint after_fingerprint_def [abs_def] sample_load)

definition rotated_disk :: "nat \<Rightarrow> disk" where
  "rotated_disk t = (if t < 10 then disk_with ''a'' else disk_with ''new'')"

lemma rotated_disk_rests: "never_returns rotated_disk sample_tls_config"
proof -
  have key: "rotated_disk t ''k'' = Contents ''key''" for t by (simp add: rotated_disk_def disk_with_def)
  have cert: "rotated_disk t ''c'' = (if t < 10 then Contents ''a'' else Contents ''new'')" for t
    by (simp add: rotated_disk_def disk_with_def)
  have "(t\<^sub>1 < 10) = (t\<^sub>3 < 10)" if "rotated_disk t\<^sub>1 ''c'' = rotated_disk t\<^sub>3 ''c''" for t\<^sub>1 t\<^sub>3
    using that by (simp add: cert split: if_splits)
  then have "rotated_disk t\<^sub>2 ''c'' = rotated_disk t\<^sub>3 ''c''"
    if "t\<^sub>1 \<le> t\<^sub>2" "t\<^sub>2 \<le> t\<^sub>3" "rotated_disk t\<^sub>1 ''c'' = rotated_disk t\<^sub>3 ''c''" for t\<^sub>1 t\<^sub>2 t\<^sub>3
    using that by (simp add: cert) (metis le_less_trans)
  then show ?thesis unfolding never_returns_def sample_paths by (auto simp: key)
qed

lemma rotated_disk_injective: "no_collision sample_tls_env rotated_disk sample_tls_config"
proof -
  have "items \<in> {[HashPath ''c'', HashLength 1, HashBytes ''a'', HashPath ''k'', HashLength 3, HashBytes ''key''],
      [HashPath ''c'', HashLength 3, HashBytes ''new'', HashPath ''k'', HashLength 3, HashBytes ''key'']}"
    if "hash_files (reads rotated_disk tf) 0 (credential_paths sample_tls_config) = Inr items" for tf items
    using that by (cases "tf 0 < 10"; cases "tf 1 < 10") (auto simp: sample_paths disk_with_def rotated_disk_def numeral_3_eq_3)
  then have "{items. \<exists>tf. hash_files (reads rotated_disk tf) 0 (credential_paths sample_tls_config) = Inr items} \<subseteq>
      {[HashPath ''c'', HashLength 1, HashBytes ''a'', HashPath ''k'', HashLength 3, HashBytes ''key''],
      [HashPath ''c'', HashLength 3, HashBytes ''new'', HashPath ''k'', HashLength 3, HashBytes ''key'']}" by blast
  moreover have "inj_on (te_finish sample_tls_env) \<dots>" by (simp add: sample_tls_env_def)
  ultimately show ?thesis unfolding no_collision_def by (rule inj_on_subset [rotated])
qed

theorem rotation_is_served_witness:
  "so_current (fst (poll_turn sample_tls_env True (\<lambda>_. disk_with ''new'')
     (sample_source ''a'' ''a'', Some 4))) = sample_server ''new''"
proof -
  have start: "rotation_run sample_tls_env rotated_disk sample_tls_config (sample_source ''a'' ''a'') (Some 4) 0"
    using sample_start [of rotated_disk 0 "''a''"] by (simp add: rotated_disk_def)
  have "poll_turn sample_tls_env True (reads rotated_disk (\<lambda>_. 5)) (sample_source ''a'' ''a'', Some 4) = (sample_source ''a'' ''a'', Some 4)"
    using sample_turn [of "''a''"] by (simp add: rotated_disk_def)
  from rotation_run.Poll [OF start _ this, of 10]
  have run: "rotation_run sample_tls_env rotated_disk sample_tls_config (sample_source ''a'' ''a'') (Some 4) 10"
    by (simp add: instants_def mono_def)
  have rest: "rotated_disk u = disk_with ''new''" if "10 \<le> u" for u using that by (simp add: rotated_disk_def)
  have ts: "instants 10 (\<lambda>_. 10) 10" by (simp add: instants_def mono_def)
  show ?thesis
    by (rule rotation_is_served [OF run rotated_disk_rests rotated_disk_injective rest sample_load ts,
          where seen' = "snd (poll_turn sample_tls_env True (\<lambda>_. disk_with ''new'') (sample_source ''a'' ''a'', Some 4))"])
      (simp_all add: rest)
qed

text \<open>
  Files that return to former contents can be missed: the poll compares with the fingerprint it last saw, which a
  reload on request does not update. A certificate is replaced, reloaded by signal and rolled back within one period:
  the listener keeps the withdrawn certificate, and the poll takes the files for unchanged, now and at every later turn.
\<close>

definition rollback_disk :: "nat \<Rightarrow> disk" where
  "rollback_disk t = (if 10 \<le> t \<and> t < 20 then disk_with ''new'' else disk_with ''a'')"

theorem rollback_is_missed:
  "rotation_run sample_tls_env rollback_disk sample_tls_config (sample_source ''a'' ''new'') (Some 4) 20 \<and>
   (\<forall>ts. (\<forall>i. 20 \<le> ts i) \<longrightarrow> poll_turn sample_tls_env True (reads rollback_disk ts) (sample_source ''a'' ''new'', Some 4) =
      (sample_source ''a'' ''new'', Some 4)) \<and>
   load_server_config sample_tls_env (\<lambda>_. rollback_disk 20) sample_tls_config \<noteq> Inr (so_current (sample_source ''a'' ''new''))"
proof (intro conjI allI impI)
  have start: "rotation_run sample_tls_env rollback_disk sample_tls_config (sample_source ''a'' ''a'') (Some 4) 0"
    using sample_start [of rollback_disk 0 "''a''"] by (simp add: rollback_disk_def)
  have "reload sample_tls_env (reads rollback_disk (\<lambda>_. 10)) (sample_source ''a'' ''a'') = (Inr (), sample_source ''a'' ''new'')"
    by (simp add: reload_def rollback_disk_def sample_source_def sample_load)
  from rotation_run.Request [OF start _ this, of 20]
  show "rotation_run sample_tls_env rollback_disk sample_tls_config (sample_source ''a'' ''new'') (Some 4) 20"
    by (simp add: instants_def mono_def)
  fix ts :: "nat \<Rightarrow> nat" assume "\<forall>i. 20 \<le> ts i"
  then have "rollback_disk (ts i) = disk_with ''a''" for i by (auto simp: rollback_disk_def dest: spec [of _ i])
  then have "reads rollback_disk ts = (\<lambda>_. disk_with ''a'')" by simp
  with sample_turn [of "''a''"] show "poll_turn sample_tls_env True (reads rollback_disk ts) (sample_source ''a'' ''new'', Some 4) =
      (sample_source ''a'' ''new'', Some 4)" by simp
next
  show "load_server_config sample_tls_env (\<lambda>_. rollback_disk 20) sample_tls_config \<noteq> Inr (so_current (sample_source ''a'' ''new''))"
    by (simp add: rollback_disk_def sample_load sample_source_def) (simp add: sample_server_def)
qed

text \<open>
  A reload reads the files and then stores the configuration, and nothing keeps two of them apart. When a reload by
  signal has read the old files, a poll turn loads and stores the new ones, and the first reload stores last, the
  listener serves the old certificate, and the poll takes the files for unchanged.
\<close>

definition store_config :: "server_config \<Rightarrow> tls_config_source \<Rightarrow> tls_config_source" where
  "store_config c source = source\<lparr>so_current := c\<rparr>"

lemma reload_is_load_then_store:
  "so_origin source = Some origin \<Longrightarrow> load_server_config env rd origin = Inr c \<Longrightarrow> reload env rd source = (Inr (), store_config c source)"
  by (simp add: reload_def store_config_def)

theorem overlapping_reload_is_lost:
  assumes old: "load_server_config sample_tls_env (\<lambda>_. disk_with ''a'') sample_tls_config = Inr c"
    and turn: "poll_turn sample_tls_env True (\<lambda>_. disk_with ''new'') (sample_source ''a'' ''a'', Some 4) = (source, seen)"
  shows "poll_turn sample_tls_env True (\<lambda>_. disk_with ''new'') (store_config c source, seen) = (store_config c source, seen)"
    and "so_current (store_config c source) \<noteq> sample_server ''new''"
proof -
  have c: "c = sample_server ''a''" using old by (simp add: sample_load)
  have s: "source = sample_source ''a'' ''new''" "seen = Some 6" using turn sample_turn [of "''new''"] by auto
  have "store_config c source = sample_source ''a'' ''a''" by (simp add: s c store_config_def sample_source_def)
  with sample_turn [of "''new''" "''a''" "''a''" seen]
  show "poll_turn sample_tls_env True (\<lambda>_. disk_with ''new'') (store_config c source, seen) = (store_config c source, seen)"
    by (simp add: s(2))
  show "so_current (store_config c source) \<noteq> sample_server ''new''" by (simp add: c store_config_def sample_server_def)
qed

subsection \<open>The handle\<close>

text \<open>The handle covers every reloadable listener's source, and each source once, also when the listeners share it.\<close>

lemma handle_covers:
  "s \<in> snd ` set (handle_sources (handle_new st http grpc)) \<longleftrightarrow> (http = Some s \<or> grpc = Some s) \<and> is_reloadable (st s)"
  by (auto simp: handle_sources_def handle_new_def option_filter_def Let_def split: option.splits if_splits)

lemma handle_distinct: "distinct (map snd (handle_sources (handle_new st http grpc)))"
  by (auto simp: handle_sources_def handle_new_def option_filter_def Let_def split: option.splits if_splits)

lemma reload_each_result:
  assumes "reload_each env rds ls st = (rs, st')" and "distinct (map snd ls)"
  shows "map fst rs = map fst ls \<and> (\<forall>s. s \<notin> snd ` set ls \<longrightarrow> st' s = st s) \<and>
    (\<forall>k < length ls. reload env (rds k) (st (snd (ls ! k))) = (snd (rs ! k), st' (snd (ls ! k))))"
  using assms
proof (induction ls arbitrary: rds st rs)
  case (Cons l ls)
  obtain listener i where l: "l = (listener, i)" by fastforce
  obtain r source where r: "reload env (rds 0) (st i) = (r, source)" by fastforce
  obtain rs' where rs: "reload_each env (\<lambda>k. rds (Suc k)) ls (st(i := source)) = (rs', st')" "rs = (listener, r) # rs'"
    using Cons.prems(1) l r by (auto split: prod.splits)
  have d: "distinct (map snd ls)" "i \<notin> snd ` set ls" using Cons.prems(2) l by auto
  note IH = Cons.IH [OF rs(1) d(1)]
  have "reload env (rds k) (st (snd ((l # ls) ! k))) = (snd (rs ! k), st' (snd ((l # ls) ! k)))" if k: "k < length (l # ls)" for k
  proof (cases k)
    case 0
    with IH d(2) r rs(2) l show ?thesis by simp
  next
    case (Suc j)
    then have j: "j < length ls" using k by simp
    then have "snd (ls ! j) \<noteq> i" using d(2) nth_mem by (metis image_eqI)
    with IH j Suc rs(2) l show ?thesis by (auto dest!: conjunct2 [THEN conjunct2] spec [of _ j])
  qed
  with IH rs(2) l show ?case by auto
qed simp

text \<open>
  One request reloads every covered source exactly once and reports each: the result for a listener is that of its own
  reload, a failure of one does not keep the other from reloading, and no other source changes.
\<close>

theorem reload_all_each_once:
  assumes "h = handle_new st http grpc" and "reload_all env rds h st = (rs, st')"
  shows "map fst rs = map fst (handle_sources h)"
    and "\<And>k. k < length rs \<Longrightarrow> reload env (rds k) (st (snd (handle_sources h ! k))) = (snd (rs ! k), st' (snd (handle_sources h ! k)))"
    and "\<And>s. s \<notin> snd ` set (handle_sources h) \<Longrightarrow> st' s = st s"
proof -
  have run: "reload_each env rds (handle_sources h) st = (rs, st')" using assms(2) by (simp add: reload_all_def)
  have d: "distinct (map snd (handle_sources h))" using assms(1) handle_distinct by simp
  note result = reload_each_result [OF run d]
  show fst: "map fst rs = map fst (handle_sources h)" using result by simp
  then have "length rs = length (handle_sources h)" using map_eq_imp_length_eq by blast
  then show "reload env (rds k) (st (snd (handle_sources h ! k))) = (snd (rs ! k), st' (snd (handle_sources h ! k)))" if "k < length rs" for k
    using result that by simp
  show "st' s = st s" if "s \<notin> snd ` set (handle_sources h)" for s using result that by simp
qed

text \<open>The listeners' polls and the signal never poll a source twice.\<close>

lemma one_poll_per_source:
  assumes "h = handle_new st http grpc" and "PollTask s k p \<in> set (install_reload_triggers h hi gi sighup ok)"
    and "PollTask s k' p' \<in> set (install_reload_triggers h hi gi sighup ok)"
  shows "k = k' \<and> p = p'"
  using assms by (auto simp: install_reload_triggers_def handle_new_def option_filter_def Let_def split: option.splits if_splits)

lemma reload_interval_positive:
  "validate_reload_interval config sect = Inr (Some period) \<Longrightarrow> 0 < period"
  "validate_handshake_timeout config sect = Inr limit \<Longrightarrow> 0 < limit"
  by (auto simp: validate_reload_interval_def validate_handshake_timeout_def DEFAULT_HANDSHAKE_TIMEOUT_def from_secs_def
      nanos_per_sec_def unat_gt_0 split: option.splits if_splits)

subsection \<open>Handshakes\<close>

text \<open>
  The task that accepts connections (\<^verbatim>\<open>handshake_pump\<close>), the tasks of the handshakes it spawns, and the channel to \<^verbatim>\<open>accept\<close>. A
  handshake task has taken the configuration at accept time; it fails, times out or succeeds, and then waits for room in
  the channel. \<open>pu_accepted\<close> and \<open>pu_served\<close> record what was accepted and what \<^verbatim>\<open>accept\<close> returned.
\<close>

definition HANDSHAKE_CHANNEL_CAPACITY :: nat where
  "HANDSHAKE_CHANNEL_CAPACITY = 1024"

record handshake_pump =
  pu_config :: server_config
  pu_alive :: bool
  pu_shaking :: "(nat \<times> server_config) list"
  pu_sending :: "(nat \<times> server_config) list"
  pu_channel :: "(nat \<times> server_config) list"
  pu_accepted :: "(nat \<times> server_config) list"
  pu_served :: "(nat \<times> server_config) list"

definition pump_start :: "server_config \<Rightarrow> handshake_pump" where
  "pump_start c = \<lparr>pu_config = c, pu_alive = True, pu_shaking = [], pu_sending = [], pu_channel = [], pu_accepted = [], pu_served = []\<rparr>"

definition pump_accept :: "nat \<Rightarrow> handshake_pump \<Rightarrow> handshake_pump" where
  "pump_accept conn p = p\<lparr>pu_shaking := (conn, pu_config p) # pu_shaking p, pu_accepted := (conn, pu_config p) # pu_accepted p\<rparr>"

definition pump_drop :: "handshake_pump \<Rightarrow> handshake_pump" where
  "pump_drop p = p\<lparr>pu_alive := False, pu_channel := []\<rparr>"

inductive pump_step :: "handshake_pump \<Rightarrow> handshake_pump \<Rightarrow> bool" where
  Accept: "pu_alive p \<Longrightarrow> pump_step p (pump_accept conn p)"
| Rotate: "pump_step p (p\<lparr>pu_config := c\<rparr>)"
| HandshakeLost: "h \<in> set (pu_shaking p) \<Longrightarrow> pump_step p (p\<lparr>pu_shaking := remove1 h (pu_shaking p)\<rparr>)"
| HandshakeDone: "h \<in> set (pu_shaking p) \<Longrightarrow>
    pump_step p (p\<lparr>pu_shaking := remove1 h (pu_shaking p), pu_sending := h # pu_sending p\<rparr>)"
| Send: "pu_alive p \<Longrightarrow> h \<in> set (pu_sending p) \<Longrightarrow> length (pu_channel p) < HANDSHAKE_CHANNEL_CAPACITY \<Longrightarrow>
    pump_step p (p\<lparr>pu_sending := remove1 h (pu_sending p), pu_channel := pu_channel p @ [h]\<rparr>)"
| SendLost: "\<not> pu_alive p \<Longrightarrow> h \<in> set (pu_sending p) \<Longrightarrow> pump_step p (p\<lparr>pu_sending := remove1 h (pu_sending p)\<rparr>)"
| Take: "pu_alive p \<Longrightarrow> pu_channel p = h # rest \<Longrightarrow> pump_step p (p\<lparr>pu_channel := rest, pu_served := h # pu_served p\<rparr>)"
| Dropped: "pump_step p (pump_drop p)"

lemma pump_inv:
  assumes "pump_step\<^sup>*\<^sup>* (pump_start c) p"
  shows "set (pu_shaking p) \<union> set (pu_sending p) \<union> set (pu_channel p) \<union> set (pu_served p) \<subseteq> set (pu_accepted p) \<and>
     length (pu_channel p) \<le> HANDSHAKE_CHANNEL_CAPACITY"
  using assms
proof (induction rule: rtranclp_induct)
  case base show ?case by (simp add: pump_start_def)
next
  case (step p q)
  from step(2) step(3) show ?case
    by (cases rule: pump_step.cases) (auto simp: pump_accept_def pump_drop_def dest: subsetD [OF set_remove1_subset])
qed

text \<open>
  Each connection is served with the configuration that was current when it was accepted, whatever was rotated since,
  and the channel never holds more than its capacity.
\<close>

theorem served_as_accepted:
  assumes "pump_step\<^sup>*\<^sup>* (pump_start c) p" and "(conn, v) \<in> set (pu_served p)"
  shows "(conn, v) \<in> set (pu_accepted p)" and "length (pu_channel p) \<le> HANDSHAKE_CHANNEL_CAPACITY"
  using pump_inv [OF assms(1)] assms(2) by auto

text \<open>
  A peer that never completes its handshake holds up nobody: while the pump lives it can accept, in every state, and
  every other handshake can complete and, with room in the channel, be served.
\<close>

lemma stalled_peer_blocks_nobody:
  assumes "pu_alive p" and "h \<in> set (pu_shaking p)" and "pu_channel p = []"
  shows "\<exists>q. pump_step\<^sup>*\<^sup>* p q \<and> pu_served q = h # pu_served p" and "pump_step p (pump_accept conn p)"
proof -
  let ?p1 = "p\<lparr>pu_shaking := remove1 h (pu_shaking p), pu_sending := h # pu_sending p\<rparr>"
  let ?p2 = "?p1\<lparr>pu_sending := remove1 h (pu_sending ?p1), pu_channel := pu_channel ?p1 @ [h]\<rparr>"
  have "pump_step p ?p1" using assms(2) by (rule pump_step.HandshakeDone)
  moreover have "pump_step ?p1 ?p2" by (rule pump_step.Send) (use assms in \<open>simp_all add: HANDSHAKE_CHANNEL_CAPACITY_def\<close>)
  moreover have "pump_step ?p2 (?p2\<lparr>pu_channel := [], pu_served := h # pu_served ?p2\<rparr>)"
    by (rule pump_step.Take) (use assms in simp_all)
  ultimately have "pump_step\<^sup>*\<^sup>* p (?p2\<lparr>pu_channel := [], pu_served := h # pu_served ?p2\<rparr>)"
    by (meson converse_rtranclp_into_rtranclp rtranclp.rtrancl_refl)
  then show "\<exists>q. pump_step\<^sup>*\<^sup>* p q \<and> pu_served q = h # pu_served p"
    by (intro exI [of _ "?p2\<lparr>pu_channel := [], pu_served := h # pu_served ?p2\<rparr>"] conjI) simp_all
  show "pump_step p (pump_accept conn p)" using assms(1) by (rule pump_step.Accept)
qed

text \<open>A verified client certificate chain is recorded only when it is not empty, so that its leaf exists.\<close>

definition connect_info :: "socket_addr \<Rightarrow> u8 list list option \<Rightarrow> tls_connect_info" where
  "connect_info remote_addr peer_certificates =
     \<lparr>tc_remote_addr = remote_addr, tc_peer_certificates = option_filter (\<lambda>chain. chain \<noteq> []) peer_certificates\<rparr>"

lemma connect_info_leaf: "tc_peer_certificates (connect_info a c) = Some chain \<Longrightarrow> chain \<noteq> []"
  by (auto simp: connect_info_def option_filter_def split: option.splits if_splits)

end
