(* ===== verification/Client_Tls.thy ===== *)
theory Client_Tls
  imports Tls_Rotation
begin

text \<open>
  The identity of a service towards other services (\<^verbatim>\<open>src/acton-service/src/client_tls.rs\<close>): loading a certificate and its
  key, the roots that are trusted for peers, the three kinds of clients built from them, and the source whose identity and
  roots are replaced in place. The functions of rustls, reqwest and tonic are those of \<open>client_env\<close>.
\<close>

subsection \<open>Loading an identity\<close>

record client_identity_config =
  cl_enabled :: bool
  cl_cert_path :: string
  cl_key_path :: string
  cl_root_ca_path :: "string option"
  cl_exclusive_roots :: bool
  cl_connect_timeout_secs :: "u64 option"

record client_env =
  ce_tls :: tls_env
  ce_provider :: bool
  ce_load_key :: "string \<Rightarrow> string + string"
  ce_keys_match :: "string list \<Rightarrow> string \<Rightarrow> string option"
  ce_public_roots :: "string list"
  ce_server_verifier :: "string list \<Rightarrow> string option"
  ce_client_auth :: "string list \<Rightarrow> string \<Rightarrow> string option"
  ce_reqwest_identity :: "string \<Rightarrow> string option"
  ce_reqwest_bundle :: "string \<Rightarrow> string + string list"
  ce_reqwest_client :: "string option"
  ce_server_name :: "string \<Rightarrow> string + string"

record identity_material =
  im_cert_pem :: string
  im_key_pem :: string
  im_chain :: "string list"
  im_key :: string

record certified_key =
  ck_chain :: "string list"
  ck_signing_key :: string

definition PEER_CA_ROLE :: string where "PEER_CA_ROLE = ''peer CA''"

definition concat_identity_pem :: "string \<Rightarrow> string \<Rightarrow> string" where
  "concat_identity_pem cert_pem key_pem =
     (let needs_separator = \<not> (cert_pem \<noteq> [] \<and> last cert_pem = CHR 0x0A)
      in cert_pem @ (if needs_separator then [CHR 0x0A] else []) @ key_pem)"

definition certified_key_from_material ::
  "client_env \<Rightarrow> identity_material \<Rightarrow> client_identity_config \<Rightarrow> error + certified_key" where
  "certified_key_from_material env material config =
     (if \<not> ce_provider env then
        Inl (Tls (''No rustls crypto provider is installed; enable exactly one of the '' @
          ''`crypto-aws-lc-rs` or `crypto-ring` features''))
      else case ce_load_key env (im_key material) of
        Inl e \<Rightarrow> Inl (Tls (''Client identity private key from '' @ in_quotes (cl_key_path config) @
            '' is not usable by the configured crypto provider: '' @ e))
      | Inr signing_key \<Rightarrow>
          (case ce_keys_match env (im_chain material) signing_key of
             Some e \<Rightarrow> Inl (Tls (''Client identity private key '' @ in_quotes (cl_key_path config) @
                 '' does not match the certificate in '' @ in_quotes (cl_cert_path config) @ '': '' @ e))
           | None \<Rightarrow> Inr \<lparr>ck_chain = im_chain material, ck_signing_key = signing_key\<rparr>))"

definition load_identity_material :: "client_env \<Rightarrow> (nat \<Rightarrow> disk) \<Rightarrow> client_identity_config \<Rightarrow> error + identity_material" where
  "load_identity_material env rd config =
     (case read_file (rd 0 (cl_cert_path config)) of
        Inl e \<Rightarrow> Inl (Tls (''Failed to open client identity cert file '' @ in_quotes (cl_cert_path config) @ '': '' @ e))
      | Inr cert_pem \<Rightarrow>
     (case read_file (rd 1 (cl_key_path config)) of
        Inl e \<Rightarrow> Inl (Tls (''Failed to open client identity key file '' @ in_quotes (cl_key_path config) @ '': '' @ e))
      | Inr key_pem \<Rightarrow>
     (case collect_results (te_pem_certs (ce_tls env) cert_pem) of
        Inl e \<Rightarrow> Inl (Tls (''Failed to parse client identity certificates from '' @ in_quotes (cl_cert_path config) @ '': '' @ e))
      | Inr chain \<Rightarrow>
          if chain = [] then
            Inl (Tls (''Client identity cert file '' @ in_quotes (cl_cert_path config) @ '' contains no certificates''))
          else case te_pem_key (ce_tls env) key_pem of
            Inl e \<Rightarrow> Inl (Tls (''Failed to parse client identity private key from '' @ in_quotes (cl_key_path config) @ '': '' @ e))
          | Inr key \<Rightarrow>
              (let material = \<lparr>im_cert_pem = cert_pem, im_key_pem = key_pem, im_chain = chain, im_key = key\<rparr>
               in case certified_key_from_material env material config of Inl e \<Rightarrow> Inl e | Inr _ \<Rightarrow> Inr material))))"

subsection \<open>Trust\<close>

definition build_root_store :: "client_env \<Rightarrow> disk \<Rightarrow> client_identity_config \<Rightarrow> error + string list" where
  "build_root_store env d config =
     (case cl_root_ca_path config of
        None \<Rightarrow> Inr (ce_public_roots env)
      | Some path \<Rightarrow>
          (case load_root_store (ce_tls env) d path PEER_CA_ROLE of
             Inl e \<Rightarrow> Inl e
           | Inr peer_roots \<Rightarrow> Inr ((if cl_exclusive_roots config then [] else ce_public_roots env) @ peer_roots)))"

text \<open>The bundle is checked and then read again.\<close>

definition read_validated_ca_bundle :: "client_env \<Rightarrow> (nat \<Rightarrow> disk) \<Rightarrow> string \<Rightarrow> error + string" where
  "read_validated_ca_bundle env rd path =
     (case load_root_store (ce_tls env) (rd 0) path PEER_CA_ROLE of
        Inl e \<Rightarrow> Inl e
      | Inr _ \<Rightarrow>
          (case read_file (rd 1 path) of
             Inl e \<Rightarrow> Inl (Tls (''Failed to read '' @ PEER_CA_ROLE @ '' file '' @ in_quotes path @ '': '' @ e))
           | Inr pem \<Rightarrow> Inr pem))"

definition build_peer_verifier :: "client_env \<Rightarrow> disk \<Rightarrow> client_identity_config \<Rightarrow> error + string list" where
  "build_peer_verifier env d config =
     (case build_root_store env d config of
        Inl e \<Rightarrow> Inl e
      | Inr roots \<Rightarrow>
          (case ce_server_verifier env roots of
             Some e \<Rightarrow> Inl (Tls (''Failed to build a peer certificate verifier from the configured '' @ PEER_CA_ROLE @ '' roots: '' @ e))
           | None \<Rightarrow> Inr roots))"

subsection \<open>Clients\<close>

text \<open>The reads of the identity come first; \<open>after_identity\<close> are those that follow.\<close>

definition after_identity :: "(nat \<Rightarrow> disk) \<Rightarrow> nat \<Rightarrow> disk" where
  "after_identity rd i = rd (2 + i)"

record rustls_client_config =
  rc_roots :: "string list"
  rc_chain :: "string list"
  rc_key :: string

definition load_rustls_client_config :: "client_env \<Rightarrow> (nat \<Rightarrow> disk) \<Rightarrow> client_identity_config \<Rightarrow> error + rustls_client_config" where
  "load_rustls_client_config env rd config =
     (case load_identity_material env rd config of
        Inl e \<Rightarrow> Inl e
      | Inr material \<Rightarrow>
     (case build_root_store env (after_identity rd 0) config of
        Inl e \<Rightarrow> Inl e
      | Inr roots \<Rightarrow>
     (case ce_client_auth env (im_chain material) (im_key material) of
        Some e \<Rightarrow> Inl (Tls (''Failed to build rustls client config: '' @ e))
      | None \<Rightarrow> Inr \<lparr>rc_roots = roots, rc_chain = im_chain material, rc_key = im_key material\<rparr>)))"

definition load_reqwest_identity :: "client_env \<Rightarrow> (nat \<Rightarrow> disk) \<Rightarrow> client_identity_config \<Rightarrow> error + string" where
  "load_reqwest_identity env rd config =
     (case load_identity_material env rd config of
        Inl e \<Rightarrow> Inl e
      | Inr material \<Rightarrow>
          (let joined = concat_identity_pem (im_cert_pem material) (im_key_pem material)
           in case ce_reqwest_identity env joined of
                Some e \<Rightarrow> Inl (Tls (''Failed to build a reqwest identity from '' @ in_quotes (cl_cert_path config) @ '' and '' @
                    in_quotes (cl_key_path config) @ '': '' @ e))
              | None \<Rightarrow> Inr joined))"

record reqwest_builder =
  rb_identity :: string
  rb_root_certificates :: "string list"
  rb_built_in_roots :: bool

definition reqwest_client_builder :: "client_env \<Rightarrow> (nat \<Rightarrow> disk) \<Rightarrow> client_identity_config \<Rightarrow> error + reqwest_builder" where
  "reqwest_client_builder env rd config =
     (case load_reqwest_identity env rd config of
        Inl e \<Rightarrow> Inl e
      | Inr identity \<Rightarrow>
          (case cl_root_ca_path config of
             None \<Rightarrow> Inr \<lparr>rb_identity = identity, rb_root_certificates = [], rb_built_in_roots = True\<rparr>
           | Some path \<Rightarrow>
               (case read_validated_ca_bundle env (after_identity rd) path of
                  Inl e \<Rightarrow> Inl e
                | Inr pem \<Rightarrow>
                    (case ce_reqwest_bundle env pem of
                       Inl e \<Rightarrow> Inl (Tls (''Failed to build reqwest certificates from '' @ PEER_CA_ROLE @ '' file '' @ in_quotes path @ '': '' @ e))
                     | Inr certs \<Rightarrow> Inr \<lparr>rb_identity = identity, rb_root_certificates = certs,
                                      rb_built_in_roots = (\<not> cl_exclusive_roots config)\<rparr>))))"

record tonic_tls_config =
  tn_identity :: "string \<times> string"
  tn_ca_certificate :: "string option"
  tn_trust_anchors :: bool

definition tonic_client_tls_config :: "client_env \<Rightarrow> (nat \<Rightarrow> disk) \<Rightarrow> client_identity_config \<Rightarrow> error + tonic_tls_config" where
  "tonic_client_tls_config env rd config =
     (case load_identity_material env rd config of
        Inl e \<Rightarrow> Inl e
      | Inr material \<Rightarrow>
          (let identity = (im_cert_pem material, im_key_pem material)
           in case cl_root_ca_path config of
                None \<Rightarrow> Inr \<lparr>tn_identity = identity, tn_ca_certificate = None, tn_trust_anchors = True\<rparr>
              | Some path \<Rightarrow>
                  (case read_validated_ca_bundle env (after_identity rd) path of
                     Inl e \<Rightarrow> Inl e
                   | Inr pem \<Rightarrow> Inr \<lparr>tn_identity = identity, tn_ca_certificate = Some pem,
                                  tn_trust_anchors = (\<not> cl_exclusive_roots config)\<rparr>)))"

subsection \<open>The rotating source\<close>

record client_identity_source =
  cs_resolver :: certified_key
  cs_verifier :: "string list"
  cs_origin :: client_identity_config
  cs_client :: "string list"

definition HTTP_ALPN :: "string list" where "HTTP_ALPN = [''h2'', ''http/1.1'']"

text \<open>Of the client only the protocols it offers are kept; its identity and roots are those of the source.\<close>

definition build_client :: "client_env \<Rightarrow> client_identity_config \<Rightarrow> error + string list" where
  "build_client env config =
     (case ce_reqwest_client env of
        Some e \<Rightarrow> Inl (Tls (''Failed to build a reqwest client for the identity in '' @ in_quotes (cl_cert_path config) @ '': '' @ e))
      | None \<Rightarrow> Inr HTTP_ALPN)"

definition prepare_reload :: "client_env \<Rightarrow> (nat \<Rightarrow> disk) \<Rightarrow> client_identity_config \<Rightarrow> error + certified_key \<times> string list" where
  "prepare_reload env rd origin =
     (case load_identity_material env rd origin of
        Inl e \<Rightarrow> Inl e
      | Inr material \<Rightarrow>
     (case certified_key_from_material env material origin of
        Inl e \<Rightarrow> Inl e
      | Inr key \<Rightarrow>
     (case build_peer_verifier env (after_identity rd 0) origin of
        Inl e \<Rightarrow> Inl e
      | Inr verifier \<Rightarrow> Inr (key, verifier))))"

definition client_from_config :: "client_env \<Rightarrow> (nat \<Rightarrow> disk) \<Rightarrow> client_identity_config \<Rightarrow> error + client_identity_source" where
  "client_from_config env rd config =
     (case load_identity_material env rd config of
        Inl e \<Rightarrow> Inl e
      | Inr material \<Rightarrow>
     (case certified_key_from_material env material config of
        Inl e \<Rightarrow> Inl e
      | Inr key \<Rightarrow>
     (case build_peer_verifier env (after_identity rd 0) config of
        Inl e \<Rightarrow> Inl e
      | Inr verifier \<Rightarrow>
     (case build_client env config of
        Inl e \<Rightarrow> Inl e
      | Inr client \<Rightarrow> Inr \<lparr>cs_resolver = key, cs_verifier = verifier, cs_origin = config, cs_client = client\<rparr>))))"

text \<open>The two stores of a reload are steps of their own: a handshake may come between them.\<close>

definition resolver_store :: "certified_key \<Rightarrow> client_identity_source \<Rightarrow> client_identity_source" where
  "resolver_store key s = s\<lparr>cs_resolver := key\<rparr>"

definition verifier_store :: "string list \<Rightarrow> client_identity_source \<Rightarrow> client_identity_source" where
  "verifier_store verifier s = s\<lparr>cs_verifier := verifier\<rparr>"

definition client_reload :: "client_env \<Rightarrow> (nat \<Rightarrow> disk) \<Rightarrow> client_identity_source \<Rightarrow> (error + unit) \<times> client_identity_source" where
  "client_reload env rd s =
     (case prepare_reload env rd (cs_origin s) of
        Inr (key, verifier) \<Rightarrow> (Inr (), verifier_store verifier (resolver_store key s))
      | Inl e \<Rightarrow> (Inl e, s))"

text \<open>What a handshake presents, whatever the peer hints at, and the roots it trusts.\<close>

definition resolve_client_cert :: "string list \<Rightarrow> nat list \<Rightarrow> client_identity_source \<Rightarrow> certified_key option" where
  "resolve_client_cert root_hint_subjects sigschemes s = Some (cs_resolver s)"

definition DEFAULT_CLIENT_CONNECT_TIMEOUT :: nat where
  "DEFAULT_CLIENT_CONNECT_TIMEOUT = from_secs 30"

definition connect_timeout :: "client_identity_source \<Rightarrow> nat" where
  "connect_timeout s =
     (case option_filter (\<lambda>secs. secs > 0) (cl_connect_timeout_secs (cs_origin s)) of
        None \<Rightarrow> DEFAULT_CLIENT_CONNECT_TIMEOUT
      | Some secs \<Rightarrow> from_secs (unat secs))"

subsection \<open>Channels\<close>

record endpoint_uri =
  ur_text :: string
  ur_scheme :: "string option"
  ur_host :: "string option"
  ur_port :: "u16 option"

record rotating_tls_connector =
  cx_alpn :: "string list"
  cx_timeout :: nat

definition GRPC_ALPN :: "string list" where "GRPC_ALPN = [''h2'']"

definition grpc_channel :: "client_identity_source \<Rightarrow> endpoint_uri \<Rightarrow> error + rotating_tls_connector" where
  "grpc_channel s endpoint =
     (if ur_scheme endpoint \<noteq> Some ''https'' then
        Inl (Internal (''gRPC endpoint '' @ in_quotes (ur_text endpoint) @ '' must use the https scheme to present a client '' @
          ''identity, but it uses '' @ in_quotes (case ur_scheme endpoint of Some scheme \<Rightarrow> scheme | None \<Rightarrow> ''(none)'')))
      else Inr \<lparr>cx_alpn = GRPC_ALPN, cx_timeout = connect_timeout s\<rparr>)"

definition strip_brackets :: "string \<Rightarrow> string" where
  "strip_brackets host =
     (if host \<noteq> [] \<and> hd host = CHR ''['' \<and> tl host \<noteq> [] \<and> last host = CHR '']'' then butlast (tl host) else host)"

definition resolve_target :: "client_env \<Rightarrow> string \<Rightarrow> error + string \<times> string" where
  "resolve_target env host =
     (let connect_host = strip_brackets host
      in case ce_server_name env connect_host of
           Inl e \<Rightarrow> Inl (Internal (''gRPC endpoint host '' @ in_quotes connect_host @ '' is not a valid TLS server name: '' @ e))
         | Inr server_name \<Rightarrow> Inr (connect_host, server_name))"

text \<open>
  A connection attempt: the errors of connecting, of the socket option and of the handshake, and its time. A result is
  the address connected to and the name the certificate was verified for.
\<close>

record attempt =
  at_connect :: "string \<Rightarrow> u16 \<Rightarrow> string option"
  at_nodelay :: "string option"
  at_handshake :: "string \<Rightarrow> string option"
  at_duration :: nat

definition connect_tls_unbounded :: "client_env \<Rightarrow> attempt \<Rightarrow> endpoint_uri \<Rightarrow> error + string \<times> u16 \<times> string" where
  "connect_tls_unbounded env a uri =
     (case ur_host uri of
        None \<Rightarrow> Inl (Internal (''gRPC endpoint '' @ in_quotes (ur_text uri) @ '' has no host to connect to''))
      | Some host \<Rightarrow>
          (let port = (case ur_port uri of Some p \<Rightarrow> p | None \<Rightarrow> 443)
           in case resolve_target env host of
                Inl e \<Rightarrow> Inl e
              | Inr (connect_host, server_name) \<Rightarrow>
                  (case at_connect a connect_host port of
                     Some e \<Rightarrow> Inl (Internal (''Failed to connect to gRPC endpoint '' @ in_quotes (ur_text uri) @ '': '' @ e))
                   | None \<Rightarrow>
                  (case at_nodelay a of
                     Some e \<Rightarrow> Inl (Internal (''Failed to disable Nagle'' @ [CHR 0x27] @ ''s algorithm on the connection to '' @ in_quotes (ur_text uri) @ '': '' @ e))
                   | None \<Rightarrow>
                  (case at_handshake a server_name of
                     Some e \<Rightarrow> Inl (Internal (''TLS handshake with gRPC endpoint '' @ in_quotes (ur_text uri) @ '' failed: '' @ e))
                   | None \<Rightarrow> Inr (connect_host, port, server_name))))))"

definition connect_tls :: "client_env \<Rightarrow> attempt \<Rightarrow> endpoint_uri \<Rightarrow> nat \<Rightarrow> error + string \<times> u16 \<times> string" where
  "connect_tls env a uri limit =
     (if limit < at_duration a then
        Inl (Internal (''Connecting to gRPC endpoint '' @ in_quotes (ur_text uri) @ '' exceeded the '' @ show_nat (as_secs limit) @
          ''s connect timeout before the TLS handshake completed''))
      else connect_tls_unbounded env a uri)"

definition connector_call :: "client_env \<Rightarrow> attempt \<Rightarrow> rotating_tls_connector \<Rightarrow> endpoint_uri \<Rightarrow> error + string \<times> u16 \<times> string" where
  "connector_call env a c uri = connect_tls env a uri (cx_timeout c)"

subsection \<open>What is presented and what is trusted\<close>

text \<open>The two texts stay apart: the key begins on a line of its own.\<close>

lemma concat_identity_lines:
  obtains lines where "concat_identity_pem cert_pem key_pem = lines @ key_pem" "lines \<noteq> []" "last lines = CHR 0x0A"
    "take (length cert_pem) lines = cert_pem"
proof (cases "cert_pem \<noteq> [] \<and> last cert_pem = CHR 0x0A")
  case True then show ?thesis using that [of cert_pem] by (simp add: concat_identity_pem_def)
next
  case False then show ?thesis using that [of "cert_pem @ [CHR 0x0A]"] by (auto simp: concat_identity_pem_def Let_def)
qed

lemma certified_key_cases:
  assumes "certified_key_from_material env material config = Inr key"
  shows "ck_chain key = im_chain material" and "ce_load_key env (im_key material) = Inr (ck_signing_key key)"
    and "ce_keys_match env (ck_chain key) (ck_signing_key key) = None"
  using assms by (auto simp: certified_key_from_material_def split: if_splits sum.splits option.splits)

lemma identity_cases:
  assumes "load_identity_material env rd config = Inr material"
  shows "rd 0 (cl_cert_path config) = Contents (im_cert_pem material)" and "rd 1 (cl_key_path config) = Contents (im_key_pem material)"
    and "im_chain material \<noteq> []" and "\<exists>key. certified_key_from_material env material config = Inr key"
proof -
  obtain c k where ck: "rd 0 (cl_cert_path config) = Contents c" "rd 1 (cl_key_path config) = Contents k"
    using assms by (cases "rd 0 (cl_cert_path config)"; cases "rd 1 (cl_key_path config)"; simp add: load_identity_material_def)
  with assms show "rd 0 (cl_cert_path config) = Contents (im_cert_pem material)" "rd 1 (cl_key_path config) = Contents (im_key_pem material)"
    "im_chain material \<noteq> []" "\<exists>key. certified_key_from_material env material config = Inr key"
    by (auto simp: load_identity_material_def Let_def split: sum.splits if_splits)
qed

text \<open>An identity that was loaded is complete: a chain that is not empty, and a key that belongs to it.\<close>

definition identity_ok :: "client_env \<Rightarrow> certified_key \<Rightarrow> bool" where
  "identity_ok env key \<longleftrightarrow> ck_chain key \<noteq> [] \<and> ce_keys_match env (ck_chain key) (ck_signing_key key) = None"

lemma prepared_ok:
  assumes "prepare_reload env rd origin = Inr (key, verifier)"
  shows "identity_ok env key" and "build_peer_verifier env (after_identity rd 0) origin = Inr verifier"
proof -
  obtain material where m: "load_identity_material env rd origin = Inr material" "certified_key_from_material env material origin = Inr key"
    "build_peer_verifier env (after_identity rd 0) origin = Inr verifier"
    using assms by (auto simp: prepare_reload_def split: sum.splits)
  then show "identity_ok env key" "build_peer_verifier env (after_identity rd 0) origin = Inr verifier"
    using identity_cases(3) [OF m(1)] certified_key_cases [OF m(2)] by (simp_all add: identity_ok_def)
qed

lemma from_config_prepared:
  "client_from_config env rd config = Inr s \<Longrightarrow> prepare_reload env rd config = Inr (cs_resolver s, cs_verifier s) \<and> cs_origin s = config"
  by (auto simp: client_from_config_def prepare_reload_def split: sum.splits option.splits)

text \<open>
  The uses of a source: handshakes, at any time, also between the two stores of a reload, and reloads. \<open>hs_pairs\<close> are the
  pairs of identity and roots that handshakes have used; \<open>hs_pending\<close> is the second half of a reload under way.
\<close>

record handshakes =
  hs_source :: client_identity_source
  hs_pending :: "string list option"
  hs_pairs :: "(certified_key \<times> string list) list"

inductive client_step :: "client_env \<Rightarrow> handshakes \<Rightarrow> handshakes \<Rightarrow> bool" for env where
  Handshake: "resolve_client_cert hints schemes (hs_source h) = Some key \<Longrightarrow>
    client_step env h (h\<lparr>hs_pairs := (key, cs_verifier (hs_source h)) # hs_pairs h\<rparr>)"
| FirstStore: "hs_pending h = None \<Longrightarrow> prepare_reload env rd (cs_origin (hs_source h)) = Inr (key, verifier) \<Longrightarrow>
    client_step env h (h\<lparr>hs_source := resolver_store key (hs_source h), hs_pending := Some verifier\<rparr>)"
| SecondStore: "hs_pending h = Some verifier \<Longrightarrow>
    client_step env h (h\<lparr>hs_source := verifier_store verifier (hs_source h), hs_pending := None\<rparr>)"
| Refused: "hs_pending h = None \<Longrightarrow> prepare_reload env rd (cs_origin (hs_source h)) = Inl e \<Longrightarrow> client_step env h h"

lemma reload_is_two_stores:
  assumes "client_reload env rd (hs_source h) = (r, s)" and "hs_pending h = None"
  shows "(client_step env)\<^sup>*\<^sup>* h (h\<lparr>hs_source := s\<rparr>)"
proof (cases "prepare_reload env rd (cs_origin (hs_source h))")
  case (Inl e)
  with assms(1) have "s = hs_source h" by (simp add: client_reload_def)
  then show ?thesis by simp
next
  case (Inr kv)
  obtain key verifier where kv: "kv = (key, verifier)" by fastforce
  let ?h1 = "h\<lparr>hs_source := resolver_store key (hs_source h), hs_pending := Some verifier\<rparr>"
  have "client_step env h ?h1" using client_step.FirstStore [OF assms(2), of env rd key verifier] Inr kv by simp
  moreover have "client_step env ?h1 (?h1\<lparr>hs_source := verifier_store verifier (hs_source ?h1), hs_pending := None\<rparr>)"
    by (rule client_step.SecondStore) simp
  moreover have "?h1\<lparr>hs_source := verifier_store verifier (hs_source ?h1), hs_pending := None\<rparr> = h\<lparr>hs_source := s\<rparr>"
    using assms Inr kv by (simp add: client_reload_def)
  ultimately show ?thesis by (metis converse_rtranclp_into_rtranclp r_into_rtranclp)
qed

definition client_start :: "client_identity_source \<Rightarrow> handshakes" where
  "client_start s = \<lparr>hs_source = s, hs_pending = None, hs_pairs = []\<rparr>"

definition roots_ok :: "client_env \<Rightarrow> client_identity_config \<Rightarrow> string list \<Rightarrow> bool" where
  "roots_ok env config roots \<longleftrightarrow> (\<exists>d. build_peer_verifier env d config = Inr roots)"

definition handshakes_ok :: "client_env \<Rightarrow> client_identity_config \<Rightarrow> handshakes \<Rightarrow> bool" where
  "handshakes_ok env config h \<longleftrightarrow> cs_origin (hs_source h) = config \<and> identity_ok env (cs_resolver (hs_source h)) \<and>
     roots_ok env config (cs_verifier (hs_source h)) \<and> (\<forall>v. hs_pending h = Some v \<longrightarrow> roots_ok env config v) \<and>
     (\<forall>(key, roots) \<in> set (hs_pairs h). identity_ok env key \<and> roots_ok env config roots)"

lemma handshakes_ok_step: "client_step env h h' \<Longrightarrow> handshakes_ok env config h \<Longrightarrow> handshakes_ok env config h'"
  by (induction rule: client_step.induct)
    (auto simp: handshakes_ok_def resolver_store_def verifier_store_def resolve_client_cert_def roots_ok_def
      dest: prepared_ok)


definition sample_client_env :: client_env where
  "sample_client_env =
     \<lparr>ce_tls = sample_tls_env, ce_provider = True, ce_load_key = Inr, ce_keys_match = (\<lambda>chain key. if key = ''key'' then None else Some ''no''),
      ce_public_roots = [''public''], ce_server_verifier = (\<lambda>_. None), ce_client_auth = (\<lambda>_ _. None),
      ce_reqwest_identity = (\<lambda>_. None), ce_reqwest_bundle = (\<lambda>b. Inr [b]), ce_reqwest_client = None, ce_server_name = Inr\<rparr>"

definition sample_client_config :: client_identity_config where
  "sample_client_config = \<lparr>cl_enabled = True, cl_cert_path = ''c'', cl_key_path = ''k'', cl_root_ca_path = None,
     cl_exclusive_roots = False, cl_connect_timeout_secs = None\<rparr>"

lemma sample_prepare:
  "prepare_reload sample_client_env (\<lambda>_. disk_with cert) sample_client_config =
     Inr (\<lparr>ck_chain = [cert], ck_signing_key = ''key''\<rparr>, [''public''])"
  by (simp add: prepare_reload_def load_identity_material_def certified_key_from_material_def build_peer_verifier_def
      build_root_store_def sample_client_env_def sample_client_config_def sample_tls_env_def disk_with_def)


lemma add_roots_all: "add_roots env role path rs certs = Inr out \<Longrightarrow> out = rs @ certs"
proof (induction certs arbitrary: rs)
  case (Cons cert certs)
  then show ?case using Cons.IH [of "rs @ [cert]"] by (simp split: option.splits)
qed simp

lemma root_store_certs:
  assumes "load_root_store env d path role = Inr roots"
  obtains pem where "d path = Contents pem" "collect_results (te_pem_certs env pem) = Inr roots" "roots \<noteq> []"
  using assms by (cases "d path") (auto simp: load_root_store_def dest: add_roots_all split: sum.splits if_splits)

text \<open>With a bundle and \<^verbatim>\<open>exclusive_roots\<close> a peer is verified against the certificates of the bundle only, and there is one.\<close>

theorem exclusive_roots_only:
  assumes "build_peer_verifier env d config = Inr roots" and "cl_root_ca_path config = Some path" and "cl_exclusive_roots config"
  shows "\<exists>pem. d path = Contents pem \<and> collect_results (te_pem_certs (ce_tls env) pem) = Inr roots \<and> roots \<noteq> []"
proof -
  have "load_root_store (ce_tls env) d path PEER_CA_ROLE = Inr roots"
    using assms by (auto simp: build_peer_verifier_def build_root_store_def split: sum.splits option.splits)
  then show ?thesis by (elim root_store_certs) blast
qed

text \<open>
  Whichever kind of client is built from a configuration, the same roots are trusted: the public ones unless a bundle is
  configured as exclusive, and those of the bundle.
\<close>

theorem clients_trust_alike:
  assumes same_pem: "\<And>pem. ce_reqwest_bundle env pem = collect_results (te_pem_certs (ce_tls env) pem)"
    and rustls: "load_rustls_client_config env (\<lambda>_. d) config = Inr r"
    and reqwest: "reqwest_client_builder env (\<lambda>_. d) config = Inr b"
    and tonic: "tonic_client_tls_config env (\<lambda>_. d) config = Inr t"
  shows "rc_roots r = (if rb_built_in_roots b then ce_public_roots env else []) @ rb_root_certificates b"
    and "tn_trust_anchors t = rb_built_in_roots b"
    and "(case tn_ca_certificate t of None \<Rightarrow> Inr [] | Some pem \<Rightarrow> collect_results (te_pem_certs (ce_tls env) pem)) = Inr (rb_root_certificates b)"
proof -
  have roots: "build_root_store env d config = Inr (rc_roots r)"
    using rustls by (auto simp: load_rustls_client_config_def after_identity_def split: sum.splits option.splits)
  have "rc_roots r = (if rb_built_in_roots b then ce_public_roots env else []) @ rb_root_certificates b \<and>
    tn_trust_anchors t = rb_built_in_roots b \<and>
    (case tn_ca_certificate t of None \<Rightarrow> Inr [] | Some pem \<Rightarrow> collect_results (te_pem_certs (ce_tls env) pem)) = Inr (rb_root_certificates b)"
  proof (cases "cl_root_ca_path config")
    case None
    with roots reqwest tonic show ?thesis
      by (auto simp: build_root_store_def reqwest_client_builder_def tonic_client_tls_config_def Let_def split: sum.splits)
  next
    case (Some path)
    then obtain peers where peers: "load_root_store (ce_tls env) d path PEER_CA_ROLE = Inr peers"
      "rc_roots r = (if cl_exclusive_roots config then [] else ce_public_roots env) @ peers"
      using roots by (auto simp: build_root_store_def split: sum.splits)
    from peers(1) obtain pem where pem: "d path = Contents pem" "collect_results (te_pem_certs (ce_tls env) pem) = Inr peers"
      by (rule root_store_certs)
    have "rb_root_certificates b = peers" "rb_built_in_roots b = (\<not> cl_exclusive_roots config)"
      using reqwest Some peers(1) pem
      by (auto simp: reqwest_client_builder_def read_validated_ca_bundle_def after_identity_def same_pem split: sum.splits)
    moreover have "tn_ca_certificate t = Some pem" "tn_trust_anchors t = (\<not> cl_exclusive_roots config)"
      using tonic Some peers(1) pem
      by (auto simp: tonic_client_tls_config_def read_validated_ca_bundle_def after_identity_def Let_def split: sum.splits)
    ultimately show ?thesis using peers(2) pem by simp
  qed
  then show "rc_roots r = (if rb_built_in_roots b then ce_public_roots env else []) @ rb_root_certificates b"
    "tn_trust_anchors t = rb_built_in_roots b"
    "(case tn_ca_certificate t of None \<Rightarrow> Inr [] | Some pem \<Rightarrow> collect_results (te_pem_certs (ce_tls env) pem)) = Inr (rb_root_certificates b)"
    by simp_all
qed

text \<open>A channel needs an encrypted endpoint, and its attempts end within the configured time, or thirty seconds.\<close>

lemma channel_is_encrypted:
  assumes "grpc_channel s endpoint = Inr c"
  shows "ur_scheme endpoint = Some ''https''" and "0 < cx_timeout c"
    and "at_duration a > cx_timeout c \<Longrightarrow> \<exists>e. connector_call env a c uri = Inl (Internal e)"
proof -
  show "ur_scheme endpoint = Some ''https''" using assms by (simp add: grpc_channel_def split: if_splits)
  show "\<exists>e. connector_call env a c uri = Inl (Internal e)" if "at_duration a > cx_timeout c"
    using that by (simp add: connector_call_def connect_tls_def)
  have "cx_timeout c = connect_timeout s" using assms by (auto simp: grpc_channel_def split: if_splits)
  then show "0 < cx_timeout c"
    by (auto simp: connect_timeout_def option_filter_def DEFAULT_CLIENT_CONNECT_TIMEOUT_def from_secs_def nanos_per_sec_def
        unat_gt_0 word_gt_0 split: option.splits if_splits)
qed

text \<open>A connection is to the host of the endpoint, without brackets, and the certificate is verified for that host.\<close>

lemma connects_to_verified_host:
  assumes "connect_tls env a uri limit = Inr (host, port, name)"
  shows "\<exists>h. ur_host uri = Some h \<and> host = strip_brackets h \<and> ce_server_name env host = Inr name \<and>
    at_handshake a name = None \<and> port = (case ur_port uri of Some p \<Rightarrow> p | None \<Rightarrow> 443)"
  using assms by (auto simp: connect_tls_def connect_tls_unbounded_def resolve_target_def Let_def
      split: if_splits option.splits sum.splits)

end
