(* ===== verification/Health.thy ===== *)
theory Health
  imports Pool_Agents
begin

text \<open>
  Health: the checks an application registers (\<^verbatim>\<open>src/acton-service/src/checks.rs\<close>), the liveness, readiness and pool
  endpoints (\<^verbatim>\<open>health.rs\<close>, \<^verbatim>\<open>pool_health.rs\<close>) and the part of the application state they read with its builder
  (\<^verbatim>\<open>state.rs\<close>), for a build with all backends. A connected pool or client is a number; what its driver answers
  is the record \<open>probe_env\<close>. A registered check is the milliseconds after which it ends, if it ends, and its outcome. Hash
  maps are association lists; log lines have no effect.
\<close>

subsection \<open>Registered checks\<close>

datatype check_outcome = Ready | ReadyWithMessage string | DegradedCheck string | Unready string

record registered_check =
  ck_name :: string
  ck_ends :: "nat option"
  ck_outcome :: check_outcome

record health_checks =
  hc_liveness :: "registered_check list"
  hc_readiness :: "registered_check list"
  hc_deadline :: nat

definition DEFAULT_CHECK_DEADLINE :: nat where "DEFAULT_CHECK_DEADLINE = 2000"

definition TIMED_OUT :: string where "TIMED_OUT = ''check timed out''"

definition default_health_checks :: health_checks where
  "default_health_checks = \<lparr>hc_liveness = [], hc_readiness = [], hc_deadline = DEFAULT_CHECK_DEADLINE\<rparr>"

text \<open>A check that is due at the deadline is polled before the timer.\<close>

definition run_check :: "nat \<Rightarrow> registered_check \<Rightarrow> check_outcome" where
  "run_check deadline c =
     (case ck_ends c of
        Some t \<Rightarrow> if t \<le> deadline then ck_outcome c else Unready TIMED_OUT
      | None \<Rightarrow> Unready TIMED_OUT)"

definition run_concurrent :: "registered_check list \<Rightarrow> nat \<Rightarrow> (string \<times> check_outcome) list" where
  "run_concurrent checks deadline =
     (if checks = [] then [] else map (\<lambda>c. (ck_name c, run_check deadline c)) checks)"

text \<open>The time the checks of \<open>run_concurrent\<close> take together.\<close>

definition check_time :: "nat \<Rightarrow> registered_check \<Rightarrow> nat" where
  "check_time deadline c = (case ck_ends c of Some t \<Rightarrow> min t deadline | None \<Rightarrow> deadline)"

definition concurrent_time :: "registered_check list \<Rightarrow> nat \<Rightarrow> nat" where
  "concurrent_time checks deadline = fold max (map (check_time deadline) checks) 0"

definition is_unready :: "check_outcome \<Rightarrow> bool" where
  "is_unready r = (case r of Unready _ \<Rightarrow> True | _ \<Rightarrow> False)"

definition liveness_ok :: "health_checks \<Rightarrow> bool" where
  "liveness_ok h \<longleftrightarrow> list_all (\<lambda>(_, r). \<not> is_unready r) (run_concurrent (hc_liveness h) (hc_deadline h))"

definition readiness_outcomes :: "health_checks \<Rightarrow> (string \<times> check_outcome) list" where
  "readiness_outcomes h = run_concurrent (hc_readiness h) (hc_deadline h)"

definition has_readiness_checks :: "health_checks \<Rightarrow> bool" where
  "has_readiness_checks h \<longleftrightarrow> hc_readiness h \<noteq> []"

subsection \<open>Configuration and state\<close>

record database_config =
  db_url :: string
  db_max_connections :: u32
  db_min_connections :: u32
  db_connection_timeout_secs :: u64
  db_max_retries :: u32
  db_retry_delay_secs :: u64
  db_optional :: bool
  db_lazy_init :: bool

datatype turso_mode = TursoLocal | TursoRemote | TursoEmbeddedReplica

record turso_config =
  tu_mode :: turso_mode
  tu_path :: "string option"
  tu_url :: "string option"
  tu_auth_token :: "string option"
  tu_sync_interval_secs :: "u64 option"
  tu_encryption_key :: "string option"
  tu_read_your_writes :: bool
  tu_max_retries :: u32
  tu_retry_delay_secs :: u64
  tu_optional :: bool
  tu_lazy_init :: bool

record surrealdb_config =
  sr_url :: string
  sr_namespace :: string
  sr_database :: string
  sr_username :: "string option"
  sr_password :: "string option"
  sr_max_retries :: u32
  sr_retry_delay_secs :: u64
  sr_optional :: bool
  sr_lazy_init :: bool

record redis_config =
  re_url :: string
  re_max_connections :: nat
  re_connection_timeout_secs :: u64
  re_max_retries :: u32
  re_retry_delay_secs :: u64
  re_optional :: bool
  re_lazy_init :: bool

record nats_config =
  na_url :: string
  na_name :: "string option"
  na_max_reconnects :: nat
  na_max_retries :: u32
  na_retry_delay_secs :: u64
  na_optional :: bool
  na_lazy_init :: bool

record clickhouse_config =
  ck_url :: string
  ck_database :: string
  ck_username :: "string option"
  ck_password :: "string option"
  ck_max_retries :: u32
  ck_retry_delay_secs :: u64
  ck_optional :: bool
  ck_lazy_init :: bool

text \<open>Of the gRPC section the fields the readiness endpoint shows.\<close>

record grpc_status_config =
  gs_enabled :: bool
  gs_reflection_enabled :: bool
  gs_health_check_enabled :: bool

text \<open>Of the configuration the sections that are read here.\<close>

record app_config =
  ac_service_name :: string
  ac_database :: "database_config option"
  ac_redis :: "redis_config option"
  ac_nats :: "nats_config option"
  ac_turso :: "turso_config option"
  ac_surrealdb :: "surrealdb_config option"
  ac_clickhouse :: "clickhouse_config option"
  ac_grpc :: "grpc_status_config option"

record app_state =
  as_config :: app_config
  as_db_pool :: "nat option"
  as_turso_db :: "nat option"
  as_redis_pool :: "nat option"
  as_nats_client :: "nat option"
  as_surrealdb_client :: "nat option"
  as_clickhouse_client :: "nat option"
  as_health_checks :: health_checks

definition app_state_new :: "app_config \<Rightarrow> app_state" where
  "app_state_new config =
     \<lparr>as_config = config, as_db_pool = None, as_turso_db = None, as_redis_pool = None, as_nats_client = None,
      as_surrealdb_client = None, as_clickhouse_client = None, as_health_checks = default_health_checks\<rparr>"

datatype nats_state = NatsPending | NatsConnected | NatsDisconnected

definition nats_state_debug :: "nats_state \<Rightarrow> string" where
  "nats_state_debug s = (case s of NatsPending \<Rightarrow> ''Pending'' | NatsConnected \<Rightarrow> ''Connected'' | NatsDisconnected \<Rightarrow> ''Disconnected'')"

record probe_env =
  pe_pg_select :: "nat \<Rightarrow> string + unit"
  pe_redis_get :: "nat \<Rightarrow> string + nat"
  pe_redis_ping :: "nat \<Rightarrow> string + unit"
  pe_nats_state :: "nat \<Rightarrow> nats_state"
  pe_turso_connect :: "nat \<Rightarrow> string + nat"
  pe_turso_query :: "nat \<Rightarrow> string + unit"
  pe_surreal_query :: "nat \<Rightarrow> string + unit"
  pe_clickhouse_query :: "nat \<Rightarrow> string + unit"
  pe_pg_size :: "nat \<Rightarrow> u32"
  pe_pg_idle :: "nat \<Rightarrow> nat"
  pe_redis_status :: "nat \<Rightarrow> nat \<times> nat"

subsection \<open>Endpoints\<close>

record health_response =
  hr_status_text :: string
  hr_service :: string
  hr_version :: "string option"

record dependency_status =
  ds_healthy :: bool
  ds_message :: "string option"

type_synonym dependencies = "(string \<times> dependency_status) list"

record readiness_response =
  rr_ready :: bool
  rr_service :: string
  rr_dependencies :: dependencies

definition health :: "string \<Rightarrow> app_state \<Rightarrow> u16 \<times> health_response" where
  "health version st =
     (let alive = liveness_ok (as_health_checks st)
      in (if alive then 200 else 503,
          \<lparr>hr_status_text = (if alive then ''healthy'' else ''unhealthy''), hr_service = ac_service_name (as_config st),
           hr_version = Some version\<rparr>))"

text \<open>
  The block of one backend: what it is called, whether it is optional and lazy, and, when it is connected, what its
  probe said (the message of a failure). It adds an entry and may take readiness away.
\<close>

definition check_backend :: "string \<Rightarrow> bool \<Rightarrow> bool \<Rightarrow> (string + unit) option \<Rightarrow> dependencies \<times> bool \<Rightarrow> dependencies \<times> bool" where
  "check_backend name is_optional is_lazy probe acc =
     (case acc of (deps, all_ready) \<Rightarrow>
       (case probe of
          Some (Inr _) \<Rightarrow> (AList.update name \<lparr>ds_healthy = True, ds_message = Some ''Connected''\<rparr> deps, all_ready)
        | Some (Inl message) \<Rightarrow>
            (AList.update name \<lparr>ds_healthy = False, ds_message = Some message\<rparr> deps, is_optional \<and> all_ready)
        | None \<Rightarrow>
            (AList.update name
               \<lparr>ds_healthy = False, ds_message = Some (if is_lazy then ''Connection initializing (lazy mode)'' else ''Not connected'')\<rparr> deps,
             is_optional \<and> all_ready)))"

definition prefix_error :: "string \<Rightarrow> string + 'a \<Rightarrow> string + unit" where
  "prefix_error p r = (case r of Inl e \<Rightarrow> Inl (p @ e) | Inr _ \<Rightarrow> Inr ())"

definition check_database :: "probe_env \<Rightarrow> app_state \<Rightarrow> dependencies \<times> bool \<Rightarrow> dependencies \<times> bool" where
  "check_database env st acc =
     (case ac_database (as_config st) of
        None \<Rightarrow> acc
      | Some c \<Rightarrow> check_backend ''database'' (db_optional c) (db_lazy_init c)
          (map_option (\<lambda>p. prefix_error ''Connection failed: '' (pe_pg_select env p)) (as_db_pool st)) acc)"

definition check_redis :: "probe_env \<Rightarrow> app_state \<Rightarrow> dependencies \<times> bool \<Rightarrow> dependencies \<times> bool" where
  "check_redis env st acc =
     (case ac_redis (as_config st) of
        None \<Rightarrow> acc
      | Some c \<Rightarrow> check_backend ''redis'' (re_optional c) (re_lazy_init c)
          (map_option (\<lambda>p. case pe_redis_get env p of
              Inl e \<Rightarrow> Inl (''Connection pool error: '' @ e)
            | Inr conn \<Rightarrow> prefix_error ''Ping failed: '' (pe_redis_ping env conn)) (as_redis_pool st)) acc)"

definition check_nats :: "probe_env \<Rightarrow> app_state \<Rightarrow> dependencies \<times> bool \<Rightarrow> dependencies \<times> bool" where
  "check_nats env st acc =
     (case ac_nats (as_config st) of
        None \<Rightarrow> acc
      | Some c \<Rightarrow> check_backend ''nats'' (na_optional c) (na_lazy_init c)
          (map_option (\<lambda>p. case pe_nats_state env p of
              NatsConnected \<Rightarrow> Inr ()
            | s \<Rightarrow> Inl (''Connection state: '' @ nats_state_debug s)) (as_nats_client st)) acc)"

definition check_turso :: "probe_env \<Rightarrow> app_state \<Rightarrow> dependencies \<times> bool \<Rightarrow> dependencies \<times> bool" where
  "check_turso env st acc =
     (case ac_turso (as_config st) of
        None \<Rightarrow> acc
      | Some c \<Rightarrow> check_backend ''turso'' (tu_optional c) (tu_lazy_init c)
          (map_option (\<lambda>p. case pe_turso_connect env p of
              Inl e \<Rightarrow> Inl (''Connection error: '' @ e)
            | Inr conn \<Rightarrow> prefix_error ''Query failed: '' (pe_turso_query env conn)) (as_turso_db st)) acc)"

definition check_surrealdb :: "probe_env \<Rightarrow> app_state \<Rightarrow> dependencies \<times> bool \<Rightarrow> dependencies \<times> bool" where
  "check_surrealdb env st acc =
     (case ac_surrealdb (as_config st) of
        None \<Rightarrow> acc
      | Some c \<Rightarrow> check_backend ''surrealdb'' (sr_optional c) (sr_lazy_init c)
          (map_option (\<lambda>p. prefix_error ''Query failed: '' (pe_surreal_query env p)) (as_surrealdb_client st)) acc)"

definition check_clickhouse :: "probe_env \<Rightarrow> app_state \<Rightarrow> dependencies \<times> bool \<Rightarrow> dependencies \<times> bool" where
  "check_clickhouse env st acc =
     (case ac_clickhouse (as_config st) of
        None \<Rightarrow> acc
      | Some c \<Rightarrow> check_backend ''clickhouse'' (ck_optional c) (ck_lazy_init c)
          (map_option (\<lambda>p. prefix_error ''Query failed: '' (pe_clickhouse_query env p)) (as_clickhouse_client st)) acc)"

definition show_bool :: "bool \<Rightarrow> string" where
  "show_bool b = (if b then ''true'' else ''false'')"

definition check_grpc :: "app_state \<Rightarrow> dependencies \<times> bool \<Rightarrow> dependencies \<times> bool" where
  "check_grpc st acc =
     (case ac_grpc (as_config st) of
        None \<Rightarrow> acc
      | Some g \<Rightarrow> (case acc of (deps, all_ready) \<Rightarrow>
          (AList.update ''grpc'' \<lparr>ds_healthy = True, ds_message = Some (if gs_enabled g
              then ''Enabled (health: '' @ show_bool (gs_health_check_enabled g) @ '', reflection: '' @ show_bool (gs_reflection_enabled g) @ '')''
              else ''Disabled'')\<rparr> deps, all_ready)))"

definition apply_outcome :: "string \<times> check_outcome \<Rightarrow> dependencies \<times> bool \<Rightarrow> dependencies \<times> bool" where
  "apply_outcome no acc =
     (case (no, acc) of ((name, r), (deps, all_ready)) \<Rightarrow>
       (case r of
          Ready \<Rightarrow> (AList.update name \<lparr>ds_healthy = True, ds_message = None\<rparr> deps, all_ready)
        | ReadyWithMessage m \<Rightarrow> (AList.update name \<lparr>ds_healthy = True, ds_message = Some m\<rparr> deps, all_ready)
        | DegradedCheck m \<Rightarrow> (AList.update name \<lparr>ds_healthy = False, ds_message = Some m\<rparr> deps, all_ready)
        | Unready m \<Rightarrow> (AList.update name \<lparr>ds_healthy = False, ds_message = Some m\<rparr> deps, False)))"

definition backend_checks :: "probe_env \<Rightarrow> app_state \<Rightarrow> dependencies \<times> bool" where
  "backend_checks env st =
     check_grpc st (check_clickhouse env st (check_surrealdb env st (check_turso env st (check_nats env st
       (check_redis env st (check_database env st ([], True)))))))"

definition readiness :: "probe_env \<Rightarrow> app_state \<Rightarrow> u16 \<times> readiness_response" where
  "readiness env st =
     (case fold apply_outcome (readiness_outcomes (as_health_checks st)) (backend_checks env st) of (dependencies, all_ready) \<Rightarrow>
        (if all_ready then 200 else 503,
         \<lparr>rr_ready = all_ready, rr_service = ac_service_name (as_config st), rr_dependencies = dependencies\<rparr>))"

subsection \<open>Pools\<close>

record 'f database_pool_health =
  dh_size :: u32
  dh_idle :: nat
  dh_max_size :: u32
  dh_min_size :: u32
  dh_healthy :: bool
  dh_utilization_percent :: 'f

text \<open>\<open>pct\<close> is the percentage as a floating-point number, at most 100, and \<open>zero\<close> the number zero.\<close>

definition database_health :: "(u32 \<Rightarrow> u32 \<Rightarrow> 'f) \<Rightarrow> 'f \<Rightarrow> probe_env \<Rightarrow> nat \<Rightarrow> database_config \<Rightarrow> 'f database_pool_health" where
  "database_health pct zero env pool config =
     (let pool_size = pe_pg_size env pool; max_size = db_max_connections config
      in \<lparr>dh_size = pool_size, dh_idle = pe_pg_idle env pool, dh_max_size = max_size, dh_min_size = db_min_connections config,
          dh_healthy = pool_size < max_size, dh_utilization_percent = (if 0 < max_size then pct pool_size max_size else zero)\<rparr>)"

record redis_pool_health =
  rh_max_size :: nat
  rh_available :: bool
  rh_status :: string

definition redis_health :: "probe_env \<Rightarrow> nat \<Rightarrow> redis_config \<Rightarrow> redis_pool_health" where
  "redis_health env pool config =
     (case pe_redis_status env pool of (pool_size, available) \<Rightarrow>
        \<lparr>rh_max_size = re_max_connections config, rh_available = (0 < pool_size \<or> 0 < available),
         rh_status = ''size='' @ show_nat pool_size @ '', available='' @ show_nat available\<rparr>)"

record turso_db_health =
  th_mode :: string
  th_connected :: bool
  th_local_path :: "string option"
  th_remote_url :: "string option"

definition turso_health :: "turso_config \<Rightarrow> bool \<Rightarrow> turso_db_health" where
  "turso_health config connected =
     \<lparr>th_mode = (case tu_mode config of TursoLocal \<Rightarrow> ''local'' | TursoRemote \<Rightarrow> ''remote'' | TursoEmbeddedReplica \<Rightarrow> ''embeddedreplica''),
      th_connected = connected, th_local_path = tu_path config, th_remote_url = tu_url config\<rparr>"

record surrealdb_health =
  sh_url :: string
  sh_namespace :: string
  sh_database :: string
  sh_connected :: bool

definition surreal_sanitize_url :: "string \<Rightarrow> string" where
  "surreal_sanitize_url url =
     (case find_char CHR ''@'' url of
        Some at_pos \<Rightarrow>
          (case find_scheme url of
             Some scheme_end \<Rightarrow> take (scheme_end + 3) url @ ''***'' @ drop at_pos url
           | None \<Rightarrow> url)
      | None \<Rightarrow> url)"

definition surreal_health :: "surrealdb_config \<Rightarrow> bool \<Rightarrow> surrealdb_health" where
  "surreal_health config connected =
     \<lparr>sh_url = surreal_sanitize_url (sr_url config), sh_namespace = sr_namespace config, sh_database = sr_database config,
      sh_connected = connected\<rparr>"

record nats_client_health =
  nh_connected :: bool
  nh_server_url :: string
  nh_client_name :: "string option"

definition nats_health :: "probe_env \<Rightarrow> nat \<Rightarrow> nats_config \<Rightarrow> nats_client_health" where
  "nats_health env client config =
     \<lparr>nh_connected = (pe_nats_state env client = NatsConnected), nh_server_url = na_url config, nh_client_name = na_name config\<rparr>"

record clickhouse_client_health =
  lh_url :: string
  lh_database :: string
  lh_connected :: bool

definition clickhouse_sanitize_url :: "string \<Rightarrow> string" where
  "clickhouse_sanitize_url url =
     (case find_char CHR ''@'' url of
        Some at_pos \<Rightarrow>
          (case find_scheme url of
             Some scheme_end \<Rightarrow> take scheme_end url @ ''://***@'' @ drop (at_pos + 1) url
           | None \<Rightarrow> url)
      | None \<Rightarrow> url)"

definition clickhouse_health :: "clickhouse_config \<Rightarrow> bool \<Rightarrow> clickhouse_client_health" where
  "clickhouse_health config connected =
     \<lparr>lh_url = clickhouse_sanitize_url (ck_url config), lh_database = ck_database config, lh_connected = connected\<rparr>"

record 'f pool_health_summary =
  sm_database :: "'f database_pool_health option"
  sm_redis :: "redis_pool_health option"
  sm_nats :: "nats_client_health option"
  sm_turso :: "turso_db_health option"
  sm_surrealdb :: "surrealdb_health option"
  sm_clickhouse :: "clickhouse_client_health option"
  sm_healthy :: bool

definition pool_health_summary_new :: "'f pool_health_summary" where
  "pool_health_summary_new =
     \<lparr>sm_database = None, sm_redis = None, sm_nats = None, sm_turso = None, sm_surrealdb = None, sm_clickhouse = None,
      sm_healthy = True\<rparr>"

definition summary_is_healthy :: "'f pool_health_summary \<Rightarrow> bool" where
  "summary_is_healthy s \<longleftrightarrow>
     pred_option dh_healthy (sm_database s) \<and> pred_option rh_available (sm_redis s) \<and> pred_option nh_connected (sm_nats s)
     \<and> pred_option th_connected (sm_turso s) \<and> pred_option sh_connected (sm_surrealdb s) \<and> pred_option lh_connected (sm_clickhouse s)"

definition both :: "('a \<Rightarrow> 'b \<Rightarrow> 'c) \<Rightarrow> 'a option \<Rightarrow> 'b option \<Rightarrow> 'c option" where
  "both f x y = (case (x, y) of (Some a, Some b) \<Rightarrow> Some (f a b) | _ \<Rightarrow> None)"

definition state_pool_health :: "(u32 \<Rightarrow> u32 \<Rightarrow> 'f) \<Rightarrow> 'f \<Rightarrow> probe_env \<Rightarrow> app_state \<Rightarrow> 'f pool_health_summary" where
  "state_pool_health pct zero env st =
     (let summary = pool_health_summary_new
           \<lparr>sm_database := both (database_health pct zero env) (as_db_pool st) (ac_database (as_config st)),
            sm_redis := both (redis_health env) (as_redis_pool st) (ac_redis (as_config st)),
            sm_nats := both (nats_health env) (as_nats_client st) (ac_nats (as_config st)),
            sm_turso := both (\<lambda>_ c. turso_health c True) (as_turso_db st) (ac_turso (as_config st)),
            sm_surrealdb := both (\<lambda>_ c. surreal_health c True) (as_surrealdb_client st) (ac_surrealdb (as_config st)),
            sm_clickhouse := both (\<lambda>_ c. clickhouse_health c True) (as_clickhouse_client st) (ac_clickhouse (as_config st))\<rparr>
      in summary\<lparr>sm_healthy := summary_is_healthy summary\<rparr>)"

definition pool_metrics :: "(u32 \<Rightarrow> u32 \<Rightarrow> 'f) \<Rightarrow> 'f \<Rightarrow> probe_env \<Rightarrow> app_state \<Rightarrow> u16 \<times> 'f pool_health_summary" where
  "pool_metrics pct zero env st =
     (let health = state_pool_health pct zero env st in (if sm_healthy health then 200 else 503, health))"

subsection \<open>Building the state\<close>

record app_state_builder =
  ab_config :: "app_config option"
  ab_db_pool :: "nat option"
  ab_redis_pool :: "nat option"
  ab_nats_client :: "nat option"

definition app_state_builder_new :: app_state_builder where
  "app_state_builder_new = \<lparr>ab_config = None, ab_db_pool = None, ab_redis_pool = None, ab_nats_client = None\<rparr>"

text \<open>The three functions that connect, with their retries, and the default configuration.\<close>

record build_env =
  be_create_db :: "database_config \<Rightarrow> error + nat"
  be_create_redis :: "redis_config \<Rightarrow> error + nat"
  be_create_nats :: "nats_config \<Rightarrow> error + nat"
  be_default_config :: app_config

datatype lazy_task = LazyDatabase database_config | LazyRedis redis_config | LazyNats nats_config

text \<open>One of the three blocks: the slot of the pool and the task that was spawned to fill it later.\<close>

definition init_slot ::
  "nat option \<Rightarrow> 'c option \<Rightarrow> ('c \<Rightarrow> bool) \<Rightarrow> ('c \<Rightarrow> bool) \<Rightarrow> ('c \<Rightarrow> error + nat) \<Rightarrow> ('c \<Rightarrow> lazy_task) \<Rightarrow>
     error + nat option \<times> lazy_task list" where
  "init_slot provided config lazy optional create task =
     (case provided of
        Some pool \<Rightarrow> Inr (Some pool, [])
      | None \<Rightarrow>
          (case config of
             Some c \<Rightarrow>
               if lazy c then Inr (None, [task c])
               else (case create c of
                       Inr pool \<Rightarrow> Inr (Some pool, [])
                     | Inl e \<Rightarrow> if optional c then Inr (None, []) else Inl e)
           | None \<Rightarrow> Inr (None, [])))"

text \<open>An error ends the build; tasks spawned before it go on.\<close>

definition build :: "build_env \<Rightarrow> app_state_builder \<Rightarrow> (error + app_state) \<times> lazy_task list" where
  "build env b =
     (let config = (case ab_config b of Some c \<Rightarrow> c | None \<Rightarrow> be_default_config env)
      in case init_slot (ab_db_pool b) (ac_database config) db_lazy_init db_optional (be_create_db env) LazyDatabase of
           Inl e \<Rightarrow> (Inl e, [])
         | Inr (db_pool, t1) \<Rightarrow>
             (case init_slot (ab_redis_pool b) (ac_redis config) re_lazy_init re_optional (be_create_redis env) LazyRedis of
                Inl e \<Rightarrow> (Inl e, t1)
              | Inr (redis_pool, t2) \<Rightarrow>
                  (case init_slot (ab_nats_client b) (ac_nats config) na_lazy_init na_optional (be_create_nats env) LazyNats of
                     Inl e \<Rightarrow> (Inl e, t1 @ t2)
                   | Inr (nats_client, t3) \<Rightarrow>
                       (Inr ((app_state_new config)\<lparr>as_db_pool := db_pool, as_redis_pool := redis_pool, as_nats_client := nats_client\<rparr>),
                        t1 @ t2 @ t3))))"

text \<open>A spawned task ends.\<close>

definition lazy_connected :: "build_env \<Rightarrow> lazy_task \<Rightarrow> app_state \<Rightarrow> app_state" where
  "lazy_connected env t st =
     (case t of
        LazyDatabase c \<Rightarrow> (case be_create_db env c of Inr p \<Rightarrow> st\<lparr>as_db_pool := Some p\<rparr> | Inl _ \<Rightarrow> st)
      | LazyRedis c \<Rightarrow> (case be_create_redis env c of Inr p \<Rightarrow> st\<lparr>as_redis_pool := Some p\<rparr> | Inl _ \<Rightarrow> st)
      | LazyNats c \<Rightarrow> (case be_create_nats env c of Inr p \<Rightarrow> st\<lparr>as_nats_client := Some p\<rparr> | Inl _ \<Rightarrow> st))"

subsection \<open>Checks end in time\<close>

lemma fold_max_le: "fold max xs (a :: nat) \<le> d \<longleftrightarrow> a \<le> d \<and> (\<forall>x \<in> set xs. x \<le> d)"
  by (induction xs arbitrary: a) auto

text \<open>Whatever the checks do, they are answered by the deadline; one that has not ended counts as not ready.\<close>

theorem checks_end_in_time:
  "concurrent_time checks deadline \<le> deadline \<and> map fst (run_concurrent checks deadline) = map ck_name checks \<and>
   (\<forall>c \<in> set checks. ck_ends c = None \<longrightarrow> (ck_name c, Unready TIMED_OUT) \<in> set (run_concurrent checks deadline))"
  by (auto simp: concurrent_time_def fold_max_le check_time_def run_concurrent_def run_check_def comp_def split: option.splits)

subsection \<open>Readiness\<close>

text \<open>What a backend is for readiness: not configured, or optional or not with the answer of its probe.\<close>

definition backend_ready :: "bool \<Rightarrow> (string + unit) option \<Rightarrow> bool" where
  "backend_ready is_optional probe \<longleftrightarrow> is_optional \<or> probe = Some (Inr ())"

definition redis_probe :: "probe_env \<Rightarrow> nat \<Rightarrow> bool" where
  "redis_probe env p \<longleftrightarrow> (\<exists>conn. pe_redis_get env p = Inr conn \<and> is_ok (pe_redis_ping env conn))"

definition turso_probe :: "probe_env \<Rightarrow> nat \<Rightarrow> bool" where
  "turso_probe env p \<longleftrightarrow> (\<exists>conn. pe_turso_connect env p = Inr conn \<and> is_ok (pe_turso_query env conn))"

text \<open>A configured backend that must be there, and the probe of its pool.\<close>

definition required :: "'c option \<Rightarrow> ('c \<Rightarrow> bool) \<Rightarrow> nat option \<Rightarrow> (nat \<Rightarrow> bool) \<Rightarrow> bool" where
  "required config optional pool probe \<longleftrightarrow>
     (case config of Some c \<Rightarrow> optional c \<or> (case pool of Some p \<Rightarrow> probe p | None \<Rightarrow> False) | None \<Rightarrow> True)"

lemma snd_check_backend [simp]:
  "snd (check_backend name is_optional is_lazy probe acc) \<longleftrightarrow>
     (is_optional \<or> (case probe of Some r \<Rightarrow> is_ok r | None \<Rightarrow> False)) \<and> snd acc"
  by (auto simp: check_backend_def split: prod.splits option.splits sum.splits)

lemma is_ok_prefix_error [simp]: "is_ok (prefix_error p r) = is_ok r"
  by (cases r) (simp_all add: prefix_error_def)

lemma snd_apply_outcomes: "snd (fold apply_outcome os acc) \<longleftrightarrow> (\<forall>p \<in> set os. \<not> is_unready (snd p)) \<and> snd acc"
  by (induction os arbitrary: acc) (auto simp: apply_outcome_def is_unready_def split: prod.splits check_outcome.splits)

lemma snd_checks:
  "snd (check_database env st acc) \<longleftrightarrow> required (ac_database (as_config st)) db_optional (as_db_pool st) (\<lambda>p. is_ok (pe_pg_select env p)) \<and> snd acc"
  "snd (check_redis env st acc) \<longleftrightarrow> required (ac_redis (as_config st)) re_optional (as_redis_pool st) (redis_probe env) \<and> snd acc"
  "snd (check_nats env st acc) \<longleftrightarrow> required (ac_nats (as_config st)) na_optional (as_nats_client st) (\<lambda>p. pe_nats_state env p = NatsConnected) \<and> snd acc"
  "snd (check_turso env st acc) \<longleftrightarrow> required (ac_turso (as_config st)) tu_optional (as_turso_db st) (turso_probe env) \<and> snd acc"
  "snd (check_surrealdb env st acc) \<longleftrightarrow> required (ac_surrealdb (as_config st)) sr_optional (as_surrealdb_client st) (\<lambda>p. is_ok (pe_surreal_query env p)) \<and> snd acc"
  "snd (check_clickhouse env st acc) \<longleftrightarrow> required (ac_clickhouse (as_config st)) ck_optional (as_clickhouse_client st) (\<lambda>p. is_ok (pe_clickhouse_query env p)) \<and> snd acc"
  "snd (check_grpc st acc) \<longleftrightarrow> snd acc"
  by (auto simp: check_database_def check_redis_def check_nats_def check_turso_def check_surrealdb_def check_clickhouse_def check_grpc_def
      required_def redis_probe_def turso_probe_def prefix_error_def is_ok_iff split: option.splits sum.splits nats_state.splits prod.splits)


text \<open>
  An application's check hides the entry of the backend whose name it has: the report then says what the check says, while
  the endpoint still answers 503 for the backend.
\<close>

lemma last_outcome_wins:
  "name \<notin> fst ` set os \<Longrightarrow> map_of (fst (fold apply_outcome os acc)) name = map_of (fst acc) name"
  by (induction os arbitrary: acc) (auto simp: apply_outcome_def AList.update_conv' split: prod.splits check_outcome.splits)

theorem check_hides_backend:
  assumes "hc_readiness (as_health_checks st) = pre @ [c]" and "run_check (hc_deadline (as_health_checks st)) c = Ready"
  shows "map_of (rr_dependencies (snd (readiness env st))) (ck_name c) = Some \<lparr>ds_healthy = True, ds_message = None\<rparr>"
  using assms by (auto simp: readiness_def readiness_outcomes_def run_concurrent_def apply_outcome_def AList.update_conv' split: prod.splits)

subsection \<open>Building\<close>

lemma init_slot_required:
  "\<lbrakk>init_slot provided (Some c) lazy optional create task = Inr (pool, ts); \<not> lazy c; \<not> optional c\<rbrakk> \<Longrightarrow> pool \<noteq> None"
  by (auto simp: init_slot_def split: option.splits sum.splits)

lemma init_slot_lazy:
  "\<lbrakk>init_slot None (Some c) lazy optional create task = Inr (pool, ts); lazy c\<rbrakk> \<Longrightarrow> pool = None \<and> ts = [task c]"
  by (simp add: init_slot_def)

lemma buildE:
  assumes "build env b = (Inr st, tasks)"
  obtains t1 t2 t3 where
    "init_slot (ab_db_pool b) (ac_database (as_config st)) db_lazy_init db_optional (be_create_db env) LazyDatabase = Inr (as_db_pool st, t1)"
    "init_slot (ab_redis_pool b) (ac_redis (as_config st)) re_lazy_init re_optional (be_create_redis env) LazyRedis = Inr (as_redis_pool st, t2)"
    "init_slot (ab_nats_client b) (ac_nats (as_config st)) na_lazy_init na_optional (be_create_nats env) LazyNats = Inr (as_nats_client st, t3)"
    "tasks = t1 @ t2 @ t3"
  using assms by (auto simp: build_def app_state_new_def Let_def split: sum.splits prod.splits)

text \<open>
  A state that was built has every backend that is required and not lazy connected; a lazy one is connected once
  its task has ended, if the connection can be made.
\<close>

theorem built_state_connected:
  assumes "build env b = (Inr st, tasks)"
  shows "ac_database (as_config st) = Some c \<Longrightarrow> \<not> db_lazy_init c \<Longrightarrow> \<not> db_optional c \<Longrightarrow> as_db_pool st \<noteq> None"
    and "ac_redis (as_config st) = Some c' \<Longrightarrow> \<not> re_lazy_init c' \<Longrightarrow> \<not> re_optional c' \<Longrightarrow> as_redis_pool st \<noteq> None"
    and "ac_nats (as_config st) = Some c'' \<Longrightarrow> \<not> na_lazy_init c'' \<Longrightarrow> \<not> na_optional c'' \<Longrightarrow> as_nats_client st \<noteq> None"
  using assms by (auto elim!: buildE dest: init_slot_required)

theorem lazy_database_fills:
  assumes "build env b = (Inr st, tasks)" and "ab_db_pool b = None" and "ac_database (as_config st) = Some c"
    and "db_lazy_init c" and "be_create_db env c = Inr p"
  shows "as_db_pool st = None \<and> LazyDatabase c \<in> set tasks \<and> as_db_pool (lazy_connected env (LazyDatabase c) st) = Some p"
proof -
  from assms(1) obtain t1 t2 t3 where
    "init_slot None (Some c) db_lazy_init db_optional (be_create_db env) LazyDatabase = Inr (as_db_pool st, t1)" "tasks = t1 @ t2 @ t3"
    using assms(2,3) by (elim buildE) auto
  with init_slot_lazy [OF this(1) assms(4)] assms(5) show ?thesis by (simp add: lazy_connected_def)
qed

subsection \<open>Addresses in the pool report\<close>

text \<open>
  The SurrealDB and ClickHouse addresses lose what is between the scheme and the first at sign. The NATS address is
  reported as configured, credentials included.
\<close>

theorem reported_urls:
  assumes "CHR ''@'' \<notin> set scheme" "CHR '':'' \<notin> set scheme" "CHR ''@'' \<notin> set user"
  shows "surreal_sanitize_url (scheme @ ''://'' @ user @ ''@'' @ host) = scheme @ ''://***@'' @ host"
    and "clickhouse_sanitize_url (scheme @ ''://'' @ user @ ''@'' @ host) = scheme @ ''://***@'' @ host"
    and "nh_server_url (nats_health env client (c\<lparr>na_url := scheme @ ''://'' @ user @ ''@'' @ host\<rparr>)) = scheme @ ''://'' @ user @ ''@'' @ host"
proof -
  have at: "find_char CHR ''@'' (scheme @ ''://'' @ user @ ''@'' @ host) = Some (length scheme + 3 + length user)"
    using find_char_first [of "CHR ''@''" "scheme @ ''://'' @ user" host] assms by simp
  have sch: "find_scheme (scheme @ ''://'' @ user @ ''@'' @ host) = Some (length scheme)"
    using find_scheme_first [OF assms(2)] by simp
  show "surreal_sanitize_url (scheme @ ''://'' @ user @ ''@'' @ host) = scheme @ ''://***@'' @ host"
    "clickhouse_sanitize_url (scheme @ ''://'' @ user @ ''@'' @ host) = scheme @ ''://***@'' @ host"
    unfolding surreal_sanitize_url_def clickhouse_sanitize_url_def at sch by (simp_all add: eval_nat_numeral)
qed (simp add: nats_health_def)

end
