(* ===== verification/Grpc.thy ===== *)
theory Grpc
  imports Policy_Stack Health
begin

text \<open>
  gRPC services (\<^verbatim>\<open>src/acton-service/src/grpc/\<close>): the layers of \<^verbatim>\<open>middleware.rs\<close>, the interceptors, the health service, the
  builder of the routes, and the assembly of the layers around the routes in \<^verbatim>\<open>service_builder.rs\<close>.

  A gRPC request is an HTTP request whose path is \<^verbatim>\<open>/package.Service/Method\<close>. A status is turned into a response by
  \<open>ce_grpc_status\<close> of the caller environment; \<open>show_error\<close> is the printer of errors.
\<close>

subsection \<open>Names\<close>

definition path_segments :: "string \<Rightarrow> string list" where
  "path_segments path = split_char CHR ''/'' (dropWhile (\<lambda>c. c = CHR ''/'') path)"

definition extract_service_name :: "string \<Rightarrow> string" where
  "extract_service_name path =
     (case path_segments path of [] \<Rightarrow> ''unknown'' | s # _ \<Rightarrow> last (split_char CHR ''.'' s))"

definition extract_method_name :: "string \<Rightarrow> string" where
  "extract_method_name path = (case path_segments path of _ # m # _ \<Rightarrow> m | _ \<Rightarrow> ''unknown'')"

subsection \<open>Rate limiting\<close>

record local_rate_limit_config =
  lr_enabled :: bool
  lr_requests_per_period :: u32
  lr_period_secs :: u64
  lr_burst_size :: u32

record 'l grpc_rate_limit =
  gl_enabled :: bool
  gl_limiter :: 'l

text \<open>Milliseconds are \<^verbatim>\<open>as_millis() as u64\<close>; \<open>gv_direct\<close> is a limiter with one token per interval and a burst.\<close>

definition grpc_rate_limit_new :: "'l governor_env \<Rightarrow> local_rate_limit_config \<Rightarrow> 'l grpc_rate_limit" where
  "grpc_rate_limit_new gv config =
     (let requests = unat (max (lr_requests_per_period config) 1);
          period_ms = unat (lr_period_secs config) * 1000 mod 2 ^ 64;
          replenish_interval = max (period_ms div requests) 1;
          burst = max (lr_burst_size config) 1
      in \<lparr>gl_enabled = lr_enabled config, gl_limiter = gv_direct gv replenish_interval burst\<rparr>)"

text \<open>The limiter is shared by the clones of the service, so it is part of the state; \<open>wait_ms\<close> is the time to wait.\<close>

definition grpc_rate_limit_call ::
  "caller_env \<Rightarrow> 'l governor_env \<Rightarrow> ('l \<Rightarrow> nat \<Rightarrow> nat) \<Rightarrow> nat \<Rightarrow> bool \<Rightarrow> 's service \<Rightarrow> ('l \<times> 's) service" where
  "grpc_rate_limit_call env gv wait_ms now is_enabled inner rq st =
     (let through = (\<lambda>l. case inner rq (snd st) of (rp, s, events) \<Rightarrow> (rp, (l, s), events))
      in if is_enabled \<and> \<not> is_grpc_infra_path (hr_path rq) then
           (case gv_check gv now (fst st) of
              (False, l) \<Rightarrow> (ce_grpc_status env 8 (''Rate limit exceeded; retry in '' @ show_nat (wait_ms l now) @ ''ms''), (l, snd st), [])
            | (True, l) \<Rightarrow> through l)
         else through (fst st))"

subsection \<open>Authentication\<close>

record 's grpc_token_auth =
  gt_validate :: "string \<Rightarrow> 's \<Rightarrow> (error + claims) \<times> 's"
  gt_public_paths :: "string list"

definition grpc_public :: "'s grpc_token_auth \<Rightarrow> string \<Rightarrow> bool" where
  "grpc_public auth path \<longleftrightarrow> is_grpc_infra_path path \<or> list_ex (starts_with path) (gt_public_paths auth)"

definition grpc_token_call :: "caller_env \<Rightarrow> (error \<Rightarrow> string) \<Rightarrow> 's grpc_token_auth \<Rightarrow> 's service \<Rightarrow> 's service" where
  "grpc_token_call env show_error auth inner rq s =
     (if grpc_public auth (hr_path rq) \<or> bearer_waived (hr_ext rq) then inner rq s
      else case extract_token (hr_headers rq) of
        Inl e \<Rightarrow> (ce_grpc_status env 16 (show_error e), s, [])
      | Inr token \<Rightarrow>
          (case gt_validate auth token s of
             (Inr claims, s') \<Rightarrow> inner (rq\<lparr>hr_ext := (hr_ext rq)\<lparr>ext_claims := Some claims\<rparr>\<rparr>) s'
           | (Inl e, s') \<Rightarrow> (ce_grpc_status env 16 (show_error e), s', [])))"

text \<open>
  The interceptors for single services. \<open>ascii_value\<close> says which texts can be metadata; \<open>fresh\<close> is a new identifier. The
  identifier of a request is kept in its extensions too.
\<close>

datatype tonic_status = StatusUnauthenticated string | StatusInternal string

definition request_id_interceptor ::
  "(string \<Rightarrow> bool) \<Rightarrow> string \<Rightarrow> header_map \<Rightarrow> tonic_status + header_map \<times> string" where
  "request_id_interceptor ascii_value fresh metadata =
     (let request_id = (case header_string metadata ''x-request-id'' of Some i \<Rightarrow> i | None \<Rightarrow> fresh)
      in if \<not> ascii_value request_id then Inl (StatusInternal ''Failed to parse request ID'')
         else Inr (header_insert ''x-request-id'' request_id metadata, request_id))"

definition add_request_id_to_response :: "(string \<Rightarrow> bool) \<Rightarrow> header_map \<Rightarrow> string \<Rightarrow> tonic_status + header_map" where
  "add_request_id_to_response ascii_value metadata request_id =
     (if ascii_value request_id then Inr (header_insert ''x-request-id'' request_id metadata)
      else Inl (StatusInternal ''Failed to add request ID to response''))"

definition bearer_token :: "header_map \<Rightarrow> string option" where
  "bearer_token metadata = Option.bind (header_string metadata ''authorization'') (\<lambda>s. strip_prefix s ''Bearer '')"

definition token_auth_interceptor ::
  "(error \<Rightarrow> string) \<Rightarrow> (string \<Rightarrow> 's \<Rightarrow> (error + claims) \<times> 's) \<Rightarrow> header_map \<Rightarrow> extensions \<Rightarrow> 's \<Rightarrow> (tonic_status + extensions) \<times> 's" where
  "token_auth_interceptor show_error validate metadata ext s =
     (case bearer_token metadata of
        None \<Rightarrow> (Inl (StatusUnauthenticated ''Missing or invalid authorization token''), s)
      | Some token \<Rightarrow>
          (case validate token s of
             (Inl e, s') \<Rightarrow> (Inl (StatusUnauthenticated (''Invalid token: '' @ show_error e)), s')
           | (Inr claims, s') \<Rightarrow> (Inr (ext\<lparr>ext_claims := Some claims\<rparr>), s')))"

text \<open>The deprecated interceptor looks for a token and does not validate it.\<close>

definition auth_interceptor :: "header_map \<Rightarrow> tonic_status + header_map" where
  "auth_interceptor metadata =
     (case bearer_token metadata of
        None \<Rightarrow> Inl (StatusUnauthenticated ''Missing authentication token'')
      | Some _ \<Rightarrow> Inr metadata)"

subsection \<open>Health\<close>

definition required_ok :: "bool \<Rightarrow> bool \<Rightarrow> bool \<Rightarrow> bool" where
  "required_ok probe_ok is_optional all_healthy = (if \<not> probe_ok \<and> \<not> is_optional then False else all_healthy)"

definition grpc_check_dependencies :: "probe_env \<Rightarrow> app_state \<Rightarrow> bool" where
  "grpc_check_dependencies env st =
     (let c = as_config st;
          all_healthy = True;
          all_healthy = (case ac_database c of None \<Rightarrow> all_healthy | Some d \<Rightarrow>
            required_ok (case as_db_pool st of Some p \<Rightarrow> is_ok (pe_pg_select env p) | None \<Rightarrow> False) (db_optional d) all_healthy);
          all_healthy = (case ac_redis c of None \<Rightarrow> all_healthy | Some r \<Rightarrow>
            required_ok (case as_redis_pool st of
                Some p \<Rightarrow> (case pe_redis_get env p of Inr conn \<Rightarrow> is_ok (pe_redis_ping env conn) | Inl _ \<Rightarrow> False)
              | None \<Rightarrow> False) (re_optional r) all_healthy);
          all_healthy = (case ac_nats c of None \<Rightarrow> all_healthy | Some n \<Rightarrow>
            required_ok (case as_nats_client st of Some p \<Rightarrow> pe_nats_state env p = NatsConnected | None \<Rightarrow> False) (na_optional n) all_healthy);
          all_healthy = (case ac_surrealdb c of None \<Rightarrow> all_healthy | Some r \<Rightarrow>
            required_ok (case as_surrealdb_client st of Some p \<Rightarrow> is_ok (pe_surreal_query env p) | None \<Rightarrow> False) (sr_optional r) all_healthy)
      in all_healthy)"

datatype serving_status = Serving | NotServing

definition grpc_health_check :: "probe_env \<Rightarrow> app_state \<Rightarrow> string \<Rightarrow> serving_status" where
  "grpc_health_check env st service_name = (if grpc_check_dependencies env st then Serving else NotServing)"

text \<open>A watch sends the current status once and ends.\<close>

definition grpc_health_watch :: "probe_env \<Rightarrow> app_state \<Rightarrow> string \<Rightarrow> serving_status list" where
  "grpc_health_watch env st service_name = [if grpc_check_dependencies env st then Serving else NotServing]"

subsection \<open>Server and services\<close>

record grpc_config =
  gc_enabled :: bool
  gc_use_separate_port :: bool
  gc_bind :: "ip_addr option"
  gc_port :: u16
  gc_max_message_size_mb :: u64
  gc_timeout_secs :: u64

definition effective_port :: "grpc_config \<Rightarrow> u16 \<Rightarrow> u16" where
  "effective_port config http_port = (if gc_use_separate_port config then gc_port config else http_port)"

definition effective_bind :: "grpc_config \<Rightarrow> ip_addr \<Rightarrow> ip_addr" where
  "effective_bind config service_bind = (case gc_bind config of Some b \<Rightarrow> b | None \<Rightarrow> service_bind)"

definition max_message_size_bytes :: "grpc_config \<Rightarrow> u64" where
  "max_message_size_bytes config = gc_max_message_size_mb config * 1024 * 1024"

text \<open>\<^verbatim>\<open>GrpcServer::build\<close>: the frame size, the timeout and the keep-alive it sets.\<close>

definition grpc_server_build :: "grpc_config \<Rightarrow> u32 \<times> nat \<times> nat" where
  "grpc_server_build config = (ucast (max_message_size_bytes config), from_secs (unat (gc_timeout_secs config)), from_secs 60)"

definition grpc_socket_addr :: "grpc_config \<Rightarrow> u16 \<Rightarrow> ip_addr \<times> u16" where
  "grpc_socket_addr config http_port = (effective_bind config (V4 [0, 0, 0, 0]), effective_port config http_port)"

record grpc_services_builder =
  gb_routes :: "string list"
  gb_reflection_enabled :: bool
  gb_health_enabled :: bool
  gb_file_descriptor_sets :: "string list"

definition services_new :: grpc_services_builder where
  "services_new = \<lparr>gb_routes = [], gb_reflection_enabled = False, gb_health_enabled = False, gb_file_descriptor_sets = []\<rparr>"

definition with_reflection :: "grpc_services_builder \<Rightarrow> grpc_services_builder" where
  "with_reflection b = b\<lparr>gb_reflection_enabled := True\<rparr>"

definition with_health :: "grpc_services_builder \<Rightarrow> grpc_services_builder" where
  "with_health b = b\<lparr>gb_health_enabled := True\<rparr>"

definition add_file_descriptor_set :: "string \<Rightarrow> grpc_services_builder \<Rightarrow> grpc_services_builder" where
  "add_file_descriptor_set d b = b\<lparr>gb_file_descriptor_sets := gb_file_descriptor_sets b @ [d]\<rparr>"

definition add_service :: "string \<Rightarrow> grpc_services_builder \<Rightarrow> grpc_services_builder" where
  "add_service name b = b\<lparr>gb_routes := gb_routes b @ [name]\<rparr>"

text \<open>A descriptor set stands for itself; \<open>reflection_builds\<close> says whether tonic can build its service from the sets.\<close>

definition HEALTH_DESCRIPTOR :: string where "HEALTH_DESCRIPTOR = ''grpc.health.v1''"

definition services_build :: "(string list \<Rightarrow> bool) \<Rightarrow> bool \<Rightarrow> grpc_services_builder \<Rightarrow> string list" where
  "services_build reflection_builds has_state b =
     (let b = (if gb_health_enabled b \<and> has_state
               then add_file_descriptor_set HEALTH_DESCRIPTOR (add_service ''grpc.health.v1.Health'' b) else b);
          b = (if gb_reflection_enabled b \<and> gb_file_descriptor_sets b \<noteq> [] \<and> reflection_builds (gb_file_descriptor_sets b)
               then add_service ''grpc.reflection.v1.ServerReflection'' b else b)
      in gb_routes b)"

subsection \<open>The gRPC router\<close>

definition grpc_registration_error :: "bool \<Rightarrow> grpc_config option \<Rightarrow> error option" where
  "grpc_registration_error services_registered grpc =
     (let grpc_enabled = (case grpc of Some g \<Rightarrow> gc_enabled g | None \<Rightarrow> False)
      in if \<not> services_registered \<or> grpc_enabled then None
         else let cause = (case grpc of Some _ \<Rightarrow> ''the `[grpc]` section sets `enabled = false`''
                            | None \<Rightarrow> ''no `[grpc]` section is configured'')
              in Some (Internal (''gRPC services were registered with `with_grpc_services`, but gRPC is not enabled: '' @ cause @
                   ''. Those services would be silently discarded and every RPC would fail at the '' @
                   ''client, so the build is refused. To fix, either set `enabled = true` under `[grpc]` in '' @
                   ''your config file, or supply a config whose `grpc` field is '' @
                   ''`Some(GrpcConfig { enabled: true, ..Default::default() })`. If gRPC is not wanted, '' @
                   ''remove the `with_grpc_services` call.'')))"

record 's grpc_stack =
  gk_cedar :: "('s service \<Rightarrow> 's service) option"
  gk_token :: "'s grpc_token_auth option"
  gk_caller_policy :: "caller_auth_policy option"
  gk_logger :: "audit_logger option"

definition grpc_router :: "caller_env \<Rightarrow> (error \<Rightarrow> string) \<Rightarrow> 's grpc_stack \<Rightarrow> 's service \<Rightarrow> 's service" where
  "grpc_router env show_error config app =
     (let app = (case gk_cedar config of Some cedar \<Rightarrow> cedar app | None \<Rightarrow> app);
          app = (case gk_token config of Some auth \<Rightarrow> grpc_token_call env show_error auth app | None \<Rightarrow> app);
          app = (case gk_caller_policy config of
            Some policy \<Rightarrow> if requires_client_ca policy then caller_auth_call env (caller_layer_grpc policy) app else app
          | None \<Rightarrow> app)
      in case gk_logger config of Some logger \<Rightarrow> logger_extension logger app | None \<Rightarrow> app)"

subsection \<open>Who reaches a gRPC service\<close>

definition grpc_token_passes :: "caller_env \<Rightarrow> caller_auth_policy option \<Rightarrow> 's grpc_token_auth \<Rightarrow> request \<Rightarrow> 's \<Rightarrow> bool" where
  "grpc_token_passes env policy_opt auth rq s \<longleftrightarrow>
     grpc_public auth (hr_path rq)
     \<or> (case policy_opt of Some policy \<Rightarrow> layer_waives env (caller_layer_grpc policy) rq | None \<Rightarrow> False)
     \<or> (\<exists>token c s'. extract_token (hr_headers rq) = Inr token \<and> gt_validate auth token s = (Inr c, s'))"

lemma grpc_layer_policy [simp]: "cal_policy (caller_layer_grpc policy) = policy"
  by (simp add: caller_layer_grpc_def)

lemma grpc_token_blocks:
  assumes "\<not> grpc_public auth (hr_path rq)" "\<not> bearer_waived (hr_ext rq)"
    and "\<nexists>token c s'. extract_token (hr_headers rq) = Inr token \<and> gt_validate auth token s = (Inr c, s')"
  shows "blocks (grpc_token_call env show_error auth) rq s"
proof (cases "extract_token (hr_headers rq)")
  case (Inl e)
  with assms(1,2) show ?thesis by (simp add: blocks_def grpc_token_call_def)
next
  case (Inr token)
  then obtain e s' where "gt_validate auth token s = (Inl e, s')"
    using assms(3) by (metis prod.exhaust_sel sum.exhaust_sel)
  with Inr assms(1,2) show ?thesis by (simp add: blocks_def grpc_token_call_def)
qed

lemma same_request_layer:
  assumes "same_request rq rq'"
  shows "layer_passes env layer rq' = layer_passes env layer rq" and "layer_waives env layer rq' = layer_waives env layer rq"
  using assms by (auto simp: same_request_def layer_passes_def layer_waives_def allowlisted_def leaf_certificate_def)

lemma grpc_token_passed:
  fixes s :: 's
  assumes "same_request rq rq'" and "bearer_waived (hr_ext rq') = waived"
    and "grpc_token_call env show_error auth app rq' s \<noteq> grpc_token_call env show_error auth app' rq' s"
  shows "grpc_public auth (hr_path rq) \<or> waived \<or>
    (\<exists>token c s'. extract_token (hr_headers rq) = Inr token \<and> gt_validate auth token s = (Inr c, s'))"
proof (rule ccontr)
  assume "\<not> ?thesis"
  then have "blocks (grpc_token_call env show_error auth) rq' s"
    using assms(1,2) by (intro grpc_token_blocks) (simp_all add: same_request_def)
  with assms(3) show False by (auto simp: blocks_def)
qed

text \<open>
  C6: Nobody reaches a gRPC service without credentials. Whatever the services and the policies do, the answer to a call
  from the network depends on them only when the call passed both gates: a configured certificate policy found a health
  or reflection path, an exempt path, an allowlisted certificate, or (in the mode that accepts either) a bearer header;
  and configured token authentication found such a path, a token that validates, or a certificate that waives it.
\<close>

theorem grpc_needs_credentials:
  fixes s :: 's
  assumes net: "from_network rq" and differs: "grpc_router env show_error config app rq s \<noteq> grpc_router env show_error config app' rq s"
  shows "(\<forall>policy. gk_caller_policy config = Some policy \<longrightarrow> layer_passes env (caller_layer_grpc policy) rq) \<and>
    (\<forall>auth. gk_token config = Some auth \<longrightarrow> grpc_token_passes env (gk_caller_policy config) auth rq s)"
proof -
  define rq1 where "rq1 = (case gk_logger config of
    Some logger \<Rightarrow> rq\<lparr>hr_ext := (hr_ext rq)\<lparr>ext_audit_logger := Some logger\<rparr>\<rparr> | None \<Rightarrow> rq)"
  let ?ced = "\<lambda>a :: 's service. case gk_cedar config of Some cedar \<Rightarrow> cedar a | None \<Rightarrow> a"
  let ?tok = "\<lambda>a. case gk_token config of Some auth \<Rightarrow> grpc_token_call env show_error auth (?ced a) | None \<Rightarrow> ?ced a"
  have same: "same_request rq rq1" and none: "ext_caller_identity (hr_ext rq1) = None"
    using net by (simp_all add: rq1_def same_request_def from_network_def split: option.split)
  have router: "grpc_router env show_error config a rq s = (case gk_caller_policy config of
      Some policy \<Rightarrow> if requires_client_ca policy then caller_auth_call env (caller_layer_grpc policy) (?tok a) rq1 s else ?tok a rq1 s
    | None \<Rightarrow> ?tok a rq1 s)" for a
    by (auto simp: grpc_router_def rq1_def logger_extension_def Let_def split: option.split)
  show ?thesis
  proof (cases "\<exists>policy. gk_caller_policy config = Some policy \<and> requires_client_ca policy")
    case True
    then obtain policy where policy: "gk_caller_policy config = Some policy" "requires_client_ca policy" by blast
    from any_caller_layer_cases [OF none, of env "caller_layer_grpc policy" s] differs
    obtain rq2 where rq2: "same_request rq1 rq2" "bearer_waived (hr_ext rq2) = layer_waives env (caller_layer_grpc policy) rq1"
      "layer_passes env (caller_layer_grpc policy) rq1"
      "\<forall>inner :: 's service. caller_auth_call env (caller_layer_grpc policy) inner rq1 s = inner rq2 s"
      by (auto simp: router policy blocks_def)
    have "same_request rq rq2" using same rq2(1) by (simp add: same_request_def)
    moreover have "?tok app rq2 s \<noteq> ?tok app' rq2 s" using differs rq2(4) by (simp add: router policy)
    ultimately have "grpc_token_passes env (gk_caller_policy config) auth rq s" if "gk_token config = Some auth" for auth
      using grpc_token_passed [of rq rq2 _ env show_error auth "?ced app" s "?ced app'"] that rq2(2)
      by (simp add: grpc_token_passes_def policy same_request_layer(2) [OF same])
    then show ?thesis using rq2(3) policy(1) by (simp add: same_request_layer(1) [OF same])
  next
    case False
    then have "?tok app rq1 s \<noteq> ?tok app' rq1 s" using differs by (auto simp: router split: option.splits)
    then have "grpc_token_passes env (gk_caller_policy config) auth rq s" if "gk_token config = Some auth" for auth
      using grpc_token_passed [OF same, of False env show_error auth "?ced app" s "?ced app'"] that none
      by (auto simp: grpc_token_passes_def bearer_waived_def)
    moreover have "layer_passes env (caller_layer_grpc policy) rq" if "gk_caller_policy config = Some policy" for policy
      using False that by (cases "cp_mode policy") (auto simp: requires_client_ca_def layer_passes_def)
    ultimately show ?thesis by blast
  qed
qed

theorem grpc_needs_credentials_witness:
  "grpc_token_passes sample_caller_env None \<lparr>gt_validate = (\<lambda>token s. (Inr sample_claims, s)), gt_public_paths = []\<rparr>
     (sample_request\<lparr>hr_path := ''/a.S/M''\<rparr>) ()"
proof -
  let ?auth = "\<lparr>gt_validate = (\<lambda>token s. (Inr sample_claims, s)), gt_public_paths = []\<rparr> :: unit grpc_token_auth"
  let ?config = "\<lparr>gk_cedar = None, gk_token = Some ?auth, gk_caller_policy = None, gk_logger = None\<rparr>"
  let ?rq = "sample_request\<lparr>hr_path := ''/a.S/M''\<rparr>"
  let ?app = "\<lambda>n rq s. (\<lparr>rp_status = n, rp_headers = [], rp_body = Opaque []\<rparr>, s, []) :: response \<times> unit \<times> audit_event list"
  have "from_network ?rq" by (simp add: from_network_def sample_request_def sample_caller_request_def)
  moreover have "grpc_router sample_caller_env (\<lambda>_. []) ?config (?app 200) ?rq () \<noteq>
      grpc_router sample_caller_env (\<lambda>_. []) ?config (?app 404) ?rq ()"
    by (simp add: grpc_router_def grpc_token_call_def grpc_public_def is_grpc_infra_path_def sample_request_def sample_caller_request_def bearer_waived_def
        extract_token_def header_string_def header_to_str_def)
  ultimately have "(\<forall>auth. gk_token ?config = Some auth \<longrightarrow> grpc_token_passes sample_caller_env (gk_caller_policy ?config) auth ?rq ())"
    using grpc_needs_credentials [of ?rq sample_caller_env "\<lambda>_. []" ?config "?app 200" "()" "?app 404"] by blast
  then show ?thesis by simp
qed

text \<open>Token revocation is not consulted here, as the layer's documentation says: a token that validates is let in.\<close>

lemma grpc_ignores_revocation:
  assumes "\<not> grpc_public auth (hr_path rq)" "\<not> bearer_waived (hr_ext rq)" "extract_token (hr_headers rq) = Inr token"
    and "gt_validate auth token s = (Inr c, s')"
  shows "grpc_token_call env show_error auth inner rq s = inner (rq\<lparr>hr_ext := (hr_ext rq)\<lparr>ext_claims := Some c\<rparr>\<rparr>) s'"
  using assms by (simp add: grpc_token_call_def)

text \<open>Health and reflection are never limited; everything else is refused exactly when the limiter refuses it.\<close>

lemma grpc_rate_limit_cases:
  "grpc_rate_limit_call env gv wait_ms now True inner rq (l, s) =
     (if is_grpc_infra_path (hr_path rq) then (case inner rq s of (rp, s', events) \<Rightarrow> (rp, (l, s'), events))
      else case gv_check gv now l of
        (True, l') \<Rightarrow> (case inner rq s of (rp, s', events) \<Rightarrow> (rp, (l', s'), events))
      | (False, l') \<Rightarrow> (ce_grpc_status env 8 (''Rate limit exceeded; retry in '' @ show_nat (wait_ms l' now) @ ''ms''), (l', s), []))"
  by (simp add: grpc_rate_limit_call_def split: prod.split bool.split)

subsection \<open>Health over gRPC and over HTTP\<close>

theorem grpc_health_iff:
  "grpc_health_check env st name = Serving \<longleftrightarrow>
     required (ac_database (as_config st)) db_optional (as_db_pool st) (\<lambda>p. is_ok (pe_pg_select env p))
     \<and> required (ac_redis (as_config st)) re_optional (as_redis_pool st) (redis_probe env)
     \<and> required (ac_nats (as_config st)) na_optional (as_nats_client st) (\<lambda>p. pe_nats_state env p = NatsConnected)
     \<and> required (ac_surrealdb (as_config st)) sr_optional (as_surrealdb_client st) (\<lambda>p. is_ok (pe_surreal_query env p))"
  by (auto simp: grpc_health_check_def grpc_check_dependencies_def required_ok_def required_def redis_probe_def Let_def
      split: option.splits sum.splits)

text \<open>
  The two disagree: the gRPC check knows neither Turso nor ClickHouse nor the checks an application registers, so it
  serves while a required one of them is missing.
\<close>

theorem grpc_health_ignores_turso:
  "grpc_health_check env (st\<lparr>as_turso_db := t, as_clickhouse_client := c, as_health_checks := h\<rparr>) name = grpc_health_check env st name"
proof -
  let ?st = "st\<lparr>as_turso_db := t, as_clickhouse_client := c, as_health_checks := h\<rparr>"
  have "grpc_health_check env ?st name = Serving \<longleftrightarrow> grpc_health_check env st name = Serving" unfolding grpc_health_iff by simp
  then show ?thesis by (metis serving_status.exhaust)
qed

subsection \<open>Names, services and sizes\<close>

lemma split_char_at: "split_char d (s @ d # t) = split_char d s @ split_char d t"
  by (induction s) (auto split: list.splits)

text \<open>The names of a call are those of its path.\<close>

lemma names_of_path:
  assumes "CHR ''/'' \<notin> set package" "CHR ''/'' \<notin> set service" "CHR ''.'' \<notin> set service" "CHR ''/'' \<notin> set m" "package \<noteq> []"
  shows "extract_service_name (''/'' @ package @ ''.'' @ service @ ''/'' @ m) = service"
    and "extract_method_name (''/'' @ package @ ''.'' @ service @ ''/'' @ m) = m"
proof -
  have "dropWhile (\<lambda>c. c = CHR ''/'') (''/'' @ package @ ''.'' @ service @ ''/'' @ m) = (package @ ''.'' @ service) @ CHR ''/'' # m"
    using assms(1,5) by (cases package) auto
  then have segs: "path_segments (''/'' @ package @ ''.'' @ service @ ''/'' @ m) = [package @ ''.'' @ service, m]"
    using split_char_at [of "CHR ''/''" "package @ ''.'' @ service" m] assms(1,2,4)
    by (simp only: path_segments_def) (simp add: split_char_id)
  have "last (split_char CHR ''.'' (p @ CHR ''.'' # service)) = service" for p
    using assms(3) by (simp add: split_char_at split_char_id)
  then show "extract_service_name (''/'' @ package @ ''.'' @ service @ ''/'' @ m) = service"
    unfolding extract_service_name_def segs by simp
  show "extract_method_name (''/'' @ package @ ''.'' @ service @ ''/'' @ m) = m"
    unfolding extract_method_name_def segs by simp
qed

text \<open>Where the health service is served, reflection describes it.\<close>

lemma health_is_described:
  assumes "gb_health_enabled b" "gb_reflection_enabled b" "\<And>ds. ds \<noteq> [] \<Longrightarrow> reflection_builds ds"
  shows "services_build reflection_builds True b =
    gb_routes b @ [''grpc.health.v1.Health'', ''grpc.reflection.v1.ServerReflection'']"
  using assms by (simp add: services_build_def add_service_def add_file_descriptor_set_def)

text \<open>The configured message size becomes the frame size, modulo its width: four gigabytes become zero.\<close>

lemma frame_size_wraps: "gc_max_message_size_mb config = 4096 \<Longrightarrow> fst (grpc_server_build config) = 0"
  by (simp add: grpc_server_build_def max_message_size_bytes_def)

end
