(* ===== verification/Spec2Isabelle.thy ===== *)
theory Spec2Isabelle
  imports Repository_Errors Lockout Accounts_Turso Key_Rotation_Turso Policy_Stack Audit_Decorators Pool_Agents Token_Generation Versioning Sessions OAuth
    Web_Sockets Sse Pagination Config_Audit Audit_Lazy Client_Tls Grpc
begin

text \<open>
  \<^bold>\<open>A verification library for acton-service\<close>

  acton-service is a Rust framework for HTTP services: it assembles routers, middleware, authentication, accounts,
  audit logging and storage backends. This library models its own logic, function by function, and proves what
  makes it correct. File names below are relative to \<^verbatim>\<open>src/acton-service/src/\<close>. Each theory names its files and
  what of the program is an argument of its definitions.

  \<^bold>\<open>Foundations.\<close> \<open>Prelude\<close> holds the machine types, the modelled parts of the Rust standard library and shared
  lemmas. \<open>Errors\<close> (\<^verbatim>\<open>error.rs\<close>) and \<open>Repository_Errors\<close> (\<^verbatim>\<open>repository/error.rs\<close>, \<^verbatim>\<open>handlers/error.rs\<close>): the error type,
  its HTTP response and the conversions between layers; the status line agrees with the body, internal text is not
  shown to clients, what redaction of connection addresses guarantees. \<open>Redis_Store\<close>: the Redis commands the framework
  sends, as a record of functions with the documented effects as laws.

  \<^bold>\<open>Audit trail.\<close> Handlers emit events to the audit agent; the agent seals each event into a hash chain and queues it
  for the writer task, which stores and exports it; retention removes old events. \<open>Audit_Event\<close> (\<^verbatim>\<open>audit/event.rs\<close>),
  \<open>Audit_Chain\<close> (\<^verbatim>\<open>audit/chain.rs\<close>), \<open>Audit_Failure_Tracker\<close> (\<^verbatim>\<open>audit/failure_tracker.rs\<close>, \<^verbatim>\<open>audit/alert.rs\<close>),
  \<open>Audit_Storage\<close> (\<^verbatim>\<open>audit/storage/mod.rs\<close>, \<^verbatim>\<open>audit/storage/pg.rs\<close>), \<open>Audit_Syslog\<close> (\<^verbatim>\<open>audit/syslog.rs\<close>) and \<open>Audit_Agent\<close>
  (\<^verbatim>\<open>audit/agent.rs\<close>, \<^verbatim>\<open>audit/archive.rs\<close>). Two verified chains with the same last hash agree or exhibit a hash
  collision; under every interleaving of agent, start-up task and writer and every pattern of database faults the table
  holds the sealed events in order, and it verifies when no append failed; what a retention cycle removes and archives.
  \<open>Audit_Backends\<close> (\<^verbatim>\<open>audit/storage/turso.rs\<close>) and \<open>Audit_Lazy\<close> (\<^verbatim>\<open>audit/storage/lazy.rs\<close>, \<^verbatim>\<open>audit/wiring.rs\<close>): the Turso backend
  keeps the same trail, and however many callers use an unattached storage at once, it attaches to one database, once.
  \<open>Audit_Middleware\<close> (\<^verbatim>\<open>audit/middleware.rs\<close>) decides which requests are recorded, \<open>Audit_Decorators\<close>
  (\<^verbatim>\<open>audit/decorators.rs\<close>) record the operations of token and key stores, \<open>Config_Audit\<close> (\<^verbatim>\<open>audit/config_audit.rs\<close>) redacts
  and fingerprints the configuration: redaction forgets exactly the values with sensitive names.

  \<^bold>\<open>Identities.\<close> \<open>Password\<close> (\<^verbatim>\<open>auth/password.rs\<close>), \<open>Accounts\<close> (\<^verbatim>\<open>accounts/\<close>), \<open>Accounts_Turso\<close>
  (\<^verbatim>\<open>accounts/storage/turso.rs\<close>), \<open>Lockout\<close> (\<^verbatim>\<open>lockout/\<close>), \<open>Key_Rotation\<close> and
  \<open>Key_Rotation_Turso\<close> (\<^verbatim>\<open>auth/key_rotation/\<close>), \<open>Token_Generation\<close> (\<^verbatim>\<open>auth/tokens/\<close>), \<open>Refresh_Tokens\<close> (\<^verbatim>\<open>auth/tokens/refresh.rs\<close>), \<open>Api_Keys\<close>
  (\<^verbatim>\<open>auth/api_keys/\<close>) and \<open>OAuth\<close> (\<^verbatim>\<open>auth/oauth/\<close>). The account service refines a map from addresses to accounts, and its
  statuses follow the transition table; the Turso table read through its texts is the PostgreSQL table, so both hold over
  Turso too (what the Turso backends share is \<open>Turso_Tables\<close>); password guessing stops at the configured number of attempts in every window;
  rotation keeps one active key, over both tables, and rolls back; tokens that were issued are accepted with their claims, before and
  after rotation; a revoked family of refresh tokens stays revoked; an issued API key is found again in each backend; the
  state parameter of OAuth is accepted once, for what it was issued.

  \<^bold>\<open>Requests.\<close> \<open>Request\<close> (\<^verbatim>\<open>middleware/token.rs\<close>, \<^verbatim>\<open>middleware/request_context.rs\<close>, \<^verbatim>\<open>audit/logger.rs\<close>) is what middleware
  sees. \<open>Caller_Auth\<close> (\<^verbatim>\<open>caller_auth.rs\<close>) admits callers by certificate, \<open>Token_Auth\<close> (\<^verbatim>\<open>middleware/jwt.rs\<close>, \<^verbatim>\<open>paseto.rs\<close>,
  \<^verbatim>\<open>revocation.rs\<close>) by token, \<open>Route_Matcher\<close> and \<open>Rate_Limit\<close> (\<^verbatim>\<open>middleware/route_matcher.rs\<close>, \<^verbatim>\<open>rate_limit.rs\<close>,
  \<^verbatim>\<open>governor.rs\<close>) limit rates, \<open>Cedar\<close> (\<^verbatim>\<open>middleware/cedar.rs\<close>) asks policies, \<open>Sessions\<close> (\<^verbatim>\<open>session/\<close>) keeps sessions, CSRF
  tokens and flash messages. \<open>Service_Stack\<close> (\<^verbatim>\<open>service_builder.rs\<close>) composes the layers in the order of the code and
  \<open>Policy_Stack\<close> puts policies into it: no request reaches the router without the credentials the configuration asks for,
  and no policy decides about a request without a valid token. \<open>Grpc\<close> (\<^verbatim>\<open>grpc/\<close>) does the same for the routes of gRPC services and
  compares their health service with the readiness endpoint. \<open>Versioning\<close> (\<^verbatim>\<open>versioning.rs\<close>) mounts versions and adds
  deprecation headers, \<open>Pagination\<close> (\<^verbatim>\<open>handlers/query.rs\<close>, \<^verbatim>\<open>handlers/response.rs\<close>, \<^verbatim>\<open>repository/pagination.rs\<close>,
  \<^verbatim>\<open>responses.rs\<close>) describes lists in pages that cover the list exactly.

  \<^bold>\<open>Agents and operation.\<close> \<open>Background_Worker\<close> (\<^verbatim>\<open>agents/background_worker.rs\<close>) and \<open>Pool_Agents\<close> (\<^verbatim>\<open>agents/pool.rs\<close> and the
  six backends' retry loops) are step relations over callers, mailboxes and tasks: every waiter is answered, the
  registry tells the truth, the loop ends and sleeps as configured. \<open>Web_Sockets\<close> (\<^verbatim>\<open>websocket/\<close>) refines a bounded
  membership relation; \<open>Sse\<close> (\<^verbatim>\<open>sse/\<close>) delivers to each subscriber what is published to its topic. \<open>Health\<close> (\<^verbatim>\<open>checks.rs\<close>, \<^verbatim>\<open>health.rs\<close>, \<^verbatim>\<open>pool_health.rs\<close>, \<^verbatim>\<open>state.rs\<close>) answers 200 exactly when what
  is required is there.

  \<^bold>\<open>TLS.\<close> \<open>Tls_Rotation\<close> (\<^verbatim>\<open>tls.rs\<close>) loads credential files, polls them and replaces the configuration of a listener: files that have
  come to rest are served after the next poll, and two ways in which a rotation is missed are exhibited; connections are
  served with the configuration of their accept. \<open>Client_Tls\<close> (\<^verbatim>\<open>client_tls.rs\<close>) is the identity of outgoing connections: every
  handshake, also during a reload, presents a certificate with its own key, and all kinds of clients trust the same roots.

  \<^bold>\<open>Conventions.\<close> Structs are records, enums datatypes, \<^verbatim>\<open>Result\<close> is a sum with the error on the left, a panic is
  \<^const>\<open>None\<close> or a constructor of its own. A \<^verbatim>\<open>String\<close> is its UTF-8 bytes, one \<^typ>\<open>char\<close> each. Integers that are
  stored or wrap are words; counts of bytes and elements are natural numbers; products and sums wrap as in a release build.
  Hash maps are association lists in any order. Clocks, random identifiers and third-party code (hash functions,
  printers, drivers, servers) are arguments; what a theorem needs of them is a hypothesis of that theorem, and its
  witness gives concrete functions. One call of a service is one step; where the code interleaves agents and tasks,
  the interleaving is a step relation.

  \<^bold>\<open>Interfaces.\<close> The interfaces between components are locales, each interpreted on the model's definitions:
  \<open>audit_store\<close>, \<open>audit_trail\<close> and \<open>initializable\<close> (storage backends of the trail, PostgreSQL and, under \<open>turso_laws\<close>, Turso), \<open>key_store\<close>, \<open>account_store\<close>, \<open>refresh_store\<close>,
  \<open>api_key_store\<close> (PostgreSQL and, where modelled, Turso and Redis), \<open>session_laws\<close> and the family \<open>redis_laws\<close>,
  \<open>redis_set_laws\<close>, \<open>redis_kv_laws\<close>, \<open>redis_getdel\<close> for the Redis commands, interpreted on a server that follows the
  documentation.

  \<^bold>\<open>Loops and fuel.\<close> The start-up wait and the cleanup loop of the audit agent are partial functions in the option
  type, and both are proved to return: the wait after at most 121 polls (30 seconds at 250 milliseconds), the cleanup loop
  in its second turn. The retry loop of the pools has fuel; one more than the number of retries is shown to be enough.
  \<open>html_unescape\<close>, the reader the escaping theorem uses, has the length of the text as fuel. Replacing numeric path
  segments ends by a measure. All other recursion is over data.

  \<^bold>\<open>Not modelled.\<close> Sockets, HTTP servers, TLS handshakes, generated code, the exporters for metrics and traces, the
  adapters to GraphQL and templates, and the command-line generator, which writes files. Logging calls have no
  effect in the model. Of the storage backends those of SurrealDB and ClickHouse, whose query languages have no
  standard semantics to rely on.
\<close>

end
